(* ===== verification/Prelude.thy ===== *)
theory Prelude
  imports Main "HOL-Library.Word" "HOL-Library.Signed_Division"
begin

unbundle bit_operations_syntax

text \<open>
  Shared vocabulary of the development: the machine types of
  \<^verbatim>\<open>os/ports/GCC/ARMCMx/chtypes.h\<close>, C's signed 32-bit arithmetic, the effect type in which every
  kernel and application routine is written, its sequencing operator, the safety predicate over it,
  and the generic list facts the components share.
\<close>

section \<open>Machine types\<close>

type_synonym tid = nat
type_synonym tprio = nat
type_synonym msg = int
type_synonym byte = "8 word"
type_synonym systime = "32 word"
type_synonym eventmask = "32 word"
type_synonym flagsmask = "32 word"

text \<open>A C \<open>int\<close> (32 bits, two's complement) that holds the mathematical value of an expression.\<close>

definition s32 :: "int \<Rightarrow> int" where
  "s32 x = (x + 2147483648) mod 4294967296 - 2147483648"

lemma s32_id [simp]: "-2147483648 \<le> x \<Longrightarrow> x < 2147483648 \<Longrightarrow> s32 x = x"
  by (simp add: s32_def)

lemma s32_range: "-2147483648 \<le> s32 x \<and> s32 x < 2147483648"
proof -
  have "0 \<le> (x + 2147483648) mod 4294967296" "(x + 2147483648) mod 4294967296 < 4294967296"
    by simp_all
  then show ?thesis by (simp add: s32_def)
qed

section \<open>Outcomes\<close>

text \<open>
  A routine that runs on a thread is a function from the system state to an outcome.
  \<^item> \<open>Done r s\<close>: it returned \<open>r\<close> in state \<open>s\<close>.
  \<^item> \<open>Switch s k\<close>: it executed \<open>chSysSwitch\<close>; \<open>s\<close> is the state right after the switch (another thread
    is current) and \<open>k\<close> is the rest of the routine, which runs from the state in which the
    switched-out thread becomes current again.
  \<^item> \<open>Window s k\<close>: it left the kernel lock and will take it again; interrupts and other threads may
    act before \<open>k\<close> continues.
  \<^item> \<open>Fault\<close>: it did something whose effect C does not define or which never ends (a thread removed
    from an empty queue, a buffer index out of range, a timer linked twice).
\<close>

datatype ('s, 'r) outcome =
    Done 'r 's
  | Switch 's "'s \<Rightarrow> ('s, 'r) outcome"
  | Window 's "'s \<Rightarrow> ('s, 'r) outcome"
  | Fault

primrec obind :: "('s, 'a) outcome \<Rightarrow> ('a \<Rightarrow> 's \<Rightarrow> ('s, 'b) outcome) \<Rightarrow> ('s, 'b) outcome" where
  "obind (Done r s) f = f r s"
| "obind (Switch s k) f = Switch s (\<lambda>s'. obind (k s') f)"
| "obind (Window s k) f = Window s (\<lambda>s'. obind (k s') f)"
| "obind Fault f = Fault"

lemma obind_Done_right [simp]: "obind m (\<lambda>r s. Done r s) = m"
  by (induction m) auto

lemma obind_unit_right [simp]: "obind m (\<lambda>r s. Done () s) = m" for m :: "('s, unit) outcome"
  by (induction m) auto

lemma obind_assoc: "obind (obind m f) g = obind m (\<lambda>r s. obind (f r s) g)"
  by (induction m) auto

text \<open>
  \<open>safe G R Q m\<close>: no fault is reached; whenever the processor is handed over (or the lock opened) the
  state satisfies \<open>G\<close>; provided every state handed back satisfies \<open>R\<close>, the result satisfies \<open>Q\<close>.
\<close>

primrec safe :: "('s \<Rightarrow> bool) \<Rightarrow> ('s \<Rightarrow> bool) \<Rightarrow> ('r \<Rightarrow> 's \<Rightarrow> bool) \<Rightarrow> ('s, 'r) outcome \<Rightarrow> bool" where
  "safe G R Q (Done r s) = Q r s"
| "safe G R Q (Switch s k) = (G s \<and> (\<forall>s'. R s' \<longrightarrow> safe G R Q (k s')))"
| "safe G R Q (Window s k) = (G s \<and> (\<forall>s'. R s' \<longrightarrow> safe G R Q (k s')))"
| "safe G R Q Fault = False"

lemma safe_obind:
  "safe G R Q m \<Longrightarrow> (\<And>r s. Q r s \<Longrightarrow> safe G R P (f r s)) \<Longrightarrow> safe G R P (obind m f)"
  by (induction m) auto

lemma safe_mono:
  "safe G R Q m \<Longrightarrow> (\<And>s. G s \<Longrightarrow> G' s) \<Longrightarrow> (\<And>s. R' s \<Longrightarrow> R s) \<Longrightarrow> (\<And>r s. Q r s \<Longrightarrow> Q' r s)
   \<Longrightarrow> safe G' R' Q' m"
  by (induction m) auto

lemma safe_post: "safe G R Q m \<Longrightarrow> (\<And>r s. Q r s \<Longrightarrow> Q' r s) \<Longrightarrow> safe G R Q' m"
  by (erule safe_mono) auto

text \<open>
  \<open>quiet m\<close> runs a routine through its lock windows with no interference; \<open>None\<close> when it switches
  context or faults.
\<close>

primrec quiet :: "('s, 'r) outcome \<Rightarrow> ('r \<times> 's) option" where
  "quiet (Done r s) = Some (r, s)"
| "quiet (Switch s k) = None"
| "quiet (Window s k) = quiet (k s)"
| "quiet Fault = None"

lemma quiet_obind:
  "quiet (obind m f) = (case quiet m of None \<Rightarrow> None | Some (r, s) \<Rightarrow> quiet (f r s))"
  by (induction m) auto

text \<open>\<open>calm m\<close>: the same, up to the first switch of context.\<close>

primrec calm :: "('s, 'r) outcome \<Rightarrow> ('s, 'r) outcome" where
  "calm (Done r s) = Done r s"
| "calm (Switch s k) = Switch s k"
| "calm (Window s k) = calm (k s)"
| "calm Fault = Fault"

lemma calm_obind:
  "calm (obind m f) = (case calm m of Done r s \<Rightarrow> calm (f r s) | Switch s k \<Rightarrow> Switch s (\<lambda>s'. obind (k s') f)
     | Window s k \<Rightarrow> Fault | Fault \<Rightarrow> Fault)"
  by (induction m) auto

text \<open>The routine returns, or switches once and returns when it is resumed; either way \<open>P\<close> holds then.\<close>

primrec settles :: "('s \<Rightarrow> bool) \<Rightarrow> ('s, 'r) outcome \<Rightarrow> bool" where
  "settles P (Done r s) = P s"
| "settles P (Switch s k) = (P s \<and> (\<forall>s'. \<exists>r. k s' = Done r s'))"
| "settles P (Window s k) = False"
| "settles P Fault = False"

lemma settles_mono: "settles P m \<Longrightarrow> (\<And>s. P s \<Longrightarrow> P' s) \<Longrightarrow> settles P' m"
  by (cases m) simp_all

lemma settles_safe:
  "settles P m \<Longrightarrow> (\<And>s. P s \<Longrightarrow> G s) \<Longrightarrow> (\<And>r s. P s \<Longrightarrow> Q r s) \<Longrightarrow> (\<And>r s. R s \<Longrightarrow> Q r s)
   \<Longrightarrow> safe G R Q m"
  by (cases m) (simp_all, metis safe.simps(1))

lemma settles_conj: "settles P m \<Longrightarrow> settles Q m \<Longrightarrow> settles (\<lambda>s. P s \<and> Q s) m"
  by (cases m) simp_all

lemma settles_return: "settles P m \<Longrightarrow> settles P (obind m (\<lambda>r s. Done x s))"
  by (cases m) (simp_all, metis obind.simps(1))

text \<open>Sequencing of a routine over a list, in order, as a C loop over an array or a list does.\<close>

primrec oiter :: "('a \<Rightarrow> 's \<Rightarrow> ('s, unit) outcome) \<Rightarrow> 'a list \<Rightarrow> 's \<Rightarrow> ('s, unit) outcome" where
  "oiter f [] s = Done () s"
| "oiter f (x # xs) s = obind (f x s) (\<lambda>_ s'. oiter f xs s')"

lemma oiter_append: "oiter f (xs @ ys) s = obind (oiter f xs s) (\<lambda>_. oiter f ys)"
  by (induction xs arbitrary: s) (simp_all add: obind_assoc)

section \<open>Lists\<close>

text \<open>Stable insertion into a list ordered by decreasing priority: behind the equals.\<close>

definition ins_behind :: "('a \<Rightarrow> nat) \<Rightarrow> 'a \<Rightarrow> 'a list \<Rightarrow> 'a list" where
  "ins_behind f x xs = takeWhile (\<lambda>y. f x \<le> f y) xs @ x # dropWhile (\<lambda>y. f x \<le> f y) xs"

text \<open>The same, ahead of the equals.\<close>

definition ins_ahead :: "('a \<Rightarrow> nat) \<Rightarrow> 'a \<Rightarrow> 'a list \<Rightarrow> 'a list" where
  "ins_ahead f x xs = takeWhile (\<lambda>y. f x < f y) xs @ x # dropWhile (\<lambda>y. f x < f y) xs"

definition prio_sorted :: "('a \<Rightarrow> nat) \<Rightarrow> 'a list \<Rightarrow> bool" where
  "prio_sorted f xs = sorted_wrt (\<lambda>a b. f b \<le> f a) xs"

lemma set_ins_behind [simp]: "set (ins_behind f x xs) = insert x (set xs)"
  using set_append[of "takeWhile (\<lambda>y. f x \<le> f y) xs" "dropWhile (\<lambda>y. f x \<le> f y) xs"]
  by (auto simp: ins_behind_def)

lemma set_ins_ahead [simp]: "set (ins_ahead f x xs) = insert x (set xs)"
  using set_append[of "takeWhile (\<lambda>y. f x < f y) xs" "dropWhile (\<lambda>y. f x < f y) xs"]
  by (auto simp: ins_ahead_def)

lemma ins_behind_not_Nil [simp]: "ins_behind f x xs \<noteq> []"
  by (simp add: ins_behind_def)

lemma ins_ahead_not_Nil [simp]: "ins_ahead f x xs \<noteq> []"
  by (simp add: ins_ahead_def)

lemma ins_behind_Nil [simp]: "ins_behind f x [] = [x]"
  by (simp add: ins_behind_def)

lemma ins_behind_Cons:
  "ins_behind f x (y # ys) = (if f x \<le> f y then y # ins_behind f x ys else x # y # ys)"
  by (simp add: ins_behind_def)

lemma ins_ahead_Nil [simp]: "ins_ahead f x [] = [x]"
  by (simp add: ins_ahead_def)

lemma ins_ahead_Cons:
  "ins_ahead f x (y # ys) = (if f x < f y then y # ins_ahead f x ys else x # y # ys)"
  by (simp add: ins_ahead_def)

lemma length_ins_behind [simp]: "length (ins_behind f x xs) = Suc (length xs)"
  by (induction xs) (simp_all add: ins_behind_Cons)

lemma distinct_ins_behind [simp]: "distinct (ins_behind f x xs) = (x \<notin> set xs \<and> distinct xs)"
  by (induction xs) (auto simp: ins_behind_Cons)

lemma distinct_ins_ahead [simp]: "distinct (ins_ahead f x xs) = (x \<notin> set xs \<and> distinct xs)"
  by (induction xs) (auto simp: ins_ahead_Cons)

lemma prio_sorted_ins_behind: "prio_sorted f xs \<Longrightarrow> prio_sorted f (ins_behind f x xs)"
  unfolding prio_sorted_def by (induction xs) (auto simp: ins_behind_Cons)

lemma prio_sorted_ins_ahead: "prio_sorted f xs \<Longrightarrow> prio_sorted f (ins_ahead f x xs)"
  unfolding prio_sorted_def by (induction xs) (auto simp: ins_ahead_Cons)

lemma prio_sorted_simps [simp]:
  "prio_sorted f []"
  "prio_sorted f (x # xs) \<longleftrightarrow> (\<forall>y\<in>set xs. f y \<le> f x) \<and> prio_sorted f xs"
  by (simp_all add: prio_sorted_def)

lemma prio_sorted_tl: "prio_sorted f xs \<Longrightarrow> prio_sorted f (tl xs)"
  by (cases xs) simp_all

lemma prio_sorted_remove1: "prio_sorted f xs \<Longrightarrow> prio_sorted f (remove1 x xs)"
  by (induction xs) (auto dest: subsetD[OF set_remove1_subset])

lemma prio_sorted_cong:
  "(\<And>x. x \<in> set xs \<Longrightarrow> f x = g x) \<Longrightarrow> prio_sorted f xs = prio_sorted g xs"
  by (induction xs) auto

lemma ins_behind_cong:
  "f x = g x \<Longrightarrow> (\<And>y. y \<in> set xs \<Longrightarrow> f y = g y) \<Longrightarrow> ins_behind f x xs = ins_behind g x xs"
  by (induction xs) (auto simp: ins_behind_Cons)

section \<open>Words\<close>

lemma take_bit_small: "unat w < 2 ^ n \<Longrightarrow> take_bit n w = w" for w :: "'a::len word"
proof -
  assume a: "unat w < 2 ^ n"
  have "unat (take_bit n w) = take_bit n (unat w)" by (rule unsigned_take_bit_eq)
  also have "\<dots> = unat w" using a by (rule take_bit_nat_eq_self)
  finally show ?thesis by (rule word_unat_eq_iff[THEN iffD2])
qed

lemma unat_pred: "0 < unat w \<Longrightarrow> unat (w - 1) = unat w - 1" for w :: "'a::len word"
  by (metis One_nat_def Suc_leI unat_1 unat_sub word_le_nat_alt)

end
