(* ===== verification/Kernel.thy ===== *)
theory Kernel
  imports Prelude
begin

text \<open>
  The data of the ChibiOS kernel under \<^verbatim>\<open>os/kernel/include\<close>, as the configuration
  \<^verbatim>\<open>chconf.h\<close> compiles it, and the queue primitives on it. A thread, semaphore, mutex, event source,
  queue or mailbox is named by a number (its address); a \<open>ThreadsQueue\<close> is a list of threads, which
  \<open>ChLists\<close> shows to be what the pointer code maintains. Every record can be extended, so drivers and
  the robot add their own state to the kernel's.
\<close>

section \<open>Threads\<close>

datatype tstate =
    THD_STATE_READY | THD_STATE_CURRENT | THD_STATE_SUSPENDED | THD_STATE_WTSEM | THD_STATE_WTMTX
  | THD_STATE_WTCOND | THD_STATE_SLEEPING | THD_STATE_WTEXIT | THD_STATE_WTOREVT | THD_STATE_WTANDEVT
  | THD_STATE_SNDMSGQ | THD_STATE_SNDMSG | THD_STATE_WTMSG | THD_STATE_WTQUEUE | THD_STATE_FINAL

text \<open>The queue headers a thread can be linked in.\<close>

datatype qid = QReady | QSem nat | QMtx nat | QCond nat | QMsg tid | QGen nat

text \<open>
  The union \<open>p_u\<close>; \<open>rdymsg\<close> and \<open>exitcode\<close> are the same \<open>msg_t\<close> cell. Reading a member other than the
  one last written gives raw bits in C; the selectors give a fixed value there, and the routines
  that read \<open>rdymsg\<close> after a wake-up are those whose wakers all write it.
\<close>

datatype thd_u = UMsg msg | UObj qid | UMask eventmask

fun rdymsg :: "thd_u \<Rightarrow> msg" where
  "rdymsg (UMsg m) = m"
| "rdymsg _ = 0"

fun wtobjp :: "thd_u \<Rightarrow> qid" where
  "wtobjp (UObj q) = q"
| "wtobjp _ = QReady"

fun ewmask :: "thd_u \<Rightarrow> eventmask" where
  "ewmask (UMask m) = m"
| "ewmask _ = 0"

record thread =
  p_prio :: tprio
  p_state :: tstate
  p_flags :: byte
  p_refs :: byte
  p_preempt :: nat
  p_time :: systime
  p_u :: thd_u
  p_waiting :: "tid list"
  p_msg :: msg
  p_epending :: eventmask
  p_mtxlist :: "nat list"
  p_realprio :: tprio
  p_name :: "string option"
  p_mpool :: "nat option"

section \<open>Virtual timers, events, queues, mailboxes, pools\<close>

text \<open>The functions of the tree whose address is handed to a virtual timer.\<close>

datatype vtfunc = Fn_wakeup | Fn_tmrcb | Fn_motor_left_off | Fn_motor_right_off | Fn_i2c_safety_timeout

text \<open>A timer is on the stack of the thread that sleeps, or a static object.\<close>

datatype vtid = VtStack tid | VtObj nat

record vtimer =
  vt_time :: systime
  vt_func :: "vtfunc option"
  vt_par :: nat

record listener =
  el_listener :: tid
  el_mask :: eventmask
  el_flags :: flagsmask

text \<open>
  \<open>GenericQueue\<close>: the buffer from \<open>q_buffer\<close> to \<open>q_top\<close> is a list of bytes, the two pointers are offsets
  into it; \<open>q_notify\<close> tells whether a notification function is installed.
\<close>

record genqueue =
  q_counter :: nat
  q_buffer :: "byte list"
  q_wrptr :: nat
  q_rdptr :: nat
  q_notify :: bool

record mailbox =
  mb_buffer :: "msg list"
  mb_wrptr :: nat
  mb_rdptr :: nat
  mb_fullsem :: nat
  mb_emptysem :: nat

text \<open>
  A pool is the list of its free objects; \<open>mp_provider\<close> tells whether \<open>chCoreAllocI\<close> backs it. A heap is
  the list of its free blocks, each its address and size, in the order they are linked;
  \<open>h_provider\<close> tells whether \<open>chCoreAlloc\<close> backs it.
\<close>

type_synonym addr = "32 word"
type_synonym size_t = "32 word"

record mempool =
  mp_next :: "addr list"
  mp_object_size :: size_t
  mp_provider :: bool

record memheap =
  h_provider :: bool
  h_free :: "(addr \<times> size_t) list"
  h_mtx :: nat

section \<open>The kernel state\<close>

record kernel =
  threads :: "tid \<Rightarrow> thread"
  tq :: "qid \<Rightarrow> tid list"
  currp :: tid
  registry :: "tid list"
  vts :: "vtid \<Rightarrow> vtimer"
  vtl :: "vtid list"
  vt_systime :: systime
  s_cnt :: "nat \<Rightarrow> int"
  m_owner :: "nat \<Rightarrow> tid option"
  es_next :: "nat \<Rightarrow> nat list"
  els :: "nat \<Rightarrow> listener"
  gqs :: "nat \<Rightarrow> genqueue"
  mbs :: "nat \<Rightarrow> mailbox"
  pools :: "nat \<Rightarrow> mempool"
  heaps :: "nat \<Rightarrow> memheap"
  hdrs :: "addr \<Rightarrow> nat \<times> size_t"
  nextmem :: addr
  endmem :: addr

type_synonym ('x, 'r) kout = "('x kernel_scheme, 'r) outcome"

definition RDY_OK :: msg where "RDY_OK = 0"
definition RDY_TIMEOUT :: msg where "RDY_TIMEOUT = -1"
definition RDY_RESET :: msg where "RDY_RESET = -2"
definition NOPRIO :: tprio where "NOPRIO = 0"
definition IDLEPRIO :: tprio where "IDLEPRIO = 1"
definition NORMALPRIO :: tprio where "NORMALPRIO = 64"
definition HIGHPRIO :: tprio where "HIGHPRIO = 127"
definition TIME_IMMEDIATE :: systime where "TIME_IMMEDIATE = 0"
definition TIME_INFINITE :: systime where "TIME_INFINITE = -1"
definition CH_TIME_QUANTUM :: nat where "CH_TIME_QUANTUM = 20"
definition CH_FREQUENCY :: int where "CH_FREQUENCY = 1000"

text \<open>Field access through a thread pointer.\<close>

definition upd_thread :: "tid \<Rightarrow> (thread \<Rightarrow> thread) \<Rightarrow> 'x kernel_scheme \<Rightarrow> 'x kernel_scheme" where
  "upd_thread t f s = s\<lparr>threads := (threads s)(t := f (threads s t))\<rparr>"

abbreviation set_state :: "tid \<Rightarrow> tstate \<Rightarrow> 'x kernel_scheme \<Rightarrow> 'x kernel_scheme" where
  "set_state t st \<equiv> upd_thread t (\<lambda>th. th\<lparr>p_state := st\<rparr>)"

abbreviation set_rdymsg :: "tid \<Rightarrow> msg \<Rightarrow> 'x kernel_scheme \<Rightarrow> 'x kernel_scheme" where
  "set_rdymsg t m \<equiv> upd_thread t (\<lambda>th. th\<lparr>p_u := UMsg m\<rparr>)"

abbreviation set_wtobjp :: "tid \<Rightarrow> qid \<Rightarrow> 'x kernel_scheme \<Rightarrow> 'x kernel_scheme" where
  "set_wtobjp t q \<equiv> upd_thread t (\<lambda>th. th\<lparr>p_u := UObj q\<rparr>)"

abbreviation cur :: "'x kernel_scheme \<Rightarrow> thread" where
  "cur s \<equiv> threads s (currp s)"

definition prio :: "'x kernel_scheme \<Rightarrow> tid \<Rightarrow> tprio" where
  "prio s t = p_prio (threads s t)"

section \<open>Queue primitives on the kernel state\<close>

definition set_tq :: "qid \<Rightarrow> tid list \<Rightarrow> 'x kernel_scheme \<Rightarrow> 'x kernel_scheme" where
  "set_tq q ts s = s\<lparr>tq := (tq s)(q := ts)\<rparr>"

definition queue_init :: "qid \<Rightarrow> 'x kernel_scheme \<Rightarrow> 'x kernel_scheme" where
  "queue_init q s = set_tq q [] s"

definition isempty :: "qid \<Rightarrow> 'x kernel_scheme \<Rightarrow> bool" where
  "isempty q s \<longleftrightarrow> tq s q = []"

definition notempty :: "qid \<Rightarrow> 'x kernel_scheme \<Rightarrow> bool" where
  "notempty q s \<longleftrightarrow> tq s q \<noteq> []"

definition prio_insert :: "tid \<Rightarrow> qid \<Rightarrow> 'x kernel_scheme \<Rightarrow> 'x kernel_scheme" where
  "prio_insert tp q s = set_tq q (ins_behind (prio s) tp (tq s q)) s"

definition queue_insert :: "tid \<Rightarrow> qid \<Rightarrow> 'x kernel_scheme \<Rightarrow> 'x kernel_scheme" where
  "queue_insert tp q s = set_tq q (tq s q @ [tp]) s"

text \<open>Taking a thread from an empty queue yields the header itself, reinterpreted as a thread.\<close>

definition fifo_remove :: "qid \<Rightarrow> 'x kernel_scheme \<Rightarrow> ('x, tid) kout" where
  "fifo_remove q s = (case tq s q of [] \<Rightarrow> Fault | t # ts \<Rightarrow> Done t (set_tq q ts s))"

definition lifo_remove :: "qid \<Rightarrow> 'x kernel_scheme \<Rightarrow> ('x, tid) kout" where
  "lifo_remove q s =
     (if tq s q = [] then Fault else Done (last (tq s q)) (set_tq q (butlast (tq s q)) s))"

text \<open>
  \<open>dequeue\<close> follows the thread's own links; the model names the queue the thread must be linked in.
\<close>

definition dequeue :: "qid \<Rightarrow> tid \<Rightarrow> 'x kernel_scheme \<Rightarrow> ('x, tid) kout" where
  "dequeue q tp s = (if tp \<in> set (tq s q) then Done tp (set_tq q (remove1 tp (tq s q)) s) else Fault)"

definition firstprio :: "qid \<Rightarrow> 'x kernel_scheme \<Rightarrow> tprio" where
  "firstprio q s = (case tq s q of [] \<Rightarrow> NOPRIO | t # _ \<Rightarrow> prio s t)"

lemmas kconst = RDY_OK_def RDY_TIMEOUT_def RDY_RESET_def NOPRIO_def IDLEPRIO_def NORMALPRIO_def
  HIGHPRIO_def TIME_IMMEDIATE_def TIME_INFINITE_def CH_TIME_QUANTUM_def CH_FREQUENCY_def

end
