(* ===== verification/VTimers.thy ===== *)
theory VTimers
  imports Kernel
begin

text \<open>
  Virtual timers, \<^verbatim>\<open>os/kernel/src/chvt.c\<close> and \<^verbatim>\<open>os/kernel/include/chvt.h\<close>: a delta list whose header
  holds the largest time value, so that every search ends there. \<open>deadlines\<close> is the abstract view: how
  many ticks from now each armed timer expires.
\<close>

section \<open>Operations\<close>

definition MS2ST :: "int \<Rightarrow> systime" where
  "MS2ST msec = word_of_int (s32 (s32 (s32 (msec - 1) * CH_FREQUENCY) sdiv 1000 + 1))"

definition S2ST :: "int \<Rightarrow> systime" where
  "S2ST sec = word_of_int (s32 (sec * CH_FREQUENCY))"

definition US2ST :: "int \<Rightarrow> systime" where
  "US2ST usec = word_of_int (s32 (s32 (s32 (usec - 1) * CH_FREQUENCY) sdiv 1000000 + 1))"

definition vt_init :: "'x kernel_scheme \<Rightarrow> 'x kernel_scheme" where
  "vt_init s = s\<lparr>vtl := [], vt_systime := 0\<rparr>"

text \<open>
  The search loop of \<open>chVTSetI\<close>: the timers before the place, the time left, the timers from the place
  on (none of them: the place is before the header).
\<close>

fun vt_place :: "(vtid \<Rightarrow> vtimer) \<Rightarrow> vtid list \<Rightarrow> systime \<Rightarrow> vtid list \<times> systime \<times> vtid list" where
  "vt_place T [] time = ([], time, [])"
| "vt_place T (p # ps) time =
     (if vt_time (T p) < time
      then (let (b, t, a) = vt_place T ps (time - vt_time (T p)) in (p # b, t, a))
      else ([], time, p # ps))"

text \<open>Linking a timer that is linked already would cut the list: a fault.\<close>

definition chVTSetI :: "vtid \<Rightarrow> systime \<Rightarrow> vtfunc \<Rightarrow> nat \<Rightarrow> 'x kernel_scheme \<Rightarrow> ('x, unit) kout" where
  "chVTSetI vtp time fn par s =
     (if vtp \<in> set (vtl s) then Fault else
      let (b, t, a) = vt_place (vts s) (vtl s) time;
          vs1 = (vts s)(vtp := \<lparr>vt_time = t, vt_func = Some fn, vt_par = par\<rparr>);
          vs2 = (case a of [] \<Rightarrow> vs1
                 | p # _ \<Rightarrow> vs1(p := (vs1 p)\<lparr>vt_time := vt_time (vs1 p) - t\<rparr>))
      in Done () (s\<lparr>vts := vs2, vtl := b @ vtp # a\<rparr>))"

definition chVTIsArmedI :: "vtid \<Rightarrow> 'x kernel_scheme \<Rightarrow> bool" where
  "chVTIsArmedI vtp s \<longleftrightarrow> vt_func (vts s vtp) \<noteq> None"

fun vt_succ :: "vtid \<Rightarrow> vtid list \<Rightarrow> vtid option" where
  "vt_succ v (p # n # ps) = (if p = v then Some n else vt_succ v (n # ps))"
| "vt_succ v _ = None"

definition chVTResetI :: "vtid \<Rightarrow> 'x kernel_scheme \<Rightarrow> ('x, unit) kout" where
  "chVTResetI vtp s =
     (if vtp \<notin> set (vtl s) then Fault else
      let vs1 = (case vt_succ vtp (vtl s) of None \<Rightarrow> vts s
                 | Some n \<Rightarrow> (vts s)(n := (vts s n)\<lparr>vt_time := vt_time (vts s n) + vt_time (vts s vtp)\<rparr>))
      in Done () (s\<lparr>vts := vs1(vtp := (vs1 vtp)\<lparr>vt_func := None\<rparr>), vtl := remove1 vtp (vtl s)\<rparr>))"

definition chVTSet :: "vtid \<Rightarrow> systime \<Rightarrow> vtfunc \<Rightarrow> nat \<Rightarrow> 'x kernel_scheme \<Rightarrow> ('x, unit) kout" where
  "chVTSet vtp time fn par s = chVTSetI vtp time fn par s"

definition chVTReset :: "vtid \<Rightarrow> 'x kernel_scheme \<Rightarrow> ('x, unit) kout" where
  "chVTReset vtp s = (if chVTIsArmedI vtp s then chVTResetI vtp s else Done () s)"

definition chTimeNow :: "'x kernel_scheme \<Rightarrow> systime" where
  "chTimeNow s = vt_systime s"

definition chTimeIsWithin :: "systime \<Rightarrow> systime \<Rightarrow> 'x kernel_scheme \<Rightarrow> bool" where
  "chTimeIsWithin start end s =
     (let time = chTimeNow s in
      if end > start then time \<ge> start \<and> time < end else time \<ge> start \<or> time < end)"

text \<open>
  The tick. \<open>call\<close> runs a timer function; the loop \<open>while (!(vtp = vtlist.vt_next)->vt_time)\<close> takes one
  unit of fuel per timer served (a timer function may set timers, so the list alone does not bound
  it).
\<close>

fun vt_fire :: "nat \<Rightarrow> (vtfunc \<Rightarrow> nat \<Rightarrow> 'x kernel_scheme \<Rightarrow> ('x, unit) kout) \<Rightarrow>
    'x kernel_scheme \<Rightarrow> ('x, unit) kout" where
  "vt_fire 0 call s = Fault"
| "vt_fire (Suc n) call s =
     (case vtl s of [] \<Rightarrow> Done () s
      | vtp # rest \<Rightarrow>
          if vt_time (vts s vtp) = 0 then
            (case vt_func (vts s vtp) of None \<Rightarrow> Fault
             | Some fn \<Rightarrow>
                 obind (call fn (vt_par (vts s vtp))
                         (s\<lparr>vts := (vts s)(vtp := (vts s vtp)\<lparr>vt_func := None\<rparr>), vtl := rest\<rparr>))
                       (\<lambda>_ s'. vt_fire n call s'))
          else Done () s)"

definition vt_dec_head :: "'x kernel_scheme \<Rightarrow> 'x kernel_scheme" where
  "vt_dec_head s = (case vtl s of [] \<Rightarrow> s
     | p # _ \<Rightarrow> s\<lparr>vts := (vts s)(p := (vts s p)\<lparr>vt_time := vt_time (vts s p) - 1\<rparr>)\<rparr>)"

definition chVTDoTickI :: "nat \<Rightarrow> (vtfunc \<Rightarrow> nat \<Rightarrow> 'x kernel_scheme \<Rightarrow> ('x, unit) kout) \<Rightarrow>
    'x kernel_scheme \<Rightarrow> ('x, unit) kout" where
  "chVTDoTickI fuel call s =
     (let s1 = s\<lparr>vt_systime := vt_systime s + 1\<rparr> in
      if vtl s1 = [] then Done () s1 else vt_fire fuel call (vt_dec_head s1))"

section \<open>The abstract view\<close>

definition dt :: "(vtid \<Rightarrow> vtimer) \<Rightarrow> vtid \<Rightarrow> nat" where
  "dt T p = unat (vt_time (T p))"

definition dsum :: "(vtid \<Rightarrow> vtimer) \<Rightarrow> vtid list \<Rightarrow> nat" where
  "dsum T xs = sum_list (map (dt T) xs)"

fun deadlines :: "(vtid \<Rightarrow> vtimer) \<Rightarrow> vtid list \<Rightarrow> vtid \<Rightarrow> nat option" where
  "deadlines T [] x = None"
| "deadlines T (p # ps) x = (if x = p then Some (dt T p) else map_option ((+) (dt T p)) (deadlines T ps x))"

definition vt_deadline :: "'x kernel_scheme \<Rightarrow> vtid \<Rightarrow> nat option" where
  "vt_deadline s = deadlines (vts s) (vtl s)"

text \<open>
  Each linked timer once; the times add up below the range of \<open>systime_t\<close>; linked timers are armed.
\<close>

definition vt_ok :: "'x kernel_scheme \<Rightarrow> bool" where
  "vt_ok s \<longleftrightarrow> distinct (vtl s) \<and> dsum (vts s) (vtl s) < 4294967296 \<and>
     (\<forall>v. v \<in> set (vtl s) \<longleftrightarrow> chVTIsArmedI v s)"

lemma dsum_simps [simp]:
  "dsum T [] = 0" "dsum T (p # ps) = dt T p + dsum T ps" "dsum T (xs @ ys) = dsum T xs + dsum T ys"
  by (simp_all add: dsum_def)

lemma dt_upd [simp]: "dt (T(v := r)) p = (if p = v then unat (vt_time r) else dt T p)"
  by (simp add: dt_def)

lemma deadlines_None [simp]: "deadlines T xs x = None \<longleftrightarrow> x \<notin> set xs"
  by (induction xs) auto

lemma deadlines_notin [simp]: "x \<notin> set xs \<Longrightarrow> deadlines T xs x = None"
  by simp

lemma deadlines_append:
  "deadlines T (xs @ ys) x =
     (if x \<in> set xs then deadlines T xs x
      else map_option ((+) (dsum T xs)) (deadlines T ys x))"
  by (induction xs; cases "deadlines T ys x") auto

lemma unat_time_less: "unat (t :: systime) < 4294967296"
  using unsigned_less[of t, where ?'a = nat] by simp

lemma dt_sub: "unat t \<le> unat u \<Longrightarrow> unat (u - t) = unat u - unat t" for t u :: systime
  by (simp add: unat_sub word_le_nat_alt)

lemma dt_add: "unat t + unat u < 4294967296 \<Longrightarrow> unat (t + u) = unat t + unat u" for t u :: systime
  by (simp add: unat_word_ariths)

lemma deadlines_cong:
  "(\<And>p. p \<in> set xs \<Longrightarrow> dt T p = dt T' p) \<Longrightarrow> deadlines T xs x = deadlines T' xs x"
  by (induction xs) auto

lemma sum_dt_cong:
  "(\<And>p. p \<in> set xs \<Longrightarrow> dt T p = dt T' p) \<Longrightarrow> dsum T xs = dsum T' xs"
  by (induction xs) auto

lemma vt_place_split:
  "vt_place T l time = (b, t, a) \<Longrightarrow>
     l = b @ a \<and> unat time = dsum T b + unat t \<and>
     (\<forall>p ps. a = p # ps \<longrightarrow> unat t \<le> dt T p)"
proof (induction l arbitrary: time b t a)
  case (Cons p ps)
  show ?case
  proof (cases "vt_time (T p) < time")
    case True
    then obtain b' where b: "b = p # b'" "vt_place T ps (time - vt_time (T p)) = (b', t, a)"
      using Cons.prems by (auto split: prod.splits)
    have "unat time = unat (time - vt_time (T p)) + dt T p"
      using True by (simp add: dt_def dt_sub word_less_nat_alt)
    with Cons.IH[OF b(2)] b(1) show ?thesis by simp
  next
    case False
    then have "b = []" "t = time" "a = p # ps" using Cons.prems by auto
    with False show ?thesis by (simp add: word_less_nat_alt not_less dt_def)
  qed
qed auto

text \<open>The delta list after an insertion, before it is put back into the kernel state.\<close>

lemma deadlines_insert:
  assumes "distinct (b @ a)" "v \<notin> set (b @ a)" "unat t \<le> dt T p" "a = p # ps"
  shows "deadlines (T(v := r, p := (T p)\<lparr>vt_time := vt_time (T p) - t\<rparr>)) (b @ v # a) x =
    (if x = v then Some (dsum T b + unat (vt_time r)) else
     if x \<in> set b then deadlines T b x else
     map_option (\<lambda>d. dsum T b + unat (vt_time r) + (d - unat t)) (deadlines T a x))"
proof -
  let ?T = "T(v := r, p := (T p)\<lparr>vt_time := vt_time (T p) - t\<rparr>)"
  have p: "p \<noteq> v" "p \<notin> set b" "p \<notin> set ps" "v \<notin> set b" "v \<notin> set ps"
    using assms by auto
  have b: "deadlines ?T b = deadlines T b" "dsum ?T b = dsum T b"
    using p by (auto intro!: deadlines_cong sum_dt_cong)
  have ps: "deadlines ?T ps = deadlines T ps" using p by (auto intro!: deadlines_cong)
  have dp: "dt ?T p = dt T p - unat t"
    using assms(3) by (simp add: dt_sub dt_def)
  show ?thesis
  proof (cases "x = v \<or> x \<in> set b")
    case True
    then show ?thesis using p by (auto simp: deadlines_append b)
  next
    case False
    then show ?thesis using p b ps dp assms(3,4)
      by (cases "deadlines T ps x") (auto simp: deadlines_append b)
  qed
qed

lemma vt_set_shape:
  assumes "vtp \<notin> set (vtl s)" "vt_place (vts s) (vtl s) time = (b, t, a)"
  obtains vs where "chVTSetI vtp time fn par s = Done () (s\<lparr>vts := vs, vtl := b @ vtp # a\<rparr>)"
    "vs = (case a of [] \<Rightarrow> (vts s)(vtp := \<lparr>vt_time = t, vt_func = Some fn, vt_par = par\<rparr>)
       | p # _ \<Rightarrow> (vts s)(vtp := \<lparr>vt_time = t, vt_func = Some fn, vt_par = par\<rparr>,
                    p := (vts s p)\<lparr>vt_time := vt_time (vts s p) - t\<rparr>))"
proof -
  have "set a \<subseteq> set (vtl s)" using vt_place_split[OF assms(2)] by auto
  with assms show ?thesis
    by (intro that) (auto simp: chVTSetI_def split: list.splits)
qed

text \<open>Which function a timer calls: setting a timer gives it its own and leaves the others theirs.\<close>

definition armed_for :: "vtid \<Rightarrow> vtfunc \<Rightarrow> nat \<Rightarrow> 'x kernel_scheme \<Rightarrow> 'x kernel_scheme \<Rightarrow> bool" where
  "armed_for v fn par s s' \<longleftrightarrow> set (vtl s') = insert v (set (vtl s)) \<and> vt_func (vts s' v) = Some fn \<and> vt_par (vts s' v) = par \<and>
     (\<forall>u. u \<noteq> v \<longrightarrow> vt_func (vts s' u) = vt_func (vts s u) \<and> vt_par (vts s' u) = vt_par (vts s u))"

lemma vt_set_armed:
  assumes "v \<notin> set (vtl s)" "chVTSetI v time fn par s = Done () s'"
  shows "armed_for v fn par s s'"
proof -
  obtain b t a where pl: "vt_place (vts s) (vtl s) time = (b, t, a)" by (cases "vt_place (vts s) (vtl s) time")
  have l: "vtl s = b @ a" using vt_place_split[OF pl] by simp
  from vt_set_shape[OF assms(1) pl, of fn par] assms(2) have "s' = s\<lparr>vts := (case a of
         [] \<Rightarrow> (vts s)(v := \<lparr>vt_time = t, vt_func = Some fn, vt_par = par\<rparr>)
       | p # _ \<Rightarrow> (vts s)(v := \<lparr>vt_time = t, vt_func = Some fn, vt_par = par\<rparr>,
                    p := (vts s p)\<lparr>vt_time := vt_time (vts s p) - t\<rparr>)), vtl := b @ v # a\<rparr>" by auto
  then show ?thesis using l assms(1) by (auto simp: armed_for_def split: list.splits)
qed

lemma vt_set_deadline:
  assumes "vt_ok s" "vtp \<notin> set (vtl s)"
  shows "\<exists>s'. chVTSetI vtp time fn par s = Done () s' \<and>
     vt_deadline s' = (vt_deadline s)(vtp \<mapsto> unat time) \<and> vt_ok s'"
proof -
  obtain b t a where pl: "vt_place (vts s) (vtl s) time = (b, t, a)" by (cases "vt_place (vts s) (vtl s) time")
  note sp = vt_place_split[OF pl]
  let ?r = "\<lparr>vt_time = t, vt_func = Some fn, vt_par = par\<rparr>"
  obtain vs where res: "chVTSetI vtp time fn par s = Done () (s\<lparr>vts := vs, vtl := b @ vtp # a\<rparr>)"
    and vs: "vs = (case a of [] \<Rightarrow> (vts s)(vtp := ?r)
       | p # _ \<Rightarrow> (vts s)(vtp := ?r, p := (vts s p)\<lparr>vt_time := vt_time (vts s p) - t\<rparr>))"
    using vt_set_shape[OF assms(2) pl] by blast
  have d: "distinct (b @ a)" "vtp \<notin> set (b @ a)" using assms sp by (auto simp: vt_ok_def)
  have total: "unat time < 4294967296" by (rule unat_time_less)
  have armed: "\<forall>v. v \<in> set (b @ vtp # a) \<longleftrightarrow> vt_func (vs v) \<noteq> None"
    using assms d sp by (auto simp: vs vt_ok_def chVTIsArmedI_def split: list.splits)
  have "deadlines vs (b @ vtp # a) = (deadlines (vts s) (vtl s))(vtp \<mapsto> unat time) \<and>
     dsum vs (b @ vtp # a) < 4294967296"
  proof (cases a)
    case Nil
    have "dt vs p = dt (vts s) p" if "p \<in> set b" for p using that d by (auto simp: vs Nil)
    then have "deadlines vs b x = deadlines (vts s) b x" "dsum vs b = dsum (vts s) b" for x
      by (auto intro!: deadlines_cong sum_dt_cong)
    then show ?thesis using sp Nil d total
      by (auto simp: fun_eq_iff deadlines_append) (auto simp: vs)
  next
    case (Cons p ps)
    have le: "unat t \<le> dt (vts s) p" using sp Cons by auto
    have vs': "vs = (vts s)(vtp := ?r, p := (vts s p)\<lparr>vt_time := vt_time (vts s p) - t\<rparr>)" by (simp add: vs Cons)
    have "deadlines vs (b @ vtp # a) x = ((deadlines (vts s) (vtl s))(vtp \<mapsto> unat time)) x" for x
    proof -
      have ge: "unat t \<le> y" if "deadlines (vts s) a x = Some y" for y
        using that le Cons by (auto split: if_splits)
      show ?thesis
        unfolding vs' using deadlines_insert[of b a vtp t "vts s" p ps ?r x] sp ge d le Cons
        by (cases "x \<in> set b"; cases "deadlines (vts s) a x") (auto simp: deadlines_append)
    qed
    moreover have "dsum vs (b @ vtp # a) = dsum (vts s) (b @ a)"
    proof -
      have "dsum vs b = dsum (vts s) b"
        "dsum vs ps = dsum (vts s) ps"
        using d Cons by (auto intro!: sum_dt_cong simp: vs')
      moreover have "dt vs p = dt (vts s) p - unat t" "dt vs vtp = unat t"
        using le d Cons by (auto simp: vs' dt_sub dt_def)
      ultimately show ?thesis using le Cons by simp
    qed
    ultimately show ?thesis using assms sp by (auto simp: vt_ok_def)
  qed
  then show ?thesis
    unfolding res using d armed
    by (auto simp: vt_ok_def vt_deadline_def chVTIsArmedI_def)
qed

lemma vt_succ_append:
  "v \<notin> set b \<Longrightarrow> vt_succ v (b @ v # a) = (case a of [] \<Rightarrow> None | n # _ \<Rightarrow> Some n)"
proof (induction b)
  case Nil
  then show ?case by (cases a) auto
next
  case (Cons x b)
  then show ?case by (cases b) auto
qed

lemma vt_reset_deadline:
  assumes "vt_ok s" "vtp \<in> set (vtl s)"
  shows "\<exists>s'. chVTResetI vtp s = Done () s' \<and> vt_deadline s' = (vt_deadline s)(vtp := None) \<and> vt_ok s'"
proof -
  obtain b a where l1: "vtl s = b @ vtp # a" "vtp \<notin> set b"
    using assms(2) by (meson split_list_first)
  then have l: "vtl s = b @ vtp # a" "remove1 vtp (vtl s) = b @ a"
    and succ: "vt_succ vtp (vtl s) = (case a of [] \<Rightarrow> None | n # _ \<Rightarrow> Some n)"
    by (simp_all add: vt_succ_append remove1_append)
  have d: "distinct (b @ vtp # a)" and tot: "dsum (vts s) (b @ vtp # a) < 4294967296"
    using assms l by (auto simp: vt_ok_def)
  define vs where "vs = (case a of [] \<Rightarrow> vts s
     | n # _ \<Rightarrow> (vts s)(n := (vts s n)\<lparr>vt_time := vt_time (vts s n) + vt_time (vts s vtp)\<rparr>))"
  define vs' where "vs' = vs(vtp := (vs vtp)\<lparr>vt_func := None\<rparr>)"
  have res: "chVTResetI vtp s = Done () (s\<lparr>vts := vs', vtl := b @ a\<rparr>)"
    using assms(2) l succ by (auto simp: chVTResetI_def vs'_def vs_def Let_def split: list.splits)
  have armed: "\<forall>v. v \<in> set (b @ a) \<longleftrightarrow> vt_func (vs' v) \<noteq> None"
    using assms d l by (auto simp: vs'_def vs_def vt_ok_def chVTIsArmedI_def split: list.splits)
  have "deadlines vs' (b @ a) = (deadlines (vts s) (vtl s))(vtp := None) \<and>
     dsum vs' (b @ a) < 4294967296"
  proof (cases a)
    case Nil
    have "dt vs' p = dt (vts s) p" if "p \<in> set b" for p using that d by (auto simp: vs'_def vs_def Nil)
    then have "deadlines vs' b x = deadlines (vts s) b x" "dsum vs' b = dsum (vts s) b" for x
      by (auto intro!: deadlines_cong sum_dt_cong)
    then show ?thesis using Nil d tot l
      by (auto simp: fun_eq_iff deadlines_append split: option.splits)
  next
    case (Cons n ps)
    have ne: "n \<noteq> vtp" "n \<notin> set b" "n \<notin> set ps" "vtp \<notin> set b" "vtp \<notin> set ps"
      using d Cons by auto
    have eqs: "deadlines vs' b x = deadlines (vts s) b x" "deadlines vs' ps x = deadlines (vts s) ps x"
      "dsum vs' b = dsum (vts s) b"
      "dsum vs' ps = dsum (vts s) ps" for x
      using ne by (auto intro!: deadlines_cong sum_dt_cong simp: vs'_def vs_def Cons)
    have "unat (vt_time (vts s n)) + unat (vt_time (vts s vtp)) < 4294967296"
      using tot Cons by (simp add: dt_def)
    then have n: "dt vs' n = dt (vts s) n + dt (vts s) vtp"
      using ne by (simp add: vs'_def vs_def Cons dt_add dt_def)
    have "deadlines vs' (b @ a) x = ((deadlines (vts s) (vtl s))(vtp := None)) x" for x
      using ne n l Cons by (cases "deadlines (vts s) ps x") (auto simp: deadlines_append eqs)
    then show ?thesis using ne eqs n l Cons tot by (auto simp: fun_eq_iff)
  qed
  then show ?thesis
    unfolding res using d armed by (auto simp: vt_ok_def vt_deadline_def chVTIsArmedI_def)
qed

section \<open>The tick\<close>

text \<open>Between two ticks the first timer has at least one tick to go.\<close>

definition vt_live :: "'x kernel_scheme \<Rightarrow> bool" where
  "vt_live s \<longleftrightarrow> (case vtl s of [] \<Rightarrow> True | p # _ \<Rightarrow> 0 < dt (vts s) p)"

definition vt_zeros :: "'x kernel_scheme \<Rightarrow> vtid list" where
  "vt_zeros s = takeWhile (\<lambda>v. dt (vts s) v = 0) (vtl s)"

definition vt_disarm :: "vtid list \<Rightarrow> (vtid \<Rightarrow> vtimer) \<Rightarrow> vtid \<Rightarrow> vtimer" where
  "vt_disarm xs T v = (if v \<in> set xs then (T v)\<lparr>vt_func := None\<rparr> else T v)"

lemma dt_disarm [simp]: "dt (vt_disarm xs T) p = dt T p"
  by (simp add: dt_def vt_disarm_def)

lemma dt_0: "dt T p = 0 \<longleftrightarrow> vt_time (T p) = 0"
  by (simp add: dt_def unat_eq_0)

lemma deadlines_dec_head:
  "0 < dt T p \<Longrightarrow> p \<notin> set ps \<Longrightarrow>
   deadlines (T(p := (T p)\<lparr>vt_time := vt_time (T p) - 1\<rparr>)) (p # ps) x =
     map_option (\<lambda>d. d - 1) (deadlines T (p # ps) x)"
proof -
  assume a: "0 < dt T p" "p \<notin> set ps"
  let ?T = "T(p := (T p)\<lparr>vt_time := vt_time (T p) - 1\<rparr>)"
  have "deadlines ?T ps = deadlines T ps" using a by (auto intro!: deadlines_cong)
  moreover have "unat (vt_time (T p) - 1) = dt T p - 1"
    using a by (subst dt_sub) (auto simp: dt_def)
  ultimately show ?thesis using a by (cases "deadlines T ps x") auto
qed

lemma deadlines_ge_head: "deadlines T (p # ps) x = Some d \<Longrightarrow> dt T p \<le> d"
  by (auto split: if_splits)

lemma vt_live_iff: "vt_live s \<longleftrightarrow> (\<forall>v d. vt_deadline s v = Some d \<longrightarrow> 0 < d)"
proof (cases "vtl s")
  case (Cons p ps)
  have "vt_deadline s p = Some (dt (vts s) p)" by (simp add: vt_deadline_def Cons)
  then show ?thesis using deadlines_ge_head[of "vts s" p ps] Cons by (fastforce simp: vt_live_def vt_deadline_def)
qed (simp add: vt_live_def vt_deadline_def)

lemma deadlines_drop_zeros:
  "\<forall>z\<in>set zs. dt T z = 0 \<Longrightarrow> x \<notin> set zs \<Longrightarrow> deadlines T (zs @ rest) x = deadlines T rest x"
  by (induction zs; cases "deadlines T rest x") auto

lemma deadlines_zeros: "\<forall>z\<in>set zs. dt T z = 0 \<Longrightarrow> x \<in> set zs \<Longrightarrow> deadlines T (zs @ rest) x = Some 0"
  by (induction zs) auto

text \<open>The first timer is taken from the list before its function is called.\<close>

definition vt_pop :: "vtid \<Rightarrow> vtid list \<Rightarrow> 'x kernel_scheme \<Rightarrow> 'x kernel_scheme" where
  "vt_pop z rest s = s\<lparr>vts := (vts s)(z := (vts s z)\<lparr>vt_func := None\<rparr>), vtl := rest\<rparr>"

lemma vt_pop_fields [simp]:
  "vts (vt_pop z rest s) = (vts s)(z := (vts s z)\<lparr>vt_func := None\<rparr>)" "vtl (vt_pop z rest s) = rest"
  by (simp_all add: vt_pop_def)

text \<open>
  The contract of the functions the timers call, in a system with invariant \<open>I\<close>: the function of an armed
  timer returns, leaves the other timers as they are, keeps the invariant and has its effect \<open>Served\<close>,
  which the functions called after it keep.
\<close>

locale timer_calls =
  fixes call :: "vtfunc \<Rightarrow> nat \<Rightarrow> 'x kernel_scheme \<Rightarrow> ('x, unit) kout"
    and I :: "'x kernel_scheme \<Rightarrow> bool" and Served :: "vtid \<Rightarrow> 'x kernel_scheme \<Rightarrow> bool"
  assumes served: "I s \<Longrightarrow> distinct (vtl s) \<Longrightarrow> vtl s = z # rest \<Longrightarrow> vt_func (vts s z) = Some fn \<Longrightarrow>
      \<exists>s'. call fn (vt_par (vts s z)) (vt_pop z rest s) = Done () s' \<and> vts s' = vts (vt_pop z rest s) \<and>
        vtl s' = rest \<and> I s' \<and> Served z s' \<and> (\<forall>v. Served v s \<longrightarrow> Served v s')"
    and ticked: "I s \<Longrightarrow> I (vt_dec_head (s\<lparr>vt_systime := x\<rparr>))"
      "Served v s \<Longrightarrow> Served v (vt_dec_head (s\<lparr>vt_systime := x\<rparr>))"
begin

lemma vt_fire_zeros:
  "vtl s = zs @ rest \<Longrightarrow> distinct (vtl s) \<Longrightarrow> \<forall>z\<in>set zs. dt (vts s) z = 0 \<Longrightarrow>
    \<forall>z\<in>set zs. vt_func (vts s z) \<noteq> None \<Longrightarrow>
    (\<forall>r rs. rest = r # rs \<longrightarrow> dt (vts s) r \<noteq> 0) \<Longrightarrow> length zs < n \<Longrightarrow> I s \<Longrightarrow>
    \<exists>s'. vt_fire n call s = Done () s' \<and> vtl s' = rest \<and> vts s' = vt_disarm zs (vts s) \<and> I s' \<and>
      (\<forall>v. v \<in> set zs \<or> Served v s \<longrightarrow> Served v s')"
proof (induction zs arbitrary: n s)
  case Nil
  then obtain m where "n = Suc m" by (cases n) auto
  with Nil show ?case by (cases rest) (auto simp: dt_0 vt_disarm_def fun_eq_iff)
next
  case (Cons z zs)
  obtain m where n: "n = Suc m" "length zs < m" using Cons.prems by (cases n) auto
  obtain fn where fn: "vt_func (vts s z) = Some fn" using Cons.prems by auto
  let ?s1 = "vt_pop z (zs @ rest) s"
  have l: "vtl s = z # (zs @ rest)" using Cons.prems(1) by simp
  from served[OF Cons.prems(7) Cons.prems(2) l fn] obtain s2 where
    s2: "call fn (vt_par (vts s z)) ?s1 = Done () s2" "vts s2 = vts ?s1" "vtl s2 = zs @ rest" "I s2" "Served z s2"
      "\<forall>v. Served v s \<longrightarrow> Served v s2" by blast
  have dt2: "dt (vts s2) v = dt (vts s) v" for v using s2(2) by (auto simp: dt_def)
  have fn2: "v \<noteq> z \<Longrightarrow> vt_func (vts s2 v) = vt_func (vts s v)" for v using s2(2) by simp
  have z: "z \<notin> set zs" using Cons.prems by auto
  have "\<exists>s'. vt_fire m call s2 = Done () s' \<and> vtl s' = rest \<and> vts s' = vt_disarm zs (vts s2) \<and> I s' \<and>
      (\<forall>v. v \<in> set zs \<or> Served v s2 \<longrightarrow> Served v s')"
    using Cons.prems s2(3,4) n z by (intro Cons.IH) (auto simp: dt2, metis fn2 not_None_eq)
  moreover have "vt_disarm zs (vts s2) = vt_disarm (z # zs) (vts s)"
    using s2(2) z by (auto simp: vt_disarm_def fun_eq_iff)
  moreover have "vt_fire n call s = vt_fire m call s2"
    using Cons.prems n fn s2(1) by (auto simp: dt_0 vt_pop_def)
  ultimately show ?case using s2(5,6) by auto
qed

lemma vt_tick_deadline:
  assumes "vt_ok s" "vt_live s" "I s"
  shows "\<exists>s'. chVTDoTickI (Suc (length (vtl s))) call s = Done () s' \<and>
    vt_deadline s' = (\<lambda>v. case vt_deadline s v of None \<Rightarrow> None
       | Some d \<Rightarrow> if d = 1 then None else Some (d - 1)) \<and> vt_ok s' \<and> vt_live s' \<and> I s' \<and>
    (\<forall>v. vt_deadline s v = Some 1 \<or> Served v s \<longrightarrow> Served v s')"
proof (cases "vtl s")
  case Nil
  have "I (s\<lparr>vt_systime := vt_systime s + 1\<rparr>)" "Served v s \<Longrightarrow> Served v (s\<lparr>vt_systime := vt_systime s + 1\<rparr>)" for v
    using ticked(1)[OF assms(3)] ticked(2)[of v s] Nil by (simp_all add: vt_dec_head_def)
  then show ?thesis using assms Nil
    by (auto simp: chVTDoTickI_def vt_deadline_def vt_ok_def vt_live_def chVTIsArmedI_def fun_eq_iff)
next
  case (Cons p ps)
  define s1 where "s1 = vt_dec_head (s\<lparr>vt_systime := vt_systime s + 1\<rparr>)"
  define zs where "zs = takeWhile (\<lambda>v. dt (vts s1) v = 0) (vtl s1)"
  define rest where "rest = dropWhile (\<lambda>v. dt (vts s1) v = 0) (vtl s1)"
  have l1: "vtl s1 = vtl s" and
    v1: "vts s1 = (vts s)(p := (vts s p)\<lparr>vt_time := vt_time (vts s p) - 1\<rparr>)"
    by (simp_all add: s1_def vt_dec_head_def Cons)
  have ok: "distinct (p # ps)" "0 < dt (vts s) p" "dsum (vts s) (p # ps) < 4294967296"
    using assms Cons by (auto simp: vt_ok_def vt_live_def)
  have armed: "v \<in> set (vtl s1) \<longleftrightarrow> vt_func (vts s1 v) \<noteq> None" for v
    using assms(1) by (auto simp: vt_ok_def chVTIsArmedI_def l1 v1)
  have dl: "deadlines (vts s1) (vtl s1) x = map_option (\<lambda>d. d - 1) (deadlines (vts s) (vtl s) x)" for x
    using deadlines_dec_head[of "vts s" p ps x] ok by (simp add: l1 v1 Cons)
  have pos: "deadlines (vts s) (vtl s) x = Some d \<Longrightarrow> 0 < d" for x d
    using deadlines_ge_head[of "vts s" p ps x d] ok Cons by auto
  have zs: "vtl s1 = zs @ rest" "\<forall>z\<in>set zs. dt (vts s1) z = 0"
    unfolding zs_def rest_def by (simp, meson set_takeWhileD)
  have rest: "dt (vts s1) r \<noteq> 0" if "rest = r # rs" for r rs
    using that hd_dropWhile[of "\<lambda>v. dt (vts s1) v = 0" "vtl s1"] unfolding rest_def by auto
  have "length zs < Suc (length (vtl s))" using zs l1 by (metis length_append less_Suc_eq_le le_add1)
  moreover have "distinct (vtl s1)" using ok Cons l1 by simp
  ultimately have "\<exists>s'. vt_fire (Suc (length (vtl s))) call s1 = Done () s' \<and> vtl s' = rest \<and>
      vts s' = vt_disarm zs (vts s1) \<and> I s' \<and> (\<forall>v. v \<in> set zs \<or> Served v s1 \<longrightarrow> Served v s')"
    using ticked(1)[OF assms(3)] zs armed rest by (intro vt_fire_zeros) (auto simp: s1_def)
  then obtain s' where s': "vt_fire (Suc (length (vtl s))) call s1 = Done () s'" "vtl s' = rest"
    "vts s' = vt_disarm zs (vts s1)" "I s'" "\<forall>v. v \<in> set zs \<or> Served v s1 \<longrightarrow> Served v s'" by blast
  have d: "distinct (zs @ rest)" using \<open>distinct (vtl s1)\<close> zs by simp
  have same: "deadlines (vts s') rest = deadlines (vts s1) rest" "dsum (vts s') rest = dsum (vts s1) rest"
    using s' by (auto intro!: deadlines_cong sum_dt_cong)
  have rest_pos: "0 < e" if e: "deadlines (vts s1) rest x = Some e" for x e
  proof -
    from e obtain r rs where "rest = r # rs" by (cases rest) auto
    with e deadlines_ge_head[of "vts s1" r rs x e] rest show ?thesis by auto
  qed
  have "vt_deadline s' x = (case vt_deadline s x of None \<Rightarrow> None
       | Some d \<Rightarrow> if d = 1 then None else Some (d - 1))" for x
  proof (cases "x \<in> set zs")
    case True
    then have "deadlines (vts s1) (vtl s1) x = Some 0" using deadlines_zeros zs by simp
    then have "deadlines (vts s) (vtl s) x = Some 1" using dl[of x] pos by force
    moreover have "x \<notin> set rest" using True d by auto
    ultimately show ?thesis using s' by (simp add: vt_deadline_def)
  next
    case False
    then have eq: "deadlines (vts s1) (vtl s1) x = deadlines (vts s1) rest x"
      using deadlines_drop_zeros zs by simp
    show ?thesis
    proof (cases "deadlines (vts s) (vtl s) x")
      case None
      then show ?thesis using eq dl[of x] s' same by (simp add: vt_deadline_def)
    next
      case (Some e)
      then have r: "deadlines (vts s1) rest x = Some (e - 1)" using eq dl[of x] by simp
      with rest_pos have "e \<noteq> 1" by force
      with r Some show ?thesis using s' same by (simp add: vt_deadline_def)
    qed
  qed
  moreover have "vt_ok s'"
  proof -
    have "dsum (vts s1) (p # ps) \<le> dsum (vts s) (p # ps)"
    proof -
      have "dsum (vts s1) ps = dsum (vts s) ps" using ok by (auto intro!: sum_dt_cong simp: v1)
      moreover have "dt (vts s1) p \<le> dt (vts s) p" using ok by (auto simp: v1 dt_def dt_sub)
      ultimately show ?thesis by simp
    qed
    then have "dsum (vts s1) rest < 4294967296" using ok zs l1 Cons by (metis dsum_simps(3) add_leD2 le_less_trans)
    moreover have "v \<in> set rest \<longleftrightarrow> vt_func (vts s' v) \<noteq> None" for v
      using armed[of v] s' zs d by (auto simp: vt_disarm_def)
    ultimately show ?thesis using d s' same by (auto simp: vt_ok_def chVTIsArmedI_def)
  qed
  moreover have "vt_live s'" using s' rest by (auto simp: vt_live_def split: list.splits)
  moreover have "Served x s'" if x: "vt_deadline s x = Some 1 \<or> Served x s" for x
  proof (cases "Served x s")
    case True
    then have "Served x s1" unfolding s1_def by (rule ticked(2))
    then show ?thesis using s'(5) by blast
  next
    case False
    then have x: "vt_deadline s x = Some 1" using that by blast
    have "deadlines (vts s1) (vtl s1) x = Some 0" using dl[of x] x by (simp add: vt_deadline_def)
    then have "x \<in> set zs" using rest_pos[of x 0] deadlines_drop_zeros[of zs "vts s1" x rest] zs by fastforce
    then show ?thesis using s'(5) by blast
  qed
  moreover have "chVTDoTickI (Suc (length (vtl s))) call s = Done () s'"
    using s' by (simp add: chVTDoTickI_def Cons s1_def)
  ultimately show ?thesis using s'(4) by (auto simp: fun_eq_iff)
qed

end

end
