(* ===== verification/Sched.thy ===== *)
theory Sched
  imports VTimers
begin

text \<open>
  The scheduler, \<^verbatim>\<open>os/kernel/src/chschd.c\<close>: the ready list, the context switches, sleeping with a
  timeout and the timer function \<open>wakeup\<close>. The scheduler invariant says what the ready list and the
  waiting queues hold in terms of the states of the threads.
\<close>

section \<open>Operations\<close>

definition scheduler_init :: "'x kernel_scheme \<Rightarrow> 'x kernel_scheme" where
  "scheduler_init s = (queue_init QReady s)\<lparr>registry := []\<rparr>"

text \<open>
  The insertion loop has no test for the header; with a thread of priority \<open>NOPRIO\<close> it would not end.
\<close>

definition chSchReadyI :: "tid \<Rightarrow> 'x kernel_scheme \<Rightarrow> ('x, tid) kout" where
  "chSchReadyI tp s =
     (let s1 = set_state tp THD_STATE_READY s in
      if prio s1 tp = NOPRIO then Fault
      else Done tp (set_tq QReady (ins_behind (prio s1) tp (tq s1 QReady)) s1))"

definition setcurrp :: "tid \<Rightarrow> 'x kernel_scheme \<Rightarrow> 'x kernel_scheme" where
  "setcurrp t s = s\<lparr>currp := t\<rparr>"

text \<open>The switched-out thread continues, after \<open>chSysSwitch\<close>, in the state it is resumed in.\<close>

definition chSysSwitch :: "'x kernel_scheme \<Rightarrow> ('x, unit) kout" where
  "chSysSwitch s = Switch s (\<lambda>s'. Done () s')"

definition chSchGoSleepS :: "tstate \<Rightarrow> 'x kernel_scheme \<Rightarrow> ('x, unit) kout" where
  "chSchGoSleepS newstate s =
     (let otp = currp s;
          s1 = upd_thread otp (\<lambda>th. th\<lparr>p_state := newstate, p_preempt := CH_TIME_QUANTUM\<rparr>) s
      in obind (fifo_remove QReady s1) (\<lambda>ntp s2.
         chSysSwitch (set_state ntp THD_STATE_CURRENT (setcurrp ntp s2))))"

text \<open>The timer function of a sleep with a timeout; \<open>tp\<close> is the sleeping thread.\<close>

definition wakeup_timeout :: "tid \<Rightarrow> 'x kernel_scheme \<Rightarrow> ('x, unit) kout" where
  "wakeup_timeout tp s = obind (chSchReadyI tp (set_rdymsg tp RDY_TIMEOUT s)) (\<lambda>_ s. Done () s)"

definition wakeup :: "tid \<Rightarrow> 'x kernel_scheme \<Rightarrow> ('x, unit) kout" where
  "wakeup tp s =
     (case p_state (threads s tp) of
        THD_STATE_READY \<Rightarrow> Done () s
      | THD_STATE_WTSEM \<Rightarrow>
          (case wtobjp (p_u (threads s tp)) of
             QSem sp \<Rightarrow> obind (dequeue (QSem sp) tp (s\<lparr>s_cnt := (s_cnt s)(sp := s_cnt s sp + 1)\<rparr>))
                          (\<lambda>_. wakeup_timeout tp)
           | _ \<Rightarrow> Fault)
      | THD_STATE_WTQUEUE \<Rightarrow> obind (dequeue (wtobjp (p_u (threads s tp))) tp s) (\<lambda>_. wakeup_timeout tp)
      | THD_STATE_WTCOND \<Rightarrow> obind (dequeue (wtobjp (p_u (threads s tp))) tp s) (\<lambda>_. wakeup_timeout tp)
      | _ \<Rightarrow> wakeup_timeout tp s)"

definition chSchGoSleepTimeoutS :: "tstate \<Rightarrow> systime \<Rightarrow> 'x kernel_scheme \<Rightarrow> ('x, msg) kout" where
  "chSchGoSleepTimeoutS newstate time s =
     (if TIME_INFINITE \<noteq> time then
        (let vt = VtStack (currp s) in
         obind (chVTSetI vt time Fn_wakeup (currp s) s) (\<lambda>_ s1.
         obind (chSchGoSleepS newstate s1) (\<lambda>_ s2.
         obind (if chVTIsArmedI vt s2 then chVTResetI vt s2 else Done () s2) (\<lambda>_ s3.
         Done (rdymsg (p_u (cur s3))) s3))))
      else obind (chSchGoSleepS newstate s) (\<lambda>_ s2. Done (rdymsg (p_u (cur s2))) s2))"

definition chSchWakeupS :: "tid \<Rightarrow> msg \<Rightarrow> 'x kernel_scheme \<Rightarrow> ('x, unit) kout" where
  "chSchWakeupS ntp m s =
     (let s1 = set_rdymsg ntp m s in
      if prio s1 ntp \<le> prio s1 (currp s1) then obind (chSchReadyI ntp s1) (\<lambda>_ s2. Done () s2)
      else obind (chSchReadyI (currp s1) s1) (\<lambda>otp s2.
           chSysSwitch (set_state ntp THD_STATE_CURRENT (setcurrp ntp s2))))"

definition chSchIsRescRequiredI :: "'x kernel_scheme \<Rightarrow> bool" where
  "chSchIsRescRequiredI s \<longleftrightarrow> firstprio QReady s > prio s (currp s)"

definition chSchCanYieldS :: "'x kernel_scheme \<Rightarrow> bool" where
  "chSchCanYieldS s \<longleftrightarrow> firstprio QReady s \<ge> prio s (currp s)"

definition chSchDoRescheduleBehind :: "'x kernel_scheme \<Rightarrow> ('x, unit) kout" where
  "chSchDoRescheduleBehind s =
     (let otp = currp s in
      obind (fifo_remove QReady s) (\<lambda>ntp s1.
      let s2 = set_state ntp THD_STATE_CURRENT (setcurrp ntp s1);
          s3 = upd_thread otp (\<lambda>th. th\<lparr>p_preempt := CH_TIME_QUANTUM\<rparr>) s2
      in obind (chSchReadyI otp s3) (\<lambda>_ s4. chSysSwitch s4)))"

definition chSchDoRescheduleAhead :: "'x kernel_scheme \<Rightarrow> ('x, unit) kout" where
  "chSchDoRescheduleAhead s =
     (let otp = currp s in
      obind (fifo_remove QReady s) (\<lambda>ntp s1.
      let s2 = set_state ntp THD_STATE_CURRENT (setcurrp ntp s1);
          s3 = set_state otp THD_STATE_READY s2
      in chSysSwitch (set_tq QReady (ins_ahead (prio s3) otp (tq s3 QReady)) s3)))"

definition chSchRescheduleS :: "'x kernel_scheme \<Rightarrow> ('x, unit) kout" where
  "chSchRescheduleS s = (if chSchIsRescRequiredI s then chSchDoRescheduleAhead s else Done () s)"

definition chSchIsPreemptionRequired :: "'x kernel_scheme \<Rightarrow> bool" where
  "chSchIsPreemptionRequired s =
     (let p1 = firstprio QReady s; p2 = prio s (currp s) in
      if p_preempt (cur s) \<noteq> 0 then p1 > p2 else p1 \<ge> p2)"

definition chSchDoReschedule :: "'x kernel_scheme \<Rightarrow> ('x, unit) kout" where
  "chSchDoReschedule s =
     (if p_preempt (cur s) = 0 then chSchDoRescheduleBehind s else chSchDoRescheduleAhead s)"

definition chSchDoYieldS :: "'x kernel_scheme \<Rightarrow> ('x, unit) kout" where
  "chSchDoYieldS s = (if chSchCanYieldS s then chSchDoRescheduleBehind s else Done () s)"

definition chSchPreemption :: "'x kernel_scheme \<Rightarrow> ('x, unit) kout" where
  "chSchPreemption s =
     (let p1 = firstprio QReady s; p2 = prio s (currp s) in
      if p_preempt (cur s) \<noteq> 0 then (if p1 > p2 then chSchDoRescheduleAhead s else Done () s)
      else (if p1 \<ge> p2 then chSchDoRescheduleBehind s else Done () s))"

text \<open>The sleep macros of \<^verbatim>\<open>chthreads.h\<close>.\<close>

definition chThdSelf :: "'x kernel_scheme \<Rightarrow> tid" where
  "chThdSelf s = currp s"

definition chThdSleepS :: "systime \<Rightarrow> 'x kernel_scheme \<Rightarrow> ('x, msg) kout" where
  "chThdSleepS time s = chSchGoSleepTimeoutS THD_STATE_SLEEPING time s"

section \<open>The scheduler invariant\<close>

text \<open>What a thread linked in a queue looks like.\<close>

fun queued_as :: "qid \<Rightarrow> thread \<Rightarrow> bool" where
  "queued_as QReady th = (p_state th = THD_STATE_READY)"
| "queued_as (QSem n) th = (p_state th = THD_STATE_WTSEM \<and> p_u th = UObj (QSem n))"
| "queued_as (QMtx n) th = (p_state th = THD_STATE_WTMTX \<and> p_u th = UObj (QMtx n))"
| "queued_as (QCond n) th = (p_state th = THD_STATE_WTCOND \<and> p_u th = UObj (QCond n))"
| "queued_as (QMsg n) th = (p_state th = THD_STATE_SNDMSGQ \<and> p_u th = UObj (QMsg n))"
| "queued_as (QGen n) th = (p_state th = THD_STATE_WTQUEUE \<and> p_u th = UObj (QGen n))"

definition idle_tid :: tid where "idle_tid = 1"

text \<open>
  \<open>sched_but F s\<close>: the invariant, except for the threads \<open>F\<close> a routine is moving. \<open>F = {}\<close> is the
  invariant itself.
\<close>

definition sched_but :: "tid set \<Rightarrow> 'x kernel_scheme \<Rightarrow> bool" where
  "sched_but F s \<longleftrightarrow>
     (\<forall>q. distinct (tq s q)) \<and>
     (\<forall>q t. t \<notin> F \<longrightarrow> (t \<in> set (tq s q) \<longleftrightarrow> queued_as q (threads s t))) \<and>
     (\<forall>t. t \<notin> F \<longrightarrow> (p_state (threads s t) = THD_STATE_CURRENT \<longleftrightarrow> t = currp s)) \<and>
     prio_sorted (prio s) (tq s QReady) \<and>
     (\<forall>t. p_state (threads s t) \<noteq> THD_STATE_FINAL \<longrightarrow> 0 < prio s t) \<and>
     (idle_tid \<notin> F \<longrightarrow> p_state (threads s idle_tid) \<in> {THD_STATE_READY, THD_STATE_CURRENT})"

abbreviation sched_inv :: "'x kernel_scheme \<Rightarrow> bool" where
  "sched_inv \<equiv> sched_but {}"

text \<open>No ready thread has a higher priority than the running one.\<close>

definition top_running :: "'x kernel_scheme \<Rightarrow> bool" where
  "top_running s \<longleftrightarrow> (\<forall>t\<in>set (tq s QReady). prio s t \<le> prio s (currp s))"

lemma upd_thread_fields [simp]:
  "threads (upd_thread t f s) = (threads s)(t := f (threads s t))"
  "tq (upd_thread t f s) = tq s" "currp (upd_thread t f s) = currp s"
  "registry (upd_thread t f s) = registry s" "vts (upd_thread t f s) = vts s"
  "vtl (upd_thread t f s) = vtl s" "vt_systime (upd_thread t f s) = vt_systime s"
  "s_cnt (upd_thread t f s) = s_cnt s" "m_owner (upd_thread t f s) = m_owner s"
  "es_next (upd_thread t f s) = es_next s" "els (upd_thread t f s) = els s"
  "gqs (upd_thread t f s) = gqs s" "mbs (upd_thread t f s) = mbs s"
  "pools (upd_thread t f s) = pools s" "heaps (upd_thread t f s) = heaps s" "hdrs (upd_thread t f s) = hdrs s" "nextmem (upd_thread t f s) = nextmem s"
  "endmem (upd_thread t f s) = endmem s" "kernel.more (upd_thread t f s) = kernel.more s"
  by (simp_all add: upd_thread_def)

lemma set_tq_fields [simp]:
  "tq (set_tq q ts s) = (tq s)(q := ts)" "threads (set_tq q ts s) = threads s"
  "currp (set_tq q ts s) = currp s" "registry (set_tq q ts s) = registry s"
  "vts (set_tq q ts s) = vts s" "vtl (set_tq q ts s) = vtl s"
  "vt_systime (set_tq q ts s) = vt_systime s" "s_cnt (set_tq q ts s) = s_cnt s"
  "m_owner (set_tq q ts s) = m_owner s" "es_next (set_tq q ts s) = es_next s"
  "els (set_tq q ts s) = els s" "gqs (set_tq q ts s) = gqs s" "mbs (set_tq q ts s) = mbs s"
  "pools (set_tq q ts s) = pools s" "heaps (set_tq q ts s) = heaps s" "hdrs (set_tq q ts s) = hdrs s" "nextmem (set_tq q ts s) = nextmem s"
  "endmem (set_tq q ts s) = endmem s" "kernel.more (set_tq q ts s) = kernel.more s"
  by (simp_all add: set_tq_def)

lemma set_tq_twice [simp]: "set_tq q a (set_tq q b s) = set_tq q a s"
  by (simp add: set_tq_def)

lemma upd_set_tq: "upd_thread t f (set_tq q xs s) = set_tq q xs (upd_thread t f s)"
  by (simp add: upd_thread_def set_tq_def)

lemma setcurrp_fields [simp]:
  "currp (setcurrp t s) = t" "threads (setcurrp t s) = threads s" "tq (setcurrp t s) = tq s"
  "registry (setcurrp t s) = registry s"
  "vts (setcurrp t s) = vts s" "vtl (setcurrp t s) = vtl s" "s_cnt (setcurrp t s) = s_cnt s"
  "vt_systime (setcurrp t s) = vt_systime s" "m_owner (setcurrp t s) = m_owner s"
  "es_next (setcurrp t s) = es_next s" "els (setcurrp t s) = els s" "gqs (setcurrp t s) = gqs s"
  "mbs (setcurrp t s) = mbs s" "pools (setcurrp t s) = pools s" "heaps (setcurrp t s) = heaps s" "hdrs (setcurrp t s) = hdrs s" "nextmem (setcurrp t s) = nextmem s"
  "endmem (setcurrp t s) = endmem s"
  "kernel.more (setcurrp t s) = kernel.more s"
  by (simp_all add: setcurrp_def)

lemma prio_upd_thread: "prio (upd_thread t f s) u = (if u = t then p_prio (f (threads s t)) else prio s u)"
  by (simp add: prio_def)

lemma prio_upd_state [simp]:
  "prio (set_state t st s) = prio s" "prio (set_rdymsg t m s) = prio s" "prio (set_wtobjp t q s) = prio s"
  "prio (set_tq q ts s) = prio s" "prio (setcurrp t s) = prio s"
  by (auto simp: prio_def fun_eq_iff)

lemma sched_but_cong:
  "threads s = threads s' \<Longrightarrow> tq s = tq s' \<Longrightarrow> currp s = currp s' \<Longrightarrow> sched_but F s = sched_but F s'"
proof -
  assume a: "threads s = threads s'" "tq s = tq s'" "currp s = currp s'"
  then have "prio s = prio s'" by (simp add: prio_def fun_eq_iff)
  with a show ?thesis by (simp add: sched_but_def)
qed

lemma top_running_cong:
  "threads s = threads s' \<Longrightarrow> tq s = tq s' \<Longrightarrow> currp s = currp s' \<Longrightarrow> top_running s = top_running s'"
  by (simp add: top_running_def prio_def)

lemma queued_as_unique: "queued_as q th \<Longrightarrow> queued_as q' th \<Longrightarrow> q = q'"
  by (cases q; cases q') auto

lemma queued_not_current: "queued_as q th \<Longrightarrow> p_state th \<noteq> THD_STATE_CURRENT"
  by (cases q) auto

section \<open>Preservation\<close>

definition loose :: "tid \<Rightarrow> 'x kernel_scheme \<Rightarrow> bool" where
  "loose t s \<longleftrightarrow> (\<forall>q. t \<notin> set (tq s q))"

text \<open>
  \<open>frame_but Q s s'\<close>: only threads, the running thread and the queues \<open>Q\<close> may have changed. A routine
  that only schedules changes no queue but the ready list.
\<close>

definition frame_but :: "qid set \<Rightarrow> 'x kernel_scheme \<Rightarrow> 'x kernel_scheme \<Rightarrow> bool" where
  "frame_but Q s s' \<longleftrightarrow>
     registry s' = registry s \<and>
     vts s' = vts s \<and>
     vtl s' = vtl s \<and>
     vt_systime s' = vt_systime s \<and>
     s_cnt s' = s_cnt s \<and>
     m_owner s' = m_owner s \<and>
     es_next s' = es_next s \<and>
     els s' = els s \<and>
     gqs s' = gqs s \<and>
     mbs s' = mbs s \<and>
     pools s' = pools s \<and>
     heaps s' = heaps s \<and>
     hdrs s' = hdrs s \<and>
     nextmem s' = nextmem s \<and>
     endmem s' = endmem s \<and>
     kernel.more s' = kernel.more s \<and>
     (\<forall>q. q \<notin> Q \<longrightarrow> tq s' q = tq s q)"

abbreviation sched_frame :: "'x kernel_scheme \<Rightarrow> 'x kernel_scheme \<Rightarrow> bool" where
  "sched_frame \<equiv> frame_but {QReady}"

lemma sched_frame_refl [simp]: "frame_but Q s s"
  by (simp add: frame_but_def)

lemma sched_frame_trans: "frame_but Q s s' \<Longrightarrow> frame_but Q s' s'' \<Longrightarrow> frame_but Q s s''"
  by (simp add: frame_but_def)

lemma frame_but_mono: "frame_but Q s s' \<Longrightarrow> Q \<subseteq> Q' \<Longrightarrow> frame_but Q' s s'"
  by (auto simp: frame_but_def)

lemma sched_frame_steps [intro!]:
  "frame_but Q s s' \<Longrightarrow> frame_but Q s (upd_thread t f s')"
  "frame_but Q s s' \<Longrightarrow> frame_but Q s (setcurrp t s')"
  "frame_but Q s s' \<Longrightarrow> q \<in> Q \<Longrightarrow> frame_but Q s (set_tq q ts s')"
  by (auto simp: frame_but_def)

lemma sched_frame_fields:
  assumes "frame_but Q s s'"
  shows "registry s' = registry s"
    "vts s' = vts s"
    "vtl s' = vtl s"
    "vt_systime s' = vt_systime s"
    "s_cnt s' = s_cnt s"
    "m_owner s' = m_owner s"
    "es_next s' = es_next s"
    "els s' = els s"
    "gqs s' = gqs s"
    "mbs s' = mbs s"
    "pools s' = pools s"
    "nextmem s' = nextmem s"
    "endmem s' = endmem s"
    "kernel.more s' = kernel.more s"
    "q \<notin> Q \<Longrightarrow> tq s' q = tq s q"
    "heaps s' = heaps s"
    "hdrs s' = hdrs s"
  using assms by (simp_all add: frame_but_def)

lemma obind_switch [simp]: "obind (chSysSwitch s) f = Switch s (\<lambda>s'. f () s')"
  by (simp add: chSysSwitch_def)

lemma safe_switch [simp]: "safe G R Q (chSysSwitch s) \<longleftrightarrow> G s \<and> (\<forall>s'. R s' \<longrightarrow> Q () s')"
  by (simp add: chSysSwitch_def)

lemma settles_switch [simp]: "settles P (chSysSwitch s) = P s"
  by (simp add: chSysSwitch_def)

definition ready_put :: "tid \<Rightarrow> 'x kernel_scheme \<Rightarrow> 'x kernel_scheme" where
  "ready_put t s = set_tq QReady (ins_behind (prio s) t (tq s QReady)) (set_state t THD_STATE_READY s)"

lemma chSchReadyI_eq: "0 < prio s t \<Longrightarrow> chSchReadyI t s = Done t (ready_put t s)"
  by (simp add: chSchReadyI_def ready_put_def NOPRIO_def Let_def)

lemma ready_put_fields [simp]:
  "currp (ready_put t s) = currp s" "s_cnt (ready_put t s) = s_cnt s" "prio (ready_put t s) = prio s"
  "vts (ready_put t s) = vts s" "vtl (ready_put t s) = vtl s" "m_owner (ready_put t s) = m_owner s"
  "tq (ready_put t s) = (tq s)(QReady := ins_behind (prio s) t (tq s QReady))"
  "threads (ready_put t s) = (threads s)(t := (threads s t)\<lparr>p_state := THD_STATE_READY\<rparr>)"
  "els (ready_put t s) = els s" "es_next (ready_put t s) = es_next s"
  "gqs (ready_put t s) = gqs s" "mbs (ready_put t s) = mbs s" "pools (ready_put t s) = pools s" "heaps (ready_put t s) = heaps s" "hdrs (ready_put t s) = hdrs s"
  "registry (ready_put t s) = registry s" "vt_systime (ready_put t s) = vt_systime s" "nextmem (ready_put t s) = nextmem s"
  "endmem (ready_put t s) = endmem s" "kernel.more (ready_put t s) = kernel.more s"
  by (simp_all add: ready_put_def)

lemma ready_put_frame [intro!]: "frame_but Q s s' \<Longrightarrow> QReady \<in> Q \<Longrightarrow> frame_but Q s (ready_put t s')"
  by (auto simp: ready_put_def)

lemma sched_but_mono: "sched_but F s \<Longrightarrow> F \<subseteq> F' \<Longrightarrow> sched_but F' s"
  by (auto simp: sched_but_def)

lemma sched_butI:
  assumes "\<And>q. distinct (tq s q)"
    "\<And>q t. t \<notin> F \<Longrightarrow> t \<in> set (tq s q) \<longleftrightarrow> queued_as q (threads s t)"
    "\<And>t. t \<notin> F \<Longrightarrow> p_state (threads s t) = THD_STATE_CURRENT \<longleftrightarrow> t = currp s"
    "prio_sorted (prio s) (tq s QReady)"
    "\<And>t. p_state (threads s t) \<noteq> THD_STATE_FINAL \<Longrightarrow> 0 < prio s t"
    "idle_tid \<notin> F \<Longrightarrow> p_state (threads s idle_tid) = THD_STATE_READY \<or> p_state (threads s idle_tid) = THD_STATE_CURRENT"
  shows "sched_but F s"
  using assms unfolding sched_but_def by blast

lemma sched_butD:
  assumes "sched_but F s"
  shows "distinct (tq s q)" "prio_sorted (prio s) (tq s QReady)"
    "t \<notin> F \<Longrightarrow> t \<in> set (tq s q) \<longleftrightarrow> queued_as q (threads s t)"
    "t \<notin> F \<Longrightarrow> p_state (threads s t) = THD_STATE_CURRENT \<longleftrightarrow> t = currp s"
    "p_state (threads s t) \<noteq> THD_STATE_FINAL \<Longrightarrow> 0 < prio s t"
    "idle_tid \<notin> F \<Longrightarrow> p_state (threads s idle_tid) = THD_STATE_READY \<or> p_state (threads s idle_tid) = THD_STATE_CURRENT"
  using assms by (auto simp: sched_but_def)

lemma queued_as_ready [simp]: "queued_as q (th\<lparr>p_state := THD_STATE_READY\<rparr>) \<longleftrightarrow> q = QReady"
  by (cases q) auto

lemma ready_put_inv:
  assumes "sched_but F s" "loose t s" "t \<noteq> currp s" "0 < prio s t" "F \<subseteq> insert t F'"
  shows "sched_but F' (ready_put t s)"
proof (rule sched_butI)
  note D = sched_butD[OF assms(1)]
  let ?s = "ready_put t s"
  have nf: "u \<noteq> t \<Longrightarrow> u \<notin> F" if "u \<notin> F'" for u using assms(5) that by auto
  show "distinct (tq ?s q)" for q using D(1)[of q] assms(2) by (auto simp: loose_def)
  show "u \<in> set (tq ?s q) \<longleftrightarrow> queued_as q (threads ?s u)" if "u \<notin> F'" for q u
    using D(3)[of u q] assms(2) nf[OF that] by (cases "u = t") (auto simp: loose_def)
  show "p_state (threads ?s u) = THD_STATE_CURRENT \<longleftrightarrow> u = currp ?s" if "u \<notin> F'" for u
    using D(4)[of u] assms(3) nf[OF that] by (cases "u = t") auto
  show "prio_sorted (prio ?s) (tq ?s QReady)" using D(2) by (simp add: prio_sorted_ins_behind)
  show "0 < prio ?s u" if "p_state (threads ?s u) \<noteq> THD_STATE_FINAL" for u
    using D(5)[of u] assms(4) that by (auto split: if_splits)
  show "p_state (threads ?s idle_tid) = THD_STATE_READY \<or> p_state (threads ?s idle_tid) = THD_STATE_CURRENT"
    if "idle_tid \<notin> F'" using D(6) nf[OF that] by (cases "idle_tid = t") auto
qed

text \<open>Handing the processor to \<open>ntp\<close>, which no queue holds any more.\<close>

definition dispatch :: "tid \<Rightarrow> 'x kernel_scheme \<Rightarrow> 'x kernel_scheme" where
  "dispatch t s = set_state t THD_STATE_CURRENT (setcurrp t s)"

lemma dispatch_fields [simp]:
  "currp (dispatch t s) = t" "tq (dispatch t s) = tq s" "prio (dispatch t s) = prio s"
  "threads (dispatch t s) = (threads s)(t := (threads s t)\<lparr>p_state := THD_STATE_CURRENT\<rparr>)"
  "s_cnt (dispatch t s) = s_cnt s" "vts (dispatch t s) = vts s" "vtl (dispatch t s) = vtl s"
  "m_owner (dispatch t s) = m_owner s" "els (dispatch t s) = els s" "es_next (dispatch t s) = es_next s"
  "gqs (dispatch t s) = gqs s" "mbs (dispatch t s) = mbs s" "pools (dispatch t s) = pools s" "heaps (dispatch t s) = heaps s" "hdrs (dispatch t s) = hdrs s"
  "registry (dispatch t s) = registry s" "vt_systime (dispatch t s) = vt_systime s" "nextmem (dispatch t s) = nextmem s"
  "endmem (dispatch t s) = endmem s" "kernel.more (dispatch t s) = kernel.more s"
  by (simp_all add: dispatch_def)

lemma dispatch_frame [intro!]: "frame_but Q s s' \<Longrightarrow> frame_but Q s (dispatch t s')"
  by (auto simp: dispatch_def)

lemma not_queued_current [simp]: "\<not> queued_as q (th\<lparr>p_state := THD_STATE_CURRENT\<rparr>)"
  by (cases q) auto

lemma dispatch_inv:
  assumes "sched_but {currp s, ntp} s" "loose ntp s" "0 < prio s ntp"
    "\<And>q. currp s \<in> set (tq s q) \<longleftrightarrow> queued_as q (threads s (currp s))"
    "p_state (threads s (currp s)) \<noteq> THD_STATE_CURRENT" "ntp \<noteq> currp s"
    "currp s = idle_tid \<Longrightarrow> p_state (threads s (currp s)) = THD_STATE_READY"
  shows "sched_inv (dispatch ntp s)"
proof (rule sched_butI)
  note D = sched_butD[OF assms(1)]
  show "distinct (tq (dispatch ntp s) q)" for q using D(1) by simp
  show "t \<in> set (tq (dispatch ntp s) q) \<longleftrightarrow> queued_as q (threads (dispatch ntp s) t)" for q t
    using D(3)[of t q] assms(2,4,6) by (cases "t = ntp"; cases "t = currp s") (auto simp: loose_def)
  show "p_state (threads (dispatch ntp s) t) = THD_STATE_CURRENT \<longleftrightarrow> t = currp (dispatch ntp s)" for t
    using D(4)[of t] assms(5) by auto
  show "prio_sorted (prio (dispatch ntp s)) (tq (dispatch ntp s) QReady)" using D(2) by simp
  show "0 < prio (dispatch ntp s) t" if "p_state (threads (dispatch ntp s) t) \<noteq> THD_STATE_FINAL" for t
    using D(5)[of t] that assms(3) by (auto split: if_splits)
  show "p_state (threads (dispatch ntp s) idle_tid) = THD_STATE_READY \<or>
      p_state (threads (dispatch ntp s) idle_tid) = THD_STATE_CURRENT"
    using D(6) assms(7) by (cases "idle_tid = ntp"; cases "currp s = idle_tid") auto
qed

lemma take_ready_inv:
  assumes "sched_but F s" "tq s QReady = n # ts" "n \<notin> F"
  shows "sched_but (insert n F) (set_tq QReady ts s)" "loose n (set_tq QReady ts s)" "0 < prio s n"
    "n \<noteq> currp s" "p_state (threads s n) = THD_STATE_READY"
proof -
  have n: "n \<in> set (tq s QReady)" using assms(2) by simp
  with assms have r: "queued_as QReady (threads s n)" using sched_butD(3) by blast
  then show st: "p_state (threads s n) = THD_STATE_READY" by simp
  have same: "t \<in> set (tq (set_tq QReady ts s) q) \<longleftrightarrow> t \<in> set (tq s q)" if "t \<noteq> n" for t q
    using that assms(2) by auto
  have "distinct (tq (set_tq QReady ts s) q)" for q
    using sched_butD(1)[OF assms(1), of q] assms(2) by auto
  moreover have "prio_sorted (prio s) (tq (set_tq QReady ts s) QReady)"
    using sched_butD(2)[OF assms(1)] assms(2) by simp
  ultimately show "sched_but (insert n F) (set_tq QReady ts s)"
    using sched_butD[OF assms(1)] same by (intro sched_butI) (simp_all del: set_tq_fields(1))
  show "loose n (set_tq QReady ts s)"
    unfolding loose_def
  proof
    fix q
    have "distinct (tq s QReady)" using assms(1) by (rule sched_butD)
    moreover have "n \<notin> set (tq s q)" if "q \<noteq> QReady"
      using that sched_butD(3)[OF assms(1,3), of q] queued_as_unique[OF r] by auto
    ultimately show "n \<notin> set (tq (set_tq QReady ts s) q)" using assms(2) by auto
  qed
  show "0 < prio s n" using sched_butD(5)[OF assms(1), of n] st by simp
  show "n \<noteq> currp s" using sched_butD(4)[OF assms(1,3)] st by auto
qed

lemma ready_nonempty:
  assumes "sched_but {currp s} s" "currp s \<noteq> idle_tid"
  shows "tq s QReady \<noteq> []"
proof -
  have "p_state (threads s idle_tid) = THD_STATE_READY"
    using sched_butD(6)[OF assms(1)] sched_butD(4)[OF assms(1), of idle_tid] assms(2) by auto
  then have "idle_tid \<in> set (tq s QReady)"
    using sched_butD(3)[OF assms(1), of idle_tid QReady] assms(2) by simp
  then show ?thesis by auto
qed

lemma queued_as_preempt [simp]: "queued_as q (th\<lparr>p_state := st, p_preempt := n\<rparr>) = queued_as q (th\<lparr>p_state := st\<rparr>)"
  by (cases q) auto

lemma queued_as_preempt1 [simp]: "queued_as q (th\<lparr>p_preempt := n\<rparr>) = queued_as q th"
  by (cases q) auto

lemma sched_but_upd:
  assumes "sched_but F s" "t \<in> F" "\<And>th. p_prio (f th) = p_prio th"
    "p_state (f (threads s t)) \<noteq> THD_STATE_FINAL \<longrightarrow> 0 < prio s t"
  shows "sched_but F (upd_thread t f s)"
proof (rule sched_butI)
  note D = sched_butD[OF assms(1)]
  have p: "prio (upd_thread t f s) = prio s"
    using assms(3) by (auto simp: prio_upd_thread fun_eq_iff) (simp add: prio_def)
  show "distinct (tq (upd_thread t f s) q)" for q using D(1) by simp
  show "u \<in> set (tq (upd_thread t f s) q) \<longleftrightarrow> queued_as q (threads (upd_thread t f s) u)"
    if "u \<notin> F" for q u using D(3)[OF that] assms(2) that by auto
  show "p_state (threads (upd_thread t f s) u) = THD_STATE_CURRENT \<longleftrightarrow> u = currp (upd_thread t f s)"
    if "u \<notin> F" for u using D(4)[OF that] assms(2) that by auto
  show "prio_sorted (prio (upd_thread t f s)) (tq (upd_thread t f s) QReady)" using D(2) p by simp
  show "0 < prio (upd_thread t f s) u" if "p_state (threads (upd_thread t f s) u) \<noteq> THD_STATE_FINAL" for u
    using D(5)[of u] assms(4) that p by (auto split: if_splits)
  show "p_state (threads (upd_thread t f s) idle_tid) = THD_STATE_READY \<or>
      p_state (threads (upd_thread t f s) idle_tid) = THD_STATE_CURRENT" if "idle_tid \<notin> F"
    using D(6)[OF that] that assms(2) by auto
qed

text \<open>The state in which a sleeping thread leaves the processor to the head of the ready list.\<close>

definition asleep :: "tstate \<Rightarrow> 'x kernel_scheme \<Rightarrow> 'x kernel_scheme" where
  "asleep st s = dispatch (hd (tq s QReady)) (set_tq QReady (tl (tq s QReady))
     (upd_thread (currp s) (\<lambda>th. th\<lparr>p_state := st, p_preempt := CH_TIME_QUANTUM\<rparr>) s))"

lemma asleep_fields [simp]:
  "currp (asleep st s) = hd (tq s QReady)" "tq (asleep st s) = (tq s)(QReady := tl (tq s QReady))"
  "s_cnt (asleep st s) = s_cnt s" "m_owner (asleep st s) = m_owner s" "vts (asleep st s) = vts s"
  "vtl (asleep st s) = vtl s" "gqs (asleep st s) = gqs s" "mbs (asleep st s) = mbs s"
  "els (asleep st s) = els s" "es_next (asleep st s) = es_next s" "pools (asleep st s) = pools s" "heaps (asleep st s) = heaps s" "hdrs (asleep st s) = hdrs s"
  "registry (asleep st s) = registry s" "vt_systime (asleep st s) = vt_systime s" "nextmem (asleep st s) = nextmem s"
  "endmem (asleep st s) = endmem s" "kernel.more (asleep st s) = kernel.more s"
  by (simp_all add: asleep_def)

lemma asleep_frame: "sched_frame s (asleep st s)"
  by (auto simp: asleep_def)

lemma prio_asleep [simp]: "prio (asleep st s) = prio s"
  by (auto simp: asleep_def prio_upd_thread fun_eq_iff) (simp add: prio_def)

lemma go_sleep:
  assumes "sched_but {currp s} s" "currp s \<noteq> idle_tid" "st \<noteq> THD_STATE_CURRENT" "st \<noteq> THD_STATE_READY"
    "\<And>q. currp s \<in> set (tq s q) \<longleftrightarrow> queued_as q ((cur s)\<lparr>p_state := st\<rparr>)" "0 < prio s (currp s)"
  shows "chSchGoSleepS st s = chSysSwitch (asleep st s)"
    "sched_inv (asleep st s)" "top_running (asleep st s)"
proof -
  let ?f = "\<lambda>th. th\<lparr>p_state := st, p_preempt := CH_TIME_QUANTUM\<rparr>"
  let ?s1 = "upd_thread (currp s) ?f s"
  obtain n ts where q: "tq s QReady = n # ts" using ready_nonempty[OF assms(1,2)] by (cases "tq s QReady") auto
  show "chSchGoSleepS st s = chSysSwitch (asleep st s)"
    by (simp add: chSchGoSleepS_def fifo_remove_def q asleep_def dispatch_def)
  have nr: "currp s \<notin> set (tq s QReady)" using assms(4) assms(5)[of QReady] by simp
  have s1: "sched_but {currp s} ?s1" by (rule sched_but_upd) (use assms in simp_all)
  have q1: "tq ?s1 QReady = n # ts" "n \<notin> {currp s}" using q nr by auto
  note T = take_ready_inv[OF s1 q1]
  have same: "currp s \<in> set (tq (set_tq QReady ts ?s1) q) \<longleftrightarrow> queued_as q (?f (cur s))" for q
    using assms(5)[of q] nr q1 q by auto
  have "sched_inv (dispatch n (set_tq QReady ts ?s1))"
    by (rule dispatch_inv) (use T same assms q1 in \<open>simp_all add: insert_commute\<close>)
  then show "sched_inv (asleep st s)" by (simp add: asleep_def q)
  have "prio_sorted (prio s) (n # ts)" using sched_butD(2)[OF assms(1)] q by simp
  then show "top_running (asleep st s)" by (simp add: top_running_def q)
qed

lemma sched_inv_current:
  assumes "sched_inv s"
  shows "p_state (cur s) = THD_STATE_CURRENT" "loose (currp s) s" "0 < prio s (currp s)"
    "sched_but {currp s} s"
proof -
  show c: "p_state (cur s) = THD_STATE_CURRENT" using sched_butD(4)[OF assms, of "currp s"] by simp
  show "loose (currp s) s" using sched_butD(3)[OF assms] queued_not_current c by (auto simp: loose_def)
  show "0 < prio s (currp s)" using sched_butD(5)[OF assms, of "currp s"] c by simp
  show "sched_but {currp s} s" using assms by (rule sched_but_mono) simp
qed

text \<open>Going to sleep on nothing but a state: a thread in no queue, in a state no queue stands for.\<close>

lemma go_sleep_loose:
  assumes "sched_inv s" "currp s \<noteq> idle_tid"
    "st \<in> {THD_STATE_SUSPENDED, THD_STATE_SLEEPING, THD_STATE_WTEXIT, THD_STATE_WTOREVT,
      THD_STATE_WTANDEVT, THD_STATE_SNDMSG, THD_STATE_WTMSG, THD_STATE_FINAL}"
  shows "chSchGoSleepS st s = chSysSwitch (asleep st s)"
    "sched_inv (asleep st s)" "top_running (asleep st s)"
proof -
  note C = sched_inv_current[OF assms(1)]
  have "currp s \<in> set (tq s q) \<longleftrightarrow> queued_as q ((cur s)\<lparr>p_state := st\<rparr>)" for q
    using C(2) assms(3) by (cases q) (auto simp: loose_def)
  note G = go_sleep[OF C(4) assms(2) _ _ this C(3)]
  show "chSchGoSleepS st s = chSysSwitch (asleep st s)"
    "sched_inv (asleep st s)" "top_running (asleep st s)"
    using G assms(3) by auto
qed

text \<open>
  Waking a thread that has been taken off whatever it waited on: the higher of the two priorities
  runs, and on a tie the running thread goes on.
\<close>

lemma wakeup_gen:
  assumes "sched_but {t} s" "loose t s" "t \<noteq> currp s" "0 < prio s t"
  shows "settles (\<lambda>s'. sched_inv s' \<and>
           ((\<forall>u\<in>set (tq s QReady). prio s u \<le> max (prio s t) (prio s (currp s))) \<longrightarrow> top_running s') \<and> sched_frame s s' \<and> prio s' = prio s \<and>
           currp s' = (if prio s t \<le> prio s (currp s) then currp s else t)) (chSchWakeupS t m s)"
proof -
  let ?s1 = "set_rdymsg t m s"
  have s1: "sched_but {t} ?s1" by (rule sched_but_upd) (use assms in simp_all)
  have l1: "loose t ?s1" using assms(2) by (simp add: loose_def)
  have cs: "p_state (cur s) = THD_STATE_CURRENT" using sched_butD(4)[OF assms(1), of "currp s"] assms(3) by auto
  have pc: "0 < prio s (currp s)" using sched_butD(5)[OF assms(1), of "currp s"] cs by simp
  have lc: "loose (currp s) s"
    using sched_butD(3)[OF assms(1), of "currp s"] queued_not_current cs assms(3) by (auto simp: loose_def)
  show ?thesis
  proof (cases "prio s t \<le> prio s (currp s)")
    case True
    have "sched_inv (ready_put t ?s1)" by (rule ready_put_inv[OF s1 l1]) (use assms in simp_all)
    moreover have "top_running (ready_put t ?s1)"
      if "\<forall>u\<in>set (tq s QReady). prio s u \<le> max (prio s t) (prio s (currp s))"
      using True that by (auto simp: top_running_def max_def)
    ultimately show ?thesis
      using True assms(3,4) by (auto simp: chSchWakeupS_def Let_def chSchReadyI_eq)
  next
    case False
    let ?s2 = "ready_put (currp s) ?s1"
    have q: "tq ?s2 q = (if q = QReady then ins_behind (prio s) (currp s) (tq s QReady) else tq s q)" for q by simp
    have e: "chSchWakeupS t m s = chSysSwitch (dispatch t ?s2)"
      using False pc by (simp add: chSchWakeupS_def Let_def chSchReadyI_eq dispatch_def)
    have "sched_but {currp s, t} ?s2"
    proof (rule sched_butI)
      note D = sched_butD[OF s1]
      show "distinct (tq ?s2 q)" for q using D(1)[of q] lc by (auto simp: loose_def)
      show "u \<in> set (tq ?s2 q) \<longleftrightarrow> queued_as q (threads ?s2 u)" if "u \<notin> {currp s, t}" for q u
        using D(3)[of u q] that by auto
      show "p_state (threads ?s2 u) = THD_STATE_CURRENT \<longleftrightarrow> u = currp ?s2" if "u \<notin> {currp s, t}" for u
        using D(4)[of u] that by auto
      show "prio_sorted (prio ?s2) (tq ?s2 QReady)" using D(2) by (simp add: prio_sorted_ins_behind)
      show "0 < prio ?s2 u" if "p_state (threads ?s2 u) \<noteq> THD_STATE_FINAL" for u
        using D(5)[of u] that pc by (auto split: if_splits)
      show "p_state (threads ?s2 idle_tid) = THD_STATE_READY \<or> p_state (threads ?s2 idle_tid) = THD_STATE_CURRENT"
        if "idle_tid \<notin> {currp s, t}" using D(6) that by auto
    qed
    then have "sched_inv (dispatch t ?s2)"
      by (intro dispatch_inv) (use assms lc in \<open>auto simp: loose_def\<close>)
    moreover have "top_running (dispatch t ?s2)"
      if "\<forall>u\<in>set (tq s QReady). prio s u \<le> max (prio s t) (prio s (currp s))"
      using False that by (auto simp: top_running_def max_def)
    ultimately show ?thesis using False e by auto
  qed
qed

lemma wakeup_s:
  assumes "sched_but {t} s" "loose t s" "t \<noteq> currp s" "0 < prio s t" "top_running s"
  shows "settles (\<lambda>s'. sched_inv s' \<and> top_running s' \<and> sched_frame s s' \<and> prio s' = prio s \<and>
           currp s' = (if prio s t \<le> prio s (currp s) then currp s else t)) (chSchWakeupS t m s)"
  by (rule settles_mono[OF wakeup_gen[OF assms(1-4)]])
    (use assms(5) in \<open>auto simp: top_running_def max_def split: if_splits\<close>)

text \<open>Exchanging the running thread with the head of the ready list.\<close>

lemma exchange_inv:
  assumes "sched_inv s" "tq s QReady = n # ts" "currp s' = n" "tq s' = (tq s)(QReady := ys)"
    "threads s' = (threads s)(n := (threads s n)\<lparr>p_state := THD_STATE_CURRENT\<rparr>, currp s := th')"
    "p_state th' = THD_STATE_READY" "p_prio th' = p_prio (cur s)"
    "set ys = insert (currp s) (set ts)" "distinct ys" "prio_sorted (prio s) ys"
  shows "sched_inv s'"
proof (rule sched_butI)
  note D = sched_butD[OF assms(1), simplified]
  note C = sched_inv_current[OF assms(1)]
  note T = take_ready_inv[OF assms(1,2), simplified]
  have n: "n \<notin> set ts" using D(1)[of QReady] assms(2) by simp
  have pr: "prio s' = prio s" using assms(5,7) T(4) by (auto simp: prio_def fun_eq_iff)
  have rdy: "queued_as q th' \<longleftrightarrow> q = QReady" for q using assms(6) by (cases q) auto
  have nq: "n \<notin> set (tq s q)" if "q \<noteq> QReady" for q
    using T(2) that by (auto simp: loose_def dest: spec[of _ q])
  show "distinct (tq s' q)" for q using D(1)[of q] assms(4,9) by auto
  show "t \<in> set (tq s' q) \<longleftrightarrow> queued_as q (threads s' t)" for q t
    using D(3)[of t q] C(2) T(4) n assms(2) nq[of q]
    by (cases "t = currp s"; cases "t = n") (auto simp: assms(4,5,8) rdy loose_def)
  show "p_state (threads s' t) = THD_STATE_CURRENT \<longleftrightarrow> t = currp s'" for t
    using D(4)[of t] T(4) by (auto simp: assms(3,5,6))
  show "prio_sorted (prio s') (tq s' QReady)" using assms(4,10) pr by simp
  show "0 < prio s' t" if "p_state (threads s' t) \<noteq> THD_STATE_FINAL" for t
    using D(5)[of t] T(3) C(3) that by (auto simp: pr assms(5) split: if_splits)
  show "p_state (threads s' idle_tid) = THD_STATE_READY \<or> p_state (threads s' idle_tid) = THD_STATE_CURRENT"
    using D(6) by (auto simp: assms(5,6))
qed

lemma resched_behind:
  assumes "sched_inv s" "tq s QReady = n # ts" "prio s (currp s) \<le> prio s n"
  shows "settles (\<lambda>s'. sched_inv s' \<and> top_running s' \<and> sched_frame s s' \<and> prio s' = prio s \<and>
      currp s' = n \<and> tq s' QReady = ins_behind (prio s) (currp s) ts \<and>
      p_preempt (threads s' (currp s)) = CH_TIME_QUANTUM) (chSchDoRescheduleBehind s)"
proof -
  note C = sched_inv_current[OF assms(1)]
  note T = take_ready_inv[OF assms(1,2), simplified]
  have srt: "prio_sorted (prio s) ts" using sched_butD(2)[OF assms(1)] assms(2) by simp
  have me: "currp s \<notin> set ts" "distinct ts" using C(2) sched_butD(1)[OF assms(1), of QReady] assms(2)
    by (auto simp: loose_def dest: spec[of _ QReady])
  let ?s3 = "upd_thread (currp s) (\<lambda>th. th\<lparr>p_preempt := CH_TIME_QUANTUM\<rparr>)
    (set_state n THD_STATE_CURRENT (setcurrp n (set_tq QReady ts s)))"
  let ?s4 = "ready_put (currp s) ?s3"
  have pr: "prio ?s3 = prio s" using T(4) by (auto simp: prio_def fun_eq_iff)
  have e: "chSchDoRescheduleBehind s = chSysSwitch ?s4"
    using C(3) by (simp add: chSchDoRescheduleBehind_def fifo_remove_def assms(2) chSchReadyI_eq pr Let_def)
  have "sched_inv ?s4"
    by (rule exchange_inv[OF assms(1,2), where ys = "ins_behind (prio s) (currp s) ts"
          and th' = "(cur s)\<lparr>p_preempt := CH_TIME_QUANTUM, p_state := THD_STATE_READY\<rparr>"])
      (use me T(4) srt pr in \<open>simp_all add: prio_sorted_ins_behind\<close>)
  moreover have "top_running ?s4"
    using sched_butD(2)[OF assms(1)] assms(2,3) by (auto simp: top_running_def pr)
  moreover have "sched_frame s ?s4" by auto
  ultimately show ?thesis unfolding e using pr by auto
qed

lemma resched_ahead:
  assumes "sched_inv s" "tq s QReady = n # ts" "prio s (currp s) \<le> prio s n"
  shows "settles (\<lambda>s'. sched_inv s' \<and> top_running s' \<and> sched_frame s s' \<and> prio s' = prio s \<and>
      currp s' = n \<and> tq s' QReady = ins_ahead (prio s) (currp s) ts \<and>
      p_preempt (threads s' (currp s)) = p_preempt (cur s)) (chSchDoRescheduleAhead s)"
proof -
  note C = sched_inv_current[OF assms(1)]
  note T = take_ready_inv[OF assms(1,2), simplified]
  have srt: "prio_sorted (prio s) ts" using sched_butD(2)[OF assms(1)] assms(2) by simp
  have me: "currp s \<notin> set ts" "distinct ts" using C(2) sched_butD(1)[OF assms(1), of QReady] assms(2)
    by (auto simp: loose_def dest: spec[of _ QReady])
  let ?s3 = "set_state (currp s) THD_STATE_READY (set_state n THD_STATE_CURRENT (setcurrp n (set_tq QReady ts s)))"
  let ?s4 = "set_tq QReady (ins_ahead (prio s) (currp s) ts) ?s3"
  have e: "chSchDoRescheduleAhead s = chSysSwitch ?s4"
    by (simp add: chSchDoRescheduleAhead_def fifo_remove_def assms(2) Let_def)
  have "sched_inv ?s4"
    by (rule exchange_inv[OF assms(1,2), where ys = "ins_ahead (prio s) (currp s) ts"
          and th' = "(cur s)\<lparr>p_state := THD_STATE_READY\<rparr>"])
      (use me T(4) srt in \<open>simp_all add: prio_sorted_ins_ahead\<close>)
  moreover have "top_running ?s4"
    using sched_butD(2)[OF assms(1)] assms(2,3) by (auto simp: top_running_def)
  moreover have "sched_frame s ?s4" by auto
  ultimately show ?thesis unfolding e by auto
qed

lemma not_above_top:
  assumes "sched_inv s" "firstprio QReady s \<le> prio s (currp s)"
  shows "top_running s"
  using assms(2) sched_butD(2)[OF assms(1)]
  by (cases "tq s QReady") (auto simp: top_running_def firstprio_def)

lemma reschedule_s:
  assumes "sched_inv s"
  shows "settles (\<lambda>s'. sched_inv s' \<and> top_running s' \<and> sched_frame s s' \<and> prio s' = prio s) (chSchRescheduleS s)"
proof (cases "chSchIsRescRequiredI s")
  case False
  then show ?thesis using assms not_above_top[OF assms] by (simp add: chSchRescheduleS_def chSchIsRescRequiredI_def)
next
  case True
  then obtain n ts where "tq s QReady = n # ts" "prio s (currp s) \<le> prio s n"
    by (cases "tq s QReady") (auto simp: chSchIsRescRequiredI_def firstprio_def NOPRIO_def)
  from resched_ahead[OF assms this] True show ?thesis
    unfolding chSchRescheduleS_def by (auto elim: settles_mono)
qed

text \<open>The yield and the two forms of the preemption decision.\<close>

lemma yield_s:
  assumes "sched_inv s"
  shows "settles (\<lambda>s'. sched_inv s' \<and> top_running s' \<and> sched_frame s s' \<and> prio s' = prio s) (chSchDoYieldS s)"
proof (cases "chSchCanYieldS s")
  case False
  then show ?thesis using assms not_above_top[OF assms] by (simp add: chSchDoYieldS_def chSchCanYieldS_def)
next
  case True
  then obtain n ts where "tq s QReady = n # ts" "prio s (currp s) \<le> prio s n"
    using sched_inv_current(3)[OF assms]
    by (cases "tq s QReady") (auto simp: chSchCanYieldS_def firstprio_def NOPRIO_def)
  from resched_behind[OF assms this] True show ?thesis
    unfolding chSchDoYieldS_def by (auto elim: settles_mono)
qed

lemma preemption_forms:
  "chSchPreemption s = (if chSchIsPreemptionRequired s then chSchDoReschedule s else Done () s)"
  by (simp add: chSchPreemption_def chSchIsPreemptionRequired_def chSchDoReschedule_def Let_def)

lemma preemption_s:
  assumes "sched_inv s"
  shows "settles (\<lambda>s'. sched_inv s' \<and> top_running s' \<and> sched_frame s s' \<and> prio s' = prio s) (chSchPreemption s)"
proof (cases "chSchIsPreemptionRequired s")
  case False
  then have "firstprio QReady s \<le> prio s (currp s)"
    by (auto simp: chSchIsPreemptionRequired_def Let_def split: if_splits)
  with False show ?thesis using assms not_above_top[OF assms] by (simp add: preemption_forms)
next
  case True
  then obtain n ts where q: "tq s QReady = n # ts" "prio s (currp s) \<le> prio s n"
    using sched_inv_current(3)[OF assms]
    by (cases "tq s QReady") (auto simp: chSchIsPreemptionRequired_def firstprio_def NOPRIO_def Let_def split: if_splits)
  from resched_behind[OF assms q] resched_ahead[OF assms q] True show ?thesis
    unfolding preemption_forms chSchDoReschedule_def by (auto elim: settles_mono)
qed

text \<open>Taking the thread \<open>t\<close> off the queue \<open>q\<close> it waits in, before it is made ready.\<close>

lemma unqueue_inv:
  assumes "sched_but F s" "t \<in> set (tq s q)" "t \<notin> F"
  shows "sched_but (insert t F) (set_tq q (remove1 t (tq s q)) s)"
    "loose t (set_tq q (remove1 t (tq s q)) s)" "0 < prio s t" "t \<noteq> currp s" "queued_as q (threads s t)"
proof -
  note D = sched_butD[OF assms(1)]
  have r: "queued_as q (threads s t)" using D(3)[OF assms(3)] assms(2) by blast
  then show "queued_as q (threads s t)" .
  have nf: "p_state (threads s t) \<noteq> THD_STATE_FINAL" using r by (cases q) auto
  then show "0 < prio s t" by (rule D(5))
  show "t \<noteq> currp s" using D(4)[OF assms(3)] queued_not_current[OF r] by auto
  have same: "u \<in> set (tq (set_tq q (remove1 t (tq s q)) s) q') \<longleftrightarrow> u \<in> set (tq s q')" if "u \<noteq> t" for u q'
    using that by auto
  have "distinct (tq (set_tq q (remove1 t (tq s q)) s) q')" for q' using D(1) by auto
  moreover have "prio_sorted (prio s) (tq (set_tq q (remove1 t (tq s q)) s) QReady)"
    using D(2) by (auto intro: prio_sorted_remove1)
  ultimately show "sched_but (insert t F) (set_tq q (remove1 t (tq s q)) s)"
    using D same by (intro sched_butI) (simp_all del: set_tq_fields(1))
  show "loose t (set_tq q (remove1 t (tq s q)) s)"
    unfolding loose_def
  proof
    fix q'
    have "t \<notin> set (tq s q')" if "q' \<noteq> q"
      using that D(3)[OF assms(3), of q'] queued_as_unique[OF r] by auto
    then show "t \<notin> set (tq (set_tq q (remove1 t (tq s q)) s) q')" using D(1)[of q] by auto
  qed
qed

lemma unqueue_head_inv:
  assumes "sched_but F s" "tq s q = t # ts" "t \<notin> F"
  shows "sched_but (insert t F) (set_tq q ts s)" "loose t (set_tq q ts s)" "0 < prio s t" "t \<noteq> currp s"
    "queued_as q (threads s t)"
  using unqueue_inv[OF assms(1) _ assms(3), of q] assms(2) by simp_all

text \<open>Blocking the running thread at the tail of the queue \<open>q\<close>.\<close>

fun wait_state :: "qid \<Rightarrow> tstate" where
  "wait_state QReady = THD_STATE_READY"
| "wait_state (QSem _) = THD_STATE_WTSEM"
| "wait_state (QMtx _) = THD_STATE_WTMTX"
| "wait_state (QCond _) = THD_STATE_WTCOND"
| "wait_state (QMsg _) = THD_STATE_SNDMSGQ"
| "wait_state (QGen _) = THD_STATE_WTQUEUE"

lemma queued_as_wait: "queued_as q (th\<lparr>p_u := UObj q', p_state := wait_state q'\<rparr>) \<longleftrightarrow> q = q'"
  by (cases q; cases q') auto

lemma block_on:
  assumes "sched_inv s" "currp s \<noteq> idle_tid" "q \<noteq> QReady" "set xs = insert (currp s) (set (tq s q))" "distinct xs"
  shows "chSchGoSleepS (wait_state q) (set_tq q xs (set_wtobjp (currp s) q s))
           = chSysSwitch (asleep (wait_state q) (set_tq q xs (set_wtobjp (currp s) q s)))" (is "?a = ?b")
    and "sched_inv (asleep (wait_state q) (set_tq q xs (set_wtobjp (currp s) q s)))" (is ?inv)
    and "top_running (asleep (wait_state q) (set_tq q xs (set_wtobjp (currp s) q s)))" (is ?top)
proof -
  let ?s = "set_tq q xs (set_wtobjp (currp s) q s)"
  note D = sched_butD[OF assms(1), simplified]
  note C = sched_inv_current[OF assms(1)]
  have "sched_but {currp s} (set_wtobjp (currp s) q s)"
    by (rule sched_but_upd) (use C in simp_all)
  then have s1: "sched_but {currp ?s} ?s"
    unfolding sched_but_def using assms(3-5) by (auto simp: prio_def)
  have ws: "wait_state q \<noteq> THD_STATE_CURRENT" "wait_state q \<noteq> THD_STATE_READY"
    using assms(3) by (cases q; simp)+
  have "currp ?s \<in> set (tq ?s q') \<longleftrightarrow> queued_as q' ((cur ?s)\<lparr>p_state := wait_state q\<rparr>)" for q'
    using C(2) assms(4) queued_as_wait[where q = q' and q' = q] by (auto simp: loose_def)
  note G = go_sleep[OF s1 _ ws this]
  show "?a = ?b" ?inv ?top using G assms(2) C(3) by auto
qed

text \<open>Updates that the invariant does not see.\<close>

lemma sched_but_same:
  assumes "sched_but F s" "\<And>u. p_state (threads s' u) = p_state (threads s u)"
    "\<And>u. u \<notin> F \<Longrightarrow> p_state (threads s u) \<noteq> THD_STATE_CURRENT \<Longrightarrow> p_u (threads s' u) = p_u (threads s u)"
    "\<And>u. p_prio (threads s' u) = p_prio (threads s u)" "tq s' = tq s" "currp s' = currp s"
  shows "sched_but F s'"
proof (rule sched_butI)
  note D = sched_butD[OF assms(1)]
  have q: "queued_as q (threads s' u) = queued_as q (threads s u)" if "u \<notin> F" for q u
    using assms(2,3) that by (cases "p_state (threads s u) = THD_STATE_CURRENT"; cases q) auto
  have pr: "prio s' = prio s" using assms(4) by (simp add: prio_def fun_eq_iff)
  show "distinct (tq s' q)" for q using D(1) assms(5) by simp
  show "u \<in> set (tq s' q) \<longleftrightarrow> queued_as q (threads s' u)" if "u \<notin> F" for q u
    using D(3)[OF that] q[OF that] assms(5) by simp
  show "p_state (threads s' u) = THD_STATE_CURRENT \<longleftrightarrow> u = currp s'" if "u \<notin> F" for u
    using D(4)[OF that] assms(2,6) by simp
  show "prio_sorted (prio s') (tq s' QReady)" using D(2) pr assms(5) by simp
  show "0 < prio s' u" if "p_state (threads s' u) \<noteq> THD_STATE_FINAL" for u
    using D(5)[of u] that assms(2) pr by simp
  show "p_state (threads s' idle_tid) = THD_STATE_READY \<or> p_state (threads s' idle_tid) = THD_STATE_CURRENT"
    if "idle_tid \<notin> F" using D(6)[OF that] assms(2) by simp
qed

lemma sched_inv_upd_cur:
  assumes "sched_inv s" "p_state (f (cur s)) = p_state (cur s)" "p_prio (f (cur s)) = p_prio (cur s)"
  shows "sched_inv (upd_thread (currp s) f s)"
  by (rule sched_but_same[OF assms(1)]) (use assms sched_inv_current(1)[OF assms(1)] in auto)

lemma top_running_upd:
  assumes "top_running s" "p_prio (f (threads s t)) = p_prio (threads s t)"
  shows "top_running (upd_thread t f s)"
  using assms by (auto simp: top_running_def prio_def)

text \<open>
  The common expression \<open>chSchReadyI(fifo_remove(q))->p_u.rdymsg = m\<close>.
\<close>

definition ready_first :: "qid \<Rightarrow> msg \<Rightarrow> 'x kernel_scheme \<Rightarrow> ('x, unit) kout" where
  "ready_first q m s =
     obind (fifo_remove q s) (\<lambda>tp s1. obind (chSchReadyI tp s1) (\<lambda>tp s2. Done () (set_rdymsg tp m s2)))"

definition readied :: "qid \<Rightarrow> tid \<Rightarrow> msg \<Rightarrow> 'x kernel_scheme \<Rightarrow> 'x kernel_scheme" where
  "readied q t m s = set_rdymsg t m (ready_put t (set_tq q (remove1 t (tq s q)) s))"

lemma readied_fields [simp]:
  "currp (readied q t m s) = currp s" "s_cnt (readied q t m s) = s_cnt s" "prio (readied q t m s) = prio s"
  "q \<noteq> QReady \<Longrightarrow> tq (readied q t m s) =
     (tq s)(q := remove1 t (tq s q), QReady := ins_behind (prio s) t (tq s QReady))"
  "threads (readied q t m s) = (threads s)(t := (threads s t)\<lparr>p_state := THD_STATE_READY, p_u := UMsg m\<rparr>)"
  by (auto simp: readied_def)

lemma readied_frame: "frame_but {q, QReady} s (readied q t m s)"
  by (auto simp: readied_def)

lemma readied_inv:
  assumes "sched_inv s" "t \<in> set (tq s q)" "q \<noteq> QReady"
  shows "sched_inv (readied q t m s)" "0 < prio s t" "t \<noteq> currp s"
proof -
  note U = unqueue_inv[OF assms(1,2), simplified]
  show "0 < prio s t" "t \<noteq> currp s" using U(3,4) by simp_all
  let ?s1 = "set_tq q (remove1 t (tq s q)) s"
  have i: "sched_inv (ready_put t ?s1)" by (rule ready_put_inv[OF U(1,2)]) (use U in simp_all)
  show "sched_inv (readied q t m s)"
    unfolding readied_def
  proof (rule sched_butI)
    note D = sched_butD[OF i, simplified]
    show "u \<in> set (tq (set_rdymsg t m (ready_put t ?s1)) q') \<longleftrightarrow>
        queued_as q' (threads (set_rdymsg t m (ready_put t ?s1)) u)" for q' u
      using D(3)[of u q'] by (cases "u = t"; cases q') auto
    show "0 < prio (set_rdymsg t m (ready_put t ?s1)) u"
      if "p_state (threads (set_rdymsg t m (ready_put t ?s1)) u) \<noteq> THD_STATE_FINAL" for u
      using D(5)[of u] that U(3) by (auto split: if_splits)
    show "p_state (threads (set_rdymsg t m (ready_put t ?s1)) u) = THD_STATE_CURRENT \<longleftrightarrow>
        u = currp (set_rdymsg t m (ready_put t ?s1))" for u
      using D(4)[of u] by (cases "u = t") auto
    show "p_state (threads (set_rdymsg t m (ready_put t ?s1)) idle_tid) = THD_STATE_READY \<or>
        p_state (threads (set_rdymsg t m (ready_put t ?s1)) idle_tid) = THD_STATE_CURRENT"
      using D(6) by (cases "idle_tid = t") auto
  qed (use sched_butD(1,2)[OF i] in \<open>simp_all del: ready_put_fields(5)\<close>)
qed

lemma ready_first_eq:
  assumes "sched_inv s" "tq s q = t # ts" "q \<noteq> QReady"
  shows "ready_first q m s = Done () (readied q t m s)" "sched_inv (readied q t m s)" "t \<noteq> currp s"
proof -
  note R = readied_inv[OF assms(1) _ assms(3), of t] 
  show "ready_first q m s = Done () (readied q t m s)"
    using R(2) assms(2) by (simp add: ready_first_def fifo_remove_def chSchReadyI_eq readied_def)
  show "sched_inv (readied q t m s)" "t \<noteq> currp s" using R assms(2) by simp_all
qed

lemma ready_put_rdymsg: "ready_put t (set_rdymsg t m s) = set_rdymsg t m (ready_put t s)"
  by (rule kernel.equality; cases "threads s t"; simp add: ready_put_def)

text \<open>Waking the head of a queue by \<open>chSchWakeupS\<close>.\<close>

lemma wakeup_first:
  assumes "sched_inv s" "top_running s" "tq s q = t # ts" "q \<noteq> QReady"
  shows "\<exists>s1. fifo_remove q s = Done t s1 \<and> frame_but {q} s s1 \<and> tq s1 q = ts \<and> threads s1 = threads s \<and>
    settles (\<lambda>s'. sched_inv s' \<and> top_running s' \<and> sched_frame s1 s' \<and> prio s' = prio s \<and>
      currp s' = (if prio s t \<le> prio s (currp s) then currp s else t)) (chSchWakeupS t m s1)"
proof -
  note U = unqueue_head_inv[OF assms(1,3), simplified]
  let ?s1 = "set_tq q ts s"
  have "top_running ?s1" using assms(2,4) by (simp add: top_running_def)
  from wakeup_s[OF U(1,2) _ _ this, where m = m] U show ?thesis
    by (intro exI[of _ ?s1]) (auto simp: fifo_remove_def assms(3))
qed

text \<open>
  The loop \<open>while (notempty(q)) chSchReadyI(fifo_remove(q))->p_u.rdymsg = m\<close>: every round takes one
  thread, so the queue's length is the number of rounds.
\<close>

primrec ready_loop :: "qid \<Rightarrow> msg \<Rightarrow> nat \<Rightarrow> 'x kernel_scheme \<Rightarrow> ('x, unit) kout" where
  "ready_loop q m 0 s = (if notempty q s then Fault else Done () s)"
| "ready_loop q m (Suc n) s =
     (if notempty q s then obind (ready_first q m s) (\<lambda>_. ready_loop q m n) else Done () s)"

definition ready_all :: "qid \<Rightarrow> msg \<Rightarrow> 'x kernel_scheme \<Rightarrow> ('x, unit) kout" where
  "ready_all q m s = ready_loop q m (length (tq s q)) s"

lemma ready_loop_inv:
  assumes "sched_inv s" "q \<noteq> QReady" "length (tq s q) \<le> n"
  shows "\<exists>s'. ready_loop q m n s = Done () s' \<and> sched_inv s' \<and> tq s' q = [] \<and> currp s' = currp s \<and>
    prio s' = prio s \<and> frame_but {q, QReady} s s' \<and>
    (\<forall>t\<in>set (tq s q). p_state (threads s' t) = THD_STATE_READY \<and> p_u (threads s' t) = UMsg m) \<and>
    (\<forall>t. t \<notin> set (tq s q) \<longrightarrow> threads s' t = threads s t)"
  using assms
proof (induction n arbitrary: s)
  case 0
  then show ?case by (simp add: notempty_def)
next
  case (Suc n)
  show ?case
  proof (cases "tq s q")
    case Nil
    then show ?thesis using Suc(2) by (simp add: notempty_def)
  next
    case (Cons t ts)
    let ?s = "readied q t m s"
    note R = ready_first_eq[OF Suc(2) Cons Suc(3)]
    have d: "t \<notin> set ts" using sched_butD(1)[OF Suc(2), of q] Cons by simp
    have q': "tq ?s q = ts" using Cons Suc(3) by simp
    then have "length (tq ?s q) \<le> n" using Suc(4) Cons by simp
    from Suc(1)[OF R(2) Suc(3) this] obtain s' where s': "ready_loop q m n ?s = Done () s'" "sched_inv s'"
      "tq s' q = []" "currp s' = currp ?s" "prio s' = prio ?s" "frame_but {q, QReady} ?s s'"
      "\<forall>t\<in>set ts. p_state (threads s' t) = THD_STATE_READY \<and> p_u (threads s' t) = UMsg m"
      "\<forall>t. t \<notin> set ts \<longrightarrow> threads s' t = threads ?s t" unfolding q' by blast
    have "ready_loop q m (Suc n) s = Done () s'" using R(1) s'(1) Cons by (simp add: notempty_def)
    moreover have "frame_but {q, QReady} s s'" by (rule sched_frame_trans[OF readied_frame s'(6)])
    moreover have "\<forall>u\<in>set (tq s q). p_state (threads s' u) = THD_STATE_READY \<and> p_u (threads s' u) = UMsg m"
      using s'(7,8) Cons d by auto
    moreover have "\<forall>u. u \<notin> set (tq s q) \<longrightarrow> threads s' u = threads s u" using s'(8) Cons by auto
    ultimately show ?thesis using s'(2-5) by auto
  qed
qed

lemmas ready_all_inv = ready_loop_inv[OF _ _ order_refl, folded ready_all_def]

section \<open>Sleeping with a timeout\<close>

text \<open>What a thread does when it is resumed from \<open>chSchGoSleepTimeoutS\<close>.\<close>

definition after_sleep :: "tid \<Rightarrow> systime \<Rightarrow> 'x kernel_scheme \<Rightarrow> ('x, msg) kout" where
  "after_sleep me time s =
     (if TIME_INFINITE \<noteq> time then
        obind (if chVTIsArmedI (VtStack me) s then chVTResetI (VtStack me) s else Done () s)
          (\<lambda>_ s3. Done (rdymsg (p_u (cur s3))) s3)
      else Done (rdymsg (p_u (cur s))) s)"

definition vt_frame :: "'x kernel_scheme \<Rightarrow> 'x kernel_scheme \<Rightarrow> bool" where
  "vt_frame s s' \<longleftrightarrow> (\<exists>vs l. s' = s\<lparr>vts := vs, vtl := l\<rparr>)"

lemma vt_frame_refl [simp]: "vt_frame s s"
  unfolding vt_frame_def by (intro exI[of _ "vts s"] exI[of _ "vtl s"]) simp

lemma vt_frame_fields:
  assumes "vt_frame s s'"
  shows "threads s' = threads s" "tq s' = tq s" "currp s' = currp s" "prio s' = prio s" "s_cnt s' = s_cnt s"
    "registry s' = registry s" "m_owner s' = m_owner s" "gqs s' = gqs s" "mbs s' = mbs s"
    "sched_but F s' = sched_but F s" "top_running s' = top_running s" "vt_systime s' = vt_systime s"
    "es_next s' = es_next s" "els s' = els s" "kernel.more s' = kernel.more s"
proof -
  obtain vs l where e: "s' = s\<lparr>vts := vs, vtl := l\<rparr>" using assms by (auto simp: vt_frame_def)
  show f: "threads s' = threads s" "tq s' = tq s" "currp s' = currp s" "s_cnt s' = s_cnt s" "registry s' = registry s"
    "m_owner s' = m_owner s" "gqs s' = gqs s" "mbs s' = mbs s" "vt_systime s' = vt_systime s"
    "es_next s' = es_next s" "els s' = els s" "kernel.more s' = kernel.more s" by (simp_all add: e)
  show "prio s' = prio s" using f by (simp add: prio_def fun_eq_iff)
  show "sched_but F s' = sched_but F s" by (rule sched_but_cong) (use f in simp_all)
  show "top_running s' = top_running s" by (rule top_running_cong) (use f in simp_all)
qed

lemma vt_set_frame:
  assumes "v \<notin> set (vtl s)"
  shows "\<exists>s'. chVTSetI v time fn par s = Done () s' \<and> vt_frame s s'"
proof -
  obtain b t a where p: "vt_place (vts s) (vtl s) time = (b, t, a)" by (metis prod_cases3)
  show ?thesis by (rule vt_set_shape[OF assms p]) (auto simp: vt_frame_def)
qed

lemma vt_reset_frame:
  assumes "v \<in> set (vtl s)"
  shows "\<exists>s'. chVTResetI v s = Done () s' \<and> vt_frame s s' \<and> set (vtl s') = set (remove1 v (vtl s))"
  using assms by (auto simp: chVTResetI_def vt_frame_def Let_def intro!: exI)

lemma go_sleep_timeout:
  assumes "sched_but {currp s} s" "currp s \<noteq> idle_tid" "st \<noteq> THD_STATE_CURRENT" "st \<noteq> THD_STATE_READY"
    "\<And>q. currp s \<in> set (tq s q) \<longleftrightarrow> queued_as q ((cur s)\<lparr>p_state := st\<rparr>)" "0 < prio s (currp s)"
    "VtStack (currp s) \<notin> set (vtl s)"
  shows "\<exists>s0. vt_frame s s0 \<and>
    chSchGoSleepTimeoutS st time s = obind (chSysSwitch (asleep st s0)) (\<lambda>_. after_sleep (currp s) time) \<and>
    sched_inv (asleep st s0) \<and> top_running (asleep st s0)"
proof -
  from vt_set_frame[OF assms(7)] obtain s1 where s1:
    "chVTSetI (VtStack (currp s)) time Fn_wakeup (currp s) s = Done () s1" "vt_frame s s1" by blast
  define s0 where "s0 = (if TIME_INFINITE \<noteq> time then s1 else s)"
  have f: "vt_frame s s0" using s1 by (simp add: s0_def)
  note F = vt_frame_fields[OF f]
  have G: "chSchGoSleepS st s0 = chSysSwitch (asleep st s0)" "sched_inv (asleep st s0)" "top_running (asleep st s0)"
    by (rule go_sleep; use assms F in simp)+
  have "chSchGoSleepTimeoutS st time s = obind (chSysSwitch (asleep st s0)) (\<lambda>_. after_sleep (currp s) time)"
  proof (cases "TIME_INFINITE = time")
    case True
    then have e: "after_sleep (currp s) time = (\<lambda>s2. Done (rdymsg (p_u (cur s2))) s2)"
      by (simp add: after_sleep_def fun_eq_iff)
    show ?thesis using True G(1) unfolding chSchGoSleepTimeoutS_def e s0_def by simp
  next
    case False
    then have e: "after_sleep (currp s) time = (\<lambda>s2. obind (if chVTIsArmedI (VtStack (currp s)) s2
        then chVTResetI (VtStack (currp s)) s2 else Done () s2) (\<lambda>_ s3. Done (rdymsg (p_u (cur s3))) s3))"
      by (simp add: after_sleep_def fun_eq_iff)
    have "chSchGoSleepS st s1 = chSysSwitch (asleep st s1)" using G(1) False by (simp add: s0_def)
    then show ?thesis using False s1(1) unfolding chSchGoSleepTimeoutS_def e s0_def Let_def
      by (simp only: if_True obind.simps simp_thms not_False_eq_True)
  qed
  then show ?thesis using f G by blast
qed

lemma block_timeout:
  assumes "sched_inv s" "currp s \<noteq> idle_tid" "q \<noteq> QReady" "set xs = insert (currp s) (set (tq s q))" "distinct xs"
    "VtStack (currp s) \<notin> set (vtl s)"
  shows "\<exists>s1. chSchGoSleepTimeoutS (wait_state q) time (set_tq q xs (set_wtobjp (currp s) q s)) =
      obind (chSysSwitch s1) (\<lambda>_. after_sleep (currp s) time) \<and>
    sched_inv s1 \<and> top_running s1 \<and> tq s1 q = xs \<and> (\<forall>q'. q' \<noteq> q \<longrightarrow> q' \<noteq> QReady \<longrightarrow> tq s1 q' = tq s q') \<and>
    s_cnt s1 = s_cnt s \<and> gqs s1 = gqs s \<and> mbs s1 = mbs s \<and> m_owner s1 = m_owner s"
proof -
  let ?s = "set_tq q xs (set_wtobjp (currp s) q s)"
  note C = sched_inv_current[OF assms(1)]
  have "sched_but {currp s} (set_wtobjp (currp s) q s)"
    by (rule sched_but_upd[OF C(4)]) (use C in simp_all)
  then have s1: "sched_but {currp ?s} ?s"
    unfolding sched_but_def using assms(3-5) by (auto simp: prio_def)
  have ws: "wait_state q \<noteq> THD_STATE_CURRENT" "wait_state q \<noteq> THD_STATE_READY"
    using assms(3) by (cases q; simp)+
  have qq: "currp ?s \<in> set (tq ?s q') \<longleftrightarrow> queued_as q' ((cur ?s)\<lparr>p_state := wait_state q\<rparr>)" for q'
    using C(2) assms(4) queued_as_wait[where q = q' and q' = q] by (auto simp: loose_def)
  have "currp ?s \<noteq> idle_tid" "0 < prio ?s (currp ?s)" "VtStack (currp ?s) \<notin> set (vtl ?s)"
    using assms(2,6) C(3) by simp_all
  from go_sleep_timeout[OF s1 this(1) ws qq this(2,3), of time] obtain s0 where
    s0: "vt_frame ?s s0" "chSchGoSleepTimeoutS (wait_state q) time ?s =
      obind (chSysSwitch (asleep (wait_state q) s0)) (\<lambda>_. after_sleep (currp ?s) time)"
    "sched_inv (asleep (wait_state q) s0)" "top_running (asleep (wait_state q) s0)" by blast
  show ?thesis
    using s0(2-4) vt_frame_fields[OF s0(1)] assms(3) by (intro exI[of _ "asleep (wait_state q) s0"]) auto
qed

end
