(* ===== verification/Threads.thy ===== *)
theory Threads
  imports Sched
begin

text \<open>
  Threads: \<^verbatim>\<open>os/kernel/src/chthreads.c\<close> (except \<open>chThdWait\<close>, which releases memory and is in
  \<open>Dynamic\<close>) and the name macros of \<^verbatim>\<open>chregistry.h\<close>. A thread's working area is given by its number;
  the initial stack frame, which the port code builds, is not modelled.
\<close>

definition THD_MEM_MODE_MASK :: byte where "THD_MEM_MODE_MASK = 3"
definition THD_MEM_MODE_STATIC :: byte where "THD_MEM_MODE_STATIC = 0"
definition THD_MEM_MODE_HEAP :: byte where "THD_MEM_MODE_HEAP = 1"
definition THD_MEM_MODE_MEMPOOL :: byte where "THD_MEM_MODE_MEMPOOL = 2"
definition THD_TERMINATE :: byte where "THD_TERMINATE = 4"

text \<open>The registry, oldest thread first.\<close>

definition reg_insert :: "tid \<Rightarrow> 'x kernel_scheme \<Rightarrow> 'x kernel_scheme" where
  "reg_insert tp s = s\<lparr>registry := registry s @ [tp]\<rparr>"

definition reg_remove :: "tid \<Rightarrow> 'x kernel_scheme \<Rightarrow> 'x kernel_scheme" where
  "reg_remove tp s = s\<lparr>registry := remove1 tp (registry s)\<rparr>"

definition thread_init :: "tid \<Rightarrow> tprio \<Rightarrow> 'x kernel_scheme \<Rightarrow> 'x kernel_scheme" where
  "thread_init tp pri s =
     queue_init (QMsg tp) (reg_insert tp
       (upd_thread tp (\<lambda>th. th\<lparr>p_prio := pri, p_state := THD_STATE_SUSPENDED,
          p_flags := THD_MEM_MODE_STATIC, p_preempt := CH_TIME_QUANTUM, p_realprio := pri,
          p_mtxlist := [], p_epending := 0, p_time := 0, p_refs := 1, p_name := None,
          p_waiting := []\<rparr>) s))"

definition chThdCreateI :: "tid \<Rightarrow> tprio \<Rightarrow> 'x kernel_scheme \<Rightarrow> 'x kernel_scheme" where
  "chThdCreateI wsp pri s = thread_init wsp pri s"

definition chThdCreateStatic :: "tid \<Rightarrow> tprio \<Rightarrow> 'x kernel_scheme \<Rightarrow> ('x, tid) kout" where
  "chThdCreateStatic wsp pri s =
     obind (chSchWakeupS wsp RDY_OK (chThdCreateI wsp pri s)) (\<lambda>_ s1. Done wsp s1)"

definition chThdSetPriority :: "tprio \<Rightarrow> 'x kernel_scheme \<Rightarrow> ('x, tprio) kout" where
  "chThdSetPriority newprio s =
     (let oldprio = p_realprio (cur s);
          s1 = (if p_prio (cur s) = p_realprio (cur s) \<or> newprio > p_prio (cur s)
                then upd_thread (currp s) (\<lambda>th. th\<lparr>p_prio := newprio\<rparr>) s else s);
          s2 = upd_thread (currp s1) (\<lambda>th. th\<lparr>p_realprio := newprio\<rparr>) s1
      in obind (chSchRescheduleS s2) (\<lambda>_ s3. Done oldprio s3))"

definition chThdResume :: "tid \<Rightarrow> 'x kernel_scheme \<Rightarrow> ('x, tid) kout" where
  "chThdResume tp s = obind (chSchWakeupS tp RDY_OK s) (\<lambda>_ s1. Done tp s1)"

definition chThdTerminate :: "tid \<Rightarrow> 'x kernel_scheme \<Rightarrow> ('x, unit) kout" where
  "chThdTerminate tp s = Done () (upd_thread tp (\<lambda>th. th\<lparr>p_flags := p_flags th OR THD_TERMINATE\<rparr>) s)"

definition chThdShouldTerminate :: "'x kernel_scheme \<Rightarrow> bool" where
  "chThdShouldTerminate s \<longleftrightarrow> p_flags (cur s) AND THD_TERMINATE \<noteq> 0"

definition chThdSleep :: "systime \<Rightarrow> 'x kernel_scheme \<Rightarrow> ('x, unit) kout" where
  "chThdSleep time s = obind (chThdSleepS time s) (\<lambda>_ s1. Done () s1)"

definition chThdSleepMilliseconds :: "int \<Rightarrow> 'x kernel_scheme \<Rightarrow> ('x, unit) kout" where
  "chThdSleepMilliseconds msec s = chThdSleep (MS2ST msec) s"

definition chThdSleepUntil :: "systime \<Rightarrow> 'x kernel_scheme \<Rightarrow> ('x, unit) kout" where
  "chThdSleepUntil time s =
     (let d = time - chTimeNow s in
      if d > 0 then obind (chThdSleepS d s) (\<lambda>_ s1. Done () s1) else Done () s)"

definition chThdYield :: "'x kernel_scheme \<Rightarrow> ('x, unit) kout" where
  "chThdYield s = chSchDoYieldS s"

text \<open>The loop that readies the waiters: the list is a stack, its head is taken first.\<close>

primrec ready_waiting :: "tid \<Rightarrow> tid list \<Rightarrow> 'x kernel_scheme \<Rightarrow> ('x, unit) kout" where
  "ready_waiting tp [] s = Done () s"
| "ready_waiting tp (w # ws) s =
     obind (chSchReadyI w (upd_thread tp (\<lambda>th. th\<lparr>p_waiting := ws\<rparr>) s)) (\<lambda>_ s1. ready_waiting tp ws s1)"

definition chThdExitS :: "msg \<Rightarrow> 'x kernel_scheme \<Rightarrow> ('x, unit) kout" where
  "chThdExitS m s =
     (let tp = currp s; s1 = set_rdymsg tp m s in
      obind (ready_waiting tp (p_waiting (threads s1 tp)) s1) (\<lambda>_ s2.
      let s3 = (if p_flags (threads s2 tp) AND THD_MEM_MODE_MASK = THD_MEM_MODE_STATIC
                then reg_remove tp s2 else s2)
      in chSchGoSleepS THD_STATE_FINAL s3))"

definition chThdExit :: "msg \<Rightarrow> 'x kernel_scheme \<Rightarrow> ('x, unit) kout" where
  "chThdExit m s = chThdExitS m s"

definition chRegSetThreadName :: "string \<Rightarrow> 'x kernel_scheme \<Rightarrow> 'x kernel_scheme" where
  "chRegSetThreadName n s = upd_thread (currp s) (\<lambda>th. th\<lparr>p_name := Some n\<rparr>) s"

section \<open>Creation\<close>

lemma thread_init_inv:
  assumes "sched_inv s" "loose tp s" "p_state (threads s tp) = THD_STATE_FINAL" "tq s (QMsg tp) = []" "0 < pri"
  shows "sched_but {tp} (thread_init tp pri s)" "loose tp (thread_init tp pri s)"
    "tp \<noteq> currp (thread_init tp pri s)" "prio (thread_init tp pri s) tp = pri"
    "u \<noteq> tp \<Longrightarrow> prio (thread_init tp pri s) u = prio s u" "currp (thread_init tp pri s) = currp s"
    "tq (thread_init tp pri s) = tq s"
proof -
  let ?s = "thread_init tp pri s"
  note D = sched_butD[OF assms(1), simplified]
  show q: "tq ?s = tq s" using assms(4) by (auto simp: thread_init_def queue_init_def reg_insert_def)
  show c: "currp ?s = currp s" by (simp add: thread_init_def queue_init_def reg_insert_def)
  have th: "threads ?s u = threads s u" if "u \<noteq> tp" for u
    using that by (simp add: thread_init_def queue_init_def reg_insert_def)
  show pt: "prio ?s tp = pri" by (simp add: thread_init_def queue_init_def reg_insert_def prio_def)
  show pu: "prio ?s u = prio s u" if "u \<noteq> tp" for u using th[OF that] by (simp add: prio_def)
  show "loose tp ?s" using assms(2) q by (simp add: loose_def)
  show "tp \<noteq> currp ?s" using sched_inv_current(1)[OF assms(1)] assms(3) c by auto
  have nq: "tp \<notin> set (tq s QReady)" using assms(2) by (simp add: loose_def)
  show "sched_but {tp} ?s"
  proof (rule sched_butI)
    show "prio_sorted (prio ?s) (tq ?s QReady)"
      unfolding q using D(2) nq pu by (metis prio_sorted_cong)
    show "0 < prio ?s t" if "p_state (threads ?s t) \<noteq> THD_STATE_FINAL" for t
      using that th[of t] pt pu[of t] D(5)[of t] assms(5) by (cases "t = tp") auto
  qed (use D th q c in auto)
qed

lemma create_static:
  assumes "sched_inv s" "top_running s" "loose tp s" "p_state (threads s tp) = THD_STATE_FINAL"
    "tq s (QMsg tp) = []" "0 < pri"
  shows "settles (\<lambda>s'. sched_inv s' \<and> top_running s' \<and>
      currp s' = (if pri \<le> prio s (currp s) then currp s else tp)) (chThdCreateStatic tp pri s)"
proof -
  note I = thread_init_inv[OF assms(1,3-6)]
  let ?s = "thread_init tp pri s"
  have top: "top_running ?s"
    unfolding top_running_def I(6,7)
  proof
    fix t assume t: "t \<in> set (tq s QReady)"
    then have "t \<noteq> tp" using assms(3) by (auto simp: loose_def)
    then show "prio ?s t \<le> prio ?s (currp s)" using t I(3,5,6) assms(2) by (simp add: top_running_def)
  qed
  have "prio ?s (currp ?s) = prio s (currp s)" using I(3,5,6) by simp
  moreover have "0 < prio ?s tp" "currp ?s \<noteq> tp" using I(3,4) assms(6) by simp_all
  note W = wakeup_s[OF I(1,2,3) this(1) top, where m = RDY_OK]
  ultimately have "settles (\<lambda>s'. sched_inv s' \<and> top_running s' \<and>
      currp s' = (if pri \<le> prio s (currp s) then currp s else tp)) (chSchWakeupS tp RDY_OK ?s)"
    by (intro settles_mono[OF W]) (use I(4,6) in auto)
  then show ?thesis unfolding chThdCreateStatic_def chThdCreateI_def by (rule settles_return)
qed

section \<open>Priorities\<close>

lemma sched_inv_set_prio:
  assumes "sched_inv s" "0 < pri"
  shows "sched_inv (upd_thread (currp s) (\<lambda>th. th\<lparr>p_prio := pri, p_realprio := rp\<rparr>) s)" (is "sched_inv ?s")
proof (rule sched_butI)
  note D = sched_butD[OF assms(1), simplified]
  note C = sched_inv_current[OF assms(1)]
  show "distinct (tq ?s q)" for q using D by simp
  have q: "queued_as q (th\<lparr>p_prio := pri, p_realprio := rp\<rparr>) = queued_as q th" for q th by (cases q) auto
  show "t \<in> set (tq ?s q) \<longleftrightarrow> queued_as q (threads ?s t)" for q t using D(3)[of t q] q by auto
  show "p_state (threads ?s t) = THD_STATE_CURRENT \<longleftrightarrow> t = currp ?s" for t using D(4)[of t] by auto
  have "currp s \<notin> set (tq s QReady)" using C(2) by (simp add: loose_def)
  then show "prio_sorted (prio ?s) (tq ?s QReady)"
    using D(2) prio_sorted_cong[of "tq s QReady" "prio ?s" "prio s"] by (force simp: prio_upd_thread)
  show "0 < prio ?s t" if "p_state (threads ?s t) \<noteq> THD_STATE_FINAL" for t
    using D(5)[of t] that assms(2) by (auto simp: prio_def)
  show "p_state (threads ?s idle_tid) = THD_STATE_READY \<or> p_state (threads ?s idle_tid) = THD_STATE_CURRENT"
    using D(6) by auto
qed

text \<open>
  A priority set below an inherited one takes effect only on the real priority; otherwise the running
  thread has the new priority, and gives way at once when a ready thread is above it.
\<close>

lemma set_priority:
  assumes "sched_inv s" "0 < newprio" "p_realprio (cur s) \<le> p_prio (cur s)"
  shows "\<exists>s2. chThdSetPriority newprio s = obind (chSchRescheduleS s2) (\<lambda>_ s3. Done (p_realprio (cur s)) s3) \<and>
      sched_inv s2 \<and> currp s2 = currp s \<and> p_realprio (cur s2) = newprio \<and>
      p_prio (cur s2) = (if p_prio (cur s) = p_realprio (cur s) then newprio else max newprio (p_prio (cur s)))"
    "settles (\<lambda>s'. sched_inv s' \<and> top_running s') (chThdSetPriority newprio s)"
proof -
  let ?p = "if p_prio (cur s) = p_realprio (cur s) then newprio else max newprio (p_prio (cur s))"
  let ?s2 = "upd_thread (currp s) (\<lambda>th. th\<lparr>p_prio := ?p, p_realprio := newprio\<rparr>) s"
  have e: "chThdSetPriority newprio s = obind (chSchRescheduleS ?s2) (\<lambda>_ s3. Done (p_realprio (cur s)) s3)"
  proof (cases "p_prio (cur s) = p_realprio (cur s) \<or> newprio > p_prio (cur s)")
    case True
    then show ?thesis by (auto simp: chThdSetPriority_def Let_def upd_thread_def max_def)
  next
    case False
    then have "?p = p_prio (cur s)" by auto
    then have "?s2 = upd_thread (currp s) (\<lambda>th. th\<lparr>p_realprio := newprio\<rparr>) s"
      by (simp add: upd_thread_def)
    moreover have "chThdSetPriority newprio s = obind (chSchRescheduleS
        (upd_thread (currp s) (\<lambda>th. th\<lparr>p_realprio := newprio\<rparr>) s)) (\<lambda>_ s3. Done (p_realprio (cur s)) s3)"
      using False by (simp add: chThdSetPriority_def Let_def)
    ultimately show ?thesis by (simp add: chThdSetPriority_def Let_def)
  qed
  have i: "sched_inv ?s2" by (rule sched_inv_set_prio[OF assms(1)]) (use assms(2) in auto)
  have f: "currp ?s2 = currp s" "p_realprio (cur ?s2) = newprio" "p_prio (cur ?s2) = ?p" by simp_all
  show "\<exists>s2. chThdSetPriority newprio s = obind (chSchRescheduleS s2) (\<lambda>_ s3. Done (p_realprio (cur s)) s3) \<and>
      sched_inv s2 \<and> currp s2 = currp s \<and> p_realprio (cur s2) = newprio \<and> p_prio (cur s2) = ?p"
    using e i f by blast
  show "settles (\<lambda>s'. sched_inv s' \<and> top_running s') (chThdSetPriority newprio s)"
    unfolding e by (rule settles_return[OF settles_mono[OF reschedule_s[OF i]]]) simp
qed

section \<open>Exit\<close>

text \<open>A thread that waits for the end of another: in no queue and not idle.\<close>

definition waiters_ok :: "tid \<Rightarrow> 'x kernel_scheme \<Rightarrow> bool" where
  "waiters_ok tp s \<longleftrightarrow> distinct (p_waiting (threads s tp)) \<and> tp \<notin> set (p_waiting (threads s tp)) \<and>
     (\<forall>w\<in>set (p_waiting (threads s tp)). p_state (threads s w) = THD_STATE_WTEXIT)"

lemma ready_waiting_inv:
  assumes "sched_inv s" "waiters_ok tp s" "tp = currp s"
  shows "\<exists>s'. ready_waiting tp (p_waiting (threads s tp)) s = Done () s' \<and> sched_inv s' \<and>
     currp s' = currp s \<and> p_waiting (threads s' tp) = [] \<and> p_u (threads s' tp) = p_u (threads s tp) \<and>
     p_flags (threads s' tp) = p_flags (threads s tp) \<and>
     (\<forall>w\<in>set (p_waiting (threads s tp)). p_state (threads s' w) = THD_STATE_READY) \<and>
     (\<forall>u. u \<notin> set (p_waiting (threads s tp)) \<longrightarrow> p_state (threads s' u) = p_state (threads s u)) \<and>
     registry s' = registry s"
  using assms
proof (induction "p_waiting (threads s tp)" arbitrary: s)
  case Nil
  from Nil(1)[symmetric] Nil(2-) show ?case by simp
next
  case (Cons w ws)
  note e = Cons(2)[symmetric]
  let ?s0 = "upd_thread tp (\<lambda>th. th\<lparr>p_waiting := ws\<rparr>) s"
  have w: "p_state (threads s w) = THD_STATE_WTEXIT" "w \<noteq> tp" "w \<notin> set ws" "tp \<notin> set ws" "distinct ws"
    using Cons(4) e by (auto simp: waiters_ok_def)
  have s0: "sched_but {} ?s0" by (rule sched_but_same[OF Cons(3)]) auto
  have nq: "\<not> queued_as q (threads s w)" for q using w(1) by (cases q) auto
  have lw: "loose w ?s0" using sched_butD(3)[OF Cons(3), of w] nq by (simp add: loose_def)
  have pw: "0 < prio ?s0 w" using sched_butD(5)[OF s0, of w] w by simp
  have s1: "sched_inv (ready_put w ?s0)"
    by (rule ready_put_inv[OF s0 lw _ pw]) (use w Cons(5) in auto)
  let ?s1 = "ready_put w ?s0"
  have f: "p_waiting (threads ?s1 tp) = ws" "currp ?s1 = currp s" using w by simp_all
  have "waiters_ok tp ?s1" using Cons(4) e w by (auto simp: waiters_ok_def)
  from Cons(1)[OF f(1)[symmetric] s1 this] f Cons(5) obtain s' where
    s': "ready_waiting tp ws ?s1 = Done () s'" "sched_inv s'" "currp s' = currp s"
      "p_waiting (threads s' tp) = []" "p_u (threads s' tp) = p_u (threads ?s1 tp)"
      "p_flags (threads s' tp) = p_flags (threads ?s1 tp)"
      "\<forall>w\<in>set ws. p_state (threads s' w) = THD_STATE_READY"
      "\<forall>u. u \<notin> set ws \<longrightarrow> p_state (threads s' u) = p_state (threads ?s1 u)" "registry s' = registry ?s1"
    by auto
  have "ready_waiting tp (p_waiting (threads s tp)) s = Done () s'"
    using s'(1) pw by (simp add: e chSchReadyI_eq)
  moreover have "registry ?s1 = registry s" by (simp add: ready_put_def)
  ultimately show ?case using s' w by (intro exI[of _ s']) (auto simp: e)
qed

text \<open>
  \<open>chThdExit\<close> hands the processor over for good: every thread that waited is ready, the exit code is
  stored, a static thread has left the registry, and the scheduler invariant holds.
\<close>

lemma exit_s:
  assumes "sched_inv s" "currp s \<noteq> idle_tid" "waiters_ok (currp s) s"
  shows "\<exists>s'. chThdExit m s = chSysSwitch s' \<and> sched_inv s' \<and> top_running s' \<and>
     p_state (threads s' (currp s)) = THD_STATE_FINAL \<and> p_u (threads s' (currp s)) = UMsg m \<and>
     (\<forall>w\<in>set (p_waiting (cur s)). p_state (threads s' w) \<in> {THD_STATE_READY, THD_STATE_CURRENT}) \<and>
     (p_flags (cur s) AND THD_MEM_MODE_MASK = THD_MEM_MODE_STATIC \<longrightarrow>
        registry s' = remove1 (currp s) (registry s))"
proof -
  let ?tp = "currp s"
  let ?s1 = "set_rdymsg ?tp m s"
  have c: "sched_inv ?s1" by (rule sched_inv_upd_cur[OF assms(1)]) simp_all
  have w1: "waiters_ok ?tp ?s1" using assms(3) by (auto simp: waiters_ok_def)
  from ready_waiting_inv[OF c w1] obtain s2 where
    r: "ready_waiting ?tp (p_waiting (threads ?s1 ?tp)) ?s1 = Done () s2" and
    s2: "sched_inv s2" "currp s2 = ?tp" "p_u (threads s2 ?tp) = UMsg m" "p_flags (threads s2 ?tp) = p_flags (cur s)"
      "\<forall>w\<in>set (p_waiting (cur s)). p_state (threads s2 w) = THD_STATE_READY" "registry s2 = registry s"
    by auto
  let ?s3 = "if p_flags (threads s2 ?tp) AND THD_MEM_MODE_MASK = THD_MEM_MODE_STATIC
    then reg_remove ?tp s2 else s2"
  have f3: "threads ?s3 = threads s2" "tq ?s3 = tq s2" "currp ?s3 = ?tp"
    using s2(2) by (simp_all add: reg_remove_def)
  have s3: "sched_inv ?s3" using sched_but_cong[of ?s3 s2] f3 s2(1,2) by simp
  note G = go_sleep_loose[OF s3, of THD_STATE_FINAL, unfolded f3(3), OF assms(2), simplified]
  have "chThdExit m s = chSysSwitch (asleep THD_STATE_FINAL ?s3)"
    unfolding chThdExit_def chThdExitS_def Let_def r obind.simps using G(1) by simp
  moreover have ne: "hd (tq ?s3 QReady) \<noteq> ?tp"
    using ready_nonempty[OF sched_inv_current(4)[OF s3]] sched_inv_current(2)[OF s3] f3 assms(2)
    by (cases "tq ?s3 QReady") (auto simp: loose_def dest: spec[of _ QReady])
  have th: "threads (asleep THD_STATE_FINAL ?s3) u =
      (if u = hd (tq s2 QReady) then (threads s2 u)\<lparr>p_state := THD_STATE_CURRENT\<rparr>
       else if u = ?tp then (threads s2 u)\<lparr>p_state := THD_STATE_FINAL, p_preempt := CH_TIME_QUANTUM\<rparr>
       else threads s2 u)" for u
    using ne f3 by (simp add: asleep_def)
  have rg: "registry (asleep THD_STATE_FINAL ?s3) = registry ?s3" by (rule sched_frame_fields[OF asleep_frame])
  have nw: "?tp \<notin> set (p_waiting (cur s))" using assms(3) by (simp add: waiters_ok_def)
  ultimately show ?thesis
    using G(2,3) s2(3-6) th ne f3 rg
    by (intro exI[of _ "asleep THD_STATE_FINAL ?s3"]) (auto simp: reg_remove_def)
qed

text \<open>
  \<open>chThdSleepUntil\<close> works modulo the range of the tick counter: a deadline that has just passed is
  a sleep of almost the whole range.
\<close>

lemma sleep_until:
  "chThdSleepUntil time s =
     (if time = vt_systime s then Done () s else chThdSleep (time - vt_systime s) s)"
  by (simp add: chThdSleepUntil_def chThdSleep_def chTimeNow_def Let_def word_gt_0)

end
