(* ===== verification/Sem.thy ===== *)
theory Sem
  imports Threads
begin

text \<open>
  Counting semaphores, \<^verbatim>\<open>os/kernel/src/chsem.c\<close>, and the binary semaphores that
  \<^verbatim>\<open>os/kernel/include/chbsem.h\<close> builds on them. A negative counter is the number of threads in the
  queue. \<open>cnt_t\<close> is 32 bits wide; the counters here do not wrap.
\<close>

section \<open>Operations\<close>

definition set_cnt :: "nat \<Rightarrow> int \<Rightarrow> 'x kernel_scheme \<Rightarrow> 'x kernel_scheme" where
  "set_cnt sp n s = s\<lparr>s_cnt := (s_cnt s)(sp := n)\<rparr>"

definition chSemInit :: "nat \<Rightarrow> int \<Rightarrow> 'x kernel_scheme \<Rightarrow> 'x kernel_scheme" where
  "chSemInit sp n s = set_cnt sp n (queue_init (QSem sp) s)"

definition ready_last :: "qid \<Rightarrow> msg \<Rightarrow> 'x kernel_scheme \<Rightarrow> ('x, unit) kout" where
  "ready_last q m s =
     obind (lifo_remove q s) (\<lambda>tp s1. obind (chSchReadyI tp s1) (\<lambda>tp s2. Done () (set_rdymsg tp m s2)))"

function sem_reset_loop :: "nat \<Rightarrow> int \<Rightarrow> 'x kernel_scheme \<Rightarrow> ('x, unit) kout" where
  "sem_reset_loop sp cnt s =
     (if cnt + 1 \<le> 0 then obind (ready_last (QSem sp) RDY_RESET s) (\<lambda>_. sem_reset_loop sp (cnt + 1))
      else Done () s)"
  by pat_completeness auto
termination by (relation "measure (\<lambda>(sp, cnt, s). nat (- cnt))") auto

declare sem_reset_loop.simps [simp del]

definition chSemResetI :: "nat \<Rightarrow> int \<Rightarrow> 'x kernel_scheme \<Rightarrow> ('x, unit) kout" where
  "chSemResetI sp n s = sem_reset_loop sp (s_cnt s sp) (set_cnt sp n s)"

definition chSemReset :: "nat \<Rightarrow> int \<Rightarrow> 'x kernel_scheme \<Rightarrow> ('x, unit) kout" where
  "chSemReset sp n s = obind (chSemResetI sp n s) (\<lambda>_. chSchRescheduleS)"

definition chSemWaitS :: "nat \<Rightarrow> 'x kernel_scheme \<Rightarrow> ('x, msg) kout" where
  "chSemWaitS sp s =
     (let s1 = set_cnt sp (s_cnt s sp - 1) s in
      if s_cnt s1 sp < 0 then
        (let s2 = set_wtobjp (currp s1) (QSem sp) s1;
             s3 = queue_insert (currp s2) (QSem sp) s2
         in obind (chSchGoSleepS THD_STATE_WTSEM s3) (\<lambda>_ s4. Done (rdymsg (p_u (cur s4))) s4))
      else Done RDY_OK s1)"

definition chSemWait :: "nat \<Rightarrow> 'x kernel_scheme \<Rightarrow> ('x, msg) kout" where
  "chSemWait sp s = chSemWaitS sp s"

definition chSemWaitTimeoutS :: "nat \<Rightarrow> systime \<Rightarrow> 'x kernel_scheme \<Rightarrow> ('x, msg) kout" where
  "chSemWaitTimeoutS sp time s =
     (let s1 = set_cnt sp (s_cnt s sp - 1) s in
      if s_cnt s1 sp < 0 then
        (if TIME_IMMEDIATE = time then Done RDY_TIMEOUT (set_cnt sp (s_cnt s1 sp + 1) s1)
         else (let s2 = set_wtobjp (currp s1) (QSem sp) s1;
                   s3 = queue_insert (currp s2) (QSem sp) s2
               in chSchGoSleepTimeoutS THD_STATE_WTSEM time s3))
      else Done RDY_OK s1)"

definition chSemWaitTimeout :: "nat \<Rightarrow> systime \<Rightarrow> 'x kernel_scheme \<Rightarrow> ('x, msg) kout" where
  "chSemWaitTimeout sp time s = chSemWaitTimeoutS sp time s"

definition chSemSignal :: "nat \<Rightarrow> 'x kernel_scheme \<Rightarrow> ('x, unit) kout" where
  "chSemSignal sp s =
     (let s1 = set_cnt sp (s_cnt s sp + 1) s in
      if s_cnt s1 sp \<le> 0 then obind (fifo_remove (QSem sp) s1) (\<lambda>tp. chSchWakeupS tp RDY_OK)
      else Done () s1)"

definition chSemSignalI :: "nat \<Rightarrow> 'x kernel_scheme \<Rightarrow> ('x, unit) kout" where
  "chSemSignalI sp s =
     (let s1 = set_cnt sp (s_cnt s sp + 1) s in
      if s_cnt s1 sp \<le> 0 then
        obind (fifo_remove (QSem sp) s1) (\<lambda>tp s2.
        obind (chSchReadyI tp (set_rdymsg tp RDY_OK s2)) (\<lambda>_ s3. Done () s3))
      else Done () s1)"

function chSemAddCounterI :: "nat \<Rightarrow> int \<Rightarrow> 'x kernel_scheme \<Rightarrow> ('x, unit) kout" where
  "chSemAddCounterI sp n s =
     (if n > 0 then
        (let s1 = set_cnt sp (s_cnt s sp + 1) s in
         obind (if s_cnt s1 sp \<le> 0 then ready_first (QSem sp) RDY_OK s1 else Done () s1)
           (\<lambda>_. chSemAddCounterI sp (n - 1)))
      else Done () s)"
  by pat_completeness auto
termination by (relation "measure (\<lambda>(sp, n, s). nat n)") auto

declare chSemAddCounterI.simps [simp del]

definition chSemSignalWait :: "nat \<Rightarrow> nat \<Rightarrow> 'x kernel_scheme \<Rightarrow> ('x, msg) kout" where
  "chSemSignalWait sps spw s =
     (let s1 = set_cnt sps (s_cnt s sps + 1) s in
      obind (if s_cnt s1 sps \<le> 0 then ready_first (QSem sps) RDY_OK s1 else Done () s1) (\<lambda>_ s2.
      let s3 = set_cnt spw (s_cnt s2 spw - 1) s2 in
      if s_cnt s3 spw < 0 then
        (let ctp = currp s3;
             s4 = set_wtobjp ctp (QSem spw) (queue_insert ctp (QSem spw) s3)
         in obind (chSchGoSleepS THD_STATE_WTSEM s4) (\<lambda>_ s5. Done (rdymsg (p_u (threads s5 ctp))) s5))
      else obind (chSchRescheduleS s3) (\<lambda>_ s4. Done RDY_OK s4)))"

text \<open>The macros of \<^verbatim>\<open>chsem.h\<close> and \<^verbatim>\<open>chbsem.h\<close>.\<close>

definition chSemFastWaitI :: "nat \<Rightarrow> 'x kernel_scheme \<Rightarrow> 'x kernel_scheme" where
  "chSemFastWaitI sp s = set_cnt sp (s_cnt s sp - 1) s"

definition chSemFastSignalI :: "nat \<Rightarrow> 'x kernel_scheme \<Rightarrow> 'x kernel_scheme" where
  "chSemFastSignalI sp s = set_cnt sp (s_cnt s sp + 1) s"

definition chSemGetCounterI :: "nat \<Rightarrow> 'x kernel_scheme \<Rightarrow> int" where
  "chSemGetCounterI sp s = s_cnt s sp"

definition chBSemInit :: "nat \<Rightarrow> bool \<Rightarrow> 'x kernel_scheme \<Rightarrow> 'x kernel_scheme" where
  "chBSemInit bsp taken s = chSemInit bsp (if taken then 0 else 1) s"

definition chBSemWait :: "nat \<Rightarrow> 'x kernel_scheme \<Rightarrow> ('x, msg) kout" where
  "chBSemWait bsp s = chSemWait bsp s"

definition chBSemWaitS :: "nat \<Rightarrow> 'x kernel_scheme \<Rightarrow> ('x, msg) kout" where
  "chBSemWaitS bsp s = chSemWaitS bsp s"

definition chBSemWaitTimeout :: "nat \<Rightarrow> systime \<Rightarrow> 'x kernel_scheme \<Rightarrow> ('x, msg) kout" where
  "chBSemWaitTimeout bsp time s = chSemWaitTimeout bsp time s"

definition chBSemReset :: "nat \<Rightarrow> bool \<Rightarrow> 'x kernel_scheme \<Rightarrow> ('x, unit) kout" where
  "chBSemReset bsp taken s = chSemReset bsp (if taken then 0 else 1) s"

definition chBSemResetI :: "nat \<Rightarrow> bool \<Rightarrow> 'x kernel_scheme \<Rightarrow> ('x, unit) kout" where
  "chBSemResetI bsp taken s = chSemResetI bsp (if taken then 0 else 1) s"

definition chBSemSignalI :: "nat \<Rightarrow> 'x kernel_scheme \<Rightarrow> ('x, unit) kout" where
  "chBSemSignalI bsp s = (if s_cnt s bsp < 1 then chSemSignalI bsp s else Done () s)"

definition chBSemSignal :: "nat \<Rightarrow> 'x kernel_scheme \<Rightarrow> ('x, unit) kout" where
  "chBSemSignal bsp s = obind (chBSemSignalI bsp s) (\<lambda>_. chSchRescheduleS)"

definition chBSemGetStateI :: "nat \<Rightarrow> 'x kernel_scheme \<Rightarrow> bool" where
  "chBSemGetStateI bsp s = (if s_cnt s bsp > 0 then False else True)"

section \<open>The kernel invariant\<close>

definition sem_ok :: "'x kernel_scheme \<Rightarrow> bool" where
  "sem_ok s \<longleftrightarrow> (\<forall>n. if s_cnt s n < 0 then s_cnt s n = - int (length (tq s (QSem n))) else tq s (QSem n) = [])"

definition kinv :: "'x kernel_scheme \<Rightarrow> bool" where
  "kinv s \<longleftrightarrow> sched_inv s \<and> sem_ok s"

lemma set_cnt_fields [simp]:
  "s_cnt (set_cnt sp n s) = (s_cnt s)(sp := n)" "tq (set_cnt sp n s) = tq s"
  "threads (set_cnt sp n s) = threads s" "currp (set_cnt sp n s) = currp s" "prio (set_cnt sp n s) = prio s"
  "vtl (set_cnt sp n s) = vtl s" "vts (set_cnt sp n s) = vts s" "m_owner (set_cnt sp n s) = m_owner s"
  "gqs (set_cnt sp n s) = gqs s" "mbs (set_cnt sp n s) = mbs s"
  by (simp_all add: set_cnt_def prio_def fun_eq_iff)

lemma sched_set_cnt [simp]:
  "sched_but F (set_cnt sp n s) = sched_but F s" "top_running (set_cnt sp n s) = top_running s"
  "loose t (set_cnt sp n s) = loose t s"
  by (rule sched_but_cong top_running_cong; simp)+ (simp add: loose_def)

lemma sem_okD: "sem_ok s \<Longrightarrow> s_cnt s n < 0 \<Longrightarrow> s_cnt s n = - int (length (tq s (QSem n)))"
  "sem_ok s \<Longrightarrow> 0 \<le> s_cnt s n \<Longrightarrow> tq s (QSem n) = []"
  by (auto simp: sem_ok_def split: if_splits dest: spec[of _ n])

lemma sem_ok_frame: "frame_but Q s s' \<Longrightarrow> (\<forall>n. QSem n \<notin> Q) \<Longrightarrow> sem_ok s' = sem_ok s"
  by (simp add: sem_ok_def frame_but_def)

lemma sem_ok_upd:
  assumes "sem_ok s" "s_cnt s' = (s_cnt s)(sp := n)" "\<And>m. m \<noteq> sp \<Longrightarrow> tq s' (QSem m) = tq s (QSem m)"
    "if n < 0 then n = - int (length (tq s' (QSem sp))) else tq s' (QSem sp) = []"
  shows "sem_ok s'"
  using assms by (auto simp: sem_ok_def)

lemma settles_kinv:
  assumes "settles (\<lambda>s'. sched_inv s' \<and> top_running s' \<and> frame_but {QReady} s s' \<and> P s') m" "sem_ok s"
  shows "settles (\<lambda>s'. kinv s' \<and> top_running s') m"
  by (rule settles_mono[OF assms(1)]) (use assms(2) sem_ok_frame in \<open>auto simp: kinv_def\<close>)

section \<open>Waiting\<close>

lemma sem_wait_free:
  assumes "0 < s_cnt s sp"
  shows "chSemWaitS sp s = Done RDY_OK (set_cnt sp (s_cnt s sp - 1) s)"
  using assms by (simp add: chSemWaitS_def Let_def)

definition sem_blocked :: "nat \<Rightarrow> 'x kernel_scheme \<Rightarrow> 'x kernel_scheme" where
  "sem_blocked sp s = asleep THD_STATE_WTSEM (set_tq (QSem sp) (tq s (QSem sp) @ [currp s])
     (set_wtobjp (currp s) (QSem sp) (set_cnt sp (s_cnt s sp - 1) s)))"

lemma sem_wait_block:
  assumes "kinv s" "currp s \<noteq> idle_tid" "s_cnt s sp \<le> 0"
  shows "chSemWaitS sp s = obind (chSysSwitch (sem_blocked sp s)) (\<lambda>_ s'. Done (rdymsg (p_u (cur s'))) s')"
    "kinv (sem_blocked sp s)" "top_running (sem_blocked sp s)"
    "tq (sem_blocked sp s) (QSem sp) = tq s (QSem sp) @ [currp s]"
    "s_cnt (sem_blocked sp s) sp = s_cnt s sp - 1" "currp (sem_blocked sp s) = hd (tq s QReady)"
proof -
  let ?s1 = "set_cnt sp (s_cnt s sp - 1) s"
  have i: "sched_inv ?s1" "sem_ok s" "sched_inv s" using assms(1) by (simp_all add: kinv_def)
  have d: "distinct (tq ?s1 (QSem sp) @ [currp ?s1])"
    using sched_butD(1)[OF i(3), of "QSem sp"] sched_inv_current(2)[OF i(3)] by (simp add: loose_def)
  note B = block_on[OF i(1), of "QSem sp" "tq ?s1 (QSem sp) @ [currp ?s1]", simplified, OF assms(2) d[simplified]]
  show "chSemWaitS sp s = obind (chSysSwitch (sem_blocked sp s)) (\<lambda>_ s'. Done (rdymsg (p_u (cur s'))) s')"
    using assms(3) B(1) by (simp add: chSemWaitS_def Let_def queue_insert_def sem_blocked_def)
  show "top_running (sem_blocked sp s)" using B(3) by (simp add: sem_blocked_def)
  show q: "tq (sem_blocked sp s) (QSem sp) = tq s (QSem sp) @ [currp s]" "s_cnt (sem_blocked sp s) sp = s_cnt s sp - 1"
    "currp (sem_blocked sp s) = hd (tq s QReady)"
    by (simp_all add: sem_blocked_def)
  have "sem_ok (sem_blocked sp s)"
    by (rule sem_ok_upd[OF i(2)])
      (use assms(3) sem_okD[OF i(2), of sp] in \<open>auto simp: sem_blocked_def le_less\<close>)
  then show "kinv (sem_blocked sp s)" using B(2) by (simp add: kinv_def sem_blocked_def)
qed

lemma sem_wait_safe:
  assumes "kinv s" "currp s \<noteq> idle_tid"
  shows "safe kinv (\<lambda>s'. kinv s' \<and> currp s' = currp s) (\<lambda>r s'. kinv s' \<and> currp s' = currp s) (chSemWaitS sp s)"
proof (cases "0 < s_cnt s sp")
  case True
  have "sem_ok (set_cnt sp (s_cnt s sp - 1) s)"
    by (rule sem_ok_upd[of s]) (use assms True sem_okD(2)[of s sp] in \<open>auto simp: kinv_def\<close>)
  then show ?thesis using assms True by (simp add: sem_wait_free kinv_def)
next
  case False
  then show ?thesis using sem_wait_block[OF assms, of sp] by simp
qed

section \<open>Signalling\<close>

text \<open>What a signal does: count up, or take the thread that has waited longest.\<close>

definition sem_signalled :: "nat \<Rightarrow> 'x kernel_scheme \<Rightarrow> 'x kernel_scheme" where
  "sem_signalled sp s =
     (let s1 = set_cnt sp (s_cnt s sp + 1) s in
      case tq s (QSem sp) of [] \<Rightarrow> s1 | t # _ \<Rightarrow> readied (QSem sp) t RDY_OK s1)"

lemma sem_signalled_inv:
  assumes "kinv s"
  shows "kinv (sem_signalled sp s)"
    "(if s_cnt s sp + 1 \<le> 0 then ready_first (QSem sp) RDY_OK (set_cnt sp (s_cnt s sp + 1) s)
      else Done () (set_cnt sp (s_cnt s sp + 1) s)) = Done () (sem_signalled sp s)"
    "s_cnt (sem_signalled sp s) = (s_cnt s)(sp := s_cnt s sp + 1)"
    "tq (sem_signalled sp s) (QSem sp) = tl (tq s (QSem sp))" "currp (sem_signalled sp s) = currp s"
    "prio (sem_signalled sp s) = prio s"
proof -
  have i: "sched_inv s" "sem_ok s" using assms by (simp_all add: kinv_def)
  let ?s1 = "set_cnt sp (s_cnt s sp + 1) s"
  show c: "s_cnt (sem_signalled sp s) = (s_cnt s)(sp := s_cnt s sp + 1)"
    "tq (sem_signalled sp s) (QSem sp) = tl (tq s (QSem sp))" "currp (sem_signalled sp s) = currp s"
    "prio (sem_signalled sp s) = prio s"
    by (auto simp: sem_signalled_def Let_def split: list.split)
  have ok: "sem_ok (sem_signalled sp s)"
  proof (rule sem_ok_upd[OF i(2) c(1)])
    show "tq (sem_signalled sp s) (QSem m) = tq s (QSem m)" if "m \<noteq> sp" for m
      using that by (auto simp: sem_signalled_def Let_def split: list.split)
    show "if s_cnt s sp + 1 < 0 then s_cnt s sp + 1 = - int (length (tq (sem_signalled sp s) (QSem sp)))
      else tq (sem_signalled sp s) (QSem sp) = []"
      using c(2) sem_okD[OF i(2), of sp] by (cases "tq s (QSem sp)"; cases "s_cnt s sp < 0") auto
  qed
  show "kinv (sem_signalled sp s)" 
  proof (cases "tq s (QSem sp)")
    case Nil
    then show ?thesis using i ok by (simp add: kinv_def sem_signalled_def)
  next
    case (Cons t ts)
    then have "sched_inv (readied (QSem sp) t RDY_OK ?s1)" using i by (intro readied_inv) simp_all
    then show ?thesis using ok Cons by (simp add: kinv_def sem_signalled_def)
  qed
  show "(if s_cnt s sp + 1 \<le> 0 then ready_first (QSem sp) RDY_OK ?s1 else Done () ?s1) = Done () (sem_signalled sp s)"
  proof (cases "tq s (QSem sp)")
    case Nil
    then have "\<not> s_cnt s sp < 0" using sem_okD(1)[OF i(2), of sp] by auto
    then show ?thesis using Nil by (simp add: sem_signalled_def)
  next
    case (Cons t ts)
    then have "s_cnt s sp < 0" using sem_okD(2)[OF i(2), of sp] by (cases "s_cnt s sp < 0") auto
    then show ?thesis using Cons ready_first_eq(1)[of ?s1 "QSem sp" t ts RDY_OK] i by (simp add: sem_signalled_def)
  qed
qed

lemma sem_signalI:
  assumes "kinv s"
  shows "chSemSignalI sp s = Done () (sem_signalled sp s)"
proof -
  have i: "sched_inv s" "sem_ok s" using assms by (simp_all add: kinv_def)
  let ?s1 = "set_cnt sp (s_cnt s sp + 1) s"
  show ?thesis
  proof (cases "tq s (QSem sp)")
    case Nil
    then have "\<not> s_cnt s sp < 0" using sem_okD(1)[OF i(2), of sp] by auto
    then show ?thesis using Nil by (simp add: chSemSignalI_def sem_signalled_def)
  next
    case (Cons t ts)
    then have "s_cnt s sp < 0" using sem_okD(2)[OF i(2), of sp] by (cases "s_cnt s sp < 0") auto
    moreover have "0 < prio s t" using readied_inv(2)[OF i(1), of t "QSem sp"] Cons by simp
    ultimately show ?thesis
      using Cons by (simp add: chSemSignalI_def sem_signalled_def fifo_remove_def chSchReadyI_eq
          readied_def ready_put_rdymsg)
  qed
qed

lemma sem_signal_s:
  assumes "kinv s" "top_running s"
  shows "settles (\<lambda>s'. kinv s' \<and> top_running s' \<and> s_cnt s' sp = s_cnt s sp + 1 \<and>
      tq s' (QSem sp) = tl (tq s (QSem sp)) \<and>
      currp s' = (case tq s (QSem sp) of [] \<Rightarrow> currp s
        | t # _ \<Rightarrow> if prio s t \<le> prio s (currp s) then currp s else t)) (chSemSignal sp s)"
proof -
  have i: "sched_inv s" "sem_ok s" using assms by (simp_all add: kinv_def)
  let ?s1 = "set_cnt sp (s_cnt s sp + 1) s"
  show ?thesis
  proof (cases "tq s (QSem sp)")
    case Nil
    then have n: "\<not> s_cnt s sp < 0" using sem_okD(1)[OF i(2), of sp] by auto
    then have "sem_ok ?s1" using Nil by (intro sem_ok_upd[OF i(2)]) auto
    then show ?thesis using Nil n assms by (simp add: chSemSignal_def kinv_def)
  next
    case (Cons t ts)
    then have n: "s_cnt s sp < 0" using sem_okD(2)[OF i(2), of sp] by (cases "s_cnt s sp < 0") auto
    have "sched_inv ?s1" "top_running ?s1" "tq ?s1 (QSem sp) = t # ts" using i assms Cons by simp_all
    from wakeup_first[OF this, of RDY_OK] obtain s2 where
      s2: "fifo_remove (QSem sp) ?s1 = Done t s2" "frame_but {QSem sp} ?s1 s2" "tq s2 (QSem sp) = ts" and
      w: "settles (\<lambda>s'. sched_inv s' \<and> top_running s' \<and> sched_frame s2 s' \<and> prio s' = prio ?s1 \<and>
        currp s' = (if prio ?s1 t \<le> prio ?s1 (currp ?s1) then currp ?s1 else t)) (chSchWakeupS t RDY_OK s2)"
      by auto
    have c2: "s_cnt s2 = s_cnt ?s1" by (rule sched_frame_fields[OF s2(2)])
    have "sem_ok s2"
      by (rule sem_ok_upd[OF i(2), where n = "s_cnt s sp + 1" and sp = sp])
        (use c2 s2 n Cons sem_okD(1)[OF i(2) n] sched_frame_fields(15)[OF s2(2)] in auto)
    then have "sem_ok s' \<and> s_cnt s' = s_cnt s2 \<and> tq s' (QSem sp) = ts" if "sched_frame s2 s'" for s'
      using sem_ok_frame[OF that] sched_frame_fields(5,15)[OF that] s2(3) by simp
    moreover have e: "chSemSignal sp s = chSchWakeupS t RDY_OK s2" using n by (simp add: chSemSignal_def s2(1))
    ultimately show ?thesis
      unfolding e by (intro settles_mono[OF w]) (use c2 Cons in \<open>auto simp: kinv_def\<close>)
  qed
qed

text \<open>
  \<open>chSemAddCounterI\<close> is \<open>n\<close> signals.
\<close>

lemma sem_add_counter:
  assumes "kinv s"
  shows "chSemAddCounterI sp (int n) s = Done () ((sem_signalled sp ^^ n) s) \<and> kinv ((sem_signalled sp ^^ n) s)"
  using assms
proof (induction n arbitrary: s)
  case 0
  then show ?case by (simp add: chSemAddCounterI.simps)
next
  case (Suc n)
  note S = sem_signalled_inv[OF Suc(2), of sp]
  have "chSemAddCounterI sp (int (Suc n)) s = chSemAddCounterI sp (int n) (sem_signalled sp s)"
    using S(2) by (subst chSemAddCounterI.simps) (simp add: Let_def)
  then show ?case using Suc(1)[OF S(1)] by (simp add: funpow_Suc_right del: funpow.simps)
qed

text \<open>
  A signal and a wait in one step: no other thread runs between them.
\<close>

lemma sem_signal_wait:
  assumes "kinv s" "currp s \<noteq> idle_tid"
  shows "0 < s_cnt (sem_signalled sps s) spw \<Longrightarrow> chSemSignalWait sps spw s =
      obind (chSchRescheduleS (set_cnt spw (s_cnt (sem_signalled sps s) spw - 1) (sem_signalled sps s)))
        (\<lambda>_ s'. Done RDY_OK s')"
    "s_cnt (sem_signalled sps s) spw \<le> 0 \<Longrightarrow> chSemSignalWait sps spw s =
      obind (chSysSwitch (sem_blocked spw (sem_signalled sps s))) (\<lambda>_ s'. Done (rdymsg (p_u (threads s' (currp s)))) s')"
proof -
  note S = sem_signalled_inv[OF assms(1), of sps]
  let ?s = "sem_signalled sps s"
  have e: "chSemSignalWait sps spw s = (let s3 = set_cnt spw (s_cnt ?s spw - 1) ?s in
      if s_cnt s3 spw < 0 then
        (let ctp = currp s3;
             s4 = set_wtobjp ctp (QSem spw) (queue_insert ctp (QSem spw) s3)
         in obind (chSchGoSleepS THD_STATE_WTSEM s4) (\<lambda>_ s5. Done (rdymsg (p_u (threads s5 ctp))) s5))
      else obind (chSchRescheduleS s3) (\<lambda>_ s4. Done RDY_OK s4))"
    using S(2) by (simp add: chSemSignalWait_def Let_def)
  show "0 < s_cnt ?s spw \<Longrightarrow> chSemSignalWait sps spw s =
      obind (chSchRescheduleS (set_cnt spw (s_cnt ?s spw - 1) ?s)) (\<lambda>_ s'. Done RDY_OK s')"
    unfolding e by (simp add: Let_def)
  show "s_cnt ?s spw \<le> 0 \<Longrightarrow> chSemSignalWait sps spw s =
      obind (chSysSwitch (sem_blocked spw ?s)) (\<lambda>_ s'. Done (rdymsg (p_u (threads s' (currp s)))) s')"
  proof -
    assume n: "s_cnt ?s spw \<le> 0"
    let ?s1 = "set_cnt spw (s_cnt ?s spw - 1) ?s"
    have i: "sched_inv ?s1" "currp ?s1 \<noteq> idle_tid" using S assms(2) by (simp_all add: kinv_def)
    have d: "distinct (tq ?s1 (QSem spw) @ [currp ?s1])"
      using sched_butD(1)[OF i(1), of "QSem spw"] sched_inv_current(2)[OF i(1)] by (simp add: loose_def)
    note B = block_on[OF i, of "QSem spw" "tq ?s1 (QSem spw) @ [currp ?s1]", simplified, OF d[simplified]]
    have c: "set_wtobjp c q (queue_insert c q s') = set_tq q (tq s' q @ [c]) (set_wtobjp c q s')"
      for c q and s' :: "'a kernel_scheme"
      by (rule kernel.equality; simp add: queue_insert_def)
    show ?thesis unfolding e using n B(1) S(5) by (simp add: Let_def c sem_blocked_def)
  qed
qed

section \<open>Reset\<close>

lemma unqueue_last:
  assumes "sched_inv s" "tq s q = ts @ [t]" "q \<noteq> QReady"
  shows "ready_last q m s = Done () (readied q t m s)" "sched_inv (readied q t m s)"
    "tq (readied q t m s) q = ts"
proof -
  have d: "t \<notin> set ts" using sched_butD(1)[OF assms(1), of q] assms(2) by simp
  note R = readied_inv[OF assms(1) _ assms(3), of t] 
  show "ready_last q m s = Done () (readied q t m s)"
    using R(2) assms(2) d by (simp add: ready_last_def lifo_remove_def chSchReadyI_eq readied_def remove1_append)
  show "sched_inv (readied q t m s)" using R assms(2) by simp
  show "tq (readied q t m s) q = ts" using assms(2,3) d by (simp add: remove1_append)
qed

lemma sem_reset_all:
  assumes "sched_inv s" "cnt = - int (length (tq s (QSem sp)))"
  shows "\<exists>s'. sem_reset_loop sp cnt s = Done () s' \<and> sched_inv s' \<and> tq s' (QSem sp) = [] \<and>
    s_cnt s' = s_cnt s \<and> currp s' = currp s \<and> frame_but {QSem sp, QReady} s s' \<and>
    (\<forall>t\<in>set (tq s (QSem sp)). p_state (threads s' t) = THD_STATE_READY \<and> p_u (threads s' t) = UMsg RDY_RESET) \<and>
    (\<forall>t. t \<notin> set (tq s (QSem sp)) \<longrightarrow> threads s' t = threads s t)"
  using assms
proof (induction "length (tq s (QSem sp))" arbitrary: s cnt)
  case 0
  then show ?case by (subst sem_reset_loop.simps) (auto intro: exI[of _ s])
next
  case (Suc n)
  obtain ts t where q: "tq s (QSem sp) = ts @ [t]" using Suc(2) by (cases "tq s (QSem sp)" rule: rev_cases) auto
  note U = unqueue_last[OF Suc(3) q, of RDY_RESET, simplified]
  let ?s = "readied (QSem sp) t RDY_RESET s"
  have d: "t \<notin> set ts" using sched_butD(1)[OF Suc(3), of "QSem sp"] q by simp
  have l: "n = length (tq ?s (QSem sp))" using Suc(2) q U(3) by simp
  have c: "cnt + 1 = - int (length (tq ?s (QSem sp)))" using Suc(4) q U(3) by simp
  have U3: "tq ?s (QSem sp) = ts" using U(3) by simp
  from Suc(1)[OF l U(2) c] obtain s' where s':
    "sem_reset_loop sp (cnt + 1) ?s = Done () s'" "sched_inv s'" "tq s' (QSem sp) = []"
    "s_cnt s' = s_cnt ?s" "currp s' = currp ?s" "frame_but {QSem sp, QReady} ?s s'"
    "\<forall>u\<in>set ts. p_state (threads s' u) = THD_STATE_READY \<and> p_u (threads s' u) = UMsg RDY_RESET"
    "\<forall>u. u \<notin> set ts \<longrightarrow> threads s' u = threads ?s u" unfolding U3 by blast
  have "sem_reset_loop sp cnt s = Done () s'"
    using Suc(4) q s'(1) U(1) by (subst sem_reset_loop.simps) simp
  moreover have "frame_but {QSem sp, QReady} s s'" by (rule sched_frame_trans[OF readied_frame s'(6)])
  moreover have "\<forall>u\<in>set (tq s (QSem sp)). p_state (threads s' u) = THD_STATE_READY \<and> p_u (threads s' u) = UMsg RDY_RESET"
    using s'(7,8) q d by auto
  moreover have "\<forall>u. u \<notin> set (tq s (QSem sp)) \<longrightarrow> threads s' u = threads s u" using s'(8) q by auto
  ultimately show ?case using s'(2-5) by auto
qed

lemma sem_resetI:
  assumes "kinv s" "0 \<le> n"
  shows "\<exists>s'. chSemResetI sp n s = Done () s' \<and> kinv s' \<and> s_cnt s' = (s_cnt s)(sp := n) \<and> tq s' (QSem sp) = [] \<and>
    currp s' = currp s \<and>
    (\<forall>t\<in>set (tq s (QSem sp)). p_state (threads s' t) = THD_STATE_READY \<and> p_u (threads s' t) = UMsg RDY_RESET)"
proof -
  have i: "sched_inv (set_cnt sp n s)" "sem_ok s" using assms by (simp_all add: kinv_def)
  show ?thesis
  proof (cases "s_cnt s sp < 0")
    case True
    then have "s_cnt s sp = - int (length (tq (set_cnt sp n s) (QSem sp)))" using sem_okD(1)[OF i(2)] by simp
    from sem_reset_all[OF i(1) this] obtain s' where s': "chSemResetI sp n s = Done () s'" "sched_inv s'"
      "tq s' (QSem sp) = []" "s_cnt s' = (s_cnt s)(sp := n)" "currp s' = currp s"
      "frame_but {QSem sp, QReady} (set_cnt sp n s) s'"
      "\<forall>t\<in>set (tq s (QSem sp)). p_state (threads s' t) = THD_STATE_READY \<and> p_u (threads s' t) = UMsg RDY_RESET"
      by (auto simp: chSemResetI_def)
    have "sem_ok s'"
      by (rule sem_ok_upd[OF i(2) s'(4)]) (use s'(3) assms(2) sched_frame_fields(15)[OF s'(6)] in auto)
    then show ?thesis using s' by (auto simp: kinv_def)
  next
    case False
    then have "chSemResetI sp n s = Done () (set_cnt sp n s)"
      by (simp add: chSemResetI_def sem_reset_loop.simps)
    moreover have "tq s (QSem sp) = []" using sem_okD(2)[OF i(2)] False by simp
    moreover have "sem_ok (set_cnt sp n s)"
      by (rule sem_ok_upd[OF i(2)]) (use assms(2) \<open>tq s (QSem sp) = []\<close> in auto)
    ultimately show ?thesis using i(1) by (auto simp: kinv_def)
  qed
qed

section \<open>Timeouts\<close>

text \<open>
  The timer of a sleeping thread: a thread that waits on a semaphore leaves its queue and gives its
  count back; a thread that is ready already is left alone.
\<close>

lemma wakeup_sem:
  assumes "kinv s" "t \<in> set (tq s (QSem sp))"
  shows "\<exists>s'. wakeup t s = Done () s' \<and> kinv s' \<and> s_cnt s' = (s_cnt s)(sp := s_cnt s sp + 1) \<and>
    tq s' (QSem sp) = remove1 t (tq s (QSem sp)) \<and> p_u (threads s' t) = UMsg RDY_TIMEOUT \<and>
    p_state (threads s' t) = THD_STATE_READY \<and> currp s' = currp s"
proof -
  have i: "sched_inv s" "sem_ok s" using assms by (simp_all add: kinv_def)
  note U = unqueue_inv[OF i(1) assms(2), simplified]
  let ?s1 = "set_cnt sp (s_cnt s sp + 1) s"
  let ?s' = "readied (QSem sp) t RDY_TIMEOUT ?s1"
  have R: "sched_inv ?s'" "0 < prio ?s1 t" using readied_inv[of ?s1 t "QSem sp"] assms(2) i by simp_all
  have e: "wakeup t s = Done () ?s'"
    using U(5) assms(2) R(2)
    by (simp add: wakeup_def dequeue_def wakeup_timeout_def chSchReadyI_eq readied_def ready_put_rdymsg
        flip: set_cnt_def)
  have ne: "tq s (QSem sp) \<noteq> []" using assms(2) by auto
  then have neg: "s_cnt s sp < 0" using sem_okD(2)[OF i(2), of sp] by (cases "s_cnt s sp < 0") auto
  have "sem_ok ?s'"
    by (rule sem_ok_upd[OF i(2), of _ sp "s_cnt s sp + 1"])
      (use neg sem_okD(1)[OF i(2) neg] assms(2) length_remove1[of t "tq s (QSem sp)"] in \<open>auto simp: Suc_le_eq\<close>)
  then show ?thesis using e R(1) by (intro exI[of _ ?s']) (simp add: kinv_def)
qed

lemma wakeup_ready: "p_state (threads s t) = THD_STATE_READY \<Longrightarrow> wakeup t s = Done () s"
  by (simp add: wakeup_def)

section \<open>Binary semaphores\<close>

text \<open>A binary semaphore never counts above one, whatever the number of signals.\<close>

lemma bsem_signalI:
  assumes "kinv s" "s_cnt s b \<le> 1"
  shows "\<exists>s'. chBSemSignalI b s = Done () s' \<and> kinv s' \<and> s_cnt s' b = min 1 (s_cnt s b + 1) \<and>
    tq s' (QSem b) = tl (tq s (QSem b)) \<and> currp s' = currp s"
proof (cases "s_cnt s b < 1")
  case True
  then show ?thesis using sem_signalI[OF assms(1)] sem_signalled_inv[OF assms(1), of b]
    by (intro exI[of _ "sem_signalled b s"]) (simp add: chBSemSignalI_def)
next
  case False
  then have "tq s (QSem b) = []" using assms sem_okD(2)[of s b] by (simp add: kinv_def)
  with False assms show ?thesis by (simp add: chBSemSignalI_def)
qed

lemma bsem_signal_s:
  assumes "kinv s" "s_cnt s b \<le> 1"
  shows "settles (\<lambda>s'. kinv s' \<and> top_running s' \<and> s_cnt s' b = min 1 (s_cnt s b + 1) \<and>
    tq s' (QSem b) = tl (tq s (QSem b))) (chBSemSignal b s)"
proof -
  from bsem_signalI[OF assms] obtain s1 where s1: "chBSemSignalI b s = Done () s1" "kinv s1"
    "s_cnt s1 b = min 1 (s_cnt s b + 1)" "tq s1 (QSem b) = tl (tq s (QSem b))" by auto
  have i: "sched_inv s1" "sem_ok s1" using s1(2) by (simp_all add: kinv_def)
  have e: "chBSemSignal b s = chSchRescheduleS s1" by (simp add: chBSemSignal_def s1(1))
  show ?thesis unfolding e
    by (rule settles_mono[OF reschedule_s[OF i(1)]])
      (use s1 i(2) in \<open>auto simp: kinv_def sem_ok_frame sched_frame_fields\<close>)
qed

end
