(* ===== verification/Mtx.thy ===== *)
theory Mtx
  imports Sem
begin

text \<open>
  Mutexes with priority inheritance, \<^verbatim>\<open>os/kernel/src/chmtx.c\<close>. A thread's list of owned mutexes
  (\<open>p_mtxlist\<close>, linked through \<open>m_next\<close>) is a list, most recently locked first.
\<close>

section \<open>Operations\<close>

definition set_owner :: "nat \<Rightarrow> tid option \<Rightarrow> 'x kernel_scheme \<Rightarrow> 'x kernel_scheme" where
  "set_owner mp t s = s\<lparr>m_owner := (m_owner s)(mp := t)\<rparr>"

definition set_mtxlist :: "tid \<Rightarrow> nat list \<Rightarrow> 'x kernel_scheme \<Rightarrow> 'x kernel_scheme" where
  "set_mtxlist t ms s = upd_thread t (\<lambda>th. th\<lparr>p_mtxlist := ms\<rparr>) s"

definition set_prio :: "tid \<Rightarrow> tprio \<Rightarrow> 'x kernel_scheme \<Rightarrow> 'x kernel_scheme" where
  "set_prio t p s = upd_thread t (\<lambda>th. th\<lparr>p_prio := p\<rparr>) s"

definition chMtxInit :: "nat \<Rightarrow> 'x kernel_scheme \<Rightarrow> 'x kernel_scheme" where
  "chMtxInit mp s = set_owner mp None (queue_init (QMtx mp) s)"

definition chMtxQueueNotEmptyS :: "nat \<Rightarrow> 'x kernel_scheme \<Rightarrow> bool" where
  "chMtxQueueNotEmptyS mp s \<longleftrightarrow> notempty (QMtx mp) s"

text \<open>Recording \<open>tp\<close> as the owner and the mutex at the head of the list of \<open>tp\<close>.\<close>

definition mtx_give :: "nat \<Rightarrow> tid \<Rightarrow> 'x kernel_scheme \<Rightarrow> 'x kernel_scheme" where
  "mtx_give mp tp s = (let s1 = set_owner mp (Some tp) s in
     set_mtxlist tp (mp # p_mtxlist (threads s1 tp)) s1)"

text \<open>
  The inheritance loop: \<open>tp\<close> is the owner of the mutex the step before waits for, \<open>p\<close> the priority of
  the locking thread. Every iteration raises one thread, so the number of threads bounds it.
\<close>

fun mtx_boost :: "nat \<Rightarrow> tprio \<Rightarrow> tid \<Rightarrow> 'x kernel_scheme \<Rightarrow> ('x, unit) kout" where
  "mtx_boost 0 p tp s = Fault"
| "mtx_boost (Suc n) p tp s =
     (if prio s tp < p then
        (let s1 = set_prio tp p s; q = wtobjp (p_u (threads s1 tp)) in
         case p_state (threads s1 tp) of
           THD_STATE_WTMTX \<Rightarrow>
             obind (dequeue q tp s1) (\<lambda>_ s2.
             let s3 = prio_insert tp q s2 in
             case q of
               QMtx m \<Rightarrow> (case m_owner s3 m of None \<Rightarrow> Fault | Some tp' \<Rightarrow> mtx_boost n p tp' s3)
             | _ \<Rightarrow> Fault)
         | THD_STATE_WTCOND \<Rightarrow> obind (dequeue q tp s1) (\<lambda>_ s2. Done () (prio_insert tp q s2))
         | THD_STATE_READY \<Rightarrow>
             obind (dequeue QReady tp s1) (\<lambda>_ s2. obind (chSchReadyI tp s2) (\<lambda>_ s3. Done () s3))
         | _ \<Rightarrow> Done () s1)
      else Done () s)"

definition chMtxLockS :: "nat \<Rightarrow> 'x kernel_scheme \<Rightarrow> ('x, unit) kout" where
  "chMtxLockS mp s =
     (let ctp = currp s in
      case m_owner s mp of
        Some tp \<Rightarrow>
          obind (mtx_boost (Suc (length (registry s))) (prio s ctp) tp s) (\<lambda>_ s1.
          chSchGoSleepS THD_STATE_WTMTX (set_wtobjp ctp (QMtx mp) (prio_insert ctp (QMtx mp) s1)))
      | None \<Rightarrow> Done () (mtx_give mp ctp s))"

definition chMtxLock :: "nat \<Rightarrow> 'x kernel_scheme \<Rightarrow> ('x, unit) kout" where
  "chMtxLock mp s = chMtxLockS mp s"

definition chMtxTryLockS :: "nat \<Rightarrow> 'x kernel_scheme \<Rightarrow> ('x, bool) kout" where
  "chMtxTryLockS mp s =
     (if m_owner s mp \<noteq> None then Done False s else Done True (mtx_give mp (currp s) s))"

definition chMtxTryLock :: "nat \<Rightarrow> 'x kernel_scheme \<Rightarrow> ('x, bool) kout" where
  "chMtxTryLock mp s = chMtxTryLockS mp s"

text \<open>The priority an owner falls back to: its own, or the highest that still waits on it.\<close>

primrec mtx_newprio :: "'x kernel_scheme \<Rightarrow> nat list \<Rightarrow> tprio \<Rightarrow> tprio" where
  "mtx_newprio s [] newprio = newprio"
| "mtx_newprio s (mp # mps) newprio =
     mtx_newprio s mps
       (if chMtxQueueNotEmptyS mp s \<and> firstprio (QMtx mp) s > newprio then firstprio (QMtx mp) s else newprio)"

definition chMtxUnlock :: "'x kernel_scheme \<Rightarrow> ('x, nat) kout" where
  "chMtxUnlock s =
     (let ctp = currp s in
      case p_mtxlist (threads s ctp) of
        [] \<Rightarrow> Fault
      | ump # rest \<Rightarrow>
          (let s1 = set_mtxlist ctp rest s in
           if chMtxQueueNotEmptyS ump s1 then
             (let newprio = mtx_newprio s1 rest (p_realprio (threads s1 ctp));
                  s2 = set_prio ctp newprio s1
              in obind (fifo_remove (QMtx ump) s2) (\<lambda>tp s3.
                 obind (chSchWakeupS tp RDY_OK (mtx_give ump tp s3)) (\<lambda>_ s4. Done ump s4)))
           else Done ump (set_owner ump None s1)))"

definition chMtxUnlockS :: "'x kernel_scheme \<Rightarrow> ('x, nat) kout" where
  "chMtxUnlockS s =
     (let ctp = currp s in
      case p_mtxlist (threads s ctp) of
        [] \<Rightarrow> Fault
      | ump # rest \<Rightarrow>
          (let s1 = set_mtxlist ctp rest s in
           if chMtxQueueNotEmptyS ump s1 then
             (let newprio = mtx_newprio s1 rest (p_realprio (threads s1 ctp));
                  s2 = set_prio ctp newprio s1
              in obind (fifo_remove (QMtx ump) s2) (\<lambda>tp s3.
                 obind (chSchReadyI tp (mtx_give ump tp s3)) (\<lambda>_ s4. Done ump s4)))
           else Done ump (set_owner ump None s1)))"

primrec mtx_unlock_loop :: "tid \<Rightarrow> nat list \<Rightarrow> 'x kernel_scheme \<Rightarrow> ('x, unit) kout" where
  "mtx_unlock_loop ctp [] s = Done () s"
| "mtx_unlock_loop ctp (ump # rest) s =
     (let s1 = set_mtxlist ctp rest s in
      obind (if chMtxQueueNotEmptyS ump s1 then
               obind (fifo_remove (QMtx ump) s1) (\<lambda>tp s2.
               obind (chSchReadyI tp (mtx_give ump tp s2)) (\<lambda>_ s3. Done () s3))
             else Done () (set_owner ump None s1))
        (\<lambda>_. mtx_unlock_loop ctp rest))"

definition chMtxUnlockAll :: "'x kernel_scheme \<Rightarrow> ('x, unit) kout" where
  "chMtxUnlockAll s =
     (let ctp = currp s in
      if p_mtxlist (threads s ctp) \<noteq> [] then
        obind (mtx_unlock_loop ctp (p_mtxlist (threads s ctp)) s) (\<lambda>_ s1.
        chSchRescheduleS (set_prio ctp (p_realprio (threads s1 ctp)) s1))
      else Done () s)"

section \<open>Invariant\<close>

lemma mtx_fields [simp]:
  "threads (set_owner mp o' s) = threads s" "tq (set_owner mp o' s) = tq s" "currp (set_owner mp o' s) = currp s"
  "registry (set_owner mp o' s) = registry s" "prio (set_owner mp o' s) = prio s"
  "m_owner (set_owner mp o' s) = (m_owner s)(mp := o')" "s_cnt (set_owner mp o' s) = s_cnt s"
  "threads (set_mtxlist t ms s) = (threads s)(t := (threads s t)\<lparr>p_mtxlist := ms\<rparr>)"
  "tq (set_mtxlist t ms s) = tq s" "currp (set_mtxlist t ms s) = currp s" "prio (set_mtxlist t ms s) = prio s"
  "registry (set_mtxlist t ms s) = registry s" "m_owner (set_mtxlist t ms s) = m_owner s"
  "s_cnt (set_mtxlist t ms s) = s_cnt s"
  "threads (set_prio t p s) = (threads s)(t := (threads s t)\<lparr>p_prio := p\<rparr>)"
  "tq (set_prio t p s) = tq s" "currp (set_prio t p s) = currp s" "prio (set_prio t p s) = (prio s)(t := p)"
  "registry (set_prio t p s) = registry s" "m_owner (set_prio t p s) = m_owner s"
  "s_cnt (set_prio t p s) = s_cnt s"
  by (auto simp: set_owner_def set_mtxlist_def set_prio_def prio_def)

lemma mtx_give_fields [simp]:
  "threads (mtx_give mp t s) = (threads s)(t := (threads s t)\<lparr>p_mtxlist := mp # p_mtxlist (threads s t)\<rparr>)"
  "tq (mtx_give mp t s) = tq s" "currp (mtx_give mp t s) = currp s" "prio (mtx_give mp t s) = prio s"
  "m_owner (mtx_give mp t s) = (m_owner s)(mp := Some t)" "registry (mtx_give mp t s) = registry s"
  "s_cnt (mtx_give mp t s) = s_cnt s"
  by (simp_all add: mtx_give_def)

text \<open>
  \<open>mtx_but p tp s\<close>: mutex queues are sorted by priority; a mutex is in the list of its owner and no
  other; an owner is alive; a waiting thread never has a priority above the owner's, except that
  \<open>tp\<close> may still have to be raised to \<open>p\<close>; a thread that waits for a mutex or a condition is linked.
\<close>

definition mtx_but :: "tprio \<Rightarrow> tid option \<Rightarrow> 'x kernel_scheme \<Rightarrow> bool" where
  "mtx_but p tp s \<longleftrightarrow>
     (\<forall>m. prio_sorted (prio s) (tq s (QMtx m))) \<and>
     (\<forall>m t. t \<in> set (tq s (QMtx m)) \<longrightarrow>
        (\<exists>u. m_owner s m = Some u \<and> (prio s t \<le> prio s u \<or> tp = Some u \<and> prio s t \<le> p))) \<and>
     (\<forall>m u. m_owner s m = Some u \<longleftrightarrow> m \<in> set (p_mtxlist (threads s u))) \<and>
     (\<forall>u. distinct (p_mtxlist (threads s u))) \<and>
     (\<forall>m u. m_owner s m = Some u \<longrightarrow> p_state (threads s u) \<noteq> THD_STATE_FINAL) \<and>
     (\<forall>u. p_state (threads s u) \<noteq> THD_STATE_FINAL \<longrightarrow>
        u \<in> set (registry s) \<and> 0 < p_realprio (threads s u) \<and> p_realprio (threads s u) \<le> prio s u) \<and>
     (\<forall>u. p_state (threads s u) \<in> {THD_STATE_WTMTX, THD_STATE_WTCOND} \<longrightarrow> (\<exists>q. u \<in> set (tq s q)))"

definition mtx_ok :: "'x kernel_scheme \<Rightarrow> bool" where
  "mtx_ok = mtx_but 0 None"

lemma mtx_butD:
  assumes "mtx_but p tp s"
  shows "prio_sorted (prio s) (tq s (QMtx m))"
    "t \<in> set (tq s (QMtx m)) \<Longrightarrow> \<exists>u. m_owner s m = Some u \<and> (prio s t \<le> prio s u \<or> tp = Some u \<and> prio s t \<le> p)"
    "m_owner s m = Some u \<longleftrightarrow> m \<in> set (p_mtxlist (threads s u))"
    "distinct (p_mtxlist (threads s u))"
    "m_owner s m = Some u \<Longrightarrow> p_state (threads s u) \<noteq> THD_STATE_FINAL"
    "p_state (threads s u) \<noteq> THD_STATE_FINAL \<Longrightarrow>
      u \<in> set (registry s) \<and> 0 < p_realprio (threads s u) \<and> p_realprio (threads s u) \<le> prio s u"
    "p_state (threads s u) \<in> {THD_STATE_WTMTX, THD_STATE_WTCOND} \<Longrightarrow> \<exists>q. u \<in> set (tq s q)"
proof -
  note c = assms[unfolded mtx_but_def]
  note d = c[THEN conjunct2] note e = d[THEN conjunct2] note f = e[THEN conjunct2] note g = f[THEN conjunct2]
  note h = g[THEN conjunct2]
  show "prio_sorted (prio s) (tq s (QMtx m))" using c[THEN conjunct1] by (rule spec)
  show "t \<in> set (tq s (QMtx m)) \<Longrightarrow> \<exists>u. m_owner s m = Some u \<and> (prio s t \<le> prio s u \<or> tp = Some u \<and> prio s t \<le> p)"
    by (rule d[THEN conjunct1, THEN spec, THEN spec, THEN mp])
  show "m_owner s m = Some u \<longleftrightarrow> m \<in> set (p_mtxlist (threads s u))"
    by (rule e[THEN conjunct1, THEN spec, THEN spec])
  show "distinct (p_mtxlist (threads s u))" by (rule f[THEN conjunct1, THEN spec])
  show "m_owner s m = Some u \<Longrightarrow> p_state (threads s u) \<noteq> THD_STATE_FINAL"
    by (rule g[THEN conjunct1, THEN spec, THEN spec, THEN mp])
  show "p_state (threads s u) \<noteq> THD_STATE_FINAL \<Longrightarrow>
      u \<in> set (registry s) \<and> 0 < p_realprio (threads s u) \<and> p_realprio (threads s u) \<le> prio s u"
    by (rule h[THEN conjunct1, THEN spec, THEN mp])
  show "p_state (threads s u) \<in> {THD_STATE_WTMTX, THD_STATE_WTCOND} \<Longrightarrow> \<exists>q. u \<in> set (tq s q)"
    by (rule h[THEN conjunct2, THEN spec, THEN mp])
qed

lemma mtx_butI:
  assumes "\<And>m. prio_sorted (prio s) (tq s (QMtx m))"
    "\<And>m t. t \<in> set (tq s (QMtx m)) \<Longrightarrow> \<exists>u. m_owner s m = Some u \<and> (prio s t \<le> prio s u \<or> tp = Some u \<and> prio s t \<le> p)"
    "\<And>m u. m_owner s m = Some u \<longleftrightarrow> m \<in> set (p_mtxlist (threads s u))"
    "\<And>u. distinct (p_mtxlist (threads s u))"
    "\<And>m u. m_owner s m = Some u \<Longrightarrow> p_state (threads s u) \<noteq> THD_STATE_FINAL"
    "\<And>u. p_state (threads s u) \<noteq> THD_STATE_FINAL \<Longrightarrow> u \<in> set (registry s)"
    "\<And>u. p_state (threads s u) \<noteq> THD_STATE_FINAL \<Longrightarrow> 0 < p_realprio (threads s u)"
    "\<And>u. p_state (threads s u) \<noteq> THD_STATE_FINAL \<Longrightarrow> p_realprio (threads s u) \<le> prio s u"
    "\<And>u. p_state (threads s u) \<in> {THD_STATE_WTMTX, THD_STATE_WTCOND} \<Longrightarrow> \<exists>q. u \<in> set (tq s q)"
  shows "mtx_but p tp s"
  unfolding mtx_but_def by (intro conjI allI impI; rule assms; assumption)

lemma mtx_but_weaken:
  assumes "mtx_but p tp s"
    "\<And>m t u. t \<in> set (tq s (QMtx m)) \<Longrightarrow> prio s t \<le> prio s u \<or> tp = Some u \<and> prio s t \<le> p \<Longrightarrow>
       prio s t \<le> prio s u \<or> tp' = Some u \<and> prio s t \<le> p'"
  shows "mtx_but p' tp' s"
proof -
  note M = mtx_butD[OF assms(1)]
  have "\<exists>u. m_owner s m = Some u \<and> (prio s t \<le> prio s u \<or> tp' = Some u \<and> prio s t \<le> p')"
    if "t \<in> set (tq s (QMtx m))" for m t
    using M(2)[OF that] assms(2)[OF that] by blast
  note E = this
  show ?thesis
  proof (rule mtx_butI)
    show "t \<in> set (tq s (QMtx m)) \<Longrightarrow> \<exists>u. m_owner s m = Some u \<and> (prio s t \<le> prio s u \<or> tp' = Some u \<and> prio s t \<le> p')"
      for m t by (rule E)
      show "\<exists>q. u \<in> set (tq s q)" if "p_state (threads s u) \<in> {THD_STATE_WTMTX, THD_STATE_WTCOND}" for u
      by (rule M(7)[OF that])
  qed (use M(1,3-6) in simp_all)
qed

lemma mtx_ok_but: "mtx_ok s \<Longrightarrow> mtx_but p tp s"
  unfolding mtx_ok_def by (erule mtx_but_weaken) simp

lemma mtx_but_done: "mtx_but p (Some tp) s \<Longrightarrow> p \<le> prio s tp \<Longrightarrow> mtx_ok s"
  unfolding mtx_ok_def by (erule mtx_but_weaken) auto

text \<open>Raising \<open>tp\<close> and moving it to its new place in the mutex queue it waits in.\<close>

lemma sched_reprio:
  assumes "sched_inv s" "t \<notin> set (tq s QReady)" "0 < p"
  shows "sched_inv (set_prio t p s)"
proof (rule sched_butI)
  note D = sched_butD[OF assms(1), simplified]
  have q: "queued_as q (th\<lparr>p_prio := x\<rparr>) = queued_as q th" for q th x by (cases q) auto
  show "prio_sorted (prio (set_prio t p s)) (tq (set_prio t p s) QReady)"
    using D(2) assms(2) prio_sorted_cong[of "tq s QReady" "prio s" "(prio s)(t := p)"] by force
  show "u \<in> set (tq (set_prio t p s) q') \<longleftrightarrow> queued_as q' (threads (set_prio t p s) u)" for q' u
    using D(3)[of u q'] q by auto
qed (use sched_butD[OF assms(1)] assms(3) in \<open>auto split: if_splits\<close>)

lemma sched_requeue:
  assumes "sched_inv s" "set xs = set (tq s q)" "distinct xs" "q \<noteq> QReady"
  shows "sched_inv (set_tq q xs s)"
  using assms unfolding sched_but_def by auto

definition mtx_moved :: "tprio \<Rightarrow> tid \<Rightarrow> qid \<Rightarrow> 'x kernel_scheme \<Rightarrow> 'x kernel_scheme" where
  "mtx_moved p t q s = set_tq q (ins_behind ((prio s)(t := p)) t (remove1 t (tq s q))) (set_prio t p s)"

lemma mtx_moved_fields [simp]:
  "threads (mtx_moved p t q s) = (threads s)(t := (threads s t)\<lparr>p_prio := p\<rparr>)"
  "tq (mtx_moved p t q s) = (tq s)(q := ins_behind ((prio s)(t := p)) t (remove1 t (tq s q)))"
  "currp (mtx_moved p t q s) = currp s" "prio (mtx_moved p t q s) = (prio s)(t := p)"
  "registry (mtx_moved p t q s) = registry s" "m_owner (mtx_moved p t q s) = m_owner s"
  "s_cnt (mtx_moved p t q s) = s_cnt s"
  by (simp_all add: mtx_moved_def)

lemma moved_dequeue:
  "t \<in> set (tq s q) \<Longrightarrow> dequeue q t (set_prio t p s) = Done t (set_tq q (remove1 t (tq s q)) (set_prio t p s))"
  "prio_insert t q (set_tq q (remove1 t (tq s q)) (set_prio t p s)) = mtx_moved p t q s"
  by (simp_all add: dequeue_def prio_insert_def mtx_moved_def set_tq_twice)

lemma moved_sched:
  assumes "sched_inv s" "t \<in> set (tq s q)" "0 < p"
  shows "sched_inv (mtx_moved p t q s)"
proof (cases "q = QReady")
  case False
  have d: "distinct (tq s q)" by (rule sched_butD(1)[OF assms(1)])
  have "t \<notin> set (tq s QReady)"
    using assms(2) False sched_butD(3)[OF assms(1), of t] queued_as_unique by (metis empty_iff)
  note R = sched_reprio[OF assms(1) this assms(3)]
  show ?thesis unfolding mtx_moved_def
    by (rule sched_requeue[OF R _ _ False]) (use d assms(2) in auto)
next
  case True
  have d: "distinct (tq s q)" by (rule sched_butD(1)[OF assms(1)])
  have nt: "t \<notin> set (remove1 t (tq s q))" using d by simp
  have st: "prio_sorted ((prio s)(t := p)) (remove1 t (tq s q))"
    using prio_sorted_remove1[OF sched_butD(2)[OF assms(1)], of t] True nt
      prio_sorted_cong[of "remove1 t (tq s q)" "prio s" "(prio s)(t := p)"] by force
  have qq: "queued_as q (th\<lparr>p_prio := x\<rparr>) = queued_as q th" for q th x by (cases q) auto
  show ?thesis
  proof (rule sched_butI)
    note D = sched_butD[OF assms(1), simplified]
    show "u \<in> set (tq (mtx_moved p t q s) q') \<longleftrightarrow> queued_as q' (threads (mtx_moved p t q s) u)" for q' u
      using D(3)[of u q'] assms(2) True d qq by auto
    show "prio_sorted (prio (mtx_moved p t q s)) (tq (mtx_moved p t q s) QReady)"
      using st True by (simp add: prio_sorted_ins_behind)
    show "distinct (tq (mtx_moved p t q s) q')" for q' using D(1)[of q'] d nt by simp
  qed (use sched_butD[OF assms(1)] assms(3) in \<open>auto split: if_splits\<close>)
qed

text \<open>
  One step of the loop: \<open>tp\<close> has the priority \<open>p\<close> and only the owner of the mutex it waits for may be
  below.
\<close>

definition mtx_next :: "tid \<Rightarrow> 'x kernel_scheme \<Rightarrow> tid option" where
  "mtx_next t s = (if p_state (threads s t) = THD_STATE_WTMTX
     then (case wtobjp (p_u (threads s t)) of QMtx m \<Rightarrow> m_owner s m | _ \<Rightarrow> None) else None)"

lemma moved_mtx:
  assumes "sched_inv s" "mtx_but p (Some t) s" "t \<in> set (tq s q)" "prio s t < p"
  shows "mtx_but p (case q of QMtx m \<Rightarrow> m_owner s m | _ \<Rightarrow> None) (mtx_moved p t q s)"
proof -
  note M = mtx_butD[OF assms(2)]
  let ?s = "mtx_moved p t q s"
  let ?o = "case q of QMtx m \<Rightarrow> m_owner s m | _ \<Rightarrow> None"
  have d: "distinct (tq s q')" for q' by (rule sched_butD(1)[OF assms(1)])
  have one: "t \<in> set (tq s q') \<longleftrightarrow> q' = q" for q'
    using sched_butD(3)[OF assms(1), of t] queued_as_unique assms(3) by (metis empty_iff)
  have st: "prio_sorted (prio ?s) (tq ?s (QMtx m))" for m
  proof (cases "q = QMtx m")
    case True
    have "prio_sorted ((prio s)(t := p)) (remove1 t (tq s q))"
      using prio_sorted_remove1[OF M(1)[of m], of t] True d[of q]
        prio_sorted_cong[of "remove1 t (tq s q)" "prio s" "(prio s)(t := p)"] by force
    then show ?thesis using True by (simp add: prio_sorted_ins_behind)
  next
    case False
    then show ?thesis using M(1)[of m] one[of "QMtx m"] prio_sorted_cong[of "tq s (QMtx m)" "prio s" "(prio s)(t := p)"]
      by force
  qed
  have edge: "\<exists>u. m_owner ?s m = Some u \<and> (prio ?s v \<le> prio ?s u \<or> ?o = Some u \<and> prio ?s v \<le> p)"
    if v: "v \<in> set (tq ?s (QMtx m))" for m v
  proof -
    have v': "v \<in> set (tq s (QMtx m))" using v assms(3) d[of q] by (auto split: if_splits)
    from M(2)[OF v'] obtain u where u: "m_owner s m = Some u" "prio s v \<le> prio s u \<or> u = t \<and> prio s v \<le> p" by auto
    show ?thesis
    proof (cases "v = t")
      case True
      then have "q = QMtx m" using one v' by simp
      then show ?thesis using u(1) True by auto
    next
      case False
      then show ?thesis using u assms(4) by (cases "u = t") auto
    qed
  qed
  show ?thesis
  proof (rule mtx_butI)
    show "prio_sorted (prio ?s) (tq ?s (QMtx m))" for m by (rule st)
    show "\<exists>u. m_owner ?s m = Some u \<and> (prio ?s v \<le> prio ?s u \<or> ?o = Some u \<and> prio ?s v \<le> p)"
      if "v \<in> set (tq ?s (QMtx m))" for m v by (rule edge[OF that])
    show "m_owner ?s m = Some u \<longleftrightarrow> m \<in> set (p_mtxlist (threads ?s u))" for m u using M(3) by auto
    show "distinct (p_mtxlist (threads ?s u))" for u using M(4) by auto
    show "p_state (threads ?s u) \<noteq> THD_STATE_FINAL" if "m_owner ?s m = Some u" for m u
      using M(5) that by auto
    show "u \<in> set (registry ?s)" if "p_state (threads ?s u) \<noteq> THD_STATE_FINAL" for u
      using M(6)[of u] that by (auto split: if_splits)
    show "0 < p_realprio (threads ?s u)" if "p_state (threads ?s u) \<noteq> THD_STATE_FINAL" for u
      using M(6)[of u] that by (auto split: if_splits)
    show "p_realprio (threads ?s u) \<le> prio ?s u" if "p_state (threads ?s u) \<noteq> THD_STATE_FINAL" for u
      using M(6)[of u] that assms(4) by (auto split: if_splits)
    show "\<exists>q'. u \<in> set (tq ?s q')" if "p_state (threads ?s u) \<in> {THD_STATE_WTMTX, THD_STATE_WTCOND}" for u
    proof -
      have "\<exists>q'. u \<in> set (tq s q')" using M(7)[of u] that by (auto split: if_splits)
      then obtain q' where "u \<in> set (tq s q')" by blast
      then have "u \<in> set (tq ?s q')" using d[of q] assms(3) by auto
      then show ?thesis by blast
    qed
  qed
qed

text \<open>Raising a thread that waits in no queue.\<close>

lemma raised_mtx:
  assumes "mtx_but p (Some t) s" "\<And>m. t \<notin> set (tq s (QMtx m))" "prio s t < p"
  shows "mtx_ok (set_prio t p s)"
proof -
  note M = mtx_butD[OF assms(1)]
  let ?s = "set_prio t p s"
  have e: "prio_sorted (prio ?s) (tq ?s (QMtx m))" for m
    using M(1)[of m] assms(2)[of m] prio_sorted_cong[of "tq s (QMtx m)" "prio s" "(prio s)(t := p)"] by force
  have f: "\<exists>u. m_owner ?s m = Some u \<and> prio ?s v \<le> prio ?s u" if "v \<in> set (tq ?s (QMtx m))" for m v
    using M(2)[of v m] that assms(2,3) by fastforce
  have g: "u \<in> set (registry s) \<and> 0 < p_realprio (threads ?s u) \<and> p_realprio (threads ?s u) \<le> prio ?s u"
    if "p_state (threads ?s u) \<noteq> THD_STATE_FINAL" for u
    using M(6)[of u] that assms(3) by (auto split: if_splits)
  show ?thesis
    unfolding mtx_ok_def
  proof (rule mtx_butI)
    show "\<exists>u. m_owner ?s m = Some u \<and> (prio ?s v \<le> prio ?s u \<or> None = Some u \<and> prio ?s v \<le> 0)"
      if "v \<in> set (tq ?s (QMtx m))" for m v using f[OF that] by simp
    show "m_owner ?s m = Some u \<longleftrightarrow> m \<in> set (p_mtxlist (threads ?s u))" for m u using M(3) by auto
    show "distinct (p_mtxlist (threads ?s u))" for u using M(4) by auto
    show "p_state (threads ?s u) \<noteq> THD_STATE_FINAL" if "m_owner ?s m = Some u" for m u using M(5) that by auto
    show "\<exists>q. u \<in> set (tq ?s q)" if "p_state (threads ?s u) \<in> {THD_STATE_WTMTX, THD_STATE_WTCOND}" for u
      using M(7)[of u] that by (auto split: if_splits)
  qed (use e g in simp_all)
qed

definition low_threads :: "'x kernel_scheme \<Rightarrow> tprio \<Rightarrow> tid set" where
  "low_threads s p = {u \<in> set (registry s). prio s u < p}"

lemma finite_low [simp]: "finite (low_threads s p)"
  by (simp add: low_threads_def)

definition mtx_same :: "tprio \<Rightarrow> 'x kernel_scheme \<Rightarrow> 'x kernel_scheme \<Rightarrow> bool" where
  "mtx_same p s s' \<longleftrightarrow> currp s' = currp s \<and> registry s' = registry s \<and> m_owner s' = m_owner s \<and> s_cnt s' = s_cnt s \<and>
     (\<forall>q. set (tq s' q) = set (tq s q)) \<and> (\<forall>n. tq s' (QSem n) = tq s (QSem n)) \<and>
     (\<forall>u. prio s' u = prio s u \<or> prio s u < p \<and> prio s' u = p) \<and> (\<forall>u. p_mtxlist (threads s' u) = p_mtxlist (threads s u) \<and>
       p_realprio (threads s' u) = p_realprio (threads s u) \<and> p_state (threads s' u) = p_state (threads s u))"

lemma mtx_same_refl [simp]: "mtx_same p s s"
  by (simp add: mtx_same_def)

lemma mtx_same_trans: "mtx_same p s s' \<Longrightarrow> mtx_same p s' s'' \<Longrightarrow> mtx_same p s s''"
  unfolding mtx_same_def by (intro conjI allI) (metis less_irrefl)+

lemma moved_same: "prio s t < p \<Longrightarrow> t \<in> set (tq s q) \<Longrightarrow> \<forall>n. q \<noteq> QSem n \<Longrightarrow> distinct (tq s q) \<Longrightarrow>
    mtx_same p s (mtx_moved p t q s)"
  by (auto simp: mtx_same_def)

lemma boost:
  assumes "sched_inv s" "mtx_but p (Some tp) s" "0 < p" "card (low_threads s p) < n" "m_owner s m0 = Some tp"
  shows "\<exists>s'. mtx_boost n p tp s = Done () s' \<and> sched_inv s' \<and> mtx_ok s' \<and> mtx_same p s s' \<and> p \<le> prio s' tp"
  using assms
proof (induction n arbitrary: tp s m0)
  case (Suc n)
  note M = mtx_butD[OF Suc(3)]
  show ?case
  proof (cases "prio s tp < p")
    case False
    then show ?thesis using Suc(2) mtx_but_done[OF Suc(3)] by (intro exI[of _ s]) simp
  next
    case True
    have live: "p_state (threads s tp) \<noteq> THD_STATE_FINAL" using M(5) Suc(6) by blast
    have low: "tp \<in> low_threads s p" using M(6)[OF live] True by (simp add: low_threads_def)
    have d: "distinct (tq s q)" for q by (rule sched_butD(1)[OF Suc(2)])
    have nq: "tp \<in> set (tq s q) \<longleftrightarrow> queued_as q (threads s tp)" for q by (rule sched_butD(3)[OF Suc(2)]) simp
    have same0: "mtx_same p s (set_prio tp p s)" using True by (simp add: mtx_same_def)
    show ?thesis
    proof (cases "p_state (threads s tp) \<in> {THD_STATE_WTMTX, THD_STATE_WTCOND}")
      case wt: True
      from M(7)[OF wt] obtain q where q: "tp \<in> set (tq s q)" by blast
      then have qa: "queued_as q (threads s tp)" using nq by simp
      have nsem: "\<forall>n. q \<noteq> QSem n" using qa wt by auto
      note S = moved_sched[OF Suc(2) q Suc(4)] and Mt = moved_mtx[OF Suc(2,3) q True]
        and Sm = moved_same[OF True q nsem d]
      show ?thesis
      proof (cases "p_state (threads s tp) = THD_STATE_WTMTX")
        case True
        then obtain m where m: "q = QMtx m" "p_u (threads s tp) = UObj (QMtx m)" using qa by (cases q) auto
        from M(2)[of tp m] q m obtain o' where o': "m_owner s m = Some o'" by auto
        let ?s = "mtx_moved p tp q s"
        have "low_threads ?s p = low_threads s p - {tp}" by (auto simp: low_threads_def)
        then have "card (low_threads ?s p) < n" using card_Diff1_less[OF finite_low low] Suc(5) by simp
        moreover have "mtx_but p (Some o') ?s" using Mt m o' by simp
        ultimately obtain s' where s': "mtx_boost n p o' ?s = Done () s'" "sched_inv s'" "mtx_ok s'"
          "mtx_same p ?s s'" using Suc(1)[OF S _ Suc(4), of o' m] o' by auto
        have "mtx_boost (Suc n) p tp s = mtx_boost n p o' ?s"
          using \<open>prio s tp < p\<close> True m o' q moved_dequeue(1)[OF q, of p] moved_dequeue(2)[of tp q s p] by (simp add: Let_def)
        moreover have "p \<le> prio s' tp" using s'(4) by (auto simp: mtx_same_def dest: spec[of _ tp])
        ultimately show ?thesis using s' mtx_same_trans[OF Sm s'(4)] by auto
      next
        case False
        then have st: "p_state (threads s tp) = THD_STATE_WTCOND" using wt by simp
        then obtain m where m: "q = QCond m" "p_u (threads s tp) = UObj (QCond m)" using qa by (cases q) auto
        have "mtx_boost (Suc n) p tp s = Done () (mtx_moved p tp q s)"
          using \<open>prio s tp < p\<close> st m q moved_dequeue(1)[OF q, of p] moved_dequeue(2)[of tp q s p] by (simp add: Let_def)
        moreover have "mtx_ok (mtx_moved p tp q s)"
          using Mt m by (simp add: mtx_ok_def) (erule mtx_but_weaken, simp)
        ultimately show ?thesis using S Sm by auto
      qed
    next
      case nwt: False
      have nm: "tp \<notin> set (tq s (QMtx m))" for m using nq[of "QMtx m"] nwt by simp
      show ?thesis
      proof (cases "p_state (threads s tp) = THD_STATE_READY")
        case rdy: True
        then have q: "tp \<in> set (tq s QReady)" using nq[of QReady] by simp
        let ?s = "mtx_moved p tp QReady s"
        have "ready_put tp (set_tq QReady (remove1 tp (tq s QReady)) (set_prio tp p s)) = ?s"
          using rdy by (intro kernel.equality) (auto simp: mtx_moved_def ready_put_def)
        then have e: "mtx_boost (Suc n) p tp s = Done () ?s"
          using True Suc(4) rdy moved_dequeue(1)[OF q, of p] by (simp add: Let_def chSchReadyI_eq)
        have "mtx_ok ?s" using moved_mtx[OF Suc(2,3) q True]
          by (simp add: mtx_ok_def) (erule mtx_but_weaken, simp)
        then show ?thesis using e moved_sched[OF Suc(2) q Suc(4)] moved_same[OF True q _ d] by auto
      next
        case False
        then have "mtx_boost (Suc n) p tp s = Done () (set_prio tp p s)"
          using True nwt by (cases "p_state (threads s tp)") (simp_all add: Let_def)
        moreover have "sched_inv (set_prio tp p s)"
          by (rule sched_reprio[OF Suc(2) _ Suc(4)]) (use nq[of QReady] False in simp)
        ultimately show ?thesis using raised_mtx[OF Suc(3) nm True] same0 by auto
      qed
    qed
  qed
qed simp

declare mtx_boost.simps(2) [simp del]

section \<open>Locking\<close>

lemma enough_fuel: "card (low_threads s p) < Suc (length (registry s))"
proof -
  have "card (low_threads s p) \<le> card (set (registry s))" by (rule card_mono) (auto simp: low_threads_def)
  then show ?thesis using card_length[of "registry s"] by simp
qed

lemma mtx_lock_free:
  assumes "m_owner s mp = None"
  shows "chMtxLock mp s = Done () (mtx_give mp (currp s) s)"
  using assms by (simp add: chMtxLock_def chMtxLockS_def)

lemma mtx_give_ok:
  assumes "mtx_ok s" "m_owner s mp = None" "p_state (threads s t) \<noteq> THD_STATE_FINAL"
  shows "mtx_ok (mtx_give mp t s)"
  unfolding mtx_ok_def
proof (rule mtx_butI)
  note M = mtx_butD[OF assms(1)[unfolded mtx_ok_def]]
  let ?s = "mtx_give mp t s"
  have no: "tq s (QMtx mp) = []" using M(2)[of _ mp] assms(2) by (cases "tq s (QMtx mp)") auto
  show "\<exists>u. m_owner ?s m = Some u \<and> (prio ?s v \<le> prio ?s u \<or> None = Some u \<and> prio ?s v \<le> 0)"
    if "v \<in> set (tq ?s (QMtx m))" for m v
    using M(2)[of v m] that no by (cases "m = mp") auto
  have nl: "mp \<notin> set (p_mtxlist (threads s u))" for u using M(3)[of mp u] assms(2) by simp
  show "m_owner ?s m = Some u \<longleftrightarrow> m \<in> set (p_mtxlist (threads ?s u))" for m u
    using M(3)[of m u] nl by auto
  show "distinct (p_mtxlist (threads ?s u))" for u using M(4) nl by auto
  show "p_state (threads ?s u) \<noteq> THD_STATE_FINAL" if "m_owner ?s m = Some u" for m u
    using M(5)[of m u] that assms(3) by (auto split: if_splits)
  show "\<exists>q. u \<in> set (tq ?s q)" if "p_state (threads ?s u) \<in> {THD_STATE_WTMTX, THD_STATE_WTCOND}" for u
    using M(7)[of u] that by (auto split: if_splits)
qed (use mtx_butD(1,6)[OF assms(1)[unfolded mtx_ok_def]] in \<open>auto split: if_splits\<close>)

lemma mtx_lock_block:
  assumes "sched_inv s" "mtx_ok s" "currp s \<noteq> idle_tid" "m_owner s mp = Some own"
  shows "\<exists>s'. chMtxLock mp s = chSysSwitch s' \<and> sched_inv s' \<and> mtx_ok s' \<and> top_running s' \<and>
    currp s \<in> set (tq s' (QMtx mp)) \<and> m_owner s' = m_owner s \<and> prio s (currp s) \<le> prio s' own \<and>
    prio s' (currp s) = prio s (currp s) \<and> (\<forall>u. prio s u \<le> prio s' u)"
proof -
  let ?me = "currp s"
  let ?p = "prio s ?me"
  note C = sched_inv_current[OF assms(1)]
  from boost[OF assms(1) mtx_ok_but[OF assms(2)] C(3) enough_fuel assms(4)] obtain s1 where
    b: "mtx_boost (Suc (length (registry s))) ?p own s = Done () s1" and s1: "sched_inv s1" "mtx_ok s1"
      "mtx_same ?p s s1" "?p \<le> prio s1 own" by blast
  have c1: "currp s1 = ?me" "m_owner s1 = m_owner s" and pr: "prio s u \<le> prio s1 u" "prio s1 ?me = ?p" for u
    using s1(3) by (auto simp: mtx_same_def dest: spec[of _ u] spec[of _ ?me])
  let ?q = "QMtx mp"
  let ?xs = "ins_behind (prio s1) ?me (tq s1 ?q)"
  have lo: "?me \<notin> set (tq s1 q)" for q using sched_inv_current(2)[OF s1(1)] c1 by (simp add: loose_def)
  have xs: "set ?xs = insert (currp s1) (set (tq s1 ?q))" "distinct ?xs"
    using lo sched_butD(1)[OF s1(1)] c1 by simp_all
  have idl: "currp s1 \<noteq> idle_tid" "?q \<noteq> QReady" using assms(3) c1 by simp_all
  note B = block_on[OF s1(1) idl xs]
  let ?s' = "asleep (wait_state ?q) (set_tq ?q ?xs (set_wtobjp (currp s1) ?q s1))"
  have e: "chMtxLock mp s = chSysSwitch ?s'"
    using b B(1) c1 assms(4) by (simp add: chMtxLock_def chMtxLockS_def prio_insert_def upd_set_tq Let_def)
  have ths: "p_mtxlist (threads ?s' u) = p_mtxlist (threads s1 u)" "p_realprio (threads ?s' u) = p_realprio (threads s1 u)"
    "p_state (threads ?s' u) \<noteq> THD_STATE_FINAL \<longleftrightarrow> u = hd (tq s1 QReady) \<or> u = ?me \<or> p_state (threads s1 u) \<noteq> THD_STATE_FINAL"
    "p_state (threads ?s' u) \<in> {THD_STATE_WTMTX, THD_STATE_WTCOND} \<Longrightarrow> u = ?me \<or> u \<noteq> hd (tq s1 QReady) \<and>
      p_state (threads s1 u) \<in> {THD_STATE_WTMTX, THD_STATE_WTCOND}" for u
    using c1 by (auto simp: asleep_def split: if_splits)
  have hd: "hd (tq s1 QReady) \<in> set (tq s1 QReady)"
    by (rule hd_in_set[OF ready_nonempty[OF sched_inv_current(4)[OF s1(1)] idl(1)]])
  have hdr: "p_state (threads s1 (hd (tq s1 QReady))) = THD_STATE_READY"
    using sched_butD(3)[OF s1(1), of "hd (tq s1 QReady)" QReady] hd by simp
  have me: "p_state (threads s1 ?me) = THD_STATE_CURRENT" using sched_inv_current(1)[OF s1(1)] c1 by simp
  have rg: "registry ?s' = registry s1" "m_owner ?s' = m_owner s1"
    by simp_all
  have "mtx_ok ?s'"
    unfolding mtx_ok_def
  proof (rule mtx_butI)
    note M = mtx_butD[OF s1(2)[unfolded mtx_ok_def]]
    show "prio_sorted (prio ?s') (tq ?s' (QMtx m))" for m using M(1) by (auto intro: prio_sorted_ins_behind)
    show "\<exists>u. m_owner ?s' m = Some u \<and> (prio ?s' v \<le> prio ?s' u \<or> None = Some u \<and> prio ?s' v \<le> 0)"
      if "v \<in> set (tq ?s' (QMtx m))" for m v
      using M(2)[of v m] that rg assms(4) c1 s1(4) pr(2) by (auto split: if_splits)
    show "m_owner ?s' m = Some u \<longleftrightarrow> m \<in> set (p_mtxlist (threads ?s' u))" for m u
      unfolding rg ths using M(3) by simp
    show "distinct (p_mtxlist (threads ?s' u))" for u unfolding ths by (rule M(4))
    show "p_state (threads ?s' u) \<noteq> THD_STATE_FINAL" if "m_owner ?s' m = Some u" for m u
      unfolding ths using M(5)[of m u] that rg by simp
    show "u \<in> set (registry ?s')" "0 < p_realprio (threads ?s' u)" "p_realprio (threads ?s' u) \<le> prio ?s' u"
      if "p_state (threads ?s' u) \<noteq> THD_STATE_FINAL" for u
      unfolding rg ths using M(6)[of u] that hdr me unfolding ths by auto
    show "\<exists>q. u \<in> set (tq ?s' q)" if a: "p_state (threads ?s' u) \<in> {THD_STATE_WTMTX, THD_STATE_WTCOND}" for u
    proof (cases "u = ?me")
      case True
      then have "u \<in> set (tq ?s' ?q)" using c1 by simp
      then show ?thesis by blast
    next
      case False
      then have w: "p_state (threads s1 u) \<in> {THD_STATE_WTMTX, THD_STATE_WTCOND}" using ths(4)[OF a] by simp
      from M(7)[OF this] obtain q where q: "u \<in> set (tq s1 q)" by blast
      then have "q \<noteq> QReady" using w sched_butD(3)[OF s1(1), of u q] by auto
      then have "u \<in> set (tq ?s' q)" using q by auto
      then show ?thesis by blast
    qed
  qed
  then show ?thesis
    using e B(2,3) c1 pr s1(4) rg by (intro exI[of _ ?s']) auto
qed

section \<open>Unlocking\<close>

text \<open>The priority fallen back to covers the owner's own and every waiter that is left.\<close>

lemma newprio_ge: "p \<le> mtx_newprio s ms p"
proof (induction ms arbitrary: p)
  case (Cons m ms)
  show ?case using Cons[of "if chMtxQueueNotEmptyS m s \<and> firstprio (QMtx m) s > p then firstprio (QMtx m) s else p"]
    by (auto split: if_splits)
qed simp

lemma newprio_covers:
  assumes "\<And>m. prio_sorted (prio s) (tq s (QMtx m))"
  shows "m \<in> set ms \<Longrightarrow> t \<in> set (tq s (QMtx m)) \<Longrightarrow> prio s t \<le> mtx_newprio s ms p"
proof (induction ms arbitrary: p)
  case (Cons k ms)
  let ?p = "if chMtxQueueNotEmptyS k s \<and> firstprio (QMtx k) s > p then firstprio (QMtx k) s else p"
  show ?case
  proof (cases "m = k")
    case True
    have "prio s t \<le> ?p" using Cons(3) True assms[of k]
      by (cases "tq s (QMtx k)") (auto simp: chMtxQueueNotEmptyS_def notempty_def firstprio_def)
    also have "?p \<le> mtx_newprio s ms ?p" by (rule newprio_ge)
    finally show ?thesis by simp
  next
    case False
    then show ?thesis using Cons(1)[of ?p] Cons(2,3) by simp
  qed
qed simp

text \<open>It is no higher than needed.\<close>

lemma newprio_exact:
  "mtx_newprio s ms p = p \<or> (\<exists>m\<in>set ms. tq s (QMtx m) \<noteq> [] \<and> mtx_newprio s ms p = prio s (hd (tq s (QMtx m))))"
proof (induction ms arbitrary: p)
  case (Cons k ms)
  let ?p = "if chMtxQueueNotEmptyS k s \<and> firstprio (QMtx k) s > p then firstprio (QMtx k) s else p"
  have "?p = p \<or> tq s (QMtx k) \<noteq> [] \<and> ?p = prio s (hd (tq s (QMtx k)))"
    by (cases "tq s (QMtx k)") (auto simp: firstprio_def chMtxQueueNotEmptyS_def notempty_def)
  then show ?case using Cons[of ?p] by auto
qed simp

text \<open>The state after the hand-over of \<open>ump\<close> to \<open>t\<close>, before \<open>t\<close> is made ready.\<close>

definition handed :: "nat \<Rightarrow> nat list \<Rightarrow> tid \<Rightarrow> tid list \<Rightarrow> 'x kernel_scheme \<Rightarrow> 'x kernel_scheme" where
  "handed ump rest t ts s = mtx_give ump t (set_tq (QMtx ump) ts
     (set_prio (currp s) (mtx_newprio (set_mtxlist (currp s) rest s) rest (p_realprio (cur s)))
       (set_mtxlist (currp s) rest s)))"

lemma mtx_newprio_cong: "tq s = tq s' \<Longrightarrow> prio s = prio s' \<Longrightarrow> mtx_newprio s ms p = mtx_newprio s' ms p"
  by (induction ms arbitrary: p) (simp_all add: chMtxQueueNotEmptyS_def notempty_def firstprio_def split: list.split)

definition fallback :: "'x kernel_scheme \<Rightarrow> tprio" where
  "fallback s = mtx_newprio s (tl (p_mtxlist (cur s))) (p_realprio (cur s))"

lemma handed_inv:
  assumes "sched_inv s" "mtx_ok s" "p_mtxlist (cur s) = ump # rest" "tq s (QMtx ump) = t # ts"
  shows "sched_but {t} (handed ump rest t ts s)" "loose t (handed ump rest t ts s)" "t \<noteq> currp s"
    "mtx_ok (ready_put t (handed ump rest t ts s))"
    "prio (handed ump rest t ts s) = (prio s)(currp s := fallback s)" "0 < fallback s"
    "m_owner (handed ump rest t ts s) = (m_owner s)(ump := Some t)" "currp (handed ump rest t ts s) = currp s"
    "tq (handed ump rest t ts s) = (tq s)(QMtx ump := ts)"
proof -
  note M = mtx_butD[OF assms(2)[unfolded mtx_ok_def]]
  note C = sched_inv_current[OF assms(1)]
  let ?me = "currp s"
  let ?h = "handed ump rest t ts s"
  have fb: "mtx_newprio (set_mtxlist ?me rest s) rest (p_realprio (cur s)) = fallback s"
    unfolding fallback_def assms(3) list.sel by (rule mtx_newprio_cong) simp_all
  show pr: "prio ?h = (prio s)(?me := fallback s)" and c: "currp ?h = ?me" and q: "tq ?h = (tq s)(QMtx ump := ts)"
    and ow: "m_owner ?h = (m_owner s)(ump := Some t)"
    by (simp_all add: handed_def fb)
  have live: "p_state (cur s) \<noteq> THD_STATE_FINAL" using C(1) by simp
  have real: "0 < p_realprio (cur s)" "p_realprio (cur s) \<le> fallback s"
    using M(6)[OF live] newprio_ge[of "p_realprio (cur s)" s "tl (p_mtxlist (cur s))"] by (simp_all add: fallback_def)
  then show pos: "0 < fallback s" by simp
  have U: "sched_but {t} (set_tq (QMtx ump) ts s)" "loose t (set_tq (QMtx ump) ts s)" "t \<noteq> ?me"
    "p_state (threads s t) = THD_STATE_WTMTX" "0 < prio s t"
    using unqueue_head_inv[OF assms(1,4)] by simp_all
  then show tc: "t \<noteq> ?me" by simp
  show "loose t ?h" using U(2) q by (simp add: loose_def)
  have dts: "t \<notin> set ts" "distinct ts" using sched_butD(1)[OF assms(1), of "QMtx ump"] assms(4) by simp_all
  have meq: "?me \<notin> set (tq s q)" for q using C(2) by (simp add: loose_def)
  have th: "threads ?h u = (threads s u)\<lparr>
      p_prio := (if u = ?me then fallback s else p_prio (threads s u)),
      p_mtxlist := (if u = t then ump # p_mtxlist (threads s u) else if u = ?me then rest else p_mtxlist (threads s u))\<rparr>" for u
    using tc fb by (simp add: handed_def)
  have qa: "queued_as q (th\<lparr>p_prio := a, p_mtxlist := b\<rparr>) = queued_as q th" for q th a b by (cases q) auto
  show "sched_but {t} ?h"
  proof (rule sched_butI)
    note D = sched_butD[OF U(1), simplified]
    show "distinct (tq ?h q)" for q using D(1)[of q] unfolding handed_def by simp
    show "u \<in> set (tq ?h q) \<longleftrightarrow> queued_as q (threads ?h u)" if "u \<notin> {t}" for q u
      unfolding th qa q using D(3)[of u q] that by simp
    show "p_state (threads ?h u) = THD_STATE_CURRENT \<longleftrightarrow> u = currp ?h" if "u \<notin> {t}" for u
      unfolding th c using D(4)[of u] that by simp
    show "prio_sorted (prio ?h) (tq ?h QReady)"
      unfolding pr using D(2) meq[of QReady] prio_sorted_cong[of "tq s QReady" "prio s" "(prio s)(?me := fallback s)"]
      by (force simp: q)
    show "0 < prio ?h u" if "p_state (threads ?h u) \<noteq> THD_STATE_FINAL" for u
      using that D(5)[of u] pos unfolding pr th by simp
    show "p_state (threads ?h idle_tid) = THD_STATE_READY \<or> p_state (threads ?h idle_tid) = THD_STATE_CURRENT"
      if "idle_tid \<notin> {t}" unfolding th using D(6) that by simp
  qed
  have own: "m_owner s ump = Some ?me" using M(3) assms(3) by simp
  show "mtx_ok (ready_put t ?h)"
    unfolding mtx_ok_def
  proof (rule mtx_butI)
    let ?r = "ready_put t ?h"
    have st: "prio_sorted (prio s) (t # ts)" using M(1)[of ump] assms(4) by simp
    show "prio_sorted (prio ?r) (tq ?r (QMtx m))" for m
      using M(1)[of m] st meq[of "QMtx m"] meq[of "QMtx ump"] assms(4) pr q
        prio_sorted_cong[of "tq s (QMtx m)" "prio s" "(prio s)(?me := fallback s)"]
        prio_sorted_cong[of ts "prio s" "(prio s)(?me := fallback s)"] by (cases "m = ump") force+
    have cov: "prio s v \<le> fallback s" if "v \<in> set (tq s (QMtx m))" "m \<in> set rest" for v m
      unfolding fallback_def assms(3) list.sel by (rule newprio_covers[OF M(1) that(2,1)])
    show "\<exists>u. m_owner ?r m = Some u \<and> (prio ?r v \<le> prio ?r u \<or> None = Some u \<and> prio ?r v \<le> 0)"
      if v: "v \<in> set (tq ?r (QMtx m))" for m v
    proof (cases "m = ump")
      case True
      then have "v \<in> set ts" using v q by simp
      then show ?thesis using True ow st pr tc meq[of "QMtx ump"] assms(4) by auto
    next
      case False
      then have v': "v \<in> set (tq s (QMtx m))" using v q by simp
      from M(2)[OF this] obtain u where u: "m_owner s m = Some u" "prio s v \<le> prio s u" by auto
      have "v \<noteq> ?me" using v' meq by auto
      moreover have "prio s v \<le> fallback s" if "u = ?me"
        using cov[OF v'] M(3)[of m ?me] u(1) that assms(3) False by simp
      ultimately show ?thesis using u False ow pr by auto
    qed
    show "m_owner ?r m = Some u \<longleftrightarrow> m \<in> set (p_mtxlist (threads ?r u))" for m u
      using M(3)[of m u] M(3)[of m ?me] M(4)[of ?me] assms(3) tc own ow
      by (cases "u = t"; cases "u = ?me"; cases "m = ump") (auto simp: th)
    show "distinct (p_mtxlist (threads ?r u))" for u
      using M(4)[of u] M(4)[of ?me] M(3)[of ump t] own tc assms(3) by (auto simp: th)
    show "p_state (threads ?r u) \<noteq> THD_STATE_FINAL" if "m_owner ?r m = Some u" for m u
      using M(5)[of m u] that ow by (auto simp: th split: if_splits)
    have rg: "registry ?r = registry s" by (simp add: handed_def)
    show "u \<in> set (registry ?r)" "0 < p_realprio (threads ?r u)" "p_realprio (threads ?r u) \<le> prio ?r u"
      if "p_state (threads ?r u) \<noteq> THD_STATE_FINAL" for u
      using that M(6)[of u] M(6)[of t] U(4) real unfolding rg by (auto simp: th pr split: if_splits)
    show "\<exists>q. u \<in> set (tq ?r q)" if "p_state (threads ?r u) \<in> {THD_STATE_WTMTX, THD_STATE_WTCOND}" for u
    proof -
      have "u \<noteq> t" "p_state (threads s u) \<in> {THD_STATE_WTMTX, THD_STATE_WTCOND}" using that by (auto simp: th split: if_splits)
      from M(7)[OF this(2)] obtain q' where "u \<in> set (tq s q')" by blast
      then have "u \<in> set (tq ?r q')" using q \<open>u \<noteq> t\<close> assms(4) by auto
      then show ?thesis by blast
    qed
  qed
qed

text \<open>
  With no waiter the mutex is free again. Otherwise the highest waiter becomes the owner, is made
  ready with \<open>RDY_OK\<close>, and the unlocking thread falls back to \<open>fallback\<close>.
\<close>

lemma mtx_unlock_free:
  assumes "p_mtxlist (cur s) = ump # rest" "tq s (QMtx ump) = []"
  shows "chMtxUnlock s = Done ump (set_owner ump None (set_mtxlist (currp s) rest s))"
    "chMtxUnlockS s = chMtxUnlock s"
  using assms by (simp_all add: chMtxUnlock_def chMtxUnlockS_def chMtxQueueNotEmptyS_def notempty_def)

lemma mtx_unlockS_waiter:
  assumes "sched_inv s" "mtx_ok s" "p_mtxlist (cur s) = ump # rest" "tq s (QMtx ump) = t # ts"
  shows "\<exists>s'. chMtxUnlockS s = Done ump s' \<and> sched_inv s' \<and> mtx_ok s' \<and> currp s' = currp s \<and>
    m_owner s' = (m_owner s)(ump := Some t) \<and> prio s' = (prio s)(currp s := fallback s) \<and>
    p_state (threads s' t) = THD_STATE_READY"
proof -
  note H = handed_inv[OF assms]
  let ?h = "handed ump rest t ts s"
  have U: "0 < prio s t" "t \<noteq> currp s" using unqueue_head_inv[OF assms(1,4)] by simp_all
  have e: "chMtxUnlockS s = Done ump (ready_put t ?h)"
    using assms(3,4) U H(5)
    by (simp add: chMtxUnlockS_def chMtxQueueNotEmptyS_def notempty_def fifo_remove_def Let_def chSchReadyI_eq
        flip: handed_def)
  have "sched_inv (ready_put t ?h)" by (rule ready_put_inv[OF H(1,2)]) (use H U in simp_all)
  then show ?thesis using e H by (intro exI[of _ "ready_put t ?h"]) simp
qed

lemma mtx_unlock_waiter:
  assumes "sched_inv s" "mtx_ok s" "p_mtxlist (cur s) = ump # rest" "tq s (QMtx ump) = t # ts"
  shows "settles (\<lambda>s'. sched_inv s' \<and> m_owner s' = (m_owner s)(ump := Some t) \<and>
      prio s' = (prio s)(currp s := fallback s) \<and>
      currp s' = (if prio s t \<le> fallback s then currp s else t) \<and>
      ((\<forall>u\<in>set (tq s QReady). prio s u \<le> max (prio s t) (fallback s)) \<longrightarrow> top_running s')) (chMtxUnlock s)"
proof -
  note H = handed_inv[OF assms]
  let ?h = "handed ump rest t ts s"
  have U: "0 < prio s t" "t \<noteq> currp s" using unqueue_head_inv[OF assms(1,4)] by simp_all
  have e: "chMtxUnlock s = obind (chSchWakeupS t RDY_OK ?h) (\<lambda>_ s2. Done ump s2)"
    using assms(3,4)
    by (simp add: chMtxUnlock_def chMtxQueueNotEmptyS_def notempty_def fifo_remove_def Let_def flip: handed_def)
  have "t \<noteq> currp ?h" "0 < prio ?h t" using H U by simp_all
  note W = wakeup_gen[OF H(1,2) this, where m = RDY_OK]
  have nr: "currp s \<notin> set (tq s QReady)" using sched_inv_current(2)[OF assms(1)] by (simp add: loose_def)
  have fr: "\<forall>u\<in>set (tq ?h QReady). prio ?h u \<le> max (prio ?h t) (prio ?h (currp ?h))"
    if "\<forall>u\<in>set (tq s QReady). prio s u \<le> max (prio s t) (fallback s)"
    using that U(2) nr H(5,8,9) by auto
  have ow: "m_owner s' = (m_owner s)(ump := Some t)" if "sched_frame ?h s'" for s'
    using sched_frame_fields(6)[OF that] H(7) by simp
  have pt: "prio ?h t = prio s t" "prio ?h (currp ?h) = fallback s" using H(5,8) U(2) by simp_all
  show ?thesis unfolding e
    by (rule settles_return[OF settles_mono[OF W]])
      (elim conjE, intro conjI impI; (simp add: pt H(5,8); fail | erule ow | erule mp, rule fr, assumption | simp add: pt H(5,8)))
qed

end
