(* ===== verification/MemCore.thy ===== *)
theory MemCore
  imports Kernel
begin

text \<open>
  The core allocator, \<^verbatim>\<open>os/kernel/src/chmemcore.c\<close>, and the memory pools,
  \<^verbatim>\<open>os/kernel/src/chmempools.c\<close>. Addresses and sizes are 32 bits wide; \<open>stkalign_t\<close> is a
  \<open>uint64_t\<close>, so the alignment is 8. \<open>NULL\<close> is the address 0.
\<close>

section \<open>The core allocator\<close>

definition MEM_ALIGN_SIZE :: size_t where "MEM_ALIGN_SIZE = 8"
definition MEM_ALIGN_MASK :: size_t where "MEM_ALIGN_MASK = MEM_ALIGN_SIZE - 1"

definition MEM_ALIGN_PREV :: "size_t \<Rightarrow> size_t" where
  "MEM_ALIGN_PREV p = p AND NOT MEM_ALIGN_MASK"

definition MEM_ALIGN_NEXT :: "size_t \<Rightarrow> size_t" where
  "MEM_ALIGN_NEXT p = MEM_ALIGN_PREV (p + MEM_ALIGN_MASK)"

definition MEM_IS_ALIGNED :: "size_t \<Rightarrow> bool" where
  "MEM_IS_ALIGNED p \<longleftrightarrow> p AND MEM_ALIGN_MASK = 0"

text \<open>The two bounds come from the linker script.\<close>

definition core_init :: "addr \<Rightarrow> addr \<Rightarrow> 'x kernel_scheme \<Rightarrow> 'x kernel_scheme" where
  "core_init heap_base heap_end s =
     s\<lparr>nextmem := MEM_ALIGN_NEXT heap_base, endmem := MEM_ALIGN_PREV heap_end\<rparr>"

definition chCoreAllocI :: "size_t \<Rightarrow> 'x kernel_scheme \<Rightarrow> addr \<times> 'x kernel_scheme" where
  "chCoreAllocI sz s =
     (let size = MEM_ALIGN_NEXT sz in
      if endmem s - nextmem s < size then (0, s)
      else (nextmem s, s\<lparr>nextmem := nextmem s + size\<rparr>))"

definition chCoreAlloc :: "size_t \<Rightarrow> 'x kernel_scheme \<Rightarrow> ('x, addr) kout" where
  "chCoreAlloc sz s = (case chCoreAllocI sz s of (p, s1) \<Rightarrow> Done p s1)"

definition chCoreStatus :: "'x kernel_scheme \<Rightarrow> size_t" where
  "chCoreStatus s = endmem s - nextmem s"

lemma align_mask: "MEM_ALIGN_MASK = mask 3"
  by (simp add: MEM_ALIGN_MASK_def MEM_ALIGN_SIZE_def mask_eq_exp_minus_1)

lemma unat_take3: "unat (take_bit 3 p) = unat p mod 8" for p :: size_t
proof -
  have "unat (take_bit 3 p) = take_bit 3 (unat p)" by (simp only: unsigned_take_bit_eq)
  then show ?thesis by (simp only: take_bit_eq_mod) simp
qed

lemma and_not_mask: "p AND NOT (mask 3) = p - take_bit 3 p" for p :: size_t
proof -
  have "p = (p AND NOT (mask 3)) + take_bit 3 p"
    by (subst disjunctive_add) (auto intro: bit_eqI simp: bit_simps)
  then show ?thesis by (metis add_diff_cancel_right')
qed

lemma align_prev: "unat (MEM_ALIGN_PREV p) = unat p - unat p mod 8"
proof -
  note t = unat_take3[of p]
  have "MEM_ALIGN_PREV p = p - take_bit 3 p"
    by (simp add: MEM_ALIGN_PREV_def align_mask and_not_mask)
  moreover have "take_bit 3 p \<le> p" by (simp add: word_le_nat_alt t)
  ultimately show ?thesis by (simp add: unat_sub t)
qed

lemma aligned_iff: "MEM_IS_ALIGNED p \<longleftrightarrow> unat p mod 8 = 0"
proof -
  have "p AND MEM_ALIGN_MASK = take_bit 3 p" by (simp add: align_mask take_bit_eq_mask)
  moreover note unat_take3[of p]
  ultimately show ?thesis by (metis MEM_IS_ALIGNED_def unsigned_0 unsigned_eq_0_iff)
qed

lemma align_next:
  "unat p + 7 < 2 ^ 32 \<Longrightarrow> unat (MEM_ALIGN_NEXT p) = (unat p + 7) - (unat p + 7) mod 8"
  by (simp add: MEM_ALIGN_NEXT_def align_prev align_mask mask_eq_exp_minus_1 unat_word_ariths)

text \<open>Rounding up adds less than 8 and yields a multiple of 8.\<close>

lemma align_next_bounds:
  assumes "unat p + 7 < 2 ^ 32"
  shows "unat p \<le> unat (MEM_ALIGN_NEXT p)" "unat (MEM_ALIGN_NEXT p) < unat p + 8" "MEM_IS_ALIGNED (MEM_ALIGN_NEXT p)"
proof -
  have "(unat p + 7) mod 8 \<le> 7" by simp
  then show "unat p \<le> unat (MEM_ALIGN_NEXT p)" "unat (MEM_ALIGN_NEXT p) < unat p + 8"
    unfolding align_next[OF assms] by linarith+
  show "MEM_IS_ALIGNED (MEM_ALIGN_NEXT p)"
    unfolding aligned_iff align_next[OF assms] by (simp add: minus_mod_eq_mult_div)
qed

text \<open>
  Within seven of the top of the range the rounding wraps: a request for almost all the memory there
  could be is one for nothing, and succeeds.
\<close>

lemma align_next_wraps: "2 ^ 32 \<le> unat p + 7 \<Longrightarrow> MEM_ALIGN_NEXT p = 0"
proof -
  assume a: "2 ^ 32 \<le> unat p + 7"
  have p: "unat p < 2 ^ 32" using unsigned_less[of p, where ?'a = nat] by simp
  then have "unat (p + MEM_ALIGN_MASK) = unat p + 7 - 2 ^ 32"
    using a by (simp add: align_mask mask_eq_exp_minus_1 unat_word_ariths mod_if)
  then have "unat (p + MEM_ALIGN_MASK) < 8" using p by linarith
  then have "unat (MEM_ALIGN_NEXT p) = 0" by (simp add: MEM_ALIGN_NEXT_def align_prev)
  then show ?thesis by (simp add: unsigned_eq_0_iff)
qed

definition core_ok :: "'x kernel_scheme \<Rightarrow> bool" where
  "core_ok s \<longleftrightarrow> nextmem s \<noteq> 0 \<and> nextmem s \<le> endmem s \<and> MEM_IS_ALIGNED (nextmem s)"

text \<open>
  A successful request gets an aligned area of at least its size that starts where the last one
  ended and lies below the end; a failed one changes nothing.
\<close>

lemma core_alloc:
  assumes "core_ok s" "unat sz + 7 < 2 ^ 32" "chCoreAllocI sz s = (p, s')"
  shows "core_ok s'"
    "if unat (endmem s) - unat (nextmem s) < unat (MEM_ALIGN_NEXT sz) then p = 0 \<and> s' = s
     else p = nextmem s \<and> MEM_IS_ALIGNED p \<and> unat p + unat sz \<le> unat (nextmem s') \<and>
       unat (nextmem s') = unat p + unat (MEM_ALIGN_NEXT sz) \<and> unat (nextmem s') \<le> unat (endmem s) \<and>
       endmem s' = endmem s"
proof -
  let ?n = "MEM_ALIGN_NEXT sz"
  note B = align_next_bounds[OF assms(2)]
  have o: "nextmem s \<noteq> 0" "unat (nextmem s) \<le> unat (endmem s)" "MEM_IS_ALIGNED (nextmem s)"
    using assms(1) by (simp_all add: core_ok_def word_le_nat_alt)
  have d: "unat (endmem s - nextmem s) = unat (endmem s) - unat (nextmem s)"
    using o(2) by (simp add: unat_sub word_le_nat_alt)
  have lt: "endmem s - nextmem s < ?n \<longleftrightarrow> unat (endmem s) - unat (nextmem s) < unat ?n"
    by (simp add: word_less_nat_alt d)
  have e: "unat (endmem s) < 2 ^ 32" using unsigned_less[of "endmem s", where ?'a = nat] by simp
  have sum: "unat (nextmem s + ?n) = unat (nextmem s) + unat ?n" if "\<not> endmem s - nextmem s < ?n"
    using that lt o(2) e by (simp add: unat_word_ariths)
  have nz: "nextmem s + ?n \<noteq> 0" if "\<not> endmem s - nextmem s < ?n"
    using sum[OF that] o(1) by (metis add_is_0 unsigned_0 unsigned_eq_0_iff)
  have al: "MEM_IS_ALIGNED (nextmem s + ?n)" if "\<not> endmem s - nextmem s < ?n"
    using sum[OF that] o(3) B(3) unfolding aligned_iff by (simp add: mod_add_eq[symmetric])
  show "core_ok s'"
    using assms(1,3) nz al sum lt o(2)
    by (auto simp: chCoreAllocI_def core_ok_def Let_def word_le_nat_alt split: if_splits)
  show "if unat (endmem s) - unat (nextmem s) < unat ?n then p = 0 \<and> s' = s
     else p = nextmem s \<and> MEM_IS_ALIGNED p \<and> unat p + unat sz \<le> unat (nextmem s') \<and>
       unat (nextmem s') = unat p + unat ?n \<and> unat (nextmem s') \<le> unat (endmem s) \<and> endmem s' = endmem s"
    using assms(3) sum lt o B(1) by (auto simp: chCoreAllocI_def Let_def split: if_splits)
qed

section \<open>Memory pools\<close>

definition set_pool :: "nat \<Rightarrow> mempool \<Rightarrow> 'x kernel_scheme \<Rightarrow> 'x kernel_scheme" where
  "set_pool i m s = s\<lparr>pools := (pools s)(i := m)\<rparr>"

definition chPoolInit :: "nat \<Rightarrow> size_t \<Rightarrow> bool \<Rightarrow> 'x kernel_scheme \<Rightarrow> 'x kernel_scheme" where
  "chPoolInit mp sz provider s =
     set_pool mp \<lparr>mp_next = [], mp_object_size = sz, mp_provider = provider\<rparr> s"

definition chPoolFreeI :: "nat \<Rightarrow> addr \<Rightarrow> 'x kernel_scheme \<Rightarrow> 'x kernel_scheme" where
  "chPoolFreeI mp objp s = set_pool mp ((pools s mp)\<lparr>mp_next := objp # mp_next (pools s mp)\<rparr>) s"

definition chPoolFree :: "nat \<Rightarrow> addr \<Rightarrow> 'x kernel_scheme \<Rightarrow> ('x, unit) kout" where
  "chPoolFree mp objp s = Done () (chPoolFreeI mp objp s)"

text \<open>Every object is added under the lock by itself.\<close>

primrec chPoolLoadArray :: "nat \<Rightarrow> addr \<Rightarrow> nat \<Rightarrow> 'x kernel_scheme \<Rightarrow> ('x, unit) kout" where
  "chPoolLoadArray mp p 0 s = Done () s"
| "chPoolLoadArray mp p (Suc n) s =
     obind (chPoolFree mp p s) (\<lambda>_ s1.
     Window s1 (\<lambda>s2. chPoolLoadArray mp (p + mp_object_size (pools s2 mp)) n s2))"

definition chPoolAllocI :: "nat \<Rightarrow> 'x kernel_scheme \<Rightarrow> addr \<times> 'x kernel_scheme" where
  "chPoolAllocI mp s =
     (case mp_next (pools s mp) of
        objp # rest \<Rightarrow> (objp, set_pool mp ((pools s mp)\<lparr>mp_next := rest\<rparr>) s)
      | [] \<Rightarrow> if mp_provider (pools s mp) then chCoreAllocI (mp_object_size (pools s mp)) s else (0, s))"

definition chPoolAlloc :: "nat \<Rightarrow> 'x kernel_scheme \<Rightarrow> ('x, addr) kout" where
  "chPoolAlloc mp s = (case chPoolAllocI mp s of (p, s1) \<Rightarrow> Done p s1)"

text \<open>
  The contract of an allocator over a finite store: what it hands out was free and is free no more
  until it is given back.
\<close>

locale object_store =
  fixes avail :: "'s \<Rightarrow> 'a set"
    and take_one :: "'s \<Rightarrow> ('a \<times> 's) option"
    and give_back :: "'a \<Rightarrow> 's \<Rightarrow> 's"
    and good :: "'s \<Rightarrow> bool"
    and valid :: "'a \<Rightarrow> bool"
  assumes take_free: "good s \<Longrightarrow> take_one s = Some (x, s') \<Longrightarrow> x \<in> avail s \<and> avail s' = avail s - {x} \<and> good s'"
    and take_none: "good s \<Longrightarrow> take_one s = None \<longleftrightarrow> avail s = {}"
    and give: "good s \<Longrightarrow> valid x \<Longrightarrow> x \<notin> avail s \<Longrightarrow> avail (give_back x s) = insert x (avail s) \<and> good (give_back x s)"
begin

primrec take_n :: "nat \<Rightarrow> 's \<Rightarrow> ('a list \<times> 's) option" where
  "take_n 0 s = Some ([], s)"
| "take_n (Suc n) s = (case take_one s of None \<Rightarrow> None
     | Some (x, s') \<Rightarrow> (case take_n n s' of None \<Rightarrow> None | Some (xs, s'') \<Rightarrow> Some (x # xs, s'')))"

text \<open>No object is handed out twice.\<close>

lemma take_n_distinct:
  "good s \<Longrightarrow> take_n n s = Some (xs, s') \<Longrightarrow> distinct xs \<and> set xs \<subseteq> avail s \<and> avail s' = avail s - set xs \<and> good s'"
proof (induction n arbitrary: s xs)
  case (Suc n)
  then obtain x s1 ys where x: "take_one s = Some (x, s1)" "take_n n s1 = Some (ys, s')" "xs = x # ys"
    by (auto split: option.splits)
  from take_free[OF Suc(2) x(1)] have t: "x \<in> avail s" "avail s1 = avail s - {x}" "good s1" by auto
  from Suc(1)[OF t(3) x(2)] t x(3) show ?case by auto
qed simp

lemma take_n_total: "good s \<Longrightarrow> finite (avail s) \<Longrightarrow> n \<le> card (avail s) \<Longrightarrow> take_n n s \<noteq> None"
proof (induction n arbitrary: s)
  case (Suc n)
  then have "avail s \<noteq> {}" by auto
  then obtain x s1 where x: "take_one s = Some (x, s1)" using take_none[OF Suc(2)] by (cases "take_one s") auto
  from take_free[OF Suc(2) x] have "x \<in> avail s" "avail s1 = avail s - {x}" "good s1" by auto
  then show ?case using Suc(1)[of s1] Suc(3,4) x by (auto split: option.splits)
qed simp

end

definition pool_good :: "nat \<Rightarrow> 'x kernel_scheme \<Rightarrow> bool" where
  "pool_good mp s \<longleftrightarrow> distinct (mp_next (pools s mp)) \<and> \<not> mp_provider (pools s mp) \<and> 0 \<notin> set (mp_next (pools s mp))"

definition pool_avail :: "nat \<Rightarrow> 'x kernel_scheme \<Rightarrow> addr set" where
  "pool_avail mp s = set (mp_next (pools s mp))"

definition pool_take :: "nat \<Rightarrow> 'x kernel_scheme \<Rightarrow> (addr \<times> 'x kernel_scheme) option" where
  "pool_take mp s = (case chPoolAllocI mp s of (p, s1) \<Rightarrow> if p = 0 then None else Some (p, s1))"

interpretation pool: object_store "pool_avail mp" "pool_take mp" "chPoolFreeI mp" "pool_good mp" "\<lambda>x. x \<noteq> 0"
  for mp :: nat
proof unfold_locales
  fix s :: "'b kernel_scheme" assume g: "pool_good mp s"
  show "x \<in> pool_avail mp s \<and> pool_avail mp s' = pool_avail mp s - {x} \<and> pool_good mp s'"
    if "pool_take mp s = Some (x, s')" for x s'
    using that g
    by (cases "mp_next (pools s mp)")
      (auto simp: pool_take_def chPoolAllocI_def pool_avail_def pool_good_def set_pool_def split: if_splits)
  show "pool_take mp s = None \<longleftrightarrow> pool_avail mp s = {}"
    using g by (cases "mp_next (pools s mp)") (auto simp: pool_take_def chPoolAllocI_def pool_avail_def pool_good_def)
  show "pool_avail mp (chPoolFreeI mp x s) = insert x (pool_avail mp s) \<and> pool_good mp (chPoolFreeI mp x s)"
    if "x \<noteq> 0" "x \<notin> pool_avail mp s" for x
    using that g by (simp add: chPoolFreeI_def pool_avail_def pool_good_def set_pool_def)
qed

text \<open>Loading an array makes every element of it available, once, unless the addresses wrap.\<close>

lemma pool_load:
  assumes "mp_object_size (pools s mp) = sz"
  shows "\<exists>s'. quiet (chPoolLoadArray mp p n s) = Some ((), s') \<and>
    mp_next (pools s' mp) = rev (map (\<lambda>i. p + of_nat i * sz) [0..<n]) @ mp_next (pools s mp) \<and>
    mp_object_size (pools s' mp) = sz \<and> mp_provider (pools s' mp) = mp_provider (pools s mp)"
  using assms
proof (induction n arbitrary: s p)
  case (Suc n)
  let ?s = "chPoolFreeI mp p s"
  have f: "mp_next (pools ?s mp) = p # mp_next (pools s mp)" "mp_object_size (pools ?s mp) = sz"
    "mp_provider (pools ?s mp) = mp_provider (pools s mp)"
    using Suc(2) by (simp_all add: chPoolFreeI_def set_pool_def)
  from Suc(1)[OF f(2), of "p + sz"] obtain s' where s': "quiet (chPoolLoadArray mp (p + sz) n ?s) = Some ((), s')"
    "mp_next (pools s' mp) = rev (map (\<lambda>i. p + sz + of_nat i * sz) [0..<n]) @ p # mp_next (pools s mp)"
    "mp_object_size (pools s' mp) = sz" "mp_provider (pools s' mp) = mp_provider (pools s mp)"
    using f by auto
  have "map (\<lambda>i. p + of_nat i * sz) [0..<Suc n] = p # map (\<lambda>i. p + sz + of_nat i * sz) [0..<n]"
    by (simp add: upt_conv_Cons map_Suc_upt[symmetric] algebra_simps comp_def del: upt_Suc)
  then show ?case using s' f by (intro exI[of _ s']) (simp add: chPoolFree_def del: upt_Suc)
qed simp

end
