(* ===== verification/Heap.thy ===== *)
theory Heap
  imports Mtx MemCore
begin

text \<open>
  The heap allocator, \<^verbatim>\<open>os/kernel/src/chheap.c\<close>: first fit over a list of free blocks ordered by
  address, with the two neighbours merged on release. A block is its address and its size; the header
  in front of it takes 8 bytes. The header of a block in use holds its heap and its size (\<open>hdrs\<close>).
\<close>

definition HDR :: size_t where "HDR = 8"

definition set_heap :: "nat \<Rightarrow> memheap \<Rightarrow> 'x kernel_scheme \<Rightarrow> 'x kernel_scheme" where
  "set_heap i h s = s\<lparr>heaps := (heaps s)(i := h)\<rparr>"

definition set_hdr :: "addr \<Rightarrow> nat \<times> size_t \<Rightarrow> 'x kernel_scheme \<Rightarrow> 'x kernel_scheme" where
  "set_hdr a h s = s\<lparr>hdrs := (hdrs s)(a := h)\<rparr>"

section \<open>The list of free blocks\<close>

text \<open>The allocation loop: the block, and the list without it (or with the rest of it).\<close>

fun heap_take :: "size_t \<Rightarrow> (addr \<times> size_t) list \<Rightarrow> ((addr \<times> size_t) \<times> (addr \<times> size_t) list) option" where
  "heap_take want [] = None"
| "heap_take want ((hp, hsize) # fs) =
     (if hsize \<ge> want then
        (if hsize < want + HDR then Some ((hp, hsize), fs)
         else Some ((hp, want), (hp + HDR + want, hsize - HDR - want) # fs))
      else (case heap_take want fs of None \<Rightarrow> None | Some (b, fs') \<Rightarrow> Some (b, (hp, hsize) # fs')))"

definition LIMIT :: "addr \<times> size_t \<Rightarrow> addr" where
  "LIMIT b = fst b + HDR + snd b"

text \<open>
  The release loop. \<open>qp\<close> is the block before the place (\<open>None\<close> is the list header, which is outside
  every block); the result starts at \<open>qp\<close>. Running past the end of the list is \<open>None\<close>.
\<close>

definition heap_link :: "(addr \<times> size_t) option \<Rightarrow> addr \<times> size_t \<Rightarrow> (addr \<times> size_t) list \<Rightarrow> (addr \<times> size_t) list" where
  "heap_link qp hp fs =
     (let (hp1, fs1) = (case fs of
            n # rest \<Rightarrow> if LIMIT hp = fst n then ((fst hp, snd hp + (snd n + HDR)), rest) else (hp, fs)
          | [] \<Rightarrow> (hp, fs))
      in case qp of
           None \<Rightarrow> hp1 # fs1
         | Some q \<Rightarrow> if LIMIT q = fst hp then (fst q, snd q + (snd hp1 + HDR)) # fs1 else q # hp1 # fs1)"

fun heap_put :: "(addr \<times> size_t) option \<Rightarrow> addr \<times> size_t \<Rightarrow> (addr \<times> size_t) list \<Rightarrow> (addr \<times> size_t) list option" where
  "heap_put qp hp fs =
     (if (case qp of None \<Rightarrow> True | Some q \<Rightarrow> fst hp > fst q) \<and>
         (case fs of [] \<Rightarrow> True | n # _ \<Rightarrow> fst hp < fst n)
      then Some (heap_link qp hp fs)
      else (case fs of
              [] \<Rightarrow> None
            | n # rest \<Rightarrow> (case heap_put (Some n) hp rest of
                None \<Rightarrow> None
              | Some l \<Rightarrow> Some (case qp of None \<Rightarrow> l | Some q \<Rightarrow> q # l))))"

declare heap_put.simps [simp del]

section \<open>Operations\<close>

definition heap_init :: "nat \<Rightarrow> nat \<Rightarrow> 'x kernel_scheme \<Rightarrow> 'x kernel_scheme" where
  "heap_init default_heap mtx s =
     chMtxInit mtx (set_heap default_heap \<lparr>h_provider = True, h_free = [], h_mtx = mtx\<rparr> s)"

definition chHeapInit :: "nat \<Rightarrow> nat \<Rightarrow> addr \<Rightarrow> size_t \<Rightarrow> 'x kernel_scheme \<Rightarrow> 'x kernel_scheme" where
  "chHeapInit heapp mtx buf sz s =
     chMtxInit mtx (set_heap heapp \<lparr>h_provider = False, h_free = [(buf, sz - HDR)], h_mtx = mtx\<rparr> s)"

definition chHeapAlloc :: "nat \<Rightarrow> size_t \<Rightarrow> 'x kernel_scheme \<Rightarrow> ('x, addr) kout" where
  "chHeapAlloc heapp sz s =
     (let want = MEM_ALIGN_NEXT sz in
      obind (chMtxLock (h_mtx (heaps s heapp)) s) (\<lambda>_ s1.
      case heap_take want (h_free (heaps s1 heapp)) of
        Some ((hp, hsize), fs) \<Rightarrow>
          (let s2 = set_hdr hp (heapp, hsize) (set_heap heapp ((heaps s1 heapp)\<lparr>h_free := fs\<rparr>) s1) in
           obind (chMtxUnlock s2) (\<lambda>_ s3. Done (hp + HDR) s3))
      | None \<Rightarrow>
          obind (chMtxUnlock s1) (\<lambda>_ s2.
          if h_provider (heaps s2 heapp) then
            Window s2 (\<lambda>s3.
            obind (chCoreAlloc (want + HDR) s3) (\<lambda>hp s4.
            if hp \<noteq> 0 then Done (hp + HDR) (set_hdr hp (heapp, want) s4) else Done 0 s4))
          else Done 0 s2)))"

definition chHeapFree :: "addr \<Rightarrow> 'x kernel_scheme \<Rightarrow> ('x, unit) kout" where
  "chHeapFree p s =
     (let hp = p - HDR; heapp = fst (hdrs s hp) in
      obind (chMtxLock (h_mtx (heaps s heapp)) s) (\<lambda>_ s1.
      case heap_put None (hp, snd (hdrs s1 hp)) (h_free (heaps s1 heapp)) of
        None \<Rightarrow> Fault
      | Some fs \<Rightarrow> obind (chMtxUnlock (set_heap heapp ((heaps s1 heapp)\<lparr>h_free := fs\<rparr>) s1)) (\<lambda>_ s2. Done () s2)))"

definition chHeapStatus :: "nat \<Rightarrow> 'x kernel_scheme \<Rightarrow> ('x, nat \<times> size_t) kout" where
  "chHeapStatus heapp s =
     obind (chMtxLock (h_mtx (heaps s heapp)) s) (\<lambda>_ s1.
     let n = length (h_free (heaps s1 heapp)); sz = sum_list (map snd (h_free (heaps s1 heapp))) in
     obind (chMtxUnlock s1) (\<lambda>_ s2. Done (n, sz) s2))"

section \<open>What the list stands for\<close>

text \<open>A block with its header spans \<open>ext b\<close> bytes from \<open>beg b\<close>; \<open>room\<close> is what the list holds.\<close>

definition beg :: "addr \<times> size_t \<Rightarrow> nat" where "beg b = unat (fst b)"
definition ext :: "addr \<times> size_t \<Rightarrow> nat" where "ext b = 8 + unat (snd b)"
definition fin :: "addr \<times> size_t \<Rightarrow> nat" where "fin b = beg b + ext b"

fun blocks_in :: "nat \<Rightarrow> (addr \<times> size_t) list \<Rightarrow> nat \<Rightarrow> bool" where
  "blocks_in lo [] hi = (lo \<le> hi)"
| "blocks_in lo (b # bs) hi = (lo \<le> beg b \<and> blocks_in (fin b) bs hi)"

definition room :: "(addr \<times> size_t) list \<Rightarrow> nat" where
  "room fs = sum_list (map ext fs)"

lemma room_simps [simp]: "room [] = 0" "room (b # bs) = ext b + room bs"
  by (simp_all add: room_def)

lemma blocks_lo_hi: "blocks_in lo bs hi \<Longrightarrow> lo \<le> hi"
  by (induction bs arbitrary: lo) (force simp: fin_def)+

lemma blocks_mono: "blocks_in lo bs hi \<Longrightarrow> lo' \<le> lo \<Longrightarrow> blocks_in lo' bs hi"
  by (cases bs) auto

text \<open>The two blocks do not overlap.\<close>

definition apart :: "addr \<times> size_t \<Rightarrow> addr \<times> size_t \<Rightarrow> bool" where
  "apart a b \<longleftrightarrow> fin a \<le> beg b \<or> fin b \<le> beg a"

lemma blocks_apart: "blocks_in lo bs hi \<Longrightarrow> fin a \<le> lo \<Longrightarrow> b \<in> set bs \<Longrightarrow> apart a b"
proof (induction bs arbitrary: lo)
  case (Cons c bs)
  then show ?case by (force simp: apart_def fin_def)
qed simp

lemma unat_sum: "unat a + unat b < 2 ^ 32 \<Longrightarrow> unat (a + b) = unat a + unat b" for a b :: "32 word"
  by (simp add: unat_word_ariths)

lemma unat_32: "unat a < 2 ^ 32" for a :: "32 word"
  using unsigned_less[of a, where ?'a = nat] by simp

text \<open>
  Allocation: the block comes out of the region, is at least as large as asked for, overlaps
  nothing that stays free, and no byte is lost.
\<close>

lemma heap_take_ok:
  assumes "blocks_in lo fs hi" "hi < 2 ^ 32" "heap_take want fs = Some (b, fs')"
  shows "blocks_in lo fs' hi \<and> lo \<le> beg b \<and> fin b \<le> hi \<and> want \<le> snd b \<and> room fs = room fs' + ext b \<and>
    (\<forall>c\<in>set fs'. apart b c)"
  using assms
proof (induction fs arbitrary: lo fs')
  case (Cons h fs)
  obtain hp hsize where h: "h = (hp, hsize)" by (cases h)
  have r: "lo \<le> unat hp" "blocks_in (unat hp + 8 + unat hsize) fs hi"
    using Cons(2) by (simp_all add: h beg_def fin_def ext_def add.assoc)
  have top: "unat hp + 8 + unat hsize \<le> hi" by (rule blocks_lo_hi[OF r(2)])
  show ?case
  proof (cases "hsize \<ge> want")
    case ge: True
    then have le: "unat want \<le> unat hsize" by (simp add: word_le_nat_alt)
    have sz8: "unat (want + HDR) = unat want + 8" using le top Cons(3) by (subst unat_sum) (simp_all add: HDR_def)
    show ?thesis
    proof (cases "hsize < want + HDR")
      case True
      then have "b = (hp, hsize)" "fs' = fs" using ge Cons(4) by (simp_all add: h)
      then show ?thesis using r top ge blocks_mono[OF r(2), of lo]
        by (auto simp: beg_def fin_def ext_def h intro: blocks_apart[OF r(2)])
    next
      case False
      then have big: "unat want + 8 \<le> unat hsize" using sz8 by (simp add: not_less word_le_nat_alt)
      let ?n = "(hp + HDR + want, hsize - HDR - want)"
      have e: "b = (hp, want)" "fs' = ?n # fs" using ge False Cons(4) by (simp_all add: h)
      have n1: "unat (hp + HDR + want) = unat hp + 8 + unat want"
      proof -
        have "unat (hp + HDR) = unat hp + 8" using top Cons(3) by (subst unat_sum) (simp_all add: HDR_def)
        then show ?thesis using top big Cons(3) by (subst unat_sum) simp_all
      qed
      have n2: "unat (hsize - HDR - want) = unat hsize - 8 - unat want"
      proof -
        have "unat (hsize - HDR) = unat hsize - 8" using big by (subst unat_sub) (simp_all add: HDR_def word_le_nat_alt)
        then show ?thesis using big by (subst unat_sub) (simp_all add: word_le_nat_alt)
      qed
      have f: "fin ?n = unat hp + 8 + unat hsize" "beg ?n = unat hp + 8 + unat want"
        using n1 n2 big by (simp_all add: fin_def beg_def ext_def)
      have "\<forall>c\<in>set fs. apart (hp, want) c"
        using big by (auto simp: fin_def beg_def ext_def intro!: blocks_apart[OF r(2)])
      then show ?thesis
        using e f r top big n2 by (auto simp: h fin_def beg_def ext_def apart_def add.assoc)
    qed
  next
    case False
    then obtain fs1 where t: "heap_take want fs = Some (b, fs1)" "fs' = h # fs1"
      using Cons(4) by (auto simp: h split: option.splits)
    from Cons(1)[OF r(2) Cons(3) t(1)] have IH: "blocks_in (unat hp + 8 + unat hsize) fs1 hi"
      "unat hp + 8 + unat hsize \<le> beg b" "fin b \<le> hi" "want \<le> snd b" "room fs = room fs1 + ext b"
      "\<forall>c\<in>set fs1. apart b c" by auto
    then show ?thesis using t r by (auto simp: h apart_def fin_def beg_def ext_def add.assoc)
  qed
qed simp

text \<open>
  Release: the block is back in its place, the order is kept, nothing is lost, and neighbours that
  touch have become one block.
\<close>

fun spaced :: "(addr \<times> size_t) list \<Rightarrow> bool" where
  "spaced (a # b # bs) = (fin a < beg b \<and> spaced (b # bs))"
| "spaced _ = True"

lemma spaced_tl: "spaced (a # bs) \<Longrightarrow> spaced bs"
  by (cases bs) auto

lemma limit_fin: "fin b < 2 ^ 32 \<Longrightarrow> unat (LIMIT b) = fin b"
  by (simp add: LIMIT_def HDR_def fin_def beg_def ext_def unat_word_ariths)

lemma limit_eq: "fin b < 2 ^ 32 \<Longrightarrow> LIMIT b = fst n \<longleftrightarrow> fin b = beg n"
  by (metis beg_def limit_fin word_unat_eq_iff)

lemma merged_ext:
  assumes "beg a + ext a + ext b < 2 ^ 32"
  shows "ext (fst a, snd a + (snd b + HDR)) = ext a + ext b" "beg (fst a, x) = beg a"
  using assms by (simp_all add: ext_def beg_def HDR_def unat_word_ariths)

lemma ext_pos: "0 < ext b"
  by (simp add: ext_def)

text \<open>Merging with the block behind.\<close>

definition join_next :: "addr \<times> size_t \<Rightarrow> (addr \<times> size_t) list \<Rightarrow> (addr \<times> size_t) list" where
  "join_next hp fs = (case fs of
      n # rest \<Rightarrow> if LIMIT hp = fst n then (fst hp, snd hp + (snd n + HDR)) # rest else hp # fs
    | [] \<Rightarrow> [hp])"

lemma join_next_ok:
  assumes "blocks_in lo (b # fs) hi" "hi < 2 ^ 32" "spaced fs"
  shows "\<exists>b1 fs1. join_next b fs = b1 # fs1 \<and> blocks_in lo (b1 # fs1) hi \<and> spaced (b1 # fs1) \<and>
    room (b1 # fs1) = room fs + ext b \<and> fst b1 = fst b"
proof (cases fs)
  case Nil
  then show ?thesis using assms by (simp add: join_next_def)
next
  case (Cons n rest)
  have fb: "fin b \<le> beg n" "fin n \<le> hi" "blocks_in (fin n) rest hi"
    using assms(1) Cons blocks_lo_hi by auto
  have le: "fin b < 2 ^ 32" using fb assms(2) ext_pos[of n] by (simp add: fin_def)
  show ?thesis
  proof (cases "LIMIT b = fst n")
    case True
    then have t: "fin b = beg n" using limit_eq[OF le] by simp
    then have s: "beg b + ext b + ext n < 2 ^ 32" using fb(2) assms(2) by (simp add: fin_def)
    let ?b = "(fst b, snd b + (snd n + HDR))"
    have f: "fin ?b = fin n" "beg ?b = beg b" "ext ?b = ext b + ext n"
      using merged_ext[OF s] t by (simp_all add: fin_def)
    have "spaced (?b # rest)" using assms(3) Cons f by (cases rest) auto
    then show ?thesis using True f fb Cons assms(1) by (auto simp: join_next_def)
  next
    case False
    then have "fin b < beg n" using fb(1) limit_eq[OF le, of n] by simp
    then show ?thesis using False Cons assms by (auto simp: join_next_def)
  qed
qed

lemma heap_link_join:
  "heap_link qp hp fs = (case qp of None \<Rightarrow> join_next hp fs
     | Some q \<Rightarrow> if LIMIT q = fst hp
         then (fst q, snd q + (snd (hd (join_next hp fs)) + HDR)) # tl (join_next hp fs)
         else q # join_next hp fs)"
  by (auto simp: heap_link_def join_next_def split: list.split option.split prod.split)

lemma heap_link_ok:
  assumes "blocks_in lo (q # b # fs) hi" "hi < 2 ^ 32" "spaced (q # fs)"
  shows "blocks_in lo (heap_link (Some q) b fs) hi \<and> spaced (heap_link (Some q) b fs) \<and>
    room (heap_link (Some q) b fs) = room (q # fs) + ext b"
proof -
  have s: "spaced fs" using assms(3) by (rule spaced_tl)
  have "blocks_in (fin q) (b # fs) hi" using assms(1) by simp
  from join_next_ok[OF this assms(2) s] obtain b1 fs1 where j: "join_next b fs = b1 # fs1"
    "blocks_in (fin q) (b1 # fs1) hi" "spaced (b1 # fs1)" "room (b1 # fs1) = room fs + ext b" "fst b1 = fst b" by blast
  have top: "fin b1 \<le> hi" "fin q \<le> beg b1" using j(2) blocks_lo_hi by auto
  then have le: "fin q < 2 ^ 32" using assms(2) ext_pos[of b1] by (simp add: fin_def)
  have bb: "beg b1 = beg b" using j(5) by (simp add: beg_def)
  show ?thesis
  proof (cases "LIMIT q = fst b")
    case True
    then have t: "fin q = beg b1" using limit_eq[OF le] bb by simp
    then have m: "beg q + ext q + ext b1 < 2 ^ 32" using top(1) assms(2) by (simp add: fin_def)
    let ?q = "(fst q, snd q + (snd b1 + HDR))"
    have f: "fin ?q = fin b1" "beg ?q = beg q" "ext ?q = ext q + ext b1"
      using merged_ext[OF m] t by (simp_all add: fin_def)
    have "spaced (?q # fs1)" using j(3) f by (cases fs1) auto
    then show ?thesis using True j f assms(1) by (simp add: heap_link_join)
  next
    case False
    then have "fin q < beg b1" using top(2) limit_eq[OF le, of b] bb by simp
    then show ?thesis using False j assms(1) by (simp add: heap_link_join)
  qed
qed

lemma heap_put_first: "heap_put (Some n) b fs = Some l \<Longrightarrow> \<forall>x\<in>set (take 1 l). beg n \<le> beg x"
  by (subst (asm) heap_put.simps)
    (auto simp: heap_link_join beg_def split: if_splits list.splits option.splits)

lemma heap_put_some:
  assumes "blocks_in lo (q # fs) hi" "hi < 2 ^ 32" "spaced (q # fs)" "fin q \<le> beg b" "fin b \<le> hi"
    "\<forall>c\<in>set fs. apart b c"
  shows "\<exists>l. heap_put (Some q) b fs = Some l \<and> blocks_in lo l hi \<and> spaced l \<and> room l = room (q # fs) + ext b"
  using assms
proof (induction fs arbitrary: q lo)
  case Nil
  have "fst b > fst q" using Nil(4) ext_pos[of q] by (simp add: word_less_nat_alt fin_def beg_def)
  moreover have "blocks_in lo [q, b] hi" using Nil by simp
  ultimately show ?case using heap_link_ok[of lo q b "[]" hi] Nil by (simp add: heap_put.simps)
next
  case (Cons n rest)
  have gt: "fst b > fst q" using Cons(5) ext_pos[of q] by (simp add: word_less_nat_alt fin_def beg_def)
  show ?case
  proof (cases "fst b < fst n")
    case True
    then have "beg b < beg n" by (simp add: word_less_nat_alt beg_def)
    then have "fin b \<le> beg n" using Cons(7) ext_pos[of n] by (auto simp: apart_def fin_def)
    then have "blocks_in lo (q # b # n # rest) hi" using Cons by simp
    then show ?thesis using heap_link_ok[of lo q b "n # rest" hi] Cons(3,4) True gt by (simp add: heap_put.simps)
  next
    case False
    then have "beg n \<le> beg b" by (simp add: word_less_nat_alt beg_def)
    then have a: "fin n \<le> beg b" using Cons(7) ext_pos[of b] by (auto simp: apart_def fin_def)
    have bl: "blocks_in (fin q) (n # rest) hi" using Cons(2) by simp
    from Cons(1)[OF bl Cons(3) spaced_tl[OF Cons(4)] a Cons(6)] Cons(7) obtain l where
      l: "heap_put (Some n) b rest = Some l" "blocks_in (fin q) l hi" "spaced l" "room l = room (n # rest) + ext b" by auto
    have "heap_put (Some q) b (n # rest) = Some (q # l)" using False gt l(1) by (subst heap_put.simps) simp
    moreover have "spaced (q # l)"
    proof -
      have "\<forall>x \<in> set (take 1 l). beg n \<le> beg x"
        using heap_put_first[OF l(1)] by simp
      then show ?thesis using l(3) Cons(4) by (cases l) auto
    qed
    ultimately show ?thesis using l Cons(2) by simp
  qed
qed

lemma heap_put_ok:
  assumes "blocks_in lo fs hi" "hi < 2 ^ 32" "spaced fs" "lo \<le> beg b" "fin b \<le> hi" "\<forall>c\<in>set fs. apart b c"
  shows "\<exists>l. heap_put None b fs = Some l \<and> blocks_in lo l hi \<and> spaced l \<and> room l = room fs + ext b"
proof (cases fs)
  case Nil
  then show ?thesis using assms by (simp add: heap_put.simps heap_link_join join_next_def)
next
  case (Cons n rest)
  show ?thesis
  proof (cases "fst b < fst n")
    case True
    then have "beg b < beg n" by (simp add: word_less_nat_alt beg_def)
    moreover have "apart b n" using assms(6) Cons by simp
    ultimately have "fin b \<le> beg n" using ext_pos[of n] by (auto simp: apart_def fin_def)
    then have "blocks_in lo (b # fs) hi" using assms Cons by simp
    from join_next_ok[OF this assms(2,3)] True Cons show ?thesis
      by (auto simp: heap_put.simps heap_link_join)
  next
    case False
    then have "beg n \<le> beg b" by (simp add: word_less_nat_alt beg_def)
    moreover have "apart b n" using assms(6) Cons by simp
    ultimately have a: "fin n \<le> beg b" using ext_pos[of b] by (auto simp: apart_def fin_def)
    from heap_put_some[of lo n rest hi b] assms a Cons obtain l where
      "heap_put (Some n) b rest = Some l" "blocks_in lo l hi" "spaced l" "room l = room fs + ext b" by auto
    moreover have "heap_put None b fs = Some l" using False Cons calculation(1) by (subst heap_put.simps) simp
    ultimately show ?thesis by blast
  qed
qed

text \<open>Taking a block out never makes two free blocks touch.\<close>

lemma heap_take_first: "heap_take want fs = Some (b, fs') \<Longrightarrow> blocks_in lo fs hi \<Longrightarrow> hi < 2 ^ 32 \<Longrightarrow>
    \<forall>x\<in>set (take 1 fs'). \<forall>y\<in>set (take 1 fs). beg y \<le> beg x"
  using heap_take_ok[of lo fs hi want b fs']
proof (cases fs)
  case (Cons y ys)
  assume a: "heap_take want fs = Some (b, fs')" "blocks_in lo fs hi" "hi < 2 ^ 32"
    "blocks_in lo fs hi \<Longrightarrow> hi < 2 ^ 32 \<Longrightarrow> heap_take want fs = Some (b, fs') \<Longrightarrow>
     blocks_in lo fs' hi \<and> lo \<le> beg b \<and> fin b \<le> hi \<and> want \<le> snd b \<and> room fs = room fs' + ext b \<and> (\<forall>c\<in>set fs'. apart b c)"
  have "blocks_in (beg y) fs hi" using a(2) Cons by simp
  from heap_take_ok[OF this a(3,1)] show ?thesis using Cons by (cases fs') auto
qed simp

lemma heap_take_spaced:
  assumes "blocks_in lo fs hi" "hi < 2 ^ 32" "spaced fs" "heap_take want fs = Some (b, fs')"
  shows "spaced fs'"
  using assms
proof (induction fs arbitrary: lo fs')
  case (Cons h fs)
  obtain hp hsize where h: "h = (hp, hsize)" by (cases h)
  note T = heap_take_ok[OF Cons(2,3,5)]
  have bl: "blocks_in (fin h) fs hi" using Cons(2) by simp
  show ?case
  proof (cases "hsize \<ge> want")
    case True
    show ?thesis
    proof (cases "hsize < want + HDR")
      case True
      then show ?thesis using \<open>hsize \<ge> want\<close> Cons(4,5) spaced_tl by (auto simp: h)
    next
      case False
      then have e: "b = (hp, want)" "fs' = (hp + HDR + want, hsize - HDR - want) # fs" using True Cons(5) by (simp_all add: h)
      have "room (h # fs) = room fs' + ext b" using T by simp
      then have x: "ext h = ext (hd fs') + ext b" using e by simp
      have "apart b (hd fs')" using T e by simp
      moreover have "blocks_in (beg h) (h # fs) hi" using Cons(2) by simp
      from heap_take_ok[OF this Cons(3,5)] have "beg h \<le> beg (hd fs')" "fin (hd fs') \<le> hi" using e blocks_lo_hi by auto
      moreover have "beg b = beg h" using e by (simp add: h beg_def)
      ultimately have "fin b \<le> beg (hd fs')" using ext_pos[of "hd fs'"] by (auto simp: apart_def fin_def)
      have up: "unat want + 8 \<le> unat hsize"
        using x e by (simp add: h ext_def)
      have tp: "unat hp + 8 + unat hsize \<le> hi" using blocks_lo_hi[OF bl] by (simp add: h fin_def beg_def ext_def)
      have "unat (hp + HDR + want) = unat hp + 8 + unat want"
        using up tp Cons(3) by (simp add: HDR_def unat_word_ariths)
      then have "fin (hd fs') = fin h" using e x by (simp add: h fin_def beg_def ext_def)
      then show ?thesis using e Cons(4) by (cases fs) auto
    qed
  next
    case False
    then obtain fs1 where t: "heap_take want fs = Some (b, fs1)" "fs' = h # fs1"
      using Cons(5) by (auto simp: h split: option.splits)
    have "spaced fs1" by (rule Cons(1)[OF bl Cons(3) spaced_tl[OF Cons(4)] t(1)])
    moreover have "\<forall>x\<in>set (take 1 fs1). \<forall>y\<in>set (take 1 fs). beg y \<le> beg x" by (rule heap_take_first[OF t(1) bl Cons(3)])
    moreover have "fs \<noteq> []" using t(1) by auto
    ultimately show ?thesis using t Cons(4) by (cases fs; cases fs1) auto
  qed
qed simp

text \<open>The two operations on a heap whose lock is free.\<close>

definition heap_ok :: "nat \<Rightarrow> nat \<Rightarrow> nat \<Rightarrow> 'x kernel_scheme \<Rightarrow> bool" where
  "heap_ok i lo hi s \<longleftrightarrow> blocks_in lo (h_free (heaps s i)) hi \<and> hi < 2 ^ 32 \<and> spaced (h_free (heaps s i))"

lemma unlock_own:
  assumes "m_owner s m = None" "tq s (QMtx m) = []" "p_mtxlist (cur s) = ms"
  shows "\<exists>s1. chMtxLock m s = Done () s1 \<and> heaps s1 = heaps s \<and> hdrs s1 = hdrs s \<and> currp s1 = currp s \<and>
    p_mtxlist (cur s1) = m # ms \<and> tq s1 (QMtx m) = []"
  using assms by (intro exI[of _ "mtx_give m (currp s) s"])
    (simp add: mtx_lock_free, simp add: mtx_give_def set_owner_def set_mtxlist_def)

lemma unlock_done:
  assumes "p_mtxlist (cur s) = m # ms" "tq s (QMtx m) = []"
  shows "\<exists>s1. chMtxUnlock s = Done m s1 \<and> heaps s1 = heaps s \<and> hdrs s1 = hdrs s"
  using mtx_unlock_free(1)[OF assms]
  by (intro exI[of _ "set_owner m None (set_mtxlist (currp s) ms s)"]) (simp add: set_owner_def set_mtxlist_def)

lemma heap_alloc:
  assumes "heap_ok i lo hi s" "m_owner s (h_mtx (heaps s i)) = None" "tq s (QMtx (h_mtx (heaps s i))) = []"
    "heap_take (MEM_ALIGN_NEXT want) (h_free (heaps s i)) = Some (b, fs)"
  shows "\<exists>s'. chHeapAlloc i want s = Done (fst b + HDR) s' \<and> heap_ok i lo hi s' \<and> hdrs s' (fst b) = (i, snd b) \<and>
    lo \<le> beg b \<and> fin b \<le> hi \<and> MEM_ALIGN_NEXT want \<le> snd b \<and> (\<forall>c\<in>set (h_free (heaps s' i)). apart b c) \<and>
    room (h_free (heaps s i)) = room (h_free (heaps s' i)) + ext b"
proof -
  have o: "blocks_in lo (h_free (heaps s i)) hi" "hi < 2 ^ 32" "spaced (h_free (heaps s i))"
    using assms(1) by (simp_all add: heap_ok_def)
  note T = heap_take_ok[OF o(1,2) assms(4)] and S = heap_take_spaced[OF o assms(4)]
  from unlock_own[OF assms(2,3) refl] obtain s1 where s1: "chMtxLock (h_mtx (heaps s i)) s = Done () s1"
    "heaps s1 = heaps s" "hdrs s1 = hdrs s" "p_mtxlist (cur s1) = h_mtx (heaps s i) # p_mtxlist (cur s)"
    "tq s1 (QMtx (h_mtx (heaps s i))) = []" by auto
  let ?s2 = "set_hdr (fst b) (i, snd b) (set_heap i ((heaps s1 i)\<lparr>h_free := fs\<rparr>) s1)"
  have f2: "threads ?s2 = threads s1" "tq ?s2 = tq s1" "currp ?s2 = currp s1" by (simp_all add: set_hdr_def set_heap_def)
  then have "p_mtxlist (cur ?s2) = h_mtx (heaps s i) # p_mtxlist (cur s)" "tq ?s2 (QMtx (h_mtx (heaps s i))) = []"
    using s1 by simp_all
  from unlock_done[OF this] obtain s3 where s3: "chMtxUnlock ?s2 = Done (h_mtx (heaps s i)) s3"
    "heaps s3 = heaps ?s2" "hdrs s3 = hdrs ?s2" by blast
  have "chHeapAlloc i want s = Done (fst b + HDR) s3"
    using s1 s3(1) assms(4) by (cases b) (simp add: chHeapAlloc_def Let_def)
  then show ?thesis using s1 s3 T S o(2)
    by (intro exI[of _ s3]) (simp add: set_hdr_def set_heap_def heap_ok_def)
qed

lemma heap_free:
  assumes "heap_ok i lo hi s" "m_owner s (h_mtx (heaps s i)) = None" "tq s (QMtx (h_mtx (heaps s i))) = []"
    "hdrs s (fst b) = (i, snd b)" "lo \<le> beg b" "fin b \<le> hi" "\<forall>c\<in>set (h_free (heaps s i)). apart b c"
  shows "\<exists>s'. chHeapFree (fst b + HDR) s = Done () s' \<and> heap_ok i lo hi s' \<and>
    room (h_free (heaps s' i)) = room (h_free (heaps s i)) + ext b"
proof -
  have o: "blocks_in lo (h_free (heaps s i)) hi" "hi < 2 ^ 32" "spaced (h_free (heaps s i))"
    using assms(1) by (simp_all add: heap_ok_def)
  from heap_put_ok[OF o assms(5-7)] obtain l where l: "heap_put None b (h_free (heaps s i)) = Some l"
    "blocks_in lo l hi" "spaced l" "room l = room (h_free (heaps s i)) + ext b" by blast
  from unlock_own[OF assms(2,3) refl] obtain s1 where s1: "chMtxLock (h_mtx (heaps s i)) s = Done () s1"
    "heaps s1 = heaps s" "hdrs s1 = hdrs s" "p_mtxlist (cur s1) = h_mtx (heaps s i) # p_mtxlist (cur s)"
    "tq s1 (QMtx (h_mtx (heaps s i))) = []" by auto
  let ?s2 = "set_heap i ((heaps s1 i)\<lparr>h_free := l\<rparr>) s1"
  have "p_mtxlist (cur ?s2) = h_mtx (heaps s i) # p_mtxlist (cur s)" "tq ?s2 (QMtx (h_mtx (heaps s i))) = []"
    using s1 by (simp_all add: set_heap_def)
  from unlock_done[OF this] obtain s3 where s3: "chMtxUnlock ?s2 = Done (h_mtx (heaps s i)) s3" "heaps s3 = heaps ?s2" by blast
  have "chHeapFree (fst b + HDR) s = Done () s3"
    using s1 s3(1) l(1) assms(4) by (simp add: chHeapFree_def Let_def)
  then show ?thesis using s1 s3 l o(2) by (intro exI[of _ s3]) (simp add: set_heap_def heap_ok_def)
qed

end
