(* ===== verification/Cond.thy ===== *)
theory Cond
  imports Mtx
begin

text \<open>
  Condition variables, \<^verbatim>\<open>os/kernel/src/chcond.c\<close>.
\<close>

definition chCondInit :: "nat \<Rightarrow> 'x kernel_scheme \<Rightarrow> 'x kernel_scheme" where
  "chCondInit cp s = queue_init (QCond cp) s"

definition chCondSignal :: "nat \<Rightarrow> 'x kernel_scheme \<Rightarrow> ('x, unit) kout" where
  "chCondSignal cp s =
     (if notempty (QCond cp) s then obind (fifo_remove (QCond cp) s) (\<lambda>tp. chSchWakeupS tp RDY_OK)
      else Done () s)"

definition chCondSignalI :: "nat \<Rightarrow> 'x kernel_scheme \<Rightarrow> ('x, unit) kout" where
  "chCondSignalI cp s = (if notempty (QCond cp) s then ready_first (QCond cp) RDY_OK s else Done () s)"

definition chCondBroadcastI :: "nat \<Rightarrow> 'x kernel_scheme \<Rightarrow> ('x, unit) kout" where
  "chCondBroadcastI cp s = ready_all (QCond cp) RDY_RESET s"

definition chCondBroadcast :: "nat \<Rightarrow> 'x kernel_scheme \<Rightarrow> ('x, unit) kout" where
  "chCondBroadcast cp s = obind (chCondBroadcastI cp s) (\<lambda>_. chSchRescheduleS)"

definition chCondWaitS :: "nat \<Rightarrow> 'x kernel_scheme \<Rightarrow> ('x, msg) kout" where
  "chCondWaitS cp s =
     (let ctp = currp s in
      obind (chMtxUnlockS s) (\<lambda>mp s1.
      obind (chSchGoSleepS THD_STATE_WTCOND (prio_insert ctp (QCond cp) (set_wtobjp ctp (QCond cp) s1))) (\<lambda>_ s2.
      let m = rdymsg (p_u (threads s2 ctp)) in
      obind (chMtxLockS mp s2) (\<lambda>_ s3. Done m s3))))"

definition chCondWait :: "nat \<Rightarrow> 'x kernel_scheme \<Rightarrow> ('x, msg) kout" where
  "chCondWait cp s = chCondWaitS cp s"

definition chCondWaitTimeoutS :: "nat \<Rightarrow> systime \<Rightarrow> 'x kernel_scheme \<Rightarrow> ('x, msg) kout" where
  "chCondWaitTimeoutS cp time s =
     obind (chMtxUnlockS s) (\<lambda>mp s1.
     obind (chSchGoSleepTimeoutS THD_STATE_WTCOND time
       (prio_insert (currp s1) (QCond cp) (set_wtobjp (currp s1) (QCond cp) s1))) (\<lambda>m s2.
     if m \<noteq> RDY_TIMEOUT then obind (chMtxLockS mp s2) (\<lambda>_ s3. Done m s3) else Done m s2))"

definition chCondWaitTimeout :: "nat \<Rightarrow> systime \<Rightarrow> 'x kernel_scheme \<Rightarrow> ('x, msg) kout" where
  "chCondWaitTimeout cp time s = chCondWaitTimeoutS cp time s"

text \<open>A signal wakes the head of the queue, a broadcast everything in it, each with its own message.\<close>

lemma cond_signal_s:
  assumes "sched_inv s" "top_running s"
  shows "settles (\<lambda>s'. sched_inv s' \<and> top_running s' \<and> tq s' (QCond cp) = tl (tq s (QCond cp)) \<and>
    currp s' = (case tq s (QCond cp) of [] \<Rightarrow> currp s
      | t # _ \<Rightarrow> if prio s t \<le> prio s (currp s) then currp s else t)) (chCondSignal cp s)"
proof (cases "tq s (QCond cp)")
  case Nil
  then show ?thesis using assms by (simp add: chCondSignal_def notempty_def)
next
  case (Cons t ts)
  from wakeup_first[OF assms Cons, of RDY_OK] obtain s1 where s1: "fifo_remove (QCond cp) s = Done t s1"
    "tq s1 (QCond cp) = ts" and w: "settles (\<lambda>s'. sched_inv s' \<and> top_running s' \<and> sched_frame s1 s' \<and> prio s' = prio s \<and>
      currp s' = (if prio s t \<le> prio s (currp s) then currp s else t)) (chSchWakeupS t RDY_OK s1)" by auto
  have e: "chCondSignal cp s = chSchWakeupS t RDY_OK s1" using Cons s1(1) by (simp add: chCondSignal_def notempty_def)
  show ?thesis unfolding e
    by (rule settles_mono[OF w]) (use Cons s1(2) sched_frame_fields(15) in auto)
qed

lemma cond_broadcastI:
  assumes "sched_inv s"
  shows "\<exists>s'. chCondBroadcastI cp s = Done () s' \<and> sched_inv s' \<and> tq s' (QCond cp) = [] \<and>
    (\<forall>t\<in>set (tq s (QCond cp)). p_state (threads s' t) = THD_STATE_READY \<and> p_u (threads s' t) = UMsg RDY_RESET) \<and>
    (\<forall>t. t \<notin> set (tq s (QCond cp)) \<longrightarrow> threads s' t = threads s t)"
  using ready_all_inv[OF assms, of "QCond cp" RDY_RESET] by (auto simp: chCondBroadcastI_def)

text \<open>
  Waiting gives up the most recently locked mutex before the thread sleeps, in one step: the mutex
  is free or has its new owner when another thread runs, and the waiter is in the queue.
\<close>

lemma cond_wait_free:
  assumes "sched_inv s" "currp s \<noteq> idle_tid" "p_mtxlist (cur s) = mp # rest" "tq s (QMtx mp) = []"
  shows "\<exists>s1. chCondWait cp s = obind (chSysSwitch s1) (\<lambda>_ s2.
      obind (chMtxLockS mp s2) (\<lambda>_ s3. Done (rdymsg (p_u (threads s2 (currp s)))) s3)) \<and>
    sched_inv s1 \<and> top_running s1 \<and> m_owner s1 mp = None \<and> currp s \<in> set (tq s1 (QCond cp))"
proof -
  let ?s1 = "set_owner mp None (set_mtxlist (currp s) rest s)"
  let ?q = "QCond cp"
  have i: "sched_inv ?s1"
    by (rule sched_but_same[OF assms(1)]) auto
  let ?xs = "ins_behind (prio ?s1) (currp s) (tq ?s1 ?q)"
  have lo: "currp s \<notin> set (tq s q)" for q using sched_inv_current(2)[OF assms(1)] by (simp add: loose_def)
  have xs: "set ?xs = insert (currp ?s1) (set (tq ?s1 ?q))" "distinct ?xs"
    using lo sched_butD(1)[OF assms(1)] by simp_all
  have idl: "currp ?s1 \<noteq> idle_tid" "?q \<noteq> QReady" using assms(2) by simp_all
  note B = block_on[OF i idl xs]
  let ?s2 = "asleep (wait_state ?q) (set_tq ?q ?xs (set_wtobjp (currp ?s1) ?q ?s1))"
  have "chCondWait cp s = obind (chSysSwitch ?s2) (\<lambda>_ s2.
      obind (chMtxLockS mp s2) (\<lambda>_ s3. Done (rdymsg (p_u (threads s2 (currp s)))) s3))"
    using B(1) mtx_unlock_free[OF assms(3,4)]
    by (simp add: chCondWait_def chCondWaitS_def prio_insert_def Let_def)
  then show ?thesis using B(2,3) by (intro exI[of _ ?s2]) simp
qed

end
