(* ===== verification/Events.thy ===== *)
theory Events
  imports Cond
begin

text \<open>
  Event sources, listeners and flags, \<^verbatim>\<open>os/kernel/src/chevents.c\<close> and \<^verbatim>\<open>chevents.h\<close>, and the
  periodic event timers of \<^verbatim>\<open>os/various/evtimer.c\<close>. The list of listeners of a source is a list of
  listener numbers, the last registered first.
\<close>

section \<open>Operations\<close>

definition set_els :: "nat \<Rightarrow> listener \<Rightarrow> 'x kernel_scheme \<Rightarrow> 'x kernel_scheme" where
  "set_els e l s = s\<lparr>els := (els s)(e := l)\<rparr>"

definition set_es :: "nat \<Rightarrow> nat list \<Rightarrow> 'x kernel_scheme \<Rightarrow> 'x kernel_scheme" where
  "set_es e ls s = s\<lparr>es_next := (es_next s)(e := ls)\<rparr>"

definition set_epending :: "tid \<Rightarrow> eventmask \<Rightarrow> 'x kernel_scheme \<Rightarrow> 'x kernel_scheme" where
  "set_epending t m s = upd_thread t (\<lambda>th. th\<lparr>p_epending := m\<rparr>) s"

definition set_ewmask :: "tid \<Rightarrow> eventmask \<Rightarrow> 'x kernel_scheme \<Rightarrow> 'x kernel_scheme" where
  "set_ewmask t m s = upd_thread t (\<lambda>th. th\<lparr>p_u := UMask m\<rparr>) s"

text \<open>\<open>1 << eid\<close>; defined for an \<open>eid\<close> below 32.\<close>

definition EVENT_MASK :: "nat \<Rightarrow> eventmask" where
  "EVENT_MASK eid = push_bit eid 1"

definition ALL_EVENTS :: eventmask where "ALL_EVENTS = -1"

definition chEvtInit :: "nat \<Rightarrow> 'x kernel_scheme \<Rightarrow> 'x kernel_scheme" where
  "chEvtInit esp s = set_es esp [] s"

definition chEvtIsListeningI :: "nat \<Rightarrow> 'x kernel_scheme \<Rightarrow> bool" where
  "chEvtIsListeningI esp s \<longleftrightarrow> es_next s esp \<noteq> []"

definition chEvtRegisterMask :: "nat \<Rightarrow> nat \<Rightarrow> eventmask \<Rightarrow> 'x kernel_scheme \<Rightarrow> ('x, unit) kout" where
  "chEvtRegisterMask esp elp emask s =
     Done () (set_els elp \<lparr>el_listener = currp s, el_mask = emask, el_flags = 0\<rparr>
       (set_es esp (elp # es_next s esp) s))"

definition chEvtRegister :: "nat \<Rightarrow> nat \<Rightarrow> nat \<Rightarrow> 'x kernel_scheme \<Rightarrow> ('x, unit) kout" where
  "chEvtRegister esp elp eid = chEvtRegisterMask esp elp (EVENT_MASK eid)"

definition chEvtUnregister :: "nat \<Rightarrow> nat \<Rightarrow> 'x kernel_scheme \<Rightarrow> ('x, unit) kout" where
  "chEvtUnregister esp elp s = Done () (set_es esp (remove1 elp (es_next s esp)) s)"

definition chEvtGetAndClearEvents :: "eventmask \<Rightarrow> 'x kernel_scheme \<Rightarrow> ('x, eventmask) kout" where
  "chEvtGetAndClearEvents emask s =
     (let m = p_epending (cur s) AND emask
      in Done m (set_epending (currp s) (p_epending (cur s) AND NOT emask) s))"

definition chEvtAddEvents :: "eventmask \<Rightarrow> 'x kernel_scheme \<Rightarrow> ('x, eventmask) kout" where
  "chEvtAddEvents emask s =
     (let m = p_epending (cur s) OR emask in Done m (set_epending (currp s) m s))"

definition chEvtSignalI :: "tid \<Rightarrow> eventmask \<Rightarrow> 'x kernel_scheme \<Rightarrow> ('x, unit) kout" where
  "chEvtSignalI tp emask s =
     (let s1 = set_epending tp (p_epending (threads s tp) OR emask) s; th = threads s1 tp in
      if (p_state th = THD_STATE_WTOREVT \<and> p_epending th AND ewmask (p_u th) \<noteq> 0) \<or>
         (p_state th = THD_STATE_WTANDEVT \<and> p_epending th AND ewmask (p_u th) = ewmask (p_u th))
      then obind (chSchReadyI tp s1) (\<lambda>tp s2. Done () (set_rdymsg tp RDY_OK s2))
      else Done () s1)"

definition chEvtSignal :: "tid \<Rightarrow> eventmask \<Rightarrow> 'x kernel_scheme \<Rightarrow> ('x, unit) kout" where
  "chEvtSignal tp emask s = obind (chEvtSignalI tp emask s) (\<lambda>_. chSchRescheduleS)"

definition chEvtBroadcastFlagsI :: "nat \<Rightarrow> flagsmask \<Rightarrow> 'x kernel_scheme \<Rightarrow> ('x, unit) kout" where
  "chEvtBroadcastFlagsI esp flags s =
     oiter (\<lambda>elp s1.
       let s2 = set_els elp ((els s1 elp)\<lparr>el_flags := el_flags (els s1 elp) OR flags\<rparr>) s1
       in chEvtSignalI (el_listener (els s2 elp)) (el_mask (els s2 elp)) s2) (es_next s esp) s"

definition chEvtBroadcastFlags :: "nat \<Rightarrow> flagsmask \<Rightarrow> 'x kernel_scheme \<Rightarrow> ('x, unit) kout" where
  "chEvtBroadcastFlags esp flags s = obind (chEvtBroadcastFlagsI esp flags s) (\<lambda>_. chSchRescheduleS)"

definition chEvtBroadcast :: "nat \<Rightarrow> 'x kernel_scheme \<Rightarrow> ('x, unit) kout" where
  "chEvtBroadcast esp = chEvtBroadcastFlags esp 0"

definition chEvtBroadcastI :: "nat \<Rightarrow> 'x kernel_scheme \<Rightarrow> ('x, unit) kout" where
  "chEvtBroadcastI esp = chEvtBroadcastFlagsI esp 0"

definition chEvtGetAndClearFlagsI :: "nat \<Rightarrow> 'x kernel_scheme \<Rightarrow> flagsmask \<times> 'x kernel_scheme" where
  "chEvtGetAndClearFlagsI elp s = (el_flags (els s elp), set_els elp ((els s elp)\<lparr>el_flags := 0\<rparr>) s)"

definition chEvtGetAndClearFlags :: "nat \<Rightarrow> 'x kernel_scheme \<Rightarrow> ('x, flagsmask) kout" where
  "chEvtGetAndClearFlags elp s =
     (let flags = el_flags (els s elp) in Done flags (set_els elp ((els s elp)\<lparr>el_flags := 0\<rparr>) s))"

function evt_dispatch_loop :: "(nat \<Rightarrow> 'x kernel_scheme \<Rightarrow> ('x, unit) kout) \<Rightarrow> nat \<Rightarrow> eventmask \<Rightarrow>
    'x kernel_scheme \<Rightarrow> ('x, unit) kout" where
  "evt_dispatch_loop handlers eid emask s =
     (if emask = 0 then Done () s
      else if 32 \<le> eid then Fault
      else if emask AND EVENT_MASK eid \<noteq> 0 then
        obind (handlers eid s) (\<lambda>_. evt_dispatch_loop handlers (eid + 1) (emask AND NOT (EVENT_MASK eid)))
      else evt_dispatch_loop handlers (eid + 1) emask s)"
  by pat_completeness auto
termination by (relation "measure (\<lambda>(h, eid, m, s). 32 - eid)") auto

declare evt_dispatch_loop.simps [simp del]

definition chEvtDispatch :: "(nat \<Rightarrow> 'x kernel_scheme \<Rightarrow> ('x, unit) kout) \<Rightarrow> eventmask \<Rightarrow>
    'x kernel_scheme \<Rightarrow> ('x, unit) kout" where
  "chEvtDispatch handlers emask s = evt_dispatch_loop handlers 0 emask s"

definition chEvtWaitOne :: "eventmask \<Rightarrow> 'x kernel_scheme \<Rightarrow> ('x, eventmask) kout" where
  "chEvtWaitOne emask s =
     (let ctp = currp s; m = p_epending (threads s ctp) AND emask in
      obind (if m = 0 then
               obind (chSchGoSleepS THD_STATE_WTOREVT (set_ewmask ctp emask s)) (\<lambda>_ s1.
               Done (p_epending (threads s1 ctp) AND emask) s1)
             else Done m s) (\<lambda>m s1.
      let m = m AND - m in
      Done m (set_epending ctp (p_epending (threads s1 ctp) AND NOT m) s1)))"

definition chEvtWaitAny :: "eventmask \<Rightarrow> 'x kernel_scheme \<Rightarrow> ('x, eventmask) kout" where
  "chEvtWaitAny emask s =
     (let ctp = currp s; m = p_epending (threads s ctp) AND emask in
      obind (if m = 0 then
               obind (chSchGoSleepS THD_STATE_WTOREVT (set_ewmask ctp emask s)) (\<lambda>_ s1.
               Done (p_epending (threads s1 ctp) AND emask) s1)
             else Done m s) (\<lambda>m s1.
      Done m (set_epending ctp (p_epending (threads s1 ctp) AND NOT m) s1)))"

definition chEvtWaitAll :: "eventmask \<Rightarrow> 'x kernel_scheme \<Rightarrow> ('x, eventmask) kout" where
  "chEvtWaitAll emask s =
     (let ctp = currp s in
      obind (if p_epending (threads s ctp) AND emask \<noteq> emask then
               chSchGoSleepS THD_STATE_WTANDEVT (set_ewmask ctp emask s)
             else Done () s) (\<lambda>_ s1.
      Done emask (set_epending ctp (p_epending (threads s1 ctp) AND NOT emask) s1)))"

definition chEvtWaitOneTimeout :: "eventmask \<Rightarrow> systime \<Rightarrow> 'x kernel_scheme \<Rightarrow> ('x, eventmask) kout" where
  "chEvtWaitOneTimeout emask time s =
     (let ctp = currp s; m = p_epending (threads s ctp) AND emask;
          take = (\<lambda>m s1. let m = m AND - m in
             Done m (set_epending ctp (p_epending (threads s1 ctp) AND NOT m) s1)) in
      if m = 0 then
        (if TIME_IMMEDIATE = time then Done 0 s
         else obind (chSchGoSleepTimeoutS THD_STATE_WTOREVT time (set_ewmask ctp emask s)) (\<lambda>r s1.
              if r < RDY_OK then Done 0 s1 else take (p_epending (threads s1 ctp) AND emask) s1))
      else take m s)"

definition chEvtWaitAnyTimeout :: "eventmask \<Rightarrow> systime \<Rightarrow> 'x kernel_scheme \<Rightarrow> ('x, eventmask) kout" where
  "chEvtWaitAnyTimeout emask time s =
     (let ctp = currp s; m = p_epending (threads s ctp) AND emask;
          take = (\<lambda>m s1. Done m (set_epending ctp (p_epending (threads s1 ctp) AND NOT m) s1)) in
      if m = 0 then
        (if TIME_IMMEDIATE = time then Done 0 s
         else obind (chSchGoSleepTimeoutS THD_STATE_WTOREVT time (set_ewmask ctp emask s)) (\<lambda>r s1.
              if r < RDY_OK then Done 0 s1 else take (p_epending (threads s1 ctp) AND emask) s1))
      else take m s)"

definition chEvtWaitAllTimeout :: "eventmask \<Rightarrow> systime \<Rightarrow> 'x kernel_scheme \<Rightarrow> ('x, eventmask) kout" where
  "chEvtWaitAllTimeout emask time s =
     (let ctp = currp s;
          take = (\<lambda>s1. Done emask (set_epending ctp (p_epending (threads s1 ctp) AND NOT emask) s1)) in
      if p_epending (threads s ctp) AND emask \<noteq> emask then
        (if TIME_IMMEDIATE = time then Done 0 s
         else obind (chSchGoSleepTimeoutS THD_STATE_WTANDEVT time (set_ewmask ctp emask s)) (\<lambda>r s1.
              if r < RDY_OK then Done 0 s1 else take s1))
      else take s)"

section \<open>Event timers\<close>

record evtimer =
  et_vt :: nat
  et_es :: nat
  et_interval :: systime

text \<open>The timer function \<open>tmrcb\<close>, whose parameter is the event timer.\<close>

definition tmrcb :: "nat \<Rightarrow> evtimer \<Rightarrow> 'x kernel_scheme \<Rightarrow> ('x, unit) kout" where
  "tmrcb p etp s =
     obind (chEvtBroadcastI (et_es etp) s) (\<lambda>_ s1.
     chVTSetI (VtObj (et_vt etp)) (et_interval etp) Fn_tmrcb p s1)"

definition evtInit :: "evtimer \<Rightarrow> systime \<Rightarrow> 'x kernel_scheme \<Rightarrow> evtimer \<times> 'x kernel_scheme" where
  "evtInit etp time s =
     (etp\<lparr>et_interval := time\<rparr>,
      (chEvtInit (et_es etp) s)\<lparr>vts := (vts s)(VtObj (et_vt etp) := (vts s (VtObj (et_vt etp)))\<lparr>vt_func := None\<rparr>)\<rparr>)"

definition evtStart :: "nat \<Rightarrow> evtimer \<Rightarrow> 'x kernel_scheme \<Rightarrow> ('x, unit) kout" where
  "evtStart p etp s =
     (if chVTIsArmedI (VtObj (et_vt etp)) s then Done () s
      else chVTSetI (VtObj (et_vt etp)) (et_interval etp) Fn_tmrcb p s)"

definition evtStop :: "evtimer \<Rightarrow> 'x kernel_scheme \<Rightarrow> ('x, unit) kout" where
  "evtStop etp s = chVTReset (VtObj (et_vt etp)) s"

section \<open>The lowest pending event\<close>

lemma odd_and_neg: "odd q \<Longrightarrow> q AND - q = 1" for q :: "'a::len word"
proof -
  assume "odd q"
  then obtain h where h: "q = 1 + 2 * h" by (metis oddE add.commute)
  have n: "- q = NOT (2 * h)" by (simp add: h not_eq_complement)
  have b: "bit (1 + 2 * h) j \<longleftrightarrow> bit (2 * h) j \<or> j = 0" for j by (rule even_bit_succ_iff) simp
  have b0: "\<not> bit (2 * h) 0" by (simp add: bit_0)
  show ?thesis
  proof (rule bit_eqI)
    fix j
    show "bit (q AND - q) j = bit 1 j"
      unfolding n unfolding h bit_and_iff b bit_not_iff bit_1_iff using b0 by (cases "j = 0") auto
  qed
qed

text \<open>\<open>m & -m\<close> is the least bit of \<open>m\<close> that is set.\<close>

lemma lowest_bit:
  fixes m :: "'a::len word"
  assumes "bit m k" "\<And>j. j < k \<Longrightarrow> \<not> bit m j"
  shows "m AND - m = push_bit k 1"
proof -
  let ?q = "drop_bit k m"
  have m: "m = push_bit k ?q"
  proof (rule bit_eqI)
    fix n show "bit m n = bit (push_bit k ?q) n"
      using assms(2)[of n] bit_imp_le_length[of m n] by (cases "k \<le> n") (auto simp: bit_push_bit_iff bit_drop_bit_eq)
  qed
  have "odd ?q" using assms(1) by (simp add: bit_simps flip: bit_0)
  then have "push_bit k (?q AND - ?q) = push_bit k 1" by (simp add: odd_and_neg)
  moreover have "- push_bit k ?q = push_bit k (- ?q)" by (simp add: push_bit_eq_mult)
  ultimately show ?thesis by (metis m push_bit_and)
qed

lemma least_bit:
  fixes m :: "'a::len word"
  assumes "m \<noteq> 0"
  obtains k where "bit m k" "k < LENGTH('a)" "\<And>j. j < k \<Longrightarrow> \<not> bit m j" "m AND - m = push_bit k 1"
proof -
  obtain n where n: "bit m n" using assms bit_eqI[of m 0] by auto
  define k where "k = (LEAST n. bit m n)"
  have k: "bit m k" unfolding k_def by (rule LeastI[of _ n]) (rule n)
  have "\<not> bit m j" if "j < k" for j using not_less_Least[of j "bit m"] that unfolding k_def by blast
  then show ?thesis using that k lowest_bit[OF k] bit_imp_le_length[OF k] by blast
qed

text \<open>
  A pending event is taken at once, the lowest first; it alone is cleared.
\<close>

lemma wait_one_pending:
  assumes "p_epending (cur s) AND emask \<noteq> 0"
  shows "\<exists>k<32. bit emask k \<and> bit (p_epending (cur s)) k \<and>
    (\<forall>j<k. \<not> (bit emask j \<and> bit (p_epending (cur s)) j)) \<and>
    chEvtWaitOne emask s = Done (EVENT_MASK k)
      (set_epending (currp s) (p_epending (cur s) AND NOT (EVENT_MASK k)) s)"
proof -
  from least_bit[OF assms] obtain k where k: "bit (p_epending (cur s) AND emask) k" "k < 32"
    "\<And>j. j < k \<Longrightarrow> \<not> bit (p_epending (cur s) AND emask) j"
    "(p_epending (cur s) AND emask) AND - (p_epending (cur s) AND emask) = push_bit k 1" by auto
  let ?m = "p_epending (cur s) AND emask"
  have "chEvtWaitOne emask s = Done (?m AND - ?m) (set_epending (currp s) (p_epending (cur s) AND NOT (?m AND - ?m)) s)"
    using assms by (simp add: chEvtWaitOne_def Let_def)
  then show ?thesis unfolding k(4) using k
    by (intro exI[of _ k]) (auto simp: EVENT_MASK_def bit_and_iff)
qed

text \<open>
  With nothing pending the thread sleeps with its mask recorded, and whatever it is woken with it
  returns at most one event, one that is pending and in the mask.
\<close>

lemma sched_inv_ewmask: "sched_inv s \<Longrightarrow> sched_inv (set_ewmask (currp s) m s)"
  unfolding set_ewmask_def by (rule sched_inv_upd_cur) simp_all

lemma set_ewmask_fields [simp]: "currp (set_ewmask t m s) = currp s" "tq (set_ewmask t m s) = tq s"
  "threads (set_ewmask t m s) = (threads s)(t := (threads s t)\<lparr>p_u := UMask m\<rparr>)"
  by (simp_all add: set_ewmask_def)

lemma wait_one_sleeps:
  assumes "sched_inv s" "currp s \<noteq> idle_tid" "p_epending (cur s) AND emask = 0"
  shows "\<exists>s1. sched_inv s1 \<and> top_running s1 \<and> p_state (threads s1 (currp s)) = THD_STATE_WTOREVT \<and>
    p_u (threads s1 (currp s)) = UMask emask \<and>
    chEvtWaitOne emask s = obind (chSysSwitch s1) (\<lambda>_ s2.
      let m = (p_epending (threads s2 (currp s)) AND emask) AND - (p_epending (threads s2 (currp s)) AND emask)
      in Done m (set_epending (currp s) (p_epending (threads s2 (currp s)) AND NOT m) s2))"
proof -
  let ?s = "set_ewmask (currp s) emask s"
  have i: "sched_inv ?s" "currp ?s \<noteq> idle_tid" using sched_inv_ewmask[OF assms(1)] assms(2) by simp_all
  note G = go_sleep_loose[OF i, of THD_STATE_WTOREVT, simplified]
  have ne: "hd (tq s QReady) \<noteq> currp s"
    using ready_nonempty[OF sched_inv_current(4)[OF assms(1)] assms(2)] sched_inv_current(2)[OF assms(1)]
    by (cases "tq s QReady") (auto simp: loose_def dest: spec[of _ QReady])
  then have "p_state (threads (asleep THD_STATE_WTOREVT ?s) (currp s)) = THD_STATE_WTOREVT"
    "p_u (threads (asleep THD_STATE_WTOREVT ?s) (currp s)) = UMask emask"
    by (simp_all add: asleep_def)
  then show ?thesis using G assms(3)
    by (intro exI[of _ "asleep THD_STATE_WTOREVT ?s"]) (simp add: chEvtWaitOne_def Let_def)
qed

lemma one_event: "m AND - m = 0 \<or> (\<exists>k<32. m AND - m = EVENT_MASK k \<and> bit m k)" for m :: eventmask
proof (cases "m = 0")
  case False
  then show ?thesis by (elim least_bit) (auto simp: EVENT_MASK_def)
qed simp

section \<open>Signalling\<close>

definition event_due :: "thread \<Rightarrow> bool" where
  "event_due th \<longleftrightarrow> (p_state th = THD_STATE_WTOREVT \<and> p_epending th AND ewmask (p_u th) \<noteq> 0) \<or>
     (p_state th = THD_STATE_WTANDEVT \<and> p_epending th AND ewmask (p_u th) = ewmask (p_u th))"

lemma signalI_alt:
  "chEvtSignalI tp emask s =
     (let s1 = set_epending tp (p_epending (threads s tp) OR emask) s in
      if event_due (threads s1 tp)
      then obind (chSchReadyI tp s1) (\<lambda>tp s2. Done () (set_rdymsg tp RDY_OK s2)) else Done () s1)"
  by (simp only: chEvtSignalI_def event_due_def Let_def)

lemma signalI_inv:
  assumes "sched_inv s"
  shows "\<exists>s'. chEvtSignalI tp emask s = Done () s' \<and> sched_inv s' \<and> currp s' = currp s \<and>
    p_epending (threads s' tp) = p_epending (threads s tp) OR emask \<and>
    p_state (threads s' tp) = (if event_due ((threads s tp)\<lparr>p_epending := p_epending (threads s tp) OR emask\<rparr>)
      then THD_STATE_READY else p_state (threads s tp)) \<and>
    (\<forall>u. u \<noteq> tp \<longrightarrow> threads s' u = threads s u) \<and> frame_but {QReady} s s' \<and> prio s' = prio s"
proof -
  let ?s1 = "set_epending tp (p_epending (threads s tp) OR emask) s"
  have i: "sched_inv ?s1" by (rule sched_but_same[OF assms]) (auto simp: set_epending_def)
  have th: "threads ?s1 = (threads s)(tp := (threads s tp)\<lparr>p_epending := p_epending (threads s tp) OR emask\<rparr>)"
    "currp ?s1 = currp s" "prio ?s1 = prio s" by (auto simp: set_epending_def prio_def)
  have fr: "frame_but {QReady} s ?s1" by (auto simp: set_epending_def)
  show ?thesis
  proof (cases "event_due (threads ?s1 tp)")
    case True
    then have st: "p_state (threads ?s1 tp) \<in> {THD_STATE_WTOREVT, THD_STATE_WTANDEVT}" by (auto simp: event_due_def)
    then have nq: "\<not> queued_as q (threads ?s1 tp)" for q by (cases q) auto
    have lo: "loose tp ?s1" using sched_butD(3)[OF i, of tp] nq by (simp add: loose_def)
    have nc: "tp \<noteq> currp ?s1" using sched_butD(4)[OF i, of tp] st by auto
    have p: "0 < prio ?s1 tp" using sched_butD(5)[OF i, of tp] st by auto
    have s2: "sched_inv (ready_put tp ?s1)" by (rule ready_put_inv[OF i lo nc p]) simp
    let ?s3 = "set_rdymsg tp RDY_OK (ready_put tp ?s1)"
    have "sched_inv ?s3"
    proof (rule sched_butI)
      show "u \<in> set (tq ?s3 q) \<longleftrightarrow> queued_as q (threads ?s3 u)" for q u
        using sched_butD(3)[OF s2, of u q] by (cases "u = tp"; cases q) auto
      show "0 < prio ?s3 u" if "p_state (threads ?s3 u) \<noteq> THD_STATE_FINAL" for u
        using sched_butD(5)[OF s2, of u] that by (auto split: if_splits)
      show "p_state (threads ?s3 u) = THD_STATE_CURRENT \<longleftrightarrow> u = currp ?s3" for u
        using sched_butD(4)[OF s2, of u] by (cases "u = tp") auto
      show "p_state (threads ?s3 idle_tid) = THD_STATE_READY \<or> p_state (threads ?s3 idle_tid) = THD_STATE_CURRENT"
        using sched_butD(6)[OF s2] by (cases "idle_tid = tp") auto
    qed (use sched_butD(1,2)[OF s2] in \<open>simp_all del: ready_put_fields(5)\<close>)
    moreover have "chEvtSignalI tp emask s = Done () ?s3"
      using True p by (simp add: signalI_alt Let_def chSchReadyI_eq)
    ultimately show ?thesis using True th fr by (intro exI[of _ ?s3]) auto
  next
    case False
    then have "chEvtSignalI tp emask s = Done () ?s1"
      by (simp add: signalI_alt Let_def)
    then show ?thesis using False i th fr by (intro exI[of _ ?s1]) auto
  qed
qed

section \<open>Broadcasting\<close>

lemma sched_set_els [simp]: "sched_but F (set_els e l s) = sched_but F s"
  by (rule sched_but_cong) (simp_all add: set_els_def prio_def fun_eq_iff)

text \<open>
  A broadcast adds the flags to every listener of the source and makes its events pending for its
  thread; it changes no other listener and no thread that does not listen.
\<close>

definition flagged :: "nat list \<Rightarrow> flagsmask \<Rightarrow> (nat \<Rightarrow> listener) \<Rightarrow> nat \<Rightarrow> listener" where
  "flagged ls flags l = (\<lambda>e. if e \<in> set ls then (l e)\<lparr>el_flags := el_flags (l e) OR flags\<rparr> else l e)"

lemma broadcast_loop:
  assumes "sched_inv s"
  shows "\<exists>s'. oiter (\<lambda>elp s1.
       let s2 = set_els elp ((els s1 elp)\<lparr>el_flags := el_flags (els s1 elp) OR flags\<rparr>) s1
       in chEvtSignalI (el_listener (els s2 elp)) (el_mask (els s2 elp)) s2) ls s = Done () s' \<and>
    sched_inv s' \<and> currp s' = currp s \<and> prio s' = prio s \<and> els s' = flagged ls flags (els s) \<and>
    frame_but {QReady} (s\<lparr>els := els s'\<rparr>) s' \<and>
    (\<forall>t k. bit (p_epending (threads s' t)) k \<longleftrightarrow> bit (p_epending (threads s t)) k \<or>
       (\<exists>e\<in>set ls. el_listener (els s e) = t \<and> bit (el_mask (els s e)) k)) \<and>
    (\<forall>t. t \<notin> (\<lambda>e. el_listener (els s e)) ` set ls \<longrightarrow> threads s' t = threads s t)"
  using assms
proof (induction ls arbitrary: s)
  case Nil
  have "frame_but {QReady} (s\<lparr>els := els s\<rparr>) s" by (simp add: frame_but_def)
  then show ?case using Nil by (simp add: flagged_def)
next
  case (Cons e ls)
  let ?l = "(els s e)\<lparr>el_flags := el_flags (els s e) OR flags\<rparr>"
  let ?s1 = "set_els e ?l s"
  have i: "sched_inv ?s1" using Cons(2) by simp
  have e1: "els ?s1 = (els s)(e := ?l)" "threads ?s1 = threads s" "currp ?s1 = currp s" "prio ?s1 = prio s"
    by (simp_all add: set_els_def prio_def fun_eq_iff)
  from signalI_inv[OF i, of "el_listener (els s e)" "el_mask (els s e)"] obtain s2 where
    s2: "chEvtSignalI (el_listener (els s e)) (el_mask (els s e)) ?s1 = Done () s2" "sched_inv s2" "currp s2 = currp s"
      "p_epending (threads s2 (el_listener (els s e))) = p_epending (threads s (el_listener (els s e))) OR el_mask (els s e)"
      "\<And>u. u \<noteq> el_listener (els s e) \<Longrightarrow> threads s2 u = threads s u"
      "frame_but {QReady} ?s1 s2" "prio s2 = prio s"
    unfolding e1 by blast
  have e2: "els s2 = (els s)(e := ?l)" using sched_frame_fields(8)[OF s2(6)] e1 by simp
  from Cons(1)[OF s2(2)] obtain s' where
    s': "oiter (\<lambda>elp s1.
       let s2 = set_els elp ((els s1 elp)\<lparr>el_flags := el_flags (els s1 elp) OR flags\<rparr>) s1
       in chEvtSignalI (el_listener (els s2 elp)) (el_mask (els s2 elp)) s2) ls s2 = Done () s'"
      "sched_inv s'" "currp s' = currp s2" "prio s' = prio s2" "els s' = flagged ls flags (els s2)"
      "frame_but {QReady} (s2\<lparr>els := els s'\<rparr>) s'"
      "\<And>t k. bit (p_epending (threads s' t)) k \<longleftrightarrow> bit (p_epending (threads s2 t)) k \<or>
         (\<exists>e\<in>set ls. el_listener (els s2 e) = t \<and> bit (el_mask (els s2 e)) k)"
      "\<And>t. t \<notin> (\<lambda>e. el_listener (els s2 e)) ` set ls \<Longrightarrow> threads s' t = threads s2 t"
    by blast
  have same: "el_listener (els s2 x) = el_listener (els s x)" "el_mask (els s2 x) = el_mask (els s x)" for x
    by (simp_all add: e2)
  have el: "els s' = flagged (e # ls) flags (els s)"
    unfolding s'(5) e2 flagged_def by (auto simp: or.assoc)
  have fr: "frame_but {QReady} (s\<lparr>els := els s'\<rparr>) s'"
    using s2(6) s'(6) by (auto simp: frame_but_def set_els_def)
  have pe: "bit (p_epending (threads s2 t)) k \<longleftrightarrow> bit (p_epending (threads s t)) k \<or>
      (el_listener (els s e) = t \<and> bit (el_mask (els s e)) k)" for t k
    using s2(4,5) by (cases "t = el_listener (els s e)") (auto simp: bit_or_iff)
  have bits: "bit (p_epending (threads s' t)) k \<longleftrightarrow> bit (p_epending (threads s t)) k \<or>
      (\<exists>x\<in>set (e # ls). el_listener (els s x) = t \<and> bit (el_mask (els s x)) k)" for t k
    unfolding s'(7) same pe by auto
  have others: "threads s' t = threads s t" if "t \<notin> (\<lambda>e. el_listener (els s e)) ` set (e # ls)" for t
    using s'(8)[of t] s2(5)[of t] that by (auto simp: same)
  have "oiter (\<lambda>elp s1.
       let s2 = set_els elp ((els s1 elp)\<lparr>el_flags := el_flags (els s1 elp) OR flags\<rparr>) s1
       in chEvtSignalI (el_listener (els s2 elp)) (el_mask (els s2 elp)) s2) (e # ls) s = Done () s'"
    using s2(1) s'(1) by (simp add: e1 Let_def)
  then show ?case using s'(2,3,4) s2(3,7) el fr bits others by (intro exI[of _ s']) simp
qed

lemma broadcast_flags:
  assumes "kinv s"
  shows "\<exists>s'. chEvtBroadcastFlagsI esp flags s = Done () s' \<and> kinv s' \<and> currp s' = currp s \<and> prio s' = prio s \<and>
    els s' = flagged (es_next s esp) flags (els s) \<and> frame_but {QReady} (s\<lparr>els := els s'\<rparr>) s' \<and>
    (\<forall>t k. bit (p_epending (threads s' t)) k \<longleftrightarrow> bit (p_epending (threads s t)) k \<or>
       (\<exists>e\<in>set (es_next s esp). el_listener (els s e) = t \<and> bit (el_mask (els s e)) k))"
proof -
  have i: "sched_inv s" using assms by (simp add: kinv_def)
  from broadcast_loop[OF i, of flags "es_next s esp"] obtain s' where
    s': "chEvtBroadcastFlagsI esp flags s = Done () s'" "sched_inv s'" "currp s' = currp s" "prio s' = prio s"
      "els s' = flagged (es_next s esp) flags (els s)" "frame_but {QReady} (s\<lparr>els := els s'\<rparr>) s'"
      "\<forall>t k. bit (p_epending (threads s' t)) k \<longleftrightarrow> bit (p_epending (threads s t)) k \<or>
       (\<exists>e\<in>set (es_next s esp). el_listener (els s e) = t \<and> bit (el_mask (els s e)) k)"
    unfolding chEvtBroadcastFlagsI_def by blast
  have "sem_ok (s\<lparr>els := els s'\<rparr>)" using assms by (simp add: kinv_def sem_ok_def)
  then have "kinv s'" using s'(2) sem_ok_frame[OF s'(6)] by (simp add: kinv_def)
  then show ?thesis using s' by blast
qed

section \<open>Dispatching\<close>

text \<open>
  The dispatcher calls the handlers of the set bits, in the order of their numbers, and ends.
\<close>

lemma bit_event_mask: "bit (EVENT_MASK e) n \<longleftrightarrow> n = e \<and> e < 32"
  by (auto simp: EVENT_MASK_def bit_simps)

lemma and_event_mask: "e < 32 \<Longrightarrow> m AND EVENT_MASK e = 0 \<longleftrightarrow> \<not> bit m e" for m :: eventmask
proof
  assume "e < 32" "m AND EVENT_MASK e = 0"
  then show "\<not> bit m e" using bit_event_mask[of e e] by (metis bit_0_eq bit_and_iff bot_apply bot_bool_def)
next
  assume "\<not> bit m e"
  then show "m AND EVENT_MASK e = 0" by (intro bit_eqI) (auto simp: bit_simps bit_event_mask)
qed

lemma dispatch_loop:
  assumes "\<And>j. j < eid \<Longrightarrow> \<not> bit emask j" "eid \<le> 32"
  shows "evt_dispatch_loop handlers eid emask s = oiter handlers (filter (bit emask) [eid..<32]) s"
  using assms
proof (induction "32 - eid" arbitrary: eid emask s)
  case 0
  then have "emask = 0" by (intro bit_eqI) (auto dest: bit_imp_le_length)
  then show ?case using 0 by (simp add: evt_dispatch_loop.simps)
next
  case (Suc n)
  then have e: "eid < 32" "n = 32 - (eid + 1)" "eid + 1 \<le> 32" by auto
  show ?case
  proof (cases "emask = 0")
    case True
    then show ?thesis by (simp add: evt_dispatch_loop.simps)
  next
    case m: False
    show ?thesis
    proof (cases "bit emask eid")
      case True
      let ?m = "emask AND NOT (EVENT_MASK eid)"
      have low: "\<not> bit ?m j" if "j < eid + 1" for j
        using that Suc(3) e(1) by (cases "j = eid") (auto simp: bit_simps bit_event_mask)
      have same: "filter (bit ?m) [eid + 1..<32] = filter (bit emask) [eid + 1..<32]"
        by (rule filter_cong) (auto simp: bit_simps bit_event_mask)
      have "evt_dispatch_loop handlers eid emask s =
          obind (handlers eid s) (\<lambda>_. evt_dispatch_loop handlers (eid + 1) ?m)"
        using m e(1) True by (subst evt_dispatch_loop.simps) (simp add: and_event_mask)
      also have "evt_dispatch_loop handlers (eid + 1) ?m = oiter handlers (filter (bit emask) [eid + 1..<32])"
        by (rule ext) (use Suc(1)[OF e(2) low e(3)] same in simp)
      finally show ?thesis using True e(1) by (simp add: upt_conv_Cons)
    next
      case False
      have low: "\<not> bit emask j" if "j < eid + 1" for j using that Suc(3) False by (cases "j = eid") auto
      have "evt_dispatch_loop handlers eid emask s = evt_dispatch_loop handlers (eid + 1) emask s"
        using m e(1) False by (subst evt_dispatch_loop.simps) (simp add: and_event_mask)
      then show ?thesis using Suc(1)[OF e(2) low e(3)] False e(1) by (simp add: upt_conv_Cons)
    qed
  qed
qed

lemma dispatch_all: "chEvtDispatch handlers emask s = oiter handlers (filter (bit emask) [0..<32]) s"
  unfolding chEvtDispatch_def by (rule dispatch_loop) simp_all

end
