(* ===== verification/Dynamic.thy ===== *)
theory Dynamic
  imports Heap Threads Events
begin

text \<open>
  Dynamic threads and the system as a whole: \<^verbatim>\<open>os/kernel/src/chdynamic.c\<close>, \<open>chThdWait\<close> of
  \<^verbatim>\<open>chthreads.c\<close>, the registry scan of \<^verbatim>\<open>chregistry.c\<close>, \<^verbatim>\<open>chsys.c\<close>, and the interrupt entry and exit
  of \<^verbatim>\<open>os/ports/GCC/ARMCMx/chcore_v7m.c\<close>. A thread whose working area was allocated is numbered by the
  address of the area.
\<close>

section \<open>References\<close>

definition thd_addr :: "tid \<Rightarrow> addr" where "thd_addr tp = of_nat tp"

definition chThdAddRef :: "tid \<Rightarrow> 'x kernel_scheme \<Rightarrow> ('x, tid) kout" where
  "chThdAddRef tp s = Done tp (upd_thread tp (\<lambda>th. th\<lparr>p_refs := p_refs th + 1\<rparr>) s)"

text \<open>The count is dropped under the lock; the state of the thread is tested after it was released.\<close>

definition chThdRelease :: "tid \<Rightarrow> 'x kernel_scheme \<Rightarrow> ('x, unit) kout" where
  "chThdRelease tp s =
     (let s1 = upd_thread tp (\<lambda>th. th\<lparr>p_refs := p_refs th - 1\<rparr>) s;
          refs = p_refs (threads s1 tp)
      in Window s1 (\<lambda>s2.
        if refs = 0 \<and> p_state (threads s2 tp) = THD_STATE_FINAL then
          (let mode = p_flags (threads s2 tp) AND THD_MEM_MODE_MASK in
           if mode = THD_MEM_MODE_HEAP then chHeapFree (thd_addr tp) (reg_remove tp s2)
           else if mode = THD_MEM_MODE_MEMPOOL then
             (case p_mpool (threads s2 tp) of
                Some mp \<Rightarrow> chPoolFree mp (thd_addr tp) (reg_remove tp s2)
              | None \<Rightarrow> Fault)
           else Done () s2)
        else Done () s2))"

definition chThdCreateFromHeap :: "nat \<Rightarrow> size_t \<Rightarrow> tprio \<Rightarrow> 'x kernel_scheme \<Rightarrow> ('x, tid option) kout" where
  "chThdCreateFromHeap heapp sz pri s =
     obind (chHeapAlloc heapp sz s) (\<lambda>wsp s1.
     if wsp = 0 then Done None s1
     else Window s1 (\<lambda>s2.
       let tp = unat wsp;
           s3 = upd_thread tp (\<lambda>th. th\<lparr>p_flags := THD_MEM_MODE_HEAP\<rparr>) (chThdCreateI tp pri s2)
       in obind (chSchWakeupS tp RDY_OK s3) (\<lambda>_ s4. Done (Some tp) s4)))"

definition chThdCreateFromMemoryPool :: "nat \<Rightarrow> tprio \<Rightarrow> 'x kernel_scheme \<Rightarrow> ('x, tid option) kout" where
  "chThdCreateFromMemoryPool mp pri s =
     obind (chPoolAlloc mp s) (\<lambda>wsp s1.
     if wsp = 0 then Done None s1
     else Window s1 (\<lambda>s2.
       let tp = unat wsp;
           s3 = upd_thread tp (\<lambda>th. th\<lparr>p_flags := THD_MEM_MODE_MEMPOOL, p_mpool := Some mp\<rparr>)
                  (chThdCreateI tp pri s2)
       in obind (chSchWakeupS tp RDY_OK s3) (\<lambda>_ s4. Done (Some tp) s4)))"

definition chThdWait :: "tid \<Rightarrow> 'x kernel_scheme \<Rightarrow> ('x, msg) kout" where
  "chThdWait tp s =
     obind (if p_state (threads s tp) \<noteq> THD_STATE_FINAL
            then chSchGoSleepS THD_STATE_WTEXIT
                   (upd_thread tp (\<lambda>th. th\<lparr>p_waiting := currp s # p_waiting th\<rparr>) s)
            else Done () s) (\<lambda>_ s1.
     let m = rdymsg (p_u (threads s1 tp)) in
     Window s1 (\<lambda>s2. obind (chThdRelease tp s2) (\<lambda>_ s3. Done m s3)))"

section \<open>The registry\<close>

definition chRegFirstThread :: "'x kernel_scheme \<Rightarrow> ('x, tid) kout" where
  "chRegFirstThread s =
     (case registry s of [] \<Rightarrow> Fault
      | tp # _ \<Rightarrow> Done tp (upd_thread tp (\<lambda>th. th\<lparr>p_refs := p_refs th + 1\<rparr>) s))"

text \<open>The thread registered after \<open>tp\<close>.\<close>

fun reg_next :: "tid \<Rightarrow> tid list \<Rightarrow> tid option" where
  "reg_next tp (a # b # ts) = (if a = tp then Some b else reg_next tp (b # ts))"
| "reg_next tp _ = None"

definition chRegNextThread :: "tid \<Rightarrow> 'x kernel_scheme \<Rightarrow> ('x, tid option) kout" where
  "chRegNextThread tp s =
     (let ntp = reg_next tp (registry s);
          s1 = (case ntp of None \<Rightarrow> s | Some n \<Rightarrow> upd_thread n (\<lambda>th. th\<lparr>p_refs := p_refs th + 1\<rparr>) s)
      in Window s1 (\<lambda>s2. obind (chThdRelease tp s2) (\<lambda>_ s3. Done ntp s3)))"

section \<open>System\<close>

definition main_tid :: tid where "main_tid = 0"

text \<open>\<open>port_init\<close> and \<open>chSysEnable\<close> only program the interrupt controller.\<close>

definition chSysInit :: "addr \<Rightarrow> addr \<Rightarrow> nat \<Rightarrow> nat \<Rightarrow> 'x kernel_scheme \<Rightarrow> ('x, unit) kout" where
  "chSysInit heap_base heap_end default_heap heap_mtx s =
     (let s1 = vt_init (scheduler_init s);
          s2 = heap_init default_heap heap_mtx (core_init heap_base heap_end s1);
          s3 = setcurrp main_tid (thread_init main_tid NORMALPRIO s2);
          s4 = set_state (currp s3) THD_STATE_CURRENT s3
      in Window s4 (\<lambda>s5.
         let s6 = chRegSetThreadName ''main'' s5
         in obind (chThdCreateStatic idle_tid IDLEPRIO s6) (\<lambda>_ s7. Done () s7)))"

definition chSysTimerHandlerI :: "nat \<Rightarrow> (vtfunc \<Rightarrow> nat \<Rightarrow> 'x kernel_scheme \<Rightarrow> ('x, unit) kout) \<Rightarrow>
    'x kernel_scheme \<Rightarrow> ('x, unit) kout" where
  "chSysTimerHandlerI fuel call s =
     (let s1 = (if p_preempt (cur s) > 0
                then upd_thread (currp s) (\<lambda>th. th\<lparr>p_preempt := p_preempt th - 1\<rparr>) s else s);
          s2 = upd_thread (currp s1) (\<lambda>th. th\<lparr>p_time := p_time th + 1\<rparr>) s1
      in chVTDoTickI fuel call s2)"

text \<open>
  The end of an interrupt that returns to a thread: the thread first runs \<open>_port_switch_from_isr\<close>
  when a preemption is due.
\<close>

definition port_switch_from_isr :: "'x kernel_scheme \<Rightarrow> ('x, unit) kout" where
  "port_switch_from_isr s = chSchDoReschedule s"

definition port_irq_epilogue :: "'x kernel_scheme \<Rightarrow> ('x, unit) kout" where
  "port_irq_epilogue s = (if chSchIsPreemptionRequired s then port_switch_from_isr s else Done () s)"

definition SysTickVector :: "nat \<Rightarrow> (vtfunc \<Rightarrow> nat \<Rightarrow> 'x kernel_scheme \<Rightarrow> ('x, unit) kout) \<Rightarrow>
    'x kernel_scheme \<Rightarrow> ('x, unit) kout" where
  "SysTickVector fuel call s = obind (chSysTimerHandlerI fuel call s) (\<lambda>_ s1. port_irq_epilogue s1)"

section \<open>Starting the system\<close>

text \<open>Memory before the kernel starts: no thread, no queue.\<close>

definition blank :: "'x kernel_scheme \<Rightarrow> bool" where
  "blank s \<longleftrightarrow> (\<forall>t. p_state (threads s t) = THD_STATE_FINAL) \<and> (\<forall>q. tq s q = []) \<and> (\<forall>n. 0 \<le> s_cnt s n)"

text \<open>The state in which \<open>main\<close> starts: it runs, and only the idle thread is ready.\<close>

lemma sys_init:
  assumes "blank s"
  shows "\<exists>s'. quiet (chSysInit base lim h m s) = Some ((), s') \<and> kinv s' \<and> top_running s' \<and>
    currp s' = main_tid \<and> tq s' QReady = [idle_tid] \<and> registry s' = [main_tid, idle_tid] \<and>
    prio s' main_tid = NORMALPRIO \<and> prio s' idle_tid = IDLEPRIO \<and> vtl s' = [] \<and> vt_systime s' = 0"
proof -
  note d = chSysInit_def vt_init_def scheduler_init_def queue_init_def core_init_def heap_init_def
    chMtxInit_def set_heap_def set_owner_def setcurrp_def thread_init_def reg_insert_def chRegSetThreadName_def
    chThdCreateStatic_def chThdCreateI_def chSchWakeupS_def prio_def upd_thread_def set_tq_def Let_def
    main_tid_def idle_tid_def NORMALPRIO_def IDLEPRIO_def NOPRIO_def chSchReadyI_def
  have b: "p_state (threads s t) = THD_STATE_FINAL" "tq s q = []" "0 \<le> s_cnt s n" for t q n
    using assms by (simp_all add: blank_def)
  obtain s' where s': "quiet (chSysInit base lim h m s) = Some ((), s')"
    and f: "currp s' = 0" "tq s' = (\<lambda>q. if q = QReady then [1] else [])" "registry s' = [0, 1]"
      "vtl s' = []" "vt_systime s' = 0" "s_cnt s' = s_cnt s"
    and t: "\<And>t. p_state (threads s' t) = (if t = 0 then THD_STATE_CURRENT else if t = 1 then THD_STATE_READY else THD_STATE_FINAL)"
      "p_prio (threads s' 0) = 64" "p_prio (threads s' 1) = 1"
    by (simp add: d b fun_eq_iff)
  have "sched_inv s'"
  proof (rule sched_butI)
    show "t \<in> set (tq s' q) \<longleftrightarrow> queued_as q (threads s' t)" for q t
      using t(1)[of t] f(2) by (cases q) (auto split: if_splits)
    show "prio_sorted (prio s') (tq s' QReady)" by (simp add: f)
    show "0 < prio s' u" if "p_state (threads s' u) \<noteq> THD_STATE_FINAL" for u
      using that t(1)[of u] t(2,3) by (auto simp: prio_def split: if_splits)
  qed (use f t in \<open>auto simp: idle_tid_def split: if_splits\<close>)
  moreover have "sem_ok s'" using b(2,3) by (auto simp: sem_ok_def f not_less)
  moreover have "top_running s'" using f t by (simp add: top_running_def prio_def)
  ultimately show ?thesis
    using s' f t by (simp add: kinv_def prio_def main_tid_def idle_tid_def NORMALPRIO_def IDLEPRIO_def)
qed

section \<open>Waiting for a thread and releasing it\<close>

text \<open>
  Waiting for a live thread: the caller sleeps on the list of the thread, and what \<open>chThdExit\<close> needs
  of that list holds again.
\<close>

lemma thd_wait_live:
  assumes "sched_inv s" "currp s \<noteq> idle_tid" "p_state (threads s tp) \<noteq> THD_STATE_FINAL" "tp \<noteq> currp s"
    "waiters_ok tp s"
  shows "\<exists>s1. chThdWait tp s = obind (chSysSwitch s1) (\<lambda>_ s2.
      Window s2 (\<lambda>s3. obind (chThdRelease tp s3) (\<lambda>_ s4. Done (rdymsg (p_u (threads s2 tp))) s4))) \<and>
    sched_inv s1 \<and> top_running s1 \<and> waiters_ok tp s1 \<and>
    p_waiting (threads s1 tp) = currp s # p_waiting (threads s tp) \<and> p_state (threads s1 (currp s)) = THD_STATE_WTEXIT"
proof -
  let ?s0 = "upd_thread tp (\<lambda>th. th\<lparr>p_waiting := currp s # p_waiting th\<rparr>) s"
  have s0: "sched_inv ?s0" by (rule sched_but_same[OF assms(1)]) auto
  note G = go_sleep_loose[OF s0, of THD_STATE_WTEXIT, simplified, OF assms(2)]
  note C = sched_inv_current[OF s0]
  have n: "hd (tq s QReady) \<noteq> currp s"
    using ready_nonempty[OF C(4)] C(2) assms(2) by (cases "tq s QReady") (auto simp: loose_def dest: spec[of _ QReady])
  have nw: "hd (tq s QReady) \<notin> set (p_waiting (threads s tp))"
  proof
    assume "hd (tq s QReady) \<in> set (p_waiting (threads s tp))"
    then have "p_state (threads s (hd (tq s QReady))) = THD_STATE_WTEXIT" using assms(5) by (simp add: waiters_ok_def)
    moreover have "hd (tq s QReady) \<in> set (tq s QReady)" using ready_nonempty[OF C(4)] assms(2) by simp
    ultimately show False using sched_butD(3)[OF assms(1), of "hd (tq s QReady)" QReady] by simp
  qed
  have cw: "currp s \<notin> set (p_waiting (threads s tp))"
    using assms(5) sched_inv_current(1)[OF assms(1)] by (auto simp: waiters_ok_def)
  have th: "threads (asleep THD_STATE_WTEXIT ?s0) u =
      (if u = hd (tq s QReady) then (threads ?s0 u)\<lparr>p_state := THD_STATE_CURRENT\<rparr>
       else if u = currp s then (threads ?s0 u)\<lparr>p_state := THD_STATE_WTEXIT, p_preempt := CH_TIME_QUANTUM\<rparr>
       else threads ?s0 u)" for u
    using n by (simp add: asleep_def)
  have pw: "p_waiting (threads (asleep THD_STATE_WTEXIT ?s0) tp) = currp s # p_waiting (threads s tp)"
    using th[of tp] assms(4) by (auto split: if_splits)
  have st: "p_state (threads (asleep THD_STATE_WTEXIT ?s0) w) = THD_STATE_WTEXIT"
    if "w \<in> set (currp s # p_waiting (threads s tp))" for w
    using th[of w] that n nw assms(5) by (auto simp: waiters_ok_def split: if_splits)
  have wk: "waiters_ok tp (asleep THD_STATE_WTEXIT ?s0)"
    using pw st assms(4,5) cw unfolding waiters_ok_def by auto
  show ?thesis
    using G pw st wk assms(3) by (intro exI[of _ "asleep THD_STATE_WTEXIT ?s0"]) (simp add: chThdWait_def Let_def)
qed

text \<open>The last reference to a finished thread from a pool returns its memory to the pool.\<close>

lemma release_pool:
  assumes "p_refs (threads s tp) = 1" "p_state (threads s tp) = THD_STATE_FINAL"
    "p_flags (threads s tp) AND THD_MEM_MODE_MASK = THD_MEM_MODE_MEMPOOL" "p_mpool (threads s tp) = Some mp"
  shows "\<exists>s'. quiet (chThdRelease tp s) = Some ((), s') \<and>
    mp_next (pools s' mp) = thd_addr tp # mp_next (pools s mp) \<and> registry s' = remove1 tp (registry s)"
  using assms by (simp add: chThdRelease_def Let_def chPoolFree_def chPoolFreeI_def set_pool_def
      reg_remove_def THD_MEM_MODE_HEAP_def THD_MEM_MODE_MEMPOOL_def)

text \<open>Any other release only drops the count.\<close>

lemma release_kept:
  assumes "p_refs (threads s tp) \<noteq> 1 \<or> p_state (threads s tp) \<noteq> THD_STATE_FINAL"
  shows "quiet (chThdRelease tp s) = Some ((), upd_thread tp (\<lambda>th. th\<lparr>p_refs := p_refs th - 1\<rparr>) s)"
  using assms by (auto simp: chThdRelease_def Let_def)

text \<open>The last reference to a finished thread from a heap frees its block.\<close>

lemma release_heap:
  assumes "p_refs (threads s tp) = 1" "p_state (threads s tp) = THD_STATE_FINAL"
    "p_flags (threads s tp) AND THD_MEM_MODE_MASK = THD_MEM_MODE_HEAP"
    "heap_ok i lo hi s" "m_owner s (h_mtx (heaps s i)) = None" "tq s (QMtx (h_mtx (heaps s i))) = []"
    "thd_addr tp = fst b + HDR" "hdrs s (fst b) = (i, snd b)" "lo \<le> beg b" "fin b \<le> hi"
    "\<forall>c\<in>set (h_free (heaps s i)). apart b c"
  shows "\<exists>s'. quiet (chThdRelease tp s) = Some ((), s') \<and> heap_ok i lo hi s' \<and>
    room (h_free (heaps s' i)) = room (h_free (heaps s i)) + ext b"
proof -
  let ?s1 = "reg_remove tp (upd_thread tp (\<lambda>th. th\<lparr>p_refs := p_refs th - 1\<rparr>) s)"
  have f: "heaps ?s1 = heaps s" "hdrs ?s1 = hdrs s" "m_owner ?s1 = m_owner s" "tq ?s1 = tq s"
    by (simp_all add: reg_remove_def)
  have h: "heap_ok i lo hi ?s1" using assms(4) by (simp add: heap_ok_def f)
  obtain s' where "chHeapFree (fst b + HDR) ?s1 = Done () s'" "heap_ok i lo hi s'"
    "room (h_free (heaps s' i)) = room (h_free (heaps s i)) + ext b"
    using heap_free[OF h, of b] assms(5-11) f by auto
  then show ?thesis using assms(1-3,7)
    by (simp add: chThdRelease_def Let_def THD_MEM_MODE_HEAP_def THD_MEM_MODE_MEMPOOL_def)
qed

section \<open>Ticks\<close>

text \<open>A tick charges the running thread and advances the clock and every timer by one.\<close>

definition charge :: "'x kernel_scheme \<Rightarrow> 'x kernel_scheme" where
  "charge s =
     (let s1 = (if p_preempt (cur s) > 0
                then upd_thread (currp s) (\<lambda>th. th\<lparr>p_preempt := p_preempt th - 1\<rparr>) s else s)
      in upd_thread (currp s1) (\<lambda>th. th\<lparr>p_time := p_time th + 1\<rparr>) s1)"

lemma timer_handler_eq: "chSysTimerHandlerI fuel call s = chVTDoTickI fuel call (charge s)"
  by (simp add: chSysTimerHandlerI_def charge_def Let_def)

lemma charge_fields [simp]: "vts (charge s) = vts s" "vtl (charge s) = vtl s"
  by (simp_all add: charge_def Let_def)

text \<open>Some ticks with nothing in between.\<close>

primrec run_ticks :: "nat \<Rightarrow> (vtfunc \<Rightarrow> nat \<Rightarrow> 'x kernel_scheme \<Rightarrow> ('x, unit) kout) \<Rightarrow> 'x kernel_scheme \<Rightarrow> ('x, unit) kout" where
  "run_ticks 0 call s = Done () s"
| "run_ticks (Suc n) call s = obind (chSysTimerHandlerI (Suc (length (vtl s))) call s) (\<lambda>_. run_ticks n call)"

locale system_tick = timer_calls call I Served
  for call :: "vtfunc \<Rightarrow> nat \<Rightarrow> 'x kernel_scheme \<Rightarrow> ('x, unit) kout"
    and I :: "'x kernel_scheme \<Rightarrow> bool" and Served :: "vtid \<Rightarrow> 'x kernel_scheme \<Rightarrow> bool" +
  assumes charged: "I s \<Longrightarrow> I (charge s)" "Served v s \<Longrightarrow> Served v (charge s)"
begin

lemma timer_tick:
  assumes "vt_ok s" "vt_live s" "I s"
  shows "\<exists>s'. chSysTimerHandlerI (Suc (length (vtl s))) call s = Done () s' \<and>
    vt_deadline s' = (\<lambda>v. case vt_deadline s v of None \<Rightarrow> None
       | Some d \<Rightarrow> if d = 1 then None else Some (d - 1)) \<and> vt_ok s' \<and> vt_live s' \<and> I s' \<and>
    (\<forall>v. vt_deadline s v = Some 1 \<or> Served v s \<longrightarrow> Served v s')"
proof -
  have "vt_ok (charge s)" "vt_live (charge s)" "vt_deadline (charge s) = vt_deadline s"
    using assms(1,2) by (simp_all only: vt_ok_def vt_live_def vt_deadline_def chVTIsArmedI_def charge_fields simp_thms)
  from vt_tick_deadline[OF this(1,2) charged(1)[OF assms(3)]] this(3) charged(2) show ?thesis
    by (simp only: charge_fields timer_handler_eq) blast
qed

text \<open>After \<open>n\<close> ticks every timer that was due has been served, and the others are nearer by \<open>n\<close>.\<close>

lemma timer_ticks:
  assumes "vt_ok s" "vt_live s" "I s"
  shows "\<exists>s'. run_ticks n call s = Done () s' \<and>
    vt_deadline s' = (\<lambda>v. case vt_deadline s v of None \<Rightarrow> None
       | Some d \<Rightarrow> if d \<le> n then None else Some (d - n)) \<and> vt_ok s' \<and> vt_live s' \<and> I s' \<and>
    (\<forall>v. (\<exists>d. vt_deadline s v = Some d \<and> d \<le> n) \<or> Served v s \<longrightarrow> Served v s')"
  using assms
proof (induction n arbitrary: s)
  case 0
  then have "vt_deadline s v = Some d \<Longrightarrow> 0 < d" for v d by (simp add: vt_live_iff)
  then show ?case using 0 by (fastforce simp: fun_eq_iff split: option.split)
next
  case (Suc n)
  from timer_tick[OF Suc.prems] obtain s1 where
    s1: "chSysTimerHandlerI (Suc (length (vtl s))) call s = Done () s1" "vt_ok s1" "vt_live s1" "I s1"
      "vt_deadline s1 = (\<lambda>v. case vt_deadline s v of None \<Rightarrow> None | Some d \<Rightarrow> if d = 1 then None else Some (d - 1))"
      "\<And>v. vt_deadline s v = Some 1 \<or> Served v s \<Longrightarrow> Served v s1" by blast
  from Suc.IH[OF s1(2-4)] obtain s' where
    s': "run_ticks n call s1 = Done () s'" "vt_ok s'" "vt_live s'" "I s'"
      "vt_deadline s' = (\<lambda>v. case vt_deadline s1 v of None \<Rightarrow> None | Some d \<Rightarrow> if d \<le> n then None else Some (d - n))"
      "\<And>v. (\<exists>d. vt_deadline s1 v = Some d \<and> d \<le> n) \<or> Served v s1 \<Longrightarrow> Served v s'" by blast
  have pos: "vt_deadline s v = Some d \<Longrightarrow> 0 < d" for v d using Suc.prems(2) by (simp add: vt_live_iff)
  have "vt_deadline s' v = (case vt_deadline s v of None \<Rightarrow> None
       | Some d \<Rightarrow> if d \<le> Suc n then None else Some (d - Suc n))" for v
    unfolding s'(5) s1(5) using pos[of v] by (auto split: option.split)
  moreover have "Served v s'" if due: "(\<exists>d. vt_deadline s v = Some d \<and> d \<le> Suc n) \<or> Served v s" for v
  proof (cases "Served v s \<or> vt_deadline s v = Some 1")
    case True
    then show ?thesis using s1(6) s'(6) by blast
  next
    case False
    then obtain d where d: "vt_deadline s v = Some d" "d \<le> Suc n" using due by blast
    moreover from this False have "d \<noteq> 1" by auto
    ultimately have d: "vt_deadline s v = Some d" "d \<le> Suc n" "d \<noteq> 1" by simp_all
    then have "vt_deadline s1 v = Some (d - 1)" "d - 1 \<le> n" unfolding s1(5) by auto
    then show ?thesis using s'(6) by blast
  qed
  ultimately show ?case using s1(1) s' by (intro exI[of _ s']) (auto simp: fun_eq_iff)
qed

end

text \<open>
  Round robin: when the quantum is used up and an equal is ready, the interrupt exit gives the
  processor to the equal that has waited longest; the thread that ran gets a new quantum and goes behind
  all its equals.
\<close>

lemma round_robin:
  assumes "sched_inv s" "p_preempt (cur s) = 0" "tq s QReady = t # ts" "prio s t = prio s (currp s)"
  shows "settles (\<lambda>s'. sched_inv s' \<and> top_running s' \<and> currp s' = t \<and>
    tq s' QReady = ins_behind (prio s) (currp s) ts \<and>
    p_preempt (threads s' (currp s)) = CH_TIME_QUANTUM) (port_irq_epilogue s)"
proof -
  have "port_irq_epilogue s = chSchDoRescheduleBehind s"
    using assms by (simp add: port_irq_epilogue_def port_switch_from_isr_def chSchDoReschedule_def
        chSchIsPreemptionRequired_def firstprio_def)
  with resched_behind[OF assms(1,3)] assms(4) show ?thesis by (auto elim: settles_mono)
qed

text \<open>Any interrupt exit leaves a thread of the highest ready priority running.\<close>

lemma irq_epilogue_s:
  assumes "sched_inv s"
  shows "settles (\<lambda>s'. sched_inv s' \<and> top_running s' \<and> sched_frame s s' \<and> prio s' = prio s) (port_irq_epilogue s)"
proof -
  have "port_irq_epilogue s = chSchPreemption s"
    by (simp add: port_irq_epilogue_def port_switch_from_isr_def preemption_forms)
  with preemption_s[OF assms] show ?thesis by simp
qed

end
