(* ===== verification/Msg.thy ===== *)
theory Msg
  imports Events
begin

text \<open>
  Synchronous messages, \<^verbatim>\<open>os/kernel/src/chmsg.c\<close> and \<^verbatim>\<open>chmsg.h\<close>: the sender stays suspended from
  the moment it queues its message until the receiver releases it with an answer.
\<close>

definition chMsgIsPendingI :: "tid \<Rightarrow> 'x kernel_scheme \<Rightarrow> bool" where
  "chMsgIsPendingI tp s \<longleftrightarrow> tq s (QMsg tp) \<noteq> []"

definition chMsgGet :: "tid \<Rightarrow> 'x kernel_scheme \<Rightarrow> msg" where
  "chMsgGet tp s = p_msg (threads s tp)"

definition chMsgReleaseS :: "tid \<Rightarrow> msg \<Rightarrow> 'x kernel_scheme \<Rightarrow> ('x, unit) kout" where
  "chMsgReleaseS tp m s = chSchWakeupS tp m s"

definition chMsgSend :: "tid \<Rightarrow> msg \<Rightarrow> 'x kernel_scheme \<Rightarrow> ('x, msg) kout" where
  "chMsgSend tp m s =
     (let ctp = currp s;
          s1 = upd_thread ctp (\<lambda>th. th\<lparr>p_msg := m\<rparr>) s;
          s2 = set_wtobjp ctp (QMsg tp) s1;
          s3 = queue_insert ctp (QMsg tp) s2
      in obind (if p_state (threads s3 tp) = THD_STATE_WTMSG
                then obind (chSchReadyI tp s3) (\<lambda>_ s4. Done () s4) else Done () s3) (\<lambda>_ s4.
         obind (chSchGoSleepS THD_STATE_SNDMSGQ s4) (\<lambda>_ s5.
         Done (rdymsg (p_u (threads s5 ctp))) s5)))"

definition chMsgWait :: "'x kernel_scheme \<Rightarrow> ('x, tid) kout" where
  "chMsgWait s =
     obind (if \<not> chMsgIsPendingI (currp s) s then chSchGoSleepS THD_STATE_WTMSG s else Done () s) (\<lambda>_ s1.
     obind (fifo_remove (QMsg (currp s1)) s1) (\<lambda>tp s2. Done tp (set_state tp THD_STATE_SNDMSG s2)))"

definition chMsgRelease :: "tid \<Rightarrow> msg \<Rightarrow> 'x kernel_scheme \<Rightarrow> ('x, unit) kout" where
  "chMsgRelease tp m s = chMsgReleaseS tp m s"

section \<open>Properties\<close>

lemma sched_but_insert: "sched_but {c} s \<Longrightarrow> xs = tq s q @ [c] \<Longrightarrow> c \<notin> set (tq s q) \<Longrightarrow> q \<noteq> QReady \<Longrightarrow>
    sched_but {c} (set_tq q xs s)"
  unfolding sched_but_def by auto

text \<open>
  A sent message waits at the tail of the receiver's queue with its content; a receiver that slept in
  \<open>chMsgWait\<close> is no longer asleep.
\<close>

lemma msg_send:
  assumes "sched_inv s" "currp s \<noteq> idle_tid" "tp \<noteq> currp s"
  shows "\<exists>s1. chMsgSend tp m s =
      obind (chSysSwitch s1) (\<lambda>_ s2. Done (rdymsg (p_u (threads s2 (currp s)))) s2) \<and>
    sched_inv s1 \<and> top_running s1 \<and> tq s1 (QMsg tp) = tq s (QMsg tp) @ [currp s] \<and>
    chMsgGet (currp s) s1 = m \<and> p_state (threads s1 (currp s)) = THD_STATE_SNDMSGQ \<and>
    (p_state (threads s tp) = THD_STATE_WTMSG \<longrightarrow>
       p_state (threads s1 tp) \<in> {THD_STATE_READY, THD_STATE_CURRENT})"
proof -
  let ?me = "currp s" let ?q = "QMsg tp"
  note C = sched_inv_current[OF assms(1)]
  let ?s2 = "upd_thread ?me (\<lambda>th. th\<lparr>p_msg := m, p_u := UObj ?q\<rparr>) s"
  let ?s3 = "set_tq ?q (tq s ?q @ [?me]) ?s2"
  have lo: "?me \<notin> set (tq s q)" for q using C(2) by (simp add: loose_def)
  have "sched_but {?me} ?s2" by (rule sched_but_upd[OF C(4)]) (use C in simp_all)
  then have s3: "sched_but {?me} ?s3" by (rule sched_but_insert) (use lo in simp_all)
  have p2: "prio ?s2 = prio s" by (auto simp: prio_def)
  have pm: "0 < prio s ?me" by (rule C(3))
  have twice: "queue_insert ?me ?q (set_wtobjp ?me ?q (upd_thread ?me (\<lambda>th. th\<lparr>p_msg := m\<rparr>) s)) = ?s3"
    by (rule kernel.equality) (simp_all add: queue_insert_def)
  define s4 where "s4 = (if p_state (threads s tp) = THD_STATE_WTMSG then ready_put tp ?s3 else ?s3)"
  have s4: "sched_but {?me} s4 \<and> currp s4 = ?me \<and> prio s4 = prio s \<and> tq s4 ?q = tq s ?q @ [?me] \<and>
      (\<forall>q. ?me \<in> set (tq s4 q) \<longleftrightarrow> q = ?q) \<and> threads s4 ?me = threads ?s3 ?me \<and>
      (if p_state (threads s tp) = THD_STATE_WTMSG then Done () s4 = obind (chSchReadyI tp ?s3) (\<lambda>_ s4. Done () s4) \<and>
         p_state (threads s4 tp) = THD_STATE_READY else s4 = ?s3)"
  proof (cases "p_state (threads s tp) = THD_STATE_WTMSG")
    case True
    then have nq: "\<not> queued_as q (threads s tp)" for q by (cases q) auto
    have "tp \<notin> set (tq s q)" for q using sched_butD(3)[OF assms(1), of tp q] nq by simp
    then have lt: "loose tp ?s3" using assms(3) by (simp add: loose_def)
    have pt: "0 < prio s tp" using sched_butD(5)[OF assms(1), of tp] True by simp
    have "sched_but {?me} (ready_put tp ?s3)"
      by (rule ready_put_inv[OF s3 lt]) (use assms(3) pt p2 in simp_all)
    then show ?thesis using True assms(3) lo pt p2 by (auto simp: s4_def chSchReadyI_eq)
  next
    case False
    then show ?thesis using s3 lo p2 by (auto simp: s4_def)
  qed
  have qc: "currp s4 \<in> set (tq s4 q) \<longleftrightarrow> queued_as q ((cur s4)\<lparr>p_state := THD_STATE_SNDMSGQ\<rparr>)" for q
    using s4 by (cases q) auto
  have b4: "sched_but {currp s4} s4" "currp s4 \<noteq> idle_tid" "0 < prio s4 (currp s4)" using s4 assms(2) pm by simp_all
  note G = go_sleep[OF b4(1,2) _ _ qc b4(3), simplified]
  let ?s5 = "asleep THD_STATE_SNDMSGQ s4"
  have "hd (tq s4 QReady) \<in> set (tq s4 QReady)" by (rule hd_in_set[OF ready_nonempty[OF b4(1,2)]])
  moreover have "?me \<notin> set (tq s4 QReady)" using s4 by simp
  ultimately have ne: "hd (tq s4 QReady) \<noteq> ?me" by metis
  have "chMsgSend tp m s = obind (chSysSwitch ?s5) (\<lambda>_ s2. Done (rdymsg (p_u (threads s2 ?me))) s2)"
  proof -
    have st: "p_state (threads ?s3 tp) = p_state (threads s tp)" using assms(3) by simp
    have "(if p_state (threads ?s3 tp) = THD_STATE_WTMSG
        then obind (chSchReadyI tp ?s3) (\<lambda>_ s4. Done () s4) else Done () ?s3) = Done () s4"
      unfolding st using s4 by (simp split: if_splits)
    then show ?thesis unfolding chMsgSend_def Let_def twice by (simp only: obind.simps G(1))
  qed
  moreover have "chMsgGet ?me ?s5 = m" "p_state (threads ?s5 ?me) = THD_STATE_SNDMSGQ"
    using s4 ne by (simp_all add: chMsgGet_def asleep_def)
  moreover have "p_state (threads s tp) = THD_STATE_WTMSG \<Longrightarrow> p_state (threads ?s5 tp) \<in> {THD_STATE_READY, THD_STATE_CURRENT}"
    using s4 assms(3) by (simp add: asleep_def)
  ultimately show ?thesis using G(2,3) s4 by (intro exI[of _ ?s5]) simp
qed

text \<open>The receiver takes the oldest message; its sender is suspended until the release.\<close>

lemma msg_wait_pending:
  assumes "sched_inv s" "tq s (QMsg (currp s)) = t # ts"
  shows "\<exists>s'. chMsgWait s = Done t s' \<and> sched_inv s' \<and> tq s' (QMsg (currp s)) = ts \<and>
    p_state (threads s' t) = THD_STATE_SNDMSG \<and> chMsgGet t s' = chMsgGet t s \<and> loose t s' \<and> currp s' = currp s"
proof -
  note U = unqueue_head_inv[OF assms, simplified]
  let ?s1 = "set_tq (QMsg (currp s)) ts s"
  let ?s = "set_state t THD_STATE_SNDMSG ?s1"
  have s1: "sched_but {t} ?s" by (rule sched_but_upd[OF U(1)]) (use U in simp_all)
  have l: "loose t ?s" using U(2) by (simp add: loose_def)
  have "sched_inv ?s"
  proof (rule sched_butI)
    note D = sched_butD[OF s1]
    show "u \<in> set (tq ?s q) \<longleftrightarrow> queued_as q (threads ?s u)" for q u
    proof (cases "u = t")
      case True
      then show ?thesis using l by (cases q) (auto simp: loose_def dest: spec[of _ q])
    next
      case False
      then show ?thesis using D(3)[of u q] by simp
    qed
    show "p_state (threads ?s u) = THD_STATE_CURRENT \<longleftrightarrow> u = currp ?s" for u
      using D(4)[of u] U(4) by (cases "u = t") auto
    have "t \<noteq> idle_tid" using sched_butD(6)[OF assms(1)] U(5) by auto
    then show "p_state (threads ?s idle_tid) = THD_STATE_READY \<or> p_state (threads ?s idle_tid) = THD_STATE_CURRENT"
      using D(6) by simp
  qed (use sched_butD[OF s1] in simp_all)
  moreover have "chMsgWait s = Done t ?s"
    using assms(2) by (simp add: chMsgWait_def chMsgIsPendingI_def fifo_remove_def)
  ultimately show ?thesis using l by (intro exI[of _ ?s]) (simp add: chMsgGet_def)
qed

text \<open>The release hands the answer to the sender.\<close>

lemma msg_release:
  assumes "sched_inv s" "top_running s" "p_state (threads s t) = THD_STATE_SNDMSG"
  shows "settles (\<lambda>s'. sched_inv s' \<and> top_running s' \<and> p_u (threads s' t) = UMsg m \<and>
    p_state (threads s' t) \<in> {THD_STATE_READY, THD_STATE_CURRENT}) (chMsgRelease t m s)"
proof -
  have nq: "\<not> queued_as q (threads s t)" for q using assms(3) by (cases q) auto
  have lo: "loose t s" using sched_butD(3)[OF assms(1), of t] nq by (simp add: loose_def)
  have nc: "t \<noteq> currp s" using sched_butD(4)[OF assms(1), of t] assms(3) by auto
  have p: "0 < prio s t" using sched_butD(5)[OF assms(1), of t] assms(3) by simp
  have pc: "0 < prio s (currp s)" by (rule sched_inv_current(3)[OF assms(1)])
  have "sched_but {t} s" using assms(1) by (rule sched_but_mono) simp
  note W = wakeup_s[OF this lo nc p assms(2), where m = m]
  have u: "settles (\<lambda>s'. p_u (threads s' t) = UMsg m \<and>
      p_state (threads s' t) \<in> {THD_STATE_READY, THD_STATE_CURRENT}) (chSchWakeupS t m s)"
    using p pc nc by (auto simp: chSchWakeupS_def Let_def chSchReadyI_eq)
  show ?thesis
    unfolding chMsgRelease_def chMsgReleaseS_def
    by (rule settles_mono[OF settles_conj[OF W u]]) simp
qed

end
