(* ===== verification/Ring.thy ===== *)
theory Ring
  imports Prelude
begin

text \<open>
  Circular buffers: what \<open>n\<close> slots from a read offset hold, the effect of the writes and reads of the
  queue and mailbox code on it, and the interface of a bounded FIFO with what follows from it.
\<close>

definition ring :: "'a list \<Rightarrow> nat \<Rightarrow> nat \<Rightarrow> 'a list" where
  "ring buf rd n = map (\<lambda>i. buf ! ((rd + i) mod length buf)) [0..<n]"

text \<open>The pointer after \<open>p\<close>: \<open>if (++p >= top) p = buffer\<close>; and the one before it.\<close>

definition ring_next :: "'a list \<Rightarrow> nat \<Rightarrow> nat" where
  "ring_next buf p = (if length buf \<le> p + 1 then 0 else p + 1)"

definition ring_prev :: "'a list \<Rightarrow> nat \<Rightarrow> nat" where
  "ring_prev buf p = (if p = 0 then length buf - 1 else p - 1)"

lemma length_ring [simp]: "length (ring buf rd n) = n"
  by (simp add: ring_def)

lemma ring_0 [simp]: "ring buf rd 0 = []"
  by (simp add: ring_def)

lemma ring_next_mod: "p < length buf \<Longrightarrow> ring_next buf p = (p + 1) mod length buf"
  by (auto simp: ring_next_def le_Suc_eq)

lemma ring_next_less [simp]: "p < length buf \<Longrightarrow> ring_next buf p < length buf"
  by (auto simp: ring_next_def)

lemma ring_prev_less [simp]: "p < length buf \<Longrightarrow> ring_prev buf p < length buf"
  by (auto simp: ring_prev_def)

lemma ring_next_prev: "p < length buf \<Longrightarrow> ring_next buf (ring_prev buf p) = p"
  by (auto simp: ring_next_def ring_prev_def)

lemma mod_distinct:
  assumes "i < (n::nat)" "j < n" "i \<noteq> j"
  shows "(a + i) mod n \<noteq> (a + j) mod n"
  using assms
proof (induction i j rule: linorder_wlog)
  case (le i j)
  show ?case
  proof
    assume "(a + i) mod n = (a + j) mod n"
    then have "n dvd (a + j) - (a + i)" using le(1) mod_eq_dvd_iff_nat[of "a + i" "a + j" n] by simp
    then have "n dvd j - i" by simp
    then show False using le by (auto dest: dvd_imp_le)
  qed
next
  case (sym i j)
  then show ?case by metis
qed

text \<open>Writing behind the last slot appends, reading takes the first, writing before the first prepends.\<close>

lemma ring_append:
  assumes "n < length buf"
  shows "ring (buf[(rd + n) mod length buf := a]) rd (Suc n) = ring buf rd n @ [a]"
proof (rule nth_equalityI)
  fix i assume "i < length (ring (buf[(rd + n) mod length buf := a]) rd (Suc n))"
  then have i: "i < Suc n" by simp
  show "ring (buf[(rd + n) mod length buf := a]) rd (Suc n) ! i = (ring buf rd n @ [a]) ! i"
  proof (cases "i = n")
    case True
    moreover have "0 < length buf" using assms by linarith
    then have "(rd + n) mod length buf < length buf" by (rule mod_less_divisor)
    ultimately show ?thesis by (simp add: ring_def nth_append nth_list_update del: upt_Suc)
  next
    case False
    then have "(rd + n) mod length buf \<noteq> (rd + i) mod length buf" using mod_distinct[of n _ i rd] i assms by simp
    then show ?thesis using False i by (simp add: ring_def nth_append nth_list_update del: upt_Suc)
  qed
qed simp

lemma ring_Cons:
  "rd < length buf \<Longrightarrow> ring buf rd (Suc n) = buf ! rd # ring buf ((rd + 1) mod length buf) n"
  by (rule nth_equalityI)
    (auto simp: ring_def nth_Cons mod_add_left_eq simp del: upt_Suc split: nat.split)

lemma ring_shift: "rd < length buf \<Longrightarrow> ring buf rd (Suc n) = buf ! rd # ring buf (ring_next buf rd) n"
  by (simp add: ring_Cons ring_next_mod)

lemma ring_prepend:
  assumes "n < length buf" "rd < length buf"
  shows "ring (buf[ring_prev buf rd := a]) (ring_prev buf rd) (Suc n) = a # ring buf rd n"
proof -
  let ?p = "ring_prev buf rd" let ?b = "buf[?p := a]"
  have p: "?p < length buf" using assms by simp
  have "ring ?b ?p (Suc n) = ?b ! ?p # ring ?b rd n"
    using ring_shift[of ?p ?b n] p ring_next_prev[OF assms(2)] by (simp add: ring_next_def)
  moreover have "ring ?b rd n = ring buf rd n"
  proof (rule nth_equalityI)
    fix i assume "i < length (ring ?b rd n)"
    then have i: "i < n" by simp
    have "(rd + (length buf - 1)) mod length buf \<noteq> (rd + i) mod length buf"
      using mod_distinct[of "length buf - 1" "length buf" i rd] i assms by simp
    moreover have "(rd + (length buf - 1)) mod length buf = ?p"
      using assms(2) by (auto simp: ring_prev_def mod_if)
    ultimately show "ring ?b rd n ! i = ring buf rd n ! i" using i by (simp add: ring_def nth_list_update)
  qed simp
  ultimately show ?thesis using p by simp
qed

section \<open>Bounded FIFOs\<close>

locale bounded_fifo =
  fixes ok :: "'q \<Rightarrow> bool"
    and content :: "'q \<Rightarrow> 'a list"
    and cap :: "'q \<Rightarrow> nat"
    and put :: "'a \<Rightarrow> 'q \<Rightarrow> 'q option"
    and get :: "'q \<Rightarrow> ('a \<times> 'q) option"
  assumes within: "ok q \<Longrightarrow> length (content q) \<le> cap q"
    and put_room: "ok q \<Longrightarrow> length (content q) < cap q \<Longrightarrow>
      \<exists>q'. put a q = Some q' \<and> ok q' \<and> content q' = content q @ [a] \<and> cap q' = cap q"
    and put_full: "ok q \<Longrightarrow> length (content q) = cap q \<Longrightarrow> put a q = None"
    and get_first: "ok q \<Longrightarrow> content q = b # bs \<Longrightarrow>
      \<exists>q'. get q = Some (b, q') \<and> ok q' \<and> content q' = bs \<and> cap q' = cap q"
    and get_none: "ok q \<Longrightarrow> content q = [] \<Longrightarrow> get q = None"
begin

primrec put_all :: "'a list \<Rightarrow> 'q \<Rightarrow> 'q option" where
  "put_all [] q = Some q"
| "put_all (x # xs) q = (case put x q of None \<Rightarrow> None | Some q' \<Rightarrow> put_all xs q')"

primrec get_n :: "nat \<Rightarrow> 'q \<Rightarrow> ('a list \<times> 'q) option" where
  "get_n 0 q = Some ([], q)"
| "get_n (Suc n) q = (case get q of None \<Rightarrow> None
     | Some (x, q') \<Rightarrow> (case get_n n q' of None \<Rightarrow> None | Some (xs, q'') \<Rightarrow> Some (x # xs, q'')))"

lemma put_all_content:
  "ok q \<Longrightarrow> length (content q) + length xs \<le> cap q \<Longrightarrow>
   \<exists>q'. put_all xs q = Some q' \<and> ok q' \<and> content q' = content q @ xs \<and> cap q' = cap q"
proof (induction xs arbitrary: q)
  case (Cons x xs)
  then obtain q' where q': "put x q = Some q'" "ok q'" "content q' = content q @ [x]" "cap q' = cap q"
    using put_room[of q x] by auto
  then show ?case using Cons(1)[of q'] Cons(3) by auto
qed simp

lemma get_n_content:
  "ok q \<Longrightarrow> content q = xs @ ys \<Longrightarrow> \<exists>q'. get_n (length xs) q = Some (xs, q') \<and> ok q' \<and> content q' = ys \<and> cap q' = cap q"
proof (induction xs arbitrary: q)
  case (Cons x xs)
  then obtain q' where q': "get q = Some (x, q')" "ok q'" "content q' = xs @ ys" "cap q' = cap q"
    using get_first[of q x "xs @ ys"] by auto
  then show ?case using Cons(1)[of q'] by auto
qed simp

text \<open>What is put into an empty FIFO comes out in the same order, and no more.\<close>

lemma in_order:
  assumes "ok q" "content q = []" "length xs \<le> cap q"
  shows "\<exists>q1 q2. put_all xs q = Some q1 \<and> get_n (length xs) q1 = Some (xs, q2) \<and> ok q2 \<and> get q2 = None"
proof -
  from put_all_content[OF assms(1), of xs] assms obtain q1 where
    q1: "put_all xs q = Some q1" "ok q1" "content q1 = xs @ []" by auto
  from get_n_content[OF q1(2,3)] obtain q2 where "get_n (length xs) q1 = Some (xs, q2)" "ok q2" "content q2 = []" by auto
  then show ?thesis using q1 get_none by blast
qed

lemma put_iff_room: "ok q \<Longrightarrow> put a q \<noteq> None \<longleftrightarrow> length (content q) < cap q"
  using within put_room put_full by (metis le_neq_implies_less nat_less_le option.distinct(1))

end

end
