(* ===== verification/IOQueues.thy ===== *)
theory IOQueues
  imports Sem Ring
begin

text \<open>
  The I/O queues of \<^verbatim>\<open>os/kernel/src/chqueues.c\<close> and \<^verbatim>\<open>chqueues.h\<close>. The counter of an input queue is the
  number of bytes in it, that of an output queue the number of free slots. A notification function is
  a parameter (the driver passes its own); a wait loop has fuel, the number of times a reader may be
  woken and find nothing.
\<close>

definition Q_OK :: msg where "Q_OK = RDY_OK"
definition Q_TIMEOUT :: msg where "Q_TIMEOUT = RDY_TIMEOUT"
definition Q_RESET :: msg where "Q_RESET = RDY_RESET"
definition Q_EMPTY :: msg where "Q_EMPTY = -3"
definition Q_FULL :: msg where "Q_FULL = -4"

section \<open>The buffer\<close>

definition chQSizeI :: "genqueue \<Rightarrow> nat" where
  "chQSizeI q = length (q_buffer q)"

definition chQSpaceI :: "genqueue \<Rightarrow> nat" where
  "chQSpaceI q = q_counter q"

definition chIQGetFullI :: "genqueue \<Rightarrow> nat" where
  "chIQGetFullI q = chQSpaceI q"

definition chIQGetEmptyI :: "genqueue \<Rightarrow> nat" where
  "chIQGetEmptyI q = chQSizeI q - chQSpaceI q"

definition chIQIsEmptyI :: "genqueue \<Rightarrow> bool" where
  "chIQIsEmptyI q \<longleftrightarrow> chQSpaceI q \<le> 0"

definition chIQIsFullI :: "genqueue \<Rightarrow> bool" where
  "chIQIsFullI q \<longleftrightarrow> q_wrptr q = q_rdptr q \<and> q_counter q \<noteq> 0"

definition chOQGetFullI :: "genqueue \<Rightarrow> nat" where
  "chOQGetFullI q = chQSizeI q - chQSpaceI q"

definition chOQGetEmptyI :: "genqueue \<Rightarrow> nat" where
  "chOQGetEmptyI q = chQSpaceI q"

definition chOQIsEmptyI :: "genqueue \<Rightarrow> bool" where
  "chOQIsEmptyI q \<longleftrightarrow> q_wrptr q = q_rdptr q \<and> q_counter q \<noteq> 0"

definition chOQIsFullI :: "genqueue \<Rightarrow> bool" where
  "chOQIsFullI q \<longleftrightarrow> chQSpaceI q \<le> 0"

text \<open>\<open>*q_wrptr++ = b\<close> and \<open>b = *q_rdptr++\<close>, with the wrap at the top; \<open>None\<close> outside the buffer.\<close>

definition gq_store :: "byte \<Rightarrow> genqueue \<Rightarrow> genqueue option" where
  "gq_store b q =
     (if q_wrptr q < length (q_buffer q)
      then Some (q\<lparr>q_buffer := (q_buffer q)[q_wrptr q := b], q_wrptr := ring_next (q_buffer q) (q_wrptr q)\<rparr>)
      else None)"

definition gq_fetch :: "genqueue \<Rightarrow> (byte \<times> genqueue) option" where
  "gq_fetch q =
     (if q_rdptr q < length (q_buffer q)
      then Some (q_buffer q ! q_rdptr q, q\<lparr>q_rdptr := ring_next (q_buffer q) (q_rdptr q)\<rparr>)
      else None)"

text \<open>The buffer part of the four transfers.\<close>

definition iq_in :: "byte \<Rightarrow> genqueue \<Rightarrow> genqueue option" where
  "iq_in b q = (if chIQIsFullI q then None else gq_store b (q\<lparr>q_counter := q_counter q + 1\<rparr>))"

definition iq_out :: "genqueue \<Rightarrow> (byte \<times> genqueue) option" where
  "iq_out q = (if chIQIsEmptyI q then None else gq_fetch (q\<lparr>q_counter := q_counter q - 1\<rparr>))"

definition oq_in :: "byte \<Rightarrow> genqueue \<Rightarrow> genqueue option" where
  "oq_in b q = (if chOQIsFullI q then None else gq_store b (q\<lparr>q_counter := q_counter q - 1\<rparr>))"

definition oq_out :: "genqueue \<Rightarrow> (byte \<times> genqueue) option" where
  "oq_out q = (if chOQIsEmptyI q then None else gq_fetch (q\<lparr>q_counter := q_counter q + 1\<rparr>))"

text \<open>A queue over a non-empty buffer holds \<open>n\<close> bytes from the read pointer to the write pointer.\<close>

definition gq_ok :: "nat \<Rightarrow> genqueue \<Rightarrow> bool" where
  "gq_ok n q \<longleftrightarrow> q_rdptr q < length (q_buffer q) \<and> n \<le> length (q_buffer q) \<and>
     q_wrptr q = (q_rdptr q + n) mod length (q_buffer q)"

definition iq_ok :: "genqueue \<Rightarrow> bool" where "iq_ok q = gq_ok (q_counter q) q"

definition iq_content :: "genqueue \<Rightarrow> byte list" where
  "iq_content q = ring (q_buffer q) (q_rdptr q) (q_counter q)"

definition oq_ok :: "genqueue \<Rightarrow> bool" where
  "oq_ok q \<longleftrightarrow> q_counter q \<le> length (q_buffer q) \<and> gq_ok (chOQGetFullI q) q"

definition oq_content :: "genqueue \<Rightarrow> byte list" where
  "oq_content q = ring (q_buffer q) (q_rdptr q) (chOQGetFullI q)"

lemma gq_nonempty: "gq_ok n q \<Longrightarrow> q_buffer q \<noteq> []"
  by (auto simp: gq_ok_def)

lemma gq_full:
  assumes "gq_ok n q"
  shows "q_wrptr q = q_rdptr q \<longleftrightarrow> n = 0 \<or> n = length (q_buffer q)"
proof -
  have r: "q_rdptr q < length (q_buffer q)" "n \<le> length (q_buffer q)" using assms by (simp_all add: gq_ok_def)
  consider "n = 0" | "n = length (q_buffer q)" | "0 < n" "n < length (q_buffer q)" using r(2) by linarith
  then show ?thesis
  proof cases
    case 3
    then have "(q_rdptr q + n) mod length (q_buffer q) \<noteq> (q_rdptr q + 0) mod length (q_buffer q)"
      using r by (intro mod_distinct) auto
    then show ?thesis using 3 assms r by (simp add: gq_ok_def)
  qed (use assms r in \<open>simp_all add: gq_ok_def\<close>)
qed

lemma gq_store_ok:
  assumes "gq_ok n q" "n < length (q_buffer q)"
  shows "\<exists>q'. gq_store b q = Some q' \<and> gq_ok (Suc n) q' \<and> length (q_buffer q') = length (q_buffer q) \<and>
    q_counter q' = q_counter q \<and> q_rdptr q' = q_rdptr q \<and>
    ring (q_buffer q') (q_rdptr q') (Suc n) = ring (q_buffer q) (q_rdptr q) n @ [b]"
proof -
  have w: "q_wrptr q < length (q_buffer q)" using assms by (auto simp: gq_ok_def intro: mod_less_divisor)
  then have "ring_next (q_buffer q) (q_wrptr q) = (q_rdptr q + Suc n) mod length (q_buffer q)"
    using assms(1) by (simp add: ring_next_mod gq_ok_def mod_Suc_eq)
  then show ?thesis
    using assms w ring_append[of n "q_buffer q" "q_rdptr q" b] by (auto simp: gq_store_def gq_ok_def)
qed

lemma gq_fetch_ok:
  assumes "gq_ok (Suc n) q"
  shows "\<exists>q'. gq_fetch q = Some (hd (ring (q_buffer q) (q_rdptr q) (Suc n)), q') \<and> gq_ok n q' \<and>
    q_buffer q' = q_buffer q \<and> q_counter q' = q_counter q \<and>
    ring (q_buffer q') (q_rdptr q') n = tl (ring (q_buffer q) (q_rdptr q) (Suc n))"
  using assms ring_shift[of "q_rdptr q" "q_buffer q" n] gq_nonempty[OF assms]
  by (auto simp: gq_fetch_def gq_ok_def ring_next_mod mod_add_left_eq)

lemma gq_ok_counter [simp]: "gq_ok n (q\<lparr>q_counter := c\<rparr>) = gq_ok n q"
  by (simp add: gq_ok_def)

lemma iq_in_ok:
  assumes "iq_ok q" "length (iq_content q) < length (q_buffer q)"
  shows "\<exists>q'. iq_in b q = Some q' \<and> iq_ok q' \<and> iq_content q' = iq_content q @ [b] \<and>
    length (q_buffer q') = length (q_buffer q)"
proof -
  have g: "gq_ok (q_counter q) (q\<lparr>q_counter := q_counter q + 1\<rparr>)" "q_counter q < length (q_buffer q)"
    using assms by (simp_all add: iq_ok_def iq_content_def)
  then have "\<not> chIQIsFullI q" using gq_full[of "q_counter q" q] by (auto simp: chIQIsFullI_def)
  with gq_store_ok[OF g(1), of b] g(2) show ?thesis
    by (auto simp: iq_in_def iq_ok_def iq_content_def)
qed

lemma iq_out_ok:
  assumes "iq_ok q" "iq_content q = b # bs"
  shows "\<exists>q'. iq_out q = Some (b, q') \<and> iq_ok q' \<and> iq_content q' = bs \<and> length (q_buffer q') = length (q_buffer q)"
proof -
  obtain n where n: "q_counter q = Suc n" using assms(2) by (cases "q_counter q") (auto simp: iq_content_def)
  then have g: "gq_ok (Suc n) (q\<lparr>q_counter := n\<rparr>)" using assms(1) by (simp add: iq_ok_def)
  show ?thesis using gq_fetch_ok[OF g] assms(2) n
    by (auto simp: iq_out_def iq_ok_def iq_content_def chIQIsEmptyI_def chQSpaceI_def)
qed

interpretation iqf: bounded_fifo iq_ok iq_content "\<lambda>q. length (q_buffer q)" iq_in iq_out
proof unfold_locales
  fix q assume ok: "iq_ok q"
  show "length (iq_content q) \<le> length (q_buffer q)" using ok by (simp add: iq_ok_def gq_ok_def iq_content_def)
  show "\<exists>q'. iq_in a q = Some q' \<and> iq_ok q' \<and> iq_content q' = iq_content q @ [a] \<and> length (q_buffer q') = length (q_buffer q)"
    if "length (iq_content q) < length (q_buffer q)" for a using iq_in_ok[OF ok that] by blast
  show "iq_in a q = None" if "length (iq_content q) = length (q_buffer q)" for a
    using ok that gq_full[of "q_counter q" q] by (auto simp: iq_in_def chIQIsFullI_def iq_ok_def iq_content_def gq_ok_def)
  show "\<exists>q'. iq_out q = Some (b, q') \<and> iq_ok q' \<and> iq_content q' = bs \<and> length (q_buffer q') = length (q_buffer q)"
    if "iq_content q = b # bs" for b bs using iq_out_ok[OF ok that] by blast
  show "iq_out q = None" if "iq_content q = []"
    using that by (simp add: iq_out_def iq_content_def chIQIsEmptyI_def chQSpaceI_def flip: length_0_conv)
qed

lemma oq_full_len: "length (oq_content q) = length (q_buffer q) - q_counter q"
  by (simp add: oq_content_def chOQGetFullI_def chQSizeI_def chQSpaceI_def)

lemma oq_in_ok:
  assumes "oq_ok q" "length (oq_content q) < length (q_buffer q)"
  shows "\<exists>q'. oq_in b q = Some q' \<and> oq_ok q' \<and> oq_content q' = oq_content q @ [b] \<and>
    length (q_buffer q') = length (q_buffer q)"
proof -
  let ?n = "chOQGetFullI q"
  have g: "gq_ok ?n (q\<lparr>q_counter := q_counter q - 1\<rparr>)" "?n < length (q_buffer q)" "0 < q_counter q"
    using assms by (auto simp: oq_ok_def oq_full_len oq_content_def chOQGetFullI_def chQSizeI_def chQSpaceI_def)
  have "length (q_buffer q) - (q_counter q - Suc 0) = Suc ?n"
    using g(3) assms(1) by (auto simp: oq_ok_def chOQGetFullI_def chQSizeI_def chQSpaceI_def)
  with gq_store_ok[OF g(1), of b] g(2,3) assms(1) show ?thesis
    by (auto simp: oq_in_def oq_ok_def oq_content_def chOQIsFullI_def chOQGetFullI_def chQSizeI_def chQSpaceI_def)
qed

lemma oq_out_ok:
  assumes "oq_ok q" "oq_content q = b # bs"
  shows "\<exists>q'. oq_out q = Some (b, q') \<and> oq_ok q' \<and> oq_content q' = bs \<and> length (q_buffer q') = length (q_buffer q)"
proof -
  obtain n where n: "chOQGetFullI q = Suc n" using assms(2) by (cases "chOQGetFullI q") (auto simp: oq_content_def)
  then have g: "gq_ok (Suc n) (q\<lparr>q_counter := q_counter q + 1\<rparr>)" using assms(1) by (simp add: oq_ok_def)
  have c: "q_counter q < length (q_buffer q)" "length (q_buffer q) - Suc (q_counter q) = n"
    using n by (auto simp: chOQGetFullI_def chQSizeI_def chQSpaceI_def)
  have ne: "\<not> chOQIsEmptyI q"
    using assms(1) gq_full[of "Suc n" q] n c by (auto simp: oq_ok_def chOQIsEmptyI_def)
  show ?thesis using gq_fetch_ok[OF g] assms(2) n c ne
    by (auto simp: oq_out_def oq_ok_def oq_content_def chOQGetFullI_def chQSizeI_def chQSpaceI_def)
qed

interpretation oqf: bounded_fifo oq_ok oq_content "\<lambda>q. length (q_buffer q)" oq_in oq_out
proof unfold_locales
  fix q assume ok: "oq_ok q"
  show "length (oq_content q) \<le> length (q_buffer q)" by (simp add: oq_full_len)
  show "\<exists>q'. oq_in a q = Some q' \<and> oq_ok q' \<and> oq_content q' = oq_content q @ [a] \<and> length (q_buffer q') = length (q_buffer q)"
    if "length (oq_content q) < length (q_buffer q)" for a using oq_in_ok[OF ok that] by blast
  show "oq_in a q = None" if "length (oq_content q) = length (q_buffer q)" for a
    using ok that unfolding oq_full_len by (auto simp: oq_in_def chOQIsFullI_def chQSpaceI_def oq_ok_def gq_ok_def)
  show "\<exists>q'. oq_out q = Some (b, q') \<and> oq_ok q' \<and> oq_content q' = bs \<and> length (q_buffer q') = length (q_buffer q)"
    if "oq_content q = b # bs" for b bs using oq_out_ok[OF ok that] by blast
  show "oq_out q = None" if "oq_content q = []"
  proof -
    have "length (q_buffer q) - q_counter q = 0" using that oq_full_len[of q] by simp
    then have "q_counter q = length (q_buffer q)" using ok by (simp add: oq_ok_def)
    moreover from this have "q_wrptr q = q_rdptr q"
      using ok by (simp add: oq_ok_def gq_ok_def chOQGetFullI_def chQSizeI_def chQSpaceI_def)
    ultimately show ?thesis using ok by (auto simp: oq_out_def chOQIsEmptyI_def oq_ok_def gq_ok_def)
  qed
qed

section \<open>The operations\<close>

definition set_gq :: "nat \<Rightarrow> genqueue \<Rightarrow> 'x kernel_scheme \<Rightarrow> 'x kernel_scheme" where
  "set_gq i q s = s\<lparr>gqs := (gqs s)(i := q)\<rparr>"

definition qwait :: "nat \<Rightarrow> systime \<Rightarrow> 'x kernel_scheme \<Rightarrow> ('x, msg) kout" where
  "qwait qp time s =
     (if TIME_IMMEDIATE = time then Done Q_TIMEOUT s
      else chSchGoSleepTimeoutS THD_STATE_WTQUEUE time
        (queue_insert (currp s) (QGen qp) (set_wtobjp (currp s) (QGen qp) s)))"

definition chIQInit :: "nat \<Rightarrow> byte list \<Rightarrow> bool \<Rightarrow> 'x kernel_scheme \<Rightarrow> 'x kernel_scheme" where
  "chIQInit iqp buf notify s =
     set_gq iqp \<lparr>q_counter = 0, q_buffer = buf, q_wrptr = 0, q_rdptr = 0, q_notify = notify\<rparr>
       (queue_init (QGen iqp) s)"

definition chIQResetI :: "nat \<Rightarrow> 'x kernel_scheme \<Rightarrow> ('x, unit) kout" where
  "chIQResetI iqp s =
     ready_all (QGen iqp) Q_RESET
       (set_gq iqp ((gqs s iqp)\<lparr>q_rdptr := 0, q_wrptr := 0, q_counter := 0\<rparr>) s)"

definition chIQPutI :: "nat \<Rightarrow> byte \<Rightarrow> 'x kernel_scheme \<Rightarrow> ('x, msg) kout" where
  "chIQPutI iqp b s =
     (let q = gqs s iqp in
      if chIQIsFullI q then Done Q_FULL s
      else case gq_store b (q\<lparr>q_counter := q_counter q + 1\<rparr>) of
             None \<Rightarrow> Fault
           | Some q1 \<Rightarrow>
               (let s1 = set_gq iqp q1 s in
                obind (if notempty (QGen iqp) s1 then ready_first (QGen iqp) Q_OK s1 else Done () s1)
                  (\<lambda>_ s2. Done Q_OK s2)))"

text \<open>
  \<open>while (blocked(q)) if (stop(msg = qwait(q, time))) return msg;\<close>
\<close>

fun gq_wait_loop :: "(genqueue \<Rightarrow> bool) \<Rightarrow> (msg \<Rightarrow> bool) \<Rightarrow> nat \<Rightarrow> nat \<Rightarrow> systime \<Rightarrow> 'x kernel_scheme \<Rightarrow>
    ('x, msg) kout" where
  "gq_wait_loop blocked stop fuel qp time s =
     (if blocked (gqs s qp) then
        (case fuel of 0 \<Rightarrow> Fault
         | Suc n \<Rightarrow> obind (qwait qp time s) (\<lambda>m s1.
             if stop m then Done m s1 else gq_wait_loop blocked stop n qp time s1))
      else Done Q_OK s)"

declare gq_wait_loop.simps [simp del]

definition notify_q :: "(nat \<Rightarrow> 'x kernel_scheme \<Rightarrow> ('x, unit) kout) \<Rightarrow> nat \<Rightarrow> 'x kernel_scheme \<Rightarrow> ('x, unit) kout" where
  "notify_q nfy qp s = (if q_notify (gqs s qp) then nfy qp s else Done () s)"

definition chIQGetTimeout :: "(nat \<Rightarrow> 'x kernel_scheme \<Rightarrow> ('x, unit) kout) \<Rightarrow> nat \<Rightarrow> nat \<Rightarrow> systime \<Rightarrow>
    'x kernel_scheme \<Rightarrow> ('x, msg) kout" where
  "chIQGetTimeout nfy fuel iqp time s =
     obind (notify_q nfy iqp s) (\<lambda>_ s1.
     obind (gq_wait_loop chIQIsEmptyI (\<lambda>m. m < Q_OK) fuel iqp time s1) (\<lambda>m s2.
     if m < Q_OK then Done m s2
     else (let q = gqs s2 iqp in
       case gq_fetch (q\<lparr>q_counter := q_counter q - 1\<rparr>) of
         None \<Rightarrow> Fault
       | Some (b, q1) \<Rightarrow> Done (uint b) (set_gq iqp q1 s2))))"

definition chIQGet :: "(nat \<Rightarrow> 'x kernel_scheme \<Rightarrow> ('x, unit) kout) \<Rightarrow> nat \<Rightarrow> nat \<Rightarrow> 'x kernel_scheme \<Rightarrow> ('x, msg) kout" where
  "chIQGet nfy fuel iqp s = chIQGetTimeout nfy fuel iqp TIME_INFINITE s"

text \<open>
  The transfer loops return the bytes moved; \<open>n\<close> is a \<open>size_t\<close> that is decremented before it is
  tested, so that a transfer of no bytes is one of the whole range. The lock is released between two bytes.
\<close>

primrec iq_read_loop :: "(nat \<Rightarrow> 'x kernel_scheme \<Rightarrow> ('x, unit) kout) \<Rightarrow> nat \<Rightarrow> nat \<Rightarrow> systime \<Rightarrow> nat \<Rightarrow>
    byte list \<Rightarrow> 'x kernel_scheme \<Rightarrow> ('x, byte list) kout" where
  "iq_read_loop nfy fuel iqp time 0 r s = Done r s"
| "iq_read_loop nfy fuel iqp time (Suc n) r s =
     obind (notify_q nfy iqp s) (\<lambda>_ s1.
     obind (gq_wait_loop chIQIsEmptyI (\<lambda>m. m \<noteq> Q_OK) fuel iqp time s1) (\<lambda>m s2.
     if m \<noteq> Q_OK then Done r s2
     else (let q = gqs s2 iqp in
       case gq_fetch (q\<lparr>q_counter := q_counter q - 1\<rparr>) of
         None \<Rightarrow> Fault
       | Some (b, q1) \<Rightarrow>
           (let s3 = set_gq iqp q1 s2 in
            if n = 0 then Done (r @ [b]) s3
            else Window s3 (\<lambda>s4. iq_read_loop nfy fuel iqp time n (r @ [b]) s4)))))"

definition chIQReadTimeout :: "(nat \<Rightarrow> 'x kernel_scheme \<Rightarrow> ('x, unit) kout) \<Rightarrow> nat \<Rightarrow> nat \<Rightarrow> nat \<Rightarrow> systime \<Rightarrow>
    'x kernel_scheme \<Rightarrow> ('x, byte list) kout" where
  "chIQReadTimeout nfy fuel iqp n time s =
     iq_read_loop nfy fuel iqp time (if n = 0 then 4294967296 else n) [] s"

definition chOQInit :: "nat \<Rightarrow> byte list \<Rightarrow> bool \<Rightarrow> 'x kernel_scheme \<Rightarrow> 'x kernel_scheme" where
  "chOQInit oqp buf notify s =
     set_gq oqp \<lparr>q_counter = length buf, q_buffer = buf, q_wrptr = 0, q_rdptr = 0, q_notify = notify\<rparr>
       (queue_init (QGen oqp) s)"

definition chOQResetI :: "nat \<Rightarrow> 'x kernel_scheme \<Rightarrow> ('x, unit) kout" where
  "chOQResetI oqp s =
     ready_all (QGen oqp) Q_RESET
       (set_gq oqp ((gqs s oqp)\<lparr>q_rdptr := 0, q_wrptr := 0, q_counter := chQSizeI (gqs s oqp)\<rparr>) s)"

definition chOQPutTimeout :: "(nat \<Rightarrow> 'x kernel_scheme \<Rightarrow> ('x, unit) kout) \<Rightarrow> nat \<Rightarrow> nat \<Rightarrow> byte \<Rightarrow> systime \<Rightarrow>
    'x kernel_scheme \<Rightarrow> ('x, msg) kout" where
  "chOQPutTimeout nfy fuel oqp b time s =
     obind (gq_wait_loop chOQIsFullI (\<lambda>m. m < Q_OK) fuel oqp time s) (\<lambda>m s1.
     if m < Q_OK then Done m s1
     else (let q = gqs s1 oqp in
       case gq_store b (q\<lparr>q_counter := q_counter q - 1\<rparr>) of
         None \<Rightarrow> Fault
       | Some q1 \<Rightarrow> obind (notify_q nfy oqp (set_gq oqp q1 s1)) (\<lambda>_ s2. Done Q_OK s2)))"

definition chOQPut :: "(nat \<Rightarrow> 'x kernel_scheme \<Rightarrow> ('x, unit) kout) \<Rightarrow> nat \<Rightarrow> nat \<Rightarrow> byte \<Rightarrow>
    'x kernel_scheme \<Rightarrow> ('x, msg) kout" where
  "chOQPut nfy fuel oqp b s = chOQPutTimeout nfy fuel oqp b TIME_INFINITE s"

definition chOQGetI :: "nat \<Rightarrow> 'x kernel_scheme \<Rightarrow> ('x, msg) kout" where
  "chOQGetI oqp s =
     (let q = gqs s oqp in
      if chOQIsEmptyI q then Done Q_EMPTY s
      else case gq_fetch (q\<lparr>q_counter := q_counter q + 1\<rparr>) of
             None \<Rightarrow> Fault
           | Some (b, q1) \<Rightarrow>
               (let s1 = set_gq oqp q1 s in
                obind (if notempty (QGen oqp) s1 then ready_first (QGen oqp) Q_OK s1 else Done () s1)
                  (\<lambda>_ s2. Done (uint b) s2)))"

primrec oq_write_loop :: "(nat \<Rightarrow> 'x kernel_scheme \<Rightarrow> ('x, unit) kout) \<Rightarrow> nat \<Rightarrow> nat \<Rightarrow> systime \<Rightarrow>
    byte list \<Rightarrow> nat \<Rightarrow> 'x kernel_scheme \<Rightarrow> ('x, nat) kout" where
  "oq_write_loop nfy fuel oqp time [] w s = Done w s"
| "oq_write_loop nfy fuel oqp time (b # bs) w s =
     obind (gq_wait_loop chOQIsFullI (\<lambda>m. m \<noteq> Q_OK) fuel oqp time s) (\<lambda>m s1.
     if m \<noteq> Q_OK then Done w s1
     else (let q = gqs s1 oqp in
       case gq_store b (q\<lparr>q_counter := q_counter q - 1\<rparr>) of
         None \<Rightarrow> Fault
       | Some q1 \<Rightarrow>
           obind (notify_q nfy oqp (set_gq oqp q1 s1)) (\<lambda>_ s2.
           if bs = [] then Done (w + 1) s2
           else Window s2 (\<lambda>s3. oq_write_loop nfy fuel oqp time bs (w + 1) s3))))"

text \<open>The bytes to write are given as a list; an empty one would be read past its end.\<close>

definition chOQWriteTimeout :: "(nat \<Rightarrow> 'x kernel_scheme \<Rightarrow> ('x, unit) kout) \<Rightarrow> nat \<Rightarrow> nat \<Rightarrow> byte list \<Rightarrow>
    systime \<Rightarrow> 'x kernel_scheme \<Rightarrow> ('x, nat) kout" where
  "chOQWriteTimeout nfy fuel oqp bs time s =
     (if bs = [] then Fault else oq_write_loop nfy fuel oqp time bs 0 s)"

section \<open>Transfers\<close>

lemma set_gq_fields [simp]:
  "gqs (set_gq i q s) = (gqs s)(i := q)" "tq (set_gq i q s) = tq s" "threads (set_gq i q s) = threads s"
  "currp (set_gq i q s) = currp s" "prio (set_gq i q s) = prio s" "s_cnt (set_gq i q s) = s_cnt s"
  "vtl (set_gq i q s) = vtl s" "vts (set_gq i q s) = vts s" "es_next (set_gq i q s) = es_next s"
  "els (set_gq i q s) = els s" "kernel.more (set_gq i q s) = kernel.more s"
  by (simp_all add: set_gq_def prio_def fun_eq_iff)

lemma sched_set_gq [simp]: "sched_but F (set_gq i q s) = sched_but F s"
  "top_running (set_gq i q s) = top_running s" "kinv (set_gq i q s) = kinv s"
proof -
  show s: "sched_but F (set_gq i q s) = sched_but F s" for F by (rule sched_but_cong) simp_all
  show "top_running (set_gq i q s) = top_running s" by (rule top_running_cong) simp_all
  show "kinv (set_gq i q s) = kinv s" by (simp add: kinv_def s sem_ok_def)
qed

lemma kinv_readied:
  assumes "kinv s" "t \<in> set (tq s (QGen i))"
  shows "kinv (readied (QGen i) t m s)"
proof -
  have "sched_inv (readied (QGen i) t m s)" using readied_inv(1)[of s t "QGen i"] assms by (simp add: kinv_def)
  moreover have "sem_ok (readied (QGen i) t m s)"
    using assms(1) sem_ok_frame[OF readied_frame[of "QGen i" s t m]] by (simp add: kinv_def)
  ultimately show ?thesis by (simp add: kinv_def)
qed

lemma iq_full_iff:
  assumes "iq_ok q"
  shows "chIQIsFullI q \<longleftrightarrow> length (iq_content q) = length (q_buffer q)"
proof -
  have g: "gq_ok (q_counter q) q" using assms by (simp add: iq_ok_def)
  show ?thesis using gq_full[OF g] gq_nonempty[OF g] by (auto simp: chIQIsFullI_def iq_content_def)
qed

text \<open>A byte is appended and the thread that has waited longest is made ready with \<open>Q_OK\<close>; or the queue is full.\<close>

lemma iq_putI:
  assumes "kinv s" "iq_ok (gqs s i)"
  shows "if chIQIsFullI (gqs s i) then chIQPutI i b s = Done Q_FULL s
    else \<exists>q' s'. chIQPutI i b s = Done Q_OK s' \<and> kinv s' \<and> gqs s' = (gqs s)(i := q') \<and> iq_ok q' \<and>
      iq_content q' = iq_content (gqs s i) @ [b] \<and> tq s' (QGen i) = tl (tq s (QGen i)) \<and> currp s' = currp s \<and>
      (\<forall>t ts. tq s (QGen i) = t # ts \<longrightarrow> p_state (threads s' t) = THD_STATE_READY \<and> p_u (threads s' t) = UMsg Q_OK)"
proof (cases "chIQIsFullI (gqs s i)")
  case True
  then show ?thesis by (simp add: chIQPutI_def)
next
  case False
  then have "length (iq_content (gqs s i)) < length (q_buffer (gqs s i))"
    using iq_full_iff[OF assms(2)] iqf.within[OF assms(2)] by simp
  from iqf.put_room[OF assms(2) this, of b] obtain q' where q': "iq_in b (gqs s i) = Some q'" "iq_ok q'"
    "iq_content q' = iq_content (gqs s i) @ [b]" by blast
  let ?s1 = "set_gq i q' s"
  have k1: "kinv ?s1" using assms(1) by simp
  show ?thesis
  proof (cases "tq s (QGen i)")
    case Nil
    then have "chIQPutI i b s = Done Q_OK ?s1" using False q' by (simp add: chIQPutI_def iq_in_def notempty_def Let_def)
    then show ?thesis unfolding if_not_P[OF False] using q' k1 Nil by (intro exI[of _ q'] exI[of _ ?s1]) simp
  next
    case (Cons t ts)
    then have "ready_first (QGen i) Q_OK ?s1 = Done () (readied (QGen i) t Q_OK ?s1)"
      using ready_first_eq(1)[of ?s1 "QGen i" t ts Q_OK] k1 by (simp add: kinv_def)
    then have "chIQPutI i b s = Done Q_OK (readied (QGen i) t Q_OK ?s1)"
      using False q' Cons by (simp add: chIQPutI_def iq_in_def notempty_def Let_def)
    moreover have "kinv (readied (QGen i) t Q_OK ?s1)" using kinv_readied[OF k1, of t i Q_OK] Cons by simp
    moreover have "gqs (readied (QGen i) t Q_OK ?s1) = (gqs s)(i := q')" by (simp add: readied_def)
    ultimately have "\<exists>s'. chIQPutI i b s = Done Q_OK s' \<and> kinv s' \<and> gqs s' = (gqs s)(i := q') \<and>
      tq s' (QGen i) = ts \<and> currp s' = currp s \<and> p_state (threads s' t) = THD_STATE_READY \<and>
      p_u (threads s' t) = UMsg Q_OK"
      using Cons by (intro exI[of _ "readied (QGen i) t Q_OK ?s1"]) simp
    then show ?thesis using False q'(2,3) Cons by auto
  qed
qed

text \<open>
  A byte that is there is returned at once, the oldest first; with no byte and \<open>TIME_IMMEDIATE\<close> the call
  returns \<open>Q_TIMEOUT\<close>; otherwise the reader joins the end of the waiting queue and leaves the processor.
\<close>

lemma iq_get_ready:
  assumes "iq_ok (gqs s i)" "iq_content (gqs s i) = b # bs" "\<not> q_notify (gqs s i)"
  shows "\<exists>q'. chIQGetTimeout nfy fuel i time s = Done (uint b) (set_gq i q' s) \<and> iq_ok q' \<and> iq_content q' = bs"
proof -
  from iq_out_ok[OF assms(1,2)] obtain q' where q': "iq_out (gqs s i) = Some (b, q')" "iq_ok q'" "iq_content q' = bs"
    by blast
  then have ne: "\<not> chIQIsEmptyI (gqs s i)" by (auto simp: iq_out_def split: if_splits)
  then show ?thesis using q' assms(3)
    by (intro exI[of _ q']) (simp add: chIQGetTimeout_def notify_q_def gq_wait_loop.simps iq_out_def Q_OK_def RDY_OK_def Let_def)
qed

lemma iq_get_immediate:
  assumes "chIQIsEmptyI (gqs s i)" "\<not> q_notify (gqs s i)" "0 < fuel"
  shows "chIQGetTimeout nfy fuel i TIME_IMMEDIATE s = Done Q_TIMEOUT s"
  using assms
  by (cases fuel) (simp_all add: chIQGetTimeout_def notify_q_def gq_wait_loop.simps[of chIQIsEmptyI] qwait_def
      Q_OK_def RDY_OK_def Q_TIMEOUT_def RDY_TIMEOUT_def)

lemma qwait_blocks:
  assumes "kinv s" "currp s \<noteq> idle_tid" "time \<noteq> TIME_IMMEDIATE" "VtStack (currp s) \<notin> set (vtl s)"
  shows "\<exists>s1. qwait i time s = obind (chSysSwitch s1) (\<lambda>_. after_sleep (currp s) time) \<and> kinv s1 \<and> top_running s1 \<and>
    tq s1 (QGen i) = tq s (QGen i) @ [currp s] \<and> gqs s1 = gqs s"
proof -
  let ?xs = "tq s (QGen i) @ [currp s]"
  have i: "sched_inv s" "sem_ok s" using assms(1) by (simp_all add: kinv_def)
  have "currp s \<notin> set (tq s (QGen i))" using sched_inv_current(2)[OF i(1)] by (simp add: loose_def)
  then have d: "distinct ?xs" using sched_butD(1)[OF i(1)] by simp
  from block_timeout[OF i(1) assms(2) _ _ d assms(4), of "QGen i" time] obtain s1 where s1:
    "chSchGoSleepTimeoutS THD_STATE_WTQUEUE time (set_tq (QGen i) ?xs (set_wtobjp (currp s) (QGen i) s)) =
      obind (chSysSwitch s1) (\<lambda>_. after_sleep (currp s) time)"
    "sched_inv s1" "top_running s1" "tq s1 (QGen i) = ?xs" "\<forall>q'. q' \<noteq> QGen i \<longrightarrow> q' \<noteq> QReady \<longrightarrow> tq s1 q' = tq s q'"
    "s_cnt s1 = s_cnt s" "gqs s1 = gqs s" by auto
  have "sem_ok s1" using i(2) s1(5,6) by (simp add: sem_ok_def)
  then show ?thesis using s1 assms(3) by (intro exI[of _ s1]) (simp add: qwait_def queue_insert_def kinv_def)
qed

text \<open>A reset empties the queue and lets every waiting thread go with \<open>Q_RESET\<close>.\<close>

lemma iq_resetI:
  assumes "kinv s" "q_buffer (gqs s i) \<noteq> []"
  shows "\<exists>s'. chIQResetI i s = Done () s' \<and> kinv s' \<and> iq_ok (gqs s' i) \<and> iq_content (gqs s' i) = [] \<and> tq s' (QGen i) = [] \<and>
    (\<forall>t\<in>set (tq s (QGen i)). p_state (threads s' t) = THD_STATE_READY \<and> p_u (threads s' t) = UMsg Q_RESET)"
proof -
  let ?q = "(gqs s i)\<lparr>q_rdptr := 0, q_wrptr := 0, q_counter := 0\<rparr>"
  have i: "sched_inv (set_gq i ?q s)" "sem_ok (set_gq i ?q s)" using assms(1) by (simp_all add: kinv_def sem_ok_def)
  from ready_all_inv[OF i(1), of "QGen i" Q_RESET] obtain s' where
    s': "ready_all (QGen i) Q_RESET (set_gq i ?q s) = Done () s'" "sched_inv s'" "tq s' (QGen i) = []"
      "frame_but {QGen i, QReady} (set_gq i ?q s) s'"
      "\<forall>t\<in>set (tq s (QGen i)). p_state (threads s' t) = THD_STATE_READY \<and> p_u (threads s' t) = UMsg Q_RESET" by auto
  have "sem_ok s'" using sem_ok_frame[OF s'(4)] i(2) by simp
  moreover have "gqs s' i = ?q" using sched_frame_fields(9)[OF s'(4)] by simp
  ultimately show ?thesis using s' assms(2) by (auto simp: chIQResetI_def kinv_def iq_ok_def gq_ok_def iq_content_def)
qed

text \<open>The other direction: a queued byte is taken in order and the first blocked writer may go on.\<close>

lemma oq_getI:
  assumes "kinv s" "oq_ok (gqs s i)"
  shows "oq_content (gqs s i) = [] \<Longrightarrow> chOQGetI i s = Done Q_EMPTY s"
    "oq_content (gqs s i) = b # bs \<Longrightarrow> \<exists>q' s'. chOQGetI i s = Done (uint b) s' \<and> kinv s' \<and> gqs s' = (gqs s)(i := q') \<and>
      oq_ok q' \<and> oq_content q' = bs \<and> tq s' (QGen i) = tl (tq s (QGen i)) \<and> currp s' = currp s \<and>
      es_next s' = es_next s \<and> els s' = els s"
proof -
  have out: "chOQIsEmptyI (gqs s i) \<longleftrightarrow> oq_out (gqs s i) = None"
    using assms(2) by (auto simp: oq_out_def gq_fetch_def oq_ok_def gq_ok_def)
  show "chOQGetI i s = Done Q_EMPTY s" if "oq_content (gqs s i) = []"
    using oqf.get_none[OF assms(2) that] out by (simp add: chOQGetI_def)
  assume c: "oq_content (gqs s i) = b # bs"
  from oq_out_ok[OF assms(2) c] obtain q' where q': "oq_out (gqs s i) = Some (b, q')" "oq_ok q'" "oq_content q' = bs" by blast
  have ne: "\<not> chOQIsEmptyI (gqs s i)" using q'(1) out by simp
  let ?s1 = "set_gq i q' s"
  have k1: "kinv ?s1" using assms(1) by simp
  show "\<exists>q' s'. chOQGetI i s = Done (uint b) s' \<and> kinv s' \<and> gqs s' = (gqs s)(i := q') \<and>
      oq_ok q' \<and> oq_content q' = bs \<and> tq s' (QGen i) = tl (tq s (QGen i)) \<and> currp s' = currp s \<and>
      es_next s' = es_next s \<and> els s' = els s"
  proof (cases "tq s (QGen i)")
    case Nil
    then have "chOQGetI i s = Done (uint b) ?s1"
      using ne q'(1) by (simp add: chOQGetI_def oq_out_def notempty_def Let_def)
    then show ?thesis using q'(2,3) k1 Nil by (intro exI[of _ q'] exI[of _ ?s1]) simp
  next
    case (Cons t ts)
    let ?s2 = "readied (QGen i) t Q_OK ?s1"
    have "ready_first (QGen i) Q_OK ?s1 = Done () ?s2"
      using ready_first_eq(1)[of ?s1 "QGen i" t ts Q_OK] k1 Cons by (simp add: kinv_def)
    then have "chOQGetI i s = Done (uint b) ?s2"
      using ne q'(1) Cons by (simp add: chOQGetI_def oq_out_def notempty_def Let_def)
    moreover have "kinv ?s2" using kinv_readied[OF k1, of t i Q_OK] Cons by simp
    moreover have "gqs ?s2 = (gqs s)(i := q')" "es_next ?s2 = es_next s" "els ?s2 = els s"
      by (simp_all add: readied_def)
    moreover have "tq ?s2 (QGen i) = tl (tq s (QGen i))" "currp ?s2 = currp s" using Cons by simp_all
    ultimately show ?thesis using q'(2,3) by (intro exI[of _ q'] exI[of _ ?s2]) simp
  qed
qed

text \<open>Apart from the queue itself and the schedule, a transfer by an interrupt routine changes nothing.\<close>

lemma released_frame:
  assumes "sched_inv s" "(if notempty (QGen i) s then ready_first (QGen i) m s else Done () s) = Done r s'"
  shows "frame_but {QGen i, QReady} s s'"
proof (cases "tq s (QGen i)")
  case (Cons t ts)
  then have "s' = readied (QGen i) t m s"
    using assms(2) ready_first_eq(1)[OF assms(1) Cons, of m] by (simp add: notempty_def)
  then show ?thesis using readied_frame[of "QGen i" s t m] by simp
qed (use assms(2) in \<open>simp add: notempty_def\<close>)

lemma gq_moved_frame:
  assumes "sched_inv s" "obind (if notempty (QGen i) (set_gq i q s) then ready_first (QGen i) m (set_gq i q s)
      else Done () (set_gq i q s)) (\<lambda>_ s2. Done x s2) = Done r s'"
  shows "frame_but {QGen i, QReady} (s\<lparr>gqs := gqs s'\<rparr>) s'"
proof -
  let ?s1 = "set_gq i q s"
  obtain u where "(if notempty (QGen i) ?s1 then ready_first (QGen i) m ?s1 else Done () ?s1) = Done u s'"
    using assms(2) by (cases "if notempty (QGen i) ?s1 then ready_first (QGen i) m ?s1 else Done () ?s1") auto
  then have f: "frame_but {QGen i, QReady} ?s1 s'" using released_frame[of ?s1] assms(1) by simp
  moreover have "gqs s' = gqs ?s1" using sched_frame_fields(9)[OF f] .
  ultimately show ?thesis by (simp add: set_gq_def)
qed

lemma iq_putI_frame:
  assumes "kinv s" "chIQPutI i b s = Done r s'"
  shows "frame_but {QGen i, QReady} (s\<lparr>gqs := gqs s'\<rparr>) s'"
proof (cases "chIQIsFullI (gqs s i)")
  case True
  then show ?thesis using assms(2) by (auto simp: chIQPutI_def frame_but_def)
next
  case False
  then obtain q where "gq_store b ((gqs s i)\<lparr>q_counter := q_counter (gqs s i) + 1\<rparr>) = Some q"
    using assms(2) by (cases "gq_store b ((gqs s i)\<lparr>q_counter := q_counter (gqs s i) + 1\<rparr>)") (auto simp: chIQPutI_def)
  then show ?thesis
    using False assms gq_moved_frame[of s i q Q_OK Q_OK r s'] by (simp add: chIQPutI_def Let_def kinv_def)
qed

lemma oq_getI_frame:
  assumes "kinv s" "chOQGetI i s = Done r s'"
  shows "frame_but {QGen i, QReady} (s\<lparr>gqs := gqs s'\<rparr>) s'"
proof (cases "chOQIsEmptyI (gqs s i)")
  case True
  then show ?thesis using assms(2) by (auto simp: chOQGetI_def frame_but_def)
next
  case False
  then obtain b q where "gq_fetch ((gqs s i)\<lparr>q_counter := q_counter (gqs s i) + 1\<rparr>) = Some (b, q)"
    using assms(2) by (cases "gq_fetch ((gqs s i)\<lparr>q_counter := q_counter (gqs s i) + 1\<rparr>)") (auto simp: chOQGetI_def)
  then show ?thesis
    using False assms gq_moved_frame[of s i q Q_OK "uint b" r s'] by (simp add: chOQGetI_def Let_def kinv_def)
qed

end
