(* ===== verification/MBoxes.thy ===== *)
theory MBoxes
  imports Sem Ring
begin

text \<open>
  Mailboxes, \<^verbatim>\<open>os/kernel/src/chmboxes.c\<close> and \<^verbatim>\<open>chmboxes.h\<close>: a circular buffer of messages guarded by a
  semaphore that counts the free slots and one that counts the messages.
\<close>

section \<open>Operations\<close>

definition set_mb :: "nat \<Rightarrow> mailbox \<Rightarrow> 'x kernel_scheme \<Rightarrow> 'x kernel_scheme" where
  "set_mb i m s = s\<lparr>mbs := (mbs s)(i := m)\<rparr>"

text \<open>\<open>*mb_wrptr++ = msg\<close>, \<open>msg = *mb_rdptr++\<close> and \<open>*--mb_rdptr = msg\<close>, each with its wrap.\<close>

definition mb_store :: "msg \<Rightarrow> mailbox \<Rightarrow> mailbox option" where
  "mb_store x m =
     (if mb_wrptr m < length (mb_buffer m)
      then Some (m\<lparr>mb_buffer := (mb_buffer m)[mb_wrptr m := x], mb_wrptr := ring_next (mb_buffer m) (mb_wrptr m)\<rparr>)
      else None)"

definition mb_load :: "mailbox \<Rightarrow> (msg \<times> mailbox) option" where
  "mb_load m =
     (if mb_rdptr m < length (mb_buffer m)
      then Some (mb_buffer m ! mb_rdptr m, m\<lparr>mb_rdptr := ring_next (mb_buffer m) (mb_rdptr m)\<rparr>)
      else None)"

definition mb_store_ahead :: "msg \<Rightarrow> mailbox \<Rightarrow> mailbox option" where
  "mb_store_ahead x m =
     (let p = ring_prev (mb_buffer m) (mb_rdptr m) in
      if p < length (mb_buffer m)
      then Some (m\<lparr>mb_rdptr := p, mb_buffer := (mb_buffer m)[p := x]\<rparr>) else None)"

definition chMBSizeI :: "nat \<Rightarrow> 'x kernel_scheme \<Rightarrow> nat" where
  "chMBSizeI mbp s = length (mb_buffer (mbs s mbp))"

definition chMBGetFreeCountI :: "nat \<Rightarrow> 'x kernel_scheme \<Rightarrow> int" where
  "chMBGetFreeCountI mbp s = chSemGetCounterI (mb_emptysem (mbs s mbp)) s"

definition chMBGetUsedCountI :: "nat \<Rightarrow> 'x kernel_scheme \<Rightarrow> int" where
  "chMBGetUsedCountI mbp s = chSemGetCounterI (mb_fullsem (mbs s mbp)) s"

definition chMBPeekI :: "nat \<Rightarrow> 'x kernel_scheme \<Rightarrow> ('x, msg) kout" where
  "chMBPeekI mbp s = (let m = mbs s mbp in
     if mb_rdptr m < length (mb_buffer m) then Done (mb_buffer m ! mb_rdptr m) s else Fault)"

definition chMBInit :: "nat \<Rightarrow> msg list \<Rightarrow> nat \<Rightarrow> nat \<Rightarrow> 'x kernel_scheme \<Rightarrow> 'x kernel_scheme" where
  "chMBInit mbp buf fsem esem s =
     chSemInit fsem 0 (chSemInit esem (int (length buf))
       (set_mb mbp \<lparr>mb_buffer = buf, mb_wrptr = 0, mb_rdptr = 0, mb_fullsem = fsem, mb_emptysem = esem\<rparr> s))"

definition chMBReset :: "nat \<Rightarrow> 'x kernel_scheme \<Rightarrow> ('x, unit) kout" where
  "chMBReset mbp s =
     (let m = (mbs s mbp)\<lparr>mb_wrptr := 0, mb_rdptr := 0\<rparr>; s1 = set_mb mbp m s in
      obind (chSemResetI (mb_emptysem m) (int (length (mb_buffer m))) s1) (\<lambda>_ s2.
      obind (chSemResetI (mb_fullsem m) 0 s2) (\<lambda>_. chSchRescheduleS)))"

definition chMBPostS :: "nat \<Rightarrow> msg \<Rightarrow> systime \<Rightarrow> 'x kernel_scheme \<Rightarrow> ('x, msg) kout" where
  "chMBPostS mbp x time s =
     obind (chSemWaitTimeoutS (mb_emptysem (mbs s mbp)) time s) (\<lambda>r s1.
     if r = RDY_OK then
       (case mb_store x (mbs s1 mbp) of None \<Rightarrow> Fault
        | Some m \<Rightarrow> obind (chSemSignalI (mb_fullsem m) (set_mb mbp m s1)) (\<lambda>_ s2.
                     obind (chSchRescheduleS s2) (\<lambda>_ s3. Done r s3)))
     else Done r s1)"

definition chMBPost :: "nat \<Rightarrow> msg \<Rightarrow> systime \<Rightarrow> 'x kernel_scheme \<Rightarrow> ('x, msg) kout" where
  "chMBPost mbp x time s = chMBPostS mbp x time s"

definition chMBPostI :: "nat \<Rightarrow> msg \<Rightarrow> 'x kernel_scheme \<Rightarrow> ('x, msg) kout" where
  "chMBPostI mbp x s =
     (if chSemGetCounterI (mb_emptysem (mbs s mbp)) s \<le> 0 then Done RDY_TIMEOUT s
      else (let s1 = chSemFastWaitI (mb_emptysem (mbs s mbp)) s in
        case mb_store x (mbs s1 mbp) of None \<Rightarrow> Fault
        | Some m \<Rightarrow> obind (chSemSignalI (mb_fullsem m) (set_mb mbp m s1)) (\<lambda>_ s2. Done RDY_OK s2)))"

definition chMBPostAheadS :: "nat \<Rightarrow> msg \<Rightarrow> systime \<Rightarrow> 'x kernel_scheme \<Rightarrow> ('x, msg) kout" where
  "chMBPostAheadS mbp x time s =
     obind (chSemWaitTimeoutS (mb_emptysem (mbs s mbp)) time s) (\<lambda>r s1.
     if r = RDY_OK then
       (case mb_store_ahead x (mbs s1 mbp) of None \<Rightarrow> Fault
        | Some m \<Rightarrow> obind (chSemSignalI (mb_fullsem m) (set_mb mbp m s1)) (\<lambda>_ s2.
                     obind (chSchRescheduleS s2) (\<lambda>_ s3. Done r s3)))
     else Done r s1)"

definition chMBPostAhead :: "nat \<Rightarrow> msg \<Rightarrow> systime \<Rightarrow> 'x kernel_scheme \<Rightarrow> ('x, msg) kout" where
  "chMBPostAhead mbp x time s = chMBPostAheadS mbp x time s"

definition chMBPostAheadI :: "nat \<Rightarrow> msg \<Rightarrow> 'x kernel_scheme \<Rightarrow> ('x, msg) kout" where
  "chMBPostAheadI mbp x s =
     (if chSemGetCounterI (mb_emptysem (mbs s mbp)) s \<le> 0 then Done RDY_TIMEOUT s
      else (let s1 = chSemFastWaitI (mb_emptysem (mbs s mbp)) s in
        case mb_store_ahead x (mbs s1 mbp) of None \<Rightarrow> Fault
        | Some m \<Rightarrow> obind (chSemSignalI (mb_fullsem m) (set_mb mbp m s1)) (\<lambda>_ s2. Done RDY_OK s2)))"

text \<open>The fetch routines return the status and, through \<open>msgp\<close>, the message when there is one.\<close>

definition chMBFetchS :: "nat \<Rightarrow> systime \<Rightarrow> 'x kernel_scheme \<Rightarrow> ('x, msg \<times> msg option) kout" where
  "chMBFetchS mbp time s =
     obind (chSemWaitTimeoutS (mb_fullsem (mbs s mbp)) time s) (\<lambda>r s1.
     if r = RDY_OK then
       (case mb_load (mbs s1 mbp) of None \<Rightarrow> Fault
        | Some (x, m) \<Rightarrow> obind (chSemSignalI (mb_emptysem m) (set_mb mbp m s1)) (\<lambda>_ s2.
                     obind (chSchRescheduleS s2) (\<lambda>_ s3. Done (r, Some x) s3)))
     else Done (r, None) s1)"

definition chMBFetch :: "nat \<Rightarrow> systime \<Rightarrow> 'x kernel_scheme \<Rightarrow> ('x, msg \<times> msg option) kout" where
  "chMBFetch mbp time s = chMBFetchS mbp time s"

definition chMBFetchI :: "nat \<Rightarrow> 'x kernel_scheme \<Rightarrow> ('x, msg \<times> msg option) kout" where
  "chMBFetchI mbp s =
     (if chSemGetCounterI (mb_fullsem (mbs s mbp)) s \<le> 0 then Done (RDY_TIMEOUT, None) s
      else (let s1 = chSemFastWaitI (mb_fullsem (mbs s mbp)) s in
        case mb_load (mbs s1 mbp) of None \<Rightarrow> Fault
        | Some (x, m) \<Rightarrow> obind (chSemSignalI (mb_emptysem m) (set_mb mbp m s1)) (\<lambda>_ s2. Done (RDY_OK, Some x) s2)))"

section \<open>The mailbox as a bounded FIFO\<close>

text \<open>No thread between its wait and its transfer: the two counters add up to the size.\<close>

definition mb_ok :: "nat \<Rightarrow> 'x kernel_scheme \<Rightarrow> bool" where
  "mb_ok i s \<longleftrightarrow> kinv s \<and> (let m = mbs s i; n = length (mb_buffer m) in
     mb_fullsem m \<noteq> mb_emptysem m \<and> mb_rdptr m < n \<and>
     0 \<le> s_cnt s (mb_fullsem m) \<and> 0 \<le> s_cnt s (mb_emptysem m) \<and>
     s_cnt s (mb_fullsem m) + s_cnt s (mb_emptysem m) = int n \<and>
     mb_wrptr m = (mb_rdptr m + nat (s_cnt s (mb_fullsem m))) mod n)"

definition mb_content :: "nat \<Rightarrow> 'x kernel_scheme \<Rightarrow> msg list" where
  "mb_content i s = ring (mb_buffer (mbs s i)) (mb_rdptr (mbs s i)) (nat (s_cnt s (mb_fullsem (mbs s i))))"

definition mb_put :: "nat \<Rightarrow> msg \<Rightarrow> 'x kernel_scheme \<Rightarrow> 'x kernel_scheme option" where
  "mb_put i x s = (case chMBPostI i x s of Done r s' \<Rightarrow> if r = RDY_OK then Some s' else None | _ \<Rightarrow> None)"

definition mb_put_ahead :: "nat \<Rightarrow> msg \<Rightarrow> 'x kernel_scheme \<Rightarrow> 'x kernel_scheme option" where
  "mb_put_ahead i x s = (case chMBPostAheadI i x s of Done r s' \<Rightarrow> if r = RDY_OK then Some s' else None | _ \<Rightarrow> None)"

definition mb_get :: "nat \<Rightarrow> 'x kernel_scheme \<Rightarrow> (msg \<times> 'x kernel_scheme) option" where
  "mb_get i s = (case chMBFetchI i s of Done (r, Some x) s' \<Rightarrow> Some (x, s') | _ \<Rightarrow> None)"

lemma set_mb_fields [simp]:
  "mbs (set_mb i m s) = (mbs s)(i := m)" "tq (set_mb i m s) = tq s" "threads (set_mb i m s) = threads s"
  "currp (set_mb i m s) = currp s" "prio (set_mb i m s) = prio s" "s_cnt (set_mb i m s) = s_cnt s"
  by (simp_all add: set_mb_def prio_def fun_eq_iff)

lemma kinv_set_mb [simp]: "kinv (set_mb i m s) = kinv s"
proof -
  have "sched_inv (set_mb i m s) = sched_inv s" by (rule sched_but_cong) simp_all
  then show ?thesis by (simp add: kinv_def sem_ok_def)
qed

lemma kinv_fast_wait:
  assumes "kinv s" "0 < s_cnt s n"
  shows "kinv (chSemFastWaitI n s)"
proof -
  have q: "tq s (QSem n) = []" using assms sem_okD(2)[of s n] by (simp add: kinv_def)
  have "sem_ok (chSemFastWaitI n s)"
    by (rule sem_ok_upd[of s _ n "s_cnt s n - 1"]) (use assms q in \<open>simp_all add: chSemFastWaitI_def kinv_def\<close>)
  then show ?thesis using assms(1) by (simp add: kinv_def chSemFastWaitI_def)
qed

lemma signalled_free:
  assumes "kinv s" "0 \<le> s_cnt s n"
  shows "chSemSignalI n s = Done () (set_cnt n (s_cnt s n + 1) s)" "kinv (set_cnt n (s_cnt s n + 1) s)"
proof -
  have "tq s (QSem n) = []" using assms sem_okD(2)[of s n] by (simp add: kinv_def)
  then have e: "sem_signalled n s = set_cnt n (s_cnt s n + 1) s" by (simp add: sem_signalled_def)
  show "chSemSignalI n s = Done () (set_cnt n (s_cnt s n + 1) s)" "kinv (set_cnt n (s_cnt s n + 1) s)"
    using sem_signalI[OF assms(1), of n] sem_signalled_inv(1)[OF assms(1), of n] unfolding e by simp_all
qed

lemma fast_wait_fields [simp]:
  "s_cnt (chSemFastWaitI n s) = (s_cnt s)(n := s_cnt s n - 1)" "mbs (chSemFastWaitI n s) = mbs s"
  by (simp_all add: chSemFastWaitI_def)

text \<open>One transfer: a slot of \<open>a\<close> is taken, the mailbox changed to \<open>m\<close>, a slot of \<open>b\<close> given.\<close>

definition mb_moved :: "nat \<Rightarrow> nat \<Rightarrow> nat \<Rightarrow> mailbox \<Rightarrow> 'x kernel_scheme \<Rightarrow> 'x kernel_scheme" where
  "mb_moved i a b m s = (let s1 = set_mb i m (chSemFastWaitI a s) in set_cnt b (s_cnt s1 b + 1) s1)"

lemma mb_moved_fields:
  assumes "kinv s" "0 < s_cnt s a" "0 \<le> s_cnt s b" "a \<noteq> b"
  shows "kinv (mb_moved i a b m s)" "mbs (mb_moved i a b m s) = (mbs s)(i := m)"
    "s_cnt (mb_moved i a b m s) = (s_cnt s)(a := s_cnt s a - 1, b := s_cnt s b + 1)"
    "chSemSignalI b (set_mb i m (chSemFastWaitI a s)) = Done () (mb_moved i a b m s)"
proof -
  have k: "kinv (set_mb i m (chSemFastWaitI a s))" using kinv_fast_wait[OF assms(1,2)] by simp
  have c: "0 \<le> s_cnt (set_mb i m (chSemFastWaitI a s)) b" using assms(3,4) by simp
  show "kinv (mb_moved i a b m s)"
    "chSemSignalI b (set_mb i m (chSemFastWaitI a s)) = Done () (mb_moved i a b m s)"
    using signalled_free[OF k c] assms(4) by (simp_all add: mb_moved_def Let_def)
  show "mbs (mb_moved i a b m s) = (mbs s)(i := m)"
    "s_cnt (mb_moved i a b m s) = (s_cnt s)(a := s_cnt s a - 1, b := s_cnt s b + 1)"
    using assms(4) by (auto simp: mb_moved_def Let_def)
qed

lemma mb_okD:
  assumes "mb_ok i s"
  shows "kinv s" "mb_fullsem (mbs s i) \<noteq> mb_emptysem (mbs s i)" "mb_rdptr (mbs s i) < length (mb_buffer (mbs s i))"
    "0 \<le> s_cnt s (mb_fullsem (mbs s i))" "0 \<le> s_cnt s (mb_emptysem (mbs s i))"
    "s_cnt s (mb_fullsem (mbs s i)) + s_cnt s (mb_emptysem (mbs s i)) = int (length (mb_buffer (mbs s i)))"
    "mb_wrptr (mbs s i) = (mb_rdptr (mbs s i) + nat (s_cnt s (mb_fullsem (mbs s i)))) mod length (mb_buffer (mbs s i))"
    "mb_buffer (mbs s i) \<noteq> []"
  using assms by (auto simp: mb_ok_def Let_def)

lemma mb_content_len: "mb_ok i s \<Longrightarrow> int (length (mb_content i s)) = s_cnt s (mb_fullsem (mbs s i))"
  using mb_okD(4)[of i s] by (simp add: mb_content_def)

lemma mb_put_room:
  assumes "mb_ok i s" "length (mb_content i s) < length (mb_buffer (mbs s i))"
  shows "\<exists>s'. chMBPostI i x s = Done RDY_OK s' \<and> mb_ok i s' \<and> mb_content i s' = mb_content i s @ [x] \<and>
    length (mb_buffer (mbs s' i)) = length (mb_buffer (mbs s i))"
proof -
  note M = mb_okD[OF assms(1)]
  let ?m = "mbs s i" let ?n = "nat (s_cnt s (mb_fullsem ?m))"
  have n: "?n < length (mb_buffer ?m)" and e: "0 < s_cnt s (mb_emptysem ?m)"
    using assms(2) mb_content_len[OF assms(1)] M(4,6) by linarith+
  have w: "mb_wrptr ?m < length (mb_buffer ?m)" using M(7,8) by simp
  let ?m' = "?m\<lparr>mb_buffer := (mb_buffer ?m)[mb_wrptr ?m := x], mb_wrptr := ring_next (mb_buffer ?m) (mb_wrptr ?m)\<rparr>"
  have st: "mb_store x ?m = Some ?m'" using w by (simp add: mb_store_def)
  let ?s' = "mb_moved i (mb_emptysem ?m) (mb_fullsem ?m) ?m' s"
  note V = mb_moved_fields[OF M(1) e M(4) M(2)[symmetric], of i ?m']
  have p: "chMBPostI i x s = Done RDY_OK ?s'"
    using V(4) st e by (simp add: chMBPostI_def chSemGetCounterI_def Let_def)
  have sn: "nat (s_cnt s (mb_fullsem ?m) + 1) = Suc ?n" using M(4) by simp
  have ok: "mb_ok i ?s'"
    unfolding mb_ok_def Let_def V(2,3)
    using V(1) M w sn e by (auto simp: ring_next_mod mod_Suc_eq)
  have "mb_content i ?s' = mb_content i s @ [x]"
    unfolding mb_content_def V(2,3) using M(2,7) sn ring_append[OF n, of "mb_rdptr ?m" x] by simp
  then show ?thesis using p ok V(2) by (intro exI[of _ ?s']) simp
qed

lemma mb_put_ahead_room:
  assumes "mb_ok i s" "length (mb_content i s) < length (mb_buffer (mbs s i))"
  shows "\<exists>s'. chMBPostAheadI i x s = Done RDY_OK s' \<and> mb_ok i s' \<and> mb_content i s' = x # mb_content i s \<and>
    length (mb_buffer (mbs s' i)) = length (mb_buffer (mbs s i))"
proof -
  note M = mb_okD[OF assms(1)]
  let ?m = "mbs s i" let ?n = "nat (s_cnt s (mb_fullsem ?m))"
  have n: "?n < length (mb_buffer ?m)" and e: "0 < s_cnt s (mb_emptysem ?m)"
    using assms(2) mb_content_len[OF assms(1)] M(4,6) by linarith+
  let ?p = "ring_prev (mb_buffer ?m) (mb_rdptr ?m)"
  have w: "?p < length (mb_buffer ?m)" using M(3) by simp
  let ?m' = "?m\<lparr>mb_rdptr := ?p, mb_buffer := (mb_buffer ?m)[?p := x]\<rparr>"
  have st: "mb_store_ahead x ?m = Some ?m'" using w by (simp add: mb_store_ahead_def Let_def)
  let ?s' = "mb_moved i (mb_emptysem ?m) (mb_fullsem ?m) ?m' s"
  note V = mb_moved_fields[OF M(1) e M(4) M(2)[symmetric], of i ?m']
  have p: "chMBPostAheadI i x s = Done RDY_OK ?s'"
    using V(4) st e by (simp add: chMBPostAheadI_def chSemGetCounterI_def Let_def)
  have sn: "nat (s_cnt s (mb_fullsem ?m) + 1) = Suc ?n" using M(4) by simp
  have "(?p + Suc ?n) mod length (mb_buffer ?m) = ((?p + 1) mod length (mb_buffer ?m) + ?n) mod length (mb_buffer ?m)"
    by (simp add: mod_add_left_eq)
  also have "(?p + 1) mod length (mb_buffer ?m) = mb_rdptr ?m"
    using ring_next_mod[OF w] ring_next_prev[OF M(3)] by simp
  finally have wr: "mb_wrptr ?m = (?p + Suc ?n) mod length (mb_buffer ?m)" using M(7) by simp
  have ok: "mb_ok i ?s'"
    unfolding mb_ok_def Let_def V(2,3)
    using V(1) M(2,4,5,6) w sn wr e by auto
  have "mb_content i ?s' = x # mb_content i s"
    unfolding mb_content_def V(2,3) using M(2) sn ring_prepend[OF n M(3), of x] by simp
  then show ?thesis using p ok V(2) by (intro exI[of _ ?s']) simp
qed

lemma mb_get_first:
  assumes "mb_ok i s" "mb_content i s = x # xs"
  shows "\<exists>s'. chMBFetchI i s = Done (RDY_OK, Some x) s' \<and> mb_ok i s' \<and> mb_content i s' = xs \<and>
    length (mb_buffer (mbs s' i)) = length (mb_buffer (mbs s i))"
proof -
  note M = mb_okD[OF assms(1)]
  let ?m = "mbs s i"
  have f: "0 < s_cnt s (mb_fullsem ?m)" using mb_content_len[OF assms(1)] assms(2) by simp
  then obtain n where n: "nat (s_cnt s (mb_fullsem ?m)) = Suc n" by (metis gr0_implies_Suc zero_less_nat_eq)
  let ?m' = "?m\<lparr>mb_rdptr := ring_next (mb_buffer ?m) (mb_rdptr ?m)\<rparr>"
  have x: "x = mb_buffer ?m ! mb_rdptr ?m" "xs = ring (mb_buffer ?m) (ring_next (mb_buffer ?m) (mb_rdptr ?m)) n"
    using assms(2) ring_shift[OF M(3), of n] n by (simp_all add: mb_content_def)
  have ld: "mb_load ?m = Some (x, ?m')" using M(3) x by (simp add: mb_load_def)
  let ?s' = "mb_moved i (mb_fullsem ?m) (mb_emptysem ?m) ?m' s"
  note V = mb_moved_fields[OF M(1) f M(5) M(2), of i ?m']
  have p: "chMBFetchI i s = Done (RDY_OK, Some x) ?s'"
    using V(4) ld f by (simp add: chMBFetchI_def chSemGetCounterI_def Let_def)
  have sn: "nat (s_cnt s (mb_fullsem ?m) - 1) = n" using n by simp
  have wr: "mb_wrptr ?m = (ring_next (mb_buffer ?m) (mb_rdptr ?m) + n) mod length (mb_buffer ?m)"
    using M(3,7) n by (simp add: ring_next_mod mod_add_left_eq)
  have ok: "mb_ok i ?s'"
    unfolding mb_ok_def Let_def V(2,3)
    using V(1) M(2,3,5,6) f sn wr by auto
  have "mb_content i ?s' = xs"
    unfolding mb_content_def V(2,3) using M(2) sn x(2) by simp
  then show ?thesis using p ok V(2) by (intro exI[of _ ?s']) simp
qed

lemma mb_put_full:
  "mb_ok i s \<Longrightarrow> length (mb_content i s) = length (mb_buffer (mbs s i)) \<Longrightarrow> chMBPostI i x s = Done RDY_TIMEOUT s"
  using mb_content_len[of i s] mb_okD(6)[of i s] by (simp add: chMBPostI_def chSemGetCounterI_def)

lemma mb_get_none: "mb_ok i s \<Longrightarrow> mb_content i s = [] \<Longrightarrow> chMBFetchI i s = Done (RDY_TIMEOUT, None) s"
  using mb_content_len[of i s] by (simp add: chMBFetchI_def chSemGetCounterI_def)

interpretation mbf: bounded_fifo "mb_ok i" "mb_content i" "\<lambda>s. length (mb_buffer (mbs s i))" "mb_put i" "mb_get i"
  for i :: nat
proof unfold_locales
  fix s :: "'b kernel_scheme" assume ok: "mb_ok i s"
  show "length (mb_content i s) \<le> length (mb_buffer (mbs s i))"
    using mb_content_len[OF ok] mb_okD(5,6)[OF ok] by linarith
  show "\<exists>s'. mb_put i a s = Some s' \<and> mb_ok i s' \<and> mb_content i s' = mb_content i s @ [a] \<and>
      length (mb_buffer (mbs s' i)) = length (mb_buffer (mbs s i))"
    if "length (mb_content i s) < length (mb_buffer (mbs s i))" for a
    using mb_put_room[OF ok that, of a] by (auto simp: mb_put_def)
  show "mb_put i a s = None" if "length (mb_content i s) = length (mb_buffer (mbs s i))" for a
    using mb_put_full[OF ok that] by (simp add: mb_put_def RDY_OK_def RDY_TIMEOUT_def)
  show "\<exists>s'. mb_get i s = Some (b, s') \<and> mb_ok i s' \<and> mb_content i s' = bs \<and>
      length (mb_buffer (mbs s' i)) = length (mb_buffer (mbs s i))"
    if "mb_content i s = b # bs" for b bs
    using mb_get_first[OF ok that] by (auto simp: mb_get_def)
  show "mb_get i s = None" if "mb_content i s = []"
    using mb_get_none[OF ok that] by (simp add: mb_get_def)
qed

text \<open>A reset leaves the mailbox empty and every thread that waited on it ready.\<close>

lemma mb_reset:
  assumes "kinv s" "mb_fullsem (mbs s i) \<noteq> mb_emptysem (mbs s i)" "mb_buffer (mbs s i) \<noteq> []"
  shows "\<exists>s2. chMBReset i s = chSchRescheduleS s2 \<and> kinv s2 \<and>
    s_cnt s2 = (s_cnt s)(mb_emptysem (mbs s i) := int (length (mb_buffer (mbs s i))), mb_fullsem (mbs s i) := 0) \<and>
    tq s2 (QSem (mb_fullsem (mbs s i))) = []"
proof -
  let ?m = "(mbs s i)\<lparr>mb_wrptr := 0, mb_rdptr := 0\<rparr>"
  have k: "kinv (set_mb i ?m s)" using assms(1) by simp
  from sem_resetI[OF k, of "int (length (mb_buffer ?m))" "mb_emptysem ?m"] obtain s1 where s1:
    "chSemResetI (mb_emptysem ?m) (int (length (mb_buffer ?m))) (set_mb i ?m s) = Done () s1" "kinv s1"
    "s_cnt s1 = (s_cnt s)(mb_emptysem ?m := int (length (mb_buffer ?m)))" by auto
  from sem_resetI[OF s1(2), of 0 "mb_fullsem ?m"] obtain s2 where s2:
    "chSemResetI (mb_fullsem ?m) 0 s1 = Done () s2" "kinv s2" "s_cnt s2 = (s_cnt s1)(mb_fullsem ?m := 0)"
    "tq s2 (QSem (mb_fullsem ?m)) = []" by auto
  then show ?thesis using s1 by (intro exI[of _ s2]) (simp add: chMBReset_def Let_def)
qed

end
