(* ===== verification/ChLists.thy ===== *)
theory ChLists
  imports Prelude
begin

text \<open>
  The intrusive lists of \<^verbatim>\<open>os/kernel/src/chlists.c\<close> (the same code is inlined from
  \<^verbatim>\<open>chinline.h\<close>) at the level of pointers: a memory of \<open>p_next\<close>, \<open>p_prev\<close> and \<open>p_prio\<close> fields
  indexed by address, in which a queue header is an address like any thread. \<open>queue_rep m q xs\<close> says
  that the header \<open>q\<close> heads a circular doubly linked list of the distinct threads \<open>xs\<close>. Every routine
  is shown to refine the list operation that the rest of the kernel model uses for it.
\<close>

section \<open>Memory and routines\<close>

record lmem =
  p_next :: "nat \<Rightarrow> nat"
  p_prev :: "nat \<Rightarrow> nat"
  pprio :: "nat \<Rightarrow> nat"

definition set_next :: "nat \<Rightarrow> nat \<Rightarrow> lmem \<Rightarrow> lmem" where
  "set_next a x m = m\<lparr>p_next := (p_next m)(a := x)\<rparr>"

definition set_prev :: "nat \<Rightarrow> nat \<Rightarrow> lmem \<Rightarrow> lmem" where
  "set_prev a x m = m\<lparr>p_prev := (p_prev m)(a := x)\<rparr>"

definition ptr_queue_init :: "nat \<Rightarrow> lmem \<Rightarrow> lmem" where
  "ptr_queue_init tqp m = set_next tqp tqp (set_prev tqp tqp m)"

definition ptr_isempty :: "nat \<Rightarrow> lmem \<Rightarrow> bool" where
  "ptr_isempty p m \<longleftrightarrow> p_next m p = p"

definition ptr_notempty :: "nat \<Rightarrow> lmem \<Rightarrow> bool" where
  "ptr_notempty p m \<longleftrightarrow> p_next m p \<noteq> p"

text \<open>
  The search loop of \<open>prio_insert\<close>: a \<open>do \<dots> while\<close> over the links, which ends only if the links lead
  back to the header.
\<close>

partial_function (option) prio_scan :: "lmem \<Rightarrow> nat \<Rightarrow> nat \<Rightarrow> nat \<Rightarrow> nat option" where
  "prio_scan m tp tqp cp =
     (let cp' = p_next m cp in
      if cp' \<noteq> tqp \<and> pprio m tp \<le> pprio m cp' then prio_scan m tp tqp cp' else Some cp')"

text \<open>The insertion of \<open>tp\<close> before the node \<open>cp\<close>, the three statements that end the loop.\<close>

definition link_before :: "nat \<Rightarrow> nat \<Rightarrow> lmem \<Rightarrow> lmem" where
  "link_before tp cp m =
     (let m1 = set_next tp cp m;
          m2 = set_prev tp (p_prev m1 cp) m1;
          m3 = set_prev cp tp m2
      in set_next (p_prev m3 tp) tp m3)"

definition ptr_prio_insert :: "nat \<Rightarrow> nat \<Rightarrow> lmem \<Rightarrow> lmem option" where
  "ptr_prio_insert tp tqp m =
     map_option (\<lambda>cp. link_before tp cp m) (prio_scan m tp tqp tqp)"

definition ptr_queue_insert :: "nat \<Rightarrow> nat \<Rightarrow> lmem \<Rightarrow> lmem" where
  "ptr_queue_insert tp tqp m =
     (let m1 = set_next tp tqp m;
          m2 = set_prev tp (p_prev m1 tqp) m1;
          m3 = set_prev tqp tp m2
      in set_next (p_prev m3 tp) tp m3)"

definition ptr_fifo_remove :: "nat \<Rightarrow> lmem \<Rightarrow> nat \<times> lmem" where
  "ptr_fifo_remove tqp m =
     (let tp = p_next m tqp;
          m1 = set_next tqp (p_next m tp) m
      in (tp, set_prev (p_next m1 tqp) tqp m1))"

definition ptr_lifo_remove :: "nat \<Rightarrow> lmem \<Rightarrow> nat \<times> lmem" where
  "ptr_lifo_remove tqp m =
     (let tp = p_prev m tqp;
          m1 = set_prev tqp (p_prev m tp) m
      in (tp, set_next (p_prev m1 tqp) tqp m1))"

definition ptr_dequeue :: "nat \<Rightarrow> lmem \<Rightarrow> nat \<times> lmem" where
  "ptr_dequeue tp m =
     (let m1 = set_next (p_prev m tp) (p_next m tp) m
      in (tp, set_prev (p_next m1 tp) (p_prev m1 tp) m1))"

definition ptr_list_insert :: "nat \<Rightarrow> nat \<Rightarrow> lmem \<Rightarrow> lmem" where
  "ptr_list_insert tp tlp m = (let m1 = set_next tp (p_next m tlp) m in set_next tlp tp m1)"

definition ptr_list_remove :: "nat \<Rightarrow> lmem \<Rightarrow> nat \<times> lmem" where
  "ptr_list_remove tlp m = (let tp = p_next m tlp in (tp, set_next tlp (p_next m tp) m))"

text \<open>
  The two insertion loops that \<^verbatim>\<open>chschd.c\<close> writes out for the ready list. They have no test for the
  header: \<open>rlist.r_prio\<close> lies where a thread has \<open>p_prio\<close> and holds \<open>NOPRIO\<close>, which stops them.
\<close>

partial_function (option) ready_scan_behind :: "lmem \<Rightarrow> nat \<Rightarrow> nat \<Rightarrow> nat option" where
  "ready_scan_behind m tp cp =
     (let cp' = p_next m cp in
      if pprio m tp \<le> pprio m cp' then ready_scan_behind m tp cp' else Some cp')"

partial_function (option) ready_scan_ahead :: "lmem \<Rightarrow> nat \<Rightarrow> nat \<Rightarrow> nat option" where
  "ready_scan_ahead m tp cp =
     (let cp' = p_next m cp in
      if pprio m tp < pprio m cp' then ready_scan_ahead m tp cp' else Some cp')"

definition ptr_ready_behind :: "nat \<Rightarrow> nat \<Rightarrow> lmem \<Rightarrow> lmem option" where
  "ptr_ready_behind tp rl m = map_option (\<lambda>cp. link_before tp cp m) (ready_scan_behind m tp rl)"

definition ptr_ready_ahead :: "nat \<Rightarrow> nat \<Rightarrow> lmem \<Rightarrow> lmem option" where
  "ptr_ready_ahead tp rl m = map_option (\<lambda>cp. link_before tp cp m) (ready_scan_ahead m tp rl)"

section \<open>What a chain of links represents\<close>

fun linked :: "lmem \<Rightarrow> nat list \<Rightarrow> bool" where
  "linked m (a # b # xs) = (p_next m a = b \<and> p_prev m b = a \<and> linked m (b # xs))"
| "linked m _ = True"

fun slinked :: "lmem \<Rightarrow> nat list \<Rightarrow> bool" where
  "slinked m (a # b # xs) = (p_next m a = b \<and> slinked m (b # xs))"
| "slinked m _ = True"

definition queue_rep :: "lmem \<Rightarrow> nat \<Rightarrow> nat list \<Rightarrow> bool" where
  "queue_rep m q xs \<longleftrightarrow> distinct (q # xs) \<and> linked m (q # xs @ [q])"

definition list_rep :: "lmem \<Rightarrow> nat \<Rightarrow> nat list \<Rightarrow> bool" where
  "list_rep m q xs \<longleftrightarrow> distinct (q # xs) \<and> slinked m (q # xs @ [q])"

lemma mem_fields [simp]:
  "p_next (set_next a x m) = (p_next m)(a := x)" "p_prev (set_next a x m) = p_prev m"
  "p_prev (set_prev a x m) = (p_prev m)(a := x)" "p_next (set_prev a x m) = p_next m"
  "pprio (set_next a x m) = pprio m" "pprio (set_prev a x m) = pprio m"
  by (simp_all add: set_next_def set_prev_def)

lemma linked_append: "linked m (xs @ y # ys) \<longleftrightarrow> linked m (xs @ [y]) \<and> linked m (y # ys)"
proof (induction xs)
  case (Cons a xs)
  then show ?case by (cases xs) auto
qed simp

lemma slinked_append: "slinked m (xs @ y # ys) \<longleftrightarrow> slinked m (xs @ [y]) \<and> slinked m (y # ys)"
proof (induction xs)
  case (Cons a xs)
  then show ?case by (cases xs) auto
qed simp

lemma linked_cong:
  "(\<And>a. a \<in> set (butlast xs) \<Longrightarrow> p_next m a = p_next m' a) \<Longrightarrow>
   (\<And>a. a \<in> set (tl xs) \<Longrightarrow> p_prev m a = p_prev m' a) \<Longrightarrow> linked m xs = linked m' xs"
  by (induction m xs rule: linked.induct) auto

lemma slinked_cong:
  "(\<And>a. a \<in> set (butlast xs) \<Longrightarrow> p_next m a = p_next m' a) \<Longrightarrow> slinked m xs = slinked m' xs"
  by (induction m xs rule: slinked.induct) auto

lemma linked_set_next [simp]: "a \<notin> set (butlast xs) \<Longrightarrow> linked (set_next a x m) xs = linked m xs"
  by (rule linked_cong) auto

lemma linked_set_prev [simp]: "a \<notin> set (tl xs) \<Longrightarrow> linked (set_prev a x m) xs = linked m xs"
  by (rule linked_cong) auto

lemma slinked_set_next [simp]: "a \<notin> set (butlast xs) \<Longrightarrow> slinked (set_next a x m) xs = slinked m xs"
  by (rule slinked_cong) auto

text \<open>A queue seen from any of its gaps: \<open>a\<close> and \<open>c\<close> are neighbours.\<close>

lemma linked_gap:
  "linked m (A @ a # c # B) \<longleftrightarrow>
     linked m (A @ [a]) \<and> p_next m a = c \<and> p_prev m c = a \<and> linked m (c # B)"
  by (simp add: linked_append[of m A a "c # B"])

lemma distinct_gap:
  assumes "distinct (q # xs)" "q # xs @ [q] = A @ a # c # B"
  shows "a \<notin> set A" "a \<notin> set (butlast (c # B))" "c \<notin> set B" "c \<notin> set (tl (A @ [a]))"
proof -
  have "q # xs = butlast (A @ a # c # B)"
    by (simp flip: assms(2))
  also have "\<dots> = A @ a # butlast (c # B)" by (simp add: butlast_append)
  finally have d1: "distinct (A @ a # butlast (c # B))" using assms(1) by simp
  have "xs @ [q] = tl (A @ a # c # B)" by (simp flip: assms(2))
  also have "\<dots> = tl (A @ [a]) @ c # B" by (cases A) simp_all
  finally have d2: "distinct (tl (A @ [a]) @ c # B)" using assms(1) by (metis distinct.simps(2) distinct1_rotate rotate1.simps(2))
  from d1 show "a \<notin> set A" "a \<notin> set (butlast (c # B))" by simp_all
  from d2 show "c \<notin> set B" "c \<notin> set (tl (A @ [a]))" by simp_all
qed

lemma gap_before: "\<exists>A a. \<forall>zs. q # ys @ zs = A @ a # zs"
proof -
  have "q # ys @ zs = butlast (q # ys) @ last (q # ys) # zs" for zs
    by (metis append_Cons append_Nil append.assoc append_butlast_last_id list.discI)
  then show ?thesis by blast
qed

lemma set_tlD: "x \<in> set (tl xs) \<Longrightarrow> x \<in> set xs"
  by (cases xs) auto

lemma link_before_linked:
  assumes "distinct (q # xs)" "q # xs @ [q] = A @ a # c # B" "linked m (q # xs @ [q])"
    "tp \<notin> set (q # xs)"
  shows "linked (link_before tp c m) (A @ a # tp # c # B)"
proof -
  note gap = distinct_gap[OF assms(1,2)]
  have "set (A @ a # c # B) = set (q # xs)"
    using arg_cong[OF assms(2), of set] by auto
  with assms(4) have fresh: "tp \<notin> set A" "tp \<noteq> a" "tp \<noteq> c" "tp \<notin> set B" by auto
  have l: "linked m (A @ [a])" "p_next m a = c" "p_prev m c = a" "linked m (c # B)"
    using assms(2,3) by (auto simp: linked_gap)
  let ?m = "link_before tp c m"
  have nxt: "p_next ?m = (p_next m)(tp := c, a := tp)" and prv: "p_prev ?m = (p_prev m)(tp := a, c := tp)"
    using fresh l by (auto simp: link_before_def Let_def)
  have "linked ?m (A @ [a]) = linked m (A @ [a])"
    using gap fresh by (intro linked_cong) (auto simp: nxt prv dest: set_tlD)
  moreover have "linked ?m (c # B) = linked m (c # B)"
    using gap fresh by (intro linked_cong) (auto simp: nxt prv dest: in_set_butlastD split: if_splits)
  ultimately show ?thesis
    using fresh l by (simp add: linked_gap nxt prv)
qed

section \<open>Refinement\<close>

lemma queue_rep_init: "queue_rep (ptr_queue_init q m) q []"
  by (simp add: queue_rep_def ptr_queue_init_def)

lemma queue_rep_isempty: "queue_rep m q xs \<Longrightarrow> ptr_isempty q m \<longleftrightarrow> xs = []"
  by (cases xs) (auto simp: queue_rep_def ptr_isempty_def)

lemma queue_rep_notempty: "queue_rep m q xs \<Longrightarrow> ptr_notempty q m \<longleftrightarrow> xs \<noteq> []"
  by (cases xs) (auto simp: queue_rep_def ptr_notempty_def)

lemma queue_rep_link_before:
  assumes "queue_rep m q (ys @ zs)" "tp \<noteq> q" "tp \<notin> set (ys @ zs)" "c = hd (zs @ [q])"
  shows "queue_rep (link_before tp c m) q (ys @ tp # zs)"
proof -
  obtain A a where Aa: "\<And>zs. q # ys @ zs = A @ a # zs" using gap_before[of q ys] by metis
  obtain B where B: "zs @ [q] = c # B" using assms(4) by (cases zs) auto
  have "q # (ys @ zs) @ [q] = A @ a # c # B" using Aa[of "zs @ [q]"] B by simp
  then have "linked (link_before tp c m) (A @ a # tp # c # B)"
    using assms by (intro link_before_linked[of q "ys @ zs"]) (auto simp: queue_rep_def)
  moreover have "q # (ys @ tp # zs) @ [q] = A @ a # tp # c # B"
    using Aa[of "tp # zs @ [q]"] B by simp
  ultimately show ?thesis
    using assms by (auto simp: queue_rep_def)
qed

lemma ptr_queue_insert_link: "ptr_queue_insert tp q m = link_before tp q m"
  by (simp add: ptr_queue_insert_def link_before_def)

lemma queue_insert_rep:
  "queue_rep m q xs \<Longrightarrow> tp \<noteq> q \<Longrightarrow> tp \<notin> set xs \<Longrightarrow> queue_rep (ptr_queue_insert tp q m) q (xs @ [tp])"
  using queue_rep_link_before[of m q xs "[]" tp q] by (simp add: ptr_queue_insert_link)

lemma prio_scan_suffix:
  "linked m (c # zs @ [q]) \<Longrightarrow> q \<notin> set zs \<Longrightarrow>
   prio_scan m tp q c = Some (hd (dropWhile (\<lambda>y. pprio m tp \<le> pprio m y) zs @ [q]))"
proof (induction zs arbitrary: c)
  case Nil
  then show ?case by (subst prio_scan.simps) simp
next
  case (Cons z zs)
  then show ?case by (subst prio_scan.simps) simp
qed

lemma prio_insert_rep:
  assumes "queue_rep m q xs" "tp \<noteq> q" "tp \<notin> set xs"
  shows "\<exists>m'. ptr_prio_insert tp q m = Some m' \<and> queue_rep m' q (ins_behind (pprio m) tp xs)"
proof -
  let ?P = "\<lambda>y. pprio m tp \<le> pprio m y"
  have "prio_scan m tp q q = Some (hd (dropWhile ?P xs @ [q]))"
    using assms(1) by (intro prio_scan_suffix) (auto simp: queue_rep_def)
  moreover have "queue_rep (link_before tp (hd (dropWhile ?P xs @ [q])) m) q
      (takeWhile ?P xs @ tp # dropWhile ?P xs)"
    using assms by (intro queue_rep_link_before) auto
  ultimately show ?thesis by (simp add: ptr_prio_insert_def ins_behind_def)
qed

lemma fifo_remove_rep:
  assumes "queue_rep m q (x # xs)"
  shows "fst (ptr_fifo_remove q m) = x \<and> queue_rep (snd (ptr_fifo_remove q m)) q xs"
proof (cases xs)
  case Nil
  with assms show ?thesis by (auto simp: queue_rep_def ptr_fifo_remove_def Let_def)
next
  case (Cons y ys)
  have "linked m (y # ys @ [q])" and d: "distinct (q # x # y # ys)"
    using assms Cons by (auto simp: queue_rep_def)
  then have "linked (set_prev y q (set_next q y m)) (y # ys @ [q])"
    by (subst linked_cong[of _ _ m]) (auto simp: butlast_append)
  with assms Cons d show ?thesis
    by (auto simp: queue_rep_def ptr_fifo_remove_def Let_def)
qed

lemma lifo_remove_rep:
  assumes "queue_rep m q (xs @ [x])"
  shows "fst (ptr_lifo_remove q m) = x \<and> queue_rep (snd (ptr_lifo_remove q m)) q xs"
proof -
  obtain A a where Aa: "\<And>zs. q # xs @ zs = A @ a # zs" using gap_before[of q xs] by metis
  have dx: "distinct (q # xs)" and x: "x \<noteq> q" "x \<notin> set xs"
    using assms by (auto simp: queue_rep_def)
  have small: "q # xs @ [q] = A @ a # q # []" using Aa[of "[q]"] by simp
  note gap = distinct_gap[OF dx small]
  have "set (A @ [a]) = set (q # xs)" using arg_cong[OF Aa[of "[]"], of set] by simp
  then have xa: "x \<noteq> a" using x by auto
  have "linked m (A @ a # x # [q])"
    using assms Aa[of "[x, q]"] by (simp add: queue_rep_def)
  then have l: "linked m (A @ [a])" "p_prev m x = a" "p_prev m q = x"
    by (auto simp: linked_gap)
  let ?m = "set_next a q (set_prev q a m)"
  have "linked ?m (A @ [a]) = linked m (A @ [a])"
    using gap by (intro linked_cong) auto
  then have "linked ?m (A @ a # q # [])" using l by (simp add: linked_gap)
  then have "linked ?m (q # xs @ [q])" by (simp only: small)
  with dx xa show ?thesis
    by (simp add: queue_rep_def ptr_lifo_remove_def Let_def l)
qed

lemma dequeue_rep:
  assumes "queue_rep m q xs" "tp \<in> set xs"
  shows "fst (ptr_dequeue tp m) = tp \<and> queue_rep (snd (ptr_dequeue tp m)) q (remove1 tp xs)"
proof -
  from assms(2) obtain ys zs where xs: "xs = ys @ tp # zs" and "tp \<notin> set ys"
    by (meson split_list_first)
  then have r: "remove1 tp xs = ys @ zs" by (simp add: remove1_append)
  obtain A a where Aa: "\<And>zs. q # ys @ zs = A @ a # zs" using gap_before[of q ys] by metis
  obtain c B where cB: "zs @ [q] = c # B" by (cases zs) auto
  have d: "distinct (q # ys @ zs)" and tp: "tp \<noteq> q" "tp \<notin> set (ys @ zs)"
    using assms(1) xs by (auto simp: queue_rep_def)
  have small: "q # (ys @ zs) @ [q] = A @ a # c # B" using Aa[of "zs @ [q]"] cB by simp
  note gap = distinct_gap[OF d small]
  have "set (A @ a # c # B) = set (q # ys @ zs)" using arg_cong[OF small, of set] by auto
  then have ne: "a \<noteq> tp" "c \<noteq> tp" using tp by auto
  have "q # xs @ [q] = A @ a # tp # c # B"
    using Aa[of "tp # zs @ [q]"] cB by (simp add: xs)
  then have "linked m (A @ a # tp # c # B)"
    using assms(1) by (metis queue_rep_def)
  then have l: "linked m (A @ [a])" "p_prev m tp = a" "p_next m tp = c" "linked m (c # B)"
    by (auto simp: linked_gap)
  let ?m = "set_prev c a (set_next a c m)"
  have deq: "ptr_dequeue tp m = (tp, ?m)"
    using ne by (simp add: ptr_dequeue_def l)
  have "linked ?m (A @ [a]) = linked m (A @ [a])" "linked ?m (c # B) = linked m (c # B)"
    using gap by (auto intro!: linked_cong)
  then have "linked ?m (A @ a # c # B)" using l by (simp add: linked_gap)
  then have "linked ?m (q # (ys @ zs) @ [q])" by (simp only: small)
  with d show ?thesis by (simp add: deq r queue_rep_def)
qed

lemma list_insert_rep:
  "list_rep m q xs \<Longrightarrow> tp \<noteq> q \<Longrightarrow> tp \<notin> set xs \<Longrightarrow> list_rep (ptr_list_insert tp q m) q (tp # xs)"
  by (cases xs) (auto simp: list_rep_def ptr_list_insert_def Let_def)

lemma list_remove_rep:
  "list_rep m q (x # xs) \<Longrightarrow>
   fst (ptr_list_remove q m) = x \<and> list_rep (snd (ptr_list_remove q m)) q xs"
  by (cases xs) (auto simp: list_rep_def ptr_list_remove_def Let_def)

text \<open>
  The ready-list loops agree with \<open>prio_insert\<close>'s search as long as the header's priority cell holds
  \<open>NOPRIO\<close> (zero) and the thread's priority is above it.
\<close>

lemma ready_scan_behind_eq:
  "linked m (c # zs @ [q]) \<Longrightarrow> pprio m q < pprio m tp \<Longrightarrow>
   ready_scan_behind m tp c = Some (hd (dropWhile (\<lambda>y. pprio m tp \<le> pprio m y) zs @ [q]))"
proof (induction zs arbitrary: c)
  case Nil
  then show ?case by (subst ready_scan_behind.simps) simp
next
  case (Cons z zs)
  then show ?case by (subst ready_scan_behind.simps) simp
qed

lemma ready_scan_ahead_eq:
  "linked m (c # zs @ [q]) \<Longrightarrow> pprio m q \<le> pprio m tp \<Longrightarrow>
   ready_scan_ahead m tp c = Some (hd (dropWhile (\<lambda>y. pprio m tp < pprio m y) zs @ [q]))"
proof (induction zs arbitrary: c)
  case Nil
  then show ?case by (subst ready_scan_ahead.simps) simp
next
  case (Cons z zs)
  then show ?case by (subst ready_scan_ahead.simps) simp
qed

lemma ready_behind_rep:
  assumes "queue_rep m q xs" "tp \<noteq> q" "tp \<notin> set xs" "pprio m q < pprio m tp"
  shows "\<exists>m'. ptr_ready_behind tp q m = Some m' \<and> queue_rep m' q (ins_behind (pprio m) tp xs)"
proof -
  let ?P = "\<lambda>y. pprio m tp \<le> pprio m y"
  have "ready_scan_behind m tp q = Some (hd (dropWhile ?P xs @ [q]))"
    using assms by (intro ready_scan_behind_eq) (auto simp: queue_rep_def)
  moreover have "queue_rep (link_before tp (hd (dropWhile ?P xs @ [q])) m) q
      (takeWhile ?P xs @ tp # dropWhile ?P xs)"
    using assms by (intro queue_rep_link_before) auto
  ultimately show ?thesis by (simp add: ptr_ready_behind_def ins_behind_def)
qed

lemma ready_ahead_rep:
  assumes "queue_rep m q xs" "tp \<noteq> q" "tp \<notin> set xs" "pprio m q \<le> pprio m tp"
  shows "\<exists>m'. ptr_ready_ahead tp q m = Some m' \<and> queue_rep m' q (ins_ahead (pprio m) tp xs)"
proof -
  let ?P = "\<lambda>y. pprio m tp < pprio m y"
  have "ready_scan_ahead m tp q = Some (hd (dropWhile ?P xs @ [q]))"
    using assms by (intro ready_scan_ahead_eq) (auto simp: queue_rep_def)
  moreover have "queue_rep (link_before tp (hd (dropWhile ?P xs @ [q])) m) q
      (takeWhile ?P xs @ tp # dropWhile ?P xs)"
    using assms by (intro queue_rep_link_before) auto
  ultimately show ?thesis by (simp add: ptr_ready_ahead_def ins_ahead_def)
qed

section \<open>The first-in first-out contract\<close>

text \<open>
  What a client of a waiting queue relies on: \<open>rep m xs\<close> abstracts the memory to a list, insertion
  appends an element that is not linked yet, removal takes the first.
\<close>

locale fifo_queue =
  fixes rep :: "'m \<Rightarrow> 'a list \<Rightarrow> bool"
    and enq :: "'a \<Rightarrow> 'm \<Rightarrow> 'm"
    and deq :: "'m \<Rightarrow> 'a \<times> 'm"
    and ok :: "'a \<Rightarrow> bool"
  assumes enq_rep: "rep m xs \<Longrightarrow> ok x \<Longrightarrow> x \<notin> set xs \<Longrightarrow> rep (enq x m) (xs @ [x])"
    and deq_rep: "rep m (x # xs) \<Longrightarrow> fst (deq m) = x \<and> rep (snd (deq m)) xs"
begin

lemma enq_all_rep:
  "rep m xs \<Longrightarrow> distinct (xs @ ys) \<Longrightarrow> (\<forall>y\<in>set ys. ok y) \<Longrightarrow> rep (fold enq ys m) (xs @ ys)"
proof (induction ys arbitrary: m xs)
  case (Cons y ys)
  then have "rep (enq y m) (xs @ [y])" by (intro enq_rep) auto
  then have "rep (fold enq ys (enq y m)) ((xs @ [y]) @ ys)"
    using Cons.prems by (intro Cons.IH) auto
  then show ?case by simp
qed simp

primrec drain :: "nat \<Rightarrow> 'm \<Rightarrow> 'a list \<times> 'm" where
  "drain 0 m = ([], m)"
| "drain (Suc n) m = (let (x, m1) = deq m; (xs, m2) = drain n m1 in (x # xs, m2))"

lemma drain_rep: "rep m (xs @ ys) \<Longrightarrow> fst (drain (length xs) m) = xs \<and> rep (snd (drain (length xs) m)) ys"
proof (induction xs arbitrary: m)
  case (Cons x xs)
  then have "fst (deq m) = x" "rep (snd (deq m)) (xs @ ys)" using deq_rep[of m x "xs @ ys"] by auto
  with Cons.IH[of "snd (deq m)"] show ?case by (auto simp: split_beta Let_def)
qed simp

lemma fifo_order:
  assumes "rep m []" "distinct ys" "\<forall>y\<in>set ys. ok y"
  shows "fst (drain (length ys) (fold enq ys m)) = ys"
  using drain_rep[of _ ys "[]"] enq_all_rep[of m "[]" ys] assms by simp

end

interpretation ptrq: fifo_queue "\<lambda>m. queue_rep m q" "\<lambda>x. ptr_queue_insert x q" "ptr_fifo_remove q"
  "\<lambda>x. x \<noteq> q" for q
  by unfold_locales (auto intro: queue_insert_rep dest: fifo_remove_rep)

end
