(* ===== verification/Demo.thy ===== *)
theory Demo
  imports Dynamic Cond Msg IOQueues MBoxes ChLists
begin

text \<open>
  A concrete state of a running system, on which the properties are shown to apply: the main thread
  runs and owns a mutex another thread waits for; the idle thread and two more are ready; the others wait
  on a semaphore, a condition variable, an event, a message, a timer, a driver, and to send a message
  to main.
\<close>

definition no_thread :: thread where
  "no_thread = \<lparr>p_prio = 0, p_state = THD_STATE_FINAL, p_flags = 0, p_refs = 0, p_preempt = 0, p_time = 0,
     p_u = UMsg 0, p_waiting = [], p_msg = 0, p_epending = 0, p_mtxlist = [], p_realprio = 0,
     p_name = None, p_mpool = None\<rparr>"

definition a_thread :: "tprio \<Rightarrow> tstate \<Rightarrow> thd_u \<Rightarrow> thread" where
  "a_thread pri st u = no_thread\<lparr>p_prio := pri, p_realprio := pri, p_state := st, p_u := u, p_refs := 1,
     p_preempt := 20\<rparr>"

definition demo_threads :: "tid \<Rightarrow> thread" where
  "demo_threads = (\<lambda>_. no_thread)(
     0 := (a_thread 64 THD_STATE_CURRENT (UMsg 0))\<lparr>p_mtxlist := [7], p_epending := 12\<rparr>,
     1 := a_thread 1 THD_STATE_READY (UMsg 0),
     2 := a_thread 64 THD_STATE_READY (UMsg 0),
     3 := a_thread 63 THD_STATE_WTSEM (UObj (QSem 5)),
     4 := a_thread 70 THD_STATE_WTSEM (UObj (QSem 5)),
     5 := a_thread 60 THD_STATE_WTMTX (UObj (QMtx 7)),
     6 := a_thread 65 THD_STATE_WTCOND (UObj (QCond 2)),
     7 := a_thread 66 THD_STATE_WTOREVT (UMask 6),
     8 := a_thread 63 THD_STATE_WTMSG (UMsg 0),
     9 := (a_thread 50 THD_STATE_SNDMSGQ (UObj (QMsg 0)))\<lparr>p_msg := 42\<rparr>,
     10 := a_thread 30 THD_STATE_SLEEPING (UMsg 0),
     11 := (a_thread 20 THD_STATE_READY (UMsg 0)),
     12 := a_thread 40 THD_STATE_WTQUEUE (UObj (QGen 0)),
     13 := a_thread 45 THD_STATE_SUSPENDED (UMsg 0))"

definition demo_tq :: "qid \<Rightarrow> tid list" where
  "demo_tq = (\<lambda>_. [])(QReady := [2, 11, 1], QSem 5 := [3, 4], QMtx 7 := [5], QCond 2 := [6], QMsg 0 := [9],
     QGen 0 := [12])"

definition a_timer :: "systime \<Rightarrow> vtfunc \<Rightarrow> nat \<Rightarrow> vtimer" where
  "a_timer t f p = \<lparr>vt_time = t, vt_func = Some f, vt_par = p\<rparr>"

definition demo_on :: "'x \<Rightarrow> 'x kernel_scheme" where
  "demo_on x = \<lparr>threads = demo_threads, tq = demo_tq, currp = 0, registry = [0..<14],
     vts = (\<lambda>_. \<lparr>vt_time = 0, vt_func = None, vt_par = 0\<rparr>)(
       VtStack 10 := a_timer 5 Fn_wakeup 10, VtObj 9 := a_timer 7 Fn_tmrcb 0),
     vtl = [VtStack 10, VtObj 9], vt_systime = 1000,
     s_cnt = (\<lambda>_. 0)(0 := 1, 1 := 1, 5 := -2, 6 := 1, 20 := 0, 21 := 2),
     m_owner = (\<lambda>_. None)(7 := Some 0),
     es_next = (\<lambda>_. [])(0 := [0]),
     els = (\<lambda>_. \<lparr>el_listener = 7, el_mask = 2, el_flags = 0\<rparr>),
     gqs = (\<lambda>_. \<lparr>q_counter = 1, q_buffer = [7, 65, 66, 9], q_wrptr = 2, q_rdptr = 1, q_notify = False\<rparr>),
     mbs = (\<lambda>_. \<lparr>mb_buffer = [5, 6], mb_wrptr = 1, mb_rdptr = 1, mb_fullsem = 20, mb_emptysem = 21\<rparr>),
     pools = (\<lambda>_. \<lparr>mp_next = [256, 128], mp_object_size = 64, mp_provider = False\<rparr>),
     heaps = (\<lambda>_. \<lparr>h_provider = False, h_free = [(4096, 64), (8192, 128)], h_mtx = 8\<rparr>),
     hdrs = (\<lambda>_. (0, 0))(2048 := (0, 16)),
     nextmem = 65536, endmem = 131072, \<dots> = x\<rparr>"

abbreviation demo :: kernel where "demo \<equiv> demo_on ()"

lemmas demo_defs = demo_on_def demo_threads_def demo_tq_def a_thread_def no_thread_def a_timer_def

lemma demo_fields [simp]:
  "threads (demo_on x) = demo_threads" "tq (demo_on x) = demo_tq" "currp (demo_on x) = 0"
  "registry (demo_on x) = [0..<14]" "vt_systime (demo_on x) = 1000" "vtl (demo_on x) = [VtStack 10, VtObj 9]"
  "kernel.more (demo_on x) = x"
  by (simp_all add: demo_on_def)

lemma demo_sched: "sched_inv (demo_on x)"
proof (rule sched_butI)
  show "distinct (tq (demo_on x) q)" for q by (simp add: demo_tq_def)
  show "t \<in> set (tq (demo_on x) q) \<longleftrightarrow> queued_as q (threads (demo_on x) t)" for q t
    by (cases q) (auto simp: demo_defs)
  show "p_state (threads (demo_on x) t) = THD_STATE_CURRENT \<longleftrightarrow> t = currp (demo_on x)" for t
    by (auto simp: demo_defs)
  show "prio_sorted (prio (demo_on x)) (tq (demo_on x) QReady)" by (simp add: demo_defs prio_def)
  show "0 < prio (demo_on x) u" if "p_state (threads (demo_on x) u) \<noteq> THD_STATE_FINAL" for u
    using that by (auto simp: demo_defs prio_def split: if_splits)
  show "p_state (threads (demo_on x) idle_tid) = THD_STATE_READY \<or>
      p_state (threads (demo_on x) idle_tid) = THD_STATE_CURRENT"
    by (simp add: demo_defs idle_tid_def)
qed

lemma demo_top: "top_running (demo_on x)"
  by (simp add: top_running_def demo_defs prio_def)

lemma demo_kinv: "kinv (demo_on x)"
  using demo_sched[of x] by (auto simp: kinv_def sem_ok_def demo_defs)

lemma demo_mtx: "mtx_ok (demo_on x)"
  unfolding mtx_ok_def mtx_but_def
  by (intro conjI allI impI) (auto simp: demo_defs prio_def split: if_splits)

lemma demo_vt: "vt_ok (demo_on x)" "vt_live (demo_on x)"
  by (auto simp: vt_ok_def vt_live_def dsum_def dt_def chVTIsArmedI_def demo_defs)

lemma demo_cur: "cur (demo_on x) = (a_thread 64 THD_STATE_CURRENT (UMsg 0))\<lparr>p_mtxlist := [7], p_epending := 12\<rparr>"
  "currp (demo_on x) \<noteq> idle_tid" "prio (demo_on x) 0 = 64"
  by (simp_all add: demo_threads_def idle_tid_def prio_def a_thread_def)

end
