(* ===== verification/Kernel_Properties.thy ===== *)
theory Kernel_Properties
  imports Demo
begin

text \<open>
  The properties of the kernel, each over the model's definitions and free of the library's locales, with
  a witness at the state of \<open>Demo\<close> (or a concrete list memory).
\<close>

section \<open>Lists of threads\<close>

definition demo_mem :: lmem where
  "demo_mem = \<lparr>p_next = (\<lambda>_. 0)(100 := 3, 3 := 4, 4 := 100), p_prev = (\<lambda>_. 0)(3 := 100, 4 := 3, 100 := 4),
     pprio = (\<lambda>_. 0)(3 := 63, 4 := 60, 5 := 63)\<rparr>"

text \<open>
  C3: the pointer code of chlists.c implements the thread queues of the kernel. On the circular
  doubly linked list of a queue, queue_insert appends, prio_insert ends and inserts in order of
  priority behind the equals, fifo_remove takes the first thread, lifo_remove the last, and dequeue
  unlinks the given one.
\<close>

theorem queue_pointer_refinement:
  assumes "queue_rep m q xs" "tp \<noteq> q" "tp \<notin> set xs"
  shows "queue_rep (ptr_queue_insert tp q m) q (xs @ [tp]) \<and>
    (\<exists>m'. ptr_prio_insert tp q m = Some m' \<and> queue_rep m' q (ins_behind (pprio m) tp xs)) \<and>
    (xs \<noteq> [] \<longrightarrow> fst (ptr_fifo_remove q m) = hd xs \<and> queue_rep (snd (ptr_fifo_remove q m)) q (tl xs)) \<and>
    (xs \<noteq> [] \<longrightarrow> fst (ptr_lifo_remove q m) = last xs \<and> queue_rep (snd (ptr_lifo_remove q m)) q (butlast xs)) \<and>
    (\<forall>t\<in>set xs. fst (ptr_dequeue t m) = t \<and> queue_rep (snd (ptr_dequeue t m)) q (remove1 t xs))"
proof (intro conjI impI ballI)
  show "queue_rep (ptr_queue_insert tp q m) q (xs @ [tp])" using assms by (rule queue_insert_rep)
  show "\<exists>m'. ptr_prio_insert tp q m = Some m' \<and> queue_rep m' q (ins_behind (pprio m) tp xs)"
    using assms by (rule prio_insert_rep)
  show "fst (ptr_fifo_remove q m) = hd xs" "queue_rep (snd (ptr_fifo_remove q m)) q (tl xs)" if "xs \<noteq> []"
    using fifo_remove_rep[of m q "hd xs" "tl xs"] that assms(1) by auto
  show "fst (ptr_lifo_remove q m) = last xs" "queue_rep (snd (ptr_lifo_remove q m)) q (butlast xs)" if "xs \<noteq> []"
    using lifo_remove_rep[of m q "butlast xs" "last xs"] that assms(1) by auto
  show "fst (ptr_dequeue t m) = t" "queue_rep (snd (ptr_dequeue t m)) q (remove1 t xs)" if "t \<in> set xs" for t
    using dequeue_rep[OF assms(1) that] by auto
qed

theorem queue_pointer_refinement_witness:
  "queue_rep demo_mem 100 [3, 4] \<and> queue_rep (ptr_queue_insert 5 100 demo_mem) 100 [3, 4, 5]"
proof -
  have r: "queue_rep demo_mem 100 [3, 4]" by (simp add: queue_rep_def demo_mem_def)
  then show ?thesis using queue_pointer_refinement[OF r, of 5] by simp
qed

text \<open>
  C6: the ready list. The two scans of chSchReadyI and chSchDoRescheduleAhead, which have no test for
  the end of the list, do end, because the header's priority is below every thread's, and they put the thread
  behind, respectively ahead of, the threads of its own priority.
\<close>

theorem ready_list_scans:
  assumes "queue_rep m q xs" "tp \<noteq> q" "tp \<notin> set xs" "pprio m q < pprio m tp"
  shows "\<exists>m1 m2. ptr_ready_behind tp q m = Some m1 \<and> queue_rep m1 q (ins_behind (pprio m) tp xs) \<and>
    ptr_ready_ahead tp q m = Some m2 \<and> queue_rep m2 q (ins_ahead (pprio m) tp xs)"
  using ready_behind_rep[OF assms] ready_ahead_rep[OF assms(1-3) less_imp_le[OF assms(4)]] by blast

theorem ready_list_scans_witness:
  "queue_rep demo_mem 100 [3, 4] \<and>
   (\<exists>m1 m2. ptr_ready_behind 5 100 demo_mem = Some m1 \<and> queue_rep m1 100 [3, 5, 4] \<and>
      ptr_ready_ahead 5 100 demo_mem = Some m2 \<and> queue_rep m2 100 [5, 3, 4])"
proof -
  have r: "queue_rep demo_mem 100 [3, 4]" by (simp add: queue_rep_def demo_mem_def)
  have "ins_behind (pprio demo_mem) 5 [3, 4] = [3, 5, 4]" "ins_ahead (pprio demo_mem) 5 [3, 4] = [5, 3, 4]"
    by (simp_all add: ins_behind_def ins_ahead_def demo_mem_def)
  then show ?thesis using ready_list_scans[OF r, of 5] r by (simp add: demo_mem_def)
qed

section \<open>Virtual timers\<close>

text \<open>
  C5: the delta list of the virtual timers is a map from timers to deadlines. Setting a timer gives it
  its deadline, resetting it takes it out, and neither moves another timer's deadline.
\<close>

theorem timer_set_and_reset:
  assumes "vt_ok s" "v \<notin> set (vtl s)" "w \<in> set (vtl s)"
  shows "\<exists>s1 s2. chVTSetI v time fn par s = Done () s1 \<and> vt_ok s1 \<and>
      vt_deadline s1 = (vt_deadline s)(v \<mapsto> unat time) \<and>
      chVTResetI w s1 = Done () s2 \<and> vt_ok s2 \<and> vt_deadline s2 = (vt_deadline s)(v \<mapsto> unat time, w := None)"
proof -
  obtain s1 where s1: "chVTSetI v time fn par s = Done () s1" "vt_ok s1" "vt_deadline s1 = (vt_deadline s)(v \<mapsto> unat time)"
    using vt_set_deadline[OF assms(1,2)] by blast
  have "vt_deadline s w \<noteq> None" using assms(3) by (simp add: vt_deadline_def)
  then have "vt_deadline s1 w \<noteq> None" by (auto simp: s1(3))
  then have "w \<in> set (vtl s1)" by (simp add: vt_deadline_def)
  from vt_reset_deadline[OF s1(2) this] s1 show ?thesis by auto
qed

theorem timer_set_and_reset_witness:
  "vt_ok demo \<and> VtObj 3 \<notin> set (vtl demo) \<and> VtStack 10 \<in> set (vtl demo) \<and>
   (\<exists>s1 s2. chVTSetI (VtObj 3) 6 Fn_tmrcb 0 demo = Done () s1 \<and> chVTResetI (VtStack 10) s1 = Done () s2 \<and>
      vt_deadline s2 (VtObj 3) = Some 6 \<and> vt_deadline s2 (VtStack 10) = None \<and> vt_deadline s2 (VtObj 9) = Some 12)"
proof -
  have h: "VtObj 3 \<notin> set (vtl demo)" "VtStack 10 \<in> set (vtl demo)" by simp_all
  have d: "vt_deadline demo (VtObj 9) = Some 12"
    by (simp add: vt_deadline_def dt_def demo_on_def a_timer_def)
  from timer_set_and_reset[OF demo_vt(1) h, of 6 Fn_tmrcb 0] d h demo_vt(1)[of "()"] show ?thesis by auto
qed

section \<open>Scheduling\<close>

text \<open>
  C8: starting the kernel on blank memory yields a running main thread, the idle thread as the only
  ready one, and a state in which the invariants of the scheduler and the semaphores hold.
\<close>

theorem boot_establishes_invariant:
  assumes "blank s"
  shows "\<exists>s'. quiet (chSysInit base lim h m s) = Some ((), s') \<and> kinv s' \<and> top_running s' \<and>
    currp s' = main_tid \<and> tq s' QReady = [idle_tid] \<and> registry s' = [main_tid, idle_tid] \<and>
    prio s' main_tid = NORMALPRIO \<and> prio s' idle_tid = IDLEPRIO \<and> vtl s' = [] \<and> vt_systime s' = 0"
  using assms by (rule sys_init)

definition demo_blank :: kernel where
  "demo_blank = (demo_on ())\<lparr>threads := \<lambda>_. no_thread, tq := \<lambda>_. [], s_cnt := \<lambda>_. 0\<rparr>"

theorem boot_establishes_invariant_witness:
  "blank demo_blank \<and> (\<exists>s'. quiet (chSysInit 65536 131072 0 8 demo_blank) = Some ((), s') \<and> kinv s' \<and> currp s' = 0)"
proof -
  have b: "blank demo_blank" by (simp add: blank_def demo_blank_def no_thread_def)
  from boot_establishes_invariant[OF b, of 65536 131072 0 8] b show ?thesis by (auto simp: main_tid_def)
qed

text \<open>
  C4: whichever way the processor is given up (reschedule, yield, or the exit of an interrupt), the
  scheduler invariant is kept, a thread of the highest ready priority runs, and nothing but the
  threads' states and the ready list changes.
\<close>

theorem rescheduling_runs_the_top:
  assumes "sched_inv s" "m \<in> {chSchRescheduleS, chSchDoYieldS, chSchPreemption, port_irq_epilogue}"
  shows "settles (\<lambda>s'. sched_inv s' \<and> top_running s' \<and> sched_frame s s' \<and> prio s' = prio s) (m s)"
  using assms(2) reschedule_s[OF assms(1)] yield_s[OF assms(1)] preemption_s[OF assms(1)] irq_epilogue_s[OF assms(1)]
  by blast

theorem rescheduling_runs_the_top_witness:
  "sched_inv demo \<and> settles (\<lambda>s'. sched_inv s' \<and> top_running s') (chSchDoYieldS demo) \<and>
   settles (\<lambda>s'. sched_inv s' \<and> top_running s') (port_irq_epilogue demo)"
  using rescheduling_runs_the_top[OF demo_sched[of "()"], of chSchDoYieldS]
    rescheduling_runs_the_top[OF demo_sched[of "()"], of port_irq_epilogue] demo_sched[of "()"]
  by (auto elim: settles_mono)

text \<open>
  C9: round robin. When the running thread has used up its quantum and an equal is ready, the exit of
  the tick interrupt gives the processor to the equal that has waited longest; the thread that ran gets a
  new quantum and a place behind all its equals.
\<close>

theorem round_robin_among_equals:
  assumes "sched_inv s" "p_preempt (cur s) = 0" "tq s QReady = t # ts" "prio s t = prio s (currp s)"
  shows "settles (\<lambda>s'. sched_inv s' \<and> top_running s' \<and> currp s' = t \<and>
    tq s' QReady = ins_behind (prio s) (currp s) ts \<and>
    p_preempt (threads s' (currp s)) = CH_TIME_QUANTUM) (port_irq_epilogue s)"
  using assms by (rule round_robin)

theorem round_robin_among_equals_witness:
  "\<exists>s :: kernel. sched_inv s \<and> p_preempt (cur s) = 0 \<and>
     settles (\<lambda>s'. currp s' = 2 \<and> tq s' QReady = [0, 11, 1]) (port_irq_epilogue s)"
proof -
  let ?s = "upd_thread 0 (\<lambda>th. th\<lparr>p_preempt := 0\<rparr>) demo"
  have i: "sched_inv ?s" by (rule sched_but_same[OF demo_sched]) auto
  have q: "tq ?s QReady = 2 # [11, 1]" by (simp add: demo_tq_def)
  have p: "prio ?s 2 = prio ?s (currp ?s)" by (simp add: prio_def demo_threads_def a_thread_def)
  have z: "p_preempt (cur ?s) = 0" by simp
  have "ins_behind (prio ?s) (currp ?s) [11, 1] = [0, 11, 1]"
    by (simp add: ins_behind_def prio_def demo_threads_def a_thread_def)
  then have "settles (\<lambda>s'. currp s' = 2 \<and> tq s' QReady = [0, 11, 1]) (port_irq_epilogue ?s)"
    using round_robin_among_equals[OF i z q p] by (auto elim: settles_mono)
  with i z show ?thesis by blast
qed

end
