(* ===== verification/Sync_Properties.thy ===== *)
theory Sync_Properties
  imports Demo
begin

text \<open>
  The properties of the synchronisation objects and of the threads, over the model's definitions, with
  witnesses at the state of \<open>Demo\<close>.
\<close>

section \<open>Semaphores\<close>

text \<open>
  C10: waiting on a semaphore never faults; whenever the processor is handed over the kernel invariant
  holds (the scheduler's, and a negative count is the number of waiting threads), and it holds on return if it
  held when the thread was resumed.
\<close>

theorem sem_wait_keeps_invariant:
  assumes "kinv s" "currp s \<noteq> idle_tid"
  shows "safe kinv (\<lambda>s'. kinv s' \<and> currp s' = currp s) (\<lambda>r s'. kinv s' \<and> currp s' = currp s) (chSemWaitS sp s)"
  using assms by (rule sem_wait_safe)

theorem sem_wait_keeps_invariant_witness:
  "kinv demo \<and> safe kinv (\<lambda>s'. kinv s' \<and> currp s' = 0) (\<lambda>r s'. kinv s' \<and> currp s' = 0) (chSemWaitS 5 demo)"
  using sem_wait_keeps_invariant[OF demo_kinv demo_cur(2), where sp = 5] demo_kinv[of "()"] by simp



text \<open>
  C12: a wait that times out. The timer function takes the thread off the semaphore's queue wherever it
  is in it, gives the count back, and makes the thread ready with the timeout message.
\<close>

theorem sem_timeout_gives_back:
  assumes "kinv s" "t \<in> set (tq s (QSem sp))"
  shows "\<exists>s'. wakeup t s = Done () s' \<and> kinv s' \<and> s_cnt s' = (s_cnt s)(sp := s_cnt s sp + 1) \<and>
    tq s' (QSem sp) = remove1 t (tq s (QSem sp)) \<and> p_u (threads s' t) = UMsg RDY_TIMEOUT \<and>
    p_state (threads s' t) = THD_STATE_READY \<and> currp s' = currp s"
  using assms by (rule wakeup_sem)

theorem sem_timeout_gives_back_witness:
  "kinv demo \<and> 4 \<in> set (tq demo (QSem 5)) \<and>
   (\<exists>s'. wakeup 4 demo = Done () s' \<and> tq s' (QSem 5) = [3] \<and> s_cnt s' 5 = -1)"
proof -
  have f: "4 \<in> set (tq demo (QSem 5))" "s_cnt demo 5 = -2" "tq demo (QSem 5) = [3, 4]" by (simp_all add: demo_defs)
  from sem_timeout_gives_back[OF demo_kinv f(1)] f demo_kinv[of "()"] show ?thesis by auto
qed

text \<open>
  A binary semaphore never counts above one, however often it is signalled, and each signal
  releases at most the first waiter.
\<close>

theorem bsem_never_above_one:
  assumes "kinv s" "s_cnt s b \<le> 1"
  shows "settles (\<lambda>s'. kinv s' \<and> top_running s' \<and> s_cnt s' b = min 1 (s_cnt s b + 1) \<and>
    tq s' (QSem b) = tl (tq s (QSem b))) (chBSemSignal b s)"
  using assms by (rule bsem_signal_s)

theorem bsem_never_above_one_witness:
  "kinv demo \<and> s_cnt demo 6 \<le> 1 \<and> settles (\<lambda>s'. s_cnt s' 6 = 1) (chBSemSignal 6 demo)"
proof -
  have c: "s_cnt demo 6 = 1" by (simp add: demo_on_def)
  have "settles (\<lambda>s'. s_cnt s' 6 = 1) (chBSemSignal 6 demo)"
    by (rule settles_mono[OF bsem_never_above_one[OF demo_kinv, where b = 6]]) (use c in simp_all)
  then show ?thesis using c by (auto intro: demo_kinv)
qed

section \<open>Mutexes\<close>

text \<open>
  C2: priority inheritance. Locking a mutex that another thread owns ends (the walk along the chain of owners
  visits each thread at most once), puts the caller to sleep on it, and leaves its owner, and whoever that
  one waits for, with at least the caller's priority; no thread's priority falls, the mutexes' invariant
  holds and the top thread runs.
\<close>

theorem mutex_inheritance:
  assumes "sched_inv s" "mtx_ok s" "currp s \<noteq> idle_tid" "m_owner s mp = Some own"
  shows "\<exists>s'. chMtxLock mp s = chSysSwitch s' \<and> sched_inv s' \<and> mtx_ok s' \<and> top_running s' \<and>
    currp s \<in> set (tq s' (QMtx mp)) \<and> m_owner s' = m_owner s \<and> prio s (currp s) \<le> prio s' own \<and>
    prio s' (currp s) = prio s (currp s) \<and> (\<forall>u. prio s u \<le> prio s' u)"
  using assms by (rule mtx_lock_block)

text \<open>
  In the witness thread 2 runs, at a priority above the owner's. \<close>

definition demo_mtx_state :: kernel where
  "demo_mtx_state = (demo_on ())\<lparr>threads := demo_threads(
      0 := (demo_threads 0)\<lparr>p_state := THD_STATE_READY\<rparr>,
      2 := (demo_threads 2)\<lparr>p_state := THD_STATE_CURRENT, p_prio := 80, p_realprio := 80\<rparr>),
    tq := demo_tq(QReady := [0, 11, 1]), currp := 2\<rparr>"

lemma demo_mtx_state_ok: "sched_inv demo_mtx_state" "mtx_ok demo_mtx_state"
proof -
  show "sched_inv demo_mtx_state"
  proof (rule sched_butI)
    show "t \<in> set (tq demo_mtx_state q) \<longleftrightarrow> queued_as q (threads demo_mtx_state t)" for q t
      by (cases q) (auto simp: demo_mtx_state_def demo_defs)
    show "0 < prio demo_mtx_state u" if "p_state (threads demo_mtx_state u) \<noteq> THD_STATE_FINAL" for u
      using that by (auto simp: demo_mtx_state_def demo_defs prio_def split: if_splits)
  qed (auto simp: demo_mtx_state_def demo_defs prio_def idle_tid_def)
  show "mtx_ok demo_mtx_state"
    unfolding mtx_ok_def mtx_but_def
    by (intro conjI allI impI) (auto simp: demo_mtx_state_def demo_defs prio_def split: if_splits)
qed

theorem mutex_inheritance_witness:
  "sched_inv demo_mtx_state \<and> mtx_ok demo_mtx_state \<and> m_owner demo_mtx_state 7 = Some 0 \<and>
   prio demo_mtx_state 0 = 64 \<and>
   (\<exists>s'. chMtxLock 7 demo_mtx_state = chSysSwitch s' \<and> 80 \<le> prio s' 0 \<and> 2 \<in> set (tq s' (QMtx 7)))"
proof -
  have f: "currp demo_mtx_state \<noteq> idle_tid" "m_owner demo_mtx_state 7 = Some 0" "currp demo_mtx_state = 2"
    "prio demo_mtx_state 2 = 80" "prio demo_mtx_state 0 = 64"
    by (simp_all add: demo_mtx_state_def demo_defs prio_def idle_tid_def)
  from mutex_inheritance[OF demo_mtx_state_ok f(1,2)] f demo_mtx_state_ok show ?thesis by auto
qed

text \<open>
  C13: unlocking. The mutex locked last goes to its first waiter, which is one of highest priority; the
  owner falls back to its own priority or the highest among the waiters of the mutexes it still holds, and
  keeps running only if the new owner is not above that.
\<close>

theorem mutex_handover:
  assumes "sched_inv s" "mtx_ok s" "p_mtxlist (cur s) = ump # rest" "tq s (QMtx ump) = t # ts"
  shows "settles (\<lambda>s'. sched_inv s' \<and> m_owner s' = (m_owner s)(ump := Some t) \<and>
      prio s' = (prio s)(currp s := fallback s) \<and>
      currp s' = (if prio s t \<le> fallback s then currp s else t)) (chMtxUnlock s) \<and>
    (\<forall>u\<in>set ts. prio s u \<le> prio s t) \<and>
    (\<forall>m\<in>set rest. \<forall>u\<in>set (tq s (QMtx m)). prio s u \<le> fallback s)"
proof (intro conjI ballI)
  show "settles (\<lambda>s'. sched_inv s' \<and> m_owner s' = (m_owner s)(ump := Some t) \<and>
      prio s' = (prio s)(currp s := fallback s) \<and>
      currp s' = (if prio s t \<le> fallback s then currp s else t)) (chMtxUnlock s)"
    by (rule settles_mono[OF mtx_unlock_waiter[OF assms]]) simp
  have srt: "prio_sorted (prio s) (tq s (QMtx m))" for m using assms(2) by (simp add: mtx_ok_def mtx_but_def)
  show "prio s u \<le> prio s t" if "u \<in> set ts" for u using srt[of ump] assms(4) that by simp
  show "prio s u \<le> fallback s" if "m \<in> set rest" "u \<in> set (tq s (QMtx m))" for m u
    using newprio_covers[of s m rest u "p_realprio (cur s)"] srt that assms(3) by (simp add: fallback_def)
qed

theorem mutex_handover_witness:
  "sched_inv demo \<and> mtx_ok demo \<and> p_mtxlist (cur demo) = [7] \<and> tq demo (QMtx 7) = [5] \<and>
   settles (\<lambda>s'. m_owner s' 7 = Some 5 \<and> currp s' = 0) (chMtxUnlock demo)"
proof -
  have f: "p_mtxlist (cur demo) = [7]" "tq demo (QMtx 7) = [5]" "prio demo 5 = 60" "fallback demo = 64"
    by (simp_all add: demo_defs prio_def fallback_def)
  have "settles (\<lambda>s'. m_owner s' 7 = Some 5 \<and> currp s' = 0) (chMtxUnlock demo)"
    by (rule settles_mono[OF mutex_handover[OF demo_sched demo_mtx f(1,2), THEN conjunct1]]) (use f in simp)
  then show ?thesis using f by (fast intro: demo_sched demo_mtx)
qed

section \<open>Condition variables, events, messages\<close>



text \<open>
  chEvtWaitOne takes the pending event of the lowest number among those in the mask, returns it,
  and clears that event and no other.
\<close>

theorem wait_one_takes_lowest:
  assumes "p_epending (cur s) AND emask \<noteq> 0"
  shows "\<exists>k<32. bit emask k \<and> bit (p_epending (cur s)) k \<and>
    (\<forall>j<k. \<not> (bit emask j \<and> bit (p_epending (cur s)) j)) \<and>
    chEvtWaitOne emask s = Done (EVENT_MASK k)
      (set_epending (currp s) (p_epending (cur s) AND NOT (EVENT_MASK k)) s)"
  using assms by (rule wait_one_pending)

theorem wait_one_takes_lowest_witness:
  "p_epending (cur demo) = 12 \<and> (\<exists>k<32. bit (12 :: 32 word) k \<and> (\<exists>s'. chEvtWaitOne 15 demo = Done (EVENT_MASK k) s'))"
proof -
  have p: "p_epending (cur demo) = 12" by (simp add: demo_threads_def)
  have "p_epending (cur demo) AND 15 \<noteq> 0" unfolding p by simp
  from wait_one_takes_lowest[OF this] p show ?thesis by auto
qed

text \<open>
  Signalling events to a thread sets them pending, makes the thread ready exactly when what it waits
  for (one event of its mask, or all of them) is now there, and touches no other thread.
\<close>

theorem event_signal_wakes_when_due:
  assumes "sched_inv s"
  shows "\<exists>s'. chEvtSignalI tp emask s = Done () s' \<and> sched_inv s' \<and> currp s' = currp s \<and>
    p_epending (threads s' tp) = p_epending (threads s tp) OR emask \<and>
    p_state (threads s' tp) = (if event_due ((threads s tp)\<lparr>p_epending := p_epending (threads s tp) OR emask\<rparr>)
      then THD_STATE_READY else p_state (threads s tp)) \<and>
    (\<forall>u. u \<noteq> tp \<longrightarrow> threads s' u = threads s u) \<and> frame_but {QReady} s s' \<and> prio s' = prio s"
  using assms by (rule signalI_inv)

theorem event_signal_wakes_when_due_witness:
  "sched_inv demo \<and> (\<exists>s'. chEvtSignalI 7 2 demo = Done () s' \<and> p_state (threads s' 7) = THD_STATE_READY)
   \<and> (\<exists>s'. chEvtSignalI 7 1 demo = Done () s' \<and> p_state (threads s' 7) = THD_STATE_WTOREVT)"
proof -
  have d: "event_due ((threads demo 7)\<lparr>p_epending := p_epending (threads demo 7) OR 2\<rparr>)"
    "\<not> event_due ((threads demo 7)\<lparr>p_epending := p_epending (threads demo 7) OR 1\<rparr>)"
    "p_state (threads demo 7) = THD_STATE_WTOREVT"
    by (simp_all add: event_due_def demo_defs)
  obtain s2 where "chEvtSignalI 7 2 demo = Done () s2"
    "p_state (threads s2 7) = (if event_due ((threads demo 7)\<lparr>p_epending := p_epending (threads demo 7) OR 2\<rparr>)
      then THD_STATE_READY else p_state (threads demo 7))"
    using event_signal_wakes_when_due[OF demo_sched[of "()"], of 7 2] by blast
  then have a: "\<exists>s'. chEvtSignalI 7 2 demo = Done () s' \<and> p_state (threads s' 7) = THD_STATE_READY"
    using d(1) by (simp only: if_True if_False) blast
  obtain s1 where "chEvtSignalI 7 1 demo = Done () s1"
    "p_state (threads s1 7) = (if event_due ((threads demo 7)\<lparr>p_epending := p_epending (threads demo 7) OR 1\<rparr>)
      then THD_STATE_READY else p_state (threads demo 7))"
    using event_signal_wakes_when_due[OF demo_sched[of "()"], of 7 1] by blast
  then have b: "\<exists>s'. chEvtSignalI 7 1 demo = Done () s' \<and> p_state (threads s' 7) = THD_STATE_WTOREVT"
    using d(2,3) by (simp only: if_True if_False) blast
  show ?thesis by (intro conjI demo_sched a b)
qed

text \<open>
  Sending a message is a rendezvous. The sender queues behind the earlier senders and sleeps, a
  receiver that waits is made ready; the sender's answer is the message it is released with.
\<close>

theorem message_send_blocks_in_order:
  assumes "sched_inv s" "currp s \<noteq> idle_tid" "tp \<noteq> currp s"
  shows "\<exists>s1. chMsgSend tp m s =
      obind (chSysSwitch s1) (\<lambda>_ s2. Done (rdymsg (p_u (threads s2 (currp s)))) s2) \<and>
    sched_inv s1 \<and> top_running s1 \<and> tq s1 (QMsg tp) = tq s (QMsg tp) @ [currp s] \<and>
    chMsgGet (currp s) s1 = m \<and> p_state (threads s1 (currp s)) = THD_STATE_SNDMSGQ \<and>
    (p_state (threads s tp) = THD_STATE_WTMSG \<longrightarrow>
       p_state (threads s1 tp) \<in> {THD_STATE_READY, THD_STATE_CURRENT})"
  using assms by (rule msg_send)

theorem message_send_blocks_in_order_witness:
  "sched_inv demo \<and> (\<exists>s1 k. chMsgSend 8 77 demo = Switch s1 k \<and> tq s1 (QMsg 8) = [0] \<and> chMsgGet 0 s1 = 77)"
proof -
  have h: "(8 :: tid) \<noteq> currp demo" "tq demo (QMsg 8) = []" by (simp_all add: demo_tq_def)
  from message_send_blocks_in_order[OF demo_sched demo_cur(2) h(1), where m = 77] obtain s1 where
    s1: "chMsgSend 8 77 demo = obind (chSysSwitch s1) (\<lambda>_ s2. Done (rdymsg (p_u (threads s2 (currp demo)))) s2)"
      "tq s1 (QMsg 8) = tq demo (QMsg 8) @ [currp demo]" "chMsgGet (currp demo) s1 = 77" by blast
  have "\<exists>k. chMsgSend 8 77 demo = Switch s1 k" unfolding s1(1) by simp
  with s1(2,3) h(2) demo_sched[of "()"] show ?thesis by auto
qed

section \<open>Queues and memory\<close>

text \<open>
  The input queue between an interrupt routine and a thread is a bounded FIFO. From an empty queue,
  up to its size, bytes come out in the order in which they were put in, and no other; putting fails
  exactly on a full queue.
\<close>

theorem input_queue_is_fifo:
  assumes "iq_ok q"
  shows "(iq_in b q = None \<longleftrightarrow> length (iq_content q) = length (q_buffer q)) \<and>
    (iq_content q = [] \<longrightarrow> length xs \<le> length (q_buffer q) \<longrightarrow>
      (\<exists>q1 q2. iqf.put_all xs q = Some q1 \<and> iqf.get_n (length xs) q1 = Some (xs, q2) \<and> iq_ok q2 \<and> iq_out q2 = None))"
  using iqf.put_iff_room[OF assms, of b] iqf.within[OF assms] iqf.in_order[OF assms, of xs] by auto

definition demo_iq :: genqueue where
  "demo_iq = \<lparr>q_counter = 0, q_buffer = [7, 65, 66, 9], q_wrptr = 3, q_rdptr = 3, q_notify = False\<rparr>"

theorem input_queue_is_fifo_witness:
  "iq_ok demo_iq \<and> (\<exists>q1 q2. iqf.put_all [1, 2, 3] demo_iq = Some q1 \<and> iqf.get_n 3 q1 = Some ([1, 2, 3], q2))"
proof -
  have o: "iq_ok demo_iq" "iq_content demo_iq = []" "length (q_buffer demo_iq) = 4"
    by (simp_all add: iq_ok_def gq_ok_def demo_iq_def iq_content_def ring_def)
  from input_queue_is_fifo[OF o(1), of 0 "[1, 2, 3]"] o show ?thesis by (auto simp: numeral_3_eq_3)
qed

text \<open>
  An interrupt routine puts a byte into the input queue of a driver: the byte is appended and the
  thread that has waited longest is made ready, or, on a full queue, nothing changes and the
  routine is told.
\<close>

theorem input_queue_put:
  assumes "kinv s" "iq_ok (gqs s i)"
  shows "if chIQIsFullI (gqs s i) then chIQPutI i b s = Done Q_FULL s
    else \<exists>q' s'. chIQPutI i b s = Done Q_OK s' \<and> kinv s' \<and> gqs s' = (gqs s)(i := q') \<and> iq_ok q' \<and>
      iq_content q' = iq_content (gqs s i) @ [b] \<and> tq s' (QGen i) = tl (tq s (QGen i)) \<and> currp s' = currp s \<and>
      (\<forall>t ts. tq s (QGen i) = t # ts \<longrightarrow> p_state (threads s' t) = THD_STATE_READY \<and> p_u (threads s' t) = UMsg Q_OK)"
  using assms by (rule iq_putI)

theorem input_queue_put_witness:
  "kinv demo \<and> iq_ok (gqs demo 0) \<and> tq demo (QGen 0) = [12] \<and>
   (\<exists>s'. chIQPutI 0 66 demo = Done Q_OK s' \<and> iq_content (gqs s' 0) = [65, 66] \<and> tq s' (QGen 0) = [])"
proof -
  have o: "iq_ok (gqs demo 0)" "\<not> chIQIsFullI (gqs demo 0)" "iq_content (gqs demo 0) = [65]" "tq demo (QGen 0) = [12]"
    by (simp_all add: iq_ok_def gq_ok_def demo_defs chIQIsFullI_def iq_content_def ring_def)
  from input_queue_put[OF demo_kinv o(1), of 66] o have
    "\<exists>s'. chIQPutI 0 66 demo = Done Q_OK s' \<and> iq_content (gqs s' 0) = [65, 66] \<and> tq s' (QGen 0) = []"
    by auto
  with o show ?thesis by (fast intro: demo_kinv)
qed



text \<open>
  A memory pool hands out no object twice: any number of objects taken one after the other are
  distinct, were free, and are free no more; as long as there are free objects taking one succeeds.
\<close>

theorem pool_objects_distinct:
  assumes "pool_good mp s" "n \<le> length (mp_next (pools s mp))"
  shows "\<exists>xs s'. pool.take_n mp n s = Some (xs, s') \<and> distinct xs \<and> set xs \<subseteq> pool_avail mp s \<and>
    pool_avail mp s' = pool_avail mp s - set xs \<and> pool_good mp s'"
proof -
  have "n \<le> card (pool_avail mp s)" "finite (pool_avail mp s)"
    using assms by (simp_all add: pool_avail_def pool_good_def distinct_card)
  then obtain xs s' where x: "pool.take_n mp n s = Some (xs, s')"
    using pool.take_n_total[OF assms(1)] by fastforce
  from pool.take_n_distinct[OF assms(1) x] x show ?thesis by blast
qed

theorem pool_objects_distinct_witness:
  "pool_good 0 demo \<and> (\<exists>xs s'. pool.take_n 0 2 demo = Some (xs, s') \<and> distinct xs)"
proof -
  have o: "pool_good 0 demo" "2 \<le> length (mp_next (pools demo 0))" by (simp_all add: pool_good_def demo_on_def)
  from pool_objects_distinct[OF o] o show ?thesis by blast
qed

end
