(* ===== verification/Memory_Properties.thy ===== *)
theory Memory_Properties
  imports Demo
begin

text \<open>
  The properties of the memory allocators and of the life of a thread, with witnesses at the state of
  \<open>Demo\<close>.
\<close>

section \<open>Memory\<close>

text \<open>
  C16: the core allocator hands out consecutive, aligned, disjoint pieces between its two bounds: a
  piece of at least the size asked for, or null with nothing changed when what is left is too small. The
  size must not be within seven of the range of size_t, where the rounding wraps.
\<close>

theorem core_alloc_within_bounds:
  assumes "core_ok s" "unat sz + 7 < 2 ^ 32" "chCoreAllocI sz s = (p, s')"
  shows "core_ok s' \<and>
    (if unat (endmem s) - unat (nextmem s) < unat (MEM_ALIGN_NEXT sz) then p = 0 \<and> s' = s
     else p = nextmem s \<and> MEM_IS_ALIGNED p \<and> unat p + unat sz \<le> unat (nextmem s') \<and>
       unat (nextmem s') = unat p + unat (MEM_ALIGN_NEXT sz) \<and> unat (nextmem s') \<le> unat (endmem s) \<and>
       endmem s' = endmem s)"
  using core_alloc[OF assms] by blast

theorem core_alloc_within_bounds_witness:
  "core_ok demo \<and> (\<exists>p s'. chCoreAllocI 100 demo = (p, s') \<and> core_ok s' \<and> p = 65536)"
proof -
  have o: "core_ok demo" by (simp add: core_ok_def demo_on_def MEM_IS_ALIGNED_def MEM_ALIGN_MASK_def MEM_ALIGN_SIZE_def)
  obtain p s' where e: "chCoreAllocI 100 demo = (p, s')" by fastforce
  have p: "p = 65536"
    using e by (simp add: chCoreAllocI_def demo_on_def MEM_ALIGN_NEXT_def MEM_ALIGN_PREV_def MEM_ALIGN_MASK_def
        MEM_ALIGN_SIZE_def Let_def split: if_splits)
  have "core_ok s'" using core_alloc_within_bounds[OF o _ e] by simp
  with o e p show ?thesis by blast
qed






section \<open>Threads\<close>

text \<open>
  A thread that ends never runs again: it stores its exit code, makes every thread that waited for it
  ready, leaves the registry when its memory is static, and hands the processor to a thread of the
  highest ready priority.
\<close>

theorem thread_exit:
  assumes "sched_inv s" "currp s \<noteq> idle_tid" "waiters_ok (currp s) s"
  shows "\<exists>s'. chThdExit m s = chSysSwitch s' \<and> sched_inv s' \<and> top_running s' \<and>
     p_state (threads s' (currp s)) = THD_STATE_FINAL \<and> p_u (threads s' (currp s)) = UMsg m \<and>
     (\<forall>w\<in>set (p_waiting (cur s)). p_state (threads s' w) \<in> {THD_STATE_READY, THD_STATE_CURRENT}) \<and>
     (p_flags (cur s) AND THD_MEM_MODE_MASK = THD_MEM_MODE_STATIC \<longrightarrow>
        registry s' = remove1 (currp s) (registry s))"
  using assms by (rule exit_s)

theorem thread_exit_witness:
  "sched_inv demo \<and> waiters_ok (currp demo) demo \<and>
   (\<exists>s'. chThdExit 5 demo = chSysSwitch s' \<and> p_u (threads s' 0) = UMsg 5 \<and> registry s' = [1..<14])"
proof -
  have w: "waiters_ok (currp demo) demo" by (simp add: waiters_ok_def demo_defs)
  have f: "p_flags (cur demo) AND THD_MEM_MODE_MASK = THD_MEM_MODE_STATIC"
    by (simp add: demo_defs THD_MEM_MODE_STATIC_def)
  have r: "remove1 0 [0..<14] = [1..<14]" by (simp add: upt_rec)
  from thread_exit[OF demo_sched demo_cur(2) w, of 5] f r obtain s' where
    "chThdExit 5 demo = chSysSwitch s'" "p_u (threads s' 0) = UMsg 5" "registry s' = [1..<14]" by auto
  then show ?thesis using w demo_sched[of "()"] by blast
qed

text \<open>
  Waiting for a live thread puts the caller on that thread's list, in the state the exit of the
  thread looks for, with the scheduler invariant kept; when resumed it drops the reference and returns
  the exit code.
\<close>

theorem thread_wait_registers:
  assumes "sched_inv s" "currp s \<noteq> idle_tid" "p_state (threads s tp) \<noteq> THD_STATE_FINAL" "tp \<noteq> currp s"
    "waiters_ok tp s"
  shows "\<exists>s1. chThdWait tp s = obind (chSysSwitch s1) (\<lambda>_ s2.
      Window s2 (\<lambda>s3. obind (chThdRelease tp s3) (\<lambda>_ s4. Done (rdymsg (p_u (threads s2 tp))) s4))) \<and>
    sched_inv s1 \<and> top_running s1 \<and> waiters_ok tp s1 \<and>
    p_waiting (threads s1 tp) = currp s # p_waiting (threads s tp) \<and> p_state (threads s1 (currp s)) = THD_STATE_WTEXIT"
  using assms by (rule thd_wait_live)

theorem thread_wait_registers_witness:
  "waiters_ok 3 demo \<and> (\<exists>s1 k. chThdWait 3 demo = Switch s1 k \<and> p_waiting (threads s1 3) = [0])"
proof -
  have w: "waiters_ok 3 demo" "p_state (threads demo 3) \<noteq> THD_STATE_FINAL" "3 \<noteq> currp demo"
    "p_waiting (threads demo 3) = []"
    by (simp_all add: waiters_ok_def demo_defs)
  from thread_wait_registers[OF demo_sched demo_cur(2) w(2,3,1)] obtain s1 where
    s1: "chThdWait 3 demo = obind (chSysSwitch s1) (\<lambda>_ s2.
      Window s2 (\<lambda>s3. obind (chThdRelease 3 s3) (\<lambda>_ s4. Done (rdymsg (p_u (threads s2 3))) s4)))"
    "p_waiting (threads s1 3) = currp demo # p_waiting (threads demo 3)" by blast
  have "\<exists>k. chThdWait 3 demo = Switch s1 k" unfolding s1(1) by simp
  with s1(2) w show ?thesis by auto
qed

end
