(* ===== verification/Hal.thy ===== *)
theory Hal
  imports Dynamic IOQueues MBoxes
begin

text \<open>
  The state of the hardware abstraction layer (\<^verbatim>\<open>os/hal\<close>): one driver record for each peripheral the
  robot uses, with the registers its low level driver programs, and the digital I/O driver
  (\<^verbatim>\<open>include/pal.h\<close>, \<^verbatim>\<open>platforms/STM32/GPIOv2\<close>). A register that hardware changes is an input of the
  interrupt routine that reads it; the clock and interrupt controllers are not modelled.
\<close>

section \<open>Drivers\<close>

record gpio =
  MODER :: "32 word"
  OTYPER :: "32 word"
  OSPEEDR :: "32 word"
  PUPDR :: "32 word"
  IDR :: "32 word"
  ODR :: "32 word"
  AFRL :: "32 word"
  AFRH :: "32 word"

record usart =
  u_CR1 :: "16 word"
  u_CR2 :: "16 word"
  u_CR3 :: "16 word"
  u_BRR :: "16 word"
  u_SR :: "16 word"
  u_DR :: "16 word"

datatype sdstate = SD_UNINIT | SD_STOP | SD_READY

record serialdrv =
  sd_state :: sdstate
  sd_event :: nat
  sd_iqueue :: nat
  sd_oqueue :: nat
  sd_usart :: usart

datatype pwmstate = PWM_UNINIT | PWM_STOP | PWM_READY

record pwmchannelcfg =
  ch_mode :: "32 word"
  ch_callback :: bool

record pwmconfig =
  pc_frequency :: "32 word"
  pc_period :: "32 word"
  pc_callback :: bool
  pc_channels :: "pwmchannelcfg list"
  pc_cr2 :: "32 word"

record tim =
  t_CR1 :: "32 word"
  t_CR2 :: "32 word"
  t_DIER :: "32 word"
  t_SR :: "32 word"
  t_EGR :: "32 word"
  t_CCMR1 :: "32 word"
  t_CCMR2 :: "32 word"
  t_CCER :: "32 word"
  t_PSC :: "32 word"
  t_ARR :: "32 word"
  t_CNT :: "32 word"
  t_CCR :: "32 word list"

record pwmdrv =
  pw_state :: pwmstate
  pw_config :: "pwmconfig option"
  pw_period :: "32 word"
  pw_clock :: "32 word"
  pw_tim :: tim

text \<open>A DMA stream: allocated or not, running or not, its mode, count and memory.\<close>

record dma =
  dma_used :: bool
  dma_enabled :: bool
  dma_mode :: "32 word"
  dma_size :: "32 word"
  dma_mem :: "nat option"

datatype adcstate = ADC_UNINIT | ADC_STOP | ADC_READY | ADC_ACTIVE | ADC_COMPLETE | ADC_ERROR

datatype adcfn = Fn_adccallback | Fn_adcerrorcallback

record adcgroup =
  ag_circular :: bool
  ag_num_channels :: nat
  ag_end_cb :: "adcfn option"
  ag_error_cb :: "adcfn option"
  ag_cr1 :: "32 word"
  ag_cr2 :: "32 word"
  ag_smpr1 :: "32 word"
  ag_smpr2 :: "32 word"
  ag_sqr1 :: "32 word"
  ag_sqr2 :: "32 word"
  ag_sqr3 :: "32 word"

record adcdrv =
  ad_state :: adcstate
  ad_samples :: "nat option"
  ad_depth :: nat
  ad_grpp :: "adcgroup option"
  ad_thread :: "tid option"
  ad_mutex :: nat
  ad_dma :: dma
  ad_dmamode :: "32 word"
  a_SR :: "32 word"
  a_CR1 :: "32 word"
  a_CR2 :: "32 word"
  a_SMPR1 :: "32 word"
  a_SMPR2 :: "32 word"
  a_SQR1 :: "32 word"
  a_SQR2 :: "32 word"
  a_SQR3 :: "32 word"

datatype i2cstate = I2C_UNINIT | I2C_STOP | I2C_READY | I2C_ACTIVE_TX | I2C_ACTIVE_RX | I2C_LOCKED

datatype i2copmode = OPMODE_I2C | OPMODE_SMBUS_DEVICE | OPMODE_SMBUS_HOST

datatype i2cdutycycle = STD_DUTY_CYCLE | FAST_DUTY_CYCLE_2 | FAST_DUTY_CYCLE_16_9

record i2cconfig =
  op_mode :: i2copmode
  clock_speed :: "32 word"
  duty_cycle :: i2cdutycycle

record i2cdrv =
  ic_state :: i2cstate
  ic_config :: "i2cconfig option"
  ic_errors :: "32 word"
  ic_mutex :: nat
  ic_thread :: "tid option"
  ic_addr :: "16 word"
  ic_dmamode :: "32 word"
  ic_dmarx :: dma
  ic_dmatx :: dma
  i_CR1 :: "16 word"
  i_CR2 :: "16 word"
  i_SR1 :: "16 word"
  i_SR2 :: "16 word"
  i_DR :: "16 word"
  i_CCR :: "16 word"
  i_TRISE :: "16 word"

datatype spistate = SPI_UNINIT | SPI_STOP | SPI_READY | SPI_ACTIVE | SPI_COMPLETE

text \<open>The callback of a configuration is given by its number.\<close>

record spiconfig =
  sp_end_cb :: "nat option"
  sp_ssport :: nat
  sp_sspad :: nat
  sp_cr1 :: "16 word"

record spidrv =
  sp_state :: spistate
  sp_config :: "spiconfig option"
  sp_thread :: "tid option"
  sp_mutex :: nat
  sp_dmarx :: dma
  sp_dmatx :: dma
  sp_rxdmamode :: "32 word"
  sp_txdmamode :: "32 word"
  s_CR1 :: "16 word"
  s_CR2 :: "16 word"

text \<open>\<open>bufs\<close> and \<open>adbufs\<close> are the buffers that drivers and DMA streams point into.\<close>

record hal = kernel +
  gpios :: "nat \<Rightarrow> gpio"
  sds :: "nat \<Rightarrow> serialdrv"
  pwms :: "nat \<Rightarrow> pwmdrv"
  adcs :: "nat \<Rightarrow> adcdrv"
  i2cs :: "nat \<Rightarrow> i2cdrv"
  spis :: "nat \<Rightarrow> spidrv"
  bufs :: "nat \<Rightarrow> byte list"
  adbufs :: "nat \<Rightarrow> 16 word list"

type_synonym ('x, 'r) hout = "('x hal_scheme, 'r) outcome"

text \<open>A kernel routine that keeps the extension of the kernel record keeps every driver.\<close>

lemma hal_more:
  fixes s s' :: "'x hal_scheme"
  assumes "kernel.more s' = kernel.more s"
  shows "gpios s' = gpios s" "sds s' = sds s" "pwms s' = pwms s" "adcs s' = adcs s" "i2cs s' = i2cs s"
    "spis s' = spis s" "bufs s' = bufs s" "adbufs s' = adbufs s" "hal.more s' = hal.more s"
  using assms by (cases s; cases s'; simp)+

section \<open>Digital I/O\<close>

definition GPIOA :: nat where "GPIOA = 0"
definition GPIOB :: nat where "GPIOB = 1"
definition GPIOC :: nat where "GPIOC = 2"
definition GPIOD :: nat where "GPIOD = 3"
definition GPIOE :: nat where "GPIOE = 4"
definition GPIOD_LED4 :: nat where "GPIOD_LED4 = 12"
definition GPIOD_LED3 :: nat where "GPIOD_LED3 = 13"
definition GPIOD_LED5 :: nat where "GPIOD_LED5 = 14"
definition GPIOD_LED6 :: nat where "GPIOD_LED6 = 15"
definition GPIOE_CS_SPI :: nat where "GPIOE_CS_SPI = 3"

definition set_gpio :: "nat \<Rightarrow> gpio \<Rightarrow> 'x hal_scheme \<Rightarrow> 'x hal_scheme" where
  "set_gpio p g s = s\<lparr>gpios := (gpios s)(p := g)\<rparr>"

definition PAL_PORT_BIT :: "nat \<Rightarrow> 32 word" where
  "PAL_PORT_BIT n = push_bit n 1"

definition pal_lld_writeport :: "32 word \<Rightarrow> gpio \<Rightarrow> gpio" where
  "pal_lld_writeport bits g = g\<lparr>ODR := bits\<rparr>"

text \<open>A write to a half of \<open>BSRR\<close> sets or clears the named bits of the output latch.\<close>

definition pal_lld_setport :: "32 word \<Rightarrow> gpio \<Rightarrow> gpio" where
  "pal_lld_setport bits g = g\<lparr>ODR := ODR g OR take_bit 16 bits\<rparr>"

definition pal_lld_clearport :: "32 word \<Rightarrow> gpio \<Rightarrow> gpio" where
  "pal_lld_clearport bits g = g\<lparr>ODR := ODR g AND NOT (take_bit 16 bits)\<rparr>"

definition palSetPad :: "nat \<Rightarrow> nat \<Rightarrow> 'x hal_scheme \<Rightarrow> 'x hal_scheme" where
  "palSetPad port pad s = set_gpio port (pal_lld_setport (PAL_PORT_BIT pad) (gpios s port)) s"

definition palClearPad :: "nat \<Rightarrow> nat \<Rightarrow> 'x hal_scheme \<Rightarrow> 'x hal_scheme" where
  "palClearPad port pad s = set_gpio port (pal_lld_clearport (PAL_PORT_BIT pad) (gpios s port)) s"

definition palTogglePort :: "32 word \<Rightarrow> gpio \<Rightarrow> gpio" where
  "palTogglePort bits g = pal_lld_writeport (ODR g XOR bits) g"

definition palTogglePad :: "nat \<Rightarrow> nat \<Rightarrow> 'x hal_scheme \<Rightarrow> 'x hal_scheme" where
  "palTogglePad port pad s = set_gpio port (palTogglePort (PAL_PORT_BIT pad) (gpios s port)) s"

text \<open>
  The loop of \<open>_pal_lld_setgroupmode\<close> over the bits of the mask, least significant first: it ends when
  the rest of the mask is zero.
\<close>

definition pad_mode :: "nat \<Rightarrow> 32 word \<Rightarrow> 32 word \<Rightarrow> 32 word \<Rightarrow> 32 word \<Rightarrow> 32 word \<Rightarrow> gpio \<Rightarrow> gpio" where
  "pad_mode b moder otyper ospeedr pupdr altr g =
     (let altrmask = push_bit (b mod 8 * 4) altr;
          m4 = push_bit (b mod 8 * 4) 15;
          g1 = (if b < 8 then g\<lparr>AFRL := AFRL g AND NOT m4 OR altrmask\<rparr>
                else g\<lparr>AFRH := AFRH g AND NOT m4 OR altrmask\<rparr>);
          m1 = push_bit b 1;
          m2 = push_bit (b * 2) 3
      in g1\<lparr>OTYPER := OTYPER g1 AND NOT m1 OR otyper,
            OSPEEDR := OSPEEDR g1 AND NOT m2 OR ospeedr,
            PUPDR := PUPDR g1 AND NOT m2 OR pupdr,
            MODER := MODER g1 AND NOT m2 OR moder\<rparr>)"

lemma drop_bit_less: "drop_bit 1 w \<noteq> 0 \<Longrightarrow> unat (drop_bit 1 w) < unat w" for w :: "32 word"
proof -
  assume a: "drop_bit 1 w \<noteq> 0"
  have e: "unat (drop_bit 1 w) = unat w div 2" unfolding unat_drop_bit_eq by (simp only: drop_bit_eq_div power_one_right)
  have "unat (drop_bit 1 w) \<noteq> 0" using a by (simp only: unat_eq_0) simp
  then show ?thesis unfolding e by simp
qed

function pad_mode_loop :: "nat \<Rightarrow> 32 word \<Rightarrow> 32 word \<Rightarrow> 32 word \<Rightarrow> 32 word \<Rightarrow> 32 word \<Rightarrow> 32 word \<Rightarrow> gpio \<Rightarrow> gpio" where
  "pad_mode_loop b emask moder otyper ospeedr pupdr altr g =
     (let g1 = (if emask AND 1 \<noteq> 0 then pad_mode b moder otyper ospeedr pupdr altr g else g);
          emask1 = drop_bit 1 emask
      in if emask1 = 0 then g1
         else pad_mode_loop (b + 1) emask1 (push_bit 2 moder) (push_bit 1 otyper) (push_bit 2 ospeedr)
                (push_bit 2 pupdr) altr g1)"
  by pat_completeness auto

termination
  by (relation "measure (\<lambda>(b, emask, moder, otyper, ospeedr, pupdr, altr, g). unat emask)")
    (use drop_bit_less in auto)

declare pad_mode_loop.simps [simp del]

definition pal_lld_setgroupmode :: "32 word \<Rightarrow> 32 word \<Rightarrow> gpio \<Rightarrow> gpio" where
  "pal_lld_setgroupmode emask mode g =
     pad_mode_loop 0 emask (mode AND 3) (drop_bit 2 (mode AND 4)) (drop_bit 3 (mode AND 24))
       (drop_bit 5 (mode AND 96)) (drop_bit 7 (mode AND 1920)) g"

definition palSetPadMode :: "nat \<Rightarrow> nat \<Rightarrow> 32 word \<Rightarrow> 'x hal_scheme \<Rightarrow> 'x hal_scheme" where
  "palSetPadMode port pad mode s =
     set_gpio port (pal_lld_setgroupmode (PAL_PORT_BIT pad) mode (gpios s port)) s"

definition PAL_MODE_ALTERNATE :: "32 word \<Rightarrow> 32 word" where
  "PAL_MODE_ALTERNATE n = 2 OR push_bit 7 n"

definition PAL_MODE_INPUT_ANALOG :: "32 word" where "PAL_MODE_INPUT_ANALOG = 3"
definition PAL_MODE_OUTPUT_PUSHPULL :: "32 word" where "PAL_MODE_OUTPUT_PUSHPULL = 1"

section \<open>Pads\<close>

text \<open>The field of \<open>n\<close> bits that a configuration register keeps for pad \<open>j\<close>.\<close>

definition pad_field :: "nat \<Rightarrow> 32 word \<Rightarrow> nat \<Rightarrow> 32 word" where
  "pad_field n w j = take_bit n (drop_bit (n * j) w)"

lemma block_other:
  fixes n j k i :: nat
  assumes "j \<noteq> k" "i < n" "n * k \<le> n * j + i"
  shows "n \<le> n * j + i - n * k"
proof -
  have "k < j"
  proof (rule ccontr)
    assume "\<not> k < j"
    then have "Suc j \<le> k" using assms(1) by simp
    then have "n * Suc j \<le> n * k" by (rule mult_le_mono2)
    then show False using assms(2,3) by simp
  qed
  then have "n * Suc k \<le> n * j" by (intro mult_le_mono2) simp
  then show ?thesis by simp
qed

lemma bit_pad_update:
  "i < 32 \<Longrightarrow> bit (w AND NOT (push_bit m (mask n)) OR push_bit m (take_bit n v)) i =
    (if m \<le> i \<and> i - m < n then bit v (i - m) else bit w i)" for w v :: "32 word"
  by (simp add: bit_simps) auto

lemma bit_pad_field: "bit (pad_field n w j) i \<longleftrightarrow> i < n \<and> bit w (n * j + i)"
  by (simp add: pad_field_def bit_simps)

lemma pad_field_update:
  assumes "n * k + n \<le> 32"
  shows "pad_field n (w AND NOT (push_bit (n * k) (mask n)) OR push_bit (n * k) (take_bit n v)) j =
    (if j = k then take_bit n v else pad_field n w j)" (is "?l = ?r")
proof (intro bit_eqI)
  fix i assume "possible_bit TYPE(32 word) i" 
  show "bit ?l i = bit ?r i"
  proof (cases "i < n \<and> n * j + i < 32")
    case True
    show ?thesis
    proof (cases "j = k")
      case True': True
      show ?thesis using True unfolding bit_pad_field by (subst bit_pad_update) (simp_all add: True' bit_take_bit_iff)
    next
      case False
      have "n * k \<le> n * j + i \<Longrightarrow> \<not> n * j + i - n * k < n" using block_other[OF False] True by (simp add: not_less)
      then show ?thesis using True False unfolding bit_pad_field by (subst bit_pad_update) (auto simp: bit_pad_field)
    qed
  next
    case False
    then have "\<not> bit w (n * j + i) \<or> \<not> i < n" for w :: "32 word" using bit_imp_le_length[of w "n * j + i"] by auto
    moreover have "j = k \<Longrightarrow> \<not> i < n" using False assms by auto
    ultimately show ?thesis by (auto simp: bit_pad_field bit_take_bit_iff)
  qed
qed
text \<open>With one bit in the mask, the loop runs up to that bit and sets the fields there.\<close>

lemma pad_mode_loop_one:
  "b + k < 32 \<Longrightarrow> pad_mode_loop b (push_bit k 1) moder otyper ospeedr pupdr altr g =
    pad_mode (b + k) (push_bit (2 * k) moder) (push_bit k otyper) (push_bit (2 * k) ospeedr)
      (push_bit (2 * k) pupdr) altr g"
proof (induction k arbitrary: b moder otyper ospeedr pupdr)
  case 0
  show ?case by (subst pad_mode_loop.simps) (simp add: Let_def)
next
  case (Suc k)
  have "push_bit (Suc k) (1 :: 32 word) AND 1 = 0"
    by (intro bit_eqI) (auto simp: bit_simps)
  moreover have d: "drop_bit 1 (push_bit (Suc k) (1 :: 32 word)) = push_bit k 1"
    using Suc.prems by (intro bit_eqI) (auto simp: bit_simps)
  moreover have "push_bit k (1 :: 32 word) \<noteq> 0"
    using Suc.prems by (simp add: push_bit_of_1)
  ultimately have "pad_mode_loop b (push_bit (Suc k) 1) moder otyper ospeedr pupdr altr g =
      pad_mode_loop (b + 1) (push_bit k 1) (push_bit 2 moder) (push_bit 1 otyper) (push_bit 2 ospeedr)
        (push_bit 2 pupdr) altr g"
    by (subst pad_mode_loop.simps) (simp only: Let_def if_False d simp_thms)
  then show ?case
    using Suc.IH[of "b + 1"] Suc.prems by (simp add: push_bit_push_bit algebra_simps)
qed

lemma mode_masks:
  "(1 :: 32 word) = mask 1" "(3 :: 32 word) = mask 2" "(15 :: 32 word) = mask 4"
  by (simp_all add: mask_eq_exp_minus_1)

lemma mode_parts:
  fixes m :: "32 word"
  shows "m AND 3 = take_bit 2 m" "drop_bit 2 (m AND 4) = take_bit 1 (drop_bit 2 m)"
    "drop_bit 3 (m AND 24) = take_bit 2 (drop_bit 3 m)" "drop_bit 5 (m AND 96) = take_bit 2 (drop_bit 5 m)"
    "drop_bit 7 (m AND 1920) = take_bit 4 (drop_bit 7 m)"
proof -
  have c: "(4 :: 32 word) = push_bit 2 (mask 1)" "(24 :: 32 word) = push_bit 3 (mask 2)"
    "(96 :: 32 word) = push_bit 5 (mask 2)" "(1920 :: 32 word) = push_bit 7 (mask 4)"
    by (simp_all add: mask_eq_exp_minus_1 push_bit_eq_mult)
  have d: "drop_bit k (m AND push_bit k (mask n)) = take_bit n (drop_bit k m)" for k n
    by (intro bit_eqI) (auto simp: bit_simps dest: bit_imp_le_length)
  show "m AND 3 = take_bit 2 m" by (simp add: mode_masks(2) take_bit_eq_mask)
  show "drop_bit 2 (m AND 4) = take_bit 1 (drop_bit 2 m)" "drop_bit 3 (m AND 24) = take_bit 2 (drop_bit 3 m)"
    "drop_bit 5 (m AND 96) = take_bit 2 (drop_bit 5 m)" "drop_bit 7 (m AND 1920) = take_bit 4 (drop_bit 7 m)"
    unfolding c by (rule d)+
qed

text \<open>Setting the mode of one pad writes its fields in every configuration register, and no other pad's.\<close>

lemma set_pad_mode:
  assumes "pad < 16" and g': "g' = pal_lld_setgroupmode (PAL_PORT_BIT pad) mode g"
  shows "pad_field 2 (MODER g') j = (if j = pad then take_bit 2 mode else pad_field 2 (MODER g) j)"
    "pad_field 1 (OTYPER g') j = (if j = pad then take_bit 1 (drop_bit 2 mode) else pad_field 1 (OTYPER g) j)"
    "pad_field 2 (OSPEEDR g') j = (if j = pad then take_bit 2 (drop_bit 3 mode) else pad_field 2 (OSPEEDR g) j)"
    "pad_field 2 (PUPDR g') j = (if j = pad then take_bit 2 (drop_bit 5 mode) else pad_field 2 (PUPDR g) j)"
    "pad_field 4 (AFRL g') j = (if j = pad \<and> pad < 8 then take_bit 4 (drop_bit 7 mode) else pad_field 4 (AFRL g) j)"
    "pad_field 4 (AFRH g') j = (if j + 8 = pad then take_bit 4 (drop_bit 7 mode) else pad_field 4 (AFRH g) j)"
    "ODR g' = ODR g"
proof -
  have e: "g' = pad_mode pad (push_bit (2 * pad) (take_bit 2 mode)) (push_bit (1 * pad) (take_bit 1 (drop_bit 2 mode)))
      (push_bit (2 * pad) (take_bit 2 (drop_bit 3 mode))) (push_bit (2 * pad) (take_bit 2 (drop_bit 5 mode)))
      (take_bit 4 (drop_bit 7 mode)) g"
    using assms(1) pad_mode_loop_one[of 0 pad] unfolding g' pal_lld_setgroupmode_def PAL_PORT_BIT_def mode_parts
    by simp
  have m: "push_bit pad (1 :: 32 word) = push_bit (1 * pad) (mask 1)"
    "push_bit (pad * 2) (3 :: 32 word) = push_bit (2 * pad) (mask 2)"
    "push_bit (pad mod 8 * 4) (15 :: 32 word) = push_bit (4 * (pad mod 8)) (mask 4)"
    by (simp_all flip: mode_masks add: mult.commute)
  have k: "2 * pad + 2 \<le> 32" "1 * pad + 1 \<le> 32" "4 * (pad mod 8) + 4 \<le> 32" using assms(1) by auto
  note u = pad_field_update[OF k(1)] pad_field_update[OF k(2)]
  show "pad_field 2 (MODER g') j = (if j = pad then take_bit 2 mode else pad_field 2 (MODER g) j)"
    "pad_field 2 (OSPEEDR g') j = (if j = pad then take_bit 2 (drop_bit 3 mode) else pad_field 2 (OSPEEDR g) j)"
    "pad_field 2 (PUPDR g') j = (if j = pad then take_bit 2 (drop_bit 5 mode) else pad_field 2 (PUPDR g) j)"
    unfolding e pad_mode_def Let_def m by (simp_all add: pad_field_update[OF k(1)])
  have ot: "OTYPER g' = OTYPER g AND NOT (push_bit (1 * pad) (mask 1)) OR push_bit (1 * pad) (take_bit 1 (drop_bit 2 mode))"
    unfolding e pad_mode_def Let_def m by simp
  show "pad_field 1 (OTYPER g') j = (if j = pad then take_bit 1 (drop_bit 2 mode) else pad_field 1 (OTYPER g) j)"
    unfolding ot by (rule pad_field_update[OF k(2)])
  have l: "pad_field 4 (AFRL g AND NOT (push_bit (4 * (pad mod 8)) (mask 4)) OR
      push_bit (4 * (pad mod 8)) (take_bit 4 (drop_bit 7 mode))) j =
      (if j = pad mod 8 then take_bit 4 (drop_bit 7 mode) else pad_field 4 (AFRL g) j)"
    by (rule pad_field_update[OF k(3)])
  have h: "pad_field 4 (AFRH g AND NOT (push_bit (4 * (pad mod 8)) (mask 4)) OR
      push_bit (4 * (pad mod 8)) (take_bit 4 (drop_bit 7 mode))) j =
      (if j = pad mod 8 then take_bit 4 (drop_bit 7 mode) else pad_field 4 (AFRH g) j)"
    by (rule pad_field_update[OF k(3)])
  have p: "pad mod 8 = (if pad < 8 then pad else pad - 8)" using assms(1) by (auto simp: mod_if)
  have al: "AFRL g' = (if pad < 8 then AFRL g AND NOT (push_bit (4 * (pad mod 8)) (mask 4)) OR
      push_bit (4 * (pad mod 8)) (take_bit 4 (drop_bit 7 mode)) else AFRL g)"
    and ah: "AFRH g' = (if pad < 8 then AFRH g else AFRH g AND NOT (push_bit (4 * (pad mod 8)) (mask 4)) OR
      push_bit (4 * (pad mod 8)) (take_bit 4 (drop_bit 7 mode)))"
    unfolding e pad_mode_def Let_def m by (simp_all add: mult.commute)
  show "pad_field 4 (AFRL g') j = (if j = pad \<and> pad < 8 then take_bit 4 (drop_bit 7 mode) else pad_field 4 (AFRL g) j)"
  proof (cases "pad < 8")
    case True
    then show ?thesis unfolding al using l p by simp
  qed (simp add: al)
  have q: "\<not> pad < 8 \<Longrightarrow> (j = pad - 8) = (j + 8 = pad)" "pad < 8 \<Longrightarrow> j + 8 \<noteq> pad" by auto
  show "pad_field 4 (AFRH g') j = (if j + 8 = pad then take_bit 4 (drop_bit 7 mode) else pad_field 4 (AFRH g) j)"
  proof (cases "pad < 8")
    case True
    then show ?thesis unfolding ah using q(2) by simp
  next
    case False
    then show ?thesis unfolding ah using h p q(1)[OF False] by simp
  qed
  show "ODR g' = ODR g" unfolding e pad_mode_def Let_def by simp
qed

text \<open>Pads as outputs: the three pad operations on one bit of the latch.\<close>

lemma pad_ops:
  assumes "pad < 16" "i < 32"
  shows "bit (ODR (gpios (palSetPad port pad s) port)) i = (i = pad \<or> bit (ODR (gpios s port)) i)"
    "bit (ODR (gpios (palClearPad port pad s) port)) i = (i \<noteq> pad \<and> bit (ODR (gpios s port)) i)"
    "bit (ODR (gpios (palTogglePad port pad s) port)) i = ((i = pad) \<noteq> bit (ODR (gpios s port)) i)"
  using assms by (auto simp: palSetPad_def palClearPad_def palTogglePad_def palTogglePort_def pal_lld_setport_def
      pal_lld_clearport_def pal_lld_writeport_def set_gpio_def PAL_PORT_BIT_def bit_simps)

end
