(* ===== verification/Robot.thy ===== *)
theory Robot
  imports Hal
begin

text \<open>
  The state of the robot's own services (\<^verbatim>\<open>serv_*.c\<close>): their static variables, on top of the kernel and
  the drivers. Static kernel objects are numbered here. A C string lives in a buffer (\<open>bufs\<close>), named
  by its address; \<open>lits\<close> is where the linker placed the string literals.
\<close>

record robot = hal +
  lp1 :: nat
  lp2 :: nat
  rp1 :: nat
  rp2 :: nat
  motor_speed :: int
  motor_pwm :: nat
  sonar_en :: bool
  Tdistance :: int
  mag_status :: msg
  mag_driver :: nat
  mems_driver :: nat
  X_m :: int
  Y_m :: int
  Z_m :: int
  X_a :: int
  Y_a :: int
  Z_a :: int
  wifly_driver :: nat
  wifly_tp :: tid
  lits :: "string \<Rightarrow> nat"

type_synonym ('x, 'r) rout = "('x robot_scheme, 'r) outcome"

section \<open>What the kernel leaves alone\<close>

text \<open>A kernel routine that keeps the extension of the kernel record keeps every driver and variable.\<close>

lemma robot_more:
  fixes s s' :: "'x robot_scheme"
  assumes "kernel.more s' = kernel.more s"
  shows "lp1 s' = lp1 s" "lp2 s' = lp2 s" "rp1 s' = rp1 s" "rp2 s' = rp2 s" "motor_speed s' = motor_speed s"
    "motor_pwm s' = motor_pwm s" "sonar_en s' = sonar_en s" "Tdistance s' = Tdistance s"
    "wifly_driver s' = wifly_driver s" "wifly_tp s' = wifly_tp s" "lits s' = lits s"
  using assms by (cases s; cases s'; simp)+

lemmas more_same = hal_more robot_more

lemma more_upd [simp]:
  "kernel.more (set_cnt sp n s) = kernel.more s" "kernel.more (ready_put t s) = kernel.more s"
  "kernel.more (s\<lparr>vts := v\<rparr>) = kernel.more s" "kernel.more (s\<lparr>vtl := l\<rparr>) = kernel.more s"
  by (simp_all add: set_cnt_def ready_put_def)

lemma more_signalled [simp]:
  "kernel.more (sem_signalled sp s) = kernel.more s" "vts (sem_signalled sp s) = vts s"
  "vtl (sem_signalled sp s) = vtl s"
  by (simp_all add: sem_signalled_def Let_def set_cnt_def readied_def ready_put_def split: list.splits)

end
