(* ===== verification/Pwm.thy ===== *)
theory Pwm
  imports Hal
begin

text \<open>
  The PWM driver: \<^verbatim>\<open>os/hal/src/pwm.c\<close>, the width macros of \<^verbatim>\<open>include/pwm.h\<close> and the low level driver
  \<^verbatim>\<open>platforms/STM32/pwm_lld.c\<close> as \<^verbatim>\<open>mcuconf.h\<close> configures it (timer 3 only, clocked at 84 MHz). A
  null configuration, a division by a zero frequency and an index beyond the four channels are faults.
\<close>

section \<open>Low level driver\<close>

definition STM32_TIMCLK1 :: "32 word" where "STM32_TIMCLK1 = 84000000"
definition PWMD3 :: nat where "PWMD3 = 3"
definition PWM_CHANNELS :: nat where "PWM_CHANNELS = 4"
definition PWM_OUTPUT_MASK :: "32 word" where "PWM_OUTPUT_MASK = 15"
definition PWM_OUTPUT_ACTIVE_HIGH :: "32 word" where "PWM_OUTPUT_ACTIVE_HIGH = 1"
definition PWM_OUTPUT_ACTIVE_LOW :: "32 word" where "PWM_OUTPUT_ACTIVE_LOW = 2"

text \<open>The bits of one channel in \<open>CCER\<close>; the active-low case falls through to the active-high one.\<close>

definition ccer_bits :: "nat \<Rightarrow> 32 word \<Rightarrow> 32 word" where
  "ccer_bits ch m =
     (if m AND PWM_OUTPUT_MASK = PWM_OUTPUT_ACTIVE_LOW then push_bit (4 * ch) 3
      else if m AND PWM_OUTPUT_MASK = PWM_OUTPUT_ACTIVE_HIGH then push_bit (4 * ch) 1
      else 0)"

definition pwm_lld_start :: "pwmdrv \<Rightarrow> pwmdrv option" where
  "pwm_lld_start p =
     (case pw_config p of None \<Rightarrow> None | Some c \<Rightarrow>
       (if pc_frequency c = 0 \<or> length (pc_channels c) < PWM_CHANNELS then None else
        let p1 = (if pw_state p = PWM_STOP
                  then p\<lparr>pw_clock := STM32_TIMCLK1,
                         pw_tim := (pw_tim p)\<lparr>t_CCMR1 := 0x6868, t_CCMR2 := 0x6868\<rparr>\<rparr>
                  else p\<lparr>pw_tim := (pw_tim p)\<lparr>t_CR1 := 0, t_DIER := 0, t_SR := 0,
                                       t_CCR := [0, 0, 0, 0], t_CNT := 0\<rparr>\<rparr>);
            psc = pw_clock p1 div pc_frequency c - 1;
            ccer = ccer_bits 0 (ch_mode (pc_channels c ! 0)) OR ccer_bits 1 (ch_mode (pc_channels c ! 1)) OR
                   ccer_bits 2 (ch_mode (pc_channels c ! 2)) OR ccer_bits 3 (ch_mode (pc_channels c ! 3))
        in Some (p1\<lparr>pw_tim := (pw_tim p1)\<lparr>
             t_PSC := take_bit 16 psc,
             t_ARR := take_bit 16 (pw_period p1 - 1),
             t_CR2 := pc_cr2 c,
             t_CCER := ccer,
             t_EGR := 1,
             t_DIER := (if pc_callback c then 1 else 0),
             t_SR := 0,
             t_CR1 := 0x85\<rparr>\<rparr>)))"

definition pwm_lld_stop :: "pwmdrv \<Rightarrow> pwmdrv" where
  "pwm_lld_stop p =
     (if pw_state p = PWM_READY then p\<lparr>pw_tim := (pw_tim p)\<lparr>t_CR1 := 0, t_DIER := 0, t_SR := 0\<rparr>\<rparr> else p)"

text \<open>A flag of the status register is cleared by writing a zero to it; ones leave the others.\<close>

definition pwm_lld_enable_channel :: "nat \<Rightarrow> 32 word \<Rightarrow> pwmdrv \<Rightarrow> pwmdrv option" where
  "pwm_lld_enable_channel channel width p =
     (case pw_config p of None \<Rightarrow> None | Some c \<Rightarrow>
       (if length (t_CCR (pw_tim p)) \<le> channel \<or> length (pc_channels c) \<le> channel then None else
        let t1 = (pw_tim p)\<lparr>t_CCR := (t_CCR (pw_tim p))[channel := width]\<rparr>;
            m = push_bit channel 2
        in Some (p\<lparr>pw_tim :=
             (if ch_callback (pc_channels c ! channel) \<and> t_DIER t1 AND m = 0
              then t1\<lparr>t_DIER := t_DIER t1 OR m, t_SR := t_SR t1 AND NOT m\<rparr>
              else t1)\<rparr>)))"

definition pwm_lld_disable_channel :: "nat \<Rightarrow> pwmdrv \<Rightarrow> pwmdrv option" where
  "pwm_lld_disable_channel channel p =
     (if length (t_CCR (pw_tim p)) \<le> channel then None else
      Some (p\<lparr>pw_tim := (pw_tim p)\<lparr>t_CCR := (t_CCR (pw_tim p))[channel := 0],
                                 t_DIER := t_DIER (pw_tim p) AND NOT (push_bit channel 2)\<rparr>\<rparr>))"

definition pwm_lld_change_period :: "32 word \<Rightarrow> pwmdrv \<Rightarrow> pwmdrv" where
  "pwm_lld_change_period period p = p\<lparr>pw_tim := (pw_tim p)\<lparr>t_ARR := take_bit 16 (period - 1)\<rparr>\<rparr>"

section \<open>Driver\<close>

definition set_pwm :: "nat \<Rightarrow> pwmdrv option \<Rightarrow> 'x hal_scheme \<Rightarrow> ('x, unit) hout" where
  "set_pwm i p s = (case p of None \<Rightarrow> Fault | Some q \<Rightarrow> Done () (s\<lparr>pwms := (pwms s)(i := q)\<rparr>))"

definition pwmObjectInit :: "pwmdrv \<Rightarrow> pwmdrv" where
  "pwmObjectInit p = p\<lparr>pw_state := PWM_STOP, pw_config := None\<rparr>"

definition pwmInit :: "'x hal_scheme \<Rightarrow> 'x hal_scheme" where
  "pwmInit s = s\<lparr>pwms := (pwms s)(PWMD3 := pwmObjectInit (pwms s PWMD3))\<rparr>"

definition pwmStart :: "nat \<Rightarrow> pwmconfig \<Rightarrow> 'x hal_scheme \<Rightarrow> ('x, unit) hout" where
  "pwmStart i c s =
     set_pwm i (map_option (\<lambda>p. p\<lparr>pw_state := PWM_READY\<rparr>)
       (pwm_lld_start ((pwms s i)\<lparr>pw_config := Some c, pw_period := pc_period c\<rparr>))) s"

definition pwmStop :: "nat \<Rightarrow> 'x hal_scheme \<Rightarrow> ('x, unit) hout" where
  "pwmStop i s = set_pwm i (Some ((pwm_lld_stop (pwms s i))\<lparr>pw_state := PWM_STOP\<rparr>)) s"

definition pwmChangePeriod :: "nat \<Rightarrow> 32 word \<Rightarrow> 'x hal_scheme \<Rightarrow> ('x, unit) hout" where
  "pwmChangePeriod i period s =
     set_pwm i (Some (pwm_lld_change_period period ((pwms s i)\<lparr>pw_period := period\<rparr>))) s"

definition pwmEnableChannelI :: "nat \<Rightarrow> nat \<Rightarrow> 32 word \<Rightarrow> 'x hal_scheme \<Rightarrow> ('x, unit) hout" where
  "pwmEnableChannelI i channel width s = set_pwm i (pwm_lld_enable_channel channel width (pwms s i)) s"

definition pwmEnableChannel :: "nat \<Rightarrow> nat \<Rightarrow> 32 word \<Rightarrow> 'x hal_scheme \<Rightarrow> ('x, unit) hout" where
  "pwmEnableChannel i channel width s = pwmEnableChannelI i channel width s"

definition pwmDisableChannel :: "nat \<Rightarrow> nat \<Rightarrow> 'x hal_scheme \<Rightarrow> ('x, unit) hout" where
  "pwmDisableChannel i channel s = set_pwm i (pwm_lld_disable_channel channel (pwms s i)) s"

text \<open>The width macros: 32-bit arithmetic, cut to 16 bits.\<close>

definition PWM_FRACTION_TO_WIDTH :: "pwmdrv \<Rightarrow> 32 word \<Rightarrow> 32 word \<Rightarrow> 32 word" where
  "PWM_FRACTION_TO_WIDTH p denominator numerator = take_bit 16 (pw_period p * numerator div denominator)"

definition PWM_DEGREES_TO_WIDTH :: "pwmdrv \<Rightarrow> 32 word \<Rightarrow> 32 word" where
  "PWM_DEGREES_TO_WIDTH p degrees = PWM_FRACTION_TO_WIDTH p 36000 degrees"

definition PWM_PERCENTAGE_TO_WIDTH :: "pwmdrv \<Rightarrow> 32 word \<Rightarrow> 32 word" where
  "PWM_PERCENTAGE_TO_WIDTH p percentage = PWM_FRACTION_TO_WIDTH p 10000 percentage"

section \<open>Facts\<close>

text \<open>A driver that is ready: configured, with its four compare registers.\<close>

definition pwm_ready :: "pwmdrv \<Rightarrow> bool" where
  "pwm_ready p \<longleftrightarrow> pw_state p = PWM_READY \<and> length (t_CCR (pw_tim p)) = 4 \<and>
     (\<exists>c. pw_config p = Some c \<and> length (pc_channels c) = 4)"

lemma pwm_percentage:
  assumes "unat (pw_period p) * unat pc < 2 ^ 32" "unat pc \<le> 10000" "unat (pw_period p) < 2 ^ 16"
  shows "unat (PWM_PERCENTAGE_TO_WIDTH p pc) = unat (pw_period p) * unat pc div 10000"
    "unat (PWM_PERCENTAGE_TO_WIDTH p pc) \<le> unat (pw_period p)"
proof -
  let ?w = "unat (pw_period p) * unat pc div 10000"
  have le: "?w \<le> unat (pw_period p)"
    using div_le_mono[of "unat (pw_period p) * unat pc" "unat (pw_period p) * 10000" 10000] assms(2) by simp
  have "unat (pw_period p * pc) = unat (pw_period p) * unat pc"
    using assms(1) by (simp add: unat_word_ariths)
  then have "unat (pw_period p * pc div 10000) = ?w" by (simp add: unat_div)
  then show "unat (PWM_PERCENTAGE_TO_WIDTH p pc) = ?w"
    using le assms(3) unfolding PWM_PERCENTAGE_TO_WIDTH_def PWM_FRACTION_TO_WIDTH_def
    by (subst take_bit_small) simp_all
  then show "unat (PWM_PERCENTAGE_TO_WIDTH p pc) \<le> unat (pw_period p)" using le by simp
qed

lemma pwm_enable:
  assumes "pwm_ready (pwms s i)" "channel < 4"
  shows "\<exists>p'. pwmEnableChannelI i channel width s = Done () (s\<lparr>pwms := (pwms s)(i := p')\<rparr>) \<and> pwm_ready p' \<and>
    t_CCR (pw_tim p') = (t_CCR (pw_tim (pwms s i)))[channel := width] \<and>
    pw_config p' = pw_config (pwms s i) \<and> pw_period p' = pw_period (pwms s i)"
  using assms by (auto simp: pwm_ready_def pwmEnableChannelI_def pwm_lld_enable_channel_def set_pwm_def Let_def)

text \<open>Starting the driver on the timer clock: the counter frequency is the one configured, exactly.\<close>

lemma pwm_start:
  assumes "pw_state (pwms s i) = PWM_STOP" "length (pc_channels c) = 4" "length (t_CCR (pw_tim (pwms s i))) = 4"
    "unat (pc_frequency c) dvd 84000000" "1282 \<le> unat (pc_frequency c)" "0 < unat (pc_period c)" "unat (pc_period c) \<le> 2 ^ 16"
  shows "\<exists>p'. pwmStart i c s = Done () (s\<lparr>pwms := (pwms s)(i := p')\<rparr>) \<and> pwm_ready p' \<and>
    (unat (t_PSC (pw_tim p')) + 1) * unat (pc_frequency c) = 84000000 \<and>
    unat (t_ARR (pw_tim p')) + 1 = unat (pc_period c) \<and> t_CCR (pw_tim p') = t_CCR (pw_tim (pwms s i)) \<and>
    pw_period p' = pc_period c"
proof -
  let ?f = "pc_frequency c"
  have f0: "?f \<noteq> 0" using assms(5) by auto
  obtain k where k: "84000000 = unat ?f * k" using assms(4) by (rule dvdE)
  have k1: "1 \<le> k" using k by (cases k) auto
  have "unat ?f * k < 1282 * 65537" using k by simp
  moreover have "1282 * k \<le> unat ?f * k" using assms(5) by (rule mult_le_mono1)
  ultimately have "1282 * k < 1282 * 65537" by (rule le_less_trans[rotated])
  then have k2: "k \<le> 65536" by simp
  have "unat (STM32_TIMCLK1 div ?f) = k"
  proof -
    have "unat ?f * k div unat ?f = k" using assms(5) by simp
    then show ?thesis unfolding k[symmetric] by (simp add: unat_div STM32_TIMCLK1_def)
  qed
  then have p1: "unat (STM32_TIMCLK1 div ?f - 1) = k - 1" using k1 unat_pred by (metis less_eq_Suc_le One_nat_def)
  have "take_bit 16 (STM32_TIMCLK1 div ?f - 1) = STM32_TIMCLK1 div ?f - 1"
    by (rule take_bit_small) (use p1 k1 k2 in simp)
  then have psc: "unat (take_bit 16 (STM32_TIMCLK1 div ?f - 1)) = k - 1" using p1 by simp
  have a1: "unat (pc_period c - 1) = unat (pc_period c) - 1" by (rule unat_pred[OF assms(6)])
  have "take_bit 16 (pc_period c - 1) = pc_period c - 1"
    by (rule take_bit_small) (use a1 assms(6,7) in simp)
  then have arr: "unat (take_bit 16 (pc_period c - 1)) + 1 = unat (pc_period c)"
    using assms(6) a1 by simp
  let ?p0 = "(pwms s i)\<lparr>pw_config := Some c, pw_period := pc_period c\<rparr>"
  obtain p1 where p1: "pwm_lld_start ?p0 = Some p1" "pw_config p1 = Some c" "pw_period p1 = pc_period c"
    "t_PSC (pw_tim p1) = take_bit 16 (STM32_TIMCLK1 div ?f - 1)" "t_ARR (pw_tim p1) = take_bit 16 (pc_period c - 1)"
    "t_CCR (pw_tim p1) = t_CCR (pw_tim (pwms s i))"
    using assms(1,2) f0 by (simp add: pwm_lld_start_def Let_def PWM_CHANNELS_def)
  have "(unat (t_PSC (pw_tim p1)) + 1) * unat ?f = 84000000"
    unfolding p1(4) psc using k k1 by (simp add: mult.commute)
  then show ?thesis
    using p1 assms(2,3) arr
    by (intro exI[of _ "p1\<lparr>pw_state := PWM_READY\<rparr>"]) (simp add: pwmStart_def set_pwm_def pwm_ready_def)
qed

end
