(* ===== verification/Io_Wait.thy ===== *)
theory Io_Wait
  imports Hal
begin

text \<open>
  How a driver waits: a thread notes itself in the driver's record and sleeps as \<open>SUSPENDED\<close>; an interrupt
  routine takes it out of the record and readies it. The ADC, I2C and SPI drivers share this contract,
  stated here as a locale over the field that holds the thread.
\<close>

lemma kernel_same:
  assumes "kernel.truncate s' = kernel.truncate s"
  shows "threads s' = threads s" "tq s' = tq s" "currp s' = currp s" "s_cnt s' = s_cnt s" "prio s' = prio s"
    "vts s' = vts s" "vtl s' = vtl s" "m_owner s' = m_owner s" "gqs s' = gqs s" "els s' = els s" "es_next s' = es_next s"
proof -
  show e: "threads s' = threads s" "tq s' = tq s" "currp s' = currp s" "s_cnt s' = s_cnt s"
    "vts s' = vts s" "vtl s' = vtl s" "m_owner s' = m_owner s" "gqs s' = gqs s" "els s' = els s" "es_next s' = es_next s"
    using assms by (cases s; cases s'; simp add: kernel.truncate_def)+
  show "prio s' = prio s" using e by (simp add: prio_def fun_eq_iff)
qed

lemma kinv_same: "kernel.truncate s' = kernel.truncate s \<Longrightarrow> kinv s' = kinv s"
  using kernel_same[of s' s] sched_but_cong[of s' s "{}"] by (simp add: kinv_def sem_ok_def)

lemma pal_fields [simp]:
  "kernel.truncate (palSetPad port pad s) = kernel.truncate s" "kernel.truncate (palClearPad port pad s) = kernel.truncate s"
  "spis (palSetPad port pad s) = spis s" "spis (palClearPad port pad s) = spis s"
  "bufs (palSetPad port pad s) = bufs s" "bufs (palClearPad port pad s) = bufs s"
  by (simp_all add: palSetPad_def palClearPad_def set_gpio_def kernel.truncate_def)

lemmas pal_kernel [simp] = kernel_same[OF pal_fields(1)] kinv_same[OF pal_fields(1)]
  kernel_same[OF pal_fields(2)] kinv_same[OF pal_fields(2)]

text \<open>A thread that waits in no queue, readied with a message.\<close>

lemma ready_unqueued:
  assumes "kinv s" "p_state (threads s tp) \<in> {THD_STATE_SUSPENDED, THD_STATE_SLEEPING, THD_STATE_WTOREVT, THD_STATE_WTANDEVT}"
  shows "\<exists>s'. chSchReadyI tp (upd_thread tp (\<lambda>th. th\<lparr>p_u := u\<rparr>) s) = Done tp s' \<and> kinv s' \<and>
    threads s' = (threads s)(tp := (threads s tp)\<lparr>p_u := u, p_state := THD_STATE_READY\<rparr>) \<and>
    tp \<in> set (tq s' QReady) \<and> currp s' = currp s \<and> kernel.more s' = kernel.more s \<and>
    s_cnt s' = s_cnt s \<and> vts s' = vts s \<and> vtl s' = vtl s \<and> (\<forall>q. q \<noteq> QReady \<longrightarrow> tq s' q = tq s q)"
proof -
  let ?s1 = "upd_thread tp (\<lambda>th. th\<lparr>p_u := u\<rparr>) s"
  have i: "sched_inv s" using assms(1) by (simp add: kinv_def)
  have nq: "\<not> queued_as q (threads ?s1 t) \<and> \<not> queued_as q (threads s t)" if "t = tp" for q t
    using assms(2) that by (cases q) auto
  note D = sched_butD[OF i]
  have pr: "prio ?s1 = prio s" by (auto simp: prio_def)
  have i1: "sched_inv ?s1"
  proof (rule sched_butI)
    show "t \<in> set (tq ?s1 q) \<longleftrightarrow> queued_as q (threads ?s1 t)" for q t
      using D(3)[of t q] nq[of t q] by (cases "t = tp") auto
  qed (use D pr in \<open>auto split: if_splits\<close>)
  have lo: "loose tp ?s1" using sched_butD(3)[OF i1, of tp] nq[of tp] by (simp add: loose_def)
  have nc: "tp \<noteq> currp ?s1" using sched_butD(4)[OF i, of tp] assms(2) by auto
  have p: "0 < prio ?s1 tp" using sched_butD(5)[OF i1, of tp] assms(2) by auto
  have k: "kinv (ready_put tp ?s1)"
    using ready_put_inv[OF i1 lo nc p, of "{}"] assms(1) by (simp add: kinv_def sem_ok_def)
  show ?thesis using k by (intro exI[of _ "ready_put tp ?s1"]) (simp add: chSchReadyI_eq[OF p])
qed

locale suspend_resume =
  fixes waiting :: "'x hal_scheme \<Rightarrow> tid option"
    and set_waiting :: "tid option \<Rightarrow> 'x hal_scheme \<Rightarrow> 'x hal_scheme"
    and wake :: "'x hal_scheme \<Rightarrow> ('x hal_scheme, unit) outcome"
    and result :: "thread \<Rightarrow> thd_u"
  assumes waiting_set: "waiting (set_waiting t s) = t"
    and set_kernel: "kernel.truncate (set_waiting t s) = kernel.truncate s"
    and waiting_more: "kernel.more s' = kernel.more s \<Longrightarrow> waiting s' = waiting s"
    and wake_eq: "wake s = (case waiting s of
          None \<Rightarrow> Done () s
        | Some tp \<Rightarrow> obind (chSchReadyI tp (upd_thread tp (\<lambda>th. th\<lparr>p_u := result th\<rparr>) (set_waiting None s)))
            (\<lambda>_ s1. Done () s1))"
begin

text \<open>With nobody waiting the interrupt changes nothing; a waiting thread is readied, once.\<close>

lemma wake_none: "waiting s = None \<Longrightarrow> wake s = Done () s"
  by (simp add: wake_eq)

lemma wake_some:
  assumes "kinv s" "waiting s = Some tp" "p_state (threads s tp) = THD_STATE_SUSPENDED"
  shows "\<exists>s'. wake s = Done () s' \<and> kinv s' \<and> waiting s' = None \<and>
    threads s' = (threads s)(tp := (threads s tp)\<lparr>p_u := result (threads s tp), p_state := THD_STATE_READY\<rparr>) \<and>
    tp \<in> set (tq s' QReady) \<and> currp s' = currp s \<and> kernel.more s' = kernel.more (set_waiting None s) \<and>
    wake s' = Done () s' \<and> s_cnt s' = s_cnt s \<and> vts s' = vts s \<and> vtl s' = vtl s"
proof -
  let ?s = "set_waiting None s"
  note K = kernel_same[OF set_kernel[of None s]]
  have "kinv ?s" "p_state (threads ?s tp) = THD_STATE_SUSPENDED"
    using assms kinv_same[OF set_kernel[of None s]] K by simp_all
  from ready_unqueued[OF this(1), of tp "result (threads s tp)"] this(2) obtain s' where
    s': "chSchReadyI tp (upd_thread tp (\<lambda>th. th\<lparr>p_u := result (threads s tp)\<rparr>) ?s) = Done tp s'" "kinv s'"
      "threads s' = (threads ?s)(tp := (threads ?s tp)\<lparr>p_u := result (threads s tp), p_state := THD_STATE_READY\<rparr>)"
      "tp \<in> set (tq s' QReady)" "currp s' = currp ?s" "kernel.more s' = kernel.more ?s"
      "s_cnt s' = s_cnt ?s" "vts s' = vts ?s" "vtl s' = vtl ?s" by auto
  have "upd_thread tp (\<lambda>th. th\<lparr>p_u := result th\<rparr>) ?s = upd_thread tp (\<lambda>th. th\<lparr>p_u := result (threads s tp)\<rparr>) ?s"
    using K by (simp add: upd_thread_def)
  then have w: "wake s = Done () s'" using s'(1) assms(2) by (simp add: wake_eq)
  have n: "waiting s' = None" using waiting_more[OF s'(6)] waiting_set[of None s] by simp
  show ?thesis using w n s' K wake_none[OF n] by (intro exI[of _ s']) simp
qed

text \<open>A thread that waits is suspended, and noted in the driver.\<close>

lemma sleeps:
  assumes "kinv s" "currp s \<noteq> idle_tid"
  shows "\<exists>s'. chSchGoSleepS THD_STATE_SUSPENDED (set_waiting (Some (currp s)) s) = Switch s' (Done ()) \<and> kinv s' \<and>
    top_running s' \<and> waiting s' = Some (currp s) \<and> p_state (threads s' (currp s)) = THD_STATE_SUSPENDED \<and>
    kernel.more s' = kernel.more (set_waiting (Some (currp s)) s) \<and> vts s' = vts s \<and> vtl s' = vtl s"
proof -
  let ?s = "set_waiting (Some (currp s)) s"
  note K = kernel_same[OF set_kernel[of "Some (currp s)" s]]
  have k: "kinv ?s" "currp ?s \<noteq> idle_tid" using assms kinv_same[OF set_kernel] K by simp_all
  have i: "sched_inv ?s" using k(1) by (simp add: kinv_def)
  note C = sched_inv_current[OF i] and G = go_sleep_loose[OF i k(2), of THD_STATE_SUSPENDED, simplified]
  let ?s' = "asleep THD_STATE_SUSPENDED ?s"
  have ne: "hd (tq ?s QReady) \<noteq> currp s"
    using C(2) hd_in_set[OF ready_nonempty[OF C(4) k(2)]] K(3) unfolding loose_def by metis
  have ks: "kinv ?s'" using G(2) k(1) by (simp add: kinv_def sem_ok_def)
  have st: "p_state (threads ?s' (currp s)) = THD_STATE_SUSPENDED"
    using ne K(3) by (simp add: asleep_def dispatch_def)
  have w: "waiting ?s' = Some (currp s)"
    using waiting_more[OF asleep_fields(18)[of THD_STATE_SUSPENDED ?s]] waiting_set[of "Some (currp s)" s] by (rule trans)
  have "chSchGoSleepS THD_STATE_SUSPENDED ?s = Switch ?s' (Done ())" using G(1) by (simp only: chSysSwitch_def)
  moreover have "vts ?s' = vts s" "vtl ?s' = vtl s" using K by simp_all
  ultimately show ?thesis using G(3) ks st w asleep_fields(18)[of THD_STATE_SUSPENDED ?s] by blast
qed

end

end
