(* ===== verification/Motor.thy ===== *)
theory Motor
  imports Robot Pwm Io_Wait
begin

text \<open>
  The motor service, \<^verbatim>\<open>serv_motor.c\<close>: two motors, each an H-bridge on two PWM channels, a binary
  semaphore that is taken while the motor runs, and a virtual timer that stops it.
\<close>

section \<open>Operations\<close>

datatype Direction = D_FORWARD | D_BACKWARD

definition motor_left_sem :: nat where "motor_left_sem = 0"
definition motor_right_sem :: nat where "motor_right_sem = 1"
definition motor_vtl :: vtid where "motor_vtl = VtObj 0"
definition motor_vtr :: vtid where "motor_vtr = VtObj 1"

definition motor_pwmcfg :: pwmconfig where
  "motor_pwmcfg = \<lparr>pc_frequency = 10000, pc_period = 20, pc_callback = False,
     pc_channels = replicate 4 \<lparr>ch_mode = PWM_OUTPUT_ACTIVE_HIGH, ch_callback = False\<rparr>, pc_cr2 = 0\<rparr>"

definition motor_width :: "int \<Rightarrow> 'x robot_scheme \<Rightarrow> 32 word" where
  "motor_width pc s = PWM_PERCENTAGE_TO_WIDTH (pwms s (motor_pwm s)) (word_of_int pc)"

definition motorInit :: "nat \<Rightarrow> nat \<Rightarrow> nat \<Rightarrow> nat \<Rightarrow> nat \<Rightarrow> nat \<Rightarrow> nat \<Rightarrow> nat \<Rightarrow> nat \<Rightarrow> nat \<Rightarrow>
    'x robot_scheme \<Rightarrow> ('x, bool) rout" where
  "motorInit gpio p11 p12 p21 p22 pwm lpa lpb rpa rpb s =
     (let s1 = s\<lparr>lp1 := lpa, lp2 := lpb, rp1 := rpa, rp2 := rpb, motor_pwm := pwm\<rparr>;
          s2 = palSetPadMode gpio p11 (PAL_MODE_ALTERNATE 2) s1;
          s3 = palSetPadMode gpio p12 (PAL_MODE_ALTERNATE 2) s2;
          s4 = palSetPadMode gpio p21 (PAL_MODE_ALTERNATE 2) s3;
          s5 = palSetPadMode gpio p22 (PAL_MODE_ALTERNATE 2) s4;
          s6 = chBSemInit motor_right_sem False (chBSemInit motor_left_sem False s5)
      in obind (pwmStart (motor_pwm s6) motor_pwmcfg s6) (\<lambda>_ s.
         Window s (\<lambda>s. obind (pwmEnableChannel (motor_pwm s) (lp1 s) (motor_width 0 s) s) (\<lambda>_ s.
         Window s (\<lambda>s. obind (pwmEnableChannel (motor_pwm s) (lp2 s) (motor_width 0 s) s) (\<lambda>_ s.
         Window s (\<lambda>s. obind (pwmEnableChannel (motor_pwm s) (rp1 s) (motor_width 0 s) s) (\<lambda>_ s.
         Window s (\<lambda>s. obind (pwmEnableChannel (motor_pwm s) (rp2 s) (motor_width 0 s) s) (\<lambda>_ s.
         Done True s))))))))))"

definition motorSetSpeed :: "int \<Rightarrow> 'x robot_scheme \<Rightarrow> ('x, bool) rout" where
  "motorSetSpeed sp s =
     (if 25 \<le> sp \<and> sp \<le> 100 then Done True (s\<lparr>motor_speed := 100 * sp\<rparr>) else Done False s)"

text \<open>Two channels, one after the other, under one lock.\<close>

definition motor_set :: "nat \<Rightarrow> int \<Rightarrow> nat \<Rightarrow> int \<Rightarrow> 'x robot_scheme \<Rightarrow> ('x, unit) rout" where
  "motor_set p a q b s =
     obind (pwmEnableChannelI (motor_pwm s) p (motor_width a s) s) (\<lambda>_ s1.
     pwmEnableChannelI (motor_pwm s1) q (motor_width b s1) s1)"

definition motor_left_on :: "Direction \<Rightarrow> 'x robot_scheme \<Rightarrow> ('x, unit) rout" where
  "motor_left_on dir s =
     obind (chBSemWait motor_left_sem s) (\<lambda>_ s1. Window s1 (\<lambda>s2.
       case dir of
         D_FORWARD \<Rightarrow> motor_set (lp1 s2) 0 (lp2 s2) (motor_speed s2) s2
       | D_BACKWARD \<Rightarrow> motor_set (lp1 s2) (motor_speed s2) (lp2 s2) 0 s2))"

definition motor_right_on :: "Direction \<Rightarrow> 'x robot_scheme \<Rightarrow> ('x, unit) rout" where
  "motor_right_on dir s =
     obind (chBSemWait motor_right_sem s) (\<lambda>_ s1. Window s1 (\<lambda>s2.
       case dir of
         D_FORWARD \<Rightarrow> motor_set (rp1 s2) 0 (rp2 s2) (motor_speed s2) s2
       | D_BACKWARD \<Rightarrow> motor_set (rp1 s2) (motor_speed s2) (rp2 s2) 0 s2))"

definition motorLeftForwardS :: "int \<Rightarrow> 'x robot_scheme \<Rightarrow> ('x, unit) rout" where
  "motorLeftForwardS milli s = obind (motor_left_on D_FORWARD s) (\<lambda>_ s1.
     Window s1 (\<lambda>s2. chVTSet motor_vtl (MS2ST milli) Fn_motor_left_off 0 s2))"

definition motorLeftBackwardS :: "int \<Rightarrow> 'x robot_scheme \<Rightarrow> ('x, unit) rout" where
  "motorLeftBackwardS milli s = obind (motor_left_on D_BACKWARD s) (\<lambda>_ s1.
     Window s1 (\<lambda>s2. chVTSet motor_vtl (MS2ST milli) Fn_motor_left_off 0 s2))"

definition motorRightForwardS :: "int \<Rightarrow> 'x robot_scheme \<Rightarrow> ('x, unit) rout" where
  "motorRightForwardS milli s = obind (motor_right_on D_FORWARD s) (\<lambda>_ s1.
     Window s1 (\<lambda>s2. chVTSet motor_vtr (MS2ST milli) Fn_motor_right_off 0 s2))"

definition motorRightBackwardS :: "int \<Rightarrow> 'x robot_scheme \<Rightarrow> ('x, unit) rout" where
  "motorRightBackwardS milli s = obind (motor_right_on D_BACKWARD s) (\<lambda>_ s1.
     Window s1 (\<lambda>s2. chVTSet motor_vtr (MS2ST milli) Fn_motor_right_off 0 s2))"

definition motorForwardS :: "int \<Rightarrow> 'x robot_scheme \<Rightarrow> ('x, unit) rout" where
  "motorForwardS milli s = obind (motorLeftForwardS milli s) (\<lambda>_ s1. Window s1 (motorRightForwardS milli))"

definition motorBackwardS :: "int \<Rightarrow> 'x robot_scheme \<Rightarrow> ('x, unit) rout" where
  "motorBackwardS milli s = obind (motorLeftBackwardS milli s) (\<lambda>_ s1. Window s1 (motorRightBackwardS milli))"

definition motorLeftOff :: "'x robot_scheme \<Rightarrow> ('x, unit) rout" where
  "motorLeftOff s = obind (motor_set (lp1 s) 0 (lp2 s) 0 s) (\<lambda>_ s1. chBSemSignalI motor_left_sem s1)"

definition motorRightOff :: "'x robot_scheme \<Rightarrow> ('x, unit) rout" where
  "motorRightOff s = obind (motor_set (rp1 s) 0 (rp2 s) 0 s) (\<lambda>_ s1. chBSemSignalI motor_right_sem s1)"

definition motorOff :: "'x robot_scheme \<Rightarrow> ('x, unit) rout" where
  "motorOff s = obind (motorLeftOff s) (\<lambda>_ s1. Window s1 motorRightOff)"

definition motorLeftActive :: "'x robot_scheme \<Rightarrow> bool" where
  "motorLeftActive s = chBSemGetStateI motor_left_sem s"

definition motorRightActive :: "'x robot_scheme \<Rightarrow> bool" where
  "motorRightActive s = chBSemGetStateI motor_right_sem s"

definition motorActive :: "'x robot_scheme \<Rightarrow> ('x, bool) rout" where
  "motorActive s = (if motorLeftActive s then Window s (\<lambda>s1. Done (motorRightActive s1) s1) else Done False s)"

text \<open>The timer functions.\<close>

definition motor_left_off :: "'x robot_scheme \<Rightarrow> ('x, unit) rout" where
  "motor_left_off s = obind (motor_set (lp1 s) 0 (lp2 s) 0 s) (\<lambda>_ s1. chBSemSignalI motor_left_sem s1)"

definition motor_right_off :: "'x robot_scheme \<Rightarrow> ('x, unit) rout" where
  "motor_right_off s = obind (motor_set (rp1 s) 0 (rp2 s) 0 s) (\<lambda>_ s1. chBSemSignalI motor_right_sem s1)"

section \<open>The motor invariant\<close>

definition duty :: "'x robot_scheme \<Rightarrow> nat \<Rightarrow> 32 word" where
  "duty s ch = t_CCR (pw_tim (pwms s (motor_pwm s))) ! ch"

text \<open>
  The two motors are on different channels of a running driver.
\<close>

definition motor_common :: "'x robot_scheme \<Rightarrow> bool" where
  "motor_common s \<longleftrightarrow> pwm_ready (pwms s (motor_pwm s)) \<and> pw_period (pwms s (motor_pwm s)) = 20 \<and>
     distinct [lp1 s, lp2 s, rp1 s, rp2 s] \<and> lp1 s < 4 \<and> lp2 s < 4 \<and> rp1 s < 4 \<and> rp2 s < 4 \<and>
     2500 \<le> motor_speed s \<and> motor_speed s \<le> 10000"

text \<open>A bridge never has both inputs driven; a motor whose semaphore is free stands still.\<close>

definition motor_side :: "nat \<Rightarrow> nat \<Rightarrow> nat \<Rightarrow> 'x robot_scheme \<Rightarrow> bool" where
  "motor_side b p q s \<longleftrightarrow> (duty s p = 0 \<or> duty s q = 0) \<and> s_cnt s b \<le> 1 \<and>
     (s_cnt s b = 1 \<longrightarrow> duty s p = 0 \<and> duty s q = 0)"

definition motor_ok :: "'x robot_scheme \<Rightarrow> bool" where
  "motor_ok s \<longleftrightarrow> motor_common s \<and> motor_side motor_left_sem (lp1 s) (lp2 s) s \<and>
     motor_side motor_right_sem (rp1 s) (rp2 s) s"

lemma motor_width_0 [simp]: "motor_width 0 s = 0"
  by (simp add: motor_width_def PWM_PERCENTAGE_TO_WIDTH_def PWM_FRACTION_TO_WIDTH_def)

text \<open>The width that drives a motor: between a quarter and the whole of the period.\<close>

lemma motor_width_speed:
  assumes "pw_period (pwms s (motor_pwm s)) = 20" "0 \<le> pc" "pc \<le> 10000"
  shows "unat (motor_width pc s) = nat pc div 500"
proof -
  let ?p = "pwms s (motor_pwm s)"
  have u: "unat (word_of_int pc :: 32 word) = nat pc"
    using assms(2,3) by (simp add: unat_eq_nat_uint uint_word_of_int)
  have "unat (PWM_PERCENTAGE_TO_WIDTH ?p (word_of_int pc)) = unat (pw_period ?p) * unat (word_of_int pc :: 32 word) div 10000"
    by (rule pwm_percentage) (use assms u in simp_all)
  then show ?thesis using assms(1) u by (simp add: motor_width_def) 
qed

lemma motor_set_ok:
  assumes "pwm_ready (pwms s (motor_pwm s))" "p < 4" "q < 4"
  shows "\<exists>P. motor_set p a q b s = Done () (s\<lparr>pwms := (pwms s)(motor_pwm s := P)\<rparr>) \<and> pwm_ready P \<and>
    pw_period P = pw_period (pwms s (motor_pwm s)) \<and>
    t_CCR (pw_tim P) = (t_CCR (pw_tim (pwms s (motor_pwm s))))[p := motor_width a s, q := motor_width b s]"
proof -
  let ?m = "motor_pwm s"
  from pwm_enable[OF assms(1,2), of "motor_width a s"] obtain P1 where
    P1: "pwmEnableChannelI ?m p (motor_width a s) s = Done () (s\<lparr>pwms := (pwms s)(?m := P1)\<rparr>)" "pwm_ready P1"
      "t_CCR (pw_tim P1) = (t_CCR (pw_tim (pwms s ?m)))[p := motor_width a s]" "pw_period P1 = pw_period (pwms s ?m)"
    by blast
  let ?s1 = "s\<lparr>pwms := (pwms s)(?m := P1)\<rparr>"
  have r: "pwm_ready (pwms ?s1 ?m)" using P1(2) by simp
  from pwm_enable[OF r assms(3), of "motor_width b s"] obtain P2 where
    P2: "pwmEnableChannelI ?m q (motor_width b s) ?s1 = Done () (?s1\<lparr>pwms := (pwms ?s1)(?m := P2)\<rparr>)" "pwm_ready P2"
      "t_CCR (pw_tim P2) = (t_CCR (pw_tim P1))[q := motor_width b s]" "pw_period P2 = pw_period P1"
    by auto
  have w: "motor_width b ?s1 = motor_width b s"
    using P1(4) by (simp add: motor_width_def PWM_PERCENTAGE_TO_WIDTH_def PWM_FRACTION_TO_WIDTH_def)
  have "motor_set p a q b s = Done () (s\<lparr>pwms := (pwms s)(?m := P2)\<rparr>)"
    using P1(1) P2(1) w by (simp add: motor_set_def)
  with P2 P1 show ?thesis by auto
qed

lemma pwm_ready_len: "pwm_ready p \<Longrightarrow> length (t_CCR (pw_tim p)) = 4"
  by (simp add: pwm_ready_def)

lemma sem_take:
  assumes "s_cnt s b = 1"
  shows "chBSemWait b s = Done RDY_OK (set_cnt b 0 s)"
  using assms by (simp add: chBSemWait_def chSemWait_def sem_wait_free)

lemma set_cnt_robot [simp]:
  "pwms (set_cnt b n s) = pwms s" "motor_pwm (set_cnt b n s) = motor_pwm s" "lp1 (set_cnt b n s) = lp1 s"
  "lp2 (set_cnt b n s) = lp2 s" "rp1 (set_cnt b n s) = rp1 s" "rp2 (set_cnt b n s) = rp2 s"
  "motor_speed (set_cnt b n s) = motor_speed s" "hal.more (set_cnt b n s) = hal.more s"
  for s :: "'x robot_scheme"
  by (simp_all add: set_cnt_def)

lemma robot_vars:
  fixes s s' :: "'x robot_scheme"
  assumes "hal.more s' = hal.more s"
  shows "lp1 s' = lp1 s" "lp2 s' = lp2 s" "rp1 s' = rp1 s" "rp2 s' = rp2 s" "motor_speed s' = motor_speed s"
    "motor_pwm s' = motor_pwm s"
  using assms by (cases s; cases s'; simp)+

lemma duty_same: "pwms s' = pwms s \<Longrightarrow> motor_pwm s' = motor_pwm s \<Longrightarrow> duty s' = duty s"
  by (simp add: duty_def fun_eq_iff)

lemma common_same: "hal.more s' = hal.more s \<Longrightarrow> pwms s' = pwms s \<Longrightarrow> motor_common s' = motor_common s"
  using robot_vars[of s' s] by (simp add: motor_common_def)

lemma width_same: "hal.more s' = hal.more s \<Longrightarrow> pw_period (pwms s' (motor_pwm s)) = pw_period (pwms s (motor_pwm s)) \<Longrightarrow>
    motor_width a s' = motor_width a s"
  using robot_vars(6)[of s' s] by (simp add: motor_width_def PWM_PERCENTAGE_TO_WIDTH_def PWM_FRACTION_TO_WIDTH_def)

text \<open>A signal to a binary semaphore.\<close>

definition bsem_signalled :: "nat \<Rightarrow> 'x kernel_scheme \<Rightarrow> 'x kernel_scheme" where
  "bsem_signalled b s = (if s_cnt s b < 1 then sem_signalled b s else s)"

lemma bsem_signalled_eq:
  assumes "kinv s"
  shows "chBSemSignalI b s = Done () (bsem_signalled b s)" "kinv (bsem_signalled b s)"
    "s_cnt s b \<le> 1 \<Longrightarrow> s_cnt (bsem_signalled b s) = (s_cnt s)(b := min 1 (s_cnt s b + 1))"
  using sem_signalI[OF assms, of b] sem_signalled_inv[OF assms, of b] assms
  by (auto simp: bsem_signalled_def chBSemSignalI_def fun_eq_iff)

lemma bsem_more [simp]:
  "kernel.more (bsem_signalled b s) = kernel.more s" "vts (bsem_signalled b s) = vts s" "vtl (bsem_signalled b s) = vtl s"
  by (simp_all add: bsem_signalled_def)

definition with_pwm :: "pwmdrv \<Rightarrow> 'x robot_scheme \<Rightarrow> 'x robot_scheme" where
  "with_pwm P s = s\<lparr>pwms := (pwms s)(motor_pwm s := P)\<rparr>"

lemma with_pwm_fields [simp]:
  "kernel.truncate (with_pwm P s) = kernel.truncate s" "hal.more (with_pwm P s) = hal.more s"
  "pwms (with_pwm P s) = (pwms s)(motor_pwm s := P)" "s_cnt (with_pwm P s) = s_cnt s"
  by (simp_all add: with_pwm_def kernel.truncate_def)

section \<open>One motor\<close>

text \<open>
  What the two motors have in common: a semaphore, two channels and the channels of the other motor. The
  lemmas hold for both.
\<close>

locale bridge =
  fixes on :: "Direction \<Rightarrow> 'x robot_scheme \<Rightarrow> ('x, unit) rout" and off :: "'x robot_scheme \<Rightarrow> ('x, unit) rout"
    and sem other :: nat and p q p' q' :: "'x robot_scheme \<Rightarrow> nat"
  assumes on: "on dir s = obind (chBSemWait sem s) (\<lambda>_ s1. Window s1 (\<lambda>s2.
       case dir of
         D_FORWARD \<Rightarrow> motor_set (p s2) 0 (q s2) (motor_speed s2) s2
       | D_BACKWARD \<Rightarrow> motor_set (p s2) (motor_speed s2) (q s2) 0 s2))"
    and off: "off s = obind (motor_set (p s) 0 (q s) 0 s) (\<lambda>_ s1. chBSemSignalI sem s1)"
    and ok: "motor_ok s \<longleftrightarrow> motor_common s \<and> motor_side sem (p s) (q s) s \<and> motor_side other (p' s) (q' s) s"
    and chans: "motor_common s \<Longrightarrow> distinct [p s, q s, p' s, q' s] \<and> p s < 4 \<and> q s < 4 \<and> p' s < 4 \<and> q' s < 4"
    and vars: "hal.more s' = hal.more s \<Longrightarrow> p s' = p s \<and> q s' = q s \<and> p' s' = p' s \<and> q' s' = q' s"
    and sems: "sem \<noteq> other"
begin

lemma set_channels:
  assumes "motor_common s"
  shows "\<exists>P. motor_set (p s) a (q s) b s = Done () (with_pwm P s) \<and> motor_common (with_pwm P s) \<and>
    duty (with_pwm P s) (p s) = motor_width a s \<and> duty (with_pwm P s) (q s) = motor_width b s \<and>
    duty (with_pwm P s) (p' s) = duty s (p' s) \<and> duty (with_pwm P s) (q' s) = duty s (q' s)"
proof -
  have c: "distinct [p s, q s, p' s, q' s]" "p s < 4" "q s < 4" "p' s < 4" "q' s < 4" using chans[OF assms] by simp_all
  have r: "pwm_ready (pwms s (motor_pwm s))" using assms by (simp add: motor_common_def)
  from motor_set_ok[OF r c(2,3), of a b] obtain P where
    P: "motor_set (p s) a (q s) b s = Done () (s\<lparr>pwms := (pwms s)(motor_pwm s := P)\<rparr>)" "pwm_ready P"
      "pw_period P = pw_period (pwms s (motor_pwm s))"
      "t_CCR (pw_tim P) = (t_CCR (pw_tim (pwms s (motor_pwm s))))[p s := motor_width a s, q s := motor_width b s]"
    by blast
  note V = robot_vars[of "with_pwm P s" s, simplified]
  have l: "length (t_CCR (pw_tim (pwms s (motor_pwm s)))) = 4" using r by (simp add: pwm_ready_def)
  have "motor_common (with_pwm P s)" using assms P(2,3) by (simp add: motor_common_def V)
  then show ?thesis using P(1,4) c l by (intro exI[of _ P]) (auto simp: duty_def with_pwm_def nth_list_update)
qed

lemma turned_on:
  assumes "motor_ok s" "s_cnt s sem = 1"
  shows "\<exists>P. quiet (on dir s) = Some ((), with_pwm P (set_cnt sem 0 s)) \<and> motor_ok (with_pwm P (set_cnt sem 0 s)) \<and>
    duty (with_pwm P (set_cnt sem 0 s)) (p s) = (if dir = D_FORWARD then 0 else motor_width (motor_speed s) s) \<and>
    duty (with_pwm P (set_cnt sem 0 s)) (q s) = (if dir = D_FORWARD then motor_width (motor_speed s) s else 0) \<and>
    duty (with_pwm P (set_cnt sem 0 s)) (p' s) = duty s (p' s) \<and> duty (with_pwm P (set_cnt sem 0 s)) (q' s) = duty s (q' s)"
proof -
  let ?s0 = "set_cnt sem 0 s"
  have c: "motor_common ?s0" using assms(1) common_same[of ?s0 s] by (simp add: ok)
  have v: "p ?s0 = p s" "q ?s0 = q s" "p' ?s0 = p' s" "q' ?s0 = q' s" using vars[of ?s0 s] by simp_all
  have w: "motor_width a ?s0 = motor_width a s" for a by (rule width_same) simp_all
  have d: "duty ?s0 = duty s" by (rule duty_same) simp_all
  let ?a = "if dir = D_FORWARD then 0 else motor_speed s" and ?b = "if dir = D_FORWARD then motor_speed s else 0"
  from set_channels[OF c, of ?a ?b] obtain P where
    P: "motor_set (p s) ?a (q s) ?b ?s0 = Done () (with_pwm P ?s0)" "motor_common (with_pwm P ?s0)"
      "duty (with_pwm P ?s0) (p s) = motor_width ?a s" "duty (with_pwm P ?s0) (q s) = motor_width ?b s"
      "duty (with_pwm P ?s0) (p' s) = duty s (p' s)" "duty (with_pwm P ?s0) (q' s) = duty s (q' s)"
    unfolding v w d by blast
  let ?s' = "with_pwm P ?s0"
  have v': "p ?s' = p s" "q ?s' = q s" "p' ?s' = p' s" "q' ?s' = q' s" using vars[of ?s' s] by simp_all
  have "quiet (on dir s) = Some ((), ?s')"
    using P(1) assms(2) v by (cases dir) (simp_all add: on sem_take)
  moreover have "motor_ok ?s'"
    using assms P(2-6) sems unfolding ok v' by (auto simp: motor_side_def)
  ultimately show ?thesis using P(3-6) by (intro exI[of _ P]) auto
qed

lemma turned_off:
  assumes "motor_ok s" "kinv s"
  shows "\<exists>P s'. off s = Done () s' \<and> s' = bsem_signalled sem (with_pwm P s) \<and> motor_ok s' \<and> kinv s' \<and>
    duty s' (p s) = 0 \<and> duty s' (q s) = 0 \<and> duty s' (p' s) = duty s (p' s) \<and> duty s' (q' s) = duty s (q' s)"
proof -
  from assms(1) have c: "motor_common s" by (simp add: ok)
  from set_channels[OF this, of 0 0] obtain P where
    P: "motor_set (p s) 0 (q s) 0 s = Done () (with_pwm P s)" "motor_common (with_pwm P s)"
      "duty (with_pwm P s) (p s) = 0" "duty (with_pwm P s) (q s) = 0"
      "duty (with_pwm P s) (p' s) = duty s (p' s)" "duty (with_pwm P s) (q' s) = duty s (q' s)"
    by auto
  let ?s1 = "with_pwm P s" and ?s' = "bsem_signalled sem (with_pwm P s)"
  have k: "kinv ?s1" using assms(2) kinv_same[of ?s1 s] by simp
  note B = bsem_signalled_eq[OF k, of sem]
  have m: "hal.more ?s' = hal.more s" "pwms ?s' = pwms ?s1" using hal_more[OF bsem_more(1)[of sem ?s1]] by simp_all
  have v: "p ?s' = p s" "q ?s' = q s" "p' ?s' = p' s" "q' ?s' = q' s" using vars[OF m(1)] by simp_all
  have d: "duty ?s' = duty ?s1" using m robot_vars[of ?s' ?s1] by (intro duty_same) simp_all
  have "motor_common ?s'" using common_same[of ?s' ?s1] m P(2) by simp
  moreover have "s_cnt ?s' = (s_cnt s)(sem := min 1 (s_cnt s sem + 1))"
    using B(3) assms(1) by (simp add: ok motor_side_def)
  ultimately have "motor_ok ?s'"
    using assms(1) P(3-6)[folded d] sems unfolding ok v by (auto simp: motor_side_def)
  moreover have "off s = Done () ?s'" using P(1) B(1) by (simp add: off)
  ultimately show ?thesis using B(2) P(3-6) d by auto
qed

text \<open>Switched on for a time: the motor runs, and the timer is armed to stop it.\<close>

lemma timed:
  assumes "motor_ok s" "kinv s" "vt_ok s" "s_cnt s sem = 1" "v \<notin> set (vtl s)"
  shows "\<exists>s'. quiet (obind (on dir s) (\<lambda>_ s1. Window s1 (\<lambda>s2. chVTSet v time fn 0 s2))) = Some ((), s') \<and>
    motor_ok s' \<and> kinv s' \<and> vt_ok s' \<and> vt_deadline s' = (vt_deadline s)(v \<mapsto> unat time) \<and>
    s_cnt s' = (s_cnt s)(sem := 0) \<and> hal.more s' = hal.more s \<and>
    armed_for v fn 0 s s' \<and> threads s' = threads s \<and> i2cs s' = i2cs s \<and>
    duty s' (p s) = (if dir = D_FORWARD then 0 else motor_width (motor_speed s) s) \<and>
    duty s' (q s) = (if dir = D_FORWARD then motor_width (motor_speed s) s else 0) \<and>
    duty s' (p' s) = duty s (p' s) \<and> duty s' (q' s) = duty s (q' s)"
proof -
  from turned_on[OF assms(1,4), of dir] obtain P where
    P: "quiet (on dir s) = Some ((), with_pwm P (set_cnt sem 0 s))" "motor_ok (with_pwm P (set_cnt sem 0 s))"
      "duty (with_pwm P (set_cnt sem 0 s)) (p s) = (if dir = D_FORWARD then 0 else motor_width (motor_speed s) s)"
      "duty (with_pwm P (set_cnt sem 0 s)) (q s) = (if dir = D_FORWARD then motor_width (motor_speed s) s else 0)"
      "duty (with_pwm P (set_cnt sem 0 s)) (p' s) = duty s (p' s)"
      "duty (with_pwm P (set_cnt sem 0 s)) (q' s) = duty s (q' s)" by blast
  define s1 where "s1 = with_pwm P (set_cnt sem 0 s)"
  note S = kernel_same[OF with_pwm_fields(1)[of P "set_cnt sem 0 s"], folded s1_def]
  have k: "kinv s1" unfolding s1_def kinv_same[OF with_pwm_fields(1)]
    using assms(2,4) by (simp add: kinv_def sem_ok_def)
  have v: "vt_ok s1" "v \<notin> set (vtl s1)" "vt_deadline s1 = vt_deadline s" "s_cnt s1 = (s_cnt s)(sem := 0)" "hal.more s1 = hal.more s"
    using assms(3,5) S by (simp_all add: vt_ok_def vt_deadline_def chVTIsArmedI_def s1_def)
  from vt_set_deadline[OF v(1,2), of time fn 0] vt_set_frame[OF v(2), of time fn 0] obtain s' where
    s': "chVTSetI v time fn 0 s1 = Done () s'" "vt_deadline s' = (vt_deadline s)(v \<mapsto> unat time)" "vt_ok s'" "vt_frame s1 s'"
    using v(3) by auto
  note F = vt_frame_fields[OF s'(4)] and H = hal_more[OF vt_frame_fields(15)[OF s'(4)]]
  have d: "duty s' = duty s1" using H robot_vars[OF H(9)] by (intro duty_same) simp_all
  have a: "armed_for v fn 0 s s'" using vt_set_armed[OF v(2) s'(1)] S by (simp add: armed_for_def s1_def)
  have t: "threads s' = threads s" "i2cs s' = i2cs s" using F H S by (simp_all add: s1_def with_pwm_def set_cnt_def)
  have vs: "p s' = p s1" "q s' = q s1" "p' s' = p' s1" "q' s' = q' s1" using vars[OF H(9)] by simp_all
  have "motor_ok s'" using P(2)[folded s1_def] common_same[OF H(9)] H F(5) unfolding ok motor_side_def d vs by simp
  moreover have "kinv s'" using k F by (simp add: kinv_def sem_ok_def)
  moreover have "quiet (obind (on dir s) (\<lambda>_ s1. Window s1 (\<lambda>s2. chVTSet v time fn 0 s2))) = Some ((), s')"
    using P(1)[folded s1_def] s'(1) by (simp add: quiet_obind chVTSet_def)
  ultimately show ?thesis
    using s'(2,3) F(5) v(4,5) H(9) a t P(3-6)[folded s1_def] by (intro exI[of _ s']) (simp only: d simp_thms)
qed

end

interpretation left: bridge motor_left_on motor_left_off motor_left_sem motor_right_sem lp1 lp2 rp1 rp2
  using robot_vars
  by unfold_locales (auto simp: motor_left_on_def motor_left_off_def motor_ok_def motor_common_def
      motor_left_sem_def motor_right_sem_def)

interpretation right: bridge motor_right_on motor_right_off motor_right_sem motor_left_sem rp1 rp2 lp1 lp2
  using robot_vars
  by unfold_locales (auto simp: motor_right_on_def motor_right_off_def motor_ok_def motor_common_def
      motor_left_sem_def motor_right_sem_def)

section \<open>Both motors\<close>

lemma ms2st:
  assumes "0 < m" "m \<le> 2147484"
  shows "unat (MS2ST m) = nat m"
proof -
  have "s32 ((m - 1) * CH_FREQUENCY) = (m - 1) * 1000" using assms by (simp add: CH_FREQUENCY_def)
  moreover have "(m - 1) * 1000 sdiv 1000 = m - 1" 
    using assms by (simp add: signed_divide_int_def sgn_if)
  moreover have "s32 (m - 1) = m - 1" "s32 m = m" using assms by simp_all
  ultimately have "MS2ST m = word_of_int m" by (simp add: MS2ST_def)
  then show ?thesis using assms by (simp add: unat_eq_nat_uint uint_word_of_int)
qed

definition motors_on :: "Direction \<Rightarrow> int \<Rightarrow> 'x robot_scheme \<Rightarrow> ('x, unit) rout" where
  "motors_on dir m s = (case dir of D_FORWARD \<Rightarrow> motorForwardS m s | D_BACKWARD \<Rightarrow> motorBackwardS m s)"

text \<open>From rest, both motors run in the direction, and both timers are armed to stop them.\<close>

lemma both_on:
  assumes "motor_ok s" "kinv s" "vt_ok s" "s_cnt s motor_left_sem = 1" "s_cnt s motor_right_sem = 1"
    "motor_vtl \<notin> set (vtl s)" "motor_vtr \<notin> set (vtl s)" "0 < m" "m \<le> 2147484"
  shows "\<exists>s'. quiet (motors_on dir m s) = Some ((), s') \<and> motor_ok s' \<and> kinv s' \<and> vt_ok s' \<and>
    vt_deadline s' = (vt_deadline s)(motor_vtl \<mapsto> nat m, motor_vtr \<mapsto> nat m) \<and>
    s_cnt s' = (s_cnt s)(motor_left_sem := 0, motor_right_sem := 0) \<and> hal.more s' = hal.more s \<and>
    (\<exists>s1. armed_for motor_vtl Fn_motor_left_off 0 s s1 \<and> armed_for motor_vtr Fn_motor_right_off 0 s1 s') \<and>
    threads s' = threads s \<and> i2cs s' = i2cs s \<and>
    map (duty s') [lp1 s, lp2 s, rp1 s, rp2 s] =
      (let w = motor_width (motor_speed s) s in if dir = D_FORWARD then [0, w, 0, w] else [w, 0, w, 0])"
proof -
  from left.timed[OF assms(1-4,6), of dir "MS2ST m" Fn_motor_left_off] obtain s1 where
    1: "quiet (obind (motor_left_on dir s) (\<lambda>_ s1. Window s1 (\<lambda>s2. chVTSet motor_vtl (MS2ST m) Fn_motor_left_off 0 s2))) = Some ((), s1)"
      "motor_ok s1" "kinv s1" "vt_ok s1" "vt_deadline s1 = (vt_deadline s)(motor_vtl \<mapsto> unat (MS2ST m))"
      "s_cnt s1 = (s_cnt s)(motor_left_sem := 0)" "hal.more s1 = hal.more s"
      "armed_for motor_vtl Fn_motor_left_off 0 s s1" "threads s1 = threads s" "i2cs s1 = i2cs s"
      "duty s1 (lp1 s) = (if dir = D_FORWARD then 0 else motor_width (motor_speed s) s)"
      "duty s1 (lp2 s) = (if dir = D_FORWARD then motor_width (motor_speed s) s else 0)" by blast
  have d: "v \<in> set (vtl s) \<longleftrightarrow> vt_deadline s v \<noteq> None" for s :: "'a robot_scheme" and v 
    by (simp add: vt_deadline_def)
  have r: "s_cnt s1 motor_right_sem = 1" "motor_vtr \<notin> set (vtl s1)"
    using assms(5,7) 1(5,6) d[of motor_vtr s] d[of motor_vtr s1]
    by (simp_all add: motor_left_sem_def motor_right_sem_def motor_vtl_def motor_vtr_def)
  from right.timed[OF 1(2-4) r, of dir "MS2ST m" Fn_motor_right_off] obtain s2 where
    2: "quiet (obind (motor_right_on dir s1) (\<lambda>_ s2. Window s2 (\<lambda>s2. chVTSet motor_vtr (MS2ST m) Fn_motor_right_off 0 s2))) = Some ((), s2)"
      "motor_ok s2" "kinv s2" "vt_ok s2" "vt_deadline s2 = (vt_deadline s1)(motor_vtr \<mapsto> unat (MS2ST m))"
      "s_cnt s2 = (s_cnt s1)(motor_right_sem := 0)" "hal.more s2 = hal.more s1"
      "armed_for motor_vtr Fn_motor_right_off 0 s1 s2" "threads s2 = threads s1" "i2cs s2 = i2cs s1"
      "duty s2 (rp1 s1) = (if dir = D_FORWARD then 0 else motor_width (motor_speed s1) s1)"
      "duty s2 (rp2 s1) = (if dir = D_FORWARD then motor_width (motor_speed s1) s1 else 0)"
      "duty s2 (lp1 s1) = duty s1 (lp1 s1)" "duty s2 (lp2 s1) = duty s1 (lp2 s1)" by blast
  note V = robot_vars[OF 1(7)]
  have w: "motor_width a s1 = motor_width a s" for a
    using 1(2) assms(1) V by (intro width_same[OF 1(7)]) (simp add: motor_ok_def motor_common_def)
  have "quiet (motors_on dir m s) = Some ((), s2)"
    using 1(1) 2(1) by (cases dir) (simp_all add: motors_on_def motorForwardS_def motorBackwardS_def motorLeftForwardS_def
        motorLeftBackwardS_def motorRightForwardS_def motorRightBackwardS_def quiet_obind)
  moreover have "\<exists>s1. armed_for motor_vtl Fn_motor_left_off 0 s s1 \<and> armed_for motor_vtr Fn_motor_right_off 0 s1 s2"
    using 1 2 by blast
  ultimately show ?thesis using 1 2 V w ms2st[OF assms(8,9)] by (intro exI[of _ s2]) (simp add: Let_def)
qed

text \<open>The functions that stop a motor from a thread do what the timer functions do.\<close>

lemma motor_off_eq: "motorLeftOff s = motor_left_off s" "motorRightOff s = motor_right_off s"
  by (simp_all add: motorLeftOff_def motor_left_off_def motorRightOff_def motor_right_off_def)

end
