(* ===== verification/Dma.thy ===== *)
theory Dma
  imports Hal
begin

text \<open>
  DMA streams, \<^verbatim>\<open>platforms/STM32F4xx/stm32_dma.[ch]\<close>: allocation, and the registers of a stream. The
  enable bit of the control register is kept apart from the mode; the peripheral's address, the
  clocks and the interrupt vectors are not modelled.
\<close>

definition STM32_DMA_CR_DMEIE :: "32 word" where "STM32_DMA_CR_DMEIE = 0x2"
definition STM32_DMA_CR_TEIE :: "32 word" where "STM32_DMA_CR_TEIE = 0x4"
definition STM32_DMA_CR_HTIE :: "32 word" where "STM32_DMA_CR_HTIE = 0x8"
definition STM32_DMA_CR_TCIE :: "32 word" where "STM32_DMA_CR_TCIE = 0x10"
definition STM32_DMA_CR_DIR_M2P :: "32 word" where "STM32_DMA_CR_DIR_M2P = 0x40"
definition STM32_DMA_CR_CIRC :: "32 word" where "STM32_DMA_CR_CIRC = 0x100"
definition STM32_DMA_CR_MINC :: "32 word" where "STM32_DMA_CR_MINC = 0x400"
definition STM32_DMA_CR_PSIZE_HWORD :: "32 word" where "STM32_DMA_CR_PSIZE_HWORD = 0x800"
definition STM32_DMA_CR_MSIZE_HWORD :: "32 word" where "STM32_DMA_CR_MSIZE_HWORD = 0x2000"

definition STM32_DMA_CR_PSIZE_BYTE :: "32 word" where "STM32_DMA_CR_PSIZE_BYTE = 0"
definition STM32_DMA_CR_MSIZE_BYTE :: "32 word" where "STM32_DMA_CR_MSIZE_BYTE = 0"
definition STM32_DMA_CR_SIZE_MASK :: "32 word" where "STM32_DMA_CR_SIZE_MASK = 0x7800"
definition STM32_DMA_CR_DIR_P2M :: "32 word" where "STM32_DMA_CR_DIR_P2M = 0"

definition STM32_DMA_CR_PL :: "nat \<Rightarrow> 32 word" where "STM32_DMA_CR_PL n = push_bit 16 (of_nat n)"
definition STM32_DMA_CR_CHSEL :: "nat \<Rightarrow> 32 word" where "STM32_DMA_CR_CHSEL n = push_bit 25 (of_nat n)"

definition STM32_DMA_ISR_DMEIF :: "32 word" where "STM32_DMA_ISR_DMEIF = 0x4"
definition STM32_DMA_ISR_TEIF :: "32 word" where "STM32_DMA_ISR_TEIF = 0x8"
definition STM32_DMA_ISR_HTIF :: "32 word" where "STM32_DMA_ISR_HTIF = 0x10"
definition STM32_DMA_ISR_TCIF :: "32 word" where "STM32_DMA_ISR_TCIF = 0x20"

lemmas dma_bits = STM32_DMA_CR_DMEIE_def STM32_DMA_CR_TEIE_def STM32_DMA_CR_HTIE_def STM32_DMA_CR_TCIE_def
  STM32_DMA_CR_DIR_M2P_def STM32_DMA_CR_CIRC_def STM32_DMA_CR_MINC_def STM32_DMA_CR_PSIZE_HWORD_def
  STM32_DMA_CR_MSIZE_HWORD_def STM32_DMA_ISR_DMEIF_def STM32_DMA_ISR_TEIF_def STM32_DMA_ISR_HTIF_def
  STM32_DMA_ISR_TCIF_def STM32_DMA_CR_PSIZE_BYTE_def STM32_DMA_CR_MSIZE_BYTE_def STM32_DMA_CR_SIZE_MASK_def
  STM32_DMA_CR_DIR_P2M_def

definition dmaStreamSetMemory0 :: "nat option \<Rightarrow> dma \<Rightarrow> dma" where
  "dmaStreamSetMemory0 a d = d\<lparr>dma_mem := a\<rparr>"

definition dmaStreamSetTransactionSize :: "32 word \<Rightarrow> dma \<Rightarrow> dma" where
  "dmaStreamSetTransactionSize n d = d\<lparr>dma_size := n\<rparr>"

definition dmaStreamGetTransactionSize :: "dma \<Rightarrow> 32 word" where
  "dmaStreamGetTransactionSize d = dma_size d"

definition dmaStreamSetMode :: "32 word \<Rightarrow> dma \<Rightarrow> dma" where
  "dmaStreamSetMode mode d = d\<lparr>dma_mode := mode, dma_enabled := bit mode 0\<rparr>"

definition dmaStreamEnable :: "dma \<Rightarrow> dma" where
  "dmaStreamEnable d = d\<lparr>dma_enabled := True\<rparr>"

text \<open>The wait for the stream to stop is for the hardware.\<close>

definition dmaStreamDisable :: "dma \<Rightarrow> dma" where
  "dmaStreamDisable d = d\<lparr>dma_enabled := False\<rparr>"

definition dmaStreamAllocate :: "dma \<Rightarrow> bool \<times> dma" where
  "dmaStreamAllocate d =
     (if dma_used d then (True, d)
      else (False, (dmaStreamDisable (d\<lparr>dma_used := True\<rparr>))\<lparr>dma_mode := 0\<rparr>))"

definition dmaStreamRelease :: "dma \<Rightarrow> dma" where
  "dmaStreamRelease d = d\<lparr>dma_used := False\<rparr>"

lemmas dma_ops = dmaStreamSetMemory0_def dmaStreamSetTransactionSize_def dmaStreamGetTransactionSize_def
  dmaStreamSetMode_def dmaStreamEnable_def dmaStreamDisable_def dmaStreamAllocate_def dmaStreamRelease_def

text \<open>A stream that is allocated is refused to the next who asks, until it is released.\<close>

lemma dma_exclusive:
  "\<not> dma_used d \<Longrightarrow> \<exists>d'. dmaStreamAllocate d = (False, d') \<and> \<not> dma_enabled d' \<and> dmaStreamAllocate d' = (True, d') \<and>
     fst (dmaStreamAllocate (dmaStreamRelease d')) = False"
  by (simp add: dma_ops)

end
