(* ===== verification/Adc.thy ===== *)
theory Adc
  imports Dma Io_Wait
begin

text \<open>
  The ADC driver, \<^verbatim>\<open>os/hal/src/adc.c\<close>, \<^verbatim>\<open>include/adc.h\<close> and \<^verbatim>\<open>platforms/STM32F4xx/adc_lld.c\<close>, for
  \<open>ADCD1\<close>, the converter the configuration enables. The functions of a conversion group are named by
  \<open>adcfn\<close>; what they do is a parameter (\<open>ecb\<close>, \<open>rcb\<close>) of the interrupt routines. A buffer of samples
  is named by its number in \<open>adbufs\<close>, a pointer into it is that number and an offset.
\<close>

definition ADC_CR1_SCAN :: "32 word" where "ADC_CR1_SCAN = 0x100"
definition ADC_CR1_OVRIE :: "32 word" where "ADC_CR1_OVRIE = 0x4000000"
definition ADC_CR2_ADON :: "32 word" where "ADC_CR2_ADON = 0x1"
definition ADC_CR2_CONT :: "32 word" where "ADC_CR2_CONT = 0x2"
definition ADC_CR2_DMA :: "32 word" where "ADC_CR2_DMA = 0x100"
definition ADC_CR2_DDS :: "32 word" where "ADC_CR2_DDS = 0x200"
definition ADC_CR2_SWSTART :: "32 word" where "ADC_CR2_SWSTART = 0x40000000"
definition ADC_SR_OVR :: "32 word" where "ADC_SR_OVR = 0x20"

lemmas adc_bits = ADC_CR1_SCAN_def ADC_CR1_OVRIE_def ADC_CR2_ADON_def ADC_CR2_CONT_def ADC_CR2_DMA_def
  ADC_CR2_DDS_def ADC_CR2_SWSTART_def ADC_SR_OVR_def

definition ADC_ERR_DMAFAILURE :: int where "ADC_ERR_DMAFAILURE = 0"
definition ADC_ERR_OVERFLOW :: int where "ADC_ERR_OVERFLOW = 1"
definition ADCD1 :: nat where "ADCD1 = 0"

definition upd_adc :: "nat \<Rightarrow> (adcdrv \<Rightarrow> adcdrv) \<Rightarrow> 'x hal_scheme \<Rightarrow> 'x hal_scheme" where
  "upd_adc a f s = s\<lparr>adcs := (adcs s)(a := f (adcs s a))\<rparr>"

type_synonym 'x adc_end = "adcfn \<Rightarrow> nat \<Rightarrow> nat \<Rightarrow> nat \<Rightarrow> nat \<Rightarrow> 'x hal_scheme \<Rightarrow> ('x hal_scheme, unit) outcome"
type_synonym 'x adc_err = "adcfn \<Rightarrow> nat \<Rightarrow> int \<Rightarrow> 'x hal_scheme \<Rightarrow> ('x hal_scheme, unit) outcome"

section \<open>The low level driver\<close>

definition adc_lld_start :: "adcdrv \<Rightarrow> adcdrv" where
  "adc_lld_start d =
     (if ad_state d = ADC_STOP
      then d\<lparr>ad_dma := snd (dmaStreamAllocate (ad_dma d)), a_CR1 := 0, a_CR2 := ADC_CR2_ADON\<rparr> else d)"

definition adc_lld_stop :: "adcdrv \<Rightarrow> adcdrv" where
  "adc_lld_stop d =
     (if ad_state d = ADC_READY then d\<lparr>ad_dma := dmaStreamRelease (ad_dma d), a_CR1 := 0, a_CR2 := 0\<rparr> else d)"

definition adc_lld_start_conversion :: "adcdrv \<Rightarrow> adcdrv option" where
  "adc_lld_start_conversion d =
     (case ad_grpp d of
        None \<Rightarrow> None
      | Some g \<Rightarrow>
          (let mode1 = (if ag_circular g then ad_dmamode d OR STM32_DMA_CR_CIRC else ad_dmamode d);
               mode2 = (if ad_depth d > 1 then mode1 OR STM32_DMA_CR_HTIE else mode1);
               m = dmaStreamEnable (dmaStreamSetMode mode2
                     (dmaStreamSetTransactionSize (of_nat (ag_num_channels g) * of_nat (ad_depth d))
                     (dmaStreamSetMemory0 (ad_samples d) (ad_dma d))))
           in Some (d\<lparr>ad_dma := m, a_SR := 0, a_SMPR1 := ag_smpr1 g, a_SMPR2 := ag_smpr2 g,
                a_SQR1 := ag_sqr1 g, a_SQR2 := ag_sqr2 g, a_SQR3 := ag_sqr3 g,
                a_CR1 := ag_cr1 g OR ADC_CR1_OVRIE OR ADC_CR1_SCAN,
                a_CR2 := (if ag_cr2 g AND ADC_CR2_SWSTART \<noteq> 0
                          then ag_cr2 g OR ADC_CR2_CONT OR ADC_CR2_DMA OR ADC_CR2_DDS OR ADC_CR2_ADON
                          else ag_cr2 g OR ADC_CR2_DMA OR ADC_CR2_DDS OR ADC_CR2_ADON)\<rparr>)))"

definition adc_lld_stop_conversion :: "adcdrv \<Rightarrow> adcdrv" where
  "adc_lld_stop_conversion d = d\<lparr>ad_dma := dmaStreamDisable (ad_dma d), a_CR1 := 0, a_CR2 := ADC_CR2_ADON\<rparr>"

section \<open>The driver\<close>

definition adcObjectInit :: "nat \<Rightarrow> 'x hal_scheme \<Rightarrow> 'x hal_scheme" where
  "adcObjectInit a s =
     (let s1 = upd_adc a (\<lambda>d. d\<lparr>ad_state := ADC_STOP, ad_samples := None, ad_depth := 0, ad_grpp := None,
                 ad_thread := None\<rparr>) s
      in chMtxInit (ad_mutex (adcs s1 a)) s1)"

definition adc_lld_init :: "'x hal_scheme \<Rightarrow> 'x hal_scheme" where
  "adc_lld_init s =
     upd_adc ADCD1 (\<lambda>d. d\<lparr>ad_dmamode := STM32_DMA_CR_CHSEL 0 OR STM32_DMA_CR_PL 2 OR STM32_DMA_CR_MSIZE_HWORD OR
       STM32_DMA_CR_PSIZE_HWORD OR STM32_DMA_CR_MINC OR STM32_DMA_CR_TCIE OR STM32_DMA_CR_DMEIE OR STM32_DMA_CR_TEIE\<rparr>)
       (adcObjectInit ADCD1 s)"

definition adcInit :: "'x hal_scheme \<Rightarrow> 'x hal_scheme" where
  "adcInit s = adc_lld_init s"

definition adcStart :: "nat \<Rightarrow> 'x hal_scheme \<Rightarrow> ('x, unit) hout" where
  "adcStart a s = Done () (upd_adc a (\<lambda>d. (adc_lld_start d)\<lparr>ad_state := ADC_READY\<rparr>) s)"

definition adcStop :: "nat \<Rightarrow> 'x hal_scheme \<Rightarrow> ('x, unit) hout" where
  "adcStop a s = Done () (upd_adc a (\<lambda>d. (adc_lld_stop d)\<lparr>ad_state := ADC_STOP\<rparr>) s)"

definition adcStartConversionI :: "nat \<Rightarrow> adcgroup \<Rightarrow> nat \<Rightarrow> nat \<Rightarrow> 'x hal_scheme \<Rightarrow> ('x, unit) hout" where
  "adcStartConversionI a grpp samples depth s =
     (case adc_lld_start_conversion ((adcs s a)\<lparr>ad_samples := Some samples, ad_depth := depth,
         ad_grpp := Some grpp, ad_state := ADC_ACTIVE\<rparr>) of
        None \<Rightarrow> Fault
      | Some d \<Rightarrow> Done () (upd_adc a (\<lambda>_. d) s))"

definition adcStartConversion :: "nat \<Rightarrow> adcgroup \<Rightarrow> nat \<Rightarrow> nat \<Rightarrow> 'x hal_scheme \<Rightarrow> ('x, unit) hout" where
  "adcStartConversion a grpp samples depth s = adcStartConversionI a grpp samples depth s"

text \<open>The four ways to resume the thread that waits for a conversion.\<close>

definition adc_ready :: "nat \<Rightarrow> msg \<Rightarrow> 'x hal_scheme \<Rightarrow> ('x, unit) hout" where
  "adc_ready a m s =
     (case ad_thread (adcs s a) of
        None \<Rightarrow> Done () s
      | Some tp \<Rightarrow> obind (chSchReadyI tp (set_rdymsg tp m (upd_adc a (\<lambda>d. d\<lparr>ad_thread := None\<rparr>) s))) (\<lambda>_ s1. Done () s1))"

definition adc_reset_i :: "nat \<Rightarrow> 'x hal_scheme \<Rightarrow> ('x, unit) hout" where
  "adc_reset_i a s = adc_ready a RDY_RESET s"

definition adc_reset_s :: "nat \<Rightarrow> 'x hal_scheme \<Rightarrow> ('x, unit) hout" where
  "adc_reset_s a s =
     (case ad_thread (adcs s a) of
        None \<Rightarrow> Done () s
      | Some tp \<Rightarrow> chSchWakeupS tp RDY_RESET (upd_adc a (\<lambda>d. d\<lparr>ad_thread := None\<rparr>) s))"

definition adc_wakeup_isr :: "nat \<Rightarrow> 'x hal_scheme \<Rightarrow> ('x, unit) hout" where
  "adc_wakeup_isr a s = adc_ready a RDY_OK s"

definition adc_timeout_isr :: "nat \<Rightarrow> 'x hal_scheme \<Rightarrow> ('x, unit) hout" where
  "adc_timeout_isr a s = adc_ready a RDY_TIMEOUT s"

definition adcStopConversion :: "nat \<Rightarrow> 'x hal_scheme \<Rightarrow> ('x, unit) hout" where
  "adcStopConversion a s =
     (if ad_state (adcs s a) \<noteq> ADC_READY
      then adc_reset_s a (upd_adc a (\<lambda>d. (adc_lld_stop_conversion d)\<lparr>ad_grpp := None, ad_state := ADC_READY\<rparr>) s)
      else Done () s)"

definition adcStopConversionI :: "nat \<Rightarrow> 'x hal_scheme \<Rightarrow> ('x, unit) hout" where
  "adcStopConversionI a s =
     (if ad_state (adcs s a) \<noteq> ADC_READY
      then adc_reset_i a (upd_adc a (\<lambda>d. (adc_lld_stop_conversion d)\<lparr>ad_grpp := None, ad_state := ADC_READY\<rparr>) s)
      else Done () s)"

definition adcConvert :: "nat \<Rightarrow> adcgroup \<Rightarrow> nat \<Rightarrow> nat \<Rightarrow> 'x hal_scheme \<Rightarrow> ('x, msg) hout" where
  "adcConvert a grpp samples depth s =
     obind (adcStartConversionI a grpp samples depth s) (\<lambda>_ s1.
     obind (chSchGoSleepS THD_STATE_SUSPENDED (upd_adc a (\<lambda>d. d\<lparr>ad_thread := Some (currp s1)\<rparr>) s1)) (\<lambda>_ s2.
     Done (rdymsg (p_u (cur s2))) s2))"

definition adcAcquireBus :: "nat \<Rightarrow> 'x hal_scheme \<Rightarrow> ('x, unit) hout" where
  "adcAcquireBus a s = chMtxLock (ad_mutex (adcs s a)) s"

definition adcReleaseBus :: "nat \<Rightarrow> 'x hal_scheme \<Rightarrow> ('x, unit) hout" where
  "adcReleaseBus a s = obind (chMtxUnlock s) (\<lambda>_ s1. Done () s1)"

section \<open>Interrupts\<close>

definition adc_isr_half_code :: "'x adc_end \<Rightarrow> nat \<Rightarrow> 'x hal_scheme \<Rightarrow> ('x, unit) hout" where
  "adc_isr_half_code ecb a s =
     (case (ad_grpp (adcs s a), ad_samples (adcs s a)) of
        (Some g, Some p) \<Rightarrow> (case ag_end_cb g of
            None \<Rightarrow> Done () s | Some f \<Rightarrow> ecb f a p 0 (ad_depth (adcs s a) div 2) s)
      | _ \<Rightarrow> Fault)"

text \<open>The end of the buffer: the callback gets its second half, or all of a buffer of depth one.\<close>

definition adc_full_callback :: "'x adc_end \<Rightarrow> adcfn \<Rightarrow> adcgroup \<Rightarrow> nat \<Rightarrow> nat \<Rightarrow> 'x hal_scheme \<Rightarrow> ('x, unit) hout" where
  "adc_full_callback ecb f g a p s =
     (let depth = ad_depth (adcs s a) in
      if depth > 1 then (let half = depth div 2; half_index = half * ag_num_channels g in ecb f a p half_index half s)
      else ecb f a p 0 depth s)"

definition adc_isr_full_code :: "'x adc_end \<Rightarrow> nat \<Rightarrow> 'x hal_scheme \<Rightarrow> ('x, unit) hout" where
  "adc_isr_full_code ecb a s =
     (case (ad_grpp (adcs s a), ad_samples (adcs s a)) of
        (Some g, Some p) \<Rightarrow>
          if ag_circular g then
            (case ag_end_cb g of None \<Rightarrow> Done () s | Some f \<Rightarrow> adc_full_callback ecb f g a p s)
          else
            (let s1 = upd_adc a adc_lld_stop_conversion s in
             obind (case ag_end_cb g of
                      None \<Rightarrow> Done () (upd_adc a (\<lambda>d. d\<lparr>ad_state := ADC_READY\<rparr>) s1)
                    | Some f \<Rightarrow>
                        obind (adc_full_callback ecb f g a p (upd_adc a (\<lambda>d. d\<lparr>ad_state := ADC_COMPLETE\<rparr>) s1)) (\<lambda>_ s2.
                        Done () (if ad_state (adcs s2 a) = ADC_COMPLETE
                                 then upd_adc a (\<lambda>d. d\<lparr>ad_state := ADC_READY\<rparr>) s2 else s2))) (\<lambda>_ s3.
             adc_wakeup_isr a (upd_adc a (\<lambda>d. d\<lparr>ad_grpp := None\<rparr>) s3)))
      | _ \<Rightarrow> Fault)"

definition adc_isr_error_code :: "'x adc_err \<Rightarrow> nat \<Rightarrow> int \<Rightarrow> 'x hal_scheme \<Rightarrow> ('x, unit) hout" where
  "adc_isr_error_code rcb a err s =
     (let s1 = upd_adc a adc_lld_stop_conversion s in
      case ad_grpp (adcs s1 a) of
        None \<Rightarrow> Fault
      | Some g \<Rightarrow>
          obind (case ag_error_cb g of
                   None \<Rightarrow> Done () s1
                 | Some f \<Rightarrow>
                     obind (rcb f a err (upd_adc a (\<lambda>d. d\<lparr>ad_state := ADC_ERROR\<rparr>) s1)) (\<lambda>_ s2.
                     Done () (if ad_state (adcs s2 a) = ADC_ERROR
                              then upd_adc a (\<lambda>d. d\<lparr>ad_state := ADC_READY\<rparr>) s2 else s2))) (\<lambda>_ s3.
          adc_timeout_isr a (upd_adc a (\<lambda>d. d\<lparr>ad_grpp := None\<rparr>) s3)))"

definition adc_lld_serve_rx_interrupt :: "'x adc_end \<Rightarrow> 'x adc_err \<Rightarrow> nat \<Rightarrow> 32 word \<Rightarrow> 'x hal_scheme \<Rightarrow> ('x, unit) hout" where
  "adc_lld_serve_rx_interrupt ecb rcb a flags s =
     (if flags AND (STM32_DMA_ISR_TEIF OR STM32_DMA_ISR_DMEIF) \<noteq> 0
      then adc_isr_error_code rcb a ADC_ERR_DMAFAILURE s
      else if ad_grpp (adcs s a) \<noteq> None then
        obind (if flags AND STM32_DMA_ISR_HTIF \<noteq> 0 then adc_isr_half_code ecb a s else Done () s) (\<lambda>_ s1.
        if flags AND STM32_DMA_ISR_TCIF \<noteq> 0 then adc_isr_full_code ecb a s1 else Done () s1)
      else Done () s)"

definition ADC1_2_3_IRQHandler :: "'x adc_err \<Rightarrow> 32 word \<Rightarrow> 'x hal_scheme \<Rightarrow> ('x, unit) hout" where
  "ADC1_2_3_IRQHandler rcb sr s =
     (let s1 = upd_adc ADCD1 (\<lambda>d. d\<lparr>a_SR := 0\<rparr>) s in
      obind (if sr AND ADC_SR_OVR \<noteq> 0 \<and> dmaStreamGetTransactionSize (ad_dma (adcs s1 ADCD1)) > 0 \<and>
                ad_grpp (adcs s1 ADCD1) \<noteq> None
             then adc_isr_error_code rcb ADCD1 ADC_ERR_OVERFLOW s1 else Done () s1) (\<lambda>_ s2.
      port_irq_epilogue s2))"

section \<open>Waiting and waking\<close>

lemma upd_adc_fields [simp]:
  "adcs (upd_adc a f s) = (adcs s)(a := f (adcs s a))" "kernel.truncate (upd_adc a f s) = kernel.truncate s"
  "upd_adc a g (upd_adc a f s) = upd_adc a (\<lambda>d. g (f d)) s" "gpios (upd_adc a f s) = gpios s" "adbufs (upd_adc a f s) = adbufs s"
  by (simp_all add: upd_adc_def kernel.truncate_def)

lemmas upd_adc_kernel [simp] = kernel_same[OF upd_adc_fields(2)] kinv_same[OF upd_adc_fields(2)]

interpretation adcw: suspend_resume "\<lambda>s. ad_thread (adcs s a)" "\<lambda>t. upd_adc a (\<lambda>d. d\<lparr>ad_thread := t\<rparr>)" "adc_ready a m"
  "\<lambda>_. UMsg m"
proof
  show "ad_thread (adcs s' a) = ad_thread (adcs s a)" if "kernel.more s' = kernel.more s" for s s' :: "'x hal_scheme"
    using hal_more(4)[OF that] by simp
qed (simp_all add: adc_ready_def)

text \<open>
  \<open>adcConvert\<close>: the caller sleeps while the conversion runs; a linear conversion that ends without a
  callback stops the converter, makes the driver ready and wakes the caller with \<open>RDY_OK\<close>.
\<close>

lemma adc_convert_sleeps:
  assumes "kinv s" "currp s \<noteq> idle_tid"
  shows "\<exists>s'. adcConvert a g buf n s = Switch s' (\<lambda>s2. Done (rdymsg (p_u (cur s2))) s2) \<and> kinv s' \<and>
    ad_state (adcs s' a) = ADC_ACTIVE \<and> ad_grpp (adcs s' a) = Some g \<and> ad_samples (adcs s' a) = Some buf \<and>
    ad_depth (adcs s' a) = n \<and> dma_enabled (ad_dma (adcs s' a)) \<and> ad_thread (adcs s' a) = Some (currp s) \<and>
    p_state (threads s' (currp s)) = THD_STATE_SUSPENDED"
proof -
  obtain d where d: "adc_lld_start_conversion ((adcs s a)\<lparr>ad_samples := Some buf, ad_depth := n, ad_grpp := Some g,
      ad_state := ADC_ACTIVE\<rparr>) = Some d" "ad_state d = ADC_ACTIVE" "ad_grpp d = Some g" "ad_samples d = Some buf"
      "ad_depth d = n" "dma_enabled (ad_dma d)"
    by (simp add: adc_lld_start_conversion_def Let_def dma_ops)
  let ?s = "upd_adc a (\<lambda>_. d) s"
  have "kinv ?s" "currp ?s \<noteq> idle_tid" using assms by simp_all
  from adcw.sleeps[OF this, of a] obtain s' where
    s': "chSchGoSleepS THD_STATE_SUSPENDED (upd_adc a (\<lambda>d. d\<lparr>ad_thread := Some (currp ?s)\<rparr>) ?s) = Switch s' (Done ())"
      "kinv s'" "ad_thread (adcs s' a) = Some (currp ?s)" "p_state (threads s' (currp ?s)) = THD_STATE_SUSPENDED"
      "kernel.more s' = kernel.more (upd_adc a (\<lambda>d. d\<lparr>ad_thread := Some (currp ?s)\<rparr>) ?s)" by blast
  have e: "adcStartConversionI a g buf n s = Done () ?s" using d(1) by (simp add: adcStartConversionI_def)
  have "adcConvert a g buf n s = Switch s' (\<lambda>s2. Done (rdymsg (p_u (cur s2))) s2)"
    by (simp only: adcConvert_def e s'(1) obind.simps)
  moreover have "adcs s' a = d\<lparr>ad_thread := Some (currp s)\<rparr>" unfolding hal_more(4)[OF s'(5)] by simp
  moreover have "currp ?s = currp s" by simp
  ultimately show ?thesis using s'(2-4) d(2-6) by (intro exI[of _ s']) (simp only: adcdrv.simps, simp)
qed

lemma adc_convert_ends:
  assumes "kinv s" "ad_grpp (adcs s a) = Some g" "ad_samples (adcs s a) = Some buf" "\<not> ag_circular g" "ag_end_cb g = None"
    "ad_thread (adcs s a) = Some tp" "p_state (threads s tp) = THD_STATE_SUSPENDED"
  shows "\<exists>s'. adc_lld_serve_rx_interrupt ecb rcb a STM32_DMA_ISR_TCIF s = Done () s' \<and> kinv s' \<and>
    ad_state (adcs s' a) = ADC_READY \<and> ad_grpp (adcs s' a) = None \<and> \<not> dma_enabled (ad_dma (adcs s' a)) \<and>
    ad_thread (adcs s' a) = None \<and> p_state (threads s' tp) = THD_STATE_READY \<and>
    rdymsg (p_u (threads s' tp)) = RDY_OK \<and> tp \<in> set (tq s' QReady)"
proof -
  let ?s = "upd_adc a (\<lambda>d. (adc_lld_stop_conversion d)\<lparr>ad_state := ADC_READY, ad_grpp := None\<rparr>) s"
  have w: "kinv ?s" "ad_thread (adcs ?s a) = Some tp" "p_state (threads ?s tp) = THD_STATE_SUSPENDED"
    using assms by (simp_all add: adc_lld_stop_conversion_def)
  from adcw.wake_some[OF w, of RDY_OK] obtain s' where s': "adc_ready a RDY_OK ?s = Done () s'" "kinv s'"
    "ad_thread (adcs s' a) = None" "threads s' = (threads ?s)(tp := (threads ?s tp)\<lparr>p_u := UMsg RDY_OK,
       p_state := THD_STATE_READY\<rparr>)" "tp \<in> set (tq s' QReady)"
    "kernel.more s' = kernel.more (upd_adc a (\<lambda>d. d\<lparr>ad_thread := None\<rparr>) ?s)" by blast
  have "adc_lld_serve_rx_interrupt ecb rcb a STM32_DMA_ISR_TCIF s = Done () s'"
    using s'(1) assms(2-5) by (simp add: adc_lld_serve_rx_interrupt_def adc_isr_full_code_def adc_wakeup_isr_def dma_bits)
  moreover have "adcs s' a = (adcs ?s a)\<lparr>ad_thread := None\<rparr>" unfolding hal_more(4)[OF s'(6)] by simp
  ultimately show ?thesis using s'(2,3,5)
    by (intro exI[of _ s']) (simp add: s'(4) adc_lld_stop_conversion_def dma_ops)
qed

end
