(* ===== verification/CString.thy ===== *)
theory CString
  imports Robot
begin

text \<open>
  Strings as the services use them: arrays of bytes ended by a zero byte, in the buffers of the state, and
  the functions of the C library on them. A string without its zero byte, or a write past the end of an
  array, is a \<open>Fault\<close>.
\<close>

section \<open>Arrays\<close>

definition put_byte :: "nat \<Rightarrow> nat \<Rightarrow> byte \<Rightarrow> 'x hal_scheme \<Rightarrow> 'x hal_scheme option" where
  "put_byte p i b s =
     (if i < length (bufs s p) then Some (s\<lparr>bufs := (bufs s)(p := (bufs s p)[i := b])\<rparr>) else None)"

definition store :: "nat \<Rightarrow> nat \<Rightarrow> byte \<Rightarrow> 'x hal_scheme \<Rightarrow> ('x, unit) hout" where
  "store p i b s = (case put_byte p i b s of None \<Rightarrow> Fault | Some s1 \<Rightarrow> Done () s1)"

definition load :: "nat \<Rightarrow> nat \<Rightarrow> 'x hal_scheme \<Rightarrow> ('x, byte) hout" where
  "load p i s = (if i < length (bufs s p) then Done (bufs s p ! i) s else Fault)"

section \<open>Strings\<close>

definition chars :: "string \<Rightarrow> byte list" where
  "chars x = map of_char x"

definition cstr :: "byte list \<Rightarrow> byte list option" where
  "cstr a = (if 0 \<in> set a then Some (takeWhile (\<lambda>b. b \<noteq> 0) a) else None)"

definition strlen :: "nat \<Rightarrow> 'x hal_scheme \<Rightarrow> ('x, nat) hout" where
  "strlen p s = (case cstr (bufs s p) of None \<Rightarrow> Fault | Some x \<Rightarrow> Done (length x) s)"

text \<open>\<open>strcmp(p, q) == 0\<close>.\<close>

definition streq :: "nat \<Rightarrow> nat \<Rightarrow> 'x hal_scheme \<Rightarrow> ('x, bool) hout" where
  "streq p q s = (case (cstr (bufs s p), cstr (bufs s q)) of
     (Some x, Some y) \<Rightarrow> Done (x = y) s | _ \<Rightarrow> Fault)"

definition put_string :: "nat \<Rightarrow> nat \<Rightarrow> byte list \<Rightarrow> 'x hal_scheme \<Rightarrow> ('x, unit) hout" where
  "put_string p off x s =
     (if off + length x < length (bufs s p)
      then Done () (s\<lparr>bufs := (bufs s)(p := take off (bufs s p) @ x @ 0 # drop (off + length x + 1) (bufs s p))\<rparr>)
      else Fault)"

definition strcpy :: "nat \<Rightarrow> nat \<Rightarrow> 'x hal_scheme \<Rightarrow> ('x, unit) hout" where
  "strcpy p q s = (case cstr (bufs s q) of None \<Rightarrow> Fault | Some x \<Rightarrow> put_string p 0 x s)"

definition strcat :: "nat \<Rightarrow> nat \<Rightarrow> 'x hal_scheme \<Rightarrow> ('x, unit) hout" where
  "strcat p q s = (case (cstr (bufs s p), cstr (bufs s q)) of
     (Some x, Some y) \<Rightarrow> put_string p (length x) y s | _ \<Rightarrow> Fault)"

text \<open>\<open>atoi\<close>: white space, a sign, and decimal digits up to the first other character.\<close>

definition is_space :: "byte \<Rightarrow> bool" where
  "is_space b \<longleftrightarrow> b = 32 \<or> (9 \<le> b \<and> b \<le> 13)"

definition is_digit :: "byte \<Rightarrow> bool" where
  "is_digit b \<longleftrightarrow> 48 \<le> b \<and> b \<le> 57"

fun digits_val :: "byte list \<Rightarrow> int \<Rightarrow> int" where
  "digits_val [] v = v"
| "digits_val (b # bs) v = (if is_digit b then digits_val bs (10 * v + (uint b - 48)) else v)"

definition atoi_val :: "byte list \<Rightarrow> int" where
  "atoi_val x =
     (case dropWhile is_space x of
        [] \<Rightarrow> 0
      | b # bs \<Rightarrow> if b = 45 then - digits_val bs 0 else if b = 43 then digits_val bs 0 else digits_val (b # bs) 0)"

text \<open>A number that is no \<open>int\<close> is undefined.\<close>

definition atoi :: "nat \<Rightarrow> 'x hal_scheme \<Rightarrow> ('x, int) hout" where
  "atoi p s =
     (case cstr (bufs s p) of
        None \<Rightarrow> Fault
      | Some x \<Rightarrow> if s32 (atoi_val x) = atoi_val x then Done (atoi_val x) s else Fault)"

text \<open>A string literal is where the linker put it, and there it stays.\<close>

definition lits_ok :: "'x robot_scheme \<Rightarrow> bool" where
  "lits_ok s \<longleftrightarrow> (\<forall>x. bufs s (lits s x) = chars x @ [0])"

text \<open>A string without a zero character is read back as it was written.\<close>

lemma of_char_byte_0: "(of_char c :: byte) = 0 \<longleftrightarrow> c = CHR 0x00"
proof
  assume "(of_char c :: byte) = 0"
  then have "(of_nat (of_char c) :: byte) = 0" by (simp add: of_nat_of_char)
  then have "(of_char c :: nat) mod 256 = 0" by (simp add: word_of_nat_eq_0_iff dvd_eq_mod_eq_0)
  then have "(of_char c :: nat) = 0" by (simp only: of_char_mod_256)
  then have "char_of (of_char c :: nat) = char_of (0 :: nat)" by simp
  also have "char_of (0 :: nat) = CHR 0x00" by (simp add: char_of_def)
  finally show "c = CHR 0x00" by simp
qed simp

lemma chars_nonzero: "CHR 0x00 \<notin> set x \<Longrightarrow> 0 \<notin> set (chars x)"
  by (auto simp: chars_def of_char_byte_0 dest: sym)

lemma cstr_zero: "0 \<notin> set x \<Longrightarrow> cstr (x @ 0 # r) = Some x"
  by (auto simp: cstr_def takeWhile_append2 takeWhile_tail)

lemma lit_cstr: "lits_ok s \<Longrightarrow> CHR 0x00 \<notin> set x \<Longrightarrow> cstr (bufs s (lits s x)) = Some (chars x)"
  using chars_nonzero[of x] cstr_zero[of "chars x" "[]"] by (simp add: lits_ok_def)

lemma cstr_nonzero: "cstr a = Some x \<Longrightarrow> 0 \<notin> set x"
  by (auto simp: cstr_def dest: set_takeWhileD split: if_splits)

text \<open>Copying gives the same string; concatenating, the two one after the other.\<close>

lemma put_string_cstr:
  assumes "off + length x < length (bufs s p)" "0 \<notin> set (take off (bufs s p))" "0 \<notin> set x"
  shows "\<exists>s'. put_string p off x s = Done () s' \<and> cstr (bufs s' p) = Some (take off (bufs s p) @ x) \<and>
    length (bufs s' p) = length (bufs s p) \<and> (\<forall>q. q \<noteq> p \<longrightarrow> bufs s' q = bufs s q)"
proof -
  have "0 \<notin> set (take off (bufs s p) @ x)" using assms(2,3) by simp
  from cstr_zero[OF this, of "drop (off + length x + 1) (bufs s p)"] assms(1) show ?thesis
    by (simp add: put_string_def)
qed

lemma strcat_cstr:
  assumes "cstr (bufs s p) = Some x" "cstr (bufs s q) = Some y" "length x + length y < length (bufs s p)" "q \<noteq> p"
  shows "\<exists>s'. strcat p q s = Done () s' \<and> cstr (bufs s' p) = Some (x @ y) \<and> cstr (bufs s' q) = Some y"
proof -
  have t: "take (length x) (bufs s p) = x"
    using assms(1) takeWhile_eq_take unfolding cstr_def by (metis option.distinct(1) option.inject)
  have z: "0 \<notin> set (take (length x) (bufs s p))" "0 \<notin> set y"
    using t cstr_nonzero[OF assms(1)] cstr_nonzero[OF assms(2)] by simp_all
  from put_string_cstr[OF assms(3) z] obtain s' where s': "put_string p (length x) y s = Done () s'"
      "cstr (bufs s' p) = Some (take (length x) (bufs s p) @ y)" "\<forall>r. r \<noteq> p \<longrightarrow> bufs s' r = bufs s r"
    by (elim exE conjE)
  have "bufs s' q = bufs s q" using s'(3) assms(4) by simp
  then have "cstr (bufs s' q) = Some y" using assms(2) by simp
  moreover have "strcat p q s = Done () s'" unfolding strcat_def assms(1,2) using s'(1) by simp
  moreover have "cstr (bufs s' p) = Some (x @ y)" using s'(2) unfolding t .
  ultimately show ?thesis by blast
qed

end
