(* ===== verification/Serial.thy ===== *)
theory Serial
  imports Hal
begin

text \<open>
  The serial driver, \<^verbatim>\<open>os/hal/src/serial.c\<close> and \<^verbatim>\<open>platforms/STM32/USARTv1/serial_lld.c\<close>, for the
  one port the configuration enables, \<open>SD2\<close> on \<open>USART2\<close>. The interrupt routine gets the status and data
  register that it reads as arguments; it runs to its end before any thread does.
\<close>

section \<open>Flags and registers\<close>

definition CHN_INPUT_AVAILABLE :: flagsmask where "CHN_INPUT_AVAILABLE = 4"
definition CHN_OUTPUT_EMPTY :: flagsmask where "CHN_OUTPUT_EMPTY = 8"
definition CHN_TRANSMISSION_END :: flagsmask where "CHN_TRANSMISSION_END = 16"
definition SD_PARITY_ERROR :: flagsmask where "SD_PARITY_ERROR = 32"
definition SD_FRAMING_ERROR :: flagsmask where "SD_FRAMING_ERROR = 64"
definition SD_OVERRUN_ERROR :: flagsmask where "SD_OVERRUN_ERROR = 128"
definition SD_NOISE_ERROR :: flagsmask where "SD_NOISE_ERROR = 256"
definition SD_BREAK_DETECTED :: flagsmask where "SD_BREAK_DETECTED = 512"

definition USART_SR_PE :: "16 word" where "USART_SR_PE = 0x0001"
definition USART_SR_FE :: "16 word" where "USART_SR_FE = 0x0002"
definition USART_SR_NE :: "16 word" where "USART_SR_NE = 0x0004"
definition USART_SR_ORE :: "16 word" where "USART_SR_ORE = 0x0008"
definition USART_SR_RXNE :: "16 word" where "USART_SR_RXNE = 0x0020"
definition USART_SR_TC :: "16 word" where "USART_SR_TC = 0x0040"
definition USART_SR_TXE :: "16 word" where "USART_SR_TXE = 0x0080"
definition USART_SR_LBD :: "16 word" where "USART_SR_LBD = 0x0100"
definition USART_CR1_RE :: "16 word" where "USART_CR1_RE = 0x0004"
definition USART_CR1_TE :: "16 word" where "USART_CR1_TE = 0x0008"
definition USART_CR1_RXNEIE :: "16 word" where "USART_CR1_RXNEIE = 0x0020"
definition USART_CR1_TCIE :: "16 word" where "USART_CR1_TCIE = 0x0040"
definition USART_CR1_TXEIE :: "16 word" where "USART_CR1_TXEIE = 0x0080"
definition USART_CR1_PEIE :: "16 word" where "USART_CR1_PEIE = 0x0100"
definition USART_CR1_UE :: "16 word" where "USART_CR1_UE = 0x2000"
definition USART_CR2_LBDIE :: "16 word" where "USART_CR2_LBDIE = 0x0040"
definition USART_CR2_STOP1_BITS :: "16 word" where "USART_CR2_STOP1_BITS = 0"
definition USART_CR2_LINEN :: "16 word" where "USART_CR2_LINEN = 0x4000"
definition USART_CR3_EIE :: "16 word" where "USART_CR3_EIE = 0x0001"

lemmas usart_bits = USART_SR_PE_def USART_SR_FE_def USART_SR_NE_def USART_SR_ORE_def USART_SR_RXNE_def
  USART_SR_TC_def USART_SR_TXE_def USART_SR_LBD_def USART_CR1_RE_def USART_CR1_TE_def USART_CR1_RXNEIE_def
  USART_CR1_TCIE_def USART_CR1_TXEIE_def USART_CR1_PEIE_def USART_CR1_UE_def USART_CR2_LBDIE_def
  USART_CR2_STOP1_BITS_def USART_CR2_LINEN_def USART_CR3_EIE_def

definition STM32_PCLK1 :: "32 word" where "STM32_PCLK1 = 42000000"
definition SD2 :: nat where "SD2 = 0"

record serialconfig =
  sc_speed :: "32 word"
  sc_cr1 :: "16 word"
  sc_cr2 :: "16 word"
  sc_cr3 :: "16 word"

definition set_sd :: "nat \<Rightarrow> serialdrv \<Rightarrow> 'x hal_scheme \<Rightarrow> 'x hal_scheme" where
  "set_sd sdp d s = s\<lparr>sds := (sds s)(sdp := d)\<rparr>"

definition upd_usart :: "nat \<Rightarrow> (usart \<Rightarrow> usart) \<Rightarrow> 'x hal_scheme \<Rightarrow> 'x hal_scheme" where
  "upd_usart sdp f s = set_sd sdp ((sds s sdp)\<lparr>sd_usart := f (sd_usart (sds s sdp))\<rparr>) s"

definition chnAddFlagsI :: "nat \<Rightarrow> flagsmask \<Rightarrow> 'x hal_scheme \<Rightarrow> ('x, unit) hout" where
  "chnAddFlagsI sdp flags s = chEvtBroadcastFlagsI (sd_event (sds s sdp)) flags s"

definition chnGetEventSource :: "nat \<Rightarrow> 'x hal_scheme \<Rightarrow> nat" where
  "chnGetEventSource sdp s = sd_event (sds s sdp)"

section \<open>The low level driver\<close>

text \<open>\<open>BRR\<close> has 16 bits; a speed of zero would divide by zero.\<close>

definition default_config :: serialconfig where
  "default_config = \<lparr>sc_speed = 38400, sc_cr1 = 0, sc_cr2 = USART_CR2_STOP1_BITS OR USART_CR2_LINEN, sc_cr3 = 0\<rparr>"

definition usart_init :: "serialconfig \<Rightarrow> usart \<Rightarrow> usart option" where
  "usart_init c u =
     (if sc_speed c = 0 then None
      else Some (u\<lparr>u_BRR := ucast (STM32_PCLK1 div sc_speed c),
        u_CR2 := sc_cr2 c OR USART_CR2_LBDIE,
        u_CR3 := sc_cr3 c OR USART_CR3_EIE,
        u_CR1 := sc_cr1 c OR USART_CR1_UE OR USART_CR1_PEIE OR USART_CR1_RXNEIE OR USART_CR1_TE OR USART_CR1_RE,
        u_SR := 0\<rparr>))"

definition usart_deinit :: "usart \<Rightarrow> usart" where
  "usart_deinit u = u\<lparr>u_CR1 := 0, u_CR2 := 0, u_CR3 := 0\<rparr>"

definition set_error :: "nat \<Rightarrow> 16 word \<Rightarrow> 'x hal_scheme \<Rightarrow> ('x, unit) hout" where
  "set_error sdp sr s =
     chnAddFlagsI sdp
       ((if sr AND USART_SR_ORE \<noteq> 0 then SD_OVERRUN_ERROR else 0) OR
        (if sr AND USART_SR_PE \<noteq> 0 then SD_PARITY_ERROR else 0) OR
        (if sr AND USART_SR_FE \<noteq> 0 then SD_FRAMING_ERROR else 0) OR
        (if sr AND USART_SR_NE \<noteq> 0 then SD_NOISE_ERROR else 0)) s"

text \<open>The notification of the output queue: the transmitter's interrupt is enabled.\<close>

definition notify2 :: "nat \<Rightarrow> 'x hal_scheme \<Rightarrow> ('x, unit) hout" where
  "notify2 qp s = Done () (upd_usart SD2 (\<lambda>u. u\<lparr>u_CR1 := u_CR1 u OR USART_CR1_TXEIE\<rparr>) s)"

section \<open>The driver\<close>

text \<open>Enabling the clock and the interrupt vector of the port is not modelled.\<close>

definition sd_lld_start :: "nat \<Rightarrow> serialconfig option \<Rightarrow> 'x hal_scheme \<Rightarrow> ('x, unit) hout" where
  "sd_lld_start sdp config s =
     (let c = (case config of None \<Rightarrow> default_config | Some c \<Rightarrow> c) in
      case usart_init c (sd_usart (sds s sdp)) of
        None \<Rightarrow> Fault
      | Some u \<Rightarrow> Done () (upd_usart sdp (\<lambda>_. u) s))"

definition sd_lld_stop :: "nat \<Rightarrow> 'x hal_scheme \<Rightarrow> 'x hal_scheme" where
  "sd_lld_stop sdp s = (if sd_state (sds s sdp) = SD_READY then upd_usart sdp usart_deinit s else s)"

text \<open>\<open>ib\<close> and \<open>ob\<close> are the two arrays of the driver; \<open>inotify\<close> is \<open>NULL\<close> for every port.\<close>

definition sdObjectInit :: "nat \<Rightarrow> byte list \<Rightarrow> byte list \<Rightarrow> bool \<Rightarrow> bool \<Rightarrow> 'x hal_scheme \<Rightarrow> 'x hal_scheme" where
  "sdObjectInit sdp ib ob inotify onotify s =
     (let s1 = chEvtInit (sd_event (sds s sdp)) s;
          s2 = set_sd sdp ((sds s1 sdp)\<lparr>sd_state := SD_STOP\<rparr>) s1;
          s3 = chIQInit (sd_iqueue (sds s2 sdp)) ib inotify s2
      in chOQInit (sd_oqueue (sds s3 sdp)) ob onotify s3)"

definition sd_lld_init :: "byte list \<Rightarrow> byte list \<Rightarrow> 'x hal_scheme \<Rightarrow> 'x hal_scheme" where
  "sd_lld_init ib ob s = sdObjectInit SD2 ib ob False True s"

definition sdInit :: "byte list \<Rightarrow> byte list \<Rightarrow> 'x hal_scheme \<Rightarrow> 'x hal_scheme" where
  "sdInit ib ob s = sd_lld_init ib ob s"

definition sdStart :: "nat \<Rightarrow> serialconfig option \<Rightarrow> 'x hal_scheme \<Rightarrow> ('x, unit) hout" where
  "sdStart sdp config s =
     obind (sd_lld_start sdp config s) (\<lambda>_ s1. Done () (set_sd sdp ((sds s1 sdp)\<lparr>sd_state := SD_READY\<rparr>) s1))"

definition sdStop :: "nat \<Rightarrow> 'x hal_scheme \<Rightarrow> ('x, unit) hout" where
  "sdStop sdp s =
     (let s1 = sd_lld_stop sdp s;
          s2 = set_sd sdp ((sds s1 sdp)\<lparr>sd_state := SD_STOP\<rparr>) s1
      in obind (chOQResetI (sd_oqueue (sds s2 sdp)) s2) (\<lambda>_ s3.
         obind (chIQResetI (sd_iqueue (sds s3 sdp)) s3) (\<lambda>_ s4. chSchRescheduleS s4)))"

definition sdIncomingDataI :: "nat \<Rightarrow> byte \<Rightarrow> 'x hal_scheme \<Rightarrow> ('x, unit) hout" where
  "sdIncomingDataI sdp b s =
     obind (if chIQIsEmptyI (gqs s (sd_iqueue (sds s sdp))) then chnAddFlagsI sdp CHN_INPUT_AVAILABLE s else Done () s) (\<lambda>_ s1.
     obind (chIQPutI (sd_iqueue (sds s1 sdp)) b s1) (\<lambda>r s2.
     if r < Q_OK then chnAddFlagsI sdp SD_OVERRUN_ERROR s2 else Done () s2))"

definition sdRequestDataI :: "nat \<Rightarrow> 'x hal_scheme \<Rightarrow> ('x, msg) hout" where
  "sdRequestDataI sdp s =
     obind (chOQGetI (sd_oqueue (sds s sdp)) s) (\<lambda>b s1.
     obind (if b < Q_OK then chnAddFlagsI sdp CHN_OUTPUT_EMPTY s1 else Done () s1) (\<lambda>_ s2. Done b s2))"

text \<open>
  The interrupt routine. \<open>cr1\<close> is read once, at the start; the two writes to \<open>CR1\<close> are made from
  that value.
\<close>

definition serve_interrupt :: "nat \<Rightarrow> 16 word \<Rightarrow> 16 word \<Rightarrow> 'x hal_scheme \<Rightarrow> ('x, unit) hout" where
  "serve_interrupt sdp sr dr s0 =
     (let s = upd_usart sdp (\<lambda>u. u\<lparr>u_SR := sr\<rparr>) s0; cr1 = u_CR1 (sd_usart (sds s sdp)) in
      obind (if sr AND (USART_SR_ORE OR USART_SR_NE OR USART_SR_FE OR USART_SR_PE) \<noteq> 0
             then set_error sdp sr s else Done () s) (\<lambda>_ s1.
      obind (if sr AND USART_SR_LBD \<noteq> 0
             then obind (chnAddFlagsI sdp SD_BREAK_DETECTED s1) (\<lambda>_ s2.
                  Done () (upd_usart sdp (\<lambda>u. u\<lparr>u_SR := u_SR u AND NOT USART_SR_LBD\<rparr>) s2))
             else Done () s1) (\<lambda>_ s2.
      obind (if sr AND USART_SR_RXNE \<noteq> 0 then sdIncomingDataI sdp (ucast dr) s2 else Done () s2) (\<lambda>_ s3.
      obind (if cr1 AND USART_CR1_TXEIE \<noteq> 0 \<and> sr AND USART_SR_TXE \<noteq> 0
             then obind (chOQGetI (sd_oqueue (sds s3 sdp)) s3) (\<lambda>b s4.
                  if b < Q_OK
                  then obind (chnAddFlagsI sdp CHN_OUTPUT_EMPTY s4) (\<lambda>_ s5.
                       Done () (upd_usart sdp (\<lambda>u. u\<lparr>u_CR1 := (cr1 AND NOT USART_CR1_TXEIE) OR USART_CR1_TCIE\<rparr>) s5))
                  else Done () (upd_usart sdp (\<lambda>u. u\<lparr>u_DR := word_of_int b\<rparr>) s4))
             else Done () s3) (\<lambda>_ s4.
      if sr AND USART_SR_TC \<noteq> 0
      then obind (chnAddFlagsI sdp CHN_TRANSMISSION_END s4) (\<lambda>_ s5.
           Done () (upd_usart sdp (\<lambda>u. u\<lparr>u_CR1 := cr1 AND NOT USART_CR1_TCIE, u_SR := u_SR u AND NOT USART_SR_TC\<rparr>) s5))
      else Done () s4)))))"

definition STM32_USART2_HANDLER :: "16 word \<Rightarrow> 16 word \<Rightarrow> 'x hal_scheme \<Rightarrow> ('x, unit) hout" where
  "STM32_USART2_HANDLER sr dr s = obind (serve_interrupt SD2 sr dr s) (\<lambda>_ s1. port_irq_epilogue s1)"

text \<open>The channel methods and the direct macros over them.\<close>

definition serial_write :: "nat \<Rightarrow> nat \<Rightarrow> byte list \<Rightarrow> systime \<Rightarrow> 'x hal_scheme \<Rightarrow> ('x, nat) hout" where
  "serial_write fuel sdp bs time s = chOQWriteTimeout notify2 fuel (sd_oqueue (sds s sdp)) bs time s"

definition serial_read :: "nat \<Rightarrow> nat \<Rightarrow> nat \<Rightarrow> systime \<Rightarrow> 'x hal_scheme \<Rightarrow> ('x, byte list) hout" where
  "serial_read fuel sdp n time s = chIQReadTimeout (\<lambda>_. Done ()) fuel (sd_iqueue (sds s sdp)) n time s"

definition sdWrite :: "nat \<Rightarrow> nat \<Rightarrow> byte list \<Rightarrow> 'x hal_scheme \<Rightarrow> ('x, nat) hout" where
  "sdWrite fuel sdp bs s = serial_write fuel sdp bs TIME_INFINITE s"

definition sdRead :: "nat \<Rightarrow> nat \<Rightarrow> nat \<Rightarrow> 'x hal_scheme \<Rightarrow> ('x, byte list) hout" where
  "sdRead fuel sdp n s = serial_read fuel sdp n TIME_INFINITE s"

definition sdPutTimeout :: "nat \<Rightarrow> nat \<Rightarrow> byte \<Rightarrow> systime \<Rightarrow> 'x hal_scheme \<Rightarrow> ('x, msg) hout" where
  "sdPutTimeout fuel sdp b time s = chOQPutTimeout notify2 fuel (sd_oqueue (sds s sdp)) b time s"

definition sdPut :: "nat \<Rightarrow> nat \<Rightarrow> byte \<Rightarrow> 'x hal_scheme \<Rightarrow> ('x, msg) hout" where
  "sdPut fuel sdp b s = sdPutTimeout fuel sdp b TIME_INFINITE s"

definition sdGetTimeout :: "nat \<Rightarrow> nat \<Rightarrow> systime \<Rightarrow> 'x hal_scheme \<Rightarrow> ('x, msg) hout" where
  "sdGetTimeout fuel sdp time s = chIQGetTimeout (\<lambda>_. Done ()) fuel (sd_iqueue (sds s sdp)) time s"

definition sdGet :: "nat \<Rightarrow> nat \<Rightarrow> 'x hal_scheme \<Rightarrow> ('x, msg) hout" where
  "sdGet fuel sdp s = sdGetTimeout fuel sdp TIME_INFINITE s"

definition sdPutWouldBlock :: "nat \<Rightarrow> 'x hal_scheme \<Rightarrow> bool" where
  "sdPutWouldBlock sdp s = chOQIsFullI (gqs s (sd_oqueue (sds s sdp)))"

definition sdGetWouldBlock :: "nat \<Rightarrow> 'x hal_scheme \<Rightarrow> bool" where
  "sdGetWouldBlock sdp s = chIQIsEmptyI (gqs s (sd_iqueue (sds s sdp)))"

section \<open>Receiving\<close>

lemma iq_empty_iff: "chIQIsEmptyI q \<longleftrightarrow> iq_content q = []"
  by (simp add: chIQIsEmptyI_def chQSpaceI_def iq_content_def flip: length_0_conv)

lemma add_flags:
  assumes "kinv s"
  shows "\<exists>s'. chnAddFlagsI sdp flags s = Done () s' \<and> kinv s' \<and> currp s' = currp s \<and>
    els s' = flagged (es_next s (sd_event (sds s sdp))) flags (els s) \<and> gqs s' = gqs s \<and> es_next s' = es_next s \<and>
    kernel.more s' = kernel.more s \<and> (\<forall>q. q \<noteq> QReady \<longrightarrow> tq s' q = tq s q)"
proof -
  from broadcast_flags[OF assms, of "sd_event (sds s sdp)" flags] obtain s' where
    s': "chEvtBroadcastFlagsI (sd_event (sds s sdp)) flags s = Done () s'" "kinv s'" "currp s' = currp s"
      "els s' = flagged (es_next s (sd_event (sds s sdp))) flags (els s)" "frame_but {QReady} (s\<lparr>els := els s'\<rparr>) s'"
    by blast
  then show ?thesis by (intro exI[of _ s']) (simp add: chnAddFlagsI_def frame_but_def)
qed

text \<open>
  A received byte is appended when there is room, and the listeners are told only when the queue was
  empty; on a full queue it is dropped and the listeners are told of the overrun.
\<close>

lemma incoming:
  assumes "kinv s" "iq_ok (gqs s iq)" "iq = sd_iqueue (sds s sdp)" "ls = es_next s (sd_event (sds s sdp))"
  shows "\<exists>s'. sdIncomingDataI sdp b s = Done () s' \<and> kinv s' \<and> currp s' = currp s \<and> iq_ok (gqs s' iq) \<and>
    iq_content (gqs s' iq) = (if chIQIsFullI (gqs s iq) then iq_content (gqs s iq) else iq_content (gqs s iq) @ [b]) \<and>
    els s' = (if iq_content (gqs s iq) = [] then flagged ls CHN_INPUT_AVAILABLE (els s)
              else if chIQIsFullI (gqs s iq) then flagged ls SD_OVERRUN_ERROR (els s) else els s) \<and>
    kernel.more s' = kernel.more s \<and> es_next s' = es_next s \<and> (\<forall>j. j \<noteq> iq \<longrightarrow> gqs s' j = gqs s j)"
proof (cases "chIQIsFullI (gqs s iq)")
  case True
  have ne: "iq_content (gqs s iq) \<noteq> []"
    using True iq_full_iff[OF assms(2)] gq_nonempty assms(2) by (auto simp: iq_ok_def)
  then have e: "\<not> chIQIsEmptyI (gqs s iq)" by (simp add: iq_empty_iff)
  have p: "chIQPutI iq b s = Done Q_FULL s" using True by (simp add: chIQPutI_def)
  from add_flags[OF assms(1), of sdp SD_OVERRUN_ERROR] obtain s' where
    s': "chnAddFlagsI sdp SD_OVERRUN_ERROR s = Done () s'" "kinv s'" "currp s' = currp s"
      "els s' = flagged ls SD_OVERRUN_ERROR (els s)" "gqs s' = gqs s" "es_next s' = es_next s" "kernel.more s' = kernel.more s"
    unfolding assms(4) by blast
  have "sdIncomingDataI sdp b s = Done () s'"
    using e p s'(1) assms(3) by (simp add: sdIncomingDataI_def Q_FULL_def Q_OK_def RDY_OK_def)
  then show ?thesis using s' ne True assms(2) by (intro exI[of _ s']) simp
next
  case False
  obtain s1 where s1: "(if chIQIsEmptyI (gqs s iq) then chnAddFlagsI sdp CHN_INPUT_AVAILABLE s else Done () s) = Done () s1"
    "kinv s1" "currp s1 = currp s" "els s1 = (if iq_content (gqs s iq) = [] then flagged ls CHN_INPUT_AVAILABLE (els s) else els s)"
    "gqs s1 = gqs s" "es_next s1 = es_next s" "kernel.more s1 = kernel.more s"
  proof (cases "iq_content (gqs s iq) = []")
    case True
    then have e: "chIQIsEmptyI (gqs s iq)" by (simp add: iq_empty_iff)
    from add_flags[OF assms(1), of sdp CHN_INPUT_AVAILABLE] obtain s2 where
      "chnAddFlagsI sdp CHN_INPUT_AVAILABLE s = Done () s2" "kinv s2" "currp s2 = currp s"
      "els s2 = flagged ls CHN_INPUT_AVAILABLE (els s)" "gqs s2 = gqs s" "es_next s2 = es_next s"
      "kernel.more s2 = kernel.more s" unfolding assms(4) by blast
    then show ?thesis using e True by (intro that[of s2]) simp_all
  next
    case False
    then have "\<not> chIQIsEmptyI (gqs s iq)" by (simp add: iq_empty_iff)
    then show ?thesis using False assms(1) by (intro that[of s]) simp_all
  qed
  have ok: "iq_ok (gqs s1 iq)" "\<not> chIQIsFullI (gqs s1 iq)" using s1(5) assms(2) False by simp_all
  from iq_putI[OF s1(2) ok(1), of b] ok(2) obtain q' s' where
    s': "chIQPutI iq b s1 = Done Q_OK s'" "kinv s'" "gqs s' = (gqs s1)(iq := q')" "iq_ok q'"
      "iq_content q' = iq_content (gqs s1 iq) @ [b]" "currp s' = currp s1"
    unfolding if_not_P[OF ok(2)] by blast
  note f = iq_putI_frame[OF s1(2) s'(1)]
  have g: "els s' = els s1" "es_next s' = es_next s1" "kernel.more s' = kernel.more s1"
    using f by (simp_all add: frame_but_def)
  have iq1: "sd_iqueue (sds s1 sdp) = iq" using hal_more(2)[OF s1(7)] assms(3) by simp
  have "sdIncomingDataI sdp b s = Done () s'"
    using s1(1) s'(1) iq1 assms(3) by (simp add: sdIncomingDataI_def Q_OK_def RDY_OK_def)
  then show ?thesis using s' g s1 False by (intro exI[of _ s']) simp
qed

section \<open>Transmitting\<close>

lemma upd_usart_fields [simp]:
  "sd_iqueue (sds (upd_usart p f s) sdp) = sd_iqueue (sds s sdp)" "sd_oqueue (sds (upd_usart p f s) sdp) = sd_oqueue (sds s sdp)"
  "sd_event (sds (upd_usart p f s) sdp) = sd_event (sds s sdp)" "gqs (upd_usart p f s) = gqs s" "currp (upd_usart p f s) = currp s"
  "els (upd_usart p f s) = els s" "es_next (upd_usart p f s) = es_next s" "tq (upd_usart p f s) = tq s" "threads (upd_usart p f s) = threads s"
  "s_cnt (upd_usart p f s) = s_cnt s"
  "sd_usart (sds (upd_usart p f s) sdp) = (if sdp = p then f (sd_usart (sds s sdp)) else sd_usart (sds s sdp))"
  by (auto simp: upd_usart_def set_sd_def)

lemma kinv_upd_usart [simp]: "kinv (upd_usart p f s) = kinv s"
proof -
  have "sched_inv (upd_usart p f s) = sched_inv s" by (rule sched_but_cong) (simp_all add: prio_def fun_eq_iff)
  then show ?thesis by (simp add: kinv_def sem_ok_def)
qed

text \<open>
  An interrupt for the transmitter alone: the oldest byte of the output queue goes to the data register;
  with none left the listeners are told, and the transmitter's interrupt is turned off, but only if
  the end of the transmission is not served in the same interrupt.
\<close>

lemma serve_transmit:
  fixes s :: "'x hal_scheme"
  assumes "kinv s" "oq_ok (gqs s oq)" "oq = sd_oqueue (sds s sdp)" "ls = es_next s (sd_event (sds s sdp))"
    "cr1 = u_CR1 (sd_usart (sds s sdp))" "cr1 AND USART_CR1_TXEIE \<noteq> 0"
    "sr = USART_SR_TXE \<or> sr = USART_SR_TXE OR USART_SR_TC"
  shows "\<exists>s'. serve_interrupt sdp sr dr s = Done () s' \<and> kinv s' \<and> currp s' = currp s \<and> oq_ok (gqs s' oq) \<and>
    (case oq_content (gqs s oq) of
       [] \<Rightarrow> oq_content (gqs s' oq) = [] \<and>
         (if sr AND USART_SR_TC = 0
          then els s' = flagged ls CHN_OUTPUT_EMPTY (els s) \<and>
            u_CR1 (sd_usart (sds s' sdp)) = (cr1 AND NOT USART_CR1_TXEIE) OR USART_CR1_TCIE
          else els s' = flagged ls CHN_TRANSMISSION_END (flagged ls CHN_OUTPUT_EMPTY (els s)) \<and>
            u_CR1 (sd_usart (sds s' sdp)) = cr1 AND NOT USART_CR1_TCIE)
     | b # bs \<Rightarrow> oq_content (gqs s' oq) = bs \<and> u_DR (sd_usart (sds s' sdp)) = ucast b \<and>
         u_CR1 (sd_usart (sds s' sdp)) = (if sr AND USART_SR_TC = 0 then cr1 else cr1 AND NOT USART_CR1_TCIE)) \<and>
    sd_oqueue (sds s' sdp) = oq"
proof -
  let ?s = "upd_usart sdp (\<lambda>u. u\<lparr>u_SR := sr\<rparr>) s"
  have bits: "sr AND (USART_SR_ORE OR USART_SR_NE OR USART_SR_FE OR USART_SR_PE) = 0" "sr AND USART_SR_LBD = 0"
    "sr AND USART_SR_RXNE = 0" "sr AND USART_SR_TXE \<noteq> 0"
    using assms(7) by (auto simp: usart_bits)
  have k: "kinv ?s" "oq_ok (gqs ?s oq)" using assms(1,2) by simp_all
  define tail :: "'x hal_scheme \<Rightarrow> ('x, unit) hout" where "tail = (\<lambda>s4. if sr AND USART_SR_TC \<noteq> 0
      then obind (chnAddFlagsI sdp CHN_TRANSMISSION_END s4) (\<lambda>_ s5.
           Done () (upd_usart sdp (\<lambda>u. u\<lparr>u_CR1 := cr1 AND NOT USART_CR1_TCIE, u_SR := u_SR u AND NOT USART_SR_TC\<rparr>) s5))
      else Done () s4)"
  have tl: "\<exists>s'. tail s4 = Done () s' \<and> kinv s' \<and> currp s' = currp s4 \<and> gqs s' = gqs s4 \<and>
      els s' = (if sr AND USART_SR_TC = 0 then els s4 else flagged (es_next s4 (sd_event (sds s4 sdp))) CHN_TRANSMISSION_END (els s4)) \<and>
      u_DR (sd_usart (sds s' sdp)) = u_DR (sd_usart (sds s4 sdp)) \<and>
      u_CR1 (sd_usart (sds s' sdp)) = (if sr AND USART_SR_TC = 0 then u_CR1 (sd_usart (sds s4 sdp)) else cr1 AND NOT USART_CR1_TCIE) \<and>
      sd_oqueue (sds s' sdp) = sd_oqueue (sds s4 sdp)"
    if k4: "kinv s4" for s4
  proof (cases "sr AND USART_SR_TC = 0")
    case True
    then show ?thesis using k4 by (simp add: tail_def)
  next
    case False
    from add_flags[OF k4, of sdp CHN_TRANSMISSION_END] obtain s5 where
      s5: "chnAddFlagsI sdp CHN_TRANSMISSION_END s4 = Done () s5" "kinv s5" "currp s5 = currp s4"
        "els s5 = flagged (es_next s4 (sd_event (sds s4 sdp))) CHN_TRANSMISSION_END (els s4)" "gqs s5 = gqs s4"
        "kernel.more s5 = kernel.more s4" by blast
    then show ?thesis using False hal_more(2)[OF s5(6)] by (simp add: tail_def)
  qed
  have e: "serve_interrupt sdp sr dr s = obind (chOQGetI oq ?s) (\<lambda>b s4. obind (if b < Q_OK
                  then obind (chnAddFlagsI sdp CHN_OUTPUT_EMPTY s4) (\<lambda>_ s5.
                       Done () (upd_usart sdp (\<lambda>u. u\<lparr>u_CR1 := (cr1 AND NOT USART_CR1_TXEIE) OR USART_CR1_TCIE\<rparr>) s5))
                  else Done () (upd_usart sdp (\<lambda>u. u\<lparr>u_DR := word_of_int b\<rparr>) s4)) (\<lambda>_. tail))"
    using bits assms(3,5,6) by (simp add: serve_interrupt_def Let_def tail_def obind_assoc cong: if_cong)
  show ?thesis
  proof (cases "oq_content (gqs s oq)")
    case Nil
    then have g: "chOQGetI oq ?s = Done Q_EMPTY ?s" using oq_getI(1)[OF k] by simp
    from add_flags[OF k(1), of sdp CHN_OUTPUT_EMPTY] obtain s5 where
      s5: "chnAddFlagsI sdp CHN_OUTPUT_EMPTY ?s = Done () s5" "kinv s5" "currp s5 = currp s"
        "els s5 = flagged ls CHN_OUTPUT_EMPTY (els s)" "gqs s5 = gqs s" "es_next s5 = es_next s"
        "kernel.more s5 = kernel.more ?s" unfolding assms(4) by auto
    let ?s6 = "upd_usart sdp (\<lambda>u. u\<lparr>u_CR1 := (cr1 AND NOT USART_CR1_TXEIE) OR USART_CR1_TCIE\<rparr>) s5"
    have ev: "es_next ?s6 (sd_event (sds ?s6 sdp)) = ls" using s5(6) hal_more(2)[OF s5(7)] assms(4) by simp
    have "kinv ?s6" using s5(2) by simp
    from tl[OF this] obtain s' where s': "tail ?s6 = Done () s'" "kinv s'" "currp s' = currp ?s6" "gqs s' = gqs ?s6"
      "els s' = (if sr AND USART_SR_TC = 0 then els ?s6 else flagged ls CHN_TRANSMISSION_END (els ?s6))"
      "u_CR1 (sd_usart (sds s' sdp)) = (if sr AND USART_SR_TC = 0 then u_CR1 (sd_usart (sds ?s6 sdp)) else cr1 AND NOT USART_CR1_TCIE)"
      "sd_oqueue (sds s' sdp) = sd_oqueue (sds ?s6 sdp)"
      unfolding ev by blast
    have "serve_interrupt sdp sr dr s = Done () s'"
      using s'(1) s5(1) g by (simp add: e Q_EMPTY_def Q_OK_def RDY_OK_def)
    then show ?thesis using s' s5 Nil assms(2,3) hal_more(2)[OF s5(7)] by (intro exI[of _ s']) simp
  next
    case (Cons b bs)
    then have "oq_content (gqs ?s oq) = b # bs" by simp
    from oq_getI(2)[OF k this] obtain q' s4 where s4: "chOQGetI oq ?s = Done (uint b) s4" "kinv s4"
      "gqs s4 = (gqs ?s)(oq := q')" "oq_ok q'" "oq_content q' = bs" "currp s4 = currp ?s" by blast
    let ?s5 = "upd_usart sdp (\<lambda>u. u\<lparr>u_DR := word_of_int (uint b)\<rparr>) s4"
    have "kinv ?s5" using s4(2) by simp
    from tl[OF this] obtain s' where s': "tail ?s5 = Done () s'" "kinv s'" "currp s' = currp ?s5" "gqs s' = gqs ?s5"
      "u_DR (sd_usart (sds s' sdp)) = u_DR (sd_usart (sds ?s5 sdp))"
      "u_CR1 (sd_usart (sds s' sdp)) = (if sr AND USART_SR_TC = 0 then u_CR1 (sd_usart (sds ?s5 sdp)) else cr1 AND NOT USART_CR1_TCIE)"
      "sd_oqueue (sds s' sdp) = sd_oqueue (sds ?s5 sdp)" by blast
    have "kernel.more s4 = kernel.more ?s" using oq_getI_frame[OF k(1) s4(1)] by (simp add: frame_but_def)
    then have sd4: "sds s4 = sds ?s" by (rule hal_more(2))
    have "\<not> uint b < Q_OK" by (simp add: Q_OK_def RDY_OK_def not_less)
    then have "serve_interrupt sdp sr dr s = Done () s'" using s'(1) s4(1) by (simp add: e)
    then show ?thesis using s' s4 Cons assms(3,5) by (intro exI[of _ s']) (simp add: word_of_int_uint sd4)
  qed
qed

section \<open>A whole transmission\<close>

text \<open>
  Writing what fits: every byte is queued, in order, without waiting, and the transmitter's
  interrupt is enabled.
\<close>

lemma notify2_run: "notify_q notify2 i s = Done () (if q_notify (gqs s i)
    then upd_usart SD2 (\<lambda>u. u\<lparr>u_CR1 := u_CR1 u OR USART_CR1_TXEIE\<rparr>) s else s)"
  by (simp add: notify_q_def notify2_def)

lemma oq_not_full: "oq_ok q \<Longrightarrow> length (oq_content q) < length (q_buffer q) \<Longrightarrow> \<not> chOQIsFullI q"
  by (auto simp: oq_full_len chOQIsFullI_def chQSpaceI_def)

lemma write_room:
  assumes "oq_ok (gqs s oq)" "q_notify (gqs s oq)" "kinv s" "bs \<noteq> []"
    "length (oq_content (gqs s oq)) + length bs \<le> length (q_buffer (gqs s oq))"
  shows "\<exists>s'. quiet (oq_write_loop notify2 fuel oq time bs w s) = Some (w + length bs, s') \<and> kinv s' \<and>
    oq_ok (gqs s' oq) \<and> oq_content (gqs s' oq) = oq_content (gqs s oq) @ bs \<and>
    u_CR1 (sd_usart (sds s' SD2)) = u_CR1 (sd_usart (sds s SD2)) OR USART_CR1_TXEIE \<and>
    sd_oqueue (sds s' SD2) = sd_oqueue (sds s SD2)"
  using assms
proof (induction bs arbitrary: s w)
  case (Cons b bs)
  let ?q = "gqs s oq"
  have room: "length (oq_content ?q) < length (q_buffer ?q)" using Cons.prems(5) by simp
  have nf: "\<not> chOQIsFullI ?q" by (rule oq_not_full[OF Cons.prems(1) room])
  from oq_in_ok[OF Cons.prems(1) room, of b] obtain q' where q': "oq_in b ?q = Some q'" "oq_ok q'"
    "oq_content q' = oq_content ?q @ [b]" "length (q_buffer q') = length (q_buffer ?q)" by blast
  have n': "q_notify q'" using q'(1) nf Cons.prems(2) by (auto simp: oq_in_def gq_store_def split: if_splits)
  let ?s2 = "upd_usart SD2 (\<lambda>u. u\<lparr>u_CR1 := u_CR1 u OR USART_CR1_TXEIE\<rparr>) (set_gq oq q' s)"
  have f: "gqs ?s2 oq = q'" "u_CR1 (sd_usart (sds ?s2 SD2)) = u_CR1 (sd_usart (sds s SD2)) OR USART_CR1_TXEIE"
    "sd_oqueue (sds ?s2 SD2) = sd_oqueue (sds s SD2)" by (simp_all add: set_gq_def)
  have k2: "kinv ?s2" using Cons.prems(3) by simp
  have step: "quiet (oq_write_loop notify2 fuel oq time (b # bs) w s) =
      (if bs = [] then Some (w + 1, ?s2) else quiet (oq_write_loop notify2 fuel oq time bs (w + 1) ?s2))"
    using nf q'(1) n' by (simp add: gq_wait_loop.simps oq_in_def notify2_run)
  show ?case
  proof (cases "bs = []")
    case True
    then show ?thesis unfolding step using f q' k2 by (intro exI[of _ ?s2]) simp
  next
    case False
    have "length (oq_content (gqs ?s2 oq)) + length bs \<le> length (q_buffer (gqs ?s2 oq))"
      unfolding f(1) q'(3,4) using Cons.prems(5) by simp
    from Cons.IH[of ?s2 "w + 1", OF _ _ k2 False this] obtain s' where
      s': "quiet (oq_write_loop notify2 fuel oq time bs (w + 1) ?s2) = Some (w + 1 + length bs, s')" "kinv s'"
        "oq_ok (gqs s' oq)" "oq_content (gqs s' oq) = oq_content (gqs ?s2 oq) @ bs"
        "u_CR1 (sd_usart (sds s' SD2)) = u_CR1 (sd_usart (sds ?s2 SD2)) OR USART_CR1_TXEIE"
        "sd_oqueue (sds s' SD2) = sd_oqueue (sds ?s2 SD2)"
      unfolding f(1) using q'(2) n' by blast
    then show ?thesis unfolding step using False f q'(3) by (intro exI[of _ s']) simp
  qed
qed simp

text \<open>The bytes that \<open>n\<close> interrupts of the empty transmitter put into the data register.\<close>

primrec transmit :: "nat \<Rightarrow> 'x hal_scheme \<Rightarrow> (16 word list \<times> 'x hal_scheme) option" where
  "transmit 0 s = Some ([], s)"
| "transmit (Suc n) s =
     (case serve_interrupt SD2 USART_SR_TXE 0 s of
        Done r s1 \<Rightarrow> (case transmit n s1 of None \<Rightarrow> None
          | Some (ds, s2) \<Rightarrow> Some (u_DR (sd_usart (sds s1 SD2)) # ds, s2))
      | _ \<Rightarrow> None)"

lemma transmit_all:
  assumes "kinv s" "oq_ok (gqs s oq)" "oq = sd_oqueue (sds s SD2)" "u_CR1 (sd_usart (sds s SD2)) AND USART_CR1_TXEIE \<noteq> 0"
  shows "\<exists>s'. transmit (length (oq_content (gqs s oq))) s = Some (map ucast (oq_content (gqs s oq)), s') \<and>
    kinv s' \<and> oq_ok (gqs s' oq) \<and> oq_content (gqs s' oq) = []"
  using assms
proof (induction "oq_content (gqs s oq)" arbitrary: s)
  case Nil
  then show ?case by simp
next
  case (Cons b bs)
  have tc: "USART_SR_TXE AND USART_SR_TC = 0" by (simp add: usart_bits)
  from serve_transmit[OF Cons.prems(1-3) refl refl Cons.prems(4) disjI1[OF refl], of 0] obtain s1 where
    s1: "serve_interrupt SD2 USART_SR_TXE 0 s = Done () s1" "kinv s1" "oq_ok (gqs s1 oq)"
      "oq_content (gqs s1 oq) = bs" "u_DR (sd_usart (sds s1 SD2)) = ucast b"
      "u_CR1 (sd_usart (sds s1 SD2)) = u_CR1 (sd_usart (sds s SD2))" "sd_oqueue (sds s1 SD2) = oq"
    unfolding Cons.hyps(2)[symmetric] list.case tc by auto
  have c1: "u_CR1 (sd_usart (sds s1 SD2)) AND USART_CR1_TXEIE \<noteq> 0" using s1(6) Cons.prems(4) by simp
  from Cons.hyps(1)[OF s1(4)[symmetric] s1(2,3) s1(7)[symmetric] c1] obtain s' where
    "transmit (length bs) s1 = Some (map ucast bs, s')" "kinv s'" "oq_ok (gqs s' oq)" "oq_content (gqs s' oq) = []"
    unfolding s1(4) by blast
  then show ?case unfolding Cons.hyps(2)[symmetric] using s1(1,5) by simp
qed

end
