(* ===== verification/Wifly.thy ===== *)
theory Wifly
  imports CString Serial Msg
begin

text \<open>
  The wifly service, \<^verbatim>\<open>serv_wifly.c\<close>: a thread owns the serial port; it assembles lines into commands
  for the callback of \<^verbatim>\<open>main.c\<close>, and sends and receives strings for the other threads, who ask by a
  message. A string is passed by its address. The callback is a parameter. Loops that wait for events
  have fuel; using it up is a \<open>Fault\<close>.
\<close>

section \<open>Constants and shared variables\<close>

datatype State = S_OK | S_ERROR | S_OVERFLOW | S_TIMEOUT | S_RESET
datatype Message = M_OK | M_ERROR | M_MESSAGE

definition WIFLY_MEM_SIZE :: nat where "WIFLY_MEM_SIZE = 10"
definition WIFLY_EL_SIZE :: nat where "WIFLY_EL_SIZE = 1024"

definition wifly_el :: nat where "wifly_el = 1"
definition wifly_pool :: nat where "wifly_pool = 0"
definition wifly_thread_area :: tid where "wifly_thread_area = 2"

text \<open>The array of the pool, and the two local arrays of the thread; their places do not matter.\<close>

definition char_mem :: addr where "char_mem = 0x20001000"
definition id_buf :: nat where "id_buf = 1"
definition args_buf :: nat where "args_buf = 2"

definition CR :: msg where "CR = 13"
definition LF :: msg where "LF = 10"

definition wifly_config :: "int \<Rightarrow> serialconfig" where
  "wifly_config baud = \<lparr>sc_speed = word_of_int baud, sc_cr1 = 0,
     sc_cr2 = USART_CR2_STOP1_BITS OR USART_CR2_LINEN, sc_cr3 = 0\<rparr>"

text \<open>A \<open>State\<close> travels through a message as its number.\<close>

fun state_msg :: "State \<Rightarrow> msg" where
  "state_msg S_OK = 0"
| "state_msg S_ERROR = 1"
| "state_msg S_OVERFLOW = 2"
| "state_msg S_TIMEOUT = 3"
| "state_msg S_RESET = 4"

definition msg_state :: "msg \<Rightarrow> State option" where
  "msg_state m = (if m = 0 then Some S_OK else if m = 1 then Some S_ERROR else if m = 2 then Some S_OVERFLOW
     else if m = 3 then Some S_TIMEOUT else if m = 4 then Some S_RESET else None)"

abbreviation wifly_iqueue :: "'x robot_scheme \<Rightarrow> nat" where
  "wifly_iqueue s \<equiv> sd_iqueue (sds s (wifly_driver s))"

abbreviation wifly_oqueue :: "'x robot_scheme \<Rightarrow> nat" where
  "wifly_oqueue s \<equiv> sd_oqueue (sds s (wifly_driver s))"

section \<open>Sending and receiving on the thread\<close>

fun send_wait :: "nat \<Rightarrow> 'x robot_scheme \<Rightarrow> ('x, unit) rout" where
  "send_wait 0 s = Fault"
| "send_wait (Suc n) s =
     obind (chEvtWaitOne 1 s) (\<lambda>_ s1. Window s1 (\<lambda>s2.
     obind (chEvtGetAndClearFlags wifly_el s2) (\<lambda>flags s3.
     if flags AND CHN_OUTPUT_EMPTY \<noteq> 0 then Done () s3 else Window s3 (send_wait n))))"

definition wifly_send :: "nat \<Rightarrow> nat \<Rightarrow> 'x robot_scheme \<Rightarrow> ('x, unit) rout" where
  "wifly_send fuel p s =
     (case cstr (bufs s p) of
        None \<Rightarrow> Fault
      | Some x \<Rightarrow> if x = [] then Done () s
          else obind (sdWrite fuel (wifly_driver s) x s) (\<lambda>_ s1. Window s1 (send_wait fuel)))"

text \<open>Line ends are not stored.\<close>

definition recv_char :: "nat \<Rightarrow> msg \<Rightarrow> nat \<Rightarrow> 'x robot_scheme \<Rightarrow> ('x, nat) rout" where
  "recv_char p c i s =
     (if c \<noteq> CR \<and> c \<noteq> LF then obind (store p i (word_of_int c) s) (\<lambda>_ s1. Done (i + 1) s1) else Done i s)"

definition recv_get :: "'x robot_scheme \<Rightarrow> ('x, msg) rout" where
  "recv_get s = sdGetTimeout 1 (wifly_driver s) TIME_IMMEDIATE s"

definition recv_reset :: "'x robot_scheme \<Rightarrow> ('x, unit) rout" where
  "recv_reset s = chIQResetI (wifly_iqueue s) s"

text \<open>What is already in the queue; the result is the state, the length so far and \<open>finished\<close>.\<close>

fun recv_queued :: "nat \<Rightarrow> nat \<Rightarrow> nat \<Rightarrow> nat \<Rightarrow> 'x robot_scheme \<Rightarrow> ('x, State \<times> nat \<times> bool) rout" where
  "recv_queued 0 p max_l i s = Fault"
| "recv_queued (Suc n) p max_l i s =
     obind (recv_get s) (\<lambda>c s1.
     if c = Q_TIMEOUT \<or> c = Q_RESET then Done (S_OK, i, False) s1
     else obind (recv_char p c i s1) (\<lambda>i s2.
       if i = max_l - 1 then obind (recv_reset s2) (\<lambda>_ s3. Done (S_OVERFLOW, i, True) s3)
       else if c = LF then Done (S_OK, i, True) s2
       else Window s2 (recv_queued n p max_l i)))"

text \<open>What comes later, a byte for each event.\<close>

fun recv_events :: "nat \<Rightarrow> nat \<Rightarrow> nat \<Rightarrow> nat \<Rightarrow> 'x robot_scheme \<Rightarrow> ('x, State \<times> nat) rout" where
  "recv_events 0 p max_l i s = Fault"
| "recv_events (Suc n) p max_l i s =
     obind (chEvtWaitOneTimeout 1 (MS2ST 1000) s) (\<lambda>ev s1.
     if ev = 0 then Done (S_TIMEOUT, i) s1
     else Window s1 (\<lambda>s2. obind (chEvtGetAndClearFlags wifly_el s2) (\<lambda>flags s3.
       if flags AND CHN_INPUT_AVAILABLE \<noteq> 0 then
         Window s3 (\<lambda>s4. obind (recv_get s4) (\<lambda>c s5.
           if c = Q_TIMEOUT \<or> c = Q_RESET then Done (S_RESET, i) s5
           else obind (recv_char p c i s5) (\<lambda>i s6.
             if i = max_l - 1 then obind (recv_reset s6) (\<lambda>_ s7. Done (S_OVERFLOW, i) s7)
             else if c = LF then Done (S_OK, i) s6
             else Window s6 (recv_events n p max_l i))))
       else if flags > 32 then Done (S_ERROR, i) s3
       else Window s3 (recv_events n p max_l i))))"

definition wifly_receive :: "nat \<Rightarrow> nat \<Rightarrow> nat \<Rightarrow> 'x robot_scheme \<Rightarrow> ('x, State) rout" where
  "wifly_receive fuel p max_l s =
     obind (recv_queued fuel p max_l 0 s) (\<lambda>(st, i, finished) s1.
     obind (if finished then Done (st, i) s1 else Window s1 (recv_events fuel p max_l i)) (\<lambda>(st, i) s2.
     obind (store p i 0 s2) (\<lambda>_ s3. Done st s3)))"

section \<open>Asking the thread\<close>

definition wiflySend :: "nat \<Rightarrow> nat \<Rightarrow> 'x robot_scheme \<Rightarrow> ('x, State) rout" where
  "wiflySend fuel p s =
     obind (strlen p s) (\<lambda>n s1.
     if n = 0 then Done S_OVERFLOW s1
     else if currp s1 = wifly_tp s1 then obind (wifly_send fuel p s1) (\<lambda>_ s2. Done S_OK s2)
     else Window s1 (\<lambda>s2. obind (chMsgSend (wifly_tp s2) (int p) s2) (\<lambda>_ s3. Done S_OK s3)))"

definition wiflyRead :: "nat \<Rightarrow> nat \<Rightarrow> 'x robot_scheme \<Rightarrow> ('x, State) rout" where
  "wiflyRead fuel p s =
     obind (store p 0 0 s) (\<lambda>_ s1.
     if currp s1 = wifly_tp s1 then wifly_receive fuel p WIFLY_EL_SIZE s1
     else Window s1 (\<lambda>s2. obind (chMsgSend (wifly_tp s2) (int p) s2) (\<lambda>r s3.
       case msg_state r of None \<Rightarrow> Fault | Some st \<Rightarrow> Done st s3)))"

text \<open>The next call of the service on another thread's time: the lock was open in between.\<close>

definition wsend :: "nat \<Rightarrow> string \<Rightarrow> 'x robot_scheme \<Rightarrow> ('x, unit) rout" where
  "wsend fuel x s = Window s (\<lambda>s. obind (wiflySend fuel (lits s x) s) (\<lambda>_ s1. Done () s1))"

definition wread :: "nat \<Rightarrow> nat \<Rightarrow> 'x robot_scheme \<Rightarrow> ('x, State) rout" where
  "wread fuel p s = Window s (wiflyRead fuel p)"

section \<open>Commands for the module\<close>

fun read_lines :: "nat \<Rightarrow> nat \<Rightarrow> nat \<Rightarrow> 'x robot_scheme \<Rightarrow> ('x, unit) rout" where
  "read_lines 0 buf tot s = Fault"
| "read_lines (Suc n) buf tot s =
     obind (wread n buf s) (\<lambda>st s1.
     obind (load buf 0 s1) (\<lambda>c s2.
     if st = S_OK \<and> c \<noteq> of_char CHR ''<'' then
       obind (strcat tot buf s2) (\<lambda>_ s3.
       obind (strcat tot (lits s3 [CHR 0x0D, CHR 0x0A]) s3) (\<lambda>_ s4. read_lines n buf tot s4))
     else Done () s2))"

text \<open>\<open>total[strlen(total) - 2]\<close> is outside the array when nothing was read.\<close>

definition wiflyReadCommand :: "nat \<Rightarrow> nat \<Rightarrow> nat \<Rightarrow> 'x robot_scheme \<Rightarrow> ('x, State) rout" where
  "wiflyReadCommand fuel cmd tot s =
     obind (chPoolAlloc wifly_pool s) (\<lambda>b s. let buf = unat b in
     obind (store buf 0 0 s) (\<lambda>_ s. obind (store tot 0 0 s) (\<lambda>_ s.
     obind (wsend fuel ''***COMMAND - '' s) (\<lambda>_ s. Window s (\<lambda>s. obind (wiflySend fuel cmd s) (\<lambda>_ s.
     obind (wsend fuel ('' - ***'' @ [CHR 0x0D, CHR 0x0A]) s) (\<lambda>_ s.
     Window s (\<lambda>s. obind (chThdSleepMilliseconds 100 s) (\<lambda>_ s. obind (wsend fuel ''$$$'' s) (\<lambda>_ s.
     obind (wread fuel buf s) (\<lambda>_ s. obind (wread fuel buf s) (\<lambda>_ s.
     Window s (\<lambda>s. obind (wiflySend fuel cmd s) (\<lambda>_ s. obind (wsend fuel [CHR 0x0D, CHR 0x0A] s) (\<lambda>_ s.
     obind (wread fuel buf s) (\<lambda>_ s. obind (read_lines fuel buf tot s) (\<lambda>_ s.
     obind (wsend fuel (''exit'' @ [CHR 0x0D, CHR 0x0A]) s) (\<lambda>_ s.
     obind (wread fuel buf s) (\<lambda>_ s. obind (wread fuel buf s) (\<lambda>_ s.
     obind (strlen tot s) (\<lambda>n s. if n < 2 then Fault else
     obind (store tot (n - 2) 0 s) (\<lambda>_ s.
     Window s (\<lambda>s. obind (chPoolFree wifly_pool b s) (\<lambda>_ s. Done S_OK s))))))))))))))))))))))))"

definition wiflySendCommand :: "nat \<Rightarrow> nat \<Rightarrow> nat \<Rightarrow> 'x robot_scheme \<Rightarrow> ('x, State) rout" where
  "wiflySendCommand fuel cmd ans s =
     obind (chPoolAlloc wifly_pool s) (\<lambda>b s. let buf = unat b in
     obind (store buf 0 0 s) (\<lambda>_ s.
     Window s (\<lambda>s. obind (wiflyReadCommand fuel cmd buf s) (\<lambda>st s.
     obind (streq ans buf s) (\<lambda>eq s.
     Window s (\<lambda>s. obind (chPoolFree wifly_pool b s) (\<lambda>_ s. Done (if eq then st else S_ERROR) s)))))))"

definition wiflySendCommandOK :: "nat \<Rightarrow> nat \<Rightarrow> 'x robot_scheme \<Rightarrow> ('x, State) rout" where
  "wiflySendCommandOK fuel cmd s = wiflySendCommand fuel cmd (lits s ''AOK'') s"

text \<open>One step of \<open>wiflyConnect\<close>: a command with its expected answer, or the end.\<close>

definition connect_step :: "nat \<Rightarrow> string \<Rightarrow> string \<Rightarrow> ('x robot_scheme \<Rightarrow> ('x, State) rout) \<Rightarrow>
    ('x robot_scheme \<Rightarrow> ('x, State) rout) \<Rightarrow> 'x robot_scheme \<Rightarrow> ('x, State) rout" where
  "connect_step fuel cmd ans failed next s =
     Window s (\<lambda>s. obind (wiflySendCommand fuel (lits s cmd) (lits s ans) s) (\<lambda>st s.
       if st \<noteq> S_OK then failed s else next s))"

definition connect_with :: "nat \<Rightarrow> nat \<Rightarrow> string \<Rightarrow> nat \<Rightarrow> ('x robot_scheme \<Rightarrow> ('x, State) rout) \<Rightarrow>
    ('x robot_scheme \<Rightarrow> ('x, State) rout) \<Rightarrow> 'x robot_scheme \<Rightarrow> ('x, State) rout" where
  "connect_with fuel buf prefix value failed next s =
     obind (strcpy buf (lits s prefix) s) (\<lambda>_ s. obind (strcat buf value s) (\<lambda>_ s.
     Window s (\<lambda>s. obind (wiflySendCommand fuel buf (lits s ''AOK'') s) (\<lambda>st s.
       if st \<noteq> S_OK then failed s else next s))))"

definition wiflyConnect :: "nat \<Rightarrow> nat \<Rightarrow> nat \<Rightarrow> 'x robot_scheme \<Rightarrow> ('x, State) rout" where
  "wiflyConnect fuel ssid phrase s =
     (let failed = Done S_ERROR in
      connect_step fuel ''set wlan auth 3'' ''AOK'' failed (
      connect_step fuel ''set ip dhcp 1'' ''AOK'' failed (
      connect_step fuel ''set wlan join 1'' ''AOK'' failed (
      connect_step fuel ''set wlan channel 0'' ''AOK'' failed (\<lambda>s.
      Window s (\<lambda>s. obind (chPoolAlloc wifly_pool s) (\<lambda>b s. let buf = unat b;
        ret = (\<lambda>st s. Window s (\<lambda>s. obind (chPoolFree wifly_pool b s) (\<lambda>_ s. Done st s))) in
      obind (store buf 0 0 s) (\<lambda>_ s.
      connect_with fuel buf ''set wlan phrase '' phrase (ret S_ERROR) (
      connect_with fuel buf ''set wlan ssid '' ssid (ret S_ERROR) (
      connect_step fuel ''save'' ''Storing in config'' (ret S_ERROR) (
      connect_step fuel ''reboot'' ''AOK'' (ret S_ERROR) (ret S_OK)))) s))))))) s)"

definition wiflyInit :: "nat \<Rightarrow> nat \<Rightarrow> nat \<Rightarrow> nat \<Rightarrow> nat \<Rightarrow> int \<Rightarrow> 'x robot_scheme \<Rightarrow> ('x, bool) rout" where
  "wiflyInit fuel serial gpio tx rx baud s =
     obind (sdStart serial (Some (wifly_config baud)) (s\<lparr>wifly_driver := serial\<rparr>)) (\<lambda>_ s.
     let s1 = palSetPadMode GPIOD GPIOD_LED6 PAL_MODE_OUTPUT_PUSHPULL s;
         s2 = palSetPadMode gpio tx (PAL_MODE_ALTERNATE 7) s1;
         s3 = palSetPadMode gpio rx (PAL_MODE_ALTERNATE 7) s2;
         s4 = chPoolInit wifly_pool (of_nat WIFLY_EL_SIZE) False s3
     in Window s4 (\<lambda>s. obind (chPoolLoadArray wifly_pool char_mem WIFLY_MEM_SIZE s) (\<lambda>_ s.
        Window s (\<lambda>s. obind (chThdCreateStatic wifly_thread_area (NORMALPRIO - 1) s) (\<lambda>tp s.
        obind (wsend fuel (''****INIT***'' @ [CHR 0x0D, CHR 0x0A]) (s\<lparr>wifly_tp := tp\<rparr>)) (\<lambda>_ s.
        Done True s))))))"

section \<open>The thread\<close>

text \<open>Its local variables.\<close>

record wifly_locals =
  wl_i :: nat
  wl_j :: nat
  wl_read_id :: bool

definition fresh :: wifly_locals where
  "fresh = \<lparr>wl_i = 0, wl_j = 0, wl_read_id = True\<rparr>"

text \<open>A byte is stored in the name or the argument of the command.\<close>

definition wifly_put :: "msg \<Rightarrow> wifly_locals \<Rightarrow> 'x robot_scheme \<Rightarrow> (wifly_locals \<times> 'x robot_scheme) option" where
  "wifly_put c l s =
     (if wl_read_id l then
        if c = 32 then Some (l\<lparr>wl_read_id := False\<rparr>, s)
        else if c \<noteq> CR \<and> c \<noteq> LF then
          (case put_byte id_buf (wl_i l) (word_of_int c) s of
             None \<Rightarrow> None | Some s1 \<Rightarrow> Some (l\<lparr>wl_i := wl_i l + 1\<rparr>, s1))
        else Some (l, s)
      else if c \<noteq> CR \<and> c \<noteq> LF then
        (case put_byte args_buf (wl_j l) (word_of_int c) s of
           None \<Rightarrow> None | Some s1 \<Rightarrow> Some (l\<lparr>wl_j := wl_j l + 1\<rparr>, s1))
      else Some (l, s))"

definition lit_send :: "nat \<Rightarrow> string \<Rightarrow> 'x robot_scheme \<Rightarrow> ('x, unit) rout" where
  "lit_send fuel x s = Window s (\<lambda>s. wifly_send fuel (lits s (x @ [CHR 0x0D, CHR 0x0A])) s)"

text \<open>The end of a line: a state name between stars, or a command for the callback.\<close>

definition wifly_command :: "nat \<Rightarrow> (nat \<Rightarrow> nat \<Rightarrow> 'x robot_scheme \<Rightarrow> ('x, Message) rout) \<Rightarrow> wifly_locals \<Rightarrow>
    'x robot_scheme \<Rightarrow> ('x, unit) rout" where
  "wifly_command fuel cb l s =
     obind (store args_buf (wl_j l) 0 s) (\<lambda>_ s. obind (store id_buf (wl_i l) 0 s) (\<lambda>_ s.
     let a = bufs s id_buf; star = of_char CHR ''*'' in
     if wl_i l > 2 \<and> a ! 0 = star \<and> a ! (wl_i l - 1) = star then
       obind (streq id_buf (lits s ''*HELLO*'') s) (\<lambda>eq s.
       if eq then lit_send fuel ''*HELLO*'' s else lit_send fuel ''*ERROR*'' s)
     else
       obind (cb id_buf args_buf s) (\<lambda>ret s.
       if ret = M_OK then lit_send fuel ''*OK*'' s
       else if ret \<noteq> M_MESSAGE then lit_send fuel ''*ERROR*'' s
       else Done () s)))"

definition wifly_input :: "nat \<Rightarrow> (nat \<Rightarrow> nat \<Rightarrow> 'x robot_scheme \<Rightarrow> ('x, Message) rout) \<Rightarrow> msg \<Rightarrow> wifly_locals \<Rightarrow>
    'x robot_scheme \<Rightarrow> ('x, wifly_locals) rout" where
  "wifly_input fuel cb c l s =
     (case wifly_put c l s of
        None \<Rightarrow> Fault
      | Some (l, s) \<Rightarrow>
          if wl_i l = 16 \<or> wl_j l = 1024 then
            obind (lit_send fuel ''*OVERFLOW*'' s) (\<lambda>_ s. obind (recv_reset s) (\<lambda>_ s. Done fresh s))
          else if c = LF then obind (wifly_command fuel cb l s) (\<lambda>_ s. Done fresh s)
          else Done l s)"

text \<open>A message of another thread: an empty string asks for a line, any other is to be sent.\<close>

definition wifly_message :: "nat \<Rightarrow> 'x robot_scheme \<Rightarrow> ('x, unit) rout" where
  "wifly_message fuel s =
     obind (chMsgWait s) (\<lambda>tp s. Window s (\<lambda>s.
     let p = nat (chMsgGet tp s) in
     obind (strlen p s) (\<lambda>n s.
     if n = 0 then
       obind (wifly_receive fuel p WIFLY_EL_SIZE s) (\<lambda>st s. Window s (chMsgRelease tp (state_msg st)))
     else
       obind (wifly_send fuel p s) (\<lambda>_ s. Window s (chMsgRelease tp 0)))))"

text \<open>One turn of the loop of the thread.\<close>

definition wifly_turn :: "nat \<Rightarrow> (nat \<Rightarrow> nat \<Rightarrow> 'x robot_scheme \<Rightarrow> ('x, Message) rout) \<Rightarrow> wifly_locals \<Rightarrow>
    'x robot_scheme \<Rightarrow> ('x, wifly_locals) rout" where
  "wifly_turn fuel cb l s =
     obind (chThdYield s) (\<lambda>_ s. Window s (\<lambda>s.
     obind (if wl_i l = 0 \<and> wl_j l = 0 \<and> chMsgIsPendingI (wifly_tp s) s then wifly_message fuel s else Done () s) (\<lambda>_ s.
     Window s (\<lambda>s. obind (chEvtWaitOneTimeout 1 TIME_IMMEDIATE s) (\<lambda>ev s.
     if ev = 0 then Done l s
     else Window s (\<lambda>s. obind (chEvtGetAndClearFlags wifly_el s) (\<lambda>flags s.
       if flags AND CHN_INPUT_AVAILABLE \<noteq> 0 then
         Window s (\<lambda>s. obind (recv_get s) (\<lambda>c s. wifly_input fuel cb c l s))
       else if flags > 32 then
         (let s1 = palSetPad GPIOD GPIOD_LED6 s in
          obind (recv_reset s1) (\<lambda>_ s. obind (chOQResetI (wifly_oqueue s) s) (\<lambda>_ s. Done l s)))
       else Done l s)))))))"

fun wifly_turns :: "nat \<Rightarrow> nat \<Rightarrow> (nat \<Rightarrow> nat \<Rightarrow> 'x robot_scheme \<Rightarrow> ('x, Message) rout) \<Rightarrow> wifly_locals \<Rightarrow>
    'x robot_scheme \<Rightarrow> ('x, wifly_locals) rout" where
  "wifly_turns 0 fuel cb l s = Done l s"
| "wifly_turns (Suc n) fuel cb l s =
     obind (wifly_turn fuel cb l s) (\<lambda>l s. Window s (wifly_turns n fuel cb l))"

text \<open>The first \<open>n\<close> turns of the thread, from its start.\<close>

definition wifly_loop :: "nat \<Rightarrow> nat \<Rightarrow> (nat \<Rightarrow> nat \<Rightarrow> 'x robot_scheme \<Rightarrow> ('x, Message) rout) \<Rightarrow>
    'x robot_scheme \<Rightarrow> ('x, wifly_locals) rout" where
  "wifly_loop n fuel cb s =
     obind (chEvtRegisterMask (chnGetEventSource (wifly_driver s) s) wifly_el 1 s) (\<lambda>_ s.
     let s1 = s\<lparr>bufs := (bufs s)(id_buf := replicate 16 0, args_buf := replicate 1024 0)\<rparr>
     in Window s1 (wifly_turns n fuel cb fresh))"

section \<open>The parser of command lines\<close>

text \<open>Whatever a routine meets on its way, it returns with \<open>P\<close> if it returns.\<close>

primrec returns :: "('r \<Rightarrow> bool) \<Rightarrow> ('s, 'r) outcome \<Rightarrow> bool" where
  "returns P (Done r s) = P r"
| "returns P (Switch s k) = (\<forall>s'. returns P (k s'))"
| "returns P (Window s k) = (\<forall>s'. returns P (k s'))"
| "returns P Fault = True"

lemma returns_obind: "(\<And>r s. returns P (f r s)) \<Longrightarrow> returns P (obind m f)"
  by (induction m) auto

definition in_range :: "wifly_locals \<Rightarrow> bool" where
  "in_range l \<longleftrightarrow> wl_i l < 16 \<and> wl_j l < 1024"

lemma in_range_fresh: "in_range fresh"
  by (simp add: in_range_def fresh_def)

lemma put_byte_some: "put_byte p i b s \<noteq> None \<longleftrightarrow> i < length (bufs s p)"
  by (simp add: put_byte_def)

text \<open>No byte is stored outside the two arrays, and after each turn there is room for one more.\<close>

lemma put_in_bounds:
  assumes "in_range l" "length (bufs s id_buf) = 16" "length (bufs s args_buf) = 1024"
  shows "wifly_put c l s \<noteq> None"
  using assms put_byte_some[of id_buf "wl_i l" "word_of_int c" s] put_byte_some[of args_buf "wl_j l" "word_of_int c" s]
  by (auto simp: wifly_put_def in_range_def split: option.splits)

lemma put_step: "wifly_put c l s = Some (l', s') \<Longrightarrow> in_range l \<Longrightarrow> in_range l' \<or> wl_i l' = 16 \<or> wl_j l' = 1024"
  by (auto simp: wifly_put_def in_range_def split: if_splits option.splits)

lemma input_range: "in_range l \<Longrightarrow> returns in_range (wifly_input fuel cb c l s)"
proof (cases "wifly_put c l s")
  case (Some r)
  assume l: "in_range l"
  obtain l' s' where r: "r = (l', s')" by (cases r)
  show ?thesis
    using put_step[of c l s l' s'] l Some r
    by (auto simp: wifly_input_def in_range_fresh intro!: returns_obind)
qed (simp add: wifly_input_def)

lemma turn_range: "in_range l \<Longrightarrow> returns in_range (wifly_turn fuel cb l s)"
  unfolding wifly_turn_def
  by (auto intro!: returns_obind input_range simp: Let_def)

lemma turns_range: "in_range l \<Longrightarrow> returns in_range (wifly_turns n fuel cb l s)"
proof (induction n arbitrary: l s)
  case (Suc n)
  have "returns in_range m \<Longrightarrow> returns in_range (obind m (\<lambda>l s. Window s (wifly_turns n fuel cb l)))"
    for m :: "('a robot_scheme, wifly_locals) outcome" by (induction m) (auto intro: Suc.IH)
  from this[OF turn_range[OF Suc.prems]] show ?case by simp
qed simp

text \<open>The bytes of a line go to the two arrays.\<close>

definition holds :: "wifly_locals \<Rightarrow> 'x robot_scheme \<Rightarrow> byte list \<Rightarrow> byte list \<Rightarrow> bool" where
  "holds l s x y \<longleftrightarrow> wl_i l = length x \<and> wl_j l = length y \<and> length (bufs s id_buf) = 16 \<and>
     length (bufs s args_buf) = 1024 \<and> take (length x) (bufs s id_buf) = x \<and> take (length y) (bufs s args_buf) = y"

definition line_name :: "byte list \<Rightarrow> byte list" where
  "line_name bs = takeWhile (\<lambda>b. b \<noteq> 32) (filter (\<lambda>b. b \<noteq> 13) bs)"

definition line_args :: "byte list \<Rightarrow> byte list" where
  "line_args bs = drop 1 (dropWhile (\<lambda>b. b \<noteq> 32) (filter (\<lambda>b. b \<noteq> 13) bs))"

text \<open>One byte after the other, as the turns of the thread hand them on.\<close>

primrec wifly_feed :: "nat \<Rightarrow> (nat \<Rightarrow> nat \<Rightarrow> 'x robot_scheme \<Rightarrow> ('x, Message) rout) \<Rightarrow> byte list \<Rightarrow> wifly_locals \<Rightarrow>
    'x robot_scheme \<Rightarrow> ('x, wifly_locals) rout" where
  "wifly_feed fuel cb [] l s = Done l s"
| "wifly_feed fuel cb (b # bs) l s = obind (wifly_input fuel cb (uint b) l s) (wifly_feed fuel cb bs)"

lemma feed_append: "wifly_feed fuel cb (xs @ ys) l s = obind (wifly_feed fuel cb xs l s) (wifly_feed fuel cb ys)"
proof (induction xs arbitrary: l s)
  case (Cons x xs)
  have "wifly_feed fuel cb (xs @ ys) = (\<lambda>l s. obind (wifly_feed fuel cb xs l s) (wifly_feed fuel cb ys))"
    by (intro ext) (rule Cons.IH)
  then show ?case by (simp add: obind_assoc)
qed simp

lemma uint_code: "uint b = CR \<longleftrightarrow> b = 13" "uint b = LF \<longleftrightarrow> b = 10" "uint b = 32 \<longleftrightarrow> b = 32" for b :: byte
  by (auto simp: CR_def LF_def word_uint_eq_iff)

lemma take_update: "i < length a \<Longrightarrow> take i a = x \<Longrightarrow> take (Suc i) (a[i := b]) = x @ [b]"
  by (simp add: take_Suc_conv_app_nth)

lemma id_args: "id_buf \<noteq> args_buf"
  by (simp add: id_buf_def args_buf_def)

lemma input_name:
  assumes "holds l s x y" "wl_read_id l" "length x < 15" "length y < 1024" "b \<noteq> 13" "b \<noteq> 10" "b \<noteq> 32"
  shows "\<exists>l' s'. wifly_input fuel cb (uint b) l s = Done l' s' \<and> holds l' s' (x @ [b]) y \<and> wl_read_id l'"
proof -
  have i: "wl_i l < length (bufs s id_buf)" using assms by (simp add: holds_def)
  have "wifly_input fuel cb (uint b) l s = Done (l\<lparr>wl_i := wl_i l + 1\<rparr>)
      (s\<lparr>bufs := (bufs s)(id_buf := (bufs s id_buf)[wl_i l := b])\<rparr>)"
    using assms i uint_code[of b] by (auto simp: wifly_input_def wifly_put_def put_byte_def holds_def word_of_int_uint)
  moreover have "holds (l\<lparr>wl_i := wl_i l + 1\<rparr>) (s\<lparr>bufs := (bufs s)(id_buf := (bufs s id_buf)[wl_i l := b])\<rparr>) (x @ [b]) y"
    using assms(1) i id_args take_update[of "wl_i l" "bufs s id_buf" x b] by (simp add: holds_def)
  ultimately show ?thesis using assms(2) by (intro exI[of _ "l\<lparr>wl_i := wl_i l + 1\<rparr>"] exI[of _ "s\<lparr>bufs := (bufs s)(id_buf := (bufs s id_buf)[wl_i l := b])\<rparr>"]) simp
qed

lemma input_args:
  assumes "holds l s x y" "\<not> wl_read_id l" "length x < 16" "length y < 1023" "b \<noteq> 13" "b \<noteq> 10"
  shows "\<exists>l' s'. wifly_input fuel cb (uint b) l s = Done l' s' \<and> holds l' s' x (y @ [b]) \<and> \<not> wl_read_id l'"
proof -
  have i: "wl_j l < length (bufs s args_buf)" using assms by (simp add: holds_def)
  have "wifly_input fuel cb (uint b) l s = Done (l\<lparr>wl_j := wl_j l + 1\<rparr>)
      (s\<lparr>bufs := (bufs s)(args_buf := (bufs s args_buf)[wl_j l := b])\<rparr>)"
    using assms i uint_code[of b] by (auto simp: wifly_input_def wifly_put_def put_byte_def holds_def word_of_int_uint)
  moreover have "holds (l\<lparr>wl_j := wl_j l + 1\<rparr>) (s\<lparr>bufs := (bufs s)(args_buf := (bufs s args_buf)[wl_j l := b])\<rparr>) x (y @ [b])"
    using assms(1) i id_args take_update[of "wl_j l" "bufs s args_buf" y b] by (simp add: holds_def)
  ultimately show ?thesis using assms(2) by (intro exI[of _ "l\<lparr>wl_j := wl_j l + 1\<rparr>"] exI[of _ "s\<lparr>bufs := (bufs s)(args_buf := (bufs s args_buf)[wl_j l := b])\<rparr>"]) simp
qed

lemma input_skip:
  assumes "holds l s x y" "length x < 16" "length y < 1024" "b = (13 :: byte)"
  shows "wifly_input fuel cb (uint b) l s = Done l s"
  using assms by (auto simp: wifly_input_def wifly_put_def holds_def CR_def LF_def)

lemma input_space:
  assumes "holds l s x y" "length x < 16" "length y < 1024" "wl_read_id l"
  shows "wifly_input fuel cb (uint (32 :: byte)) l s = Done (l\<lparr>wl_read_id := False\<rparr>) s"
  using assms by (auto simp: wifly_input_def wifly_put_def holds_def CR_def LF_def)

lemma feed_args:
  assumes "holds l s x y" "\<not> wl_read_id l" "length x < 16" "10 \<notin> set bs"
    "length y + length (filter (\<lambda>b. b \<noteq> 13) bs) < 1024"
  shows "\<exists>l' s'. wifly_feed fuel cb bs l s = Done l' s' \<and> holds l' s' x (y @ filter (\<lambda>b. b \<noteq> 13) bs)"
  using assms
proof (induction bs arbitrary: l s y)
  case (Cons b bs)
  show ?case
  proof (cases "b = 13")
    case True
    then show ?thesis using Cons.IH[OF Cons.prems(1-3)] Cons.prems input_skip[OF Cons.prems(1,3) _ True] by auto
  next
    case False
    then have "length y < 1023" "b \<noteq> 10" using Cons.prems(4,5) by auto
    with input_args[OF Cons.prems(1-3) _ False, where fuel = fuel and cb = cb] obtain l1 s1 where
      1: "wifly_input fuel cb (uint b) l s = Done l1 s1" "holds l1 s1 x (y @ [b])" "\<not> wl_read_id l1" by blast
    from Cons.IH[OF 1(2,3) Cons.prems(3)] Cons.prems(4,5) False 1(1) show ?thesis by auto
  qed
qed simp

lemma feed_line:
  assumes "holds l s x []" "wl_read_id l" "10 \<notin> set bs" "length x + length (line_name bs) < 16" "length (line_args bs) < 1024"
  shows "\<exists>l' s'. wifly_feed fuel cb bs l s = Done l' s' \<and> holds l' s' (x @ line_name bs) (line_args bs)"
  using assms
proof (induction bs arbitrary: l s x)
  case Nil
  then show ?case by (simp add: line_name_def line_args_def)
next
  case (Cons b bs)
  have x: "length x < 16" using Cons.prems(4) by simp
  consider "b = 13" | "b = 32" | "b \<noteq> 13" "b \<noteq> 32" by blast
  then show ?case
  proof cases
    case 1
    have e: "line_name (b # bs) = line_name bs" "line_args (b # bs) = line_args bs"
      using 1 by (simp_all add: line_name_def line_args_def)
    from Cons.IH[OF Cons.prems(1,2)] Cons.prems(3-5) input_skip[OF Cons.prems(1) x _ 1] show ?thesis unfolding e by auto
  next
    case 2
    have e: "line_name (b # bs) = []" "line_args (b # bs) = filter (\<lambda>b. b \<noteq> 13) bs"
      using 2 by (simp_all add: line_name_def line_args_def)
    have h: "holds (l\<lparr>wl_read_id := False\<rparr>) s x []" using Cons.prems(1) by (simp add: holds_def)
    from feed_args[OF h _ x, of bs fuel cb] Cons.prems(3,5) input_space[OF Cons.prems(1) x _ Cons.prems(2)] 2
    show ?thesis unfolding e by auto
  next
    case 3
    have e: "line_name (b # bs) = b # line_name bs" "line_args (b # bs) = line_args bs"
      using 3 by (simp_all add: line_name_def line_args_def)
    have l: "length x < 15" "b \<noteq> 10" using Cons.prems(3,4) unfolding e by auto
    from input_name[OF Cons.prems(1,2) l(1) _ 3(1) l(2) 3(2), where fuel = fuel and cb = cb] obtain l1 s1 where
      1: "wifly_input fuel cb (uint b) l s = Done l1 s1" "holds l1 s1 (x @ [b]) []" "wl_read_id l1" by auto
    from Cons.IH[OF 1(2,3)] Cons.prems(3-5) 1(1) show ?thesis unfolding e by auto
  qed
qed

lemma line_zero: "0 \<notin> set bs \<Longrightarrow> 0 \<notin> set (line_name bs) \<and> 0 \<notin> set (line_args bs)"
  by (auto simp: line_name_def line_args_def dest!: set_takeWhileD in_set_dropD set_dropWhileD)

text \<open>
  A line that fits ends in the call of the callback, which finds the name and the argument of the line
  as strings in the two arrays.
\<close>

lemma command_line:
  assumes "length (bufs s id_buf) = 16" "length (bufs s args_buf) = 1024" "10 \<notin> set bs" "0 \<notin> set bs"
    "length (line_name bs) < 16" "length (line_args bs) < 1024"
    "\<not> (2 < length (line_name bs) \<and> hd (line_name bs) = of_char CHR ''*'' \<and> last (line_name bs) = of_char CHR ''*'')"
  shows "\<exists>s'. wifly_feed fuel cb (bs @ [10]) fresh s =
      obind (cb id_buf args_buf s') (\<lambda>ret s. obind
        (if ret = M_OK then lit_send fuel ''*OK*'' s
         else if ret \<noteq> M_MESSAGE then lit_send fuel ''*ERROR*'' s else Done () s) (\<lambda>_ s. Done fresh s)) \<and>
    cstr (bufs s' id_buf) = Some (line_name bs) \<and> cstr (bufs s' args_buf) = Some (line_args bs)"
proof -
  have h: "holds fresh s [] []" "wl_read_id fresh" using assms(1,2) by (simp_all add: holds_def fresh_def)
  from feed_line[OF h assms(3), where fuel = fuel and cb = cb] assms(5,6) obtain l1 s1 where
    1: "wifly_feed fuel cb bs fresh s = Done l1 s1" "holds l1 s1 (line_name bs) (line_args bs)" by auto
  note H = 1(2)[unfolded holds_def]
  let ?n = "line_name bs" and ?a = "line_args bs"
  let ?s2 = "s1\<lparr>bufs := (bufs s1)(args_buf := (bufs s1 args_buf)[wl_j l1 := 0])\<rparr>"
  let ?s3 = "?s2\<lparr>bufs := (bufs ?s2)(id_buf := (bufs ?s2 id_buf)[wl_i l1 := 0])\<rparr>"
  have st: "store args_buf (wl_j l1) 0 s1 = Done () ?s2" "store id_buf (wl_i l1) 0 ?s2 = Done () ?s3"
    using H assms(5,6) id_args by (simp_all add: store_def put_byte_def)
  have split: "a[length x := 0] = x @ 0 # drop (Suc (length x)) a" if "take (length x) a = x" "length x < length a" for a x :: "byte list"
    using that upd_conv_take_nth_drop[of "length x" a 0] by simp
  have B: "bufs ?s3 id_buf = ?n @ 0 # drop (Suc (length ?n)) (bufs s1 id_buf)"
    "bufs ?s3 args_buf = ?a @ 0 # drop (Suc (length ?a)) (bufs s1 args_buf)"
    using H assms(5,6) id_args split[of ?n "bufs s1 id_buf"] split[of ?a "bufs s1 args_buf"] by simp_all
  have c: "cstr (bufs ?s3 id_buf) = Some ?n" "cstr (bufs ?s3 args_buf) = Some ?a"
    unfolding B using line_zero[OF assms(4)] by (simp_all add: cstr_zero)
  have ns: "\<not> (2 < wl_i l1 \<and> bufs ?s3 id_buf ! 0 = of_char CHR ''*'' \<and> bufs ?s3 id_buf ! (wl_i l1 - 1) = of_char CHR ''*'')"
  proof
    assume a: "2 < wl_i l1 \<and> bufs ?s3 id_buf ! 0 = of_char CHR ''*'' \<and> bufs ?s3 id_buf ! (wl_i l1 - 1) = of_char CHR ''*''"
    then have "2 < length ?n" using H by simp
    moreover from this have "?n \<noteq> []" by auto
    ultimately show False using a assms(7) H unfolding B(1)
      by (auto simp: nth_append hd_conv_nth last_conv_nth)
  qed
  have nil: "wifly_feed fuel cb [] = (\<lambda>l s. Done l s)" by (intro ext) simp
  have "wifly_feed fuel cb (bs @ [10]) fresh s = wifly_input fuel cb LF l1 s1"
    unfolding feed_append 1(1) by (simp add: LF_def nil del: wifly_feed.simps(1))
  also have "\<dots> = obind (wifly_command fuel cb l1 s1) (\<lambda>_ s. Done fresh s)"
    using H assms(5,6) by (auto simp: wifly_input_def wifly_put_def LF_def CR_def)
  also have "wifly_command fuel cb l1 s1 = obind (cb id_buf args_buf ?s3) (\<lambda>ret s.
         if ret = M_OK then lit_send fuel ''*OK*'' s
         else if ret \<noteq> M_MESSAGE then lit_send fuel ''*ERROR*'' s else Done () s)"
    unfolding wifly_command_def st obind.simps Let_def if_not_P[OF ns] by (rule refl)
  finally show ?thesis using c by (intro exI[of _ ?s3]) (simp only: obind_assoc simp_thms)
qed

end
