(* ===== verification/Sonar.thy ===== *)
theory Sonar
  imports Adc Wifly
begin

text \<open>
  The sonar service, \<^verbatim>\<open>serv_sonar.c\<close>: a circular conversion of one channel into a buffer of eight
  samples, whose callback computes the distance and switches a LED.
\<close>

definition ADC_CHANNELS :: nat where "ADC_CHANNELS = 1"
definition ADC_BUFFER_DEPTH :: nat where "ADC_BUFFER_DEPTH = 8"
definition STOP :: int where "STOP = 40"
definition sampels :: nat where "sampels = 0"
definition itoa_string :: nat where "itoa_string = 3"

text \<open>The four characters for a number; division and remainder are C's.\<close>

definition itoa_digits :: "int \<Rightarrow> byte list" where
  "itoa_digits getal =
     map (\<lambda>d. word_of_int (d + 48))
       [getal sdiv 1000, (getal smod 1000) sdiv 100, (getal smod 100) sdiv 10, getal smod 10]"

definition itoa :: "int \<Rightarrow> 'x robot_scheme \<Rightarrow> ('x, nat) rout" where
  "itoa getal s =
     (if length (bufs s itoa_string) = 7
      then Done itoa_string (s\<lparr>bufs := (bufs s)(itoa_string := itoa_digits getal @ [13, 10, 0])\<rparr>)
      else Fault)"

text \<open>The sum over the samples, from the first to the last.\<close>

fun sample_sum :: "16 word list \<Rightarrow> int \<Rightarrow> int" where
  "sample_sum [] c = c"
| "sample_sum (x # xs) c = sample_sum xs (s32 (c + uint x))"

definition adccallback :: "nat \<Rightarrow> nat \<Rightarrow> nat \<Rightarrow> nat \<Rightarrow> 'x robot_scheme \<Rightarrow> ('x, unit) rout" where
  "adccallback adcp buffer off n s =
     (if length (adbufs s buffer) < off + n then Fault
      else (let correction = sample_sum (take n (drop off (adbufs s buffer))) 0;
                dist = correction sdiv int ADC_BUFFER_DEPTH;
                s1 = s\<lparr>Tdistance := dist\<rparr>
            in Done () (if dist < STOP then palSetPad GPIOD GPIOD_LED3 s1 else palClearPad GPIOD GPIOD_LED3 s1)))"

definition adcerrorcallback :: "nat \<Rightarrow> nat \<Rightarrow> int \<Rightarrow> 'x robot_scheme \<Rightarrow> ('x, unit) rout" where
  "adcerrorcallback fuel adcp err s =
     obind (itoa err s) (\<lambda>p s1. obind (wiflySend fuel p s1) (\<lambda>_ s2. Done () s2))"

definition adcgrpcfg2 :: adcgroup where
  "adcgrpcfg2 = \<lparr>ag_circular = True, ag_num_channels = ADC_CHANNELS, ag_end_cb = Some Fn_adccallback,
     ag_error_cb = Some Fn_adcerrorcallback, ag_cr1 = 0, ag_cr2 = ADC_CR2_SWSTART,
     ag_smpr1 = push_bit 12 3, ag_smpr2 = 0, ag_sqr1 = push_bit 20 (of_nat ADC_CHANNELS - 1), ag_sqr2 = 0,
     ag_sqr3 = 14\<rparr>"

definition sonarInit :: "'x robot_scheme \<Rightarrow> ('x, unit) rout" where
  "sonarInit s =
     obind (adcStart ADCD1 s) (\<lambda>_ s1.
     Done () (palSetPadMode GPIOD GPIOD_LED3 PAL_MODE_OUTPUT_PUSHPULL (palSetPadMode GPIOC 4 PAL_MODE_INPUT_ANALOG s1)))"

definition sonarStart :: "'x robot_scheme \<Rightarrow> ('x, unit) rout" where
  "sonarStart s = adcStartConversionI ADCD1 adcgrpcfg2 sampels ADC_BUFFER_DEPTH (s\<lparr>sonar_en := True\<rparr>)"

definition sonarStop :: "'x robot_scheme \<Rightarrow> ('x, unit) rout" where
  "sonarStop s = adcStopConversionI ADCD1 (s\<lparr>sonar_en := False\<rparr>)"

definition sonarDistance :: "'x robot_scheme \<Rightarrow> int" where
  "sonarDistance s = Tdistance s"

definition sonarActive :: "'x robot_scheme \<Rightarrow> bool" where
  "sonarActive s = sonar_en s"

text \<open>The two functions behind the names in the conversion group.\<close>

definition adc_end_fn :: "adcfn \<Rightarrow> nat \<Rightarrow> nat \<Rightarrow> nat \<Rightarrow> nat \<Rightarrow> 'x robot_scheme \<Rightarrow> ('x, unit) rout" where
  "adc_end_fn f a p off n s = (case f of Fn_adccallback \<Rightarrow> adccallback a p off n s | Fn_adcerrorcallback \<Rightarrow> Fault)"

definition adc_err_fn :: "nat \<Rightarrow> adcfn \<Rightarrow> nat \<Rightarrow> int \<Rightarrow> 'x robot_scheme \<Rightarrow> ('x, unit) rout" where
  "adc_err_fn fuel f a err s = (case f of Fn_adcerrorcallback \<Rightarrow> adcerrorcallback fuel a err s | Fn_adccallback \<Rightarrow> Fault)"

section \<open>What a conversion reports\<close>

definition sonar_running :: "'x robot_scheme \<Rightarrow> bool" where
  "sonar_running s \<longleftrightarrow> ad_grpp (adcs s ADCD1) = Some adcgrpcfg2 \<and> ad_samples (adcs s ADCD1) = Some sampels \<and>
     ad_depth (adcs s ADCD1) = ADC_BUFFER_DEPTH \<and> length (adbufs s sampels) = ADC_BUFFER_DEPTH"

lemma sample_sum_nonneg: "0 \<le> c \<Longrightarrow> c + 65536 * int (length xs) < 2147483648 \<Longrightarrow>
    sample_sum xs c = c + sum_list (map uint xs)"
proof (induction xs arbitrary: c)
  case (Cons x xs)
  have u: "0 \<le> uint x" "uint x < 65536" using uint_lt2p[of x] by simp_all
  have "c + 65536 * int (length xs) < 2147418112" "0 \<le> 65536 * int (length xs)" using Cons.prems by simp_all
  with u Cons.prems(1) have "- 2147483648 \<le> c + uint x" "c + uint x < 2147483648" by linarith+
  then have "s32 (c + uint x) = c + uint x" by (rule s32_id)
  with u show ?case using Cons.IH[of "c + uint x"] Cons.prems by simp
qed simp

text \<open>
  Each half of the buffer is reported: the sum of its four samples, divided by eight, is the distance, and
  the LED shows whether it is below the limit. Nothing else of the system changes.
\<close>

lemma sonar_half:
  assumes "length (adbufs s sampels) = ADC_BUFFER_DEPTH" "off + 4 \<le> ADC_BUFFER_DEPTH"
  shows "\<exists>s'. adccallback ADCD1 sampels off 4 s = Done () s' \<and>
    Tdistance s' = sum_list (map uint (take 4 (drop off (adbufs s sampels)))) div 8 \<and>
    bit (ODR (gpios s' GPIOD)) GPIOD_LED3 = (Tdistance s' < 40) \<and> adcs s' = adcs s \<and>
    kernel.truncate s' = kernel.truncate s"
proof -
  let ?xs = "take 4 (drop off (adbufs s sampels))"
  have l: "length ?xs = 4" using assms by (simp add: ADC_BUFFER_DEPTH_def)
  have c: "sample_sum ?xs 0 = sum_list (map uint ?xs)" using sample_sum_nonneg[of 0 ?xs] l by simp
  have n: "0 \<le> sum_list (map uint ?xs)" by (rule sum_list_nonneg) auto
  let ?v = "sum_list (map uint ?xs) div 8"
  have d: "sum_list (map uint ?xs) sdiv int ADC_BUFFER_DEPTH = ?v"
    using n by (simp add: ADC_BUFFER_DEPTH_def signed_divide_int_def sgn_if)
  let ?s1 = "s\<lparr>Tdistance := ?v\<rparr>"
  let ?s = "if ?v < STOP then palSetPad GPIOD GPIOD_LED3 ?s1 else palClearPad GPIOD GPIOD_LED3 ?s1"
  have "adccallback ADCD1 sampels off 4 s = Done () ?s"
    using assms by (simp add: adccallback_def Let_def c d)
  moreover have "Tdistance ?s = ?v" by (simp add: palSetPad_def palClearPad_def set_gpio_def)
  moreover have "bit (ODR (gpios ?s GPIOD)) GPIOD_LED3 = (?v < 40)"
    using pad_ops(1,2)[of GPIOD_LED3 GPIOD_LED3 GPIOD ?s1] by (simp add: GPIOD_LED3_def STOP_def)
  moreover have "adcs ?s = adcs s" "kernel.truncate ?s = kernel.truncate s"
    by (simp_all add: palSetPad_def palClearPad_def set_gpio_def kernel.truncate_def)
  ultimately show ?thesis by (intro exI[of _ ?s]) simp
qed

lemma sonar_interrupt:
  assumes "sonar_running s" "flags = STM32_DMA_ISR_HTIF \<or> flags = STM32_DMA_ISR_TCIF"
  shows "\<exists>s'. adc_lld_serve_rx_interrupt adc_end_fn (adc_err_fn fuel) ADCD1 flags s = Done () s' \<and>
    Tdistance s' = sum_list (map uint (take 4 (drop (if flags = STM32_DMA_ISR_HTIF then 0 else 4) (adbufs s sampels)))) div 8 \<and>
    bit (ODR (gpios s' GPIOD)) GPIOD_LED3 = (Tdistance s' < 40) \<and> adcs s' = adcs s \<and>
    kernel.truncate s' = kernel.truncate s"
proof -
  let ?off = "if flags = STM32_DMA_ISR_HTIF then 0 else 4"
  have l: "length (adbufs s sampels) = ADC_BUFFER_DEPTH" using assms(1) by (simp add: sonar_running_def)
  have "adc_lld_serve_rx_interrupt adc_end_fn (adc_err_fn fuel) ADCD1 flags s = adccallback ADCD1 sampels ?off 4 s"
    using assms by (auto simp: sonar_running_def adc_lld_serve_rx_interrupt_def adc_isr_half_code_def
        adc_isr_full_code_def adc_full_callback_def adcgrpcfg2_def adc_end_fn_def ADC_BUFFER_DEPTH_def ADC_CHANNELS_def
        dma_bits)
  then show ?thesis using sonar_half[OF l, of ?off] by (simp add: ADC_BUFFER_DEPTH_def)
qed

text \<open>Starting establishes this; after stopping, an interrupt that is still on its way finds no conversion.\<close>

lemma sonar_started:
  assumes "length (adbufs s sampels) = ADC_BUFFER_DEPTH"
  shows "\<exists>s'. sonarStart s = Done () s' \<and> sonar_running s' \<and> sonarActive s' \<and> ad_state (adcs s' ADCD1) = ADC_ACTIVE \<and>
    dma_enabled (ad_dma (adcs s' ADCD1)) \<and> dma_size (ad_dma (adcs s' ADCD1)) = 8 \<and>
    a_CR2 (adcs s' ADCD1) AND ADC_CR2_SWSTART \<noteq> 0"
  using assms
  by (simp add: sonarStart_def adcStartConversionI_def adc_lld_start_conversion_def Let_def sonar_running_def
      adcgrpcfg2_def sonarActive_def upd_adc_def dma_ops ADC_CHANNELS_def ADC_BUFFER_DEPTH_def adc_bits)

lemma sonar_stopped:
  assumes "ad_thread (adcs s ADCD1) = None" "ad_state (adcs s ADCD1) \<noteq> ADC_READY"
    "flags AND (STM32_DMA_ISR_TEIF OR STM32_DMA_ISR_DMEIF) = 0"
  shows "\<exists>s'. sonarStop s = Done () s' \<and> \<not> sonarActive s' \<and> ad_state (adcs s' ADCD1) = ADC_READY \<and>
    \<not> dma_enabled (ad_dma (adcs s' ADCD1)) \<and>
    adc_lld_serve_rx_interrupt adc_end_fn (adc_err_fn fuel) ADCD1 flags s' = Done () s'"
  using assms
  by (simp add: sonarStop_def adcStopConversionI_def adc_reset_i_def adc_ready_def upd_adc_def sonarActive_def
      adc_lld_stop_conversion_def dma_ops adc_lld_serve_rx_interrupt_def)

section \<open>Numbers as text\<close>

text \<open>Four digits are enough for the numbers below ten thousand: they are read back as they were written.\<close>

lemma digit: "0 \<le> d \<Longrightarrow> d < 10 \<Longrightarrow> is_digit (word_of_int (d + 48) :: byte) \<and> uint (word_of_int (d + 48) :: byte) = d + 48 \<and>
    (word_of_int (d + 48) :: byte) \<noteq> 0 \<and> \<not> is_space (word_of_int (d + 48) :: byte) \<and>
    (word_of_int (d + 48) :: byte) \<noteq> 45 \<and> (word_of_int (d + 48) :: byte) \<noteq> 43"
proof -
  assume d: "0 \<le> d" "d < 10"
  have u: "uint (word_of_int (d + 48) :: byte) = d + 48" 
    using d uint_word_of_int_eq[of "d + 48", where ?'a = 8] take_bit_int_eq_self[of "d + 48" 8] by (simp del: of_int_add)
  then show ?thesis using d by (simp add: is_digit_def is_space_def word_le_def word_uint_eq_iff)
qed

lemma sdiv_pos: "0 \<le> a \<Longrightarrow> 0 < b \<Longrightarrow> a sdiv b = a div b" for a b :: int
  by (cases "a = 0") (simp_all add: signed_divide_int_eq_divide_int sgn_if)

lemma smod_pos: "0 \<le> a \<Longrightarrow> 0 < b \<Longrightarrow> a smod b = a mod b" for a b :: int
  by (cases "a = 0") (simp_all add: signed_modulo_int_eq_modulo_int sgn_if)

lemma atoi_four:
  fixes x :: byte
  assumes "is_digit w" "is_digit x" "is_digit y" "is_digit z" "\<not> is_space w" "w \<noteq> 45" "w \<noteq> 43"
  shows "atoi_val [w, x, y, z, 13, 10] = (((uint w - 48) * 10 + (uint x - 48)) * 10 + (uint y - 48)) * 10 + (uint z - 48)"
  using assms by (simp add: atoi_val_def) (simp add: is_digit_def)

lemma itoa_atoi:
  assumes "0 \<le> v" "v < 10000" "length (bufs s itoa_string) = 7"
  shows "\<exists>s'. itoa v s = Done itoa_string s' \<and> atoi itoa_string s' = Done v s'"
proof -
  define a b c d where "a = v div 1000" and "b = v mod 1000 div 100" and "c = v mod 100 div 10" and "d = v mod 10"
  have r: "0 \<le> a" "a < 10" "0 \<le> b" "b < 10" "0 \<le> c" "c < 10" "0 \<le> d" "d < 10"
    using assms(1,2) by (simp_all add: a_def b_def c_def d_def)
  have m: "v mod 1000 mod 100 = v mod 100" "v mod 100 mod 10 = v mod 10" by (simp_all add: mod_mod_cancel)
  have "a * 1000 + x = v \<Longrightarrow> b * 100 + y = x \<Longrightarrow> c * 10 + d = y \<Longrightarrow> v = ((a * 10 + b) * 10 + c) * 10 + d" for x y
    by simp
  from this[of "v mod 1000" "v mod 100"] have v: "v = ((a * 10 + b) * 10 + c) * 10 + d"
    using div_mult_mod_eq[of v 1000] div_mult_mod_eq[of "v mod 1000" 100] div_mult_mod_eq[of "v mod 100" 10]
    unfolding m a_def b_def c_def d_def by blast
  have e: "itoa_digits v = [word_of_int (a + 48), word_of_int (b + 48), word_of_int (c + 48), word_of_int (d + 48)]"
    using assms(1) by (simp add: itoa_digits_def a_def b_def c_def d_def sdiv_pos smod_pos)
  let ?x = "itoa_digits v @ [13, 10]"
  let ?s = "s\<lparr>bufs := (bufs s)(itoa_string := ?x @ [0])\<rparr>"
  note D = digit[OF r(1,2)] digit[OF r(3,4)] digit[OF r(5,6)] digit[OF r(7,8)]
  have "0 \<notin> set ?x" using D by (auto simp: e)
  from cstr_zero[OF this, of "[]"] have cs: "cstr (itoa_digits v @ [13, 10, 0]) = Some ?x" by simp
  have "atoi_val ?x = v" 
    using atoi_four[of "word_of_int (a + 48)" "word_of_int (b + 48)" "word_of_int (c + 48)" "word_of_int (d + 48)"] D
    unfolding e append.simps by (simp only: v) simp
  then have "atoi itoa_string ?s = Done v ?s" using assms(1,2) by (simp add: atoi_def cs)
  moreover have "itoa v s = Done itoa_string ?s" using assms(3) by (simp add: itoa_def)
  ultimately show ?thesis by blast
qed

end
