(* ===== verification/Spi.thy ===== *)
theory Spi
  imports Dma Io_Wait
begin

text \<open>
  The SPI driver (\<^verbatim>\<open>os/hal/src/spi.c\<close>, \<^verbatim>\<open>include/spi.h\<close>, \<^verbatim>\<open>platforms/STM32/SPIv1/spi_lld.c\<close>), for the port the
  robot uses, \<^verbatim>\<open>SPID1\<close>, and the accelerometer's register access on top of it
  (\<^verbatim>\<open>os/various/devices_lib/accel/lis302dl.c\<close>). The bytes of a transfer are moved by the hardware while the
  thread sleeps.
\<close>

section \<open>Registers\<close>

definition SPI_CR1_CPHA :: "16 word" where "SPI_CR1_CPHA = 0x0001"
definition SPI_CR1_CPOL :: "16 word" where "SPI_CR1_CPOL = 0x0002"
definition SPI_CR1_MSTR :: "16 word" where "SPI_CR1_MSTR = 0x0004"
definition SPI_CR1_BR_0 :: "16 word" where "SPI_CR1_BR_0 = 0x0008"
definition SPI_CR1_BR_1 :: "16 word" where "SPI_CR1_BR_1 = 0x0010"
definition SPI_CR1_SPE :: "16 word" where "SPI_CR1_SPE = 0x0040"
definition SPI_CR1_SSI :: "16 word" where "SPI_CR1_SSI = 0x0100"
definition SPI_CR1_SSM :: "16 word" where "SPI_CR1_SSM = 0x0200"
definition SPI_CR1_DFF :: "16 word" where "SPI_CR1_DFF = 0x0800"
definition SPI_CR2_RXDMAEN :: "16 word" where "SPI_CR2_RXDMAEN = 0x01"
definition SPI_CR2_TXDMAEN :: "16 word" where "SPI_CR2_TXDMAEN = 0x02"
definition SPI_CR2_SSOE :: "16 word" where "SPI_CR2_SSOE = 0x04"

lemmas spi_bits = SPI_CR1_CPHA_def SPI_CR1_CPOL_def SPI_CR1_MSTR_def SPI_CR1_BR_0_def SPI_CR1_BR_1_def
  SPI_CR1_SPE_def SPI_CR1_SSI_def SPI_CR1_SSM_def SPI_CR1_DFF_def SPI_CR2_RXDMAEN_def SPI_CR2_TXDMAEN_def
  SPI_CR2_SSOE_def

definition SPID1 :: nat where "SPID1 = 0"

text \<open>The two dummy buffers of the low level driver, as addresses.\<close>

definition dummytx :: nat where "dummytx = 20"
definition dummyrx :: nat where "dummyrx = 21"

definition upd_spi :: "nat \<Rightarrow> (spidrv \<Rightarrow> spidrv) \<Rightarrow> 'x hal_scheme \<Rightarrow> 'x hal_scheme" where
  "upd_spi p f s = s\<lparr>spis := (spis s)(p := f (spis s p))\<rparr>"

type_synonym 'x spi_cb = "nat \<Rightarrow> nat \<Rightarrow> 'x hal_scheme \<Rightarrow> ('x hal_scheme, unit) outcome"

section \<open>The low level driver\<close>

definition spi_lld_start :: "spidrv \<Rightarrow> spidrv option" where
  "spi_lld_start d =
     (case sp_config d of
        None \<Rightarrow> None
      | Some c \<Rightarrow>
          (let stopped = (sp_state d = SPI_STOP);
               width = (if sp_cr1 c AND SPI_CR1_DFF = 0 then STM32_DMA_CR_PSIZE_BYTE OR STM32_DMA_CR_MSIZE_BYTE
                        else STM32_DMA_CR_PSIZE_HWORD OR STM32_DMA_CR_MSIZE_HWORD)
           in Some (d\<lparr>sp_dmarx := (if stopped then snd (dmaStreamAllocate (sp_dmarx d)) else sp_dmarx d),
                sp_dmatx := (if stopped then snd (dmaStreamAllocate (sp_dmatx d)) else sp_dmatx d),
                sp_rxdmamode := (sp_rxdmamode d AND NOT STM32_DMA_CR_SIZE_MASK) OR width,
                sp_txdmamode := (sp_txdmamode d AND NOT STM32_DMA_CR_SIZE_MASK) OR width,
                s_CR1 := sp_cr1 c OR SPI_CR1_MSTR OR SPI_CR1_SSM OR SPI_CR1_SSI OR SPI_CR1_SPE,
                s_CR2 := SPI_CR2_SSOE OR SPI_CR2_RXDMAEN OR SPI_CR2_TXDMAEN\<rparr>)))"

definition spi_lld_stop :: "spidrv \<Rightarrow> spidrv" where
  "spi_lld_stop d =
     (if sp_state d = SPI_READY
      then d\<lparr>s_CR1 := 0, s_CR2 := 0, sp_dmarx := dmaStreamRelease (sp_dmarx d), sp_dmatx := dmaStreamRelease (sp_dmatx d)\<rparr>
      else d)"

definition spi_lld_select :: "nat \<Rightarrow> 'x hal_scheme \<Rightarrow> ('x, unit) hout" where
  "spi_lld_select p s =
     (case sp_config (spis s p) of None \<Rightarrow> Fault | Some c \<Rightarrow> Done () (palClearPad (sp_ssport c) (sp_sspad c) s))"

definition spi_lld_unselect :: "nat \<Rightarrow> 'x hal_scheme \<Rightarrow> ('x, unit) hout" where
  "spi_lld_unselect p s =
     (case sp_config (spis s p) of None \<Rightarrow> Fault | Some c \<Rightarrow> Done () (palSetPad (sp_ssport c) (sp_sspad c) s))"

text \<open>A stream is given its buffer, count and mode; the four operations differ in the buffers and in what increments.\<close>

definition spi_dma :: "nat \<Rightarrow> 32 word \<Rightarrow> 32 word \<Rightarrow> dma \<Rightarrow> dma" where
  "spi_dma buf n mode m =
     dmaStreamEnable (dmaStreamSetMode mode (dmaStreamSetTransactionSize n (dmaStreamSetMemory0 (Some buf) m)))"

definition spi_lld_ignore :: "32 word \<Rightarrow> spidrv \<Rightarrow> spidrv" where
  "spi_lld_ignore n d = d\<lparr>sp_dmarx := spi_dma dummyrx n (sp_rxdmamode d) (sp_dmarx d),
     sp_dmatx := spi_dma dummytx n (sp_txdmamode d) (sp_dmatx d)\<rparr>"

definition spi_lld_exchange :: "32 word \<Rightarrow> nat \<Rightarrow> nat \<Rightarrow> spidrv \<Rightarrow> spidrv" where
  "spi_lld_exchange n txbuf rxbuf d =
     d\<lparr>sp_dmarx := spi_dma rxbuf n (sp_rxdmamode d OR STM32_DMA_CR_MINC) (sp_dmarx d),
       sp_dmatx := spi_dma txbuf n (sp_txdmamode d OR STM32_DMA_CR_MINC) (sp_dmatx d)\<rparr>"

definition spi_lld_send :: "32 word \<Rightarrow> nat \<Rightarrow> spidrv \<Rightarrow> spidrv" where
  "spi_lld_send n txbuf d = d\<lparr>sp_dmarx := spi_dma dummyrx n (sp_rxdmamode d) (sp_dmarx d),
     sp_dmatx := spi_dma txbuf n (sp_txdmamode d OR STM32_DMA_CR_MINC) (sp_dmatx d)\<rparr>"

definition spi_lld_receive :: "32 word \<Rightarrow> nat \<Rightarrow> spidrv \<Rightarrow> spidrv" where
  "spi_lld_receive n rxbuf d =
     d\<lparr>sp_dmarx := spi_dma rxbuf n (sp_rxdmamode d OR STM32_DMA_CR_MINC) (sp_dmarx d),
       sp_dmatx := spi_dma dummytx n (sp_txdmamode d) (sp_dmatx d)\<rparr>"

section \<open>The driver\<close>

definition spiObjectInit :: "nat \<Rightarrow> 'x hal_scheme \<Rightarrow> 'x hal_scheme" where
  "spiObjectInit p s =
     (let s1 = upd_spi p (\<lambda>d. d\<lparr>sp_state := SPI_STOP, sp_config := None, sp_thread := None\<rparr>) s
      in chMtxInit (sp_mutex (spis s1 p)) s1)"

definition spi_lld_init :: "'x hal_scheme \<Rightarrow> 'x hal_scheme" where
  "spi_lld_init s =
     (let m = STM32_DMA_CR_CHSEL 3 OR STM32_DMA_CR_PL 1
      in upd_spi SPID1 (\<lambda>d. d\<lparr>
           sp_rxdmamode := m OR STM32_DMA_CR_DIR_P2M OR STM32_DMA_CR_TCIE OR STM32_DMA_CR_DMEIE OR STM32_DMA_CR_TEIE,
           sp_txdmamode := m OR STM32_DMA_CR_DIR_M2P OR STM32_DMA_CR_DMEIE OR STM32_DMA_CR_TEIE\<rparr>)
         (spiObjectInit SPID1 s))"

definition spiInit :: "'x hal_scheme \<Rightarrow> 'x hal_scheme" where
  "spiInit s = spi_lld_init s"

definition spiStart :: "nat \<Rightarrow> spiconfig \<Rightarrow> 'x hal_scheme \<Rightarrow> ('x, unit) hout" where
  "spiStart p config s =
     (case spi_lld_start ((spis s p)\<lparr>sp_config := Some config\<rparr>) of
        None \<Rightarrow> Fault
      | Some d \<Rightarrow> Done () (upd_spi p (\<lambda>_. d\<lparr>sp_state := SPI_READY\<rparr>) s))"

definition spiStop :: "nat \<Rightarrow> 'x hal_scheme \<Rightarrow> ('x, unit) hout" where
  "spiStop p s =
     obind (spi_lld_unselect p s) (\<lambda>_ s1. Done () (upd_spi p (\<lambda>d. (spi_lld_stop d)\<lparr>sp_state := SPI_STOP\<rparr>) s1))"

definition spiSelectI :: "nat \<Rightarrow> 'x hal_scheme \<Rightarrow> ('x, unit) hout" where
  "spiSelectI p s = spi_lld_select p s"

definition spiUnselectI :: "nat \<Rightarrow> 'x hal_scheme \<Rightarrow> ('x, unit) hout" where
  "spiUnselectI p s = spi_lld_unselect p s"

definition spiSelect :: "nat \<Rightarrow> 'x hal_scheme \<Rightarrow> ('x, unit) hout" where
  "spiSelect p s = spiSelectI p s"

definition spiUnselect :: "nat \<Rightarrow> 'x hal_scheme \<Rightarrow> ('x, unit) hout" where
  "spiUnselect p s = spiUnselectI p s"

definition spiStartIgnoreI :: "nat \<Rightarrow> 32 word \<Rightarrow> 'x hal_scheme \<Rightarrow> 'x hal_scheme" where
  "spiStartIgnoreI p n s = upd_spi p (\<lambda>d. spi_lld_ignore n (d\<lparr>sp_state := SPI_ACTIVE\<rparr>)) s"

definition spiStartExchangeI :: "nat \<Rightarrow> 32 word \<Rightarrow> nat \<Rightarrow> nat \<Rightarrow> 'x hal_scheme \<Rightarrow> 'x hal_scheme" where
  "spiStartExchangeI p n txbuf rxbuf s = upd_spi p (\<lambda>d. spi_lld_exchange n txbuf rxbuf (d\<lparr>sp_state := SPI_ACTIVE\<rparr>)) s"

definition spiStartSendI :: "nat \<Rightarrow> 32 word \<Rightarrow> nat \<Rightarrow> 'x hal_scheme \<Rightarrow> 'x hal_scheme" where
  "spiStartSendI p n txbuf s = upd_spi p (\<lambda>d. spi_lld_send n txbuf (d\<lparr>sp_state := SPI_ACTIVE\<rparr>)) s"

definition spiStartReceiveI :: "nat \<Rightarrow> 32 word \<Rightarrow> nat \<Rightarrow> 'x hal_scheme \<Rightarrow> 'x hal_scheme" where
  "spiStartReceiveI p n rxbuf s = upd_spi p (\<lambda>d. spi_lld_receive n rxbuf (d\<lparr>sp_state := SPI_ACTIVE\<rparr>)) s"

definition spiStartIgnore :: "nat \<Rightarrow> 32 word \<Rightarrow> 'x hal_scheme \<Rightarrow> ('x, unit) hout" where
  "spiStartIgnore p n s = Done () (spiStartIgnoreI p n s)"

definition spiStartExchange :: "nat \<Rightarrow> 32 word \<Rightarrow> nat \<Rightarrow> nat \<Rightarrow> 'x hal_scheme \<Rightarrow> ('x, unit) hout" where
  "spiStartExchange p n txbuf rxbuf s = Done () (spiStartExchangeI p n txbuf rxbuf s)"

definition spiStartSend :: "nat \<Rightarrow> 32 word \<Rightarrow> nat \<Rightarrow> 'x hal_scheme \<Rightarrow> ('x, unit) hout" where
  "spiStartSend p n txbuf s = Done () (spiStartSendI p n txbuf s)"

definition spiStartReceive :: "nat \<Rightarrow> 32 word \<Rightarrow> nat \<Rightarrow> 'x hal_scheme \<Rightarrow> ('x, unit) hout" where
  "spiStartReceive p n rxbuf s = Done () (spiStartReceiveI p n rxbuf s)"

text \<open>The sleep until the transfer is over, and the wake-up by the interrupt.\<close>

definition spi_wait_s :: "nat \<Rightarrow> 'x hal_scheme \<Rightarrow> ('x, unit) hout" where
  "spi_wait_s p s = chSchGoSleepS THD_STATE_SUSPENDED (upd_spi p (\<lambda>d. d\<lparr>sp_thread := Some (currp s)\<rparr>) s)"

definition spi_wakeup_isr :: "nat \<Rightarrow> 'x hal_scheme \<Rightarrow> ('x, unit) hout" where
  "spi_wakeup_isr p s =
     (case sp_thread (spis s p) of
        None \<Rightarrow> Done () s
      | Some tp \<Rightarrow> obind (chSchReadyI tp (upd_spi p (\<lambda>d. d\<lparr>sp_thread := None\<rparr>) s)) (\<lambda>_ s1. Done () s1))"

definition spi_isr_code :: "'x spi_cb \<Rightarrow> nat \<Rightarrow> 'x hal_scheme \<Rightarrow> ('x, unit) hout" where
  "spi_isr_code cb p s =
     (case sp_config (spis s p) of
        None \<Rightarrow> Fault
      | Some c \<Rightarrow>
          obind (case sp_end_cb c of
                   None \<Rightarrow> Done () (upd_spi p (\<lambda>d. d\<lparr>sp_state := SPI_READY\<rparr>) s)
                 | Some f \<Rightarrow> obind (cb f p (upd_spi p (\<lambda>d. d\<lparr>sp_state := SPI_COMPLETE\<rparr>) s)) (\<lambda>_ s1.
                     Done () (if sp_state (spis s1 p) = SPI_COMPLETE
                              then upd_spi p (\<lambda>d. d\<lparr>sp_state := SPI_READY\<rparr>) s1 else s1)))
            (\<lambda>_ s2. spi_wakeup_isr p s2))"

text \<open>A DMA error halts the system.\<close>

definition spi_lld_serve_rx_interrupt :: "'x spi_cb \<Rightarrow> nat \<Rightarrow> 32 word \<Rightarrow> 'x hal_scheme \<Rightarrow> ('x, unit) hout" where
  "spi_lld_serve_rx_interrupt cb p flags s =
     (if flags AND (STM32_DMA_ISR_TEIF OR STM32_DMA_ISR_DMEIF) \<noteq> 0 then Fault
      else spi_isr_code cb p (upd_spi p (\<lambda>d. d\<lparr>sp_dmatx := dmaStreamDisable (sp_dmatx d),
             sp_dmarx := dmaStreamDisable (sp_dmarx d)\<rparr>) s))"

definition spi_lld_serve_tx_interrupt :: "nat \<Rightarrow> 32 word \<Rightarrow> 'x hal_scheme \<Rightarrow> ('x, unit) hout" where
  "spi_lld_serve_tx_interrupt p flags s =
     (if flags AND (STM32_DMA_ISR_TEIF OR STM32_DMA_ISR_DMEIF) \<noteq> 0 then Fault else Done () s)"

definition spiIgnore :: "nat \<Rightarrow> 32 word \<Rightarrow> 'x hal_scheme \<Rightarrow> ('x, unit) hout" where
  "spiIgnore p n s = spi_wait_s p (spiStartIgnoreI p n s)"

definition spiExchange :: "nat \<Rightarrow> 32 word \<Rightarrow> nat \<Rightarrow> nat \<Rightarrow> 'x hal_scheme \<Rightarrow> ('x, unit) hout" where
  "spiExchange p n txbuf rxbuf s = spi_wait_s p (spiStartExchangeI p n txbuf rxbuf s)"

definition spiSend :: "nat \<Rightarrow> 32 word \<Rightarrow> nat \<Rightarrow> 'x hal_scheme \<Rightarrow> ('x, unit) hout" where
  "spiSend p n txbuf s = spi_wait_s p (spiStartSendI p n txbuf s)"

definition spiReceive :: "nat \<Rightarrow> 32 word \<Rightarrow> nat \<Rightarrow> 'x hal_scheme \<Rightarrow> ('x, unit) hout" where
  "spiReceive p n rxbuf s = spi_wait_s p (spiStartReceiveI p n rxbuf s)"

definition spiAcquireBus :: "nat \<Rightarrow> 'x hal_scheme \<Rightarrow> ('x, unit) hout" where
  "spiAcquireBus p s = chMtxLock (sp_mutex (spis s p)) s"

definition spiReleaseBus :: "nat \<Rightarrow> 'x hal_scheme \<Rightarrow> ('x, unit) hout" where
  "spiReleaseBus p s = obind (chMtxUnlock s) (\<lambda>_ s1. Done () s1)"

section \<open>Waiting and waking\<close>

lemma upd_spi_fields [simp]:
  "spis (upd_spi p f s) = (spis s)(p := f (spis s p))" "kernel.truncate (upd_spi p f s) = kernel.truncate s"
  "upd_spi p g (upd_spi p f s) = upd_spi p (\<lambda>d. g (f d)) s" "gpios (upd_spi p f s) = gpios s" "bufs (upd_spi p f s) = bufs s"
  by (simp_all add: upd_spi_def kernel.truncate_def)

lemmas upd_spi_kernel [simp] = kernel_same[OF upd_spi_fields(2)] kinv_same[OF upd_spi_fields(2)]

lemma upd_thread_id: "upd_thread t (\<lambda>th. th\<lparr>p_u := p_u th\<rparr>) s = s"
  by (simp add: upd_thread_def)

interpretation spiw: suspend_resume "\<lambda>s. sp_thread (spis s p)" "\<lambda>t. upd_spi p (\<lambda>d. d\<lparr>sp_thread := t\<rparr>)" "spi_wakeup_isr p" p_u
proof
  show "sp_thread (spis s' p) = sp_thread (spis s p)" if "kernel.more s' = kernel.more s" for s s' :: "'x hal_scheme"
    using hal_more(6)[OF that] by simp
  show "spi_wakeup_isr p s = (case sp_thread (spis s p) of None \<Rightarrow> Done () s
      | Some tp \<Rightarrow> obind (chSchReadyI tp (upd_thread tp (\<lambda>th. th\<lparr>p_u := p_u th\<rparr>)
          (upd_spi p (\<lambda>d. d\<lparr>sp_thread := None\<rparr>) s))) (\<lambda>_ s1. Done () s1))" for s :: "'x hal_scheme"
    unfolding spi_wakeup_isr_def upd_thread_id by (rule refl)
qed simp_all

text \<open>
  A transfer without a callback: the thread sleeps with both streams running over its buffers; the interrupt
  at the end stops them, makes the driver ready and wakes the thread.
\<close>

definition spi_waits :: "nat \<Rightarrow> tid \<Rightarrow> 'x hal_scheme \<Rightarrow> bool" where
  "spi_waits p tp s \<longleftrightarrow> kinv s \<and> sp_thread (spis s p) = Some tp \<and> p_state (threads s tp) = THD_STATE_SUSPENDED"

lemma spi_wait_sleeps:
  assumes "kinv s" "currp s \<noteq> idle_tid"
  shows "\<exists>s'. spi_wait_s p s = Switch s' (Done ()) \<and> spi_waits p (currp s) s' \<and> top_running s' \<and>
    spis s' = (spis s)(p := (spis s p)\<lparr>sp_thread := Some (currp s)\<rparr>) \<and> gpios s' = gpios s \<and> bufs s' = bufs s"
proof -
  from spiw.sleeps[OF assms, of p] obtain s' where
    s': "chSchGoSleepS THD_STATE_SUSPENDED (upd_spi p (\<lambda>d. d\<lparr>sp_thread := Some (currp s)\<rparr>) s) = Switch s' (Done ())"
      "kinv s'" "top_running s'" "sp_thread (spis s' p) = Some (currp s)" "p_state (threads s' (currp s)) = THD_STATE_SUSPENDED"
      "kernel.more s' = kernel.more (upd_spi p (\<lambda>d. d\<lparr>sp_thread := Some (currp s)\<rparr>) s)" by blast
  have "gpios s' = gpios s" "bufs s' = bufs s" "spis s' = (spis s)(p := (spis s p)\<lparr>sp_thread := Some (currp s)\<rparr>)"
    using hal_more(1,6,7)[OF s'(6)] by simp_all
  moreover have "spi_wait_s p s = Switch s' (Done ())" using s'(1) by (simp only: spi_wait_s_def)
  moreover have "spi_waits p (currp s) s'" using s'(2,4,5) by (simp add: spi_waits_def)
  ultimately show ?thesis using s'(3) by blast
qed

lemma spi_done:
  assumes "spi_waits p tp s" "sp_config (spis s p) = Some c" "sp_end_cb c = None"
    "flags AND (STM32_DMA_ISR_TEIF OR STM32_DMA_ISR_DMEIF) = 0"
  shows "\<exists>s'. spi_lld_serve_rx_interrupt cb p flags s = Done () s' \<and> kinv s' \<and> sp_state (spis s' p) = SPI_READY \<and>
    \<not> dma_enabled (sp_dmarx (spis s' p)) \<and> \<not> dma_enabled (sp_dmatx (spis s' p)) \<and> sp_thread (spis s' p) = None \<and>
    p_state (threads s' tp) = THD_STATE_READY \<and> tp \<in> set (tq s' QReady) \<and> bufs s' = bufs s"
proof -
  let ?s = "upd_spi p (\<lambda>d. d\<lparr>sp_dmatx := dmaStreamDisable (sp_dmatx d), sp_dmarx := dmaStreamDisable (sp_dmarx d),
     sp_state := SPI_READY\<rparr>) s"
  have w: "kinv ?s" "sp_thread (spis ?s p) = Some tp" "p_state (threads ?s tp) = THD_STATE_SUSPENDED"
    using assms(1) by (simp_all add: spi_waits_def)
  from spiw.wake_some[OF w] obtain s' where s': "spi_wakeup_isr p ?s = Done () s'" "kinv s'"
    "sp_thread (spis s' p) = None" "threads s' = (threads ?s)(tp := (threads ?s tp)\<lparr>p_u := p_u (threads ?s tp),
       p_state := THD_STATE_READY\<rparr>)" "tp \<in> set (tq s' QReady)"
    "kernel.more s' = kernel.more (upd_spi p (\<lambda>d. d\<lparr>sp_thread := None\<rparr>) ?s)" by blast
  have "spi_lld_serve_rx_interrupt cb p flags s = Done () s'"
    using s'(1) assms(2-4) by (simp add: spi_lld_serve_rx_interrupt_def spi_isr_code_def)
  moreover have "spis s' p = (spis ?s p)\<lparr>sp_thread := None\<rparr>" "bufs s' = bufs s"
    using hal_more(6,7)[OF s'(6)] by simp_all
  ultimately show ?thesis using s'(2,3,5) unfolding s'(4)
    by (intro exI[of _ s']) (simp add: s'(4) dma_ops)
qed

end
