(* ===== verification/Lis302dl.thy ===== *)
theory Lis302dl
  imports Spi CString
begin

text \<open>
  The registers of the accelerometer, \<^verbatim>\<open>os/various/devices_lib/accel/lis302dl.c\<close>: a read and a write are
  transfers of two bytes between the selection and the release of the chip.
\<close>

definition LIS302DL_WHO_AM_I :: "8 word" where "LIS302DL_WHO_AM_I = 0x0F"
definition LIS302DL_CTRL_REG1 :: "8 word" where "LIS302DL_CTRL_REG1 = 0x20"
definition LIS302DL_CTRL_REG2 :: "8 word" where "LIS302DL_CTRL_REG2 = 0x21"
definition LIS302DL_CTRL_REG3 :: "8 word" where "LIS302DL_CTRL_REG3 = 0x22"
definition LIS302DL_OUTX :: "8 word" where "LIS302DL_OUTX = 0x29"
definition LIS302DL_OUTY :: "8 word" where "LIS302DL_OUTY = 0x2B"
definition LIS302DL_OUTZ :: "8 word" where "LIS302DL_OUTZ = 0x2D"
definition LIS302DL_FF_WU_CFG1 :: "8 word" where "LIS302DL_FF_WU_CFG1 = 0x30"
definition LIS302DL_FF_WU_THS1 :: "8 word" where "LIS302DL_FF_WU_THS1 = 0x32"
definition LIS302DL_FF_WU_DURATION1 :: "8 word" where "LIS302DL_FF_WU_DURATION1 = 0x33"
definition LIS302DL_FF_WU_CFG2 :: "8 word" where "LIS302DL_FF_WU_CFG2 = 0x34"
definition LIS302DL_FF_WU_THS2 :: "8 word" where "LIS302DL_FF_WU_THS2 = 0x36"
definition LIS302DL_FF_WU_DURATION2 :: "8 word" where "LIS302DL_FF_WU_DURATION2 = 0x37"
definition LIS302DL_CLICK_CFG :: "8 word" where "LIS302DL_CLICK_CFG = 0x38"
definition LIS302DL_CLICK_THSY_X :: "8 word" where "LIS302DL_CLICK_THSY_X = 0x3B"
definition LIS302DL_CLICK_THSZ :: "8 word" where "LIS302DL_CLICK_THSZ = 0x3C"
definition LIS302DL_CLICK_TIMELIMIT :: "8 word" where "LIS302DL_CLICK_TIMELIMIT = 0x3D"
definition LIS302DL_CLICK_LATENCY :: "8 word" where "LIS302DL_CLICK_LATENCY = 0x3E"
definition LIS302DL_CLICK_WINDOW :: "8 word" where "LIS302DL_CLICK_WINDOW = 0x3F"

lemmas lis302dl_regs = LIS302DL_WHO_AM_I_def LIS302DL_CTRL_REG1_def LIS302DL_CTRL_REG2_def LIS302DL_CTRL_REG3_def
  LIS302DL_OUTX_def LIS302DL_OUTY_def LIS302DL_OUTZ_def LIS302DL_FF_WU_CFG1_def LIS302DL_FF_WU_THS1_def
  LIS302DL_FF_WU_DURATION1_def LIS302DL_FF_WU_CFG2_def LIS302DL_FF_WU_THS2_def LIS302DL_FF_WU_DURATION2_def
  LIS302DL_CLICK_CFG_def LIS302DL_CLICK_THSY_X_def LIS302DL_CLICK_THSZ_def LIS302DL_CLICK_TIMELIMIT_def
  LIS302DL_CLICK_LATENCY_def LIS302DL_CLICK_WINDOW_def

text \<open>The two static buffers.\<close>

definition lis_txbuf :: nat where "lis_txbuf = 10"
definition lis_rxbuf :: nat where "lis_rxbuf = 11"

definition lis302dlReadRegister :: "nat \<Rightarrow> 8 word \<Rightarrow> 'x hal_scheme \<Rightarrow> ('x, 8 word) hout" where
  "lis302dlReadRegister spip reg s =
     obind (spiSelect spip s) (\<lambda>_ s. Window s (\<lambda>s.
     obind (store lis_txbuf 0 (0x80 OR reg) s) (\<lambda>_ s. obind (store lis_txbuf 1 0xFF s) (\<lambda>_ s.
     obind (spiExchange spip 2 lis_txbuf lis_rxbuf s) (\<lambda>_ s. Window s (\<lambda>s.
     obind (spiUnselect spip s) (\<lambda>_ s. Window s (load lis_rxbuf 1))))))))"

text \<open>The registers that are written; any other is read only or reserved, and the call is ignored.\<close>

definition lis302dl_writable :: "8 word list" where
  "lis302dl_writable =
     [LIS302DL_CTRL_REG1, LIS302DL_CTRL_REG2, LIS302DL_CTRL_REG3, LIS302DL_FF_WU_CFG1, LIS302DL_FF_WU_THS1,
      LIS302DL_FF_WU_DURATION1, LIS302DL_FF_WU_CFG2, LIS302DL_FF_WU_THS2, LIS302DL_FF_WU_DURATION2,
      LIS302DL_CLICK_CFG, LIS302DL_CLICK_THSY_X, LIS302DL_CLICK_THSZ, LIS302DL_CLICK_TIMELIMIT,
      LIS302DL_CLICK_LATENCY, LIS302DL_CLICK_WINDOW]"

definition lis302dlWriteRegister :: "nat \<Rightarrow> 8 word \<Rightarrow> 8 word \<Rightarrow> 'x hal_scheme \<Rightarrow> ('x, unit) hout" where
  "lis302dlWriteRegister spip reg value s =
     (if reg \<in> set lis302dl_writable then
        obind (spiSelect spip s) (\<lambda>_ s. Window s (\<lambda>s.
        obind (store lis_txbuf 0 reg s) (\<lambda>_ s. obind (store lis_txbuf 1 value s) (\<lambda>_ s.
        obind (spiSend spip 2 lis_txbuf s) (\<lambda>_ s. Window s (spiUnselect spip))))))
      else Done () s)"

text \<open>
  A read: the chip is selected while the two bytes are exchanged, the first of which names the register
  with the read bit set, and released before the second byte received is returned.
\<close>

lemma put_two:
  assumes "length (bufs s b) = 2"
  shows "\<exists>s1. obind (store b 0 x s) (\<lambda>_ s. obind (store b 1 y s) f) = f () s1 \<and>
    s1 = s\<lparr>bufs := (bufs s)(b := [x, y])\<rparr>"
proof -
  obtain u v where "bufs s b = [u, v]"
    using assms by (metis (no_types, lifting) One_nat_def Suc_1 length_0_conv length_Suc_conv)
  then show ?thesis by (simp add: store_def put_byte_def)
qed

lemma kinv_bufs: "kinv (s\<lparr>bufs := b\<rparr>) = kinv s" for s :: "'x hal_scheme"
  by (rule kinv_same) (simp add: kernel.truncate_def)

lemma read_register:
  assumes "kinv s" "currp s \<noteq> idle_tid" "sp_config (spis s p) = Some c" "length (bufs s lis_txbuf) = 2"
    "sp_sspad c < 16"
  shows "\<exists>s' k. calm (lis302dlReadRegister p reg s) = Switch s' k \<and> spi_waits p (currp s) s' \<and>
    \<not> bit (ODR (gpios s' (sp_ssport c))) (sp_sspad c) \<and> bufs s' lis_txbuf = [0x80 OR reg, 0xFF] \<and>
    sp_config (spis s' p) = Some c \<and> sp_state (spis s' p) = SPI_ACTIVE \<and>
    dma_enabled (sp_dmarx (spis s' p)) \<and> dma_mem (sp_dmarx (spis s' p)) = Some lis_rxbuf \<and>
    dma_size (sp_dmarx (spis s' p)) = 2 \<and> dma_enabled (sp_dmatx (spis s' p)) \<and>
    dma_mem (sp_dmatx (spis s' p)) = Some lis_txbuf \<and> dma_size (sp_dmatx (spis s' p)) = 2 \<and>
    (\<forall>t. sp_config (spis t p) = Some c \<longrightarrow> length (bufs t lis_rxbuf) = 2 \<longrightarrow>
       (\<exists>t'. calm (k t) = Done (bufs t lis_rxbuf ! 1) t' \<and> bit (ODR (gpios t' (sp_ssport c))) (sp_sspad c)))"
proof -
  define s1 where "s1 = palClearPad (sp_ssport c) (sp_sspad c) s"
  have a: "spiSelect p s = Done () s1"
    using assms(3) by (simp add: spiSelect_def spiSelectI_def spi_lld_select_def s1_def)
  have l: "length (bufs s1 lis_txbuf) = 2" using assms(4) by (simp add: s1_def)
  let ?K = "\<lambda>_ s. Window s (\<lambda>s. obind (spiUnselect p s) (\<lambda>_ s. Window s (load lis_rxbuf 1)))"
  from put_two[OF l, of "0x80 OR reg" "0xFF" "\<lambda>_ s. obind (spiExchange p 2 lis_txbuf lis_rxbuf s) ?K"]
  obtain s2 where b: "obind (store lis_txbuf 0 (0x80 OR reg) s1) (\<lambda>_ s. obind (store lis_txbuf 1 0xFF s)
      (\<lambda>_ s. obind (spiExchange p 2 lis_txbuf lis_rxbuf s) ?K)) = obind (spiExchange p 2 lis_txbuf lis_rxbuf s2) ?K"
    "s2 = s1\<lparr>bufs := (bufs s1)(lis_txbuf := [0x80 OR reg, 0xFF])\<rparr>" by blast
  define s3 where "s3 = spiStartExchangeI p 2 lis_txbuf lis_rxbuf s2"
  have k3: "kinv s3" "currp s3 = currp s" using assms(1)
    by (simp_all add: s3_def spiStartExchangeI_def b(2) kinv_bufs s1_def)
  have "currp s3 \<noteq> idle_tid" using k3(2) assms(2) by simp
  from spi_wait_sleeps[OF k3(1) this, of p] obtain s' where s': "spi_wait_s p s3 = Switch s' (Done ())"
    "spi_waits p (currp s3) s'" "spis s' = (spis s3)(p := (spis s3 p)\<lparr>sp_thread := Some (currp s3)\<rparr>)"
    "gpios s' = gpios s3" "bufs s' = bufs s3" by blast
  have "calm (lis302dlReadRegister p reg s) = calm (obind (spiExchange p 2 lis_txbuf lis_rxbuf s2) ?K)"
    by (simp only: lis302dlReadRegister_def a obind.simps calm.simps b(1))
  also have "\<dots> = Switch s' (\<lambda>t. ?K () t)"
    by (simp only: spiExchange_def s'(1) obind.simps calm.simps flip: s3_def)
  finally have c: "calm (lis302dlReadRegister p reg s) = Switch s' (\<lambda>t. ?K () t)" .
  have r: "\<exists>t'. calm (?K () t) = Done (bufs t lis_rxbuf ! 1) t' \<and> bit (ODR (gpios t' (sp_ssport c))) (sp_sspad c)"
    if "sp_config (spis t p) = Some c" "length (bufs t lis_rxbuf) = 2" for t
    using assms(5) that pad_ops(1)[OF assms(5), of "sp_sspad c" "sp_ssport c" t]
    by (intro exI[of _ "palSetPad (sp_ssport c) (sp_sspad c) t"])
      (simp add: spiUnselect_def spiUnselectI_def spi_lld_unselect_def load_def)
  have g: "gpios s3 = gpios s1" "bufs s3 = bufs s2" "spis s2 = spis s"
    by (simp_all add: s3_def spiStartExchangeI_def b(2) s1_def)
  have cs: "\<not> bit (ODR (gpios s' (sp_ssport c))) (sp_sspad c)"
    using assms(5) pad_ops(2)[OF assms(5), of "sp_sspad c" "sp_ssport c" s] unfolding s'(4) g(1) s1_def by simp
  have sp: "spis s' p = (spi_lld_exchange 2 lis_txbuf lis_rxbuf ((spis s p)\<lparr>sp_state := SPI_ACTIVE\<rparr>))
      \<lparr>sp_thread := Some (currp s3)\<rparr>"
    unfolding s'(3) by (simp add: s3_def spiStartExchangeI_def g(3))
  have f: "sp_config (spis s' p) = Some c" "sp_state (spis s' p) = SPI_ACTIVE"
    "dma_enabled (sp_dmarx (spis s' p))" "dma_mem (sp_dmarx (spis s' p)) = Some lis_rxbuf" "dma_size (sp_dmarx (spis s' p)) = 2"
    "dma_enabled (sp_dmatx (spis s' p))" "dma_mem (sp_dmatx (spis s' p)) = Some lis_txbuf" "dma_size (sp_dmatx (spis s' p)) = 2"
    "bufs s' lis_txbuf = [0x80 OR reg, 0xFF]"
    using assms(3) by (simp_all add: sp spi_lld_exchange_def spi_dma_def dma_ops s'(5) g(2) b(2))
  define K :: "'a hal_scheme \<Rightarrow> ('a hal_scheme, 8 word) outcome" where "K = (\<lambda>t. ?K () t)"
  have k: "\<exists>t'. calm (K t) = Done (bufs t lis_rxbuf ! 1) t' \<and> bit (ODR (gpios t' (sp_ssport c))) (sp_sspad c)"
    if "sp_config (spis t p) = Some c" "length (bufs t lis_rxbuf) = 2" for t
    unfolding K_def by (rule r[OF that])
  have "spi_waits p (currp s) s'" using s'(2) k3(2) by simp
  then show ?thesis using c[folded K_def] k cs f by blast
qed

end
