(* ===== verification/I2c.thy ===== *)
theory I2c
  imports Dma Serial Io_Wait
begin

text \<open>
  The I2C driver as a bus master (\<^verbatim>\<open>os/hal/src/i2c.c\<close>, \<^verbatim>\<open>platforms/STM32/I2Cv1/i2c_lld.c\<close>), for the port the
  robot uses, \<^verbatim>\<open>I2CD2\<close>. The status registers are inputs of the interrupt routines; the bus itself and the
  DMA transfers are the hardware's.
\<close>

section \<open>Registers\<close>

definition I2C_CR1_PE :: "16 word" where "I2C_CR1_PE = 0x0001"
definition I2C_CR1_SMBUS :: "16 word" where "I2C_CR1_SMBUS = 0x0002"
definition I2C_CR1_SMBTYPE :: "16 word" where "I2C_CR1_SMBTYPE = 0x0008"
definition I2C_CR1_START :: "16 word" where "I2C_CR1_START = 0x0100"
definition I2C_CR1_STOP :: "16 word" where "I2C_CR1_STOP = 0x0200"
definition I2C_CR1_ACK :: "16 word" where "I2C_CR1_ACK = 0x0400"
definition I2C_CR1_SWRST :: "16 word" where "I2C_CR1_SWRST = 0x8000"
definition I2C_CR2_FREQ :: "16 word" where "I2C_CR2_FREQ = 0x003F"
definition I2C_CR2_ITERREN :: "16 word" where "I2C_CR2_ITERREN = 0x0100"
definition I2C_CR2_ITEVTEN :: "16 word" where "I2C_CR2_ITEVTEN = 0x0200"
definition I2C_CR2_DMAEN :: "16 word" where "I2C_CR2_DMAEN = 0x0800"
definition I2C_CR2_LAST :: "16 word" where "I2C_CR2_LAST = 0x1000"
definition I2C_SR1_SB :: "16 word" where "I2C_SR1_SB = 0x0001"
definition I2C_SR1_ADDR :: "16 word" where "I2C_SR1_ADDR = 0x0002"
definition I2C_SR1_BTF :: "16 word" where "I2C_SR1_BTF = 0x0004"
definition I2C_SR1_TXE :: "16 word" where "I2C_SR1_TXE = 0x0080"
definition I2C_SR1_BERR :: "16 word" where "I2C_SR1_BERR = 0x0100"
definition I2C_SR1_ARLO :: "16 word" where "I2C_SR1_ARLO = 0x0200"
definition I2C_SR1_AF :: "16 word" where "I2C_SR1_AF = 0x0400"
definition I2C_SR1_OVR :: "16 word" where "I2C_SR1_OVR = 0x0800"
definition I2C_SR1_PECERR :: "16 word" where "I2C_SR1_PECERR = 0x1000"
definition I2C_SR1_TIMEOUT :: "16 word" where "I2C_SR1_TIMEOUT = 0x4000"
definition I2C_SR1_SMBALERT :: "16 word" where "I2C_SR1_SMBALERT = 0x8000"
definition I2C_SR2_MSL :: "16 word" where "I2C_SR2_MSL = 0x0001"
definition I2C_SR2_BUSY :: "16 word" where "I2C_SR2_BUSY = 0x0002"
definition I2C_SR2_TRA :: "16 word" where "I2C_SR2_TRA = 0x0004"
definition I2C_CCR_CCR :: "16 word" where "I2C_CCR_CCR = 0x0FFF"
definition I2C_CCR_DUTY :: "16 word" where "I2C_CCR_DUTY = 0x4000"
definition I2C_CCR_FS :: "16 word" where "I2C_CCR_FS = 0x8000"

definition I2CD_NO_ERROR :: "32 word" where "I2CD_NO_ERROR = 0x00"
definition I2CD_BUS_ERROR :: "32 word" where "I2CD_BUS_ERROR = 0x01"
definition I2CD_ARBITRATION_LOST :: "32 word" where "I2CD_ARBITRATION_LOST = 0x02"
definition I2CD_ACK_FAILURE :: "32 word" where "I2CD_ACK_FAILURE = 0x04"
definition I2CD_OVERRUN :: "32 word" where "I2CD_OVERRUN = 0x08"
definition I2CD_PEC_ERROR :: "32 word" where "I2CD_PEC_ERROR = 0x10"
definition I2CD_TIMEOUT :: "32 word" where "I2CD_TIMEOUT = 0x20"
definition I2CD_SMB_ALERT :: "32 word" where "I2CD_SMB_ALERT = 0x40"

text \<open>An event is the two status registers, \<open>SR2\<close> above \<open>SR1\<close>.\<close>

definition i2c_event :: "16 word \<Rightarrow> 16 word \<Rightarrow> 32 word" where
  "i2c_event sr2 sr1 = ucast sr1 OR push_bit 16 (ucast sr2)"

definition I2C_EV5_MASTER_MODE_SELECT :: "32 word" where
  "I2C_EV5_MASTER_MODE_SELECT = i2c_event (I2C_SR2_MSL OR I2C_SR2_BUSY) I2C_SR1_SB"

definition I2C_EV6_MASTER_TRA_MODE_SELECTED :: "32 word" where
  "I2C_EV6_MASTER_TRA_MODE_SELECTED =
     i2c_event (I2C_SR2_MSL OR I2C_SR2_BUSY OR I2C_SR2_TRA) (I2C_SR1_ADDR OR I2C_SR1_TXE)"

definition I2C_EV6_MASTER_REC_MODE_SELECTED :: "32 word" where
  "I2C_EV6_MASTER_REC_MODE_SELECTED = i2c_event (I2C_SR2_MSL OR I2C_SR2_BUSY) I2C_SR1_ADDR"

definition I2C_EV8_2_MASTER_BYTE_TRANSMITTED :: "32 word" where
  "I2C_EV8_2_MASTER_BYTE_TRANSMITTED =
     i2c_event (I2C_SR2_MSL OR I2C_SR2_BUSY OR I2C_SR2_TRA) (I2C_SR1_BTF OR I2C_SR1_TXE)"

definition I2C_EV_MASK :: "32 word" where "I2C_EV_MASK = 0x00FFFFFF"

definition I2C_CLK_FREQ :: int where "I2C_CLK_FREQ = 42"
definition I2CD2 :: nat where "I2CD2 = 1"

lemmas i2c_bits = I2C_CR1_PE_def I2C_CR1_SMBUS_def I2C_CR1_SMBTYPE_def I2C_CR1_START_def I2C_CR1_STOP_def
  I2C_CR1_ACK_def I2C_CR1_SWRST_def I2C_CR2_FREQ_def I2C_CR2_ITERREN_def I2C_CR2_ITEVTEN_def I2C_CR2_DMAEN_def
  I2C_CR2_LAST_def I2C_SR1_SB_def I2C_SR1_ADDR_def I2C_SR1_BTF_def I2C_SR1_TXE_def I2C_SR1_BERR_def
  I2C_SR1_ARLO_def I2C_SR1_AF_def I2C_SR1_OVR_def I2C_SR1_PECERR_def I2C_SR1_TIMEOUT_def I2C_SR1_SMBALERT_def
  I2C_SR2_MSL_def I2C_SR2_BUSY_def I2C_SR2_TRA_def I2C_CCR_CCR_def I2C_CCR_DUTY_def I2C_CCR_FS_def

lemmas i2c_events = i2c_event_def I2C_EV5_MASTER_MODE_SELECT_def I2C_EV6_MASTER_TRA_MODE_SELECTED_def
  I2C_EV6_MASTER_REC_MODE_SELECTED_def I2C_EV8_2_MASTER_BYTE_TRANSMITTED_def I2C_EV_MASK_def

definition upd_i2c :: "nat \<Rightarrow> (i2cdrv \<Rightarrow> i2cdrv) \<Rightarrow> 'x hal_scheme \<Rightarrow> 'x hal_scheme" where
  "upd_i2c p f s = s\<lparr>i2cs := (i2cs s)(p := f (i2cs s p))\<rparr>"

section \<open>The low level driver\<close>

definition wakeup_isr :: "nat \<Rightarrow> msg \<Rightarrow> 'x hal_scheme \<Rightarrow> ('x, unit) hout" where
  "wakeup_isr i2cp m s =
     (case ic_thread (i2cs s i2cp) of
        None \<Rightarrow> Done () s
      | Some tp \<Rightarrow> obind (chSchReadyI tp (set_rdymsg tp m (upd_i2c i2cp (\<lambda>d. d\<lparr>ic_thread := None\<rparr>) s))) (\<lambda>_ s1. Done () s1))"

definition i2c_lld_abort_operation :: "i2cdrv \<Rightarrow> i2cdrv" where
  "i2c_lld_abort_operation d =
     d\<lparr>i_CR1 := 0, i_CR2 := 0, i_SR1 := 0, ic_dmatx := dmaStreamDisable (ic_dmatx d),
       ic_dmarx := dmaStreamDisable (ic_dmarx d)\<rparr>"

definition i2c_lld_safety_timeout :: "nat \<Rightarrow> 'x hal_scheme \<Rightarrow> ('x, unit) hout" where
  "i2c_lld_safety_timeout i2cp s =
     (case ic_thread (i2cs s i2cp) of
        None \<Rightarrow> Done () s
      | Some tp \<Rightarrow>
          obind (chSchReadyI tp (set_rdymsg tp RDY_TIMEOUT
            (upd_i2c i2cp (\<lambda>d. (i2c_lld_abort_operation d)\<lparr>ic_thread := None\<rparr>) s))) (\<lambda>_ s1. Done () s1))"

text \<open>
  The divisor of the peripheral clock, for a speed as a signed number. The division has no result for the
  speed 0, nor when the product does not fit an \<open>int\<close>.
\<close>

definition i2c_div :: "int \<Rightarrow> int \<Rightarrow> 16 word option" where
  "i2c_div speed n =
     (if speed = 0 \<or> s32 (speed * n) \<noteq> speed * n then None
      else Some (word_of_int (int (unat STM32_PCLK1) sdiv (speed * n))))"

definition i2c_lld_set_clock :: "i2cconfig \<Rightarrow> i2cdrv \<Rightarrow> i2cdrv option" where
  "i2c_lld_set_clock c d0 =
     (let speed = sint (clock_speed c);
          d = d0\<lparr>i_CR2 := (i_CR2 d0 AND NOT I2C_CR2_FREQ) OR word_of_int I2C_CLK_FREQ\<rparr>
      in if speed \<le> 100000 then
           map_option (\<lambda>clock_div. d\<lparr>i_TRISE := word_of_int (I2C_CLK_FREQ + 1), i_CCR := clock_div AND I2C_CCR_CCR\<rparr>)
             (i2c_div speed 2)
         else if speed \<le> 400000 then
           map_option (\<lambda>(clock_div, duty). d\<lparr>i_TRISE := word_of_int (I2C_CLK_FREQ * 300 div 1000 + 1),
               i_CCR := duty OR (I2C_CCR_FS OR (clock_div AND I2C_CCR_CCR))\<rparr>)
             (case duty_cycle c of
                FAST_DUTY_CYCLE_2 \<Rightarrow> map_option (\<lambda>v. (v, 0)) (i2c_div speed 3)
              | FAST_DUTY_CYCLE_16_9 \<Rightarrow> map_option (\<lambda>v. (v, I2C_CCR_DUTY)) (i2c_div speed 25)
              | STD_DUTY_CYCLE \<Rightarrow> Some (I2C_CCR_CCR, 0))
         else Some (d\<lparr>i_CCR := 0\<rparr>))"

definition i2c_lld_set_opmode :: "i2cconfig \<Rightarrow> i2cdrv \<Rightarrow> i2cdrv" where
  "i2c_lld_set_opmode c d = d\<lparr>i_CR1 :=
     (case op_mode c of
        OPMODE_I2C \<Rightarrow> i_CR1 d AND NOT (I2C_CR1_SMBUS OR I2C_CR1_SMBTYPE)
      | OPMODE_SMBUS_DEVICE \<Rightarrow> (i_CR1 d OR I2C_CR1_SMBUS) AND NOT I2C_CR1_SMBTYPE
      | OPMODE_SMBUS_HOST \<Rightarrow> i_CR1 d OR (I2C_CR1_SMBUS OR I2C_CR1_SMBTYPE))\<rparr>"

section \<open>Interrupts\<close>

text \<open>
  The event interrupt. \<open>sr2\<close> and \<open>sr1\<close> are what the routine reads, in this order; reading \<open>SR2\<close> again
  clears a flag of the hardware only.
\<close>

definition i2c_lld_serve_event_interrupt :: "nat \<Rightarrow> 16 word \<Rightarrow> 16 word \<Rightarrow> 'x hal_scheme \<Rightarrow> ('x, unit) hout" where
  "i2c_lld_serve_event_interrupt i2cp sr2 sr1 s =
     (let ev = I2C_EV_MASK AND (ucast sr1 OR push_bit 16 (ucast sr2)) in
      if ev = I2C_EV5_MASTER_MODE_SELECT then Done () (upd_i2c i2cp (\<lambda>d. d\<lparr>i_DR := ic_addr d\<rparr>) s)
      else if ev = I2C_EV6_MASTER_REC_MODE_SELECTED then
        Done () (upd_i2c i2cp (\<lambda>d. d\<lparr>i_CR2 := (i_CR2 d AND NOT I2C_CR2_ITEVTEN) OR I2C_CR2_LAST,
            ic_dmarx := dmaStreamEnable (ic_dmarx d),
            i_CR1 := (if dmaStreamGetTransactionSize (ic_dmarx d) < 2 then i_CR1 d AND NOT I2C_CR1_ACK else i_CR1 d)\<rparr>) s)
      else if ev = I2C_EV6_MASTER_TRA_MODE_SELECTED then
        Done () (upd_i2c i2cp (\<lambda>d. d\<lparr>i_CR2 := i_CR2 d AND NOT I2C_CR2_ITEVTEN, ic_dmatx := dmaStreamEnable (ic_dmatx d)\<rparr>) s)
      else if ev = I2C_EV8_2_MASTER_BYTE_TRANSMITTED then
        (if dmaStreamGetTransactionSize (ic_dmarx (i2cs s i2cp)) > 0 then
           Done () (upd_i2c i2cp (\<lambda>d. d\<lparr>ic_addr := ic_addr d OR 1, i_CR1 := i_CR1 d OR (I2C_CR1_START OR I2C_CR1_ACK)\<rparr>) s)
         else wakeup_isr i2cp RDY_OK
           (upd_i2c i2cp (\<lambda>d. d\<lparr>i_CR2 := i_CR2 d AND NOT I2C_CR2_ITEVTEN, i_CR1 := i_CR1 d OR I2C_CR1_STOP\<rparr>) s))
      else Done () s)"

text \<open>A DMA error halts the system.\<close>

definition i2c_lld_serve_rx_end_irq :: "nat \<Rightarrow> 32 word \<Rightarrow> 'x hal_scheme \<Rightarrow> ('x, unit) hout" where
  "i2c_lld_serve_rx_end_irq i2cp flags s =
     (if flags AND (STM32_DMA_ISR_TEIF OR STM32_DMA_ISR_DMEIF) \<noteq> 0 then Fault
      else wakeup_isr i2cp RDY_OK (upd_i2c i2cp (\<lambda>d. d\<lparr>ic_dmarx := dmaStreamDisable (ic_dmarx d),
        i_CR2 := i_CR2 d AND NOT I2C_CR2_LAST, i_CR1 := (i_CR1 d AND NOT I2C_CR1_ACK) OR I2C_CR1_STOP\<rparr>) s))"

definition i2c_lld_serve_tx_end_irq :: "nat \<Rightarrow> 32 word \<Rightarrow> 'x hal_scheme \<Rightarrow> ('x, unit) hout" where
  "i2c_lld_serve_tx_end_irq i2cp flags s =
     (if flags AND (STM32_DMA_ISR_TEIF OR STM32_DMA_ISR_DMEIF) \<noteq> 0 then Fault
      else Done () (upd_i2c i2cp (\<lambda>d. d\<lparr>ic_dmatx := dmaStreamDisable (ic_dmatx d),
        i_CR2 := i_CR2 d OR I2C_CR2_ITEVTEN\<rparr>) s))"

text \<open>One test of the error interrupt: the flag is cleared and noted.\<close>

definition i2c_error :: "16 word \<Rightarrow> 32 word \<Rightarrow> i2cdrv \<times> 32 word \<Rightarrow> i2cdrv \<times> 32 word" where
  "i2c_error bits err = (\<lambda>(d, errors).
     if i_SR1 d AND bits \<noteq> 0 then (d\<lparr>i_SR1 := i_SR1 d AND NOT bits\<rparr>, errors OR err) else (d, errors))"

text \<open>The acknowledge failure also ends the transfer.\<close>

definition i2c_error_ack :: "i2cdrv \<times> 32 word \<Rightarrow> i2cdrv \<times> 32 word" where
  "i2c_error_ack = (\<lambda>(d, errors).
     if i_SR1 d AND I2C_SR1_AF \<noteq> 0
     then (d\<lparr>i_SR1 := i_SR1 d AND NOT I2C_SR1_AF, i_CR2 := i_CR2 d AND NOT I2C_CR2_ITEVTEN,
             i_CR1 := i_CR1 d OR I2C_CR1_STOP\<rparr>, errors OR I2CD_ACK_FAILURE)
     else (d, errors))"

definition i2c_errors :: "i2cdrv \<Rightarrow> i2cdrv \<times> 32 word" where
  "i2c_errors d =
     i2c_error I2C_SR1_SMBALERT I2CD_SMB_ALERT (i2c_error I2C_SR1_TIMEOUT I2CD_TIMEOUT
     (i2c_error I2C_SR1_PECERR I2CD_PEC_ERROR (i2c_error I2C_SR1_OVR I2CD_OVERRUN
     (i2c_error_ack
     (i2c_error I2C_SR1_ARLO I2CD_ARBITRATION_LOST (i2c_error I2C_SR1_BERR I2CD_BUS_ERROR (d, I2CD_NO_ERROR)))))))"

definition i2c_lld_serve_error_interrupt :: "nat \<Rightarrow> 16 word \<Rightarrow> 'x hal_scheme \<Rightarrow> ('x, unit) hout" where
  "i2c_lld_serve_error_interrupt i2cp sr1 s =
     (case i2c_errors ((i2cs s i2cp)\<lparr>ic_dmatx := dmaStreamDisable (ic_dmatx (i2cs s i2cp)),
         ic_dmarx := dmaStreamDisable (ic_dmarx (i2cs s i2cp)), i_SR1 := sr1\<rparr>) of (d, errors) \<Rightarrow>
      if errors \<noteq> I2CD_NO_ERROR then wakeup_isr i2cp RDY_RESET (upd_i2c i2cp (\<lambda>_. d\<lparr>ic_errors := errors\<rparr>) s)
      else Done () (upd_i2c i2cp (\<lambda>_. d) s))"

definition I2C2_EV_IRQHandler :: "16 word \<Rightarrow> 16 word \<Rightarrow> 'x hal_scheme \<Rightarrow> ('x, unit) hout" where
  "I2C2_EV_IRQHandler sr2 sr1 s = obind (i2c_lld_serve_event_interrupt I2CD2 sr2 sr1 s) (\<lambda>_ s1. port_irq_epilogue s1)"

definition I2C2_ER_IRQHandler :: "16 word \<Rightarrow> 'x hal_scheme \<Rightarrow> ('x, unit) hout" where
  "I2C2_ER_IRQHandler sr1 s = obind (i2c_lld_serve_error_interrupt I2CD2 sr1 s) (\<lambda>_ s1. port_irq_epilogue s1)"

section \<open>Start and stop\<close>

definition i2cObjectInit :: "nat \<Rightarrow> 'x hal_scheme \<Rightarrow> 'x hal_scheme" where
  "i2cObjectInit i2cp s =
     (let s1 = upd_i2c i2cp (\<lambda>d. d\<lparr>ic_state := I2C_STOP, ic_config := None\<rparr>) s
      in chMtxInit (ic_mutex (i2cs s1 i2cp)) s1)"

definition i2c_lld_init :: "'x hal_scheme \<Rightarrow> 'x hal_scheme" where
  "i2c_lld_init s = upd_i2c I2CD2 (\<lambda>d. d\<lparr>ic_thread := None\<rparr>) (i2cObjectInit I2CD2 s)"

definition i2cInit :: "'x hal_scheme \<Rightarrow> 'x hal_scheme" where
  "i2cInit s = i2c_lld_init s"

definition i2c_lld_start :: "i2cdrv \<Rightarrow> i2cdrv option" where
  "i2c_lld_start d =
     (case ic_config d of
        None \<Rightarrow> None
      | Some c \<Rightarrow>
          (let m = STM32_DMA_CR_PSIZE_BYTE OR STM32_DMA_CR_MSIZE_BYTE OR STM32_DMA_CR_MINC OR STM32_DMA_CR_DMEIE OR
                 STM32_DMA_CR_TEIE OR STM32_DMA_CR_TCIE;
               stopped = (ic_state d = I2C_STOP);
               mode = (if stopped then m OR STM32_DMA_CR_CHSEL 7 OR STM32_DMA_CR_PL 3 else m);
               rx = (if stopped then snd (dmaStreamAllocate (ic_dmarx d)) else ic_dmarx d);
               tx = (if stopped then snd (dmaStreamAllocate (ic_dmatx d)) else ic_dmatx d);
               d1 = d\<lparr>ic_dmamode := mode, ic_dmatx := dmaStreamSetMode (mode OR STM32_DMA_CR_DIR_M2P) tx,
                 ic_dmarx := dmaStreamSetMode (mode OR STM32_DMA_CR_DIR_P2M) rx,
                 i_CR1 := 0, i_CR2 := I2C_CR2_ITERREN OR I2C_CR2_DMAEN\<rparr>
           in map_option (\<lambda>d2. let d3 = i2c_lld_set_opmode c d2 in d3\<lparr>i_CR1 := i_CR1 d3 OR I2C_CR1_PE\<rparr>)
                (i2c_lld_set_clock c d1)))"

definition i2c_lld_stop :: "i2cdrv \<Rightarrow> i2cdrv" where
  "i2c_lld_stop d =
     (if ic_state d \<noteq> I2C_STOP
      then (let d1 = i2c_lld_abort_operation d
            in d1\<lparr>ic_dmatx := dmaStreamRelease (ic_dmatx d1), ic_dmarx := dmaStreamRelease (ic_dmarx d1)\<rparr>)
      else d)"

definition i2cStart :: "nat \<Rightarrow> i2cconfig \<Rightarrow> 'x hal_scheme \<Rightarrow> ('x, unit) hout" where
  "i2cStart i2cp config s =
     (case i2c_lld_start ((i2cs s i2cp)\<lparr>ic_config := Some config\<rparr>) of
        None \<Rightarrow> Fault
      | Some d \<Rightarrow> Done () (upd_i2c i2cp (\<lambda>_. d\<lparr>ic_state := I2C_READY\<rparr>) s))"

definition i2cStop :: "nat \<Rightarrow> 'x hal_scheme \<Rightarrow> ('x, unit) hout" where
  "i2cStop i2cp s = Done () (upd_i2c i2cp (\<lambda>d. (i2c_lld_stop d)\<lparr>ic_state := I2C_STOP\<rparr>) s)"

definition i2c_lld_get_errors :: "i2cdrv \<Rightarrow> 32 word" where
  "i2c_lld_get_errors d = ic_errors d"

definition i2cGetErrors :: "nat \<Rightarrow> 'x hal_scheme \<Rightarrow> 32 word" where
  "i2cGetErrors i2cp s = i2c_lld_get_errors (i2cs s i2cp)"

definition i2cAcquireBus :: "nat \<Rightarrow> 'x hal_scheme \<Rightarrow> ('x, unit) hout" where
  "i2cAcquireBus i2cp s = chMtxLock (ic_mutex (i2cs s i2cp)) s"

definition i2cReleaseBus :: "nat \<Rightarrow> 'x hal_scheme \<Rightarrow> ('x, unit) hout" where
  "i2cReleaseBus i2cp s = obind (chMtxUnlock s) (\<lambda>_ s1. Done () s1)"

section \<open>Transfers\<close>

text \<open>Was there a timeout, and has its timer, on the stack of the caller, run off?\<close>

definition i2c_expired :: "systime \<Rightarrow> 'x hal_scheme \<Rightarrow> bool" where
  "i2c_expired time s \<longleftrightarrow> time \<noteq> TIME_INFINITE \<and> \<not> chVTIsArmedI (VtStack (currp s)) s"

definition i2c_busy :: "i2cdrv \<Rightarrow> bool" where
  "i2c_busy d \<longleftrightarrow> i_SR2 d AND I2C_SR2_BUSY \<noteq> 0 \<or> i_CR1 d AND I2C_CR1_STOP \<noteq> 0"

text \<open>Polling for the bus, with the kernel unlocked; \<open>go\<close> is the operation under the lock that follows.\<close>

fun i2c_wait_bus :: "nat \<Rightarrow> nat \<Rightarrow> systime \<Rightarrow> ('x hal_scheme \<Rightarrow> ('x, msg) hout) \<Rightarrow> 'x hal_scheme \<Rightarrow> ('x, msg) hout" where
  "i2c_wait_bus 0 i2cp time go s = Fault"
| "i2c_wait_bus (Suc n) i2cp time go s =
     (if i2c_busy (i2cs s i2cp) then
        Window s (\<lambda>s1. if i2c_expired time s1 then Done RDY_TIMEOUT s1 else Window s1 (i2c_wait_bus n i2cp time go))
      else Window s (\<lambda>s1. if i2c_expired time s1 then Done RDY_TIMEOUT s1 else go s1))"

text \<open>The start condition, and the sleep until the interrupts or the timer end the operation.\<close>

definition i2c_go :: "nat \<Rightarrow> systime \<Rightarrow> 16 word \<Rightarrow> 'x hal_scheme \<Rightarrow> ('x, msg) hout" where
  "i2c_go i2cp time start s =
     (let s1 = upd_i2c i2cp (\<lambda>d. d\<lparr>i_CR2 := i_CR2 d OR I2C_CR2_ITEVTEN, i_CR1 := i_CR1 d OR start,
                 ic_thread := Some (currp s)\<rparr>) s
      in obind (chSchGoSleepS THD_STATE_SUSPENDED s1) (\<lambda>_ s2.
         let vt = VtStack (currp s2) in
         obind (if time \<noteq> TIME_INFINITE \<and> chVTIsArmedI vt s2 then chVTResetI vt s2 else Done () s2) (\<lambda>_ s3.
         Done (rdymsg (p_u (cur s3))) s3)))"

definition i2c_set_timeout :: "nat \<Rightarrow> systime \<Rightarrow> 'x hal_scheme \<Rightarrow> ('x, unit) hout" where
  "i2c_set_timeout i2cp time s =
     (if time \<noteq> TIME_INFINITE then chVTSetI (VtStack (currp s)) time Fn_i2c_safety_timeout i2cp s else Done () s)"

definition i2c_lld_master_receive_timeout ::
    "nat \<Rightarrow> nat \<Rightarrow> 16 word \<Rightarrow> nat \<Rightarrow> 32 word \<Rightarrow> systime \<Rightarrow> 'x hal_scheme \<Rightarrow> ('x, msg) hout" where
  "i2c_lld_master_receive_timeout fuel i2cp addr rxbuf rxbytes time s =
     obind (i2c_set_timeout i2cp time s) (\<lambda>_ s1. Window s1 (\<lambda>s2.
       i2c_wait_bus fuel i2cp time (i2c_go i2cp time (I2C_CR1_START OR I2C_CR1_ACK))
         (upd_i2c i2cp (\<lambda>d. d\<lparr>ic_addr := push_bit 1 addr OR 1, ic_errors := 0,
            ic_dmarx := dmaStreamSetTransactionSize rxbytes (dmaStreamSetMemory0 (Some rxbuf) (ic_dmarx d))\<rparr>) s2)))"

definition i2c_lld_master_transmit_timeout ::
    "nat \<Rightarrow> nat \<Rightarrow> 16 word \<Rightarrow> nat \<Rightarrow> 32 word \<Rightarrow> nat option \<Rightarrow> 32 word \<Rightarrow> systime \<Rightarrow> 'x hal_scheme \<Rightarrow> ('x, msg) hout" where
  "i2c_lld_master_transmit_timeout fuel i2cp addr txbuf txbytes rxbuf rxbytes time s =
     obind (i2c_set_timeout i2cp time s) (\<lambda>_ s1. Window s1 (\<lambda>s2.
       i2c_wait_bus fuel i2cp time (i2c_go i2cp time I2C_CR1_START)
         (upd_i2c i2cp (\<lambda>d. d\<lparr>ic_addr := push_bit 1 addr, ic_errors := 0,
            ic_dmatx := dmaStreamSetTransactionSize txbytes (dmaStreamSetMemory0 (Some txbuf) (ic_dmatx d)),
            ic_dmarx := dmaStreamSetTransactionSize rxbytes (dmaStreamSetMemory0 rxbuf (ic_dmarx d))\<rparr>) s2)))"

text \<open>What follows a transfer: after a timeout the driver is locked until it is started again.\<close>

definition i2c_finish :: "nat \<Rightarrow> msg \<Rightarrow> 'x hal_scheme \<Rightarrow> ('x, msg) hout" where
  "i2c_finish i2cp r s =
     Done r (upd_i2c i2cp (\<lambda>d. d\<lparr>ic_state := (if r = RDY_TIMEOUT then I2C_LOCKED else I2C_READY)\<rparr>) s)"

definition i2cMasterTransmitTimeout ::
    "nat \<Rightarrow> nat \<Rightarrow> 16 word \<Rightarrow> nat \<Rightarrow> 32 word \<Rightarrow> nat option \<Rightarrow> 32 word \<Rightarrow> systime \<Rightarrow> 'x hal_scheme \<Rightarrow> ('x, msg) hout" where
  "i2cMasterTransmitTimeout fuel i2cp addr txbuf txbytes rxbuf rxbytes time s =
     obind (i2c_lld_master_transmit_timeout fuel i2cp addr txbuf txbytes rxbuf rxbytes time
       (upd_i2c i2cp (\<lambda>d. d\<lparr>ic_errors := I2CD_NO_ERROR, ic_state := I2C_ACTIVE_TX\<rparr>) s)) (i2c_finish i2cp)"

definition i2cMasterReceiveTimeout ::
    "nat \<Rightarrow> nat \<Rightarrow> 16 word \<Rightarrow> nat \<Rightarrow> 32 word \<Rightarrow> systime \<Rightarrow> 'x hal_scheme \<Rightarrow> ('x, msg) hout" where
  "i2cMasterReceiveTimeout fuel i2cp addr rxbuf rxbytes time s =
     obind (i2c_lld_master_receive_timeout fuel i2cp addr rxbuf rxbytes time
       (upd_i2c i2cp (\<lambda>d. d\<lparr>ic_errors := I2CD_NO_ERROR, ic_state := I2C_ACTIVE_RX\<rparr>) s)) (i2c_finish i2cp)"

definition i2cMasterTransmit ::
    "nat \<Rightarrow> nat \<Rightarrow> 16 word \<Rightarrow> nat \<Rightarrow> 32 word \<Rightarrow> nat option \<Rightarrow> 32 word \<Rightarrow> 'x hal_scheme \<Rightarrow> ('x, msg) hout" where
  "i2cMasterTransmit fuel i2cp addr txbuf txbytes rxbuf rxbytes s =
     i2cMasterTransmitTimeout fuel i2cp addr txbuf txbytes rxbuf rxbytes TIME_INFINITE s"

definition i2cMasterReceive :: "nat \<Rightarrow> nat \<Rightarrow> 16 word \<Rightarrow> nat \<Rightarrow> 32 word \<Rightarrow> 'x hal_scheme \<Rightarrow> ('x, msg) hout" where
  "i2cMasterReceive fuel i2cp addr rxbuf rxbytes s =
     i2cMasterReceiveTimeout fuel i2cp addr rxbuf rxbytes TIME_INFINITE s"

section \<open>Waiting and waking\<close>

lemma upd_i2c_fields [simp]:
  "i2cs (upd_i2c p f s) = (i2cs s)(p := f (i2cs s p))" "kernel.truncate (upd_i2c p f s) = kernel.truncate s"
  "upd_i2c p g (upd_i2c p f s) = upd_i2c p (\<lambda>d. g (f d)) s" "gpios (upd_i2c p f s) = gpios s" "bufs (upd_i2c p f s) = bufs s"
  by (simp_all add: upd_i2c_def kernel.truncate_def)

lemmas upd_i2c_kernel [simp] = kernel_same[OF upd_i2c_fields(2)] kinv_same[OF upd_i2c_fields(2)]

interpretation i2cw: suspend_resume "\<lambda>s. ic_thread (i2cs s p)" "\<lambda>t. upd_i2c p (\<lambda>d. d\<lparr>ic_thread := t\<rparr>)" "wakeup_isr p m"
  "\<lambda>_. UMsg m"
proof
  show "ic_thread (i2cs s' p) = ic_thread (i2cs s p)" if "kernel.more s' = kernel.more s" for s s' :: "'x hal_scheme"
    using hal_more(5)[OF that] by simp
qed (simp_all add: wakeup_isr_def)

text \<open>The interrupts of the port, in one type, and the routine that serves each.\<close>

datatype i2cirq = Irq_event "16 word" "16 word" | Irq_error "16 word" | Irq_rx_end "32 word" | Irq_tx_end "32 word" | Irq_timeout

fun i2c_serve :: "nat \<Rightarrow> i2cirq \<Rightarrow> 'x hal_scheme \<Rightarrow> ('x, unit) hout" where
  "i2c_serve p (Irq_event sr2 sr1) s = i2c_lld_serve_event_interrupt p sr2 sr1 s"
| "i2c_serve p (Irq_error sr1) s = i2c_lld_serve_error_interrupt p sr1 s"
| "i2c_serve p (Irq_rx_end flags) s = i2c_lld_serve_rx_end_irq p flags s"
| "i2c_serve p (Irq_tx_end flags) s = i2c_lld_serve_tx_end_irq p flags s"
| "i2c_serve p Irq_timeout s = i2c_lld_safety_timeout p s"

text \<open>An error of the DMA halts the system.\<close>

fun i2c_dma_error :: "i2cirq \<Rightarrow> bool" where
  "i2c_dma_error (Irq_rx_end flags) = (flags AND (STM32_DMA_ISR_TEIF OR STM32_DMA_ISR_DMEIF) \<noteq> 0)"
| "i2c_dma_error (Irq_tx_end flags) = (flags AND (STM32_DMA_ISR_TEIF OR STM32_DMA_ISR_DMEIF) \<noteq> 0)"
| "i2c_dma_error _ = False"

definition i2c_waits :: "nat \<Rightarrow> tid \<Rightarrow> 'x hal_scheme \<Rightarrow> bool" where
  "i2c_waits p tp s \<longleftrightarrow> kinv s \<and> ic_thread (i2cs s p) = Some tp \<and> p_state (threads s tp) = THD_STATE_SUSPENDED"

definition i2c_woken :: "nat \<Rightarrow> tid \<Rightarrow> 'x hal_scheme \<Rightarrow> bool" where
  "i2c_woken p tp s \<longleftrightarrow> kinv s \<and> ic_thread (i2cs s p) = None \<and> p_state (threads s tp) = THD_STATE_READY \<and>
     tp \<in> set (tq s QReady) \<and> rdymsg (p_u (threads s tp)) \<in> {RDY_OK, RDY_RESET, RDY_TIMEOUT}"

lemma i2c_errors_thread:
  assumes "i2c_errors d = (d', e)"
  shows "ic_thread d' = ic_thread d"
proof -
  have "ic_thread (fst (i2c_error b x (d, e))) = ic_thread d" "ic_thread (fst (i2c_error_ack (d, e))) = ic_thread d" for b x d e
    by (simp_all add: i2c_error_def i2c_error_ack_def)
  then have "ic_thread (fst (i2c_errors d)) = ic_thread d"
    unfolding i2c_errors_def by (metis prod.collapse)
  then show ?thesis using assms by simp
qed

text \<open>Every routine changes registers, and at most wakes the thread.\<close>

definition i2c_shape :: "nat \<Rightarrow> 'x hal_scheme \<Rightarrow> ('x, unit) hout \<Rightarrow> bool" where
  "i2c_shape p s r \<longleftrightarrow> (\<exists>f. ic_thread (f (i2cs s p)) = ic_thread (i2cs s p) \<and> (r = Done () (upd_i2c p f s) \<or>
     (\<exists>m\<in>{RDY_OK, RDY_RESET, RDY_TIMEOUT}. r = wakeup_isr p m (upd_i2c p f s))))"

lemma shape_done: "ic_thread (f (i2cs s p)) = ic_thread (i2cs s p) \<Longrightarrow> i2c_shape p s (Done () (upd_i2c p f s))"
  by (auto simp: i2c_shape_def)

lemma shape_wake: "ic_thread (f (i2cs s p)) = ic_thread (i2cs s p) \<Longrightarrow> m \<in> {RDY_OK, RDY_RESET, RDY_TIMEOUT} \<Longrightarrow>
    i2c_shape p s (wakeup_isr p m (upd_i2c p f s))"
  unfolding i2c_shape_def by blast

lemma upd_i2c_id: "upd_i2c p (\<lambda>d. d) s = s"
  by (simp add: upd_i2c_def)

lemma shape_same: "i2c_shape p s (Done () s)"
  using shape_done[of "\<lambda>d. d" s p] by (simp add: upd_i2c_id)

lemma safety_timeout_wakes: "i2c_lld_safety_timeout p s = (case ic_thread (i2cs s p) of None \<Rightarrow> Done () s
    | Some _ \<Rightarrow> wakeup_isr p RDY_TIMEOUT (upd_i2c p i2c_lld_abort_operation s))"
  by (simp add: i2c_lld_safety_timeout_def wakeup_isr_def i2c_lld_abort_operation_def split: option.split)

lemma i2c_serve_shape:
  assumes "\<not> i2c_dma_error i"
  shows "i2c_shape p s (i2c_serve p i s)"
proof (cases i)
  case (Irq_event sr2 sr1)
  then show ?thesis
    by (auto simp: i2c_lld_serve_event_interrupt_def Let_def intro!: shape_done shape_wake intro: shape_same)
next
  case (Irq_error sr1)
  let ?d = "(i2cs s p)\<lparr>ic_dmatx := dmaStreamDisable (ic_dmatx (i2cs s p)),
    ic_dmarx := dmaStreamDisable (ic_dmarx (i2cs s p)), i_SR1 := sr1\<rparr>"
  obtain d e where de: "i2c_errors ?d = (d, e)" by (cases "i2c_errors ?d")
  have "ic_thread d = ic_thread (i2cs s p)" using i2c_errors_thread[OF de] by simp
  then show ?thesis
    using Irq_error de by (auto simp: i2c_lld_serve_error_interrupt_def intro!: shape_done shape_wake)
next
  case Irq_timeout
  then show ?thesis
    by (auto simp: safety_timeout_wakes i2c_lld_abort_operation_def intro!: shape_wake intro: shape_same split: option.split)
qed (use assms in \<open>auto simp: i2c_lld_serve_rx_end_irq_def i2c_lld_serve_tx_end_irq_def intro!: shape_done shape_wake\<close>)

text \<open>
  Whatever interrupts come, in whatever order: the thread still waits, or it has been readied once, with
  one of the three results.
\<close>

lemma i2c_serve_step:
  assumes "i2c_waits p tp s \<or> i2c_woken p tp s" "\<not> i2c_dma_error i"
  shows "\<exists>s'. i2c_serve p i s = Done () s' \<and> (i2c_waits p tp s' \<or> i2c_woken p tp s') \<and>
    (i2c_woken p tp s \<longrightarrow> i2c_woken p tp s' \<and> threads s' = threads s) \<and> currp s' = currp s"
proof -
  from i2c_serve_shape[OF assms(2), of p s] obtain f where
    f: "ic_thread (f (i2cs s p)) = ic_thread (i2cs s p)" and
    r: "i2c_serve p i s = Done () (upd_i2c p f s) \<or>
        (\<exists>m\<in>{RDY_OK, RDY_RESET, RDY_TIMEOUT}. i2c_serve p i s = wakeup_isr p m (upd_i2c p f s))"
    unfolding i2c_shape_def by blast
  have keep: "i2c_waits p tp (upd_i2c p f s) = i2c_waits p tp s" "i2c_woken p tp (upd_i2c p f s) = i2c_woken p tp s"
    using f by (simp_all add: i2c_waits_def i2c_woken_def)
  show ?thesis
  proof (cases "i2c_serve p i s = Done () (upd_i2c p f s)")
    case True
    then show ?thesis using assms(1) keep by simp
  next
    case False
    with r obtain m where m: "m \<in> {RDY_OK, RDY_RESET, RDY_TIMEOUT}" "i2c_serve p i s = wakeup_isr p m (upd_i2c p f s)" by blast
    show ?thesis
    proof (cases "i2c_waits p tp s")
      case True
      then have w: "kinv (upd_i2c p f s)" "ic_thread (i2cs (upd_i2c p f s) p) = Some tp"
        "p_state (threads (upd_i2c p f s) tp) = THD_STATE_SUSPENDED" using keep(1) by (simp_all add: i2c_waits_def)
      from i2cw.wake_some[OF w, of m] obtain s' where "wakeup_isr p m (upd_i2c p f s) = Done () s'" "kinv s'"
        "ic_thread (i2cs s' p) = None" "threads s' = (threads (upd_i2c p f s))(tp := (threads (upd_i2c p f s) tp)
           \<lparr>p_u := UMsg m, p_state := THD_STATE_READY\<rparr>)" "tp \<in> set (tq s' QReady)" "currp s' = currp (upd_i2c p f s)" by blast
      moreover have "\<not> i2c_woken p tp s" using True by (simp add: i2c_waits_def i2c_woken_def)
      ultimately show ?thesis using m by (intro exI[of _ s']) (auto simp: i2c_woken_def)
    next
      case False
      then have w: "i2c_woken p tp s" using assms(1) by blast
      then have "wakeup_isr p m (upd_i2c p f s) = Done () (upd_i2c p f s)"
        using keep(2) by (intro i2cw.wake_none) (simp add: i2c_woken_def)
      then show ?thesis using m(2) w keep(2) by simp
    qed
  qed
qed

lemma i2c_interrupts:
  "i2c_waits p tp s \<or> i2c_woken p tp s \<Longrightarrow> list_all (\<lambda>i. \<not> i2c_dma_error i) is \<Longrightarrow>
    \<exists>s'. oiter (i2c_serve p) is s = Done () s' \<and> (i2c_waits p tp s' \<or> i2c_woken p tp s') \<and>
      (i2c_woken p tp s \<longrightarrow> i2c_woken p tp s' \<and> threads s' = threads s) \<and> currp s' = currp s"
proof (induction "is" arbitrary: s)
  case (Cons i "is")
  from i2c_serve_step[OF Cons.prems(1), of i] Cons.prems(2) obtain s1 where
    1: "i2c_serve p i s = Done () s1" "i2c_waits p tp s1 \<or> i2c_woken p tp s1"
      "i2c_woken p tp s \<longrightarrow> i2c_woken p tp s1 \<and> threads s1 = threads s" "currp s1 = currp s" by auto
  from Cons.IH[OF 1(2)] Cons.prems(2) obtain s' where
    2: "oiter (i2c_serve p) is s1 = Done () s'" "i2c_waits p tp s' \<or> i2c_woken p tp s'"
      "i2c_woken p tp s1 \<longrightarrow> i2c_woken p tp s' \<and> threads s' = threads s1" "currp s' = currp s1" by auto
  show ?case using 1 2 by (intro exI[of _ s']) simp
qed simp

section \<open>Errors\<close>

text \<open>Every error flag is cleared, and noted in the bit of the driver's own numbering.\<close>

lemma one_bit: "a AND 2 ^ n \<noteq> 0 \<longleftrightarrow> bit a n" for a :: "'a::len word"
  using bit_iff_and_push_bit_not_eq_0[of a n] by (simp add: push_bit_of_1)

lemma clear_clear: "\<not> bit a n \<Longrightarrow> a AND NOT (2 ^ n) = a" for a :: "'a::len word"
  by (rule bit_eqI) (auto simp: bit_simps)

lemma i2c_error_eq:
  "i2c_error (2 ^ n) x (d, e) =
     (d\<lparr>i_SR1 := i_SR1 d AND NOT (2 ^ n)\<rparr>, e OR (if bit (i_SR1 d) n then x else 0))"
  using clear_clear[of "i_SR1 d" n] one_bit[of "i_SR1 d" n] by (simp add: i2c_error_def)

lemma i2c_error_ack_eq:
  "i2c_error_ack (d, e) =
     (d\<lparr>i_SR1 := i_SR1 d AND NOT (2 ^ 10), i_CR2 := (if bit (i_SR1 d) 10 then i_CR2 d AND NOT I2C_CR2_ITEVTEN else i_CR2 d),
        i_CR1 := (if bit (i_SR1 d) 10 then i_CR1 d OR I2C_CR1_STOP else i_CR1 d)\<rparr>,
      e OR (if bit (i_SR1 d) 10 then 0x04 else 0))"
  using clear_clear[of "i_SR1 d" 10] one_bit[of "i_SR1 d" 10]
  by (simp add: i2c_error_ack_def I2C_SR1_AF_def I2CD_ACK_FAILURE_def)

lemmas i2c_error_eqs = i2c_error_eq[where n = 8, simplified] i2c_error_eq[where n = 9, simplified]
  i2c_error_eq[where n = 11, simplified] i2c_error_eq[where n = 12, simplified]
  i2c_error_eq[where n = 14, simplified] i2c_error_eq[where n = 15, simplified] i2c_error_ack_eq[simplified]

lemma i2c_errors_eq:
  "snd (i2c_errors d) = (if bit (i_SR1 d) 8 then 0x01 else 0) OR (if bit (i_SR1 d) 9 then 0x02 else 0) OR
      (if bit (i_SR1 d) 10 then 0x04 else 0) OR (if bit (i_SR1 d) 11 then 0x08 else 0) OR
      (if bit (i_SR1 d) 12 then 0x10 else 0) OR (if bit (i_SR1 d) 14 then 0x20 else 0) OR
      (if bit (i_SR1 d) 15 then 0x40 else 0)"
  "i_SR1 (fst (i2c_errors d)) = i_SR1 d AND NOT 0xDF00"
  "i_CR1 (fst (i2c_errors d)) = (if bit (i_SR1 d) 10 then i_CR1 d OR I2C_CR1_STOP else i_CR1 d)"
  by (simp_all add: i2c_errors_def i2c_bits i2c_error_eqs I2CD_NO_ERROR_def I2CD_BUS_ERROR_def
      I2CD_ARBITRATION_LOST_def I2CD_OVERRUN_def I2CD_PEC_ERROR_def I2CD_TIMEOUT_def I2CD_SMB_ALERT_def
      bit_simps or.assoc and.assoc)

section \<open>A whole transfer\<close>

text \<open>The interrupts of a write of some bytes followed by a read, as the bus raises them.\<close>

definition i2c_write_part :: "i2cirq list" where
  "i2c_write_part = [Irq_event (I2C_SR2_MSL OR I2C_SR2_BUSY) I2C_SR1_SB,
     Irq_event (I2C_SR2_MSL OR I2C_SR2_BUSY OR I2C_SR2_TRA) (I2C_SR1_ADDR OR I2C_SR1_TXE)]"

definition i2c_turn_part :: "i2cirq list" where
  "i2c_turn_part = [Irq_tx_end STM32_DMA_ISR_TCIF,
     Irq_event (I2C_SR2_MSL OR I2C_SR2_BUSY OR I2C_SR2_TRA) (I2C_SR1_BTF OR I2C_SR1_TXE),
     Irq_event (I2C_SR2_MSL OR I2C_SR2_BUSY) I2C_SR1_SB,
     Irq_event (I2C_SR2_MSL OR I2C_SR2_BUSY) I2C_SR1_ADDR]"

lemma i2c_write_part_run:
  "oiter (i2c_serve p) i2c_write_part s = Done () (upd_i2c p (\<lambda>d. d\<lparr>i_DR := ic_addr d,
     i_CR2 := i_CR2 d AND NOT I2C_CR2_ITEVTEN, ic_dmatx := dmaStreamEnable (ic_dmatx d)\<rparr>) s)"
  by (simp add: i2c_write_part_def i2c_lld_serve_event_interrupt_def i2c_events i2c_bits)

lemma i2c_turn_part_run:
  assumes "1 < dma_size (ic_dmarx (i2cs s p))"
  shows "oiter (i2c_serve p) i2c_turn_part s = Done () (upd_i2c p (\<lambda>d. d\<lparr>
     ic_dmatx := dmaStreamDisable (ic_dmatx d), ic_addr := ic_addr d OR 1, i_DR := ic_addr d OR 1,
     i_CR2 := ((i_CR2 d OR I2C_CR2_ITEVTEN) AND NOT I2C_CR2_ITEVTEN) OR I2C_CR2_LAST,
     ic_dmarx := dmaStreamEnable (ic_dmarx d), i_CR1 := i_CR1 d OR (I2C_CR1_START OR I2C_CR1_ACK)\<rparr>) s)"
proof -
  have "0 < dma_size (ic_dmarx (i2cs s p))" "\<not> dma_size (ic_dmarx (i2cs s p)) < 2"
    using assms by (auto simp: word_less_nat_alt)
  then show ?thesis
    by (simp add: i2c_turn_part_def i2c_lld_serve_event_interrupt_def i2c_lld_serve_tx_end_irq_def i2c_events i2c_bits
        dma_ops dma_bits) (simp add: upd_i2c_def)
qed

text \<open>The end of the read wakes the thread, with a stop condition and without another acknowledge.\<close>

lemma i2c_transfer_run:
  assumes "i2c_waits p tp s" "1 < dma_size (ic_dmarx (i2cs s p))"
  shows "\<exists>s'. oiter (i2c_serve p) (i2c_write_part @ i2c_turn_part @ [Irq_rx_end STM32_DMA_ISR_TCIF]) s = Done () s' \<and>
    i2c_woken p tp s' \<and> rdymsg (p_u (threads s' tp)) = RDY_OK \<and>
    i_DR (i2cs s' p) = ic_addr (i2cs s p) OR 1 \<and> i_CR1 (i2cs s' p) AND I2C_CR1_STOP \<noteq> 0 \<and>
    i_CR1 (i2cs s' p) AND I2C_CR1_ACK = 0 \<and> \<not> dma_enabled (ic_dmatx (i2cs s' p)) \<and> \<not> dma_enabled (ic_dmarx (i2cs s' p))"
proof -
  define s1 :: "'a hal_scheme" where "s1 = upd_i2c p (\<lambda>d. d\<lparr>i_DR := ic_addr d,
     i_CR2 := i_CR2 d AND NOT I2C_CR2_ITEVTEN, ic_dmatx := dmaStreamEnable (ic_dmatx d)\<rparr>) s"
  have "1 < dma_size (ic_dmarx (i2cs s1 p))" using assms(2) by (simp add: s1_def)
  note R = i2c_turn_part_run[OF this]
  define s2 :: "'a hal_scheme" where "s2 = upd_i2c p (\<lambda>d. d\<lparr>
     ic_dmatx := dmaStreamDisable (ic_dmatx d), ic_addr := ic_addr d OR 1, i_DR := ic_addr d OR 1,
     i_CR2 := ((i_CR2 d OR I2C_CR2_ITEVTEN) AND NOT I2C_CR2_ITEVTEN) OR I2C_CR2_LAST,
     ic_dmarx := dmaStreamEnable (ic_dmarx d), i_CR1 := i_CR1 d OR (I2C_CR1_START OR I2C_CR1_ACK)\<rparr>) s1"
  have r2: "oiter (i2c_serve p) (i2c_write_part @ i2c_turn_part @ [Irq_rx_end STM32_DMA_ISR_TCIF]) s =
      i2c_serve p (Irq_rx_end STM32_DMA_ISR_TCIF) s2"
    by (simp add: oiter_append i2c_write_part_run R flip: s1_def s2_def)
  have s2: "i2c_waits p tp s2" "i_DR (i2cs s2 p) = ic_addr (i2cs s p) OR 1" "\<not> dma_enabled (ic_dmatx (i2cs s2 p))"
    using assms(1) by (simp_all add: i2c_waits_def s2_def s1_def dma_ops)
  let ?f = "\<lambda>d. d\<lparr>ic_dmarx := dmaStreamDisable (ic_dmarx d),
        i_CR2 := i_CR2 d AND NOT I2C_CR2_LAST, i_CR1 := (i_CR1 d AND NOT I2C_CR1_ACK) OR I2C_CR1_STOP\<rparr>"
  have w: "kinv (upd_i2c p ?f s2)" "ic_thread (i2cs (upd_i2c p ?f s2) p) = Some tp"
    "p_state (threads (upd_i2c p ?f s2) tp) = THD_STATE_SUSPENDED" using s2(1) by (simp_all add: i2c_waits_def)
  have e: "i2c_serve p (Irq_rx_end STM32_DMA_ISR_TCIF) s2 = wakeup_isr p RDY_OK (upd_i2c p ?f s2)"
    by (simp add: i2c_lld_serve_rx_end_irq_def dma_bits)
  from i2cw.wake_some[OF w, of RDY_OK] obtain s' where s': "wakeup_isr p RDY_OK (upd_i2c p ?f s2) = Done () s'" "kinv s'"
    "ic_thread (i2cs s' p) = None" "threads s' = (threads (upd_i2c p ?f s2))(tp := (threads (upd_i2c p ?f s2) tp)
       \<lparr>p_u := UMsg RDY_OK, p_state := THD_STATE_READY\<rparr>)" "tp \<in> set (tq s' QReady)"
    "kernel.more s' = kernel.more (upd_i2c p (\<lambda>d. d\<lparr>ic_thread := None\<rparr>) (upd_i2c p ?f s2))" by blast
  have "i2cs s' p = (?f (i2cs s2 p))\<lparr>ic_thread := None\<rparr>" using hal_more(5)[OF s'(6)] by simp
  moreover have "(x AND NOT I2C_CR1_ACK OR I2C_CR1_STOP) AND I2C_CR1_STOP \<noteq> 0"
    "(x AND NOT I2C_CR1_ACK OR I2C_CR1_STOP) AND I2C_CR1_ACK = 0" for x
    using one_bit[of "x AND NOT I2C_CR1_ACK OR I2C_CR1_STOP" 9] one_bit[of "x AND NOT I2C_CR1_ACK OR I2C_CR1_STOP" 10]
    by (simp_all add: i2c_bits bit_simps)
  ultimately show ?thesis using r2 s2 s' e by (intro exI[of _ s']) (simp add: i2c_woken_def dma_ops)
qed

section \<open>The call\<close>

text \<open>
  A transfer on a free bus: the timer of the timeout is set, both streams are given their buffers, the start
  condition is requested, and the caller sleeps. Resumed, it stops the timer if it still runs and returns
  the result of the interrupts; only after a timeout is the driver locked.
\<close>

lemma vt_deadline_cong: "vts s' = vts s \<Longrightarrow> vtl s' = vtl s \<Longrightarrow> vt_deadline s' = vt_deadline s"
  by (simp add: vt_deadline_def)

lemma vt_frame_more: "vt_frame s s' \<Longrightarrow> kernel.more s' = kernel.more s \<and> kinv s' = kinv s \<and> currp s' = currp s"
proof -
  assume "vt_frame s s'"
  then obtain vs l where e: "s' = s\<lparr>vts := vs, vtl := l\<rparr>" by (auto simp: vt_frame_def)
  have "sched_inv s' = sched_inv s" by (rule sched_but_cong) (simp_all add: e)
  then show ?thesis by (simp add: e kinv_def sem_ok_def)
qed

lemma i2c_go_sleeps:
  assumes "kinv s" "currp s \<noteq> idle_tid"
  shows "\<exists>s'. i2c_go p time start s = Switch s' (\<lambda>s2.
        obind (if time \<noteq> TIME_INFINITE \<and> chVTIsArmedI (VtStack (currp s2)) s2 then chVTResetI (VtStack (currp s2)) s2
               else Done () s2) (\<lambda>_ s3. Done (rdymsg (p_u (cur s3))) s3)) \<and>
    i2c_waits p (currp s) s' \<and> vt_deadline s' = vt_deadline s \<and>
    i2cs s' p = (i2cs s p)\<lparr>i_CR2 := i_CR2 (i2cs s p) OR I2C_CR2_ITEVTEN, i_CR1 := i_CR1 (i2cs s p) OR start,
      ic_thread := Some (currp s)\<rparr>"
proof -
  let ?s = "upd_i2c p (\<lambda>d. d\<lparr>i_CR2 := i_CR2 d OR I2C_CR2_ITEVTEN, i_CR1 := i_CR1 d OR start\<rparr>) s"
  have "kinv ?s" "currp ?s \<noteq> idle_tid" using assms by simp_all
  from i2cw.sleeps[OF this, of p] obtain s' where
    s': "chSchGoSleepS THD_STATE_SUSPENDED (upd_i2c p (\<lambda>d. d\<lparr>ic_thread := Some (currp ?s)\<rparr>) ?s) = Switch s' (Done ())"
      "kinv s'" "ic_thread (i2cs s' p) = Some (currp ?s)" "p_state (threads s' (currp ?s)) = THD_STATE_SUSPENDED"
      "kernel.more s' = kernel.more (upd_i2c p (\<lambda>d. d\<lparr>ic_thread := Some (currp ?s)\<rparr>) ?s)" "vts s' = vts ?s" "vtl s' = vtl ?s"
    by blast
  have "vt_deadline s' = vt_deadline s" by (rule vt_deadline_cong) (use s'(6,7) in simp_all)
  moreover have "i2c_waits p (currp s) s'" using s'(2-4) by (simp add: i2c_waits_def)
  moreover have "i2cs s' p = (i2cs s p)\<lparr>i_CR2 := i_CR2 (i2cs s p) OR I2C_CR2_ITEVTEN, i_CR1 := i_CR1 (i2cs s p) OR start,
      ic_thread := Some (currp s)\<rparr>" unfolding hal_more(5)[OF s'(5)] by simp
  moreover have "i2c_go p time start s = Switch s' (\<lambda>s2.
        obind (if time \<noteq> TIME_INFINITE \<and> chVTIsArmedI (VtStack (currp s2)) s2 then chVTResetI (VtStack (currp s2)) s2
               else Done () s2) (\<lambda>_ s3. Done (rdymsg (p_u (cur s3))) s3))"
    using s'(1) by (simp only: i2c_go_def Let_def upd_i2c_fields upd_i2c_kernel obind.simps)
  ultimately show ?thesis by blast
qed

lemma vt_upd_i2c [simp]: "vt_ok (upd_i2c p f s) = vt_ok s" "vt_deadline (upd_i2c p f s) = vt_deadline s"
  "chVTIsArmedI v (upd_i2c p f s) = chVTIsArmedI v s"
  by (simp_all add: vt_ok_def vt_deadline_def chVTIsArmedI_def)

lemma deadline_armed: "vt_ok s \<Longrightarrow> vt_deadline s v \<noteq> None \<Longrightarrow> chVTIsArmedI v s"
  using deadlines_notin[of v "vtl s" "vts s"] by (auto simp: vt_ok_def vt_deadline_def)

lemma stop_timer:
  assumes "vt_ok t"
  shows "\<exists>t'. (if chVTIsArmedI v t then chVTResetI v t else Done () t) = Done () t' \<and> \<not> chVTIsArmedI v t' \<and>
    kernel.more t' = kernel.more t \<and> threads t' = threads t \<and> currp t' = currp t"
proof (cases "chVTIsArmedI v t")
  case True
  then have v: "v \<in> set (vtl t)" using assms by (simp add: vt_ok_def)
  from vt_reset_deadline[OF assms v] vt_reset_frame[OF v] obtain t' where
    t': "chVTResetI v t = Done () t'" "vt_ok t'" "vt_frame t t'" "set (vtl t') = set (remove1 v (vtl t))" by auto
  have "v \<notin> set (vtl t')" using t'(4) assms by (simp add: vt_ok_def)
  then have "\<not> chVTIsArmedI v t'" using t'(2) by (simp add: vt_ok_def)
  moreover have "threads t' = threads t" using t'(3) by (auto simp: vt_frame_def)
  ultimately show ?thesis using True t'(1) vt_frame_more[OF t'(3)] by auto
qed simp

lemma i2c_resumed:
  assumes "vt_ok t" "time \<noteq> TIME_INFINITE"
  shows "\<exists>t'. obind (obind (if time \<noteq> TIME_INFINITE \<and> chVTIsArmedI (VtStack (currp t)) t then chVTResetI (VtStack (currp t)) t
               else Done () t) (\<lambda>_ s3. Done (rdymsg (p_u (cur s3))) s3)) (i2c_finish p) = Done (rdymsg (p_u (cur t))) t' \<and>
    \<not> chVTIsArmedI (VtStack (currp t)) t' \<and>
    ic_state (i2cs t' p) = (if rdymsg (p_u (cur t)) = RDY_TIMEOUT then I2C_LOCKED else I2C_READY)"
proof -
  let ?v = "VtStack (currp t)" and ?m = "rdymsg (p_u (cur t))"
  from stop_timer[OF assms(1), of ?v] obtain t1 where
    t1: "(if chVTIsArmedI ?v t then chVTResetI ?v t else Done () t) = Done () t1" "\<not> chVTIsArmedI ?v t1"
      "threads t1 = threads t" "currp t1 = currp t" by blast
  let ?t = "upd_i2c p (\<lambda>d. d\<lparr>ic_state := (if ?m = RDY_TIMEOUT then I2C_LOCKED else I2C_READY)\<rparr>) t1"
  have "obind (obind (if time \<noteq> TIME_INFINITE \<and> chVTIsArmedI ?v t then chVTResetI ?v t
               else Done () t) (\<lambda>_ s3. Done (rdymsg (p_u (cur s3))) s3)) (i2c_finish p) = Done ?m ?t"
    using t1 assms(2) by (simp only: simp_thms obind.simps i2c_finish_def)
  then show ?thesis using t1(2) by (intro exI[of _ ?t]) simp
qed

lemma i2c_transmit:
  assumes "kinv s" "currp s \<noteq> idle_tid" "vt_ok s" "VtStack (currp s) \<notin> set (vtl s)" "time \<noteq> TIME_INFINITE"
    "\<not> i2c_busy (i2cs s p)"
  shows "\<exists>s' k. calm (i2cMasterTransmitTimeout (Suc fuel) p addr txbuf n rxbuf m time s) = Switch s' k \<and>
    i2c_waits p (currp s) s' \<and> vt_deadline s' (VtStack (currp s)) = Some (unat time) \<and>
    ic_addr (i2cs s' p) = push_bit 1 addr \<and> ic_state (i2cs s' p) = I2C_ACTIVE_TX \<and>
    i_CR1 (i2cs s' p) = i_CR1 (i2cs s p) OR I2C_CR1_START \<and>
    dma_mem (ic_dmatx (i2cs s' p)) = Some txbuf \<and> dma_size (ic_dmatx (i2cs s' p)) = n \<and>
    dma_mem (ic_dmarx (i2cs s' p)) = rxbuf \<and> dma_size (ic_dmarx (i2cs s' p)) = m \<and>
    (\<forall>t. vt_ok t \<longrightarrow> (\<exists>t'. k t = Done (rdymsg (p_u (cur t))) t' \<and> \<not> chVTIsArmedI (VtStack (currp t)) t' \<and>
       ic_state (i2cs t' p) = (if rdymsg (p_u (cur t)) = RDY_TIMEOUT then I2C_LOCKED else I2C_READY)))"
proof -
  let ?v = "VtStack (currp s)" and ?go = "i2c_go p time I2C_CR1_START"
  define s0 where "s0 = upd_i2c p (\<lambda>d. d\<lparr>ic_errors := I2CD_NO_ERROR, ic_state := I2C_ACTIVE_TX\<rparr>) s"
  have v0: "vt_ok s0" "?v \<notin> set (vtl s0)" using assms(3,4) by (simp_all add: s0_def)
  from vt_set_deadline[OF v0, of time Fn_i2c_safety_timeout p] vt_set_frame[OF v0(2), of time Fn_i2c_safety_timeout p]
  obtain s1 where s1: "chVTSetI ?v time Fn_i2c_safety_timeout p s0 = Done () s1" "vt_ok s1" "vt_frame s0 s1"
      "vt_deadline s1 = (vt_deadline s0)(?v \<mapsto> unat time)" by auto
  define s2 where "s2 = upd_i2c p (\<lambda>d. d\<lparr>ic_addr := push_bit 1 addr, ic_errors := 0,
            ic_dmatx := dmaStreamSetTransactionSize n (dmaStreamSetMemory0 (Some txbuf) (ic_dmatx d)),
            ic_dmarx := dmaStreamSetTransactionSize m (dmaStreamSetMemory0 rxbuf (ic_dmarx d))\<rparr>) s1"
  have c2: "kinv s2" "currp s2 = currp s" using vt_frame_more[OF s1(3)] assms(1) by (simp_all add: s2_def s0_def)
  have i2: "i2cs s2 p = (i2cs s0 p)\<lparr>ic_addr := push_bit 1 addr, ic_errors := 0,
            ic_dmatx := dmaStreamSetTransactionSize n (dmaStreamSetMemory0 (Some txbuf) (ic_dmatx (i2cs s0 p))),
            ic_dmarx := dmaStreamSetTransactionSize m (dmaStreamSetMemory0 rxbuf (ic_dmarx (i2cs s0 p)))\<rparr>"
    using hal_more(5)[of s1 s0] vt_frame_more[OF s1(3)] by (simp add: s2_def)
  have nb: "\<not> i2c_busy (i2cs s2 p)" using assms(6) i2 by (simp add: i2c_busy_def s0_def)
  have d2: "vt_deadline s2 ?v = Some (unat time)" "vt_ok s2" using s1(2,4) by (simp_all add: s2_def)
  then have ne: "\<not> i2c_expired time s2" using deadline_armed[of s2 ?v] c2(2) by (simp add: i2c_expired_def)
  have t0: "i2c_set_timeout p time s0 = Done () s1" using s1(1) assms(5) by (simp add: i2c_set_timeout_def s0_def)
  have "currp s2 \<noteq> idle_tid" using assms(2) c2(2) by simp
  from i2c_go_sleeps[OF c2(1) this, of p time I2C_CR1_START] obtain s' where
    s': "?go s2 = Switch s' (\<lambda>s2.
        obind (if time \<noteq> TIME_INFINITE \<and> chVTIsArmedI (VtStack (currp s2)) s2 then chVTResetI (VtStack (currp s2)) s2
               else Done () s2) (\<lambda>_ s3. Done (rdymsg (p_u (cur s3))) s3))"
      "i2c_waits p (currp s2) s'" "vt_deadline s' = vt_deadline s2"
      "i2cs s' p = (i2cs s2 p)\<lparr>i_CR2 := i_CR2 (i2cs s2 p) OR I2C_CR2_ITEVTEN, i_CR1 := i_CR1 (i2cs s2 p) OR I2C_CR1_START,
        ic_thread := Some (currp s2)\<rparr>" by blast
  have "calm (i2cMasterTransmitTimeout (Suc fuel) p addr txbuf n rxbuf m time s) =
      calm (obind (i2c_wait_bus (Suc fuel) p time ?go s2) (i2c_finish p))"
    by (simp only: i2cMasterTransmitTimeout_def i2c_lld_master_transmit_timeout_def t0 obind.simps calm.simps
        flip: s0_def s2_def)
  also have "\<dots> = calm (obind (?go s2) (i2c_finish p))" using nb ne by simp
  also have "\<dots> = Switch s' (\<lambda>t. obind (obind (if time \<noteq> TIME_INFINITE \<and> chVTIsArmedI (VtStack (currp t)) t
        then chVTResetI (VtStack (currp t)) t else Done () t) (\<lambda>_ s3. Done (rdymsg (p_u (cur s3))) s3)) (i2c_finish p))"
    by (simp only: s'(1) obind.simps calm.simps)
  finally have c: "calm (i2cMasterTransmitTimeout (Suc fuel) p addr txbuf n rxbuf m time s) = \<dots>" .
  have f: "i2c_waits p (currp s) s'" "vt_deadline s' ?v = Some (unat time)" using s'(2,3) c2(2) d2(1) by simp_all
  have g: "ic_addr (i2cs s' p) = push_bit 1 addr" "ic_state (i2cs s' p) = I2C_ACTIVE_TX"
    "i_CR1 (i2cs s' p) = i_CR1 (i2cs s p) OR I2C_CR1_START"
    "dma_mem (ic_dmatx (i2cs s' p)) = Some txbuf" "dma_size (ic_dmatx (i2cs s' p)) = n"
    "dma_mem (ic_dmarx (i2cs s' p)) = rxbuf" "dma_size (ic_dmarx (i2cs s' p)) = m"
    unfolding s'(4) i2 by (simp_all add: s0_def dma_ops)
  define K :: "'a hal_scheme \<Rightarrow> ('a hal_scheme, msg) outcome" where "K = (\<lambda>t. obind (obind (if time \<noteq> TIME_INFINITE \<and>
        chVTIsArmedI (VtStack (currp t)) t then chVTResetI (VtStack (currp t)) t else Done () t)
        (\<lambda>_ s3. Done (rdymsg (p_u (cur s3))) s3)) (i2c_finish p))"
  have K: "\<exists>t'. K t = Done (rdymsg (p_u (cur t))) t' \<and> \<not> chVTIsArmedI (VtStack (currp t)) t' \<and>
       ic_state (i2cs t' p) = (if rdymsg (p_u (cur t)) = RDY_TIMEOUT then I2C_LOCKED else I2C_READY)" if "vt_ok t" for t
    unfolding K_def by (rule i2c_resumed[OF that assms(5)])
  show ?thesis using c[folded K_def] f g K by blast
qed

end
