(* ===== verification/Heading.thy ===== *)
theory Heading
  imports Lis302dl I2c
begin

text \<open>
  The heading service, \<^verbatim>\<open>serv_heading.c\<close>: the magnetometer on the I2C bus, the accelerometer on the SPI
  bus, and the heading computed from both. Floating point is the library's and the processor's: it is a
  parameter, a record of the operations the code uses.
\<close>

record 'f flops =
  f_of_int :: "int \<Rightarrow> 'f"
  f_asin :: "int \<Rightarrow> 'f"
  f_cos :: "'f \<Rightarrow> 'f"
  f_sin :: "'f \<Rightarrow> 'f"
  f_mul :: "'f \<Rightarrow> 'f \<Rightarrow> 'f"
  f_add :: "'f \<Rightarrow> 'f \<Rightarrow> 'f"
  f_sub :: "'f \<Rightarrow> 'f \<Rightarrow> 'f"
  f_atan2 :: "'f \<Rightarrow> 'f \<Rightarrow> 'f"
  f_to_int :: "'f \<Rightarrow> int option"

definition mag_addres :: "16 word" where "mag_addres = 0x1E"

definition i2cfg2 :: i2cconfig where
  "i2cfg2 = \<lparr>op_mode = OPMODE_I2C, clock_speed = 400000, duty_cycle = FAST_DUTY_CYCLE_2\<rparr>"

definition spi1cfg :: spiconfig where
  "spi1cfg = \<lparr>sp_end_cb = None, sp_ssport = GPIOE, sp_sspad = GPIOE_CS_SPI,
     sp_cr1 = SPI_CR1_BR_0 OR SPI_CR1_BR_1 OR SPI_CR1_CPOL OR SPI_CR1_CPHA\<rparr>"

text \<open>The buffers of the file, and the two of \<open>magGetRegValues\<close> that hide them.\<close>

definition hd_rxbuf :: nat where "hd_rxbuf = 12"
definition hd_txbuf :: nat where "hd_txbuf = 13"
definition mag_rxbuf :: nat where "mag_rxbuf = 14"
definition mag_txbuf :: nat where "mag_txbuf = 15"

section \<open>Setting up\<close>

definition memsSetup :: "nat \<Rightarrow> bool \<Rightarrow> 'x robot_scheme \<Rightarrow> ('x, int) rout" where
  "memsSetup spi DMA s =
     (if \<not> DMA then obind (spiStart spi spi1cfg s) (\<lambda>_ s1. Done 0 (s1\<lparr>mems_driver := spi\<rparr>)) else Done 0 s)"

definition magSetup :: "nat \<Rightarrow> nat \<Rightarrow> nat \<Rightarrow> nat \<Rightarrow> bool \<Rightarrow> 'x robot_scheme \<Rightarrow> ('x, int) rout" where
  "magSetup i2cp gpio sda sdl DMA s =
     (if \<not> DMA then
        obind (i2cStart i2cp i2cfg2 s) (\<lambda>_ s1.
        Done 0 (palSetPadMode gpio sdl (PAL_MODE_ALTERNATE 4)
          (palSetPadMode gpio sda (PAL_MODE_ALTERNATE 4) (s1\<lparr>mag_driver := i2cp\<rparr>))))
      else Done 0 s)"

text \<open>A transfer on the bus, between taking and leaving it.\<close>

definition mag_transfer :: "nat \<Rightarrow> nat \<Rightarrow> 32 word \<Rightarrow> nat \<Rightarrow> 32 word \<Rightarrow> 'x robot_scheme \<Rightarrow> ('x, unit) rout" where
  "mag_transfer fuel txbuf n rxbuf m s =
     obind (i2cAcquireBus (mag_driver s) s) (\<lambda>_ s. Window s (\<lambda>s.
     obind (i2cMasterTransmitTimeout fuel (mag_driver s) mag_addres txbuf n (Some rxbuf) m (MS2ST 4) s) (\<lambda>r s.
     Window (s\<lparr>mag_status := r\<rparr>) (\<lambda>s. i2cReleaseBus (mag_driver s) s))))"

definition magSetRegisters :: "nat \<Rightarrow> byte \<Rightarrow> byte \<Rightarrow> byte \<Rightarrow> 'x robot_scheme \<Rightarrow> ('x, int) rout" where
  "magSetRegisters fuel reg1 reg2 reg3 s =
     (let s = s\<lparr>mag_status := RDY_OK\<rparr> in
      obind (store hd_txbuf 0 0x00 s) (\<lambda>_ s. obind (store hd_txbuf 1 reg1 s) (\<lambda>_ s.
      obind (store hd_txbuf 2 0x01 s) (\<lambda>_ s. obind (store hd_txbuf 3 reg2 s) (\<lambda>_ s.
      obind (store hd_txbuf 4 0x02 s) (\<lambda>_ s. obind (store hd_txbuf 5 reg3 s) (\<lambda>_ s.
      obind (mag_transfer fuel hd_txbuf 6 hd_rxbuf 0 s) (\<lambda>_ s.
      if mag_status s \<noteq> RDY_OK then Done (-1) s else Done 0 s))))))))"

definition memsSetRegister :: "byte \<Rightarrow> byte \<Rightarrow> byte \<Rightarrow> 'x robot_scheme \<Rightarrow> ('x, int) rout" where
  "memsSetRegister reg1 reg2 reg3 s =
     obind (lis302dlWriteRegister (mems_driver s) LIS302DL_CTRL_REG1 reg1 s) (\<lambda>_ s. Window s (\<lambda>s.
     obind (lis302dlWriteRegister (mems_driver s) LIS302DL_CTRL_REG2 reg2 s) (\<lambda>_ s. Window s (\<lambda>s.
     obind (lis302dlWriteRegister (mems_driver s) LIS302DL_CTRL_REG3 reg3 s) (\<lambda>_ s. Done 0 s)))))"

definition headingSetup :: "nat \<Rightarrow> 'x robot_scheme \<Rightarrow> ('x, int) rout" where
  "headingSetup fuel s =
     obind (memsSetup SPID1 False s) (\<lambda>_ s. Window s (\<lambda>s.
     obind (magSetup I2CD2 GPIOB 10 11 False s) (\<lambda>_ s. Window s (\<lambda>s.
     obind (magSetRegisters fuel 0x70 0xA0 0x00 s) (\<lambda>_ s. Window s (\<lambda>s.
     obind (memsSetRegister 0x43 0x00 0x00 s) (\<lambda>_ s. Done 0 s)))))))"

section \<open>Reading\<close>

definition s16 :: "int \<Rightarrow> int" where
  "s16 x = (x + 32768) mod 65536 - 32768"

definition complement2signed :: "byte \<Rightarrow> byte \<Rightarrow> int" where
  "complement2signed msb lsb =
     (let w = word_of_int (push_bit 8 (uint msb) + uint lsb) :: 16 word in
      if msb > 0x7F then s16 (- 1 * s16 (NOT (uint w) + 1)) else s16 (uint w))"

definition mag_value :: "nat \<Rightarrow> nat \<Rightarrow> 'x robot_scheme \<Rightarrow> ('x, int) rout" where
  "mag_value i j s =
     obind (load mag_rxbuf i s) (\<lambda>a s. obind (load mag_rxbuf j s) (\<lambda>b s. Done (complement2signed a b) s))"

definition magGetRegValues :: "nat \<Rightarrow> 'x robot_scheme \<Rightarrow> ('x, int) rout" where
  "magGetRegValues fuel s =
     (let s = s\<lparr>mag_status := RDY_OK\<rparr> in
      obind (store mag_txbuf 0 3 s) (\<lambda>_ s.
      obind (mag_transfer fuel mag_txbuf 1 mag_rxbuf 6 s) (\<lambda>_ s. Window s (\<lambda>s.
      obind (mag_value 0 1 s) (\<lambda>v s. let s = s\<lparr>X_m := v\<rparr> in
      obind (mag_value 4 5 s) (\<lambda>v s. let s = s\<lparr>Y_m := v\<rparr> in
      obind (mag_value 2 3 s) (\<lambda>v s. Done 0 (s\<lparr>Z_m := v\<rparr>))))))))"

definition memsGetRegValues :: "'x robot_scheme \<Rightarrow> ('x, int) rout" where
  "memsGetRegValues s =
     obind (lis302dlReadRegister SPID1 LIS302DL_OUTX s) (\<lambda>v s. Window (s\<lparr>X_a := sint v\<rparr>) (\<lambda>s.
     obind (lis302dlReadRegister SPID1 LIS302DL_OUTY s) (\<lambda>v s. Window (s\<lparr>Y_a := sint v\<rparr>) (\<lambda>s.
     obind (lis302dlReadRegister SPID1 LIS302DL_OUTZ s) (\<lambda>v s. Done 0 (s\<lparr>Z_a := sint v\<rparr>))))))"

definition heading_calculate :: "('f, 'z) flops_scheme \<Rightarrow> 'x robot_scheme \<Rightarrow> 'f" where
  "heading_calculate fl s =
     (let rollRadians = f_asin fl (Y_a s);
          pitchRadians = f_asin fl (X_a s);
          cosPitch = f_cos fl pitchRadians;
          sinPitch = f_sin fl pitchRadians;
          cosRoll = f_cos fl rollRadians;
          sinRoll = f_sin fl rollRadians;
          x = f_of_int fl (X_m s); y = f_of_int fl (Y_m s); z = f_of_int fl (Z_m s);
          Xh = f_add fl (f_mul fl x cosPitch) (f_mul fl z sinPitch);
          Yh = f_sub fl (f_add fl (f_mul fl (f_mul fl x sinRoll) sinPitch) (f_mul fl y cosRoll))
                 (f_mul fl (f_mul fl z sinRoll) cosPitch)
      in f_atan2 fl Yh Xh)"

text \<open>The heading is computed, and the acceleration along the first axis is returned.\<close>

definition getHeading :: "('f, 'z) flops_scheme \<Rightarrow> nat \<Rightarrow> 'x robot_scheme \<Rightarrow> ('x, int) rout" where
  "getHeading fl fuel s =
     obind (magGetRegValues fuel s) (\<lambda>_ s. Window s (\<lambda>s.
     obind (memsGetRegValues s) (\<lambda>_ s.
     case f_to_int fl (heading_calculate fl s) of
       None \<Rightarrow> Fault
     | Some value \<Rightarrow> (let value = (if value < 0 then value + 360 else value) in Done (X_a s) s))))"

section \<open>The bytes of a reading\<close>

text \<open>Two bytes, the high one first, are read as a number in two's complement.\<close>

lemma s16_signed: "s16 x = signed_take_bit 15 x"
  by (simp add: s16_def signed_take_bit_eq_take_bit_shift take_bit_eq_mod)

lemma s16_neg: "s16 (- s16 (- x)) = s16 x"
proof -
  have "- s16 (- x) + 32768 = (x + 32768) + 65536 * ((32768 - x) div 65536)"
    using div_mult_mod_eq[of "32768 - x" 65536] by (simp add: s16_def algebra_simps)
  then show ?thesis by (simp only: s16_def[of "- s16 (- x)"] s16_def[of x] mod_mult_self2)
qed

lemma word_cat_8_8: "uint (word_cat msb lsb :: 16 word) = push_bit 8 (uint msb) + uint lsb" for msb lsb :: byte
proof -
  have "uint (word_cat msb lsb :: 16 word) = take_bit 16 (concat_bit 8 (uint lsb) (uint msb))"
    by (simp add: word_cat_eq' uint_word_of_int_eq)
  moreover have "concat_bit 8 (uint lsb) (uint msb) = push_bit 8 (uint msb) + uint lsb"
    using uint_lt2p[of lsb] by (simp add: concat_bit_eq take_bit_int_eq_self)
  moreover have "take_bit 16 (push_bit 8 (uint msb) + uint lsb) = push_bit 8 (uint msb) + uint lsb"
    using uint_lt2p[of lsb] uint_lt2p[of msb] by (simp add: push_bit_eq_mult take_bit_int_eq_self)
  ultimately show ?thesis by simp
qed

lemma complement2signed_sint: "complement2signed msb lsb = sint (word_cat msb lsb :: 16 word)"
proof -
  have "word_of_int (push_bit 8 (uint msb) + uint lsb) = (word_cat msb lsb :: 16 word)"
    unfolding word_cat_8_8[symmetric] by simp
  moreover have "sint (word_cat msb lsb :: 16 word) = s16 (uint (word_cat msb lsb :: 16 word))"
    by (simp add: sint_uint s16_signed)
  ultimately show ?thesis
    using s16_neg[of "uint (word_cat msb lsb :: 16 word)"]
    by (simp add: complement2signed_def Let_def flip: minus_eq_not_plus_1)
qed

end
