(* ===== verification/Pal.thy ===== *)
theory Pal
  imports Hal
begin

text \<open>
  The rest of the digital I/O driver (\<^verbatim>\<open>include/pal.h\<close>, \<^verbatim>\<open>src/pal.c\<close>, \<^verbatim>\<open>GPIOv2/pal_lld.c\<close>): ports,
  groups of pads and buses, and the setup of a port.
\<close>

section \<open>Ports\<close>

definition palReadPort :: "nat \<Rightarrow> 'x hal_scheme \<Rightarrow> 32 word" where
  "palReadPort port s = IDR (gpios s port)"

definition palReadLatch :: "nat \<Rightarrow> 'x hal_scheme \<Rightarrow> 32 word" where
  "palReadLatch port s = ODR (gpios s port)"

definition palWritePort :: "nat \<Rightarrow> 32 word \<Rightarrow> 'x hal_scheme \<Rightarrow> 'x hal_scheme" where
  "palWritePort port bits s = set_gpio port (pal_lld_writeport bits (gpios s port)) s"

definition palSetPort :: "nat \<Rightarrow> 32 word \<Rightarrow> 'x hal_scheme \<Rightarrow> 'x hal_scheme" where
  "palSetPort port bits s = set_gpio port (pal_lld_setport bits (gpios s port)) s"

definition palClearPort :: "nat \<Rightarrow> 32 word \<Rightarrow> 'x hal_scheme \<Rightarrow> 'x hal_scheme" where
  "palClearPort port bits s = set_gpio port (pal_lld_clearport bits (gpios s port)) s"

section \<open>Groups of pads\<close>

text \<open>
  A write to \<open>BSRR\<close>: the upper half names the bits of the latch to clear, the lower half those to set,
  and setting wins.
\<close>

definition bsrr_write :: "32 word \<Rightarrow> gpio \<Rightarrow> gpio" where
  "bsrr_write w g = g\<lparr>ODR := ODR g AND NOT (drop_bit 16 w) OR take_bit 16 w\<rparr>"

definition PAL_GROUP_MASK :: "nat \<Rightarrow> 32 word" where
  "PAL_GROUP_MASK width = push_bit width 1 - 1"

definition palReadGroup :: "nat \<Rightarrow> 32 word \<Rightarrow> nat \<Rightarrow> 'x hal_scheme \<Rightarrow> 32 word" where
  "palReadGroup port emask offset s = drop_bit offset (palReadPort port s) AND emask"

definition pal_lld_writegroup :: "32 word \<Rightarrow> nat \<Rightarrow> 32 word \<Rightarrow> gpio \<Rightarrow> gpio" where
  "pal_lld_writegroup emask offset bits g =
     bsrr_write (push_bit (16 + offset) (NOT bits AND emask) OR push_bit offset (bits AND emask)) g"

definition palWriteGroup :: "nat \<Rightarrow> 32 word \<Rightarrow> nat \<Rightarrow> 32 word \<Rightarrow> 'x hal_scheme \<Rightarrow> 'x hal_scheme" where
  "palWriteGroup port emask offset bits s = set_gpio port (pal_lld_writegroup emask offset bits (gpios s port)) s"

definition palSetGroupMode :: "nat \<Rightarrow> 32 word \<Rightarrow> nat \<Rightarrow> 32 word \<Rightarrow> 'x hal_scheme \<Rightarrow> 'x hal_scheme" where
  "palSetGroupMode port emask offset mode s =
     set_gpio port (pal_lld_setgroupmode (push_bit offset emask) mode (gpios s port)) s"

definition palReadPad :: "nat \<Rightarrow> nat \<Rightarrow> 'x hal_scheme \<Rightarrow> 32 word" where
  "palReadPad port pad s = drop_bit pad (palReadPort port s) AND 1"

definition palWritePad :: "nat \<Rightarrow> nat \<Rightarrow> 32 word \<Rightarrow> 'x hal_scheme \<Rightarrow> 'x hal_scheme" where
  "palWritePad port pad b s = set_gpio port (pal_lld_writegroup 1 pad b (gpios s port)) s"

section \<open>Buses\<close>

record iobus =
  bus_port :: nat
  bus_mask :: "32 word"
  bus_offset :: nat

definition IOBUS_DECL :: "nat \<Rightarrow> nat \<Rightarrow> nat \<Rightarrow> iobus" where
  "IOBUS_DECL port width off = \<lparr>bus_port = port, bus_mask = PAL_GROUP_MASK width, bus_offset = off\<rparr>"

definition palReadBus :: "iobus \<Rightarrow> 'x hal_scheme \<Rightarrow> 32 word" where
  "palReadBus bus s = palReadGroup (bus_port bus) (bus_mask bus) (bus_offset bus) s"

definition palWriteBus :: "iobus \<Rightarrow> 32 word \<Rightarrow> 'x hal_scheme \<Rightarrow> 'x hal_scheme" where
  "palWriteBus bus bits s = palWriteGroup (bus_port bus) (bus_mask bus) (bus_offset bus) bits s"

definition palSetBusMode :: "iobus \<Rightarrow> 32 word \<Rightarrow> 'x hal_scheme \<Rightarrow> 'x hal_scheme" where
  "palSetBusMode bus mode s = palSetGroupMode (bus_port bus) (bus_mask bus) (bus_offset bus) mode s"

section \<open>Setting up the ports\<close>

record gpio_setup =
  moder :: "32 word"
  otyper :: "32 word"
  ospeedr :: "32 word"
  pupdr :: "32 word"
  odr :: "32 word"
  afrl :: "32 word"
  afrh :: "32 word"

definition initgpio :: "gpio_setup \<Rightarrow> gpio \<Rightarrow> gpio" where
  "initgpio config g = g\<lparr>OTYPER := otyper config, OSPEEDR := ospeedr config, PUPDR := pupdr config,
     ODR := odr config, AFRL := afrl config, AFRH := afrh config, MODER := moder config\<rparr>"

text \<open>The configuration lists the setup of the ports from A on.\<close>

fun pal_init_ports :: "nat \<Rightarrow> gpio_setup list \<Rightarrow> 'x hal_scheme \<Rightarrow> 'x hal_scheme" where
  "pal_init_ports port [] s = s"
| "pal_init_ports port (c # cs) s = pal_init_ports (Suc port) cs (set_gpio port (initgpio c (gpios s port)) s)"

definition palInit :: "gpio_setup list \<Rightarrow> 'x hal_scheme \<Rightarrow> 'x hal_scheme" where
  "palInit config s = pal_init_ports GPIOA config s"

section \<open>What a bus holds\<close>

lemma group_mask: "PAL_GROUP_MASK width = mask width"
  by (simp add: PAL_GROUP_MASK_def mask_eq_exp_minus_1 push_bit_of_1)

text \<open>Writing a bus puts the bits at its offset in the latch and changes no other pad.\<close>

lemma write_group_bit:
  assumes "offset + width \<le> 16" "i < 32"
  shows "bit (ODR (pal_lld_writegroup (mask width) offset bits g)) i =
    (if offset \<le> i \<and> i < offset + width then bit bits (i - offset) else bit (ODR g) i)"
  using assms by (auto simp: pal_lld_writegroup_def bsrr_write_def bit_simps)

lemma write_bus:
  assumes "off + width \<le> 16" and s': "s' = palWriteBus (IOBUS_DECL port width off) bits s"
  shows "take_bit width (drop_bit off (palReadLatch port s')) = take_bit width bits"
    "i < 32 \<Longrightarrow> i < off \<or> off + width \<le> i \<Longrightarrow> bit (palReadLatch port s') i = bit (palReadLatch port s) i"
    "p \<noteq> port \<Longrightarrow> gpios s' p = gpios s p" "kernel.truncate s' = kernel.truncate s"
proof -
  have l: "palReadLatch port s' = ODR (pal_lld_writegroup (mask width) off bits (gpios s port))"
    by (simp add: s' palWriteBus_def palWriteGroup_def IOBUS_DECL_def group_mask palReadLatch_def set_gpio_def)
  note b = write_group_bit[OF assms(1), of _ bits "gpios s port"]
  show "take_bit width (drop_bit off (palReadLatch port s')) = take_bit width bits"
  proof (rule bit_word_eqI)
    fix n assume n: "n < LENGTH(32)"
    show "bit (take_bit width (drop_bit off (palReadLatch port s'))) n = bit (take_bit width bits) n"
    proof (cases "n < width")
      case True
      then have "off + n < 32" using assms(1) by simp
      then show ?thesis using b[of "off + n"] True by (simp add: l bit_simps)
    qed (simp add: bit_simps)
  qed
  show "bit (palReadLatch port s') i = bit (palReadLatch port s) i" if "i < 32" "i < off \<or> off + width \<le> i"
    using b[of i] that unfolding l by (auto simp: palReadLatch_def)
  show "p \<noteq> port \<Longrightarrow> gpios s' p = gpios s p" "kernel.truncate s' = kernel.truncate s"
    by (simp_all add: s' palWriteBus_def palWriteGroup_def IOBUS_DECL_def set_gpio_def kernel.truncate_def)
qed

text \<open>When the pads follow the latch, a bus reads what was written to it.\<close>

lemma read_bus_back:
  assumes "off + width \<le> 16" and s': "s' = palWriteBus (IOBUS_DECL port width off) bits s"
    and "palReadPort port s'' = palReadLatch port s'"
  shows "palReadBus (IOBUS_DECL port width off) s'' = take_bit width bits"
  using write_bus(1)[OF assms(1) s'] assms(3)
  by (simp add: palReadBus_def palReadGroup_def IOBUS_DECL_def group_mask flip: take_bit_eq_mask)

end
