(* ===== verification/Board.thy ===== *)
theory Board
  imports Pal
begin

text \<open>
  The board, \<^verbatim>\<open>boards/ST_STM32F4_DISCOVERY/board.h\<close> and \<^verbatim>\<open>board.c\<close>: the initial setup of every pad,
  which \<open>palInit\<close> programs after reset, and what the comments of the header promise of it.
\<close>

section \<open>The values\<close>

definition PIN_MODE_INPUT :: "nat \<Rightarrow> 32 word" where "PIN_MODE_INPUT n = push_bit (n * 2) 0"
definition PIN_MODE_OUTPUT :: "nat \<Rightarrow> 32 word" where "PIN_MODE_OUTPUT n = push_bit (n * 2) 1"
definition PIN_MODE_ALTERNATE :: "nat \<Rightarrow> 32 word" where "PIN_MODE_ALTERNATE n = push_bit (n * 2) 2"
definition PIN_ODR_LOW :: "nat \<Rightarrow> 32 word" where "PIN_ODR_LOW n = push_bit n 0"
definition PIN_ODR_HIGH :: "nat \<Rightarrow> 32 word" where "PIN_ODR_HIGH n = push_bit n 1"
definition PIN_OTYPE_PUSHPULL :: "nat \<Rightarrow> 32 word" where "PIN_OTYPE_PUSHPULL n = push_bit n 0"
definition PIN_OTYPE_OPENDRAIN :: "nat \<Rightarrow> 32 word" where "PIN_OTYPE_OPENDRAIN n = push_bit n 1"
definition PIN_OSPEED_50M :: "nat \<Rightarrow> 32 word" where "PIN_OSPEED_50M n = push_bit (n * 2) 2"
definition PIN_OSPEED_100M :: "nat \<Rightarrow> 32 word" where "PIN_OSPEED_100M n = push_bit (n * 2) 3"
definition PIN_PUPDR_FLOATING :: "nat \<Rightarrow> 32 word" where "PIN_PUPDR_FLOATING n = push_bit (n * 2) 0"
definition PIN_PUPDR_PULLUP :: "nat \<Rightarrow> 32 word" where "PIN_PUPDR_PULLUP n = push_bit (n * 2) 1"
definition PIN_AFIO_AF :: "32 word \<Rightarrow> nat \<Rightarrow> 32 word" where "PIN_AFIO_AF v n = push_bit (n mod 8 * 4) v"

text \<open>A value is the union over the pads of the port, in their order.\<close>

fun pins :: "(nat \<Rightarrow> 32 word) list \<Rightarrow> nat \<Rightarrow> 32 word" where
  "pins [] n = 0"
| "pins (f # fs) n = f n OR pins fs (n + 1)"

definition VAL_GPIOA_MODER :: "32 word" where
  "VAL_GPIOA_MODER = pins [PIN_MODE_INPUT, PIN_MODE_INPUT, PIN_MODE_INPUT, PIN_MODE_INPUT, PIN_MODE_ALTERNATE,
     PIN_MODE_ALTERNATE, PIN_MODE_ALTERNATE, PIN_MODE_ALTERNATE, PIN_MODE_INPUT, PIN_MODE_INPUT,
     PIN_MODE_ALTERNATE, PIN_MODE_ALTERNATE, PIN_MODE_ALTERNATE, PIN_MODE_ALTERNATE, PIN_MODE_ALTERNATE,
     PIN_MODE_INPUT] 0"

definition VAL_GPIOA_OTYPER :: "32 word" where
  "VAL_GPIOA_OTYPER = pins [PIN_OTYPE_PUSHPULL, PIN_OTYPE_PUSHPULL, PIN_OTYPE_PUSHPULL, PIN_OTYPE_PUSHPULL,
     PIN_OTYPE_PUSHPULL, PIN_OTYPE_PUSHPULL, PIN_OTYPE_PUSHPULL, PIN_OTYPE_PUSHPULL, PIN_OTYPE_PUSHPULL,
     PIN_OTYPE_PUSHPULL, PIN_OTYPE_PUSHPULL, PIN_OTYPE_PUSHPULL, PIN_OTYPE_PUSHPULL, PIN_OTYPE_PUSHPULL,
     PIN_OTYPE_PUSHPULL, PIN_OTYPE_PUSHPULL] 0"

definition VAL_GPIOA_OSPEEDR :: "32 word" where
  "VAL_GPIOA_OSPEEDR = pins [PIN_OSPEED_100M, PIN_OSPEED_100M, PIN_OSPEED_100M, PIN_OSPEED_100M,
     PIN_OSPEED_100M, PIN_OSPEED_50M, PIN_OSPEED_50M, PIN_OSPEED_50M, PIN_OSPEED_100M, PIN_OSPEED_100M,
     PIN_OSPEED_100M, PIN_OSPEED_100M, PIN_OSPEED_100M, PIN_OSPEED_100M, PIN_OSPEED_100M, PIN_OSPEED_100M] 0"

definition VAL_GPIOA_PUPDR :: "32 word" where
  "VAL_GPIOA_PUPDR = pins [PIN_PUPDR_FLOATING, PIN_PUPDR_PULLUP, PIN_PUPDR_PULLUP, PIN_PUPDR_PULLUP,
     PIN_PUPDR_FLOATING, PIN_PUPDR_FLOATING, PIN_PUPDR_FLOATING, PIN_PUPDR_FLOATING, PIN_PUPDR_PULLUP,
     PIN_PUPDR_FLOATING, PIN_PUPDR_FLOATING, PIN_PUPDR_FLOATING, PIN_PUPDR_FLOATING, PIN_PUPDR_FLOATING,
     PIN_PUPDR_FLOATING, PIN_PUPDR_PULLUP] 0"

definition VAL_GPIOA_ODR :: "32 word" where
  "VAL_GPIOA_ODR = pins [PIN_ODR_HIGH, PIN_ODR_HIGH, PIN_ODR_HIGH, PIN_ODR_HIGH, PIN_ODR_HIGH, PIN_ODR_HIGH,
     PIN_ODR_HIGH, PIN_ODR_HIGH, PIN_ODR_HIGH, PIN_ODR_HIGH, PIN_ODR_HIGH, PIN_ODR_HIGH, PIN_ODR_HIGH,
     PIN_ODR_HIGH, PIN_ODR_HIGH, PIN_ODR_HIGH] 0"

definition VAL_GPIOA_AFRL :: "32 word" where
  "VAL_GPIOA_AFRL = pins (map PIN_AFIO_AF [0, 0, 0, 0, 6, 5, 5, 5]) 0"

definition VAL_GPIOA_AFRH :: "32 word" where
  "VAL_GPIOA_AFRH = pins (map PIN_AFIO_AF [0, 0, 10, 10, 10, 0, 0, 0]) 8"

definition VAL_GPIOB_MODER :: "32 word" where
  "VAL_GPIOB_MODER = pins [PIN_MODE_INPUT, PIN_MODE_INPUT, PIN_MODE_INPUT, PIN_MODE_ALTERNATE, PIN_MODE_INPUT,
     PIN_MODE_INPUT, PIN_MODE_ALTERNATE, PIN_MODE_INPUT, PIN_MODE_INPUT, PIN_MODE_ALTERNATE, PIN_MODE_INPUT,
     PIN_MODE_INPUT, PIN_MODE_INPUT, PIN_MODE_INPUT, PIN_MODE_INPUT, PIN_MODE_INPUT] 0"

definition VAL_GPIOB_OTYPER :: "32 word" where
  "VAL_GPIOB_OTYPER = pins [PIN_OTYPE_PUSHPULL, PIN_OTYPE_PUSHPULL, PIN_OTYPE_PUSHPULL, PIN_OTYPE_PUSHPULL,
     PIN_OTYPE_PUSHPULL, PIN_OTYPE_PUSHPULL, PIN_OTYPE_OPENDRAIN, PIN_OTYPE_PUSHPULL, PIN_OTYPE_PUSHPULL,
     PIN_OTYPE_OPENDRAIN, PIN_OTYPE_PUSHPULL, PIN_OTYPE_PUSHPULL, PIN_OTYPE_PUSHPULL, PIN_OTYPE_PUSHPULL,
     PIN_OTYPE_PUSHPULL, PIN_OTYPE_PUSHPULL] 0"

definition VAL_GPIOB_OSPEEDR :: "32 word" where
  "VAL_GPIOB_OSPEEDR = pins [PIN_OSPEED_100M, PIN_OSPEED_100M, PIN_OSPEED_100M, PIN_OSPEED_100M,
     PIN_OSPEED_100M, PIN_OSPEED_100M, PIN_OSPEED_100M, PIN_OSPEED_100M, PIN_OSPEED_100M, PIN_OSPEED_100M,
     PIN_OSPEED_100M, PIN_OSPEED_100M, PIN_OSPEED_100M, PIN_OSPEED_100M, PIN_OSPEED_100M, PIN_OSPEED_100M] 0"

definition VAL_GPIOB_PUPDR :: "32 word" where
  "VAL_GPIOB_PUPDR = pins [PIN_PUPDR_PULLUP, PIN_PUPDR_PULLUP, PIN_PUPDR_PULLUP, PIN_PUPDR_FLOATING,
     PIN_PUPDR_PULLUP, PIN_PUPDR_PULLUP, PIN_PUPDR_FLOATING, PIN_PUPDR_PULLUP, PIN_PUPDR_PULLUP,
     PIN_PUPDR_FLOATING, PIN_PUPDR_PULLUP, PIN_PUPDR_PULLUP, PIN_PUPDR_PULLUP, PIN_PUPDR_PULLUP,
     PIN_PUPDR_PULLUP, PIN_PUPDR_PULLUP] 0"

definition VAL_GPIOB_ODR :: "32 word" where
  "VAL_GPIOB_ODR = pins [PIN_ODR_HIGH, PIN_ODR_HIGH, PIN_ODR_HIGH, PIN_ODR_HIGH, PIN_ODR_HIGH, PIN_ODR_HIGH,
     PIN_ODR_HIGH, PIN_ODR_HIGH, PIN_ODR_HIGH, PIN_ODR_HIGH, PIN_ODR_HIGH, PIN_ODR_HIGH, PIN_ODR_HIGH,
     PIN_ODR_HIGH, PIN_ODR_HIGH, PIN_ODR_HIGH] 0"

definition VAL_GPIOB_AFRL :: "32 word" where
  "VAL_GPIOB_AFRL = pins (map PIN_AFIO_AF [0, 0, 0, 0, 0, 0, 4, 0]) 0"

definition VAL_GPIOB_AFRH :: "32 word" where
  "VAL_GPIOB_AFRH = pins (map PIN_AFIO_AF [0, 4, 0, 0, 0, 0, 0, 0]) 8"

definition VAL_GPIOC_MODER :: "32 word" where
  "VAL_GPIOC_MODER = pins [PIN_MODE_OUTPUT, PIN_MODE_INPUT, PIN_MODE_INPUT, PIN_MODE_INPUT, PIN_MODE_INPUT,
     PIN_MODE_INPUT, PIN_MODE_INPUT, PIN_MODE_ALTERNATE, PIN_MODE_INPUT, PIN_MODE_INPUT, PIN_MODE_ALTERNATE,
     PIN_MODE_INPUT, PIN_MODE_ALTERNATE, PIN_MODE_INPUT, PIN_MODE_INPUT, PIN_MODE_INPUT] 0"

definition VAL_GPIOC_OTYPER :: "32 word" where
  "VAL_GPIOC_OTYPER = pins [PIN_OTYPE_PUSHPULL, PIN_OTYPE_PUSHPULL, PIN_OTYPE_PUSHPULL, PIN_OTYPE_PUSHPULL,
     PIN_OTYPE_PUSHPULL, PIN_OTYPE_PUSHPULL, PIN_OTYPE_PUSHPULL, PIN_OTYPE_PUSHPULL, PIN_OTYPE_PUSHPULL,
     PIN_OTYPE_PUSHPULL, PIN_OTYPE_PUSHPULL, PIN_OTYPE_PUSHPULL, PIN_OTYPE_PUSHPULL, PIN_OTYPE_PUSHPULL,
     PIN_OTYPE_PUSHPULL, PIN_OTYPE_PUSHPULL] 0"

definition VAL_GPIOC_OSPEEDR :: "32 word" where
  "VAL_GPIOC_OSPEEDR = pins [PIN_OSPEED_100M, PIN_OSPEED_100M, PIN_OSPEED_100M, PIN_OSPEED_100M,
     PIN_OSPEED_100M, PIN_OSPEED_100M, PIN_OSPEED_100M, PIN_OSPEED_100M, PIN_OSPEED_100M, PIN_OSPEED_100M,
     PIN_OSPEED_100M, PIN_OSPEED_100M, PIN_OSPEED_100M, PIN_OSPEED_100M, PIN_OSPEED_100M, PIN_OSPEED_100M] 0"

definition VAL_GPIOC_PUPDR :: "32 word" where
  "VAL_GPIOC_PUPDR = pins [PIN_PUPDR_FLOATING, PIN_PUPDR_PULLUP, PIN_PUPDR_PULLUP, PIN_PUPDR_PULLUP,
     PIN_PUPDR_PULLUP, PIN_PUPDR_PULLUP, PIN_PUPDR_PULLUP, PIN_PUPDR_FLOATING, PIN_PUPDR_PULLUP,
     PIN_PUPDR_PULLUP, PIN_PUPDR_FLOATING, PIN_PUPDR_PULLUP, PIN_PUPDR_FLOATING, PIN_PUPDR_PULLUP,
     PIN_PUPDR_PULLUP, PIN_PUPDR_PULLUP] 0"

definition VAL_GPIOC_ODR :: "32 word" where
  "VAL_GPIOC_ODR = pins [PIN_ODR_HIGH, PIN_ODR_HIGH, PIN_ODR_HIGH, PIN_ODR_HIGH, PIN_ODR_HIGH, PIN_ODR_HIGH,
     PIN_ODR_HIGH, PIN_ODR_HIGH, PIN_ODR_HIGH, PIN_ODR_HIGH, PIN_ODR_HIGH, PIN_ODR_HIGH, PIN_ODR_HIGH,
     PIN_ODR_HIGH, PIN_ODR_HIGH, PIN_ODR_HIGH] 0"

definition VAL_GPIOC_AFRL :: "32 word" where
  "VAL_GPIOC_AFRL = pins (map PIN_AFIO_AF [0, 0, 0, 0, 0, 0, 0, 6]) 0"

definition VAL_GPIOC_AFRH :: "32 word" where
  "VAL_GPIOC_AFRH = pins (map PIN_AFIO_AF [0, 0, 6, 0, 6, 0, 0, 0]) 8"

definition VAL_GPIOD_MODER :: "32 word" where
  "VAL_GPIOD_MODER = pins [PIN_MODE_INPUT, PIN_MODE_INPUT, PIN_MODE_INPUT, PIN_MODE_INPUT, PIN_MODE_OUTPUT,
     PIN_MODE_INPUT, PIN_MODE_INPUT, PIN_MODE_INPUT, PIN_MODE_INPUT, PIN_MODE_INPUT, PIN_MODE_INPUT,
     PIN_MODE_INPUT, PIN_MODE_OUTPUT, PIN_MODE_OUTPUT, PIN_MODE_OUTPUT, PIN_MODE_OUTPUT] 0"

definition VAL_GPIOD_OTYPER :: "32 word" where
  "VAL_GPIOD_OTYPER = pins [PIN_OTYPE_PUSHPULL, PIN_OTYPE_PUSHPULL, PIN_OTYPE_PUSHPULL, PIN_OTYPE_PUSHPULL,
     PIN_OTYPE_PUSHPULL, PIN_OTYPE_PUSHPULL, PIN_OTYPE_PUSHPULL, PIN_OTYPE_PUSHPULL, PIN_OTYPE_PUSHPULL,
     PIN_OTYPE_PUSHPULL, PIN_OTYPE_PUSHPULL, PIN_OTYPE_PUSHPULL, PIN_OTYPE_PUSHPULL, PIN_OTYPE_PUSHPULL,
     PIN_OTYPE_PUSHPULL, PIN_OTYPE_PUSHPULL] 0"

definition VAL_GPIOD_OSPEEDR :: "32 word" where
  "VAL_GPIOD_OSPEEDR = pins [PIN_OSPEED_100M, PIN_OSPEED_100M, PIN_OSPEED_100M, PIN_OSPEED_100M,
     PIN_OSPEED_100M, PIN_OSPEED_100M, PIN_OSPEED_100M, PIN_OSPEED_100M, PIN_OSPEED_100M, PIN_OSPEED_100M,
     PIN_OSPEED_100M, PIN_OSPEED_100M, PIN_OSPEED_100M, PIN_OSPEED_100M, PIN_OSPEED_100M, PIN_OSPEED_100M] 0"

definition VAL_GPIOD_PUPDR :: "32 word" where
  "VAL_GPIOD_PUPDR = pins [PIN_PUPDR_PULLUP, PIN_PUPDR_PULLUP, PIN_PUPDR_PULLUP, PIN_PUPDR_PULLUP,
     PIN_PUPDR_FLOATING, PIN_PUPDR_FLOATING, PIN_PUPDR_PULLUP, PIN_PUPDR_PULLUP, PIN_PUPDR_PULLUP,
     PIN_PUPDR_PULLUP, PIN_PUPDR_PULLUP, PIN_PUPDR_FLOATING, PIN_PUPDR_FLOATING, PIN_PUPDR_FLOATING,
     PIN_PUPDR_FLOATING, PIN_PUPDR_FLOATING] 0"

definition VAL_GPIOD_ODR :: "32 word" where
  "VAL_GPIOD_ODR = pins [PIN_ODR_HIGH, PIN_ODR_HIGH, PIN_ODR_HIGH, PIN_ODR_HIGH, PIN_ODR_HIGH, PIN_ODR_HIGH,
     PIN_ODR_HIGH, PIN_ODR_HIGH, PIN_ODR_HIGH, PIN_ODR_HIGH, PIN_ODR_HIGH, PIN_ODR_HIGH, PIN_ODR_LOW,
     PIN_ODR_LOW, PIN_ODR_LOW, PIN_ODR_LOW] 0"

definition VAL_GPIOD_AFRL :: "32 word" where
  "VAL_GPIOD_AFRL = pins (map PIN_AFIO_AF [0, 0, 0, 0, 0, 0, 0, 0]) 0"

definition VAL_GPIOD_AFRH :: "32 word" where
  "VAL_GPIOD_AFRH = pins (map PIN_AFIO_AF [0, 0, 0, 0, 0, 0, 0, 0]) 8"

definition VAL_GPIOE_MODER :: "32 word" where
  "VAL_GPIOE_MODER = pins [PIN_MODE_INPUT, PIN_MODE_INPUT, PIN_MODE_INPUT, PIN_MODE_OUTPUT, PIN_MODE_INPUT,
     PIN_MODE_INPUT, PIN_MODE_INPUT, PIN_MODE_INPUT, PIN_MODE_INPUT, PIN_MODE_INPUT, PIN_MODE_INPUT,
     PIN_MODE_INPUT, PIN_MODE_INPUT, PIN_MODE_INPUT, PIN_MODE_INPUT, PIN_MODE_INPUT] 0"

definition VAL_GPIOE_OTYPER :: "32 word" where
  "VAL_GPIOE_OTYPER = pins [PIN_OTYPE_PUSHPULL, PIN_OTYPE_PUSHPULL, PIN_OTYPE_PUSHPULL, PIN_OTYPE_PUSHPULL,
     PIN_OTYPE_PUSHPULL, PIN_OTYPE_PUSHPULL, PIN_OTYPE_PUSHPULL, PIN_OTYPE_PUSHPULL, PIN_OTYPE_PUSHPULL,
     PIN_OTYPE_PUSHPULL, PIN_OTYPE_PUSHPULL, PIN_OTYPE_PUSHPULL, PIN_OTYPE_PUSHPULL, PIN_OTYPE_PUSHPULL,
     PIN_OTYPE_PUSHPULL, PIN_OTYPE_PUSHPULL] 0"

definition VAL_GPIOE_OSPEEDR :: "32 word" where
  "VAL_GPIOE_OSPEEDR = pins [PIN_OSPEED_100M, PIN_OSPEED_100M, PIN_OSPEED_100M, PIN_OSPEED_100M,
     PIN_OSPEED_100M, PIN_OSPEED_100M, PIN_OSPEED_100M, PIN_OSPEED_100M, PIN_OSPEED_100M, PIN_OSPEED_100M,
     PIN_OSPEED_100M, PIN_OSPEED_100M, PIN_OSPEED_100M, PIN_OSPEED_100M, PIN_OSPEED_100M, PIN_OSPEED_100M] 0"

definition VAL_GPIOE_PUPDR :: "32 word" where
  "VAL_GPIOE_PUPDR = pins [PIN_PUPDR_FLOATING, PIN_PUPDR_FLOATING, PIN_PUPDR_FLOATING, PIN_PUPDR_FLOATING,
     PIN_PUPDR_FLOATING, PIN_PUPDR_FLOATING, PIN_PUPDR_FLOATING, PIN_PUPDR_FLOATING, PIN_PUPDR_FLOATING,
     PIN_PUPDR_FLOATING, PIN_PUPDR_FLOATING, PIN_PUPDR_FLOATING, PIN_PUPDR_FLOATING, PIN_PUPDR_FLOATING,
     PIN_PUPDR_FLOATING, PIN_PUPDR_FLOATING] 0"

definition VAL_GPIOE_ODR :: "32 word" where
  "VAL_GPIOE_ODR = pins [PIN_ODR_HIGH, PIN_ODR_HIGH, PIN_ODR_HIGH, PIN_ODR_HIGH, PIN_ODR_HIGH, PIN_ODR_HIGH,
     PIN_ODR_HIGH, PIN_ODR_HIGH, PIN_ODR_HIGH, PIN_ODR_HIGH, PIN_ODR_HIGH, PIN_ODR_HIGH, PIN_ODR_HIGH,
     PIN_ODR_HIGH, PIN_ODR_HIGH, PIN_ODR_HIGH] 0"

definition VAL_GPIOE_AFRL :: "32 word" where
  "VAL_GPIOE_AFRL = pins (map PIN_AFIO_AF [0, 0, 0, 0, 0, 0, 0, 0]) 0"

definition VAL_GPIOE_AFRH :: "32 word" where
  "VAL_GPIOE_AFRH = pins (map PIN_AFIO_AF [0, 0, 0, 0, 0, 0, 0, 0]) 8"

definition VAL_GPIOF_MODER :: "32 word" where
  "VAL_GPIOF_MODER = pins [PIN_MODE_INPUT, PIN_MODE_INPUT, PIN_MODE_INPUT, PIN_MODE_INPUT, PIN_MODE_INPUT,
     PIN_MODE_INPUT, PIN_MODE_INPUT, PIN_MODE_INPUT, PIN_MODE_INPUT, PIN_MODE_INPUT, PIN_MODE_INPUT,
     PIN_MODE_INPUT, PIN_MODE_INPUT, PIN_MODE_INPUT, PIN_MODE_INPUT, PIN_MODE_INPUT] 0"

definition VAL_GPIOF_OTYPER :: "32 word" where
  "VAL_GPIOF_OTYPER = pins [PIN_OTYPE_PUSHPULL, PIN_OTYPE_PUSHPULL, PIN_OTYPE_PUSHPULL, PIN_OTYPE_PUSHPULL,
     PIN_OTYPE_PUSHPULL, PIN_OTYPE_PUSHPULL, PIN_OTYPE_PUSHPULL, PIN_OTYPE_PUSHPULL, PIN_OTYPE_PUSHPULL,
     PIN_OTYPE_PUSHPULL, PIN_OTYPE_PUSHPULL, PIN_OTYPE_PUSHPULL, PIN_OTYPE_PUSHPULL, PIN_OTYPE_PUSHPULL,
     PIN_OTYPE_PUSHPULL, PIN_OTYPE_PUSHPULL] 0"

definition VAL_GPIOF_OSPEEDR :: "32 word" where
  "VAL_GPIOF_OSPEEDR = pins [PIN_OSPEED_100M, PIN_OSPEED_100M, PIN_OSPEED_100M, PIN_OSPEED_100M,
     PIN_OSPEED_100M, PIN_OSPEED_100M, PIN_OSPEED_100M, PIN_OSPEED_100M, PIN_OSPEED_100M, PIN_OSPEED_100M,
     PIN_OSPEED_100M, PIN_OSPEED_100M, PIN_OSPEED_100M, PIN_OSPEED_100M, PIN_OSPEED_100M, PIN_OSPEED_100M] 0"

definition VAL_GPIOF_PUPDR :: "32 word" where
  "VAL_GPIOF_PUPDR = pins [PIN_PUPDR_FLOATING, PIN_PUPDR_FLOATING, PIN_PUPDR_FLOATING, PIN_PUPDR_FLOATING,
     PIN_PUPDR_FLOATING, PIN_PUPDR_FLOATING, PIN_PUPDR_FLOATING, PIN_PUPDR_FLOATING, PIN_PUPDR_FLOATING,
     PIN_PUPDR_FLOATING, PIN_PUPDR_FLOATING, PIN_PUPDR_FLOATING, PIN_PUPDR_FLOATING, PIN_PUPDR_FLOATING,
     PIN_PUPDR_FLOATING, PIN_PUPDR_FLOATING] 0"

definition VAL_GPIOF_ODR :: "32 word" where
  "VAL_GPIOF_ODR = pins [PIN_ODR_HIGH, PIN_ODR_HIGH, PIN_ODR_HIGH, PIN_ODR_HIGH, PIN_ODR_HIGH, PIN_ODR_HIGH,
     PIN_ODR_HIGH, PIN_ODR_HIGH, PIN_ODR_HIGH, PIN_ODR_HIGH, PIN_ODR_HIGH, PIN_ODR_HIGH, PIN_ODR_HIGH,
     PIN_ODR_HIGH, PIN_ODR_HIGH, PIN_ODR_HIGH] 0"

definition VAL_GPIOF_AFRL :: "32 word" where
  "VAL_GPIOF_AFRL = pins (map PIN_AFIO_AF [0, 0, 0, 0, 0, 0, 0, 0]) 0"

definition VAL_GPIOF_AFRH :: "32 word" where
  "VAL_GPIOF_AFRH = pins (map PIN_AFIO_AF [0, 0, 0, 0, 0, 0, 0, 0]) 8"

definition VAL_GPIOG_MODER :: "32 word" where
  "VAL_GPIOG_MODER = pins [PIN_MODE_INPUT, PIN_MODE_INPUT, PIN_MODE_INPUT, PIN_MODE_INPUT, PIN_MODE_INPUT,
     PIN_MODE_INPUT, PIN_MODE_INPUT, PIN_MODE_INPUT, PIN_MODE_INPUT, PIN_MODE_INPUT, PIN_MODE_INPUT,
     PIN_MODE_INPUT, PIN_MODE_INPUT, PIN_MODE_INPUT, PIN_MODE_INPUT, PIN_MODE_INPUT] 0"

definition VAL_GPIOG_OTYPER :: "32 word" where
  "VAL_GPIOG_OTYPER = pins [PIN_OTYPE_PUSHPULL, PIN_OTYPE_PUSHPULL, PIN_OTYPE_PUSHPULL, PIN_OTYPE_PUSHPULL,
     PIN_OTYPE_PUSHPULL, PIN_OTYPE_PUSHPULL, PIN_OTYPE_PUSHPULL, PIN_OTYPE_PUSHPULL, PIN_OTYPE_PUSHPULL,
     PIN_OTYPE_PUSHPULL, PIN_OTYPE_PUSHPULL, PIN_OTYPE_PUSHPULL, PIN_OTYPE_PUSHPULL, PIN_OTYPE_PUSHPULL,
     PIN_OTYPE_PUSHPULL, PIN_OTYPE_PUSHPULL] 0"

definition VAL_GPIOG_OSPEEDR :: "32 word" where
  "VAL_GPIOG_OSPEEDR = pins [PIN_OSPEED_100M, PIN_OSPEED_100M, PIN_OSPEED_100M, PIN_OSPEED_100M,
     PIN_OSPEED_100M, PIN_OSPEED_100M, PIN_OSPEED_100M, PIN_OSPEED_100M, PIN_OSPEED_100M, PIN_OSPEED_100M,
     PIN_OSPEED_100M, PIN_OSPEED_100M, PIN_OSPEED_100M, PIN_OSPEED_100M, PIN_OSPEED_100M, PIN_OSPEED_100M] 0"

definition VAL_GPIOG_PUPDR :: "32 word" where
  "VAL_GPIOG_PUPDR = pins [PIN_PUPDR_FLOATING, PIN_PUPDR_FLOATING, PIN_PUPDR_FLOATING, PIN_PUPDR_FLOATING,
     PIN_PUPDR_FLOATING, PIN_PUPDR_FLOATING, PIN_PUPDR_FLOATING, PIN_PUPDR_FLOATING, PIN_PUPDR_FLOATING,
     PIN_PUPDR_FLOATING, PIN_PUPDR_FLOATING, PIN_PUPDR_FLOATING, PIN_PUPDR_FLOATING, PIN_PUPDR_FLOATING,
     PIN_PUPDR_FLOATING, PIN_PUPDR_FLOATING] 0"

definition VAL_GPIOG_ODR :: "32 word" where
  "VAL_GPIOG_ODR = pins [PIN_ODR_HIGH, PIN_ODR_HIGH, PIN_ODR_HIGH, PIN_ODR_HIGH, PIN_ODR_HIGH, PIN_ODR_HIGH,
     PIN_ODR_HIGH, PIN_ODR_HIGH, PIN_ODR_HIGH, PIN_ODR_HIGH, PIN_ODR_HIGH, PIN_ODR_HIGH, PIN_ODR_HIGH,
     PIN_ODR_HIGH, PIN_ODR_HIGH, PIN_ODR_HIGH] 0"

definition VAL_GPIOG_AFRL :: "32 word" where
  "VAL_GPIOG_AFRL = pins (map PIN_AFIO_AF [0, 0, 0, 0, 0, 0, 0, 0]) 0"

definition VAL_GPIOG_AFRH :: "32 word" where
  "VAL_GPIOG_AFRH = pins (map PIN_AFIO_AF [0, 0, 0, 0, 0, 0, 0, 0]) 8"

definition VAL_GPIOH_MODER :: "32 word" where
  "VAL_GPIOH_MODER = pins [PIN_MODE_INPUT, PIN_MODE_INPUT, PIN_MODE_INPUT, PIN_MODE_INPUT, PIN_MODE_INPUT,
     PIN_MODE_INPUT, PIN_MODE_INPUT, PIN_MODE_INPUT, PIN_MODE_INPUT, PIN_MODE_INPUT, PIN_MODE_INPUT,
     PIN_MODE_INPUT, PIN_MODE_INPUT, PIN_MODE_INPUT, PIN_MODE_INPUT, PIN_MODE_INPUT] 0"

definition VAL_GPIOH_OTYPER :: "32 word" where
  "VAL_GPIOH_OTYPER = pins [PIN_OTYPE_PUSHPULL, PIN_OTYPE_PUSHPULL, PIN_OTYPE_PUSHPULL, PIN_OTYPE_PUSHPULL,
     PIN_OTYPE_PUSHPULL, PIN_OTYPE_PUSHPULL, PIN_OTYPE_PUSHPULL, PIN_OTYPE_PUSHPULL, PIN_OTYPE_PUSHPULL,
     PIN_OTYPE_PUSHPULL, PIN_OTYPE_PUSHPULL, PIN_OTYPE_PUSHPULL, PIN_OTYPE_PUSHPULL, PIN_OTYPE_PUSHPULL,
     PIN_OTYPE_PUSHPULL, PIN_OTYPE_PUSHPULL] 0"

definition VAL_GPIOH_OSPEEDR :: "32 word" where
  "VAL_GPIOH_OSPEEDR = pins [PIN_OSPEED_100M, PIN_OSPEED_100M, PIN_OSPEED_100M, PIN_OSPEED_100M,
     PIN_OSPEED_100M, PIN_OSPEED_100M, PIN_OSPEED_100M, PIN_OSPEED_100M, PIN_OSPEED_100M, PIN_OSPEED_100M,
     PIN_OSPEED_100M, PIN_OSPEED_100M, PIN_OSPEED_100M, PIN_OSPEED_100M, PIN_OSPEED_100M, PIN_OSPEED_100M] 0"

definition VAL_GPIOH_PUPDR :: "32 word" where
  "VAL_GPIOH_PUPDR = pins [PIN_PUPDR_FLOATING, PIN_PUPDR_FLOATING, PIN_PUPDR_FLOATING, PIN_PUPDR_FLOATING,
     PIN_PUPDR_FLOATING, PIN_PUPDR_FLOATING, PIN_PUPDR_FLOATING, PIN_PUPDR_FLOATING, PIN_PUPDR_FLOATING,
     PIN_PUPDR_FLOATING, PIN_PUPDR_FLOATING, PIN_PUPDR_FLOATING, PIN_PUPDR_FLOATING, PIN_PUPDR_FLOATING,
     PIN_PUPDR_FLOATING, PIN_PUPDR_FLOATING] 0"

definition VAL_GPIOH_ODR :: "32 word" where
  "VAL_GPIOH_ODR = pins [PIN_ODR_HIGH, PIN_ODR_HIGH, PIN_ODR_HIGH, PIN_ODR_HIGH, PIN_ODR_HIGH, PIN_ODR_HIGH,
     PIN_ODR_HIGH, PIN_ODR_HIGH, PIN_ODR_HIGH, PIN_ODR_HIGH, PIN_ODR_HIGH, PIN_ODR_HIGH, PIN_ODR_HIGH,
     PIN_ODR_HIGH, PIN_ODR_HIGH, PIN_ODR_HIGH] 0"

definition VAL_GPIOH_AFRL :: "32 word" where
  "VAL_GPIOH_AFRL = pins (map PIN_AFIO_AF [0, 0, 0, 0, 0, 0, 0, 0]) 0"

definition VAL_GPIOH_AFRH :: "32 word" where
  "VAL_GPIOH_AFRH = pins (map PIN_AFIO_AF [0, 0, 0, 0, 0, 0, 0, 0]) 8"

definition VAL_GPIOI_MODER :: "32 word" where
  "VAL_GPIOI_MODER = pins [PIN_MODE_INPUT, PIN_MODE_INPUT, PIN_MODE_INPUT, PIN_MODE_INPUT, PIN_MODE_INPUT,
     PIN_MODE_INPUT, PIN_MODE_INPUT, PIN_MODE_INPUT, PIN_MODE_INPUT, PIN_MODE_INPUT, PIN_MODE_INPUT,
     PIN_MODE_INPUT, PIN_MODE_INPUT, PIN_MODE_INPUT, PIN_MODE_INPUT, PIN_MODE_INPUT] 0"

definition VAL_GPIOI_OTYPER :: "32 word" where
  "VAL_GPIOI_OTYPER = pins [PIN_OTYPE_PUSHPULL, PIN_OTYPE_PUSHPULL, PIN_OTYPE_PUSHPULL, PIN_OTYPE_PUSHPULL,
     PIN_OTYPE_PUSHPULL, PIN_OTYPE_PUSHPULL, PIN_OTYPE_PUSHPULL, PIN_OTYPE_PUSHPULL, PIN_OTYPE_PUSHPULL,
     PIN_OTYPE_PUSHPULL, PIN_OTYPE_PUSHPULL, PIN_OTYPE_PUSHPULL, PIN_OTYPE_PUSHPULL, PIN_OTYPE_PUSHPULL,
     PIN_OTYPE_PUSHPULL, PIN_OTYPE_PUSHPULL] 0"

definition VAL_GPIOI_OSPEEDR :: "32 word" where
  "VAL_GPIOI_OSPEEDR = pins [PIN_OSPEED_100M, PIN_OSPEED_100M, PIN_OSPEED_100M, PIN_OSPEED_100M,
     PIN_OSPEED_100M, PIN_OSPEED_100M, PIN_OSPEED_100M, PIN_OSPEED_100M, PIN_OSPEED_100M, PIN_OSPEED_100M,
     PIN_OSPEED_100M, PIN_OSPEED_100M, PIN_OSPEED_100M, PIN_OSPEED_100M, PIN_OSPEED_100M, PIN_OSPEED_100M] 0"

definition VAL_GPIOI_PUPDR :: "32 word" where
  "VAL_GPIOI_PUPDR = pins [PIN_PUPDR_FLOATING, PIN_PUPDR_FLOATING, PIN_PUPDR_FLOATING, PIN_PUPDR_FLOATING,
     PIN_PUPDR_FLOATING, PIN_PUPDR_FLOATING, PIN_PUPDR_FLOATING, PIN_PUPDR_FLOATING, PIN_PUPDR_FLOATING,
     PIN_PUPDR_FLOATING, PIN_PUPDR_FLOATING, PIN_PUPDR_FLOATING, PIN_PUPDR_FLOATING, PIN_PUPDR_FLOATING,
     PIN_PUPDR_FLOATING, PIN_PUPDR_FLOATING] 0"

definition VAL_GPIOI_ODR :: "32 word" where
  "VAL_GPIOI_ODR = pins [PIN_ODR_HIGH, PIN_ODR_HIGH, PIN_ODR_HIGH, PIN_ODR_HIGH, PIN_ODR_HIGH, PIN_ODR_HIGH,
     PIN_ODR_HIGH, PIN_ODR_HIGH, PIN_ODR_HIGH, PIN_ODR_HIGH, PIN_ODR_HIGH, PIN_ODR_HIGH, PIN_ODR_HIGH,
     PIN_ODR_HIGH, PIN_ODR_HIGH, PIN_ODR_HIGH] 0"

definition VAL_GPIOI_AFRL :: "32 word" where
  "VAL_GPIOI_AFRL = pins (map PIN_AFIO_AF [0, 0, 0, 0, 0, 0, 0, 0]) 0"

definition VAL_GPIOI_AFRH :: "32 word" where
  "VAL_GPIOI_AFRH = pins (map PIN_AFIO_AF [0, 0, 0, 0, 0, 0, 0, 0]) 8"

definition pal_default_config :: "gpio_setup list" where
  "pal_default_config =
    [\<lparr>moder = VAL_GPIOA_MODER, otyper = VAL_GPIOA_OTYPER, ospeedr = VAL_GPIOA_OSPEEDR,
       pupdr = VAL_GPIOA_PUPDR, odr = VAL_GPIOA_ODR, afrl = VAL_GPIOA_AFRL, afrh = VAL_GPIOA_AFRH\<rparr>,
     \<lparr>moder = VAL_GPIOB_MODER, otyper = VAL_GPIOB_OTYPER, ospeedr = VAL_GPIOB_OSPEEDR,
       pupdr = VAL_GPIOB_PUPDR, odr = VAL_GPIOB_ODR, afrl = VAL_GPIOB_AFRL, afrh = VAL_GPIOB_AFRH\<rparr>,
     \<lparr>moder = VAL_GPIOC_MODER, otyper = VAL_GPIOC_OTYPER, ospeedr = VAL_GPIOC_OSPEEDR,
       pupdr = VAL_GPIOC_PUPDR, odr = VAL_GPIOC_ODR, afrl = VAL_GPIOC_AFRL, afrh = VAL_GPIOC_AFRH\<rparr>,
     \<lparr>moder = VAL_GPIOD_MODER, otyper = VAL_GPIOD_OTYPER, ospeedr = VAL_GPIOD_OSPEEDR,
       pupdr = VAL_GPIOD_PUPDR, odr = VAL_GPIOD_ODR, afrl = VAL_GPIOD_AFRL, afrh = VAL_GPIOD_AFRH\<rparr>,
     \<lparr>moder = VAL_GPIOE_MODER, otyper = VAL_GPIOE_OTYPER, ospeedr = VAL_GPIOE_OSPEEDR,
       pupdr = VAL_GPIOE_PUPDR, odr = VAL_GPIOE_ODR, afrl = VAL_GPIOE_AFRL, afrh = VAL_GPIOE_AFRH\<rparr>,
     \<lparr>moder = VAL_GPIOF_MODER, otyper = VAL_GPIOF_OTYPER, ospeedr = VAL_GPIOF_OSPEEDR,
       pupdr = VAL_GPIOF_PUPDR, odr = VAL_GPIOF_ODR, afrl = VAL_GPIOF_AFRL, afrh = VAL_GPIOF_AFRH\<rparr>,
     \<lparr>moder = VAL_GPIOG_MODER, otyper = VAL_GPIOG_OTYPER, ospeedr = VAL_GPIOG_OSPEEDR,
       pupdr = VAL_GPIOG_PUPDR, odr = VAL_GPIOG_ODR, afrl = VAL_GPIOG_AFRL, afrh = VAL_GPIOG_AFRH\<rparr>,
     \<lparr>moder = VAL_GPIOH_MODER, otyper = VAL_GPIOH_OTYPER, ospeedr = VAL_GPIOH_OSPEEDR,
       pupdr = VAL_GPIOH_PUPDR, odr = VAL_GPIOH_ODR, afrl = VAL_GPIOH_AFRL, afrh = VAL_GPIOH_AFRH\<rparr>,
     \<lparr>moder = VAL_GPIOI_MODER, otyper = VAL_GPIOI_OTYPER, ospeedr = VAL_GPIOI_OSPEEDR,
       pupdr = VAL_GPIOI_PUPDR, odr = VAL_GPIOI_ODR, afrl = VAL_GPIOI_AFRL, afrh = VAL_GPIOI_AFRH\<rparr>]"

section \<open>What the comments say\<close>

text \<open>The header's table of the pads of the ports A to I.\<close>

datatype pad_doc = Input_floating | Input_pullup | Alternate "32 word" | Output_pushpull_maximum

definition board_doc :: "pad_doc list list" where
  "board_doc =
    [[Input_floating, Input_pullup, Input_pullup, Input_pullup, Alternate 6, Alternate 5, Alternate 5,
      Alternate 5, Input_pullup, Input_floating, Alternate 10, Alternate 10, Alternate 10, Alternate 0,
      Alternate 0, Input_pullup],
     [Input_pullup, Input_pullup, Input_pullup, Alternate 0, Input_pullup, Input_pullup, Alternate 4,
      Input_pullup, Input_pullup, Alternate 4, Input_pullup, Input_pullup, Input_pullup, Input_pullup,
      Input_pullup, Input_pullup],
     [Output_pushpull_maximum, Input_pullup, Input_pullup, Input_pullup, Input_pullup, Input_pullup,
      Input_pullup, Alternate 6, Input_pullup, Input_pullup, Alternate 6, Input_pullup, Alternate 6,
      Input_pullup, Input_pullup, Input_pullup],
     [Input_pullup, Input_pullup, Input_pullup, Input_pullup, Output_pushpull_maximum, Input_floating,
      Input_pullup, Input_pullup, Input_pullup, Input_pullup, Input_pullup, Input_floating,
      Output_pushpull_maximum, Output_pushpull_maximum, Output_pushpull_maximum, Output_pushpull_maximum],
     [Input_floating, Input_floating, Input_floating, Output_pushpull_maximum, Input_floating,
      Input_floating, Input_floating, Input_floating, Input_floating, Input_floating, Input_floating,
      Input_floating, Input_floating, Input_floating, Input_floating, Input_floating],
     replicate 16 Input_floating,
     replicate 16 Input_floating,
     replicate 16 Input_floating,
     replicate 16 Input_floating]"

definition pad_as :: "gpio \<Rightarrow> nat \<Rightarrow> pad_doc \<Rightarrow> bool" where
  "pad_as g n d =
     (case d of
        Input_floating \<Rightarrow> pad_field 2 (MODER g) n = 0 \<and> pad_field 2 (PUPDR g) n = 0
      | Input_pullup \<Rightarrow> pad_field 2 (MODER g) n = 0 \<and> pad_field 2 (PUPDR g) n = 1
      | Alternate f \<Rightarrow> pad_field 2 (MODER g) n = 2 \<and>
          (if n < 8 then pad_field 4 (AFRL g) n else pad_field 4 (AFRH g) (n - 8)) = f
      | Output_pushpull_maximum \<Rightarrow> pad_field 2 (MODER g) n = 1 \<and> pad_field 1 (OTYPER g) n = 0 \<and>
          pad_field 2 (OSPEEDR g) n = 3)"

section \<open>The values keep the promise\<close>

text \<open>The values as numbers.\<close>

lemmas PIN_defs = PIN_MODE_INPUT_def PIN_MODE_OUTPUT_def PIN_MODE_ALTERNATE_def PIN_OTYPE_PUSHPULL_def
  PIN_OTYPE_OPENDRAIN_def PIN_OSPEED_50M_def PIN_OSPEED_100M_def PIN_PUPDR_FLOATING_def PIN_PUPDR_PULLUP_def
  PIN_ODR_LOW_def PIN_ODR_HIGH_def PIN_AFIO_AF_def

lemma VAL_GPIOA:
  "VAL_GPIOA_MODER = 0x2AA0AA00"
  "VAL_GPIOA_OTYPER = 0x0"
  "VAL_GPIOA_OSPEEDR = 0xFFFFABFF"
  "VAL_GPIOA_PUPDR = 0x40010054"
  "VAL_GPIOA_AFRL = 0x55560000"
  "VAL_GPIOA_AFRH = 0xAAA00"
  by (simp_all add: VAL_GPIOA_MODER_def VAL_GPIOA_OTYPER_def VAL_GPIOA_OSPEEDR_def VAL_GPIOA_PUPDR_def VAL_GPIOA_AFRL_def VAL_GPIOA_AFRH_def PIN_defs)

lemma VAL_GPIOB:
  "VAL_GPIOB_MODER = 0x82080"
  "VAL_GPIOB_OTYPER = 0x240"
  "VAL_GPIOB_OSPEEDR = 0xFFFFFFFF"
  "VAL_GPIOB_PUPDR = 0x55514515"
  "VAL_GPIOB_AFRL = 0x4000000"
  "VAL_GPIOB_AFRH = 0x40"
  by (simp_all add: VAL_GPIOB_MODER_def VAL_GPIOB_OTYPER_def VAL_GPIOB_OSPEEDR_def VAL_GPIOB_PUPDR_def VAL_GPIOB_AFRL_def VAL_GPIOB_AFRH_def PIN_defs)

lemma VAL_GPIOC:
  "VAL_GPIOC_MODER = 0x2208001"
  "VAL_GPIOC_OTYPER = 0x0"
  "VAL_GPIOC_OSPEEDR = 0xFFFFFFFF"
  "VAL_GPIOC_PUPDR = 0x54451554"
  "VAL_GPIOC_AFRL = 0x60000000"
  "VAL_GPIOC_AFRH = 0x60600"
  by (simp_all add: VAL_GPIOC_MODER_def VAL_GPIOC_OTYPER_def VAL_GPIOC_OSPEEDR_def VAL_GPIOC_PUPDR_def VAL_GPIOC_AFRL_def VAL_GPIOC_AFRH_def PIN_defs)

lemma VAL_GPIOD:
  "VAL_GPIOD_MODER = 0x55000100"
  "VAL_GPIOD_OTYPER = 0x0"
  "VAL_GPIOD_OSPEEDR = 0xFFFFFFFF"
  "VAL_GPIOD_PUPDR = 0x155055"
  "VAL_GPIOD_AFRL = 0x0"
  "VAL_GPIOD_AFRH = 0x0"
  by (simp_all add: VAL_GPIOD_MODER_def VAL_GPIOD_OTYPER_def VAL_GPIOD_OSPEEDR_def VAL_GPIOD_PUPDR_def VAL_GPIOD_AFRL_def VAL_GPIOD_AFRH_def PIN_defs)

lemma VAL_GPIOE:
  "VAL_GPIOE_MODER = 0x40"
  "VAL_GPIOE_OTYPER = 0x0"
  "VAL_GPIOE_OSPEEDR = 0xFFFFFFFF"
  "VAL_GPIOE_PUPDR = 0x0"
  "VAL_GPIOE_AFRL = 0x0"
  "VAL_GPIOE_AFRH = 0x0"
  by (simp_all add: VAL_GPIOE_MODER_def VAL_GPIOE_OTYPER_def VAL_GPIOE_OSPEEDR_def VAL_GPIOE_PUPDR_def VAL_GPIOE_AFRL_def VAL_GPIOE_AFRH_def PIN_defs)

lemma VAL_GPIOF:
  "VAL_GPIOF_MODER = 0x0"
  "VAL_GPIOF_OTYPER = 0x0"
  "VAL_GPIOF_OSPEEDR = 0xFFFFFFFF"
  "VAL_GPIOF_PUPDR = 0x0"
  "VAL_GPIOF_AFRL = 0x0"
  "VAL_GPIOF_AFRH = 0x0"
  by (simp_all add: VAL_GPIOF_MODER_def VAL_GPIOF_OTYPER_def VAL_GPIOF_OSPEEDR_def VAL_GPIOF_PUPDR_def VAL_GPIOF_AFRL_def VAL_GPIOF_AFRH_def PIN_defs)

lemma VAL_GPIOG:
  "VAL_GPIOG_MODER = 0x0"
  "VAL_GPIOG_OTYPER = 0x0"
  "VAL_GPIOG_OSPEEDR = 0xFFFFFFFF"
  "VAL_GPIOG_PUPDR = 0x0"
  "VAL_GPIOG_AFRL = 0x0"
  "VAL_GPIOG_AFRH = 0x0"
  by (simp_all add: VAL_GPIOG_MODER_def VAL_GPIOG_OTYPER_def VAL_GPIOG_OSPEEDR_def VAL_GPIOG_PUPDR_def VAL_GPIOG_AFRL_def VAL_GPIOG_AFRH_def PIN_defs)

lemma VAL_GPIOH:
  "VAL_GPIOH_MODER = 0x0"
  "VAL_GPIOH_OTYPER = 0x0"
  "VAL_GPIOH_OSPEEDR = 0xFFFFFFFF"
  "VAL_GPIOH_PUPDR = 0x0"
  "VAL_GPIOH_AFRL = 0x0"
  "VAL_GPIOH_AFRH = 0x0"
  by (simp_all add: VAL_GPIOH_MODER_def VAL_GPIOH_OTYPER_def VAL_GPIOH_OSPEEDR_def VAL_GPIOH_PUPDR_def VAL_GPIOH_AFRL_def VAL_GPIOH_AFRH_def PIN_defs)

lemma VAL_GPIOI:
  "VAL_GPIOI_MODER = 0x0"
  "VAL_GPIOI_OTYPER = 0x0"
  "VAL_GPIOI_OSPEEDR = 0xFFFFFFFF"
  "VAL_GPIOI_PUPDR = 0x0"
  "VAL_GPIOI_AFRL = 0x0"
  "VAL_GPIOI_AFRH = 0x0"
  by (simp_all add: VAL_GPIOI_MODER_def VAL_GPIOI_OTYPER_def VAL_GPIOI_OSPEEDR_def VAL_GPIOI_PUPDR_def VAL_GPIOI_AFRL_def VAL_GPIOI_AFRH_def PIN_defs)

lemma VAL_ODR:
  "VAL_GPIOD_ODR = 0xFFF" "VAL_GPIOE_ODR = 0xFFFF"
  by (simp_all add: VAL_GPIOD_ODR_def VAL_GPIOE_ODR_def PIN_defs)

text \<open>Pad by pad.\<close>

lemma upt16: "[0..<16] = [0, 1, 2, 3, 4, 5, 6, 7, 8, 9, 10, 11, 12, 13, 14, 15]"
  by (simp add: upt_rec)

lemmas port_defs = pad_as_def initgpio_def pal_default_config_def board_doc_def pad_field_def

lemma port_A: "list_all2 (pad_as (initgpio (pal_default_config ! 0) g)) [0..<16] (board_doc ! 0)"
  unfolding upt16 by (simp add: port_defs VAL_GPIOA)

lemma port_B: "list_all2 (pad_as (initgpio (pal_default_config ! 1) g)) [0..<16] (board_doc ! 1)"
  unfolding upt16 by (simp add: port_defs VAL_GPIOB)

lemma port_C: "list_all2 (pad_as (initgpio (pal_default_config ! 2) g)) [0..<16] (board_doc ! 2)"
  unfolding upt16 by (simp add: port_defs VAL_GPIOC)

lemma port_D: "list_all2 (pad_as (initgpio (pal_default_config ! 3) g)) [0..<16] (board_doc ! 3)"
  unfolding upt16 by (simp add: port_defs VAL_GPIOD)

lemma port_E: "list_all2 (pad_as (initgpio (pal_default_config ! 4) g)) [0..<16] (board_doc ! 4)"
  unfolding upt16 by (simp add: port_defs VAL_GPIOE)

lemma port_F: "list_all2 (pad_as (initgpio (pal_default_config ! 5) g)) [0..<16] (board_doc ! 5)"
  unfolding upt16 by (simp add: port_defs VAL_GPIOF numeral_eq_Suc)

lemma port_G: "list_all2 (pad_as (initgpio (pal_default_config ! 6) g)) [0..<16] (board_doc ! 6)"
  unfolding upt16 by (simp add: port_defs VAL_GPIOG numeral_eq_Suc)

lemma port_H: "list_all2 (pad_as (initgpio (pal_default_config ! 7) g)) [0..<16] (board_doc ! 7)"
  unfolding upt16 by (simp add: port_defs VAL_GPIOH numeral_eq_Suc)

lemma port_I: "list_all2 (pad_as (initgpio (pal_default_config ! 8) g)) [0..<16] (board_doc ! 8)"
  unfolding upt16 by (simp add: port_defs VAL_GPIOI numeral_eq_Suc)

lemma init_ports:
  "gpios (pal_init_ports n cs s) p =
    (if n \<le> p \<and> p < n + length cs then initgpio (cs ! (p - n)) (gpios s p) else gpios s p)"
proof (induction n cs s rule: pal_init_ports.induct)
  case (2 port c cs s)
  then show ?case by (cases "p = port") (auto simp: set_gpio_def nth_Cons' Suc_diff_Suc)
qed auto

lemma board_table:
  assumes "p < 9" "j < 16"
  shows "pad_as (gpios (palInit pal_default_config s) p) j (board_doc ! p ! j)"
proof -
  have g: "gpios (palInit pal_default_config s) p = initgpio (pal_default_config ! p) (gpios s p)"
    using assms(1) by (simp add: palInit_def init_ports GPIOA_def pal_default_config_def del: pal_init_ports.simps)
  have "p = 0 \<or> p = 1 \<or> p = 2 \<or> p = 3 \<or> p = 4 \<or> p = 5 \<or> p = 6 \<or> p = 7 \<or> p = 8" using assms(1) by auto
  then have "list_all2 (pad_as (initgpio (pal_default_config ! p) (gpios s p))) [0..<16] (board_doc ! p)"
    by (elim disjE) (simp_all only: port_A port_B port_C port_D port_E port_F port_G port_H port_I)
  from list_all2_nthD[OF this, of j] assms(2) show ?thesis by (simp add: g)
qed

text \<open>At the start the LEDs are off and no device on the SPI bus is selected.\<close>

lemma board_latches:
  "\<forall>i\<in>{GPIOD_LED4, GPIOD_LED3, GPIOD_LED5, GPIOD_LED6}. \<not> bit (ODR (gpios (palInit pal_default_config s) GPIOD)) i"
  "bit (ODR (gpios (palInit pal_default_config s) GPIOE)) GPIOE_CS_SPI"
  by (simp_all add: palInit_def init_ports GPIOA_def GPIOD_def GPIOE_def pal_default_config_def initgpio_def VAL_ODR
      GPIOD_LED4_def GPIOD_LED3_def GPIOD_LED5_def GPIOD_LED6_def GPIOE_CS_SPI_def bit_numeral_rec del: pal_init_ports.simps)

end
