(* ===== verification/Program.thy ===== *)
theory Program
  imports Motor Sonar Heading Board
begin

text \<open>
  The program itself, \<^verbatim>\<open>main.c\<close>: the command callback of the wifly thread, the initialisation of the
  drivers (\<^verbatim>\<open>os/hal/src/hal.c\<close>), and the main thread.
\<close>

section \<open>The commands\<close>

text \<open>A motor command: its argument is the number of seconds.\<close>

definition motor_command :: "nat \<Rightarrow> (int \<Rightarrow> 'x robot_scheme \<Rightarrow> ('x, unit) rout) \<Rightarrow> 'x robot_scheme \<Rightarrow>
    ('x, Message) rout" where
  "motor_command args run s =
     obind (atoi args s) (\<lambda>sec s.
     if sec = 0 then Done M_ERROR s
     else Window s (\<lambda>s. obind (motorActive s) (\<lambda>active s.
       if active then Done M_ERROR s
       else if s32 (sec * 1000) \<noteq> sec * 1000 then Fault
       else Window s (\<lambda>s. obind (run (sec * 1000) s) (\<lambda>_ s. Done M_OK s)))))"

definition light_command :: "nat \<Rightarrow> 'x robot_scheme \<Rightarrow> ('x, Message) rout" where
  "light_command args s =
     obind (atoi args s) (\<lambda>ck s.
     if ck = 1 then Done M_OK (palTogglePad GPIOD GPIOD_LED4 s)
     else if ck = 2 then Done M_OK (palTogglePad GPIOD GPIOD_LED5 s)
     else Done M_ERROR s)"

definition sonar_command :: "nat \<Rightarrow> 'x robot_scheme \<Rightarrow> ('x, Message) rout" where
  "sonar_command args s =
     obind (atoi args s) (\<lambda>on s.
     if on = 1 then obind (sonarStart s) (\<lambda>_ s. Done M_OK s)
     else if on = 0 then obind (sonarStop s) (\<lambda>_ s. Done M_OK s)
     else Done M_OK s)"

text \<open>A number is sent as text.\<close>

definition send_number :: "nat \<Rightarrow> int \<Rightarrow> 'x robot_scheme \<Rightarrow> ('x, Message) rout" where
  "send_number fuel v s =
     obind (itoa v s) (\<lambda>p s. Window s (\<lambda>s. obind (wiflySend fuel p s) (\<lambda>_ s. Done M_MESSAGE s)))"

text \<open>The chain of comparisons: the first name that equals \<open>id\<close> decides.\<close>

fun dispatch_command :: "nat \<Rightarrow> (string \<times> ('x robot_scheme \<Rightarrow> ('x, Message) rout)) list \<Rightarrow>
    'x robot_scheme \<Rightarrow> ('x, Message) rout" where
  "dispatch_command p [] s = Done M_ERROR s"
| "dispatch_command p ((name, act) # cs) s =
     obind (streq p (lits s name) s) (\<lambda>eq s. if eq then act s else dispatch_command p cs s)"

definition commands :: "('f, 'z) flops_scheme \<Rightarrow> nat \<Rightarrow> nat \<Rightarrow> (string \<times> ('x robot_scheme \<Rightarrow> ('x, Message) rout)) list" where
  "commands fl fuel args =
     [(''version'', \<lambda>s. obind (wsend fuel (''CHIBIOS-STM32DISCOVERY v0.1'' @ [CHR 0x0D, CHR 0x0A]) s) (\<lambda>_ s. Done M_MESSAGE s)),
      (''light'', light_command args),
      (''forward'', motor_command args motorForwardS),
      (''backward'', motor_command args motorBackwardS),
      (''turnLeft'', motor_command args motorLeftForwardS),
      (''turnRight'', motor_command args motorRightForwardS),
      (''close'', \<lambda>s. Window s (\<lambda>s. obind (wiflySendCommand fuel (lits s ''close'') (lits s ''AOK'') s) (\<lambda>_ s. Done M_OK s))),
      (''sonar'', sonar_command args),
      (''readHead'', \<lambda>s. Window s (\<lambda>s. obind (getHeading fl fuel s) (send_number fuel))),
      (''readSonar'', \<lambda>s. send_number fuel (sonarDistance s) s)]"

definition callback :: "('f, 'z) flops_scheme \<Rightarrow> nat \<Rightarrow> nat \<Rightarrow> nat \<Rightarrow> 'x robot_scheme \<Rightarrow> ('x, Message) rout" where
  "callback fl fuel p args s = dispatch_command p (commands fl fuel args) s"

section \<open>Starting the robot\<close>

text \<open>\<open>hal_lld_init\<close> sets up the clocks, and \<open>boardInit\<close> is empty.\<close>

definition halInit :: "byte list \<Rightarrow> byte list \<Rightarrow> 'x hal_scheme \<Rightarrow> 'x hal_scheme" where
  "halInit ib ob s = spiInit (sdInit ib ob (pwmInit (i2cInit (adcInit (palInit pal_default_config s)))))"

fun main_loop :: "nat \<Rightarrow> 'x robot_scheme \<Rightarrow> ('x, unit) rout" where
  "main_loop 0 s = Done () s"
| "main_loop (Suc n) s = Window s (\<lambda>s. obind (chThdSleepMilliseconds 1000 s) (\<lambda>_ s. main_loop n s))"

text \<open>The first \<open>n\<close> turns of the loop of the main thread, from reset.\<close>

definition main :: "nat \<Rightarrow> nat \<Rightarrow> byte list \<Rightarrow> byte list \<Rightarrow> addr \<Rightarrow> addr \<Rightarrow> nat \<Rightarrow> nat \<Rightarrow> 'x robot_scheme \<Rightarrow> ('x, unit) rout" where
  "main n fuel ib ob base lim heap hmtx s =
     obind (chSysInit base lim heap hmtx (halInit ib ob s)) (\<lambda>_ s. Window s (\<lambda>s.
     obind (wiflyInit fuel SD2 GPIOA 2 3 115200 s) (\<lambda>_ s. Window s (\<lambda>s.
     obind (motorInit GPIOC 6 7 8 9 PWMD3 1 0 3 2 s) (\<lambda>_ s. Window s (\<lambda>s.
     obind (sonarInit s) (\<lambda>_ s. Window s (\<lambda>s.
     obind (headingSetup fuel s) (\<lambda>_ s. main_loop n s)))))))))"

section \<open>Which command runs\<close>

lemma chars_eq [simp]: "chars x = chars y \<longleftrightarrow> x = y"
proof -
  have "c = d" if "(of_char c :: byte) = of_char d" for c d
  proof -
    from that have "(of_nat (of_char c) :: byte) = of_nat (of_char d)" by (simp add: of_nat_of_char)
    then have "(of_char c :: nat) mod 256 = of_char d mod 256" by (simp add: word_of_nat_eq_iff take_bit_eq_mod)
    then have "(of_char c :: nat) = of_char d" by (simp only: of_char_mod_256)
    then show "c = d" by (metis char_of_char)
  qed
  then have "inj (of_char :: char \<Rightarrow> byte)" by (rule injI)
  then show ?thesis unfolding chars_def by (rule inj_map_eq_map)
qed

text \<open>The chain of comparisons is a search by name.\<close>

lemma dispatch_lookup:
  assumes "lits_ok s" "cstr (bufs s p) = Some (chars x)" "\<forall>c\<in>set cs. CHR 0x00 \<notin> set (fst c)"
  shows "dispatch_command p cs s = (case map_of cs x of None \<Rightarrow> Done M_ERROR s | Some act \<Rightarrow> act s)"
  using assms(3)
proof (induction cs)
  case (Cons c cs)
  obtain name act where c: "c = (name, act)" by (cases c)
  have "cstr (bufs s (lits s name)) = Some (chars name)" using Cons.prems c by (intro lit_cstr[OF assms(1)]) simp
  then have "streq p (lits s name) s = Done (x = name) s" using assms(2) by (simp add: streq_def)
  then show ?case using Cons c by auto
qed simp

lemma callback_lookup:
  assumes "lits_ok s" "cstr (bufs s p) = Some (chars x)"
  shows "callback fl fuel p args s =
    (case map_of (commands fl fuel args) x of None \<Rightarrow> Done M_ERROR s | Some act \<Rightarrow> act s)"
  unfolding callback_def by (rule dispatch_lookup[OF assms]) (simp add: commands_def)

text \<open>A name that is none of the commands is answered with an error, and nothing happens.\<close>

lemma callback_unknown:
  assumes "lits_ok s" "cstr (bufs s p) = Some (chars x)"
    "x \<notin> {''version'', ''light'', ''forward'', ''backward'', ''turnLeft'', ''turnRight'', ''close'', ''sonar'', ''readHead'', ''readSonar''}"
  shows "callback fl fuel p args s = Done M_ERROR s"
  unfolding callback_lookup[OF assms(1,2), of fl fuel args] using assms(3) by (simp add: commands_def)

text \<open>
  The command to move: with both motors at rest and a number of seconds the timers can hold, both run in
  its direction until their timers stop them; with a motor running, or no seconds, it is refused.
\<close>

lemma atoi_str: "cstr (bufs s p) = Some x \<Longrightarrow> -2147483648 \<le> atoi_val x \<Longrightarrow> atoi_val x < 2147483648 \<Longrightarrow>
    atoi p s = Done (atoi_val x) s"
  by (simp add: atoi_def)

lemma callback_moves:
  assumes "lits_ok s" "cstr (bufs s p) = Some (chars (if dir = D_FORWARD then ''forward'' else ''backward''))"
    "cstr (bufs s args) = Some x" "0 < atoi_val x" "atoi_val x \<le> 2147"
    "motor_ok s" "kinv s" "vt_ok s" "s_cnt s motor_left_sem = 1" "s_cnt s motor_right_sem = 1"
    "motor_vtl \<notin> set (vtl s)" "motor_vtr \<notin> set (vtl s)"
  shows "\<exists>s'. quiet (callback fl fuel p args s) = Some (M_OK, s') \<and> motor_ok s' \<and> kinv s' \<and> vt_ok s' \<and>
    (\<exists>s1. armed_for motor_vtl Fn_motor_left_off 0 s s1 \<and> armed_for motor_vtr Fn_motor_right_off 0 s1 s') \<and>
    hal.more s' = hal.more s \<and> threads s' = threads s \<and> i2cs s' = i2cs s \<and>
    vt_deadline s' = (vt_deadline s)(motor_vtl \<mapsto> nat (1000 * atoi_val x), motor_vtr \<mapsto> nat (1000 * atoi_val x)) \<and>
    map (duty s') [lp1 s, lp2 s, rp1 s, rp2 s] =
      (let w = motor_width (motor_speed s) s in if dir = D_FORWARD then [0, w, 0, w] else [w, 0, w, 0])"
proof -
  let ?m = "atoi_val x * 1000"
  have m: "0 < ?m" "?m \<le> 2147484" using assms(4,5) by simp_all
  from both_on[OF assms(6-12) m, of dir] obtain s' where
    s': "quiet (motors_on dir ?m s) = Some ((), s')" "motor_ok s'" "kinv s'" "vt_ok s'"
      "\<exists>s1. armed_for motor_vtl Fn_motor_left_off 0 s s1 \<and> armed_for motor_vtr Fn_motor_right_off 0 s1 s'"
      "hal.more s' = hal.more s" "threads s' = threads s" "i2cs s' = i2cs s"
      "vt_deadline s' = (vt_deadline s)(motor_vtl \<mapsto> nat ?m, motor_vtr \<mapsto> nat ?m)"
      "map (duty s') [lp1 s, lp2 s, rp1 s, rp2 s] =
        (let w = motor_width (motor_speed s) s in if dir = D_FORWARD then [0, w, 0, w] else [w, 0, w, 0])" by blast
  have "callback fl fuel p args s = motor_command args (motors_on dir) s"
    using callback_lookup[OF assms(1,2), of fl fuel args] by (cases dir) (simp_all add: commands_def motors_on_def[abs_def])
  also have "quiet \<dots> = Some (M_OK, s')"
    using assms(4,5,9) m s'(1) atoi_str[OF assms(3)]
    by (simp add: motor_command_def motorActive_def motorLeftActive_def chBSemGetStateI_def quiet_obind)
  finally show ?thesis using s'(2-10) by (intro exI[of _ s']) (simp only: simp_thms mult.commute)
qed

lemma callback_refuses:
  assumes "lits_ok s" "cstr (bufs s p) = Some (chars c)" "c \<in> {''forward'', ''backward'', ''turnLeft'', ''turnRight''}"
    "cstr (bufs s args) = Some x" "-2147483648 \<le> atoi_val x" "atoi_val x < 2147483648"
    "atoi_val x = 0 \<or> s_cnt s motor_left_sem \<le> 0 \<and> s_cnt s motor_right_sem \<le> 0"
  shows "quiet (callback fl fuel p args s) = Some (M_ERROR, s)"
proof -
  have "\<exists>run. callback fl fuel p args s = motor_command args run s"
    unfolding callback_lookup[OF assms(1,2), of fl fuel args] using assms(3)
    by (elim insertE; simp add: commands_def; blast)
  then obtain run where "callback fl fuel p args s = motor_command args run s" by blast
  then show ?thesis using assms(7) atoi_str[OF assms(4-6)]
    by (auto simp: motor_command_def motorActive_def motorLeftActive_def motorRightActive_def chBSemGetStateI_def)
qed

end
