(* ===== verification/System.thy ===== *)
theory System
  imports Program
begin

text \<open>
  The running robot: the functions its timers call, the invariant they keep, the system tick on it, and
  the steps of the whole system.
\<close>

section \<open>The timer functions\<close>

text \<open>The functions behind the names a timer holds; the robot has no event timer.\<close>

definition robot_call :: "vtfunc \<Rightarrow> nat \<Rightarrow> 'x robot_scheme \<Rightarrow> ('x, unit) rout" where
  "robot_call fn par s =
     (case fn of
        Fn_wakeup \<Rightarrow> wakeup par s
      | Fn_motor_left_off \<Rightarrow> motor_left_off s
      | Fn_motor_right_off \<Rightarrow> motor_right_off s
      | Fn_i2c_safety_timeout \<Rightarrow> i2c_lld_safety_timeout par s
      | Fn_tmrcb \<Rightarrow> Fault)"

text \<open>A thread that sleeps with a timer, or has been woken before its timer.\<close>

definition timed_thread :: "thread \<Rightarrow> bool" where
  "timed_thread th \<longleftrightarrow> p_state th \<in> {THD_STATE_READY, THD_STATE_SLEEPING, THD_STATE_WTOREVT, THD_STATE_WTANDEVT} \<or>
     (\<exists>n. queued_as (QSem n) th \<or> queued_as (QGen n) th \<or> queued_as (QCond n) th)"

definition woken :: "tid \<Rightarrow> 'x kernel_scheme \<Rightarrow> 'x kernel_scheme \<Rightarrow> bool" where
  "woken t s s' \<longleftrightarrow> kinv s' \<and> p_state (threads s' t) = THD_STATE_READY \<and> (\<forall>u. u \<noteq> t \<longrightarrow> threads s' u = threads s u) \<and>
     kernel.more s' = kernel.more s \<and> vts s' = vts s \<and> vtl s' = vtl s \<and> currp s' = currp s \<and>
     (\<forall>n. s_cnt s' n = s_cnt s n \<or> s_cnt s n < 0 \<and> s_cnt s' n = s_cnt s n + 1)"

lemma woken_readied:
  assumes "kinv s" "t \<in> set (tq s q)" "q \<noteq> QReady" "\<forall>n. q \<noteq> QSem n"
  shows "woken t s (readied q t m s)" "0 < prio s t"
proof -
  have i: "sched_inv s" "sem_ok s" using assms by (simp_all add: kinv_def)
  note R = readied_inv[OF i(1) assms(2,3)]
  then show "0 < prio s t" by simp
  have f: "frame_but {q, QReady} s (readied q t m s)" by (rule readied_frame)
  have "sem_ok (readied q t m s)" using sem_ok_frame[OF f] assms(4) i(2) by auto
  then show "woken t s (readied q t m s)"
    using R(1) sched_frame_fields[OF f] by (simp add: woken_def kinv_def)
qed

text \<open>Waking a thread by its timer, whatever it waits for.\<close>

lemma wakeup_timed:
  assumes "kinv s" "timed_thread (threads s t)"
  shows "\<exists>s'. wakeup t s = Done () s' \<and> woken t s s'"
proof -
  have i: "sched_inv s" "sem_ok s" using assms by (simp_all add: kinv_def)
  note D = sched_butD(3)[OF i(1), simplified]
  consider "p_state (threads s t) = THD_STATE_READY"
    | "p_state (threads s t) \<in> {THD_STATE_SLEEPING, THD_STATE_WTOREVT, THD_STATE_WTANDEVT}"
    | sp where "t \<in> set (tq s (QSem sp))" | n where "t \<in> set (tq s (QGen n))" | n where "t \<in> set (tq s (QCond n))"
    using assms(2) D unfolding timed_thread_def by blast
  then show ?thesis
  proof cases
    case 1
    then show ?thesis using assms(1) by (intro exI[of _ s]) (simp add: wakeup_ready woken_def)
  next
    case 2
    then have "p_state (threads s t) \<in> {THD_STATE_SUSPENDED, THD_STATE_SLEEPING, THD_STATE_WTOREVT, THD_STATE_WTANDEVT}" by auto
    from ready_unqueued[OF assms(1) this, of "UMsg RDY_TIMEOUT"] obtain s' where
      s': "chSchReadyI t (set_rdymsg t RDY_TIMEOUT s) = Done t s'" "kinv s'"
        "threads s' = (threads s)(t := (threads s t)\<lparr>p_u := UMsg RDY_TIMEOUT, p_state := THD_STATE_READY\<rparr>)"
        "currp s' = currp s" "kernel.more s' = kernel.more s" "s_cnt s' = s_cnt s" "vts s' = vts s" "vtl s' = vtl s"
      by auto
    have "wakeup t s = Done () s'" using 2 s'(1) by (auto simp: wakeup_def wakeup_timeout_def)
    then show ?thesis using s' by (intro exI[of _ s']) (simp add: woken_def)
  next
    case 3
    note U = unqueue_inv[OF i(1) 3, simplified]
    have n: "s_cnt s sp < 0" using sem_okD(2)[OF i(2), of sp] 3 by (cases "s_cnt s sp < 0") auto
    from wakeup_sem[OF assms(1) 3] obtain s' where s': "wakeup t s = Done () s'" "kinv s'" by blast
    have e: "wakeup t s = Done () (readied (QSem sp) t RDY_TIMEOUT (set_cnt sp (s_cnt s sp + 1) s))"
      using U(5) 3 U(3)
      by (simp add: wakeup_def dequeue_def wakeup_timeout_def chSchReadyI_eq readied_def ready_put_rdymsg flip: set_cnt_def)
    have f: "frame_but {QSem sp, QReady} (set_cnt sp (s_cnt s sp + 1) s) s'"
      using readied_frame s'(1) unfolding e by auto
    show ?thesis using s' e n sched_frame_fields[OF f]
      by (intro exI[of _ s']) (auto simp: woken_def set_cnt_def)
  next
    case 4
    note U = unqueue_inv[OF i(1) 4, simplified] and W = woken_readied[OF assms(1) 4]
    have "wakeup t s = Done () (readied (QGen n) t RDY_TIMEOUT s)"
      using U(5) 4 W(2) by (simp add: wakeup_def dequeue_def wakeup_timeout_def chSchReadyI_eq readied_def ready_put_rdymsg)
    then show ?thesis using W(1)[of RDY_TIMEOUT] by simp
  next
    case 5
    note U = unqueue_inv[OF i(1) 5, simplified] and W = woken_readied[OF assms(1) 5]
    have "wakeup t s = Done () (readied (QCond n) t RDY_TIMEOUT s)"
      using U(5) 5 W(2) by (simp add: wakeup_def dequeue_def wakeup_timeout_def chSchReadyI_eq readied_def ready_put_rdymsg)
    then show ?thesis using W(1)[of RDY_TIMEOUT] by simp
  qed
qed

section \<open>The invariant of the timers\<close>

text \<open>
  An armed timer fits what its function will find: a sleeping thread for its own timer, the motor for its
  timer, and for the timeout of the I2C bus a thread that waits on the bus or does not sleep.
\<close>

definition awake :: "thread \<Rightarrow> bool" where
  "awake th \<longleftrightarrow> p_state th = THD_STATE_READY \<or> p_state th = THD_STATE_CURRENT"

definition timer_fits :: "'x robot_scheme \<Rightarrow> vtid \<Rightarrow> bool" where
  "timer_fits s v \<longleftrightarrow>
     (case vt_func (vts s v) of
        Some Fn_wakeup \<Rightarrow> v = VtStack (vt_par (vts s v)) \<and> timed_thread (threads s (vt_par (vts s v)))
      | Some Fn_motor_left_off \<Rightarrow> v = motor_vtl
      | Some Fn_motor_right_off \<Rightarrow> v = motor_vtr
      | Some Fn_i2c_safety_timeout \<Rightarrow> vt_par (vts s v) = I2CD2 \<and>
          (\<exists>t. v = VtStack t \<and> (ic_thread (i2cs s I2CD2) = Some t \<or> awake (threads s t)))
      | _ \<Rightarrow> False)"

definition robot_inv :: "'x robot_scheme \<Rightarrow> bool" where
  "robot_inv s \<longleftrightarrow> kinv s \<and> motor_ok s \<and>
     (\<forall>t. ic_thread (i2cs s I2CD2) = Some t \<longrightarrow> p_state (threads s t) = THD_STATE_SUSPENDED) \<and>
     (\<forall>v\<in>set (vtl s). timer_fits s v)"

text \<open>What the function of a timer has brought about.\<close>

definition timer_done :: "vtid \<Rightarrow> 'x robot_scheme \<Rightarrow> bool" where
  "timer_done v s \<longleftrightarrow>
     (\<forall>t. v = VtStack t \<longrightarrow> awake (threads s t)) \<and>
     (v = motor_vtl \<longrightarrow> duty s (lp1 s) = 0 \<and> duty s (lp2 s) = 0) \<and>
     (v = motor_vtr \<longrightarrow> duty s (rp1 s) = 0 \<and> duty s (rp2 s) = 0)"

text \<open>Threads are only made ready, and only such as do not run.\<close>

definition readies :: "'x robot_scheme \<Rightarrow> 'x robot_scheme \<Rightarrow> bool" where
  "readies s s' \<longleftrightarrow> kinv s' \<and> vts s' = vts s \<and> vtl s' = vtl s \<and> hal.more s' = hal.more s \<and>
     (\<forall>t. threads s' t = threads s t \<or> p_state (threads s' t) = THD_STATE_READY) \<and>
     (\<forall>t. ic_thread (i2cs s I2CD2) = Some t \<longrightarrow>
        (if ic_thread (i2cs s' I2CD2) = None then p_state (threads s' t) = THD_STATE_READY
         else ic_thread (i2cs s' I2CD2) = Some t \<and> threads s' t = threads s t)) \<and>
     (ic_thread (i2cs s I2CD2) = None \<longrightarrow> ic_thread (i2cs s' I2CD2) = None)"

lemma readies_keeps:
  assumes "readies s s'"
  shows "timer_fits s v \<Longrightarrow> timer_fits s' v" "awake (threads s t) \<Longrightarrow> awake (threads s' t)"
    "\<forall>t. ic_thread (i2cs s I2CD2) = Some t \<longrightarrow> p_state (threads s t) = THD_STATE_SUSPENDED \<Longrightarrow>
      ic_thread (i2cs s' I2CD2) = Some t \<Longrightarrow> p_state (threads s' t) = THD_STATE_SUSPENDED"
proof -
  note R = assms[unfolded readies_def]
  have a: "awake (threads s t) \<Longrightarrow> awake (threads s' t)" for t
    using R unfolding awake_def by metis
  then show "awake (threads s t) \<Longrightarrow> awake (threads s' t)" .
  have w: "timed_thread (threads s t) \<Longrightarrow> timed_thread (threads s' t)" for t
    using R unfolding timed_thread_def by (metis insertI1)
  have i: "ic_thread (i2cs s I2CD2) = Some t \<Longrightarrow> ic_thread (i2cs s' I2CD2) = Some t \<or> awake (threads s' t)" for t
    using R by (auto simp: awake_def split: if_splits)
  show "timer_fits s v \<Longrightarrow> timer_fits s' v"
    using R w a i unfolding timer_fits_def by (auto split: option.splits vtfunc.splits)
  show "\<forall>t. ic_thread (i2cs s I2CD2) = Some t \<longrightarrow> p_state (threads s t) = THD_STATE_SUSPENDED \<Longrightarrow>
      ic_thread (i2cs s' I2CD2) = Some t \<Longrightarrow> p_state (threads s' t) = THD_STATE_SUSPENDED"
    using R by (cases "ic_thread (i2cs s I2CD2)") (auto split: if_splits)
qed

lemma readies_robot:
  assumes "robot_inv s" "readies s s'" "motor_ok s'"
  shows "robot_inv s'"
  using assms readies_keeps[OF assms(2)] unfolding robot_inv_def readies_def by metis

text \<open>The four functions, one by one.\<close>

definition i2c_suspended :: "'x robot_scheme \<Rightarrow> bool" where
  "i2c_suspended s \<longleftrightarrow> (\<forall>t. ic_thread (i2cs s I2CD2) = Some t \<longrightarrow> p_state (threads s t) = THD_STATE_SUSPENDED)"

lemma motor_ok_kernel:
  assumes "motor_ok s" "hal.more s' = hal.more s" "pwms s' = pwms s"
    "\<And>n. s_cnt s' n = s_cnt s n \<or> s_cnt s n < 0 \<and> s_cnt s' n = s_cnt s n + 1"
  shows "motor_ok s'" "duty s' = duty s"
proof -
  note V = robot_vars[OF assms(2)]
  show d: "duty s' = duty s" using assms(3) V by (intro duty_same) simp_all
  have "motor_side b p q s'" if "motor_side b p q s" for b p q
    using that assms(4)[of b] unfolding motor_side_def d by auto
  then show "motor_ok s'"
    using assms(1) common_same[OF assms(2,3)] by (simp add: motor_ok_def V)
qed

lemma call_wakeup:
  assumes "kinv s" "motor_ok s" "i2c_suspended s" "timed_thread (threads s t)"
  shows "\<exists>s'. wakeup t s = Done () s' \<and> readies s s' \<and> motor_ok s' \<and> duty s' = duty s \<and> awake (threads s' t)"
proof -
  from wakeup_timed[OF assms(1,4)] obtain s' where s': "wakeup t s = Done () s'" "woken t s s'" by blast
  note W = s'(2)[unfolded woken_def]
  have m: "hal.more s' = hal.more s" "pwms s' = pwms s" "i2cs s' = i2cs s" using W hal_more[of s' s] by simp_all
  have ns: "p_state (threads s t) \<noteq> THD_STATE_SUSPENDED" using assms(4) by (auto simp: timed_thread_def)
  have r: "threads s' u = threads s u \<or> p_state (threads s' u) = THD_STATE_READY" for u using W by (cases "u = t") simp_all
  have "threads s' u = threads s u" if "ic_thread (i2cs s I2CD2) = Some u" for u
    using W ns assms(3) that by (cases "u = t") (auto simp: i2c_suspended_def)
  then have "readies s s'" using W m r by (simp add: readies_def)
  then show ?thesis using s'(1) W motor_ok_kernel[OF assms(2) m(1,2)] by (intro exI[of _ s']) (auto simp: awake_def)
qed

lemma signalled_threads:
  assumes "kinv s"
  shows "threads (bsem_signalled b s) t = threads s t \<or>
    p_state (threads s t) = THD_STATE_WTSEM \<and> p_state (threads (bsem_signalled b s) t) = THD_STATE_READY"
proof (cases "tq s (QSem b)")
  case (Cons u us)
  have "sched_inv s" using assms by (simp add: kinv_def)
  from sched_butD(3)[OF this, of u "QSem b"] Cons have "p_state (threads s u) = THD_STATE_WTSEM" by simp
  then show ?thesis using Cons by (auto simp: bsem_signalled_def sem_signalled_def Let_def)
qed (simp add: bsem_signalled_def sem_signalled_def Let_def)

lemma signalled_readies:
  assumes "kinv s" "i2c_suspended s"
  shows "readies s (bsem_signalled b (with_pwm P s))"
proof -
  let ?s1 = "with_pwm P s" and ?s' = "bsem_signalled b (with_pwm P s)"
  note K = kernel_same[OF with_pwm_fields(1)[of P s]]
  have k: "kinv ?s1" using assms(1) kinv_same[OF with_pwm_fields(1)[of P s]] by simp
  note H = hal_more[OF bsem_more(1)[of b ?s1]]
  have i: "i2cs ?s' = i2cs s" using H by (simp add: with_pwm_def)
  have t: "threads ?s' t = threads s t \<or> p_state (threads s t) = THD_STATE_WTSEM \<and> p_state (threads ?s' t) = THD_STATE_READY" for t
    using signalled_threads[OF k, of b t] K by simp
  have "threads ?s' t = threads s t" if "ic_thread (i2cs s I2CD2) = Some t" for t
    using t[of t] that assms(2) by (auto simp: i2c_suspended_def)
  then show ?thesis using t i H K bsem_signalled_eq(2)[OF k, of b] unfolding readies_def by auto
qed

lemma call_left_off:
  assumes "kinv s" "motor_ok s" "i2c_suspended s"
  shows "\<exists>s'. motor_left_off s = Done () s' \<and> readies s s' \<and> motor_ok s' \<and> duty s' (lp1 s) = 0 \<and> duty s' (lp2 s) = 0 \<and>
    duty s' (rp1 s) = duty s (rp1 s) \<and> duty s' (rp2 s) = duty s (rp2 s)"
  using left.turned_off[OF assms(2,1)] signalled_readies[OF assms(1,3)] by blast

lemma call_right_off:
  assumes "kinv s" "motor_ok s" "i2c_suspended s"
  shows "\<exists>s'. motor_right_off s = Done () s' \<and> readies s s' \<and> motor_ok s' \<and> duty s' (rp1 s) = 0 \<and> duty s' (rp2 s) = 0 \<and>
    duty s' (lp1 s) = duty s (lp1 s) \<and> duty s' (lp2 s) = duty s (lp2 s)"
  using right.turned_off[OF assms(2,1)] signalled_readies[OF assms(1,3)] by blast

lemma call_safety_timeout:
  assumes "kinv s" "motor_ok s" "i2c_suspended s"
  shows "\<exists>s'. i2c_lld_safety_timeout I2CD2 s = Done () s' \<and> readies s s' \<and> motor_ok s' \<and> duty s' = duty s \<and>
    (\<forall>t. ic_thread (i2cs s I2CD2) = Some t \<longrightarrow> awake (threads s' t))"
proof (cases "ic_thread (i2cs s I2CD2)")
  case None
  then show ?thesis using assms by (intro exI[of _ s]) (simp add: safety_timeout_wakes readies_def)
next
  case (Some t)
  let ?s1 = "upd_i2c I2CD2 i2c_lld_abort_operation s"
  have w: "kinv ?s1" "ic_thread (i2cs ?s1 I2CD2) = Some t" "p_state (threads ?s1 t) = THD_STATE_SUSPENDED"
    using assms Some by (simp_all add: i2c_suspended_def i2c_lld_abort_operation_def)
  from i2cw.wake_some[OF w, of RDY_TIMEOUT] obtain s' where
    s': "wakeup_isr I2CD2 RDY_TIMEOUT ?s1 = Done () s'" "kinv s'" "ic_thread (i2cs s' I2CD2) = None"
      "threads s' = (threads ?s1)(t := (threads ?s1 t)\<lparr>p_u := UMsg RDY_TIMEOUT, p_state := THD_STATE_READY\<rparr>)"
      "kernel.more s' = kernel.more (upd_i2c I2CD2 (\<lambda>d. d\<lparr>ic_thread := None\<rparr>) ?s1)"
      "s_cnt s' = s_cnt ?s1" "vts s' = vts ?s1" "vtl s' = vtl ?s1" by blast
  note H = hal_more[OF s'(5)]
  have m: "hal.more s' = hal.more s" "pwms s' = pwms s" using H(3,9) by (simp_all add: upd_i2c_def)
  have "readies s s'" using s' m(1) Some by (simp add: readies_def)
  moreover have "i2c_lld_safety_timeout I2CD2 s = Done () s'" using Some s'(1) by (simp add: safety_timeout_wakes)
  ultimately show ?thesis using motor_ok_kernel[OF assms(2) m] s'(4,6) Some
    by (intro exI[of _ s']) (auto simp: awake_def)
qed

section \<open>The system tick\<close>

lemma robot_inv_eq: "robot_inv s \<longleftrightarrow> kinv s \<and> motor_ok s \<and> i2c_suspended s \<and> (\<forall>v\<in>set (vtl s). timer_fits s v)"
  by (simp add: robot_inv_def i2c_suspended_def)

text \<open>Timers may change: only what they call, and for whom, matters.\<close>

lemma robot_inv_timers:
  assumes "robot_inv s" "s' = s\<lparr>vts := T, vtl := l, vt_systime := x\<rparr>" "set l \<subseteq> set (vtl s)"
    "\<And>v. v \<in> set l \<Longrightarrow> vt_func (T v) = vt_func (vts s v) \<and> vt_par (T v) = vt_par (vts s v)"
  shows "robot_inv s'" "duty s' = duty s"
proof -
  have k: "kinv s' = kinv s" using sched_but_cong[of s' s "{}"] by (simp add: assms(2) kinv_def sem_ok_def)
  show d: "duty s' = duty s" by (rule duty_same) (simp_all add: assms(2))
  have m: "motor_ok s' = motor_ok s" using common_same[of s' s] by (simp add: assms(2) motor_ok_def motor_side_def duty_def)
  have f: "timer_fits s' v" if "v \<in> set l" for v
  proof -
    have "timer_fits s v" using assms(1,3) that by (auto simp: robot_inv_def)
    moreover have "vts s' = T" "threads s' = threads s" "i2cs s' = i2cs s" by (simp_all add: assms(2))
    ultimately show ?thesis using assms(4)[OF that] unfolding timer_fits_def by (simp only: simp_thms)
  qed
  then show "robot_inv s'" using assms(1) k m by (simp add: robot_inv_eq i2c_suspended_def) (simp add: assms(2))
qed

lemma timer_done_readies:
  assumes "readies s s'" "timer_done v s"
    "v = motor_vtl \<Longrightarrow> duty s' (lp1 s) = duty s (lp1 s) \<and> duty s' (lp2 s) = duty s (lp2 s) \<or> duty s' (lp1 s) = 0 \<and> duty s' (lp2 s) = 0"
    "v = motor_vtr \<Longrightarrow> duty s' (rp1 s) = duty s (rp1 s) \<and> duty s' (rp2 s) = duty s (rp2 s) \<or> duty s' (rp1 s) = 0 \<and> duty s' (rp2 s) = 0"
  shows "timer_done v s'"
proof -
  have "hal.more s' = hal.more s" using assms(1) by (simp add: readies_def)
  note V = robot_vars[OF this]
  show ?thesis using assms(2-4) readies_keeps(2)[OF assms(1)] V unfolding timer_done_def by auto
qed

text \<open>The function of the first timer, called with the timer taken from the list.\<close>

lemma robot_served:
  assumes "robot_inv s" "vtl s = z # rest" "vt_func (vts s z) = Some fn"
    "distinct (vtl s)"
  shows "\<exists>s'. robot_call fn (vt_par (vts s z)) (vt_pop z rest s) = Done () s' \<and> vts s' = vts (vt_pop z rest s) \<and>
    vtl s' = rest \<and> robot_inv s' \<and> timer_done z s' \<and> (\<forall>v. timer_done v s \<longrightarrow> timer_done v s')"
proof -
  let ?s1 = "vt_pop z rest s"
  have e: "?s1 = s\<lparr>vts := (vts s)(z := (vts s z)\<lparr>vt_func := None\<rparr>), vtl := rest, vt_systime := vt_systime s\<rparr>"
    by (simp add: vt_pop_def)
  have I: "robot_inv ?s1" "duty ?s1 = duty s"
    by (rule robot_inv_timers[OF assms(1) e]; use assms(2,4) in auto)+
  then have J: "kinv ?s1" "motor_ok ?s1" "i2c_suspended ?s1" by (simp_all add: robot_inv_eq)
  have same: "threads ?s1 = threads s" "i2cs ?s1 = i2cs s" "lp1 ?s1 = lp1 s" "lp2 ?s1 = lp2 s" "rp1 ?s1 = rp1 s" "rp2 ?s1 = rp2 s"
    by (simp_all add: vt_pop_def)
  have keep: "timer_done v s \<Longrightarrow> timer_done v ?s1" for v using I(2) same by (simp add: timer_done_def)
  have fit: "timer_fits s z" using assms(1,2) by (simp add: robot_inv_def)
  have "\<exists>s'. robot_call fn (vt_par (vts s z)) ?s1 = Done () s' \<and> readies ?s1 s' \<and> motor_ok s' \<and> timer_done z s' \<and>
      (\<forall>v. timer_done v ?s1 \<longrightarrow> timer_done v s')"
  proof (cases fn)
    case Fn_wakeup
    then have f: "z = VtStack (vt_par (vts s z))" "timed_thread (threads ?s1 (vt_par (vts s z)))"
      using fit assms(3) same by (simp_all add: timer_fits_def)
    from call_wakeup[OF J f(2)] obtain s' where
      s': "wakeup (vt_par (vts s z)) ?s1 = Done () s'" "readies ?s1 s'" "motor_ok s'" "duty s' = duty ?s1"
        "awake (threads s' (vt_par (vts s z)))" by blast
    have "timer_done z s'" using f(1) s'(5) by (auto simp: timer_done_def motor_vtl_def motor_vtr_def)
    then show ?thesis using s' Fn_wakeup timer_done_readies[OF s'(2)] by (intro exI[of _ s']) (simp add: robot_call_def)
  next
    case Fn_motor_left_off
    then have z: "z = motor_vtl" using fit assms(3) by (simp add: timer_fits_def)
    from call_left_off[OF J] obtain s' where
      s': "motor_left_off ?s1 = Done () s'" "readies ?s1 s'" "motor_ok s'" "duty s' (lp1 ?s1) = 0" "duty s' (lp2 ?s1) = 0"
        "duty s' (rp1 ?s1) = duty ?s1 (rp1 ?s1)" "duty s' (rp2 ?s1) = duty ?s1 (rp2 ?s1)" by blast
    have "hal.more s' = hal.more ?s1" using s'(2) by (simp add: readies_def)
    then have "timer_done z s'" using z s'(4,5) robot_vars[of s' ?s1] by (simp add: timer_done_def motor_vtl_def motor_vtr_def)
    then show ?thesis using s' Fn_motor_left_off timer_done_readies[OF s'(2)] by (intro exI[of _ s']) (simp add: robot_call_def)
  next
    case Fn_motor_right_off
    then have z: "z = motor_vtr" using fit assms(3) by (simp add: timer_fits_def)
    from call_right_off[OF J] obtain s' where
      s': "motor_right_off ?s1 = Done () s'" "readies ?s1 s'" "motor_ok s'" "duty s' (rp1 ?s1) = 0" "duty s' (rp2 ?s1) = 0"
        "duty s' (lp1 ?s1) = duty ?s1 (lp1 ?s1)" "duty s' (lp2 ?s1) = duty ?s1 (lp2 ?s1)" by blast
    have "hal.more s' = hal.more ?s1" using s'(2) by (simp add: readies_def)
    then have "timer_done z s'" using z s'(4,5) robot_vars[of s' ?s1] by (simp add: timer_done_def motor_vtl_def motor_vtr_def)
    then show ?thesis using s' Fn_motor_right_off timer_done_readies[OF s'(2)] by (intro exI[of _ s']) (simp add: robot_call_def)
  next
    case Fn_i2c_safety_timeout
    then have "vt_par (vts s z) = I2CD2 \<and> (\<exists>t. z = VtStack t \<and> (ic_thread (i2cs s I2CD2) = Some t \<or> awake (threads s t)))"
      using fit assms(3) by (simp add: timer_fits_def)
    then obtain t where f: "vt_par (vts s z) = I2CD2" "z = VtStack t"
      "ic_thread (i2cs ?s1 I2CD2) = Some t \<or> awake (threads ?s1 t)" using same by auto
    from call_safety_timeout[OF J] obtain s' where
      s': "i2c_lld_safety_timeout I2CD2 ?s1 = Done () s'" "readies ?s1 s'" "motor_ok s'" "duty s' = duty ?s1"
        "\<forall>t. ic_thread (i2cs ?s1 I2CD2) = Some t \<longrightarrow> awake (threads s' t)" by blast
    have "awake (threads s' t)" using f(3) s'(5) readies_keeps(2)[OF s'(2)] by blast
    then have "timer_done z s'" using f(2) by (auto simp: timer_done_def motor_vtl_def motor_vtr_def)
    then show ?thesis using s' f(1) Fn_i2c_safety_timeout timer_done_readies[OF s'(2)]
      by (intro exI[of _ s']) (simp add: robot_call_def)
  next
    case Fn_tmrcb
    then show ?thesis using fit assms(3) by (simp add: timer_fits_def)
  qed
  then obtain s' where s': "robot_call fn (vt_par (vts s z)) ?s1 = Done () s'" "readies ?s1 s'" "motor_ok s'" "timer_done z s'"
      "\<forall>v. timer_done v ?s1 \<longrightarrow> timer_done v s'" by blast
  have "vts s' = vts ?s1" "vtl s' = rest" using s'(2) by (simp_all add: readies_def)
  then show ?thesis using s' readies_robot[OF I(1) s'(2,3)] keep by (intro exI[of _ s']) blast
qed

text \<open>Charging the running thread touches neither its state nor its priority.\<close>

lemma accounting:
  assumes "\<And>th. p_state (f th) = p_state th \<and> p_u (f th) = p_u th \<and> p_prio (f th) = p_prio th"
  shows "kinv (upd_thread t f s) = kinv s" "timed_thread (threads (upd_thread t f s) u) = timed_thread (threads s u)"
    "p_state (threads (upd_thread t f s) u) = p_state (threads s u)"
proof -
  have q: "queued_as q (threads (upd_thread t f s) u) = queued_as q (threads s u)" for q u
    using assms by (cases q) auto
  show st: "p_state (threads (upd_thread t f s) u) = p_state (threads s u)" for u using assms by simp
  have pr: "prio (upd_thread t f s) = prio s" using assms by (auto simp: prio_def fun_eq_iff)
  show "kinv (upd_thread t f s) = kinv s"
    unfolding kinv_def sched_but_def sem_ok_def q st pr by simp
  show "timed_thread (threads (upd_thread t f s) u) = timed_thread (threads s u)"
    unfolding timed_thread_def q st by simp
qed

lemma robot_inv_accounting:
  assumes "\<And>th. p_state (f th) = p_state th \<and> p_u (f th) = p_u th \<and> p_prio (f th) = p_prio th" "robot_inv s"
  shows "robot_inv (upd_thread t f s)"
proof -
  let ?s = "upd_thread t f s"
  note A = accounting[of f t s, OF assms(1)]
  have h: "hal.more ?s = hal.more s" "pwms ?s = pwms s" "i2cs ?s = i2cs s" by (simp_all add: upd_thread_def)
  have "motor_ok ?s" using motor_ok_kernel(1)[of s ?s] assms(2) h by (simp add: robot_inv_def)
  moreover have "timer_fits ?s v = timer_fits s v" for v
    unfolding timer_fits_def awake_def A h by (simp only: upd_thread_fields)
  ultimately show ?thesis using assms(2) by (simp only: robot_inv_def A h) (simp add: assms(1))
qed

lemma robot_inv_charge: "robot_inv s \<Longrightarrow> robot_inv (charge s)"
  by (auto simp: charge_def Let_def intro!: robot_inv_accounting)

lemma robot_inv_tick:
  assumes "robot_inv s"
  shows "robot_inv (vt_dec_head (s\<lparr>vt_systime := x\<rparr>))"
proof (cases "vtl s")
  case (Cons p ps)
  have "vt_dec_head (s\<lparr>vt_systime := x\<rparr>) =
      s\<lparr>vts := (vts s)(p := (vts s p)\<lparr>vt_time := vt_time (vts s p) - 1\<rparr>), vtl := vtl s, vt_systime := x\<rparr>"
    using Cons by (simp add: vt_dec_head_def)
  from robot_inv_timers(1)[OF assms this] show ?thesis by auto
next
  case Nil
  then have "vt_dec_head (s\<lparr>vt_systime := x\<rparr>) = s\<lparr>vts := vts s, vtl := vtl s, vt_systime := x\<rparr>"
    by (simp add: vt_dec_head_def)
  from robot_inv_timers(1)[OF assms this] show ?thesis by auto
qed

text \<open>What a timer has brought about lasts while no thread runs.\<close>

lemma done_lasts:
  assumes "timer_done v s" "\<And>t. awake (threads s t) \<Longrightarrow> awake (threads s' t)" "kernel.more s' = kernel.more s"
  shows "timer_done v s'"
proof -
  note H = hal_more[OF assms(3)] and V = robot_vars[OF hal_more(9)[OF assms(3)]]
  have "duty s' = duty s" using H V by (intro duty_same) simp_all
  then show ?thesis using assms(1,2) V by (simp add: timer_done_def)
qed

lemma done_charge: "timer_done v s \<Longrightarrow> timer_done v (charge s)"
proof (rule done_lasts)
  have "p_state (threads (charge s) t) = p_state (threads s t)" for t by (simp add: charge_def Let_def)
  then show "awake (threads s t) \<Longrightarrow> awake (threads (charge s) t)" for t by (simp add: awake_def)
  show "kernel.more (charge s) = kernel.more s" by (simp add: charge_def Let_def upd_thread_def)
qed

lemma done_tick: "timer_done v s \<Longrightarrow> timer_done v (vt_dec_head (s\<lparr>vt_systime := x\<rparr>))"
  by (erule done_lasts) (simp_all add: vt_dec_head_def split: list.split)

interpretation robot: system_tick robot_call robot_inv timer_done
  by unfold_locales (use robot_served robot_inv_charge robot_inv_tick done_charge done_tick in blast)+

section \<open>A command and the ticks that follow\<close>

text \<open>Arming the motors' timers keeps the invariant.\<close>

lemma robot_inv_armed:
  assumes "robot_inv s" "kinv s'" "motor_ok s'" "threads s' = threads s" "i2cs s' = i2cs s"
    "armed_for motor_vtl Fn_motor_left_off 0 s s1" "armed_for motor_vtr Fn_motor_right_off 0 s1 s'"
  shows "robot_inv s'"
proof -
  have vs: "motor_vtl \<noteq> motor_vtr" by (simp add: motor_vtl_def motor_vtr_def)
  have "timer_fits s' v" if "v \<in> set (vtl s')" for v
  proof (cases "v \<in> {motor_vtl, motor_vtr}")
    case True
    then have "v = motor_vtl \<and> vt_func (vts s' v) = Some Fn_motor_left_off \<or>
        v = motor_vtr \<and> vt_func (vts s' v) = Some Fn_motor_right_off"
      using assms(6,7) vs by (auto simp: armed_for_def)
    then show ?thesis by (auto simp: timer_fits_def)
  next
    case False
    then have "v \<in> set (vtl s)" "vt_func (vts s' v) = vt_func (vts s v)" "vt_par (vts s' v) = vt_par (vts s v)"
      using that assms(6,7) by (auto simp: armed_for_def)
    moreover from this assms(1) have "timer_fits s v" by (simp add: robot_inv_def)
    ultimately show ?thesis unfolding timer_fits_def by (simp only: assms(4,5) simp_thms)
  qed
  then show ?thesis using assms(1-3) by (simp add: robot_inv_def assms(4,5))
qed

text \<open>
  A command to move for some seconds, and then nothing but ticks: when the seconds have passed both
  motors stand still and their timers are free.
\<close>

lemma moves_then_stops:
  assumes "lits_ok s" "cstr (bufs s p) = Some (chars (if dir = D_FORWARD then ''forward'' else ''backward''))"
    "cstr (bufs s args) = Some x" "0 < atoi_val x" "atoi_val x \<le> 2147"
    "robot_inv s" "vt_ok s" "vt_live s" "s_cnt s motor_left_sem = 1" "s_cnt s motor_right_sem = 1"
    "motor_vtl \<notin> set (vtl s)" "motor_vtr \<notin> set (vtl s)"
  shows "\<exists>s1 s2. quiet (callback fl fuel p args s) = Some (M_OK, s1) \<and>
    map (duty s1) [lp1 s, lp2 s, rp1 s, rp2 s] =
      (let w = motor_width (motor_speed s) s in if dir = D_FORWARD then [0, w, 0, w] else [w, 0, w, 0]) \<and>
    run_ticks (nat (1000 * atoi_val x)) robot_call s1 = Done () s2 \<and> robot_inv s2 \<and>
    map (duty s2) [lp1 s2, lp2 s2, rp1 s2, rp2 s2] = [0, 0, 0, 0] \<and>
    motor_vtl \<notin> set (vtl s2) \<and> motor_vtr \<notin> set (vtl s2)"
proof -
  let ?n = "nat (1000 * atoi_val x)"
  have k: "motor_ok s" "kinv s" using assms(6) by (simp_all add: robot_inv_def)
  from callback_moves[OF assms(1-5) k assms(7,9-12), of fl fuel] obtain s1 where
    s1: "quiet (callback fl fuel p args s) = Some (M_OK, s1)" "motor_ok s1" "kinv s1" "vt_ok s1"
      "\<exists>t. armed_for motor_vtl Fn_motor_left_off 0 s t \<and> armed_for motor_vtr Fn_motor_right_off 0 t s1"
      "threads s1 = threads s" "i2cs s1 = i2cs s"
      "vt_deadline s1 = (vt_deadline s)(motor_vtl \<mapsto> ?n, motor_vtr \<mapsto> ?n)"
      "map (duty s1) [lp1 s, lp2 s, rp1 s, rp2 s] =
        (let w = motor_width (motor_speed s) s in if dir = D_FORWARD then [0, w, 0, w] else [w, 0, w, 0])" by blast
  have i1: "robot_inv s1" using s1(5) robot_inv_armed[OF assms(6) s1(3,2,6,7)] by blast
  have "0 < ?n" using assms(4) by simp
  then have "vt_live s1" using assms(8) s1(8) by (auto simp: vt_live_iff split: if_splits)
  from robot.timer_ticks[OF s1(4) this i1, of ?n] obtain s2 where
    s2: "run_ticks ?n robot_call s1 = Done () s2" "robot_inv s2"
      "vt_deadline s2 = (\<lambda>v. case vt_deadline s1 v of None \<Rightarrow> None | Some d \<Rightarrow> if d \<le> ?n then None else Some (d - ?n))"
      "\<And>v. (\<exists>d. vt_deadline s1 v = Some d \<and> d \<le> ?n) \<or> timer_done v s1 \<Longrightarrow> timer_done v s2" by blast
  have d: "vt_deadline s1 motor_vtl = Some ?n" "vt_deadline s1 motor_vtr = Some ?n"
    by (simp_all add: s1(8) motor_vtl_def motor_vtr_def)
  then have "timer_done motor_vtl s2" "timer_done motor_vtr s2" by (auto intro!: s2(4))
  then have z: "map (duty s2) [lp1 s2, lp2 s2, rp1 s2, rp2 s2] = [0, 0, 0, 0]" by (simp add: timer_done_def)
  have "vt_deadline s2 motor_vtl = None" "vt_deadline s2 motor_vtr = None" using d by (simp_all add: s2(3))
  then have "motor_vtl \<notin> set (vtl s2)" "motor_vtr \<notin> set (vtl s2)" by (auto simp: vt_deadline_def)
  then show ?thesis using s1(1,9) s2(1,2) z by (intro exI[of _ s1] exI[of _ s2]) (simp only: simp_thms)
qed

end
