(* ===== verification/Demo_Robot.thy ===== *)
theory Demo_Robot
  imports System Demo
begin

text \<open>
  A concrete state of the robot, on which the properties of its drivers and services are shown to
  apply: the kernel of \<open>Demo\<close>, where a thread sleeps that a timer is about to wake, the motors are at
  rest, the sonar measures, and a thread waits for the I2C bus and one for the SPI bus.
\<close>

section \<open>String literals\<close>

text \<open>The literals are placed one by one from the address 1000 on; a string's place encodes it.\<close>

primrec str_code :: "string \<Rightarrow> nat" where
  "str_code [] = 0"
| "str_code (c # cs) = Suc (of_char c + 256 * str_code cs)"

function str_at :: "nat \<Rightarrow> string" where
  "str_at 0 = []"
| "str_at (Suc n) = char_of n # str_at (n div 256)"
  by pat_completeness auto

termination by (relation "measure id") (auto simp: less_Suc_eq_le)

lemma str_at_code: "str_at (str_code x) = x"
proof (induction x)
  case (Cons c x)
  have "(of_char c :: nat) < 256" by simp
  then have d: "((of_char c :: nat) + 256 * k) div 256 = k" for k by simp
  have "(char_of ((of_char c :: nat) + 256 * k) :: char) = char_of (of_char c :: nat)" for k
    by (subst (1 2) char_of_mod_256 [symmetric]) simp
  then show ?case using Cons d by simp
qed simp

section \<open>Drivers\<close>

definition demo_gpio :: gpio where
  "demo_gpio = \<lparr>MODER = 0, OTYPER = 0, OSPEEDR = 0, PUPDR = 0, IDR = 0, ODR = 0, AFRL = 0, AFRH = 0\<rparr>"

definition demo_tim :: tim where
  "demo_tim = \<lparr>t_CR1 = 0x85, t_CR2 = 0, t_DIER = 0, t_SR = 0, t_EGR = 0, t_CCMR1 = 0x6868, t_CCMR2 = 0x6868,
     t_CCER = 0x1111, t_PSC = 8399, t_ARR = 19, t_CNT = 0, t_CCR = [0, 0, 0, 0]\<rparr>"

definition demo_pwm :: pwmdrv where
  "demo_pwm = \<lparr>pw_state = PWM_READY, pw_config = Some motor_pwmcfg, pw_period = 20, pw_clock = 84000000,
     pw_tim = demo_tim\<rparr>"

definition demo_dma :: dma where
  "demo_dma = \<lparr>dma_used = True, dma_enabled = True, dma_mode = 0, dma_size = 8, dma_mem = Some 0\<rparr>"

text \<open>The output queue of the serial driver is the queue 1, its event source 0.\<close>

definition demo_sd :: serialdrv where
  "demo_sd = \<lparr>sd_state = SD_READY, sd_event = 0, sd_iqueue = 0, sd_oqueue = 1,
     sd_usart = \<lparr>u_CR1 = 0x20AC, u_CR2 = 0, u_CR3 = 0, u_BRR = 365, u_SR = 0, u_DR = 0\<rparr>\<rparr>"

definition demo_adc :: adcdrv where
  "demo_adc = \<lparr>ad_state = ADC_ACTIVE, ad_samples = Some sampels, ad_depth = 8, ad_grpp = Some adcgrpcfg2,
     ad_thread = None, ad_mutex = 30, ad_dma = demo_dma, ad_dmamode = 0, a_SR = 0, a_CR1 = 0, a_CR2 = 0,
     a_SMPR1 = 0, a_SMPR2 = 0, a_SQR1 = 0, a_SQR2 = 0, a_SQR3 = 0\<rparr>"

definition demo_i2c :: i2cdrv where
  "demo_i2c = \<lparr>ic_state = I2C_READY, ic_config = None, ic_errors = 0, ic_mutex = 31, ic_thread = Some 13,
     ic_addr = 60, ic_dmamode = 0, ic_dmarx = demo_dma, ic_dmatx = demo_dma,
     i_CR1 = 1, i_CR2 = 0, i_SR1 = 0x500, i_SR2 = 0, i_DR = 0, i_CCR = 0, i_TRISE = 0\<rparr>"

definition demo_spi :: spidrv where
  "demo_spi = \<lparr>sp_state = SPI_READY, sp_config = Some \<lparr>sp_end_cb = None, sp_ssport = GPIOE, sp_sspad = 3, sp_cr1 = 0\<rparr>,
     sp_thread = None, sp_mutex = 32, sp_dmarx = demo_dma, sp_dmatx = demo_dma, sp_rxdmamode = 0,
     sp_txdmamode = 0, s_CR1 = 0, s_CR2 = 0\<rparr>"

text \<open>A floating point unit that is right on integers for a robot that stands level and looks ahead.\<close>

definition demo_flops :: "int flops" where
  "demo_flops = \<lparr>f_of_int = (\<lambda>i. i), f_asin = (\<lambda>_. 0), f_cos = (\<lambda>_. 1), f_sin = (\<lambda>_. 0), f_mul = (*), f_add = (+),
     f_sub = (-), f_atan2 = (\<lambda>_ _. 0), f_to_int = Some\<rparr>"

section \<open>The robot\<close>

definition demo_hal :: hal where
  "demo_hal = demo_on (hal.fields (\<lambda>_. demo_gpio) (\<lambda>_. demo_sd) (\<lambda>_. demo_pwm) (\<lambda>_. demo_adc)
       ((\<lambda>_. demo_i2c)(0 := demo_i2c\<lparr>ic_thread := None\<rparr>)) (\<lambda>_. demo_spi)
       ((\<lambda>p. chars (str_at (p - 1000)) @ [0])(id_buf := replicate 16 0, args_buf := replicate 1024 0,
         itoa_string := replicate 7 0, lis_txbuf := [0, 0], lis_rxbuf := [0, 0],
         4 := [50, 0], 5 := [48, 0], 6 := chars ''forward'' @ [0], 7 := chars ''dance'' @ [0]))
       ((\<lambda>_. [])(sampels := [10, 20, 30, 40, 400, 400, 400, 400])))"

definition demo_robot :: robot where
  "demo_robot = (hal.extend demo_hal (robot.fields 0 1 2 3 5000 PWMD3 True 0 0 I2CD2 SPID1 0 0 0 0 0 0 SD2 2 (\<lambda>x. 1000 + str_code x)))
     \<lparr>vts := (\<lambda>_. \<lparr>vt_time = 0, vt_func = None, vt_par = 0\<rparr>)(VtStack 10 := a_timer 1 Fn_wakeup 10),
      vtl := [VtStack 10],
      gqs := (\<lambda>_. \<lparr>q_counter = 1, q_buffer = [7, 65, 66, 9], q_wrptr = 2, q_rdptr = 1, q_notify = True\<rparr>)(
        1 := \<lparr>q_counter = 2, q_buffer = [7, 65, 66, 9], q_wrptr = 3, q_rdptr = 1, q_notify = True\<rparr>)\<rparr>"

lemmas demo_robot_defs = demo_robot_def hal.extend_def robot.fields_def demo_hal_def hal.fields_def demo_on_def

lemma demo_robot_kernel [simp]:
  "threads demo_robot = demo_threads" "tq demo_robot = demo_tq" "currp demo_robot = 0" "vtl demo_robot = [VtStack 10]"
  "s_cnt demo_robot = s_cnt demo" "vts demo_robot (VtStack 10) = a_timer 1 Fn_wakeup 10"
  "es_next demo_robot = es_next demo" "els demo_robot = els demo"
  by (simp_all add: demo_robot_defs)

lemma demo_robot_drivers [simp]:
  "gpios demo_robot = (\<lambda>_. demo_gpio)" "sds demo_robot = (\<lambda>_. demo_sd)" "pwms demo_robot = (\<lambda>_. demo_pwm)" "adcs demo_robot = (\<lambda>_. demo_adc)"
  "i2cs demo_robot = (\<lambda>_. demo_i2c)(0 := demo_i2c\<lparr>ic_thread := None\<rparr>)" "spis demo_robot = (\<lambda>_. demo_spi)"
  "bufs demo_robot id_buf = replicate 16 0" "bufs demo_robot args_buf = replicate 1024 0" "bufs demo_robot itoa_string = replicate 7 0"
  "bufs demo_robot lis_txbuf = [0, 0]" "bufs demo_robot 4 = [50, 0]" "bufs demo_robot 5 = [48, 0]"
  "bufs demo_robot 6 = chars ''forward'' @ [0]" "bufs demo_robot 7 = chars ''dance'' @ [0]"
  "adbufs demo_robot sampels = [10, 20, 30, 40, 400, 400, 400, 400]"
  by (simp_all add: demo_robot_defs id_buf_def args_buf_def itoa_string_def
      lis_txbuf_def lis_rxbuf_def)

lemma demo_robot_vars [simp]:
  "lp1 demo_robot = 0" "lp2 demo_robot = 1" "rp1 demo_robot = 2" "rp2 demo_robot = 3" "motor_speed demo_robot = 5000" "motor_pwm demo_robot = PWMD3"
  "lits demo_robot = (\<lambda>x. 1000 + str_code x)"
  by (simp_all add: demo_robot_defs)

lemma demo_robot_lits: "lits_ok demo_robot"
  unfolding lits_ok_def demo_robot_vars
  by (simp add: demo_robot_defs id_buf_def args_buf_def itoa_string_def
      lis_txbuf_def lis_rxbuf_def str_at_code)

lemma demo_robot_kinv: "kinv demo_robot"
proof -
  have e: "prio demo_robot = prio demo" "registry demo_robot = registry demo" by (simp_all add: prio_def fun_eq_iff demo_robot_defs)
  have "kinv demo_robot = kinv demo" unfolding kinv_def sched_but_def sem_ok_def e by simp
  then show ?thesis using demo_kinv[of "()"] by simp
qed

lemma demo_robot_vt: "vt_ok demo_robot" "vt_live demo_robot"
  by (simp_all add: vt_ok_def vt_live_def dsum_def dt_def chVTIsArmedI_def demo_robot_defs a_timer_def)

lemma demo_robot_motor: "motor_ok demo_robot"
  by (simp add: motor_ok_def motor_common_def motor_side_def duty_def demo_pwm_def demo_tim_def pwm_ready_def
      motor_pwmcfg_def motor_left_sem_def motor_right_sem_def demo_on_def)

lemma demo_robot_inv: "robot_inv demo_robot"
proof -
  have "timer_fits demo_robot (VtStack 10)"
    by (simp add: timer_fits_def a_timer_def timed_thread_def demo_threads_def a_thread_def)
  moreover have "ic_thread (i2cs demo_robot I2CD2) = Some 13" by (simp add: demo_i2c_def I2CD2_def)
  moreover have "p_state (threads demo_robot 13) = THD_STATE_SUSPENDED" by (simp add: demo_threads_def a_thread_def)
  ultimately show ?thesis using demo_robot_kinv demo_robot_motor by (simp add: robot_inv_def)
qed

end
