(* ===== verification/Interleave.thy ===== *)
theory Interleave
  imports Dynamic
begin

text \<open>
  The threads and interrupts of a running system, as steps between configurations: the running thread
  with what is left of its routine, and for every other thread what it does when it is resumed. A thread
  runs up to the next point where it hands over the processor or opens its lock; there the scheduler's
  choice is resumed, or any interrupts come in. Each thread is shown to be correct on its own, under a rely
  on the others (\<open>obeys\<close>); together they keep the invariant in every reachable configuration.
\<close>

section \<open>Steps\<close>

type_synonym 'x prog = "'x kernel_scheme \<Rightarrow> ('x, unit) kout"

datatype 'x config = Config (running: tid) (now: "('x, unit) kout") (parked: "tid \<Rightarrow> 'x prog")

datatype 'i event = Switched | Opened | Interrupted 'i

text \<open>An interrupt runs to its end, which may itself hand over the processor, and then the lock is open again.\<close>

inductive step :: "('i \<Rightarrow> 'x prog) \<Rightarrow> 'i event \<Rightarrow> 'x config \<Rightarrow> 'x config \<Rightarrow> bool" for isr :: "'i \<Rightarrow> 'x prog" where
  switched: "step isr Switched (Config t (Switch s k) K) (Config (currp s) ((K(t := k)) (currp s) s) (K(t := k)))"
| opened: "step isr Opened (Config t (Window s k) K) (Config t (k s) K)"
| interrupted: "step isr (Interrupted i) (Config t (Window s k) K) (Config t (obind (isr i s) (\<lambda>_ s'. Window s' k)) K)"

inductive_cases stepE: "step isr e (Config t m K) c"
inductive_simps step_switch [simp]: "step isr e (Config t (Switch s k) K) c"
inductive_simps step_window [simp]: "step isr e (Config t (Window s k) K) c"

inductive run :: "('i \<Rightarrow> 'x prog) \<Rightarrow> 'i event list \<Rightarrow> 'x config \<Rightarrow> 'x config \<Rightarrow> bool" for isr :: "'i \<Rightarrow> 'x prog" where
  run_nil: "run isr [] c c"
| run_cons: "step isr e c c' \<Longrightarrow> run isr es c' c'' \<Longrightarrow> run isr (e # es) c c''"

code_pred (modes: i \<Rightarrow> i \<Rightarrow> i \<Rightarrow> o \<Rightarrow> bool) step .
code_pred (modes: i \<Rightarrow> i \<Rightarrow> i \<Rightarrow> o \<Rightarrow> bool) run .

text \<open>The state of a configuration, at a point where it can be observed.\<close>

fun seen :: "'x config \<Rightarrow> 'x kernel_scheme option" where
  "seen (Config t (Switch s k) K) = Some s"
| "seen (Config t (Window s k) K) = Some s"
| "seen (Config t (Done r s) K) = Some s"
| "seen (Config t Fault K) = None"

section \<open>One thread\<close>

text \<open>
  \<open>obeys G R I t Q s0 m\<close>: from the state \<open>s0\<close>, the routine never faults, changes the state by \<open>G\<close> only,
  keeps \<open>I\<close> wherever it can be observed, and ends with \<open>Q\<close>, provided that the others keep \<open>I\<close>, give the
  processor back to \<open>t\<close>, and change the state by \<open>R\<close> only.
\<close>

primrec obeys :: "('x kernel_scheme \<Rightarrow> 'x kernel_scheme \<Rightarrow> bool) \<Rightarrow> ('x kernel_scheme \<Rightarrow> 'x kernel_scheme \<Rightarrow> bool) \<Rightarrow>
    ('x kernel_scheme \<Rightarrow> bool) \<Rightarrow> tid \<Rightarrow> ('r \<Rightarrow> 'x kernel_scheme \<Rightarrow> bool) \<Rightarrow> 'x kernel_scheme \<Rightarrow> ('x, 'r) kout \<Rightarrow> bool" where
  "obeys G R I t Q s0 (Done r s) = (G s0 s \<and> Q r s)"
| "obeys G R I t Q s0 (Switch s k) = (G s0 s \<and> I s \<and> (\<forall>s'. I s' \<and> currp s' = t \<and> R s s' \<longrightarrow> obeys G R I t Q s' (k s')))"
| "obeys G R I t Q s0 (Window s k) =
     (G s0 s \<and> I s \<and> currp s = t \<and> (\<forall>s'. I s' \<and> currp s' = t \<and> R s s' \<longrightarrow> obeys G R I t Q s' (k s')))"
| "obeys G R I t Q s0 Fault = False"

lemma obeys_mono:
  "obeys G R I t Q s0 m \<Longrightarrow> (\<And>s s'. G s s' \<Longrightarrow> G' s s') \<Longrightarrow> (\<And>r s. Q r s \<Longrightarrow> Q' r s) \<Longrightarrow> obeys G' R I t Q' s0 m"
  by (induction m arbitrary: s0) auto

lemma obeys_from:
  assumes "transp G" "G s1 s0" "obeys G R I t Q s0 m"
  shows "obeys G R I t Q s1 m"
  using assms by (cases m) (auto dest: transpD)

lemma obeys_obind:
  assumes "transp G" "obeys G R I t Q s0 m" "\<And>r s. Q r s \<Longrightarrow> obeys G R I t P s (f r s)"
  shows "obeys G R I t P s0 (obind m f)"
  using assms(2)
proof (induction m arbitrary: s0)
  case (Done r s)
  then show ?case using obeys_from[OF assms(1) _ assms(3)] by auto
qed auto

text \<open>What a routine and its surroundings have changed together, when the routine's changes are such as it relies on.\<close>

lemma obeys_reaches:
  assumes "transp R" "\<And>s s'. G s s' \<Longrightarrow> R s s'"
  shows "obeys G R I t Q s0 m \<Longrightarrow> obeys G R I t (\<lambda>r s. Q r s \<and> R s0 s) s0 m"
proof (induction m arbitrary: s0)
  case (Switch s k)
  have "obeys G R I t (\<lambda>r s. Q r s \<and> R s0 s) s' (k s')" if s': "I s' \<and> currp s' = t \<and> R s s'" for s'
  proof -
    have "R s0 s'" using Switch.prems s' assms(2)[of s0 s] transpD[OF assms(1), of s0 s s'] by simp
    moreover have "obeys G R I t (\<lambda>r s. Q r s \<and> R s' s) s' (k s')" using Switch s' by auto
    ultimately show ?thesis by (elim obeys_mono) (simp_all, blast intro: transpD[OF assms(1)])
  qed
  then show ?case using Switch.prems by auto
next
  case (Window s k)
  have "obeys G R I t (\<lambda>r s. Q r s \<and> R s0 s) s' (k s')" if s': "I s' \<and> currp s' = t \<and> R s s'" for s'
  proof -
    have "R s0 s'" using Window.prems s' assms(2)[of s0 s] transpD[OF assms(1), of s0 s s'] by simp
    moreover have "obeys G R I t (\<lambda>r s. Q r s \<and> R s' s) s' (k s')" using Window s' by auto
    ultimately show ?thesis by (elim obeys_mono) (simp_all, blast intro: transpD[OF assms(1)])
  qed
  then show ?case using Window.prems by auto
qed (use assms(2) in auto)

lemma obeys_settles:
  assumes "settles (\<lambda>s. G s0 s \<and> I s) m" "transp G" "\<And>s. I s \<Longrightarrow> G s s"
    "\<And>r s. m = Done r s \<Longrightarrow> currp s = t"
  shows "obeys G R I t (\<lambda>_ s. I s \<and> currp s = t) s0 m"
proof (cases m)
  case (Switch s k)
  have "obeys G R I t (\<lambda>_ s. I s \<and> currp s = t) s' (k s')" if "I s'" "currp s' = t" for s'
  proof -
    obtain r where "k s' = Done r s'" using assms(1) Switch by auto
    then show ?thesis using that assms(3) by simp
  qed
  then show ?thesis using assms(1) Switch by auto
qed (use assms in auto)

section \<open>The system\<close>

text \<open>Each of the other threads may be resumed from the state in which it is.\<close>

definition waits_well :: "(tid \<Rightarrow> 'x kernel_scheme \<Rightarrow> 'x kernel_scheme \<Rightarrow> bool) \<Rightarrow> ('x kernel_scheme \<Rightarrow> bool) \<Rightarrow>
    'x kernel_scheme \<Rightarrow> tid \<Rightarrow> 'x prog \<Rightarrow> bool" where
  "waits_well R I s u k \<longleftrightarrow>
     (\<forall>s'. I s' \<and> currp s' = u \<and> R u s s' \<longrightarrow> obeys (\<lambda>a b. \<forall>v. v \<noteq> u \<longrightarrow> R v a b) (R u) I u (\<lambda>_. I) s' (k s'))"

definition well :: "(tid \<Rightarrow> 'x kernel_scheme \<Rightarrow> 'x kernel_scheme \<Rightarrow> bool) \<Rightarrow> ('x kernel_scheme \<Rightarrow> bool) \<Rightarrow> 'x config \<Rightarrow> bool" where
  "well R I c \<longleftrightarrow> (case c of Config t m K \<Rightarrow> \<exists>s0.
     obeys (\<lambda>a b. \<forall>v. v \<noteq> t \<longrightarrow> R v a b) (R t) I t (\<lambda>_. I) s0 m \<and> (\<forall>u. u \<noteq> t \<longrightarrow> waits_well R I s0 u (K u)))"

text \<open>
  \<open>R u\<close> is what the thread \<open>u\<close> relies on, and so what every other thread and every interrupt has to
  keep to.
\<close>

locale concurrent =
  fixes isr :: "'i \<Rightarrow> 'x prog" and I :: "'x kernel_scheme \<Rightarrow> bool" and R :: "tid \<Rightarrow> 'x kernel_scheme \<Rightarrow> 'x kernel_scheme \<Rightarrow> bool"
  assumes R_refl: "R u s s" and R_trans: "R u s s' \<Longrightarrow> R u s' s'' \<Longrightarrow> R u s s''"
    and irq: "I s \<Longrightarrow> currp s = t \<Longrightarrow> obeys (\<lambda>a b. \<forall>u. R u a b) (R t) I t (\<lambda>_ s'. I s' \<and> currp s' = t) s (isr i s)"
begin

lemma rely_transp: "transp (R u)" "transp (\<lambda>a b. \<forall>v. v \<noteq> t \<longrightarrow> R v a b)"
  by (auto intro!: transpI intro: R_trans)

lemma waits_later: "waits_well R I s u k \<Longrightarrow> R u s s' \<Longrightarrow> waits_well R I s' u k"
  by (auto simp: waits_well_def intro: R_trans)

lemma interrupt_step:
  assumes "I s" "currp s = t" "\<And>s'. I s' \<Longrightarrow> currp s' = t \<Longrightarrow> R t s s' \<Longrightarrow> obeys (\<lambda>a b. \<forall>v. v \<noteq> t \<longrightarrow> R v a b) (R t) I t (\<lambda>_. I) s' (k s')"
  shows "obeys (\<lambda>a b. \<forall>v. v \<noteq> t \<longrightarrow> R v a b) (R t) I t (\<lambda>_. I) s (obind (isr i s) (\<lambda>_ s'. Window s' k))"
proof (rule obeys_obind[OF rely_transp(2)])
  have "obeys (\<lambda>a b. \<forall>u. R u a b) (R t) I t (\<lambda>_ s'. (I s' \<and> currp s' = t) \<and> R t s s') s (isr i s)"
    by (rule obeys_reaches[OF rely_transp(1) _ irq[OF assms(1,2)]]) blast
  then show "obeys (\<lambda>a b. \<forall>v. v \<noteq> t \<longrightarrow> R v a b) (R t) I t (\<lambda>_ s'. (I s' \<and> currp s' = t) \<and> R t s s') s (isr i s)"
    by (rule obeys_mono) blast+
  show "obeys (\<lambda>a b. \<forall>v. v \<noteq> t \<longrightarrow> R v a b) (R t) I t (\<lambda>_. I) s' (Window s' k)"
    if "(I s' \<and> currp s' = t) \<and> R t s s'" for s'
    using that assms(3) R_refl by (auto intro: R_trans)
qed

lemma well_step:
  assumes "step isr e c c'" "well R I c"
  shows "well R I c'"
  using assms
proof (induction rule: step.induct)
  case (switched t s k K)
  then obtain s0 where s0: "\<forall>u. u \<noteq> t \<longrightarrow> R u s0 s" "I s" "waits_well R I s t k"
    "\<forall>u. u \<noteq> t \<longrightarrow> waits_well R I s0 u (K u)" by (auto simp: well_def waits_well_def)
  have w: "waits_well R I s u ((K(t := k)) u)" for u using s0 waits_later by auto
  from this[of "currp s"] have "obeys (\<lambda>a b. \<forall>v. v \<noteq> currp s \<longrightarrow> R v a b) (R (currp s)) I (currp s) (\<lambda>_. I) s ((K(t := k)) (currp s) s)"
    using s0(2) R_refl unfolding waits_well_def by blast
  then show ?case using w unfolding well_def config.case by (intro exI[of _ s]) blast
next
  case (opened t s k K)
  then obtain s0 where s0: "\<forall>u. u \<noteq> t \<longrightarrow> R u s0 s" "I s" "currp s = t"
    "\<forall>s'. I s' \<and> currp s' = t \<and> R t s s' \<longrightarrow> obeys (\<lambda>a b. \<forall>v. v \<noteq> t \<longrightarrow> R v a b) (R t) I t (\<lambda>_. I) s' (k s')"
    "\<forall>u. u \<noteq> t \<longrightarrow> waits_well R I s0 u (K u)" by (auto simp: well_def)
  then have "obeys (\<lambda>a b. \<forall>v. v \<noteq> t \<longrightarrow> R v a b) (R t) I t (\<lambda>_. I) s (k s)" using R_refl by blast
  then show ?case using s0 waits_later unfolding well_def config.case by (intro exI[of _ s]) blast
next
  case (interrupted i t s k K)
  then obtain s0 where s0: "\<forall>u. u \<noteq> t \<longrightarrow> R u s0 s" "I s" "currp s = t"
    "\<forall>s'. I s' \<and> currp s' = t \<and> R t s s' \<longrightarrow> obeys (\<lambda>a b. \<forall>v. v \<noteq> t \<longrightarrow> R v a b) (R t) I t (\<lambda>_. I) s' (k s')"
    "\<forall>u. u \<noteq> t \<longrightarrow> waits_well R I s0 u (K u)" by (auto simp: well_def)
  then have "obeys (\<lambda>a b. \<forall>v. v \<noteq> t \<longrightarrow> R v a b) (R t) I t (\<lambda>_. I) s (obind (isr i s) (\<lambda>_ s'. Window s' k))"
    by (intro interrupt_step) blast+
  then show ?case using s0 waits_later unfolding well_def config.case by (intro exI[of _ s]) blast
qed

lemma well_run: "run isr es c c' \<Longrightarrow> well R I c \<Longrightarrow> well R I c'"
  by (induction rule: run.induct) (auto intro: well_step)

text \<open>What is seen of such a configuration satisfies the invariant, and it can go on.\<close>

lemma well_seen: "well R I c \<Longrightarrow> \<exists>s. seen c = Some s \<and> I s"
proof (cases c)
  case (Config t m K)
  then show "well R I c \<Longrightarrow> ?thesis" by (cases m) (auto simp: well_def)
qed

lemma invariant_holds: "run isr es c c' \<Longrightarrow> well R I c \<Longrightarrow> \<exists>s. seen c' = Some s \<and> I s"
  using well_run well_seen by blast

lemma goes_on:
  assumes "well R I (Config t m K)"
  shows "(\<exists>s. m = Done () s) \<or> (\<exists>e c. step isr e (Config t m K) c)"
  using assms by (cases m) (auto simp: well_def)

end

end
