(* ===== verification/Running.thy ===== *)
theory Running
  imports System Interleave
begin

text \<open>
  The robot at work: the main thread, the idle thread and the thread that carries out the commands it
  receives, with the system tick coming in between. In whatever order their steps are taken, the invariant
  of the robot holds wherever the state can be observed, and no thread meets a fault.
\<close>

section \<open>Threads and interrupts\<close>

datatype irq = Irq_SysTick

definition robot_isr :: "irq \<Rightarrow> 'x robot_scheme \<Rightarrow> ('x, unit) rout" where
  "robot_isr i s = (case i of Irq_SysTick \<Rightarrow> SysTickVector (Suc (length (vtl s))) robot_call s)"

fun idle_loop :: "nat \<Rightarrow> 'x kernel_scheme \<Rightarrow> ('x, unit) kout" where
  "idle_loop 0 s = Done () s"
| "idle_loop (Suc n) s = Window s (idle_loop n)"

text \<open>The commands one after the other, each by the numbers of the buffers of its name and its argument.\<close>

fun obey_commands :: "('f, 'z) flops_scheme \<Rightarrow> nat \<Rightarrow> (nat \<times> nat) list \<Rightarrow> 'x robot_scheme \<Rightarrow> ('x, unit) rout" where
  "obey_commands fl fuel [] s = Done () s"
| "obey_commands fl fuel ((p, a) # cs) s =
     Window s (\<lambda>s. obind (callback fl fuel p a s) (\<lambda>_ s. Window s (obey_commands fl fuel cs)))"

section \<open>The invariant\<close>

definition sides :: "(nat \<times> vtid) set" where
  "sides = {(motor_left_sem, motor_vtl), (motor_right_sem, motor_vtr)}"

definition timers_ok :: "'x robot_scheme \<Rightarrow> bool" where
  "timers_ok s \<longleftrightarrow> (\<forall>v\<in>set (vtl s).
     v = motor_vtl \<and> vt_func (vts s v) = Some Fn_motor_left_off \<or>
     v = motor_vtr \<and> vt_func (vts s v) = Some Fn_motor_right_off \<or>
     (\<exists>t. v = VtStack t \<and> vt_func (vts s v) = Some Fn_wakeup \<and> vt_par (vts s v) = t \<and>
        p_state (threads s t) = THD_STATE_SLEEPING))"

text \<open>A command about the motors or the lights, or none that is known.\<close>

definition readable :: "'x robot_scheme \<Rightarrow> nat \<times> nat \<Rightarrow> bool" where
  "readable s c \<longleftrightarrow> (\<exists>n x. cstr (bufs s (fst c)) = Some (chars n) \<and> cstr (bufs s (snd c)) = Some x \<and>
     n \<notin> {''version'', ''close'', ''sonar'', ''readHead'', ''readSonar''} \<and> 0 \<le> atoi_val x \<and> atoi_val x \<le> 2147)"

text \<open>Only the thread of the commands waits for a motor; while its timer is armed a motor is taken.\<close>

definition run_inv :: "tid \<Rightarrow> (nat \<times> nat) set \<Rightarrow> 'x robot_scheme \<Rightarrow> bool" where
  "run_inv cmd C s \<longleftrightarrow> kinv s \<and> motor_ok s \<and> timers_ok s \<and> ic_thread (i2cs s I2CD2) = None \<and> lits_ok s \<and>
     (\<forall>c\<in>C. readable s c) \<and>
     (\<forall>(b, v)\<in>sides. (v \<in> set (vtl s) \<longrightarrow> s_cnt s b \<le> 0) \<and> set (tq s (QSem b)) \<subseteq> {cmd})"

definition robot_run :: "tid \<Rightarrow> (nat \<times> nat) set \<Rightarrow> 'x robot_scheme \<Rightarrow> bool" where
  "robot_run cmd C s \<longleftrightarrow> run_inv cmd C s \<and> vt_ok s \<and> vt_live s"

text \<open>
  What the thread of the commands relies on: only it takes a motor or arms its timer; the timer, when it is
  served, gives the motor back.
\<close>

definition side_rely :: "nat \<Rightarrow> vtid \<Rightarrow> 'x kernel_scheme \<Rightarrow> 'x kernel_scheme \<Rightarrow> bool" where
  "side_rely b v s s' \<longleftrightarrow> (if v \<in> set (vtl s) then
       s_cnt s' b = (if v \<in> set (vtl s') then s_cnt s b else min 1 (s_cnt s b + 1))
     else v \<notin> set (vtl s') \<and> s_cnt s' b = s_cnt s b)"

definition cmd_rely :: "'x robot_scheme \<Rightarrow> 'x robot_scheme \<Rightarrow> bool" where
  "cmd_rely s s' \<longleftrightarrow> hal.more s' = hal.more s \<and> (\<forall>(b, v)\<in>sides. side_rely b v s s')"

definition robot_rely :: "tid \<Rightarrow> tid \<Rightarrow> 'x robot_scheme \<Rightarrow> 'x robot_scheme \<Rightarrow> bool" where
  "robot_rely cmd t s s' \<longleftrightarrow> (t = cmd \<longrightarrow> cmd_rely s s')"

lemma side_rely_refl [simp]: "side_rely b v s s"
  by (simp add: side_rely_def)

lemma side_rely_trans: "side_rely b v s s' \<Longrightarrow> side_rely b v s' s'' \<Longrightarrow> side_rely b v s s''"
  by (auto simp: side_rely_def split: if_splits)

lemma cmd_rely_refl [simp]: "cmd_rely s s"
  by (auto simp: cmd_rely_def)

lemma cmd_rely_trans: "cmd_rely s s' \<Longrightarrow> cmd_rely s' s'' \<Longrightarrow> cmd_rely s s''"
  by (auto simp: cmd_rely_def intro: side_rely_trans)

lemma sides_distinct: "motor_left_sem \<noteq> motor_right_sem" "motor_vtl \<noteq> motor_vtr" "motor_vtl \<noteq> VtStack t" "motor_vtr \<noteq> VtStack t"
  by (simp_all add: motor_left_sem_def motor_right_sem_def motor_vtl_def motor_vtr_def)

lemma sleeper:
  assumes "timers_ok s" "VtStack t \<in> set (vtl s)"
  shows "p_state (threads s t) = THD_STATE_SLEEPING" "vt_func (vts s (VtStack t)) = Some Fn_wakeup" "vt_par (vts s (VtStack t)) = t"
  using bspec[OF assms(1)[unfolded timers_ok_def] assms(2)] sides_distinct(3,4)[of t] by auto

lemma run_robot:
  assumes "run_inv cmd C s"
  shows "robot_inv s"
proof -
  have "timer_fits s v" if "v \<in> set (vtl s)" for v
    using assms that by (auto simp: run_inv_def timers_ok_def timer_fits_def timed_thread_def)
  then show ?thesis using assms by (simp add: run_inv_def robot_inv_def)
qed

text \<open>
  A change of the running and ready threads alone, and, more generally, one that leaves the timers of
  sleeping threads their threads, keeps all but the kernel's own invariant.
\<close>

lemma run_inv_step:
  assumes "run_inv cmd C s" "kinv s'" "motor_ok s'" "hal.more s' = hal.more s" "i2cs s' = i2cs s" "bufs s' = bufs s"
    "\<And>b. set (tq s' (QSem b)) \<subseteq> set (tq s (QSem b)) \<union> {cmd}" "timers_ok s'"
    "\<And>b v. (b, v) \<in> sides \<Longrightarrow> v \<in> set (vtl s') \<Longrightarrow> s_cnt s' b \<le> 0"
  shows "run_inv cmd C s'"
proof -
  have "lits s' = lits s" using assms(4) by (cases s; cases s'; simp)
  then have l: "lits_ok s'" using assms(1,6) by (simp add: run_inv_def lits_ok_def)
  have r: "\<forall>c\<in>C. readable s' c" using assms(1,6) by (simp add: run_inv_def readable_def)
  have "\<forall>(b, v)\<in>sides. (v \<in> set (vtl s') \<longrightarrow> s_cnt s' b \<le> 0) \<and> set (tq s' (QSem b)) \<subseteq> {cmd}"
    using assms(1,7,9) by (fastforce simp: run_inv_def)
  then show ?thesis using assms(1,2,3,5,8) l r by (simp add: run_inv_def)
qed

lemma run_inv_timers:
  assumes "run_inv cmd C s" "kinv s'" "kernel.more s' = kernel.more s" "s_cnt s' = s_cnt s"
    "\<And>b. set (tq s' (QSem b)) \<subseteq> set (tq s (QSem b)) \<union> {cmd}" "timers_ok s'"
    "\<And>b v. (b, v) \<in> sides \<Longrightarrow> v \<in> set (vtl s') \<Longrightarrow> s_cnt s' b \<le> 0"
  shows "run_inv cmd C s'"
proof -
  note H = hal_more[OF assms(3)]
  have m: "motor_ok s'" using motor_ok_kernel(1)[of s s'] assms(1,4) H by (simp add: run_inv_def)
  have h: "hal.more s' = hal.more s" "i2cs s' = i2cs s" "bufs s' = bufs s" using H by blast+
  show ?thesis by (rule run_inv_step[OF assms(1,2) m h assms(5,6,7)])
qed

lemma run_inv_kernel:
  assumes "run_inv cmd C s" "kinv s'" "kernel.more s' = kernel.more s" "s_cnt s' = s_cnt s"
    "\<And>b. set (tq s' (QSem b)) \<subseteq> set (tq s (QSem b)) \<union> {cmd}"
    "\<And>v. v \<in> set (vtl s') \<Longrightarrow> vt_func (vts s' v) = vt_func (vts s v) \<and> vt_par (vts s' v) = vt_par (vts s v)" "set (vtl s') \<subseteq> set (vtl s)"
    "\<And>t. VtStack t \<in> set (vtl s') \<Longrightarrow> p_state (threads s' t) = p_state (threads s t)"
  shows "run_inv cmd C s'"
proof (rule run_inv_timers[OF assms(1-5)])
  show "timers_ok s'" unfolding timers_ok_def
  proof
    fix v assume v: "v \<in> set (vtl s')"
    then have "v \<in> set (vtl s)" "timers_ok s" using assms(1,7) by (auto simp: run_inv_def)
    then show "v = motor_vtl \<and> vt_func (vts s' v) = Some Fn_motor_left_off \<or> v = motor_vtr \<and> vt_func (vts s' v) = Some Fn_motor_right_off \<or>
     (\<exists>t. v = VtStack t \<and> vt_func (vts s' v) = Some Fn_wakeup \<and> vt_par (vts s' v) = t \<and> p_state (threads s' t) = THD_STATE_SLEEPING)"
      using v assms(6)[OF v] assms(8) unfolding timers_ok_def by fastforce
  qed
  show "s_cnt s' b \<le> 0" if "(b, v) \<in> sides" "v \<in> set (vtl s')" for b v
    using assms(1,7) that by (auto simp: run_inv_def assms(4))
qed

lemma vt_same: "vts s' = vts s \<Longrightarrow> vtl s' = vtl s \<Longrightarrow> vt_ok s' = vt_ok s \<and> vt_live s' = vt_live s"
  unfolding vt_ok_def vt_live_def chVTIsArmedI_def by (simp only: simp_thms)

lemma robot_run_untimed:
  assumes "robot_run cmd C s" "kinv s'" "motor_ok s'" "hal.more s' = hal.more s" "i2cs s' = i2cs s" "bufs s' = bufs s"
    "\<And>b. set (tq s' (QSem b)) \<subseteq> set (tq s (QSem b)) \<union> {cmd}" "vts s' = vts s" "vtl s' = vtl s"
    "\<And>t. p_state (threads s t) = THD_STATE_SLEEPING \<Longrightarrow> p_state (threads s' t) = THD_STATE_SLEEPING"
    "\<And>b v. (b, v) \<in> sides \<Longrightarrow> v \<in> set (vtl s) \<Longrightarrow> s_cnt s' b \<le> 0"
  shows "robot_run cmd C s'"
proof -
  have i: "run_inv cmd C s" "timers_ok s" using assms(1) by (simp_all add: robot_run_def run_inv_def)
  have t: "timers_ok s'" using i(2) assms(10) unfolding timers_ok_def assms(8,9) by fastforce
  have d: "s_cnt s' b \<le> 0" if "(b, v) \<in> sides" "v \<in> set (vtl s')" for b v
    using assms(11)[OF that(1)] that(2) unfolding assms(9) .
  have "run_inv cmd C s'" by (rule run_inv_step[OF i(1) assms(2-7) t d])
  then show ?thesis using assms(1) vt_same[OF assms(8,9)] by (simp only: robot_run_def simp_thms)
qed

lemma robot_run_frame:
  assumes "robot_run cmd C s" "sched_inv s'" "sched_frame s s'"
    "\<And>t. p_state (threads s t) = THD_STATE_SLEEPING \<Longrightarrow> p_state (threads s' t) = THD_STATE_SLEEPING"
  shows "robot_run cmd C s'" "cmd_rely s s'"
proof -
  note F = sched_frame_fields[OF assms(3)]
  have k: "kinv s'" using assms(1,2) sem_ok_frame[OF assms(3)] by (simp add: robot_run_def run_inv_def kinv_def)
  have q: "tq s' (QSem b) = tq s (QSem b)" for b using assms(3) by (simp add: frame_but_def)
  have t: "p_state (threads s' t) = p_state (threads s t)" if "VtStack t \<in> set (vtl s')" for t
    using assms(1) assms(4)[of t] sleeper(1)[of s t] that by (simp add: F(3) robot_run_def run_inv_def)
  have i: "run_inv cmd C s" using assms(1) by (simp add: robot_run_def)
  have "run_inv cmd C s'" by (rule run_inv_kernel[OF i k F(14,5) _ _ _ t]) (auto simp: q F(2,3))
  moreover have "vt_ok s'" "vt_live s'" using assms(1) unfolding robot_run_def vt_ok_def vt_live_def chVTIsArmedI_def F(2,3) by blast+
  ultimately show "robot_run cmd C s'" by (simp add: robot_run_def)
  show "cmd_rely s s'" using F hal_more(9)[of s' s] by (auto simp: cmd_rely_def side_rely_def)
qed

section \<open>The tick\<close>

text \<open>A sleeping thread is woken.\<close>

lemma wakeup_sleeping:
  assumes "kinv s" "p_state (threads s t) = THD_STATE_SLEEPING"
  shows "\<exists>s'. wakeup t s = Done () s' \<and> kinv s' \<and>
    threads s' = (threads s)(t := (threads s t)\<lparr>p_u := UMsg RDY_TIMEOUT, p_state := THD_STATE_READY\<rparr>) \<and>
    kernel.more s' = kernel.more s \<and> s_cnt s' = s_cnt s \<and> vts s' = vts s \<and> vtl s' = vtl s \<and> currp s' = currp s \<and>
    (\<forall>q. q \<noteq> QReady \<longrightarrow> tq s' q = tq s q)"
proof -
  from ready_unqueued[OF assms(1), of t "UMsg RDY_TIMEOUT"] assms(2) obtain s' where
    s': "chSchReadyI t (set_rdymsg t RDY_TIMEOUT s) = Done t s'" "kinv s'"
      "threads s' = (threads s)(t := (threads s t)\<lparr>p_u := UMsg RDY_TIMEOUT, p_state := THD_STATE_READY\<rparr>)"
      "kernel.more s' = kernel.more s" "s_cnt s' = s_cnt s" "vts s' = vts s" "vtl s' = vtl s" "currp s' = currp s" "\<forall>q. q \<noteq> QReady \<longrightarrow> tq s' q = tq s q"
    by auto
  have "wakeup t s = Done () s'" using assms(2) s'(1) by (simp add: wakeup_def wakeup_timeout_def)
  with s' show ?thesis by blast
qed

lemma signalled_queues: "tq (bsem_signalled b s) (QSem n) = (if n = b \<and> s_cnt s b < 1 then tl (tq s (QSem b)) else tq s (QSem n))"
  by (simp add: bsem_signalled_def sem_signalled_def Let_def readied_def ready_put_def set_cnt_def split: list.splits)

text \<open>A motor that is given back.\<close>

lemma given_back:
  assumes "run_inv cmd C s" "vtl s = z # rest" "(b, z) \<in> sides" "distinct (vtl s)"
    "s' = bsem_signalled b (with_pwm P (vt_pop z rest s))" "kinv s'" "motor_ok s'"
  shows "run_inv cmd C s' \<and> cmd_rely s s' \<and> currp s' = currp s"
proof -
  let ?s1 = "with_pwm P (vt_pop z rest s)"
  have k: "kernel.truncate ?s1 = kernel.truncate (vt_pop z rest s)" by simp
  have p: "threads (vt_pop z rest s) = threads s" "tq (vt_pop z rest s) = tq s" "s_cnt (vt_pop z rest s) = s_cnt s"
    "vtl (vt_pop z rest s) = rest" "vts (vt_pop z rest s) = (vts s)(z := (vts s z)\<lparr>vt_func := None\<rparr>)"
    "hal.more (vt_pop z rest s) = hal.more s" "i2cs (vt_pop z rest s) = i2cs s" "bufs (vt_pop z rest s) = bufs s"
    "currp (vt_pop z rest s) = currp s"
    by (simp_all add: vt_pop_def)
  note K = kernel_same[OF k, unfolded p]
  have "kinv (vt_pop z rest s)" using assms(1) sched_but_cong[of "vt_pop z rest s" s "{}"]
    by (simp add: run_inv_def kinv_def sem_ok_def vt_pop_def)
  then have k1: "kinv ?s1" unfolding kinv_same[OF k] .
  have "motor_ok s" using assms(1) by (simp add: run_inv_def)
  then have "s_cnt s b \<le> 1" using assms(3) by (auto simp: motor_ok_def motor_side_def sides_def)
  then have one: "s_cnt ?s1 b \<le> 1" by (simp add: p)
  note B = bsem_signalled_eq(3)[OF k1, of b, OF one]
  have f: "vtl s' = rest" "hal.more s' = hal.more s" "i2cs s' = i2cs s" "bufs s' = bufs s"
    "vt_func (vts s' v) = (if v = z then None else vt_func (vts s v))" "vt_par (vts s' v) = vt_par (vts s v)" for v
    using hal_more[OF bsem_more(1)[of b ?s1]] by (simp_all add: assms(5) K p) (simp_all add: with_pwm_def p)
  have c: "s_cnt s' = (s_cnt s)(b := min 1 (s_cnt s b + 1))" using B by (simp add: assms(5) p)
  have t: "threads s' u = threads s u \<or> p_state (threads s u) = THD_STATE_WTSEM" for u
    using signalled_threads[OF k1, of b u] unfolding assms(5) K by auto
  have q: "set (tq s' (QSem n)) \<subseteq> set (tq s (QSem n))" for n
    using list.set_sel(2)[of "tq s (QSem b)"] by (cases "tq s (QSem b)") (auto simp: assms(5) signalled_queues K)
  have z: "z \<notin> set rest" using assms(2,4) by simp
  have m: "lits s' = lits s" using f(2) by (cases s; cases s'; simp)
  have tm: "timers_ok s'" unfolding timers_ok_def f(1)
  proof
    fix v assume v: "v \<in> set rest"
    then have vs: "v \<in> set (vtl s)" "v \<noteq> z" using assms(2) z by auto
    have o: "timers_ok s" using assms(1) by (simp add: run_inv_def)
    show "v = motor_vtl \<and> vt_func (vts s' v) = Some Fn_motor_left_off \<or> v = motor_vtr \<and> vt_func (vts s' v) = Some Fn_motor_right_off \<or>
     (\<exists>t. v = VtStack t \<and> vt_func (vts s' v) = Some Fn_wakeup \<and> vt_par (vts s' v) = t \<and> p_state (threads s' t) = THD_STATE_SLEEPING)"
    proof (cases "\<exists>t. v = VtStack t")
      case True
      then obtain u where u: "v = VtStack u" by blast
      note S = sleeper[OF o vs(1)[unfolded u]]
      have "threads s' u = threads s u" using t[of u] S(1) by auto
      then show ?thesis using S vs(2) u by (simp add: f(5,6))
    next
      case False
      then show ?thesis using o vs unfolding timers_ok_def f(5,6) by auto
    qed
  qed
  have side: "(v \<in> set rest \<longrightarrow> s_cnt s' n \<le> 0) \<and> side_rely n v s s'" if "(n, v) \<in> sides" for n v
  proof -
    have "(v \<in> set (vtl s) \<longrightarrow> s_cnt s n \<le> 0)" "(n = b) = (v = z)"
      using assms(1,3) that sides_distinct by (auto simp: run_inv_def sides_def)
    then show ?thesis using z assms(2) by (auto simp: c f(1) side_rely_def)
  qed
  have "run_inv cmd C s'"
    using assms(1,6,7) tm side q by (fastforce simp: run_inv_def f lits_ok_def m readable_def)
  moreover have "cmd_rely s s'" using side f(2) by (auto simp: cmd_rely_def)
  moreover have "currp s' = currp s" using sem_signalled_inv(5)[OF k1, of b] by (simp add: assms(5) bsem_signalled_def K p)
  ultimately show ?thesis by blast
qed

lemma woken_up:
  assumes "run_inv cmd C s" "vtl s = VtStack t # rest" "distinct (vtl s)"
    "wakeup t (vt_pop (VtStack t) rest s) = Done () s'"
  shows "run_inv cmd C s' \<and> cmd_rely s s' \<and> currp s' = currp s"
proof -
  let ?s1 = "vt_pop (VtStack t) rest s"
  have p: "threads ?s1 = threads s" "tq ?s1 = tq s" "s_cnt ?s1 = s_cnt s" "vtl ?s1 = rest"
    "vts ?s1 = (vts s)(VtStack t := (vts s (VtStack t))\<lparr>vt_func := None\<rparr>)" "kernel.more ?s1 = kernel.more s"
    "currp ?s1 = currp s" by (simp_all add: vt_pop_def)
  have o: "timers_ok s" using assms(1) by (simp add: run_inv_def)
  have k: "kinv ?s1" using assms(1) sched_but_cong[of ?s1 s "{}"] by (simp add: run_inv_def kinv_def sem_ok_def vt_pop_def)
  have sl: "p_state (threads ?s1 t) = THD_STATE_SLEEPING" using sleeper(1)[OF o, of t] assms(2) by (simp add: p)
  from wakeup_sleeping[OF k sl] assms(4) have W: "kinv s'" "kernel.more s' = kernel.more s" "s_cnt s' = s_cnt s" "vtl s' = rest"
    "vts s' = vts ?s1" "threads s' = (threads s)(t := (threads s t)\<lparr>p_u := UMsg RDY_TIMEOUT, p_state := THD_STATE_READY\<rparr>)"
    "\<And>q. q \<noteq> QReady \<Longrightarrow> tq s' q = tq s q" "currp s' = currp s" unfolding p by auto
  have z: "VtStack t \<notin> set rest" using assms(2,3) by simp
  have "run_inv cmd C s'" using z assms(2) W(7)
    by (intro run_inv_kernel[OF assms(1) W(1-3)]) (auto simp: W(4,5,6) p)
  moreover have "cmd_rely s s'"
    using hal_more(9)[OF W(2)] W(3,4) assms(2) sides_distinct by (auto simp: cmd_rely_def side_rely_def sides_def)
  ultimately show ?thesis using W(8) by blast
qed

text \<open>So the tick of the robot keeps the invariant of the running robot, too.\<close>

definition during_tick :: "tid \<Rightarrow> (nat \<times> nat) set \<Rightarrow> 'x robot_scheme \<Rightarrow> 'x robot_scheme \<Rightarrow> bool" where
  "during_tick cmd C s0 s \<longleftrightarrow> run_inv cmd C s \<and> cmd_rely s0 s \<and> currp s = currp s0"

lemma run_served:
  assumes "during_tick cmd C s0 s" "distinct (vtl s)" "vtl s = z # rest" "vt_func (vts s z) = Some fn"
  shows "\<exists>s'. robot_call fn (vt_par (vts s z)) (vt_pop z rest s) = Done () s' \<and> vts s' = vts (vt_pop z rest s) \<and>
    vtl s' = rest \<and> during_tick cmd C s0 s' \<and> timer_done z s' \<and> (\<forall>v. timer_done v s \<longrightarrow> timer_done v s')"
proof -
  have i: "run_inv cmd C s" using assms(1) by (simp add: during_tick_def)
  note r = run_robot[OF i]
  from robot_served[OF r assms(3,4,2)] obtain s' where
    s': "robot_call fn (vt_par (vts s z)) (vt_pop z rest s) = Done () s'" "vts s' = vts (vt_pop z rest s)" "vtl s' = rest"
      "robot_inv s'" "timer_done z s'" "\<forall>v. timer_done v s \<longrightarrow> timer_done v s'" by blast
  let ?s1 = "vt_pop z rest s"
  have e: "?s1 = s\<lparr>vts := (vts s)(z := (vts s z)\<lparr>vt_func := None\<rparr>), vtl := rest, vt_systime := vt_systime s\<rparr>"
    by (simp add: vt_pop_def)
  have I: "robot_inv ?s1" by (rule robot_inv_timers(1)[OF r e]) (use assms(2,3) in auto)
  have K: "motor_ok ?s1" "kinv ?s1" using I by (simp_all add: robot_inv_def)
  have "timers_ok s" using i by (simp add: run_inv_def)
  then consider "z = motor_vtl" "fn = Fn_motor_left_off" | "z = motor_vtr" "fn = Fn_motor_right_off"
    | t where "z = VtStack t" "fn = Fn_wakeup" "vt_par (vts s z) = t"
    using assms(3,4) unfolding timers_ok_def by auto
  then have "run_inv cmd C s' \<and> cmd_rely s s' \<and> currp s' = currp s"
  proof cases
    case 1
    from left.turned_off[OF K] obtain P where "s' = bsem_signalled motor_left_sem (with_pwm P ?s1)" "motor_ok s'" "kinv s'"
      using s'(1) 1 by (auto simp: robot_call_def)
    then show ?thesis using given_back[OF i assms(3) _ assms(2), of motor_left_sem s' P] 1 by (simp add: sides_def)
  next
    case 2
    from right.turned_off[OF K] obtain P where "s' = bsem_signalled motor_right_sem (with_pwm P ?s1)" "motor_ok s'" "kinv s'"
      using s'(1) 2 by (auto simp: robot_call_def)
    then show ?thesis using given_back[OF i assms(3) _ assms(2), of motor_right_sem s' P] 2 by (simp add: sides_def)
  next
    case 3
    then show ?thesis using woken_up[OF i _ assms(2), of t rest s'] s'(1) assms(3) by (simp add: robot_call_def)
  qed
  then have "during_tick cmd C s0 s'" using assms(1) cmd_rely_trans unfolding during_tick_def by metis
  then show ?thesis using s' by blast
qed

lemma run_accounting:
  assumes "during_tick cmd C s0 s" "kinv s'" "kernel.more s' = kernel.more s" "s_cnt s' = s_cnt s" "tq s' = tq s"
    "\<And>v. vt_func (vts s' v) = vt_func (vts s v) \<and> vt_par (vts s' v) = vt_par (vts s v)" "vtl s' = vtl s"
    "\<And>t. p_state (threads s' t) = p_state (threads s t)" "currp s' = currp s"
  shows "during_tick cmd C s0 s'"
proof -
  have i: "run_inv cmd C s" using assms(1) by (simp add: during_tick_def)
  have "run_inv cmd C s'" by (rule run_inv_kernel[OF i assms(2-4) _ assms(6) _ assms(8)]) (auto simp: assms(5,7))
  moreover have "cmd_rely s s'" using hal_more(9)[OF assms(3)] by (auto simp: cmd_rely_def side_rely_def assms(4,7))
  ultimately show ?thesis using assms(1,9) cmd_rely_trans unfolding during_tick_def by metis
qed

lemma run_charge:
  assumes "during_tick cmd C s0 s"
  shows "during_tick cmd C s0 (charge s)"
proof (rule run_accounting[OF assms])
  have "robot_inv (charge s)" using robot_inv_charge run_robot assms unfolding during_tick_def by blast
  then show "kinv (charge s)" by (simp add: robot_inv_def)
qed (simp_all add: charge_def Let_def upd_thread_def)

lemma run_tick:
  assumes "during_tick cmd C s0 s"
  shows "during_tick cmd C s0 (vt_dec_head (s\<lparr>vt_systime := x\<rparr>))"
proof (rule run_accounting[OF assms])
  have "robot_inv (vt_dec_head (s\<lparr>vt_systime := x\<rparr>))" using robot_inv_tick run_robot assms unfolding during_tick_def by blast
  then show "kinv (vt_dec_head (s\<lparr>vt_systime := x\<rparr>))" by (simp add: robot_inv_def)
qed (simp_all add: vt_dec_head_def split: list.split)

interpretation running: system_tick robot_call "during_tick cmd C s0" timer_done for cmd C s0
  by unfold_locales (erule run_served run_tick done_tick run_charge done_charge; assumption)+

text \<open>The exit of the interrupt leaves the sleepers asleep.\<close>

lemma irq_exit:
  assumes "sched_inv s"
  shows "settles (\<lambda>s'. \<forall>t. p_state (threads s t) = THD_STATE_SLEEPING \<longrightarrow> p_state (threads s' t) = THD_STATE_SLEEPING)
    (port_irq_epilogue s)" "port_irq_epilogue s = Done x s' \<Longrightarrow> s' = s"
proof -
  let ?P = "\<lambda>s'. \<forall>t. p_state (threads s t) = THD_STATE_SLEEPING \<longrightarrow> p_state (threads s' t) = THD_STATE_SLEEPING"
  have "settles ?P (port_irq_epilogue s) \<and> (port_irq_epilogue s = Done x s' \<longrightarrow> s' = s)"
  proof (cases "chSchIsPreemptionRequired s")
    case True
    note C = sched_inv_current[OF assms]
    from True obtain n ts where q: "tq s QReady = n # ts"
      using C(3) by (cases "tq s QReady") (auto simp: chSchIsPreemptionRequired_def firstprio_def NOPRIO_def Let_def split: if_splits)
    note T = take_ready_inv[OF assms q, simplified]
    have "0 < prio (upd_thread (currp s) (\<lambda>th. th\<lparr>p_preempt := CH_TIME_QUANTUM\<rparr>)
        (set_state n THD_STATE_CURRENT (setcurrp n (set_tq QReady ts s)))) (currp s)"
      using C(3) T(4) by (simp add: prio_def)
    then show ?thesis using True C(1) T(5)
      by (auto simp: port_irq_epilogue_def port_switch_from_isr_def chSchDoReschedule_def chSchDoRescheduleBehind_def
          chSchDoRescheduleAhead_def fifo_remove_def q Let_def chSchReadyI_eq chSysSwitch_def)
  qed (simp add: port_irq_epilogue_def)
  then show "settles ?P (port_irq_epilogue s)" "port_irq_epilogue s = Done x s' \<Longrightarrow> s' = s" by blast+
qed

lemma robot_rely_refl [simp]: "robot_rely cmd u s s"
  by (simp add: robot_rely_def)

lemma robot_rely_trans: "robot_rely cmd u s s' \<Longrightarrow> robot_rely cmd u s' s'' \<Longrightarrow> robot_rely cmd u s s''"
  using cmd_rely_trans by (auto simp: robot_rely_def)

lemma isr_obeys:
  assumes "robot_run cmd C s" "currp s = t"
  shows "obeys (\<lambda>a b. \<forall>u. robot_rely cmd u a b) (robot_rely cmd t) (robot_run cmd C) t
    (\<lambda>_ s'. robot_run cmd C s' \<and> currp s' = t) s (robot_isr i s)"
proof -
  have d: "during_tick cmd C s s" using assms by (simp add: during_tick_def robot_run_def)
  from running.timer_tick[OF _ _ d] assms(1) obtain s1 where
    s1: "chSysTimerHandlerI (Suc (length (vtl s))) robot_call s = Done () s1" "vt_ok s1" "vt_live s1" "during_tick cmd C s s1"
    by (auto simp: robot_run_def)
  have r: "robot_run cmd C s1" "cmd_rely s s1" "currp s1 = t" using s1(2-4) assms(2) by (simp_all add: robot_run_def during_tick_def)
  then have inv: "sched_inv s1" by (simp add: robot_run_def run_inv_def kinv_def)
  have "settles (\<lambda>s'. (\<forall>u. robot_rely cmd u s s') \<and> robot_run cmd C s') (port_irq_epilogue s1)"
  proof (rule settles_mono[OF settles_conj[OF irq_epilogue_s[OF inv] irq_exit(1)[OF inv]]])
    fix s' assume "(sched_inv s' \<and> top_running s' \<and> sched_frame s1 s' \<and> prio s' = prio s1) \<and>
      (\<forall>t. p_state (threads s1 t) = THD_STATE_SLEEPING \<longrightarrow> p_state (threads s' t) = THD_STATE_SLEEPING)"
    then have "robot_run cmd C s'" "cmd_rely s1 s'" using robot_run_frame[OF r(1)] by blast+
    then show "(\<forall>u. robot_rely cmd u s s') \<and> robot_run cmd C s'"
      using r(2) cmd_rely_trans by (auto simp: robot_rely_def)
  qed
  moreover have "currp s' = t" if "port_irq_epilogue s1 = Done x s'" for x s'
    using irq_exit(2)[OF inv that] r(3) by simp
  ultimately have "obeys (\<lambda>a b. \<forall>u. robot_rely cmd u a b) (robot_rely cmd t) (robot_run cmd C) t
      (\<lambda>_ s'. robot_run cmd C s' \<and> currp s' = t) s (port_irq_epilogue s1)"
    by (intro obeys_settles) (auto intro: transpI robot_rely_trans)
  then show ?thesis by (cases i) (simp add: robot_isr_def SysTickVector_def s1(1))
qed

section \<open>The main and the idle thread\<close>

lemma asleep_states:
  assumes "sched_inv s" "currp s \<noteq> idle_tid"
  shows "p_state (threads (asleep st s) (currp s)) = st"
    "p_state (threads s u) = THD_STATE_SLEEPING \<Longrightarrow> p_state (threads (asleep st s) u) = THD_STATE_SLEEPING"
proof -
  note C = sched_inv_current[OF assms(1)]
  obtain n ts where q: "tq s QReady = n # ts" using ready_nonempty[OF C(4) assms(2)] by (cases "tq s QReady") auto
  note T = take_ready_inv[OF assms(1) q, simplified]
  show "p_state (threads (asleep st s) (currp s)) = st" using T(4) by (simp add: asleep_def q)
  show "p_state (threads s u) = THD_STATE_SLEEPING \<Longrightarrow> p_state (threads (asleep st s) u) = THD_STATE_SLEEPING"
    using T(4,5) C(1) by (auto simp: asleep_def q)
qed

lemma run_current:
  assumes "robot_run cmd C s"
  shows "VtStack (currp s) \<notin> set (vtl s)" "sched_inv s" "vt_ok s" "vt_live s"
    "p_state (threads s u) = THD_STATE_SLEEPING \<Longrightarrow> u \<noteq> currp s"
proof -
  show i: "sched_inv s" "vt_ok s" "vt_live s" using assms by (simp_all add: robot_run_def run_inv_def kinv_def)
  note C = sched_inv_current(1)[OF i(1)]
  show "p_state (threads s u) = THD_STATE_SLEEPING \<Longrightarrow> u \<noteq> currp s" using C by auto
  show "VtStack (currp s) \<notin> set (vtl s)"
    using sleeper(1)[of s "currp s"] assms C by (auto simp: robot_run_def run_inv_def)
qed

text \<open>A thread that goes to sleep for a time.\<close>

lemma sleep_state:
  assumes "robot_run cmd C s" "currp s \<noteq> idle_tid" "0 < time"
    "chVTSetI (VtStack (currp s)) time Fn_wakeup (currp s) s = Done () s1"
    "vt_deadline s1 = (vt_deadline s)(VtStack (currp s) \<mapsto> unat time)" "vt_ok s1" "vt_frame s s1"
  shows "chSchGoSleepS THD_STATE_SLEEPING s1 = chSysSwitch (asleep THD_STATE_SLEEPING s1)"
    "robot_run cmd C (asleep THD_STATE_SLEEPING s1)" "cmd_rely s (asleep THD_STATE_SLEEPING s1)"
proof -
  let ?t = "currp s" and ?s' = "asleep THD_STATE_SLEEPING s1"
  note R = run_current[OF assms(1)] and F = vt_frame_fields[OF assms(7)]
  have inv: "run_inv cmd C s" using assms(1) by (simp add: robot_run_def)
  have i: "sched_inv s1" "currp s1 \<noteq> idle_tid" using R(2) F assms(2) by simp_all
  note S = go_sleep_loose[OF i, of THD_STATE_SLEEPING] and A = asleep_states[OF i, where st = THD_STATE_SLEEPING]
  show "chSchGoSleepS THD_STATE_SLEEPING s1 = chSysSwitch ?s'" by (rule S(1)) simp
  note V = vt_set_armed[OF R(1) assms(4), unfolded armed_for_def]
  have live: "vt_live s1" using R(4) assms(3) unfolding vt_live_iff assms(5) by (auto simp: word_less_nat_alt split: if_splits)
  have fr: "sched_frame s1 ?s'" by (rule asleep_frame)
  have k: "kinv ?s'" using S(2) sem_ok_frame[OF fr] inv F by (simp add: run_inv_def kinv_def sem_ok_def)
  have m: "kernel.more ?s' = kernel.more s" "s_cnt ?s' = s_cnt s" using F by simp_all
  have tm: "timers_ok ?s'" unfolding timers_ok_def
  proof
    fix v assume "v \<in> set (vtl ?s')"
    then have v: "v = VtStack ?t \<or> v \<noteq> VtStack ?t \<and> v \<in> set (vtl s)" using V by auto
    have o: "timers_ok s" using inv by (simp add: run_inv_def)
    show "v = motor_vtl \<and> vt_func (vts ?s' v) = Some Fn_motor_left_off \<or> v = motor_vtr \<and> vt_func (vts ?s' v) = Some Fn_motor_right_off \<or>
     (\<exists>t. v = VtStack t \<and> vt_func (vts ?s' v) = Some Fn_wakeup \<and> vt_par (vts ?s' v) = t \<and> p_state (threads ?s' t) = THD_STATE_SLEEPING)"
      using v
    proof
      assume "v = VtStack ?t"
      then show ?thesis using V A(1) F by simp
    next
      assume v: "v \<noteq> VtStack ?t \<and> v \<in> set (vtl s)"
      then have "vt_func (vts ?s' v) = vt_func (vts s v)" "vt_par (vts ?s' v) = vt_par (vts s v)" using V by simp_all
      moreover have "p_state (threads s t) = THD_STATE_SLEEPING \<Longrightarrow> p_state (threads ?s' t) = THD_STATE_SLEEPING" for t
        using A(2)[of t] F by simp
      ultimately show ?thesis using o v unfolding timers_ok_def by fastforce
    qed
  qed
  have sd: "v \<in> set (vtl ?s') \<longleftrightarrow> v \<in> set (vtl s)" if "(b, v) \<in> sides" for b v
    using that V sides_distinct by (auto simp: sides_def)
  have q: "tq ?s' (QSem b) = tq s (QSem b)" for b using F by simp
  have "run_inv cmd C ?s'"
  proof (rule run_inv_timers[OF inv k m _ tm])
    show "s_cnt ?s' b \<le> 0" if "(b, v) \<in> sides" "v \<in> set (vtl ?s')" for b v
      using inv sd[OF that(1)] that unfolding m(2) run_inv_def by blast
  qed (simp only: q Un_upper1)
  moreover have "vt_ok ?s'" "vt_live ?s'" using assms(6) live vt_same[of ?s' s1] by simp_all
  ultimately show "robot_run cmd C ?s'" by (simp add: robot_run_def)
  show "cmd_rely s ?s'" using sd hal_more(9)[OF m(1)] by (auto simp: cmd_rely_def side_rely_def F(5) sides_def)
qed

lemma sleep_obeys:
  assumes "robot_run cmd C s" "currp s = t" "t \<noteq> idle_tid" "0 < time" "time \<noteq> TIME_INFINITE"
  shows "obeys cmd_rely R (robot_run cmd C) t (\<lambda>_ s'. robot_run cmd C s' \<and> currp s' = t) s (chThdSleep time s)"
proof -
  note R = run_current[OF assms(1)]
  from vt_set_deadline[OF R(3,1), of time Fn_wakeup "currp s"] vt_set_frame[OF R(1), of time Fn_wakeup "currp s"] obtain s1 where
    s1: "chVTSetI (VtStack (currp s)) time Fn_wakeup (currp s) s = Done () s1"
      "vt_deadline s1 = (vt_deadline s)(VtStack (currp s) \<mapsto> unat time)" "vt_ok s1" "vt_frame s s1" by auto
  have "currp s \<noteq> idle_tid" using assms(2,3) by simp
  note S = sleep_state[OF assms(1) this assms(4) s1]
  have "\<not> chVTIsArmedI (VtStack t) s2" if "robot_run cmd C s2" "currp s2 = t" for s2
    using run_current(1,3)[OF that(1)] that(2) by (simp add: vt_ok_def)
  then show ?thesis using s1(1) S assms(2,5)
    by (auto simp: chThdSleep_def chThdSleepS_def chSchGoSleepTimeoutS_def Let_def)
qed

lemma obeys_with: "obeys G R I t Q s0 m \<Longrightarrow> (\<And>a b. G a b \<Longrightarrow> G' a b) \<Longrightarrow> obeys G' R I t Q s0 m"
  by (erule obeys_mono) auto

lemma main_obeys:
  assumes "robot_run cmd C s" "currp s = t" "t \<noteq> idle_tid"
  shows "obeys cmd_rely R (robot_run cmd C) t (\<lambda>_. robot_run cmd C) s (main_loop n s)"
  using assms(1,2)
proof (induction n arbitrary: s)
  case (Suc n)
  have ms: "MS2ST 1000 = 1000" by (simp add: MS2ST_def CH_FREQUENCY_def)
  have "obeys cmd_rely R (robot_run cmd C) t (\<lambda>_ s'. robot_run cmd C s' \<and> currp s' = t) s' (chThdSleepMilliseconds 1000 s')"
    if "robot_run cmd C s'" "currp s' = t" for s'
    unfolding chThdSleepMilliseconds_def ms by (rule sleep_obeys[OF that assms(3)]) (simp_all add: TIME_INFINITE_def)
  then show ?case using Suc
    by (auto intro!: obeys_obind[where Q = "\<lambda>_ s'. robot_run cmd C s' \<and> currp s' = t"] transpI intro: cmd_rely_trans)
qed simp

lemma idle_obeys:
  assumes "robot_run cmd C s" "currp s = t"
  shows "obeys cmd_rely R (robot_run cmd C) t (\<lambda>_. robot_run cmd C) s (idle_loop n s)"
  using assms by (induction n arbitrary: s) auto

section \<open>The thread of the commands\<close>

text \<open>Between two commands a motor is free, or its timer will give it back.\<close>

definition rested :: "nat \<Rightarrow> vtid \<Rightarrow> 'x kernel_scheme \<Rightarrow> bool" where
  "rested b v s \<longleftrightarrow> s_cnt s b = (if v \<in> set (vtl s) then 0 else 1)"

definition taken :: "nat \<Rightarrow> vtid \<Rightarrow> 'x kernel_scheme \<Rightarrow> bool" where
  "taken b v s \<longleftrightarrow> s_cnt s b = 0 \<and> v \<notin> set (vtl s)"

lemma rested_stable: "rested b v s \<Longrightarrow> cmd_rely s s' \<Longrightarrow> (b, v) \<in> sides \<Longrightarrow> rested b v s'"
  by (auto simp: rested_def cmd_rely_def side_rely_def split: if_splits)

lemma taken_stable: "taken b v s \<Longrightarrow> cmd_rely s s' \<Longrightarrow> (b, v) \<in> sides \<Longrightarrow> taken b v s'"
  by (auto simp: taken_def cmd_rely_def side_rely_def split: if_splits)

abbreviation "cmd_obeys cmd C \<equiv> obeys (\<lambda>_ _. True) cmd_rely (robot_run cmd C) cmd"

text \<open>The motor is taken, or the thread waits until its timer gives it back.\<close>

lemma take_motor:
  assumes "robot_run cmd C s" "currp s = cmd" "cmd \<noteq> idle_tid" "(b, v) \<in> sides" "(b', v') \<in> sides" "b \<noteq> b'"
    "rested b v s" "rested b' v' s"
  shows "cmd_obeys cmd C (\<lambda>_ s'. robot_run cmd C s' \<and> currp s' = cmd \<and> taken b v s' \<and> rested b' v' s') s (chBSemWait b s)"
proof (cases "v \<in> set (vtl s)")
  case False
  then have b: "s_cnt s b = 1" using assms(7) by (simp add: rested_def)
  let ?s' = "set_cnt b 0 s"
  have i: "run_inv cmd C s" using assms(1) by (simp add: robot_run_def)
  note H = hal_more[OF more_upd(1), of b 0 s]
  have k: "kinv ?s'" using i b by (auto simp: run_inv_def kinv_def sem_ok_def split: if_splits)
  have m: "motor_ok ?s'" using i common_same[of ?s' s] duty_same[of ?s' s]
    by (simp add: run_inv_def motor_ok_def motor_side_def)
  have "robot_run cmd C ?s'"
    by (rule robot_run_untimed[OF assms(1) k m H(9,5,7)]) (use i in \<open>auto simp: run_inv_def\<close>)
  then show ?thesis using assms(2,6,8) False by (simp add: sem_take[OF b] taken_def rested_def)
next
  case True
  then have b: "s_cnt s b = 0" using assms(7) by (simp add: rested_def)
  have i: "run_inv cmd C s" "vt_ok s" "vt_live s" "kinv s" using assms(1) by (simp_all add: robot_run_def run_inv_def)
  have c: "currp s \<noteq> idle_tid" "s_cnt s b \<le> 0" using assms(2,3) b by simp_all
  note W = sem_wait_block[OF i(4) c]
  let ?s' = "sem_blocked b s"
  have m: "kernel.more ?s' = kernel.more s" "vtl ?s' = vtl s" "vts ?s' = vts s" "s_cnt ?s' = (s_cnt s)(b := -1)"
    using b by (simp_all add: sem_blocked_def)
  note H = hal_more[OF m(1)]
  have mo: "motor_ok ?s'"
    using i(1) common_same[OF H(9,3)] robot_vars[OF H(9)] duty_same[OF H(3), OF robot_vars(6)[OF H(9)]] b
    by (simp add: run_inv_def motor_ok_def motor_side_def m(4))
  have q: "set (tq ?s' (QSem n)) \<subseteq> set (tq s (QSem n)) \<union> {cmd}" for n
    using assms(2) by (auto simp: sem_blocked_def)
  have z: "p_state (threads ?s' t) = THD_STATE_SLEEPING" if "p_state (threads s t) = THD_STATE_SLEEPING" for t
  proof -
    obtain n ts where r: "tq s QReady = n # ts" using ready_nonempty[OF sched_inv_current(4) c(1)] i(4)
      by (cases "tq s QReady") (auto simp: kinv_def)
    have "sched_inv s" using i(4) by (simp add: kinv_def)
    from sched_inv_current(1)[OF this] take_ready_inv(5)[OF this r, simplified] show ?thesis
      using that by (auto simp: sem_blocked_def asleep_def r)
  qed
  have R: "robot_run cmd C ?s'"
  proof (rule robot_run_untimed[OF assms(1) W(2) mo H(9,5,7) q m(3,2) z])
    show "s_cnt ?s' n \<le> 0" if "(n, u) \<in> sides" "u \<in> set (vtl s)" for n u
      using i(1) that by (auto simp: run_inv_def m(4))
  qed
  have got: "taken b v s2 \<and> rested b' v' s2" if "robot_run cmd C s2" "currp s2 = cmd" "cmd_rely ?s' s2" for s2
  proof -
    have k: "sched_inv s2" "sem_ok s2" and e: "set (tq s2 (QSem b)) \<subseteq> {cmd}"
      using that(1) assms(4) by (auto simp: robot_run_def run_inv_def kinv_def)
    have "cmd \<notin> set (tq s2 (QSem b))" using sched_inv_current(2)[OF k(1)] unfolding loose_def that(2) by blast
    then have n: "tq s2 (QSem b) = []" using e by (cases "tq s2 (QSem b)") auto
    have "v \<notin> set (vtl s2)"
    proof
      assume "v \<in> set (vtl s2)"
      then have "s_cnt s2 b = -1" using that(3) assms(4) True by (auto simp: cmd_rely_def side_rely_def m)
      then show False using sem_okD(1)[OF k(2), of b] n by simp
    qed
    then have "taken b v s2" using that(3) assms(4) True by (auto simp: taken_def cmd_rely_def side_rely_def m)
    moreover have "rested b' v' ?s'" using assms(6,8) by (simp add: rested_def m)
    ultimately show ?thesis using rested_stable that(3) assms(5) by blast
  qed
  show ?thesis unfolding chBSemWait_def chSemWait_def W(1) using R got by auto
qed

text \<open>The channels of a motor that is taken are switched.\<close>

context bridge
begin

lemma switch_channels:
  assumes "robot_run cmd C s" "(sem, v) \<in> sides" "taken sem v s" "a = 0 \<or> b = 0"
  shows "\<exists>P. motor_set (p s) a (q s) b s = Done () (with_pwm P s) \<and> robot_run cmd C (with_pwm P s)"
proof -
  have i: "run_inv cmd C s" "motor_ok s" "kinv s" using assms(1) by (simp_all add: robot_run_def run_inv_def)
  from set_channels[of s a b] i(2) obtain P where
    P: "motor_set (p s) a (q s) b s = Done () (with_pwm P s)" "motor_common (with_pwm P s)"
      "duty (with_pwm P s) (p s) = motor_width a s" "duty (with_pwm P s) (q s) = motor_width b s"
      "duty (with_pwm P s) (p' s) = duty s (p' s)" "duty (with_pwm P s) (q' s) = duty s (q' s)"
    unfolding ok by blast
  have v: "p (with_pwm P s) = p s" "q (with_pwm P s) = q s" "p' (with_pwm P s) = p' s" "q' (with_pwm P s) = q' s"
    using vars[of "with_pwm P s" s] by simp_all
  have m: "motor_ok (with_pwm P s)"
    using i(2) P(2-6) assms(3,4) unfolding ok v by (auto simp: motor_side_def taken_def)
  note K = kernel_same[OF with_pwm_fields(1)[of P s]]
  have k: "kinv (with_pwm P s)" unfolding kinv_same[OF with_pwm_fields(1)] by (rule i(3))
  have h: "hal.more (with_pwm P s) = hal.more s" "i2cs (with_pwm P s) = i2cs s" "bufs (with_pwm P s) = bufs s"
    by (simp_all add: with_pwm_def)
  have "robot_run cmd C (with_pwm P s)"
    by (rule robot_run_untimed[OF assms(1) k m h]) (use i(1) in \<open>auto simp: K run_inv_def\<close>)
  then show ?thesis using P(1) by blast
qed

lemma on_obeys:
  assumes "robot_run cmd C s" "currp s = cmd" "cmd \<noteq> idle_tid" "(sem, v) \<in> sides" "(other, v') \<in> sides"
    "rested sem v s" "rested other v' s"
  shows "cmd_obeys cmd C (\<lambda>_ s'. robot_run cmd C s' \<and> currp s' = cmd \<and> taken sem v s' \<and> rested other v' s') s (on dir s)"
  unfolding on
proof (rule obeys_obind[OF _ take_motor[OF assms(1-5) sems assms(6,7)]])
  fix r and s1 :: "'x robot_scheme"
  assume s1: "robot_run cmd C s1 \<and> currp s1 = cmd \<and> taken sem v s1 \<and> rested other v' s1"
  have "obeys (\<lambda>_ _. True) cmd_rely (robot_run cmd C) cmd
      (\<lambda>_ s'. robot_run cmd C s' \<and> currp s' = cmd \<and> taken sem v s' \<and> rested other v' s') s2
      (case dir of D_FORWARD \<Rightarrow> motor_set (p s2) 0 (q s2) (motor_speed s2) s2
       | D_BACKWARD \<Rightarrow> motor_set (p s2) (motor_speed s2) (q s2) 0 s2)"
    if s2: "robot_run cmd C s2" "currp s2 = cmd" "cmd_rely s1 s2" for s2
  proof -
    have t: "taken sem v s2" "rested other v' s2"
      using s1 taken_stable[OF _ s2(3) assms(4)] rested_stable[OF _ s2(3) assms(5)] by blast+
    have w: "currp (with_pwm P s2) = cmd \<and> taken sem v (with_pwm P s2) \<and> rested other v' (with_pwm P s2)" for P
      using t s2(2) kernel_same[OF with_pwm_fields(1)[of P s2]] by (simp add: taken_def rested_def)
    show ?thesis
      using switch_channels[OF s2(1) assms(4) t(1), of 0 "motor_speed s2"] switch_channels[OF s2(1) assms(4) t(1), of "motor_speed s2" 0] w
      by (cases dir) auto
  qed
  then show "cmd_obeys cmd C (\<lambda>_ s'. robot_run cmd C s' \<and> currp s' = cmd \<and> taken sem v s' \<and> rested other v' s') s1
     (Window s1 (\<lambda>s2. case dir of D_FORWARD \<Rightarrow> motor_set (p s2) 0 (q s2) (motor_speed s2) s2
       | D_BACKWARD \<Rightarrow> motor_set (p s2) (motor_speed s2) (q s2) 0 s2))"
    using s1 by auto
qed (simp add: transp_def)

end

text \<open>The timer of a motor that is taken is armed.\<close>

definition side_timer :: "nat \<Rightarrow> vtid \<Rightarrow> vtfunc \<Rightarrow> bool" where
  "side_timer b v fn \<longleftrightarrow> b = motor_left_sem \<and> v = motor_vtl \<and> fn = Fn_motor_left_off \<or>
     b = motor_right_sem \<and> v = motor_vtr \<and> fn = Fn_motor_right_off"

lemma arm_timer:
  assumes "robot_run cmd C s" "side_timer b v fn" "taken b v s" "0 < time"
  shows "\<exists>s'. chVTSet v time fn 0 s = Done () s' \<and> robot_run cmd C s' \<and> currp s' = currp s \<and> rested b v s' \<and>
    (\<forall>b' v'. v' \<noteq> v \<longrightarrow> rested b' v' s \<longrightarrow> rested b' v' s')"
proof -
  have i: "run_inv cmd C s" "vt_ok s" "vt_live s" "timers_ok s" "v \<notin> set (vtl s)"
    using assms(1,3) by (simp_all add: robot_run_def run_inv_def taken_def)
  from vt_set_deadline[OF i(2,5), of time fn 0] vt_set_frame[OF i(5), of time fn 0] obtain s' where
    s': "chVTSetI v time fn 0 s = Done () s'" "vt_deadline s' = (vt_deadline s)(v \<mapsto> unat time)" "vt_ok s'" "vt_frame s s'" by auto
  note F = vt_frame_fields[OF s'(4)] and V = vt_set_armed[OF i(5) s'(1), unfolded armed_for_def]
  have live: "vt_live s'" using i(3) assms(4) unfolding vt_live_iff s'(2) by (auto simp: word_less_nat_alt split: if_splits)
  have k: "kinv s'" using i(1) F by (simp add: run_inv_def kinv_def sem_ok_def)
  have tm: "timers_ok s'" unfolding timers_ok_def
  proof
    fix u assume "u \<in> set (vtl s')"
    then consider "u = v" | "u \<noteq> v" "u \<in> set (vtl s)" using V by auto
    then show "u = motor_vtl \<and> vt_func (vts s' u) = Some Fn_motor_left_off \<or> u = motor_vtr \<and> vt_func (vts s' u) = Some Fn_motor_right_off \<or>
     (\<exists>t. u = VtStack t \<and> vt_func (vts s' u) = Some Fn_wakeup \<and> vt_par (vts s' u) = t \<and> p_state (threads s' t) = THD_STATE_SLEEPING)"
    proof cases
      case 1
      then show ?thesis using V assms(2) by (auto simp: side_timer_def)
    next
      case 2
      then have "vt_func (vts s' u) = vt_func (vts s u)" "vt_par (vts s' u) = vt_par (vts s u)" using V by simp_all
      then show ?thesis using i(4) 2 F(1) unfolding timers_ok_def by fastforce
    qed
  qed
  have "run_inv cmd C s'"
  proof (rule run_inv_timers[OF i(1) k F(15,5) _ tm])
    show "s_cnt s' n \<le> 0" if "(n, u) \<in> sides" "u \<in> set (vtl s')" for n u
    proof (cases "u = v")
      case True
      then show ?thesis using that(1) assms(2,3) F(5) sides_distinct by (auto simp: side_timer_def sides_def taken_def)
    next
      case False
      then show ?thesis using that i(1) V by (auto simp: run_inv_def F(5))
    qed
  qed (simp only: F(2) Un_upper1)
  then have "robot_run cmd C s'" using s'(3) live by (simp add: robot_run_def)
  moreover have "rested b v s'" "\<forall>b' v'. v' \<noteq> v \<longrightarrow> rested b' v' s \<longrightarrow> rested b' v' s'"
    using assms(3) V F(5) by (auto simp: rested_def taken_def)
  ultimately show ?thesis using s'(1) F(3) by (auto simp: chVTSet_def)
qed

definition cmd_ready :: "tid \<Rightarrow> (nat \<times> nat) set \<Rightarrow> 'x robot_scheme \<Rightarrow> bool" where
  "cmd_ready cmd C s \<longleftrightarrow> robot_run cmd C s \<and> currp s = cmd \<and> rested motor_left_sem motor_vtl s \<and> rested motor_right_sem motor_vtr s"

lemma cmd_ready_stable: "cmd_ready cmd C s \<Longrightarrow> robot_run cmd C s' \<Longrightarrow> currp s' = cmd \<Longrightarrow> cmd_rely s s' \<Longrightarrow> cmd_ready cmd C s'"
  using rested_stable[of motor_left_sem motor_vtl s s'] rested_stable[of motor_right_sem motor_vtr s s']
  by (simp add: cmd_ready_def sides_def)

lemma cmd_window:
  fixes s :: "'x robot_scheme"
  assumes "cmd_ready cmd C s" "\<And>s' :: 'x robot_scheme. cmd_ready cmd C s' \<Longrightarrow> cmd_obeys cmd C Q s' (k s')"
  shows "cmd_obeys cmd C Q s (Window s k)"
  using assms cmd_ready_stable[OF assms(1)] by (auto simp: cmd_ready_def)

text \<open>A motor is switched on, and its timer armed.\<close>

lemma timed_obeys:
  fixes s :: "'x robot_scheme"
  assumes "cmd_obeys cmd C (\<lambda>_ s'. robot_run cmd C s' \<and> currp s' = cmd \<and> taken b v s' \<and> rested b' v' s') s m"
    "side_timer b v fn" "(b', v') \<in> sides" "b \<noteq> b'" "0 < time"
    "\<And>s' :: 'x robot_scheme. robot_run cmd C s' \<Longrightarrow> currp s' = cmd \<Longrightarrow> rested b v s' \<Longrightarrow> rested b' v' s' \<Longrightarrow> cmd_ready cmd C s'"
  shows "cmd_obeys cmd C (\<lambda>_. cmd_ready cmd C) s (obind m (\<lambda>_ s1. Window s1 (\<lambda>s2. chVTSet v time fn 0 s2)))"
proof (rule obeys_obind[OF _ assms(1)])
  fix r and s1 :: "'x robot_scheme"
  assume s1: "robot_run cmd C s1 \<and> currp s1 = cmd \<and> taken b v s1 \<and> rested b' v' s1"
  have d: "(b, v) \<in> sides" "v' \<noteq> v" using assms(2-4) sides_distinct by (auto simp: side_timer_def sides_def)
  have "cmd_obeys cmd C (\<lambda>_. cmd_ready cmd C) s2 (chVTSet v time fn 0 s2)"
    if "robot_run cmd C s2" "currp s2 = cmd" "cmd_rely s1 s2" for s2
  proof -
    have t: "taken b v s2" "rested b' v' s2" using s1 taken_stable rested_stable that(3) d assms(3) by blast+
    from arm_timer[OF that(1) assms(2) t(1) assms(5)] obtain s' where
      s': "chVTSet v time fn 0 s2 = Done () s'" "robot_run cmd C s'" "currp s' = currp s2" "rested b v s'" "rested b' v' s'"
      using d(2) t(2) by blast
    have "cmd_ready cmd C s'" by (rule assms(6)[OF s'(2) _ s'(4,5)]) (simp add: s'(3) that(2))
    then show ?thesis using s'(1) by simp
  qed
  then show "cmd_obeys cmd C (\<lambda>_. cmd_ready cmd C) s1 (Window s1 (\<lambda>s2. chVTSet v time fn 0 s2))" using s1 by auto
qed (simp add: transp_def)

lemmas motor_defs = motorLeftForwardS_def motorLeftBackwardS_def motorRightForwardS_def motorRightBackwardS_def

lemma motor_obeys:
  assumes "cmd_ready cmd C s" "cmd \<noteq> idle_tid" "0 < m" "m \<le> 2147484"
  shows "cmd_obeys cmd C (\<lambda>_. cmd_ready cmd C) s (motorLeftForwardS m s)" "cmd_obeys cmd C (\<lambda>_. cmd_ready cmd C) s (motorLeftBackwardS m s)"
    "cmd_obeys cmd C (\<lambda>_. cmd_ready cmd C) s (motorRightForwardS m s)" "cmd_obeys cmd C (\<lambda>_. cmd_ready cmd C) s (motorRightBackwardS m s)"
proof -
  have R: "robot_run cmd C s" "currp s = cmd" "rested motor_left_sem motor_vtl s" "rested motor_right_sem motor_vtr s"
    using assms(1) by (simp_all add: cmd_ready_def)
  have S: "(motor_left_sem, motor_vtl) \<in> sides" "(motor_right_sem, motor_vtr) \<in> sides"
    "side_timer motor_left_sem motor_vtl Fn_motor_left_off" "side_timer motor_right_sem motor_vtr Fn_motor_right_off"
    "motor_right_sem \<noteq> motor_left_sem"
    using sides_distinct(1) by (simp_all add: sides_def side_timer_def)
  have t: "0 < MS2ST m" using ms2st[OF assms(3,4)] assms(3) by (simp add: word_less_nat_alt)
  note L = timed_obeys[OF left.on_obeys[OF R(1,2) assms(2) S(1,2) R(3,4)] S(3,2) sides_distinct(1) t]
  note Q = timed_obeys[OF right.on_obeys[OF R(1,2) assms(2) S(2,1) R(4,3)] S(4,1,5) t]
  show "cmd_obeys cmd C (\<lambda>_. cmd_ready cmd C) s (motorLeftForwardS m s)" "cmd_obeys cmd C (\<lambda>_. cmd_ready cmd C) s (motorLeftBackwardS m s)"
    unfolding motor_defs by (rule L; simp add: cmd_ready_def)+
  show "cmd_obeys cmd C (\<lambda>_. cmd_ready cmd C) s (motorRightForwardS m s)" "cmd_obeys cmd C (\<lambda>_. cmd_ready cmd C) s (motorRightBackwardS m s)"
    unfolding motor_defs by (rule Q; simp add: cmd_ready_def)+
qed

lemma both_obeys:
  assumes "cmd_ready cmd C s" "cmd \<noteq> idle_tid" "0 < m" "m \<le> 2147484"
  shows "cmd_obeys cmd C (\<lambda>_. cmd_ready cmd C) s (motorForwardS m s)" "cmd_obeys cmd C (\<lambda>_. cmd_ready cmd C) s (motorBackwardS m s)"
proof -
  have t: "transp (\<lambda>_ _. True)" by (simp add: transp_def)
  show "cmd_obeys cmd C (\<lambda>_. cmd_ready cmd C) s (motorForwardS m s)" unfolding motorForwardS_def
    by (rule obeys_obind[OF t motor_obeys(1)[OF assms]]) (rule cmd_window, assumption, rule motor_obeys(3)[OF _ assms(2-4)])
  show "cmd_obeys cmd C (\<lambda>_. cmd_ready cmd C) s (motorBackwardS m s)" unfolding motorBackwardS_def
    by (rule obeys_obind[OF t motor_obeys(2)[OF assms]]) (rule cmd_window, assumption, rule motor_obeys(4)[OF _ assms(2-4)])
qed

text \<open>A motor command, and a light command.\<close>

lemma motor_command_obeys:
  fixes s :: "'x robot_scheme"
  assumes "cmd_ready cmd C s" "(p, args) \<in> C"
    "\<And>(s :: 'x robot_scheme) m. cmd_ready cmd C s \<Longrightarrow> 0 < m \<Longrightarrow> m \<le> 2147484 \<Longrightarrow> cmd_obeys cmd C (\<lambda>_. cmd_ready cmd C) s (go m s)"
  shows "cmd_obeys cmd C (\<lambda>_. cmd_ready cmd C) s (motor_command args go s)"
proof -
  from assms(1,2) obtain x where x: "cstr (bufs s args) = Some x" "0 \<le> atoi_val x" "atoi_val x \<le> 2147"
    by (fastforce simp: cmd_ready_def robot_run_def run_inv_def readable_def)
  have a: "atoi args s = Done (atoi_val x) s" using x by (intro atoi_str) simp_all
  have t: "transp (\<lambda>_ _. True)" by (simp add: transp_def)
  have mid: "cmd_obeys cmd C (\<lambda>_. cmd_ready cmd C) s1 (Window s1 (\<lambda>s. obind (go (atoi_val x * 1000) s) (\<lambda>_ s. Done M_OK s)))"
    if "cmd_ready cmd C s1" "atoi_val x \<noteq> 0" for s1
  proof (rule cmd_window[OF that(1)])
    fix s' :: "'x robot_scheme" assume "cmd_ready cmd C s'"
    from assms(3)[OF this, of "atoi_val x * 1000"] show "cmd_obeys cmd C (\<lambda>_. cmd_ready cmd C) s' (obind (go (atoi_val x * 1000) s') (\<lambda>_ s. Done M_OK s))"
      using x that(2) by (intro obeys_obind[OF t, where Q = "\<lambda>_. cmd_ready cmd C"]) simp_all
  qed
  have o: "s32 (atoi_val x * 1000) = atoi_val x * 1000" using x by simp
  have "cmd_obeys cmd C (\<lambda>_. cmd_ready cmd C) s' (obind (motorActive s') (\<lambda>active s. if active then Done M_ERROR s
      else if s32 (atoi_val x * 1000) \<noteq> atoi_val x * 1000 then Fault
      else Window s (\<lambda>s. obind (go (atoi_val x * 1000) s) (\<lambda>_ s. Done M_OK s))))"
    if "cmd_ready cmd C s'" "atoi_val x \<noteq> 0" for s'
  proof (rule obeys_obind[OF t, where Q = "\<lambda>_. cmd_ready cmd C"])
    show "cmd_obeys cmd C (\<lambda>_. cmd_ready cmd C) s' (motorActive s')" unfolding motorActive_def
      using that(1) by (auto intro!: cmd_window simp del: obeys.simps(3))
  qed (use mid that(2) o in auto)
  then show ?thesis using assms(1) by (auto simp: motor_command_def a intro!: cmd_window simp del: obeys.simps(3))
qed

lemma light_command_obeys:
  assumes "cmd_ready cmd C s" "(p, args) \<in> C"
  shows "cmd_obeys cmd C (\<lambda>_. cmd_ready cmd C) s (light_command args s)"
proof -
  have toggled: "cmd_ready cmd C (palTogglePad GPIOD pad s)" for pad
  proof -
    let ?s' = "palTogglePad GPIOD pad s"
    have e: "kernel.truncate ?s' = kernel.truncate s" "hal.more ?s' = hal.more s" "i2cs ?s' = i2cs s" "bufs ?s' = bufs s" "pwms ?s' = pwms s"
      by (simp_all add: palTogglePad_def set_gpio_def kernel.truncate_def)
    note K = kernel_same[OF e(1)]
    have R: "robot_run cmd C s" and k: "kinv ?s'" and m: "motor_ok s"
      using assms(1) kinv_same[OF e(1)] by (simp_all add: cmd_ready_def robot_run_def run_inv_def)
    have m': "motor_ok ?s'" by (rule motor_ok_kernel(1)[OF m e(2,5)]) (simp add: K)
    have "robot_run cmd C ?s'"
      by (rule robot_run_untimed[OF R k m' e(2-4)]) (use R in \<open>auto simp: K robot_run_def run_inv_def\<close>)
    then show ?thesis using assms(1) by (simp add: cmd_ready_def rested_def K)
  qed
  from assms obtain x where x: "cstr (bufs s args) = Some x" "0 \<le> atoi_val x" "atoi_val x \<le> 2147"
    by (fastforce simp: cmd_ready_def robot_run_def run_inv_def readable_def)
  have "atoi args s = Done (atoi_val x) s" using x by (intro atoi_str) simp_all
  then show ?thesis using toggled assms(1) by (simp add: light_command_def)
qed

lemma callback_obeys:
  fixes s :: "'x robot_scheme"
  assumes "cmd_ready cmd C s" "cmd \<noteq> idle_tid" "(p, args) \<in> C"
  shows "cmd_obeys cmd C (\<lambda>_. cmd_ready cmd C) s (callback fl fuel p args s)"
proof -
  have r: "readable s (p, args)" "lits_ok s" using assms(1,3) by (auto simp: cmd_ready_def robot_run_def run_inv_def)
  then obtain n where n: "cstr (bufs s p) = Some (chars n)" "n \<notin> {''version'', ''close'', ''sonar'', ''readHead'', ''readSonar''}"
    by (auto simp: readable_def)
  note L = callback_lookup[OF r(2) n(1), of fl fuel args]
  have M: "cmd_obeys cmd C (\<lambda>_. cmd_ready cmd C) s (motor_command args go s)"
    if "\<And>(s :: 'x robot_scheme) m. cmd_ready cmd C s \<Longrightarrow> 0 < m \<Longrightarrow> m \<le> 2147484 \<Longrightarrow> cmd_obeys cmd C (\<lambda>_. cmd_ready cmd C) s (go m s)" for go
    by (rule motor_command_obeys[OF assms(1,3) that])
  consider "n = ''light''" | "n = ''forward''" | "n = ''backward''" | "n = ''turnLeft''" | "n = ''turnRight''"
    | "n \<notin> {''version'', ''light'', ''forward'', ''backward'', ''turnLeft'', ''turnRight'', ''close'', ''sonar'', ''readHead'', ''readSonar''}"
    using n(2) by auto
  then show ?thesis
  proof cases
    case 1
    then show ?thesis unfolding L using light_command_obeys[OF assms(1,3)] by (simp add: commands_def)
  next
    case 2
    then have "callback fl fuel p args s = motor_command args motorForwardS s" unfolding L by (simp add: commands_def)
    then show ?thesis using M[OF both_obeys(1)[OF _ assms(2)]] by simp
  next
    case 3
    then have "callback fl fuel p args s = motor_command args motorBackwardS s" unfolding L by (simp add: commands_def)
    then show ?thesis using M[OF both_obeys(2)[OF _ assms(2)]] by simp
  next
    case 4
    then have "callback fl fuel p args s = motor_command args motorLeftForwardS s" unfolding L by (simp add: commands_def)
    then show ?thesis using M[OF motor_obeys(1)[OF _ assms(2)]] by simp
  next
    case 5
    then have "callback fl fuel p args s = motor_command args motorRightForwardS s" unfolding L by (simp add: commands_def)
    then show ?thesis using M[OF motor_obeys(3)[OF _ assms(2)]] by simp
  next
    case 6
    then show ?thesis using callback_unknown[OF r(2) n(1) 6, of fl fuel args] assms(1) by simp
  qed
qed

lemma commands_obeyed:
  fixes s :: "'x robot_scheme"
  assumes "cmd_ready cmd C s" "cmd \<noteq> idle_tid" "set cs \<subseteq> C"
  shows "cmd_obeys cmd C (\<lambda>_. robot_run cmd C) s (obey_commands fl fuel cs s)"
  using assms(1,3)
proof (induction cs arbitrary: s)
  case (Cons c cs)
  obtain p a where c: "c = (p, a)" by (cases c)
  have t: "transp (\<lambda>_ _. True)" by (simp add: transp_def)
  have "cmd_obeys cmd C (\<lambda>_. robot_run cmd C) s' (obind (callback fl fuel p a s') (\<lambda>_ s. Window s (obey_commands fl fuel cs)))"
    if "cmd_ready cmd C s'" for s' :: "'x robot_scheme"
    by (rule obeys_obind[OF t callback_obeys[OF that assms(2), of p a]])
      (use Cons c in \<open>auto intro!: cmd_window simp del: obeys.simps(3)\<close>)
  then show ?case using Cons.prems(1) by (auto simp: c intro!: cmd_window simp del: obeys.simps(3))
qed (simp add: cmd_ready_def)

section \<open>The system at work\<close>

interpretation robot_system: concurrent robot_isr "robot_run cmd C" "robot_rely cmd" for cmd C
  by unfold_locales (simp, erule robot_rely_trans, assumption, erule isr_obeys, assumption)

text \<open>The threads: the one of the commands, the idle thread, and main, whose loop the others share.\<close>

definition robot_threads :: "('f, 'z) flops_scheme \<Rightarrow> nat \<Rightarrow> nat \<Rightarrow> tid \<Rightarrow> (nat \<times> nat) list \<Rightarrow> tid \<Rightarrow> 'x robot_scheme \<Rightarrow> ('x, unit) rout" where
  "robot_threads fl fuel n cmd cs t =
     (if t = cmd then obey_commands fl fuel cs else if t = idle_tid then idle_loop n else main_loop n)"

lemma main_relied: "cmd_rely a b \<Longrightarrow> \<forall>v. v \<noteq> u \<longrightarrow> robot_rely cmd v a b"
  by (simp add: robot_rely_def)

lemma threads_obey:
  assumes "robot_run cmd (set cs) s" "currp s = u" "cmd \<noteq> idle_tid"
    "u = cmd \<Longrightarrow> rested motor_left_sem motor_vtl s \<and> rested motor_right_sem motor_vtr s"
  shows "obeys (\<lambda>a b. \<forall>v. v \<noteq> u \<longrightarrow> robot_rely cmd v a b) (robot_rely cmd u) (robot_run cmd (set cs)) u
    (\<lambda>_. robot_run cmd (set cs)) s (robot_threads fl fuel n cmd cs u s)"
proof (cases "u = cmd")
  case True
  then have r: "cmd_ready cmd (set cs) s" using assms by (simp add: cmd_ready_def)
  have e: "robot_rely cmd cmd = cmd_rely" by (simp add: robot_rely_def fun_eq_iff)
  show ?thesis unfolding True e using commands_obeyed[OF r assms(3) subset_refl, of fl fuel]
    by (auto simp: robot_threads_def robot_rely_def elim: obeys_with)
next
  case False
  then have "obeys cmd_rely (robot_rely cmd u) (robot_run cmd (set cs)) u (\<lambda>_. robot_run cmd (set cs)) s (robot_threads fl fuel n cmd cs u s)"
    using idle_obeys[OF assms(1,2)] main_obeys[OF assms(1,2)] unfolding robot_threads_def by auto
  then show ?thesis by (rule obeys_with) (rule main_relied)
qed

lemma robot_starts_well:
  assumes "robot_run cmd (set cs) s" "cmd \<noteq> idle_tid" "rested motor_left_sem motor_vtl s" "rested motor_right_sem motor_vtr s"
  shows "well (robot_rely cmd) (robot_run cmd (set cs))
    (Config (currp s) (robot_threads fl fuel n cmd cs (currp s) s) (robot_threads fl fuel n cmd cs))"
proof -
  have "waits_well (robot_rely cmd) (robot_run cmd (set cs)) s u (robot_threads fl fuel n cmd cs u)" for u
    unfolding waits_well_def
  proof (intro allI impI)
    fix s'
    assume s': "robot_run cmd (set cs) s' \<and> currp s' = u \<and> robot_rely cmd u s s'"
    then show "obeys (\<lambda>a b. \<forall>v. v \<noteq> u \<longrightarrow> robot_rely cmd v a b) (robot_rely cmd u) (robot_run cmd (set cs)) u
      (\<lambda>_. robot_run cmd (set cs)) s' (robot_threads fl fuel n cmd cs u s')"
      using assms(3,4) rested_stable by (intro threads_obey[OF _ _ assms(2)]) (auto simp: robot_rely_def sides_def)
  qed
  moreover have "obeys (\<lambda>a b. \<forall>v. v \<noteq> currp s \<longrightarrow> robot_rely cmd v a b) (robot_rely cmd (currp s)) (robot_run cmd (set cs)) (currp s)
      (\<lambda>_. robot_run cmd (set cs)) s (robot_threads fl fuel n cmd cs (currp s) s)"
    by (rule threads_obey[OF assms(1) refl assms(2)]) (use assms in simp)
  ultimately show ?thesis by (auto simp: well_def)
qed

end
