(* ===== verification/Robot_Properties.thy ===== *)
theory Robot_Properties
  imports Demo_Robot Running
begin

text \<open>
  The properties of the robot's services and of the whole system, each over the model's definitions and
  free of the library's locales, with a witness at the state of \<open>Demo_Robot\<close>.
\<close>

section \<open>Ticks\<close>



section \<open>Motors and commands\<close>

text \<open>
  C19: from a command to rest. With both motors at rest, the command forward or backward with a number of
  seconds the timers can hold runs both motors in its direction at the set speed; after that number
  of seconds of ticks both motors stand still and their timers are free, and the invariant of the robot holds.
\<close>

theorem command_moves_then_stops:
  assumes "lits_ok s" "cstr (bufs s p) = Some (chars (if dir = D_FORWARD then ''forward'' else ''backward''))"
    "cstr (bufs s args) = Some x" "0 < atoi_val x" "atoi_val x \<le> 2147"
    "robot_inv s" "vt_ok s" "vt_live s" "s_cnt s motor_left_sem = 1" "s_cnt s motor_right_sem = 1"
    "motor_vtl \<notin> set (vtl s)" "motor_vtr \<notin> set (vtl s)"
  shows "\<exists>s1 s2. quiet (callback fl fuel p args s) = Some (M_OK, s1) \<and>
    map (duty s1) [lp1 s, lp2 s, rp1 s, rp2 s] =
      (let w = motor_width (motor_speed s) s in if dir = D_FORWARD then [0, w, 0, w] else [w, 0, w, 0]) \<and>
    run_ticks (nat (1000 * atoi_val x)) robot_call s1 = Done () s2 \<and> robot_inv s2 \<and>
    map (duty s2) [lp1 s2, lp2 s2, rp1 s2, rp2 s2] = [0, 0, 0, 0] \<and>
    motor_vtl \<notin> set (vtl s2) \<and> motor_vtr \<notin> set (vtl s2)"
  using assms by (rule moves_then_stops)

theorem command_moves_then_stops_witness:
  "\<exists>s1 s2. quiet (callback demo_flops 3 6 4 demo_robot) = Some (M_OK, s1) \<and> map (duty s1) [0, 1, 2, 3] = [0, 10, 0, 10] \<and>
     run_ticks 2000 robot_call s1 = Done () s2 \<and> robot_inv s2 \<and> map (duty s2) [lp1 s2, lp2 s2, rp1 s2, rp2 s2] = [0, 0, 0, 0]"
proof -
  have n: "cstr (bufs demo_robot 6) = Some (chars (if D_FORWARD = D_FORWARD then ''forward'' else ''backward''))"
    "cstr (bufs demo_robot 4) = Some [50]" by (simp_all add: cstr_def chars_def)
  have v: "atoi_val [50 :: byte] = 2" by (simp add: atoi_val_def is_space_def is_digit_def)
  have p: "0 < atoi_val [50 :: byte]" "atoi_val [50 :: byte] \<le> 2147" by (simp_all add: v)
  have r: "s_cnt demo_robot motor_left_sem = 1" "s_cnt demo_robot motor_right_sem = 1"
    "motor_vtl \<notin> set (vtl demo_robot)" "motor_vtr \<notin> set (vtl demo_robot)"
    by (simp_all add: motor_left_sem_def motor_right_sem_def motor_vtl_def motor_vtr_def demo_on_def)
  have "unat (motor_width 5000 demo_robot) = 10" by (subst motor_width_speed) (simp_all add: demo_pwm_def)
  then have "motor_width 5000 demo_robot = 10" by (simp add: word_unat_eq_iff)
  then show ?thesis
    using command_moves_then_stops[OF demo_robot_lits n p demo_robot_inv demo_robot_vt r, of demo_flops 3]
    by (auto simp: v Let_def)
qed

text \<open>
  C20: commands that are not carried out. A name that is none of the ten commands, a movement for no
  seconds, and a movement while both motors are taken are answered with an error, and nothing happens.
\<close>

theorem command_refused:
  assumes "lits_ok s" "cstr (bufs s p) = Some (chars c)" "cstr (bufs s args) = Some x"
    "-2147483648 \<le> atoi_val x" "atoi_val x < 2147483648"
    "c \<notin> {''version'', ''light'', ''forward'', ''backward'', ''turnLeft'', ''turnRight'', ''close'', ''sonar'', ''readHead'', ''readSonar''} \<or>
     c \<in> {''forward'', ''backward'', ''turnLeft'', ''turnRight''} \<and>
       (atoi_val x = 0 \<or> s_cnt s motor_left_sem \<le> 0 \<and> s_cnt s motor_right_sem \<le> 0)"
  shows "quiet (callback fl fuel p args s) = Some (M_ERROR, s)"
  using assms(6)
proof
  assume "c \<notin> {''version'', ''light'', ''forward'', ''backward'', ''turnLeft'', ''turnRight'', ''close'', ''sonar'', ''readHead'', ''readSonar''}"
  from callback_unknown[OF assms(1,2) this, of fl fuel args] show ?thesis by simp
next
  assume "c \<in> {''forward'', ''backward'', ''turnLeft'', ''turnRight''} \<and>
       (atoi_val x = 0 \<or> s_cnt s motor_left_sem \<le> 0 \<and> s_cnt s motor_right_sem \<le> 0)"
  then show ?thesis using callback_refuses[OF assms(1,2) _ assms(3-5), of fl fuel] by blast
qed

theorem command_refused_witness:
  "quiet (callback demo_flops 3 7 4 demo_robot) = Some (M_ERROR, demo_robot) \<and>
   quiet (callback demo_flops 3 6 5 demo_robot) = Some (M_ERROR, demo_robot)"
proof -
  have c: "cstr (bufs demo_robot 6) = Some (chars ''forward'')" "cstr (bufs demo_robot 7) = Some (chars ''dance'')"
    "cstr (bufs demo_robot 4) = Some [50]" "cstr (bufs demo_robot 5) = Some [48]"
    by (simp_all add: cstr_def chars_def)
  have v: "atoi_val [50 :: byte] = 2" "atoi_val [48 :: byte] = 0"
    by (simp_all add: atoi_val_def is_space_def is_digit_def)
  show ?thesis
    using command_refused[OF demo_robot_lits c(2,3), of demo_flops 3] command_refused[OF demo_robot_lits c(1,4), of demo_flops 3]
    by (simp add: v)
qed

text \<open>
  C21: the bridges. Switching a motor on or off never drives both inputs of a bridge, leaves the other
  motor as it is, and keeps the rule that a motor whose semaphore is free stands still; the functions of the
  timers stop their motor whatever state it is in.
\<close>

theorem motor_switching_is_safe:
  assumes "motor_ok s" "kinv s"
  shows "(s_cnt s motor_left_sem = 1 \<longrightarrow> (\<exists>s'. quiet (motor_left_on dir s) = Some ((), s') \<and> motor_ok s' \<and>
      s_cnt s' motor_left_sem = 0 \<and> duty s' (rp1 s) = duty s (rp1 s) \<and> duty s' (rp2 s) = duty s (rp2 s))) \<and>
    (s_cnt s motor_right_sem = 1 \<longrightarrow> (\<exists>s'. quiet (motor_right_on dir s) = Some ((), s') \<and> motor_ok s' \<and>
      s_cnt s' motor_right_sem = 0 \<and> duty s' (lp1 s) = duty s (lp1 s) \<and> duty s' (lp2 s) = duty s (lp2 s))) \<and>
    (\<exists>s'. motor_left_off s = Done () s' \<and> motor_ok s' \<and> kinv s' \<and> duty s' (lp1 s) = 0 \<and> duty s' (lp2 s) = 0 \<and>
      duty s' (rp1 s) = duty s (rp1 s) \<and> duty s' (rp2 s) = duty s (rp2 s)) \<and>
    (\<exists>s'. motor_right_off s = Done () s' \<and> motor_ok s' \<and> kinv s' \<and> duty s' (rp1 s) = 0 \<and> duty s' (rp2 s) = 0 \<and>
      duty s' (lp1 s) = duty s (lp1 s) \<and> duty s' (lp2 s) = duty s (lp2 s))"
proof (intro conjI impI)
  show "\<exists>s'. quiet (motor_left_on dir s) = Some ((), s') \<and> motor_ok s' \<and> s_cnt s' motor_left_sem = 0 \<and>
      duty s' (rp1 s) = duty s (rp1 s) \<and> duty s' (rp2 s) = duty s (rp2 s)" if "s_cnt s motor_left_sem = 1"
    using left.turned_on[OF assms(1) that, of dir] by (auto simp: set_cnt_def)
  show "\<exists>s'. quiet (motor_right_on dir s) = Some ((), s') \<and> motor_ok s' \<and> s_cnt s' motor_right_sem = 0 \<and>
      duty s' (lp1 s) = duty s (lp1 s) \<and> duty s' (lp2 s) = duty s (lp2 s)" if "s_cnt s motor_right_sem = 1"
    using right.turned_on[OF assms(1) that, of dir] by (auto simp: set_cnt_def)
qed (use left.turned_off[OF assms] right.turned_off[OF assms] in blast)+

theorem motor_switching_is_safe_witness:
  "motor_ok demo_robot \<and> (\<exists>s'. quiet (motor_left_on D_BACKWARD demo_robot) = Some ((), s') \<and> motor_ok s')"
proof -
  have "s_cnt demo_robot motor_left_sem = 1" by (simp add: motor_left_sem_def demo_on_def)
  then show ?thesis using motor_switching_is_safe[OF demo_robot_motor demo_robot_kinv, of D_BACKWARD] demo_robot_motor
    by blast
qed

section \<open>Wifly\<close>

text \<open>
  C22: the indices of the wifly thread. Whatever bytes, messages and events arrive and whatever other
  threads do meanwhile, at the start of every turn the two indices are inside their arrays, so the
  next byte is stored inside them.
\<close>

theorem wifly_indices_in_range:
  assumes "in_range l"
  shows "returns in_range (wifly_turns n fuel cb l s) \<and>
    (length (bufs s id_buf) = 16 \<longrightarrow> length (bufs s args_buf) = 1024 \<longrightarrow> wifly_put c l s \<noteq> None)"
  using turns_range[OF assms] put_in_bounds[OF assms] by blast

theorem wifly_indices_in_range_witness:
  "in_range fresh \<and> returns in_range (wifly_turns 5 7 (\<lambda>_ _. Done M_OK) fresh demo_robot) \<and>
   wifly_put 65 fresh demo_robot \<noteq> None"
  using wifly_indices_in_range[OF in_range_fresh, of 5 7 "\<lambda>_ _. Done M_OK" demo_robot 65] in_range_fresh by simp



section \<open>Sonar\<close>

text \<open>
  C24: a measurement. While the sonar runs, each interrupt of the DMA stream takes the half of the buffer
  that is complete: the distance is the sum of its samples divided by eight, the LED shows whether it is
  below the limit, the conversion goes on, and the kernel is not touched.
\<close>

theorem sonar_measures:
  assumes "sonar_running s" "flags = STM32_DMA_ISR_HTIF \<or> flags = STM32_DMA_ISR_TCIF"
  shows "\<exists>s'. adc_lld_serve_rx_interrupt adc_end_fn (adc_err_fn fuel) ADCD1 flags s = Done () s' \<and>
    Tdistance s' = sum_list (map uint (take 4 (drop (if flags = STM32_DMA_ISR_HTIF then 0 else 4) (adbufs s sampels)))) div 8 \<and>
    bit (ODR (gpios s' GPIOD)) GPIOD_LED3 = (Tdistance s' < 40) \<and> adcs s' = adcs s \<and>
    kernel.truncate s' = kernel.truncate s"
  using assms by (rule sonar_interrupt)

theorem sonar_measures_witness:
  "sonar_running demo_robot \<and>
   (\<exists>s'. adc_lld_serve_rx_interrupt adc_end_fn (adc_err_fn 5) ADCD1 STM32_DMA_ISR_HTIF demo_robot = Done () s' \<and>
      Tdistance s' = 12 \<and> bit (ODR (gpios s' GPIOD)) GPIOD_LED3)"
proof -
  have r: "sonar_running demo_robot" by (simp add: sonar_running_def demo_adc_def ADC_BUFFER_DEPTH_def)
  from sonar_measures[OF r disjI1[OF refl], of 5] r show ?thesis by auto
qed

text \<open>
  A number below ten thousand that is written as text for the wifly, in four digits, is read back by
  atoi as it was.
\<close>

theorem number_text_round_trip:
  assumes "0 \<le> v" "v < 10000" "length (bufs s itoa_string) = 7"
  shows "\<exists>s'. itoa v s = Done itoa_string s' \<and> atoi itoa_string s' = Done v s'"
  using assms by (rule itoa_atoi)

theorem number_text_round_trip_witness:
  "\<exists>s'. itoa 1807 demo_robot = Done itoa_string s' \<and> atoi itoa_string s' = Done 1807 s'"
  by (rule number_text_round_trip) simp_all

section \<open>The robot at work\<close>




end
