(* ===== verification/Printf.thy ===== *)
theory Printf
  imports CString "HOL-Library.Monad_Syntax"
begin

text \<open>
  The formatted output of \<^verbatim>\<open>os/various/chprintf.c\<close> on a stream whose \<open>put\<close> is a parameter. The format is
  the array of its characters with the zero at its end; reading past it, an argument of another type and a
  number that is no \<open>int\<close> are faults. \<open>int\<close> and \<open>long\<close> are both 32 bits wide, so the long modifier only
  takes a character of the format, and \<open>char\<close> is unsigned.
\<close>

section \<open>Numbers\<close>

definition MAX_FILLER :: nat where "MAX_FILLER = 11"
definition FLOAT_PRECISION :: "32 word" where "FLOAT_PRECISION = 100000"

definition digit_char :: "32 word \<Rightarrow> byte" where
  "digit_char d = (let i = ucast d + 48 in if i > 57 then i + 7 else i)"

text \<open>
  The loop from the last digit to the first, in unsigned arithmetic as the radix is unsigned; it goes on
  while there is something left of \<open>ll\<close>.
\<close>

function digits_loop :: "32 word \<Rightarrow> 32 word \<Rightarrow> 32 word \<Rightarrow> byte list \<Rightarrow> byte list option" where
  "digits_loop radix l ll q =
     (if radix < 2 then None
      else let q' = digit_char (l mod radix) # q; l' = l div radix; ll' = ll div radix
           in if ll' \<noteq> 0 then digits_loop radix l' ll' q' else Some q')"
  by pat_completeness auto

termination
proof (relation "measure (\<lambda>(radix, l, ll, q). unat ll)")
  fix radix l ll :: "32 word" and q q' :: "byte list" and l' ll' :: "32 word"
  assume "\<not> radix < 2" "ll' = ll div radix" "ll' \<noteq> 0"
  then have "1 < unat radix" "0 < unat ll" by (auto simp: word_less_nat_alt unat_gt_0)
  then have "unat ll div unat radix < unat ll" by (simp add: div_less_dividend)
  then show "((radix, l', ll', q'), radix, l, ll, q) \<in> measure (\<lambda>(radix, l, ll, q). unat ll)"
    using \<open>ll' = ll div radix\<close> by (simp add: unat_div)
qed simp

declare digits_loop.simps [simp del]

definition long_to_string_with_divisor :: "32 word \<Rightarrow> 32 word \<Rightarrow> 32 word \<Rightarrow> byte list option" where
  "long_to_string_with_divisor num radix divisor = do {
     ds \<leftarrow> digits_loop radix num (if divisor = 0 then num else divisor) [];
     if length ds \<le> MAX_FILLER then Some ds else None }"

definition ltoa :: "32 word \<Rightarrow> 32 word \<Rightarrow> byte list option" where
  "ltoa num radix = long_to_string_with_divisor num radix 0"

text \<open>The floating point operations are a parameter; a conversion to \<open>long\<close> that is out of range is undefined.\<close>

record 'd pflops =
  d_float :: "'d \<Rightarrow> 'd"
  d_negative :: "'d \<Rightarrow> bool"
  d_uminus :: "'d \<Rightarrow> 'd"
  d_to_long :: "'d \<Rightarrow> int option"
  d_of_long :: "int \<Rightarrow> 'd"
  d_sub :: "'d \<Rightarrow> 'd \<Rightarrow> 'd"
  d_mul :: "'d \<Rightarrow> 'd \<Rightarrow> 'd"

definition ftoa :: "'d pflops \<Rightarrow> 'd \<Rightarrow> byte list option" where
  "ftoa fl num = do {
     l \<leftarrow> d_to_long fl num;
     p \<leftarrow> long_to_string_with_divisor (word_of_int l) 10 0;
     r \<leftarrow> d_to_long fl (d_mul fl (d_sub fl num (d_of_long fl l)) (d_of_long fl (uint FLOAT_PRECISION)));
     q \<leftarrow> long_to_string_with_divisor (word_of_int r) 10 (FLOAT_PRECISION div 10);
     Some (p @ of_char (CHR ''.'') # q) }"

section \<open>One conversion\<close>

datatype 'd parg = A_int "32 word" | A_str "byte list option" | A_double 'd

text \<open>A number in the format, or a star and the next argument, cut down to a character.\<close>

fun pf_number :: "int \<Rightarrow> byte list \<Rightarrow> 'd parg list \<Rightarrow> (int \<times> byte \<times> byte list \<times> 'd parg list) option" where
  "pf_number w [] as = None"
| "pf_number w (c # f) as =
     (if is_digit c then
        (let w' = w * 10 + (uint c - 48) in if s32 w' = w' then pf_number w' f as else None)
      else if c = of_char (CHR ''*'') then
        (case as of
           A_int x # as' \<Rightarrow> (let w' = w * 10 + uint (ucast x :: byte) in if s32 w' = w' then pf_number w' f as' else None)
         | _ \<Rightarrow> None)
      else Some (w, c, f, as))"

definition pf_string :: "int \<Rightarrow> byte list option \<Rightarrow> byte list" where
  "pf_string precision p =
     (let s = (case p of None \<Rightarrow> chars ''(null)'' | Some x \<Rightarrow> x);
          n = (if precision = 0 then 32767 else precision)
      in take (nat n) s)"

definition pf_signed :: "32 word \<Rightarrow> byte list option" where
  "pf_signed l =
     (if sint l < 0 then
        (if s32 (- sint l) = - sint l then map_option (\<lambda>ds. of_char (CHR ''-'') # ds) (ltoa (- l) 10) else None)
      else ltoa l 10)"

definition pf_float :: "'d pflops \<Rightarrow> 'd \<Rightarrow> byte list option" where
  "pf_float fl d =
     (let f = d_float fl d in
      if d_negative fl f then map_option (\<lambda>ds. of_char (CHR ''-'') # ds) (ftoa fl (d_uminus fl f)) else ftoa fl f)"

definition pf_radix :: "byte \<Rightarrow> 32 word option" where
  "pf_radix c =
     (if c \<in> set (chars ''Xx'') then Some 16 else if c \<in> set (chars ''Uu'') then Some 10
      else if c \<in> set (chars ''Oo'') then Some 8 else None)"

text \<open>The text of a conversion, the filler from there on, and the arguments that are left.\<close>

definition pf_convert :: "'d pflops \<Rightarrow> byte \<Rightarrow> byte \<Rightarrow> int \<Rightarrow> 'd parg list \<Rightarrow> (byte list \<times> byte \<times> 'd parg list) option" where
  "pf_convert fl c filler precision as =
     (if c = of_char (CHR ''c'') then (case as of A_int x # as' \<Rightarrow> Some ([ucast x], of_char (CHR '' ''), as') | _ \<Rightarrow> None)
      else if c = of_char (CHR ''s'') then
        (case as of A_str p # as' \<Rightarrow> Some (pf_string precision p, of_char (CHR '' ''), as') | _ \<Rightarrow> None)
      else if c \<in> set (chars ''Dd'') then
        (case as of A_int x # as' \<Rightarrow> map_option (\<lambda>s. (s, filler, as')) (pf_signed x) | _ \<Rightarrow> None)
      else if c = of_char (CHR ''f'') then
        (case as of A_double d # as' \<Rightarrow> map_option (\<lambda>s. (s, filler, as')) (pf_float fl d) | _ \<Rightarrow> None)
      else case pf_radix c of
        Some r \<Rightarrow> (case as of A_int x # as' \<Rightarrow> map_option (\<lambda>s. (s, filler, as')) (ltoa x r) | _ \<Rightarrow> None)
      | None \<Rightarrow> Some ([c], filler, as))"

text \<open>
  The text in its field: filled up on the left, after the sign if with zeros, or on the right.
\<close>

definition pf_layout :: "int \<Rightarrow> bool \<Rightarrow> byte \<Rightarrow> byte list \<Rightarrow> byte list" where
  "pf_layout width left_align filler s =
     (let w = max 0 (width - int (length s)); fill = replicate (nat w) filler in
      if left_align then s @ fill
      else if 0 < w then
        (if s \<noteq> [] \<and> hd s = of_char (CHR ''-'') \<and> filler = of_char (CHR ''0'') then hd s # fill @ tl s else fill @ s)
      else s)"

text \<open>What follows a percent sign, up to its conversion character.\<close>

definition pf_flag :: "char \<Rightarrow> byte list \<Rightarrow> (bool \<times> byte list) option" where
  "pf_flag x f = (case f of [] \<Rightarrow> None | c # f' \<Rightarrow> Some (if c = of_char x then (True, f') else (False, f)))"

definition pf_long :: "byte \<Rightarrow> byte list \<Rightarrow> (byte \<times> byte list) option" where
  "pf_long c f =
     (if c \<in> set (chars ''lL'') then (case f of [] \<Rightarrow> None | c' # f' \<Rightarrow> Some (if c' \<noteq> 0 then (c', f') else (c, f)))
      else Some (c, f))"

definition pf_item :: "'d pflops \<Rightarrow> byte list \<Rightarrow> 'd parg list \<Rightarrow> (byte list \<times> byte list \<times> 'd parg list) option" where
  "pf_item fl f as = do {
     (left_align, f) \<leftarrow> pf_flag (CHR ''-'') f;
     (zeros, f) \<leftarrow> pf_flag (CHR ''.'') f;
     (width, c, f, as) \<leftarrow> pf_number 0 f as;
     (precision, c, f, as) \<leftarrow> (if c = of_char (CHR ''.'') then pf_number 0 f as else Some (0, c, f, as));
     (c, f) \<leftarrow> pf_long c f;
     (s, filler, as) \<leftarrow> pf_convert fl c (if zeros then of_char (CHR ''0'') else of_char (CHR '' '')) precision as;
     Some (pf_layout width left_align filler s, f, as) }"

section \<open>The format\<close>

fun put_bytes :: "(byte \<Rightarrow> 's \<Rightarrow> ('s, unit) outcome) \<Rightarrow> byte list \<Rightarrow> 's \<Rightarrow> ('s, unit) outcome" where
  "put_bytes put [] s = Done () s"
| "put_bytes put (b # bs) s = obind (put b s) (\<lambda>_. put_bytes put bs)"

lemma pf_number_shorter: "pf_number w f as = Some (w', c, f', as') \<Longrightarrow> length f' < length f"
  by (induction w f as rule: pf_number.induct)
    (auto simp: Let_def less_SucI split: if_splits list.splits parg.splits)

lemma pf_flag_shorter: "pf_flag x f = Some (z, f') \<Longrightarrow> length f' \<le> length f"
  by (auto simp: pf_flag_def split: list.splits if_splits)

lemma pf_long_shorter: "pf_long c f = Some (c', f') \<Longrightarrow> length f' \<le> length f"
  unfolding pf_long_def by (auto split: list.splits if_splits)

lemma pf_item_shorter:
  assumes "pf_item fl f as = Some (out, f', as')"
  shows "length f' < length f"
proof -
  from assms obtain l f1 z f2 w c f3 as1 pr c' f4 as2 c'' where
    "pf_flag (CHR ''-'') f = Some (l, f1)" "pf_flag (CHR ''.'') f1 = Some (z, f2)" "pf_number 0 f2 as = Some (w, c, f3, as1)"
    and d: "(if c = of_char (CHR ''.'') then pf_number 0 f3 as1 else Some (0, c, f3, as1)) = Some (pr, c', f4, as2)"
    and "pf_long c' f4 = Some (c'', f')"
    unfolding pf_item_def bind_eq_Some_conv split_paired_Ex prod.case by blast
  moreover have "length f4 \<le> length f3" using d pf_number_shorter[of 0 f3 as1] by (auto split: if_splits)
  ultimately show ?thesis by (force dest!: pf_flag_shorter pf_number_shorter pf_long_shorter)
qed

function chprintf :: "'d pflops \<Rightarrow> (byte \<Rightarrow> 's \<Rightarrow> ('s, unit) outcome) \<Rightarrow> byte list \<Rightarrow> 'd parg list \<Rightarrow> 's \<Rightarrow> ('s, unit) outcome" where
  "chprintf fl put fmt as s =
     (case fmt of
        [] \<Rightarrow> Fault
      | c # f \<Rightarrow>
          if c = 0 then Done () s
          else if c \<noteq> of_char (CHR ''%'') then obind (put c s) (\<lambda>_. chprintf fl put f as)
          else case pf_item fl f as of
            None \<Rightarrow> Fault
          | Some (out, f', as') \<Rightarrow> obind (put_bytes put out s) (\<lambda>_. chprintf fl put f' as'))"
  by pat_completeness auto

termination
proof (relation "measure (\<lambda>(fl, put, fmt, as, s). length fmt)")
  fix fl :: "'d pflops" and put :: "byte \<Rightarrow> 's \<Rightarrow> ('s, unit) outcome" and f f' :: "byte list" and as as' :: "'d parg list"
    and s s' :: 's and fmt c x out y
  assume "fmt = c # f" "pf_item fl f as = Some x" "(out, y) = x" "(f', as') = y"
  then show "((fl, put, f', as', s'), fl, put, fmt, as, s) \<in> measure (\<lambda>(fl, put, fmt, as, s). length fmt)"
    using pf_item_shorter[of fl f as out f' as'] by auto
qed auto

declare chprintf.simps [simp del]

section \<open>Digits\<close>

text \<open>The number that a string of digits stands for.\<close>

definition char_digit :: "byte \<Rightarrow> int" where
  "char_digit b = (if b \<le> 57 then uint b - 48 else uint b - 55)"

definition radix_val :: "int \<Rightarrow> int \<Rightarrow> byte list \<Rightarrow> int" where
  "radix_val r = foldl (\<lambda>v b. v * r + char_digit b)"

lemma char_digit:
  assumes "d < 16"
  shows "char_digit (digit_char d) = uint d" "d < 10 \<Longrightarrow> is_digit (digit_char d)" "digit_char d \<notin> {0, 32, 45, 43}"
proof -
  have "d \<in> set (map of_nat [0..<16])"
    using assms by (intro image_eqI[of _ _ "unat d"] | simp add: word_less_nat_alt)+
  then have "d \<in> {0, 1, 2, 3, 4, 5, 6, 7, 8, 9, 10, 11, 12, 13, 14, 15}" by (simp add: upt_rec)
  then show "char_digit (digit_char d) = uint d" "d < 10 \<Longrightarrow> is_digit (digit_char d)" "digit_char d \<notin> {0, 32, 45, 43}"
    by (auto simp: char_digit_def digit_char_def Let_def is_digit_def)
qed

lemma digits_loop_ok:
  assumes "2 \<le> radix" "radix \<le> 16"
  shows "\<exists>ds. digits_loop radix l l q = Some (ds @ q) \<and> ds \<noteq> [] \<and> (\<forall>b\<in>set ds. \<exists>d<radix. b = digit_char d) \<and>
    (\<forall>v. foldl (\<lambda>v b. v * uint radix + char_digit b) v ds = v * uint radix ^ length ds + uint l) \<and>
    (\<forall>k>0. uint l < uint radix ^ k \<longrightarrow> length ds \<le> k)"
proof (induction "unat l" arbitrary: l q rule: less_induct)
  case less
  let ?m = "l mod radix" and ?d = "l div radix"
  have "2 \<le> uint radix" using assms(1) by (simp add: word_le_def)
  then have r: "\<not> radix < 2" "1 < uint radix" "radix \<noteq> 0" by (auto simp: word_less_def)
  have "?m < radix" using r(3) by (simp add: word_mod_less_divisor word_gt_0)
  moreover from this have "?m < 16" using assms(2) by (rule less_le_trans)
  ultimately have m: "?m < radix" "?m < 16" by blast+
  have e: "uint l = uint ?d * uint radix + uint ?m" by (simp add: uint_div uint_mod)
  show ?case
  proof (cases "?d = 0")
    case True
    then have "digits_loop radix l l q = Some ([digit_char ?m] @ q)" using r by (subst digits_loop.simps) (simp add: Let_def)
    then show ?thesis using m e True char_digit(1)[OF m(2)] by (intro exI[of _ "[digit_char ?m]"]) auto
  next
    case False
    have "0 < unat l" using False by (auto simp: unat_gt_0)
    moreover have "1 < unat radix" using r(1) by (simp add: word_less_nat_alt)
    ultimately have "unat ?d < unat l" unfolding unat_div by (rule div_less_dividend[rotated])
    from less(1)[OF this, of "digit_char ?m # q"] obtain ds where
      ds: "digits_loop radix ?d ?d (digit_char ?m # q) = Some (ds @ digit_char ?m # q)" "ds \<noteq> []"
        "\<forall>b\<in>set ds. \<exists>d<radix. b = digit_char d"
        "\<forall>v. foldl (\<lambda>v b. v * uint radix + char_digit b) v ds = v * uint radix ^ length ds + uint ?d"
        "\<forall>k>0. uint ?d < uint radix ^ k \<longrightarrow> length ds \<le> k" by blast
    have "digits_loop radix l l q = Some ((ds @ [digit_char ?m]) @ q)"
      using r ds(1) False by (subst digits_loop.simps) (simp add: Let_def)
    moreover have "foldl (\<lambda>v b. v * uint radix + char_digit b) v (ds @ [digit_char ?m]) =
        v * uint radix ^ length (ds @ [digit_char ?m]) + uint l" for v
      using ds(4) char_digit(1)[OF m(2)] e by (simp add: algebra_simps)
    moreover have "length (ds @ [digit_char ?m]) \<le> k" if k: "0 < k" "uint l < uint radix ^ k" for k
    proof (cases "k = 1")
      case True
      then have "l < radix" using k by (simp add: word_less_def)
      then have "?d = 0" by (simp add: word_arith_nat_div word_less_nat_alt)
      then show ?thesis using False by simp
    next
      case False
      then obtain j where j: "k = Suc j" "0 < j" using k(1) by (cases k) auto
      have "uint ?d * uint radix \<le> uint l" using uint_ge_0[of ?m] unfolding e by linarith
      also have "\<dots> < uint radix ^ j * uint radix" using k(2) by (simp add: j mult.commute)
      finally have "uint ?d * uint radix < uint radix ^ j * uint radix" .
      then have "uint ?d < uint radix ^ j" using r(2) by (simp add: mult_less_cancel_right)
      then show ?thesis using ds(5) j by simp
    qed
    ultimately show ?thesis using ds(2,3) m(1) by (intro exI[of _ "ds @ [digit_char ?m]"]) auto
  qed
qed

text \<open>Eleven places are enough for a number of 32 bits from the radix eight on.\<close>

lemma ltoa_ok:
  assumes "8 \<le> radix" "radix \<le> 16"
  shows "\<exists>ds. ltoa l radix = Some ds \<and> ds \<noteq> [] \<and> length ds \<le> 11 \<and> (\<forall>b\<in>set ds. \<exists>d<radix. b = digit_char d) \<and>
    (\<forall>v. foldl (\<lambda>v b. v * uint radix + char_digit b) v ds = v * uint radix ^ length ds + uint l)"
proof -
  have "2 \<le> radix" using assms(1) by (simp add: word_le_def)
  from digits_loop_ok[OF this assms(2), of l "[]"] obtain ds where
    ds: "digits_loop radix l l [] = Some ds" "ds \<noteq> []" "\<forall>b\<in>set ds. \<exists>d<radix. b = digit_char d"
      "\<forall>v. foldl (\<lambda>v b. v * uint radix + char_digit b) v ds = v * uint radix ^ length ds + uint l"
      "\<forall>k>0. uint l < uint radix ^ k \<longrightarrow> length ds \<le> k" by auto
  have "uint l < 2 ^ 32" using uint_bounded[of l] by simp
  also have "(2 :: int) ^ 32 \<le> 8 ^ 11" by simp
  also have "(8 :: int) ^ 11 \<le> uint radix ^ 11" using assms(1) by (intro power_mono) (simp_all add: word_le_def)
  finally have "length ds \<le> 11" using ds(5) by simp
  then show ?thesis using ds by (auto simp: ltoa_def long_to_string_with_divisor_def MAX_FILLER_def)
qed

section \<open>Printed and read back\<close>

lemma digits_val_digits:
  assumes "\<forall>b\<in>set ds. is_digit b"
  shows "digits_val (ds @ rest) v = digits_val rest (foldl (\<lambda>v b. v * 10 + char_digit b) v ds)"
  using assms by (induction ds arbitrary: v) (auto simp: char_digit_def is_digit_def algebra_simps)

lemma digits_val_zeros: "digits_val (replicate n 48 @ ds) 0 = digits_val ds 0"
  by (induction n) (simp_all add: is_digit_def)

lemma digits_val_stop: "rest = [] \<or> \<not> is_digit (hd rest) \<Longrightarrow> digits_val rest v = v"
  by (cases rest) auto

text \<open>The text of a signed number: its digits after the sign.\<close>

lemma pf_signed_ok:
  assumes "sint x \<noteq> -2147483648"
  shows "\<exists>sg ds. pf_signed x = Some (sg @ ds) \<and> sg \<in> {[], [45]} \<and> ds \<noteq> [] \<and> length ds \<le> 11 \<and> (\<forall>b\<in>set ds. is_digit b) \<and>
    (\<forall>n rest. rest = [] \<or> \<not> is_digit (hd rest) \<longrightarrow>
       (if sg = [] then digits_val (replicate n 48 @ ds @ rest) 0 else - digits_val (replicate n 48 @ ds @ rest) 0) = sint x)"
proof -
  have range: "-2147483648 \<le> sint x" "sint x < 2147483648" using sint_range_size[of x] by (simp_all add: word_size)
  let ?l = "if sint x < 0 then - x else x" and ?sg = "if sint x < 0 then [45] else []"
  from ltoa_ok[of 10 ?l] obtain ds where
    ds: "ltoa ?l 10 = Some ds" "ds \<noteq> []" "length ds \<le> 11" "\<forall>b\<in>set ds. \<exists>d<10. b = digit_char d"
      "\<forall>v. foldl (\<lambda>v b. v * 10 + char_digit b) v ds = v * 10 ^ length ds + uint ?l" by auto
  have dg: "\<forall>b\<in>set ds. is_digit b"
  proof
    fix b assume "b \<in> set ds"
    then obtain d where d: "d < 10" "b = digit_char d" using ds(4) by blast
    moreover have "d < 16" using d(1) by (rule less_trans) simp
    ultimately show "is_digit b" using char_digit(2) by simp
  qed
  have u: "uint ?l = \<bar>sint x\<bar>"
  proof (cases "sint x < 0")
    case True
    have "uint (- x) = (- sint x) mod 2 ^ 32" 
      using uint_word_of_int[of "- sint x", where 'a = 32] by (simp only: of_int_minus of_int_sint) simp
    then show ?thesis using True range assms by simp
  next
    case False
    then have "uint x = sint x mod 2 ^ 32" using uint_word_of_int[of "sint x", where 'a = 32] by simp
    then show ?thesis using False range by simp
  qed
  have "pf_signed x = Some (?sg @ ds)" using ds(1) range assms by (simp add: pf_signed_def split: if_splits)
  moreover have "digits_val (replicate n 48 @ ds @ rest) 0 = \<bar>sint x\<bar>" if "rest = [] \<or> \<not> is_digit (hd rest)" for n rest
    using ds(5) u by (simp only: digits_val_zeros digits_val_digits[OF dg] digits_val_stop[OF that])
  moreover from this[of "[]"] have "digits_val (replicate n 48 @ ds) 0 = \<bar>sint x\<bar>" for n by simp
  ultimately show ?thesis using ds(2,3) dg by - (rule exI[of _ ?sg], rule exI[of _ ds], auto)
qed

text \<open>In a field of any width, filled up with spaces on either side, or with zeros after the sign.\<close>

lemma is_digit_not_space: "is_digit b \<Longrightarrow> \<not> is_space b" "\<not> is_space 45" "is_space 32" "\<not> is_digit 32" "\<not> is_digit 45" "is_digit 48"
proof -
  show "\<not> is_space b" if "is_digit b"
  proof
    assume "is_space b"
    then have "b = 32 \<or> b \<le> 13" "48 \<le> b" using that by (auto simp: is_digit_def is_space_def)
    then show False using order_trans[of 48 b 13] by auto
  qed
qed (simp_all add: is_digit_def is_space_def)

lemma atoi_signed:
  assumes "sg \<in> {[], [45 :: byte]}" "ds \<noteq> []" "\<forall>b\<in>set ds. is_digit b"
  shows "atoi_val (replicate m 32 @ sg @ replicate n 48 @ ds @ rest) =
    (if sg = [] then digits_val (replicate n 48 @ ds @ rest) 0 else - digits_val (replicate n 48 @ ds @ rest) 0)"
proof -
  obtain d ds' where d: "ds = d # ds'" "is_digit d" using assms(2,3) by (cases ds) auto
  have "dropWhile is_space (replicate m 32 @ z) = dropWhile is_space z" for z
    by (induction m) (simp_all add: is_digit_not_space)
  moreover have "dropWhile is_space (sg @ replicate n 48 @ ds @ rest) = sg @ replicate n 48 @ ds @ rest"
    using assms(1) d by (cases n) (auto simp: is_digit_not_space)
  moreover have "\<exists>b bs. replicate n 48 @ ds @ rest = b # bs \<and> is_digit b" using d by (cases n) (auto simp: is_digit_not_space)
  ultimately show ?thesis using assms(1) by (auto simp: atoi_val_def is_digit_def)
qed

lemma printed_field:
  assumes "sint x \<noteq> -2147483648"
  shows "\<exists>t. pf_signed x = Some t \<and> length t \<le> 12 \<and>
    atoi_val (pf_layout w left 32 t) = sint x \<and> atoi_val (pf_layout w False 48 t) = sint x"
proof -
  from pf_signed_ok[OF assms] obtain sg ds where
    t: "pf_signed x = Some (sg @ ds)" "sg \<in> {[], [45]}" "ds \<noteq> []" "length ds \<le> 11" "\<forall>b\<in>set ds. is_digit b"
    and val: "\<And>n rest. rest = [] \<or> \<not> is_digit (hd rest) \<Longrightarrow>
       (if sg = [] then digits_val (replicate n 48 @ ds @ rest) 0 else - digits_val (replicate n 48 @ ds @ rest) 0) = sint x"
    by blast
  note A = atoi_signed[OF t(2,3,5)]
  let ?w = "nat (max 0 (w - int (length (sg @ ds))))"
  have l1: "pf_layout w True 32 (sg @ ds) = sg @ ds @ replicate ?w 32" by (simp add: pf_layout_def Let_def)
  have l2: "pf_layout w False 32 (sg @ ds) = replicate ?w 32 @ sg @ ds" by (simp add: pf_layout_def Let_def)
  have l3: "pf_layout w False 48 (sg @ ds) = sg @ replicate ?w 48 @ ds"
  proof -
    have "hd (sg @ ds) = 45 \<longleftrightarrow> sg \<noteq> []" using t(2,3,5) is_digit_not_space(5) by (cases ds) auto
    then show ?thesis using t(2) by (auto simp: pf_layout_def Let_def)
  qed
  have "atoi_val (pf_layout w True 32 (sg @ ds)) = sint x" unfolding l1
    using A[of 0 0 "replicate ?w 32"] val[of "replicate ?w 32" 0] by (cases ?w) (simp_all add: is_digit_not_space)
  moreover have "atoi_val (pf_layout w False 32 (sg @ ds)) = sint x" unfolding l2
    using A[of ?w 0 "[]"] val[of "[]" 0] by simp
  moreover have "atoi_val (pf_layout w False 48 (sg @ ds)) = sint x" unfolding l3
    using A[of 0 ?w "[]"] val[of "[]" ?w] by simp
  ultimately show ?thesis using t(1,2,4) by (cases left) auto
qed

lemma put_bytes_end: "obind (put_bytes put x s) (\<lambda>_. chprintf fl put [0] as) = put_bytes put x s"
proof -
  have "chprintf fl put [0] as = Done ()" by (rule ext) (subst chprintf.simps, simp)
  then show ?thesis by simp
qed

lemma s32_byte: "s32 (uint (b :: byte)) = uint b"
proof (rule s32_id)
  have "0 \<le> uint b" by (rule uint_ge_0)
  then show "-2147483648 \<le> uint b" by linarith
qed (use uint_bounded[of b] in simp)

lemma chprintf_decimal:
  assumes "pf_signed x = Some t"
  shows "chprintf fl put (chars ''%*d'' @ [0]) [A_int w, A_int x] s = put_bytes put (pf_layout (uint (ucast w :: byte)) False 32 t) s"
    "chprintf fl put (chars ''%-*d'' @ [0]) [A_int w, A_int x] s = put_bytes put (pf_layout (uint (ucast w :: byte)) True 32 t) s"
    "chprintf fl put (chars ''%.*d'' @ [0]) [A_int w, A_int x] s = put_bytes put (pf_layout (uint (ucast w :: byte)) False 48 t) s"
proof -
  have "pf_item fl (chars ''*d'' @ [0]) [A_int w, A_int x] = Some (pf_layout (uint (ucast w :: byte)) False 32 t, [0], [])"
    "pf_item fl (chars ''-*d'' @ [0]) [A_int w, A_int x] = Some (pf_layout (uint (ucast w :: byte)) True 32 t, [0], [])"
    "pf_item fl (chars ''.*d'' @ [0]) [A_int w, A_int x] = Some (pf_layout (uint (ucast w :: byte)) False 48 t, [0], [])"
    using assms s32_byte[of "ucast w"]
    by (simp_all add: pf_item_def pf_flag_def pf_long_def pf_convert_def pf_number.simps is_digit_def chars_def Let_def)
  note I = this[unfolded chars_def, simplified]
  show "chprintf fl put (chars ''%*d'' @ [0]) [A_int w, A_int x] s = put_bytes put (pf_layout (uint (ucast w :: byte)) False 32 t) s"
    "chprintf fl put (chars ''%-*d'' @ [0]) [A_int w, A_int x] s = put_bytes put (pf_layout (uint (ucast w :: byte)) True 32 t) s"
    "chprintf fl put (chars ''%.*d'' @ [0]) [A_int w, A_int x] s = put_bytes put (pf_layout (uint (ucast w :: byte)) False 48 t) s"
    by (subst chprintf.simps, simp add: chars_def I put_bytes_end)+
qed

lemma pf_layout_length: "int (length (pf_layout w left f s)) = max w (int (length s))"
  by (cases s) (auto simp: pf_layout_def Let_def)

end
