(* ===== verification/Pwm_Irq.thy ===== *)
theory Pwm_Irq
  imports Pwm Dynamic
begin

text \<open>
  The interrupt of the PWM driver, \<^verbatim>\<open>platforms/STM32/pwm_lld.c\<close>: the callbacks of the channels and of the
  period are a parameter. The handler does not check that a callback exists: the operations of the driver
  keep the interrupt of a channel without one disabled.
\<close>

section \<open>Handler\<close>

text \<open>\<open>Some k\<close> is the callback of the channel \<open>k\<close>, \<open>None\<close> the one of the period; a null callback is a fault.\<close>

definition has_callback :: "nat option \<Rightarrow> pwmdrv \<Rightarrow> bool" where
  "has_callback ch p =
     (case pw_config p of None \<Rightarrow> False | Some c \<Rightarrow>
        (case ch of None \<Rightarrow> pc_callback c | Some k \<Rightarrow> k < length (pc_channels c) \<and> ch_callback (pc_channels c ! k)))"

definition pwm_callback :: "(nat option \<Rightarrow> nat \<Rightarrow> 'x hal_scheme \<Rightarrow> ('x, unit) hout) \<Rightarrow> nat \<Rightarrow> nat option \<Rightarrow> bool \<Rightarrow>
    'x hal_scheme \<Rightarrow> ('x, unit) hout" where
  "pwm_callback call i ch flag s =
     (if \<not> flag then Done () s else if has_callback ch (pwms s i) then call ch i s else Fault)"

text \<open>A flag of the status register is cleared by writing a zero to it.\<close>

definition pwm_lld_serve_interrupt :: "(nat option \<Rightarrow> nat \<Rightarrow> 'x hal_scheme \<Rightarrow> ('x, unit) hout) \<Rightarrow> nat \<Rightarrow>
    'x hal_scheme \<Rightarrow> ('x, unit) hout" where
  "pwm_lld_serve_interrupt call i s =
     (let t = pw_tim (pwms s i);
          sr = take_bit 16 (t_SR t) AND take_bit 16 (t_DIER t);
          s = s\<lparr>pwms := (pwms s)(i := (pwms s i)\<lparr>pw_tim := t\<lparr>t_SR := t_SR t AND NOT sr\<rparr>\<rparr>)\<rparr>
      in obind (pwm_callback call i (Some 0) (bit sr 1) s) (\<lambda>_ s.
         obind (pwm_callback call i (Some 1) (bit sr 2) s) (\<lambda>_ s.
         obind (pwm_callback call i (Some 2) (bit sr 3) s) (\<lambda>_ s.
         obind (pwm_callback call i (Some 3) (bit sr 4) s) (\<lambda>_ s.
         pwm_callback call i None (bit sr 0) s)))))"

definition STM32_TIM3_HANDLER :: "(nat option \<Rightarrow> nat \<Rightarrow> 'x hal_scheme \<Rightarrow> ('x, unit) hout) \<Rightarrow> 'x hal_scheme \<Rightarrow> ('x, unit) hout" where
  "STM32_TIM3_HANDLER call s = obind (pwm_lld_serve_interrupt call PWMD3 s) (\<lambda>_. port_irq_epilogue)"

section \<open>No interrupt without a callback\<close>

definition irq_of :: "nat option \<Rightarrow> nat" where
  "irq_of ch = (case ch of None \<Rightarrow> 0 | Some k \<Rightarrow> Suc k)"

definition pwm_irqs :: "pwmdrv \<Rightarrow> bool" where
  "pwm_irqs p \<longleftrightarrow> (\<forall>ch. (\<forall>k. ch = Some k \<longrightarrow> k < 4) \<longrightarrow> bit (t_DIER (pw_tim p)) (irq_of ch) \<longrightarrow> has_callback ch p)"

lemma irqs_start: "pwm_lld_start p = Some p' \<Longrightarrow> pwm_irqs p'"
  by (auto simp: pwm_lld_start_def pwm_irqs_def has_callback_def irq_of_def Let_def bit_1_iff split: option.splits if_splits)

lemma irqs_stop: "pwm_irqs p \<Longrightarrow> pwm_irqs (pwm_lld_stop p)"
  by (auto simp: pwm_lld_stop_def pwm_irqs_def has_callback_def)

lemma irqs_period: "pwm_irqs p \<Longrightarrow> pwm_irqs (pwm_lld_change_period n p)"
  by (auto simp: pwm_lld_change_period_def pwm_irqs_def has_callback_def)

lemma irqs_enable:
  assumes "pwm_irqs p" "pwm_lld_enable_channel ch w p = Some p'"
  shows "pwm_irqs p'"
proof -
  have b: "bit (t_DIER (pw_tim p')) n \<Longrightarrow> bit (t_DIER (pw_tim p)) n \<or> n = Suc ch \<and> has_callback (Some ch) p" for n
    using assms(2) by (auto simp: pwm_lld_enable_channel_def has_callback_def Let_def bit_simps split: option.splits if_splits)
  have "has_callback c p' = has_callback c p" for c
    using assms(2) by (auto simp: pwm_lld_enable_channel_def has_callback_def Let_def split: option.splits if_splits)
  then show ?thesis using assms(1) b unfolding pwm_irqs_def by (metis irq_of_def nat.inject option.case option.exhaust nat.distinct(1))
qed

lemma irqs_disable:
  assumes "pwm_irqs p" "pwm_lld_disable_channel ch p = Some p'"
  shows "pwm_irqs p'"
  using assms by (auto simp: pwm_lld_disable_channel_def pwm_irqs_def has_callback_def bit_simps split: if_splits)

text \<open>What the operations of the driver and the timer make of it; the timer changes its flags on its own.\<close>

inductive pwm_driven :: "pwmdrv \<Rightarrow> bool" where
  driven_start: "pwm_lld_start (p\<lparr>pw_config := Some c, pw_period := n\<rparr>) = Some p' \<Longrightarrow> pwm_driven (p'\<lparr>pw_state := PWM_READY\<rparr>)"
| driven_stop: "pwm_driven p \<Longrightarrow> pwm_driven ((pwm_lld_stop p)\<lparr>pw_state := PWM_STOP\<rparr>)"
| driven_period: "pwm_driven p \<Longrightarrow> pwm_driven (pwm_lld_change_period n (p\<lparr>pw_period := n\<rparr>))"
| driven_enable: "pwm_driven p \<Longrightarrow> pwm_lld_enable_channel ch w p = Some p' \<Longrightarrow> pwm_driven p'"
| driven_disable: "pwm_driven p \<Longrightarrow> pwm_lld_disable_channel ch p = Some p' \<Longrightarrow> pwm_driven p'"
| driven_flags: "pwm_driven p \<Longrightarrow> pwm_driven (p\<lparr>pw_tim := (pw_tim p)\<lparr>t_SR := w\<rparr>\<rparr>)"

lemma irqs_other:
  "pwm_irqs (p\<lparr>pw_state := st\<rparr>) = pwm_irqs p" "pwm_irqs (p\<lparr>pw_period := n\<rparr>) = pwm_irqs p"
  "pwm_irqs (p\<lparr>pw_tim := (pw_tim p)\<lparr>t_SR := w\<rparr>\<rparr>) = pwm_irqs p"
  by (simp_all add: pwm_irqs_def has_callback_def)

lemma driven_irqs: "pwm_driven p \<Longrightarrow> pwm_irqs p"
proof (induction rule: pwm_driven.induct)
  case (driven_start p c n p')
  then show ?case unfolding irqs_other by (rule irqs_start)
next
  case (driven_stop p)
  then show ?case unfolding irqs_other by (intro irqs_stop)
next
  case (driven_period p n)
  then show ?case by (intro irqs_period) (simp only: irqs_other)
next
  case (driven_enable p ch w p')
  then show ?case using irqs_enable by blast
next
  case (driven_disable p ch p')
  then show ?case using irqs_disable by blast
next
  case (driven_flags p w)
  then show ?case unfolding irqs_other by simp
qed

section \<open>What the handler calls\<close>

text \<open>The callbacks whose interrupt is pending and enabled: the channels in their order, then the period.\<close>

definition pwm_pending :: "pwmdrv \<Rightarrow> nat option list" where
  "pwm_pending p = filter (\<lambda>ch. bit (t_SR (pw_tim p) AND t_DIER (pw_tim p)) (irq_of ch)) [Some 0, Some 1, Some 2, Some 3, None]"

fun run_calls :: "(nat option \<Rightarrow> nat \<Rightarrow> 'x hal_scheme \<Rightarrow> ('x, unit) hout) \<Rightarrow> nat \<Rightarrow> nat option list \<Rightarrow> 'x hal_scheme \<Rightarrow> ('x, unit) hout" where
  "run_calls call i [] s = Done () s"
| "run_calls call i (c # cs) s = obind (call c i s) (\<lambda>_. run_calls call i cs)"

definition pwm_acknowledged :: "pwmdrv \<Rightarrow> pwmdrv" where
  "pwm_acknowledged p = p\<lparr>pw_tim := (pw_tim p)\<lparr>t_SR := t_SR (pw_tim p) AND NOT (take_bit 16 (t_SR (pw_tim p)) AND take_bit 16 (t_DIER (pw_tim p)))\<rparr>\<rparr>"

lemma pwm_interrupt_calls:
  assumes "pwm_irqs (pwms s i)"
    "\<And>ch s. \<exists>s'. call ch i s = Done () s' \<and> (\<forall>c. has_callback c (pwms s i) \<longrightarrow> has_callback c (pwms s' i))"
  shows "pwm_lld_serve_interrupt call i s =
    run_calls call i (pwm_pending (pwms s i)) (s\<lparr>pwms := (pwms s)(i := pwm_acknowledged (pwms s i))\<rparr>)"
    "\<exists>s'. pwm_lld_serve_interrupt call i s = Done () s'"
proof -
  let ?p = "pwms s i" and ?s1 = "s\<lparr>pwms := (pwms s)(i := pwm_acknowledged (pwms s i))\<rparr>"
  define pend where "pend ch = bit (t_SR (pw_tim ?p) AND t_DIER (pw_tim ?p)) (irq_of ch)" for ch
  define ok where "ok s = (\<forall>ch. pend ch \<and> (\<forall>k. ch = Some k \<longrightarrow> k < 4) \<longrightarrow> has_callback ch (pwms s i))" for s :: "'a hal_scheme"
  have ok1: "ok ?s1" using assms(1) unfolding ok_def pend_def
    by (auto simp: pwm_acknowledged_def has_callback_def pwm_irqs_def bit_and_iff)
  have keeps: "ok s' " if "ok s" "call ch i s = Done () s'" for s s' ch using that assms(2)[of ch s] by (auto simp: ok_def)
  have step: "\<exists>s'. pwm_callback call i ch (pend ch) s = Done () s' \<and> ok s' \<and> run_calls call i (if pend ch then ch # cs else cs) s = run_calls call i cs s'"
    if "ok s" "\<forall>k. ch = Some k \<longrightarrow> k < 4" for s ch cs
    using that assms(2)[of ch s] keeps by (auto simp: pwm_callback_def ok_def)
  have b: "bit (take_bit 16 (t_SR (pw_tim ?p)) AND take_bit 16 (t_DIER (pw_tim ?p))) (irq_of ch) = pend ch"
    if "\<forall>k. ch = Some k \<longrightarrow> k < 4" for ch
    using that by (cases ch) (auto simp: pend_def bit_simps irq_of_def)
  note bs = b[of None, simplified irq_of_def, simplified] b[of "Some 0", simplified irq_of_def, simplified]
    b[of "Some 1", simplified irq_of_def, simplified] b[of "Some 2", simplified irq_of_def, simplified] b[of "Some 3", simplified irq_of_def, simplified]
  have e: "pwm_lld_serve_interrupt call i s = obind (pwm_callback call i (Some 0) (pend (Some 0)) ?s1) (\<lambda>_ s.
         obind (pwm_callback call i (Some 1) (pend (Some 1)) s) (\<lambda>_ s.
         obind (pwm_callback call i (Some 2) (pend (Some 2)) s) (\<lambda>_ s.
         obind (pwm_callback call i (Some 3) (pend (Some 3)) s) (\<lambda>_ s.
         pwm_callback call i None (pend None) s))))"
    unfolding pwm_lld_serve_interrupt_def Let_def pwm_acknowledged_def using bs by (simp add: numeral_eq_Suc)
  define opt where "opt ch cs = (if pend ch then ch # cs else cs)" for ch and cs :: "nat option list"
  have p: "pwm_pending ?p = opt (Some 0) (opt (Some 1) (opt (Some 2) (opt (Some 3) (opt None []))))"
    by (simp add: pwm_pending_def opt_def pend_def)
  note st = step[folded opt_def]
  obtain s2 where s2: "pwm_callback call i (Some 0) (pend (Some 0)) ?s1 = Done () s2" "ok s2"
    "run_calls call i (pwm_pending ?p) ?s1 = run_calls call i (opt (Some 1) (opt (Some 2) (opt (Some 3) (opt None [])))) s2"
    using st[OF ok1, of "Some 0"] unfolding p by auto
  obtain s3 where s3: "pwm_callback call i (Some 1) (pend (Some 1)) s2 = Done () s3" "ok s3"
    "run_calls call i (opt (Some 1) (opt (Some 2) (opt (Some 3) (opt None [])))) s2 = run_calls call i (opt (Some 2) (opt (Some 3) (opt None []))) s3"
    using st[OF s2(2), of "Some 1"] by auto
  obtain s4 where s4: "pwm_callback call i (Some 2) (pend (Some 2)) s3 = Done () s4" "ok s4"
    "run_calls call i (opt (Some 2) (opt (Some 3) (opt None []))) s3 = run_calls call i (opt (Some 3) (opt None [])) s4"
    using st[OF s3(2), of "Some 2"] by auto
  obtain s5 where s5: "pwm_callback call i (Some 3) (pend (Some 3)) s4 = Done () s5" "ok s5"
    "run_calls call i (opt (Some 3) (opt None [])) s4 = run_calls call i (opt None []) s5"
    using st[OF s4(2), of "Some 3"] by auto
  obtain s6 where s6: "pwm_callback call i None (pend None) s5 = Done () s6" "run_calls call i (opt None []) s5 = Done () s6"
    using st[OF s5(2), of None "[]"] by auto
  have "pwm_lld_serve_interrupt call i s = Done () s6" unfolding e using s2(1) s3(1) s4(1) s5(1) s6(1) by simp
  moreover have "run_calls call i (pwm_pending ?p) ?s1 = Done () s6" unfolding s2(3) s3(3) s4(3) s5(3) by (rule s6(2))
  ultimately show "pwm_lld_serve_interrupt call i s = run_calls call i (pwm_pending ?p) ?s1"
    "\<exists>s'. pwm_lld_serve_interrupt call i s = Done () s'" by simp_all
qed

end
