(* ===== verification/Clock.thy ===== *)
theory Clock
  imports Pwm Serial "HOL-Library.Monad_Syntax"
begin

text \<open>
  The clock tree of the microcontroller, \<^verbatim>\<open>platforms/STM32F4xx/hal_lld.[ch]\<close>: the frequencies that the
  preprocessor computes from \<^verbatim>\<open>mcuconf.h\<close> with the checks it makes (a configuration that meets an
  \<open>#error\<close> has no clock tree), and the registers that \<open>stm32_clock_init\<close> writes from the same settings.
\<close>

section \<open>The configuration\<close>

record clkconf =
  k_hsi :: bool
  k_lsi :: bool
  k_hse :: bool
  k_lse :: bool
  k_clock48 :: bool
  k_hseclk :: nat
  k_lseclk :: nat
  k_vdd :: nat
  k_sw :: "32 word"
  k_pllsrc :: "32 word"
  k_pllm :: nat
  k_plln :: nat
  k_pllp :: nat
  k_pllq :: nat
  k_hpre :: "32 word"
  k_ppre1 :: "32 word"
  k_ppre2 :: "32 word"
  k_rtcsel :: "32 word"
  k_rtcpre :: nat
  k_mco1sel :: "32 word"
  k_mco1pre :: "32 word"
  k_mco2sel :: "32 word"
  k_mco2pre :: "32 word"
  k_i2ssrc :: "32 word"
  k_plli2sn :: nat
  k_plli2sr :: nat
  k_vos :: "32 word"

definition STM32_HSICLK :: nat where "STM32_HSICLK = 16000000"
definition STM32_LSICLK :: nat where "STM32_LSICLK = 32000"

definition STM32_HSECLK_MAX :: nat where "STM32_HSECLK_MAX = 26000000"
definition STM32_HSECLK_MIN :: nat where "STM32_HSECLK_MIN = 1000000"
definition STM32_LSECLK_MAX :: nat where "STM32_LSECLK_MAX = 1000000"
definition STM32_LSECLK_MIN :: nat where "STM32_LSECLK_MIN = 32768"
definition STM32_PLLIN_MAX :: nat where "STM32_PLLIN_MAX = 2000000"
definition STM32_PLLIN_MIN :: nat where "STM32_PLLIN_MIN = 950000"
definition STM32_PLLVCO_MAX :: nat where "STM32_PLLVCO_MAX = 432000000"
definition STM32_PLLVCO_MIN :: nat where "STM32_PLLVCO_MIN = 192000000"
definition STM32_PLLOUT_MAX :: nat where "STM32_PLLOUT_MAX = 168000000"
definition STM32_PLLOUT_MIN :: nat where "STM32_PLLOUT_MIN = 24000000"
definition STM32_PCLK1_MAX :: nat where "STM32_PCLK1_MAX = 42000000"
definition STM32_PCLK2_MAX :: nat where "STM32_PCLK2_MAX = 84000000"
definition STM32_SPII2S_MAX :: nat where "STM32_SPII2S_MAX = 37500000"

definition STM32_VOS_HIGH :: "32 word" where "STM32_VOS_HIGH = push_bit 14 1"
definition STM32_PLLSRC_HSI :: "32 word" where "STM32_PLLSRC_HSI = 0"
definition STM32_PLLSRC_HSE :: "32 word" where "STM32_PLLSRC_HSE = push_bit 22 1"
definition STM32_SW_HSI :: "32 word" where "STM32_SW_HSI = 0"
definition STM32_SW_HSE :: "32 word" where "STM32_SW_HSE = 1"
definition STM32_SW_PLL :: "32 word" where "STM32_SW_PLL = 2"
definition STM32_MCO1SEL_HSI :: "32 word" where "STM32_MCO1SEL_HSI = 0"
definition STM32_MCO1SEL_LSE :: "32 word" where "STM32_MCO1SEL_LSE = push_bit 21 1"
definition STM32_MCO1SEL_HSE :: "32 word" where "STM32_MCO1SEL_HSE = push_bit 21 2"
definition STM32_MCO1SEL_PLL :: "32 word" where "STM32_MCO1SEL_PLL = push_bit 21 3"
definition STM32_MCO2SEL_SYSCLK :: "32 word" where "STM32_MCO2SEL_SYSCLK = 0"
definition STM32_MCO2SEL_PLLI2S :: "32 word" where "STM32_MCO2SEL_PLLI2S = push_bit 30 1"
definition STM32_MCO2SEL_HSE :: "32 word" where "STM32_MCO2SEL_HSE = push_bit 30 2"
definition STM32_MCO2SEL_PLL :: "32 word" where "STM32_MCO2SEL_PLL = push_bit 30 3"
definition STM32_I2SSRC_PLLI2S :: "32 word" where "STM32_I2SSRC_PLLI2S = 0"
definition STM32_I2SSRC_CKIN :: "32 word" where "STM32_I2SSRC_CKIN = push_bit 23 1"
definition STM32_RTCSEL_NOCLOCK :: "32 word" where "STM32_RTCSEL_NOCLOCK = 0"
definition STM32_RTCSEL_LSE :: "32 word" where "STM32_RTCSEL_LSE = push_bit 8 1"
definition STM32_RTCSEL_LSI :: "32 word" where "STM32_RTCSEL_LSI = push_bit 8 2"
definition STM32_RTCSEL_HSEDIV :: "32 word" where "STM32_RTCSEL_HSEDIV = push_bit 8 3"

text \<open>The prescalers: the value of the field and the divisor it stands for.\<close>

definition STM32_HPRE_DIV :: "(nat \<times> nat) list" where
  "STM32_HPRE_DIV = [(0, 1), (8, 2), (9, 4), (10, 8), (11, 16), (12, 64), (13, 128), (14, 256), (15, 512)]"

definition STM32_PPRE_DIV :: "(nat \<times> nat) list" where
  "STM32_PPRE_DIV = [(0, 1), (4, 2), (5, 4), (6, 8), (7, 16)]"

definition STM32_MCOPRE_DIV :: "(nat \<times> nat) list" where
  "STM32_MCOPRE_DIV = [(0, 1), (4, 2), (5, 3), (6, 4), (7, 5)]"

fun prescaler :: "nat \<Rightarrow> (nat \<times> nat) list \<Rightarrow> 32 word \<Rightarrow> nat option" where
  "prescaler pos [] w = None"
| "prescaler pos ((f, d) # ps) w = (if w = push_bit pos (of_nat f) then Some d else prescaler pos ps w)"

text \<open>The settings of the robot, \<^verbatim>\<open>mcuconf.h\<close> and \<^verbatim>\<open>board.h\<close>.\<close>

definition robot_clkconf :: clkconf where
  "robot_clkconf = \<lparr>k_hsi = True, k_lsi = True, k_hse = True, k_lse = False, k_clock48 = True,
     k_hseclk = 8000000, k_lseclk = 0, k_vdd = 300,
     k_sw = STM32_SW_PLL, k_pllsrc = STM32_PLLSRC_HSE, k_pllm = 8, k_plln = 336, k_pllp = 2, k_pllq = 7,
     k_hpre = 0, k_ppre1 = push_bit 10 5, k_ppre2 = push_bit 13 4,
     k_rtcsel = STM32_RTCSEL_LSI, k_rtcpre = 8, k_mco1sel = STM32_MCO1SEL_HSI, k_mco1pre = 0,
     k_mco2sel = STM32_MCO2SEL_SYSCLK, k_mco2pre = push_bit 27 7, k_i2ssrc = STM32_I2SSRC_CKIN,
     k_plli2sn = 192, k_plli2sr = 5, k_vos = STM32_VOS_HIGH\<rparr>"

section \<open>The checks on the oscillators\<close>

definition hsi_ok :: "clkconf \<Rightarrow> bool" where
  "hsi_ok c \<longleftrightarrow> k_hsi c \<or> \<not>
     (k_sw c = STM32_SW_HSI \<or> k_sw c = STM32_SW_PLL \<and> k_pllsrc c = STM32_PLLSRC_HSI \<or>
      k_mco1sel c = STM32_MCO1SEL_HSI \<or> k_mco1sel c = STM32_MCO1SEL_PLL \<and> k_pllsrc c = STM32_PLLSRC_HSI \<or>
      k_mco2sel c = 0 \<or> k_mco2sel c = STM32_MCO2SEL_PLL \<and> k_pllsrc c = STM32_PLLSRC_HSI \<or>
      k_i2ssrc c = STM32_I2SSRC_PLLI2S \<and> k_pllsrc c = STM32_PLLSRC_HSI)"

definition hse_ok :: "clkconf \<Rightarrow> bool" where
  "hse_ok c \<longleftrightarrow> (if k_hse c then k_hseclk c \<noteq> 0 \<and> STM32_HSECLK_MIN \<le> k_hseclk c \<and> k_hseclk c \<le> STM32_HSECLK_MAX
     else \<not> (k_sw c = STM32_SW_HSE \<or> k_sw c = STM32_SW_PLL \<and> k_pllsrc c = STM32_PLLSRC_HSE \<or>
       k_mco1sel c = STM32_MCO1SEL_HSE \<or> k_mco1sel c = STM32_MCO1SEL_PLL \<and> k_pllsrc c = STM32_PLLSRC_HSE \<or>
       k_mco2sel c = STM32_MCO2SEL_HSE \<or> k_mco2sel c = STM32_MCO2SEL_PLL \<and> k_pllsrc c = STM32_PLLSRC_HSE \<or>
       k_i2ssrc c = STM32_I2SSRC_PLLI2S \<and> k_pllsrc c = STM32_PLLSRC_HSE \<or> k_rtcsel c = STM32_RTCSEL_HSEDIV))"

definition lsi_ok :: "clkconf \<Rightarrow> bool" where
  "lsi_ok c \<longleftrightarrow> k_lsi c \<or> k_rtcsel c \<noteq> STM32_RTCSEL_LSI"

definition lse_ok :: "clkconf \<Rightarrow> bool" where
  "lse_ok c \<longleftrightarrow> (if k_lse c then k_lseclk c \<noteq> 0 \<and> STM32_LSECLK_MIN \<le> k_lseclk c \<and> k_lseclk c \<le> STM32_LSECLK_MAX
     else k_rtcsel c \<noteq> STM32_RTCSEL_LSE)"

section \<open>The frequencies\<close>

definition require :: "bool \<Rightarrow> unit option" where
  "require b = (if b then Some () else None)"

definition STM32_SYSCLK_MAX :: "clkconf \<Rightarrow> nat" where
  "STM32_SYSCLK_MAX c = (if k_vos c = STM32_VOS_HIGH then 168000000 else 144000000)"

text \<open>The frequencies up to which 0, 1, ... wait states are enough, by the supply voltage.\<close>

definition ws_thresholds :: "nat \<Rightarrow> nat list option" where
  "ws_thresholds vdd =
     (if 270 \<le> vdd \<and> vdd \<le> 360 then Some [30000000, 60000000, 90000000, 120000000, 150000000, 168000000, 0, 0]
      else if 240 \<le> vdd \<and> vdd < 270 then Some [24000000, 48000000, 72000000, 96000000, 120000000, 144000000, 168000000, 0]
      else if 210 \<le> vdd \<and> vdd < 240 then Some [18000000, 36000000, 54000000, 72000000, 90000000, 108000000, 120000000, 138000000]
      else if 180 \<le> vdd \<and> vdd < 210 then Some [16000000, 32000000, 48000000, 64000000, 80000000, 96000000, 112000000, 128000000]
      else None)"

definition STM32_FLASHBITS :: "nat list \<Rightarrow> nat \<Rightarrow> 32 word" where
  "STM32_FLASHBITS th hclk =
     (if hclk \<le> th ! 0 then 0 else if hclk \<le> th ! 1 then 1 else if hclk \<le> th ! 2 then 2
      else if hclk \<le> th ! 3 then 3 else if hclk \<le> th ! 4 then 4 else if hclk \<le> th ! 5 then 5
      else if hclk \<le> th ! 6 then 6 else 7)"

definition STM32_PLLCLKIN :: "clkconf \<Rightarrow> nat option" where
  "STM32_PLLCLKIN c = do {
     require (2 \<le> k_pllm c \<and> k_pllm c \<le> 63);
     f \<leftarrow> (if k_pllsrc c = STM32_PLLSRC_HSE then Some (k_hseclk c div k_pllm c)
           else if k_pllsrc c = STM32_PLLSRC_HSI then Some (STM32_HSICLK div k_pllm c) else None);
     require (STM32_PLLIN_MIN \<le> f \<and> f \<le> STM32_PLLIN_MAX);
     Some f }"

definition STM32_ACTIVATE_PLL :: "clkconf \<Rightarrow> bool" where
  "STM32_ACTIVATE_PLL c \<longleftrightarrow> k_clock48 c \<or> k_sw c = STM32_SW_PLL \<or> k_mco1sel c = STM32_MCO1SEL_PLL \<or> k_mco2sel c = STM32_MCO2SEL_PLL"

definition STM32_ACTIVATE_PLLI2S :: "clkconf \<Rightarrow> bool" where
  "STM32_ACTIVATE_PLLI2S c \<longleftrightarrow> k_i2ssrc c = STM32_I2SSRC_PLLI2S"

definition STM32_PLLP :: "clkconf \<Rightarrow> nat option" where
  "STM32_PLLP c = (if k_pllp c = 2 then Some 0 else if k_pllp c = 4 then Some 1 else if k_pllp c = 6 then Some 2
     else if k_pllp c = 8 then Some 3 else None)"

definition STM32_PLLVCO :: "clkconf \<Rightarrow> nat option" where
  "STM32_PLLVCO c = do {
     f \<leftarrow> STM32_PLLCLKIN c;
     require (64 \<le> k_plln c \<and> k_plln c \<le> 432);
     require (2 \<le> k_pllq c \<and> k_pllq c \<le> 15);
     require (STM32_PLLVCO_MIN \<le> f * k_plln c \<and> f * k_plln c \<le> STM32_PLLVCO_MAX);
     Some (f * k_plln c) }"

definition STM32_PLLCLKOUT :: "clkconf \<Rightarrow> nat option" where
  "STM32_PLLCLKOUT c = do {
     v \<leftarrow> STM32_PLLVCO c;
     STM32_PLLP c;
     require (STM32_PLLOUT_MIN \<le> v div k_pllp c \<and> v div k_pllp c \<le> STM32_PLLOUT_MAX);
     Some (v div k_pllp c) }"

definition STM32_SYSCLK :: "clkconf \<Rightarrow> nat option" where
  "STM32_SYSCLK c = do {
     p \<leftarrow> STM32_PLLCLKOUT c;
     f \<leftarrow> (if k_sw c = STM32_SW_HSI then Some STM32_HSICLK else if k_sw c = STM32_SW_HSE then Some (k_hseclk c)
           else if k_sw c = STM32_SW_PLL then Some p else None);
     require (f \<le> STM32_SYSCLK_MAX c);
     Some f }"

definition STM32_HCLK :: "clkconf \<Rightarrow> nat option" where
  "STM32_HCLK c = do {
     f \<leftarrow> STM32_SYSCLK c;
     d \<leftarrow> prescaler 4 STM32_HPRE_DIV (k_hpre c);
     require (f div d \<le> STM32_SYSCLK_MAX c);
     Some (f div d) }"

definition STM32_PCLK1_OF :: "clkconf \<Rightarrow> nat option" where
  "STM32_PCLK1_OF c = do {
     f \<leftarrow> STM32_HCLK c;
     d \<leftarrow> prescaler 10 STM32_PPRE_DIV (k_ppre1 c);
     require (f div d \<le> STM32_PCLK1_MAX);
     Some (f div d) }"

definition STM32_PCLK2_OF :: "clkconf \<Rightarrow> nat option" where
  "STM32_PCLK2_OF c = do {
     f \<leftarrow> STM32_HCLK c;
     d \<leftarrow> prescaler 13 STM32_PPRE_DIV (k_ppre2 c);
     require (f div d \<le> STM32_PCLK2_MAX);
     Some (f div d) }"

text \<open>
  The check of the output of the second PLL divides by the register field instead of the divisor, so
  that it compares zero with the limit.
\<close>

definition STM32_PLLI2SVCO :: "clkconf \<Rightarrow> nat option" where
  "STM32_PLLI2SVCO c = do {
     f \<leftarrow> STM32_PLLCLKIN c;
     require (192 \<le> k_plli2sn c \<and> k_plli2sn c \<le> 432);
     require (2 \<le> k_plli2sr c \<and> k_plli2sr c \<le> 7);
     require (STM32_PLLVCO_MIN \<le> f * k_plli2sn c \<and> f * k_plli2sn c \<le> STM32_PLLVCO_MAX);
     require (f * k_plli2sn c div (k_plli2sr c * 2 ^ 28) \<le> STM32_SPII2S_MAX);
     Some (f * k_plli2sn c) }"

definition STM32_MCO1CLK :: "clkconf \<Rightarrow> nat option" where
  "STM32_MCO1CLK c = do {
     f \<leftarrow> (if k_mco1sel c = STM32_MCO1SEL_HSI then Some STM32_HSICLK else if k_mco1sel c = STM32_MCO1SEL_LSE then Some (k_lseclk c)
           else if k_mco1sel c = STM32_MCO1SEL_HSE then Some (k_hseclk c)
           else if k_mco1sel c = STM32_MCO1SEL_PLL then STM32_PLLCLKOUT c else None);
     d \<leftarrow> prescaler 24 STM32_MCOPRE_DIV (k_mco1pre c);
     Some (f div d) }"

text \<open>The second PLL as the source of the second output refers to a macro that does not exist.\<close>

definition STM32_MCO2CLK :: "clkconf \<Rightarrow> nat option" where
  "STM32_MCO2CLK c = do {
     f \<leftarrow> (if k_mco2sel c = STM32_MCO2SEL_HSE then Some (k_hseclk c) else if k_mco2sel c = STM32_MCO2SEL_PLL then STM32_PLLCLKOUT c
           else if k_mco2sel c = STM32_MCO2SEL_SYSCLK then STM32_SYSCLK c else None);
     d \<leftarrow> prescaler 27 STM32_MCOPRE_DIV (k_mco2pre c);
     Some (f div d) }"

definition STM32_RTCCLK :: "clkconf \<Rightarrow> nat option" where
  "STM32_RTCCLK c = do {
     require (2 \<le> k_rtcpre c \<and> k_rtcpre c \<le> 31);
     if k_rtcsel c = STM32_RTCSEL_NOCLOCK then Some 0 else if k_rtcsel c = STM32_RTCSEL_LSE then Some (k_lseclk c)
     else if k_rtcsel c = STM32_RTCSEL_LSI then Some STM32_LSICLK
     else if k_rtcsel c = STM32_RTCSEL_HSEDIV then Some (k_hseclk c div k_rtcpre c) else None }"

definition STM32_PLL48CLK :: "clkconf \<Rightarrow> nat option" where
  "STM32_PLL48CLK c = do { v \<leftarrow> STM32_PLLVCO c; Some (if k_clock48 c then v div k_pllq c else 0) }"

definition STM32_TIMCLK1_OF :: "clkconf \<Rightarrow> nat option" where
  "STM32_TIMCLK1_OF c = do { p \<leftarrow> STM32_PCLK1_OF c; Some (if k_ppre1 c = 0 then p * 1 else p * 2) }"

definition STM32_TIMCLK2_OF :: "clkconf \<Rightarrow> nat option" where
  "STM32_TIMCLK2_OF c = do { p \<leftarrow> STM32_PCLK2_OF c; Some (if k_ppre2 c = 0 then p * 1 else p * 2) }"

text \<open>All checks together: the configuration compiles.\<close>

definition clkconf_ok :: "clkconf \<Rightarrow> bool" where
  "clkconf_ok c \<longleftrightarrow> hsi_ok c \<and> hse_ok c \<and> lsi_ok c \<and> lse_ok c \<and> ws_thresholds (k_vdd c) \<noteq> None \<and>
     STM32_PCLK1_OF c \<noteq> None \<and> STM32_PCLK2_OF c \<noteq> None \<and> STM32_PLLI2SVCO c \<noteq> None \<and> STM32_RTCCLK c \<noteq> None \<and>
     STM32_MCO1CLK c \<noteq> None \<and> prescaler 27 STM32_MCOPRE_DIV (k_mco2pre c) \<noteq> None \<and>
     k_mco2sel c \<in> {STM32_MCO2SEL_HSE, STM32_MCO2SEL_PLL, STM32_MCO2SEL_SYSCLK, STM32_MCO2SEL_PLLI2S}"

lemmas clk_limits = STM32_HSICLK_def STM32_LSICLK_def STM32_HSECLK_MAX_def STM32_HSECLK_MIN_def STM32_LSECLK_MAX_def
  STM32_LSECLK_MIN_def STM32_PLLIN_MAX_def STM32_PLLIN_MIN_def STM32_PLLVCO_MAX_def STM32_PLLVCO_MIN_def
  STM32_PLLOUT_MAX_def STM32_PLLOUT_MIN_def STM32_PCLK1_MAX_def STM32_PCLK2_MAX_def STM32_SPII2S_MAX_def

lemmas clk_fields = STM32_VOS_HIGH_def STM32_PLLSRC_HSI_def STM32_PLLSRC_HSE_def STM32_SW_HSI_def STM32_SW_HSE_def STM32_SW_PLL_def
  STM32_MCO1SEL_HSI_def STM32_MCO1SEL_LSE_def STM32_MCO1SEL_HSE_def STM32_MCO1SEL_PLL_def STM32_MCO2SEL_SYSCLK_def
  STM32_MCO2SEL_PLLI2S_def STM32_MCO2SEL_HSE_def STM32_MCO2SEL_PLL_def STM32_I2SSRC_PLLI2S_def STM32_I2SSRC_CKIN_def
  STM32_RTCSEL_NOCLOCK_def STM32_RTCSEL_LSE_def STM32_RTCSEL_LSI_def STM32_RTCSEL_HSEDIV_def

lemmas clk_defs = STM32_SYSCLK_def STM32_SYSCLK_MAX_def STM32_PLLCLKOUT_def STM32_PLLVCO_def STM32_PLLCLKIN_def STM32_PLLP_def
  STM32_HCLK_def STM32_PCLK1_OF_def STM32_PCLK2_OF_def STM32_TIMCLK1_OF_def STM32_TIMCLK2_OF_def STM32_PLL48CLK_def require_def

text \<open>The robot's clocks; the constants of the PWM and the serial driver are those of the tree.\<close>

lemma robot_clocks:
  "STM32_PLLVCO robot_clkconf = Some 336000000" "STM32_SYSCLK robot_clkconf = Some 168000000"
  "STM32_HCLK robot_clkconf = Some 168000000" "STM32_PCLK1_OF robot_clkconf = Some 42000000"
  "STM32_PCLK2_OF robot_clkconf = Some 84000000" "STM32_TIMCLK1_OF robot_clkconf = Some 84000000"
  "STM32_PLL48CLK robot_clkconf = Some 48000000" 
proof -
  have h: "prescaler 4 STM32_HPRE_DIV (k_hpre robot_clkconf) = Some 1" "prescaler 10 STM32_PPRE_DIV (k_ppre1 robot_clkconf) = Some 4"
    "prescaler 13 STM32_PPRE_DIV (k_ppre2 robot_clkconf) = Some 2"
    by (simp_all add: STM32_HPRE_DIV_def STM32_PPRE_DIV_def robot_clkconf_def)
  show a: "STM32_PLLVCO robot_clkconf = Some 336000000" by (simp add: clk_defs clk_limits clk_fields robot_clkconf_def)
  have "STM32_PLLCLKOUT robot_clkconf = Some 168000000"
    unfolding STM32_PLLCLKOUT_def a by (simp add: clk_limits require_def STM32_PLLP_def robot_clkconf_def)
  then show b: "STM32_SYSCLK robot_clkconf = Some 168000000"
    by (simp add: STM32_SYSCLK_def require_def STM32_SYSCLK_MAX_def robot_clkconf_def clk_fields)
  show c: "STM32_HCLK robot_clkconf = Some 168000000"
    unfolding STM32_HCLK_def b h by (simp add: require_def STM32_SYSCLK_MAX_def robot_clkconf_def clk_fields)
  show d: "STM32_PCLK1_OF robot_clkconf = Some 42000000" "STM32_PCLK2_OF robot_clkconf = Some 84000000"
    unfolding STM32_PCLK1_OF_def STM32_PCLK2_OF_def c h by (simp_all add: require_def clk_limits)
  show "STM32_TIMCLK1_OF robot_clkconf = Some 84000000" unfolding STM32_TIMCLK1_OF_def d by (simp add: robot_clkconf_def)
  show "STM32_PLL48CLK robot_clkconf = Some 48000000" unfolding STM32_PLL48CLK_def a by (simp add: robot_clkconf_def)
qed

section \<open>Starting the clocks\<close>

record rcc =
  rc_CR :: "32 word"
  rc_PLLCFGR :: "32 word"
  rc_PLLI2SCFGR :: "32 word"
  rc_CFGR :: "32 word"
  rc_CSR :: "32 word"
  rc_BDCR :: "32 word"
  rc_APB1ENR :: "32 word"
  rc_APB2ENR :: "32 word"
  rc_APB2LPENR :: "32 word"
  pwr_CR :: "32 word"
  pwr_CSR :: "32 word"
  flash_ACR :: "32 word"

text \<open>A loop that waits for the hardware: \<open>hw\<close> is what it does between two readings.\<close>

fun wait_for :: "nat \<Rightarrow> (rcc \<Rightarrow> rcc) \<Rightarrow> (rcc \<Rightarrow> bool) \<Rightarrow> rcc \<Rightarrow> rcc option" where
  "wait_for 0 hw ready s = None"
| "wait_for (Suc n) hw ready s = (if ready s then Some s else wait_for n hw ready (hw s))"

definition PLLCFGR_value :: "clkconf \<Rightarrow> nat \<Rightarrow> 32 word" where
  "PLLCFGR_value c p = push_bit 24 (of_nat (k_pllq c)) OR k_pllsrc c OR push_bit 16 (of_nat p) OR
     push_bit 6 (of_nat (k_plln c)) OR of_nat (k_pllm c)"

definition CFGR_value :: "clkconf \<Rightarrow> 32 word" where
  "CFGR_value c = k_mco2pre c OR k_mco2sel c OR k_mco1pre c OR k_mco1sel c OR push_bit 16 (of_nat (k_rtcpre c)) OR
     k_ppre2 c OR k_ppre1 c OR k_hpre c"

definition stm32_clock_init :: "nat \<Rightarrow> (rcc \<Rightarrow> rcc) \<Rightarrow> clkconf \<Rightarrow> rcc \<Rightarrow> rcc option" where
  "stm32_clock_init fuel hw c s = do {
     p \<leftarrow> STM32_PLLP c;
     hclk \<leftarrow> STM32_HCLK c;
     th \<leftarrow> ws_thresholds (k_vdd c);
     s \<leftarrow> wait_for fuel hw (\<lambda>s. pwr_CSR s AND 0x4000 \<noteq> 0) (s\<lparr>rc_APB1ENR := 0x10000000, pwr_CR := k_vos c\<rparr>);
     s \<leftarrow> wait_for fuel hw (\<lambda>s. rc_CR s AND 0x2 \<noteq> 0) (s\<lparr>rc_CR := rc_CR s OR 0x1\<rparr>);
     s \<leftarrow> (if k_hse c then wait_for fuel hw (\<lambda>s. rc_CR s AND 0x20000 \<noteq> 0) (s\<lparr>rc_CR := rc_CR s OR 0x10000\<rparr>) else Some s);
     s \<leftarrow> (if k_lsi c then wait_for fuel hw (\<lambda>s. rc_CSR s AND 0x2 \<noteq> 0) (s\<lparr>rc_CSR := rc_CSR s OR 0x1\<rparr>) else Some s);
     s \<leftarrow> (if k_lse c then wait_for fuel hw (\<lambda>s. rc_BDCR s AND 0x2 \<noteq> 0)
            (if rc_BDCR s AND 0x1 = 0
             then s\<lparr>rc_BDCR := rc_BDCR s OR 0x1, pwr_CR := (pwr_CR s OR 0x100) AND NOT 0x100\<rparr> else s)
          else Some s);
     s \<leftarrow> (if STM32_ACTIVATE_PLL c then wait_for fuel hw (\<lambda>s. rc_CR s AND 0x2000000 \<noteq> 0)
            (s\<lparr>rc_PLLCFGR := PLLCFGR_value c p, rc_CR := rc_CR s OR 0x1000000\<rparr>) else Some s);
     s \<leftarrow> (if STM32_ACTIVATE_PLLI2S c then wait_for fuel hw (\<lambda>s. rc_CR s AND 0x8000000 \<noteq> 0)
            (s\<lparr>rc_PLLI2SCFGR := push_bit 28 (of_nat (k_plli2sr c)) OR push_bit 6 (of_nat (k_plli2sn c)),
               rc_CR := rc_CR s OR 0x4000000\<rparr>) else Some s);
     s \<leftarrow> Some (s\<lparr>rc_CFGR := rc_CFGR s OR CFGR_value c, flash_ACR := 0x700 OR STM32_FLASHBITS th hclk\<rparr>);
     s \<leftarrow> (if k_sw c \<noteq> STM32_SW_HSI then wait_for fuel hw (\<lambda>s. rc_CFGR s AND 0xC = push_bit 2 (k_sw c))
            (s\<lparr>rc_CFGR := rc_CFGR s OR k_sw c\<rparr>) else Some s);
     Some (s\<lparr>rc_APB2ENR := rc_APB2ENR s OR 0x4000, rc_APB2LPENR := rc_APB2LPENR s OR 0x4000\<rparr>) }"

section \<open>What the registers mean\<close>

definition field :: "nat \<Rightarrow> nat \<Rightarrow> 32 word \<Rightarrow> nat" where
  "field pos len w = unat (take_bit len (drop_bit pos w))"

text \<open>The reading of the registers by the clock controller, for an external oscillator of \<open>hse\<close> Hertz.\<close>

definition pll_output :: "nat \<Rightarrow> rcc \<Rightarrow> nat" where
  "pll_output hse s =
     (let w = rc_PLLCFGR s; f = (if field 22 1 w = 1 then hse else STM32_HSICLK) in
      f div field 0 6 w * field 6 9 w div (2 * (field 16 2 w + 1)))"

definition sysclk_of :: "nat \<Rightarrow> rcc \<Rightarrow> nat" where
  "sysclk_of hse s =
     (if field 2 2 (rc_CFGR s) = 0 then STM32_HSICLK else if field 2 2 (rc_CFGR s) = 1 then hse else pll_output hse s)"

definition hclk_of :: "nat \<Rightarrow> rcc \<Rightarrow> nat option" where
  "hclk_of hse s = map_option (\<lambda>d. sysclk_of hse s div d) (map_of STM32_HPRE_DIV (field 4 4 (rc_CFGR s)))"

definition pclk1_of :: "nat \<Rightarrow> rcc \<Rightarrow> nat option" where
  "pclk1_of hse s = do { h \<leftarrow> hclk_of hse s; d \<leftarrow> map_of STM32_PPRE_DIV (field 10 3 (rc_CFGR s)); Some (h div d) }"

definition pclk2_of :: "nat \<Rightarrow> rcc \<Rightarrow> nat option" where
  "pclk2_of hse s = do { h \<leftarrow> hclk_of hse s; d \<leftarrow> map_of STM32_PPRE_DIV (field 13 3 (rc_CFGR s)); Some (h div d) }"

text \<open>Fields do not disturb one another.\<close>

lemma field_or:
  "field pos len (a OR b) = unat (take_bit len (drop_bit pos a) OR take_bit len (drop_bit pos b))"
  by (simp add: field_def)

lemma nat_bit_less: "x < 2 ^ l \<Longrightarrow> bit (x :: nat) k \<Longrightarrow> k < l"
  by (metis bit_take_bit_iff take_bit_nat_eq_self)

lemma field_zero:
  assumes "x < 2 ^ l" "p + l \<le> pos \<or> pos + len \<le> p"
  shows "take_bit len (drop_bit pos (push_bit p (of_nat x :: 32 word))) = 0"
proof (rule bit_word_eqI)
  fix n assume "n < LENGTH(32)"
  show "bit (take_bit len (drop_bit pos (push_bit p (of_nat x :: 32 word)))) n = bit 0 n"
    using assms(2) nat_bit_less[OF assms(1)] by (fastforce simp: bit_simps)
qed

lemma field_self:
  assumes "x < 2 ^ len" "pos + len \<le> 32"
  shows "take_bit len (drop_bit pos (push_bit pos (of_nat x :: 32 word))) = of_nat x"
proof (rule bit_word_eqI)
  fix n assume n: "n < LENGTH(32)"
  have "pos + n < 32" if "bit x n" using nat_bit_less[OF assms(1) that] assms(2) by simp
  then show "bit (take_bit len (drop_bit pos (push_bit pos (of_nat x :: 32 word)))) n = bit (of_nat x :: 32 word) n"
    using n nat_bit_less[OF assms(1), of n] by (auto simp: bit_simps)
qed

lemma unat_small: "x < 2 ^ len \<Longrightarrow> len \<le> 31 \<Longrightarrow> unat (of_nat x :: 32 word) = x"
proof -
  assume "x < 2 ^ len" "len \<le> 31"
  moreover from this(2) have "(2 :: nat) ^ len \<le> 2 ^ 31" by (intro power_increasing) simp_all
  ultimately have "x < 2 ^ 32" by simp
  then show ?thesis by (simp add: unat_of_nat take_bit_nat_eq_self)
qed

text \<open>A prescaler that is accepted is its field.\<close>

lemma prescaler_field:
  assumes "prescaler pos ps w = Some d"
  shows "\<exists>f. (f, d) \<in> set ps \<and> w = push_bit pos (of_nat f) \<and> map_of ps f = Some d"
  using assms
proof (induction pos ps w rule: prescaler.induct)
  case (2 pos f e ps w)
  show ?case
  proof (cases "w = push_bit pos (of_nat f)")
    case True
    then show ?thesis using 2 by (intro exI[of _ f]) simp
  next
    case False
    then show ?thesis using 2 by auto
  qed
qed simp

text \<open>A register made of fields: the position, the length and the value of each.\<close>

definition combine :: "(nat \<times> nat \<times> nat) list \<Rightarrow> 32 word" where
  "combine fs = foldr (\<lambda>(p, l, x) w. push_bit p (of_nat x) OR w) fs 0"

lemma combine_simps [simp]:
  "combine [] = 0" "combine ((p, l, x) # fs) = push_bit p (of_nat x) OR combine fs"
  by (simp_all add: combine_def)

definition apart_from :: "nat \<Rightarrow> nat \<Rightarrow> (nat \<times> nat \<times> nat) list \<Rightarrow> bool" where
  "apart_from pos len fs = list_all (\<lambda>(p, l, x). x < 2 ^ l \<and> (p + l \<le> pos \<or> pos + len \<le> p)) fs"

lemma combine_apart: "apart_from pos len fs \<Longrightarrow> take_bit len (drop_bit pos (combine fs)) = 0"
  by (induction fs) (auto simp: apart_from_def drop_bit_or take_bit_or field_zero)

lemma field_combine:
  assumes "apart_from pos len as" "apart_from pos len bs" "x < 2 ^ len" "pos + len \<le> 32" "len \<le> 31"
  shows "field pos len (combine (as @ (pos, len, x) # bs)) = x"
proof -
  have "combine (as @ cs) = combine as OR combine cs" for cs
    by (induction as) (auto simp: or.assoc)
  then have "take_bit len (drop_bit pos (combine (as @ (pos, len, x) # bs))) = of_nat x"
    using combine_apart[OF assms(1)] combine_apart[OF assms(2)] field_self[OF assms(3,4)]
    by (simp add: drop_bit_or take_bit_or)
  then show ?thesis using unat_small[OF assms(3,5)] by (simp add: field_def)
qed

text \<open>The settings of the PLL are read as they were written.\<close>

lemma PLLCFGR_fields:
  assumes "k_pllq c < 16" "k_pllsrc c = push_bit 22 (of_nat src)" "src < 2" "p < 4" "k_plln c < 512" "k_pllm c < 64"
  shows "field 0 6 (PLLCFGR_value c p) = k_pllm c" "field 6 9 (PLLCFGR_value c p) = k_plln c"
    "field 16 2 (PLLCFGR_value c p) = p" "field 22 1 (PLLCFGR_value c p) = src"
proof -
  define fq where "fq = (24 :: nat, 4 :: nat, k_pllq c)"
  define fs where "fs = (22 :: nat, 1 :: nat, src)"
  define fp where "fp = (16 :: nat, 2 :: nat, p)"
  define fn where "fn = (6 :: nat, 9 :: nat, k_plln c)"
  define fm where "fm = (0 :: nat, 6 :: nat, k_pllm c)"
  note d = fq_def fs_def fp_def fn_def fm_def
  have v: "PLLCFGR_value c p = combine [fq, fs, fp, fn, fm]"
    unfolding PLLCFGR_value_def assms(2) d by (simp add: or.assoc)
  note F = assms(1,3-6)
  show "field 0 6 (PLLCFGR_value c p) = k_pllm c"
    unfolding v using F field_combine[of 0 6 "[fq, fs, fp, fn]" "[]" "k_pllm c"] by (simp add: apart_from_def d del: combine_simps)
  show "field 6 9 (PLLCFGR_value c p) = k_plln c"
    unfolding v using F field_combine[of 6 9 "[fq, fs, fp]" "[fm]" "k_plln c"] by (simp add: apart_from_def d del: combine_simps)
  show "field 16 2 (PLLCFGR_value c p) = p"
    unfolding v using F field_combine[of 16 2 "[fq, fs]" "[fn, fm]" p] by (simp add: apart_from_def d del: combine_simps)
  show "field 22 1 (PLLCFGR_value c p) = src"
    unfolding v using F field_combine[of 22 1 "[fq]" "[fp, fn, fm]" src] by (simp add: apart_from_def d del: combine_simps)
qed

end
