(* ===== verification/Dma_Block.thy ===== *)
theory Dma_Block
  imports Dma Dynamic
begin

text \<open>
  The two DMA controllers as \<^verbatim>\<open>platforms/STM32F4xx/stm32_dma.c\<close> drives them: the table of the sixteen
  streams, the mask of the allocated ones, the functions they are redirected to, and the sixteen
  interrupt vectors. The drivers use the streams through the view of theory \<open>Dma\<close>, of which this is the
  implementation. The wait for a stream to stop is for the hardware.
\<close>

section \<open>Registers\<close>

datatype dma_ctl = DMA1 | DMA2

text \<open>A stream's registers, and the descriptor of a stream: where its flags are in which register.\<close>

record dmastream =
  d_CR :: "32 word"
  d_NDTR :: "32 word"
  d_PAR :: "32 word"
  d_M0AR :: "32 word"
  d_M1AR :: "32 word"
  d_FCR :: "32 word"

record stm32_dma_stream_t =
  st_stream :: nat
  st_dma :: dma_ctl
  st_high :: bool
  st_ishift :: nat
  st_selfindex :: nat
  st_vector :: nat

record dmasys = kernel +
  lisr :: "dma_ctl \<Rightarrow> 32 word"
  hisr :: "dma_ctl \<Rightarrow> 32 word"
  dstreams :: "nat \<Rightarrow> dmastream"
  dma_streams_mask :: "32 word"
  dma_func :: "nat \<Rightarrow> nat option"
  dma_param :: "nat \<Rightarrow> nat"
  dma_clock :: "dma_ctl \<Rightarrow> bool"
  irq_vectors :: "nat \<Rightarrow> bool"

type_synonym 'x dmaisr = "nat \<Rightarrow> nat \<Rightarrow> 32 word \<Rightarrow> 'x dmasys_scheme \<Rightarrow> ('x dmasys_scheme, unit) outcome"

definition STM32_DMA_STREAMS :: nat where "STM32_DMA_STREAMS = 16"
definition STM32_DMA_ISR_MASK :: "32 word" where "STM32_DMA_ISR_MASK = 0x3D"
definition STM32_DMA1_STREAMS_MASK :: "32 word" where "STM32_DMA1_STREAMS_MASK = 0x000000FF"
definition STM32_DMA2_STREAMS_MASK :: "32 word" where "STM32_DMA2_STREAMS_MASK = 0x0000FF00"
definition STM32_DMA_CR_RESET_VALUE :: "32 word" where "STM32_DMA_CR_RESET_VALUE = 0"
definition STM32_DMA_FCR_RESET_VALUE :: "32 word" where "STM32_DMA_FCR_RESET_VALUE = 0x21"
definition STM32_DMA_CR_EN :: "32 word" where "STM32_DMA_CR_EN = 1"
definition STM32_DMA_CR_PINC :: "32 word" where "STM32_DMA_CR_PINC = 0x200"
definition STM32_DMA_CR_DIR_M2M :: "32 word" where "STM32_DMA_CR_DIR_M2M = 0x80"

definition stm32_dma_streams :: "stm32_dma_stream_t list" where
  "stm32_dma_streams = [
     \<lparr>st_stream = 0, st_dma = DMA1, st_high = False, st_ishift = 0, st_selfindex = 0, st_vector = 11\<rparr>,
     \<lparr>st_stream = 1, st_dma = DMA1, st_high = False, st_ishift = 6, st_selfindex = 1, st_vector = 12\<rparr>,
     \<lparr>st_stream = 2, st_dma = DMA1, st_high = False, st_ishift = 16, st_selfindex = 2, st_vector = 13\<rparr>,
     \<lparr>st_stream = 3, st_dma = DMA1, st_high = False, st_ishift = 22, st_selfindex = 3, st_vector = 14\<rparr>,
     \<lparr>st_stream = 4, st_dma = DMA1, st_high = True, st_ishift = 0, st_selfindex = 4, st_vector = 15\<rparr>,
     \<lparr>st_stream = 5, st_dma = DMA1, st_high = True, st_ishift = 6, st_selfindex = 5, st_vector = 16\<rparr>,
     \<lparr>st_stream = 6, st_dma = DMA1, st_high = True, st_ishift = 16, st_selfindex = 6, st_vector = 17\<rparr>,
     \<lparr>st_stream = 7, st_dma = DMA1, st_high = True, st_ishift = 22, st_selfindex = 7, st_vector = 47\<rparr>,
     \<lparr>st_stream = 8, st_dma = DMA2, st_high = False, st_ishift = 0, st_selfindex = 8, st_vector = 56\<rparr>,
     \<lparr>st_stream = 9, st_dma = DMA2, st_high = False, st_ishift = 6, st_selfindex = 9, st_vector = 57\<rparr>,
     \<lparr>st_stream = 10, st_dma = DMA2, st_high = False, st_ishift = 16, st_selfindex = 10, st_vector = 58\<rparr>,
     \<lparr>st_stream = 11, st_dma = DMA2, st_high = False, st_ishift = 22, st_selfindex = 11, st_vector = 59\<rparr>,
     \<lparr>st_stream = 12, st_dma = DMA2, st_high = True, st_ishift = 0, st_selfindex = 12, st_vector = 60\<rparr>,
     \<lparr>st_stream = 13, st_dma = DMA2, st_high = True, st_ishift = 6, st_selfindex = 13, st_vector = 68\<rparr>,
     \<lparr>st_stream = 14, st_dma = DMA2, st_high = True, st_ishift = 16, st_selfindex = 14, st_vector = 69\<rparr>,
     \<lparr>st_stream = 15, st_dma = DMA2, st_high = True, st_ishift = 22, st_selfindex = 15, st_vector = 70\<rparr>]"

text \<open>Ones written to a flag clear register clear those flags.\<close>

definition write_LIFCR :: "dma_ctl \<Rightarrow> 32 word \<Rightarrow> 'x dmasys_scheme \<Rightarrow> 'x dmasys_scheme" where
  "write_LIFCR c w s = s\<lparr>lisr := (lisr s)(c := lisr s c AND NOT w)\<rparr>"

definition write_HIFCR :: "dma_ctl \<Rightarrow> 32 word \<Rightarrow> 'x dmasys_scheme \<Rightarrow> 'x dmasys_scheme" where
  "write_HIFCR c w s = s\<lparr>hisr := (hisr s)(c := hisr s c AND NOT w)\<rparr>"

definition write_ifcr :: "stm32_dma_stream_t \<Rightarrow> 32 word \<Rightarrow> 'x dmasys_scheme \<Rightarrow> 'x dmasys_scheme" where
  "write_ifcr d w s = (if st_high d then write_HIFCR (st_dma d) w s else write_LIFCR (st_dma d) w s)"

definition upd_stream :: "stm32_dma_stream_t \<Rightarrow> (dmastream \<Rightarrow> dmastream) \<Rightarrow> 'x dmasys_scheme \<Rightarrow> 'x dmasys_scheme" where
  "upd_stream d f s = s\<lparr>dstreams := (dstreams s)(st_stream d := f (dstreams s (st_stream d)))\<rparr>"

section \<open>Interrupt vectors\<close>

definition dma_redirect :: "'x dmaisr \<Rightarrow> nat \<Rightarrow> 32 word \<Rightarrow> 'x dmasys_scheme \<Rightarrow> ('x dmasys_scheme, unit) outcome" where
  "dma_redirect call i flags s = (case dma_func s i of None \<Rightarrow> Done () s | Some f \<Rightarrow> call f (dma_param s i) flags s)"

definition DMA1_Stream0_IRQHandler :: "('x dmaisr) \<Rightarrow> 'x dmasys_scheme \<Rightarrow> ('x dmasys_scheme, unit) outcome" where
  "DMA1_Stream0_IRQHandler call s =
     (let flags = drop_bit 0 (lisr s DMA1) AND STM32_DMA_ISR_MASK;
          s1 = write_LIFCR DMA1 (push_bit 0 STM32_DMA_ISR_MASK) s
      in obind (dma_redirect call 0 flags s1) (\<lambda>_. port_irq_epilogue))"

definition DMA1_Stream1_IRQHandler :: "('x dmaisr) \<Rightarrow> 'x dmasys_scheme \<Rightarrow> ('x dmasys_scheme, unit) outcome" where
  "DMA1_Stream1_IRQHandler call s =
     (let flags = drop_bit 6 (lisr s DMA1) AND STM32_DMA_ISR_MASK;
          s1 = write_LIFCR DMA1 (push_bit 6 STM32_DMA_ISR_MASK) s
      in obind (dma_redirect call 1 flags s1) (\<lambda>_. port_irq_epilogue))"

definition DMA1_Stream2_IRQHandler :: "('x dmaisr) \<Rightarrow> 'x dmasys_scheme \<Rightarrow> ('x dmasys_scheme, unit) outcome" where
  "DMA1_Stream2_IRQHandler call s =
     (let flags = drop_bit 16 (lisr s DMA1) AND STM32_DMA_ISR_MASK;
          s1 = write_LIFCR DMA1 (push_bit 16 STM32_DMA_ISR_MASK) s
      in obind (dma_redirect call 2 flags s1) (\<lambda>_. port_irq_epilogue))"

definition DMA1_Stream3_IRQHandler :: "('x dmaisr) \<Rightarrow> 'x dmasys_scheme \<Rightarrow> ('x dmasys_scheme, unit) outcome" where
  "DMA1_Stream3_IRQHandler call s =
     (let flags = drop_bit 22 (lisr s DMA1) AND STM32_DMA_ISR_MASK;
          s1 = write_LIFCR DMA1 (push_bit 22 STM32_DMA_ISR_MASK) s
      in obind (dma_redirect call 3 flags s1) (\<lambda>_. port_irq_epilogue))"

definition DMA1_Stream4_IRQHandler :: "('x dmaisr) \<Rightarrow> 'x dmasys_scheme \<Rightarrow> ('x dmasys_scheme, unit) outcome" where
  "DMA1_Stream4_IRQHandler call s =
     (let flags = drop_bit 0 (hisr s DMA1) AND STM32_DMA_ISR_MASK;
          s1 = write_HIFCR DMA1 (push_bit 0 STM32_DMA_ISR_MASK) s
      in obind (dma_redirect call 4 flags s1) (\<lambda>_. port_irq_epilogue))"

definition DMA1_Stream5_IRQHandler :: "('x dmaisr) \<Rightarrow> 'x dmasys_scheme \<Rightarrow> ('x dmasys_scheme, unit) outcome" where
  "DMA1_Stream5_IRQHandler call s =
     (let flags = drop_bit 6 (hisr s DMA1) AND STM32_DMA_ISR_MASK;
          s1 = write_HIFCR DMA1 (push_bit 6 STM32_DMA_ISR_MASK) s
      in obind (dma_redirect call 5 flags s1) (\<lambda>_. port_irq_epilogue))"

definition DMA1_Stream6_IRQHandler :: "('x dmaisr) \<Rightarrow> 'x dmasys_scheme \<Rightarrow> ('x dmasys_scheme, unit) outcome" where
  "DMA1_Stream6_IRQHandler call s =
     (let flags = drop_bit 16 (hisr s DMA1) AND STM32_DMA_ISR_MASK;
          s1 = write_HIFCR DMA1 (push_bit 16 STM32_DMA_ISR_MASK) s
      in obind (dma_redirect call 6 flags s1) (\<lambda>_. port_irq_epilogue))"

definition DMA1_Stream7_IRQHandler :: "('x dmaisr) \<Rightarrow> 'x dmasys_scheme \<Rightarrow> ('x dmasys_scheme, unit) outcome" where
  "DMA1_Stream7_IRQHandler call s =
     (let flags = drop_bit 22 (hisr s DMA1) AND STM32_DMA_ISR_MASK;
          s1 = write_HIFCR DMA1 (push_bit 22 STM32_DMA_ISR_MASK) s
      in obind (dma_redirect call 7 flags s1) (\<lambda>_. port_irq_epilogue))"

definition DMA2_Stream0_IRQHandler :: "('x dmaisr) \<Rightarrow> 'x dmasys_scheme \<Rightarrow> ('x dmasys_scheme, unit) outcome" where
  "DMA2_Stream0_IRQHandler call s =
     (let flags = drop_bit 0 (lisr s DMA2) AND STM32_DMA_ISR_MASK;
          s1 = write_LIFCR DMA2 (push_bit 0 STM32_DMA_ISR_MASK) s
      in obind (dma_redirect call 8 flags s1) (\<lambda>_. port_irq_epilogue))"

definition DMA2_Stream1_IRQHandler :: "('x dmaisr) \<Rightarrow> 'x dmasys_scheme \<Rightarrow> ('x dmasys_scheme, unit) outcome" where
  "DMA2_Stream1_IRQHandler call s =
     (let flags = drop_bit 6 (lisr s DMA2) AND STM32_DMA_ISR_MASK;
          s1 = write_LIFCR DMA2 (push_bit 6 STM32_DMA_ISR_MASK) s
      in obind (dma_redirect call 9 flags s1) (\<lambda>_. port_irq_epilogue))"

definition DMA2_Stream2_IRQHandler :: "('x dmaisr) \<Rightarrow> 'x dmasys_scheme \<Rightarrow> ('x dmasys_scheme, unit) outcome" where
  "DMA2_Stream2_IRQHandler call s =
     (let flags = drop_bit 16 (lisr s DMA2) AND STM32_DMA_ISR_MASK;
          s1 = write_LIFCR DMA2 (push_bit 16 STM32_DMA_ISR_MASK) s
      in obind (dma_redirect call 10 flags s1) (\<lambda>_. port_irq_epilogue))"

definition DMA2_Stream3_IRQHandler :: "('x dmaisr) \<Rightarrow> 'x dmasys_scheme \<Rightarrow> ('x dmasys_scheme, unit) outcome" where
  "DMA2_Stream3_IRQHandler call s =
     (let flags = drop_bit 22 (lisr s DMA2) AND STM32_DMA_ISR_MASK;
          s1 = write_LIFCR DMA2 (push_bit 22 STM32_DMA_ISR_MASK) s
      in obind (dma_redirect call 11 flags s1) (\<lambda>_. port_irq_epilogue))"

definition DMA2_Stream4_IRQHandler :: "('x dmaisr) \<Rightarrow> 'x dmasys_scheme \<Rightarrow> ('x dmasys_scheme, unit) outcome" where
  "DMA2_Stream4_IRQHandler call s =
     (let flags = drop_bit 0 (hisr s DMA2) AND STM32_DMA_ISR_MASK;
          s1 = write_HIFCR DMA2 (push_bit 0 STM32_DMA_ISR_MASK) s
      in obind (dma_redirect call 12 flags s1) (\<lambda>_. port_irq_epilogue))"

definition DMA2_Stream5_IRQHandler :: "('x dmaisr) \<Rightarrow> 'x dmasys_scheme \<Rightarrow> ('x dmasys_scheme, unit) outcome" where
  "DMA2_Stream5_IRQHandler call s =
     (let flags = drop_bit 6 (hisr s DMA2) AND STM32_DMA_ISR_MASK;
          s1 = write_HIFCR DMA2 (push_bit 6 STM32_DMA_ISR_MASK) s
      in obind (dma_redirect call 13 flags s1) (\<lambda>_. port_irq_epilogue))"

definition DMA2_Stream6_IRQHandler :: "('x dmaisr) \<Rightarrow> 'x dmasys_scheme \<Rightarrow> ('x dmasys_scheme, unit) outcome" where
  "DMA2_Stream6_IRQHandler call s =
     (let flags = drop_bit 16 (hisr s DMA2) AND STM32_DMA_ISR_MASK;
          s1 = write_HIFCR DMA2 (push_bit 16 STM32_DMA_ISR_MASK) s
      in obind (dma_redirect call 14 flags s1) (\<lambda>_. port_irq_epilogue))"

definition DMA2_Stream7_IRQHandler :: "('x dmaisr) \<Rightarrow> 'x dmasys_scheme \<Rightarrow> ('x dmasys_scheme, unit) outcome" where
  "DMA2_Stream7_IRQHandler call s =
     (let flags = drop_bit 22 (hisr s DMA2) AND STM32_DMA_ISR_MASK;
          s1 = write_HIFCR DMA2 (push_bit 22 STM32_DMA_ISR_MASK) s
      in obind (dma_redirect call 15 flags s1) (\<lambda>_. port_irq_epilogue))"

text \<open>The vectors in the order of the streams.\<close>

definition dma_vectors :: "'x dmaisr \<Rightarrow> ('x dmasys_scheme \<Rightarrow> ('x dmasys_scheme, unit) outcome) list" where
  "dma_vectors call = map (\<lambda>h. h call) [DMA1_Stream0_IRQHandler, DMA1_Stream1_IRQHandler, DMA1_Stream2_IRQHandler, DMA1_Stream3_IRQHandler, DMA1_Stream4_IRQHandler, DMA1_Stream5_IRQHandler, DMA1_Stream6_IRQHandler, DMA1_Stream7_IRQHandler, DMA2_Stream0_IRQHandler, DMA2_Stream1_IRQHandler, DMA2_Stream2_IRQHandler, DMA2_Stream3_IRQHandler, DMA2_Stream4_IRQHandler, DMA2_Stream5_IRQHandler, DMA2_Stream6_IRQHandler, DMA2_Stream7_IRQHandler]"

lemmas dma_vector_defs = DMA1_Stream0_IRQHandler_def DMA1_Stream1_IRQHandler_def DMA1_Stream2_IRQHandler_def DMA1_Stream3_IRQHandler_def DMA1_Stream4_IRQHandler_def DMA1_Stream5_IRQHandler_def DMA1_Stream6_IRQHandler_def DMA1_Stream7_IRQHandler_def DMA2_Stream0_IRQHandler_def DMA2_Stream1_IRQHandler_def DMA2_Stream2_IRQHandler_def DMA2_Stream3_IRQHandler_def DMA2_Stream4_IRQHandler_def DMA2_Stream5_IRQHandler_def DMA2_Stream6_IRQHandler_def DMA2_Stream7_IRQHandler_def

section \<open>Operations\<close>

definition blk_ClearInterrupt :: "stm32_dma_stream_t \<Rightarrow> 'x dmasys_scheme \<Rightarrow> 'x dmasys_scheme" where
  "blk_ClearInterrupt d s = write_ifcr d (push_bit (st_ishift d) STM32_DMA_ISR_MASK) s"

definition blk_Enable :: "stm32_dma_stream_t \<Rightarrow> 'x dmasys_scheme \<Rightarrow> 'x dmasys_scheme" where
  "blk_Enable d = upd_stream d (\<lambda>r. r\<lparr>d_CR := d_CR r OR STM32_DMA_CR_EN\<rparr>)"

definition blk_Disable :: "stm32_dma_stream_t \<Rightarrow> 'x dmasys_scheme \<Rightarrow> 'x dmasys_scheme" where
  "blk_Disable d s = blk_ClearInterrupt d (upd_stream d (\<lambda>r. r\<lparr>d_CR := d_CR r AND NOT STM32_DMA_CR_EN\<rparr>) s)"

definition blk_SetPeripheral :: "stm32_dma_stream_t \<Rightarrow> 32 word \<Rightarrow> 'x dmasys_scheme \<Rightarrow> 'x dmasys_scheme" where
  "blk_SetPeripheral d a = upd_stream d (\<lambda>r. r\<lparr>d_PAR := a\<rparr>)"

definition blk_SetMemory0 :: "stm32_dma_stream_t \<Rightarrow> 32 word \<Rightarrow> 'x dmasys_scheme \<Rightarrow> 'x dmasys_scheme" where
  "blk_SetMemory0 d a = upd_stream d (\<lambda>r. r\<lparr>d_M0AR := a\<rparr>)"

definition blk_SetMemory1 :: "stm32_dma_stream_t \<Rightarrow> 32 word \<Rightarrow> 'x dmasys_scheme \<Rightarrow> 'x dmasys_scheme" where
  "blk_SetMemory1 d a = upd_stream d (\<lambda>r. r\<lparr>d_M1AR := a\<rparr>)"

definition blk_SetTransactionSize :: "stm32_dma_stream_t \<Rightarrow> 32 word \<Rightarrow> 'x dmasys_scheme \<Rightarrow> 'x dmasys_scheme" where
  "blk_SetTransactionSize d n = upd_stream d (\<lambda>r. r\<lparr>d_NDTR := n\<rparr>)"

definition blk_SetMode :: "stm32_dma_stream_t \<Rightarrow> 32 word \<Rightarrow> 'x dmasys_scheme \<Rightarrow> 'x dmasys_scheme" where
  "blk_SetMode d m = upd_stream d (\<lambda>r. r\<lparr>d_CR := m\<rparr>)"

definition blk_SetFIFO :: "stm32_dma_stream_t \<Rightarrow> 32 word \<Rightarrow> 'x dmasys_scheme \<Rightarrow> 'x dmasys_scheme" where
  "blk_SetFIFO d m = upd_stream d (\<lambda>r. r\<lparr>d_FCR := m\<rparr>)"

definition dmaStartMemCopy :: "stm32_dma_stream_t \<Rightarrow> 32 word \<Rightarrow> 32 word \<Rightarrow> 32 word \<Rightarrow> 32 word \<Rightarrow> 'x dmasys_scheme \<Rightarrow> 'x dmasys_scheme" where
  "dmaStartMemCopy d mode src dst n s =
     blk_SetMode d (mode OR STM32_DMA_CR_MINC OR STM32_DMA_CR_PINC OR STM32_DMA_CR_DIR_M2M OR STM32_DMA_CR_EN)
       (blk_SetTransactionSize d n (blk_SetMemory0 d dst (blk_SetPeripheral d src s)))"

definition dmaInit :: "'x dmasys_scheme \<Rightarrow> 'x dmasys_scheme" where
  "dmaInit s =
     (let s1 = s\<lparr>dma_streams_mask := 0,
                  dstreams := (\<lambda>i. if i < STM32_DMA_STREAMS then (dstreams s i)\<lparr>d_CR := 0\<rparr> else dstreams s i),
                  dma_func := (\<lambda>i. if i < STM32_DMA_STREAMS then None else dma_func s i)\<rparr>
      in write_HIFCR DMA2 0xFFFFFFFF (write_LIFCR DMA2 0xFFFFFFFF (write_HIFCR DMA1 0xFFFFFFFF (write_LIFCR DMA1 0xFFFFFFFF s1))))"

text \<open>Taking a stream with a handling function, or none; and giving it back.\<close>

definition blk_Allocate :: "stm32_dma_stream_t \<Rightarrow> nat option \<Rightarrow> nat \<Rightarrow> 'x dmasys_scheme \<Rightarrow> bool \<times> 'x dmasys_scheme" where
  "blk_Allocate d func param s =
     (let i = st_selfindex d in
      if dma_streams_mask s AND push_bit i 1 \<noteq> 0 then (True, s) else
      let s1 = s\<lparr>dma_func := (dma_func s)(i := func), dma_param := (dma_param s)(i := param),
                  dma_streams_mask := dma_streams_mask s OR push_bit i 1\<rparr>;
          s2 = (if dma_streams_mask s1 AND STM32_DMA1_STREAMS_MASK \<noteq> 0 then s1\<lparr>dma_clock := (dma_clock s1)(DMA1 := True)\<rparr> else s1);
          s3 = (if dma_streams_mask s2 AND STM32_DMA2_STREAMS_MASK \<noteq> 0 then s2\<lparr>dma_clock := (dma_clock s2)(DMA2 := True)\<rparr> else s2);
          s4 = upd_stream d (\<lambda>r. r\<lparr>d_CR := STM32_DMA_CR_RESET_VALUE, d_FCR := STM32_DMA_FCR_RESET_VALUE\<rparr>) (blk_Disable d s3)
      in (False, if func \<noteq> None then s4\<lparr>irq_vectors := (irq_vectors s4)(st_vector d := True)\<rparr> else s4))"

definition blk_Release :: "stm32_dma_stream_t \<Rightarrow> 'x dmasys_scheme \<Rightarrow> 'x dmasys_scheme" where
  "blk_Release d s =
     (let s1 = s\<lparr>irq_vectors := (irq_vectors s)(st_vector d := False),
                  dma_streams_mask := dma_streams_mask s AND NOT (push_bit (st_selfindex d) 1)\<rparr>;
          s2 = (if dma_streams_mask s1 AND STM32_DMA1_STREAMS_MASK = 0 then s1\<lparr>dma_clock := (dma_clock s1)(DMA1 := False)\<rparr> else s1)
      in if dma_streams_mask s2 AND STM32_DMA2_STREAMS_MASK = 0 then s2\<lparr>dma_clock := (dma_clock s2)(DMA2 := False)\<rparr> else s2)"

section \<open>The vectors follow the table\<close>

text \<open>The flags of a stream, where its descriptor says they are.\<close>

definition stream_flags :: "stm32_dma_stream_t \<Rightarrow> 'x dmasys_scheme \<Rightarrow> 32 word" where
  "stream_flags d s = drop_bit (st_ishift d) (if st_high d then hisr s (st_dma d) else lisr s (st_dma d)) AND STM32_DMA_ISR_MASK"

abbreviation "dma_stream i \<equiv> stm32_dma_streams ! i"

lemma below16: "i < (16 :: nat) \<longleftrightarrow> i \<in> {0, 1, 2, 3, 4, 5, 6, 7, 8, 9, 10, 11, 12, 13, 14, 15}"
  by (simp add: numeral_eq_Suc less_Suc_eq disj_ac)

lemma dma_vector_eq:
  assumes "i < 16"
  shows "(dma_vectors call ! i) s =
    obind (dma_redirect call i (stream_flags (dma_stream i) s) (blk_ClearInterrupt (dma_stream i) s)) (\<lambda>_. port_irq_epilogue)"
  using assms unfolding below16
  by (elim insertE emptyE) (simp_all add: dma_vectors_def dma_vector_defs stm32_dma_streams_def stream_flags_def
      blk_ClearInterrupt_def write_ifcr_def Let_def)

lemma clear_mask:
  assumes "a \<in> {0, 6, 16, 22}" "b \<in> {0, 6, 16, 22 :: nat}"
  shows "drop_bit a (NOT (push_bit b STM32_DMA_ISR_MASK)) AND STM32_DMA_ISR_MASK = (if a = b then 0 else STM32_DMA_ISR_MASK)"
  using assms unfolding STM32_DMA_ISR_MASK_def by (elim insertE emptyE) simp_all

text \<open>No two descriptors name the same flags.\<close>

lemma descriptors:
  assumes "i < 16"
  shows "st_ishift (dma_stream i) \<in> {0, 6, 16, 22}" "st_stream (dma_stream i) = i" "st_selfindex (dma_stream i) = i"
    "st_dma (dma_stream i) = (if i < 8 then DMA1 else DMA2)"
    "j < 16 \<Longrightarrow> st_dma (dma_stream i) = st_dma (dma_stream j) \<Longrightarrow> st_high (dma_stream i) = st_high (dma_stream j) \<Longrightarrow>
      st_ishift (dma_stream i) = st_ishift (dma_stream j) \<Longrightarrow> i = j"
    "j < 16 \<Longrightarrow> st_vector (dma_stream i) = st_vector (dma_stream j) \<Longrightarrow> i = j"
proof -
  show "st_ishift (dma_stream i) \<in> {0, 6, 16, 22}" "st_stream (dma_stream i) = i" "st_selfindex (dma_stream i) = i"
    "st_dma (dma_stream i) = (if i < 8 then DMA1 else DMA2)"
    using assms unfolding below16 by (elim insertE emptyE; simp add: stm32_dma_streams_def)+
  have d: "distinct (map (\<lambda>d. (st_dma d, st_high d, st_ishift d)) stm32_dma_streams)" "distinct (map st_vector stm32_dma_streams)"
    "length stm32_dma_streams = 16"
    by (simp_all add: stm32_dma_streams_def)
  show "j < 16 \<Longrightarrow> st_dma (dma_stream i) = st_dma (dma_stream j) \<Longrightarrow> st_high (dma_stream i) = st_high (dma_stream j) \<Longrightarrow>
      st_ishift (dma_stream i) = st_ishift (dma_stream j) \<Longrightarrow> i = j"
    using nth_eq_iff_index_eq[OF d(1), of i j] d(3) assms by simp
  show "j < 16 \<Longrightarrow> st_vector (dma_stream i) = st_vector (dma_stream j) \<Longrightarrow> i = j"
    using nth_eq_iff_index_eq[OF d(2), of i j] d(3) assms by simp
qed

text \<open>Clearing the flags of a stream leaves those of the others.\<close>

lemma clear_flags:
  assumes "i < 16" "j < 16"
  shows "stream_flags (dma_stream j) (blk_ClearInterrupt (dma_stream i) s) = (if j = i then 0 else stream_flags (dma_stream j) s)"
proof -
  let ?d = "dma_stream i" and ?e = "dma_stream j"
  let ?reg = "\<lambda>s :: 'a dmasys_scheme. if st_high ?e then hisr s (st_dma ?e) else lisr s (st_dma ?e)"
  let ?same = "st_dma ?e = st_dma ?d \<and> st_high ?e = st_high ?d"
  have r: "?reg (blk_ClearInterrupt ?d s) = (if ?same then ?reg s AND NOT (push_bit (st_ishift ?d) STM32_DMA_ISR_MASK) else ?reg s)"
    by (auto simp: blk_ClearInterrupt_def write_ifcr_def write_HIFCR_def write_LIFCR_def)
  show ?thesis
  proof (cases ?same)
    case True
    have "stream_flags ?e (blk_ClearInterrupt ?d s) = drop_bit (st_ishift ?e) (?reg s) AND
        (drop_bit (st_ishift ?e) (NOT (push_bit (st_ishift ?d) STM32_DMA_ISR_MASK)) AND STM32_DMA_ISR_MASK)"
      unfolding stream_flags_def r by (simp add: True drop_bit_and and.assoc)
    also have "\<dots> = (if st_ishift ?e = st_ishift ?d then 0 else stream_flags ?e s)"
      unfolding clear_mask[OF descriptors(1)[OF assms(2)] descriptors(1)[OF assms(1)]] by (simp add: stream_flags_def)
    finally show ?thesis using True descriptors(5)[OF assms(2,1)] by auto
  next
    case False
    then show ?thesis unfolding stream_flags_def r by auto
  qed
qed

section \<open>Allocation\<close>

text \<open>What the drivers see of the mask: whether a stream is taken.\<close>

definition stream_taken :: "nat \<Rightarrow> 'x dmasys_scheme \<Rightarrow> bool" where
  "stream_taken i s = bit (dma_streams_mask s) i"

text \<open>The clock of a controller runs while one of its streams is taken.\<close>

definition clocks_ok :: "'x dmasys_scheme \<Rightarrow> bool" where
  "clocks_ok s \<longleftrightarrow> (\<forall>i<16. stream_taken i s \<longrightarrow> dma_clock s (if i < 8 then DMA1 else DMA2))"

declare push_bit_of_1 [simp del]

lemma zero_word: "(\<And>n. bit (w :: 32 word) n = P n) \<Longrightarrow> (w = 0) = (\<forall>n. \<not> P n)"
  by (auto intro: bit_word_eqI)

lemma mask_bit: "(m AND push_bit i 1 = 0) = (\<not> bit m i)" if "i < 16" for m :: "32 word"
proof -
  have "bit (m AND push_bit i 1) n = (n = i \<and> bit m i)" for n
    using that by (auto simp: bit_simps dest: bit_imp_le_length)
  from zero_word[OF this] show ?thesis by simp
qed

lemma streams_mask:
  "(m AND STM32_DMA1_STREAMS_MASK = 0) = (\<forall>i<8. \<not> bit m i)" "(m AND STM32_DMA2_STREAMS_MASK = 0) = (\<forall>i<16. 8 \<le> i \<longrightarrow> \<not> bit m i)"
proof -
  have e: "STM32_DMA1_STREAMS_MASK = mask 8" "STM32_DMA2_STREAMS_MASK = push_bit 8 (mask 8)"
    by (simp_all add: STM32_DMA1_STREAMS_MASK_def STM32_DMA2_STREAMS_MASK_def mask_eq_exp_minus_1 push_bit_eq_mult)
  have "bit (m AND mask 8) n = (n < 8 \<and> bit m n)" for n
    by (auto simp: bit_simps dest: bit_imp_le_length)
  from zero_word[OF this] show "(m AND STM32_DMA1_STREAMS_MASK = 0) = (\<forall>i<8. \<not> bit m i)" unfolding e by blast
  have "bit (m AND push_bit 8 (mask 8)) n = (n < 16 \<and> 8 \<le> n \<and> bit m n)" for n
    by (auto simp: bit_simps dest: bit_imp_le_length)
  from zero_word[OF this] show "(m AND STM32_DMA2_STREAMS_MASK = 0) = (\<forall>i<16. 8 \<le> i \<longrightarrow> \<not> bit m i)" unfolding e by blast
qed

text \<open>A stream that is taken is refused; one that is free is taken, stopped and without flags, and no other is touched.\<close>

lemma upd_stream_fields [simp]:
  "dma_streams_mask (upd_stream d f s) = dma_streams_mask s" "dma_clock (upd_stream d f s) = dma_clock s"
  "stream_flags e (upd_stream d f s) = stream_flags e s" "dma_func (upd_stream d f s) = dma_func s"
  "dma_param (upd_stream d f s) = dma_param s" "irq_vectors (upd_stream d f s) = irq_vectors s"
  "dstreams (upd_stream d f s) = (dstreams s)(st_stream d := f (dstreams s (st_stream d)))"
  by (simp_all add: upd_stream_def stream_flags_def)

lemma flags_same: "lisr s' = lisr s \<Longrightarrow> hisr s' = hisr s \<Longrightarrow> stream_flags e s' = stream_flags e s"
  by (simp add: stream_flags_def)

lemma clear_fields [simp]:
  "dma_streams_mask (blk_ClearInterrupt d s) = dma_streams_mask s" "dma_clock (blk_ClearInterrupt d s) = dma_clock s"
  "dma_func (blk_ClearInterrupt d s) = dma_func s" "dma_param (blk_ClearInterrupt d s) = dma_param s"
  "irq_vectors (blk_ClearInterrupt d s) = irq_vectors s" "dstreams (blk_ClearInterrupt d s) = dstreams s"
  by (simp_all add: blk_ClearInterrupt_def write_ifcr_def write_HIFCR_def write_LIFCR_def)

lemma mask_or: "bit (m OR push_bit i 1 :: 32 word) j = (j = i \<or> bit m j)" if "i < 16"
  using that by (auto simp: bit_simps)

lemma allocate_taken: "i < 16 \<Longrightarrow> stream_taken i s \<Longrightarrow> blk_Allocate (dma_stream i) f p s = (True, s)"
  using mask_bit[of i] descriptors(3)[of i] by (simp add: blk_Allocate_def stream_taken_def)

lemma allocate_free:
  assumes "i < 16" "\<not> stream_taken i s" "clocks_ok s"
  shows "\<exists>s'. blk_Allocate (dma_stream i) f p s = (False, s') \<and> (\<forall>j. stream_taken j s' = (j = i \<or> stream_taken j s)) \<and> clocks_ok s' \<and>
    dma_func s' = (dma_func s)(i := f) \<and> dma_param s' = (dma_param s)(i := p) \<and>
    d_CR (dstreams s' i) = 0 \<and> (\<forall>j. j \<noteq> i \<longrightarrow> dstreams s' j = dstreams s j) \<and>
    (\<forall>j<16. stream_flags (dma_stream j) s' = (if j = i then 0 else stream_flags (dma_stream j) s))"
proof -
  let ?d = "dma_stream i"
  note D = descriptors(2,3)[OF assms(1)]
  let ?m = "dma_streams_mask s OR push_bit i 1"
  define cl where "cl = (\<lambda>c. dma_clock s c \<or> (c = DMA1 \<and> ?m AND STM32_DMA1_STREAMS_MASK \<noteq> 0) \<or> (c = DMA2 \<and> ?m AND STM32_DMA2_STREAMS_MASK \<noteq> 0))"
  let ?s3 = "s\<lparr>dma_func := (dma_func s)(i := f), dma_param := (dma_param s)(i := p), dma_streams_mask := ?m, dma_clock := cl\<rparr>"
  let ?s4 = "upd_stream ?d (\<lambda>r. r\<lparr>d_CR := STM32_DMA_CR_RESET_VALUE, d_FCR := STM32_DMA_FCR_RESET_VALUE\<rparr>) (blk_Disable ?d ?s3)"
  let ?s5 = "if f \<noteq> None then ?s4\<lparr>irq_vectors := (irq_vectors ?s4)(st_vector ?d := True)\<rparr> else ?s4"
  have cl: "cl = (let k = (if ?m AND STM32_DMA1_STREAMS_MASK \<noteq> 0 then (dma_clock s)(DMA1 := True) else dma_clock s)
      in if ?m AND STM32_DMA2_STREAMS_MASK \<noteq> 0 then k(DMA2 := True) else k)"
    by (auto simp: cl_def Let_def fun_eq_iff)
  have a: "blk_Allocate ?d f p s = (False, ?s5)"
    using assms(2) mask_bit[OF assms(1), of "dma_streams_mask s"] unfolding cl
    by (simp add: blk_Allocate_def Let_def D stream_taken_def)
  have t: "stream_taken j ?s5 = (j = i \<or> stream_taken j s)" for j
    by (simp add: stream_taken_def blk_Disable_def mask_or[OF assms(1)])
  have "clocks_ok ?s5" unfolding clocks_ok_def t
  proof (intro allI impI)
    fix j :: nat assume "j < 16" "j = i \<or> stream_taken j s"
    then have "bit ?m j" by (auto simp: mask_or[OF assms(1)] stream_taken_def)
    then show "dma_clock ?s5 (if j < 8 then DMA1 else DMA2)"
      using \<open>j < 16\<close> streams_mask[of ?m] by (auto simp: blk_Disable_def cl_def not_less)
  qed
  moreover have "stream_flags (dma_stream j) ?s5 = (if j = i then 0 else stream_flags (dma_stream j) s)" if "j < 16" for j
  proof -
    have "stream_flags (dma_stream j) ?s5 = stream_flags (dma_stream j) (blk_ClearInterrupt ?d (upd_stream ?d (\<lambda>r. r\<lparr>d_CR := d_CR r AND NOT STM32_DMA_CR_EN\<rparr>) ?s3))"
      by (rule flags_same) (simp_all add: blk_Disable_def upd_stream_def)
    also have "\<dots> = (if j = i then 0 else stream_flags (dma_stream j) ?s3)"
      unfolding clear_flags[OF assms(1) that] by simp
    finally show ?thesis using flags_same[of ?s3 s] by simp
  qed
  ultimately show ?thesis using a t
    by (intro exI[of _ ?s5]) (simp add: blk_Disable_def D STM32_DMA_CR_RESET_VALUE_def)
qed

text \<open>A stream that is released is free again, and a controller without streams is switched off.\<close>

lemma release_free:
  assumes "i < 16"
  shows "stream_taken j (blk_Release (dma_stream i) s) = (j \<noteq> i \<and> stream_taken j s)"
    "dma_clock (blk_Release (dma_stream i) s) c =
      (dma_clock s c \<and> (\<exists>j<16. j \<noteq> i \<and> stream_taken j s \<and> st_dma (dma_stream j) = c))"
    "irq_vectors (blk_Release (dma_stream i) s) = (irq_vectors s)(st_vector (dma_stream i) := False)"
proof -
  let ?d = "dma_stream i"
  let ?m = "dma_streams_mask s AND NOT (push_bit i 1)"
  note D = descriptors(2,3)[OF assms]
  have m: "bit ?m j = (j \<noteq> i \<and> bit (dma_streams_mask s) j)" for j
    using assms by (auto simp: bit_simps dest: bit_imp_le_length)
  have k: "dma_streams_mask (blk_Release ?d s) = ?m" "irq_vectors (blk_Release ?d s) = (irq_vectors s)(st_vector ?d := False)"
    by (simp_all add: blk_Release_def Let_def D)
  show "stream_taken j (blk_Release (dma_stream i) s) = (j \<noteq> i \<and> stream_taken j s)" by (simp add: stream_taken_def k m)
  show "irq_vectors (blk_Release (dma_stream i) s) = (irq_vectors s)(st_vector (dma_stream i) := False)" by (rule k(2))
  have c: "dma_clock (blk_Release ?d s) c = (dma_clock s c \<and> (c = DMA1 \<longrightarrow> ?m AND STM32_DMA1_STREAMS_MASK \<noteq> 0) \<and>
      (c = DMA2 \<longrightarrow> ?m AND STM32_DMA2_STREAMS_MASK \<noteq> 0))"
    by (cases c) (auto simp: blk_Release_def Let_def D)
  show "dma_clock (blk_Release (dma_stream i) s) c =
      (dma_clock s c \<and> (\<exists>j<16. j \<noteq> i \<and> stream_taken j s \<and> st_dma (dma_stream j) = c))"
  proof (cases c)
    case DMA1
    have "(\<exists>j<16. j \<noteq> i \<and> stream_taken j s \<and> st_dma (dma_stream j) = DMA1) = (\<exists>j<8. bit ?m j)"
      unfolding m stream_taken_def using descriptors(4) by (metis dma_ctl.distinct(1) less_trans[of _ 8 16] numeral_less_iff semiring_norm(76,77,78,79,80))
    then show ?thesis unfolding c using DMA1 by (simp add: streams_mask)
  next
    case DMA2
    have "(\<exists>j<16. j \<noteq> i \<and> stream_taken j s \<and> st_dma (dma_stream j) = DMA2) = (\<exists>j<16. 8 \<le> j \<and> bit ?m j)"
      unfolding m stream_taken_def using descriptors(4) by (metis dma_ctl.distinct(1) not_less)
    then show ?thesis unfolding c using DMA2 by (simp add: streams_mask)
  qed
qed

declare push_bit_of_1 [simp]

end
