(* ===== verification/Clock_Init.thy ===== *)
theory Clock_Init
  imports Clock Dma_Block
begin

text \<open>
  What \<open>stm32_clock_init\<close> of \<open>Clock\<close> leaves in the registers, under the documented behaviour of the clock
  controller, and the rest of the start of the chip: \<open>hal_lld_init\<close> with the backup domain and the
  system timer (\<^verbatim>\<open>platforms/STM32F4xx/hal_lld.c\<close>).
\<close>

section \<open>The clock controller\<close>

text \<open>The part of the registers that only the program writes: all but the ready bits and the source in use.\<close>

definition settings :: "rcc \<Rightarrow> rcc" where
  "settings s = s\<lparr>rc_CR := rc_CR s AND NOT 0x0A020002, rc_CFGR := rc_CFGR s AND NOT 0xC,
                  rc_CSR := rc_CSR s AND NOT 0x2, rc_BDCR := rc_BDCR s AND NOT 0x2, pwr_CSR := 0\<rparr>"

definition ready_within :: "nat \<Rightarrow> (rcc \<Rightarrow> rcc) \<Rightarrow> (rcc \<Rightarrow> bool) \<Rightarrow> rcc \<Rightarrow> bool" where
  "ready_within n hw ready s \<longleftrightarrow> (\<exists>k<n. ready ((hw ^^ k) s))"

text \<open>
  The controller by its reference manual: it changes its status bits only; each oscillator that is on is
  ready within \<open>n\<close> readings, a PLL when its source is on, and the source in use then follows the switch and stays.
\<close>

definition clock_hardware :: "nat \<Rightarrow> (rcc \<Rightarrow> rcc) \<Rightarrow> bool" where
  "clock_hardware n hw \<longleftrightarrow> (\<forall>s. settings (hw s) = settings s \<and>
     (rc_CFGR s AND 0xC = push_bit 2 (rc_CFGR s AND 3) \<longrightarrow> rc_CFGR (hw s) = rc_CFGR s) \<and>
     ready_within n hw (\<lambda>s. pwr_CSR s AND 0x4000 \<noteq> 0) s \<and>
     (bit (rc_CR s) 0 \<longrightarrow> ready_within n hw (\<lambda>s. rc_CR s AND 0x2 \<noteq> 0) s) \<and>
     (bit (rc_CR s) 16 \<longrightarrow> ready_within n hw (\<lambda>s. rc_CR s AND 0x20000 \<noteq> 0) s) \<and>
     (bit (rc_CSR s) 0 \<longrightarrow> ready_within n hw (\<lambda>s. rc_CSR s AND 0x2 \<noteq> 0) s) \<and>
     (bit (rc_BDCR s) 0 \<longrightarrow> ready_within n hw (\<lambda>s. rc_BDCR s AND 0x2 \<noteq> 0) s) \<and>
     (bit (rc_CR s) (if bit (rc_PLLCFGR s) 22 then 16 else 0) \<longrightarrow>
        (bit (rc_CR s) 24 \<longrightarrow> ready_within n hw (\<lambda>s. rc_CR s AND 0x2000000 \<noteq> 0) s) \<and>
        (bit (rc_CR s) 26 \<longrightarrow> ready_within n hw (\<lambda>s. rc_CR s AND 0x8000000 \<noteq> 0) s)) \<and>
     (bit (rc_CR s) (if rc_CFGR s AND 3 = 1 then 16 else if rc_CFGR s AND 3 = 2 then 24 else 0) \<longrightarrow> rc_CFGR s AND 3 \<noteq> 3 \<longrightarrow>
        ready_within n hw (\<lambda>s. rc_CFGR s AND 0xC = push_bit 2 (rc_CFGR s AND 3)) s))"

lemma switch_ready:
  assumes "clock_hardware n hw"
    "bit (rc_CR s) (if rc_CFGR s AND 3 = 1 then 16 else if rc_CFGR s AND 3 = 2 then 24 else 0)" "rc_CFGR s AND 3 \<noteq> 3"
  shows "ready_within n hw (\<lambda>s. rc_CFGR s AND 0xC = push_bit 2 (rc_CFGR s AND 3)) s"
  using assms unfolding clock_hardware_def by blast

lemma settings_iterate: "clock_hardware n hw \<Longrightarrow> settings ((hw ^^ k) s) = settings s"
  by (induction k) (simp_all add: clock_hardware_def)

lemma reset_iterate: "clock_hardware n hw \<Longrightarrow> rc_CFGR s = 0 \<Longrightarrow> rc_CFGR ((hw ^^ k) s) = 0"
  by (induction k) (simp_all add: clock_hardware_def)

text \<open>A waiting loop ends, with the settings unchanged.\<close>

lemma wait_for_ends:
  assumes "ready_within n hw ready s" "n \<le> fuel" "clock_hardware m hw"
  shows "\<exists>s'. wait_for fuel hw ready s = Some s' \<and> ready s' \<and> settings s' = settings s \<and> (rc_CFGR s = 0 \<longrightarrow> rc_CFGR s' = 0)"
proof -
  have "ready ((hw ^^ k) s) \<Longrightarrow> k < fuel \<Longrightarrow> \<exists>j. wait_for fuel hw ready s = Some ((hw ^^ j) s) \<and> ready ((hw ^^ j) s)" for k
  proof (induction fuel arbitrary: s k)
    case (Suc fuel)
    show ?case
    proof (cases "ready s")
      case True
      then show ?thesis by (intro exI[of _ 0]) simp
    next
      case False
      then obtain i where i: "k = Suc i" using Suc.prems(1) by (cases k) auto
      then have "\<exists>j. wait_for fuel hw ready (hw s) = Some ((hw ^^ j) (hw s)) \<and> ready ((hw ^^ j) (hw s))"
        using Suc.IH[of i "hw s"] Suc.prems by (simp add: funpow_swap1)
      then obtain j where "wait_for fuel hw ready (hw s) = Some ((hw ^^ j) (hw s))" "ready ((hw ^^ j) (hw s))" by blast
      then show ?thesis using False by (intro exI[of _ "Suc j"]) (simp add: funpow_swap1)
    qed
  qed simp
  then show ?thesis using assms settings_iterate[OF assms(3)] reset_iterate[OF assms(3)] unfolding ready_within_def by (metis order.strict_trans2)
qed

text \<open>What equal settings have in common.\<close>

lemma settings_same:
  assumes "settings s' = settings s"
  shows "i \<notin> {1, 17, 25, 27} \<Longrightarrow> bit (rc_CR s') i = bit (rc_CR s) i" "rc_PLLCFGR s' = rc_PLLCFGR s"
    "i \<notin> {2, 3} \<Longrightarrow> bit (rc_CFGR s') i = bit (rc_CFGR s) i" "flash_ACR s' = flash_ACR s"
    "rc_CFGR s' AND NOT 0xC = rc_CFGR s AND NOT 0xC"
    "rc_APB1ENR s' = rc_APB1ENR s" "rc_PLLI2SCFGR s' = rc_PLLI2SCFGR s" "pwr_CR s' = pwr_CR s"
proof -
  have "rc_CR (settings s') = rc_CR (settings s)" "rc_CFGR (settings s') = rc_CFGR (settings s)" using assms by simp_all
  then have c: "rc_CR s' AND NOT 0x0A020002 = rc_CR s AND NOT 0x0A020002" and f: "rc_CFGR s' AND NOT 0xC = rc_CFGR s AND NOT 0xC"
    by (simp_all add: settings_def)
  show "rc_CFGR s' AND NOT 0xC = rc_CFGR s AND NOT 0xC" by (rule f)
  have m1: "(0x0A020002 :: 32 word) = push_bit 1 1 OR push_bit 17 1 OR push_bit 25 1 OR push_bit 27 1" by simp
  have m2: "(0xC :: 32 word) = push_bit 2 1 OR push_bit 3 1" by simp
  show "i \<notin> {1, 17, 25, 27} \<Longrightarrow> bit (rc_CR s') i = bit (rc_CR s) i"
  proof -
    assume i: "i \<notin> {1, 17, 25, 27}"
    have "bit (rc_CR s' AND NOT 0x0A020002) i = bit (rc_CR s AND NOT 0x0A020002) i" using c by simp
    then show ?thesis using i unfolding m1 by (auto simp: bit_simps dest: bit_imp_le_length simp del: push_bit_of_1)
  qed
  show "i \<notin> {2, 3} \<Longrightarrow> bit (rc_CFGR s') i = bit (rc_CFGR s) i"
  proof -
    assume i: "i \<notin> {2, 3}"
    have "bit (rc_CFGR s' AND NOT 0xC) i = bit (rc_CFGR s AND NOT 0xC) i" using f by simp
    then show ?thesis using i unfolding m2 by (auto simp: bit_simps dest: bit_imp_le_length simp del: push_bit_of_1)
  qed
  have "rc_PLLCFGR (settings s') = rc_PLLCFGR (settings s)" "flash_ACR (settings s') = flash_ACR (settings s)"
    "rc_APB1ENR (settings s') = rc_APB1ENR (settings s)" "rc_PLLI2SCFGR (settings s') = rc_PLLI2SCFGR (settings s)"
    "pwr_CR (settings s') = pwr_CR (settings s)"
    using assms by simp_all
  then show "rc_PLLCFGR s' = rc_PLLCFGR s" "flash_ACR s' = flash_ACR s" "rc_APB1ENR s' = rc_APB1ENR s"
    "rc_PLLI2SCFGR s' = rc_PLLI2SCFGR s" "pwr_CR s' = pwr_CR s" by (simp_all add: settings_def)
qed

text \<open>The fields of the configuration register.\<close>

lemma CFGR_fields:
  assumes "k_mco2pre c = push_bit 27 (of_nat m2)" "m2 < 8" "k_mco2sel c = push_bit 30 (of_nat s2)" "s2 < 4"
    "k_mco1pre c = push_bit 24 (of_nat m1)" "m1 < 8" "k_mco1sel c = push_bit 21 (of_nat s1)" "s1 < 4" "k_rtcpre c < 32"
    "k_ppre2 c = push_bit 13 (of_nat p2)" "p2 < 8" "k_ppre1 c = push_bit 10 (of_nat p1)" "p1 < 8"
    "k_hpre c = push_bit 4 (of_nat h)" "h < 16" "sws < 4" "sw < 4"
    "w = push_bit 2 (of_nat sws) OR CFGR_value c OR of_nat sw"
  shows "field 4 4 w = h" "field 10 3 w = p1" "field 13 3 w = p2" "field 2 2 w = sws" "field 0 2 w = sw"
proof -
  define fw where "fw = (2 :: nat, 2 :: nat, sws)"
  define fm2 where "fm2 = (27 :: nat, 3 :: nat, m2)"
  define fs2 where "fs2 = (30 :: nat, 2 :: nat, s2)"
  define fm1 where "fm1 = (24 :: nat, 3 :: nat, m1)"
  define fs1 where "fs1 = (21 :: nat, 2 :: nat, s1)"
  define fr where "fr = (16 :: nat, 5 :: nat, k_rtcpre c)"
  define f2 where "f2 = (13 :: nat, 3 :: nat, p2)"
  define f1 where "f1 = (10 :: nat, 3 :: nat, p1)"
  define fh where "fh = (4 :: nat, 4 :: nat, h)"
  define fx where "fx = (0 :: nat, 2 :: nat, sw)"
  note d = fw_def fm2_def fs2_def fm1_def fs1_def fr_def f2_def f1_def fh_def fx_def
  have v: "w = combine [fw, fm2, fs2, fm1, fs1, fr, f2, f1, fh, fx]"
    unfolding assms(18) CFGR_value_def assms(1,3,5,7,10,12,14) d by (simp add: or.assoc)
  note F = assms(2,4,6,8,9,11,13,15-17)
  show "field 4 4 w = h"
    unfolding v using F field_combine[of 4 4 "[fw, fm2, fs2, fm1, fs1, fr, f2, f1]" "[fx]" h] by (simp add: apart_from_def d del: combine_simps)
  show "field 10 3 w = p1"
    unfolding v using F field_combine[of 10 3 "[fw, fm2, fs2, fm1, fs1, fr, f2]" "[fh, fx]" p1] by (simp add: apart_from_def d del: combine_simps)
  show "field 13 3 w = p2"
    unfolding v using F field_combine[of 13 3 "[fw, fm2, fs2, fm1, fs1, fr]" "[f1, fh, fx]" p2] by (simp add: apart_from_def d del: combine_simps)
  show "field 2 2 w = sws"
    unfolding v using F field_combine[of 2 2 "[]" "[fm2, fs2, fm1, fs1, fr, f2, f1, fh, fx]" sws] by (simp add: apart_from_def d del: combine_simps)
  show "field 0 2 w = sw"
    unfolding v using F field_combine[of 0 2 "[fw, fm2, fs2, fm1, fs1, fr, f2, f1, fh]" "[]" sw] by (simp add: apart_from_def d del: combine_simps)
qed

section \<open>Accepted configurations\<close>

lemma require_some [simp]: "(require b = Some u) = b"
  by (simp add: require_def)

lemmas accept = bind_eq_Some_conv

lemma prescaler_small:
  assumes "prescaler pos ps w = Some d" "list_all (\<lambda>(f, d). f < 2 ^ l \<and> 0 < d) ps"
  obtains f where "f < 2 ^ l" "w = push_bit pos (of_nat f)" "map_of ps f = Some d" "0 < d"
  using prescaler_field[OF assms(1)] assms(2) that by (fastforce simp: list_all_iff)

lemma accepted_pll:
  assumes "clkconf_ok c"
  obtains p src where "STM32_PLLP c = Some p" "p < 4" "k_pllp c = 2 * (p + 1)" "k_pllsrc c = push_bit 22 (of_nat src)" "src < 2"
    "k_pllm c < 64" "k_plln c < 512" "k_pllq c < 16"
    "STM32_PLLCLKOUT c = Some ((if src = 1 then k_hseclk c else STM32_HSICLK) div k_pllm c * k_plln c div (2 * (p + 1)))"
proof -
  obtain f where "STM32_PCLK1_OF c = Some f" using assms by (auto simp: clkconf_ok_def)
  then obtain out where out: "STM32_PLLCLKOUT c = Some out" by (auto simp: STM32_PCLK1_OF_def STM32_HCLK_def STM32_SYSCLK_def accept)
  then obtain v p where vp: "STM32_PLLVCO c = Some v" "STM32_PLLP c = Some p" "out = v div k_pllp c"
    by (auto simp: STM32_PLLCLKOUT_def accept)
  have p: "p < 4" "k_pllp c = 2 * (p + 1)" using vp(2) by (auto simp: STM32_PLLP_def split: if_splits)
  obtain f where f: "STM32_PLLCLKIN c = Some f" "v = f * k_plln c" "k_plln c < 512" "k_pllq c < 16"
    using vp(1) by (auto simp: STM32_PLLVCO_def accept)
  have m: "k_pllm c < 64" using f(1) by (auto simp: STM32_PLLCLKIN_def accept)
  consider "k_pllsrc c = STM32_PLLSRC_HSE" "f = k_hseclk c div k_pllm c"
    | "k_pllsrc c = STM32_PLLSRC_HSI" "f = STM32_HSICLK div k_pllm c"
    using f(1) by (auto simp: STM32_PLLCLKIN_def accept split: if_splits)
  then show thesis
  proof cases
    case 1
    then show ?thesis using that[OF vp(2) p, of 1] m f out vp(3) p(2) by (simp add: STM32_PLLSRC_HSE_def)
  next
    case 2
    then show ?thesis using that[OF vp(2) p, of 0] m f out vp(3) p(2) by (simp add: STM32_PLLSRC_HSI_def)
  qed
qed

lemma accepted_dividers:
  assumes "clkconf_ok c"
  obtains d h d1 p1 d2 p2 f where "k_hpre c = push_bit 4 (of_nat h)" "h < 16" "map_of STM32_HPRE_DIV h = Some d"
    "k_ppre1 c = push_bit 10 (of_nat p1)" "p1 < 8" "map_of STM32_PPRE_DIV p1 = Some d1"
    "k_ppre2 c = push_bit 13 (of_nat p2)" "p2 < 8" "map_of STM32_PPRE_DIV p2 = Some d2"
    "STM32_SYSCLK c = Some f" "STM32_HCLK c = Some (f div d)"
    "STM32_PCLK1_OF c = Some (f div d div d1)" "STM32_PCLK2_OF c = Some (f div d div d2)"
proof -
  obtain f1 f2 where f: "STM32_PCLK1_OF c = Some f1" "STM32_PCLK2_OF c = Some f2" using assms by (auto simp: clkconf_ok_def)
  then obtain hc where hc: "STM32_HCLK c = Some hc" by (auto simp: STM32_PCLK1_OF_def accept)
  obtain d1 where d1: "prescaler 10 STM32_PPRE_DIV (k_ppre1 c) = Some d1" "f1 = hc div d1"
    using f(1) hc by (auto simp: STM32_PCLK1_OF_def accept)
  obtain d2 where d2: "prescaler 13 STM32_PPRE_DIV (k_ppre2 c) = Some d2" "f2 = hc div d2"
    using f(2) hc by (auto simp: STM32_PCLK2_OF_def accept)
  obtain sc d where d: "STM32_SYSCLK c = Some sc" "prescaler 4 STM32_HPRE_DIV (k_hpre c) = Some d" "hc = sc div d"
    using hc by (auto simp: STM32_HCLK_def accept)
  have p: "list_all (\<lambda>(f, d). f < 2 ^ 3 \<and> 0 < d) STM32_PPRE_DIV" by (simp add: STM32_PPRE_DIV_def)
  have q: "list_all (\<lambda>(f, d). f < 2 ^ 4 \<and> 0 < d) STM32_HPRE_DIV" by (simp add: STM32_HPRE_DIV_def)
  obtain h where h: "h < 16" "k_hpre c = push_bit 4 (of_nat h)" "map_of STM32_HPRE_DIV h = Some d"
    using prescaler_small[OF d(2) q] by auto
  obtain p1 where p1: "p1 < 8" "k_ppre1 c = push_bit 10 (of_nat p1)" "map_of STM32_PPRE_DIV p1 = Some d1"
    using prescaler_small[OF d1(1) p] by auto
  obtain p2 where p2: "p2 < 8" "k_ppre2 c = push_bit 13 (of_nat p2)" "map_of STM32_PPRE_DIV p2 = Some d2"
    using prescaler_small[OF d2(1) p] by auto
  from that[OF h(2,1,3) p1(2,1,3) p2(2,1,3) d(1)] f hc d1(2) d2(2) d(3) show thesis by simp
qed

text \<open>No clock of an accepted configuration is above its limit, and no timer is faster than the core.\<close>

lemma accepted_bounds:
  assumes "clkconf_ok c"
  shows "\<exists>f h f1 f2 t1 t2. STM32_SYSCLK c = Some f \<and> STM32_HCLK c = Some h \<and> STM32_PCLK1_OF c = Some f1 \<and> STM32_PCLK2_OF c = Some f2 \<and>
    STM32_TIMCLK1_OF c = Some t1 \<and> STM32_TIMCLK2_OF c = Some t2 \<and>
    f \<le> STM32_SYSCLK_MAX c \<and> h \<le> f \<and> f1 \<le> STM32_PCLK1_MAX \<and> f2 \<le> STM32_PCLK2_MAX \<and> t1 \<le> h \<and> t2 \<le> h"
proof -
  obtain d h d1 p1 d2 p2 f where D: "k_ppre1 c = push_bit 10 (of_nat p1)" "map_of STM32_PPRE_DIV p1 = Some d1"
    "k_ppre2 c = push_bit 13 (of_nat p2)" "map_of STM32_PPRE_DIV p2 = Some d2"
    "STM32_SYSCLK c = Some f" "STM32_HCLK c = Some (f div d)"
    "STM32_PCLK1_OF c = Some (f div d div d1)" "STM32_PCLK2_OF c = Some (f div d div d2)"
    using accepted_dividers[OF assms] by metis
  have two: "p = 0 \<or> 2 \<le> e" if "map_of STM32_PPRE_DIV p = Some e" for p e
    using that by (auto simp: STM32_PPRE_DIV_def split: if_splits)
  have half: "x div e * (if p = 0 then 1 else 2) \<le> x" if "map_of STM32_PPRE_DIV p = Some e" for p e and x :: nat
  proof (cases "p = 0")
    case True
    then show ?thesis by (simp add: div_le_dividend)
  next
    case False
    then have "x div e \<le> x div 2" using two[OF that] by (intro div_le_mono2) simp_all
    then show ?thesis using False by simp
  qed
  have t1: "\<exists>t \<le> f div d. STM32_TIMCLK1_OF c = Some t"
    using half[OF D(2), of "f div d"] D(1,7) by (auto simp: STM32_TIMCLK1_OF_def accept split: if_splits)
  have t2: "\<exists>t \<le> f div d. STM32_TIMCLK2_OF c = Some t"
    using half[OF D(4), of "f div d"] D(3,8) by (auto simp: STM32_TIMCLK2_OF_def accept split: if_splits)
  have "f \<le> STM32_SYSCLK_MAX c" using D(5) by (auto simp: STM32_SYSCLK_def accept)
  moreover have "f div d div d1 \<le> STM32_PCLK1_MAX" using D(7) by (auto simp: STM32_PCLK1_OF_def accept)
  moreover have "f div d div d2 \<le> STM32_PCLK2_MAX" using D(8) by (auto simp: STM32_PCLK2_OF_def accept)
  ultimately show ?thesis using D(5-8) t1 t2 by (auto intro: div_le_dividend)
qed

lemma four_values:
  assumes "(w :: 32 word) \<in> {0, push_bit n 1, push_bit n 2, push_bit n 3}"
  shows "\<exists>x<4. w = push_bit n (of_nat x)"
proof -
  have "w = push_bit n (of_nat 0) \<or> w = push_bit n (of_nat 1) \<or> w = push_bit n (of_nat 2) \<or> w = push_bit n (of_nat 3)"
    using assms by simp
  then show ?thesis by (metis zero_less_numeral one_less_numeral_iff numeral_less_iff semiring_norm(76,78,81))
qed

lemma accepted_outputs:
  assumes "clkconf_ok c"
  obtains m1 s1 m2 s2 where "k_mco2pre c = push_bit 27 (of_nat m2)" "m2 < 8" "k_mco2sel c = push_bit 30 (of_nat s2)" "s2 < 4"
    "k_mco1pre c = push_bit 24 (of_nat m1)" "m1 < 8" "k_mco1sel c = push_bit 21 (of_nat s1)" "s1 < 4" "k_rtcpre c < 32"
proof -
  have p: "list_all (\<lambda>(f, d). f < 2 ^ 3 \<and> 0 < d) STM32_MCOPRE_DIV" by (simp add: STM32_MCOPRE_DIV_def)
  obtain x d where x: "prescaler 24 STM32_MCOPRE_DIV (k_mco1pre c) = Some d"
    "k_mco1sel c \<in> {STM32_MCO1SEL_HSI, STM32_MCO1SEL_LSE, STM32_MCO1SEL_HSE, STM32_MCO1SEL_PLL}"
    using assms by (auto simp: clkconf_ok_def STM32_MCO1CLK_def accept split: if_splits)
  obtain d2 where y: "prescaler 27 STM32_MCOPRE_DIV (k_mco2pre c) = Some d2"
    "k_mco2sel c \<in> {STM32_MCO2SEL_HSE, STM32_MCO2SEL_PLL, STM32_MCO2SEL_SYSCLK, STM32_MCO2SEL_PLLI2S}"
    using assms by (auto simp: clkconf_ok_def)
  obtain m1 where m1: "m1 < 8" "k_mco1pre c = push_bit 24 (of_nat m1)" using prescaler_small[OF x(1) p] by auto
  obtain m2 where m2: "m2 < 8" "k_mco2pre c = push_bit 27 (of_nat m2)" using prescaler_small[OF y(1) p] by auto
  obtain s1 where s1: "k_mco1sel c = push_bit 21 (of_nat s1)" "s1 < 4"
    using four_values[of "k_mco1sel c" 21] x(2)
    unfolding STM32_MCO1SEL_HSI_def STM32_MCO1SEL_LSE_def STM32_MCO1SEL_HSE_def STM32_MCO1SEL_PLL_def by blast
  obtain s2 where s2: "k_mco2sel c = push_bit 30 (of_nat s2)" "s2 < 4"
    using four_values[of "k_mco2sel c" 30] y(2)
    unfolding STM32_MCO2SEL_HSE_def STM32_MCO2SEL_PLL_def STM32_MCO2SEL_SYSCLK_def STM32_MCO2SEL_PLLI2S_def by blast
  have "k_rtcpre c < 32" using assms by (auto simp: clkconf_ok_def STM32_RTCCLK_def accept)
  then show thesis using that m1 m2 s1 s2 by blast
qed

lemma accepted_source:
  assumes "clkconf_ok c"
  shows "k_sw c = STM32_SW_HSI \<or> k_sw c = STM32_SW_HSE \<and> k_hse c \<or>
    k_sw c = STM32_SW_PLL \<and> (k_pllsrc c = STM32_PLLSRC_HSE \<longrightarrow> k_hse c)"
    "STM32_SYSCLK c = Some f \<Longrightarrow> f = (if k_sw c = STM32_SW_HSI then STM32_HSICLK else if k_sw c = STM32_SW_HSE then k_hseclk c
      else the (STM32_PLLCLKOUT c))"
proof -
  obtain f1 where "STM32_PCLK1_OF c = Some f1" using assms by (auto simp: clkconf_ok_def)
  then have "k_sw c = STM32_SW_HSI \<or> k_sw c = STM32_SW_HSE \<or> k_sw c = STM32_SW_PLL"
    by (auto simp: STM32_PCLK1_OF_def STM32_HCLK_def STM32_SYSCLK_def accept split: if_splits)
  then show "k_sw c = STM32_SW_HSI \<or> k_sw c = STM32_SW_HSE \<and> k_hse c \<or>
    k_sw c = STM32_SW_PLL \<and> (k_pllsrc c = STM32_PLLSRC_HSE \<longrightarrow> k_hse c)"
    using assms by (auto simp: clkconf_ok_def hse_ok_def split: if_splits)
  show "STM32_SYSCLK c = Some f \<Longrightarrow> f = (if k_sw c = STM32_SW_HSI then STM32_HSICLK else if k_sw c = STM32_SW_HSE then k_hseclk c
      else the (STM32_PLLCLKOUT c))"
    by (auto simp: STM32_SYSCLK_def accept split: if_splits)
qed

section \<open>The clocks after the start\<close>

lemma guarded_wait:
  assumes "b \<Longrightarrow> ready_within n hw ready a" "n \<le> fuel" "clock_hardware n hw" "rc_CFGR s = 0" "rc_CFGR a = 0"
  obtains s' where "(if b then wait_for fuel hw ready a else Some s) = Some s'" "settings s' = settings (if b then a else s)" "rc_CFGR s' = 0"
proof (cases b)
  case True
  from wait_for_ends[OF assms(1)[OF True] assms(2,3)] show thesis using that True assms(5) by auto
next
  case False
  then show thesis using that assms(4) by simp
qed

lemma field_bit: "(field p 1 w = 1) = bit w p"
proof -
  have "take_bit 1 (drop_bit p w) = of_bool (bit w p)"
    by (simp add: mod_2_eq_odd bit_iff_odd_drop_bit)
  then show ?thesis by (simp add: field_def)
qed

lemma and3: "w AND 3 = take_bit 2 (w :: 32 word)" "w AND 0xC = push_bit 2 (take_bit 2 (drop_bit 2 w))"
proof -
  have m: "(3 :: 32 word) = mask 2" "(0xC :: 32 word) = push_bit 2 (mask 2)" by (simp_all add: mask_eq_exp_minus_1)
  show "w AND 3 = take_bit 2 w" unfolding m(1) by (simp add: take_bit_eq_mask)
  show "w AND 0xC = push_bit 2 (take_bit 2 (drop_bit 2 w))"
    unfolding m(2) by (rule bit_word_eqI) (auto simp: bit_simps dest!: le_Suc_ex)
qed

lemma field_masked:
  assumes "a AND NOT 0xC = b AND NOT 0xC" "pos + len \<le> 2 \<or> 4 \<le> pos"
  shows "field pos len a = field pos len b"
proof -
  have m: "(0xC :: 32 word) = push_bit 2 (mask 2)" by (simp add: mask_eq_exp_minus_1)
  have "bit a i = bit b i" if "i < 2 \<or> 4 \<le> i" for i
  proof -
    have "bit (a AND NOT 0xC) i = bit (b AND NOT 0xC) i" using assms(1) by simp
    then show ?thesis using that unfolding m by (auto simp: bit_simps dest: bit_imp_le_length)
  qed
  then have "take_bit len (drop_bit pos a) = take_bit len (drop_bit pos b)"
    using assms(2) by (intro bit_word_eqI) (auto simp: bit_simps)
  then show ?thesis by (simp add: field_def)
qed

lemma field_and: "field 2 2 (w AND 0xC) = field 2 2 w"
proof -
  have m: "(0xC :: 32 word) = push_bit 2 (mask 2)" by (simp add: mask_eq_exp_minus_1)
  have "take_bit 2 (drop_bit 2 (w AND 0xC)) = take_bit 2 (drop_bit 2 w)"
    unfolding m by (rule bit_word_eqI) (auto simp: bit_simps dest: bit_imp_le_length)
  then show ?thesis by (simp add: field_def)
qed

lemma accepted_fields:
  assumes "clkconf_ok c" "sw < 4" "w = CFGR_value c OR of_nat sw"
  obtains d d1 d2 f where "field 0 2 w = sw" "field 2 2 w = 0" "map_of STM32_HPRE_DIV (field 4 4 w) = Some d"
    "map_of STM32_PPRE_DIV (field 10 3 w) = Some d1" "map_of STM32_PPRE_DIV (field 13 3 w) = Some d2"
    "STM32_SYSCLK c = Some f" "STM32_HCLK c = Some (f div d)"
    "STM32_PCLK1_OF c = Some (f div d div d1)" "STM32_PCLK2_OF c = Some (f div d div d2)"
proof -
  obtain d h d1 p1 d2 p2 f where D: "k_hpre c = push_bit 4 (of_nat h)" "h < 16" "map_of STM32_HPRE_DIV h = Some d"
    "k_ppre1 c = push_bit 10 (of_nat p1)" "p1 < 8" "map_of STM32_PPRE_DIV p1 = Some d1"
    "k_ppre2 c = push_bit 13 (of_nat p2)" "p2 < 8" "map_of STM32_PPRE_DIV p2 = Some d2"
    "STM32_SYSCLK c = Some f" "STM32_HCLK c = Some (f div d)"
    "STM32_PCLK1_OF c = Some (f div d div d1)" "STM32_PCLK2_OF c = Some (f div d div d2)"
    using accepted_dividers[OF assms(1)] by metis
  obtain m1 s1 m2 s2 where O: "k_mco2pre c = push_bit 27 (of_nat m2)" "m2 < 8" "k_mco2sel c = push_bit 30 (of_nat s2)" "s2 < 4"
    "k_mco1pre c = push_bit 24 (of_nat m1)" "m1 < 8" "k_mco1sel c = push_bit 21 (of_nat s1)" "s1 < 4" "k_rtcpre c < 32"
    using accepted_outputs[OF assms(1)] by metis
  have z: "0 < (4 :: nat)" by simp
  have w: "w = push_bit 2 (of_nat 0) OR CFGR_value c OR of_nat sw" using assms(3) by simp
  note F = CFGR_fields[OF O D(7,8,4,5,1,2) z assms(2) w]
  show thesis by (rule that[of d d1 d2 f]) (simp_all only: F D)
qed

lemma clocks_start:
  assumes "clkconf_ok c" "clock_hardware n hw" "n \<le> fuel" "rc_CFGR s = 0" "rc_PLLCFGR s = 0x24003010"
    "k_clock48 c \<longrightarrow> k_pllsrc c = STM32_PLLSRC_HSE \<longrightarrow> k_hse c"
  obtains s' p hclk th where "stm32_clock_init fuel hw c s = Some s'" "STM32_PLLP c = Some p" "STM32_HCLK c = Some hclk"
    "ws_thresholds (k_vdd c) = Some th" "STM32_ACTIVATE_PLL c \<longrightarrow> rc_PLLCFGR s' = PLLCFGR_value c p"
    "flash_ACR s' = 0x700 OR STM32_FLASHBITS th hclk"
    "if k_sw c = STM32_SW_HSI then rc_CFGR s' = CFGR_value c
     else rc_CFGR s' AND NOT 0xC = (CFGR_value c OR k_sw c) AND NOT 0xC \<and> rc_CFGR s' AND 0xC = push_bit 2 (k_sw c)"
proof -
  note H = assms(2)[unfolded clock_hardware_def, rule_format]
  note guard = guarded_wait[OF _ assms(3,2)]
  obtain p src where p: "STM32_PLLP c = Some p" "p < 4" "k_pllsrc c = push_bit 22 (of_nat src)" "src < 2"
    "k_pllm c < 64" "k_plln c < 512" "k_pllq c < 16" using accepted_pll[OF assms(1)] by metis
  obtain hclk where hclk: "STM32_HCLK c = Some hclk" using accepted_dividers[OF assms(1)] by metis
  obtain th where th: "ws_thresholds (k_vdd c) = Some th" using assms(1) by (auto simp: clkconf_ok_def)
  let ?a1 = "s\<lparr>rc_APB1ENR := 0x10000000, pwr_CR := k_vos c\<rparr>"
  obtain s1 where s1: "wait_for fuel hw (\<lambda>s. pwr_CSR s AND 0x4000 \<noteq> 0) ?a1 = Some s1" "settings s1 = settings ?a1" "rc_CFGR s1 = 0"
    using wait_for_ends[OF _ assms(3,2), of "\<lambda>s. pwr_CSR s AND 0x4000 \<noteq> 0" ?a1] H assms(4) by auto
  let ?a2 = "s1\<lparr>rc_CR := rc_CR s1 OR 0x1\<rparr>"
  obtain s2 where s2: "wait_for fuel hw (\<lambda>s. rc_CR s AND 0x2 \<noteq> 0) ?a2 = Some s2" "settings s2 = settings ?a2" "rc_CFGR s2 = 0"
    using wait_for_ends[OF _ assms(3,2), of "\<lambda>s. rc_CR s AND 0x2 \<noteq> 0" ?a2] H s1(3) by (auto simp: bit_or_iff bit_1_iff)
  have f2: "bit (rc_CR s2) 0" "rc_PLLCFGR s2 = 0x24003010"
    using settings_same(1)[OF s2(2), of 0] settings_same(2)[OF s2(2)] settings_same(2)[OF s1(2)] assms(5) by (simp_all add: bit_or_iff bit_1_iff)
  have bit16: "bit (0x10000 :: 32 word) i = (i = 16)" "bit (0x1000000 :: 32 word) i = (i = 24)" "bit (0x4000000 :: 32 word) i = (i = 26)" for i
  proof -
    have e: "(0x10000 :: 32 word) = push_bit 16 1" "(0x1000000 :: 32 word) = push_bit 24 1" "(0x4000000 :: 32 word) = push_bit 26 1" by simp_all
    show "bit (0x10000 :: 32 word) i = (i = 16)" "bit (0x1000000 :: 32 word) i = (i = 24)" "bit (0x4000000 :: 32 word) i = (i = 26)"
      unfolding e by (auto simp: bit_simps bit_1_iff simp del: push_bit_of_1)
  qed
  let ?a3 = "s2\<lparr>rc_CR := rc_CR s2 OR 0x10000\<rparr>"
  obtain s3 where s3: "(if k_hse c then wait_for fuel hw (\<lambda>s. rc_CR s AND 0x20000 \<noteq> 0) ?a3 else Some s2) = Some s3"
    "settings s3 = settings (if k_hse c then ?a3 else s2)" "rc_CFGR s3 = 0"
    using guard[of "k_hse c" "\<lambda>s. rc_CR s AND 0x20000 \<noteq> 0" ?a3 s2] H s2(3) by (auto simp: bit_or_iff bit16)
  have f3: "bit (rc_CR s3) 0" "k_hse c \<Longrightarrow> bit (rc_CR s3) 16" "rc_PLLCFGR s3 = 0x24003010"
    using settings_same(1,2)[OF s3(2)] f2 by (auto simp: bit_or_iff)
  let ?a4 = "s3\<lparr>rc_CSR := rc_CSR s3 OR 0x1\<rparr>"
  obtain s4 where s4: "(if k_lsi c then wait_for fuel hw (\<lambda>s. rc_CSR s AND 0x2 \<noteq> 0) ?a4 else Some s3) = Some s4"
    "settings s4 = settings (if k_lsi c then ?a4 else s3)" "rc_CFGR s4 = 0"
    using guard[of "k_lsi c" "\<lambda>s. rc_CSR s AND 0x2 \<noteq> 0" ?a4 s3] H s3(3) by (auto simp: bit_or_iff bit_1_iff)
  have f4: "bit (rc_CR s4) 0" "k_hse c \<Longrightarrow> bit (rc_CR s4) 16" "rc_PLLCFGR s4 = 0x24003010"
    using settings_same(1,2)[OF s4(2)] f3 by (auto split: if_splits)
  let ?a5 = "if rc_BDCR s4 AND 0x1 = 0 then s4\<lparr>rc_BDCR := rc_BDCR s4 OR 0x1, pwr_CR := (pwr_CR s4 OR 0x100) AND NOT 0x100\<rparr> else s4"
  have "bit (rc_BDCR ?a5) 0" by (simp add: bit_or_iff bit_1_iff and_one_eq even_iff_mod_2_eq_zero[symmetric] bit_0 even_or_iff split: if_splits)
  then have r5: "ready_within n hw (\<lambda>s. rc_BDCR s AND 0x2 \<noteq> 0) ?a5" using H by blast
  have "rc_CFGR ?a5 = 0" using s4(3) by simp
  then obtain s5 where s5: "(if k_lse c then wait_for fuel hw (\<lambda>s. rc_BDCR s AND 0x2 \<noteq> 0) ?a5 else Some s4) = Some s5"
    "settings s5 = settings (if k_lse c then ?a5 else s4)" "rc_CFGR s5 = 0"
    by (rule guard[OF r5 s4(3)])
  have f5: "bit (rc_CR s5) 0" "k_hse c \<Longrightarrow> bit (rc_CR s5) 16" "rc_PLLCFGR s5 = 0x24003010"
    using settings_same(1,2)[OF s5(2)] f4 by (auto split: if_splits)
  have b22: "bit (PLLCFGR_value c p) 22 = (src = 1)"
    using PLLCFGR_fields(4)[OF p(7,3,4,2,6,5)] field_bit[of 22 "PLLCFGR_value c p"] by simp
  let ?a6 = "s5\<lparr>rc_PLLCFGR := PLLCFGR_value c p, rc_CR := rc_CR s5 OR 0x1000000\<rparr>"
  have src1: "src = 1 \<Longrightarrow> k_pllsrc c = STM32_PLLSRC_HSE" using p(3) by (simp add: STM32_PLLSRC_HSE_def)
  have hse: "k_hse c" if "STM32_ACTIVATE_PLL c" "src = 1"
    using that assms(1,6) src1 by (auto simp: STM32_ACTIVATE_PLL_def clkconf_ok_def hse_ok_def split: if_splits)
  have r6: "ready_within n hw (\<lambda>s. rc_CR s AND 0x2000000 \<noteq> 0) ?a6" if "STM32_ACTIVATE_PLL c"
    using H[of ?a6] f5 hse[OF that] b22 by (auto simp: bit_or_iff bit16 split: if_splits)
  obtain s6 where s6: "(if STM32_ACTIVATE_PLL c then wait_for fuel hw (\<lambda>s. rc_CR s AND 0x2000000 \<noteq> 0) ?a6 else Some s5) = Some s6"
    "settings s6 = settings (if STM32_ACTIVATE_PLL c then ?a6 else s5)" "rc_CFGR s6 = 0"
    using guard[of "STM32_ACTIVATE_PLL c" "\<lambda>s. rc_CR s AND 0x2000000 \<noteq> 0" ?a6 s5] r6 s5(3) by auto
  have f6: "bit (rc_CR s6) 0" "k_hse c \<Longrightarrow> bit (rc_CR s6) 16" "STM32_ACTIVATE_PLL c \<Longrightarrow> bit (rc_CR s6) 24"
    "rc_PLLCFGR s6 = (if STM32_ACTIVATE_PLL c then PLLCFGR_value c p else 0x24003010)"
    using settings_same(1,2)[OF s6(2)] f5 by (auto simp: bit_or_iff bit16 split: if_splits)
  let ?a7 = "s6\<lparr>rc_PLLI2SCFGR := push_bit 28 (of_nat (k_plli2sr c)) OR push_bit 6 (of_nat (k_plli2sn c)), rc_CR := rc_CR s6 OR 0x4000000\<rparr>"
  have "ready_within n hw (\<lambda>s. rc_CR s AND 0x8000000 \<noteq> 0) ?a7"
    using H[of ?a7] f6 hse b22 by (auto simp: bit_or_iff bit16 split: if_splits)
  then obtain s7 where s7: "(if STM32_ACTIVATE_PLLI2S c then wait_for fuel hw (\<lambda>s. rc_CR s AND 0x8000000 \<noteq> 0) ?a7 else Some s6) = Some s7"
    "settings s7 = settings (if STM32_ACTIVATE_PLLI2S c then ?a7 else s6)" "rc_CFGR s7 = 0"
    using guard[of "STM32_ACTIVATE_PLLI2S c" "\<lambda>s. rc_CR s AND 0x8000000 \<noteq> 0" ?a7 s6] s6(3) by auto
  have f7: "bit (rc_CR s7) 0" "k_hse c \<Longrightarrow> bit (rc_CR s7) 16" "STM32_ACTIVATE_PLL c \<Longrightarrow> bit (rc_CR s7) 24" "rc_PLLCFGR s7 = rc_PLLCFGR s6"
    using settings_same(1,2)[OF s7(2)] f6 by (auto simp: bit_or_iff bit16 split: if_splits)
  let ?s8 = "s7\<lparr>rc_CFGR := CFGR_value c, flash_ACR := 0x700 OR STM32_FLASHBITS th hclk\<rparr>"
  let ?a9 = "?s8\<lparr>rc_CFGR := rc_CFGR ?s8 OR k_sw c\<rparr>"
  let ?R = "\<lambda>s. rc_CFGR s AND 0xC = push_bit 2 (k_sw c)"
  have "\<exists>s9. (if k_sw c \<noteq> STM32_SW_HSI then wait_for fuel hw ?R ?a9 else Some ?s8) = Some s9 \<and>
      (if k_sw c = STM32_SW_HSI then s9 = ?s8 else ?R s9 \<and> settings s9 = settings ?a9)"
  proof (cases "k_sw c = STM32_SW_HSI")
    case False
    define sw where "sw = unat (k_sw c)"
    have sw: "sw < 4" "k_sw c = of_nat sw" "k_sw c \<noteq> 3" "k_sw c = 1 \<and> k_hse c \<or> k_sw c = 2 \<and> STM32_ACTIVATE_PLL c"
      using False accepted_source(1)[OF assms(1)]
      by (auto simp: sw_def STM32_SW_HSE_def STM32_SW_PLL_def STM32_ACTIVATE_PLL_def)
    have l3: "rc_CFGR ((hw ^^ k) ?a9) AND 3 = k_sw c" for k
    proof -
      have "field 0 2 (rc_CFGR ((hw ^^ k) ?a9)) = field 0 2 (CFGR_value c OR of_nat sw)"
        using field_masked[OF settings_same(5)[OF settings_iterate[OF assms(2)]], of 0 2 k ?a9] sw(2) by simp
      also have "\<dots> = sw" using accepted_fields[OF assms(1) sw(1) refl] by metis
      finally have "unat (take_bit 2 (rc_CFGR ((hw ^^ k) ?a9))) = sw" by (simp add: field_def)
      then show ?thesis unfolding and3(1) sw_def by (rule unsigned_word_eqI)
    qed
    have a: "rc_CFGR ?a9 AND 3 = k_sw c" "rc_CR ?a9 = rc_CR s7" using l3[of 0] by simp_all
    have "bit (rc_CR ?a9) (if rc_CFGR ?a9 AND 3 = 1 then 16 else if rc_CFGR ?a9 AND 3 = 2 then 24 else 0)"
      unfolding a using sw(4) f7(2,3) by (elim disjE) simp_all
    moreover have "rc_CFGR ?a9 AND 3 \<noteq> 3" unfolding a by (rule sw(3))
    ultimately have "ready_within n hw (\<lambda>s. rc_CFGR s AND 0xC = push_bit 2 (rc_CFGR s AND 3)) ?a9"
      by (rule switch_ready[OF assms(2)])
    then have "ready_within n hw ?R ?a9" unfolding ready_within_def l3 .
    from wait_for_ends[OF this assms(3,2)] False show ?thesis by auto
  qed simp
  then obtain s9 where s9: "(if k_sw c \<noteq> STM32_SW_HSI then wait_for fuel hw ?R ?a9 else Some ?s8) = Some s9"
    "if k_sw c = STM32_SW_HSI then s9 = ?s8 else ?R s9 \<and> settings s9 = settings ?a9" by blast
  let ?s = "s9\<lparr>rc_APB2ENR := rc_APB2ENR s9 OR 0x4000, rc_APB2LPENR := rc_APB2LPENR s9 OR 0x4000\<rparr>"
  have "stm32_clock_init fuel hw c s = Some ?s"
    unfolding stm32_clock_init_def p(1) hclk th Option.bind.bind_lunit s1(1) s2(1) s3(1) s4(1) s5(1) s6(1) s7(1)
      s7(3) or.left_neutral s9(1) ..
  moreover have "rc_PLLCFGR s9 = rc_PLLCFGR s7 \<and> flash_ACR s9 = 0x700 OR STM32_FLASHBITS th hclk"
    using s9(2) settings_same(2,4)[of s9 ?a9] by (auto split: if_splits)
  moreover have "if k_sw c = STM32_SW_HSI then rc_CFGR s9 = CFGR_value c
     else rc_CFGR s9 AND NOT 0xC = (CFGR_value c OR k_sw c) AND NOT 0xC \<and> ?R s9"
    using s9(2) settings_same(5)[of s9 ?a9] by (auto split: if_splits)
  ultimately show thesis using that[of ?s, OF _ p(1) hclk th] f7(4) f6(4) by (simp split: if_splits)
qed

text \<open>
  The registers, read by the clock controller, give the frequencies of the configuration, and the flash
  has the wait states of the core's frequency.
\<close>

lemma registers_give_tree:
  assumes "clkconf_ok c" "clock_hardware n hw" "n \<le> fuel" "rc_CFGR s = 0" "rc_PLLCFGR s = 0x24003010"
    "k_clock48 c \<longrightarrow> k_pllsrc c = STM32_PLLSRC_HSE \<longrightarrow> k_hse c"
  shows "\<exists>s' hclk th. stm32_clock_init fuel hw c s = Some s' \<and> Some (sysclk_of (k_hseclk c) s') = STM32_SYSCLK c \<and>
    hclk_of (k_hseclk c) s' = Some hclk \<and> Some hclk = STM32_HCLK c \<and> pclk1_of (k_hseclk c) s' = STM32_PCLK1_OF c \<and>
    pclk2_of (k_hseclk c) s' = STM32_PCLK2_OF c \<and> ws_thresholds (k_vdd c) = Some th \<and>
    flash_ACR s' = 0x700 OR STM32_FLASHBITS th hclk"
proof -
  obtain s' p hclk th where S: "stm32_clock_init fuel hw c s = Some s'" "STM32_PLLP c = Some p" "STM32_HCLK c = Some hclk"
    "ws_thresholds (k_vdd c) = Some th" "STM32_ACTIVATE_PLL c \<longrightarrow> rc_PLLCFGR s' = PLLCFGR_value c p"
    "flash_ACR s' = 0x700 OR STM32_FLASHBITS th hclk"
    "if k_sw c = STM32_SW_HSI then rc_CFGR s' = CFGR_value c
     else rc_CFGR s' AND NOT 0xC = (CFGR_value c OR k_sw c) AND NOT 0xC \<and> rc_CFGR s' AND 0xC = push_bit 2 (k_sw c)"
    using clocks_start[OF assms] by metis
  define sw where "sw = unat (k_sw c)"
  have sw: "sw < 4" "k_sw c = of_nat sw" "k_sw c = STM32_SW_HSI \<longleftrightarrow> sw = 0" "k_sw c = STM32_SW_HSE \<longleftrightarrow> sw = 1" "k_sw c = STM32_SW_PLL \<longleftrightarrow> sw = 2"
    "sw = 0 \<or> sw = 1 \<or> sw = 2"
    using accepted_source(1)[OF assms(1)] by (auto simp: sw_def STM32_SW_HSI_def STM32_SW_HSE_def STM32_SW_PLL_def)
  let ?w = "CFGR_value c OR of_nat sw"
  obtain d d1 d2 f where D: "field 0 2 ?w = sw" "field 2 2 ?w = 0" "map_of STM32_HPRE_DIV (field 4 4 ?w) = Some d"
    "map_of STM32_PPRE_DIV (field 10 3 ?w) = Some d1" "map_of STM32_PPRE_DIV (field 13 3 ?w) = Some d2"
    "STM32_SYSCLK c = Some f" "STM32_HCLK c = Some (f div d)"
    "STM32_PCLK1_OF c = Some (f div d div d1)" "STM32_PCLK2_OF c = Some (f div d div d2)"
    using accepted_fields[OF assms(1) sw(1) refl] by metis
  have high: "field pos len (rc_CFGR s') = field pos len ?w" if "4 \<le> pos" for pos len
  proof (cases "sw = 0")
    case False
    then show ?thesis using S(7) sw(2,3) that by (intro field_masked) auto
  qed (use S(7) sw(3) in simp)
  have sws: "field 2 2 (rc_CFGR s') = sw"
  proof (cases "sw = 0")
    case True
    then show ?thesis using S(7) sw(3) D(2) by simp
  next
    case False
    then have "field 2 2 (rc_CFGR s' AND 0xC) = field 2 2 (push_bit 2 (of_nat sw))" using S(7) sw(2,3) by simp
    then show ?thesis using field_self[of sw 2 2] unat_small[of sw 2] sw(1) unfolding field_and by (simp add: field_def)
  qed
  have pll: "pll_output (k_hseclk c) s' = the (STM32_PLLCLKOUT c)" if "STM32_ACTIVATE_PLL c"
  proof -
    obtain q src where p: "STM32_PLLP c = Some q" "q < 4" "k_pllsrc c = push_bit 22 (of_nat src)" "src < 2"
      "k_pllm c < 64" "k_plln c < 512" "k_pllq c < 16"
      "STM32_PLLCLKOUT c = Some ((if src = 1 then k_hseclk c else STM32_HSICLK) div k_pllm c * k_plln c div (2 * (q + 1)))"
      using accepted_pll[OF assms(1)] by metis
    have v: "rc_PLLCFGR s' = PLLCFGR_value c q" using S(2,5) that p(1) by simp
    show ?thesis unfolding pll_output_def Let_def v PLLCFGR_fields[OF p(7,3,4,2,6,5)] p(8) by simp
  qed
  have "sysclk_of (k_hseclk c) s' = f"
    unfolding sysclk_of_def sws using accepted_source(2)[OF assms(1) D(6)] sw(3-6) pll
    by (auto simp: STM32_ACTIVATE_PLL_def)
  then show ?thesis using S D high sws by (auto simp: hclk_of_def pclk1_of_def pclk2_of_def)
qed

section \<open>The rest of the start\<close>

datatype rcc_bus = AHB1 | AHB2 | AHB3 | APB1 | APB2

text \<open>
  \<open>resets\<close> are the masks that a bus has had in its reset register, in their order: a peripheral is reset
  by its bit being set and cleared.
\<close>

record chip = dmasys +
  c_rcc :: rcc
  rstr :: "rcc_bus \<Rightarrow> 32 word"
  resets :: "(rcc_bus \<times> 32 word) list"
  stk_LOAD :: "32 word"
  stk_VAL :: "32 word"
  stk_CTRL :: "32 word"
  scs_DEMCR :: "32 word"
  dwt_CTRL :: "32 word"

definition rccReset :: "rcc_bus \<Rightarrow> 32 word \<Rightarrow> 'x chip_scheme \<Rightarrow> 'x chip_scheme" where
  "rccReset b m s = s\<lparr>resets := resets s @ [(b, rstr s b OR m)], rstr := (rstr s)(b := 0)\<rparr>"

definition RCC_APB1RSTR_PWRRST :: "32 word" where "RCC_APB1RSTR_PWRRST = 0x10000000"
definition STM32_RTCSEL_MASK :: "32 word" where "STM32_RTCSEL_MASK = push_bit 8 3"

text \<open>The logical negation of C.\<close>

definition c_not :: "32 word \<Rightarrow> 32 word" where
  "c_not w = (if w = 0 then 1 else 0)"

definition hal_lld_backup_domain_init :: "nat \<Rightarrow> (rcc \<Rightarrow> rcc) \<Rightarrow> clkconf \<Rightarrow> rcc \<Rightarrow> rcc option" where
  "hal_lld_backup_domain_init fuel hw c s = do {
     s \<leftarrow> Some (s\<lparr>pwr_CR := pwr_CR s OR 0x100\<rparr>);
     s \<leftarrow> Some (if rc_BDCR s AND STM32_RTCSEL_MASK \<noteq> k_rtcsel c then s\<lparr>rc_BDCR := 0x10000, rc_BDCR := 0\<rparr> else s);
     s \<leftarrow> (if k_lse c then wait_for fuel hw (\<lambda>s. rc_BDCR s AND 0x2 \<noteq> 0) (s\<lparr>rc_BDCR := rc_BDCR s OR 0x1\<rparr>) else Some s);
     Some (if k_rtcsel c \<noteq> STM32_RTCSEL_NOCLOCK \<and> rc_BDCR s AND 0x8000 = 0
           then s\<lparr>rc_BDCR := (rc_BDCR s OR k_rtcsel c) OR 0x8000\<rparr> else s) }"

definition hal_lld_init :: "nat \<Rightarrow> (rcc \<Rightarrow> rcc) \<Rightarrow> clkconf \<Rightarrow> 'x chip_scheme \<Rightarrow> 'x chip_scheme option" where
  "hal_lld_init fuel hw c s = do {
     hclk \<leftarrow> STM32_HCLK c;
     s \<leftarrow> Some (rccReset APB2 (c_not 0) (rccReset APB1 (c_not RCC_APB1RSTR_PWRRST)
            (rccReset AHB3 (c_not 0) (rccReset AHB2 (c_not 0) (rccReset AHB1 (c_not 0) s)))));
     s \<leftarrow> Some (s\<lparr>stk_LOAD := of_nat (hclk div nat CH_FREQUENCY) - 1, stk_VAL := 0, stk_CTRL := 0x4 OR 0x1 OR 0x2,
                 scs_DEMCR := scs_DEMCR s OR push_bit 24 1, dwt_CTRL := dwt_CTRL s OR 1\<rparr>);
     r \<leftarrow> hal_lld_backup_domain_init fuel hw c ((c_rcc s)\<lparr>rc_APB1ENR := rc_APB1ENR (c_rcc s) OR 0x10000000\<rparr>);
     Some (dmaInit (s\<lparr>c_rcc := r\<rparr>)) }"

lemma accepted_rtc:
  assumes "clkconf_ok c"
  shows "k_rtcsel c \<in> {STM32_RTCSEL_NOCLOCK, STM32_RTCSEL_LSE, STM32_RTCSEL_LSI, STM32_RTCSEL_HSEDIV}"
  using assms by (auto simp: clkconf_ok_def STM32_RTCCLK_def accept split: if_splits)

text \<open>The clock of the real-time clock is the one of the configuration, and runs if there is one.\<close>

lemma backup_domain:
  assumes "clkconf_ok c" "clock_hardware n hw" "n \<le> fuel"
  shows "\<exists>s'. hal_lld_backup_domain_init fuel hw c s = Some s' \<and> rc_BDCR s' AND STM32_RTCSEL_MASK = k_rtcsel c \<and>
    (k_rtcsel c \<noteq> STM32_RTCSEL_NOCLOCK \<longrightarrow> bit (rc_BDCR s') 15) \<and> rc_PLLCFGR s' = rc_PLLCFGR s \<and>
    (\<forall>i. i \<notin> {2, 3} \<longrightarrow> bit (rc_CFGR s') i = bit (rc_CFGR s) i)"
proof -
  have m: "STM32_RTCSEL_MASK = push_bit 8 (mask 2)" by (simp add: STM32_RTCSEL_MASK_def mask_eq_exp_minus_1)
  let ?M = "\<lambda>w :: 32 word. w AND STM32_RTCSEL_MASK"
  have sel: "?M (k_rtcsel c) = k_rtcsel c" "?M 0x8000 = 0" "?M 0x1 = 0" "?M 0 = 0"
    using accepted_rtc[OF assms(1)] by (auto simp: STM32_RTCSEL_MASK_def clk_fields)
  let ?s1 = "s\<lparr>pwr_CR := pwr_CR s OR 0x100\<rparr>"
  let ?s2 = "if ?M (rc_BDCR ?s1) \<noteq> k_rtcsel c then ?s1\<lparr>rc_BDCR := 0x10000, rc_BDCR := 0\<rparr> else ?s1"
  let ?a = "?s2\<lparr>rc_BDCR := rc_BDCR ?s2 OR 0x1\<rparr>"
  have s2: "?M (rc_BDCR ?s2) = k_rtcsel c \<or> ?M (rc_BDCR ?s2) = 0 \<and> \<not> bit (rc_BDCR ?s2) 15" using sel(4) by auto
  obtain s3 where s3: "(if k_lse c then wait_for fuel hw (\<lambda>s. rc_BDCR s AND 0x2 \<noteq> 0) ?a else Some ?s2) = Some s3"
    "settings s3 = settings (if k_lse c then ?a else ?s2)"
  proof (cases "k_lse c")
    case True
    have "bit (rc_BDCR ?a) 0" by (simp add: bit_or_iff)
    then have "ready_within n hw (\<lambda>s. rc_BDCR s AND 0x2 \<noteq> 0) ?a" using assms(2) unfolding clock_hardware_def by blast
    from wait_for_ends[OF this assms(3,2)] show ?thesis using True that by auto
  qed (use that in auto)
  have keep: "bit (rc_BDCR s3) i = bit (rc_BDCR ?s2) i" if "2 \<le> i" for i
  proof -
    have "rc_BDCR (settings s3) = rc_BDCR (settings (if k_lse c then ?a else ?s2))" using s3(2) by simp
    then have "rc_BDCR s3 AND NOT 0x2 = (if k_lse c then rc_BDCR ?s2 OR 0x1 else rc_BDCR ?s2) AND NOT 0x2"
      by (simp add: settings_def split: if_splits)
    then have e: "bit (rc_BDCR s3 AND NOT 0x2) i = bit ((if k_lse c then rc_BDCR ?s2 OR 0x1 else rc_BDCR ?s2) AND NOT 0x2) i" by simp
    have two: "(0x2 :: 32 word) = push_bit 1 1" by simp
    show ?thesis using e that unfolding two by (auto simp: bit_simps bit_1_iff simp del: push_bit_of_1 dest: bit_imp_le_length split: if_splits)
  qed
  have b3: "?M (rc_BDCR s3) = ?M (rc_BDCR ?s2)" "bit (rc_BDCR s3) 15 = bit (rc_BDCR ?s2) 15"
  proof -
    have "?M a = ?M b" if "\<forall>i\<ge>2. bit a i = bit b i" for a b
      unfolding m by (rule bit_word_eqI) (use that in \<open>auto simp: bit_simps\<close>)
    then show "?M (rc_BDCR s3) = ?M (rc_BDCR ?s2)" using keep by blast
    show "bit (rc_BDCR s3) 15 = bit (rc_BDCR ?s2) 15" by (rule keep) simp
  qed
  have z: "(w AND 0x8000 = 0) = (\<not> bit w 15)" for w :: "32 word"
    using mask_bit[of 15 w] by simp
  let ?u = "k_rtcsel c \<noteq> STM32_RTCSEL_NOCLOCK \<and> rc_BDCR s3 AND 0x8000 = 0"
  define s4 where "s4 = (if ?u then s3\<lparr>rc_BDCR := (rc_BDCR s3 OR k_rtcsel c) OR 0x8000\<rparr> else s3)"
  have r: "hal_lld_backup_domain_init fuel hw c s = Some s4"
    unfolding hal_lld_backup_domain_init_def Option.bind.bind_lunit s3(1) s4_def ..
  have "?M (rc_BDCR s4) = k_rtcsel c"
  proof (cases ?u)
    case True
    then have "?M (rc_BDCR s4) = ?M (rc_BDCR s3) OR k_rtcsel c"
      using sel(1,2) by (simp add: s4_def bit.conj_disj_distrib2)
    moreover have "?M (rc_BDCR s3) = k_rtcsel c \<or> ?M (rc_BDCR s3) = 0" unfolding b3(1) using s2 by blast
    ultimately show ?thesis by (elim disjE) (simp_all only: or.idem or.left_neutral)
  next
    case False
    then have e: "s4 = s3" by (simp only: s4_def if_False)
    from s2 show ?thesis
    proof
      assume "?M (rc_BDCR ?s2) = k_rtcsel c"
      then show ?thesis unfolding e b3(1) .
    next
      assume n: "?M (rc_BDCR ?s2) = 0 \<and> \<not> bit (rc_BDCR ?s2) 15"
      then have "\<not> bit (rc_BDCR s3) 15" unfolding b3(2) by (rule conjunct2)
      then have "k_rtcsel c = 0" using False z[of "rc_BDCR s3"] by (simp add: STM32_RTCSEL_NOCLOCK_def)
      then show ?thesis using n unfolding e b3(1) by metis
    qed
  qed
  moreover have "k_rtcsel c \<noteq> STM32_RTCSEL_NOCLOCK \<longrightarrow> bit (rc_BDCR s4) 15"
    using z[of "rc_BDCR s3"] z[of "0x8000"] by (auto simp: s4_def bit_or_iff)
  moreover have "rc_PLLCFGR s4 = rc_PLLCFGR s \<and> (\<forall>i. i \<notin> {2, 3} \<longrightarrow> bit (rc_CFGR s4) i = bit (rc_CFGR s) i)"
  proof -
    have e: "rc_PLLCFGR (if k_lse c then ?a else ?s2) = rc_PLLCFGR s" "rc_CFGR (if k_lse c then ?a else ?s2) = rc_CFGR s" by simp_all
    have "rc_PLLCFGR s4 = rc_PLLCFGR s3" "rc_CFGR s4 = rc_CFGR s3" by (simp_all add: s4_def)
    then show ?thesis using settings_same(2,3)[OF s3(2)] unfolding e by metis
  qed
  ultimately show ?thesis using r by blast
qed

text \<open>The system timer interrupts at the frequency of the kernel's ticks.\<close>

lemma systick_period:
  assumes "clkconf_ok c" "hal_lld_init fuel hw c s = Some s'" "STM32_HCLK c = Some hclk" "1000 \<le> hclk"
  shows "unat (stk_LOAD s') + 1 = hclk div 1000" "unat (stk_LOAD s') < 2 ^ 24" "bit (stk_CTRL s') 1"
proof -
  have "hclk \<le> 168000000"
    using assms(3) by (auto simp: STM32_HCLK_def accept STM32_SYSCLK_MAX_def split: if_splits)
  then have h: "0 < hclk div 1000" "hclk div 1000 \<le> 168000"
    using assms(4) div_le_mono[of hclk 168000000 1000] by (simp_all add: div_greater_zero_iff)
  have l: "stk_LOAD s' = of_nat (hclk div 1000) - 1" "stk_CTRL s' = 0x4 OR 0x1 OR 0x2"
    using assms(2,3) by (auto simp: hal_lld_init_def accept dmaInit_def write_HIFCR_def write_LIFCR_def Let_def CH_FREQUENCY_def)
  have u: "unat (of_nat (hclk div 1000) :: 32 word) = hclk div 1000" using h by (intro unat_small[of _ 31]) simp_all
  then have "unat (of_nat (hclk div 1000) - 1 :: 32 word) = hclk div 1000 - 1"
    using h unat_minus_one[of "of_nat (hclk div 1000) :: 32 word"] by (metis gr_implies_not0 unat_0)
  then show "unat (stk_LOAD s') + 1 = hclk div 1000" "unat (stk_LOAD s') < 2 ^ 24" using h l(1) by simp_all
  show "bit (stk_CTRL s') 1" unfolding l(2) by (simp add: bit_iff_odd)
qed

text \<open>The robot's settings pass the checks.\<close>

lemma robot_accepted: "clkconf_ok robot_clkconf"
proof -
  have "STM32_PLLCLKIN robot_clkconf = Some 1000000" by (simp add: clk_defs clk_limits clk_fields robot_clkconf_def)
  then have "STM32_PLLI2SVCO robot_clkconf \<noteq> None" by (simp add: STM32_PLLI2SVCO_def require_def clk_limits robot_clkconf_def)
  moreover have "STM32_RTCCLK robot_clkconf \<noteq> None" by (simp add: STM32_RTCCLK_def require_def clk_fields robot_clkconf_def)
  moreover have "STM32_MCO1CLK robot_clkconf \<noteq> None"
    by (simp add: STM32_MCO1CLK_def clk_fields robot_clkconf_def STM32_MCOPRE_DIV_def)
  moreover have "prescaler 27 STM32_MCOPRE_DIV (k_mco2pre robot_clkconf) \<noteq> None" by (simp add: robot_clkconf_def STM32_MCOPRE_DIV_def)
  moreover have "hsi_ok robot_clkconf \<and> hse_ok robot_clkconf \<and> lsi_ok robot_clkconf \<and> lse_ok robot_clkconf"
    by (simp add: hsi_ok_def hse_ok_def lsi_ok_def lse_ok_def clk_limits clk_fields robot_clkconf_def)
  moreover have "ws_thresholds (k_vdd robot_clkconf) \<noteq> None" by (simp add: ws_thresholds_def robot_clkconf_def)
  ultimately show ?thesis using robot_clocks(4,5) by (simp add: clkconf_ok_def robot_clkconf_def STM32_MCO2SEL_SYSCLK_def)
qed

text \<open>The constants of the PWM, serial and I2C drivers and the kernel's tick are those of the tree.\<close>

lemma drivers_clocks:
  "Some (unat STM32_TIMCLK1) = STM32_TIMCLK1_OF robot_clkconf" "Some (unat STM32_PCLK1) = STM32_PCLK1_OF robot_clkconf"
  using robot_clocks(4,6) by (simp_all add: STM32_TIMCLK1_def STM32_PCLK1_def)

end
