(* ===== verification/Driver_Properties.thy ===== *)
theory Driver_Properties
  imports Demo_Robot Printf Pwm_Irq Clock_Init
begin

text \<open>
  The properties of the board and the drivers, each over the model's definitions and free of the
  library's locales, with a witness at the state of \<open>Demo_Robot\<close>.
\<close>

section \<open>Board\<close>

text \<open>
  The initial setup of the board. The hexadecimal setup of the nine ports that palInit programs is what
  the comments of board.h list pad by pad: input or output, pull-up, alternate function.
\<close>

theorem board_as_documented:
  assumes "p < 9" "j < 16"
  shows "pad_as (gpios (palInit pal_default_config s) p) j (board_doc ! p ! j)"
  using assms by (rule board_table)

theorem board_as_documented_witness:
  "pad_as (gpios (palInit pal_default_config demo_robot) GPIOD) 12 Output_pushpull_maximum"
  using board_as_documented[of GPIOD 12 demo_robot] by (simp add: GPIOD_def board_doc_def)

text \<open>
  A bus of pads. What is written to a bus is read back from it when the pads follow the output
  latch, and neither the other pads of the port nor another port is touched.
\<close>

theorem bus_round_trip:
  assumes "off + width \<le> 16" "s' = palWriteBus (IOBUS_DECL port width off) bits s"
    "palReadPort port s'' = palReadLatch port s'"
  shows "palReadBus (IOBUS_DECL port width off) s'' = take_bit width bits \<and>
    (\<forall>i. i < 32 \<longrightarrow> i < off \<or> off + width \<le> i \<longrightarrow> bit (palReadLatch port s') i = bit (palReadLatch port s) i) \<and>
    (\<forall>p. p \<noteq> port \<longrightarrow> gpios s' p = gpios s p) \<and> kernel.truncate s' = kernel.truncate s"
  using read_bus_back[OF assms] write_bus(2-4)[OF assms(1,2)] by blast

theorem bus_round_trip_witness:
  "palReadBus (IOBUS_DECL GPIOD 4 12) (demo_robot\<lparr>gpios := (\<lambda>_. demo_gpio\<lparr>IDR := 0xA000\<rparr>)\<rparr>) = 10"
proof -
  let ?s' = "palWriteBus (IOBUS_DECL GPIOD 4 12) 10 demo_robot"
  let ?t = "demo_robot\<lparr>gpios := (\<lambda>_. demo_gpio\<lparr>IDR := 0xA000\<rparr>)\<rparr>"
  have "palReadPort GPIOD ?t = palReadLatch GPIOD ?s'"
    by (simp add: palReadPort_def palReadLatch_def palWriteBus_def palWriteGroup_def IOBUS_DECL_def set_gpio_def
        demo_gpio_def pal_lld_writegroup_def bsrr_write_def PAL_GROUP_MASK_def)
  from bus_round_trip[OF _ refl this] show ?thesis by simp
qed

section \<open>Serial\<close>

text \<open>
  C25: reception. A received byte joins the input queue in order when there is room; the listeners are told
  of input only when the queue was empty; on a full queue the byte is dropped and the listeners are told of
  the overrun. The other queues and the running thread are as before.
\<close>

theorem serial_reception:
  assumes "kinv s" "iq_ok (gqs s iq)" "iq = sd_iqueue (sds s sdp)" "ls = es_next s (sd_event (sds s sdp))"
  shows "\<exists>s'. sdIncomingDataI sdp b s = Done () s' \<and> kinv s' \<and> currp s' = currp s \<and> iq_ok (gqs s' iq) \<and>
    iq_content (gqs s' iq) = (if chIQIsFullI (gqs s iq) then iq_content (gqs s iq) else iq_content (gqs s iq) @ [b]) \<and>
    els s' = (if iq_content (gqs s iq) = [] then flagged ls CHN_INPUT_AVAILABLE (els s)
              else if chIQIsFullI (gqs s iq) then flagged ls SD_OVERRUN_ERROR (els s) else els s) \<and>
    kernel.more s' = kernel.more s \<and> es_next s' = es_next s \<and> (\<forall>j. j \<noteq> iq \<longrightarrow> gqs s' j = gqs s j)"
  using assms by (rule incoming)

theorem serial_reception_witness:
  "iq_content (gqs demo_robot 0) = [65] \<and>
   (\<exists>s'. sdIncomingDataI SD2 66 demo_robot = Done () s' \<and> iq_content (gqs s' 0) = [65, 66] \<and> els s' = els demo_robot)"
proof -
  have q: "iq_ok (gqs demo_robot 0)" "iq_content (gqs demo_robot 0) = [65]" "\<not> chIQIsFullI (gqs demo_robot 0)"
    "sd_iqueue (sds demo_robot SD2) = 0"
    by (simp_all add: demo_robot_defs iq_ok_def gq_ok_def iq_content_def ring_def chIQIsFullI_def demo_sd_def SD2_def)
  from serial_reception[OF demo_robot_kinv q(1) q(4)[symmetric] refl, of 66] q show ?thesis by auto
qed

text \<open>
  C26: transmission. Bytes that fit are queued behind those that wait, without waiting and with the
  interrupt of the transmitter enabled; the interrupts that follow, one for each byte, put all of them into
  the data register in the order they were written, and leave the queue empty.
\<close>

theorem serial_transmission:
  assumes "kinv s" "oq = sd_oqueue (sds s SD2)" "oq_ok (gqs s oq)" "q_notify (gqs s oq)" "bs \<noteq> []"
    "length (oq_content (gqs s oq)) + length bs \<le> length (q_buffer (gqs s oq))"
  shows "\<exists>s1 s2. quiet (serial_write fuel SD2 bs time s) = Some (length bs, s1) \<and>
    transmit (length (oq_content (gqs s oq)) + length bs) s1 = Some (map ucast (oq_content (gqs s oq) @ bs), s2) \<and>
    kinv s2 \<and> oq_ok (gqs s2 oq) \<and> oq_content (gqs s2 oq) = []"
proof -
  from write_room[OF assms(3,4,1,5,6), of fuel time 0] obtain s1 where
    s1: "quiet (oq_write_loop notify2 fuel oq time bs 0 s) = Some (length bs, s1)" "kinv s1" "oq_ok (gqs s1 oq)"
      "oq_content (gqs s1 oq) = oq_content (gqs s oq) @ bs" "sd_oqueue (sds s1 SD2) = sd_oqueue (sds s SD2)"
      "u_CR1 (sd_usart (sds s1 SD2)) = u_CR1 (sd_usart (sds s SD2)) OR USART_CR1_TXEIE"
    by auto
  have oq: "oq = sd_oqueue (sds s1 SD2)" using assms(2) s1(5) by simp
  have "(x OR USART_CR1_TXEIE) AND USART_CR1_TXEIE \<noteq> 0" for x
    using one_bit[of "x OR USART_CR1_TXEIE" 7] by (simp add: usart_bits bit_simps)
  then have "u_CR1 (sd_usart (sds s1 SD2)) AND USART_CR1_TXEIE \<noteq> 0" by (simp add: s1(6))
  from transmit_all[OF s1(2,3) oq this] obtain s2 where
    "transmit (length (oq_content (gqs s oq)) + length bs) s1 = Some (map ucast (oq_content (gqs s oq) @ bs), s2)"
    "kinv s2" "oq_ok (gqs s2 oq)" "oq_content (gqs s2 oq) = []" unfolding s1(4) by auto
  then show ?thesis using s1(1) assms(2,5) by (intro exI[of _ s1] exI[of _ s2]) (simp add: serial_write_def chOQWriteTimeout_def)
qed

theorem serial_transmission_witness:
  "\<exists>s1 s2. quiet (serial_write 1 SD2 [67, 68] 0 demo_robot) = Some (2, s1) \<and>
     transmit 4 s1 = Some ([65, 66, 67, 68], s2) \<and> oq_content (gqs s2 1) = []"
proof -
  have q: "1 = sd_oqueue (sds demo_robot SD2)" "oq_ok (gqs demo_robot 1)" "q_notify (gqs demo_robot 1)"
    "oq_content (gqs demo_robot 1) = [65, 66]" "length (q_buffer (gqs demo_robot 1)) = 4"
    by (simp_all add: demo_robot_defs oq_ok_def gq_ok_def oq_content_def ring_def chOQGetFullI_def chQSizeI_def
        chQSpaceI_def demo_sd_def upt_rec)
  have e: "length [65, 66 :: byte] + length [67, 68 :: byte] = 4" "length [67, 68 :: byte] = 2"
    "map ucast ([65, 66 :: byte] @ [67, 68]) = [65, 66, 67, 68 :: 16 word]" by simp_all
  have h: "[67, 68 :: byte] \<noteq> []" "length (oq_content (gqs demo_robot 1)) + length [67, 68 :: byte] \<le> length (q_buffer (gqs demo_robot 1))"
    unfolding q(4,5) e(1) by simp_all
  have f: "length [65, 66 :: byte] + 2 = 4" by simp
  from serial_transmission[OF demo_robot_kinv q(1-3) h, of 1 0] show ?thesis
    unfolding q(4) e f by blast
qed

section \<open>I2C\<close>



text \<open>
  Errors of the bus. The error interrupt clears every error flag it finds in the status register,
  notes each in its own bit of the driver's errors, and releases the bus with a stop condition when the
  slave did not acknowledge.
\<close>

theorem i2c_errors_reported:
  "snd (i2c_errors d) = (if bit (i_SR1 d) 8 then I2CD_BUS_ERROR else 0) OR (if bit (i_SR1 d) 9 then I2CD_ARBITRATION_LOST else 0) OR
      (if bit (i_SR1 d) 10 then I2CD_ACK_FAILURE else 0) OR (if bit (i_SR1 d) 11 then I2CD_OVERRUN else 0) OR
      (if bit (i_SR1 d) 12 then I2CD_PEC_ERROR else 0) OR (if bit (i_SR1 d) 14 then I2CD_TIMEOUT else 0) OR
      (if bit (i_SR1 d) 15 then I2CD_SMB_ALERT else 0) \<and>
    i_SR1 (fst (i2c_errors d)) = i_SR1 d AND NOT 0xDF00 \<and>
    i_CR1 (fst (i2c_errors d)) = (if bit (i_SR1 d) 10 then i_CR1 d OR I2C_CR1_STOP else i_CR1 d)"
  by (simp add: i2c_errors_eq I2CD_BUS_ERROR_def I2CD_ARBITRATION_LOST_def I2CD_ACK_FAILURE_def I2CD_OVERRUN_def
      I2CD_PEC_ERROR_def I2CD_TIMEOUT_def I2CD_SMB_ALERT_def)

section \<open>SPI\<close>

text \<open>
  C28: a read of a register of the accelerometer. The caller selects the chip, starts the exchange of two
  bytes, the first of which names the register with the read bit, and sleeps; the interrupt at the end
  stops both DMA streams and wakes it; run again, it releases the chip and returns the second byte received.
\<close>

theorem accelerometer_register:
  assumes "kinv s" "currp s \<noteq> idle_tid" "sp_config (spis s p) = Some c" "length (bufs s lis_txbuf) = 2"
    "sp_sspad c < 16" "sp_end_cb c = None" "flags AND (STM32_DMA_ISR_TEIF OR STM32_DMA_ISR_DMEIF) = 0"
  shows "\<exists>s1 k s2. calm (lis302dlReadRegister p reg s) = Switch s1 k \<and>
    \<not> bit (ODR (gpios s1 (sp_ssport c))) (sp_sspad c) \<and> bufs s1 lis_txbuf = [0x80 OR reg, 0xFF] \<and>
    dma_enabled (sp_dmarx (spis s1 p)) \<and> dma_mem (sp_dmarx (spis s1 p)) = Some lis_rxbuf \<and>
    dma_size (sp_dmarx (spis s1 p)) = 2 \<and> dma_enabled (sp_dmatx (spis s1 p)) \<and>
    dma_mem (sp_dmatx (spis s1 p)) = Some lis_txbuf \<and> dma_size (sp_dmatx (spis s1 p)) = 2 \<and>
    spi_lld_serve_rx_interrupt cb p flags s1 = Done () s2 \<and> kinv s2 \<and> sp_state (spis s2 p) = SPI_READY \<and>
    \<not> dma_enabled (sp_dmarx (spis s2 p)) \<and> \<not> dma_enabled (sp_dmatx (spis s2 p)) \<and> currp s \<in> set (tq s2 QReady) \<and>
    (\<forall>t. sp_config (spis t p) = Some c \<longrightarrow> length (bufs t lis_rxbuf) = 2 \<longrightarrow>
       (\<exists>t'. calm (k t) = Done (bufs t lis_rxbuf ! 1) t' \<and> bit (ODR (gpios t' (sp_ssport c))) (sp_sspad c)))"
proof -
  from read_register[OF assms(1-5), of reg] obtain s1 k where
    1: "calm (lis302dlReadRegister p reg s) = Switch s1 k" "spi_waits p (currp s) s1"
      "\<not> bit (ODR (gpios s1 (sp_ssport c))) (sp_sspad c)" "bufs s1 lis_txbuf = [0x80 OR reg, 0xFF]"
      "sp_config (spis s1 p) = Some c"
      "dma_enabled (sp_dmarx (spis s1 p))" "dma_mem (sp_dmarx (spis s1 p)) = Some lis_rxbuf"
      "dma_size (sp_dmarx (spis s1 p)) = 2" "dma_enabled (sp_dmatx (spis s1 p))"
      "dma_mem (sp_dmatx (spis s1 p)) = Some lis_txbuf" "dma_size (sp_dmatx (spis s1 p)) = 2"
      "\<forall>t. sp_config (spis t p) = Some c \<longrightarrow> length (bufs t lis_rxbuf) = 2 \<longrightarrow>
       (\<exists>t'. calm (k t) = Done (bufs t lis_rxbuf ! 1) t' \<and> bit (ODR (gpios t' (sp_ssport c))) (sp_sspad c))" by blast
  from spi_done[OF 1(2,5) assms(6,7), of cb] obtain s2 where
    "spi_lld_serve_rx_interrupt cb p flags s1 = Done () s2" "kinv s2" "sp_state (spis s2 p) = SPI_READY"
    "\<not> dma_enabled (sp_dmarx (spis s2 p))" "\<not> dma_enabled (sp_dmatx (spis s2 p))" "currp s \<in> set (tq s2 QReady)" by blast
  with 1 show ?thesis by - (rule exI[of _ s1], rule exI[of _ k], rule exI[of _ s2], simp only: simp_thms)
qed

theorem accelerometer_register_witness:
  "\<exists>s1 k s2. calm (lis302dlReadRegister SPID1 LIS302DL_OUTX demo_robot) = Switch s1 k \<and>
     \<not> bit (ODR (gpios s1 GPIOE)) 3 \<and>
     spi_lld_serve_rx_interrupt (\<lambda>_ _. Done ()) SPID1 STM32_DMA_ISR_TCIF s1 = Done () s2 \<and> 0 \<in> set (tq s2 QReady)"
proof -
  let ?c = "\<lparr>sp_end_cb = None, sp_ssport = GPIOE, sp_sspad = 3, sp_cr1 = 0\<rparr>"
  have h: "currp demo_robot \<noteq> idle_tid" "sp_config (spis demo_robot SPID1) = Some ?c" "length (bufs demo_robot lis_txbuf) = 2"
    "sp_sspad ?c < 16" "sp_end_cb ?c = None" "STM32_DMA_ISR_TCIF AND (STM32_DMA_ISR_TEIF OR STM32_DMA_ISR_DMEIF) = 0"
    by (simp_all add: idle_tid_def demo_spi_def dma_bits)
  from accelerometer_register[OF demo_robot_kinv h, of LIS302DL_OUTX "\<lambda>_ _. Done ()"] show ?thesis by auto
qed

section \<open>Formatted output\<close>

text \<open>
  C33: a number printed by chprintf is read back by atoi as it was: in a field of any width, filled up
  with spaces before or after it or with zeros after its sign, for every 32 bit number but the least, which
  the code cannot negate. The field has at least the width asked for, which the code takes modulo 256.
\<close>

theorem printed_number_read_back:
  assumes "sint x \<noteq> -2147483648" "f \<in> {''%*d'', ''%-*d'', ''%.*d''}"
  shows "\<exists>out. chprintf fl put (chars f @ [0]) [A_int w, A_int x] s = put_bytes put out s \<and> atoi_val out = sint x \<and>
    uint w mod 256 \<le> int (length out)"
proof -
  let ?w = "uint (ucast w :: byte)"
  have w: "?w = uint w mod 256" by (simp add: unsigned_ucast_eq take_bit_eq_mod)
  from printed_field[OF assms(1), of ?w] obtain t where t: "pf_signed x = Some t"
    "\<And>l. atoi_val (pf_layout ?w l 32 t) = sint x" "atoi_val (pf_layout ?w False 48 t) = sint x" by (metis option.inject)
  have l: "uint w mod 256 \<le> int (length (pf_layout ?w left f t))" for left f unfolding pf_layout_length w by simp
  show ?thesis using assms(2) chprintf_decimal[OF t(1), of fl put w s] t(2,3) l by auto
qed

text \<open>Whole numbers in place of the floating point ones.\<close>

definition demo_flops :: "int pflops" where
  "demo_flops = \<lparr>d_float = (\<lambda>x. x), d_negative = (\<lambda>x. x < 0), d_uminus = uminus, d_to_long = Some, d_of_long = (\<lambda>x. x),
     d_sub = (-), d_mul = (*)\<rparr>"

theorem printed_number_read_back_witness:
  "\<exists>out. chprintf demo_flops (\<lambda>b s. Done () (s @ [b])) (chars ''%.*d'' @ [0]) [A_int 6, A_int (-7)] [] =
     put_bytes (\<lambda>b s. Done () (s @ [b])) out [] \<and> atoi_val out = -7 \<and> 6 \<le> length out"
  using printed_number_read_back[of "-7" "''%.*d''" demo_flops "\<lambda>b s. Done () (s @ [b])" 6 "[]"] by auto

section \<open>DMA streams\<close>

text \<open>
  C30: the sixteen vectors of the two DMA controllers. Each is written out on its own with the registers and
  shifts of its stream, and each does what the table of descriptors says: it hands the flags of its stream
  to the function that is registered for it, if there is one, having cleared these flags and those of no
  other stream.
\<close>

theorem dma_stream_isolation:
  assumes "i < 16" "j < 16"
  shows "(dma_vectors call ! i) s = obind (dma_redirect call i (stream_flags (stm32_dma_streams ! i) s)
      (blk_ClearInterrupt (stm32_dma_streams ! i) s)) (\<lambda>_. port_irq_epilogue) \<and>
    stream_flags (stm32_dma_streams ! j) (blk_ClearInterrupt (stm32_dma_streams ! i) s) =
      (if j = i then 0 else stream_flags (stm32_dma_streams ! j) s)"
  using dma_vector_eq[OF assms(1)] clear_flags[OF assms] by blast

definition demo_dmas :: dmasys where
  "demo_dmas = demo_on (dmasys.fields (\<lambda>_. 0xFFFFFFFF) (\<lambda>_. 0xFFFFFFFF)
     (\<lambda>_. \<lparr>d_CR = 1, d_NDTR = 0, d_PAR = 0, d_M0AR = 0, d_M1AR = 0, d_FCR = 0\<rparr>) 1 (\<lambda>_. None) (\<lambda>_. 0)
     (\<lambda>c. c = DMA1) (\<lambda>_. False))"

theorem dma_stream_isolation_witness:
  "stream_flags (stm32_dma_streams ! 12) (blk_ClearInterrupt (stm32_dma_streams ! 13) demo_dmas) = 0x3D \<and>
   (dma_vectors (\<lambda>f p flags. Done ()) ! 13) demo_dmas =
     obind (dma_redirect (\<lambda>f p flags. Done ()) 13 0x3D (blk_ClearInterrupt (stm32_dma_streams ! 13) demo_dmas)) (\<lambda>_. port_irq_epilogue)"
proof -
  have "stream_flags (stm32_dma_streams ! 12) demo_dmas = 0x3D" "stream_flags (stm32_dma_streams ! 13) demo_dmas = 0x3D"
    by (simp_all add: stream_flags_def stm32_dma_streams_def demo_dmas_def demo_on_def dmasys.defs STM32_DMA_ISR_MASK_def)
  then show ?thesis using dma_stream_isolation[of 13 12 "\<lambda>f p flags. Done ()" demo_dmas] by simp
qed

text \<open>
  C31: taking and giving back a DMA stream. A taken stream is refused with nothing changed. A free one is
  taken with its function and parameter registered, its control register reset and its flags cleared; the
  other streams keep their registers, flags and owners, and the clock of its controller runs. Giving it back
  leaves exactly the other streams taken and their controllers' clocks running.
\<close>

theorem dma_allocation:
  assumes "i < 16" "clocks_ok s"
  shows "if stream_taken i s then blk_Allocate (stm32_dma_streams ! i) f p s = (True, s)
    else \<exists>s'. blk_Allocate (stm32_dma_streams ! i) f p s = (False, s') \<and> clocks_ok s' \<and>
      (\<forall>j. stream_taken j s' = (j = i \<or> stream_taken j s)) \<and>
      dma_func s' = (dma_func s)(i := f) \<and> dma_param s' = (dma_param s)(i := p) \<and>
      d_CR (dstreams s' i) = 0 \<and> (\<forall>j. j \<noteq> i \<longrightarrow> dstreams s' j = dstreams s j) \<and>
      (\<forall>j<16. stream_flags (stm32_dma_streams ! j) s' = (if j = i then 0 else stream_flags (stm32_dma_streams ! j) s)) \<and>
      (\<forall>j. stream_taken j (blk_Release (stm32_dma_streams ! i) s') = stream_taken j s) \<and>
      clocks_ok (blk_Release (stm32_dma_streams ! i) s')"
proof (cases "stream_taken i s")
  case True
  then show ?thesis using allocate_taken[OF assms(1)] by simp
next
  case False
  from allocate_free[OF assms(1) False assms(2), of f p] obtain s' where s': "blk_Allocate (stm32_dma_streams ! i) f p s = (False, s')"
    "\<And>j. stream_taken j s' = (j = i \<or> stream_taken j s)" "clocks_ok s'" "dma_func s' = (dma_func s)(i := f)"
    "dma_param s' = (dma_param s)(i := p)" "d_CR (dstreams s' i) = 0" "\<forall>j. j \<noteq> i \<longrightarrow> dstreams s' j = dstreams s j"
    "\<forall>j<16. stream_flags (stm32_dma_streams ! j) s' = (if j = i then 0 else stream_flags (stm32_dma_streams ! j) s)" by blast
  have r: "stream_taken j (blk_Release (stm32_dma_streams ! i) s') = stream_taken j s" for j
    using release_free(1)[OF assms(1), of j s'] s'(2)[of j] False by auto
  have "clocks_ok (blk_Release (stm32_dma_streams ! i) s')"
    using s'(3) descriptors(4) unfolding clocks_ok_def release_free[OF assms(1)] by metis
  then show ?thesis using s' r False by simp
qed

theorem dma_allocation_witness:
  "blk_Allocate (stm32_dma_streams ! 0) None 0 demo_dmas = (True, demo_dmas) \<and>
   (\<exists>s'. blk_Allocate (stm32_dma_streams ! 12) (Some 3) 7 demo_dmas = (False, s') \<and> dma_func s' 12 = Some 3 \<and>
      stream_taken 0 s' \<and> \<not> stream_taken 12 (blk_Release (stm32_dma_streams ! 12) s'))"
proof -
  have d: "clocks_ok demo_dmas" "\<And>j. stream_taken j demo_dmas = (j = 0)"
    by (auto simp: clocks_ok_def stream_taken_def demo_dmas_def demo_on_def dmasys.defs bit_1_iff)
  show ?thesis
    using dma_allocation[of 0 demo_dmas None 0] dma_allocation[of 12 demo_dmas "Some 3" 7] d by auto
qed

section \<open>PWM interrupt\<close>

text \<open>
  C32: the interrupt of the PWM timer. Whatever the operations of the driver made of it, no flag is enabled
  whose callback is null, so the unchecked calls of the handler never go wrong: it clears the flags it found
  pending and enabled, and calls exactly their callbacks, the channels in their order and the period last.
\<close>

theorem pwm_interrupt_served:
  assumes "pwm_driven (pwms s PWMD3)"
    "\<And>ch s. \<exists>s'. call ch PWMD3 s = Done () s' \<and> (\<forall>c. has_callback c (pwms s PWMD3) \<longrightarrow> has_callback c (pwms s' PWMD3))"
  shows "STM32_TIM3_HANDLER call s = obind (run_calls call PWMD3 (pwm_pending (pwms s PWMD3))
      (s\<lparr>pwms := (pwms s)(PWMD3 := pwm_acknowledged (pwms s PWMD3))\<rparr>)) (\<lambda>_. port_irq_epilogue) \<and>
    (\<exists>s'. pwm_lld_serve_interrupt call PWMD3 s = Done () s')"
proof -
  note C = pwm_interrupt_calls[of s PWMD3 call, OF driven_irqs[OF assms(1)], OF assms(2)]
  show ?thesis using C(2) unfolding STM32_TIM3_HANDLER_def C(1) by blast
qed

text \<open>A channel with a callback, enabled and at its end.\<close>

theorem pwm_interrupt_served_witness:
  "\<exists>p. pwm_pending p = [Some 1] \<and> pwm_driven p \<and>
     (\<exists>s'. pwm_lld_serve_interrupt (\<lambda>_ _. Done ()) PWMD3 (demo_robot\<lparr>pwms := (\<lambda>_. p)\<rparr>) = Done () s')"
proof -
  let ?ch = "\<lparr>ch_mode = 1, ch_callback = False\<rparr>"
  let ?c = "motor_pwmcfg\<lparr>pc_channels := [?ch, ?ch\<lparr>ch_callback := True\<rparr>, ?ch, ?ch]\<rparr>"
  define p0 where "p0 = demo_pwm\<lparr>pw_config := Some ?c, pw_period := 20\<rparr>"
  have c: "pw_config p0 = Some ?c" "pc_frequency ?c \<noteq> 0" "\<not> pc_callback ?c" by (simp_all add: p0_def motor_pwmcfg_def)
  have "pwm_lld_start p0 \<noteq> None" using c by (simp add: pwm_lld_start_def PWM_CHANNELS_def Let_def)
  then obtain p1 where p1: "pwm_lld_start p0 = Some p1" by blast
  have f1: "pw_config p1 = Some ?c" "t_DIER (pw_tim p1) = 0"
    using p1 c by (auto simp: pwm_lld_start_def Let_def split: if_splits)
  have "pw_state p0 \<noteq> PWM_STOP" by (simp add: p0_def demo_pwm_def)
  then have f2: "length (t_CCR (pw_tim p1)) = 4"
    using p1 c by (auto simp: pwm_lld_start_def Let_def split: if_splits)
  let ?p1 = "p1\<lparr>pw_state := PWM_READY\<rparr>"
  have "pwm_lld_enable_channel 1 10 ?p1 \<noteq> None" using f1 f2 by (simp add: pwm_lld_enable_channel_def Let_def)
  then obtain p2 where p2: "pwm_lld_enable_channel 1 10 ?p1 = Some p2" by blast
  have d2: "t_DIER (pw_tim p2) = 4"
    using p2 f1 f2 by (auto simp: pwm_lld_enable_channel_def Let_def split: if_splits)
  let ?p = "p2\<lparr>pw_tim := (pw_tim p2)\<lparr>t_SR := 5\<rparr>\<rparr>"
  have d: "pwm_driven ?p" by (rule driven_flags[OF driven_enable[OF driven_start[OF p1[unfolded p0_def]] p2]])
  have n: "pwm_pending ?p = [Some 1]" by (simp add: pwm_pending_def d2 irq_of_def bit_iff_odd)
  have "pwms (demo_robot\<lparr>pwms := (\<lambda>_. ?p)\<rparr>) PWMD3 = ?p" by simp
  then have "\<exists>s'. pwm_lld_serve_interrupt (\<lambda>_ _. Done ()) PWMD3 (demo_robot\<lparr>pwms := (\<lambda>_. ?p)\<rparr>) = Done () s'"
    using pwm_interrupt_served[of "demo_robot\<lparr>pwms := (\<lambda>_. ?p)\<rparr>" "\<lambda>_ _. Done ()"] d by simp
  then show ?thesis using n d by blast
qed

section \<open>Clocks\<close>

text \<open>
  C29: the start of the clocks. For every configuration that the checks of the preprocessor accept, and a
  clock controller that behaves as documented, the start ends (each waiting loop within the readings that an
  oscillator needs) with registers that give the frequencies of the configuration: those of the core and of
  the two buses, none above its limit, and the flash has the wait states of the core's frequency. The
  checks leave one case open, which is a hypothesis: the 48 MHz clock from an oscillator that is not enabled.
\<close>

theorem clocks_as_configured:
  assumes "clkconf_ok c" "clock_hardware n hw" "n \<le> fuel" "rc_CFGR s = 0" "rc_PLLCFGR s = 0x24003010"
    "k_clock48 c \<longrightarrow> k_pllsrc c = STM32_PLLSRC_HSE \<longrightarrow> k_hse c"
  shows "\<exists>s' f h f1 f2 th. stm32_clock_init fuel hw c s = Some s' \<and>
    sysclk_of (k_hseclk c) s' = f \<and> STM32_SYSCLK c = Some f \<and> f \<le> STM32_SYSCLK_MAX c \<and>
    hclk_of (k_hseclk c) s' = Some h \<and> STM32_HCLK c = Some h \<and> h \<le> f \<and>
    pclk1_of (k_hseclk c) s' = Some f1 \<and> STM32_PCLK1_OF c = Some f1 \<and> f1 \<le> STM32_PCLK1_MAX \<and>
    pclk2_of (k_hseclk c) s' = Some f2 \<and> STM32_PCLK2_OF c = Some f2 \<and> f2 \<le> STM32_PCLK2_MAX \<and>
    ws_thresholds (k_vdd c) = Some th \<and> flash_ACR s' = 0x700 OR STM32_FLASHBITS th h"
proof -
  from registers_give_tree[OF assms] obtain s' hclk th where 1: "stm32_clock_init fuel hw c s = Some s'"
    "Some (sysclk_of (k_hseclk c) s') = STM32_SYSCLK c" "hclk_of (k_hseclk c) s' = Some hclk" "Some hclk = STM32_HCLK c"
    "pclk1_of (k_hseclk c) s' = STM32_PCLK1_OF c" "pclk2_of (k_hseclk c) s' = STM32_PCLK2_OF c"
    "ws_thresholds (k_vdd c) = Some th" "flash_ACR s' = 0x700 OR STM32_FLASHBITS th hclk" by blast
  from accepted_bounds[OF assms(1)] obtain f h f1 f2 where 2: "STM32_SYSCLK c = Some f" "STM32_HCLK c = Some h"
    "STM32_PCLK1_OF c = Some f1" "STM32_PCLK2_OF c = Some f2" "f \<le> STM32_SYSCLK_MAX c" "h \<le> f"
    "f1 \<le> STM32_PCLK1_MAX" "f2 \<le> STM32_PCLK2_MAX" by blast
  have "sysclk_of (k_hseclk c) s' = f" "hclk = h" using 1(2,4) 2(1,2) by simp_all
  then show ?thesis using 1 2 by simp
qed

text \<open>A controller in which every oscillator is ready at the second reading.\<close>

definition demo_clocks :: "rcc \<Rightarrow> rcc" where
  "demo_clocks s = s\<lparr>pwr_CSR := 0x4000, rc_CR := rc_CR s OR 0x0A020002, rc_CSR := rc_CSR s OR 0x2, rc_BDCR := rc_BDCR s OR 0x2,
     rc_CFGR := (rc_CFGR s AND NOT 0xC) OR push_bit 2 (rc_CFGR s AND 3)\<rparr>"

lemma demo_clocks: "clock_hardware 2 demo_clocks"
proof -
  have k: "ready_within 2 demo_clocks ready s" if "ready (demo_clocks s)" for ready s
    unfolding ready_within_def using that by (intro exI[of _ 1]) simp
  have m: "(x OR m) AND NOT m = x AND NOT m" for x m :: "32 word"
    by (rule bit_word_eqI) (auto simp: bit_simps)
  have sub: "(x OR m) AND b \<noteq> 0" if "m AND b = b" "b \<noteq> 0" for x m b :: "32 word"
    using that by (simp add: bit.conj_disj_distrib2 or_eq_0_iff)
  have c: "push_bit 2 (x AND 3) AND NOT 0xC = 0" "push_bit 2 (x AND 3) AND 0xC = push_bit 2 (x AND 3)" "push_bit 2 (x AND 3) AND 3 = 0" for x :: "32 word"
  proof -
    have e: "(0xC :: 32 word) = push_bit 2 (mask 2)" "(3 :: 32 word) = mask 2" by (simp_all add: mask_eq_exp_minus_1)
    show "push_bit 2 (x AND 3) AND NOT 0xC = 0" "push_bit 2 (x AND 3) AND 0xC = push_bit 2 (x AND 3)" "push_bit 2 (x AND 3) AND 3 = 0"
      unfolding e by (rule bit_word_eqI, auto simp: bit_simps)+
  qed
  have f: "((x AND NOT 0xC) OR push_bit 2 (x AND 3)) AND NOT 0xC = x AND NOT 0xC"
    "((x AND NOT 0xC) OR push_bit 2 (x AND 3)) AND 0xC = push_bit 2 (x AND 3)"
    "((x AND NOT 0xC) OR push_bit 2 (x AND 3)) AND 3 = x AND 3" for x :: "32 word"
  proof -
    have e: "NOT 0xC AND 3 = (3 :: 32 word)" by simp
    show "((x AND NOT 0xC) OR push_bit 2 (x AND 3)) AND NOT 0xC = x AND NOT 0xC"
      "((x AND NOT 0xC) OR push_bit 2 (x AND 3)) AND 0xC = push_bit 2 (x AND 3)"
      "((x AND NOT 0xC) OR push_bit 2 (x AND 3)) AND 3 = x AND 3"
      unfolding bit.conj_disj_distrib2 c by (simp_all only: and.assoc e and.idem bit.conj_cancel_left or.right_neutral and_zero_eq or.left_neutral)
  qed
  have stay: "(x AND NOT 0xC) OR (x AND 0xC) = x" for x :: "32 word"
    by (rule bit_word_eqI) (auto simp: bit_simps)
  have "settings (demo_clocks s) = settings s" for s using m[of "rc_CR s" "0x0A020002"] m[of "rc_CSR s" 2] m[of "rc_BDCR s" 2] f(1)[of "rc_CFGR s"]
    by (simp add: demo_clocks_def settings_def)
  moreover have "rc_CFGR s AND 0xC = push_bit 2 (rc_CFGR s AND 3) \<longrightarrow> rc_CFGR (demo_clocks s) = rc_CFGR s" for s
  proof
    assume "rc_CFGR s AND 0xC = push_bit 2 (rc_CFGR s AND 3)"
    then have "(rc_CFGR s AND NOT 0xC) OR push_bit 2 (rc_CFGR s AND 3) = rc_CFGR s" using stay by metis
    then show "rc_CFGR (demo_clocks s) = rc_CFGR s" by (simp add: demo_clocks_def)
  qed
  moreover have "ready_within 2 demo_clocks (\<lambda>s. pwr_CSR s AND 0x4000 \<noteq> 0) s"
    "ready_within 2 demo_clocks (\<lambda>s. rc_CR s AND 0x2 \<noteq> 0) s" "ready_within 2 demo_clocks (\<lambda>s. rc_CR s AND 0x20000 \<noteq> 0) s"
    "ready_within 2 demo_clocks (\<lambda>s. rc_CSR s AND 0x2 \<noteq> 0) s" "ready_within 2 demo_clocks (\<lambda>s. rc_BDCR s AND 0x2 \<noteq> 0) s"
    "ready_within 2 demo_clocks (\<lambda>s. rc_CR s AND 0x2000000 \<noteq> 0) s" "ready_within 2 demo_clocks (\<lambda>s. rc_CR s AND 0x8000000 \<noteq> 0) s"
    for s by (rule k, simp add: demo_clocks_def sub)+
  moreover have "ready_within 2 demo_clocks (\<lambda>s. rc_CFGR s AND 0xC = push_bit 2 (rc_CFGR s AND 3)) s" for s
  proof (rule k)
    have "rc_CFGR (demo_clocks s) = (rc_CFGR s AND NOT 0xC) OR push_bit 2 (rc_CFGR s AND 3)" by (simp add: demo_clocks_def)
    then show "rc_CFGR (demo_clocks s) AND 0xC = push_bit 2 (rc_CFGR (demo_clocks s) AND 3)" by (simp only: f)
  qed
  ultimately show ?thesis unfolding clock_hardware_def by blast
qed

theorem clocks_as_configured_witness:
  "\<exists>s'. stm32_clock_init 2 demo_clocks robot_clkconf \<lparr>rc_CR = 0x83, rc_PLLCFGR = 0x24003010, rc_PLLI2SCFGR = 0x20003000, rc_CFGR = 0,
       rc_CSR = 0x0E000000, rc_BDCR = 0, rc_APB1ENR = 0, rc_APB2ENR = 0, rc_APB2LPENR = 0x00075F33, pwr_CR = 0x4000, pwr_CSR = 0,
       flash_ACR = 0\<rparr> = Some s' \<and> sysclk_of 8000000 s' = 168000000 \<and> flash_ACR s' = 0x705"
proof -
  let ?s = "\<lparr>rc_CR = 0x83, rc_PLLCFGR = 0x24003010, rc_PLLI2SCFGR = 0x20003000, rc_CFGR = 0,
       rc_CSR = 0x0E000000, rc_BDCR = 0, rc_APB1ENR = 0, rc_APB2ENR = 0, rc_APB2LPENR = 0x00075F33, pwr_CR = 0x4000, pwr_CSR = 0,
       flash_ACR = 0\<rparr> :: rcc"
  have h: "k_hse robot_clkconf" "k_hseclk robot_clkconf = 8000000" by (simp_all add: robot_clkconf_def)
  have th: "ws_thresholds (k_vdd robot_clkconf) = Some [30000000, 60000000, 90000000, 120000000, 150000000, 168000000, 0, 0]"
    by (simp add: ws_thresholds_def robot_clkconf_def)
  show ?thesis
    using clocks_as_configured[OF robot_accepted demo_clocks order_refl, of ?s] h th robot_clocks(2,3)
    by (auto simp: STM32_FLASHBITS_def)
qed

end
