(* ===== verification/Mmcsd.thy ===== *)
theory Mmcsd
  imports Prelude
begin

text \<open>
  The computations of the memory card drivers: the CRC-7 of \<^verbatim>\<open>os/hal/src/mmc_spi.c\<close>, read from a table of
  256 bytes, and the fields of a card's CSD register in \<^verbatim>\<open>os/hal/src/mmcsd.c\<close>.
\<close>

section \<open>CRC-7\<close>

definition crc7_lookup_table :: "byte list" where
  "crc7_lookup_table = [
     0x00, 0x09, 0x12, 0x1b, 0x24, 0x2d, 0x36, 0x3f, 0x48, 0x41, 0x5a, 0x53, 0x6c, 0x65, 0x7e, 0x77,
     0x19, 0x10, 0x0b, 0x02, 0x3d, 0x34, 0x2f, 0x26, 0x51, 0x58, 0x43, 0x4a, 0x75, 0x7c, 0x67, 0x6e,
     0x32, 0x3b, 0x20, 0x29, 0x16, 0x1f, 0x04, 0x0d, 0x7a, 0x73, 0x68, 0x61, 0x5e, 0x57, 0x4c, 0x45,
     0x2b, 0x22, 0x39, 0x30, 0x0f, 0x06, 0x1d, 0x14, 0x63, 0x6a, 0x71, 0x78, 0x47, 0x4e, 0x55, 0x5c,
     0x64, 0x6d, 0x76, 0x7f, 0x40, 0x49, 0x52, 0x5b, 0x2c, 0x25, 0x3e, 0x37, 0x08, 0x01, 0x1a, 0x13,
     0x7d, 0x74, 0x6f, 0x66, 0x59, 0x50, 0x4b, 0x42, 0x35, 0x3c, 0x27, 0x2e, 0x11, 0x18, 0x03, 0x0a,
     0x56, 0x5f, 0x44, 0x4d, 0x72, 0x7b, 0x60, 0x69, 0x1e, 0x17, 0x0c, 0x05, 0x3a, 0x33, 0x28, 0x21,
     0x4f, 0x46, 0x5d, 0x54, 0x6b, 0x62, 0x79, 0x70, 0x07, 0x0e, 0x15, 0x1c, 0x23, 0x2a, 0x31, 0x38,
     0x41, 0x48, 0x53, 0x5a, 0x65, 0x6c, 0x77, 0x7e, 0x09, 0x00, 0x1b, 0x12, 0x2d, 0x24, 0x3f, 0x36,
     0x58, 0x51, 0x4a, 0x43, 0x7c, 0x75, 0x6e, 0x67, 0x10, 0x19, 0x02, 0x0b, 0x34, 0x3d, 0x26, 0x2f,
     0x73, 0x7a, 0x61, 0x68, 0x57, 0x5e, 0x45, 0x4c, 0x3b, 0x32, 0x29, 0x20, 0x1f, 0x16, 0x0d, 0x04,
     0x6a, 0x63, 0x78, 0x71, 0x4e, 0x47, 0x5c, 0x55, 0x22, 0x2b, 0x30, 0x39, 0x06, 0x0f, 0x14, 0x1d,
     0x25, 0x2c, 0x37, 0x3e, 0x01, 0x08, 0x13, 0x1a, 0x6d, 0x64, 0x7f, 0x76, 0x49, 0x40, 0x5b, 0x52,
     0x3c, 0x35, 0x2e, 0x27, 0x18, 0x11, 0x0a, 0x03, 0x74, 0x7d, 0x66, 0x6f, 0x50, 0x59, 0x42, 0x4b,
     0x17, 0x1e, 0x05, 0x0c, 0x33, 0x3a, 0x21, 0x28, 0x5f, 0x56, 0x4d, 0x44, 0x7b, 0x72, 0x69, 0x60,
     0x0e, 0x07, 0x1c, 0x15, 0x2a, 0x23, 0x38, 0x31, 0x46, 0x4f, 0x54, 0x5d, 0x62, 0x6b, 0x70, 0x79]"

text \<open>The index is an \<open>int\<close>: an entry beyond the table is not read as long as the CRC has seven bits.\<close>

fun crc7 :: "byte \<Rightarrow> byte list \<Rightarrow> byte option" where
  "crc7 crc [] = Some crc"
| "crc7 crc (b # bs) =
     (let i = push_bit 1 (unat crc) XOR unat b
      in if i < 256 then crc7 (crc7_lookup_table ! i) bs else None)"

text \<open>
  The definition of the code: the remainder of a string of bits, the first the highest, divided by
  $x^7 + x^3 + 1$, with seven zeros behind the string.
\<close>

definition crc_bit :: "byte \<Rightarrow> bool \<Rightarrow> byte" where
  "crc_bit r b = (let r' = push_bit 1 r in take_bit 7 (if bit r 6 \<noteq> b then r' XOR 0x09 else r'))"

definition crc_bits :: "byte \<Rightarrow> bool list \<Rightarrow> byte" where
  "crc_bits r bs = foldl crc_bit r bs"

definition bits_of :: "byte \<Rightarrow> bool list" where
  "bits_of b = map (bit b) [7, 6, 5, 4, 3, 2, 1, 0]"

definition bits_of_bytes :: "byte list \<Rightarrow> bool list" where
  "bits_of_bytes bs = concat (map bits_of bs)"

lemma crc_bits_simps [simp]:
  "crc_bits r [] = r" "crc_bits r (b # bs) = crc_bits (crc_bit r b) bs" "crc_bits r (as @ bs) = crc_bits (crc_bits r as) bs"
  by (simp_all add: crc_bits_def)

text \<open>Each half of the table gives the other: the remainder of one bit more.\<close>

definition crc_doubled :: "byte list \<Rightarrow> byte list" where
  "crc_doubled rs = concat (map (\<lambda>r. [crc_bit r False, crc_bit r True]) rs)"

lemma table_doubled: "crc7_lookup_table = crc_doubled (take 128 crc7_lookup_table)"
  unfolding crc7_lookup_table_def crc_doubled_def by (simp add: crc_bit_def)

lemma crc_doubled_nth:
  "i < 2 * length rs \<Longrightarrow> crc_doubled rs ! i = crc_bit (rs ! (i div 2)) (odd i)"
proof (induction rs arbitrary: i)
  case (Cons r rs)
  have c: "crc_doubled (r # rs) = crc_bit r False # crc_bit r True # crc_doubled rs" by (simp add: crc_doubled_def)
  show ?case
  proof (cases "i < 2")
    case True
    then show ?thesis unfolding c by (auto simp: less_2_cases_iff)
  next
    case False
    then obtain j where j: "i = Suc (Suc j)" by (metis add_2_eq_Suc le_Suc_ex not_less)
    then show ?thesis unfolding c using Cons by simp
  qed
qed (simp add: crc_doubled_def)

lemma table_length: "length crc7_lookup_table = 256"
  by (simp add: crc7_lookup_table_def)

lemma table_entry:
  "k \<le> 8 \<Longrightarrow> i < 2 ^ k \<Longrightarrow> crc7_lookup_table ! i = crc_bits 0 (map (bit i) (rev [0..<k]))"
proof (induction k arbitrary: i)
  case 0
  then show ?case by (simp add: crc7_lookup_table_def)
next
  case (Suc k)
  have "(2 :: nat) ^ Suc k \<le> 2 ^ 8" using Suc.prems(1) by (intro power_increasing) simp_all
  then have i: "i < 256" using Suc.prems(2) by simp
  then have "crc7_lookup_table ! i = crc_bit (take 128 crc7_lookup_table ! (i div 2)) (odd i)"
    by (subst table_doubled) (simp add: crc_doubled_nth table_length)
  also have "\<dots> = crc_bit (crc7_lookup_table ! (i div 2)) (odd i)" using i by simp
  also have "crc7_lookup_table ! (i div 2) = crc_bits 0 (map (bit (i div 2)) (rev [0..<k]))"
    using Suc.prems by (intro Suc.IH) simp_all
  also have "map (bit (i div 2)) (rev [0..<k]) = map (bit i) (rev [1..<Suc k])"
    by (simp add: rev_map map_Suc_upt[symmetric] bit_Suc comp_def del: upt_Suc)
  finally show ?case by (simp add: upt_rec[of 0 "Suc k"] bit_0 del: upt_Suc)
qed

subsection \<open>The remainder is linear\<close>

abbreviation "crc_zero r \<equiv> crc_bit r False"

definition crc_poly :: "bool \<Rightarrow> byte" where
  "crc_poly p = (if p then 0x09 else 0)"

lemma crc_bit_eq: "crc_bit r b = take_bit 7 (push_bit 1 r XOR crc_poly (bit r 6 \<noteq> b))"
  by (simp add: crc_bit_def crc_poly_def Let_def)

lemma crc_bit_linear: "crc_bit (r XOR s) (b \<noteq> c) = crc_bit r b XOR crc_bit s c"
proof -
  have k: "crc_poly (bit (r XOR s) 6 \<noteq> (b \<noteq> c)) = crc_poly (bit r 6 \<noteq> b) XOR crc_poly (bit s 6 \<noteq> c)"
    by (auto simp: crc_poly_def bit_xor_iff)
  show ?thesis unfolding crc_bit_eq k take_bit_xor push_bit_xor by (simp only: xor.assoc xor.left_commute)
qed

lemma crc_bits_linear:
  "length as = length bs \<Longrightarrow> crc_bits (r XOR s) (map2 (\<noteq>) as bs) = crc_bits r as XOR crc_bits s bs"
proof (induction as bs arbitrary: r s rule: list_induct2)
  case (Cons a as b bs)
  then show ?case by (simp add: crc_bit_linear[simplified])
qed simp

lemma take7_less: "take_bit 7 (r :: byte) < 128"
  unfolding word_less_nat_alt using take_bit_nat_less_exp[of 7 "unat r"] by (simp add: unsigned_take_bit_eq)

lemma crc_bit_small: "crc_bit r b < 128"
  by (simp add: crc_bit_def Let_def take7_less)

lemma crc_bits_small: "r < 128 \<Longrightarrow> crc_bits r bs < 128"
  by (induction bs arbitrary: r) (simp_all add: crc_bit_small)

text \<open>A step without carry, and the step of a register that is not zero.\<close>

lemma crc_zero_shift: "\<not> bit r 6 \<Longrightarrow> crc_zero r = take_bit 7 (push_bit 1 r)"
  by (simp add: crc_bit_def)

lemma crc_bit_zero [simp]: "crc_zero 0 = 0"
  by (simp add: crc_bit_def)

lemma less_128: "r < 128 \<longleftrightarrow> take_bit 7 r = r" for r :: byte
proof -
  have "r < 128 \<longleftrightarrow> unat (take_bit 7 r) = unat r"
    unfolding unsigned_take_bit_eq word_less_nat_alt using take_bit_nat_eq_self_iff[of 7 "unat r"] by simp
  then show ?thesis using unsigned_word_eqI[of "take_bit 7 r" r] by metis
qed

lemma bits_128: "r < 128 \<Longrightarrow> bit r n \<Longrightarrow> n < 7" for r :: byte
  unfolding less_128 by (metis bit_take_bit_iff)

lemma bit_9: "bit (9 :: byte) n \<longleftrightarrow> n = 0 \<or> n = 3"
proof -
  have e: "(9 :: byte) = push_bit 0 1 OR push_bit 3 1" by simp
  show ?thesis unfolding e by (auto simp: bit_simps bit_1_iff simp del: push_bit_of_1)
qed

lemma crc_bit_bits:
  "bit (crc_bit r b) n \<longleftrightarrow> n < 7 \<and> ((0 < n \<and> bit r (n - 1)) \<noteq> ((bit r 6 \<noteq> b) \<and> (n = 0 \<or> n = 3)))"
proof -
  have p: "n < 7 \<Longrightarrow> bit (push_bit 1 r) n = (0 < n \<and> bit r (n - 1))"
    unfolding bit_push_bit_iff by auto
  have q: "bit (crc_poly x) n = (x \<and> (n = 0 \<or> n = 3))" for x
    unfolding crc_poly_def using bit_9[of n] by (metis bit_0_eq bot_fun_def bot_bool_def)
  show ?thesis unfolding crc_bit_eq bit_take_bit_iff bit_xor_iff q using p by blast
qed

lemma crc_zero_inj:
  assumes "crc_zero r = 0" "r < 128"
  shows "r = 0"
proof (rule bit_word_eqI)
  fix n assume "n < LENGTH(8)"
  have b: "\<not> bit (crc_zero r) m" for m using assms(1) by simp
  have six: "\<not> bit r 6" using b[of 0] unfolding crc_bit_bits by simp
  have "\<not> bit r n" if "n < 7" using b[of "Suc n"] six that unfolding crc_bit_bits by (cases "n = 6") auto
  then show "bit r n = bit 0 n" using bits_128[OF assms(2)] by auto
qed

text \<open>Bits fed into the register are bits of its start.\<close>

fun bits_val :: "bool list \<Rightarrow> byte" where
  "bits_val [] = 0"
| "bits_val (b # bs) = (if b then push_bit 6 1 else 0) OR drop_bit 1 (bits_val bs)"

lemma bits_val_bit: "bit (bits_val bs) n \<longleftrightarrow> n \<le> 6 \<and> 6 - n < length bs \<and> bs ! (6 - n)"
proof (induction bs arbitrary: n)
  case (Cons b bs)
  have six: "bit (push_bit 6 1 :: byte) n = (n = 6)"
    by (auto simp: bit_simps bit_1_iff simp del: push_bit_of_1)
  have "bit (bits_val (b # bs)) n \<longleftrightarrow> (b \<and> n = 6) \<or> bit (bits_val bs) (Suc n)"
    using six by (auto simp: bit_or_iff bit_drop_bit_eq)
  also have "\<dots> \<longleftrightarrow> n \<le> 6 \<and> 6 - n < length (b # bs) \<and> (b # bs) ! (6 - n)"
    unfolding Cons.IH by (cases "n = 6") (auto simp: nth_Cons' less_diff_conv2)
  finally show ?case .
qed simp

lemma crc_bits_start:
  "length bs \<le> 7 \<Longrightarrow> crc_bits r bs = (crc_zero ^^ length bs) (r XOR bits_val bs)"
proof (induction bs arbitrary: r)
  case (Cons b bs)
  have "crc_zero (r XOR bits_val (b # bs)) = crc_bit r b XOR bits_val bs"
  proof (rule bit_word_eqI)
    fix n assume "n < LENGTH(8)"
    have v: "bit (bits_val (b # bs)) 6 = b" "m < 6 \<Longrightarrow> bit (bits_val (b # bs)) m = bit (bits_val bs) (Suc m)" for m
      unfolding bits_val_bit by (auto simp: nth_Cons' less_diff_conv2)
    have z: "\<not> bit (bits_val bs) 0" "n < 7 \<or> \<not> bit (bits_val bs) n" using Cons.prems unfolding bits_val_bit by auto
    show "bit (crc_zero (r XOR bits_val (b # bs))) n = bit (crc_bit r b XOR bits_val bs) n"
      unfolding bit_xor_iff crc_bit_bits v(1) using v(2)[of "n - 1"] z by (cases n) (auto simp: bit_xor_iff)
  qed
  then have "crc_bits r (b # bs) = (crc_zero ^^ length bs) (crc_zero (r XOR bits_val (b # bs)))"
    using Cons by (simp del: bits_val.simps)
  then show ?case using funpow_swap1[of "\<lambda>r. crc_zero r" "length bs" "r XOR bits_val (b # bs)"]
    by (simp only: funpow.simps comp_apply list.size(4) add_0_right add_Suc_right plus_1_eq_Suc)
qed simp

subsection \<open>The table computes the remainder\<close>

text \<open>The upper seven of eight bits, the highest first.\<close>

definition upper :: "(nat \<Rightarrow> bool) \<Rightarrow> bool list" where
  "upper f = map (\<lambda>k. f (7 - k)) [0..<7]"

lemma bits_val_upper: "bit (bits_val (upper f)) n \<longleftrightarrow> n \<le> 6 \<and> f (Suc n)"
  unfolding bits_val_bit upper_def by (auto simp: Suc_diff_le)

lemma upper_list: "upper f = [f 7, f 6, f 5, f 4, f 3, f 2, f 1]"
  by (simp add: upper_def upt_rec)

lemma crc_index:
  assumes "crc < 128" "i = push_bit 1 (unat crc) XOR unat b"
  shows "i < 256" "crc7_lookup_table ! i = crc_bits crc (bits_of b)"
proof -
  have u: "bit (unat w) n \<longleftrightarrow> bit w n" for w :: byte and n
    by (simp add: bit_unsigned_iff)
  have ib: "bit i n \<longleftrightarrow> (0 < n \<and> bit crc (n - 1)) \<noteq> bit b n" for n
    unfolding assms(2) bit_xor_iff bit_push_bit_iff u by auto
  have "n < 8" if "bit i n" for n
    using that bits_128[OF assms(1), of "n - 1"] bit_imp_le_length[of b n] unfolding ib by (cases n) auto
  then have "take_bit 8 i = i" by (intro bit_eqI) (auto simp: bit_take_bit_iff)
  then have i: "i < 2 ^ 8" by (simp only: take_bit_nat_eq_self_iff)
  then show "i < 256" by simp
  have e: "rev [0..<8] = [7, 6, 5, 4, 3, 2, 1, 0 :: nat]" by (simp add: upt_rec)
  have "crc XOR bits_val (upper (bit b)) = bits_val (upper (bit i))"
  proof (rule bit_word_eqI)
    fix n assume "n < LENGTH(8)"
    show "bit (crc XOR bits_val (upper (bit b))) n = bit (bits_val (upper (bit i))) n"
      unfolding bit_xor_iff bits_val_upper ib using bits_128[OF assms(1), of n] by auto
  qed
  then have "crc_bits crc (upper (bit b)) = crc_bits 0 (upper (bit i))"
    using crc_bits_start[of "upper (bit b)" crc] crc_bits_start[of "upper (bit i)" 0] by (simp add: upper_def)
  moreover have "bit i 0 = bit b 0" unfolding ib by simp
  ultimately have "crc_bits crc (upper (bit b) @ [bit b 0]) = crc_bits 0 (upper (bit i) @ [bit i 0])" by (simp only: crc_bits_simps)
  then show "crc7_lookup_table ! i = crc_bits crc (bits_of b)"
    using table_entry[of 8 i] i unfolding e bits_of_def upper_list by simp
qed

lemma crc7_remainder:
  "crc < 128 \<Longrightarrow> crc7 crc bs = Some (crc_bits crc (bits_of_bytes bs))"
proof (induction bs arbitrary: crc)
  case (Cons b bs)
  have "crc_bits crc (bits_of b) < 128" using crc_bits_small[OF Cons.prems] .
  then show ?case using Cons crc_index[OF Cons.prems refl, of b] by (simp add: Let_def bits_of_bytes_def)
qed (simp add: bits_of_bytes_def)

subsection \<open>Errors that are seen\<close>

text \<open>The remainder behind the string makes the remainder zero.\<close>

definition crc_field :: "byte \<Rightarrow> bool list" where
  "crc_field r = map (bit r) [6, 5, 4, 3, 2, 1, 0]"

lemma crc_zeros: "crc_bits 0 (replicate n False) = 0"
  by (induction n) simp_all

lemma crc_field_zero:
  assumes "r < 128"
  shows "crc_bits r (crc_field r) = 0"
proof -
  have f: "crc_field r = upper (\<lambda>n. bit r (n - 1))" by (simp add: crc_field_def upper_list)
  have "r XOR bits_val (crc_field r) = 0" unfolding f
    by (rule bit_word_eqI) (use bits_128[OF assms] in \<open>fastforce simp: bit_xor_iff bits_val_upper\<close>)
  moreover have "length (crc_field r) \<le> 7" by (simp add: crc_field_def)
  moreover have "(crc_zero ^^ n) 0 = 0" for n by (induction n) simp_all
  ultimately show ?thesis using crc_bits_start[of "crc_field r" r] by simp
qed

lemma crc_zero_pow_inj: "(crc_zero ^^ n) r = 0 \<Longrightarrow> r < 128 \<Longrightarrow> r = 0"
proof (induction n arbitrary: r)
  case (Suc n)
  have "(crc_zero ^^ n) (crc_zero r) = 0" using Suc.prems(1) funpow_swap1[of "\<lambda>r. crc_zero r" n r] by simp
  then have "crc_zero r = 0" using Suc.IH crc_bit_small by blast
  then show ?case using crc_zero_inj Suc.prems(2) by blast
qed simp

text \<open>Errors in a string that lie within seven bits change the remainder.\<close>

lemma burst_seen:
  assumes "length w \<le> 7" "True \<in> set w" "length xs = a + length w + c"
    "ys = map2 (\<noteq>) xs (replicate a False @ w @ replicate c False)"
  shows "crc_bits r ys \<noteq> crc_bits r xs"
proof
  let ?e = "replicate a False @ w @ replicate c False"
  assume "crc_bits r ys = crc_bits r xs"
  moreover have "crc_bits r ys = crc_bits r xs XOR crc_bits 0 ?e"
    using crc_bits_linear[of xs ?e r 0] assms(3,4) by (simp del: crc_bits_simps)
  ultimately have "crc_bits r xs XOR (crc_bits r xs XOR crc_bits 0 ?e) = crc_bits r xs XOR crc_bits r xs" by (simp only:)
  then have "crc_bits 0 ?e = 0" by (simp only: xor.assoc[symmetric] xor_self_eq xor.left_neutral)
  then have z: "crc_bits (crc_bits 0 w) (replicate c False) = 0" by (simp add: crc_zeros)
  have "crc_bits q (replicate n False) = (crc_zero ^^ n) q" for q n
  proof (induction n arbitrary: q)
    case (Suc n)
    then show ?case using funpow_swap1[of "\<lambda>r. crc_zero r" n q] by simp
  qed simp
  then have "crc_bits 0 w = 0" using z crc_zero_pow_inj crc_bits_small[of 0 w] by simp
  then have "(crc_zero ^^ length w) (bits_val w) = 0" using crc_bits_start[OF assms(1), of 0] by simp
  moreover have "bits_val w < 128" unfolding less_128
    by (rule bit_word_eqI) (auto simp: bit_take_bit_iff bits_val_bit)
  ultimately have v: "bits_val w = 0" using crc_zero_pow_inj by blast
  obtain i where i: "i < length w" "w ! i" using assms(2) by (metis in_set_conv_nth)
  then have "bit (bits_val w) (6 - i)" using assms(1) unfolding bits_val_bit by simp
  then show False using v by simp
qed

section \<open>Fields of the CSD\<close>

text \<open>
  The words of the register, the lowest first. A shift by the width of the operand is undefined: the mask
  of a field that ends at the top bit of a word, and a CSD 1.0 with blocks below 512 bytes.
\<close>

definition mmcsd_get_slice :: "32 word list \<Rightarrow> nat \<Rightarrow> nat \<Rightarrow> 32 word option" where
  "mmcsd_get_slice data end start =
     (let startidx = start div 32; startoff = start mod 32; endidx = end div 32;
          endmask = push_bit (end mod 32 + 1) 1 - 1
      in if end mod 32 = 31 \<or> length data \<le> endidx \<or> length data \<le> startidx then None
         else if startidx < endidx
         then (if startoff = 0 then None
               else Some (drop_bit startoff (data ! startidx) OR push_bit (32 - startoff) (data ! endidx AND endmask)))
         else Some (drop_bit startoff (data ! startidx AND endmask)))"

definition mmcsdGetCapacity :: "32 word list \<Rightarrow> 32 word option" where
  "mmcsdGetCapacity csd =
     (if length csd \<noteq> 4 then None else
      let v = drop_bit 30 (csd ! 3)
      in if v = 0 then
           (case (mmcsd_get_slice csd 73 62, mmcsd_get_slice csd 49 47, mmcsd_get_slice csd 83 80) of
              (Some a, Some b, Some c) \<Rightarrow>
                if 32 \<le> unat (b + 2) \<or> 32 \<le> unat (c - 9) then None
                else Some (push_bit (unat (c - 9)) (push_bit (unat (b + 2)) (a + 1)))
            | _ \<Rightarrow> None)
         else if v = 1 then map_option (\<lambda>x. 1024 * (x + 1)) (mmcsd_get_slice csd 69 48)
         else Some 0)"

text \<open>A bit of the register as one number.\<close>

definition csd_bit :: "32 word list \<Rightarrow> nat \<Rightarrow> bool" where
  "csd_bit csd n \<longleftrightarrow> n div 32 < length csd \<and> bit (csd ! (n div 32)) (n mod 32)"

text \<open>The value of a field has the bits of the register.\<close>

lemma slice_bits:
  assumes "start \<le> end" "end - start < 31" "end < 32 * length data" "end mod 32 \<noteq> 31"
  shows "\<exists>w. mmcsd_get_slice data end start = Some w \<and> (\<forall>i. bit w i \<longleftrightarrow> start + i \<le> end \<and> csd_bit data (start + i))"
proof -
  define si where "si = start div 32"
  define so where "so = start mod 32"
  define ei where "ei = end div 32"
  define e where "e = end mod 32"
  have d: "start = 32 * si + so" "end = 32 * ei + e" "so < 32" "e < 31" "ei < length data"
    using assms(3,4) unfolding si_def so_def ei_def e_def by simp_all
  have m: "push_bit (e + 1) 1 - 1 = (mask (e + 1) :: 32 word)" by (simp add: mask_eq_exp_minus_1 push_bit_eq_mult)
  note s = mmcsd_get_slice_def[of data "end" start, folded si_def so_def ei_def e_def, unfolded Let_def m]
  have le: "si \<le> ei" unfolding si_def ei_def using assms(1) by (rule div_le_mono)
  have q: "start + i = 32 * (si + (so + i) div 32) + (so + i) mod 32" for i using d(1) by simp
  have c: "csd_bit data (start + i) \<longleftrightarrow> si + (so + i) div 32 < length data \<and> bit (data ! (si + (so + i) div 32)) ((so + i) mod 32)" for i
    unfolding csd_bit_def q by simp
  show ?thesis
  proof (cases "si < ei")
    case True
    have ei: "ei = si + 1" and so: "so \<noteq> 0" using True d assms(2) by auto
    let ?w = "drop_bit so (data ! si) OR push_bit (32 - so) (data ! ei AND mask (e + 1))"
    have "mmcsd_get_slice data end start = Some ?w" using True so d(4,5) unfolding s by simp
    moreover have "bit ?w i \<longleftrightarrow> start + i \<le> end \<and> csd_bit data (start + i)" for i
    proof (cases "so + i < 32")
      case True
      then have "start + i \<le> end" "\<not> 32 - so \<le> i" using d(1,2) ei by auto
      then show ?thesis unfolding c bit_or_iff bit_push_bit_iff bit_drop_bit_eq using True d(5) ei by simp
    next
      case False
      show ?thesis
      proof (cases "so + i < 64")
        case True
        then have k: "(so + i) div 32 = 1" "(so + i) mod 32 = so + i - 32" "i - (32 - so) = so + i - 32" "32 - so \<le> i"
          using False d(3) by (simp_all add: div_nat_eqI mod_if)
        have b: "\<not> bit (data ! si) (so + i)" using False by (auto dest: bit_imp_le_length)
        have "i < 32 \<or> \<not> so + i - 32 < e + 1" using assms(1,2) d(1,2) ei False by auto
        then show ?thesis unfolding c k bit_or_iff bit_push_bit_iff bit_drop_bit_eq bit_and_iff bit_mask_iff comp_apply
          using k b d(4,5) ei d(1,2) False by auto
      next
        case b: False
        then have "\<not> start + i \<le> end" "\<not> i < 32" using assms(2) d by auto
        then show ?thesis by (auto dest: bit_imp_le_length)
      qed
    qed
    ultimately show ?thesis by blast
  next
    case False
    then have ei: "ei = si" using le by simp
    let ?w = "drop_bit so (data ! si AND mask (e + 1))"
    have "mmcsd_get_slice data end start = Some ?w" using False ei d(4,5) unfolding s by simp
    moreover have "bit ?w i \<longleftrightarrow> start + i \<le> end \<and> csd_bit data (start + i)" for i
      unfolding c bit_drop_bit_eq bit_and_iff bit_mask_iff comp_apply using d ei by auto
    ultimately show ?thesis by blast
  qed
qed

text \<open>The register as one number of 128 bits, and a field of it.\<close>

definition csd_field :: "32 word list \<Rightarrow> nat \<Rightarrow> nat \<Rightarrow> int" where
  "csd_field csd end start = take_bit (end + 1 - start) (drop_bit start (horner_sum uint (2 ^ 32) csd))"

lemma slice_field:
  assumes "start \<le> end" "end - start < 31" "end < 32 * length csd" "end mod 32 \<noteq> 31"
  shows "\<exists>w. mmcsd_get_slice csd end start = Some w \<and> uint w = csd_field csd end start"
proof -
  from slice_bits[OF assms] obtain w where w: "mmcsd_get_slice csd end start = Some w"
    "\<And>i. bit w i \<longleftrightarrow> start + i \<le> end \<and> csd_bit csd (start + i)" by blast
  have "uint w = csd_field csd end start"
  proof (rule bit_eqI)
    fix n
    have "bit (uint w) n \<longleftrightarrow> bit w n" by (auto simp: bit_uint_iff dest: bit_imp_le_length)
    also have "\<dots> \<longleftrightarrow> bit (csd_field csd end start) n"
      using bit_horner_sum_uint_exp_iff[of csd "start + n"] assms(1) unfolding w(2) csd_field_def csd_bit_def
      by (auto simp: bit_take_bit_iff bit_drop_bit_eq)
    finally show "bit (uint w) n \<longleftrightarrow> bit (csd_field csd end start) n" .
  qed
  then show ?thesis using w(1) by blast
qed

lemma csd_field_range: "0 \<le> csd_field csd end start \<and> csd_field csd end start < 2 ^ (end + 1 - start)"
  by (simp add: csd_field_def)

lemma csd_version:
  assumes "length csd = 4"
  shows "uint (drop_bit 30 (csd ! 3)) = csd_field csd 127 126"
proof (rule bit_eqI)
  fix n
  have l: "bit (csd ! 3) m \<Longrightarrow> m < 32" for m using bit_imp_le_length[of "csd ! 3" m] by simp
  show "bit (uint (drop_bit 30 (csd ! 3))) n = bit (csd_field csd 127 126) n"
  proof (cases "n < 2")
    case True
    then have "(126 + n) div 32 = 3" "(126 + n) mod 32 = 30 + n" by (auto simp: less_2_cases_iff)
    then show ?thesis using bit_horner_sum_uint_exp_iff[of csd "126 + n"] True assms l[of "30 + n"]
      by (auto simp: csd_field_def bit_take_bit_iff bit_drop_bit_eq bit_uint_iff)
  next
    case False
    then show ?thesis using l[of "30 + n"] by (auto simp: csd_field_def bit_take_bit_iff bit_drop_bit_eq bit_uint_iff)
  qed
qed

lemma uint_small: "0 \<le> k \<Longrightarrow> k < 2 ^ 32 \<Longrightarrow> uint (word_of_int k :: 32 word) = k"
  by (simp add: uint_word_of_int take_bit_int_eq_self)

text \<open>The capacity in blocks of 512 bytes, by the formulas of the card's specification.\<close>

lemma capacity_20:
  assumes "length csd = 4" "csd_field csd 127 126 = 1" "csd_field csd 69 48 + 1 < 2 ^ 22"
  shows "\<exists>w. mmcsdGetCapacity csd = Some w \<and> uint w = 1024 * (csd_field csd 69 48 + 1)"
proof -
  obtain w where w: "mmcsd_get_slice csd 69 48 = Some w" "uint w = csd_field csd 69 48"
    using slice_field[of 48 69 csd] assms(1) by auto
  have v: "drop_bit 30 (csd ! 3) = 1"
    using csd_version[OF assms(1)] assms(2) by (metis uint_1_eq word_uint_eqI)
  have "1024 * (w + 1) = word_of_int (1024 * (uint w + 1))" by simp
  moreover have "0 \<le> 1024 * (uint w + 1) \<and> 1024 * (uint w + 1) < 2 ^ 32"
    using assms(3) w(2) csd_field_range[of csd 69 48] by simp
  ultimately have "uint (1024 * (w + 1)) = 1024 * (uint w + 1)" using uint_small by metis
  then show ?thesis using w v assms(1) by (simp add: mmcsdGetCapacity_def)
qed

lemma capacity_10:
  assumes "length csd = 4" "csd_field csd 127 126 = 0" "9 \<le> csd_field csd 83 80"
  shows "\<exists>w. mmcsdGetCapacity csd = Some w \<and> uint w * 512 =
    (csd_field csd 73 62 + 1) * 2 ^ (nat (csd_field csd 49 47) + 2) * 2 ^ nat (csd_field csd 83 80)"
proof -
  obtain a where a: "mmcsd_get_slice csd 73 62 = Some a" "uint a = csd_field csd 73 62"
    using slice_field[of 62 73 csd] assms(1) by auto
  obtain b where b: "mmcsd_get_slice csd 49 47 = Some b" "uint b = csd_field csd 49 47"
    using slice_field[of 47 49 csd] assms(1) by auto
  obtain c where c: "mmcsd_get_slice csd 83 80 = Some c" "uint c = csd_field csd 83 80"
    using slice_field[of 80 83 csd] assms(1) by auto
  have r: "uint a < 4096" "uint b < 8" "uint c < 16" "9 \<le> uint c"
    using csd_field_range[of csd 73 62] csd_field_range[of csd 49 47] csd_field_range[of csd 83 80] a b c assms(3) by simp_all
  have v: "drop_bit 30 (csd ! 3) = 0"
    using csd_version[OF assms(1)] assms(2) by (metis uint_0_eq word_uint_eqI)
  have "b + 2 = word_of_int (uint b + 2)" "c - 9 = word_of_int (uint c - 9)" by simp_all
  then have u: "uint (b + 2) = uint b + 2" "uint (c - 9) = uint c - 9"
    using uint_small[of "uint b + 2"] uint_small[of "uint c - 9"] r by simp_all
  define m where "m = nat (uint b) + 2"
  define n where "n = nat (uint c) - 9"
  have "unat (b + 2) = nat (uint b + 2)" "unat (c - 9) = nat (uint c - 9)" using u by (simp_all only: unat_eq_nat_uint)
  then have mn: "unat (b + 2) = m" "unat (c - 9) = n" "m \<le> 9" "n \<le> 6"
    using r unfolding m_def n_def by (simp_all only: nat_add_distrib nat_diff_distrib uint_ge_0) simp_all
  have "push_bit n (push_bit m (a + 1)) = word_of_int ((uint a + 1) * 2 ^ m * 2 ^ n)"
    by (simp add: push_bit_eq_mult)
  moreover have "0 \<le> (uint a + 1) * 2 ^ m * 2 ^ n \<and> (uint a + 1) * 2 ^ m * 2 ^ n < 2 ^ 32"
  proof -
    have "(uint a + 1) * 2 ^ m * 2 ^ n \<le> 4096 * 2 ^ 9 * 2 ^ 6"
      using r(1) mn(3,4) by (intro mult_mono power_increasing) simp_all
    moreover have "(4096 * 2 ^ 9 * 2 ^ 6 :: int) < 2 ^ 32" by simp
    moreover have "0 \<le> (uint a + 1) * 2 ^ m * 2 ^ n" by (intro mult_nonneg_nonneg) simp_all
    ultimately show ?thesis by linarith
  qed
  ultimately have p: "uint (push_bit n (push_bit m (a + 1))) = (uint a + 1) * 2 ^ m * 2 ^ n" using uint_small by metis
  have "mmcsdGetCapacity csd = Some (push_bit n (push_bit m (a + 1)))"
    using a(1) b(1) c(1) v mn assms(1) by (simp add: mmcsdGetCapacity_def)
  moreover have "(2 :: int) ^ n * 512 = 2 ^ nat (uint c)"
  proof -
    have "9 \<le> nat (uint c)" using nat_mono[OF r(4)] by (simp only: nat_numeral)
    then have "nat (uint c) = n + 9" by (simp only: n_def le_add_diff_inverse2)
    then show ?thesis by (simp add: power_add)
  qed
  ultimately show ?thesis using p a(2) b(2) c(2) by (simp add: m_def mult.assoc)
qed

end
