(* ===== verification/Mmc_Spi.thy ===== *)
theory Mmc_Spi
  imports Mmcsd
begin

text \<open>
  The driver of memory cards on an SPI bus, \<^verbatim>\<open>os/hal/src/mmc_spi.c\<close>. The transfers of \<^verbatim>\<open>spi.c\<close>, whose waiting
  is in theory \<open>Spi\<close>, are exchanges of bytes here: the card is the list of the bytes it will answer, and an
  idle bus (all ones) after them. The sleeps between two tries take no step. A null configuration and a transfer on a bus that is not started are
  faults. Status results are as in the code: true is a failure.
\<close>

section \<open>The bus and the driver\<close>

datatype blkstate = BLK_UNINIT | BLK_STOP | BLK_ACTIVE | BLK_CONNECTING | BLK_DISCONNECTING | BLK_READY | BLK_READING | BLK_WRITING

record mmcsys =
  mm_state :: blkstate
  mm_config :: "(nat \<times> nat) option"
  mm_block_addresses :: bool
  mm_csd :: "32 word list"
  mm_cid :: "32 word list"
  mm_capacity :: "32 word"
  bus_config :: "nat option"
  bus_running :: bool
  bus_select :: bool
  card_in :: "byte list"
  bus_out :: "(bool \<times> byte) list"

type_synonym 'r mmcout = "(mmcsys, 'r) outcome"

definition MMC_CMD0_RETRY :: nat where "MMC_CMD0_RETRY = 10"
definition MMC_CMD1_RETRY :: nat where "MMC_CMD1_RETRY = 100"
definition MMC_ACMD41_RETRY :: nat where "MMC_ACMD41_RETRY = 100"
definition MMC_WAIT_DATA :: nat where "MMC_WAIT_DATA = 10000"
definition MMCSD_BLOCK_SIZE :: "32 word" where "MMCSD_BLOCK_SIZE = 512"
definition MMCSD_CMD8_PATTERN :: "32 word" where "MMCSD_CMD8_PATTERN = 0x000001AA"
definition MMCSD_CMD_GO_IDLE_STATE :: byte where "MMCSD_CMD_GO_IDLE_STATE = 0"
definition MMCSD_CMD_INIT :: byte where "MMCSD_CMD_INIT = 1"
definition MMCSD_CMD_SEND_IF_COND :: byte where "MMCSD_CMD_SEND_IF_COND = 8"
definition MMCSD_CMD_SEND_CSD :: byte where "MMCSD_CMD_SEND_CSD = 9"
definition MMCSD_CMD_SEND_CID :: byte where "MMCSD_CMD_SEND_CID = 10"
definition MMCSD_CMD_STOP_TRANSMISSION :: byte where "MMCSD_CMD_STOP_TRANSMISSION = 12"
definition MMCSD_CMD_SET_BLOCKLEN :: byte where "MMCSD_CMD_SET_BLOCKLEN = 16"
definition MMCSD_CMD_READ_MULTIPLE_BLOCK :: byte where "MMCSD_CMD_READ_MULTIPLE_BLOCK = 18"
definition MMCSD_CMD_WRITE_MULTIPLE_BLOCK :: byte where "MMCSD_CMD_WRITE_MULTIPLE_BLOCK = 25"
definition MMCSD_CMD_ERASE_RW_BLK_START :: byte where "MMCSD_CMD_ERASE_RW_BLK_START = 32"
definition MMCSD_CMD_ERASE_RW_BLK_END :: byte where "MMCSD_CMD_ERASE_RW_BLK_END = 33"
definition MMCSD_CMD_ERASE :: byte where "MMCSD_CMD_ERASE = 38"
definition MMCSD_CMD_APP_OP_COND :: byte where "MMCSD_CMD_APP_OP_COND = 41"
definition MMCSD_CMD_APP_CMD :: byte where "MMCSD_CMD_APP_CMD = 55"
definition MMCSD_CMD_READ_OCR :: byte where "MMCSD_CMD_READ_OCR = 58"

definition exchange :: "byte \<Rightarrow> mmcsys \<Rightarrow> byte mmcout" where
  "exchange b s =
     (if mm_config s = None \<or> \<not> bus_running s then Fault
      else Done (case card_in s of [] \<Rightarrow> 0xFF | a # _ \<Rightarrow> a)
             (s\<lparr>card_in := tl (card_in s), bus_out := bus_out s @ [(bus_select s, b)]\<rparr>))"

fun spiSendBytes :: "byte list \<Rightarrow> mmcsys \<Rightarrow> unit mmcout" where
  "spiSendBytes [] s = Done () s"
| "spiSendBytes (b # bs) s = obind (exchange b s) (\<lambda>_. spiSendBytes bs)"

fun spiReceiveBytes :: "nat \<Rightarrow> mmcsys \<Rightarrow> byte list mmcout" where
  "spiReceiveBytes 0 s = Done [] s"
| "spiReceiveBytes (Suc n) s = obind (exchange 0xFF s) (\<lambda>a s. obind (spiReceiveBytes n s) (\<lambda>as. Done (a # as)))"

definition spiIgnoreBytes :: "nat \<Rightarrow> mmcsys \<Rightarrow> unit mmcout" where
  "spiIgnoreBytes n s = obind (spiReceiveBytes n s) (\<lambda>_. Done ())"

definition bus_start :: "bool \<Rightarrow> mmcsys \<Rightarrow> unit mmcout" where
  "bus_start high s =
     (case mm_config s of None \<Rightarrow> Fault
      | Some (ls, hs) \<Rightarrow> Done () (s\<lparr>bus_config := Some (if high then hs else ls), bus_running := True\<rparr>))"

definition bus_chip_select :: "bool \<Rightarrow> mmcsys \<Rightarrow> unit mmcout" where
  "bus_chip_select on s =
     (if mm_config s = None \<or> bus_config s = None then Fault else Done () (s\<lparr>bus_select := on\<rparr>))"

text \<open>Stopping the bus releases the card first.\<close>

definition bus_stop :: "mmcsys \<Rightarrow> unit mmcout" where
  "bus_stop s = obind (bus_chip_select False s) (\<lambda>_ s. Done () (s\<lparr>bus_running := False\<rparr>))"

section \<open>Commands\<close>

text \<open>Waiting for the idle bus: sixteen readings, and then as many as it takes.\<close>

fun wait_short :: "nat \<Rightarrow> mmcsys \<Rightarrow> bool mmcout" where
  "wait_short 0 s = Done False s"
| "wait_short (Suc i) s = obind (exchange 0xFF s) (\<lambda>a s. if a = 0xFF then Done True s else wait_short i s)"

lemma exchange_shorter:
  "exchange b s = Done a s' \<Longrightarrow> a \<noteq> 0xFF \<Longrightarrow> length (card_in s') < length (card_in s)"
  by (auto simp: exchange_def split: if_splits list.splits)

function wait_long :: "mmcsys \<Rightarrow> unit mmcout" where
  "wait_long s =
     (case exchange 0xFF s of Done a s' \<Rightarrow> (if a = 0xFF then Done () s' else wait_long s') | _ \<Rightarrow> Fault)"
  by pat_completeness auto
termination
  by (relation "measure (\<lambda>s. length (card_in s))") (auto dest: exchange_shorter)

declare wait_long.simps [simp del]

definition mmc_wait :: "mmcsys \<Rightarrow> unit mmcout" where
  "mmc_wait s = obind (wait_short 16 s) (\<lambda>r s. if r then Done () s else wait_long s)"

definition command_frame :: "byte \<Rightarrow> 32 word \<Rightarrow> byte list option" where
  "command_frame cmd arg =
     (let buf = [0x40 OR cmd, ucast (drop_bit 24 arg), ucast (drop_bit 16 arg), ucast (drop_bit 8 arg), ucast arg]
      in map_option (\<lambda>crc. buf @ [push_bit 1 (crc AND 0x7F) OR 0x01]) (crc7 0 buf))"

definition send_hdr :: "byte \<Rightarrow> 32 word \<Rightarrow> mmcsys \<Rightarrow> unit mmcout" where
  "send_hdr cmd arg s =
     obind (mmc_wait s) (\<lambda>_ s. case command_frame cmd arg of None \<Rightarrow> Fault | Some buf \<Rightarrow> spiSendBytes buf s)"

fun recvr1_loop :: "nat \<Rightarrow> mmcsys \<Rightarrow> byte mmcout" where
  "recvr1_loop 0 s = Done 0xFF s"
| "recvr1_loop (Suc i) s = obind (exchange 0xFF s) (\<lambda>a s. if a \<noteq> 0xFF then Done a s else recvr1_loop i s)"

definition recvr1 :: "mmcsys \<Rightarrow> byte mmcout" where
  "recvr1 s = recvr1_loop 9 s"

definition recvr3 :: "mmcsys \<Rightarrow> (byte \<times> byte list) mmcout" where
  "recvr3 s = obind (recvr1 s) (\<lambda>r1 s. obind (spiReceiveBytes 4 s) (\<lambda>b. Done (r1, b)))"

definition send_command_R1 :: "byte \<Rightarrow> 32 word \<Rightarrow> mmcsys \<Rightarrow> byte mmcout" where
  "send_command_R1 cmd arg s =
     obind (bus_chip_select True s) (\<lambda>_ s. obind (send_hdr cmd arg s) (\<lambda>_ s. obind (recvr1 s) (\<lambda>r1 s.
     obind (bus_chip_select False s) (\<lambda>_. Done r1))))"

definition send_command_R3 :: "byte \<Rightarrow> 32 word \<Rightarrow> mmcsys \<Rightarrow> (byte \<times> byte list) mmcout" where
  "send_command_R3 cmd arg s =
     obind (bus_chip_select True s) (\<lambda>_ s. obind (send_hdr cmd arg s) (\<lambda>_ s. obind (recvr3 s) (\<lambda>r s.
     obind (bus_chip_select False s) (\<lambda>_. Done r))))"

text \<open>A register of the card: its bytes come the highest first.\<close>

definition cxd_words :: "byte list \<Rightarrow> 32 word list" where
  "cxd_words bp = map (\<lambda>i. push_bit 24 (ucast (bp ! i)) OR push_bit 16 (ucast (bp ! (i + 1))) OR
     push_bit 8 (ucast (bp ! (i + 2))) OR ucast (bp ! (i + 3))) [12, 8, 4, 0]"

fun read_CxD_loop :: "nat \<Rightarrow> mmcsys \<Rightarrow> (bool \<times> 32 word list) mmcout" where
  "read_CxD_loop 0 s = Done (True, []) s"
| "read_CxD_loop (Suc i) s =
     obind (exchange 0xFF s) (\<lambda>a s.
     if a = 0xFE then
       obind (spiReceiveBytes 16 s) (\<lambda>buf s. obind (spiIgnoreBytes 2 s) (\<lambda>_ s.
       obind (bus_chip_select False s) (\<lambda>_. Done (False, cxd_words buf))))
     else read_CxD_loop i s)"

definition read_CxD :: "byte \<Rightarrow> mmcsys \<Rightarrow> (bool \<times> 32 word list) mmcout" where
  "read_CxD cmd s =
     obind (bus_chip_select True s) (\<lambda>_ s. obind (send_hdr cmd 0 s) (\<lambda>_ s. obind (recvr1 s) (\<lambda>r1 s.
     if r1 \<noteq> 0 then obind (bus_chip_select False s) (\<lambda>_. Done (True, [])) else read_CxD_loop MMC_WAIT_DATA s)))"

definition mmc_sync :: "mmcsys \<Rightarrow> unit mmcout" where
  "mmc_sync s = obind (bus_chip_select True s) (\<lambda>_ s. obind (wait_long s) (\<lambda>_. bus_chip_select False))"

section \<open>Start, stop and connection\<close>

definition mmcObjectInit :: "mmcsys \<Rightarrow> mmcsys" where
  "mmcObjectInit s = s\<lparr>mm_state := BLK_STOP, mm_config := None, mm_block_addresses := False\<rparr>"

definition mmcStart :: "nat \<times> nat \<Rightarrow> mmcsys \<Rightarrow> mmcsys" where
  "mmcStart config s = s\<lparr>mm_config := Some config, mm_state := BLK_ACTIVE\<rparr>"

definition mmcStop :: "mmcsys \<Rightarrow> unit mmcout" where
  "mmcStop s = obind (bus_stop s) (\<lambda>_ s. Done () (s\<lparr>mm_state := BLK_STOP\<rparr>))"

text \<open>The three loops of the connection, with the number of tries that are left; true is a failure.\<close>

fun cmd0_loop :: "nat \<Rightarrow> mmcsys \<Rightarrow> bool mmcout" where
  "cmd0_loop 0 s = Done True s"
| "cmd0_loop (Suc i) s =
     obind (send_command_R1 MMCSD_CMD_GO_IDLE_STATE 0 s) (\<lambda>r s. if r = 0x01 then Done False s else cmd0_loop i s)"

fun acmd41_loop :: "nat \<Rightarrow> mmcsys \<Rightarrow> bool mmcout" where
  "acmd41_loop 0 s = Done True s"
| "acmd41_loop (Suc i) s =
     obind (send_command_R1 MMCSD_CMD_APP_CMD 0 s) (\<lambda>r s.
     if r = 0x01 then
       obind (send_command_R3 MMCSD_CMD_APP_OP_COND 0x400001aa s) (\<lambda>(q, _) s.
       if q = 0x00 then Done False s else acmd41_loop i s)
     else acmd41_loop i s)"

fun cmd1_loop :: "nat \<Rightarrow> mmcsys \<Rightarrow> bool mmcout" where
  "cmd1_loop 0 s = Done True s"
| "cmd1_loop (Suc i) s =
     obind (send_command_R1 MMCSD_CMD_INIT 0 s) (\<lambda>b s.
     if b = 0x00 then Done False s else if b \<noteq> 0x01 then Done True s else cmd1_loop i s)"

definition connect_sdhc :: "mmcsys \<Rightarrow> bool mmcout" where
  "connect_sdhc s =
     obind (send_command_R3 MMCSD_CMD_SEND_IF_COND MMCSD_CMD8_PATTERN s) (\<lambda>(r, _) s.
     if r \<noteq> 0x05 then
       obind (acmd41_loop MMC_ACMD41_RETRY s) (\<lambda>f s.
       if f then Done True s
       else obind (send_command_R3 MMCSD_CMD_READ_OCR 0 s) (\<lambda>(_, r3) s.
            Done False (if hd r3 AND 0x40 \<noteq> 0 then s\<lparr>mm_block_addresses := True\<rparr> else s)))
     else Done False s)"

definition connect_registers :: "mmcsys \<Rightarrow> bool mmcout" where
  "connect_registers s =
     obind (send_command_R1 MMCSD_CMD_SET_BLOCKLEN MMCSD_BLOCK_SIZE s) (\<lambda>r s.
     if r \<noteq> 0x00 then Done True s else
     obind (read_CxD MMCSD_CMD_SEND_CSD s) (\<lambda>(f, csd) s.
     if f then Done True s else
     case mmcsdGetCapacity csd of None \<Rightarrow> Fault | Some cap \<Rightarrow>
       (let s = s\<lparr>mm_csd := csd, mm_capacity := cap\<rparr> in
        if cap = 0 then Done True s else
        obind (read_CxD MMCSD_CMD_SEND_CID s) (\<lambda>(f, cid) s.
        if f then Done True s else Done False (s\<lparr>mm_cid := cid\<rparr>)))))"

definition connect_steps :: "mmcsys \<Rightarrow> bool mmcout" where
  "connect_steps s =
     obind (bus_start False s) (\<lambda>_ s. obind (spiIgnoreBytes 16 s) (\<lambda>_ s.
     obind (cmd0_loop MMC_CMD0_RETRY s) (\<lambda>f s. if f then Done True s else
     obind (connect_sdhc s) (\<lambda>f s. if f then Done True s else
     obind (cmd1_loop MMC_CMD1_RETRY s) (\<lambda>f s. if f then Done True s else
     obind (bus_start True s) (\<lambda>_. connect_registers))))))"

definition mmcConnect :: "mmcsys \<Rightarrow> bool mmcout" where
  "mmcConnect s =
     obind (connect_steps (s\<lparr>mm_state := BLK_CONNECTING\<rparr>)) (\<lambda>f s.
     if f then obind (bus_stop s) (\<lambda>_ s. Done True (s\<lparr>mm_state := BLK_ACTIVE\<rparr>))
     else Done False (s\<lparr>mm_state := BLK_READY\<rparr>))"

definition mmcDisconnect :: "mmcsys \<Rightarrow> bool mmcout" where
  "mmcDisconnect s =
     (if mm_state s = BLK_ACTIVE then Done False s else
      obind (mmc_sync (s\<lparr>mm_state := BLK_DISCONNECTING\<rparr>)) (\<lambda>_ s.
      obind (bus_stop s) (\<lambda>_ s. Done False (s\<lparr>mm_state := BLK_ACTIVE\<rparr>))))"

section \<open>Blocks\<close>

definition block_address :: "32 word \<Rightarrow> mmcsys \<Rightarrow> 32 word" where
  "block_address blk s = (if mm_block_addresses s then blk else blk * MMCSD_BLOCK_SIZE)"

definition mmcStartSequentialRead :: "32 word \<Rightarrow> mmcsys \<Rightarrow> bool mmcout" where
  "mmcStartSequentialRead startblk s =
     obind (bus_start True (s\<lparr>mm_state := BLK_READING\<rparr>)) (\<lambda>_ s. obind (bus_chip_select True s) (\<lambda>_ s.
     obind (send_hdr MMCSD_CMD_READ_MULTIPLE_BLOCK (block_address startblk s) s) (\<lambda>_ s. obind (recvr1 s) (\<lambda>r s.
     if r \<noteq> 0x00 then obind (bus_stop s) (\<lambda>_. Done True) else Done False s))))"

text \<open>The result with the bytes that are stored from the buffer on.\<close>

fun sequential_read_loop :: "nat \<Rightarrow> byte list \<Rightarrow> mmcsys \<Rightarrow> (bool \<times> byte list) mmcout" where
  "sequential_read_loop 0 buf s =
     obind (bus_chip_select False s) (\<lambda>_ s. obind (bus_stop s) (\<lambda>_. Done (True, buf)))"
| "sequential_read_loop (Suc i) buf s =
     obind (exchange 0xFF s) (\<lambda>a s.
     if a = 0xFE then obind (spiReceiveBytes 512 s) (\<lambda>buf s. obind (spiIgnoreBytes 2 s) (\<lambda>_. Done (False, buf)))
     else sequential_read_loop i [a] s)"

definition mmcSequentialRead :: "mmcsys \<Rightarrow> (bool \<times> byte list) mmcout" where
  "mmcSequentialRead s =
     (if mm_state s \<noteq> BLK_READING then Done (True, []) s else sequential_read_loop MMC_WAIT_DATA [] s)"

definition mmcStopSequentialRead :: "mmcsys \<Rightarrow> bool mmcout" where
  "mmcStopSequentialRead s =
     (if mm_state s \<noteq> BLK_READING then Done True s else
      obind (spiSendBytes [0x40 OR MMCSD_CMD_STOP_TRANSMISSION, 0, 0, 0, 0, 1, 0xFF] s) (\<lambda>_ s.
      obind (recvr1 s) (\<lambda>_ s. obind (bus_chip_select False s) (\<lambda>_ s. Done False (s\<lparr>mm_state := BLK_READY\<rparr>)))))"

definition mmcStartSequentialWrite :: "32 word \<Rightarrow> mmcsys \<Rightarrow> bool mmcout" where
  "mmcStartSequentialWrite startblk s =
     obind (bus_start True (s\<lparr>mm_state := BLK_WRITING\<rparr>)) (\<lambda>_ s. obind (bus_chip_select True s) (\<lambda>_ s.
     obind (send_hdr MMCSD_CMD_WRITE_MULTIPLE_BLOCK (block_address startblk s) s) (\<lambda>_ s. obind (recvr1 s) (\<lambda>r s.
     if r \<noteq> 0x00 then obind (bus_stop s) (\<lambda>_. Done True) else Done False s))))"

definition mmcSequentialWrite :: "byte list \<Rightarrow> mmcsys \<Rightarrow> bool mmcout" where
  "mmcSequentialWrite buffer s =
     (if mm_state s \<noteq> BLK_WRITING then Done True s else if length buffer < 512 then Fault else
      obind (spiSendBytes [0xFF, 0xFC] s) (\<lambda>_ s. obind (spiSendBytes (take 512 buffer) s) (\<lambda>_ s.
      obind (spiIgnoreBytes 2 s) (\<lambda>_ s. obind (exchange 0xFF s) (\<lambda>b s.
      if b AND 0x1F = 0x05 then obind (mmc_wait s) (\<lambda>_. Done False)
      else obind (bus_chip_select False s) (\<lambda>_ s. obind (bus_stop s) (\<lambda>_. Done True)))))))"

definition mmcStopSequentialWrite :: "mmcsys \<Rightarrow> bool mmcout" where
  "mmcStopSequentialWrite s =
     (if mm_state s \<noteq> BLK_WRITING then Done True s else
      obind (spiSendBytes [0xFD, 0xFF] s) (\<lambda>_ s.
      obind (bus_chip_select False s) (\<lambda>_ s. Done False (s\<lparr>mm_state := BLK_READY\<rparr>))))"

fun mmc_read_loop :: "nat \<Rightarrow> mmcsys \<Rightarrow> (bool \<times> byte list) mmcout" where
  "mmc_read_loop 0 s = Done (False, []) s"
| "mmc_read_loop (Suc n) s =
     obind (mmcSequentialRead s) (\<lambda>(f, buf) s.
     if f then Done (True, buf) s else obind (mmc_read_loop n s) (\<lambda>(f, bufs). Done (f, buf @ bufs)))"

definition mmc_read :: "32 word \<Rightarrow> nat \<Rightarrow> mmcsys \<Rightarrow> (bool \<times> byte list) mmcout" where
  "mmc_read startblk n s =
     obind (mmcStartSequentialRead startblk s) (\<lambda>f s. if f then Done (True, []) s else
     obind (mmc_read_loop n s) (\<lambda>(f, buf) s. if f then Done (True, buf) s else
     obind (mmcStopSequentialRead s) (\<lambda>f. Done (f, buf))))"

fun mmc_write_loop :: "nat \<Rightarrow> byte list \<Rightarrow> mmcsys \<Rightarrow> bool mmcout" where
  "mmc_write_loop 0 buffer s = Done False s"
| "mmc_write_loop (Suc n) buffer s =
     obind (mmcSequentialWrite buffer s) (\<lambda>f s. if f then Done True s else mmc_write_loop n (drop 512 buffer) s)"

definition mmc_write :: "32 word \<Rightarrow> byte list \<Rightarrow> nat \<Rightarrow> mmcsys \<Rightarrow> bool mmcout" where
  "mmc_write startblk buffer n s =
     obind (mmcStartSequentialWrite startblk s) (\<lambda>f s. if f then Done True s else
     obind (mmc_write_loop n buffer s) (\<lambda>f s. if f then Done True s else mmcStopSequentialWrite s))"

definition mmcSync :: "mmcsys \<Rightarrow> bool mmcout" where
  "mmcSync s = (if mm_state s \<noteq> BLK_READY then Done True s else obind (mmc_sync s) (\<lambda>_. Done False))"

definition mmcGetInfo :: "mmcsys \<Rightarrow> (32 word \<times> 32 word) option" where
  "mmcGetInfo s = (if mm_state s \<noteq> BLK_READY then None else Some (mm_capacity s, MMCSD_BLOCK_SIZE))"

definition mmcErase :: "32 word \<Rightarrow> 32 word \<Rightarrow> mmcsys \<Rightarrow> bool mmcout" where
  "mmcErase startblk endblk s =
     (let startblk = block_address startblk s; endblk = block_address endblk s;
          failed = (\<lambda>s. obind (bus_stop s) (\<lambda>_. Done True)) in
      obind (send_command_R1 MMCSD_CMD_ERASE_RW_BLK_START startblk s) (\<lambda>r s. if r \<noteq> 0 then failed s else
      obind (send_command_R1 MMCSD_CMD_ERASE_RW_BLK_END endblk s) (\<lambda>r s. if r \<noteq> 0 then failed s else
      obind (send_command_R1 MMCSD_CMD_ERASE 0 s) (\<lambda>r s. if r \<noteq> 0 then failed s else Done False s))))"

section \<open>What the operations leave as it was\<close>

text \<open>\<open>may P Q m\<close>: the routine returns with \<open>Q\<close>, or it is a fault and \<open>P\<close>.\<close>

primrec may :: "bool \<Rightarrow> ('r \<Rightarrow> 's \<Rightarrow> bool) \<Rightarrow> ('s, 'r) outcome \<Rightarrow> bool" where
  "may P Q (Done r s) = Q r s"
| "may P Q (Switch s k) = False"
| "may P Q (Window s k) = False"
| "may P Q Fault = P"

lemma may_obind: "may P Q m \<Longrightarrow> (\<And>r s. Q r s \<Longrightarrow> may P R (f r s)) \<Longrightarrow> may P R (obind m f)"
  by (cases m) simp_all

lemma may_mono: "may P Q m \<Longrightarrow> (P \<Longrightarrow> P') \<Longrightarrow> (\<And>r s. Q r s \<Longrightarrow> Q' r s) \<Longrightarrow> may P' Q' m"
  by (cases m) simp_all

lemma may_False: "may False Q m \<longleftrightarrow> (\<exists>r s. m = Done r s \<and> Q r s)"
  by (cases m) simp_all

definition bus_ok :: "mmcsys \<Rightarrow> bool" where
  "bus_ok s \<longleftrightarrow> mm_config s \<noteq> None \<and> bus_config s \<noteq> None \<and> bus_running s"

text \<open>Only the selection, the card and the bus have moved; the answers are taken from the front.\<close>

definition same :: "mmcsys \<Rightarrow> mmcsys \<Rightarrow> bool" where
  "same s s' \<longleftrightarrow> s' = s\<lparr>bus_select := bus_select s', card_in := card_in s', bus_out := bus_out s'\<rparr> \<and>
     (\<exists>k. card_in s' = drop k (card_in s))"

lemma same_refl [simp]: "same s s"
  by (auto simp: same_def intro: exI[of _ 0])

lemma same_trans: "same s t \<Longrightarrow> same t u \<Longrightarrow> same s u"
proof -
  assume a: "same s t" "same t u"
  then obtain k l where kl: "card_in t = drop k (card_in s)" "card_in u = drop l (card_in t)" unfolding same_def by blast
  from a have "t = s\<lparr>bus_select := bus_select t, card_in := card_in t, bus_out := bus_out t\<rparr>"
    "u = t\<lparr>bus_select := bus_select u, card_in := card_in u, bus_out := bus_out u\<rparr>" unfolding same_def by blast+
  then have "u = s\<lparr>bus_select := bus_select u, card_in := card_in u, bus_out := bus_out u\<rparr>" by (cases s; cases t; cases u) simp
  moreover have "card_in u = drop (l + k) (card_in s)" using kl by simp
  ultimately show ?thesis unfolding same_def by blast
qed

lemma same_fields:
  assumes "same s s'"
  shows "mm_state s' = mm_state s" "mm_config s' = mm_config s" "mm_block_addresses s' = mm_block_addresses s"
    "mm_csd s' = mm_csd s" "mm_cid s' = mm_cid s" "mm_capacity s' = mm_capacity s" "bus_config s' = bus_config s"
    "bus_running s' = bus_running s" "bus_ok s' = bus_ok s"
proof -
  from assms obtain a b c where e: "s' = s\<lparr>bus_select := a, card_in := b, bus_out := c\<rparr>" unfolding same_def by metis
  show "mm_state s' = mm_state s" "mm_config s' = mm_config s" "mm_block_addresses s' = mm_block_addresses s"
    "mm_csd s' = mm_csd s" "mm_cid s' = mm_cid s" "mm_capacity s' = mm_capacity s" "bus_config s' = bus_config s"
    "bus_running s' = bus_running s" "bus_ok s' = bus_ok s"
    by (simp_all add: e bus_ok_def)
qed

text \<open>The same, with the selection as before.\<close>

definition stays :: "mmcsys \<Rightarrow> mmcsys \<Rightarrow> bool" where
  "stays s s' \<longleftrightarrow> same s s' \<and> bus_select s' = bus_select s"

lemma stays_refl [simp]: "stays s s"
  by (simp add: stays_def)

lemma stays_trans: "stays s t \<Longrightarrow> stays t u \<Longrightarrow> stays s u"
  unfolding stays_def using same_trans by auto

lemma stays_ok: "stays s s' \<Longrightarrow> bus_ok s \<Longrightarrow> bus_ok s'"
  unfolding stays_def using same_fields(9) by blast

lemma exchange_stays: "bus_ok s \<Longrightarrow> may False (\<lambda>_ s'. stays s s') (exchange b s)"
  by (auto simp: exchange_def bus_ok_def stays_def same_def drop_Suc intro: exI[of _ 1])

text \<open>A routine that stays as long as each of its exchanges does.\<close>

definition calm_op :: "(mmcsys \<Rightarrow> 'r mmcout) \<Rightarrow> bool" where
  "calm_op m \<longleftrightarrow> (\<forall>s. bus_ok s \<longrightarrow> may False (\<lambda>_ s'. stays s s') (m s))"

lemma calm_exchange [intro]: "calm_op (exchange b)"
  using exchange_stays by (auto simp: calm_op_def)

lemma calm_Done [intro]: "calm_op (Done r)"
  by (simp add: calm_op_def)

lemma calm_bind [intro]:
  assumes "calm_op m" "\<And>r. calm_op (f r)"
  shows "calm_op (\<lambda>s. obind (m s) f)"
  unfolding calm_op_def
proof (intro allI impI)
  fix s assume s: "bus_ok s"
  have "may False (\<lambda>_ s'. stays s s') (m s)" using assms(1) s unfolding calm_op_def by blast
  then show "may False (\<lambda>_ s'. stays s s') (obind (m s) f)"
  proof (rule may_obind)
    fix r s1 assume t: "stays s s1"
    have "may False (\<lambda>_ s'. stays s1 s') (f r s1)" using assms(2)[of r] stays_ok[OF t s] unfolding calm_op_def by blast
    then show "may False (\<lambda>_ s'. stays s s') (f r s1)" by (rule may_mono) (auto intro: stays_trans[OF t])
  qed
qed

lemma calm_if [intro]: "calm_op f \<Longrightarrow> calm_op g \<Longrightarrow> calm_op (\<lambda>s. if b then f s else g s)"
  by (simp add: calm_op_def)

lemma calm_send [intro]: "calm_op (spiSendBytes bs)"
proof (induction bs)
  case Nil
  have "spiSendBytes [] = Done ()" by (rule ext) simp
  then show ?case by (simp only: calm_Done)
next
  case (Cons b bs)
  have "spiSendBytes (b # bs) = (\<lambda>s. obind (exchange b s) (\<lambda>_. spiSendBytes bs))" by (rule ext) simp
  then show ?case using Cons by (simp only:) (rule calm_bind[OF calm_exchange])
qed

lemma calm_receive [intro]: "calm_op (spiReceiveBytes n)"
proof (induction n)
  case 0
  have "spiReceiveBytes 0 = Done []" by (rule ext) simp
  then show ?case by (simp only: calm_Done)
next
  case (Suc n)
  have "spiReceiveBytes (Suc n) = (\<lambda>s. obind (exchange 0xFF s) (\<lambda>a s. obind (spiReceiveBytes n s) (\<lambda>as. Done (a # as))))" by (rule ext) simp
  then show ?case using Suc by (simp only:) (intro calm_bind calm_exchange calm_Done)
qed

lemma calm_ignore [intro]: "calm_op (spiIgnoreBytes n)"
  unfolding spiIgnoreBytes_def[abs_def] by (intro calm_bind calm_receive calm_Done)

lemma calm_wait_short [intro]: "calm_op (wait_short n)"
proof (induction n)
  case 0
  have "wait_short 0 = Done False" by (rule ext) simp
  then show ?case by (simp only: calm_Done)
next
  case (Suc n)
  have "wait_short (Suc n) = (\<lambda>s. obind (exchange 0xFF s) (\<lambda>a s. if a = 0xFF then Done True s else wait_short n s))" by (rule ext) simp
  then show ?case using Suc by (simp only:) (intro calm_bind calm_exchange calm_if calm_Done)
qed

lemma calm_recvr1 [intro]: "calm_op recvr1"
proof -
  have "calm_op (recvr1_loop n)" for n
  proof (induction n)
    case 0
    have "recvr1_loop 0 = Done 0xFF" by (rule ext) simp
    then show ?case by (simp only: calm_Done)
  next
    case (Suc n)
    have "recvr1_loop (Suc n) = (\<lambda>s. obind (exchange 0xFF s) (\<lambda>a s. if a \<noteq> 0xFF then Done a s else recvr1_loop n s))" by (rule ext) simp
    then show ?case using Suc by (simp only:) (intro calm_bind calm_exchange calm_if calm_Done)
  qed
  then show ?thesis unfolding recvr1_def[abs_def] .
qed

lemma calm_wait_long [intro]: "calm_op wait_long"
  unfolding calm_op_def
proof (intro allI impI)
  fix s assume "bus_ok s"
  then show "may False (\<lambda>_ s'. stays s s') (wait_long s)"
  proof (induction s rule: wait_long.induct)
    case (1 s)
    from exchange_stays[OF 1(2), of "0xFF"] obtain a s1 where e: "exchange 0xFF s = Done a s1" "stays s s1"
      unfolding may_False by blast
    show ?case
    proof (cases "a = 0xFF")
      case True
      then show ?thesis using e by (subst wait_long.simps) simp
    next
      case False
      then have "may False (\<lambda>_ s'. stays s1 s') (wait_long s1)" using 1(1)[OF e(1) False] stays_ok[OF e(2) 1(2)] by simp
      then have "may False (\<lambda>_ s'. stays s s') (wait_long s1)" by (rule may_mono) (auto intro: stays_trans[OF e(2)])
      then show ?thesis using e False by (subst wait_long.simps) simp
    qed
  qed
qed

lemma calm_wait [intro]: "calm_op mmc_wait"
  unfolding mmc_wait_def[abs_def] by (intro calm_bind calm_wait_short calm_if calm_Done calm_wait_long)

text \<open>The frame of a command always exists: six bytes with the remainder of the first five.\<close>

lemma command_frame_some:
  "command_frame cmd arg = Some ([0x40 OR cmd, ucast (drop_bit 24 arg), ucast (drop_bit 16 arg), ucast (drop_bit 8 arg), ucast arg] @
     [push_bit 1 (crc_bits 0 (bits_of_bytes [0x40 OR cmd, ucast (drop_bit 24 arg), ucast (drop_bit 16 arg), ucast (drop_bit 8 arg), ucast arg]) AND 0x7F) OR 0x01])"
  unfolding command_frame_def Let_def by (subst crc7_remainder) (simp_all del: push_bit_Suc)

lemma calm_send_hdr [intro]: "calm_op (send_hdr cmd arg)"
  unfolding send_hdr_def[abs_def] command_frame_some option.case by (intro calm_bind calm_wait calm_send)

lemma calm_recvr3 [intro]: "calm_op recvr3"
  unfolding recvr3_def[abs_def] by (intro calm_bind calm_recvr1 calm_receive calm_Done)

section \<open>Commands keep the driver and release the card\<close>

definition shut :: "mmcsys \<Rightarrow> mmcsys \<Rightarrow> bool" where
  "shut s s' \<longleftrightarrow> same s s' \<and> \<not> bus_select s'"

lemma select_same: "bus_ok s \<Longrightarrow> may False (\<lambda>_ s'. same s s' \<and> bus_select s' = on) (bus_chip_select on s)"
  by (auto simp: bus_chip_select_def bus_ok_def same_def intro: exI[of _ 0])

lemma selected_op:
  assumes "calm_op m" "bus_ok s"
  shows "may False (\<lambda>r s'. shut s s') (obind (bus_chip_select True s) (\<lambda>_ s. obind (m s) (\<lambda>r s. obind (bus_chip_select False s) (\<lambda>_. Done r))))"
proof (rule may_obind[OF select_same[OF assms(2)]])
  fix x :: unit and s1 assume 1: "same s s1 \<and> bus_select s1 = True"
  then have ok: "bus_ok s1" using same_fields(9) assms(2) by blast
  have "may False (\<lambda>_ s'. stays s1 s') (m s1)" using assms(1) ok unfolding calm_op_def by blast
  then show "may False (\<lambda>r s'. shut s s') (obind (m s1) (\<lambda>r s. obind (bus_chip_select False s) (\<lambda>_. Done r)))"
  proof (rule may_obind)
    fix r s2 assume 2: "stays s1 s2"
    show "may False (\<lambda>r s'. shut s s') (obind (bus_chip_select False s2) (\<lambda>_. Done r))"
    proof (rule may_obind[OF select_same[OF stays_ok[OF 2 ok]]])
      fix y :: unit and s3 assume "same s2 s3 \<and> bus_select s3 = False"
      then show "may False (\<lambda>r s'. shut s s') (Done r s3)"
        using 1 2 same_trans unfolding shut_def stays_def may.simps by meson
    qed
  qed
qed

lemma R1_shut: "bus_ok s \<Longrightarrow> may False (\<lambda>_ s'. shut s s') (send_command_R1 cmd arg s)"
  using selected_op[of "\<lambda>s. obind (send_hdr cmd arg s) (\<lambda>_. recvr1)" s] by (auto simp: send_command_R1_def obind_assoc)

lemma receive_value:
  "bus_ok s \<Longrightarrow> \<exists>s'. spiReceiveBytes n s = Done (take n (card_in s @ replicate n 0xFF)) s' \<and> stays s s' \<and> card_in s' = drop n (card_in s)"
proof (induction n arbitrary: s)
  case (Suc n)
  from exchange_stays[OF Suc.prems, of "0xFF"] obtain a s1 where e: "exchange 0xFF s = Done a s1" "stays s s1" unfolding may_False by blast
  have a: "a = (case card_in s of [] \<Rightarrow> 0xFF | a # _ \<Rightarrow> a)" "card_in s1 = tl (card_in s)"
    using e(1) by (auto simp: exchange_def split: if_splits)
  from Suc.IH[OF stays_ok[OF e(2) Suc.prems]] obtain s2 where 2: "spiReceiveBytes n s1 = Done (take n (card_in s1 @ replicate n 0xFF)) s2"
    "stays s1 s2" "card_in s2 = drop n (card_in s1)" by blast
  have "take (Suc n) (card_in s @ replicate (Suc n) 0xFF) = a # take n (card_in s1 @ replicate n 0xFF)"
    unfolding a by (cases "card_in s") (simp_all add: replicate_append_same[symmetric] take_Cons')
  moreover have "card_in s2 = drop (Suc n) (card_in s)" unfolding 2(3) a(2) by (simp add: drop_Suc)
  ultimately show ?case using e 2 stays_trans[OF e(2) 2(2)] by auto
qed simp

lemma R3_shut: "bus_ok s \<Longrightarrow> may False (\<lambda>_ s'. shut s s') (send_command_R3 cmd arg s)"
  using selected_op[of "\<lambda>s. obind (send_hdr cmd arg s) (\<lambda>_. recvr3)" s] by (auto simp: send_command_R3_def obind_assoc)

text \<open>A register is sixteen bytes of the card's answers; when none comes, the card is still selected.\<close>

definition register_in :: "mmcsys \<Rightarrow> 32 word list \<Rightarrow> bool" where
  "register_in s csd \<longleftrightarrow> (\<exists>k. csd = cxd_words (take 16 (drop k (card_in s) @ replicate 16 0xFF)))"

lemma register_same: "same s s' \<Longrightarrow> register_in s' csd \<Longrightarrow> register_in s csd"
  unfolding same_def register_in_def by (metis drop_drop)

lemma CxD_loop: "bus_ok s \<Longrightarrow> may False (\<lambda>(f, l) s'. same s s' \<and> (\<not> f \<longrightarrow> \<not> bus_select s' \<and> register_in s l)) (read_CxD_loop n s)"
proof (induction n arbitrary: s)
  case (Suc n)
  from exchange_stays[OF Suc.prems, of "0xFF"] obtain a s1 where e: "exchange 0xFF s = Done a s1" "stays s s1" unfolding may_False by blast
  have ok: "bus_ok s1" using stays_ok[OF e(2) Suc.prems] .
  have ss: "same s s1" using e(2) unfolding stays_def by blast
  show ?case
  proof (cases "a = 0xFE")
    case True
    from receive_value[OF ok, of 16] obtain s2 where 2: "spiReceiveBytes 16 s1 = Done (take 16 (card_in s1 @ replicate 16 0xFF)) s2"
      "stays s1 s2" by blast
    have "may False (\<lambda>r s'. shut s s') (obind (spiIgnoreBytes 2 s2) (\<lambda>_ s. bus_chip_select False s))"
    proof (rule may_obind)
      show "may False (\<lambda>_ s'. stays s2 s') (spiIgnoreBytes 2 s2)"
        using calm_ignore[of 2] stays_ok[OF 2(2) ok] unfolding calm_op_def by blast
      fix r s3 assume 3: "stays s2 s3"
      have "same s s3" using ss 2(2) 3 same_trans unfolding stays_def by blast
      then show "may False (\<lambda>r s'. shut s s') (bus_chip_select False s3)"
        using select_same[of s3 False] stays_ok[OF 3] stays_ok[OF 2(2) ok] same_trans
        unfolding may_False shut_def by blast
    qed
    then obtain s4 where 4: "obind (spiIgnoreBytes 2 s2) (\<lambda>_ s. bus_chip_select False s) = Done () s4" "shut s s4"
      unfolding may_False by auto
    have "read_CxD_loop (Suc n) s = obind (obind (spiIgnoreBytes 2 s2) (\<lambda>_ s. bus_chip_select False s))
        (\<lambda>_. Done (False, cxd_words (take 16 (card_in s1 @ replicate 16 0xFF))))"
      using e(1) 2(1) True by (simp add: obind_assoc)
    moreover have "register_in s (cxd_words (take 16 (card_in s1 @ replicate 16 0xFF)))"
      by (rule register_same[OF ss]) (auto simp: register_in_def intro: exI[of _ 0])
    ultimately show ?thesis using 4 by (simp add: shut_def)
  next
    case False
    have "may False (\<lambda>(f, l) s'. same s1 s' \<and> (\<not> f \<longrightarrow> \<not> bus_select s' \<and> register_in s1 l)) (read_CxD_loop n s1)" by (rule Suc.IH[OF ok])
    then have "may False (\<lambda>(f, l) s'. same s s' \<and> (\<not> f \<longrightarrow> \<not> bus_select s' \<and> register_in s l)) (read_CxD_loop n s1)"
      by (rule may_mono) (use same_trans[OF ss] register_same[OF ss] in auto)
    then show ?thesis using e(1) False by simp
  qed
qed simp

lemma CxD_same: "bus_ok s \<Longrightarrow> may False (\<lambda>(f, l) s'. same s s' \<and> (\<not> f \<longrightarrow> \<not> bus_select s' \<and> register_in s l)) (read_CxD cmd s)"
  unfolding read_CxD_def
proof (rule may_obind[OF select_same], assumption)
  fix x :: unit and s1 assume ok: "bus_ok s" and 1: "same s s1 \<and> bus_select s1 = True"
  then have ok1: "bus_ok s1" using same_fields(9) by blast
  let ?Q = "\<lambda>(f, l) s'. same s s' \<and> (\<not> f \<longrightarrow> \<not> bus_select s' \<and> register_in s l)"
  have "calm_op (\<lambda>s. obind (send_hdr cmd 0 s) (\<lambda>_. recvr1))" by (intro calm_bind calm_send_hdr calm_recvr1)
  then have "may False (\<lambda>_ s'. stays s1 s') (obind (send_hdr cmd 0 s1) (\<lambda>_. recvr1))" using ok1 unfolding calm_op_def by blast
  then have "may False ?Q (obind (obind (send_hdr cmd 0 s1) (\<lambda>_. recvr1)) (\<lambda>r1 s.
     if r1 \<noteq> 0 then obind (bus_chip_select False s) (\<lambda>_. Done (True, [])) else read_CxD_loop MMC_WAIT_DATA s))"
  proof (rule may_obind)
    fix r s2 assume 2: "stays s1 s2"
    have ss: "same s s2" using 1 2 same_trans unfolding stays_def by blast
    have ok2: "bus_ok s2" using stays_ok[OF 2 ok1] .
    show "may False ?Q (if r \<noteq> 0 then obind (bus_chip_select False s2) (\<lambda>_. Done (True, [])) else read_CxD_loop MMC_WAIT_DATA s2)"
    proof (cases "r = 0")
      case True
      have "may False ?Q (read_CxD_loop MMC_WAIT_DATA s2)"
        by (rule may_mono[OF CxD_loop[OF ok2]]) (use same_trans[OF ss] register_same[OF ss] in auto)
      then show ?thesis using True by simp
    next
      case False
      have "may False ?Q (obind (bus_chip_select False s2) (\<lambda>_. Done (True, [])))"
        by (rule may_obind[OF select_same[OF ok2]]) (use same_trans[OF ss] in auto)
      then show ?thesis using False by simp
    qed
  qed
  then show "may False ?Q (obind (send_hdr cmd 0 s1) (\<lambda>_ s. obind (recvr1 s) (\<lambda>r1 s.
     if r1 \<noteq> 0 then obind (bus_chip_select False s) (\<lambda>_. Done (True, [])) else read_CxD_loop MMC_WAIT_DATA s)))"
    by (simp only: obind_assoc)
qed

section \<open>Connection\<close>

text \<open>A step of the connection: the driver keeps its state, and the answers come from the same card.\<close>

definition conn :: "mmcsys \<Rightarrow> mmcsys \<Rightarrow> bool" where
  "conn s0 s \<longleftrightarrow> mm_state s = mm_state s0 \<and> mm_config s = mm_config s0 \<and> bus_ok s \<and> (\<exists>k. card_in s = drop k (card_in s0))"

lemma conn_same: "conn s0 s \<Longrightarrow> same s s' \<Longrightarrow> conn s0 s'"
  using same_fields[of s s'] unfolding conn_def same_def by (metis drop_drop)

lemma conn_register: "conn s0 s \<Longrightarrow> register_in s csd \<Longrightarrow> register_in s0 csd"
  unfolding conn_def register_in_def by (metis drop_drop)

lemma conn_ok: "conn s0 s \<Longrightarrow> bus_ok s"
  by (simp add: conn_def)

lemma conn_record:
  assumes "conn s0 s"
  shows "conn s0 (s\<lparr>mm_block_addresses := b\<rparr>)" "conn s0 (s\<lparr>mm_csd := csd, mm_capacity := cap\<rparr>)" "conn s0 (s\<lparr>mm_cid := cid\<rparr>)"
proof -
  have "mm_config s0 \<noteq> None" using assms unfolding conn_def bus_ok_def by argo
  then show "conn s0 (s\<lparr>mm_block_addresses := b\<rparr>)" "conn s0 (s\<lparr>mm_csd := csd, mm_capacity := cap\<rparr>)" "conn s0 (s\<lparr>mm_cid := cid\<rparr>)"
    using assms by (simp_all add: conn_def bus_ok_def del: not_None_eq)
qed

definition step_ok :: "bool \<Rightarrow> mmcsys \<Rightarrow> bool mmcout \<Rightarrow> bool" where
  "step_ok P s0 m \<longleftrightarrow> may P (\<lambda>f s. conn s0 s \<and> (\<not> f \<longrightarrow> \<not> bus_select s)) m"

lemma R1_conn: "conn s0 s \<Longrightarrow> may P (\<lambda>r s'. conn s0 s' \<and> \<not> bus_select s') (send_command_R1 cmd arg s)"
  by (rule may_mono[OF R1_shut[OF conn_ok]]) (auto simp: shut_def intro: conn_same)

lemma R3_conn: "conn s0 s \<Longrightarrow> may P (\<lambda>r s'. conn s0 s' \<and> \<not> bus_select s') (send_command_R3 cmd arg s)"
  by (rule may_mono[OF R3_shut[OF conn_ok]]) (auto simp: shut_def intro: conn_same)

lemma cmd0_ok: "conn s0 s \<Longrightarrow> step_ok P s0 (cmd0_loop n s)"
proof (induction n arbitrary: s)
  case (Suc n)
  show ?case unfolding step_ok_def cmd0_loop.simps
    by (rule may_obind[OF R1_conn[OF Suc.prems]]) (use Suc.IH in \<open>auto simp: step_ok_def\<close>)
qed (simp add: step_ok_def)

lemma cmd1_ok: "conn s0 s \<Longrightarrow> step_ok P s0 (cmd1_loop n s)"
proof (induction n arbitrary: s)
  case (Suc n)
  show ?case unfolding step_ok_def cmd1_loop.simps
    by (rule may_obind[OF R1_conn[OF Suc.prems]]) (use Suc.IH in \<open>auto simp: step_ok_def\<close>)
qed (simp add: step_ok_def)

lemma acmd41_ok: "conn s0 s \<Longrightarrow> step_ok P s0 (acmd41_loop n s)"
proof (induction n arbitrary: s)
  case (Suc n)
  show ?case unfolding step_ok_def acmd41_loop.simps
  proof (rule may_obind[OF R1_conn[OF Suc.prems]])
    fix r s1 assume 1: "conn s0 s1 \<and> \<not> bus_select s1"
    have "may P (\<lambda>f s. conn s0 s \<and> (\<not> f \<longrightarrow> \<not> bus_select s)) (obind (send_command_R3 MMCSD_CMD_APP_OP_COND 0x400001aa s1)
       (\<lambda>(q, _) s. if q = 0x00 then Done False s else acmd41_loop n s))"
      by (rule may_obind[OF R3_conn]) (use 1 Suc.IH in \<open>auto simp: step_ok_def\<close>)
    then show "may P (\<lambda>f s. conn s0 s \<and> (\<not> f \<longrightarrow> \<not> bus_select s)) (if r = 0x01 then
       obind (send_command_R3 MMCSD_CMD_APP_OP_COND 0x400001aa s1) (\<lambda>(q, _) s.
       if q = 0x00 then Done False s else acmd41_loop n s) else acmd41_loop n s1)"
      using 1 Suc.IH by (simp add: step_ok_def)
  qed
qed (simp add: step_ok_def)

lemma sdhc_ok: "conn s0 s \<Longrightarrow> step_ok P s0 (connect_sdhc s)"
  unfolding step_ok_def connect_sdhc_def
proof (rule may_obind[OF R3_conn], assumption)
  fix r :: "byte \<times> byte list" and s1 assume "conn s0 s1 \<and> \<not> bus_select s1"
  then have 1: "conn s0 s1" "\<not> bus_select s1" by blast+
  let ?Q = "\<lambda>f s. conn s0 s \<and> (\<not> f \<longrightarrow> \<not> bus_select s)"
  have "may P ?Q (obind (acmd41_loop MMC_ACMD41_RETRY s1) (\<lambda>f s.
       if f then Done True s
       else obind (send_command_R3 MMCSD_CMD_READ_OCR 0 s) (\<lambda>(_, r3) s.
            Done False (if hd r3 AND 0x40 \<noteq> 0 then s\<lparr>mm_block_addresses := True\<rparr> else s))))"
  proof (rule may_obind[OF acmd41_ok[OF 1(1), unfolded step_ok_def]])
    fix f s2 assume 2: "conn s0 s2 \<and> (\<not> f \<longrightarrow> \<not> bus_select s2)"
    have "may P ?Q (obind (send_command_R3 MMCSD_CMD_READ_OCR 0 s2) (\<lambda>(_, r3) s.
            Done False (if hd r3 AND 0x40 \<noteq> 0 then s\<lparr>mm_block_addresses := True\<rparr> else s)))"
    proof (rule may_obind[OF R3_conn])
      show "conn s0 s2" using 2 by blast
      fix r :: "byte \<times> byte list" and s3 assume "conn s0 s3 \<and> \<not> bus_select s3"
      then show "may P ?Q ((\<lambda>(_, r3) s. Done False (if hd r3 AND 0x40 \<noteq> 0 then s\<lparr>mm_block_addresses := True\<rparr> else s)) r s3)"
        by (cases r) (simp add: conn_record)
    qed
    then show "may P ?Q (if f then Done True s2 else obind (send_command_R3 MMCSD_CMD_READ_OCR 0 s2) (\<lambda>(_, r3) s.
            Done False (if hd r3 AND 0x40 \<noteq> 0 then s\<lparr>mm_block_addresses := True\<rparr> else s)))"
      using 2 by simp
  qed
  then show "may P ?Q ((\<lambda>(r, _) s. if r \<noteq> 0x05 then obind (acmd41_loop MMC_ACMD41_RETRY s) (\<lambda>f s.
       if f then Done True s
       else obind (send_command_R3 MMCSD_CMD_READ_OCR 0 s) (\<lambda>(_, r3) s.
            Done False (if hd r3 AND 0x40 \<noteq> 0 then s\<lparr>mm_block_addresses := True\<rparr> else s))) else Done False s) r s1)"
    using 1 by (cases r) simp
qed

text \<open>A card whose register is of version 1.0 with blocks shorter than 512 bytes makes the driver shift by a negative count.\<close>

definition shift_fault :: "mmcsys \<Rightarrow> bool" where
  "shift_fault s \<longleftrightarrow> (\<exists>csd. register_in s csd \<and> csd_field csd 127 126 = 0 \<and> csd_field csd 83 80 < 9)"

lemma capacity_fault:
  assumes "length csd = 4" "mmcsdGetCapacity csd = None"
  shows "csd_field csd 127 126 = 0 \<and> csd_field csd 83 80 < 9"
proof -
  have z: "csd_field csd 127 126 = 0"
  proof (rule ccontr)
    assume "csd_field csd 127 126 \<noteq> 0"
    then have "drop_bit 30 (csd ! 3) \<noteq> 0" using csd_version[OF assms(1)] by auto
    moreover obtain w where "mmcsd_get_slice csd 69 48 = Some w" using slice_field[of 48 69 csd] assms(1) by auto
    ultimately show False using assms by (auto simp: mmcsdGetCapacity_def Let_def split: if_splits)
  qed
  then show ?thesis using capacity_10[OF assms(1) z] assms(2) by (metis linorder_not_less option.distinct(1))
qed

lemma register_length: "register_in s csd \<Longrightarrow> length csd = 4"
  by (auto simp: register_in_def cxd_words_def)

definition ready_ok :: "mmcsys \<Rightarrow> mmcsys \<Rightarrow> bool" where
  "ready_ok s0 s \<longleftrightarrow> conn s0 s \<and> \<not> bus_select s \<and> register_in s0 (mm_csd s) \<and> register_in s0 (mm_cid s) \<and>
     mmcsdGetCapacity (mm_csd s) = Some (mm_capacity s) \<and> mm_capacity s \<noteq> 0"

lemma registers_ok:
  assumes "conn s0 s"
  shows "may (shift_fault s0) (\<lambda>f s. conn s0 s \<and> (\<not> f \<longrightarrow> ready_ok s0 s)) (connect_registers s)"
  unfolding connect_registers_def
proof (rule may_obind[OF R1_conn[OF assms]])
  let ?Q = "\<lambda>f s. conn s0 s \<and> (\<not> f \<longrightarrow> ready_ok s0 s)" and ?P = "shift_fault s0"
  fix r :: byte and s1 assume "conn s0 s1 \<and> \<not> bus_select s1"
  then have 1: "conn s0 s1" by blast
  let ?cid = "\<lambda>s. obind (read_CxD MMCSD_CMD_SEND_CID s) (\<lambda>(f, cid) s. if f then Done True s else Done False (s\<lparr>mm_cid := cid\<rparr>))"
  let ?cap = "\<lambda>(f, csd) s. if f then Done True s else
     case mmcsdGetCapacity csd of None \<Rightarrow> Fault | Some cap \<Rightarrow>
       (let s = s\<lparr>mm_csd := csd, mm_capacity := cap\<rparr> in if cap = 0 then Done True s else ?cid s)"
  let ?C = "\<lambda>s (f, l) s'. conn s0 s' \<and> (\<not> f \<longrightarrow> \<not> bus_select s' \<and> register_in s0 l) \<and>
      mm_csd s' = mm_csd s \<and> mm_capacity s' = mm_capacity s"
  have cxd: "may ?P (?C s) (read_CxD cmd s)" if "conn s0 s" for cmd s
  proof (rule may_mono[OF CxD_same[OF conn_ok[OF that]]])
    fix r :: "bool \<times> 32 word list" and s'
    assume a: "(\<lambda>(f, l) s'. same s s' \<and> (\<not> f \<longrightarrow> \<not> bus_select s' \<and> register_in s l)) r s'"
    then have "same s s'" by (cases r) simp
    then have "conn s0 s'" "mm_csd s' = mm_csd s" "mm_capacity s' = mm_capacity s" using conn_same[OF that] same_fields by blast+
    then show "?C s r s'" using a conn_register[OF that] by (cases r) simp
  qed blast
  have "may ?P ?Q (obind (read_CxD MMCSD_CMD_SEND_CSD s1) ?cap)"
  proof (rule may_obind[OF cxd[OF 1]])
    fix r :: "bool \<times> 32 word list" and s2 assume a: "?C s1 r s2"
    obtain f csd where r: "r = (f, csd)" by (cases r)
    have 2: "conn s0 s2" "\<not> f \<Longrightarrow> register_in s0 csd" using a by (auto simp: r)
    show "may ?P ?Q (?cap r s2)"
    proof (cases "f \<or> mmcsdGetCapacity csd = None")
      case True
      have "f \<or> shift_fault s0"
        using True 2(2) capacity_fault register_length unfolding shift_fault_def by blast
      then show ?thesis using True 2(1) by (cases f) (simp_all add: r)
    next
      case False
      then obtain cap where c: "mmcsdGetCapacity csd = Some cap" "\<not> f" by blast
      let ?s = "s2\<lparr>mm_csd := csd, mm_capacity := cap\<rparr>"
      have 3: "conn s0 ?s" by (rule conn_record(2)[OF 2(1)])
      have "may ?P ?Q (?cid ?s)" if "cap \<noteq> 0"
      proof (rule may_obind[OF cxd[OF 3]])
        fix r :: "bool \<times> 32 word list" and s4 assume b: "?C ?s r s4"
        show "may ?P ?Q ((\<lambda>(f, cid) s. if f then Done True s else Done False (s\<lparr>mm_cid := cid\<rparr>)) r s4)"
          using b c that 2(2) by (cases r) (auto simp: ready_ok_def conn_record)
      qed
      then show ?thesis using c 3 by (cases "cap = 0") (simp_all add: r Let_def)
    qed
  qed
  then show "may ?P ?Q (if r \<noteq> 0 then Done True s1 else obind (read_CxD MMCSD_CMD_SEND_CSD s1) ?cap)"
    using 1 by simp
qed

lemma bus_start_conn:
  "mm_config s0 \<noteq> None \<Longrightarrow> mm_config s = mm_config s0 \<Longrightarrow> mm_state s = mm_state s0 \<Longrightarrow> card_in s = drop k (card_in s0) \<Longrightarrow>
    may P (\<lambda>_ s'. conn s0 s') (bus_start high s)"
  by (auto simp: bus_start_def conn_def bus_ok_def)

lemma calm_conn:
  assumes "calm_op m" "conn s0 s"
  shows "may P (\<lambda>_ s'. conn s0 s') (m s)"
proof -
  have "may False (\<lambda>_ s'. stays s s') (m s)" using assms(1) conn_ok[OF assms(2)] unfolding calm_op_def by blast
  then show ?thesis by (rule may_mono) (use conn_same[OF assms(2)] in \<open>auto simp: stays_def\<close>)
qed

text \<open>A chain of steps, each of which may fail.\<close>

lemma step_chain:
  assumes "may P (\<lambda>f s. conn s0 s \<and> (\<not> f \<longrightarrow> A s)) m" "\<And>s. conn s0 s \<Longrightarrow> may P (\<lambda>f s. conn s0 s \<and> (\<not> f \<longrightarrow> B s)) (k s)"
  shows "may P (\<lambda>f s. conn s0 s \<and> (\<not> f \<longrightarrow> B s)) (obind m (\<lambda>f s. if f then Done True s else k s))"
  by (rule may_obind[OF assms(1)]) (simp add: assms(2))

lemma steps_ok:
  assumes "mm_config s0 \<noteq> None"
  shows "may (shift_fault s0) (\<lambda>f s. conn s0 s \<and> (\<not> f \<longrightarrow> ready_ok s0 s)) (connect_steps s0)"
proof -
  let ?Q = "\<lambda>f s. conn s0 s \<and> (\<not> f \<longrightarrow> ready_ok s0 s)" and ?P = "shift_fault s0"
  have l: "may ?P ?Q (obind (bus_start True s) (\<lambda>_. connect_registers))" if c: "conn s0 s" for s
  proof (rule may_obind)
    from c obtain k where k: "mm_config s = mm_config s0" "mm_state s = mm_state s0" "card_in s = drop k (card_in s0)"
      unfolding conn_def by blast
    show "may ?P (\<lambda>_ s'. conn s0 s') (bus_start True s)" using k assms bus_start_conn by blast
  qed (rule registers_ok)
  note steps = step_chain[OF cmd0_ok[unfolded step_ok_def] step_chain[OF sdhc_ok[unfolded step_ok_def] step_chain[OF cmd1_ok[unfolded step_ok_def] l]]]
  have b: "may ?P (\<lambda>_ s'. conn s0 s') (bus_start False s0)" by (rule bus_start_conn[where k = 0]) (simp_all add: assms del: not_None_eq)
  show ?thesis unfolding connect_steps_def
  proof (rule may_obind[OF b])
    fix r :: unit and s1 assume 1: "conn s0 s1"
    show "may ?P ?Q (obind (spiIgnoreBytes 16 s1) (\<lambda>_ s. obind (cmd0_loop MMC_CMD0_RETRY s) (\<lambda>f s. if f then Done True s else
     obind (connect_sdhc s) (\<lambda>f s. if f then Done True s else
     obind (cmd1_loop MMC_CMD1_RETRY s) (\<lambda>f s. if f then Done True s else
     obind (bus_start True s) (\<lambda>_. connect_registers))))))"
      by (rule may_obind[OF calm_conn[OF calm_ignore 1]]) (rule steps)
  qed
qed

text \<open>The connection ends in one of its two states, with the card released.\<close>

definition connected :: "mmcsys \<Rightarrow> mmcsys \<Rightarrow> bool" where
  "connected s s' \<longleftrightarrow> mm_state s' = BLK_READY \<and> bus_ok s' \<and> \<not> bus_select s' \<and> register_in s (mm_csd s') \<and>
     register_in s (mm_cid s') \<and> mmcsdGetCapacity (mm_csd s') = Some (mm_capacity s') \<and> mm_capacity s' \<noteq> 0"

lemma connect_ends:
  assumes "mm_config s \<noteq> None"
  shows "may (shift_fault s) (\<lambda>f s'. if f then mm_state s' = BLK_ACTIVE \<and> \<not> bus_running s' \<and> \<not> bus_select s' else connected s s') (mmcConnect s)"
  unfolding mmcConnect_def
proof (rule may_obind)
  let ?s = "s\<lparr>mm_state := BLK_CONNECTING\<rparr>"
  have r: "register_in ?s = register_in s" "shift_fault ?s = shift_fault s"
    by (simp_all add: fun_eq_iff register_in_def shift_fault_def)
  show "may (shift_fault s) (\<lambda>f s'. conn ?s s' \<and> (\<not> f \<longrightarrow> ready_ok ?s s')) (connect_steps ?s)"
    using steps_ok[of ?s] assms by (simp add: r del: not_None_eq)
  fix f s1 assume 1: "conn ?s s1 \<and> (\<not> f \<longrightarrow> ready_ok ?s s1)"
  then have ok: "bus_ok s1" using conn_ok by blast
  then obtain a b where ab: "mm_config s1 = Some a" "bus_config s1 = Some b" unfolding bus_ok_def by blast
  show "may (shift_fault s) (\<lambda>f s'. if f then mm_state s' = BLK_ACTIVE \<and> \<not> bus_running s' \<and> \<not> bus_select s' else connected s s')
    (if f then obind (bus_stop s1) (\<lambda>_ s. Done True (s\<lparr>mm_state := BLK_ACTIVE\<rparr>)) else Done False (s1\<lparr>mm_state := BLK_READY\<rparr>))"
  proof (cases f)
    case True
    then show ?thesis by (simp add: bus_stop_def bus_chip_select_def ab)
  next
    case False
    then have "ready_ok ?s s1" using 1 by blast
    then show ?thesis using False ok by (simp add: ready_ok_def connected_def bus_ok_def r del: not_None_eq)
  qed
qed

end
