(* ===== verification/Mmc_Transfer.thy ===== *)
theory Mmc_Transfer
  imports Mmc_Spi
begin

text \<open>
  Whole transfers of \<^verbatim>\<open>os/hal/src/mmc_spi.c\<close> (theory \<open>Mmc_Spi\<close>) with a card that answers: every routine is described by
  the bytes it takes from the card, the bytes it puts on the bus and its result, and the descriptions compose
  to those of a read and of a write of several blocks.
\<close>

abbreviation idle :: "nat \<Rightarrow> byte list" where
  "idle n \<equiv> replicate n 0xFF"

definition takes :: "blkstate \<Rightarrow> (mmcsys \<Rightarrow> 'r mmcout) \<Rightarrow> byte list \<Rightarrow> byte list \<Rightarrow> 'r \<Rightarrow> bool" where
  "takes st m ins outs r \<longleftrightarrow> (\<forall>s rest. bus_ok s \<and> mm_state s = st \<and> card_in s = ins @ rest \<longrightarrow>
     m s = Done r (s\<lparr>card_in := rest, bus_out := bus_out s @ map (Pair (bus_select s)) outs\<rparr>))"

lemma takesD:
  "takes st m ins outs r \<Longrightarrow> bus_ok s \<Longrightarrow> mm_state s = st \<Longrightarrow> card_in s = ins @ rest \<Longrightarrow>
    m s = Done r (s\<lparr>card_in := rest, bus_out := bus_out s @ map (Pair (bus_select s)) outs\<rparr>)"
  unfolding takes_def by blast

lemma bus_ok_card [simp]: "bus_ok (s\<lparr>card_in := c, bus_out := u\<rparr>) = bus_ok s"
  by (simp add: bus_ok_def)

lemma takes_Done: "takes st (Done r) [] [] r"
  by (simp add: takes_def)

lemma takes_bind:
  assumes "takes st m is os r" "takes st (f r) is' os' q"
  shows "takes st (\<lambda>s. obind (m s) f) (is @ is') (os @ os') q"
  unfolding takes_def
proof (intro allI impI, elim conjE)
  fix s rest assume a: "bus_ok s" "mm_state s = st" "card_in s = (is @ is') @ rest"
  have "m s = Done r (s\<lparr>card_in := is' @ rest, bus_out := bus_out s @ map (Pair (bus_select s)) os\<rparr>)"
    by (rule takesD[OF assms(1) a(1,2)]) (simp add: a(3))
  then show "obind (m s) f = Done q (s\<lparr>card_in := rest, bus_out := bus_out s @ map (Pair (bus_select s)) (os @ os')\<rparr>)"
    using takesD[OF assms(2), of "s\<lparr>card_in := is' @ rest, bus_out := bus_out s @ map (Pair (bus_select s)) os\<rparr>" rest] a(1,2)
    by simp
qed

lemma takes_exchange: "takes st (exchange b) [a] [b] a"
  by (auto simp: takes_def exchange_def bus_ok_def)

lemma takes_step: "takes st (f a) is os q \<Longrightarrow> takes st (\<lambda>s. obind (exchange b s) f) (a # is) (b # os) q"
  using takes_bind[OF takes_exchange] by fastforce

lemma takes_send: "length is = length bs \<Longrightarrow> takes st (spiSendBytes bs) is bs ()"
proof (induction bs arbitrary: "is")
  case (Cons b bs)
  then obtain a as where "is = a # as" "length as = length bs" by (cases "is") auto
  moreover have "spiSendBytes (b # bs) = (\<lambda>s. obind (exchange b s) (\<lambda>_. spiSendBytes bs))" by (rule ext) simp
  ultimately show ?case using takes_step[of st "\<lambda>_. spiSendBytes bs" a as bs "()" b] Cons.IH by simp
qed (simp add: takes_def)

lemma takes_receive: "takes st (spiReceiveBytes (length is)) is (idle (length is)) is"
proof (induction "is")
  case (Cons a as)
  have "spiReceiveBytes (Suc n) = (\<lambda>s. obind (exchange 0xFF s) (\<lambda>a s. obind (spiReceiveBytes n s) (\<lambda>as. Done (a # as))))" for n
    by (rule ext) simp
  moreover have "takes st (\<lambda>s. obind (spiReceiveBytes (length as) s) (\<lambda>as. Done (a # as))) as (idle (length as)) (a # as)"
    using takes_bind[OF Cons takes_Done] by simp
  ultimately show ?case using takes_step by simp
qed (simp add: takes_def)

lemma takes_ignore: "length is = n \<Longrightarrow> takes st (spiIgnoreBytes n) is (idle n) ()"
  using takes_bind[OF takes_receive takes_Done, of st "is" "\<lambda>_. ()"] by (auto simp: spiIgnoreBytes_def[abs_def])

section \<open>Waiting\<close>

lemma wait_long_eq: "wait_long = (\<lambda>s. obind (exchange 0xFF s) (\<lambda>a s'. if a = 0xFF then Done () s' else wait_long s'))"
  by (rule ext, subst wait_long.simps) (simp add: exchange_def split: outcome.split)

lemma takes_wait_long: "0xFF \<notin> set busy \<Longrightarrow> takes st wait_long (busy @ [0xFF]) (idle (Suc (length busy))) ()"
proof (induction busy)
  case Nil
  show ?case unfolding takes_def by (subst wait_long.simps) (auto simp: exchange_def bus_ok_def)
next
  case (Cons a as)
  let ?f = "\<lambda>a s'. if a = 0xFF then Done () s' else wait_long s'"
  have "takes st (?f a) (as @ [0xFF]) (idle (Suc (length as))) ()" using Cons by simp
  from takes_step[of st ?f, OF this] show ?case by (subst wait_long_eq) simp
qed

lemma wait_short_Suc: "wait_short (Suc i) = (\<lambda>s. obind (exchange 0xFF s) (\<lambda>a s. if a = 0xFF then Done True s else wait_short i s))"
  by (rule ext) simp

lemma takes_wait_short:
  "0xFF \<notin> set busy \<Longrightarrow> length busy < i \<Longrightarrow> takes st (wait_short i) (busy @ [0xFF]) (idle (Suc (length busy))) True"
proof (induction i arbitrary: busy)
  case (Suc i)
  let ?f = "\<lambda>a s. if a = 0xFF then Done True s else wait_short i s"
  show ?case
  proof (cases busy)
    case Nil
    then show ?thesis unfolding wait_short_Suc using takes_step[of st ?f "0xFF" "[]" "[]" True "0xFF"] by (simp add: takes_Done)
  next
    case (Cons a as)
    then have "takes st (?f a) (as @ [0xFF]) (idle (Suc (length as))) True" using Suc by simp
    then show ?thesis unfolding wait_short_Suc Cons using takes_step[of st ?f a] by simp
  qed
qed simp

lemma takes_wait_short_out:
  "0xFF \<notin> set busy \<Longrightarrow> length busy = i \<Longrightarrow> takes st (wait_short i) busy (idle i) False"
proof (induction i arbitrary: busy)
  case (Suc i)
  let ?f = "\<lambda>a s. if a = 0xFF then Done True s else wait_short i s"
  obtain a as where "busy = a # as" using Suc.prems by (cases busy) auto
  moreover from this have "takes st (?f a) as (idle i) False" using Suc by simp
  ultimately show ?case unfolding wait_short_Suc using takes_step[of st ?f a] by simp
qed (simp add: takes_def)

lemma takes_wait:
  assumes "0xFF \<notin> set busy"
  shows "takes st mmc_wait (busy @ [0xFF]) (idle (Suc (length busy))) ()"
proof -
  let ?f = "\<lambda>r s. if r then Done () s else wait_long s"
  show ?thesis
  proof (cases "length busy < 16")
    case True
    have "takes st (?f True) [] [] ()" by (simp add: takes_Done)
    from takes_bind[where f = ?f, OF takes_wait_short[OF assms True] this] show ?thesis by (simp add: mmc_wait_def[abs_def])
  next
    case False
    have n: "0xFF \<notin> set (take 16 busy)" "0xFF \<notin> set (drop 16 busy)" using assms by (meson in_set_takeD in_set_dropD)+
    have "takes st (?f False) (drop 16 busy @ [0xFF]) (idle (Suc (length (drop 16 busy)))) ()"
      using takes_wait_long[OF n(2)] by simp
    from takes_bind[where f = ?f, OF takes_wait_short_out[OF n(1), of 16] this] False
    have "takes st mmc_wait (take 16 busy @ drop 16 busy @ [0xFF]) (idle 16 @ idle (Suc (length busy - 16))) ()"
      by (simp add: mmc_wait_def[abs_def])
    moreover have "idle 16 @ idle (Suc (length busy - 16)) = idle (Suc (length busy))"
      unfolding replicate_add[symmetric] using False by simp
    ultimately show ?thesis by (metis append.assoc append_take_drop_id)
  qed
qed

lemma takes_recvr1_loop: "k < i \<Longrightarrow> r \<noteq> 0xFF \<Longrightarrow> takes st (recvr1_loop i) (idle k @ [r]) (idle (Suc k)) r"
proof (induction i arbitrary: k)
  case (Suc i)
  let ?f = "\<lambda>a s. if a \<noteq> 0xFF then Done a s else recvr1_loop i s"
  have e: "recvr1_loop (Suc i) = (\<lambda>s. obind (exchange 0xFF s) ?f)" by (rule ext) simp
  show ?case
  proof (cases k)
    case 0
    then show ?thesis unfolding e using takes_step[of st ?f r "[]" "[]" r "0xFF"] Suc.prems(2) by (simp add: takes_Done)
  next
    case (Suc j)
    then have "takes st (?f 0xFF) (idle j @ [r]) (idle (Suc j)) r" using Suc.IH Suc.prems by simp
    then show ?thesis unfolding e Suc using takes_step[of st ?f "0xFF"] by simp
  qed
qed simp

lemma takes_recvr1: "k \<le> 8 \<Longrightarrow> r \<noteq> 0xFF \<Longrightarrow> takes st recvr1 (idle k @ [r]) (idle (Suc k)) r"
  unfolding recvr1_def[abs_def] by (rule takes_recvr1_loop) simp_all

lemma takes_header:
  assumes "0xFF \<notin> set busy" "length hdr = 6" "command_frame cmd arg = Some frame"
  shows "takes st (send_hdr cmd arg) (busy @ [0xFF] @ hdr) (idle (Suc (length busy)) @ frame) ()"
proof -
  have "length frame = 6" using assms(3) unfolding command_frame_some by auto
  then have "takes st (spiSendBytes frame) hdr frame ()" using takes_send assms(2) by simp
  from takes_bind[where f = "\<lambda>_. spiSendBytes frame", OF takes_wait[OF assms(1)] this] show ?thesis
    by (simp add: send_hdr_def[abs_def] assms(3))
qed

lemma takes_R1:
  assumes "0xFF \<notin> set busy" "length hdr = 6" "command_frame cmd arg = Some frame" "k \<le> 8" "r \<noteq> 0xFF"
  shows "takes st (\<lambda>s. obind (send_hdr cmd arg s) (\<lambda>_. recvr1)) (busy @ [0xFF] @ hdr @ idle k @ [r])
    (idle (Suc (length busy)) @ frame @ idle (Suc k)) r"
  using takes_bind[where f = "\<lambda>_. recvr1", OF takes_header[OF assms(1-3)] takes_recvr1[OF assms(4,5)]] by simp

section \<open>Reading\<close>

text \<open>A block as the card sends it: bytes before its start token, its 512 bytes and two of checksum.\<close>

type_synonym block_answer = "byte list \<times> byte list \<times> byte list"

definition sound_block :: "block_answer \<Rightarrow> bool" where
  "sound_block = (\<lambda>(gap, block, crc). 0xFE \<notin> set gap \<and> length gap < MMC_WAIT_DATA \<and> length block = 512 \<and> length crc = 2)"

definition block_bytes :: "block_answer \<Rightarrow> byte list" where
  "block_bytes = (\<lambda>(gap, block, crc). gap @ [0xFE] @ block @ crc)"

definition block_data :: "block_answer \<Rightarrow> byte list" where
  "block_data = (\<lambda>(gap, block, crc). block)"

lemma takes_block:
  "0xFE \<notin> set gap \<Longrightarrow> length gap < n \<Longrightarrow> length block = 512 \<Longrightarrow> length crc = 2 \<Longrightarrow>
    takes st (sequential_read_loop n buf) (gap @ [0xFE] @ block @ crc) (idle (length gap + 515)) (False, block)"
proof (induction n arbitrary: gap buf)
  case (Suc n)
  let ?f = "\<lambda>a s. if a = 0xFE then obind (spiReceiveBytes 512 s) (\<lambda>buf s. obind (spiIgnoreBytes 2 s) (\<lambda>_. Done (False, buf)))
     else sequential_read_loop n [a] s"
  have e: "sequential_read_loop (Suc n) buf = (\<lambda>s. obind (exchange 0xFF s) ?f)" by (rule ext) simp
  show ?case
  proof (cases gap)
    case Nil
    let ?g = "\<lambda>buf s. obind (spiIgnoreBytes 2 s) (\<lambda>_. Done (False, buf))"
    have "takes st (?g block) crc (idle 2) (False, block)"
      using takes_bind[where f = "\<lambda>_. Done (False, block)", OF takes_ignore[OF Suc.prems(4)] takes_Done] by simp
    from takes_bind[where f = ?g, OF takes_receive this]
    have "takes st (\<lambda>s. obind (spiReceiveBytes 512 s) ?g) (block @ crc) (idle (512 + 2)) (False, block)"
      by (simp only: Suc.prems(3) replicate_add)
    then have "takes st (?f 0xFE) (block @ crc) (idle 514) (False, block)" by simp
    from takes_step[of st ?f, OF this, of "0xFF"] show ?thesis unfolding e Nil
      by (simp only: append_Nil append_Cons list.size replicate_Suc[symmetric]) simp
  next
    case (Cons a as)
    then have "takes st (?f a) (as @ [0xFE] @ block @ crc) (idle (length as + 515)) (False, block)" using Suc by simp
    moreover have "idle (length (a # as) + 515) = 0xFF # idle (length as + 515)" by (metis add_Suc length_Cons replicate_Suc)
    ultimately show ?thesis unfolding e Cons using takes_step[of st ?f a _ _ _ "0xFF"] by (simp only: append_Cons)
  qed
qed simp

lemma takes_sequential_read:
  "sound_block b \<Longrightarrow> takes BLK_READING mmcSequentialRead (block_bytes b) (idle (length (block_bytes b))) (False, block_data b)"
proof -
  assume a: "sound_block b"
  obtain gap block crc where b: "b = (gap, block, crc)" by (cases b)
  have "takes BLK_READING (sequential_read_loop MMC_WAIT_DATA []) (block_bytes b) (idle (length gap + 515)) (False, block_data b)"
    using takes_block a by (simp add: b sound_block_def block_bytes_def block_data_def)
  moreover have "length (block_bytes b) = length gap + 515" using a by (simp add: b sound_block_def block_bytes_def)
  ultimately show ?thesis unfolding takes_def mmcSequentialRead_def by simp
qed

lemma takes_read_loop:
  "\<forall>b \<in> set bl. sound_block b \<Longrightarrow> takes BLK_READING (mmc_read_loop (length bl)) (concat (map block_bytes bl))
     (idle (length (concat (map block_bytes bl)))) (False, concat (map block_data bl))"
proof (induction bl)
  case (Cons b bl)
  let ?g = "\<lambda>d (f, bufs). Done (f, d @ bufs)"
  let ?f = "\<lambda>(f, buf) s. if f then Done (True, buf) s else obind (mmc_read_loop (length bl) s) (?g buf)"
  have e: "mmc_read_loop (length (b # bl)) = (\<lambda>s. obind (mmcSequentialRead s) ?f)" by (rule ext) simp
  have "takes BLK_READING (mmc_read_loop (length bl)) (concat (map block_bytes bl))
     (idle (length (concat (map block_bytes bl)))) (False, concat (map block_data bl))" using Cons by simp
  from takes_bind[where f = "?g (block_data b)" and is' = "[]" and os' = "[]", OF this]
  have "takes BLK_READING (?f (False, block_data b)) (concat (map block_bytes bl)) (idle (length (concat (map block_bytes bl))))
     (False, block_data b @ concat (map block_data bl))" by (simp add: takes_Done)
  from takes_bind[where f = ?f, OF takes_sequential_read this] Cons.prems
  show ?case unfolding e by (simp add: replicate_add)
qed (simp add: takes_def)

text \<open>The command that ends a read, and its answer, which is not looked at.\<close>

definition stop_frame :: "byte list" where
  "stop_frame = [0x40 OR MMCSD_CMD_STOP_TRANSMISSION, 0, 0, 0, 0, 1, 0xFF]"

lemma stop_read:
  assumes "length echo = 7" "j \<le> 8" "r \<noteq> 0xFF"
  shows "takes st (\<lambda>s. obind (spiSendBytes stop_frame s) (\<lambda>_. recvr1)) (echo @ idle j @ [r]) (stop_frame @ idle (Suc j)) r"
  by (rule takes_bind[OF takes_send takes_recvr1[OF assms(2,3)]]) (simp add: stop_frame_def assms(1))

definition read_answer :: "byte list \<Rightarrow> byte list \<Rightarrow> nat \<Rightarrow> block_answer list \<Rightarrow> byte list \<Rightarrow> nat \<Rightarrow> byte \<Rightarrow> byte list" where
  "read_answer busy hdr k bl echo j r =
     busy @ [0xFF] @ hdr @ idle k @ [0x00] @ concat (map block_bytes bl) @ echo @ idle j @ [r]"

definition sound_answer :: "byte list \<Rightarrow> byte list \<Rightarrow> nat \<Rightarrow> block_answer list \<Rightarrow> byte list \<Rightarrow> nat \<Rightarrow> byte \<Rightarrow> bool" where
  "sound_answer busy hdr k bl echo j r \<longleftrightarrow> 0xFF \<notin> set busy \<and> length hdr = 6 \<and> k \<le> 8 \<and> (\<forall>b \<in> set bl. sound_block b) \<and>
     length echo = 7 \<and> j \<le> 8 \<and> r \<noteq> 0xFF"

lemma bus_select_on: "bus_ok s \<Longrightarrow> bus_chip_select on s = Done () (s\<lparr>bus_select := on\<rparr>)"
  by (auto simp: bus_chip_select_def bus_ok_def)

text \<open>The bus is started and the card selected for a transfer.\<close>

definition opened :: "blkstate \<Rightarrow> mmcsys \<Rightarrow> mmcsys" where
  "opened st s = s\<lparr>mm_state := st, bus_config := Some (snd (the (mm_config s))), bus_running := True, bus_select := True\<rparr>"

lemma open_bus:
  assumes "mm_config s \<noteq> None"
  shows "obind (bus_start True (s\<lparr>mm_state := st\<rparr>)) (\<lambda>_ s. obind (bus_chip_select True s) f) = f () (opened st s)"
    "bus_ok (opened st s)"
  using assms by (auto simp: bus_start_def bus_chip_select_def opened_def bus_ok_def)

lemma opened_fields [simp]:
  "mm_state (opened st s) = st" "card_in (opened st s) = card_in s" "bus_out (opened st s) = bus_out s" "bus_select (opened st s)"
  "mm_block_addresses (opened st s) = mm_block_addresses s"
  by (simp_all add: opened_def)

lemma opened_address [simp]: "block_address blk (opened st s) = block_address blk s"
  by (simp add: block_address_def)

lemma read_transfer:
  assumes "mm_config s \<noteq> None" "sound_answer busy hdr k bl echo j r"
    "card_in s = read_answer busy hdr k bl echo j r @ rest"
    "command_frame MMCSD_CMD_READ_MULTIPLE_BLOCK (block_address startblk s) = Some frame"
  shows "mmc_read startblk (length bl) s = Done (False, concat (map block_data bl)) ((opened BLK_READY s)\<lparr>bus_select := False, card_in := rest,
    bus_out := bus_out s @ map (Pair True) (idle (Suc (length busy)) @ frame @ idle (Suc k + length (concat (map block_bytes bl))) @
       stop_frame @ idle (Suc j))\<rparr>)"
proof -
  let ?s = "opened BLK_READING s" and ?c = "concat (map block_bytes bl)"
  let ?R = "\<lambda>s. obind (send_hdr MMCSD_CMD_READ_MULTIPLE_BLOCK (block_address startblk ?s) s) (\<lambda>_. recvr1)"
  let ?E = "\<lambda>s. obind (spiSendBytes stop_frame s) (\<lambda>_. recvr1)"
  note ok = open_bus[OF assms(1)]
  note a = assms(2)[unfolded sound_answer_def]
  let ?o1 = "idle (Suc (length busy)) @ frame @ idle (Suc k)"
  let ?s1 = "?s\<lparr>card_in := ?c @ echo @ idle j @ [r] @ rest, bus_out := bus_out s @ map (Pair True) ?o1\<rparr>"
  have "?R ?s = Done 0 ?s1"
    using takesD[OF takes_R1[of busy hdr MMCSD_CMD_READ_MULTIPLE_BLOCK "block_address startblk ?s" frame k 0 BLK_READING] ok(2),
      where rest = "?c @ echo @ idle j @ [r] @ rest"] a assms(3,4) by (simp add: read_answer_def)
  then have 1: "mmcStartSequentialRead startblk s = Done False ?s1"
    unfolding mmcStartSequentialRead_def ok(1) by (simp add: obind_assoc[symmetric])
  let ?o2 = "?o1 @ idle (length ?c)"
  let ?s2 = "?s\<lparr>card_in := echo @ idle j @ [r] @ rest, bus_out := bus_out s @ map (Pair True) ?o2\<rparr>"
  have 2: "mmc_read_loop (length bl) ?s1 = Done (False, concat (map block_data bl)) ?s2"
    using takesD[OF takes_read_loop[of bl], where s = ?s1] a ok(2) by simp
  let ?o3 = "?o2 @ stop_frame @ idle (Suc j)"
  let ?s3 = "?s\<lparr>card_in := rest, bus_out := bus_out s @ map (Pair True) ?o3\<rparr>"
  have "?E ?s2 = Done r ?s3"
    using takesD[OF stop_read[of echo j r], where s = ?s2 and st = BLK_READING and rest = rest] a ok(2) by simp
  then have 3: "mmcStopSequentialRead ?s2 = Done False (?s3\<lparr>bus_select := False, mm_state := BLK_READY\<rparr>)"
    unfolding mmcStopSequentialRead_def stop_frame_def[symmetric] using ok(2)
    by (simp add: obind_assoc[symmetric] bus_select_on)
  show ?thesis unfolding mmc_read_def using 1 2 3 by (simp add: opened_def replicate_add)
qed

section \<open>Writing\<close>

text \<open>A block that the card accepts: 516 bytes while it is sent, the data response, and a busy period.\<close>

type_synonym block_ack = "byte list \<times> byte \<times> byte list"

definition sound_ack :: "block_ack \<Rightarrow> bool" where
  "sound_ack = (\<lambda>(echo, b, busy). length echo = 516 \<and> b AND 0x1F = 0x05 \<and> 0xFF \<notin> set busy)"

definition ack_bytes :: "block_ack \<Rightarrow> byte list" where
  "ack_bytes = (\<lambda>(echo, b, busy). echo @ [b] @ busy @ [0xFF])"

text \<open>What the host sends for a block: prologue, data, checksum, and idle bytes for the response and the busy period.\<close>

definition sent_block :: "byte list \<Rightarrow> block_ack \<Rightarrow> byte list" where
  "sent_block block = (\<lambda>(echo, b, busy). [0xFF, 0xFC] @ block @ idle (length busy + 4))"

lemma takes_sequential_write:
  assumes "sound_ack a" "512 \<le> length buffer"
  shows "takes BLK_WRITING (mmcSequentialWrite buffer) (ack_bytes a) (sent_block (take 512 buffer) a) False"
proof -
  obtain echo b busy where a: "a = (echo, b, busy)" by (cases a)
  have s: "length echo = 516" "b AND 0x1F = 0x05" "0xFF \<notin> set busy" using assms(1) by (simp_all add: a sound_ack_def)
  let ?x = "take 2 echo" and ?y = "take 512 (drop 2 echo)" and ?z = "drop 514 echo"
  have split: "echo = ?x @ ?y @ ?z" using append_take_drop_id[of 2 echo] append_take_drop_id[of 512 "drop 2 echo"] by simp
  have l: "length ?x = 2" "length ?y = 512" "length ?z = 2" using s(1) by simp_all
  let ?r = "\<lambda>b s. if b AND 0x1F = 0x05 then obind (mmc_wait s) (\<lambda>_. Done False)
      else obind (bus_chip_select False s) (\<lambda>_ s. obind (bus_stop s) (\<lambda>_. Done True))"
  let ?g = "\<lambda>s. obind (exchange 0xFF s) ?r"
  let ?i = "\<lambda>s. obind (spiIgnoreBytes 2 s) (\<lambda>_. ?g)"
  let ?d = "\<lambda>s. obind (spiSendBytes (take 512 buffer) s) (\<lambda>_. ?i)"
  have "takes BLK_WRITING (?r b) (busy @ [0xFF]) (idle (Suc (length busy))) False"
    using takes_bind[where f = "\<lambda>_. Done False" and is' = "[]" and os' = "[]", OF takes_wait[OF s(3)] takes_Done] s(2) by simp
  from takes_step[of _ ?r, OF this, of "0xFF"]
  have "takes BLK_WRITING ?g ([b] @ busy @ [0xFF]) (idle (Suc (Suc (length busy)))) False" by simp
  from takes_bind[where f = "\<lambda>_. ?g", OF takes_ignore[OF l(3)] this]
  have "takes BLK_WRITING ?i (?z @ [b] @ busy @ [0xFF]) (idle 2 @ idle (Suc (Suc (length busy)))) False" .
  from takes_bind[where f = "\<lambda>_. ?i", OF takes_send[of ?y "take 512 buffer"] this]
  have "takes BLK_WRITING ?d (?y @ ?z @ [b] @ busy @ [0xFF]) (take 512 buffer @ idle 2 @ idle (Suc (Suc (length busy)))) False"
    using assms(2) l(2) by (simp add: min_absorb2)
  from takes_bind[where f = "\<lambda>_. ?d", OF takes_send[of ?x "[0xFF, 0xFC]"] this]
  have t: "takes BLK_WRITING (\<lambda>s. obind (spiSendBytes [0xFF, 0xFC] s) (\<lambda>_. ?d)) (?x @ ?y @ ?z @ [b] @ busy @ [0xFF])
    ([0xFF, 0xFC] @ take 512 buffer @ idle 2 @ idle (Suc (Suc (length busy)))) False"
    using l(1) by simp
  have "ack_bytes a = ?x @ ?y @ ?z @ [b] @ busy @ [0xFF]" using split by (simp add: ack_bytes_def a)
  moreover have "sent_block (take 512 buffer) a = [0xFF, 0xFC] @ take 512 buffer @ idle 2 @ idle (Suc (Suc (length busy)))"
    unfolding sent_block_def a prod.case replicate_add[symmetric] by (simp add: eval_nat_numeral)
  moreover have "mmcSequentialWrite buffer s = obind (spiSendBytes [0xFF, 0xFC] s) (\<lambda>_. ?d)" if "mm_state s = BLK_WRITING" for s
    using that assms(2) by (simp add: mmcSequentialWrite_def)
  ultimately show ?thesis using t unfolding takes_def by simp
qed

text \<open>The blocks of a buffer.\<close>

primrec blocks_of :: "nat \<Rightarrow> byte list \<Rightarrow> byte list list" where
  "blocks_of 0 buffer = []"
| "blocks_of (Suc n) buffer = take 512 buffer # blocks_of n (drop 512 buffer)"

lemma concat_blocks: "concat (blocks_of n buffer) = take (512 * n) buffer"
  by (induction n arbitrary: buffer) (simp_all add: take_add)

lemma takes_write_loop:
  "\<forall>a \<in> set al. sound_ack a \<Longrightarrow> 512 * length al \<le> length buffer \<Longrightarrow>
    takes BLK_WRITING (mmc_write_loop (length al) buffer) (concat (map ack_bytes al))
      (concat (map2 sent_block (blocks_of (length al) buffer) al)) False"
proof (induction al arbitrary: buffer)
  case (Cons a al)
  let ?f = "\<lambda>f s. if f then Done True s else mmc_write_loop (length al) (drop 512 buffer) s"
  have e: "mmc_write_loop (length (a # al)) buffer = (\<lambda>s. obind (mmcSequentialWrite buffer s) ?f)" by (rule ext) simp
  have "takes BLK_WRITING (?f False) (concat (map ack_bytes al))
      (concat (map2 sent_block (blocks_of (length al) (drop 512 buffer)) al)) False" using Cons by simp
  from takes_bind[where f = ?f, OF takes_sequential_write this] Cons.prems show ?case unfolding e by simp
qed (simp add: takes_def)

definition write_answer :: "byte list \<Rightarrow> byte list \<Rightarrow> nat \<Rightarrow> block_ack list \<Rightarrow> byte list \<Rightarrow> byte list" where
  "write_answer busy hdr k al echo = busy @ [0xFF] @ hdr @ idle k @ [0x00] @ concat (map ack_bytes al) @ echo"

definition sound_write :: "byte list \<Rightarrow> byte list \<Rightarrow> nat \<Rightarrow> block_ack list \<Rightarrow> byte list \<Rightarrow> bool" where
  "sound_write busy hdr k al echo \<longleftrightarrow> 0xFF \<notin> set busy \<and> length hdr = 6 \<and> k \<le> 8 \<and> (\<forall>a \<in> set al. sound_ack a) \<and> length echo = 2"

lemma write_transfer:
  assumes "mm_config s \<noteq> None" "sound_write busy hdr k al echo" "512 * length al \<le> length buffer"
    "card_in s = write_answer busy hdr k al echo @ rest"
    "command_frame MMCSD_CMD_WRITE_MULTIPLE_BLOCK (block_address startblk s) = Some frame"
  shows "mmc_write startblk buffer (length al) s = Done False ((opened BLK_READY s)\<lparr>bus_select := False, card_in := rest,
    bus_out := bus_out s @ map (Pair True) (idle (Suc (length busy)) @ frame @ idle (Suc k) @
       concat (map2 sent_block (blocks_of (length al) buffer) al) @ [0xFD, 0xFF])\<rparr>)"
proof -
  let ?s = "opened BLK_WRITING s" and ?c = "concat (map ack_bytes al)"
  let ?R = "\<lambda>s. obind (send_hdr MMCSD_CMD_WRITE_MULTIPLE_BLOCK (block_address startblk ?s) s) (\<lambda>_. recvr1)"
  note ok = open_bus[OF assms(1)]
  note a = assms(2)[unfolded sound_write_def]
  let ?o1 = "idle (Suc (length busy)) @ frame @ idle (Suc k)"
  let ?s1 = "?s\<lparr>card_in := ?c @ echo @ rest, bus_out := bus_out s @ map (Pair True) ?o1\<rparr>"
  have "?R ?s = Done 0 ?s1"
    using takesD[OF takes_R1[of busy hdr MMCSD_CMD_WRITE_MULTIPLE_BLOCK "block_address startblk ?s" frame k 0 BLK_WRITING] ok(2),
      where rest = "?c @ echo @ rest"] a assms(4,5) by (simp add: write_answer_def)
  then have 1: "mmcStartSequentialWrite startblk s = Done False ?s1"
    unfolding mmcStartSequentialWrite_def ok(1) by (simp add: obind_assoc[symmetric])
  let ?o2 = "?o1 @ concat (map2 sent_block (blocks_of (length al) buffer) al)"
  let ?s2 = "?s\<lparr>card_in := echo @ rest, bus_out := bus_out s @ map (Pair True) ?o2\<rparr>"
  have 2: "mmc_write_loop (length al) buffer ?s1 = Done False ?s2"
    using takesD[OF takes_write_loop[of al buffer], where s = ?s1] a ok(2) assms(3) by simp
  let ?s3 = "?s\<lparr>card_in := rest, bus_out := bus_out s @ map (Pair True) (?o2 @ [0xFD, 0xFF])\<rparr>"
  have "spiSendBytes [0xFD, 0xFF] ?s2 = Done () ?s3"
    using takesD[OF takes_send[of echo "[0xFD, 0xFF]"], where s = ?s2 and st = BLK_WRITING and rest = rest] a ok(2) by simp
  then have 3: "mmcStopSequentialWrite ?s2 = Done False (?s3\<lparr>bus_select := False, mm_state := BLK_READY\<rparr>)"
    unfolding mmcStopSequentialWrite_def using ok(2) by (simp add: bus_select_on del: spiSendBytes.simps)
  show ?thesis unfolding mmc_write_def using 1 2 3 by (simp add: opened_def)
qed

end
