(* ===== verification/Card_Properties.thy ===== *)
theory Card_Properties
  imports Mmc_Transfer
begin

text \<open>
  The properties of the memory card driver, over the definitions of theories \<open>Mmcsd\<close>, \<open>Mmc_Spi\<close> and
  \<open>Mmc_Transfer\<close>, each with its witness.
\<close>

section \<open>Command frames\<close>

lemma last_byte: "bits_of (push_bit 1 (r AND 0x7F) OR 0x01) = crc_field r @ [True]"
proof -
  have m: "bit (0x7F :: byte) n \<longleftrightarrow> n < 7" for n
    using bit_mask_iff[of 7 n, where 'a = byte] by (auto simp: mask_eq_exp_minus_1)
  have "bit (push_bit 1 (r AND 0x7F) OR 0x01) n \<longleftrightarrow> n = 0 \<or> (0 < n \<and> n < 8 \<and> bit r (n - 1))" for n
    unfolding bit_or_iff bit_push_bit_iff bit_and_iff m by (auto simp: bit_1_iff)
  then show ?thesis by (simp add: bits_of_def crc_field_def)
qed

lemma frame_bits:
  assumes "command_frame cmd arg = Some frame"
  shows "length frame = 6" "bits_of_bytes frame = bits_of_bytes (take 5 frame) @ crc_field (crc_bits 0 (bits_of_bytes (take 5 frame))) @ [True]"
proof -
  let ?b = "[0x40 OR cmd, ucast (drop_bit 24 arg), ucast (drop_bit 16 arg), ucast (drop_bit 8 arg), ucast arg] :: byte list"
  have f: "frame = ?b @ [push_bit 1 (crc_bits 0 (bits_of_bytes ?b) AND 0x7F) OR 0x01]"
    using assms unfolding command_frame_some by (rule option.inject[THEN iffD1, symmetric])
  have t: "take 5 frame = ?b" unfolding f by simp
  show "length frame = 6" unfolding f by simp
  have "bits_of_bytes (xs @ [y]) = bits_of_bytes xs @ bits_of y" for xs y by (simp add: bits_of_bytes_def)
  then show "bits_of_bytes frame = bits_of_bytes (take 5 frame) @ crc_field (crc_bits 0 (bits_of_bytes (take 5 frame))) @ [True]"
    unfolding t by (subst f) (simp only: last_byte)
qed

text \<open>
  C34: the checksum of a command. The table routine computes, for every string of bytes and without ever
  reading behind its table, the remainder of the polynomial division that defines the CRC; the frame of every
  command ends with it, so that the receiver's division of the frame leaves nothing, and any change of the
  frame within seven neighbouring bits leaves something.
\<close>

theorem command_frame_checked:
  assumes "length w \<le> 7" "True \<in> set w" "a + length w + c = 47"
  shows "crc7 0 bs = Some (crc_bits 0 (bits_of_bytes bs)) \<and>
    (\<exists>frame code. command_frame cmd arg = Some frame \<and> length frame = 6 \<and> bits_of_bytes frame = code @ [True] \<and>
       crc_bits 0 code = 0 \<and> crc_bits 0 (map2 (\<noteq>) code (replicate a False @ w @ replicate c False)) \<noteq> 0)"
proof
  show "crc7 0 bs = Some (crc_bits 0 (bits_of_bytes bs))" by (rule crc7_remainder) simp
  obtain frame where f: "command_frame cmd arg = Some frame" using command_frame_some by blast
  let ?m = "bits_of_bytes (take 5 frame)"
  let ?code = "?m @ crc_field (crc_bits 0 ?m)"
  have "length (bits_of_bytes xs) = 8 * length xs" for xs by (induction xs) (simp_all add: bits_of_bytes_def bits_of_def)
  then have l: "length ?code = a + length w + c" using frame_bits(1)[OF f] assms(3) by (simp add: crc_field_def)
  have z: "crc_bits 0 ?code = 0" using crc_field_zero[OF crc_bits_small[of 0 ?m]] by simp
  moreover have "crc_bits 0 (map2 (\<noteq>) ?code (replicate a False @ w @ replicate c False)) \<noteq> 0"
    using burst_seen[OF assms(1,2) l refl, of 0] unfolding z .
  ultimately show "\<exists>frame code. command_frame cmd arg = Some frame \<and> length frame = 6 \<and> bits_of_bytes frame = code @ [True] \<and>
       crc_bits 0 code = 0 \<and> crc_bits 0 (map2 (\<noteq>) code (replicate a False @ w @ replicate c False)) \<noteq> 0"
    using f frame_bits[OF f] by (intro exI[of _ frame] exI[of _ ?code]) simp
qed

theorem command_frame_checked_witness:
  "crc7 0 [0x40, 0, 0, 0, 0] = Some (crc_bits 0 (bits_of_bytes [0x40, 0, 0, 0, 0])) \<and>
   (\<exists>frame code. command_frame MMCSD_CMD_GO_IDLE_STATE 0 = Some frame \<and> length frame = 6 \<and> bits_of_bytes frame = code @ [True] \<and>
       crc_bits 0 code = 0 \<and> crc_bits 0 (map2 (\<noteq>) code (replicate 10 False @ [True, False, True] @ replicate 34 False)) \<noteq> 0)"
  by (rule command_frame_checked) simp_all

section \<open>Connection\<close>




text \<open>A driver that is started, and a card that is to answer.\<close>

definition demo_card :: "byte list \<Rightarrow> mmcsys" where
  "demo_card answers = mmcStart (0, 1) (mmcObjectInit
     \<lparr>mm_state = BLK_UNINIT, mm_config = None, mm_block_addresses = True, mm_csd = replicate 4 0, mm_cid = replicate 4 0, mm_capacity = 0,
      bus_config = None, bus_running = False, bus_select = False, card_in = answers, bus_out = []\<rparr>)"

lemma demo_card_fields [simp]:
  "mm_config (demo_card a) = Some (0, 1)" "mm_block_addresses (demo_card a) = False" "card_in (demo_card a) = a"
  "bus_out (demo_card a) = []"
  by (simp_all add: demo_card_def mmcStart_def mmcObjectInit_def)



section \<open>Transfers\<close>

text \<open>
  C36: reading blocks. With a card that answers as it should (busy bytes before the command, up to eight idle bytes
  before the acceptance, any bytes before the start token of each block within the limit of the waiting loop), the
  read returns exactly the data of the blocks, in order and without tokens and checksums. On the bus the host has put
  the checked frame of the command with the address in the units of the card, idle bytes while the card sends,
  and the stop command, all with the card selected; afterwards the card is released and the driver ready.
\<close>

theorem card_read:
  assumes "mm_config s \<noteq> None" "sound_answer busy hdr k bl echo j r" "card_in s = read_answer busy hdr k bl echo j r @ rest"
  shows "\<exists>frame s'. command_frame MMCSD_CMD_READ_MULTIPLE_BLOCK (if mm_block_addresses s then startblk else startblk * 512) = Some frame \<and>
    mmc_read startblk (length bl) s = Done (False, concat (map block_data bl)) s' \<and>
    mm_state s' = BLK_READY \<and> \<not> bus_select s' \<and> bus_running s' \<and> card_in s' = rest \<and>
    bus_out s' = bus_out s @ map (Pair True) (replicate (Suc (length busy)) 0xFF @ frame @
      replicate (Suc k + length (concat (map block_bytes bl))) 0xFF @ stop_frame @ replicate (Suc j) 0xFF)"
proof -
  obtain frame where f: "command_frame MMCSD_CMD_READ_MULTIPLE_BLOCK (block_address startblk s) = Some frame"
    using command_frame_some by blast
  moreover have "block_address startblk s = (if mm_block_addresses s then startblk else startblk * 512)"
    by (simp add: block_address_def MMCSD_BLOCK_SIZE_def)
  ultimately show ?thesis using read_transfer[OF assms f] by (simp add: opened_def)
qed

definition demo_blocks :: "block_answer list" where
  "demo_blocks = [([0xFF], replicate 512 0x11, [0, 0]), ([], replicate 512 0x22, [0, 0])]"

theorem card_read_witness:
  "\<exists>frame s'. command_frame MMCSD_CMD_READ_MULTIPLE_BLOCK (7 * 512) = Some frame \<and>
    mmc_read 7 2 (demo_card (read_answer [0] (replicate 6 0) 2 demo_blocks (replicate 7 0) 1 0)) =
      Done (False, replicate 512 0x11 @ replicate 512 0x22) s' \<and>
    mm_state s' = BLK_READY \<and> \<not> bus_select s' \<and> bus_running s' \<and> card_in s' = [] \<and>
    bus_out s' = map (Pair True) ([0xFF, 0xFF] @ frame @ replicate 1034 0xFF @ stop_frame @ [0xFF, 0xFF])"
proof -
  let ?s = "demo_card (read_answer [0] (replicate 6 0) 2 demo_blocks (replicate 7 0) 1 0)"
  have l: "length demo_blocks = 2" "concat (map block_data demo_blocks) = replicate 512 0x11 @ replicate 512 0x22"
    "length (concat (map block_bytes demo_blocks)) = 1031"
    by (simp_all add: demo_blocks_def block_data_def block_bytes_def)
  have "sound_answer [0] (replicate 6 0) 2 demo_blocks (replicate 7 0) 1 0"
    by (simp add: sound_answer_def demo_blocks_def sound_block_def MMC_WAIT_DATA_def)
  from card_read[of ?s, OF _ this, of "[]" 7, unfolded l] show ?thesis by simp
qed

text \<open>
  C37: writing blocks. With a card that accepts each block, the write succeeds, and what the card has received is the
  checked frame of the command and the first blocks of the buffer in order, each behind its prologue; the host has
  waited for the end of each busy period before it went on, and at the end has sent the stop token
  and released the card.
\<close>

theorem card_write:
  assumes "mm_config s \<noteq> None" "sound_write busy hdr k al echo" "512 * length al \<le> length buffer"
    "card_in s = write_answer busy hdr k al echo @ rest"
  shows "\<exists>frame s'. command_frame MMCSD_CMD_WRITE_MULTIPLE_BLOCK (if mm_block_addresses s then startblk else startblk * 512) = Some frame \<and>
    mmc_write startblk buffer (length al) s = Done False s' \<and>
    mm_state s' = BLK_READY \<and> \<not> bus_select s' \<and> bus_running s' \<and> card_in s' = rest \<and>
    bus_out s' = bus_out s @ map (Pair True) (replicate (Suc (length busy)) 0xFF @ frame @ replicate (Suc k) 0xFF @
      concat (map2 sent_block (blocks_of (length al) buffer) al) @ [0xFD, 0xFF]) \<and>
    concat (blocks_of (length al) buffer) = take (512 * length al) buffer"
proof -
  obtain frame where f: "command_frame MMCSD_CMD_WRITE_MULTIPLE_BLOCK (block_address startblk s) = Some frame"
    using command_frame_some by blast
  moreover have "block_address startblk s = (if mm_block_addresses s then startblk else startblk * 512)"
    by (simp add: block_address_def MMCSD_BLOCK_SIZE_def)
  ultimately show ?thesis using write_transfer[OF assms f] by (simp add: opened_def concat_blocks)
qed

definition demo_acks :: "block_ack list" where
  "demo_acks = [(replicate 516 0xFF, 0xE5, [0, 0]), (replicate 516 0xFF, 0x05, [])]"

theorem card_write_witness:
  "\<exists>frame s'. command_frame MMCSD_CMD_WRITE_MULTIPLE_BLOCK (7 * 512) = Some frame \<and>
    mmc_write 7 (replicate 1024 0x33) 2 (demo_card (write_answer [] (replicate 6 0) 0 demo_acks [0xFF, 0xFF])) = Done False s' \<and>
    mm_state s' = BLK_READY \<and> \<not> bus_select s' \<and> bus_running s' \<and> card_in s' = [] \<and>
    bus_out s' = map (Pair True) (replicate 1 0xFF @ frame @ replicate 1 0xFF @
      concat (map2 sent_block (blocks_of 2 (replicate 1024 0x33)) demo_acks) @ [0xFD, 0xFF]) \<and>
    concat (blocks_of 2 (replicate 1024 0x33)) = (replicate 1024 0x33 :: byte list)"
proof -
  let ?s = "demo_card (write_answer [] (replicate 6 0) 0 demo_acks [0xFF, 0xFF])"
  have l: "length demo_acks = 2" by (simp add: demo_acks_def)
  have "sound_write [] (replicate 6 0) 0 demo_acks [0xFF, 0xFF]" by (simp add: sound_write_def demo_acks_def sound_ack_def)
  from card_write[of ?s, OF _ this, of "replicate 1024 0x33" "[]" 7] show ?thesis
    by (simp add: l del: blocks_of.simps)
qed

end
