(* ===== verification/Usb.thy ===== *)
theory Usb
  imports Serial
begin

text \<open>
  The USB device driver \<^verbatim>\<open>os/hal/src/usb.c\<close>: the endpoints, the standard requests and the state machine of
  endpoint zero, in the configuration of the OTG controller of this board (\<^verbatim>\<open>OTGv1\<close>: addresses are set early, three
  endpoints beside zero). The low level driver is an interface here: its routines are recorded in the order in
  which they are called, with the fields of the driver that they write; what it reports are the arguments of the
  interrupts. The callbacks of the application are arguments. The fields that only the low level driver reads (buffers of
  setup packets, FIFO sizes, registers) and the callback on start of frame are left out.
\<close>

section \<open>Data\<close>

datatype usbstate = USB_UNINIT | USB_STOP | USB_READY | USB_SELECTED | USB_ACTIVE
datatype usbepstatus = EP_STATUS_DISABLED | EP_STATUS_STALLED | EP_STATUS_ACTIVE
datatype usbep0state = USB_EP0_WAITING_SETUP | USB_EP0_TX | USB_EP0_WAITING_STS | USB_EP0_RX | USB_EP0_SENDING_STS | USB_EP0_ERROR
datatype usbevent = USB_EVENT_RESET | USB_EVENT_ADDRESS | USB_EVENT_CONFIGURED | USB_EVENT_SUSPEND | USB_EVENT_WAKEUP | USB_EVENT_STALLED

text \<open>What a buffer pointer of a transfer points at: constant data, or a field of the drivers.\<close>

datatype usbptr = PNull | PConst "byte list" | PStatus | PConfiguration | PLinecoding | PQueue nat

record usbdescriptor =
  ud_size :: nat
  ud_string :: "byte list"

text \<open>The callbacks of endpoints and of transfers that occur.\<close>

datatype usbepcallback = Ep0_setup | Ep0_in | Ep0_out | Sdu_data_transmitted | Sdu_data_received | Sdu_interrupt_transmitted
datatype usbcallback = Set_address

record usbepconfig =
  ep_mode :: nat
  setup_cb :: "usbepcallback option"
  in_cb :: "usbepcallback option"
  out_cb :: "usbepcallback option"
  in_maxsize :: nat
  out_maxsize :: nat
  in_state :: "nat option"
  out_state :: "nat option"

record usbinstate =
  txqueued :: bool
  txbuf :: usbptr
  txsize :: nat
  txcnt :: nat

record usboutstate =
  rxqueued :: bool
  rxbuf :: usbptr
  rxsize :: nat
  rxcnt :: nat

datatype usblld =
    Lld_init | Lld_start | Lld_stop | Lld_reset | Lld_set_address byte | Lld_init_endpoint nat | Lld_disable_endpoints
  | Lld_prepare_receive nat | Lld_prepare_transmit nat | Lld_start_out nat | Lld_start_in nat
  | Lld_stall_out nat | Lld_stall_in nat | Lld_clear_out nat | Lld_clear_in nat

record usbdrv =
  u_state :: usbstate
  u_config :: bool
  u_param :: "nat option"
  u_transmitting :: "16 word"
  u_receiving :: "16 word"
  u_epc :: "nat \<Rightarrow> usbepconfig option"
  u_ep0state :: usbep0state
  u_ep0next :: usbptr
  u_ep0n :: nat
  u_ep0endcb :: "usbcallback option"
  u_setup :: "byte list"
  u_status :: "16 word"
  u_address :: byte
  u_configuration :: byte
  u_instates :: "nat \<Rightarrow> usbinstate"
  u_outstates :: "nat \<Rightarrow> usboutstate"
  u_setup_buf :: "byte list"
  u_in_status :: "nat \<Rightarrow> usbepstatus"
  u_out_status :: "nat \<Rightarrow> usbepstatus"
  u_lld :: "usblld list"

text \<open>The serial driver of \<open>Usb_Cdc\<close>, which is a parameter of the USB driver.\<close>

datatype sdustate = SDU_UNINIT | SDU_STOP | SDU_READY

record sdudrv =
  sdu_event :: nat
  sdu_state :: sdustate
  sdu_iqueue :: nat
  sdu_oqueue :: nat
  sdu_config :: bool

record usbsys = kernel +
  usbd :: usbdrv
  sdus :: "nat \<Rightarrow> sdudrv"
  linecoding :: "byte list"

type_synonym ('x, 'r) uout = "('x usbsys_scheme, 'r) outcome"

record 'x usbapp =
  event_cb :: "(usbevent \<Rightarrow> 'x usbsys_scheme \<Rightarrow> ('x, unit) uout) option"
  get_descriptor_cb :: "byte \<Rightarrow> byte \<Rightarrow> 16 word \<Rightarrow> usbdescriptor option"
  requests_hook_cb :: "('x usbsys_scheme \<Rightarrow> ('x, bool) uout) option"

definition USB_RTYPE_DIR_MASK :: byte where "USB_RTYPE_DIR_MASK = 0x80"
definition USB_RTYPE_DIR_DEV2HOST :: byte where "USB_RTYPE_DIR_DEV2HOST = 0x80"
definition USB_RTYPE_TYPE_MASK :: byte where "USB_RTYPE_TYPE_MASK = 0x60"
definition USB_RTYPE_TYPE_STD :: byte where "USB_RTYPE_TYPE_STD = 0x00"
definition USB_RTYPE_TYPE_CLASS :: byte where "USB_RTYPE_TYPE_CLASS = 0x20"
definition USB_RTYPE_RECIPIENT_MASK :: byte where "USB_RTYPE_RECIPIENT_MASK = 0x1F"
definition USB_RTYPE_RECIPIENT_DEVICE :: byte where "USB_RTYPE_RECIPIENT_DEVICE = 0"
definition USB_RTYPE_RECIPIENT_INTERFACE :: byte where "USB_RTYPE_RECIPIENT_INTERFACE = 1"
definition USB_RTYPE_RECIPIENT_ENDPOINT :: byte where "USB_RTYPE_RECIPIENT_ENDPOINT = 2"
definition USB_REQ_GET_STATUS :: byte where "USB_REQ_GET_STATUS = 0"
definition USB_REQ_CLEAR_FEATURE :: byte where "USB_REQ_CLEAR_FEATURE = 1"
definition USB_REQ_SET_FEATURE :: byte where "USB_REQ_SET_FEATURE = 3"
definition USB_REQ_SET_ADDRESS :: byte where "USB_REQ_SET_ADDRESS = 5"
definition USB_REQ_GET_DESCRIPTOR :: byte where "USB_REQ_GET_DESCRIPTOR = 6"
definition USB_REQ_GET_CONFIGURATION :: byte where "USB_REQ_GET_CONFIGURATION = 8"
definition USB_REQ_SET_CONFIGURATION :: byte where "USB_REQ_SET_CONFIGURATION = 9"
definition USB_REQ_SYNCH_FRAME :: byte where "USB_REQ_SYNCH_FRAME = 12"
definition USB_FEATURE_ENDPOINT_HALT :: byte where "USB_FEATURE_ENDPOINT_HALT = 0"
definition USB_FEATURE_DEVICE_REMOTE_WAKEUP :: byte where "USB_FEATURE_DEVICE_REMOTE_WAKEUP = 1"
definition USB_MAX_ENDPOINTS :: nat where "USB_MAX_ENDPOINTS = 3"

definition zero_status :: "byte list" where "zero_status = [0, 0]"
definition active_status :: "byte list" where "active_status = [0, 0]"
definition halted_status :: "byte list" where "halted_status = [1, 0]"

definition upd_usb :: "(usbdrv \<Rightarrow> usbdrv) \<Rightarrow> 'x usbsys_scheme \<Rightarrow> 'x usbsys_scheme" where
  "upd_usb f s = s\<lparr>usbd := f (usbd s)\<rparr>"

definition lld :: "usblld \<Rightarrow> 'x usbsys_scheme \<Rightarrow> 'x usbsys_scheme" where
  "lld c = upd_usb (\<lambda>u. u\<lparr>u_lld := u_lld u @ [c]\<rparr>)"

definition usbFetchWord :: "byte \<Rightarrow> byte \<Rightarrow> 16 word" where
  "usbFetchWord p p1 = ucast p OR push_bit 8 (ucast p1)"

definition usbGetTransmitStatusI :: "nat \<Rightarrow> usbdrv \<Rightarrow> bool" where
  "usbGetTransmitStatusI ep u \<longleftrightarrow> u_transmitting u AND push_bit ep 1 \<noteq> 0"

definition usbGetReceiveStatusI :: "nat \<Rightarrow> usbdrv \<Rightarrow> bool" where
  "usbGetReceiveStatusI ep u \<longleftrightarrow> u_receiving u AND push_bit ep 1 \<noteq> 0"

definition usbSetupTransfer :: "usbptr \<Rightarrow> nat \<Rightarrow> usbcallback option \<Rightarrow> 'x usbsys_scheme \<Rightarrow> 'x usbsys_scheme" where
  "usbSetupTransfer buf n endcb = upd_usb (\<lambda>u. u\<lparr>u_ep0next := buf, u_ep0n := n, u_ep0endcb := endcb\<rparr>)"

definition usb_isr_invoke_event_cb :: "'x usbapp \<Rightarrow> usbevent \<Rightarrow> 'x usbsys_scheme \<Rightarrow> ('x, unit) uout" where
  "usb_isr_invoke_event_cb app evt s =
     (if \<not> u_config (usbd s) then Fault else case event_cb app of None \<Rightarrow> Done () s | Some f \<Rightarrow> f evt s)"

section \<open>Endpoints\<close>

definition usbInit :: "'x usbsys_scheme \<Rightarrow> 'x usbsys_scheme" where
  "usbInit = lld Lld_init"

definition usbObjectInit :: "'x usbsys_scheme \<Rightarrow> 'x usbsys_scheme" where
  "usbObjectInit = upd_usb (\<lambda>u. u\<lparr>u_state := USB_STOP, u_config := False, u_param := None, u_transmitting := 0, u_receiving := 0\<rparr>)"

definition usbStart :: "'x usbsys_scheme \<Rightarrow> 'x usbsys_scheme" where
  "usbStart s =
     (let s1 = upd_usb (\<lambda>u. u\<lparr>u_config := True, u_epc := (\<lambda>i. if i \<le> USB_MAX_ENDPOINTS then None else u_epc u i)\<rparr>) s;
          s2 = lld Lld_start s1
      in upd_usb (\<lambda>u. u\<lparr>u_state := USB_READY\<rparr>) s2)"

definition usbStop :: "'x usbsys_scheme \<Rightarrow> 'x usbsys_scheme" where
  "usbStop s = upd_usb (\<lambda>u. u\<lparr>u_state := USB_STOP\<rparr>) (lld Lld_stop s)"

definition usbInitEndpointI :: "nat \<Rightarrow> usbepconfig \<Rightarrow> 'x usbsys_scheme \<Rightarrow> 'x usbsys_scheme" where
  "usbInitEndpointI ep epcp s =
     (let s1 = (case in_state epcp of None \<Rightarrow> s
                | Some i \<Rightarrow> upd_usb (\<lambda>u. u\<lparr>u_instates := (u_instates u)(i := \<lparr>txqueued = False, txbuf = PNull, txsize = 0, txcnt = 0\<rparr>)\<rparr>) s);
          s2 = (case out_state epcp of None \<Rightarrow> s1
                | Some i \<Rightarrow> upd_usb (\<lambda>u. u\<lparr>u_outstates := (u_outstates u)(i := \<lparr>rxqueued = False, rxbuf = PNull, rxsize = 0, rxcnt = 0\<rparr>)\<rparr>) s1);
          s3 = upd_usb (\<lambda>u. u\<lparr>u_epc := (u_epc u)(ep := Some epcp)\<rparr>) s2
      in lld (Lld_init_endpoint ep) s3)"

text \<open>The masks are as in the code: they clear the bit of endpoint zero.\<close>

definition usbDisableEndpointsI :: "'x usbsys_scheme \<Rightarrow> 'x usbsys_scheme" where
  "usbDisableEndpointsI s =
     (let s1 = upd_usb (\<lambda>u. u\<lparr>u_transmitting := u_transmitting u AND NOT 1, u_receiving := u_receiving u AND NOT 1,
            u_epc := (\<lambda>i. if 1 \<le> i \<and> i \<le> USB_MAX_ENDPOINTS then None else u_epc u i)\<rparr>) s
      in lld Lld_disable_endpoints s1)"

text \<open>The endpoint's state object; a missing configuration or object is a null pointer.\<close>

definition prepare_in :: "bool \<Rightarrow> nat \<Rightarrow> usbptr \<Rightarrow> nat \<Rightarrow> 'x usbsys_scheme \<Rightarrow> ('x, unit) uout" where
  "prepare_in queued ep buf n s =
     (case u_epc (usbd s) ep of None \<Rightarrow> Fault | Some c \<Rightarrow>
      case in_state c of None \<Rightarrow> Fault | Some i \<Rightarrow>
        Done () (lld (Lld_prepare_transmit ep)
          (upd_usb (\<lambda>u. u\<lparr>u_instates := (u_instates u)(i := \<lparr>txqueued = queued, txbuf = buf, txsize = n, txcnt = 0\<rparr>)\<rparr>) s)))"

definition prepare_out :: "bool \<Rightarrow> nat \<Rightarrow> usbptr \<Rightarrow> nat \<Rightarrow> 'x usbsys_scheme \<Rightarrow> ('x, unit) uout" where
  "prepare_out queued ep buf n s =
     (case u_epc (usbd s) ep of None \<Rightarrow> Fault | Some c \<Rightarrow>
      case out_state c of None \<Rightarrow> Fault | Some i \<Rightarrow>
        Done () (lld (Lld_prepare_receive ep)
          (upd_usb (\<lambda>u. u\<lparr>u_outstates := (u_outstates u)(i := \<lparr>rxqueued = queued, rxbuf = buf, rxsize = n, rxcnt = 0\<rparr>)\<rparr>) s)))"

definition usbPrepareReceive :: "nat \<Rightarrow> usbptr \<Rightarrow> nat \<Rightarrow> 'x usbsys_scheme \<Rightarrow> ('x, unit) uout" where
  "usbPrepareReceive = prepare_out False"

definition usbPrepareTransmit :: "nat \<Rightarrow> usbptr \<Rightarrow> nat \<Rightarrow> 'x usbsys_scheme \<Rightarrow> ('x, unit) uout" where
  "usbPrepareTransmit = prepare_in False"

definition usbPrepareQueuedReceive :: "nat \<Rightarrow> nat \<Rightarrow> nat \<Rightarrow> 'x usbsys_scheme \<Rightarrow> ('x, unit) uout" where
  "usbPrepareQueuedReceive ep iqp = prepare_out True ep (PQueue iqp)"

definition usbPrepareQueuedTransmit :: "nat \<Rightarrow> nat \<Rightarrow> nat \<Rightarrow> 'x usbsys_scheme \<Rightarrow> ('x, unit) uout" where
  "usbPrepareQueuedTransmit ep oqp = prepare_in True ep (PQueue oqp)"

definition usbStartReceiveI :: "nat \<Rightarrow> 'x usbsys_scheme \<Rightarrow> bool \<times> 'x usbsys_scheme" where
  "usbStartReceiveI ep s =
     (if usbGetReceiveStatusI ep (usbd s) then (True, s)
      else (False, lld (Lld_start_out ep) (upd_usb (\<lambda>u. u\<lparr>u_receiving := u_receiving u OR push_bit ep 1\<rparr>) s)))"

definition usbStartTransmitI :: "nat \<Rightarrow> 'x usbsys_scheme \<Rightarrow> bool \<times> 'x usbsys_scheme" where
  "usbStartTransmitI ep s =
     (if usbGetTransmitStatusI ep (usbd s) then (True, s)
      else (False, lld (Lld_start_in ep) (upd_usb (\<lambda>u. u\<lparr>u_transmitting := u_transmitting u OR push_bit ep 1\<rparr>) s)))"

definition usbStallReceiveI :: "nat \<Rightarrow> 'x usbsys_scheme \<Rightarrow> bool \<times> 'x usbsys_scheme" where
  "usbStallReceiveI ep s = (if usbGetReceiveStatusI ep (usbd s) then (True, s) else (False, lld (Lld_stall_out ep) s))"

definition usbStallTransmitI :: "nat \<Rightarrow> 'x usbsys_scheme \<Rightarrow> bool \<times> 'x usbsys_scheme" where
  "usbStallTransmitI ep s = (if usbGetTransmitStatusI ep (usbd s) then (True, s) else (False, lld (Lld_stall_in ep) s))"

text \<open>The low level reset opens endpoint zero.\<close>

definition ep0config :: usbepconfig where
  "ep0config = \<lparr>ep_mode = 0, setup_cb = Some Ep0_setup, in_cb = Some Ep0_in, out_cb = Some Ep0_out,
     in_maxsize = 0x40, out_maxsize = 0x40, in_state = Some 0, out_state = Some 0\<rparr>"

definition usb_reset :: "'x usbsys_scheme \<Rightarrow> 'x usbsys_scheme" where
  "usb_reset s =
     (let s1 = upd_usb (\<lambda>u. u\<lparr>u_state := USB_READY, u_status := 0, u_address := 0, u_configuration := 0, u_transmitting := 0,
            u_receiving := 0, u_epc := (\<lambda>i. if i \<le> USB_MAX_ENDPOINTS then None else u_epc u i),
            u_ep0state := USB_EP0_WAITING_SETUP\<rparr>) s
      in lld Lld_reset (upd_usb (\<lambda>u. u\<lparr>u_epc := (u_epc u)(0 := Some ep0config)\<rparr>) s1))"

section \<open>Standard requests\<close>

definition set_address :: "'x usbapp \<Rightarrow> 'x usbsys_scheme \<Rightarrow> ('x, unit) uout" where
  "set_address app s =
     (let s1 = upd_usb (\<lambda>u. u\<lparr>u_address := u_setup u ! 2\<rparr>) s;
          s2 = lld (Lld_set_address (u_address (usbd s1))) s1
      in obind (usb_isr_invoke_event_cb app USB_EVENT_ADDRESS s2) (\<lambda>_ s. Done () (upd_usb (\<lambda>u. u\<lparr>u_state := USB_SELECTED\<rparr>) s)))"

definition request_code :: "byte \<Rightarrow> byte \<Rightarrow> 32 word" where
  "request_code rtype req = ucast rtype OR push_bit 8 (ucast req)"

definition send_status :: "usbepstatus \<Rightarrow> 'x usbsys_scheme \<Rightarrow> ('x, bool) uout" where
  "send_status st s =
     (case st of EP_STATUS_STALLED \<Rightarrow> Done True (usbSetupTransfer (PConst halted_status) 2 None s)
      | EP_STATUS_ACTIVE \<Rightarrow> Done True (usbSetupTransfer (PConst active_status) 2 None s)
      | EP_STATUS_DISABLED \<Rightarrow> Done False s)"

definition default_handler :: "'x usbapp \<Rightarrow> 'x usbsys_scheme \<Rightarrow> ('x, bool) uout" where
  "default_handler app s =
     (let setup = u_setup (usbd s);
          req = request_code (setup ! 0 AND (USB_RTYPE_RECIPIENT_MASK OR USB_RTYPE_TYPE_MASK)) (setup ! 1);
          DEVICE = USB_RTYPE_RECIPIENT_DEVICE; INTERFACE = USB_RTYPE_RECIPIENT_INTERFACE; ENDPOINT = USB_RTYPE_RECIPIENT_ENDPOINT;
          ack = usbSetupTransfer PNull 0 None;
          ep = unat (setup ! 4 AND 0x0F)
      in if req = request_code DEVICE USB_REQ_GET_STATUS then Done True (usbSetupTransfer PStatus 2 None s)
         else if req = request_code DEVICE USB_REQ_CLEAR_FEATURE then
           (if setup ! 2 = USB_FEATURE_DEVICE_REMOTE_WAKEUP
            then Done True (ack (upd_usb (\<lambda>u. u\<lparr>u_status := u_status u AND NOT 2\<rparr>) s)) else Done False s)
         else if req = request_code DEVICE USB_REQ_SET_FEATURE then
           (if setup ! 2 = USB_FEATURE_DEVICE_REMOTE_WAKEUP
            then Done True (ack (upd_usb (\<lambda>u. u\<lparr>u_status := u_status u OR 2\<rparr>) s)) else Done False s)
         else if req = request_code DEVICE USB_REQ_SET_ADDRESS then
           obind (if setup ! 0 = USB_RTYPE_RECIPIENT_DEVICE \<and> setup ! 1 = USB_REQ_SET_ADDRESS then set_address app s else Done () s)
             (\<lambda>_ s. Done True (ack s))
         else if req = request_code DEVICE USB_REQ_GET_DESCRIPTOR then
           (case get_descriptor_cb app (setup ! 3) (setup ! 2) (usbFetchWord (setup ! 4) (setup ! 5)) of
              None \<Rightarrow> Done False s
            | Some dp \<Rightarrow> Done True (usbSetupTransfer (PConst (ud_string dp)) (ud_size dp) None s))
         else if req = request_code DEVICE USB_REQ_GET_CONFIGURATION then Done True (usbSetupTransfer PConfiguration 1 None s)
         else if req = request_code DEVICE USB_REQ_SET_CONFIGURATION then
           (let s1 = upd_usb (\<lambda>u. u\<lparr>u_configuration := setup ! 2\<rparr>) s;
                s2 = upd_usb (\<lambda>u. u\<lparr>u_state := (if u_configuration u = 0 then USB_SELECTED else USB_ACTIVE)\<rparr>) s1
            in obind (usb_isr_invoke_event_cb app USB_EVENT_CONFIGURED s2) (\<lambda>_ s. Done True (ack s)))
         else if req = request_code INTERFACE USB_REQ_GET_STATUS \<or> req = request_code ENDPOINT USB_REQ_SYNCH_FRAME then
           Done True (usbSetupTransfer (PConst zero_status) 2 None s)
         else if req = request_code ENDPOINT USB_REQ_GET_STATUS then
           (if setup ! 4 AND 0x80 \<noteq> 0 then send_status (u_in_status (usbd s) ep) s else send_status (u_out_status (usbd s) ep) s)
         else if req = request_code ENDPOINT USB_REQ_CLEAR_FEATURE then
           (if setup ! 2 \<noteq> USB_FEATURE_ENDPOINT_HALT then Done False s
            else Done True (ack (if 0 < ep then lld (if setup ! 4 AND 0x80 \<noteq> 0 then Lld_clear_in ep else Lld_clear_out ep) s else s)))
         else if req = request_code ENDPOINT USB_REQ_SET_FEATURE then
           (if setup ! 2 \<noteq> USB_FEATURE_ENDPOINT_HALT then Done False s
            else Done True (ack (if 0 < ep then lld (if setup ! 4 AND 0x80 \<noteq> 0 then Lld_stall_in ep else Lld_stall_out ep) s else s)))
         else Done False s)"

section \<open>Endpoint zero\<close>

definition ep0_error :: "'x usbapp \<Rightarrow> 'x usbsys_scheme \<Rightarrow> ('x, unit) uout" where
  "ep0_error app s =
     obind (usb_isr_invoke_event_cb app USB_EVENT_STALLED (lld (Lld_stall_out 0) (lld (Lld_stall_in 0) s)))
       (\<lambda>_ s. Done () (upd_usb (\<lambda>u. u\<lparr>u_ep0state := USB_EP0_ERROR\<rparr>) s))"

definition set_ep0state :: "usbep0state \<Rightarrow> 'x usbsys_scheme \<Rightarrow> 'x usbsys_scheme" where
  "set_ep0state st = upd_usb (\<lambda>u. u\<lparr>u_ep0state := st\<rparr>)"

definition ep0_transmit :: "usbptr \<Rightarrow> nat \<Rightarrow> 'x usbsys_scheme \<Rightarrow> ('x, unit) uout" where
  "ep0_transmit buf n s = obind (usbPrepareTransmit 0 buf n s) (\<lambda>_ s. Done () (snd (usbStartTransmitI 0 s)))"

definition ep0_receive :: "usbptr \<Rightarrow> nat \<Rightarrow> 'x usbsys_scheme \<Rightarrow> ('x, unit) uout" where
  "ep0_receive buf n s = obind (usbPrepareReceive 0 buf n s) (\<lambda>_ s. Done () (snd (usbStartReceiveI 0 s)))"

definition request_handler :: "'x usbapp \<Rightarrow> 'x usbsys_scheme \<Rightarrow> ('x, bool) uout" where
  "request_handler app s =
     obind (case requests_hook_cb app of None \<Rightarrow> Done False s | Some h \<Rightarrow> h s) (\<lambda>r s.
     if r then Done True s
     else if u_setup (usbd s) ! 0 AND USB_RTYPE_TYPE_MASK \<noteq> USB_RTYPE_TYPE_STD then Done False s
     else default_handler app s)"

definition ep0_start :: "'x usbsys_scheme \<Rightarrow> ('x, unit) uout" where
  "ep0_start s =
     (let max = unat (usbFetchWord (u_setup (usbd s) ! 6) (u_setup (usbd s) ! 7));
          s1 = (if u_ep0n (usbd s) > max then upd_usb (\<lambda>u. u\<lparr>u_ep0n := max\<rparr>) s else s);
          n = u_ep0n (usbd s1); buf = u_ep0next (usbd s1)
      in if u_setup (usbd s) ! 0 AND USB_RTYPE_DIR_MASK = USB_RTYPE_DIR_DEV2HOST then
           (if 0 < n then ep0_transmit buf n (set_ep0state USB_EP0_TX s1)
            else ep0_receive PNull 0 (set_ep0state USB_EP0_WAITING_STS s1))
         else
           (if 0 < n then ep0_receive buf n (set_ep0state USB_EP0_RX s1)
            else ep0_transmit PNull 0 (set_ep0state USB_EP0_SENDING_STS s1)))"

definition usb_ep0setup :: "'x usbapp \<Rightarrow> 'x usbsys_scheme \<Rightarrow> ('x, unit) uout" where
  "usb_ep0setup app s =
     (let s1 = set_ep0state USB_EP0_WAITING_SETUP s;
          s2 = upd_usb (\<lambda>u. u\<lparr>u_setup := u_setup_buf u\<rparr>) s1
      in if \<not> u_config (usbd s) then Fault
         else obind (request_handler app s2) (\<lambda>r s. if r then ep0_start s else ep0_error app s))"

definition ep0_endcb :: "'x usbapp \<Rightarrow> 'x usbsys_scheme \<Rightarrow> ('x, unit) uout" where
  "ep0_endcb app s =
     obind (case u_ep0endcb (usbd s) of None \<Rightarrow> Done () s | Some Set_address \<Rightarrow> set_address app s)
       (\<lambda>_ s. Done () (set_ep0state USB_EP0_WAITING_SETUP s))"

definition usb_ep0in :: "'x usbapp \<Rightarrow> 'x usbsys_scheme \<Rightarrow> ('x, unit) uout" where
  "usb_ep0in app s =
     (case u_ep0state (usbd s) of
        USB_EP0_TX \<Rightarrow>
          (let max = unat (usbFetchWord (u_setup (usbd s) ! 6) (u_setup (usbd s) ! 7)) in
           case u_epc (usbd s) 0 of None \<Rightarrow> Fault | Some c \<Rightarrow>
           if u_ep0n (usbd s) < max \<and> in_maxsize c = 0 then Fault
           else if u_ep0n (usbd s) < max \<and> u_ep0n (usbd s) mod in_maxsize c = 0 then ep0_transmit PNull 0 s
           else ep0_receive PNull 0 (set_ep0state USB_EP0_WAITING_STS s))
      | USB_EP0_SENDING_STS \<Rightarrow> ep0_endcb app s
      | _ \<Rightarrow> ep0_error app s)"

definition usb_ep0out :: "'x usbapp \<Rightarrow> 'x usbsys_scheme \<Rightarrow> ('x, unit) uout" where
  "usb_ep0out app s =
     (case u_ep0state (usbd s) of
        USB_EP0_RX \<Rightarrow> ep0_transmit PNull 0 (set_ep0state USB_EP0_SENDING_STS s)
      | USB_EP0_WAITING_STS \<Rightarrow>
          (case u_epc (usbd s) 0 of None \<Rightarrow> Fault | Some c \<Rightarrow>
           case out_state c of None \<Rightarrow> Fault | Some i \<Rightarrow>
           if rxcnt (u_outstates (usbd s) i) \<noteq> 0 then ep0_error app s else ep0_endcb app s)
      | _ \<Rightarrow> ep0_error app s)"

end
