(* ===== verification/Usb_Cdc.thy ===== *)
theory Usb_Cdc
  imports Usb
begin

text \<open>
  The serial port over USB, \<^verbatim>\<open>os/hal/src/serial_usb.c\<close>: its channel methods, the notifications of its queues and the
  callbacks of its endpoints. A null parameter or endpoint is a fault; what the callbacks do between the lock's
  opening and closing in an interrupt is done at once.
\<close>

section \<open>The serial driver\<close>

definition CDC_SET_LINE_CODING :: byte where "CDC_SET_LINE_CODING = 0x20"
definition CDC_GET_LINE_CODING :: byte where "CDC_GET_LINE_CODING = 0x21"
definition CDC_SET_CONTROL_LINE_STATE :: byte where "CDC_SET_CONTROL_LINE_STATE = 0x22"
definition USB_CDC_DATA_REQUEST_EP :: nat where "USB_CDC_DATA_REQUEST_EP = 1"
definition USB_CDC_DATA_AVAILABLE_EP :: nat where "USB_CDC_DATA_AVAILABLE_EP = 1"
definition USB_CDC_INTERRUPT_REQUEST_EP :: nat where "USB_CDC_INTERRUPT_REQUEST_EP = 2"
definition CHN_CONNECTED :: flagsmask where "CHN_CONNECTED = 1"
definition LC_STOP_1 :: byte where "LC_STOP_1 = 0"
definition LC_PARITY_NONE :: byte where "LC_PARITY_NONE = 0"

definition linecoding_default :: "byte list" where
  "linecoding_default = [0x00, 0x96, 0x00, 0x00, LC_STOP_1, LC_PARITY_NONE, 8]"

definition sdu_flags :: "nat \<Rightarrow> flagsmask \<Rightarrow> 'x usbsys_scheme \<Rightarrow> ('x, unit) uout" where
  "sdu_flags sdup flags s = chEvtBroadcastFlagsI (sdu_event (sdus s sdup)) flags s"

definition out_maxsize_of :: "nat \<Rightarrow> 'x usbsys_scheme \<Rightarrow> nat option" where
  "out_maxsize_of ep s = map_option out_maxsize (u_epc (usbd s) ep)"

definition sdu_inotify :: "nat \<Rightarrow> 'x usbsys_scheme \<Rightarrow> ('x, unit) uout" where
  "sdu_inotify sdup s =
     (if \<not> sdu_config (sdus s sdup) then Fault
      else if u_state (usbd s) \<noteq> USB_ACTIVE then Done () s
      else case out_maxsize_of USB_CDC_DATA_AVAILABLE_EP s of None \<Rightarrow> Fault | Some maxsize \<Rightarrow>
        let q = sdu_iqueue (sdus s sdup); n = chIQGetEmptyI (gqs s q) in
        if \<not> usbGetReceiveStatusI USB_CDC_DATA_AVAILABLE_EP (usbd s) \<and> n \<ge> maxsize then
          Window s (\<lambda>s. if maxsize = 0 then Fault else
            obind (usbPrepareQueuedReceive USB_CDC_DATA_AVAILABLE_EP q (n div maxsize * maxsize) s) (\<lambda>_ s.
            Window s (\<lambda>s. Done () (snd (usbStartReceiveI USB_CDC_DATA_AVAILABLE_EP s)))))
        else Done () s)"

definition sdu_onotify :: "nat \<Rightarrow> 'x usbsys_scheme \<Rightarrow> ('x, unit) uout" where
  "sdu_onotify sdup s =
     (if \<not> sdu_config (sdus s sdup) then Fault
      else if u_state (usbd s) \<noteq> USB_ACTIVE then Done () s
      else let q = sdu_oqueue (sdus s sdup); n = chOQGetFullI (gqs s q) in
        if \<not> usbGetTransmitStatusI USB_CDC_DATA_REQUEST_EP (usbd s) \<and> n > 0 then
          Window s (\<lambda>s. obind (usbPrepareQueuedTransmit USB_CDC_DATA_REQUEST_EP q n s) (\<lambda>_ s.
            Window s (\<lambda>s. Done () (snd (usbStartTransmitI USB_CDC_DATA_REQUEST_EP s)))))
        else Done () s)"

definition sdu_write :: "nat \<Rightarrow> nat \<Rightarrow> byte list \<Rightarrow> 'x usbsys_scheme \<Rightarrow> ('x, nat) uout" where
  "sdu_write fuel sdup bs s = chOQWriteTimeout (\<lambda>_. sdu_onotify sdup) fuel (sdu_oqueue (sdus s sdup)) bs TIME_INFINITE s"

definition sdu_read :: "nat \<Rightarrow> nat \<Rightarrow> nat \<Rightarrow> 'x usbsys_scheme \<Rightarrow> ('x, byte list) uout" where
  "sdu_read fuel sdup n s = chIQReadTimeout (\<lambda>_. sdu_inotify sdup) fuel (sdu_iqueue (sdus s sdup)) n TIME_INFINITE s"

definition sdu_put :: "nat \<Rightarrow> nat \<Rightarrow> byte \<Rightarrow> 'x usbsys_scheme \<Rightarrow> ('x, msg) uout" where
  "sdu_put fuel sdup b s = chOQPutTimeout (\<lambda>_. sdu_onotify sdup) fuel (sdu_oqueue (sdus s sdup)) b TIME_INFINITE s"

definition sdu_get :: "nat \<Rightarrow> nat \<Rightarrow> 'x usbsys_scheme \<Rightarrow> ('x, msg) uout" where
  "sdu_get fuel sdup s = chIQGetTimeout (\<lambda>_. sdu_inotify sdup) fuel (sdu_iqueue (sdus s sdup)) TIME_INFINITE s"

definition sdu_putt :: "nat \<Rightarrow> nat \<Rightarrow> byte \<Rightarrow> systime \<Rightarrow> 'x usbsys_scheme \<Rightarrow> ('x, msg) uout" where
  "sdu_putt fuel sdup b timeout s = chOQPutTimeout (\<lambda>_. sdu_onotify sdup) fuel (sdu_oqueue (sdus s sdup)) b timeout s"

definition sdu_gett :: "nat \<Rightarrow> nat \<Rightarrow> systime \<Rightarrow> 'x usbsys_scheme \<Rightarrow> ('x, msg) uout" where
  "sdu_gett fuel sdup timeout s = chIQGetTimeout (\<lambda>_. sdu_inotify sdup) fuel (sdu_iqueue (sdus s sdup)) timeout s"

definition sdu_writet :: "nat \<Rightarrow> nat \<Rightarrow> byte list \<Rightarrow> systime \<Rightarrow> 'x usbsys_scheme \<Rightarrow> ('x, nat) uout" where
  "sdu_writet fuel sdup bs time s = chOQWriteTimeout (\<lambda>_. sdu_onotify sdup) fuel (sdu_oqueue (sdus s sdup)) bs time s"

definition sdu_readt :: "nat \<Rightarrow> nat \<Rightarrow> nat \<Rightarrow> systime \<Rightarrow> 'x usbsys_scheme \<Rightarrow> ('x, byte list) uout" where
  "sdu_readt fuel sdup n time s = chIQReadTimeout (\<lambda>_. sdu_inotify sdup) fuel (sdu_iqueue (sdus s sdup)) n time s"

definition upd_sdu :: "nat \<Rightarrow> (sdudrv \<Rightarrow> sdudrv) \<Rightarrow> 'x usbsys_scheme \<Rightarrow> 'x usbsys_scheme" where
  "upd_sdu sdup f s = s\<lparr>sdus := (sdus s)(sdup := f (sdus s sdup))\<rparr>"

text \<open>The two buffers have the size \<open>SERIAL_USB_BUFFERS_SIZE\<close>.\<close>

definition sduObjectInit :: "nat \<Rightarrow> byte list \<Rightarrow> byte list \<Rightarrow> 'x usbsys_scheme \<Rightarrow> 'x usbsys_scheme" where
  "sduObjectInit sdup ib ob s =
     (let s1 = chEvtInit (sdu_event (sdus s sdup)) s;
          s2 = upd_sdu sdup (\<lambda>d. d\<lparr>sdu_state := SDU_STOP\<rparr>) s1;
          s3 = chIQInit (sdu_iqueue (sdus s2 sdup)) ib True s2
      in chOQInit (sdu_oqueue (sdus s3 sdup)) ob True s3)"

definition sduStart :: "nat \<Rightarrow> 'x usbsys_scheme \<Rightarrow> 'x usbsys_scheme" where
  "sduStart sdup s =
     (let s1 = upd_sdu sdup (\<lambda>d. d\<lparr>sdu_config := True\<rparr>) s;
          s2 = upd_usb (\<lambda>u. u\<lparr>u_param := Some sdup\<rparr>) s1
      in upd_sdu sdup (\<lambda>d. d\<lparr>sdu_state := SDU_READY\<rparr>) s2)"

definition sduStop :: "nat \<Rightarrow> 'x usbsys_scheme \<Rightarrow> 'x usbsys_scheme" where
  "sduStop sdup = upd_sdu sdup (\<lambda>d. d\<lparr>sdu_state := SDU_STOP\<rparr>)"

definition sduConfigureHookI :: "'x usbsys_scheme \<Rightarrow> ('x, unit) uout" where
  "sduConfigureHookI s =
     (case u_param (usbd s) of None \<Rightarrow> Fault | Some sdup \<Rightarrow>
      obind (chIQResetI (sdu_iqueue (sdus s sdup)) s) (\<lambda>_ s.
      obind (chOQResetI (sdu_oqueue (sdus s sdup)) s) (\<lambda>_ s.
      obind (sdu_flags sdup CHN_CONNECTED s) (\<lambda>_ s.
      case out_maxsize_of USB_CDC_DATA_AVAILABLE_EP s of None \<Rightarrow> Fault | Some maxsize \<Rightarrow>
      obind (usbPrepareQueuedReceive USB_CDC_DATA_AVAILABLE_EP (sdu_iqueue (sdus s sdup)) maxsize s) (\<lambda>_ s.
      Done () (snd (usbStartReceiveI USB_CDC_DATA_AVAILABLE_EP s)))))))"

definition sduRequestsHook :: "'x usbsys_scheme \<Rightarrow> ('x, bool) uout" where
  "sduRequestsHook s =
     (let setup = u_setup (usbd s) in
      if setup ! 0 AND USB_RTYPE_TYPE_MASK = USB_RTYPE_TYPE_CLASS then
        (if setup ! 1 = CDC_GET_LINE_CODING then Done True (usbSetupTransfer PLinecoding 7 None s)
         else if setup ! 1 = CDC_SET_LINE_CODING then Done True (usbSetupTransfer PLinecoding 7 None s)
         else if setup ! 1 = CDC_SET_CONTROL_LINE_STATE then Done True (usbSetupTransfer PNull 0 None s)
         else Done False s)
      else Done False s)"

definition sduDataTransmitted :: "nat \<Rightarrow> 'x usbsys_scheme \<Rightarrow> ('x, unit) uout" where
  "sduDataTransmitted ep s =
     (case u_param (usbd s) of None \<Rightarrow> Fault | Some sdup \<Rightarrow>
      obind (sdu_flags sdup CHN_OUTPUT_EMPTY s) (\<lambda>_ s.
      let q = sdu_oqueue (sdus s sdup); n = chOQGetFullI (gqs s q) in
      if n > 0 then
        obind (usbPrepareQueuedTransmit ep q n s) (\<lambda>_ s. Done () (snd (usbStartTransmitI ep s)))
      else case u_epc (usbd s) ep of None \<Rightarrow> Fault | Some c \<Rightarrow>
        case in_state c of None \<Rightarrow> Fault | Some i \<Rightarrow>
        if in_maxsize c = 0 then (if txsize (u_instates (usbd s) i) = 0
            then obind (usbPrepareQueuedTransmit ep q 0 s) (\<lambda>_ s. Done () (snd (usbStartTransmitI ep s))) else Done () s)
        else if txsize (u_instates (usbd s) i) AND (in_maxsize c - 1) = 0 then
          obind (usbPrepareQueuedTransmit ep q 0 s) (\<lambda>_ s. Done () (snd (usbStartTransmitI ep s)))
        else Done () s))"

definition sduDataReceived :: "nat \<Rightarrow> 'x usbsys_scheme \<Rightarrow> ('x, unit) uout" where
  "sduDataReceived ep s =
     (case u_param (usbd s) of None \<Rightarrow> Fault | Some sdup \<Rightarrow>
      obind (sdu_flags sdup CHN_INPUT_AVAILABLE s) (\<lambda>_ s.
      case out_maxsize_of USB_CDC_DATA_AVAILABLE_EP s of None \<Rightarrow> Fault | Some maxsize \<Rightarrow>
      let q = sdu_iqueue (sdus s sdup); n = chIQGetEmptyI (gqs s q) in
      if n \<ge> maxsize then
        (if maxsize = 0 then Fault
         else obind (usbPrepareQueuedReceive ep q (n div maxsize * maxsize) s) (\<lambda>_ s. Done () (snd (usbStartReceiveI ep s))))
      else Done () s))"

definition sduInterruptTransmitted :: "nat \<Rightarrow> 'x usbsys_scheme \<Rightarrow> ('x, unit) uout" where
  "sduInterruptTransmitted ep s = Done () s"

end
