(* ===== verification/Usb_Cfg.thy ===== *)
theory Usb_Cfg
  imports Usb_Cdc
begin

text \<open>
  The device of \<^verbatim>\<open>serv_usbcfg.c\<close>: its descriptors, built with the macros of \<^verbatim>\<open>os/hal/include/usb.h\<close>, its endpoints
  and callbacks, and the interrupts of the low level driver, which call them.
\<close>

section \<open>Descriptors\<close>

definition USB_DESCRIPTOR_DEVICE :: byte where "USB_DESCRIPTOR_DEVICE = 1"
definition USB_DESCRIPTOR_CONFIGURATION :: byte where "USB_DESCRIPTOR_CONFIGURATION = 2"
definition USB_DESCRIPTOR_STRING :: byte where "USB_DESCRIPTOR_STRING = 3"
definition USB_DESCRIPTOR_INTERFACE :: byte where "USB_DESCRIPTOR_INTERFACE = 4"
definition USB_DESCRIPTOR_ENDPOINT :: byte where "USB_DESCRIPTOR_ENDPOINT = 5"

definition USB_DESC_WORD :: "16 word \<Rightarrow> byte list" where
  "USB_DESC_WORD w = [ucast (w AND 255), ucast (drop_bit 8 w AND 255)]"

definition USB_DESC_DEVICE :: "16 word \<Rightarrow> byte \<Rightarrow> byte \<Rightarrow> byte \<Rightarrow> byte \<Rightarrow> 16 word \<Rightarrow> 16 word \<Rightarrow> 16 word \<Rightarrow> byte \<Rightarrow> byte \<Rightarrow> byte \<Rightarrow>
    byte \<Rightarrow> byte list" where
  "USB_DESC_DEVICE bcdUSB cls sub prot maxpkt vid pid bcdDevice man product serial confs =
     [18, USB_DESCRIPTOR_DEVICE] @ USB_DESC_WORD bcdUSB @ [cls, sub, prot, maxpkt] @ USB_DESC_WORD vid @ USB_DESC_WORD pid @
     USB_DESC_WORD bcdDevice @ [man, product, serial, confs]"

definition USB_DESC_CONFIGURATION :: "16 word \<Rightarrow> byte \<Rightarrow> byte \<Rightarrow> byte \<Rightarrow> byte \<Rightarrow> byte \<Rightarrow> byte list" where
  "USB_DESC_CONFIGURATION tot ifs val i attrs pw =
     [9, USB_DESCRIPTOR_CONFIGURATION] @ USB_DESC_WORD tot @ [ifs, val, i, attrs, pw]"

definition USB_DESC_INTERFACE :: "byte \<Rightarrow> byte \<Rightarrow> byte \<Rightarrow> byte \<Rightarrow> byte \<Rightarrow> byte \<Rightarrow> byte \<Rightarrow> byte list" where
  "USB_DESC_INTERFACE num alt eps cls sub prot i = [9, USB_DESCRIPTOR_INTERFACE, num, alt, eps, cls, sub, prot, i]"

definition USB_DESC_ENDPOINT :: "byte \<Rightarrow> byte \<Rightarrow> 16 word \<Rightarrow> byte \<Rightarrow> byte list" where
  "USB_DESC_ENDPOINT addr attrs maxsize interval =
     [7, USB_DESCRIPTOR_ENDPOINT, addr, attrs] @ USB_DESC_WORD maxsize @ [interval]"

definition vcom_device_descriptor_data :: "byte list" where
  "vcom_device_descriptor_data = USB_DESC_DEVICE 0x0110 0x02 0x00 0x00 0x40 0x0483 0x5740 0x0200 1 2 3 1"

definition vcom_device_descriptor :: usbdescriptor where
  "vcom_device_descriptor = \<lparr>ud_size = length vcom_device_descriptor_data, ud_string = vcom_device_descriptor_data\<rparr>"

definition vcom_configuration_descriptor_data :: "byte list" where
  "vcom_configuration_descriptor_data =
     USB_DESC_CONFIGURATION 67 0x02 0x01 0 0xC0 50 @
     USB_DESC_INTERFACE 0x00 0x00 0x01 0x02 0x02 0x01 0 @
     [5, 0x24, 0x00] @ USB_DESC_WORD 0x0110 @
     [5, 0x24, 0x01, 0x00, 0x01] @
     [4, 0x24, 0x02, 0x02] @
     [5, 0x24, 0x06, 0x00, 0x01] @
     USB_DESC_ENDPOINT (of_nat USB_CDC_INTERRUPT_REQUEST_EP OR 0x80) 0x03 0x0008 0xFF @
     USB_DESC_INTERFACE 0x01 0x00 0x02 0x0A 0x00 0x00 0x00 @
     USB_DESC_ENDPOINT (of_nat USB_CDC_DATA_AVAILABLE_EP) 0x02 0x0040 0x00 @
     USB_DESC_ENDPOINT (of_nat USB_CDC_DATA_REQUEST_EP OR 0x80) 0x02 0x0040 0x00"

definition vcom_configuration_descriptor :: usbdescriptor where
  "vcom_configuration_descriptor =
     \<lparr>ud_size = length vcom_configuration_descriptor_data, ud_string = vcom_configuration_descriptor_data\<rparr>"

definition CH_KERNEL_MAJOR :: byte where "CH_KERNEL_MAJOR = 2"
definition CH_KERNEL_MINOR :: byte where "CH_KERNEL_MINOR = 5"
definition CH_KERNEL_PATCH :: byte where "CH_KERNEL_PATCH = 2"

definition vcom_string0 :: "byte list" where
  "vcom_string0 = [4, USB_DESCRIPTOR_STRING] @ USB_DESC_WORD 0x0409"

definition vcom_string1 :: "byte list" where
  "vcom_string1 = [38, USB_DESCRIPTOR_STRING, 0x53, 0, 0x54, 0, 0x4d, 0, 0x69, 0, 0x63, 0, 0x72, 0, 0x6f, 0, 0x65, 0,
     0x6c, 0, 0x65, 0, 0x63, 0, 0x74, 0, 0x72, 0, 0x6f, 0, 0x6e, 0, 0x69, 0, 0x63, 0, 0x73, 0]"

definition vcom_string2 :: "byte list" where
  "vcom_string2 = [56, USB_DESCRIPTOR_STRING, 0x43, 0, 0x68, 0, 0x69, 0, 0x62, 0, 0x69, 0, 0x4f, 0, 0x53, 0, 0x2f, 0,
     0x52, 0, 0x54, 0, 0x20, 0, 0x56, 0, 0x69, 0, 0x72, 0, 0x74, 0, 0x75, 0, 0x61, 0, 0x6c, 0, 0x20, 0, 0x43, 0, 0x4f,
     0, 0x4d, 0, 0x20, 0, 0x50, 0, 0x6f, 0, 0x72, 0, 0x74, 0]"

definition vcom_string3 :: "byte list" where
  "vcom_string3 = [8, USB_DESCRIPTOR_STRING, 0x30 + CH_KERNEL_MAJOR, 0, 0x30 + CH_KERNEL_MINOR, 0, 0x30 + CH_KERNEL_PATCH, 0]"

definition vcom_strings :: "usbdescriptor list" where
  "vcom_strings = map (\<lambda>d. \<lparr>ud_size = length d, ud_string = d\<rparr>) [vcom_string0, vcom_string1, vcom_string2, vcom_string3]"

definition get_descriptor :: "byte \<Rightarrow> byte \<Rightarrow> 16 word \<Rightarrow> usbdescriptor option" where
  "get_descriptor dtype dindex lang =
     (if dtype = USB_DESCRIPTOR_DEVICE then Some vcom_device_descriptor
      else if dtype = USB_DESCRIPTOR_CONFIGURATION then Some vcom_configuration_descriptor
      else if dtype = USB_DESCRIPTOR_STRING \<and> dindex < 4 then Some (vcom_strings ! unat dindex)
      else None)"

section \<open>Endpoints and callbacks\<close>

definition ep1config :: usbepconfig where
  "ep1config = \<lparr>ep_mode = 2, setup_cb = None, in_cb = Some Sdu_data_transmitted, out_cb = Some Sdu_data_received,
     in_maxsize = 0x40, out_maxsize = 0x40, in_state = Some 1, out_state = Some 1\<rparr>"

definition ep2config :: usbepconfig where
  "ep2config = \<lparr>ep_mode = 3, setup_cb = None, in_cb = Some Sdu_interrupt_transmitted, out_cb = None,
     in_maxsize = 0x10, out_maxsize = 0, in_state = Some 2, out_state = None\<rparr>"

definition usb_event :: "usbevent \<Rightarrow> 'x usbsys_scheme \<Rightarrow> ('x, unit) uout" where
  "usb_event event s =
     (case event of
        USB_EVENT_CONFIGURED \<Rightarrow>
          (let s1 = usbInitEndpointI USB_CDC_DATA_REQUEST_EP ep1config s;
               s2 = usbInitEndpointI USB_CDC_INTERRUPT_REQUEST_EP ep2config s1
           in sduConfigureHookI s2)
      | _ \<Rightarrow> Done () s)"

definition usbcfg :: "'x usbapp" where
  "usbcfg = \<lparr>event_cb = Some usb_event, get_descriptor_cb = get_descriptor, requests_hook_cb = Some sduRequestsHook\<rparr>"

section \<open>Interrupts\<close>

definition call_ep :: "usbepcallback option \<Rightarrow> nat \<Rightarrow> 'x usbsys_scheme \<Rightarrow> ('x, unit) uout" where
  "call_ep cb ep s =
     (case cb of None \<Rightarrow> Fault
      | Some Ep0_setup \<Rightarrow> usb_ep0setup usbcfg s
      | Some Ep0_in \<Rightarrow> usb_ep0in usbcfg s
      | Some Ep0_out \<Rightarrow> usb_ep0out usbcfg s
      | Some Sdu_data_transmitted \<Rightarrow> sduDataTransmitted ep s
      | Some Sdu_data_received \<Rightarrow> sduDataReceived ep s
      | Some Sdu_interrupt_transmitted \<Rightarrow> sduInterruptTransmitted ep s)"

text \<open>A bus reset, a setup packet, the end of a transmission, and of a reception of \<open>n\<close> bytes.\<close>

definition usb_isr_invoke_setup_cb :: "nat \<Rightarrow> 'x usbsys_scheme \<Rightarrow> ('x, unit) uout" where
  "usb_isr_invoke_setup_cb ep s = (case u_epc (usbd s) ep of None \<Rightarrow> Fault | Some c \<Rightarrow> call_ep (setup_cb c) ep s)"

definition usb_isr_invoke_in_cb :: "nat \<Rightarrow> 'x usbsys_scheme \<Rightarrow> ('x, unit) uout" where
  "usb_isr_invoke_in_cb ep s =
     (let s1 = upd_usb (\<lambda>u. u\<lparr>u_transmitting := u_transmitting u AND NOT (push_bit ep 1)\<rparr>) s in
      case u_epc (usbd s1) ep of None \<Rightarrow> Fault | Some c \<Rightarrow> call_ep (in_cb c) ep s1)"

definition usb_isr_invoke_out_cb :: "nat \<Rightarrow> 'x usbsys_scheme \<Rightarrow> ('x, unit) uout" where
  "usb_isr_invoke_out_cb ep s =
     (let s1 = upd_usb (\<lambda>u. u\<lparr>u_receiving := u_receiving u AND NOT (push_bit ep 1)\<rparr>) s in
      case u_epc (usbd s1) ep of None \<Rightarrow> Fault | Some c \<Rightarrow> call_ep (out_cb c) ep s1)"

datatype usbirq = Bus_reset | Setup_packet "byte list" | In_done nat | Out_done nat nat

definition usb_irq :: "usbirq \<Rightarrow> 'x usbsys_scheme \<Rightarrow> ('x, unit) uout" where
  "usb_irq i s =
     (case i of
        Bus_reset \<Rightarrow> usb_isr_invoke_event_cb usbcfg USB_EVENT_RESET (usb_reset s)
      | Setup_packet p \<Rightarrow> usb_isr_invoke_setup_cb 0 (upd_usb (\<lambda>u. u\<lparr>u_setup_buf := p\<rparr>) s)
      | In_done ep \<Rightarrow> usb_isr_invoke_in_cb ep s
      | Out_done ep n \<Rightarrow>
          (case u_epc (usbd s) ep of None \<Rightarrow> Fault | Some c \<Rightarrow>
           case out_state c of None \<Rightarrow> Fault | Some k \<Rightarrow>
           usb_isr_invoke_out_cb ep
             (upd_usb (\<lambda>u. u\<lparr>u_outstates := (u_outstates u)(k := (u_outstates u k)\<lparr>rxcnt := n\<rparr>)\<rparr>) s)))"

end
