(* ===== verification/Usb_Safe.thy ===== *)
theory Usb_Safe
  imports Usb_Cfg
begin

text \<open>
  What the USB device of the robot does with the requests of a host: control transfers from the setup packet to
  the status stage, and the invariant of the driver that every interrupt keeps, in particular that no null endpoint,
  callback or parameter is followed.
\<close>

section \<open>Fields\<close>

lemma upd_usb_fields [simp]:
  "usbd (upd_usb f s) = f (usbd s)" "sdus (upd_usb f s) = sdus s" "linecoding (upd_usb f s) = linecoding s"
  "gqs (upd_usb f s) = gqs s" "threads (upd_usb f s) = threads s" "tq (upd_usb f s) = tq s" "currp (upd_usb f s) = currp s"
  "es_next (upd_usb f s) = es_next s" "els (upd_usb f s) = els s" "s_cnt (upd_usb f s) = s_cnt s"
  "prio (upd_usb f s) = prio s"
  by (simp_all add: upd_usb_def prio_def fun_eq_iff)

lemma kinv_upd_usb [simp]: "kinv (upd_usb f s) = kinv s"
proof -
  have "sched_inv (upd_usb f s) = sched_inv s" by (rule sched_but_cong) (simp_all add: prio_def fun_eq_iff)
  then show ?thesis by (simp add: kinv_def sem_ok_def)
qed

lemma usb_more:
  fixes s s' :: "'x usbsys_scheme"
  assumes "kernel.more s' = kernel.more s"
  shows "usbd s' = usbd s" "sdus s' = sdus s" "linecoding s' = linecoding s"
  using assms by (cases s; cases s'; simp)+

lemma upd_usb_upd: "upd_usb f (upd_usb g s) = upd_usb (\<lambda>u. f (g u)) s"
  by (simp add: upd_usb_def)

text \<open>The bits of the endpoints.\<close>

lemma status_bit [simp]:
  "usbGetTransmitStatusI ep u = bit (u_transmitting u) ep" "usbGetReceiveStatusI ep u = bit (u_receiving u) ep"
  using bit_iff_and_push_bit_not_eq_0 by (auto simp: usbGetTransmitStatusI_def usbGetReceiveStatusI_def)

lemma clear_bit: "bit (w AND NOT (push_bit ep 1)) n \<longleftrightarrow> bit w n \<and> n \<noteq> ep" for w :: "16 word"
  using bit_imp_le_length[of w n] by (auto simp: bit_and_iff bit_not_iff bit_push_bit_iff bit_1_iff push_bit_of_1 bit_exp_iff)

lemma clear_bit_0: "bit (w AND - 2) n \<longleftrightarrow> bit w n \<and> n \<noteq> 0" for w :: "16 word"
  using clear_bit[of w 0 n] by simp

lemma set_bit: "ep < 16 \<Longrightarrow> bit (w OR push_bit ep 1) n \<longleftrightarrow> bit w n \<or> n = ep" for w :: "16 word"
  by (auto simp: bit_or_iff bit_push_bit_iff bit_1_iff push_bit_of_1 bit_exp_iff)

lemma set_bit_0: "bit (w OR 1) n \<longleftrightarrow> bit w n \<or> n = 0" for w :: "16 word"
  using set_bit[of 0 w n] by simp

lemma set_bit_1: "bit (w OR 2) n \<longleftrightarrow> bit w n \<or> n = Suc 0" for w :: "16 word"
  using set_bit[of 1 w n] by simp

lemma clear_bit_1: "bit (w AND - 3) n \<longleftrightarrow> bit w n \<and> n \<noteq> Suc 0" for w :: "16 word"
  using clear_bit[of w 1 n] by simp

section \<open>Endpoint zero\<close>

text \<open>The endpoint is open and has no transfer under way.\<close>

definition ep0_free :: "usbdrv \<Rightarrow> bool" where
  "ep0_free u \<longleftrightarrow> u_config u \<and> u_epc u 0 = Some ep0config \<and> \<not> bit (u_transmitting u) 0 \<and> \<not> bit (u_receiving u) 0"

definition tx_started :: "usbptr \<Rightarrow> nat \<Rightarrow> usbdrv \<Rightarrow> usbdrv" where
  "tx_started buf n u = u\<lparr>u_instates := (u_instates u)(0 := \<lparr>txqueued = False, txbuf = buf, txsize = n, txcnt = 0\<rparr>),
     u_transmitting := u_transmitting u OR push_bit 0 1, u_lld := u_lld u @ [Lld_prepare_transmit 0, Lld_start_in 0]\<rparr>"

definition rx_started :: "usbptr \<Rightarrow> nat \<Rightarrow> usbdrv \<Rightarrow> usbdrv" where
  "rx_started buf n u = u\<lparr>u_outstates := (u_outstates u)(0 := \<lparr>rxqueued = False, rxbuf = buf, rxsize = n, rxcnt = 0\<rparr>),
     u_receiving := u_receiving u OR push_bit 0 1, u_lld := u_lld u @ [Lld_prepare_receive 0, Lld_start_out 0]\<rparr>"

lemma ep0_transmit_free:
  "u_epc (usbd s) 0 = Some ep0config \<Longrightarrow> \<not> bit (u_transmitting (usbd s)) 0 \<Longrightarrow>
    ep0_transmit buf n s = Done () (upd_usb (tx_started buf n) s)"
  by (simp add: ep0_transmit_def usbPrepareTransmit_def prepare_in_def ep0config_def usbStartTransmitI_def lld_def upd_usb_upd
      upd_usb_def tx_started_def)

lemma ep0_receive_free:
  "u_epc (usbd s) 0 = Some ep0config \<Longrightarrow> \<not> bit (u_receiving (usbd s)) 0 \<Longrightarrow>
    ep0_receive buf n s = Done () (upd_usb (rx_started buf n) s)"
  by (simp add: ep0_receive_def usbPrepareReceive_def prepare_out_def ep0config_def usbStartReceiveI_def lld_def upd_usb_upd
      upd_usb_def rx_started_def)

section \<open>Control transfers\<close>

definition with_setup :: "byte list \<Rightarrow> 'x usbsys_scheme \<Rightarrow> 'x usbsys_scheme" where
  "with_setup p = upd_usb (\<lambda>u. u\<lparr>u_setup_buf := p, u_ep0state := USB_EP0_WAITING_SETUP, u_setup := p\<rparr>)"

definition wLength :: "byte list \<Rightarrow> nat" where
  "wLength p = unat (usbFetchWord (p ! 6) (p ! 7))"

definition to_host :: "byte list \<Rightarrow> bool" where
  "to_host p \<longleftrightarrow> p ! 0 AND USB_RTYPE_DIR_MASK = USB_RTYPE_DIR_DEV2HOST"

lemma setup_irq:
  assumes "u_config (usbd s)" "u_epc (usbd s) 0 = Some ep0config"
  shows "usb_irq (Setup_packet p) s =
    obind (request_handler usbcfg (with_setup p s)) (\<lambda>r s. if r then ep0_start s else ep0_error usbcfg s)"
  using assms by (simp add: usb_irq_def usb_isr_invoke_setup_cb_def call_ep_def ep0config_def usb_ep0setup_def set_ep0state_def
      upd_usb_upd with_setup_def Let_def)

lemma in_irq:
  assumes "u_epc (usbd s) 0 = Some ep0config"
  shows "usb_irq (In_done 0) s = usb_ep0in usbcfg (upd_usb (\<lambda>u. u\<lparr>u_transmitting := u_transmitting u AND NOT (push_bit 0 1)\<rparr>) s)"
  using assms by (simp add: usb_irq_def usb_isr_invoke_in_cb_def call_ep_def ep0config_def Let_def)

lemma out_irq:
  assumes "u_epc (usbd s) 0 = Some ep0config"
  shows "usb_irq (Out_done 0 n) s = usb_ep0out usbcfg (upd_usb (\<lambda>u. u\<lparr>u_outstates := (u_outstates u)(0 := (u_outstates u 0)\<lparr>rxcnt := n\<rparr>),
     u_receiving := u_receiving u AND NOT (push_bit 0 1)\<rparr>) s)"
  using assms by (simp add: usb_irq_def usb_isr_invoke_out_cb_def call_ep_def ep0config_def Let_def upd_usb_upd)

text \<open>What a transfer changes of the driver: endpoint zero and the record of the low level calls.\<close>

definition ep0_moved :: "usbdrv \<Rightarrow> usbdrv \<Rightarrow> usblld list \<Rightarrow> bool" where
  "ep0_moved u u' ls \<longleftrightarrow> u_state u' = u_state u \<and> u_config u' = u_config u \<and> u_param u' = u_param u \<and> u_epc u' = u_epc u \<and>
     u_ep0next u' = u_ep0next u \<and> u_ep0endcb u' = u_ep0endcb u \<and>
     u_setup u' = u_setup u \<and> u_status u' = u_status u \<and> u_address u' = u_address u \<and> u_configuration u' = u_configuration u \<and>
     (\<forall>n. n \<noteq> 0 \<longrightarrow> bit (u_transmitting u') n = bit (u_transmitting u) n \<and> bit (u_receiving u') n = bit (u_receiving u) n \<and>
        u_instates u' n = u_instates u n \<and> u_outstates u' n = u_outstates u n) \<and>
     u_lld u' = u_lld u @ ls"

lemma control_read:
  assumes "request_handler usbcfg (with_setup p s) = Done True s'" "u_config (usbd s)" "u_epc (usbd s) 0 = Some ep0config"
    "ep0_free (usbd s')" "u_setup (usbd s') = p" "u_ep0endcb (usbd s') = None" "to_host p"
    "n = min (u_ep0n (usbd s')) (wLength p)" "0 < n" "n < wLength p \<Longrightarrow> n mod 64 \<noteq> 0"
  shows "\<exists>f1 f2 f3. usb_irq (Setup_packet p) s = Done () (upd_usb f1 s') \<and>
    usb_irq (In_done 0) (upd_usb f1 s') = Done () (upd_usb f2 s') \<and>
    usb_irq (Out_done 0 0) (upd_usb f2 s') = Done () (upd_usb f3 s') \<and>
    u_ep0state (f1 (usbd s')) = USB_EP0_TX \<and>
    u_instates (f1 (usbd s')) 0 = \<lparr>txqueued = False, txbuf = u_ep0next (usbd s'), txsize = n, txcnt = 0\<rparr> \<and>
    u_ep0state (f2 (usbd s')) = USB_EP0_WAITING_STS \<and> rxsize (u_outstates (f2 (usbd s')) 0) = 0 \<and>
    u_ep0state (f3 (usbd s')) = USB_EP0_WAITING_SETUP \<and> ep0_free (f3 (usbd s')) \<and>
    ep0_moved (usbd s') (f3 (usbd s')) [Lld_prepare_transmit 0, Lld_start_in 0, Lld_prepare_receive 0, Lld_start_out 0]"
proof -
  let ?f1 = "\<lambda>u. tx_started (u_ep0next u) n (u\<lparr>u_ep0n := n, u_ep0state := USB_EP0_TX\<rparr>)"
  let ?f2 = "\<lambda>u. rx_started PNull 0 ((?f1 u)\<lparr>u_transmitting := u_transmitting (?f1 u) AND NOT (push_bit 0 1), u_ep0state := USB_EP0_WAITING_STS\<rparr>)"
  let ?f3 = "\<lambda>u. (?f2 u)\<lparr>u_outstates := (u_outstates (?f2 u))(0 := (u_outstates (?f2 u) 0)\<lparr>rxcnt := 0\<rparr>),
     u_receiving := u_receiving (?f2 u) AND NOT (push_bit 0 1), u_ep0state := USB_EP0_WAITING_SETUP\<rparr>"
  note free = assms(4)[unfolded ep0_free_def]
  have "ep0_start s' = Done () (upd_usb ?f1 s')"
    using assms(5,7,8,9) free
    by (cases "u_ep0n (usbd s') > wLength p")
       (auto simp: ep0_start_def Let_def to_host_def wLength_def[symmetric] ep0_transmit_free set_ep0state_def upd_usb_upd upd_usb_def tx_started_def)
  then have 1: "usb_irq (Setup_packet p) s = Done () (upd_usb ?f1 s')"
    using setup_irq[OF assms(2,3), of p] assms(1) by simp
  have 2: "usb_irq (In_done 0) (upd_usb ?f1 s') = Done () (upd_usb ?f2 s')"
    using assms(5,10) free
    by (simp add: in_irq tx_started_def usb_ep0in_def Let_def wLength_def[symmetric] ep0_receive_free set_ep0state_def upd_usb_upd)
       (auto simp: ep0config_def)
  have 3: "usb_irq (Out_done 0 0) (upd_usb ?f2 s') = Done () (upd_usb ?f3 s')"
    using assms(6) free by (simp add: out_irq tx_started_def rx_started_def usb_ep0out_def set_ep0state_def upd_usb_upd)
       (simp add: ep0config_def ep0_endcb_def set_ep0state_def upd_usb_upd)
  have "ep0_free (?f3 (usbd s'))" using free unfolding ep0_free_def by (simp add: tx_started_def rx_started_def clear_bit_0)
  moreover have "ep0_moved (usbd s') (?f3 (usbd s')) [Lld_prepare_transmit 0, Lld_start_in 0, Lld_prepare_receive 0, Lld_start_out 0]"
    unfolding ep0_moved_def by (simp add: tx_started_def rx_started_def clear_bit_0 set_bit_0)
  ultimately show ?thesis using 1 2 3
    by (intro exI[of _ ?f1] exI[of _ ?f2] exI[of _ ?f3]) (simp add: tx_started_def rx_started_def)
qed

text \<open>A request without data ends with the status packet that the device sends.\<close>

lemma control_nodata:
  assumes "request_handler usbcfg (with_setup p s) = Done True s'" "u_config (usbd s)" "u_epc (usbd s) 0 = Some ep0config"
    "ep0_free (usbd s')" "u_setup (usbd s') = p" "u_ep0endcb (usbd s') = None" "\<not> to_host p"
    "u_ep0n (usbd s') = 0 \<or> wLength p = 0"
  shows "\<exists>f1 f2. usb_irq (Setup_packet p) s = Done () (upd_usb f1 s') \<and>
    usb_irq (In_done 0) (upd_usb f1 s') = Done () (upd_usb f2 s') \<and>
    u_ep0state (f1 (usbd s')) = USB_EP0_SENDING_STS \<and> txsize (u_instates (f1 (usbd s')) 0) = 0 \<and>
    u_ep0state (f2 (usbd s')) = USB_EP0_WAITING_SETUP \<and> ep0_free (f2 (usbd s')) \<and>
    ep0_moved (usbd s') (f2 (usbd s')) [Lld_prepare_transmit 0, Lld_start_in 0]"
proof -
  let ?f1 = "\<lambda>u. tx_started PNull 0 (u\<lparr>u_ep0n := 0, u_ep0state := USB_EP0_SENDING_STS\<rparr>)"
  let ?f2 = "\<lambda>u. (?f1 u)\<lparr>u_transmitting := u_transmitting (?f1 u) AND NOT (push_bit 0 1), u_ep0state := USB_EP0_WAITING_SETUP\<rparr>"
  note free = assms(4)[unfolded ep0_free_def]
  have "ep0_start s' = Done () (upd_usb ?f1 s')"
    using assms(5,7,8) free
    by (cases "u_ep0n (usbd s') > wLength p")
       (auto simp: ep0_start_def Let_def to_host_def wLength_def[symmetric] ep0_transmit_free set_ep0state_def upd_usb_upd upd_usb_def tx_started_def)
  then have 1: "usb_irq (Setup_packet p) s = Done () (upd_usb ?f1 s')"
    using setup_irq[OF assms(2,3), of p] assms(1) by simp
  have 2: "usb_irq (In_done 0) (upd_usb ?f1 s') = Done () (upd_usb ?f2 s')"
    using assms(6) free by (simp add: in_irq tx_started_def usb_ep0in_def ep0_endcb_def set_ep0state_def upd_usb_upd)
  have "ep0_free (?f2 (usbd s'))" using free unfolding ep0_free_def by (simp add: tx_started_def clear_bit_0)
  moreover have "ep0_moved (usbd s') (?f2 (usbd s')) [Lld_prepare_transmit 0, Lld_start_in 0]"
    unfolding ep0_moved_def by (simp add: tx_started_def clear_bit_0 set_bit_0)
  ultimately show ?thesis using 1 2
    by (intro exI[of _ ?f1] exI[of _ ?f2]) (simp add: tx_started_def)
qed

text \<open>A request whose data come from the host.\<close>

lemma control_write:
  assumes "request_handler usbcfg (with_setup p s) = Done True s'" "u_config (usbd s)" "u_epc (usbd s) 0 = Some ep0config"
    "ep0_free (usbd s')" "u_setup (usbd s') = p" "u_ep0endcb (usbd s') = None" "\<not> to_host p"
    "n = min (u_ep0n (usbd s')) (wLength p)" "0 < n"
  shows "\<exists>f1 f2 f3. usb_irq (Setup_packet p) s = Done () (upd_usb f1 s') \<and>
    usb_irq (Out_done 0 k) (upd_usb f1 s') = Done () (upd_usb f2 s') \<and>
    usb_irq (In_done 0) (upd_usb f2 s') = Done () (upd_usb f3 s') \<and>
    u_ep0state (f1 (usbd s')) = USB_EP0_RX \<and>
    u_outstates (f1 (usbd s')) 0 = \<lparr>rxqueued = False, rxbuf = u_ep0next (usbd s'), rxsize = n, rxcnt = 0\<rparr> \<and>
    u_ep0state (f2 (usbd s')) = USB_EP0_SENDING_STS \<and>
    u_ep0state (f3 (usbd s')) = USB_EP0_WAITING_SETUP \<and> ep0_free (f3 (usbd s')) \<and>
    ep0_moved (usbd s') (f3 (usbd s')) [Lld_prepare_receive 0, Lld_start_out 0, Lld_prepare_transmit 0, Lld_start_in 0]"
proof -
  let ?f1 = "\<lambda>u. rx_started (u_ep0next u) n (u\<lparr>u_ep0n := n, u_ep0state := USB_EP0_RX\<rparr>)"
  let ?f2 = "\<lambda>u. tx_started PNull 0 ((?f1 u)\<lparr>u_outstates := (u_outstates (?f1 u))(0 := (u_outstates (?f1 u) 0)\<lparr>rxcnt := k\<rparr>),
     u_receiving := u_receiving (?f1 u) AND NOT (push_bit 0 1), u_ep0state := USB_EP0_SENDING_STS\<rparr>)"
  let ?f3 = "\<lambda>u. (?f2 u)\<lparr>u_transmitting := u_transmitting (?f2 u) AND NOT (push_bit 0 1), u_ep0state := USB_EP0_WAITING_SETUP\<rparr>"
  note free = assms(4)[unfolded ep0_free_def]
  have "ep0_start s' = Done () (upd_usb ?f1 s')"
    using assms(5,7,8,9) free
    by (cases "u_ep0n (usbd s') > wLength p")
       (auto simp: ep0_start_def Let_def to_host_def wLength_def[symmetric] ep0_receive_free set_ep0state_def upd_usb_upd upd_usb_def rx_started_def)
  then have 1: "usb_irq (Setup_packet p) s = Done () (upd_usb ?f1 s')"
    using setup_irq[OF assms(2,3), of p] assms(1) by simp
  have 2: "usb_irq (Out_done 0 k) (upd_usb ?f1 s') = Done () (upd_usb ?f2 s')"
    using free by (simp add: out_irq rx_started_def usb_ep0out_def ep0_transmit_free set_ep0state_def upd_usb_upd)
  have 3: "usb_irq (In_done 0) (upd_usb ?f2 s') = Done () (upd_usb ?f3 s')"
    using assms(6) free by (simp add: in_irq tx_started_def rx_started_def usb_ep0in_def ep0_endcb_def set_ep0state_def upd_usb_upd)
  have "ep0_free (?f3 (usbd s'))" using free unfolding ep0_free_def by (simp add: tx_started_def rx_started_def clear_bit_0)
  moreover have "ep0_moved (usbd s') (?f3 (usbd s')) [Lld_prepare_receive 0, Lld_start_out 0, Lld_prepare_transmit 0, Lld_start_in 0]"
    unfolding ep0_moved_def by (simp add: tx_started_def rx_started_def clear_bit_0 set_bit_0)
  ultimately show ?thesis using 1 2 3
    by (intro exI[of _ ?f1] exI[of _ ?f2] exI[of _ ?f3]) (simp add: tx_started_def rx_started_def)
qed

text \<open>
  An answer that is shorter than asked for and a multiple of the packet size is followed by an empty packet,
  and each empty packet by another one: the state does not move on.
\<close>

lemma empty_packets:
  assumes "u_epc (usbd s) 0 = Some ep0config" "u_ep0state (usbd s) = USB_EP0_TX" "u_ep0n (usbd s) < wLength (u_setup (usbd s))"
    "u_ep0n (usbd s) mod 64 = 0"
  shows "\<exists>f. usb_irq (In_done 0) s = Done () (upd_usb f s) \<and> u_epc (f (usbd s)) 0 = Some ep0config \<and>
    u_ep0state (f (usbd s)) = USB_EP0_TX \<and> u_ep0n (f (usbd s)) = u_ep0n (usbd s) \<and> u_setup (f (usbd s)) = u_setup (usbd s) \<and>
    txsize (u_instates (f (usbd s)) 0) = 0 \<and> u_lld (f (usbd s)) = u_lld (usbd s) @ [Lld_prepare_transmit 0, Lld_start_in 0]"
proof -
  let ?f = "\<lambda>u. tx_started PNull 0 (u\<lparr>u_transmitting := u_transmitting u AND NOT (push_bit 0 1)\<rparr>)"
  have e: "in_maxsize ep0config = 64" by (simp add: ep0config_def)
  have "usb_irq (In_done 0) s = Done () (upd_usb ?f s)"
    using assms by (simp add: in_irq usb_ep0in_def Let_def wLength_def[symmetric] e ep0_transmit_free upd_usb_upd clear_bit_0)
  then show ?thesis using assms by (intro exI[of _ ?f]) (simp add: tx_started_def)
qed

section \<open>The invariant of the driver\<close>

text \<open>
  \<open>usb_base\<close>: the endpoints that can be called have their configuration, and a device that is active has the
  endpoints of the serial port. \<open>usb_inv\<close>: besides, a state of endpoint zero that waits for a packet has the
  transfer under way that ends with it.
\<close>

definition usb_base :: "nat \<Rightarrow> usbdrv \<Rightarrow> bool" where
  "usb_base d u \<longleftrightarrow> u_config u \<and> u_param u = Some d \<and> u_epc u 0 = Some ep0config \<and>
     u_epc u 1 \<in> {None, Some ep1config} \<and>
     (\<forall>ep. bit (u_transmitting u) ep \<longrightarrow> ep = 0 \<or> ep = 1 \<and> u_epc u 1 = Some ep1config) \<and>
     (\<forall>ep. bit (u_receiving u) ep \<longrightarrow> ep = 0 \<or> ep = 1 \<and> u_epc u 1 = Some ep1config) \<and>
     (u_state u = USB_ACTIVE \<longrightarrow> u_epc u 1 = Some ep1config \<and> u_configuration u \<noteq> 0)"

definition ep0_link :: "usbdrv \<Rightarrow> bool" where
  "ep0_link u \<longleftrightarrow> u_ep0endcb u = None \<and>
     (u_ep0state u \<in> {USB_EP0_TX, USB_EP0_SENDING_STS} \<longrightarrow> bit (u_transmitting u) 0) \<and>
     (u_ep0state u \<in> {USB_EP0_RX, USB_EP0_WAITING_STS} \<longrightarrow> bit (u_receiving u) 0)"

definition usb_inv :: "nat \<Rightarrow> 'x usbsys_scheme \<Rightarrow> bool" where
  "usb_inv d s \<longleftrightarrow> kinv s \<and> usb_base d (usbd s) \<and> ep0_link (usbd s)"

text \<open>The routine returns, in a state of the invariant.\<close>

definition keeps :: "nat \<Rightarrow> ('x usbsys_scheme, unit) outcome \<Rightarrow> bool" where
  "keeps d m \<longleftrightarrow> (\<exists>s. m = Done () s \<and> usb_inv d s)"

lemma usb_base_tx:
  "usb_base d u \<Longrightarrow> usb_base d (u\<lparr>u_instates := i, u_transmitting := u_transmitting u OR 1\<rparr>)"
  "usb_base d u \<Longrightarrow> usb_base d (u\<lparr>u_outstates := out, u_receiving := u_receiving u OR 1\<rparr>)"
  unfolding usb_base_def by (auto simp: set_bit_0)

lemma usb_base_other [simp]:
  "usb_base d (u\<lparr>u_instates := i\<rparr>) = usb_base d u" "usb_base d (u\<lparr>u_outstates := out\<rparr>) = usb_base d u"
  "usb_base d (u\<lparr>u_lld := l\<rparr>) = usb_base d u" "usb_base d (u\<lparr>u_ep0state := st\<rparr>) = usb_base d u"
  "usb_base d (u\<lparr>u_ep0n := n\<rparr>) = usb_base d u" "usb_base d (u\<lparr>u_ep0next := b\<rparr>) = usb_base d u"
  "usb_base d (u\<lparr>u_ep0endcb := c\<rparr>) = usb_base d u" "usb_base d (u\<lparr>u_setup := p\<rparr>) = usb_base d u"
  "usb_base d (u\<lparr>u_setup_buf := p\<rparr>) = usb_base d u" "usb_base d (u\<lparr>u_status := w\<rparr>) = usb_base d u"
  "usb_base d (u\<lparr>u_address := a\<rparr>) = usb_base d u"
  by (simp_all add: usb_base_def)

lemma base_epc: "usb_base d u \<Longrightarrow> u_epc u 0 = Some ep0config" "usb_base d u \<Longrightarrow> u_config u"
  by (simp_all add: usb_base_def)

lemma transmit_keeps:
  assumes "kinv s" "usb_base d (usbd s)" "u_ep0endcb (usbd s) = None" "u_ep0state (usbd s) \<in> {USB_EP0_TX, USB_EP0_SENDING_STS}"
  shows "keeps d (ep0_transmit buf n s)"
proof -
  have e: "in_state ep0config = Some 0" by (simp add: ep0config_def)
  show ?thesis unfolding keeps_def ep0_transmit_def usbPrepareTransmit_def prepare_in_def usbStartTransmitI_def
    using assms usb_base_tx(1) by (auto simp: base_epc e lld_def usb_inv_def ep0_link_def set_bit_0)
qed

lemma receive_keeps:
  assumes "kinv s" "usb_base d (usbd s)" "u_ep0endcb (usbd s) = None" "u_ep0state (usbd s) \<in> {USB_EP0_RX, USB_EP0_WAITING_STS}"
  shows "keeps d (ep0_receive buf n s)"
proof -
  have e: "out_state ep0config = Some 0" by (simp add: ep0config_def)
  show ?thesis unfolding keeps_def ep0_receive_def usbPrepareReceive_def prepare_out_def usbStartReceiveI_def
    using assms usb_base_tx(2) by (auto simp: base_epc e lld_def usb_inv_def ep0_link_def set_bit_0)
qed

lemma error_keeps:
  assumes "kinv s" "usb_base d (usbd s)" "u_ep0endcb (usbd s) = None"
  shows "keeps d (ep0_error usbcfg s)"
  unfolding keeps_def ep0_error_def usb_isr_invoke_event_cb_def using assms
  by (auto simp: usbcfg_def usb_event_def lld_def usb_inv_def ep0_link_def base_epc(2))

lemma start_keeps:
  assumes "kinv s" "usb_base d (usbd s)" "u_ep0endcb (usbd s) = None"
  shows "keeps d (ep0_start s)"
  unfolding ep0_start_def Let_def using assms
  by (auto simp: set_ep0state_def intro!: transmit_keeps receive_keeps)

section \<open>The serial port\<close>

lemma reset_queue:
  assumes "kinv s"
  shows "\<exists>s'. ready_all (QGen i) m (set_gq i q s) = Done () s' \<and> kinv s' \<and> kernel.more s' = kernel.more s \<and> gqs s' = (gqs s)(i := q)"
proof -
  have i: "sched_inv (set_gq i q s)" "sem_ok (set_gq i q s)" using assms(1) by (simp_all add: kinv_def sem_ok_def)
  from ready_all_inv[OF i(1), of "QGen i" m] obtain s' where
    s': "ready_all (QGen i) m (set_gq i q s) = Done () s'" "sched_inv s'" "frame_but {QGen i, QReady} (set_gq i q s) s'" by auto
  have "sem_ok s'" using sem_ok_frame[OF s'(3)] i(2) by simp
  then show ?thesis using s' sched_frame_fields[OF s'(3)] by (auto simp: kinv_def frame_but_def)
qed

lemma flags_kept:
  fixes s :: "'x usbsys_scheme"
  assumes "kinv s"
  shows "\<exists>s'. sdu_flags d fl s = Done () s' \<and> kinv s' \<and> kernel.more s' = kernel.more s \<and> gqs s' = gqs s"
proof -
  from broadcast_flags[OF assms, of "sdu_event (sdus s d)" fl] obtain s' where
    s': "chEvtBroadcastFlagsI (sdu_event (sdus s d)) fl s = Done () s'" "kinv s'" "frame_but {QReady} (s\<lparr>els := els s'\<rparr>) s'" by blast
  then show ?thesis by (auto simp: sdu_flags_def frame_but_def)
qed

text \<open>What the configuration starts from: the state is set and the endpoints may be closed.\<close>

definition usb_before :: "nat \<Rightarrow> usbdrv \<Rightarrow> bool" where
  "usb_before d u \<longleftrightarrow> usb_base d (u\<lparr>u_state := USB_SELECTED\<rparr>) \<and> (u_state u = USB_ACTIVE \<longrightarrow> u_configuration u \<noteq> 0)"

lemma endpoints_open:
  assumes "usb_before d u"
  shows "usb_base d (u\<lparr>u_instates := i, u_outstates := out, u_epc := (u_epc u)(1 := Some ep1config, 2 := Some ep2config), u_lld := l\<rparr>)"
  using assms by (auto simp: usb_before_def usb_base_def)

definition opened_endpoints :: "'x usbsys_scheme \<Rightarrow> 'x usbsys_scheme" where
  "opened_endpoints s = usbInitEndpointI USB_CDC_INTERRUPT_REQUEST_EP ep2config (usbInitEndpointI USB_CDC_DATA_REQUEST_EP ep1config s)"

lemma opened_usbd:
  "\<exists>i out l. usbd (opened_endpoints s) = (usbd s)\<lparr>u_instates := i, u_outstates := out,
     u_epc := (u_epc (usbd s))(1 := Some ep1config, 2 := Some ep2config), u_lld := l\<rparr>"
proof -
  let ?in = "\<lparr>txqueued = False, txbuf = PNull, txsize = 0, txcnt = 0\<rparr>" and ?out = "\<lparr>rxqueued = False, rxbuf = PNull, rxsize = 0, rxcnt = 0\<rparr>"
  have e: "in_state ep1config = Some 1" "out_state ep1config = Some 1" "in_state ep2config = Some 2" "out_state ep2config = None"
    by (simp_all add: ep1config_def ep2config_def)
  have "usbd (opened_endpoints s) = (usbd s)\<lparr>u_instates := (u_instates (usbd s))(1 := ?in, 2 := ?in),
     u_outstates := (u_outstates (usbd s))(1 := ?out), u_epc := (u_epc (usbd s))(1 := Some ep1config, 2 := Some ep2config),
     u_lld := u_lld (usbd s) @ [Lld_init_endpoint 1, Lld_init_endpoint 2]\<rparr>"
    by (simp add: opened_endpoints_def usbInitEndpointI_def e lld_def USB_CDC_INTERRUPT_REQUEST_EP_def USB_CDC_DATA_REQUEST_EP_def)
  then show ?thesis by blast
qed

lemma opened_rest [simp]: "kinv (opened_endpoints s) = kinv s" "sdus (opened_endpoints s) = sdus s"
  by (simp_all add: opened_endpoints_def usbInitEndpointI_def ep1config_def ep2config_def lld_def)

lemma configure_keeps:
  fixes s :: "'x usbsys_scheme"
  assumes "kinv s" "usb_before d (usbd s)"
  shows "\<exists>s'. usb_event USB_EVENT_CONFIGURED s = Done () s' \<and> kinv s' \<and> usb_base d (usbd s') \<and>
    u_ep0endcb (usbd s') = u_ep0endcb (usbd s) \<and> u_setup (usbd s') = u_setup (usbd s) \<and> u_state (usbd s') = u_state (usbd s) \<and>
    u_configuration (usbd s') = u_configuration (usbd s) \<and> u_address (usbd s') = u_address (usbd s) \<and>
    u_epc (usbd s') 1 = Some ep1config \<and> u_epc (usbd s') 2 = Some ep2config \<and> bit (u_receiving (usbd s')) 1 \<and>
    (\<forall>n. n \<noteq> 1 \<longrightarrow> bit (u_receiving (usbd s')) n = bit (u_receiving (usbd s)) n) \<and> u_transmitting (usbd s') = u_transmitting (usbd s) \<and>
    sdus s' = sdus s"
proof -
  define u where "u = usbd s"
  let ?s1 = "opened_endpoints s"
  from opened_usbd[of s] obtain i out l where u1: "usbd ?s1 = u\<lparr>u_instates := i, u_outstates := out,
      u_epc := (u_epc u)(1 := Some ep1config, 2 := Some ep2config), u_lld := l\<rparr>" "kinv ?s1" "sdus ?s1 = sdus s"
    using assms(1) unfolding u_def by auto
  have b: "usb_base d (usbd ?s1)" unfolding u1(1) by (rule endpoints_open) (simp add: assms(2) u_def)
  then have p: "u_param (usbd ?s1) = Some d" "u_epc (usbd ?s1) 1 = Some ep1config" unfolding usb_base_def u1(1) by simp_all
  let ?iq = "sdu_iqueue (sdus s d)" and ?oq = "sdu_oqueue (sdus s d)"
  from reset_queue[OF u1(2), of ?iq Q_RESET "(gqs ?s1 ?iq)\<lparr>q_rdptr := 0, q_wrptr := 0, q_counter := 0\<rparr>"] obtain s2 where
    s2: "chIQResetI ?iq ?s1 = Done () s2" "kinv s2" "kernel.more s2 = kernel.more ?s1" unfolding chIQResetI_def by blast
  from reset_queue[OF s2(2), of ?oq Q_RESET "(gqs s2 ?oq)\<lparr>q_rdptr := 0, q_wrptr := 0, q_counter := chQSizeI (gqs s2 ?oq)\<rparr>"] obtain s3 where
    s3: "chOQResetI ?oq s2 = Done () s3" "kinv s3" "kernel.more s3 = kernel.more s2" unfolding chOQResetI_def by blast
  from flags_kept[OF s3(2), of d CHN_CONNECTED] obtain s4 where
    s4: "sdu_flags d CHN_CONNECTED s3 = Done () s4" "kinv s4" "kernel.more s4 = kernel.more s3" by blast
  have m: "usbd s2 = usbd ?s1" "sdus s2 = sdus s" "sdus s3 = sdus s" "usbd s4 = usbd ?s1" "sdus s4 = sdus s"
    using usb_more[OF s2(3)] usb_more[OF s3(3)] usb_more[OF s4(3)] u1(3) by simp_all
  have e: "out_state ep1config = Some 1" "out_maxsize ep1config = 64" by (simp_all add: ep1config_def)
  have ep: "USB_CDC_DATA_AVAILABLE_EP = 1" by (simp add: USB_CDC_DATA_AVAILABLE_EP_def)
  let ?u4 = "usbd ?s1"
  let ?u5 = "?u4\<lparr>u_outstates := (u_outstates ?u4)(1 := \<lparr>rxqueued = True, rxbuf = PQueue ?iq, rxsize = 64, rxcnt = 0\<rparr>),
     u_lld := u_lld ?u4 @ [Lld_prepare_receive 1]\<rparr>"
  have prep: "usbPrepareQueuedReceive 1 ?iq 64 s4 = Done () (upd_usb (\<lambda>_. ?u5) s4)"
    using m(4) p(2) by (simp add: usbPrepareQueuedReceive_def prepare_out_def e lld_def upd_usb_upd upd_usb_def)
  let ?s5 = "upd_usb (\<lambda>_. ?u5) s4"
  have run: "usb_event USB_EVENT_CONFIGURED s = Done () (snd (usbStartReceiveI 1 ?s5))"
    using s2(1) s3(1) s4(1) m p prep e(2) u1(3)
    unfolding usb_event_def Let_def opened_endpoints_def[symmetric]
    by (simp add: sduConfigureHookI_def out_maxsize_of_def ep Let_def)
  have b5: "usb_base d ?u5" using b by simp
  then have b6: "usb_base d (?u5\<lparr>u_receiving := u_receiving ?u5 OR push_bit 1 1, u_lld := l2\<rparr>)" for l2
    using p(2) unfolding usb_base_def by (auto simp: set_bit_1)
  have "usb_base d (usbd (snd (usbStartReceiveI 1 ?s5)))" using b5 b6 by (simp add: usbStartReceiveI_def lld_def)
  moreover have "kinv (snd (usbStartReceiveI 1 ?s5))" using s4(2) by (simp add: usbStartReceiveI_def lld_def)
  moreover have "bit (u_receiving (usbd (snd (usbStartReceiveI 1 ?s5)))) 1"
    "\<forall>n. n \<noteq> 1 \<longrightarrow> bit (u_receiving (usbd (snd (usbStartReceiveI 1 ?s5)))) n = bit (u_receiving u) n"
    unfolding u1(1) by (simp_all add: usbStartReceiveI_def lld_def set_bit_1)
  moreover have "u_ep0endcb (usbd (snd (usbStartReceiveI 1 ?s5))) = u_ep0endcb u \<and> u_setup (usbd (snd (usbStartReceiveI 1 ?s5))) = u_setup u \<and>
      u_state (usbd (snd (usbStartReceiveI 1 ?s5))) = u_state u \<and> u_configuration (usbd (snd (usbStartReceiveI 1 ?s5))) = u_configuration u \<and>
      u_address (usbd (snd (usbStartReceiveI 1 ?s5))) = u_address u \<and> u_epc (usbd (snd (usbStartReceiveI 1 ?s5))) 1 = Some ep1config \<and>
      u_epc (usbd (snd (usbStartReceiveI 1 ?s5))) 2 = Some ep2config \<and> u_transmitting (usbd (snd (usbStartReceiveI 1 ?s5))) = u_transmitting u \<and>
      sdus (snd (usbStartReceiveI 1 ?s5)) = sdus s"
    unfolding u1(1) using m(5) by (simp add: usbStartReceiveI_def lld_def)
  ultimately show ?thesis unfolding u_def[symmetric] run by blast
qed

section \<open>Requests\<close>

lemma usb_base_selected: "usb_base d u \<Longrightarrow> usb_base d (u\<lparr>u_state := USB_SELECTED\<rparr>)"
  by (simp add: usb_base_def)

lemma set_address_run:
  "u_config (usbd s) \<Longrightarrow> set_address usbcfg s = Done () (upd_usb (\<lambda>u. u\<lparr>u_address := u_setup u ! 2,
     u_lld := u_lld u @ [Lld_set_address (u_setup u ! 2)], u_state := USB_SELECTED\<rparr>) s)"
  by (simp add: set_address_def usb_isr_invoke_event_cb_def usbcfg_def usb_event_def lld_def upd_usb_upd upd_usb_def)

text \<open>A handler returns, with the base of the invariant and no callback for the end of the transfer.\<close>

definition handled :: "nat \<Rightarrow> ('x usbsys_scheme, bool) outcome \<Rightarrow> bool" where
  "handled d m \<longleftrightarrow> (\<exists>b s. m = Done b s \<and> kinv s \<and> usb_base d (usbd s) \<and> u_ep0endcb (usbd s) = None)"

lemma handled_Done [simp]: "handled d (Done b s) \<longleftrightarrow> kinv s \<and> usb_base d (usbd s) \<and> u_ep0endcb (usbd s) = None"
  by (simp add: handled_def)

lemma handled_if: "(c \<Longrightarrow> handled d a) \<Longrightarrow> (\<not> c \<Longrightarrow> handled d b) \<Longrightarrow> handled d (if c then a else b)"
  by simp

lemma configuration_handled:
  assumes "kinv s" "usb_base d (usbd s)"
  shows "handled d (obind (usb_isr_invoke_event_cb usbcfg USB_EVENT_CONFIGURED
     (upd_usb (\<lambda>u. u\<lparr>u_state := (if u_configuration u = 0 then USB_SELECTED else USB_ACTIVE)\<rparr>) (upd_usb (\<lambda>u. u\<lparr>u_configuration := c\<rparr>) s)))
     (\<lambda>_ s. Done True (usbSetupTransfer PNull 0 None s)))"
proof -
  let ?s = "upd_usb (\<lambda>u. u\<lparr>u_state := (if u_configuration u = 0 then USB_SELECTED else USB_ACTIVE)\<rparr>) (upd_usb (\<lambda>u. u\<lparr>u_configuration := c\<rparr>) s)"
  have b: "usb_before d (usbd ?s)" using assms(2) by (auto simp: usb_before_def usb_base_def)
  have k: "kinv ?s" "u_config (usbd ?s)" using assms by (simp_all add: base_epc)
  from configure_keeps[OF k(1) b] obtain s' where
    "usb_event USB_EVENT_CONFIGURED ?s = Done () s'" "kinv s'" "usb_base d (usbd s')" by blast
  then show ?thesis using k(2) by (simp add: usb_isr_invoke_event_cb_def usbcfg_def usbSetupTransfer_def)
qed

lemma status_handled:
  "kinv s \<Longrightarrow> usb_base d (usbd s) \<Longrightarrow> u_ep0endcb (usbd s) = None \<Longrightarrow> handled d (send_status st s)"
  by (cases st) (simp_all add: send_status_def usbSetupTransfer_def)

lemma default_handled:
  assumes "kinv s" "usb_base d (usbd s)" "u_ep0endcb (usbd s) = None"
  shows "handled d (default_handler usbcfg s)"
  unfolding default_handler_def Let_def
proof (intro handled_if)
  let ?p = "u_setup (usbd s)"
  show "handled d (obind (if ?p ! 0 = USB_RTYPE_RECIPIENT_DEVICE \<and> ?p ! 1 = USB_REQ_SET_ADDRESS then set_address usbcfg s else Done () s)
             (\<lambda>_ s. Done True (usbSetupTransfer PNull 0 None s)))"
    using assms usb_base_selected by (auto simp: set_address_run base_epc usbSetupTransfer_def)
  show "handled d (case get_descriptor_cb usbcfg (?p ! 3) (?p ! 2) (usbFetchWord (?p ! 4) (?p ! 5)) of None \<Rightarrow> Done False s
            | Some dp \<Rightarrow> Done True (usbSetupTransfer (PConst (ud_string dp)) (ud_size dp) None s))"
    using assms by (auto simp: usbSetupTransfer_def split: option.split)
  show "handled d (obind (usb_isr_invoke_event_cb usbcfg USB_EVENT_CONFIGURED
     (upd_usb (\<lambda>u. u\<lparr>u_state := (if u_configuration u = 0 then USB_SELECTED else USB_ACTIVE)\<rparr>) (upd_usb (\<lambda>u. u\<lparr>u_configuration := ?p ! 2\<rparr>) s)))
     (\<lambda>_ s. Done True (usbSetupTransfer PNull 0 None s)))" by (rule configuration_handled[OF assms(1,2)])
qed (use assms in \<open>simp_all add: usbSetupTransfer_def lld_def status_handled\<close>)

lemma request_handled:
  assumes "kinv s" "usb_base d (usbd s)" "u_ep0endcb (usbd s) = None"
  shows "handled d (request_handler usbcfg s)"
proof -
  have h: "requests_hook_cb usbcfg = Some sduRequestsHook" by (simp add: usbcfg_def)
  show ?thesis unfolding request_handler_def h option.case
    using assms default_handled[OF assms] by (simp add: sduRequestsHook_def Let_def usbSetupTransfer_def)
qed

section \<open>Every interrupt keeps the invariant\<close>

lemma setup_keeps:
  assumes "usb_inv d s"
  shows "keeps d (usb_irq (Setup_packet p) s)"
proof -
  have b: "kinv (with_setup p s)" "usb_base d (usbd (with_setup p s))" "u_ep0endcb (usbd (with_setup p s)) = None"
    using assms by (simp_all add: usb_inv_def with_setup_def ep0_link_def)
  from request_handled[OF b] obtain r s' where
    r: "request_handler usbcfg (with_setup p s) = Done r s'" "kinv s'" "usb_base d (usbd s')" "u_ep0endcb (usbd s') = None"
    unfolding handled_def by blast
  have "u_config (usbd s)" "u_epc (usbd s) 0 = Some ep0config" using assms base_epc unfolding usb_inv_def by blast+
  then show ?thesis using r start_keeps error_keeps by (cases r) (simp_all add: setup_irq)
qed

lemma ep0_in_keeps:
  assumes "usb_inv d s"
  shows "keeps d (usb_irq (In_done 0) s)"
proof -
  let ?s = "upd_usb (\<lambda>u. u\<lparr>u_transmitting := u_transmitting u AND - 2\<rparr>) s"
  have i: "usb_base d (usbd s)" "kinv s" "ep0_link (usbd s)" using assms by (simp_all add: usb_inv_def)
  have b: "kinv ?s" "usb_base d (usbd ?s)" "u_ep0endcb (usbd ?s) = None" "in_maxsize ep0config = 64"
    using i by (auto simp: usb_base_def ep0_link_def clear_bit_0 ep0config_def)
  have k: "keeps d (usb_ep0in usbcfg ?s)"
  proof (cases "u_ep0state (usbd s)")
    case USB_EP0_TX
    then show ?thesis using b base_epc(1)[OF b(2)]
      by (auto simp: usb_ep0in_def Let_def set_ep0state_def intro!: transmit_keeps receive_keeps)
  next
    case USB_EP0_SENDING_STS
    then show ?thesis using b by (simp add: usb_ep0in_def ep0_endcb_def keeps_def set_ep0state_def usb_inv_def ep0_link_def)
  qed (use b error_keeps[OF b(1-3)] in \<open>simp_all add: usb_ep0in_def\<close>)
  then show ?thesis using in_irq[OF base_epc(1)[OF i(1)]] by simp
qed

lemma ep0_out_keeps:
  assumes "usb_inv d s"
  shows "keeps d (usb_irq (Out_done 0 n) s)"
proof -
  let ?s = "upd_usb (\<lambda>u. u\<lparr>u_outstates := (u_outstates u)(0 := (u_outstates u 0)\<lparr>rxcnt := n\<rparr>), u_receiving := u_receiving u AND - 2\<rparr>) s"
  have i: "usb_base d (usbd s)" "kinv s" "ep0_link (usbd s)" using assms by (simp_all add: usb_inv_def)
  have b: "kinv ?s" "usb_base d (usbd ?s)" "u_ep0endcb (usbd ?s) = None" "out_state ep0config = Some 0"
    using i by (auto simp: usb_base_def ep0_link_def clear_bit_0 ep0config_def)
  have k: "keeps d (usb_ep0out usbcfg ?s)"
  proof (cases "u_ep0state (usbd s)")
    case USB_EP0_RX
    then show ?thesis using b by (auto simp: usb_ep0out_def set_ep0state_def intro!: transmit_keeps)
  next
    case USB_EP0_WAITING_STS
    then show ?thesis using b base_epc(1)[OF b(2)] error_keeps[OF b(1-3)]
      by (cases "n = 0") (simp_all add: usb_ep0out_def ep0_endcb_def, simp add: keeps_def set_ep0state_def usb_inv_def ep0_link_def)
  qed (use b error_keeps[OF b(1-3)] in \<open>simp_all add: usb_ep0out_def\<close>)
  then show ?thesis using out_irq[OF base_epc(1)[OF i(1)], of n] by simp
qed

lemma ep1_in_keeps:
  assumes "usb_inv d s" "bit (u_transmitting (usbd s)) 1"
  shows "keeps d (usb_irq (In_done 1) s)"
proof -
  let ?s = "upd_usb (\<lambda>u. u\<lparr>u_transmitting := u_transmitting u AND - 3\<rparr>) s"
  have i: "usb_base d (usbd s)" "kinv s" "ep0_link (usbd s)" using assms by (simp_all add: usb_inv_def)
  then have e: "u_epc (usbd s) 1 = Some ep1config" "u_param (usbd s) = Some d" using assms(2) unfolding usb_base_def by auto
  have c: "in_cb ep1config = Some Sdu_data_transmitted" "in_state ep1config = Some 1" "in_maxsize ep1config = 64" by (simp_all add: ep1config_def)
  have b: "kinv ?s" "usb_base d (usbd ?s)" "ep0_link (usbd ?s)" using i by (auto simp: usb_base_def ep0_link_def clear_bit_1)
  from flags_kept[OF b(1), of d CHN_OUTPUT_EMPTY] obtain s1 where
    s1: "sdu_flags d CHN_OUTPUT_EMPTY ?s = Done () s1" "kinv s1" "kernel.more s1 = kernel.more ?s" by blast
  have u: "usbd s1 = usbd ?s" using usb_more[OF s1(3)] by simp
  have start: "keeps d (obind (usbPrepareQueuedTransmit 1 q n s1) (\<lambda>_ s. Done () (snd (usbStartTransmitI 1 s))))" for q n
    using s1(2) b(2,3) e c unfolding keeps_def usb_inv_def usb_base_def ep0_link_def
    by (auto simp: u usbPrepareQueuedTransmit_def prepare_in_def usbStartTransmitI_def lld_def set_bit_1 clear_bit_1)
  have stay: "keeps d (Done () s1)" using s1(2) b(2,3) by (simp add: keeps_def usb_inv_def u)
  have "usb_irq (In_done 1) s = sduDataTransmitted 1 ?s"
    using e c by (simp add: usb_irq_def usb_isr_invoke_in_cb_def call_ep_def Let_def)
  moreover have "keeps d (sduDataTransmitted 1 ?s)"
    using e c s1(1) start stay by (simp add: sduDataTransmitted_def Let_def u)
  ultimately show ?thesis by simp
qed

lemma ep1_out_keeps:
  assumes "usb_inv d s" "bit (u_receiving (usbd s)) 1"
  shows "keeps d (usb_irq (Out_done 1 n) s)"
proof -
  let ?s = "upd_usb (\<lambda>u. u\<lparr>u_outstates := (u_outstates u)(1 := (u_outstates u 1)\<lparr>rxcnt := n\<rparr>), u_receiving := u_receiving u AND - 3\<rparr>) s"
  have i: "usb_base d (usbd s)" "kinv s" "ep0_link (usbd s)" using assms by (simp_all add: usb_inv_def)
  then have e: "u_epc (usbd s) 1 = Some ep1config" "u_param (usbd s) = Some d" using assms(2) unfolding usb_base_def by auto
  have c: "out_cb ep1config = Some Sdu_data_received" "out_state ep1config = Some 1" "out_maxsize ep1config = 64" by (simp_all add: ep1config_def)
  have b: "kinv ?s" "usb_base d (usbd ?s)" "ep0_link (usbd ?s)" using i by (auto simp: usb_base_def ep0_link_def clear_bit_1)
  from flags_kept[OF b(1), of d CHN_INPUT_AVAILABLE] obtain s1 where
    s1: "sdu_flags d CHN_INPUT_AVAILABLE ?s = Done () s1" "kinv s1" "kernel.more s1 = kernel.more ?s" by blast
  have u: "usbd s1 = usbd ?s" using usb_more[OF s1(3)] by simp
  have ep: "USB_CDC_DATA_AVAILABLE_EP = 1" by (simp add: USB_CDC_DATA_AVAILABLE_EP_def)
  have start: "keeps d (obind (usbPrepareQueuedReceive 1 q m s1) (\<lambda>_ s. Done () (snd (usbStartReceiveI 1 s))))" for q m
    using s1(2) b(2,3) e c unfolding keeps_def usb_inv_def usb_base_def ep0_link_def
    by (auto simp: u usbPrepareQueuedReceive_def prepare_out_def usbStartReceiveI_def lld_def set_bit_1 clear_bit_1)
  have stay: "keeps d (Done () s1)" using s1(2) b(2,3) by (simp add: keeps_def usb_inv_def u)
  have "usb_irq (Out_done 1 n) s = sduDataReceived 1 ?s"
    using e c by (simp add: usb_irq_def usb_isr_invoke_out_cb_def call_ep_def Let_def upd_usb_upd)
  moreover have "keeps d (sduDataReceived 1 ?s)"
    using e c s1(1) start stay by (simp add: sduDataReceived_def Let_def u out_maxsize_of_def ep)
  ultimately show ?thesis by simp
qed

lemma reset_keeps:
  assumes "kinv s" "u_config (usbd s)" "u_param (usbd s) = Some d" "u_ep0endcb (usbd s) = None"
  shows "keeps d (usb_irq Bus_reset s)"
  using assms by (simp add: keeps_def usb_irq_def usb_isr_invoke_event_cb_def usbcfg_def usb_event_def usb_reset_def lld_def upd_usb_upd
      usb_inv_def usb_base_def ep0_link_def USB_MAX_ENDPOINTS_def)

text \<open>The interrupts that can come: the end of a transfer comes where one is under way.\<close>

definition can_come :: "usbirq \<Rightarrow> usbdrv \<Rightarrow> bool" where
  "can_come i u = (case i of In_done ep \<Rightarrow> bit (u_transmitting u) ep | Out_done ep n \<Rightarrow> bit (u_receiving u) ep | _ \<Rightarrow> True)"

lemma irq_keeps:
  assumes "usb_inv d s" "can_come i (usbd s)"
  shows "keeps d (usb_irq i s)"
proof (cases i)
  case Bus_reset
  then show ?thesis using assms(1) reset_keeps by (auto simp: usb_inv_def usb_base_def ep0_link_def)
next
  case (Setup_packet p)
  then show ?thesis using assms(1) setup_keeps by blast
next
  case (In_done ep)
  then have "bit (u_transmitting (usbd s)) ep" "ep = 0 \<or> ep = 1"
    using assms by (auto simp: can_come_def usb_inv_def usb_base_def)
  then show ?thesis using assms(1) In_done ep0_in_keeps ep1_in_keeps by auto
next
  case (Out_done ep n)
  then have "bit (u_receiving (usbd s)) ep" "ep = 0 \<or> ep = 1"
    using assms by (auto simp: can_come_def usb_inv_def usb_base_def)
  then show ?thesis using assms(1) Out_done ep0_out_keeps ep1_out_keeps by auto
qed

text \<open>The notifications of the serial port's queues, undisturbed.\<close>

lemma onotify_keeps:
  assumes "usb_inv d s" "sdu_config (sdus s e)"
  shows "\<exists>s'. quiet (sdu_onotify e s) = Some ((), s') \<and> usb_inv d s'"
proof (cases "u_state (usbd s) = USB_ACTIVE")
  case True
  then have e: "u_epc (usbd s) 1 = Some ep1config" "usb_base d (usbd s)" using assms(1) by (auto simp: usb_inv_def usb_base_def)
  have c: "in_state ep1config = Some 1" by (simp add: ep1config_def)
  show ?thesis using assms True e c unfolding usb_inv_def usb_base_def ep0_link_def
    by (auto simp: USB_CDC_DATA_REQUEST_EP_def sdu_onotify_def Let_def usbPrepareQueuedTransmit_def prepare_in_def usbStartTransmitI_def lld_def set_bit_1)
qed (use assms in \<open>simp add: sdu_onotify_def\<close>)

lemma inotify_keeps:
  assumes "usb_inv d s" "sdu_config (sdus s e)"
  shows "\<exists>s'. quiet (sdu_inotify e s) = Some ((), s') \<and> usb_inv d s'"
proof (cases "u_state (usbd s) = USB_ACTIVE")
  case True
  then have e: "u_epc (usbd s) 1 = Some ep1config" "usb_base d (usbd s)" using assms(1) by (auto simp: usb_inv_def usb_base_def)
  have c: "out_state ep1config = Some 1" "out_maxsize ep1config = 64" by (simp_all add: ep1config_def)
  show ?thesis using assms True e c unfolding usb_inv_def usb_base_def ep0_link_def
    by (auto simp: USB_CDC_DATA_AVAILABLE_EP_def sdu_inotify_def Let_def out_maxsize_of_def usbPrepareQueuedReceive_def prepare_out_def usbStartReceiveI_def lld_def set_bit_1)
qed (use assms in \<open>simp add: sdu_inotify_def\<close>)

text \<open>
  The runs of the device: a reset of the bus, and then interrupts in any order, between which threads may do with
  the rest of the system what keeps the kernel's invariant, and use the serial port.
\<close>

inductive usb_run :: "nat \<Rightarrow> 'x usbsys_scheme \<Rightarrow> bool" for d where
  run_reset: "kinv s \<Longrightarrow> u_config (usbd s) \<Longrightarrow> u_param (usbd s) = Some d \<Longrightarrow> u_ep0endcb (usbd s) = None \<Longrightarrow>
    usb_irq Bus_reset s = Done () s' \<Longrightarrow> usb_run d s'"
| run_irq: "usb_run d s \<Longrightarrow> can_come i (usbd s) \<Longrightarrow> usb_irq i s = Done () s' \<Longrightarrow> usb_run d s'"
| run_threads: "usb_run d s \<Longrightarrow> kinv s' \<Longrightarrow> usbd s' = usbd s \<Longrightarrow> usb_run d s'"
| run_write: "usb_run d s \<Longrightarrow> sdu_config (sdus s e) \<Longrightarrow> quiet (sdu_onotify e s) = Some ((), s') \<Longrightarrow> usb_run d s'"
| run_read: "usb_run d s \<Longrightarrow> sdu_config (sdus s e) \<Longrightarrow> quiet (sdu_inotify e s) = Some ((), s') \<Longrightarrow> usb_run d s'"

lemma run_inv: "usb_run d s \<Longrightarrow> usb_inv d s"
proof (induction rule: usb_run.induct)
  case (run_reset s s')
  then show ?case using reset_keeps[of s d] by (simp add: keeps_def)
next
  case (run_irq s i s')
  then show ?case using irq_keeps[of d s i] by (simp add: keeps_def)
next
  case (run_threads s s')
  then show ?case by (simp add: usb_inv_def)
next
  case (run_write s e s')
  then show ?case using onotify_keeps[of d s e] by auto
next
  case (run_read s e s')
  then show ?case using inotify_keeps[of d s e] by auto
qed

section \<open>The descriptors\<close>

text \<open>A chain of descriptors, each of which starts with its length.\<close>

function split_descriptors :: "byte list \<Rightarrow> byte list list option" where
  "split_descriptors [] = Some []"
| "split_descriptors (b # bs) =
     (if unat b = 0 \<or> Suc (length bs) < unat b then None
      else map_option (Cons (take (unat b) (b # bs))) (split_descriptors (drop (unat b) (b # bs))))"
  by pat_completeness auto
termination
  by (relation "measure length") auto

declare split_descriptors.simps [simp del]

definition is_interface :: "byte list \<Rightarrow> bool" where "is_interface d \<longleftrightarrow> d ! 1 = USB_DESCRIPTOR_INTERFACE"
definition is_endpoint :: "byte list \<Rightarrow> bool" where "is_endpoint d \<longleftrightarrow> d ! 1 = USB_DESCRIPTOR_ENDPOINT"

text \<open>Every interface is followed by as many endpoints as it announces.\<close>

fun endpoints_counted :: "byte list list \<Rightarrow> bool" where
  "endpoints_counted [] = True"
| "endpoints_counted (d # ds) \<longleftrightarrow>
     (is_interface d \<longrightarrow> length (filter is_endpoint (takeWhile (\<lambda>d. \<not> is_interface d) ds)) = unat (d ! 4)) \<and> endpoints_counted ds"

text \<open>The endpoints that the configuration opens take the packets that their descriptors announce.\<close>

definition endpoint_served :: "byte list \<Rightarrow> bool" where
  "endpoint_served d \<longleftrightarrow>
     (let n = unat (d ! 2 AND 0x0F); size = unat (usbFetchWord (d ! 4) (d ! 5)); c = if n = 1 then ep1config else ep2config
      in n \<in> {1, 2} \<and> (if d ! 2 AND 0x80 \<noteq> 0 then in_cb c \<noteq> None \<and> size \<le> in_maxsize c else out_cb c \<noteq> None \<and> size \<le> out_maxsize c))"

definition descriptor_ok :: "byte \<Rightarrow> usbdescriptor \<Rightarrow> bool" where
  "descriptor_ok t d \<longleftrightarrow> ud_size d = length (ud_string d) \<and> ud_string d ! 1 = t \<and>
     (if t = USB_DESCRIPTOR_CONFIGURATION then
        unat (usbFetchWord (ud_string d ! 2) (ud_string d ! 3)) = length (ud_string d) \<and>
        (case split_descriptors (ud_string d) of None \<Rightarrow> False
         | Some ds \<Rightarrow> length (filter is_interface ds) = unat (ud_string d ! 4) \<and> endpoints_counted ds \<and>
             list_all endpoint_served (filter is_endpoint ds))
      else unat (ud_string d ! 0) = length (ud_string d))"

lemmas desc_data = vcom_device_descriptor_def vcom_device_descriptor_data_def vcom_configuration_descriptor_def
  vcom_configuration_descriptor_data_def vcom_strings_def vcom_string0_def vcom_string1_def vcom_string2_def vcom_string3_def
  USB_DESC_DEVICE_def USB_DESC_CONFIGURATION_def USB_DESC_INTERFACE_def USB_DESC_ENDPOINT_def USB_DESC_WORD_def
  USB_CDC_INTERRUPT_REQUEST_EP_def USB_CDC_DATA_AVAILABLE_EP_def USB_CDC_DATA_REQUEST_EP_def
  USB_DESCRIPTOR_DEVICE_def USB_DESCRIPTOR_CONFIGURATION_def USB_DESCRIPTOR_STRING_def USB_DESCRIPTOR_INTERFACE_def USB_DESCRIPTOR_ENDPOINT_def
  CH_KERNEL_MAJOR_def CH_KERNEL_MINOR_def CH_KERNEL_PATCH_def

lemma configuration_ok: "descriptor_ok USB_DESCRIPTOR_CONFIGURATION vcom_configuration_descriptor"
  by code_simp

lemma device_ok: "descriptor_ok USB_DESCRIPTOR_DEVICE vcom_device_descriptor"
  by code_simp

lemma strings_ok: "list_all (descriptor_ok USB_DESCRIPTOR_STRING) vcom_strings"
  by code_simp

lemma sizes: "ud_size vcom_device_descriptor = 18" "ud_size vcom_configuration_descriptor = 67" "map ud_size vcom_strings = [4, 38, 56, 8]"
  by (simp_all add: desc_data)

end
