(* ===== verification/Usb_Properties.thy ===== *)
theory Usb_Properties
  imports Usb_Safe Demo
begin

text \<open>
  The properties of the USB device of the robot, over the definitions of theories \<open>Usb\<close>, \<open>Usb_Cdc\<close> and
  \<open>Usb_Cfg\<close>, each with its witness.
\<close>

definition demo_usb :: usbsys where
  "demo_usb = demo_on
     \<lparr>usbd = \<lparr>u_state = USB_READY, u_config = True, u_param = Some 0, u_transmitting = 0, u_receiving = 0, u_epc = (\<lambda>_. None),
        u_ep0state = USB_EP0_WAITING_SETUP, u_ep0next = PNull, u_ep0n = 0, u_ep0endcb = None, u_setup = replicate 8 0, u_status = 0,
        u_address = 0, u_configuration = 0, u_instates = (\<lambda>_. \<lparr>txqueued = False, txbuf = PNull, txsize = 0, txcnt = 0\<rparr>),
        u_outstates = (\<lambda>_. \<lparr>rxqueued = False, rxbuf = PNull, rxsize = 0, rxcnt = 0\<rparr>), u_setup_buf = replicate 8 0,
        u_in_status = (\<lambda>_. EP_STATUS_ACTIVE), u_out_status = (\<lambda>_. EP_STATUS_ACTIVE), u_lld = []\<rparr>,
      sdus = (\<lambda>_. \<lparr>sdu_event = 0, sdu_state = SDU_READY, sdu_iqueue = 0, sdu_oqueue = 1, sdu_config = True\<rparr>),
      linecoding = linecoding_default\<rparr>"

lemma demo_usb_usbd: "kinv demo_usb" "u_config (usbd demo_usb)" "u_param (usbd demo_usb) = Some 0" "u_ep0endcb (usbd demo_usb) = None"
  using demo_kinv by (simp_all add: demo_usb_def demo_on_def)

text \<open>The device after a reset of the bus.\<close>

definition demo_device :: usbsys where
  "demo_device = usb_reset demo_usb"

lemma demo_reset: "usb_irq Bus_reset demo_usb = Done () demo_device"
  using demo_usb_usbd(2) by (simp add: demo_device_def usb_irq_def usb_isr_invoke_event_cb_def usbcfg_def usb_event_def usb_reset_def lld_def
      upd_usb_upd)

lemma demo_run: "usb_run 0 demo_device"
  by (rule run_reset[OF demo_usb_usbd demo_reset])

lemma demo_free: "ep0_free (usbd demo_device)"
  using demo_usb_usbd(2) by (simp add: demo_device_def usb_reset_def ep0_free_def lld_def upd_usb_upd)

section \<open>Safety\<close>



section \<open>Descriptors\<close>

lemma fetch_word: "usbFetchWord (ucast w) (ucast (drop_bit 8 w)) = w"
  by (rule bit_word_eqI) (auto simp: usbFetchWord_def bit_or_iff bit_push_bit_iff bit_ucast_iff bit_drop_bit_eq)

lemma descriptor_cases:
  assumes "get_descriptor t i lang = Some desc"
  shows "descriptor_ok t desc" "ud_size desc mod 64 \<noteq> 0" "0 < ud_size desc"
proof -
  have s: "vcom_strings ! unat i \<in> set vcom_strings" if "i < 4"
    using that by (intro nth_mem) (simp add: vcom_strings_def word_less_nat_alt)
  have "set (map ud_size vcom_strings) = {4, 38, 56, 8}" unfolding sizes by simp
  then have "ud_size (vcom_strings ! unat i) \<in> {4, 38, 56, 8}" if "i < 4" using s[OF that] by (metis image_eqI set_map)
  moreover have "descriptor_ok USB_DESCRIPTOR_STRING (vcom_strings ! unat i)" if "i < 4"
    using s[OF that] strings_ok by (simp add: list_all_iff)
  ultimately show "descriptor_ok t desc" "ud_size desc mod 64 \<noteq> 0" "0 < ud_size desc"
    using assms device_ok configuration_ok sizes by (auto simp: get_descriptor_def split: if_splits)
qed

lemma descriptor_request:
  assumes "get_descriptor t i lang = Some desc" "p = [0x80, USB_REQ_GET_DESCRIPTOR, i, t, ucast lang, ucast (drop_bit 8 lang), l0, l1]"
  shows "request_handler usbcfg (with_setup p s) = Done True (usbSetupTransfer (PConst (ud_string desc)) (ud_size desc) None (with_setup p s))"
proof -
  have "sduRequestsHook (with_setup p s) = Done False (with_setup p s)"
    by (simp add: sduRequestsHook_def Let_def with_setup_def assms(2) USB_RTYPE_TYPE_MASK_def USB_RTYPE_TYPE_CLASS_def)
  moreover have "default_handler usbcfg (with_setup p s) = Done True (usbSetupTransfer (PConst (ud_string desc)) (ud_size desc) None (with_setup p s))"
    using assms(1) by (simp add: default_handler_def Let_def with_setup_def assms(2) fetch_word usbcfg_def request_code_def USB_RTYPE_RECIPIENT_MASK_def
        USB_RTYPE_TYPE_MASK_def USB_RTYPE_RECIPIENT_DEVICE_def USB_REQ_GET_STATUS_def USB_REQ_CLEAR_FEATURE_def USB_REQ_SET_FEATURE_def
        USB_REQ_SET_ADDRESS_def USB_REQ_GET_DESCRIPTOR_def)
  moreover have "u_setup (usbd (with_setup p s)) ! 0 AND USB_RTYPE_TYPE_MASK = USB_RTYPE_TYPE_STD"
    by (simp add: with_setup_def assms(2) USB_RTYPE_TYPE_MASK_def USB_RTYPE_TYPE_STD_def)
  ultimately show ?thesis by (simp add: request_handler_def usbcfg_def)
qed

text \<open>
  C39: reading a descriptor. Each descriptor of the device is well formed: it carries its type and length, and the
  configuration is a chain that fills its total length, with as many interfaces and endpoints as are announced,
  for which the endpoints that the device opens are large enough. When the host asks for one,
  the device sends its first bytes, as many as asked for or there are, never with an empty packet behind, then takes the
  host's status packet, and is ready for the next request with nothing else changed.
\<close>

theorem usb_descriptor_read:
  fixes wlen :: "16 word"
  assumes "ep0_free (usbd s)" "get_descriptor t i lang = Some desc" "0 < wlen"
    "p = [0x80, USB_REQ_GET_DESCRIPTOR, i, t, ucast lang, ucast (drop_bit 8 lang), ucast wlen, ucast (drop_bit 8 wlen)]"
  shows "descriptor_ok t desc \<and>
    (\<exists>s1 s2 s3. usb_irq (Setup_packet p) s = Done () s1 \<and> usb_irq (In_done 0) s1 = Done () s2 \<and> usb_irq (Out_done 0 0) s2 = Done () s3 \<and>
      u_ep0state (usbd s1) = USB_EP0_TX \<and> txbuf (u_instates (usbd s1) 0) = PConst (ud_string desc) \<and>
      txsize (u_instates (usbd s1) 0) = min (length (ud_string desc)) (unat wlen) \<and>
      u_ep0state (usbd s2) = USB_EP0_WAITING_STS \<and> u_ep0state (usbd s3) = USB_EP0_WAITING_SETUP \<and> ep0_free (usbd s3) \<and>
      u_lld (usbd s3) = u_lld (usbd s) @ [Lld_prepare_transmit 0, Lld_start_in 0, Lld_prepare_receive 0, Lld_start_out 0] \<and>
      u_state (usbd s3) = u_state (usbd s) \<and> u_address (usbd s3) = u_address (usbd s) \<and>
      u_configuration (usbd s3) = u_configuration (usbd s) \<and> u_epc (usbd s3) = u_epc (usbd s) \<and> kernel.truncate s3 = kernel.truncate s)"
proof -
  note d = descriptor_cases[OF assms(2)]
  have len: "ud_size desc = length (ud_string desc)" using d(1) by (simp add: descriptor_ok_def)
  let ?s' = "usbSetupTransfer (PConst (ud_string desc)) (ud_size desc) None (with_setup p s)"
  have w: "wLength p = unat wlen" by (simp add: wLength_def assms(4) fetch_word)
  have f: "ep0_free (usbd ?s')" "u_setup (usbd ?s') = p" "u_ep0endcb (usbd ?s') = None" "u_config (usbd s)" "u_epc (usbd s) 0 = Some ep0config"
    using assms(1) by (simp_all add: usbSetupTransfer_def with_setup_def ep0_free_def)
  have th: "to_host p" by (simp add: to_host_def assms(4) USB_RTYPE_DIR_MASK_def USB_RTYPE_DIR_DEV2HOST_def)
  let ?n = "min (u_ep0n (usbd ?s')) (wLength p)"
  have n: "u_ep0n (usbd ?s') = ud_size desc" "u_ep0next (usbd ?s') = PConst (ud_string desc)" by (simp_all add: usbSetupTransfer_def)
  have "0 < unat wlen" using assms(3) by (simp add: word_less_nat_alt)
  then have pos: "0 < ?n" "?n < wLength p \<Longrightarrow> ?n mod 64 \<noteq> 0" using d(2,3) unfolding n w by (auto simp: min_def split: if_splits)
  from control_read[OF descriptor_request[OF assms(2,4)] f(4,5) f(1-3) th refl pos] obtain f1 f2 f3 where
    r: "usb_irq (Setup_packet p) s = Done () (upd_usb f1 ?s')" "usb_irq (In_done 0) (upd_usb f1 ?s') = Done () (upd_usb f2 ?s')"
      "usb_irq (Out_done 0 0) (upd_usb f2 ?s') = Done () (upd_usb f3 ?s')" "u_ep0state (f1 (usbd ?s')) = USB_EP0_TX"
      "u_instates (f1 (usbd ?s')) 0 = \<lparr>txqueued = False, txbuf = u_ep0next (usbd ?s'), txsize = ?n, txcnt = 0\<rparr>"
      "u_ep0state (f2 (usbd ?s')) = USB_EP0_WAITING_STS" "u_ep0state (f3 (usbd ?s')) = USB_EP0_WAITING_SETUP" "ep0_free (f3 (usbd ?s'))"
      "ep0_moved (usbd ?s') (f3 (usbd ?s')) [Lld_prepare_transmit 0, Lld_start_in 0, Lld_prepare_receive 0, Lld_start_out 0]"
    by blast
  have m: "u_lld (usbd ?s') = u_lld (usbd s)" "u_state (usbd ?s') = u_state (usbd s)" "u_address (usbd ?s') = u_address (usbd s)"
    "u_configuration (usbd ?s') = u_configuration (usbd s)" "u_epc (usbd ?s') = u_epc (usbd s)"
    by (simp_all add: usbSetupTransfer_def with_setup_def)
  have t: "kernel.truncate (upd_usb f3 ?s') = kernel.truncate s"
    by (simp add: usbSetupTransfer_def with_setup_def upd_usb_def kernel.defs)
  have "usbd (upd_usb f ?s') = f (usbd ?s')" for f by simp
  then show ?thesis using d(1) r t m unfolding ep0_moved_def n w len[symmetric]
    by (intro conjI exI[of _ "upd_usb f1 ?s'"] exI[of _ "upd_usb f2 ?s'"] exI[of _ "upd_usb f3 ?s'"]) (simp_all only: usboutstate.simps usbinstate.simps)
qed

theorem usb_descriptor_read_witness:
  "\<exists>s1 s2 s3. usb_irq (Setup_packet [0x80, USB_REQ_GET_DESCRIPTOR, 0, USB_DESCRIPTOR_CONFIGURATION, 0, 0, 9, 0]) demo_device = Done () s1 \<and>
      usb_irq (In_done 0) s1 = Done () s2 \<and> usb_irq (Out_done 0 0) s2 = Done () s3 \<and>
      txbuf (u_instates (usbd s1) 0) = PConst vcom_configuration_descriptor_data \<and> txsize (u_instates (usbd s1) 0) = 9 \<and>
      u_ep0state (usbd s3) = USB_EP0_WAITING_SETUP"
proof -
  have g: "get_descriptor USB_DESCRIPTOR_CONFIGURATION 0 0 = Some vcom_configuration_descriptor"
    by (simp add: get_descriptor_def USB_DESCRIPTOR_CONFIGURATION_def USB_DESCRIPTOR_DEVICE_def)
  have d: "ud_string vcom_configuration_descriptor = vcom_configuration_descriptor_data" "length vcom_configuration_descriptor_data = 67"
    by (simp_all add: desc_data)
  show ?thesis using usb_descriptor_read[OF demo_free g, of 9, OF _ refl] unfolding d by simp blast
qed

section \<open>Enumeration\<close>

definition address_packet :: "byte \<Rightarrow> byte list" where
  "address_packet a = [0, USB_REQ_SET_ADDRESS, a, 0, 0, 0, 0, 0]"

definition configuration_packet :: "byte \<Rightarrow> byte list" where
  "configuration_packet c = [0, USB_REQ_SET_CONFIGURATION, c, 0, 0, 0, 0, 0]"

lemmas request_codes = request_code_def USB_RTYPE_RECIPIENT_MASK_def USB_RTYPE_TYPE_MASK_def USB_RTYPE_TYPE_STD_def
  USB_RTYPE_TYPE_CLASS_def USB_RTYPE_RECIPIENT_DEVICE_def USB_REQ_GET_STATUS_def USB_REQ_CLEAR_FEATURE_def USB_REQ_SET_FEATURE_def
  USB_REQ_SET_ADDRESS_def USB_REQ_GET_DESCRIPTOR_def USB_REQ_GET_CONFIGURATION_def USB_REQ_SET_CONFIGURATION_def

lemma standard_request:
  assumes "p ! 0 = 0"
  shows "request_handler usbcfg (with_setup p s) = default_handler usbcfg (with_setup p s)"
  using assms by (simp add: request_handler_def usbcfg_def sduRequestsHook_def with_setup_def Let_def request_codes)

lemma address_request:
  assumes "u_config (usbd s)"
  shows "request_handler usbcfg (with_setup (address_packet a) s) = Done True (usbSetupTransfer PNull 0 None
    (upd_usb (\<lambda>u. u\<lparr>u_address := a, u_lld := u_lld u @ [Lld_set_address a], u_state := USB_SELECTED\<rparr>) (with_setup (address_packet a) s)))"
proof -
  have u: "u_setup (usbd (with_setup (address_packet a) s)) = address_packet a" "u_config (usbd (with_setup (address_packet a) s))"
    using assms by (simp_all add: with_setup_def)
  have "default_handler usbcfg (with_setup (address_packet a) s) = obind (set_address usbcfg (with_setup (address_packet a) s))
      (\<lambda>_ s. Done True (usbSetupTransfer PNull 0 None s))"
    unfolding default_handler_def Let_def u(1) by (simp add: address_packet_def request_codes)
  moreover have "address_packet a ! 0 = 0" "address_packet a ! 2 = a" by (simp_all add: address_packet_def)
  ultimately show ?thesis using u by (simp add: standard_request set_address_run upd_usb_def)
qed

lemma configuration_request:
  assumes "u_config (usbd s)"
  shows "request_handler usbcfg (with_setup (configuration_packet c) s) = obind (usb_event USB_EVENT_CONFIGURED
    (upd_usb (\<lambda>u. u\<lparr>u_configuration := c, u_state := (if c = 0 then USB_SELECTED else USB_ACTIVE)\<rparr>) (with_setup (configuration_packet c) s)))
    (\<lambda>_ s. Done True (usbSetupTransfer PNull 0 None s))"
proof -
  have u: "u_setup (usbd (with_setup (configuration_packet c) s)) = configuration_packet c" "u_config (usbd (with_setup (configuration_packet c) s))"
    using assms by (simp_all add: with_setup_def)
  have c: "configuration_packet c ! 0 = 0" "configuration_packet c ! 2 = c" by (simp_all add: configuration_packet_def)
  have e: "usb_isr_invoke_event_cb usbcfg ev t = usb_event ev t" if "u_config (usbd t)" for ev and t :: "'a usbsys_scheme"
    using that by (simp add: usb_isr_invoke_event_cb_def usbcfg_def)
  have "default_handler usbcfg (with_setup (configuration_packet c) s) = obind (usb_event USB_EVENT_CONFIGURED
    (upd_usb (\<lambda>u. u\<lparr>u_configuration := c, u_state := (if c = 0 then USB_SELECTED else USB_ACTIVE)\<rparr>) (with_setup (configuration_packet c) s)))
    (\<lambda>_ s. Done True (usbSetupTransfer PNull 0 None s))"
    unfolding default_handler_def Let_def u(1) using u(2) c
    by (simp add: configuration_packet_def request_codes e upd_usb_upd)
  then show ?thesis unfolding standard_request[OF c(1)] .
qed

text \<open>
  C40: enumeration. The two requests that bring a device up are served at any time between transfers. After the first,
  the device answers under the address, which the hardware has been given before the status packet, as this
  controller wants it. After the second, with a configuration other than zero, it is active, the endpoints of the serial
  port are open and reception has been started.
\<close>

theorem usb_enumeration:
  assumes "usb_run d s" "ep0_free (usbd s)" "c \<noteq> 0"
  shows "\<exists>s1 s2 s3 s4. usb_irq (Setup_packet (address_packet a)) s = Done () s1 \<and> usb_irq (In_done 0) s1 = Done () s2 \<and>
    u_state (usbd s2) = USB_SELECTED \<and> u_address (usbd s2) = a \<and>
    u_lld (usbd s2) = u_lld (usbd s) @ [Lld_set_address a, Lld_prepare_transmit 0, Lld_start_in 0] \<and>
    usb_irq (Setup_packet (configuration_packet c)) s2 = Done () s3 \<and> usb_irq (In_done 0) s3 = Done () s4 \<and>
    u_state (usbd s4) = USB_ACTIVE \<and> u_configuration (usbd s4) = c \<and> u_address (usbd s4) = a \<and>
    u_epc (usbd s4) 1 = Some ep1config \<and> u_epc (usbd s4) 2 = Some ep2config \<and> usbGetReceiveStatusI 1 (usbd s4) \<and>
    u_ep0state (usbd s4) = USB_EP0_WAITING_SETUP \<and> ep0_free (usbd s4) \<and> usb_run d s4"
proof -
  have f: "u_config (usbd s)" "u_epc (usbd s) 0 = Some ep0config" using assms(2) by (simp_all add: ep0_free_def)
  let ?p = "address_packet a" and ?q = "configuration_packet c"
  let ?s' = "usbSetupTransfer PNull 0 None (upd_usb (\<lambda>u. u\<lparr>u_address := a, u_lld := u_lld u @ [Lld_set_address a], u_state := USB_SELECTED\<rparr>) (with_setup ?p s))"
  have s': "ep0_free (usbd ?s')" "u_setup (usbd ?s') = ?p" "u_ep0endcb (usbd ?s') = None" "u_ep0n (usbd ?s') = 0"
    "u_state (usbd ?s') = USB_SELECTED" "u_address (usbd ?s') = a" "u_lld (usbd ?s') = u_lld (usbd s) @ [Lld_set_address a]"
    using assms(2) by (simp_all add: usbSetupTransfer_def with_setup_def ep0_free_def)
  have nh: "\<not> to_host ?p" "\<not> to_host ?q"
    by (simp_all add: to_host_def address_packet_def configuration_packet_def USB_RTYPE_DIR_MASK_def USB_RTYPE_DIR_DEV2HOST_def)
  from control_nodata[OF address_request[OF f(1)] f s'(1-3) nh(1)] s'(4) obtain f1 f2 where
    1: "usb_irq (Setup_packet ?p) s = Done () (upd_usb f1 ?s')" "usb_irq (In_done 0) (upd_usb f1 ?s') = Done () (upd_usb f2 ?s')"
      "u_ep0state (f1 (usbd ?s')) = USB_EP0_SENDING_STS" "ep0_free (f2 (usbd ?s'))"
      "ep0_moved (usbd ?s') (f2 (usbd ?s')) [Lld_prepare_transmit 0, Lld_start_in 0]" by blast
  let ?s1 = "upd_usb f1 ?s'" and ?s2 = "upd_usb f2 ?s'"
  have r1: "usb_run d ?s1" using run_irq[OF assms(1) _ 1(1)] by (simp add: can_come_def)
  have "can_come (In_done 0) (usbd ?s1)" using run_inv[OF r1] 1(3) by (simp add: can_come_def usb_inv_def ep0_link_def)
  then have r2: "usb_run d ?s2" using run_irq[OF r1 _ 1(2)] by blast
  have g: "u_config (usbd ?s2)" "u_epc (usbd ?s2) 0 = Some ep0config" using 1(4) by (simp_all add: ep0_free_def)
  let ?t = "upd_usb (\<lambda>u. u\<lparr>u_configuration := c, u_state := (if c = 0 then USB_SELECTED else USB_ACTIVE)\<rparr>) (with_setup ?q ?s2)"
  have "kinv ?t" "usb_before d (usbd ?t)" using run_inv[OF r2] assms(3)
    by (auto simp: usb_inv_def usb_before_def usb_base_def with_setup_def)
  from configure_keeps[OF this] obtain t' where
    t': "usb_event USB_EVENT_CONFIGURED ?t = Done () t'" "usb_base d (usbd t')" "u_setup (usbd t') = u_setup (usbd ?t)"
      "u_state (usbd t') = u_state (usbd ?t)" "u_configuration (usbd t') = u_configuration (usbd ?t)" "u_address (usbd t') = u_address (usbd ?t)"
      "u_epc (usbd t') 1 = Some ep1config" "u_epc (usbd t') 2 = Some ep2config" "bit (u_receiving (usbd t')) 1"
      "\<forall>n. n \<noteq> 1 \<longrightarrow> bit (u_receiving (usbd t')) n = bit (u_receiving (usbd ?t)) n" "u_transmitting (usbd t') = u_transmitting (usbd ?t)"
    by blast
  let ?u = "usbSetupTransfer PNull 0 None t'"
  have rq: "request_handler usbcfg (with_setup ?q ?s2) = Done True ?u" using configuration_request[OF g(1), of c] t'(1) by simp
  have "ep0_free (usbd t')" using t'(2,10,11) 1(4) base_epc unfolding ep0_free_def by (simp add: with_setup_def)
  then have u: "ep0_free (usbd ?u)" "u_setup (usbd ?u) = ?q" "u_ep0endcb (usbd ?u) = None" "u_ep0n (usbd ?u) = 0"
    "u_state (usbd ?u) = USB_ACTIVE" "u_configuration (usbd ?u) = c" "u_address (usbd ?u) = u_address (usbd ?s2)"
    "u_epc (usbd ?u) 1 = Some ep1config" "u_epc (usbd ?u) 2 = Some ep2config" "bit (u_receiving (usbd ?u)) 1"
    using t' assms(3) by (simp_all add: usbSetupTransfer_def ep0_free_def with_setup_def)
  from control_nodata[OF rq g u(1-3) nh(2)] u(4) obtain f3 f4 where
    2: "usb_irq (Setup_packet ?q) ?s2 = Done () (upd_usb f3 ?u)" "usb_irq (In_done 0) (upd_usb f3 ?u) = Done () (upd_usb f4 ?u)"
      "u_ep0state (f3 (usbd ?u)) = USB_EP0_SENDING_STS" "u_ep0state (f4 (usbd ?u)) = USB_EP0_WAITING_SETUP" "ep0_free (f4 (usbd ?u))"
      "ep0_moved (usbd ?u) (f4 (usbd ?u)) [Lld_prepare_transmit 0, Lld_start_in 0]" by blast
  let ?s3 = "upd_usb f3 ?u" and ?s4 = "upd_usb f4 ?u"
  have r3: "usb_run d ?s3" using run_irq[OF r2 _ 2(1)] by (simp add: can_come_def)
  have "can_come (In_done 0) (usbd ?s3)" using run_inv[OF r3] 2(3) by (simp add: can_come_def usb_inv_def ep0_link_def)
  then have r4: "usb_run d ?s4" using run_irq[OF r3 _ 2(2)] by blast
  have a2: "u_state (usbd ?s2) = USB_SELECTED" "u_address (usbd ?s2) = a"
    "u_lld (usbd ?s2) = u_lld (usbd s) @ [Lld_set_address a, Lld_prepare_transmit 0, Lld_start_in 0]"
    using 1(5) s' unfolding ep0_moved_def by simp_all
  have a4: "u_state (usbd ?s4) = USB_ACTIVE" "u_configuration (usbd ?s4) = c" "u_address (usbd ?s4) = a" "u_epc (usbd ?s4) 1 = Some ep1config"
    "u_epc (usbd ?s4) 2 = Some ep2config" "bit (u_receiving (usbd ?s4)) 1" "u_ep0state (usbd ?s4) = USB_EP0_WAITING_SETUP" "ep0_free (usbd ?s4)"
    using 2(4-6) u a2(2) unfolding ep0_moved_def by simp_all
  show ?thesis unfolding status_bit using 1(1,2) 2(1,2) a2 a4 r4 by blast
qed

theorem usb_enumeration_witness:
  "\<exists>s1 s2 s3 s4. usb_irq (Setup_packet (address_packet 5)) demo_device = Done () s1 \<and> usb_irq (In_done 0) s1 = Done () s2 \<and>
    usb_irq (Setup_packet (configuration_packet 1)) s2 = Done () s3 \<and> usb_irq (In_done 0) s3 = Done () s4 \<and>
    u_state (usbd s4) = USB_ACTIVE \<and> u_address (usbd s4) = 5 \<and> usb_run 0 s4"
  using usb_enumeration[OF demo_run demo_free, of 1 5] by (simp del: status_bit) blast

end
